(* ===== verification/Prelude.thy ===== *)
theory Prelude
  imports "HOL-Library.Word"
begin

text \<open>
  Shared vocabulary of the development: the model's basic types, bounds-checked array
  reads and writes, and the facts on bit masks, modular indices and lists that the
  component theories use.

  C \<open>int\<close> values that are flags, enumeration values, bit sets or indices far from the
  32-bit limits are HOL \<open>int\<close>s (two's complement bit operations agree on them); the
  \<open>unsigned int\<close> values whose wrap-around matters (clock ticks, message sequence
  numbers, 8-bit accumulators) are machine words.  Arrays are lists; a read or write
  outside the allocated array, which C leaves undefined, is \<open>None\<close>.
\<close>

unbundle bit_operations_syntax

type_synonym u8 = "8 word"
type_synonym u32 = "32 word"
type_synonym u64 = "64 word"
type_synonym bytes = "8 word list"

named_theorems model_simps \<open>unfolding rules of the model's straight-line code\<close>

section \<open>Arrays with bounds\<close>

definition array_get :: "'a list \<Rightarrow> nat \<Rightarrow> 'a option" where
  "array_get xs i = (if i < length xs then Some (xs ! i) else None)"

definition array_set :: "'a list \<Rightarrow> nat \<Rightarrow> 'a \<Rightarrow> 'a list option" where
  "array_set xs i x = (if i < length xs then Some (xs[i := x]) else None)"

lemma array_get_Some [simp]: "i < length xs \<Longrightarrow> array_get xs i = Some (xs ! i)"
  by (simp add: array_get_def)

lemma array_get_None [simp]: "\<not> i < length xs \<Longrightarrow> array_get xs i = None"
  by (simp add: array_get_def)

lemma array_get_append_drop:
  "array_get (xs @ ys) (length xs + k) = array_get ys k"
  by (auto simp: array_get_def nth_append)

lemma array_get_Cons_Suc [simp]: "array_get (x # xs) (Suc i) = array_get xs i"
  by (auto simp: array_get_def)

section \<open>Bit sets in C integers\<close>

lemma int_and_1_eq_1_iff: "(drop_bit n (a :: int) AND 1 = 1) = bit a n"
  by (simp add: bit_iff_odd_drop_bit and_one_eq odd_iff_mod_2_eq_one)

lemma int_and_1_eq_0_iff: "(drop_bit n (a :: int) AND 1 = 0) = (\<not> bit a n)"
  by (simp add: bit_iff_odd_drop_bit and_one_eq even_iff_mod_2_eq_zero)

lemma int_and_mask_mod: "(x :: int) AND (2 ^ k - 1) = x mod 2 ^ k"
  by (metis mask_eq_exp_minus_1 take_bit_eq_mask take_bit_eq_mod)

lemma bit_ext_int: "(\<And>n. bit (a :: int) n = bit b n) \<Longrightarrow> a = b"
  by (simp add: bit_eq_iff)

section \<open>Lists\<close>

lemma nth_update_other: "i \<noteq> j \<Longrightarrow> xs[i := x] ! j = xs ! j"
  by simp

lemma map_upt_eqI:
  "n = length ys \<Longrightarrow> (\<And>i. i < n \<Longrightarrow> f i = ys ! i) \<Longrightarrow> map f [0..<n] = ys"
  by (auto intro: nth_equalityI)

lemma distinct_map_upt_inj:
  "inj_on f {0..<n} \<Longrightarrow> distinct (map f [0..<n])"
  by (simp add: distinct_map)

section \<open>Indices modulo a power of two\<close>

lemma mod_add_unique:
  fixes t :: int
  assumes "0 \<le> i" "i < n" "0 \<le> j" "j < n" "(t + i) mod n = (t + j) mod n"
  shows "i = j"
proof -
  have "i mod n = j mod n"
    using assms(5) by (metis add_diff_cancel_left' mod_diff_left_eq)
  then show ?thesis using assms by simp
qed

section \<open>Loops that make progress\<close>

text \<open>
  A step that keeps an invariant and decreases a rank as long as the goal is not reached
  reaches the goal, within as many steps as the rank says.
\<close>

locale progress =
  fixes step :: "'s \<Rightarrow> 's"
    and inv :: "'s \<Rightarrow> bool"
    and goal :: "'s \<Rightarrow> bool"
    and rank :: "'s \<Rightarrow> nat"
  assumes step_inv: "inv s \<Longrightarrow> \<not> goal s \<Longrightarrow> inv (step s)"
    and step_rank: "inv s \<Longrightarrow> \<not> goal s \<Longrightarrow> rank (step s) < rank s"
begin

lemma reaches_goal: "inv s \<Longrightarrow> \<exists>n \<le> rank s. goal ((step ^^ n) s) \<and> inv ((step ^^ n) s)"
proof (induction "rank s" arbitrary: s rule: less_induct)
  case less
  show ?case
  proof (cases "goal s")
    case True
    then show ?thesis using less.prems by (intro exI [of _ 0]) simp
  next
    case False
    then obtain n where "n \<le> rank (step s)" "goal ((step ^^ n) (step s))" "inv ((step ^^ n) (step s))"
      using less.hyps [of "step s"] step_rank [OF less.prems] step_inv [OF less.prems] by blast
    then show ?thesis
      using step_rank [OF less.prems False]
      by (intro exI [of _ "Suc n"]) (simp add: funpow_swap1 del: funpow.simps add: funpow_Suc_right)
  qed
qed

end

section \<open>Let\<close>

text \<open>A property that a chain of bindings establishes step by step.\<close>

lemma let_inv: "P x \<Longrightarrow> (\<And>y. P y \<Longrightarrow> P (f y)) \<Longrightarrow> P (Let x f)"
  by simp

section \<open>Words\<close>

lemma uint_add_small:
  fixes w :: "'a :: len word"
  assumes "0 \<le> d" "uint w + d < 2 ^ LENGTH('a)"
  shows "uint (w + word_of_int d) = uint w + d"
proof -
  have "uint (word_of_int (uint w + d) :: 'a word) = (uint w + d) mod 2 ^ LENGTH('a)"
    by (rule uint_word_of_int)
  moreover have "word_of_int (uint w + d) = w + word_of_int d" by (simp add: wi_hom_add [symmetric])
  ultimately show ?thesis using assms by simp
qed

lemma uint_add_no_wrap:
  fixes w :: u32
  assumes "0 \<le> d" "uint w + d < 2 ^ 32"
  shows "uint (w + word_of_int d) = uint w + d"
  using uint_add_small [of d w] assms by simp

end
