(* ===== verification/CMisc.thy ===== *)
theory CMisc
  imports Prelude
begin

text \<open>
  The helper routines of \<open>common/misc.c\<close> (bit sets, substrings, hexadecimal
  decoding, the address check) and the H.264 start-code scanner of
  \<open>common/h264.c\<close>.
\<close>

section \<open>Bit sets: \<open>misc_get_bit\<close> and its kin\<close>

definition misc_get_bit :: "int \<Rightarrow> nat \<Rightarrow> int" where
  "misc_get_bit a n = (drop_bit n a) AND 1"

definition misc_set_bit :: "int \<Rightarrow> nat \<Rightarrow> int" where
  "misc_set_bit a n =
     (let a = a AND NOT (push_bit n 1) in
      a OR push_bit n 1)"

definition misc_clear_bit :: "int \<Rightarrow> nat \<Rightarrow> int" where
  "misc_clear_bit a n = a AND NOT (push_bit n 1)"

definition misc_full_bit :: "int \<Rightarrow> nat \<Rightarrow> int" where
  "misc_full_bit a num = (if a = push_bit num 1 - 1 then 1 else 0)"

lemma misc_get_bit_eq: "misc_get_bit a n = (if bit a n then 1 else 0)"
  by (cases "bit a n") (simp_all add: misc_get_bit_def int_and_1_eq_1_iff int_and_1_eq_0_iff)

lemma misc_get_bit_nonzero [simp]: "(misc_get_bit a n \<noteq> 0) = bit a n"
  by (simp add: misc_get_bit_eq)

lemma misc_get_bit_zero [simp]: "(misc_get_bit a n = 0) = (\<not> bit a n)"
  by (simp add: misc_get_bit_eq)

lemma misc_get_bit_one [simp]: "(misc_get_bit a n = 1) = bit a n"
  by (simp add: misc_get_bit_eq)

lemma bit_misc_set_bit [simp]: "bit (misc_set_bit a n) k = (k = n \<or> bit a k)"
  by (auto simp: misc_set_bit_def Let_def bit_simps)

lemma bit_misc_clear_bit [simp]: "bit (misc_clear_bit a n) k = (k \<noteq> n \<and> bit a k)"
  by (auto simp: misc_clear_bit_def bit_simps)

lemma misc_full_bit_iff:
  "(misc_full_bit a num = 1) = (\<forall>k. bit a k = (k < num))"
proof -
  have "(a = push_bit num 1 - 1) = (a = mask num)"
    by (simp add: mask_eq_exp_minus_1 push_bit_eq_mult)
  also have "\<dots> = (\<forall>k. bit a k = (k < num))"
    by (auto simp: bit_eq_iff bit_simps)
  finally show ?thesis by (simp add: misc_full_bit_def)
qed

lemma misc_clear_bit_0 [simp]: "misc_clear_bit 0 n = 0"
  by (simp add: misc_clear_bit_def)

lemma misc_clear_set_bit:
  "\<not> bit a n \<Longrightarrow> misc_clear_bit (misc_set_bit a n) n = a"
  by (rule bit_ext_int) auto

section \<open>\<open>misc_substr\<close>\<close>

text \<open>
  \<open>dst\<close> and \<open>src\<close> are the arrays the C pointers address, with their allocated
  lengths; the terminating zero is written at \<open>dst[len]\<close>.
\<close>

fun substr_loop :: "char list \<Rightarrow> char list \<Rightarrow> nat \<Rightarrow> nat \<Rightarrow> nat \<Rightarrow> char list option" where
  "substr_loop dst src start i 0 = Some dst"
| "substr_loop dst src start i (Suc k) =
     (case array_get src (start + i) of
        None \<Rightarrow> None
      | Some c \<Rightarrow>
          (case array_set dst i c of
             None \<Rightarrow> None
           | Some dst' \<Rightarrow> substr_loop dst' src start (Suc i) k))"

definition misc_substr :: "char list \<Rightarrow> char list \<Rightarrow> nat \<Rightarrow> nat \<Rightarrow> (nat \<times> char list) option" where
  "misc_substr dst src start len =
     (case substr_loop dst src start 0 len of
        None \<Rightarrow> None
      | Some dst' \<Rightarrow> map_option (Pair len) (array_set dst' len (CHR 0x00)))"

lemma substr_loop_ok:
  "start + i + k \<le> length src \<Longrightarrow> i + k \<le> length dst \<Longrightarrow>
   substr_loop dst src start i k =
     Some (take i dst @ take k (drop (start + i) src) @ drop (i + k) dst)"
proof (induction k arbitrary: i dst)
  case 0
  then show ?case by simp
next
  case (Suc k)
  from Suc.prems have len: "start + i < length src" "i < length dst" by auto
  have "substr_loop dst src start i (Suc k) =
      substr_loop (dst[i := src ! (start + i)]) src start (Suc i) k"
    using len by (simp add: array_set_def)
  also have "\<dots> = Some (take (Suc i) (dst[i := src ! (start + i)])
      @ take k (drop (start + Suc i) src) @ drop (Suc i + k) (dst[i := src ! (start + i)]))"
    using Suc.prems by (subst Suc.IH) auto
  also have "\<dots> = Some (take i dst @ take (Suc k) (drop (start + i) src) @ drop (i + Suc k) dst)"
    using len by (simp add: take_Suc_conv_app_nth Cons_nth_drop_Suc [symmetric] add.commute)
  finally show ?case .
qed

lemma substr_loop_length: "substr_loop dst src start i k = Some dst' \<Longrightarrow> length dst' = length dst"
  by (induction dst src start i k rule: substr_loop.induct)
     (auto simp: array_set_def split: option.splits if_splits)

lemma misc_substr_overflow:
  "length dst \<le> len \<Longrightarrow> misc_substr dst src start len = None"
  by (auto simp: misc_substr_def array_set_def dest: substr_loop_length split: option.splits)

section \<open>\<open>misc_arm_address_check\<close>\<close>

definition misc_arm_address_check :: "u32 \<Rightarrow> int" where
  "misc_arm_address_check address =
     (if address = 0 then 1
      else if address > 0x80000000 then 1
      else if address < 0x1000 then 1
      else 0)"

section \<open>\<open>misc_str_hex_2_hex\<close>\<close>

text \<open>The value of a hexadecimal digit character, as the three range tests of the code.\<close>

definition hex_digit :: "char \<Rightarrow> u8 option" where
  "hex_digit c =
     (let n = (of_char c :: nat) in
      if 48 \<le> n \<and> n \<le> 57 then Some (of_nat (n - 48))
      else if 97 \<le> n \<and> n \<le> 102 then Some (of_nat (n - 97 + 10))
      else if 65 \<le> n \<and> n \<le> 70 then Some (of_nat (n - 65 + 10))
      else None)"

text \<open>
  The loop keeps \<open>temp\<close> from one iteration to the next: a character that is no digit
  leaves the high nibble of the previous byte in place, as in the source.
\<close>

fun hex_loop :: "u8 \<Rightarrow> char list \<Rightarrow> u8 list" where
  "hex_loop temp (h # l # src) =
     (let temp = (case hex_digit h of Some v \<Rightarrow> push_bit 4 v | None \<Rightarrow> temp);
          temp = (case hex_digit l of Some v \<Rightarrow> temp + v | None \<Rightarrow> temp)
      in temp # hex_loop temp src)"
| "hex_loop temp _ = []"

definition misc_str_hex_2_hex :: "char list \<Rightarrow> nat \<Rightarrow> (nat \<times> u8 list) option" where
  "misc_str_hex_2_hex src src_len =
     (if 2 * (src_len div 2) \<le> length src
      then Some (src_len div 2, hex_loop 0 (take (2 * (src_len div 2)) src))
      else None)"

text \<open>A reference encoder, for the round trip.\<close>

definition hex_char :: "bool \<Rightarrow> u8 \<Rightarrow> char" where
  "hex_char upper v =
     char_of (if unat v < 10 then 48 + unat v
              else if upper then 55 + unat v else (87 + unat v :: nat))"

fun hex_encode :: "bool \<Rightarrow> u8 list \<Rightarrow> char list" where
  "hex_encode upper [] = []"
| "hex_encode upper (b # bs) =
     hex_char upper (drop_bit 4 b) # hex_char upper (b AND 15) # hex_encode upper bs"

lemma hex_digit_char: "v < 16 \<Longrightarrow> hex_digit (hex_char upper v) = Some v"
proof -
  assume "v < 16"
  then have v: "unat v < 16" by (simp add: word_less_nat_alt)
  have [simp]: "n < 256 \<Longrightarrow> (of_char (char_of (n :: nat)) :: nat) = n" for n
    by (simp add: of_char_of)
  have "of_nat (unat v) = v" by simp
  moreover have "10 \<le> unat v \<Longrightarrow> 87 + unat v - 97 + 10 = unat v"
    and "10 \<le> unat v \<Longrightarrow> 55 + unat v - 65 + 10 = unat v" by auto
  ultimately show ?thesis
    using v by (auto simp: hex_digit_def hex_char_def Let_def)
qed

lemma nibbles_lt: "drop_bit 4 (b :: u8) < 16" "(b AND 15 :: u8) < 16"
proof -
  have "unat (drop_bit 4 b) = unat b div 16"
    by (simp add: drop_bit_eq_div unat_div)
  also have "\<dots> < 16"
  proof -
    have "unat b < 2 ^ LENGTH(8)" by (rule unsigned_less)
    then show ?thesis by simp
  qed
  finally show "drop_bit 4 b < 16" by (simp add: word_less_nat_alt)
  have "b AND 15 \<le> 15" by (rule word_and_le1)
  then show "b AND 15 < 16" by (rule order_le_less_trans) simp
qed

lemma nibbles_join: "push_bit 4 (drop_bit 4 b) + (b AND 15) = (b :: u8)"
proof -
  have m: "(15 :: u8) = mask 4" by (simp add: mask_eq_exp_minus_1)
  have "push_bit 4 (drop_bit 4 b) + (b AND 15) = push_bit 4 (drop_bit 4 b) OR (b AND 15)"
    by (rule disjunctive_add) (auto simp: bit_simps m)
  also have "\<dots> = b" unfolding m by (auto simp: bit_eq_iff bit_simps)
  finally show ?thesis .
qed

lemma hex_loop_encode: "hex_loop temp (hex_encode upper bs) = bs"
  by (induction bs arbitrary: temp)
     (simp_all add: Let_def hex_digit_char nibbles_lt nibbles_join)

lemma length_hex_encode [simp]: "length (hex_encode upper bs) = 2 * length bs"
  by (induction bs) auto

lemma length_hex_loop: "length (hex_loop temp src) = length src div 2"
  by (induction temp src rule: hex_loop.induct) (auto simp: Let_def)

section \<open>The H.264 start-code scanner\<close>

definition h264_is_iframe :: "u8 \<Rightarrow> int" where
  "h264_is_iframe flag =
     (let flag = flag AND 0x1f in
      if flag = 7 \<or> flag = 8 \<or> flag = 5 then 1 else 0)"

definition h264_is_pframe :: "u8 \<Rightarrow> int" where
  "h264_is_pframe b = (if b = 0x41 then 1 else 0)"

record nalu_unit_t =
  nalu_type :: int
  nalu_size :: int
  nalu_data :: nat  \<comment> \<open>the offset in the pack of the first payload byte\<close>

text \<open>
  One evaluation of the condition \<open>p[i++]==0 && p[i++]==0 && p[i++]==0 && p[i++]==1\<close>:
  the truth value and the index after the increments that were evaluated.
\<close>

definition start_code_step :: "bytes \<Rightarrow> nat \<Rightarrow> (bool \<times> nat) option" where
  "start_code_step p i =
     (case array_get p i of None \<Rightarrow> None | Some b0 \<Rightarrow>
      if b0 \<noteq> 0 then Some (False, i + 1) else
      (case array_get p (i + 1) of None \<Rightarrow> None | Some b1 \<Rightarrow>
       if b1 \<noteq> 0 then Some (False, i + 2) else
       (case array_get p (i + 2) of None \<Rightarrow> None | Some b2 \<Rightarrow>
        if b2 \<noteq> 0 then Some (False, i + 3) else
        (case array_get p (i + 3) of None \<Rightarrow> None | Some b3 \<Rightarrow>
         if b3 \<noteq> 1 then Some (False, i + 4) else Some (True, i + 4)))))"

lemma start_code_step_gt: "start_code_step p i = Some (b, j) \<Longrightarrow> i < j"
  by (auto simp: start_code_step_def split: option.splits if_splits)

text \<open>The loop \<open>while (i < nPackLen)\<close> around the condition.\<close>

function find_start_code :: "bytes \<Rightarrow> nat \<Rightarrow> nat \<Rightarrow> (bool \<times> nat) option" where
  "find_start_code p n i =
     (if i < n then
        (case start_code_step p i of
           None \<Rightarrow> None
         | Some (found, j) \<Rightarrow> if found then Some (True, j) else find_start_code p n j)
      else Some (False, i))"
  by pat_completeness auto
termination
  by (relation "measure (\<lambda>(p, n, i). n - i)") (auto dest: start_code_step_gt)

declare find_start_code.simps [simp del]

definition h264_read_nalu :: "bytes \<Rightarrow> nat \<Rightarrow> nat \<Rightarrow> nalu_unit_t \<Rightarrow> (int \<times> nalu_unit_t) option" where
  "h264_read_nalu pPack nPackLen offSet unit0 =
     (case find_start_code pPack nPackLen offSet of
        None \<Rightarrow> None
      | Some (False, _) \<Rightarrow> Some (0, unit0)
      | Some (True, i) \<Rightarrow>
          (case find_start_code pPack nPackLen i of
             None \<Rightarrow> None
           | Some (_, pos) \<Rightarrow>
               let size = (if pos = nPackLen then int pos - int i
                           else (int pos - 4) - int i) in
               (case array_get pPack i of
                  None \<Rightarrow> None
                | Some b \<Rightarrow>
                    Some (size + int i - int offSet,
                      \<lparr>nalu_type = uint (b AND 0x1f), nalu_size = size, nalu_data = i\<rparr>))))"

text \<open>The payloads the scanner handles: no zero run of length three, no zero at the end.\<close>

fun nal_clean :: "bytes \<Rightarrow> bool" where
  "nal_clean [] = False"
| "nal_clean [b] = (b \<noteq> 0)"
| "nal_clean [a, b] = (b \<noteq> 0)"
| "nal_clean (a # b # c # r) = ((a \<noteq> 0 \<or> b \<noteq> 0 \<or> c \<noteq> 0) \<and> nal_clean (b # c # r))"

definition start_code :: bytes where
  "start_code = [0, 0, 0, 1]"

lemma nal_clean_tl: "nal_clean (a # r) \<Longrightarrow> r \<noteq> [] \<Longrightarrow> nal_clean r"
  by (cases "a # r" rule: nal_clean.cases) auto

lemma nal_clean_skip:
  assumes "nal_clean pay"
  shows "\<exists>k. 0 < k \<and> k \<le> length pay
    \<and> (\<forall>p i. take (length pay) (drop i p) = pay \<longrightarrow> start_code_step p i = Some (False, i + k))
    \<and> (k = length pay \<or> nal_clean (drop k pay))"
proof -
  have rd: "array_get p (i + k) = Some (pay ! k)"
    if "take (length pay) (drop i p) = pay" "k < length pay" for p :: bytes and i k
  proof -
    have "k < length (drop i p)" using that by (metis length_take min_less_iff_conj)
    moreover have "pay ! k = drop i p ! k" using that by (metis nth_take)
    ultimately show ?thesis by (simp add: array_get_def)
  qed
  obtain b0 r where pay: "pay = b0 # r" using assms by (cases pay) auto
  show ?thesis
  proof (cases "b0 = 0")
    case False
    have "r = [] \<or> nal_clean r" using assms pay nal_clean_tl by blast
    with False show ?thesis
      using rd [where k = 0] by (intro exI [of _ 1]) (auto simp: pay start_code_step_def)
  next
    case True
    then obtain b1 r1 where r: "r = b1 # r1" using assms pay by (cases r) auto
    show ?thesis
    proof (cases "b1 = 0")
      case False
      have "r1 = [] \<or> nal_clean r1" using assms pay r nal_clean_tl by blast
      with True False show ?thesis
        using rd [where k = 0] rd [where k = 1]
        by (intro exI [of _ 2]) (auto simp: pay r start_code_step_def)
    next
      case b1: True
      then obtain b2 r2 where r1: "r1 = b2 # r2" using assms pay r by (cases r1) auto
      then have b2: "b2 \<noteq> 0" using assms pay r True b1 by auto
      have "r2 = [] \<or> nal_clean r2" using assms pay r r1 nal_clean_tl by blast
      with True b1 b2 show ?thesis
        using rd [where k = 0] rd [where k = 1] rd [where k = 2]
        by (intro exI [of _ 3]) (auto simp: pay r r1 start_code_step_def)
    qed
  qed
qed

lemma find_start_code_skip_clean:
  "nal_clean pay \<Longrightarrow> take (length pay) (drop i p) = pay \<Longrightarrow> i + length pay \<le> n \<Longrightarrow>
   find_start_code p n i = find_start_code p n (i + length pay)"
proof (induction "length pay" arbitrary: pay i rule: less_induct)
  case less
  obtain k where k: "0 < k" "k \<le> length pay" "start_code_step p i = Some (False, i + k)"
    "k = length pay \<or> nal_clean (drop k pay)"
    using nal_clean_skip [OF less.prems(1)] less.prems(2) by blast
  have "i < n" using k less.prems by linarith
  then have "find_start_code p n i = find_start_code p n (i + k)"
    by (subst find_start_code.simps) (simp add: k)
  also have "\<dots> = find_start_code p n (i + length pay)"
  proof (cases "k = length pay")
    case False
    then have c: "nal_clean (drop k pay)" using k by blast
    have "take (length (drop k pay)) (drop (i + k) p) = drop k pay"
    proof -
      have "take (length pay - k) (drop k (drop i p)) = drop k (take (length pay) (drop i p))"
        by (simp add: drop_take)
      then show ?thesis using less.prems(2) by (simp add: add.commute)
    qed
    then have "find_start_code p n (i + k) = find_start_code p n (i + k + length (drop k pay))"
      using k(1,2) less.prems c by (intro less.hyps) auto
    then show ?thesis using k by simp
  qed simp
  finally show ?case .
qed

lemma start_code_step_at:
  "take 4 (drop i p) = start_code \<Longrightarrow> start_code_step p i = Some (True, i + 4)"
proof -
  assume a: "take 4 (drop i p) = start_code"
  then have "length (take 4 (drop i p)) = 4" by (simp add: start_code_def)
  then have len: "i + 4 \<le> length p" by simp
  have "p ! (i + k) = start_code ! k" if "k < 4" for k
    using a that len by (metis add_leD1 nth_drop nth_take)
  from this [of 0] this [of 1] this [of 2] this [of 3] show ?thesis
    using len by (simp add: start_code_step_def start_code_def)
qed

lemma find_start_code_at:
  "take 4 (drop i p) = start_code \<Longrightarrow> i < n \<Longrightarrow> find_start_code p n i = Some (True, i + 4)"
  by (subst find_start_code.simps) (simp add: start_code_step_at)

lemma find_start_code_end: "find_start_code p n n = Some (False, n)"
  by (subst find_start_code.simps) simp

section \<open>Properties\<close>

text \<open>
  Decoding the hexadecimal text of any byte string, in either case of digits, gives the
  bytes back and their number.
\<close>

theorem hex_roundtrip:
  "misc_str_hex_2_hex (hex_encode upper bs) (length (hex_encode upper bs)) = Some (length bs, bs)"
  by (simp add: misc_str_hex_2_hex_def hex_loop_encode)

text \<open>
  \<open>misc_substr\<close> copies \<open>len\<close> characters and terminates them exactly when the source has
  them and the destination has one more byte than \<open>len\<close>; a destination of \<open>len\<close> bytes or
  fewer is written out of bounds.
\<close>

theorem misc_substr_spec:
  "(start + len \<le> length src \<and> len < length dst \<longrightarrow>
      misc_substr dst src start len =
        Some (len, take len (drop start src) @ CHR 0x00 # drop (Suc len) dst))
   \<and> (length dst \<le> len \<longrightarrow> misc_substr dst src start len = None)"
  using substr_loop_ok [of start 0 len src dst] misc_substr_overflow [of dst len src start]
  by (auto simp: misc_substr_def array_set_def list_update_append upd_conv_take_nth_drop
      Cons_nth_drop_Suc [symmetric])

theorem misc_substr_spec_witness:
  "misc_substr (replicate 5 CHR ''x'') ''20210131'' 4 2 = Some (2, ''01'' @ [CHR 0x00, CHR ''x'', CHR ''x''])
   \<and> misc_substr (replicate 4 CHR ''x'') ''20210131'' 0 4 = None"
  using misc_substr_spec [of 4 2 "''20210131''" "replicate 5 CHR ''x''"]
    misc_substr_spec [of 0 4 "''20210131''" "replicate 4 CHR ''x''"]
  by (simp add: numeral_eq_Suc)

text \<open>
  The bit-set routines act on the addressed bit and no other, and \<open>misc_full_bit\<close>
  recognises exactly the set of the first \<open>num\<close> bits.
\<close>

theorem bit_set_spec:
  "bit (misc_set_bit a n) k = (k = n \<or> bit a k)
   \<and> bit (misc_clear_bit a n) k = (k \<noteq> n \<and> bit a k)
   \<and> (misc_get_bit a n = 1) = bit a n \<and> (misc_get_bit a n = 0) = (\<not> bit a n)
   \<and> (misc_full_bit a n = 1) = (\<forall>j. bit a j = (j < n))"
  by (simp add: misc_full_bit_iff)

text \<open>
  C37: On a stream of units whose payloads have no run of three zero bytes and do not end in
  zero, \<open>h264_read_nalu\<close> at a start code returns the payload's position, size and type and
  how far to advance, for the last unit and for one followed by another unit alike.
\<close>

theorem read_nalu_spec:
  assumes "nal_clean pay"
    and "pack = before @ start_code @ pay @ (if last_unit then [] else start_code @ rest)"
    and "last_unit \<or> rest \<noteq> []"
  shows "h264_read_nalu pack (length pack) (length before) unit0 =
    Some (4 + int (length pay),
      \<lparr>nalu_type = uint (pay ! 0 AND 0x1f), nalu_size = int (length pay), nalu_data = length before + 4\<rparr>)"
proof -
  let ?i = "length before + 4"
  let ?tail = "if last_unit then [] else start_code @ rest"
  have l4: "length start_code = 4" by (simp add: start_code_def)
  have ne: "pay \<noteq> []" using assms(1) by auto
  have at: "take 4 (drop (length before) pack) = start_code" by (simp add: assms(2) l4)
  have f1: "find_start_code pack (length pack) (length before) = Some (True, ?i)"
    using find_start_code_at [OF at] by (simp add: assms(2) l4)
  have "take (length pay) (drop ?i pack) = pay" by (simp add: assms(2) l4)
  then have skip: "find_start_code pack (length pack) ?i
      = find_start_code pack (length pack) (?i + length pay)"
    using assms by (intro find_start_code_skip_clean) (simp_all add: l4)
  have hd: "array_get pack ?i = Some (pay ! 0)"
    using ne by (simp add: assms(2) array_get_def nth_append l4)
  show ?thesis
  proof (cases last_unit)
    case True
    then have "length pack = ?i + length pay" by (simp add: assms(2) l4)
    then show ?thesis
      using f1 skip hd by (simp add: h264_read_nalu_def find_start_code_end Let_def)
  next
    case False
    have "take 4 (drop (?i + length pay) pack) = start_code"
      using False by (simp add: assms(2) l4)
    moreover have lt: "?i + length pay + 4 < length pack"
      using False assms(3) by (simp add: assms(2) l4)
    ultimately have "find_start_code pack (length pack) (?i + length pay)
        = Some (True, ?i + length pay + 4)"
      by (intro find_start_code_at) auto
    then show ?thesis
      using f1 skip hd lt by (simp add: h264_read_nalu_def Let_def)
  qed
qed

theorem read_nalu_spec_witness:
  "h264_read_nalu [0, 0, 0, 1, 0x67, 0x42, 0, 0, 0, 1, 0x65] 11 0
     \<lparr>nalu_type = 0, nalu_size = 0, nalu_data = 0\<rparr>
   = Some (6, \<lparr>nalu_type = 7, nalu_size = 2, nalu_data = 4\<rparr>)"
proof -
  have l: "length [0, 0, 0, 1, 0x67, 0x42, 0, 0, 0, 1, 0x65 :: u8] = 11" by simp
  show ?thesis
    using read_nalu_spec [of "[0x67, 0x42]" "[0, 0, 0, 1, 0x67, 0x42, 0, 0, 0, 1, 0x65]" "[]" False "[0x65]",
        unfolded l]
    by (simp add: start_code_def)
qed

end
