(* ===== verification/MsgBuffer.thy ===== *)
theory MsgBuffer
  imports CMisc "HOL-Library.Sublist"
begin

text \<open>
  The message queue of \<open>common/buffer/msg_buffer.c\<close>: a ring of \<open>size\<close> slots with
  indices masked by \<open>size - 1\<close>, one slot always free, and two overflow policies.

  A message carries two optional memory blocks (\<open>arg\<close>, \<open>extra\<close>).  Here a block is its
  contents (\<open>'p option\<close>, \<open>None\<close> the null pointer): a deep copy hands the receiver its own
  block with equal contents, and freeing a block makes the pointer null.
  The ring's slot array is an option too: it is null before \<open>msg_buffer_init\<close>, after
  \<open>msg_buffer_release\<close> and when the allocation fails.  \<open>b_fault\<close> is a ghost flag, set
  where the code would dereference the null array or an index outside of it.
\<close>

section \<open>Data\<close>

text \<open>
  The function pointers the program stores in \<open>message_arg_t.handler\<close>, by the name of the
  function; \<open>H_other\<close> stands for a pointer the development does not name.
\<close>

datatype handler_t =
    H_NULL
  | H_sleep_check_scheduler
  | H_manager_routine_proc
  | H_manager_delayed_start
  | H_manager_kill_all
  | H_test_func
  | H_device_check_reset
  | H_video_md_check_scheduler
  | H_ircut_opt_release
  | H_other nat

record message_arg_t =
  dog :: int
  cat :: int
  duck :: int
  chick :: int
  tiger :: int
  wolf :: int
  handler :: handler_t

record 'p message_t =
  m_message :: int
  m_sender :: int
  m_receiver :: int
  m_result :: int
  m_arg_in :: message_arg_t
  m_arg_pass :: message_arg_t
  m_arg_size :: int
  m_arg :: "'p option"
  m_extra_size :: int
  m_extra :: "'p option"
  m_sequence :: u32

record 'p message_buffer_t =
  b_buffer :: "'p message_t list option"
  b_size :: int
  b_head :: int
  b_tail :: int
  b_init :: int
  b_overflow :: int
  b_sequence :: u32
  b_fault :: bool

abbreviation (input) "MSG_BUFFER_OVERFLOW_NO \<equiv> 0 :: int"
abbreviation (input) "MSG_BUFFER_OVERFLOW_YES \<equiv> 1 :: int"
abbreviation (input) "MSG_BUFFER_PUSH_SUCCESS \<equiv> 0 :: int"
abbreviation (input) "MSG_BUFFER_PUSH_SUCCESS_WITH_OVERFLOW \<equiv> 1 :: int"
abbreviation (input) "MSG_BUFFER_PUSH_FAIL \<equiv> 2 :: int"

section \<open>Messages\<close>

definition arg_zero :: message_arg_t where
  "arg_zero = \<lparr>dog = 0, cat = 0, duck = 0, chick = 0, tiger = 0, wolf = 0, handler = H_NULL\<rparr>"

definition msg_init :: "'p message_t" where
  "msg_init = \<lparr>m_message = 0, m_sender = 0, m_receiver = 0, m_result = 0,
     m_arg_in = arg_zero, m_arg_pass = arg_zero,
     m_arg_size = 0, m_arg = None, m_extra_size = 0, m_extra = None, m_sequence = 0\<rparr>"

definition free_arg :: "'p message_t \<Rightarrow> 'p message_t" where
  "free_arg m = (if m_arg m \<noteq> None \<and> m_arg_size m > 0
     then m\<lparr>m_arg := None, m_arg_size := 0\<rparr> else m)"

definition free_extra :: "'p message_t \<Rightarrow> 'p message_t" where
  "free_extra m = (if m_extra m \<noteq> None \<and> m_extra_size m > 0
     then m\<lparr>m_extra := None, m_extra_size := 0\<rparr> else m)"

definition msg_free :: "'p message_t option \<Rightarrow> int \<times> 'p message_t option" where
  "msg_free data = (case data of None \<Rightarrow> (- 1, None)
     | Some m \<Rightarrow> (0, Some (free_extra (free_arg m))))"

definition msg_is_system :: "int \<Rightarrow> bool" where
  "msg_is_system mid = (mid AND 0xFFF0 = 0)"

definition msg_is_response :: "int \<Rightarrow> bool" where
  "msg_is_response mid = (mid AND 0xF000 \<noteq> 0)"

section \<open>The ring\<close>

definition msg_buffer_is_empty :: "'p message_buffer_t \<Rightarrow> bool" where
  "msg_buffer_is_empty b = (b_head b = b_tail b)"

definition msg_buffer_is_full :: "'p message_buffer_t \<Rightarrow> bool" where
  "msg_buffer_is_full b =
     ((b_head b - b_tail b) AND (b_size b - 1) = b_size b - 1)"

definition msg_buffer_num_items :: "'p message_buffer_t \<Rightarrow> int" where
  "msg_buffer_num_items b = (b_head b - b_tail b) AND (b_size b - 1)"

definition slot :: "'p message_buffer_t \<Rightarrow> int \<Rightarrow> 'p message_t option" where
  "slot b i = (case b_buffer b of None \<Rightarrow> None
     | Some xs \<Rightarrow> if 0 \<le> i then array_get xs (nat i) else None)"

definition set_slot :: "'p message_buffer_t \<Rightarrow> int \<Rightarrow> 'p message_t \<Rightarrow> 'p message_buffer_t" where
  "set_slot b i m = (case b_buffer b of
       None \<Rightarrow> b\<lparr>b_fault := True\<rparr>
     | Some xs \<Rightarrow> if 0 \<le> i \<and> nat i < length xs
                 then b\<lparr>b_buffer := Some (xs[nat i := m])\<rparr>
                 else b\<lparr>b_fault := True\<rparr>)"

definition msg_buffer_init ::
  "bool \<Rightarrow> 'p message_buffer_t \<Rightarrow> int \<Rightarrow> int \<Rightarrow> 'p message_buffer_t" where
  "msg_buffer_init alloc_ok b overflow sz =
     (let b = b\<lparr>b_head := 0, b_tail := 0, b_sequence := 0, b_size := sz,
                b_overflow := overflow, b_buffer := None\<rparr>
      in if alloc_ok
         then b\<lparr>b_buffer := Some (replicate (nat sz) msg_init), b_init := 1\<rparr>
         else b)"

definition msg_buffer_release :: "'p message_buffer_t \<Rightarrow> 'p message_buffer_t" where
  "msg_buffer_release b =
     (let b = b\<lparr>b_head := 0, b_tail := 0, b_sequence := 0\<rparr>;
          b = (case b_buffer b of
                 None \<Rightarrow> if b_size b > 0 then b\<lparr>b_fault := True\<rparr> else b
               | Some xs \<Rightarrow> b)
      in b\<lparr>b_buffer := None, b_init := 0\<rparr>)"

definition msg_buffer_probe_item ::
  "'p message_buffer_t \<Rightarrow> int \<Rightarrow> 'p message_t \<Rightarrow> int \<times> 'p message_t" where
  "msg_buffer_probe_item b n msg =
     (if msg_buffer_is_empty b then (1, msg)
      else let index = (b_tail b + n) AND (b_size b - 1) in
           if index = b_head b then (1, msg)
           else (case slot b index of Some m \<Rightarrow> (0, m) | None \<Rightarrow> (0, msg)))"

definition msg_buffer_pop ::
  "'p message_buffer_t \<Rightarrow> 'p message_t \<Rightarrow> int \<times> 'p message_t \<times> 'p message_buffer_t" where
  "msg_buffer_pop b data =
     (if msg_buffer_is_empty b then (1, data, b)
      else case slot b (b_tail b) of
             None \<Rightarrow> (0, data, b\<lparr>b_fault := True\<rparr>)
           | Some m \<Rightarrow>
               let b = set_slot b (b_tail b) (free_extra (free_arg m));
                   b = b\<lparr>b_tail := (b_tail b + 1) AND (b_size b - 1)\<rparr>
               in (0, m, b))"

definition msg_buffer_push ::
  "'p message_buffer_t \<Rightarrow> 'p message_t option \<Rightarrow> int \<times> 'p message_buffer_t" where
  "msg_buffer_push b data =
     (case data of None \<Rightarrow> (MSG_BUFFER_PUSH_FAIL, b)
      | Some m \<Rightarrow>
        if msg_buffer_is_full b \<and> b_overflow b \<noteq> MSG_BUFFER_OVERFLOW_YES
        then (MSG_BUFFER_PUSH_FAIL, b)
        else
          let (ret, b) =
                (if msg_buffer_is_full b then
                   (case slot b (b_tail b) of
                      None \<Rightarrow> (MSG_BUFFER_PUSH_SUCCESS_WITH_OVERFLOW, b\<lparr>b_fault := True\<rparr>)
                    | Some old \<Rightarrow>
                        let b = set_slot b (b_tail b) (free_extra (free_arg old))
                        in (MSG_BUFFER_PUSH_SUCCESS_WITH_OVERFLOW,
                            b\<lparr>b_tail := (b_tail b + 1) AND (b_size b - 1)\<rparr>))
                 else (MSG_BUFFER_PUSH_SUCCESS, b));
              b = b\<lparr>b_sequence := b_sequence b + 1\<rparr>;
              b = set_slot b (b_head b) (m\<lparr>m_sequence := b_sequence b\<rparr>)
          in (ret, b\<lparr>b_head := (b_head b + 1) AND (b_size b - 1)\<rparr>))"

text \<open>
  \<open>msg_buffer_swap_item\<close> exchanges two slots through a temporary.
\<close>

definition msg_buffer_swap_item ::
  "'p message_buffer_t \<Rightarrow> int \<Rightarrow> int \<Rightarrow> 'p message_buffer_t" where
  "msg_buffer_swap_item b org dest =
     (case (slot b org, slot b dest) of
        (Some mo, Some md) \<Rightarrow> set_slot (set_slot b org md) dest mo
      | _ \<Rightarrow> b\<lparr>b_fault := True\<rparr>)"

text \<open>
  The rundown loop of \<open>msg_buffer_swap\<close>: it walks the ring downwards until it meets
  \<open>org_index\<close>.  At most \<open>size\<close> steps are needed (lemma \<open>swap_contents\<close>); \<open>fuel\<close> is the
  size of the ring.
\<close>

fun swap_rundown ::
  "nat \<Rightarrow> 'p message_buffer_t \<Rightarrow> int \<Rightarrow> int \<Rightarrow> int \<Rightarrow> 'p message_buffer_t option" where
  "swap_rundown 0 b org_index last_index rundown_index = None"
| "swap_rundown (Suc fuel) b org_index last_index rundown_index =
     (if rundown_index \<noteq> org_index then
        let b = msg_buffer_swap_item b rundown_index last_index;
            last_index = rundown_index;
            rundown_index = (last_index - 1) AND (b_size b - 1)
        in swap_rundown fuel b org_index last_index rundown_index
      else Some b)"

definition msg_buffer_swap ::
  "'p message_buffer_t \<Rightarrow> int \<Rightarrow> int \<Rightarrow> (int \<times> 'p message_buffer_t) option" where
  "msg_buffer_swap b org dest =
     (if org = dest then Some (1, b)
      else let org_index = (b_tail b + org) AND (b_size b - 1);
               dest_index = (b_tail b + dest) AND (b_size b - 1);
               b = msg_buffer_swap_item b org_index dest_index;
               last_index = dest_index;
               rundown_index = (last_index - 1) AND (b_size b - 1)
           in map_option (Pair 0)
                (swap_rundown (nat (b_size b)) b org_index last_index rundown_index))"

section \<open>Well-formed rings and their contents\<close>

definition slot_free :: "'p message_t \<Rightarrow> bool" where
  "slot_free m = (free_extra (free_arg m) = m)"

definition ring_wf :: "'p message_buffer_t \<Rightarrow> bool" where
  "ring_wf b = ((\<exists>k \<ge> 1. b_size b = 2 ^ k) \<and>
     (\<exists>xs. b_buffer b = Some xs \<and> int (length xs) = b_size b) \<and>
     0 \<le> b_head b \<and> b_head b < b_size b \<and> 0 \<le> b_tail b \<and> b_tail b < b_size b \<and>
     \<not> b_fault b)"

definition ring_at :: "'p message_buffer_t \<Rightarrow> nat \<Rightarrow> 'p message_t" where
  "ring_at b i = the (b_buffer b) ! nat ((b_tail b + int i) mod b_size b)"

definition ring_count :: "'p message_buffer_t \<Rightarrow> nat" where
  "ring_count b = nat ((b_head b - b_tail b) mod b_size b)"

definition contents :: "'p message_buffer_t \<Rightarrow> 'p message_t list" where
  "contents b = map (ring_at b) [0..<ring_count b]"

definition capacity :: "'p message_buffer_t \<Rightarrow> nat" where
  "capacity b = nat (b_size b - 1)"

lemma ring_size_pos: "ring_wf b \<Longrightarrow> 2 \<le> b_size b"
proof -
  assume "ring_wf b"
  then obtain k where k: "k \<ge> 1" "b_size b = 2 ^ k" by (auto simp: ring_wf_def)
  have "(2::int) ^ 1 \<le> 2 ^ k" by (rule power_increasing) (use k in auto)
  with k show ?thesis by simp
qed

lemma ring_mask: "ring_wf b \<Longrightarrow> x AND (b_size b - 1) = x mod b_size b"
  by (auto simp: ring_wf_def int_and_mask_mod)

lemma ring_mod_bounds:
  "ring_wf b \<Longrightarrow> 0 \<le> x mod b_size b" "ring_wf b \<Longrightarrow> x mod b_size b < b_size b"
  using ring_size_pos [of b] by auto

lemma ring_count_lt: "ring_wf b \<Longrightarrow> int (ring_count b) < b_size b"
  using ring_mod_bounds [of b] by (simp add: ring_count_def)

lemma int_ring_count: "ring_wf b \<Longrightarrow> int (ring_count b) = (b_head b - b_tail b) mod b_size b"
  using ring_mod_bounds [of b] by (simp add: ring_count_def)

lemma ring_head_eq:
  "ring_wf b \<Longrightarrow> b_head b = (b_tail b + int (ring_count b)) mod b_size b"
  by (simp add: int_ring_count mod_add_right_eq) (auto simp: ring_wf_def)

lemma ring_empty_iff: "ring_wf b \<Longrightarrow> msg_buffer_is_empty b = (ring_count b = 0)"
proof -
  assume wf: "ring_wf b"
  then have "b_tail b mod b_size b = b_tail b" by (auto simp: ring_wf_def)
  with ring_head_eq [OF wf] have "ring_count b = 0 \<Longrightarrow> b_head b = b_tail b" by simp
  moreover have "b_head b = b_tail b \<Longrightarrow> ring_count b = 0" by (simp add: ring_count_def)
  ultimately show ?thesis by (auto simp: msg_buffer_is_empty_def)
qed

lemma ring_num_items: "ring_wf b \<Longrightarrow> msg_buffer_num_items b = int (ring_count b)"
  by (simp add: msg_buffer_num_items_def ring_mask int_ring_count)

lemma ring_full_iff: "ring_wf b \<Longrightarrow> msg_buffer_is_full b = (ring_count b = capacity b)"
  using ring_size_pos [of b] ring_count_lt [of b]
  by (auto simp: msg_buffer_is_full_def ring_mask int_ring_count [symmetric] capacity_def)

lemma ring_count_le_capacity: "ring_wf b \<Longrightarrow> ring_count b \<le> capacity b"
  using ring_count_lt [of b] by (simp add: capacity_def)

lemma length_contents [simp]: "length (contents b) = ring_count b"
  by (simp add: contents_def)

lemma nth_contents [simp]: "i < ring_count b \<Longrightarrow> contents b ! i = ring_at b i"
  by (simp add: contents_def)

lemma slot_ring_at:
  "ring_wf b \<Longrightarrow> slot b ((b_tail b + int i) mod b_size b) = Some (ring_at b i)"
  using ring_mod_bounds [of b "b_tail b + int i"]
  by (auto simp: ring_wf_def slot_def ring_at_def array_get_def)

lemma slot_tail: "ring_wf b \<Longrightarrow> slot b (b_tail b) = Some (ring_at b 0)"
  using slot_ring_at [of b 0] by (auto simp: ring_wf_def)

section \<open>The three elementary moves\<close>

text \<open>Writing the slot at offset \<open>j\<close> from the tail.\<close>

definition put_at :: "'p message_buffer_t \<Rightarrow> nat \<Rightarrow> 'p message_t \<Rightarrow> 'p message_buffer_t" where
  "put_at b j m = set_slot b ((b_tail b + int j) mod b_size b) m"

lemma put_at_eq:
  "ring_wf b \<Longrightarrow> put_at b j m =
     b\<lparr>b_buffer := Some ((the (b_buffer b))[nat ((b_tail b + int j) mod b_size b) := m])\<rparr>"
  using ring_mod_bounds [of b "b_tail b + int j"]
  by (auto simp: put_at_def set_slot_def ring_wf_def)

lemma put_at_wf: "ring_wf b \<Longrightarrow> ring_wf (put_at b j m)"
  by (simp add: put_at_eq) (auto simp: ring_wf_def)

lemma put_at_fields [simp]:
  "b_size (put_at b j m) = b_size b" "b_head (put_at b j m) = b_head b"
  "b_tail (put_at b j m) = b_tail b" "b_sequence (put_at b j m) = b_sequence b"
  "b_overflow (put_at b j m) = b_overflow b" "b_init (put_at b j m) = b_init b"
  by (simp_all add: put_at_def set_slot_def split: option.split)

lemma put_at_count [simp]: "ring_count (put_at b j m) = ring_count b"
  by (simp add: ring_count_def)

lemma put_at_capacity [simp]: "capacity (put_at b j m) = capacity b"
  by (simp add: capacity_def)

lemma ring_at_put_at:
  assumes wf: "ring_wf b" and i: "int i < b_size b" and j: "int j < b_size b"
  shows "ring_at (put_at b j m) i = (if i = j then m else ring_at b i)"
proof -
  let ?ix = "\<lambda>i. nat ((b_tail b + int i) mod b_size b)"
  have "?ix i = ?ix j \<longleftrightarrow> i = j"
  proof
    assume "?ix i = ?ix j"
    then have "(b_tail b + int i) mod b_size b = (b_tail b + int j) mod b_size b"
      using ring_mod_bounds [OF wf] by (metis eq_nat_nat_iff)
    then have "int i = int j" by (rule mod_add_unique [rotated 4]) (use i j in auto)
    then show "i = j" by simp
  qed simp
  moreover have "?ix j < length (the (b_buffer b))"
    using wf ring_mod_bounds [OF wf, of "b_tail b + int j"] by (auto simp: ring_wf_def)
  ultimately show ?thesis
    unfolding ring_at_def put_at_eq [OF wf] by (auto simp: nth_list_update)
qed

lemma contents_put_at:
  assumes "ring_wf b" "int j < b_size b"
  shows "contents (put_at b j m) = (contents b)[j := m]"
proof (rule nth_equalityI)
  fix i assume "i < length (contents (put_at b j m))"
  then have "i < ring_count b" "int i < b_size b" using ring_count_lt [OF assms(1)] by auto
  then show "contents (put_at b j m) ! i = (contents b)[j := m] ! i"
    by (simp add: ring_at_put_at assms nth_list_update)
qed simp

text \<open>Advancing the tail drops the oldest message.\<close>

definition drop_tail :: "'p message_buffer_t \<Rightarrow> 'p message_buffer_t" where
  "drop_tail b = b\<lparr>b_tail := (b_tail b + 1) AND (b_size b - 1)\<rparr>"

lemma drop_tail_wf: "ring_wf b \<Longrightarrow> ring_wf (drop_tail b)"
  using ring_mod_bounds [of b "b_tail b + 1"] ring_mask [of b "b_tail b + 1"]
  by (simp add: drop_tail_def ring_wf_def)

lemma drop_tail_fields [simp]:
  "b_size (drop_tail b) = b_size b" "b_head (drop_tail b) = b_head b"
  "b_sequence (drop_tail b) = b_sequence b" "b_overflow (drop_tail b) = b_overflow b"
  "b_init (drop_tail b) = b_init b" "capacity (drop_tail b) = capacity b"
  by (simp_all add: drop_tail_def capacity_def)

lemma drop_tail_count:
  assumes wf: "ring_wf b" and pos: "0 < ring_count b"
  shows "ring_count (drop_tail b) = ring_count b - 1"
proof -
  have "(b_head b - (b_tail b + 1) mod b_size b) mod b_size b
      = ((b_head b - b_tail b) mod b_size b - 1) mod b_size b"
    by (simp add: mod_simps diff_diff_eq)
  also have "\<dots> = (int (ring_count b) - 1) mod b_size b"
    by (simp add: int_ring_count wf)
  also have "\<dots> = int (ring_count b) - 1"
    using pos ring_count_lt [OF wf] by simp
  finally show ?thesis
    unfolding ring_count_def [of "drop_tail b"] by (simp add: drop_tail_def ring_mask wf)
qed

lemma ring_at_drop_tail: "ring_wf b \<Longrightarrow> ring_at (drop_tail b) i = ring_at b (Suc i)"
  by (simp add: ring_at_def drop_tail_def ring_mask mod_add_left_eq add.assoc)

lemma contents_drop_tail:
  assumes "ring_wf b" "0 < ring_count b"
  shows "contents (drop_tail b) = tl (contents b)"
  by (rule nth_equalityI)
     (use assms in \<open>auto simp: drop_tail_count ring_at_drop_tail nth_tl\<close>)

text \<open>Advancing the head publishes the slot just behind the contents.\<close>

definition push_head :: "'p message_buffer_t \<Rightarrow> 'p message_buffer_t" where
  "push_head b = b\<lparr>b_head := (b_head b + 1) AND (b_size b - 1)\<rparr>"

lemma push_head_wf: "ring_wf b \<Longrightarrow> ring_wf (push_head b)"
  using ring_mod_bounds [of b "b_head b + 1"] ring_mask [of b "b_head b + 1"]
  by (simp add: push_head_def ring_wf_def)

lemma push_head_count:
  assumes wf: "ring_wf b" and room: "ring_count b < capacity b"
  shows "ring_count (push_head b) = Suc (ring_count b)"
proof -
  have "((b_head b + 1) mod b_size b - b_tail b) mod b_size b
      = ((b_head b - b_tail b) mod b_size b + 1) mod b_size b"
    by (simp add: mod_simps algebra_simps)
  also have "\<dots> = (int (ring_count b) + 1) mod b_size b"
    by (simp add: int_ring_count wf)
  also have "\<dots> = int (ring_count b) + 1"
    using room by (simp add: capacity_def)
  finally show ?thesis
    unfolding ring_count_def [of "push_head b"] by (simp add: push_head_def ring_mask wf)
qed

lemma ring_at_push_head [simp]: "ring_at (push_head b) i = ring_at b i"
  by (simp add: ring_at_def push_head_def)

lemma contents_push_head:
  assumes "ring_wf b" "ring_count b < capacity b"
  shows "contents (push_head b) = contents b @ [ring_at b (ring_count b)]"
  by (simp add: contents_def push_head_count assms)

section \<open>What the operations do to the contents\<close>

lemma set_slot_head: "ring_wf b \<Longrightarrow> set_slot b (b_head b) x = put_at b (ring_count b) x"
  by (simp add: put_at_def ring_head_eq [symmetric])

lemma set_slot_tail: "ring_wf b \<Longrightarrow> set_slot b (b_tail b) x = put_at b 0 x"
  by (simp add: put_at_def) (simp add: ring_wf_def)

lemma ring_wf_sequence [simp]: "ring_wf (b\<lparr>b_sequence := q\<rparr>) = ring_wf b"
  by (simp add: ring_wf_def)

lemma ring_sequence_simps [simp]:
  "ring_count (b\<lparr>b_sequence := q\<rparr>) = ring_count b"
  "ring_at (b\<lparr>b_sequence := q\<rparr>) i = ring_at b i"
  "contents (b\<lparr>b_sequence := q\<rparr>) = contents b"
  "capacity (b\<lparr>b_sequence := q\<rparr>) = capacity b"
  by (simp_all add: ring_count_def ring_at_def contents_def capacity_def)

lemma push_head_fields [simp]:
  "b_size (push_head b) = b_size b" "b_tail (push_head b) = b_tail b"
  "b_sequence (push_head b) = b_sequence b" "b_overflow (push_head b) = b_overflow b"
  "b_init (push_head b) = b_init b" "capacity (push_head b) = capacity b"
  by (simp_all add: push_head_def capacity_def)

lemma capacity_lt: "ring_wf b \<Longrightarrow> int (capacity b) < b_size b"
  using ring_size_pos [of b] by (simp add: capacity_def)

lemma capacity_pos: "ring_wf b \<Longrightarrow> 0 < capacity b"
  using ring_size_pos [of b] by (simp add: capacity_def)

definition append_msg :: "'p message_buffer_t \<Rightarrow> 'p message_t \<Rightarrow> 'p message_buffer_t" where
  "append_msg b m =
     (let b = b\<lparr>b_sequence := b_sequence b + 1\<rparr>
      in push_head (put_at b (ring_count b) (m\<lparr>m_sequence := b_sequence b\<rparr>)))"

lemma append_msg_props:
  assumes wf: "ring_wf b" and room: "ring_count b < capacity b"
  shows "ring_wf (append_msg b m)"
    and "contents (append_msg b m) = contents b @ [m\<lparr>m_sequence := b_sequence b + 1\<rparr>]"
    and "capacity (append_msg b m) = capacity b"
    and "b_overflow (append_msg b m) = b_overflow b"
    and "b_init (append_msg b m) = b_init b"
    and "b_sequence (append_msg b m) = b_sequence b + 1"
    and "b_size (append_msg b m) = b_size b"
  using assms capacity_lt [OF wf]
  by (simp_all add: append_msg_def Let_def push_head_wf put_at_wf contents_push_head
        contents_put_at ring_at_put_at list_update_beyond)

lemma push_room:
  assumes wf: "ring_wf b" and room: "ring_count b < capacity b"
  shows "msg_buffer_push b (Some m) = (MSG_BUFFER_PUSH_SUCCESS, append_msg b m)"
proof -
  let ?b = "b\<lparr>b_sequence := b_sequence b + 1\<rparr>"
  have "set_slot ?b (b_head b) x = put_at ?b (ring_count b) x" for x
    using set_slot_head [of ?b x] wf by simp
  then show ?thesis
    using assms
    by (simp add: msg_buffer_push_def ring_full_iff append_msg_def push_head_def Let_def)
qed

lemma push_reject:
  assumes "ring_wf b" "ring_count b = capacity b" "b_overflow b \<noteq> MSG_BUFFER_OVERFLOW_YES"
  shows "msg_buffer_push b (Some m) = (MSG_BUFFER_PUSH_FAIL, b)"
  using assms by (simp add: msg_buffer_push_def ring_full_iff)

definition evict :: "'p message_buffer_t \<Rightarrow> 'p message_buffer_t" where
  "evict b = drop_tail (put_at b 0 (free_extra (free_arg (ring_at b 0))))"

lemma evict_props:
  assumes wf: "ring_wf b" and pos: "0 < ring_count b"
  shows "ring_wf (evict b)" and "contents (evict b) = tl (contents b)"
    and "ring_count (evict b) = ring_count b - 1"
    and "capacity (evict b) = capacity b" and "b_overflow (evict b) = b_overflow b"
    and "b_sequence (evict b) = b_sequence b" and "b_init (evict b) = b_init b"
    and "b_size (evict b) = b_size b"
proof -
  have "0 < b_size b" using ring_size_pos [OF wf] by simp
  then show "contents (evict b) = tl (contents b)"
    using assms by (cases "contents b")
      (simp_all add: evict_def contents_drop_tail put_at_wf contents_put_at)
qed (use assms in \<open>simp_all add: evict_def drop_tail_wf put_at_wf drop_tail_count\<close>)

lemma push_overflow:
  assumes wf: "ring_wf b" and full: "ring_count b = capacity b"
    and ovf: "b_overflow b = MSG_BUFFER_OVERFLOW_YES"
  shows "msg_buffer_push b (Some m) =
    (MSG_BUFFER_PUSH_SUCCESS_WITH_OVERFLOW, append_msg (evict b) m)"
proof -
  let ?e = "evict b"
  have pos: "0 < ring_count b" using full capacity_pos [OF wf] by simp
  have e: "ring_wf ?e" "b_head ?e = b_head b" using evict_props(1) [OF wf pos] by (simp_all add: evict_def)
  have hd: "set_slot (?e\<lparr>b_sequence := q\<rparr>) (b_head b) x = put_at (?e\<lparr>b_sequence := q\<rparr>) (ring_count ?e) x" for q x
    using set_slot_head [of "?e\<lparr>b_sequence := q\<rparr>" x] e by simp
  have ev: "(let b' = put_at b 0 (free_extra (free_arg (ring_at b 0)))
      in b'\<lparr>b_tail := (b_tail b' + 1) AND (b_size b' - 1)\<rparr>) = ?e"
    by (simp add: evict_def drop_tail_def)
  show ?thesis
    using wf full ovf ev [unfolded Let_def]
    by (simp add: msg_buffer_push_def ring_full_iff slot_tail set_slot_tail Let_def
        append_msg_def push_head_def e hd)
qed

lemma pop_empty: "ring_wf b \<Longrightarrow> contents b = [] \<Longrightarrow> msg_buffer_pop b d = (1, d, b)"
proof -
  assume "ring_wf b" "contents b = []"
  then have "ring_count b = 0" by (metis length_contents list.size(3))
  with \<open>ring_wf b\<close> show ?thesis by (simp add: msg_buffer_pop_def ring_empty_iff)
qed

lemma pop_nonempty:
  assumes wf: "ring_wf b" and c: "contents b = m # ms"
  shows "msg_buffer_pop b d = (0, m, evict b)"
proof -
  have n: "0 < ring_count b" using c by (metis length_contents length_greater_0_conv list.distinct(1))
  then have "ring_at b 0 = m" using c by (metis nth_contents nth_Cons_0)
  with wf n show ?thesis
    by (auto simp: msg_buffer_pop_def ring_empty_iff slot_tail set_slot_tail evict_def
        drop_tail_def Let_def)
qed

lemma init_props:
  assumes "k \<ge> 1"
  shows "ring_wf (msg_buffer_init True (b\<lparr>b_fault := False\<rparr>) ovf (2 ^ k))"
    and "contents (msg_buffer_init True b ovf (2 ^ k)) = []"
    and "capacity (msg_buffer_init True b ovf (2 ^ k)) = 2 ^ k - 1"
  using assms
  by (auto simp: msg_buffer_init_def Let_def ring_wf_def contents_def ring_count_def capacity_def
      nat_power_eq nat_diff_distrib)

section \<open>Probing and reordering\<close>

lemma probe_in: "ring_wf b \<Longrightarrow> i < ring_count b \<Longrightarrow>
  msg_buffer_probe_item b (int i) d = (0, contents b ! i)"
proof -
  assume wf: "ring_wf b" and i: "i < ring_count b"
  have "(b_tail b + int i) mod b_size b \<noteq> b_head b"
    unfolding ring_head_eq [OF wf]
    using mod_add_unique [of "int i" "b_size b" "int (ring_count b)"] i ring_count_lt [OF wf] by auto
  with wf i show ?thesis
    by (simp add: msg_buffer_probe_item_def ring_empty_iff ring_mask slot_ring_at)
qed

lemma probe_end: "ring_wf b \<Longrightarrow> msg_buffer_probe_item b (int (ring_count b)) d = (1, d)"
  by (simp add: msg_buffer_probe_item_def ring_mask ring_head_eq [symmetric])

definition swap_nth :: "nat \<Rightarrow> nat \<Rightarrow> 'a list \<Rightarrow> 'a list" where
  "swap_nth i j cs = cs[i := cs ! j, j := cs ! i]"

definition move_up :: "nat \<Rightarrow> nat \<Rightarrow> 'a list \<Rightarrow> 'a list" where
  "move_up o' d cs = take o' cs @ [cs ! d] @ drop o' (take d cs) @ drop (Suc d) cs"

lemma move_up_same: "d < length cs \<Longrightarrow> move_up d d cs = cs"
  by (simp add: move_up_def id_take_nth_drop [symmetric])

lemma move_up_length: "i \<le> d \<Longrightarrow> d < length cs \<Longrightarrow> length (move_up i d cs) = length cs"
  by (simp add: move_up_def)

lemma nth_move_up:
  assumes "i \<le> d" "d < length cs" "k < length cs"
  shows "move_up i d cs ! k = cs ! (if k = i then d else if i < k \<and> k \<le> d then k - 1 else k)"
  using assms by (auto simp: move_up_def nth_append nth_Cons' min_def)

lemma nth_swap_nth:
  assumes "i < length cs" "j < length cs" "k < length cs"
  shows "swap_nth i j cs ! k = cs ! (if k = j then i else if k = i then j else k)"
  using assms by (auto simp: swap_nth_def nth_list_update)

lemma length_swap_nth [simp]: "length (swap_nth i j cs) = length cs"
  by (simp add: swap_nth_def)

lemma move_up_step:
  assumes "i \<le> l" "Suc l < length cs"
  shows "move_up i l (swap_nth l (Suc l) cs) = move_up i (Suc l) cs"
proof (rule nth_equalityI)
  fix k assume "k < length (move_up i l (swap_nth l (Suc l) cs))"
  then have "k < length cs" using assms by (simp add: move_up_length)
  with assms show "move_up i l (swap_nth l (Suc l) cs) ! k = move_up i (Suc l) cs ! k"
    by (auto simp: nth_move_up nth_swap_nth)
qed (use assms in \<open>simp add: move_up_length\<close>)

lemma move_up_swap_first:
  assumes "i < d" "d < length cs"
  shows "move_up (Suc i) d (swap_nth i d cs) = move_up i d cs"
proof (rule nth_equalityI)
  fix k assume "k < length (move_up (Suc i) d (swap_nth i d cs))"
  then have "k < length cs" using assms by (simp add: move_up_length)
  with assms show "move_up (Suc i) d (swap_nth i d cs) ! k = move_up i d cs ! k"
    by (auto simp: nth_move_up nth_swap_nth)
qed (use assms in \<open>simp add: move_up_length\<close>)

lemma swap_item_props:
  assumes wf: "ring_wf b" and "i < ring_count b" "j < ring_count b"
  defines "b' \<equiv> msg_buffer_swap_item b ((b_tail b + int i) mod b_size b) ((b_tail b + int j) mod b_size b)"
  shows "ring_wf b'" "contents b' = swap_nth i j (contents b)"
    "b_size b' = b_size b" "b_tail b' = b_tail b" "ring_count b' = ring_count b"
    "b_overflow b' = b_overflow b" "b_head b' = b_head b" "b_sequence b' = b_sequence b"
proof -
  have eq: "b' = put_at (put_at b i (ring_at b j)) j (ring_at b i)"
    using assms by (simp add: b'_def msg_buffer_swap_item_def slot_ring_at put_at_def [of "put_at b i _"])
      (simp add: put_at_def)
  show "contents b' = swap_nth i j (contents b)"
    using assms(2,3) ring_count_lt [OF wf]
    by (simp add: eq contents_put_at put_at_wf wf swap_nth_def)
  show "ring_wf b'" "b_size b' = b_size b" "b_tail b' = b_tail b" "ring_count b' = ring_count b"
    "b_overflow b' = b_overflow b" "b_head b' = b_head b" "b_sequence b' = b_sequence b"
    by (simp_all add: eq put_at_wf wf)
qed

text \<open>
  The loop stops within \<open>last - org\<close> iterations and leaves the message at \<open>last\<close> just
  behind the one at \<open>org\<close>, the messages between them one place later.
\<close>

lemma rundown_contents:
  assumes "ring_wf b" "i \<le> l" "Suc l < ring_count b" "l - i < fuel"
  shows "\<exists>b'. swap_rundown fuel b ((b_tail b + int i) mod b_size b)
      ((b_tail b + int (Suc l)) mod b_size b) ((b_tail b + int l) mod b_size b) = Some b'
    \<and> ring_wf b' \<and> contents b' = move_up (Suc i) (Suc l) (contents b)
    \<and> b_overflow b' = b_overflow b \<and> b_sequence b' = b_sequence b \<and> b_size b' = b_size b"
  using assms
proof (induction "l - i" arbitrary: b l fuel)
  case 0
  then have "l = i" by simp
  with 0 show ?case
    by (cases fuel) (auto simp: move_up_same)
next
  case (Suc n)
  then obtain l' where l: "l = Suc l'" by (cases l) auto
  have n': "n = l' - i" "i \<le> l'" using Suc.hyps(2) l by auto
  obtain f where f: "fuel = Suc f" using Suc.prems by (cases fuel) auto
  have lf: "l' - i < f" using Suc.hyps(2) Suc.prems l f by linarith
  let ?ix = "\<lambda>j. (b_tail b + int j) mod b_size b"
  have ne: "?ix l \<noteq> ?ix i"
    using mod_add_unique [of "int l" "b_size b" "int i"] Suc.hyps(2) Suc.prems
      ring_count_lt [OF Suc.prems(1)] by auto
  define b1 where "b1 = msg_buffer_swap_item b (?ix l) (?ix (Suc l))"
  note p = swap_item_props [of b l "Suc l", folded b1_def]
  have b1: "ring_wf b1" "contents b1 = swap_nth l (Suc l) (contents b)" "b_size b1 = b_size b"
    "b_tail b1 = b_tail b" "ring_count b1 = ring_count b" "b_overflow b1 = b_overflow b"
    "b_sequence b1 = b_sequence b"
    using p Suc.prems by simp_all
  have dec: "(?ix l - 1) mod b_size b = ?ix l'"
    by (simp add: l mod_diff_left_eq)
  have "swap_rundown fuel b (?ix i) (?ix (Suc l)) (?ix l)
      = swap_rundown f b1 (?ix i) (?ix l) (?ix l')"
    using ne Suc.prems(1)
    by (simp add: f b1_def [symmetric] ring_mask b1 dec Let_def del: of_nat_Suc)
  moreover obtain b' where "swap_rundown f b1 (?ix i) (?ix l) (?ix l') = Some b'" "ring_wf b'"
    "contents b' = move_up (Suc i) (Suc l') (contents b1)" "b_overflow b' = b_overflow b1"
    "b_sequence b' = b_sequence b1" "b_size b' = b_size b1"
    using Suc.hyps(1) [of l' b1 f] n' lf Suc.prems b1 by (auto simp: l f simp del: of_nat_Suc)
  moreover have "move_up (Suc i) l (swap_nth l (Suc l) (contents b)) = move_up (Suc i) (Suc l) (contents b)"
    using Suc.hyps(2) Suc.prems by (intro move_up_step) auto
  ultimately show ?case using b1 by (simp add: l)
qed

lemma swap_contents:
  assumes wf: "ring_wf b" and "i < d" "d < ring_count b"
  shows "\<exists>b'. msg_buffer_swap b (int i) (int d) = Some (0, b')
    \<and> ring_wf b' \<and> contents b' = move_up i d (contents b)
    \<and> b_overflow b' = b_overflow b \<and> b_sequence b' = b_sequence b \<and> b_size b' = b_size b"
proof -
  obtain l where d: "d = Suc l" "i \<le> l" using \<open>i < d\<close> by (cases d) auto
  let ?ix = "\<lambda>j. (b_tail b + int j) mod b_size b"
  define b1 where "b1 = msg_buffer_swap_item b (?ix i) (?ix d)"
  note p = swap_item_props [of b i d, folded b1_def]
  have b1: "ring_wf b1" "contents b1 = swap_nth i d (contents b)" "b_size b1 = b_size b"
    "b_tail b1 = b_tail b" "ring_count b1 = ring_count b" "b_overflow b1 = b_overflow b"
    "b_sequence b1 = b_sequence b"
    using p assms by simp_all
  have dec: "(?ix d - 1) mod b_size b = ?ix l" by (simp add: d mod_diff_left_eq)
  have fuel: "l - i < nat (b_size b)" using assms ring_count_lt [OF wf] d by simp
  obtain b' where r: "swap_rundown (nat (b_size b)) b1 (?ix i) (?ix d) (?ix l) = Some b'" "ring_wf b'"
    "contents b' = move_up (Suc i) d (contents b1)" "b_overflow b' = b_overflow b1"
    "b_sequence b' = b_sequence b1" "b_size b' = b_size b1"
    using rundown_contents [of b1 i l "nat (b_size b)"] b1 assms(3) d fuel by auto
  have "msg_buffer_swap b (int i) (int d) = Some (0, b')"
    using assms r(1) by (simp add: msg_buffer_swap_def ring_mask b1_def [symmetric] b1 dec Let_def)
  moreover have "contents b' = move_up i d (contents b)"
    using r(3) b1 assms by (simp add: move_up_swap_first)
  ultimately show ?thesis using r b1 by simp
qed

section \<open>The contract of a bounded queue\<close>

text \<open>
  What the servers rely on: a queue with a view (the keys of the stored elements, oldest
  first), a capacity, and one of two overflow policies.  The facts about sequences of
  operations are proved once, under these laws.
\<close>

datatype 'm fifo_op = Push 'm | Pop

fun run_ops ::
  "('q \<Rightarrow> 'm \<Rightarrow> 'q) \<Rightarrow> ('q \<Rightarrow> 'm option \<times> 'q) \<Rightarrow> 'm fifo_op list \<Rightarrow> 'q \<Rightarrow> 'm list \<times> 'q" where
  "run_ops push pop [] q = ([], q)"
| "run_ops push pop (Push m # ops) q = run_ops push pop ops (push q m)"
| "run_ops push pop (Pop # ops) q =
     (let (r, q) = pop q; (out, q) = run_ops push pop ops q
      in (case r of None \<Rightarrow> out | Some m \<Rightarrow> m # out, q))"

fun pushed :: "'m fifo_op list \<Rightarrow> 'm list" where
  "pushed [] = []"
| "pushed (Push m # ops) = m # pushed ops"
| "pushed (Pop # ops) = pushed ops"

locale bounded_fifo =
  fixes inv :: "'q \<Rightarrow> bool"
    and view :: "'q \<Rightarrow> 'k list"
    and cap :: "'q \<Rightarrow> nat"
    and lossy :: "'q \<Rightarrow> bool"
    and key :: "'m \<Rightarrow> 'k"
    and push :: "'q \<Rightarrow> 'm \<Rightarrow> 'q"
    and pop :: "'q \<Rightarrow> 'm option \<times> 'q"
  assumes push_inv: "inv q \<Longrightarrow> inv (push q m)"
    and push_cap: "inv q \<Longrightarrow> cap (push q m) = cap q"
    and push_lossy: "inv q \<Longrightarrow> lossy (push q m) = lossy q"
    and view_bound: "inv q \<Longrightarrow> length (view q) \<le> cap q"
    and cap_pos: "inv q \<Longrightarrow> 0 < cap q"
    and push_appends: "inv q \<Longrightarrow> length (view q) < cap q \<Longrightarrow> view (push q m) = view q @ [key m]"
    and push_drops_oldest: "inv q \<Longrightarrow> length (view q) = cap q \<Longrightarrow> lossy q \<Longrightarrow>
        view (push q m) = tl (view q) @ [key m]"
    and push_refuses: "inv q \<Longrightarrow> length (view q) = cap q \<Longrightarrow> \<not> lossy q \<Longrightarrow> view (push q m) = view q"
    and pop_none: "inv q \<Longrightarrow> view q = [] \<Longrightarrow> pop q = (None, q)"
    and pop_some: "inv q \<Longrightarrow> view q = k # ks \<Longrightarrow>
        \<exists>m q'. pop q = (Some m, q') \<and> key m = k \<and> view q' = ks \<and> inv q'
          \<and> cap q' = cap q \<and> lossy q' = lossy q"
begin

lemma view_push:
  "inv q \<Longrightarrow> view (push q m) =
     (if length (view q) < cap q then view q @ [key m]
      else if lossy q then tl (view q) @ [key m] else view q)"
  using push_appends push_drops_oldest push_refuses view_bound [of q] by auto

lemma burst_lossy:
  "inv q \<Longrightarrow> lossy q \<Longrightarrow> view (foldl push q ms) =
     drop (length (view q) + length ms - cap q) (view q @ map key ms)"
proof (induction ms arbitrary: q)
  case Nil
  then show ?case using view_bound [of q] by simp
next
  case (Cons m ms)
  note v = view_bound [OF Cons.prems(1)] cap_pos [OF Cons.prems(1)]
  have "view (foldl push q (m # ms)) =
      drop (length (view (push q m)) + length ms - cap q) (view (push q m) @ map key ms)"
    using Cons push_inv push_cap push_lossy by simp
  also have "\<dots> = drop (length (view q) + length (m # ms) - cap q) (view q @ map key (m # ms))"
  proof (cases "length (view q) < cap q")
    case False
    then obtain k ks where vq: "view q = k # ks" using v by (cases "view q") auto
    with False v have c: "cap q = Suc (length ks)" by simp
    then show ?thesis using Cons.prems by (simp add: view_push vq)
  qed (use Cons.prems in \<open>simp add: view_push\<close>)
  finally show ?case .
qed

lemma burst_strict:
  "inv q \<Longrightarrow> \<not> lossy q \<Longrightarrow> view (foldl push q ms) = take (cap q) (view q @ map key ms)"
proof (induction ms arbitrary: q)
  case Nil
  then show ?case using view_bound [of q] by simp
next
  case (Cons m ms)
  then show ?case
    using view_bound [of q] push_inv push_cap push_lossy by (auto simp: view_push take_Cons')
qed

lemma run_subseq:
  "inv q \<Longrightarrow> run_ops push pop ops q = (out, q') \<Longrightarrow>
     subseq (map key out @ view q') (view q @ map key (pushed ops)) \<and> inv q'"
proof (induction ops arbitrary: q out)
  case Nil
  then show ?case by simp
next
  case (Cons op ops)
  show ?case
  proof (cases op)
    case (Push m)
    have "subseq (tl (view q)) (view q)" by (cases "view q") auto
    then have "subseq (view (push q m)) (view q @ [key m])"
      using Cons.prems(1) by (auto simp: view_push intro: list_emb_append_mono)
    then have "subseq (view (push q m) @ map key (pushed ops)) ((view q @ [key m]) @ map key (pushed ops))"
      by (rule list_emb_append_mono) simp
    then have "subseq (view (push q m) @ map key (pushed ops)) (view q @ map key (pushed (op # ops)))"
      by (simp add: Push)
    then show ?thesis
      using Cons.IH [of "push q m" out] Cons.prems push_inv by (auto simp: Push intro: subseq_order.trans)
  next
    case Pop
    show ?thesis
    proof (cases "view q")
      case Nil
      then show ?thesis
        using Cons.IH [of q] Cons.prems pop_none [of q] by (auto simp: Pop split: prod.splits)
    next
      case (Cons k ks)
      then obtain m q1 where "pop q = (Some m, q1)" "key m = k" "view q1 = ks" "inv q1"
        using pop_some Cons.prems by blast
      with Cons.IH [of q1] Cons.prems Cons show ?thesis by (auto simp: Pop split: prod.splits)
    qed
  qed
qed

lemma run_lossless:
  "inv q \<Longrightarrow> length (view q) + length (pushed ops) \<le> cap q \<Longrightarrow>
   run_ops push pop ops q = (out, q') \<Longrightarrow>
     map key out @ view q' = view q @ map key (pushed ops)"
proof (induction ops arbitrary: q out)
  case Nil
  then show ?case by simp
next
  case (Cons op ops)
  show ?case
  proof (cases op)
    case (Push m)
    then show ?thesis
      using Cons.IH [of "push q m" out] Cons.prems push_inv push_cap by (simp add: push_appends)
  next
    case Pop
    show ?thesis
    proof (cases "view q")
      case Nil
      then show ?thesis
        using Cons.IH [of q] Cons.prems pop_none [of q] by (auto simp: Pop split: prod.splits)
    next
      case (Cons k ks)
      then obtain m q1 where "pop q = (Some m, q1)" "key m = k" "view q1 = ks" "inv q1" "cap q1 = cap q"
        using pop_some Cons.prems by blast
      with Cons.IH [of q1] Cons.prems Cons show ?thesis by (auto simp: Pop split: prod.splits)
    qed
  qed
qed

end

section \<open>The ring is a bounded queue\<close>

definition erase :: "'p message_t \<Rightarrow> 'p message_t" where
  "erase m = m\<lparr>m_sequence := 0\<rparr>"

definition ring_view :: "'p message_buffer_t \<Rightarrow> 'p message_t list" where
  "ring_view b = map erase (contents b)"

definition ring_push :: "'p message_buffer_t \<Rightarrow> 'p message_t \<Rightarrow> 'p message_buffer_t" where
  "ring_push b m = snd (msg_buffer_push b (Some m))"

definition ring_pop :: "'p message_buffer_t \<Rightarrow> 'p message_t option \<times> 'p message_buffer_t" where
  "ring_pop b = (case msg_buffer_pop b msg_init of
     (r, m, b) \<Rightarrow> (if r = 0 then Some m else None, b))"

lemma erase_sequence [simp]: "erase (m\<lparr>m_sequence := q\<rparr>) = erase m"
  by (simp add: erase_def)

lemma length_ring_view [simp]: "length (ring_view b) = ring_count b"
  by (simp add: ring_view_def)

lemma ring_push_cases:
  assumes "ring_wf b"
  shows "ring_push b m =
    (if ring_count b < capacity b then append_msg b m
     else if b_overflow b = MSG_BUFFER_OVERFLOW_YES then append_msg (evict b) m else b)"
  using assms ring_count_le_capacity [OF assms]
  by (simp add: ring_push_def push_room push_reject push_overflow)

lemma replace_oldest:
  assumes wf: "ring_wf b" and full: "\<not> ring_count b < capacity b"
  shows "ring_wf (append_msg (evict b) m)"
    and "contents (append_msg (evict b) m) = tl (contents b) @ [m\<lparr>m_sequence := b_sequence b + 1\<rparr>]"
    and "capacity (append_msg (evict b) m) = capacity b"
    and "b_overflow (append_msg (evict b) m) = b_overflow b"
    and "b_size (append_msg (evict b) m) = b_size b"
    and "b_init (append_msg (evict b) m) = b_init b"
proof -
  have pos: "0 < ring_count b" using full capacity_pos [OF wf] by simp
  note e = evict_props [OF wf pos]
  have "ring_count (evict b) < capacity (evict b)"
    using full pos ring_count_le_capacity [OF wf] by (simp add: e)
  note append_msg_props [OF e(1) this]
  then show "ring_wf (append_msg (evict b) m)"
    "contents (append_msg (evict b) m) = tl (contents b) @ [m\<lparr>m_sequence := b_sequence b + 1\<rparr>]"
    "capacity (append_msg (evict b) m) = capacity b"
    "b_overflow (append_msg (evict b) m) = b_overflow b"
    "b_size (append_msg (evict b) m) = b_size b"
    "b_init (append_msg (evict b) m) = b_init b"
    by (simp_all add: e)
qed

lemma ring_push_props:
  assumes wf: "ring_wf b"
  shows "ring_wf (ring_push b m)" and "capacity (ring_push b m) = capacity b"
    and "b_overflow (ring_push b m) = b_overflow b" and "b_size (ring_push b m) = b_size b"
    and "b_init (ring_push b m) = b_init b"
  using wf by (auto simp: ring_push_cases replace_oldest append_msg_props)

lemma ring_view_evict:
  "ring_wf b \<Longrightarrow> 0 < ring_count b \<Longrightarrow> ring_view (evict b) = tl (ring_view b)"
  by (simp add: ring_view_def evict_props map_tl)

lemma ring_push_step:
  assumes "ring_wf b"
  shows "ring_view (ring_push b m) =
    (if ring_count b < capacity b then ring_view b @ [erase m]
     else if b_overflow b = MSG_BUFFER_OVERFLOW_YES then tl (ring_view b) @ [erase m]
     else ring_view b)"
  using assms by (simp add: ring_push_cases ring_view_def append_msg_props replace_oldest map_tl)

interpretation ring: bounded_fifo ring_wf ring_view capacity
  "\<lambda>b. b_overflow b = MSG_BUFFER_OVERFLOW_YES" erase ring_push ring_pop
proof (unfold_locales, goal_cases)
  case (9 q)
  then show ?case by (simp add: ring_pop_def pop_empty ring_view_def)
next
  case (10 q k ks)
  then obtain m ms where c: "contents q = m # ms" "k = erase m" "ks = map erase ms"
    by (auto simp: ring_view_def)
  moreover have "0 < ring_count q"
    using c by (metis length_contents length_greater_0_conv list.distinct(1))
  ultimately show ?case
    using evict_props [OF 10(1)] pop_nonempty [OF 10(1) c(1)]
    by (auto simp: ring_pop_def ring_view_def)
qed (simp_all add: ring_push_props ring_count_le_capacity capacity_pos ring_push_step)

section \<open>Properties of the queue\<close>

text \<open>A ring of four slots, for the concrete instances.\<close>

definition blank_ring :: "nat message_buffer_t" where
  "blank_ring = \<lparr>b_buffer = None, b_size = 0, b_head = 0, b_tail = 0, b_init = 0,
     b_overflow = 0, b_sequence = 0, b_fault = False\<rparr>"

definition ring4 :: "int \<Rightarrow> nat message_buffer_t" where
  "ring4 overflow = msg_buffer_init True blank_ring overflow 4"

definition msg_of :: "int \<Rightarrow> nat message_t" where
  "msg_of i = msg_init\<lparr>m_message := i\<rparr>"

lemma ring4_facts [simp]:
  "ring_wf (ring4 ovf)" "contents (ring4 ovf) = []" "capacity (ring4 ovf) = 3"
  "ring_count (ring4 ovf) = 0" "b_overflow (ring4 ovf) = ovf" "ring_view (ring4 ovf) = []"
  "b_size (ring4 ovf) = 4" "b_sequence (ring4 ovf) = 0"
proof -
  have "(4 :: int) = 2 ^ 2" by simp
  then show "ring_wf (ring4 ovf)"
    unfolding ring4_def using init_props(1) [of 2 blank_ring ovf] by (simp add: blank_ring_def)
qed (simp_all add: ring4_def msg_buffer_init_def Let_def contents_def ring_count_def capacity_def
       ring_view_def)

text \<open>
  C1: Any interleaving of pushes and pops on an initialised queue keeps it well formed and
  is first-in first-out: the popped messages followed by what the queue still holds are a
  subsequence of what it held followed by what was pushed.  Nothing is invented, duplicated
  or reordered, whichever overflow policy is set.
\<close>

theorem ring_run_fifo:
  assumes "ring_wf b"
  shows "case run_ops ring_push ring_pop ops b of (out, b') \<Rightarrow>
    ring_wf b' \<and> subseq (map erase out @ ring_view b') (ring_view b @ map erase (pushed ops))"
  using ring.run_subseq [OF assms, of ops] by (auto split: prod.split)

theorem ring_run_fifo_witness:
  "case run_ops ring_push ring_pop [Push (msg_of 1), Pop, Push (msg_of 2)] (ring4 1) of (out, b') \<Rightarrow>
    ring_wf b' \<and> subseq (map erase out @ ring_view b') (map erase [msg_of 1, msg_of 2])"
  using ring_run_fifo [of "ring4 1" "[Push (msg_of 1), Pop, Push (msg_of 2)]"] by simp

text \<open>
  While the messages held and pushed together fit the capacity (\<open>size - 1\<close>), no
  message is lost under either policy: pops deliver exactly the pushed messages in order.
\<close>

theorem ring_run_lossless:
  assumes "ring_wf b" and "int (ring_count b) + int (length (pushed ops)) \<le> b_size b - 1"
  shows "case run_ops ring_push ring_pop ops b of (out, b') \<Rightarrow>
    map erase out @ ring_view b' = ring_view b @ map erase (pushed ops)"
  using ring.run_lossless [OF assms(1), of ops] assms(2)
  by (auto simp: capacity_def split: prod.split)

theorem ring_run_lossless_witness:
  "case run_ops ring_push ring_pop [Push (msg_of 1), Push (msg_of 2), Pop, Push (msg_of 3)] (ring4 0)
    of (out, b') \<Rightarrow> map erase out @ ring_view b' = map erase [msg_of 1, msg_of 2, msg_of 3]"
  using ring_run_lossless [of "ring4 0" "[Push (msg_of 1), Push (msg_of 2), Pop, Push (msg_of 3)]"]
  by simp

text \<open>
  A burst of pushes without a pop: with \<open>MSG_BUFFER_OVERFLOW_YES\<close> the queue keeps
  exactly the newest \<open>size - 1\<close> messages, with \<open>MSG_BUFFER_OVERFLOW_NO\<close> exactly the oldest.
\<close>

theorem ring_burst:
  assumes "ring_wf b"
  shows "ring_view (foldl ring_push b ms) =
    (let all_msgs = ring_view b @ map erase ms in
     if b_overflow b = MSG_BUFFER_OVERFLOW_YES
     then drop (length all_msgs - nat (b_size b - 1)) all_msgs
     else take (nat (b_size b - 1)) all_msgs)"
  using ring.burst_lossy [OF assms, of ms] ring.burst_strict [OF assms, of ms]
  by (simp add: capacity_def Let_def)

theorem ring_burst_witness:
  "ring_view (foldl ring_push (ring4 1) (map msg_of [1, 2, 3, 4, 5])) = map (erase \<circ> msg_of) [3, 4, 5]
   \<and> ring_view (foldl ring_push (ring4 0) (map msg_of [1, 2, 3, 4, 5])) = map (erase \<circ> msg_of) [1, 2, 3]"
  using ring_burst [of "ring4 1" "map msg_of [1, 2, 3, 4, 5]"]
    ring_burst [of "ring4 0" "map msg_of [1, 2, 3, 4, 5]"]
  by (simp add: Let_def)

text \<open>
  One push, every branch: a null message and a full strict queue are refused with the
  queue unchanged; otherwise the message is stored last, stamped with the incremented
  sequence number, and a full lossy queue loses its oldest message and says so.
\<close>

theorem push_spec:
  assumes "ring_wf b"
  shows "msg_buffer_push b None = (MSG_BUFFER_PUSH_FAIL, b) \<and>
    (case msg_buffer_push b (Some m) of (ret, b') \<Rightarrow>
      ring_wf b' \<and>
      (if length (contents b) = nat (b_size b - 1) \<and> b_overflow b \<noteq> MSG_BUFFER_OVERFLOW_YES
       then ret = MSG_BUFFER_PUSH_FAIL \<and> b' = b
       else contents b' = (if length (contents b) = nat (b_size b - 1) then tl (contents b) else contents b)
              @ [m\<lparr>m_sequence := b_sequence b + 1\<rparr>]
            \<and> ret = (if length (contents b) = nat (b_size b - 1)
                     then MSG_BUFFER_PUSH_SUCCESS_WITH_OVERFLOW else MSG_BUFFER_PUSH_SUCCESS)))"
  using assms ring_count_le_capacity [OF assms] push_room [OF assms, of m]
    push_reject [OF assms, of m] push_overflow [OF assms, of m]
    append_msg_props [OF assms, of m] replace_oldest [OF assms, of m]
  by (auto simp: msg_buffer_push_def [of b None] capacity_def)

theorem push_spec_witness:
  "fst (msg_buffer_push (ring4 0) (Some (msg_of 7))) = MSG_BUFFER_PUSH_SUCCESS
   \<and> contents (snd (msg_buffer_push (ring4 0) (Some (msg_of 7)))) = [(msg_of 7)\<lparr>m_sequence := 1\<rparr>]"
  using push_spec [of "ring4 0" "msg_of 7"] by (simp split: prod.splits)

text \<open>
  A pop on an initialised queue returns 1 and changes nothing when the queue is empty;
  otherwise it returns 0 with the oldest message, blocks included, and removes just it.
\<close>

theorem pop_spec:
  assumes "ring_wf b"
  shows "case msg_buffer_pop b d of (ret, m, b') \<Rightarrow> ring_wf b' \<and>
    (if contents b = [] then ret = 1 \<and> m = d \<and> b' = b
     else ret = 0 \<and> contents b = m # contents b')"
proof (cases "contents b")
  case Nil
  then show ?thesis using assms by (simp add: pop_empty)
next
  case (Cons m ms)
  then have "0 < ring_count b"
    by (metis length_contents length_greater_0_conv list.distinct(1))
  then show ?thesis using assms Cons by (simp add: pop_nonempty evict_props)
qed

theorem pop_spec_witness:
  "fst (msg_buffer_pop (ring4 0) (msg_of 9)) = 1
   \<and> fst (msg_buffer_pop (ring_push (ring4 0) (msg_of 5)) (msg_of 9)) = 0"
proof -
  have "ring_view (ring_push (ring4 0) (msg_of 5)) = [erase (msg_of 5)]"
    by (simp add: ring_push_step)
  then have "contents (ring_push (ring4 0) (msg_of 5)) \<noteq> []" by (auto simp: ring_view_def)
  then show ?thesis
    using pop_spec [of "ring4 0" "msg_of 9"]
      pop_spec [of "ring_push (ring4 0) (msg_of 5)" "msg_of 9"]
    by (simp add: ring_push_props split: prod.splits)
qed

text \<open>
  \<open>msg_buffer_swap org dest\<close> with \<open>org < dest\<close> inside the queue terminates and moves the
  message at \<open>dest\<close> in front of the one at \<open>org\<close>, the messages between keeping their order.
\<close>

theorem swap_spec:
  assumes "ring_wf b" "i < d" "d < length (contents b)"
  shows "\<exists>b'. msg_buffer_swap b (int i) (int d) = Some (0, b') \<and> ring_wf b' \<and>
    contents b' = take i (contents b) @ [contents b ! d] @ drop i (take d (contents b))
                  @ drop (Suc d) (contents b)"
  using swap_contents [of b i d] assms by (auto simp: move_up_def)

theorem swap_spec_witness:
  "\<exists>(b :: nat message_buffer_t) b'. msg_buffer_swap b 0 2 = Some (0, b') \<and> map m_message (contents b) = [1, 2, 3]
     \<and> map m_message (contents b') = [3, 1, 2 :: int]"
proof -
  define b where "b = foldl ring_push (ring4 0) (map msg_of [1, 2, 3])"
  have wf: "ring_wf b" by (simp add: b_def ring_push_props)
  have v: "ring_view b = map (erase \<circ> msg_of) [1, 2, 3]"
    unfolding b_def by (subst ring.burst_strict) simp_all
  have "map m_message (contents b) = map m_message (ring_view b)"
    by (simp add: ring_view_def erase_def comp_def)
  then have c: "map m_message (contents b) = [1, 2, 3]"
    by (simp add: v erase_def msg_of_def msg_init_def)
  have len: "length (contents b) = 3" using arg_cong [OF c, of length] by simp
  obtain b' where "msg_buffer_swap b (int 0) (int 2) = Some (0, b')"
    and b': "contents b' = [contents b ! 2] @ take 2 (contents b) @ drop 3 (contents b)"
    using swap_spec [OF wf, of 0 2] len by auto
  moreover have "map m_message (contents b') = [3, 1, 2]"
    using arg_cong [OF c, of "take 2"] arg_cong [OF c, of "\<lambda>xs. xs ! 2"] len
    by (simp add: b' take_map)
  ultimately show ?thesis using c by (intro exI [of _ b] exI [of _ b']) simp
qed

text \<open>
  Probing the positions 0, 1, ... up to \<open>msg_buffer_num_items\<close> enumerates the queue's
  messages in order without removing them, and the next position answers 1.
\<close>

theorem probe_enumerates:
  assumes "ring_wf b"
  shows "map (\<lambda>i. msg_buffer_probe_item b i d) [0..msg_buffer_num_items b - 1]
      = map (Pair 0) (contents b)
    \<and> msg_buffer_probe_item b (msg_buffer_num_items b) d = (1, d)"
proof
  show "map (\<lambda>i. msg_buffer_probe_item b i d) [0..msg_buffer_num_items b - 1]
      = map (Pair 0) (contents b)"
    using probe_in [OF assms]
    by (intro nth_equalityI) (simp_all add: ring_num_items assms nth_upto)
qed (use assms in \<open>simp add: ring_num_items probe_end\<close>)

theorem probe_enumerates_witness:
  "msg_buffer_probe_item (ring4 0) 0 (msg_of 3) = (1, msg_of 3)"
proof -
  have "msg_buffer_num_items (ring4 0) = 0" by (simp add: ring_num_items)
  then show ?thesis using probe_enumerates [of "ring4 0" "msg_of 3"] by simp
qed

end
