(* ===== verification/Messages.thy ===== *)
theory Messages
  imports MsgBuffer
begin

text \<open>
  The servers and the message identifiers of \<open>global/global_interface.h\<close> under their names,
  as input abbreviations for their numbers.  The theory \<open>MessageNames\<close> checks the numbers
  against the enumeration as it is declared.
\<close>

section \<open>Servers\<close>

abbreviation (input) "SERVER_MANAGER \<equiv> 0 :: int"
abbreviation (input) "SERVER_DEVICE \<equiv> 1 :: int"
abbreviation (input) "SERVER_GOKE \<equiv> 2 :: int"
abbreviation (input) "SERVER_VIDEO \<equiv> 3 :: int"
abbreviation (input) "SERVER_AUDIO \<equiv> 4 :: int"
abbreviation (input) "SERVER_RECORDER \<equiv> 5 :: int"
abbreviation (input) "SERVER_PLAYER \<equiv> 6 :: int"
abbreviation (input) "SERVER_ALIYUN \<equiv> 7 :: int"
abbreviation (input) "SERVER_BUTT \<equiv> 8 :: int"

section \<open>Message identifiers\<close>

abbreviation (input) "MSG_MANAGER_SIGINT \<equiv> 1 :: int"
abbreviation (input) "MSG_MANAGER_EXIT \<equiv> 2 :: int"
abbreviation (input) "MSG_MANAGER_DUMMY \<equiv> 3 :: int"
abbreviation (input) "MSG_MANAGER_WAKEUP \<equiv> 4 :: int"
abbreviation (input) "MSG_MANAGER_HEARTBEAT \<equiv> 5 :: int"
abbreviation (input) "MSG_MANAGER_TIMER_ADD \<equiv> 6 :: int"
abbreviation (input) "MSG_MANAGER_TIMER_REMOVE \<equiv> 7 :: int"
abbreviation (input) "MSG_MANAGER_TIMER_ON \<equiv> 8 :: int"
abbreviation (input) "MSG_MANAGER_PROPERTY_GET \<equiv> 17 :: int"
abbreviation (input) "MSG_MANAGER_PROPERTY_SET \<equiv> 18 :: int"
abbreviation (input) "MSG_MANAGER_SIGINT_ACK \<equiv> 4097 :: int"
abbreviation (input) "MSG_MANAGER_EXIT_ACK \<equiv> 4098 :: int"
abbreviation (input) "MSG_MANAGER_DUMMY_ACK \<equiv> 4099 :: int"
abbreviation (input) "MSG_MANAGER_WAKEUP_ACK \<equiv> 4100 :: int"
abbreviation (input) "MSG_MANAGER_HEARTBEAT_ACK \<equiv> 4101 :: int"
abbreviation (input) "MSG_MANAGER_TIMER_ADD_ACK \<equiv> 4102 :: int"
abbreviation (input) "MSG_MANAGER_TIMER_REMOVE_ACK \<equiv> 4103 :: int"
abbreviation (input) "MSG_MANAGER_TIMER_ON_ACK \<equiv> 4104 :: int"
abbreviation (input) "MSG_MANAGER_PROPERTY_GET_ACK \<equiv> 4113 :: int"
abbreviation (input) "MSG_MANAGER_PROPERTY_SET_ACK \<equiv> 4114 :: int"
abbreviation (input) "MSG_DEVICE_SIGINT \<equiv> 65537 :: int"
abbreviation (input) "MSG_DEVICE_GET_PARA \<equiv> 65538 :: int"
abbreviation (input) "MSG_DEVICE_ACTION \<equiv> 65539 :: int"
abbreviation (input) "MSG_DEVICE_CTRL_DIRECT \<equiv> 65540 :: int"
abbreviation (input) "MSG_DEVICE_SD_FORMAT_START \<equiv> 65541 :: int"
abbreviation (input) "MSG_DEVICE_SD_FORMAT_STOP \<equiv> 65542 :: int"
abbreviation (input) "MSG_DEVICE_SIGINT_ACK \<equiv> 69633 :: int"
abbreviation (input) "MSG_DEVICE_GET_PARA_ACK \<equiv> 69634 :: int"
abbreviation (input) "MSG_DEVICE_ACTION_ACK \<equiv> 69635 :: int"
abbreviation (input) "MSG_DEVICE_CTRL_DIRECT_ACK \<equiv> 69636 :: int"
abbreviation (input) "MSG_DEVICE_SD_FORMAT_START_ACK \<equiv> 69637 :: int"
abbreviation (input) "MSG_DEVICE_SD_FORMAT_STOP_ACK \<equiv> 69638 :: int"
abbreviation (input) "MSG_GOKE_SIGINT \<equiv> 131073 :: int"
abbreviation (input) "MSG_GOKE_PROPERTY_GET \<equiv> 131074 :: int"
abbreviation (input) "MSG_GOKE_PROPERTY_NOTIFY \<equiv> 131075 :: int"
abbreviation (input) "MSG_GOKE_SIGINT_ACK \<equiv> 135169 :: int"
abbreviation (input) "MSG_GOKE_PROPERTY_GET_ACK \<equiv> 135170 :: int"
abbreviation (input) "MSG_GOKE_PROPERTY_NOTIFY_ACK \<equiv> 135171 :: int"
abbreviation (input) "MSG_VIDEO_SIGINT \<equiv> 196609 :: int"
abbreviation (input) "MSG_VIDEO_START \<equiv> 196610 :: int"
abbreviation (input) "MSG_VIDEO_STOP \<equiv> 196611 :: int"
abbreviation (input) "MSG_VIDEO_PROPERTY_SET \<equiv> 196612 :: int"
abbreviation (input) "MSG_VIDEO_PROPERTY_SET_EXT \<equiv> 196613 :: int"
abbreviation (input) "MSG_VIDEO_PROPERTY_SET_DIRECT \<equiv> 196614 :: int"
abbreviation (input) "MSG_VIDEO_PROPERTY_GET \<equiv> 196615 :: int"
abbreviation (input) "MSG_VIDEO_SNAPSHOT_THUMB \<equiv> 196616 :: int"
abbreviation (input) "MSG_VIDEO_SPD_VIDEO_DATA \<equiv> 196617 :: int"
abbreviation (input) "MSG_VIDEO_KEY_FRAME_REQUIRE \<equiv> 196618 :: int"
abbreviation (input) "MSG_VIDEO_SIGINT_ACK \<equiv> 200705 :: int"
abbreviation (input) "MSG_VIDEO_START_ACK \<equiv> 200706 :: int"
abbreviation (input) "MSG_VIDEO_STOP_ACK \<equiv> 200707 :: int"
abbreviation (input) "MSG_VIDEO_PROPERTY_SET_ACK \<equiv> 200708 :: int"
abbreviation (input) "MSG_VIDEO_PROPERTY_SET_EXT_ACK \<equiv> 200709 :: int"
abbreviation (input) "MSG_VIDEO_PROPERTY_SET_DIRECT_ACK \<equiv> 200710 :: int"
abbreviation (input) "MSG_VIDEO_PROPERTY_GET_ACK \<equiv> 200711 :: int"
abbreviation (input) "MSG_VIDEO_SNAPSHOT_THUMB_ACK \<equiv> 200712 :: int"
abbreviation (input) "MSG_VIDEO_SPD_VIDEO_DATA_ACK \<equiv> 200713 :: int"
abbreviation (input) "MSG_VIDEO_KEY_FRAME_REQUIRE_ACK \<equiv> 200714 :: int"
abbreviation (input) "MSG_AUDIO_SIGINT \<equiv> 262145 :: int"
abbreviation (input) "MSG_AUDIO_START \<equiv> 262146 :: int"
abbreviation (input) "MSG_AUDIO_STOP \<equiv> 262147 :: int"
abbreviation (input) "MSG_AUDIO_PROPERTY_GET \<equiv> 262148 :: int"
abbreviation (input) "MSG_AUDIO_PROPERTY_SET \<equiv> 262149 :: int"
abbreviation (input) "MSG_AUDIO_SPEAKER_START \<equiv> 262150 :: int"
abbreviation (input) "MSG_AUDIO_SPEAKER_STOP \<equiv> 262151 :: int"
abbreviation (input) "MSG_AUDIO_SPEAKER_DATA \<equiv> 262152 :: int"
abbreviation (input) "MSG_AUDIO_PLAY_SOUND \<equiv> 262153 :: int"
abbreviation (input) "MSG_AUDIO_SIGINT_ACK \<equiv> 266241 :: int"
abbreviation (input) "MSG_AUDIO_START_ACK \<equiv> 266242 :: int"
abbreviation (input) "MSG_AUDIO_STOP_ACK \<equiv> 266243 :: int"
abbreviation (input) "MSG_AUDIO_PROPERTY_GET_ACK \<equiv> 266244 :: int"
abbreviation (input) "MSG_AUDIO_PROPERTY_SET_ACK \<equiv> 266245 :: int"
abbreviation (input) "MSG_AUDIO_SPEAKER_START_ACK \<equiv> 266246 :: int"
abbreviation (input) "MSG_AUDIO_SPEAKER_STOP_ACK \<equiv> 266247 :: int"
abbreviation (input) "MSG_AUDIO_SPEAKER_DATA_ACK \<equiv> 266248 :: int"
abbreviation (input) "MSG_AUDIO_PLAY_SOUND_ACK \<equiv> 266249 :: int"
abbreviation (input) "MSG_RECORDER_SIGINT \<equiv> 327681 :: int"
abbreviation (input) "MSG_RECORDER_START \<equiv> 327682 :: int"
abbreviation (input) "MSG_RECORDER_STOP \<equiv> 327683 :: int"
abbreviation (input) "MSG_RECORDER_PROPERTY_GET \<equiv> 327684 :: int"
abbreviation (input) "MSG_RECORDER_PROPERTY_SET \<equiv> 327685 :: int"
abbreviation (input) "MSG_RECORDER_PROPERTY_NOTIFY \<equiv> 327686 :: int"
abbreviation (input) "MSG_RECORDER_ADD \<equiv> 327687 :: int"
abbreviation (input) "MSG_RECORDER_VIDEO_DATA \<equiv> 327688 :: int"
abbreviation (input) "MSG_RECORDER_AUDIO_DATA \<equiv> 327689 :: int"
abbreviation (input) "MSG_RECORDER_ADD_FILE \<equiv> 327690 :: int"
abbreviation (input) "MSG_RECORDER_CLEAN_DISK_START \<equiv> 327691 :: int"
abbreviation (input) "MSG_RECORDER_CLEAN_DISK_STOP \<equiv> 327692 :: int"
abbreviation (input) "MSG_RECORDER_SIGINT_ACK \<equiv> 331777 :: int"
abbreviation (input) "MSG_RECORDER_START_ACK \<equiv> 331778 :: int"
abbreviation (input) "MSG_RECORDER_STOP_ACK \<equiv> 331779 :: int"
abbreviation (input) "MSG_RECORDER_PROPERTY_GET_ACK \<equiv> 331780 :: int"
abbreviation (input) "MSG_RECORDER_PROPERTY_SET_ACK \<equiv> 331781 :: int"
abbreviation (input) "MSG_RECORDER_PROPERTY_NOTIFY_ACK \<equiv> 331782 :: int"
abbreviation (input) "MSG_RECORDER_ADD_ACK \<equiv> 331783 :: int"
abbreviation (input) "MSG_RECORDER_VIDEO_DATA_ACK \<equiv> 331784 :: int"
abbreviation (input) "MSG_RECORDER_AUDIO_DATA_ACK \<equiv> 331785 :: int"
abbreviation (input) "MSG_RECORDER_ADD_FILE_ACK \<equiv> 331786 :: int"
abbreviation (input) "MSG_RECORDER_CLEAN_DISK_START_ACK \<equiv> 331787 :: int"
abbreviation (input) "MSG_RECORDER_CLEAN_DISK_STOP_ACK \<equiv> 331788 :: int"
abbreviation (input) "MSG_PLAYER_SIGINT \<equiv> 393217 :: int"
abbreviation (input) "MSG_PLAYER_START \<equiv> 393218 :: int"
abbreviation (input) "MSG_PLAYER_STOP \<equiv> 393219 :: int"
abbreviation (input) "MSG_PLAYER_PAUSE \<equiv> 393220 :: int"
abbreviation (input) "MSG_PLAYER_UNPAUSE \<equiv> 393221 :: int"
abbreviation (input) "MSG_PLAYER_SET_PARAM \<equiv> 393222 :: int"
abbreviation (input) "MSG_PLAYER_GET_FILE_BY_DAY \<equiv> 393223 :: int"
abbreviation (input) "MSG_PLAYER_GET_FILE_BY_MONTH \<equiv> 393224 :: int"
abbreviation (input) "MSG_PLAYER_PROPERTY_SET \<equiv> 393225 :: int"
abbreviation (input) "MSG_PLAYER_AUDIO_START \<equiv> 393226 :: int"
abbreviation (input) "MSG_PLAYER_AUDIO_STOP \<equiv> 393227 :: int"
abbreviation (input) "MSG_PLAYER_REQUEST \<equiv> 393228 :: int"
abbreviation (input) "MSG_PLAYER_RELAY \<equiv> 393229 :: int"
abbreviation (input) "MSG_PLAYER_FINISH \<equiv> 393230 :: int"
abbreviation (input) "MSG_PLAYER_GET_PICTURE_LIST \<equiv> 393231 :: int"
abbreviation (input) "MSG_PLAYER_GET_INFOMATION \<equiv> 393232 :: int"
abbreviation (input) "MSG_PLAYER_SEEK \<equiv> 393233 :: int"
abbreviation (input) "MSG_PLAYER_REQUEST_SYNC \<equiv> 393234 :: int"
abbreviation (input) "MSG_PLAYER_SIGINT_ACK \<equiv> 397313 :: int"
abbreviation (input) "MSG_PLAYER_START_ACK \<equiv> 397314 :: int"
abbreviation (input) "MSG_PLAYER_STOP_ACK \<equiv> 397315 :: int"
abbreviation (input) "MSG_PLAYER_PAUSE_ACK \<equiv> 397316 :: int"
abbreviation (input) "MSG_PLAYER_UNPAUSE_ACK \<equiv> 397317 :: int"
abbreviation (input) "MSG_PLAYER_SET_PARAM_ACK \<equiv> 397318 :: int"
abbreviation (input) "MSG_PLAYER_GET_FILE_BY_DAY_ACK \<equiv> 397319 :: int"
abbreviation (input) "MSG_PLAYER_GET_FILE_BY_MONTH_ACK \<equiv> 397320 :: int"
abbreviation (input) "MSG_PLAYER_PROPERTY_SET_ACK \<equiv> 397321 :: int"
abbreviation (input) "MSG_PLAYER_AUDIO_START_ACK \<equiv> 397322 :: int"
abbreviation (input) "MSG_PLAYER_AUDIO_STOP_ACK \<equiv> 397323 :: int"
abbreviation (input) "MSG_PLAYER_REQUEST_ACK \<equiv> 397324 :: int"
abbreviation (input) "MSG_PLAYER_RELAY_ACK \<equiv> 397325 :: int"
abbreviation (input) "MSG_PLAYER_FINISH_ACK \<equiv> 397326 :: int"
abbreviation (input) "MSG_PLAYER_GET_PICTURE_LIST_ACK \<equiv> 397327 :: int"
abbreviation (input) "MSG_PLAYER_GET_INFOMATION_ACK \<equiv> 397328 :: int"
abbreviation (input) "MSG_PLAYER_SEEK_ACK \<equiv> 397329 :: int"
abbreviation (input) "MSG_PLAYER_REQUEST_SYNC_ACK \<equiv> 397330 :: int"
abbreviation (input) "MSG_ALIYUN_SIGINT \<equiv> 458753 :: int"
abbreviation (input) "MSG_ALIYUN_QRCODE_RESULT \<equiv> 458754 :: int"
abbreviation (input) "MSG_ALIYUN_CONNECT \<equiv> 458755 :: int"
abbreviation (input) "MSG_ALIYUN_TIME_SYNC \<equiv> 458756 :: int"
abbreviation (input) "MSG_ALIYUN_VIDEO_DATA \<equiv> 458757 :: int"
abbreviation (input) "MSG_ALIYUN_AUDIO_DATA \<equiv> 458758 :: int"
abbreviation (input) "MSG_ALIYUN_YIELD \<equiv> 458759 :: int"
abbreviation (input) "MSG_ALIYUN_TIME_SYNCHRONIZED \<equiv> 458760 :: int"
abbreviation (input) "MSG_ALIYUN_EVENT \<equiv> 458761 :: int"
abbreviation (input) "MSG_ALIYUN_SETUP \<equiv> 458762 :: int"
abbreviation (input) "MSG_ALIYUN_RESTART \<equiv> 458763 :: int"
abbreviation (input) "MSG_ALIYUN_GET_TIME_SYNC \<equiv> 458764 :: int"
abbreviation (input) "MSG_ALIYUN_SIGINT_ACK \<equiv> 462849 :: int"
abbreviation (input) "MSG_ALIYUN_QRCODE_RESULT_ACK \<equiv> 462850 :: int"
abbreviation (input) "MSG_ALIYUN_CONNECT_ACK \<equiv> 462851 :: int"
abbreviation (input) "MSG_ALIYUN_TIME_SYNC_ACK \<equiv> 462852 :: int"
abbreviation (input) "MSG_ALIYUN_VIDEO_DATA_ACK \<equiv> 462853 :: int"
abbreviation (input) "MSG_ALIYUN_AUDIO_DATA_ACK \<equiv> 462854 :: int"
abbreviation (input) "MSG_ALIYUN_YIELD_ACK \<equiv> 462855 :: int"
abbreviation (input) "MSG_ALIYUN_TIME_SYNCHRONIZED_ACK \<equiv> 462856 :: int"
abbreviation (input) "MSG_ALIYUN_EVENT_ACK \<equiv> 462857 :: int"
abbreviation (input) "MSG_ALIYUN_SETUP_ACK \<equiv> 462858 :: int"
abbreviation (input) "MSG_ALIYUN_RESTART_ACK \<equiv> 462859 :: int"
abbreviation (input) "MSG_ALIYUN_GET_TIME_SYNC_ACK \<equiv> 462860 :: int"

end
