(* ===== verification/Bus.thy ===== *)
theory Bus
  imports Messages
begin

text \<open>
  How the servers reach each other: every server owns one message queue, written by
  \<open>server_<name>_message\<close> under the server's mutex and dispatched to by
  \<open>global_common_send_message\<close> of \<open>global/common.c\<close>.  The bus is the map from server numbers to
  queues.  A message's memory blocks hold one of the shapes of \<open>payload\<close>.
\<close>

section \<open>The bus\<close>

record av_data_info_t =
  av_flag :: u32
  av_index :: u32
  av_frame_index :: u32
  av_type :: u32
  av_volume_l :: u32
  av_volume_r :: u32
  av_timestamp :: u32
  av_fps :: u32
  av_width :: u32
  av_height :: u32
  av_size :: u32
  av_source :: u32
  av_channel :: u32
  av_key_frame :: u32

record recorder_init_t =
  ri_type :: int
  ri_sub_type :: int
  ri_mode :: int
  ri_repeat :: int
  ri_repeat_interval :: int
  ri_audio :: int
  ri_quality :: int
  ri_video_channel :: int
  ri_start :: "char list"
  ri_stop :: "char list"

record player_init_t =
  switch_to_live :: u8
  switch_to_live_audio :: u8
  auto_exit :: u8
  pi_offset :: u8
  pi_speed :: u8
  channel_merge :: u8
  pi_audio :: u8
  pi_start :: u64
  pi_stop :: u64
  pi_channel :: int
  pi_tid :: nat
  pi_type :: int
  keyonly :: bool
  pi_filename :: "char list"

datatype payload =
    P_int int
  | P_string string
  | P_bytes bytes
  | P_av_info av_data_info_t
  | P_recorder_init recorder_init_t
  | P_player_init player_init_t

type_synonym msg = "payload message_t"
type_synonym queue = "payload message_buffer_t"
type_synonym bus = "int \<Rightarrow> queue"

definition server_device_message :: "queue \<Rightarrow> msg \<Rightarrow> int \<times> queue" where
  "server_device_message message msg =
     (if b_init message = 0 then (- 1, message) else msg_buffer_push message (Some msg))"

definition server_goke_message :: "queue \<Rightarrow> msg \<Rightarrow> int \<times> queue" where
  "server_goke_message message msg =
     (if b_init message = 0 then (- 1, message) else msg_buffer_push message (Some msg))"

definition server_aliyun_message :: "queue \<Rightarrow> msg \<Rightarrow> int \<times> queue" where
  "server_aliyun_message message msg =
     (if b_init message = 0 then (- 1, message) else msg_buffer_push message (Some msg))"

definition server_video_message :: "queue \<Rightarrow> msg \<Rightarrow> int \<times> queue" where
  "server_video_message message msg =
     (if b_init message = 0 then (- 1, message) else msg_buffer_push message (Some msg))"

definition server_audio_message :: "queue \<Rightarrow> msg \<Rightarrow> int \<times> queue" where
  "server_audio_message message msg =
     (if b_init message = 0 then (- 1, message) else msg_buffer_push message (Some msg))"

definition server_recorder_message :: "queue \<Rightarrow> msg \<Rightarrow> int \<times> queue" where
  "server_recorder_message message msg =
     (if b_init message = 0 then (- 1, message) else msg_buffer_push message (Some msg))"

definition server_player_message :: "queue \<Rightarrow> msg \<Rightarrow> int \<times> queue" where
  "server_player_message message msg =
     (if b_init message = 0 then (- 1, message) else msg_buffer_push message (Some msg))"

text \<open>The manager pushes without looking at \<open>message.init\<close>.\<close>

definition manager_message :: "queue \<Rightarrow> msg \<Rightarrow> int \<times> queue" where
  "manager_message message msg = msg_buffer_push message (Some msg)"

definition deliver :: "bus \<Rightarrow> int \<Rightarrow> int \<times> queue \<Rightarrow> int \<times> bus" where
  "deliver bus receiver r = (fst r, bus(receiver := snd r))"

definition global_common_send_message :: "bus \<Rightarrow> int \<Rightarrow> msg \<Rightarrow> int \<times> bus" where
  "global_common_send_message bus receiver msg =
     (if receiver = SERVER_DEVICE then deliver bus receiver (server_device_message (bus SERVER_DEVICE) msg)
      else if receiver = SERVER_GOKE then deliver bus receiver (server_goke_message (bus SERVER_GOKE) msg)
      else if receiver = SERVER_ALIYUN then deliver bus receiver (server_aliyun_message (bus SERVER_ALIYUN) msg)
      else if receiver = SERVER_VIDEO then deliver bus receiver (server_video_message (bus SERVER_VIDEO) msg)
      else if receiver = SERVER_AUDIO then deliver bus receiver (server_audio_message (bus SERVER_AUDIO) msg)
      else if receiver = SERVER_RECORDER then deliver bus receiver (server_recorder_message (bus SERVER_RECORDER) msg)
      else if receiver = SERVER_PLAYER then deliver bus receiver (server_player_message (bus SERVER_PLAYER) msg)
      else if receiver = SERVER_MANAGER then deliver bus receiver (manager_message (bus SERVER_MANAGER) msg)
      else (0, bus))"

definition global_common_send_dummy :: "bus \<Rightarrow> int \<Rightarrow> bus" where
  "global_common_send_dummy bus server =
     snd (global_common_send_message bus server
       (msg_init\<lparr>m_sender := server, m_receiver := server, m_message := MSG_MANAGER_DUMMY\<rparr>))"

lemmas server_message_defs =
  server_device_message_def server_goke_message_def server_aliyun_message_def
  server_video_message_def server_audio_message_def server_recorder_message_def
  server_player_message_def

section \<open>What a send does\<close>

definition is_server :: "int \<Rightarrow> bool" where
  "is_server s = (0 \<le> s \<and> s < SERVER_BUTT)"

lemma server_cases:
  "is_server s \<Longrightarrow> s \<in> {SERVER_MANAGER, SERVER_DEVICE, SERVER_GOKE, SERVER_VIDEO, SERVER_AUDIO,
     SERVER_RECORDER, SERVER_PLAYER, SERVER_ALIYUN}"
  by (auto simp: is_server_def)

lemma send_other:
  "r \<noteq> receiver \<Longrightarrow> snd (global_common_send_message bus receiver msg) r = bus r"
  by (simp add: global_common_send_message_def deliver_def)

lemma send_unknown: "\<not> is_server receiver \<Longrightarrow> global_common_send_message bus receiver msg = (0, bus)"
  by (auto simp: global_common_send_message_def is_server_def)

lemma send_manager:
  "global_common_send_message bus SERVER_MANAGER msg =
     deliver bus SERVER_MANAGER (msg_buffer_push (bus SERVER_MANAGER) (Some msg))"
  by (simp add: global_common_send_message_def manager_message_def)

lemma send_server:
  "is_server s \<Longrightarrow> s \<noteq> SERVER_MANAGER \<Longrightarrow>
   global_common_send_message bus s msg =
     (if b_init (bus s) = 0 then (- 1, bus) else deliver bus s (msg_buffer_push (bus s) (Some msg)))"
proof -
  assume s: "is_server s" "s \<noteq> SERVER_MANAGER"
  consider "s = SERVER_DEVICE" | "s = SERVER_GOKE" | "s = SERVER_VIDEO" | "s = SERVER_AUDIO"
    | "s = SERVER_RECORDER" | "s = SERVER_PLAYER" | "s = SERVER_ALIYUN"
    using server_cases [OF s(1)] s(2) by auto
  then show ?thesis
    by cases (auto simp: global_common_send_message_def server_message_defs deliver_def)
qed

text \<open>
  A queue is either ready or as \<open>msg_buffer_release\<close> and the static initialisation leave it:
  without a buffer and with equal indices.
\<close>

definition queue_ok :: "queue \<Rightarrow> bool" where
  "queue_ok q = (if b_init q \<noteq> 0 then ring_wf q
     else b_buffer q = None \<and> b_head q = b_tail q \<and> b_size q \<noteq> 1)"

lemma push_ready:
  assumes wf: "ring_wf q"
  shows "if ring_count q < capacity q
    then msg_buffer_push q (Some m) = (MSG_BUFFER_PUSH_SUCCESS, append_msg q m)
    else if b_overflow q = MSG_BUFFER_OVERFLOW_YES
    then msg_buffer_push q (Some m) = (MSG_BUFFER_PUSH_SUCCESS_WITH_OVERFLOW, append_msg (evict q) m)
    else msg_buffer_push q (Some m) = (MSG_BUFFER_PUSH_FAIL, q)"
  using ring_count_le_capacity [OF wf] by (simp add: push_room push_overflow push_reject wf)

lemma evict_append_props:
  assumes wf: "ring_wf q" and full: "\<not> ring_count q < capacity q"
  shows "ring_wf (append_msg (evict q) m)" "b_init (append_msg (evict q) m) = b_init q"
    "contents (append_msg (evict q) m) = tl (contents q) @ [m\<lparr>m_sequence := b_sequence q + 1\<rparr>]"
proof -
  have pos: "0 < ring_count q" using full capacity_pos [OF wf] by simp
  then have "ring_count (evict q) < capacity (evict q)"
    using evict_props [OF wf pos] ring_count_le_capacity [OF wf] by simp
  note append_msg_props [OF evict_props(1) [OF wf pos] this, of m]
  then show "ring_wf (append_msg (evict q) m)" "b_init (append_msg (evict q) m) = b_init q"
    "contents (append_msg (evict q) m) = tl (contents q) @ [m\<lparr>m_sequence := b_sequence q + 1\<rparr>]"
    using evict_props [OF wf pos] by simp_all
qed

lemma send_ready:
  assumes "is_server s" "b_init (bus s) \<noteq> 0"
  shows "global_common_send_message bus s msg = deliver bus s (msg_buffer_push (bus s) (Some msg))"
  using assms by (cases "s = SERVER_MANAGER") (simp_all add: send_manager send_server)

text \<open>A push into the queue of a manager that is not set up writes through a null pointer.\<close>

lemma push_unready:
  assumes "queue_ok q" "b_init q = 0"
  shows "fst (msg_buffer_push q (Some m)) = 0 \<and> b_fault (snd (msg_buffer_push q (Some m)))"
  using assms by (simp add: queue_ok_def msg_buffer_push_def msg_buffer_is_full_def set_slot_def Let_def)

text \<open>
  C2: What a send does, for every number of a receiver and every state of its queue.  The other
  queues stay as they are.  A number that is no server is ignored with answer 0.  A ready
  receiver gets the message stamped and appended when there is room; a full queue drops its
  oldest message for it (answer 1) or refuses it (answer 2), according to its overflow mode.
  A server that is not set up refuses with -1, except the manager, whose \<open>manager_message\<close> does
  not look: it writes through the null pointer of the buffer.
\<close>

theorem send_spec:
  assumes "is_server receiver \<Longrightarrow> queue_ok (bus receiver)"
  shows "case global_common_send_message bus receiver msg of (ret, bus') \<Rightarrow>
    (\<forall>r. r \<noteq> receiver \<longrightarrow> bus' r = bus r) \<and>
    (if \<not> is_server receiver then ret = 0 \<and> bus' = bus
     else if b_init (bus receiver) = 0
       then if receiver = SERVER_MANAGER then ret = 0 \<and> b_fault (bus' receiver)
         else ret = - 1 \<and> bus' = bus
     else queue_ok (bus' receiver) \<and> b_init (bus' receiver) \<noteq> 0 \<and>
      (if length (contents (bus receiver)) < capacity (bus receiver)
       then ret = MSG_BUFFER_PUSH_SUCCESS \<and> contents (bus' receiver) =
         contents (bus receiver) @ [msg\<lparr>m_sequence := b_sequence (bus receiver) + 1\<rparr>]
       else if b_overflow (bus receiver) = MSG_BUFFER_OVERFLOW_YES
       then ret = MSG_BUFFER_PUSH_SUCCESS_WITH_OVERFLOW \<and> contents (bus' receiver) =
         tl (contents (bus receiver)) @ [msg\<lparr>m_sequence := b_sequence (bus receiver) + 1\<rparr>]
       else ret = MSG_BUFFER_PUSH_FAIL \<and> bus' = bus))"
proof -
  have others: "\<forall>r. r \<noteq> receiver \<longrightarrow> snd (global_common_send_message bus receiver msg) r = bus r"
    using send_other by blast
  show ?thesis
  proof (cases "is_server receiver")
    case False
    then show ?thesis by (simp add: send_unknown)
  next
    case server: True
    then have ok: "queue_ok (bus receiver)" by (rule assms)
    show ?thesis
    proof (cases "b_init (bus receiver) = 0")
      case True
      then show ?thesis using server others push_unready [OF ok True, of msg]
        by (cases "receiver = SERVER_MANAGER") (simp_all add: send_manager send_server deliver_def)
    next
      case False
      then have wf: "ring_wf (bus receiver)" using ok by (simp add: queue_ok_def)
      show ?thesis
        using server False wf push_ready [OF wf, of msg] evict_append_props [OF wf, of msg]
          append_msg_props [OF wf, of msg]
        by (auto simp: send_ready deliver_def queue_ok_def split: if_splits)
    qed
  qed
qed

definition demo_queue :: "int \<Rightarrow> queue" where
  "demo_queue overflow = msg_buffer_init True
     \<lparr>b_buffer = None, b_size = 0, b_head = 0, b_tail = 0, b_init = 0, b_overflow = 0,
      b_sequence = 0, b_fault = False\<rparr> overflow 8"

lemma demo_queue_facts [simp]:
  "ring_wf (demo_queue ovf)" "contents (demo_queue ovf) = []" "capacity (demo_queue ovf) = 7"
  "ring_count (demo_queue ovf) = 0" "b_init (demo_queue ovf) = 1" "b_sequence (demo_queue ovf) = 0"
proof -
  have "(8 :: int) = 2 ^ 3" by simp
  then show "ring_wf (demo_queue ovf)"
    unfolding demo_queue_def by (metis (no_types, lifting) init_props(1) one_le_numeral
        message_buffer_t.select_convs message_buffer_t.surjective message_buffer_t.update_convs)
qed (simp_all add: demo_queue_def msg_buffer_init_def Let_def contents_def ring_count_def capacity_def)

definition demo_bus :: bus where
  "demo_bus = (\<lambda>s. if s = SERVER_MANAGER then msg_buffer_release (demo_queue 1) else demo_queue 1)"

lemma demo_bus_ok: "queue_ok (demo_bus s)"
proof (cases "s = SERVER_MANAGER")
  case True
  then show ?thesis
    by (simp add: demo_bus_def queue_ok_def demo_queue_def msg_buffer_init_def msg_buffer_release_def Let_def)
qed (simp add: demo_bus_def queue_ok_def)

theorem send_spec_witness:
  "(case global_common_send_message demo_bus SERVER_VIDEO (msg_init\<lparr>m_message := 5\<rparr>)
     of (ret, bus') \<Rightarrow> ret = 0 \<and> contents (bus' SERVER_VIDEO) = [msg_init\<lparr>m_message := 5, m_sequence := 1\<rparr>])
   \<and> b_fault (snd (global_common_send_message demo_bus SERVER_MANAGER msg_init) SERVER_MANAGER)
   \<and> global_common_send_message demo_bus SERVER_BUTT msg_init = (0, demo_bus)"
proof -
  have "b_init (demo_bus SERVER_MANAGER) = 0" "demo_bus SERVER_VIDEO = demo_queue 1" "queue_ok (demo_queue 1)"
    by (simp_all add: demo_bus_def msg_buffer_release_def Let_def queue_ok_def)
  then show ?thesis
    using send_spec [of SERVER_VIDEO demo_bus "msg_init\<lparr>m_message := 5\<rparr>"] send_spec [of SERVER_MANAGER demo_bus msg_init]
      send_spec [of SERVER_BUTT demo_bus msg_init]
    by (simp add: is_server_def msg_init_def demo_bus_ok split: prod.splits)
qed

end
