(* ===== verification/ServerInfo.thy ===== *)
theory ServerInfo
  imports Bus
begin

text \<open>
  The state every server keeps (\<open>server_info_t\<close> of \<open>server/manager/manager_interface.h\<close>): the
  numbers of the local state machine, the running task, and the accessors
  \<open>server_set_status\<close> and \<open>server_get_status\<close> of \<open>global/common.c\<close>.  A task is a function pointer;
  the type of the tasks is a parameter, each server has its own.
\<close>

section \<open>The status numbers\<close>

abbreviation (input) "STATUS_NONE \<equiv> 0 :: int"
abbreviation (input) "STATUS_INIT \<equiv> 1 :: int"
abbreviation (input) "STATUS_WAIT \<equiv> 2 :: int"
abbreviation (input) "STATUS_SETUP \<equiv> 3 :: int"
abbreviation (input) "STATUS_IDLE \<equiv> 4 :: int"
abbreviation (input) "STATUS_START \<equiv> 5 :: int"
abbreviation (input) "STATUS_RUN \<equiv> 6 :: int"
abbreviation (input) "STATUS_STOP \<equiv> 7 :: int"
abbreviation (input) "STATUS_RESTART \<equiv> 8 :: int"
abbreviation (input) "STATUS_REINIT \<equiv> 9 :: int"
abbreviation (input) "STATUS_ERROR \<equiv> 10 :: int"
abbreviation (input) "EXIT_INIT \<equiv> 1000 :: int"
abbreviation (input) "EXIT_SERVER \<equiv> 1001 :: int"
abbreviation (input) "EXIT_STAGE1 \<equiv> 1002 :: int"
abbreviation (input) "EXIT_THREAD \<equiv> 1003 :: int"
abbreviation (input) "EXIT_STAGE2 \<equiv> 1004 :: int"
abbreviation (input) "EXIT_FINISH \<equiv> 1005 :: int"

abbreviation (input) "TASK_TYPE_NONE \<equiv> 0 :: int"
abbreviation (input) "TASK_TYPE_START \<equiv> 1 :: int"
abbreviation (input) "TASK_TYPE_STOP \<equiv> 2 :: int"
abbreviation (input) "TASK_TYPE_RESTART \<equiv> 3 :: int"
abbreviation (input) "TASK_TYPE_RECORDER_ADD \<equiv> 4 :: int"

abbreviation (input) "TASK_FINISH_NO \<equiv> 0 :: int"
abbreviation (input) "TASK_FINISH_FAIL \<equiv> 1 :: int"
abbreviation (input) "TASK_FINISH_SUCCESS \<equiv> 2 :: int"

section \<open>Server information\<close>

record 'f task_t =
  func :: 'f
  task_msg :: msg
  task_start :: int
  task_end :: int
  task_type :: int

record 'f server_info_t =
  status :: int
  old_status :: int
  init :: int
  error :: int
  msg_lock :: int
  status2 :: int
  exit_flag :: int
  task :: "'f task_t"
  thread_start :: int
  thread_exit :: int
  init_status :: int
  quit_status :: int
  info_tick :: int

definition task_zero :: "'f \<Rightarrow> 'f task_t" where
  "task_zero null = \<lparr>func = null, task_msg = msg_init, task_start = 0, task_end = 0, task_type = 0\<rparr>"

text \<open>\<open>memset(&info, 0, sizeof(server_info_t))\<close>; \<open>null\<close> is the null task.\<close>

definition info_zero :: "'f \<Rightarrow> 'f server_info_t" where
  "info_zero null = \<lparr>status = 0, old_status = 0, init = 0, error = 0, msg_lock = 0, status2 = 0,
     exit_flag = 0, task = task_zero null, thread_start = 0, thread_exit = 0, init_status = 0,
     quit_status = 0, info_tick = 0\<rparr>"

section \<open>The accessors\<close>

datatype server_info_tag_e =
    INFO_TAG_STATUS | INFO_TAG_STATUS_OLD | INFO_TAG_MSG_LOCK | INFO_TAG_INIT | INFO_TAG_ERROR
  | INFO_TAG_EXIT | INFO_TAG_THREAD_START | INFO_TAG_THREAD_EXIT | INFO_TAG_STATUS2 | INFO_TAG_INIT_STATUS

text \<open>\<open>lock\<close> and \<open>unlock\<close> are the results of the read-write lock's operations.\<close>

definition server_set_status ::
  "int \<Rightarrow> int \<Rightarrow> 'f server_info_t \<Rightarrow> server_info_tag_e \<Rightarrow> int \<Rightarrow> int \<times> 'f server_info_t" where
  "server_set_status lock unlock info tag v =
     (if lock \<noteq> 0 then (lock, info)
      else (unlock,
        case tag of
          INFO_TAG_STATUS \<Rightarrow> info\<lparr>status := v\<rparr>
        | INFO_TAG_INIT \<Rightarrow> info\<lparr>init := v\<rparr>
        | INFO_TAG_ERROR \<Rightarrow> info\<lparr>error := v\<rparr>
        | INFO_TAG_MSG_LOCK \<Rightarrow> info\<lparr>msg_lock := v\<rparr>
        | INFO_TAG_STATUS2 \<Rightarrow> info\<lparr>status2 := v\<rparr>
        | INFO_TAG_EXIT \<Rightarrow> info\<lparr>exit_flag := v\<rparr>
        | INFO_TAG_INIT_STATUS \<Rightarrow> info\<lparr>init_status := v\<rparr>
        | INFO_TAG_STATUS_OLD \<Rightarrow> info\<lparr>old_status := v\<rparr>
        | INFO_TAG_THREAD_EXIT \<Rightarrow> info\<lparr>thread_exit := v\<rparr>
        | INFO_TAG_THREAD_START \<Rightarrow> info\<lparr>thread_start := v\<rparr>))"

text \<open>
  The switch of \<open>server_get_status\<close> has no \<open>break\<close>: from the tag's case control runs through
  every later assignment to \<open>value\<close>, the default included.  \<open>get_cases\<close> lists the assignments
  in the order of the source.
\<close>

definition get_cases :: "'f server_info_t \<Rightarrow> (server_info_tag_e \<times> int) list" where
  "get_cases info =
     [(INFO_TAG_STATUS, status info), (INFO_TAG_INIT, init info), (INFO_TAG_ERROR, error info),
      (INFO_TAG_MSG_LOCK, msg_lock info), (INFO_TAG_STATUS2, status2 info),
      (INFO_TAG_EXIT, exit_flag info), (INFO_TAG_INIT_STATUS, init_status info),
      (INFO_TAG_STATUS_OLD, old_status info), (INFO_TAG_THREAD_EXIT, thread_exit info),
      (INFO_TAG_THREAD_START, thread_start info)]"

fun fall_through :: "(server_info_tag_e \<times> int) list \<Rightarrow> server_info_tag_e \<Rightarrow> int list" where
  "fall_through [] tag = [- 1]"
| "fall_through ((t, v) # cs) tag = (if t = tag then v # map snd cs @ [- 1] else fall_through cs tag)"

definition server_get_status :: "int \<Rightarrow> int \<Rightarrow> 'f server_info_t \<Rightarrow> server_info_tag_e \<Rightarrow> int" where
  "server_get_status lock unlock info tag =
     (if lock \<noteq> 0 then lock
      else if unlock \<noteq> 0 then unlock
      else last (fall_through (get_cases info) tag))"

section \<open>Properties\<close>

lemma last_fall_through: "last (fall_through cs tag) = - 1"
  by (induction cs tag rule: fall_through.induct) auto

text \<open>
  \<open>server_get_status\<close> never reports a field: with its locks taken it answers -1 for every
  tag, even right after \<open>server_set_status\<close> has stored a value under the same tag.
\<close>

theorem get_status_useless:
  "server_get_status 0 0 (snd (server_set_status 0 0 info tag v)) tag = - 1"
  by (simp add: server_get_status_def last_fall_through)

end
