(* ===== verification/ServerLoop.thy ===== *)
theory ServerLoop
  imports ServerInfo
begin

text \<open>
  The frame the recorder, player, audio, video, device, goke and aliyun servers share: the
  loop of \<open>server_func\<close> (remember the status, run the state machine and the task, take one
  message), the wait on the condition variable, and the exit ladder of the state machines
  from \<open>EXIT_INIT\<close> to \<open>EXIT_FINISH\<close>.  The locale \<open>exit_ladder\<close> states what a server's own
  functions promise, and shows that such a server leaves its loop.
\<close>

section \<open>The state of a server\<close>

record server_state =
  info :: "unit server_info_t"
  bus :: bus
  waiting :: bool

abbreviation "set_status v s \<equiv> s\<lparr>info := (info s)\<lparr>status := v\<rparr>\<rparr>"
abbreviation "with_info f s \<equiv> s\<lparr>info := f (info s)\<rparr>"

definition send :: "int \<Rightarrow> msg \<Rightarrow> 'a server_state_scheme \<Rightarrow> 'a server_state_scheme" where
  "send receiver m s = s\<lparr>bus := snd (global_common_send_message (bus s) receiver m)\<rparr>"

lemma frame_send_fields [simp]:
  "info (send r m s) = info s" "waiting (send r m s) = waiting s" "server_state.more (send r m s) = server_state.more s"
  by (simp_all add: send_def)

lemma frame_send_other_queue: "q \<noteq> r \<Longrightarrow> bus (send r m s) q = bus s q"
  by (simp add: send_def send_other)

section \<open>Calls one after the other\<close>

text \<open>A call with the value it returns; the second is made when the first returned 0.\<close>

definition andthen :: "('s \<Rightarrow> int \<times> 's) \<Rightarrow> ('s \<Rightarrow> int \<times> 's) \<Rightarrow> 's \<Rightarrow> int \<times> 's" where
  "andthen f g s = (case f s of (ret, s) \<Rightarrow> if ret \<noteq> 0 then (ret, s) else g s)"

definition preserves :: "('s \<Rightarrow> bool) \<Rightarrow> ('s \<Rightarrow> int \<times> 's) \<Rightarrow> bool" where
  "preserves P f = (\<forall>s. P s \<longrightarrow> P (snd (f s)))"

lemma preservesD: "preserves P f \<Longrightarrow> P s \<Longrightarrow> P (snd (f s))"
  by (simp add: preserves_def)

lemma preserves_andthen [intro]: "preserves P f \<Longrightarrow> preserves P g \<Longrightarrow> preserves P (andthen f g)"
  unfolding preserves_def andthen_def by (auto split: prod.splits)

section \<open>Messages\<close>

definition queue_empty :: "int \<Rightarrow> 'a server_state_scheme \<Rightarrow> bool" where
  "queue_empty own s = (b_head (bus s own) = b_tail (bus s own))"

text \<open>
  \<open>server_message_proc\<close> after the wait: \<open>block\<close> is the test that leaves the queue alone
  (\<open>info.msg_lock\<close>, or the server's \<open>message_block\<close>, which may reorder the queue), \<open>filter\<close> the
  server's message filter, \<open>handle\<close> its switch.
\<close>

definition take_message ::
  "int \<Rightarrow> ('a server_state_scheme \<Rightarrow> bool \<times> 'a server_state_scheme) \<Rightarrow> (msg \<Rightarrow> 'a server_state_scheme \<Rightarrow> bool)
    \<Rightarrow> (msg \<Rightarrow> 'a server_state_scheme \<Rightarrow> 'a server_state_scheme) \<Rightarrow> 'a server_state_scheme \<Rightarrow> 'a server_state_scheme" where
  "take_message own block screen handle s =
     (case block s of
        (True, s) \<Rightarrow> s
      | (False, s) \<Rightarrow>
          (case msg_buffer_pop (bus s own) msg_init of (ret, m, q) \<Rightarrow>
            let s = s\<lparr>bus := (bus s)(own := q)\<rparr> in
            if ret = 1 then s else if screen m s then s else handle m s))"

definition message_proc ::
  "int \<Rightarrow> ('a server_state_scheme \<Rightarrow> bool \<times> 'a server_state_scheme) \<Rightarrow> (msg \<Rightarrow> 'a server_state_scheme \<Rightarrow> bool)
    \<Rightarrow> (msg \<Rightarrow> 'a server_state_scheme \<Rightarrow> 'a server_state_scheme) \<Rightarrow> 'a server_state_scheme \<Rightarrow> 'a server_state_scheme" where
  "message_proc own block screen handle s =
     (if queue_empty own s \<and> status (info s) = old_status (info s) then s\<lparr>waiting := True\<rparr>
      else take_message own block screen handle s)"

definition lock_block :: "'a server_state_scheme \<Rightarrow> bool \<times> 'a server_state_scheme" where
  "lock_block s = (msg_lock (info s) \<noteq> 0, s)"

text \<open>Every server's filter: in an error or exit state only system messages and answers pass.\<close>

definition error_filter :: "msg \<Rightarrow> 'a server_state_scheme \<Rightarrow> bool" where
  "error_filter m s =
     (status (info s) \<ge> STATUS_ERROR \<and> \<not> msg_is_system (m_message m) \<and> \<not> msg_is_response (m_message m))"

text \<open>\<open>msg_copy(&info.task.msg, &msg)\<close>: the blocks are not copied.\<close>

definition keep_task_msg :: "msg \<Rightarrow> 'a server_state_scheme \<Rightarrow> 'a server_state_scheme" where
  "keep_task_msg m = with_info (\<lambda>x. x\<lparr>task := (task x)\<lparr>task_msg := m\<lparr>m_arg := None, m_extra := None\<rparr>\<rparr>\<rparr>)"

text \<open>The cases of the switch that all servers have.\<close>

definition on_manager_exit :: "msg \<Rightarrow> 'a server_state_scheme \<Rightarrow> 'a server_state_scheme" where
  "on_manager_exit m s = with_info (\<lambda>x. x\<lparr>status := EXIT_INIT, msg_lock := 0\<rparr>) (keep_task_msg m s)"

definition on_exit_ack :: "msg \<Rightarrow> 'a server_state_scheme \<Rightarrow> 'a server_state_scheme" where
  "on_exit_ack m = with_info (\<lambda>x. x\<lparr>quit_status := misc_clear_bit (quit_status x) (nat (m_sender m))\<rparr>)"

section \<open>The loop\<close>

text \<open>
  \<open>stopped\<close> holds while the state machine is still inside one of its calls; the rest of the
  turn then follows when the call returns.
\<close>

definition loop_turn ::
  "('a server_state_scheme \<Rightarrow> 'a server_state_scheme) \<Rightarrow> ('a server_state_scheme \<Rightarrow> bool)
    \<Rightarrow> ('a server_state_scheme \<Rightarrow> 'a server_state_scheme) \<Rightarrow> ('a server_state_scheme \<Rightarrow> 'a server_state_scheme)
    \<Rightarrow> 'a server_state_scheme \<Rightarrow> 'a server_state_scheme" where
  "loop_turn machine stopped tproc mproc s =
     (let s = machine (with_info (\<lambda>x. x\<lparr>old_status := status x\<rparr>) s) in
      if stopped s then s else mproc (tproc s))"

text \<open>One round: a woken server goes on after its wait, another one takes a turn.\<close>

definition loop_round ::
  "int \<Rightarrow> ('a server_state_scheme \<Rightarrow> 'a server_state_scheme) \<Rightarrow> ('a server_state_scheme \<Rightarrow> 'a server_state_scheme)
    \<Rightarrow> 'a server_state_scheme \<Rightarrow> 'a server_state_scheme" where
  "loop_round own turn resume s =
     (if exit_flag (info s) \<noteq> 0 then s
      else if waiting s then (if queue_empty own s then s else resume (s\<lparr>waiting := False\<rparr>))
      else turn s)"

section \<open>The exit ladder\<close>

definition exit_init :: "'f server_info_t \<Rightarrow> 'f server_info_t" where
  "exit_init x = x\<lparr>quit_status := (if m_sender (task_msg (task x)) = SERVER_MANAGER
      then quit_status x AND cat (m_arg_in (task_msg (task x))) else 0), status := EXIT_SERVER\<rparr>"

definition ladder :: "'f server_info_t \<Rightarrow> 'f server_info_t" where
  "ladder x =
     (if status x = EXIT_INIT then exit_init x
      else if status x = EXIT_SERVER then (if quit_status x = 0 then x\<lparr>status := EXIT_STAGE1\<rparr> else x)
      else if status x = EXIT_STAGE1 then x\<lparr>status := EXIT_THREAD\<rparr>
      else if status x = EXIT_THREAD then
        x\<lparr>thread_exit := thread_start x, status := (if thread_start x = 0 then EXIT_STAGE2 else EXIT_THREAD)\<rparr>
      else if status x = EXIT_STAGE2 then x\<lparr>status := EXIT_FINISH\<rparr>
      else if status x = EXIT_FINISH then x\<lparr>exit_flag := 1, status := STATUS_NONE\<rparr>
      else x)"

text \<open>
  One step of a server's own ladder: its first release may also tell its threads to exit, and
  \<open>status2\<close> is its own.
\<close>

definition climbs :: "'f server_info_t \<Rightarrow> 'f server_info_t \<Rightarrow> bool" where
  "climbs x y = (\<exists>v e. y = (ladder x)\<lparr>status2 := v, thread_exit := e\<rparr>
     \<and> (status x \<noteq> EXIT_STAGE1 \<longrightarrow> e = thread_exit (ladder x)))"

lemma climbs_ladder: "y = (ladder x)\<lparr>status2 := status2 y\<rparr> \<Longrightarrow> climbs x y"
  unfolding climbs_def
  by (rule exI [of _ "status2 y"], rule exI [of _ "thread_exit (ladder x)"]) (erule ssubst, simp)

lemma ladder_keeps: "y = ladder x \<Longrightarrow> climbs x y"
  by (rule climbs_ladder) simp

abbreviation exit_states :: "int set" where
  "exit_states \<equiv> {EXIT_INIT, EXIT_SERVER, EXIT_STAGE1, EXIT_THREAD, EXIT_STAGE2, EXIT_FINISH}"

text \<open>A queue in order that holds nothing but dummies.\<close>

definition quiet :: "queue \<Rightarrow> bool" where
  "quiet q = (ring_wf q \<and> (\<forall>m \<in> set (contents q). m_message m = MSG_MANAGER_DUMMY))"

lemma quiet_empty: "quiet q \<Longrightarrow> (b_head q = b_tail q) = (contents q = [])"
  using ring_empty_iff [of q] by (simp add: quiet_def msg_buffer_is_empty_def contents_def)

lemma quiet_push_dummy:
  assumes "quiet q" "m_message m = MSG_MANAGER_DUMMY"
  shows "quiet (ring_push q m)" "b_init (ring_push q m) = b_init q" "contents (ring_push q m) \<noteq> []"
proof -
  have wf: "ring_wf q" using assms(1) by (simp add: quiet_def)
  have tl: "x \<in> set (tl xs) \<Longrightarrow> x \<in> set xs" for x and xs :: "msg list" by (cases xs) auto
  show "b_init (ring_push q m) = b_init q" by (rule ring_push_props [OF wf])
  have cap: "0 < capacity q" using ring_size_pos [OF wf] by (simp add: capacity_def)
  have full: "\<not> ring_count q < capacity q \<Longrightarrow> contents q \<noteq> []" using cap by (metis length_contents list.size(3))
  have "contents (ring_push q m) =
    (if ring_count q < capacity q then contents q @ [m\<lparr>m_sequence := b_sequence q + 1\<rparr>]
     else if b_overflow q = MSG_BUFFER_OVERFLOW_YES then tl (contents q) @ [m\<lparr>m_sequence := b_sequence q + 1\<rparr>]
     else contents q)"
    using wf by (simp add: ring_push_cases append_msg_props replace_oldest)
  then show "quiet (ring_push q m)" "contents (ring_push q m) \<noteq> []"
    using assms ring_push_props(1) [OF wf, of m] full by (auto simp: quiet_def dest: tl split: if_splits)
qed

lemma quiet_dummy:
  assumes "is_server own" "own \<noteq> SERVER_MANAGER" "quiet (bs own)" "b_init (bs own) \<noteq> 0"
  shows "quiet (global_common_send_dummy bs own own)" "b_init (global_common_send_dummy bs own own) = b_init (bs own)"
    "contents (global_common_send_dummy bs own own) \<noteq> []"
proof -
  let ?m = "msg_init\<lparr>m_sender := own, m_receiver := own, m_message := MSG_MANAGER_DUMMY\<rparr>"
  have "global_common_send_dummy bs own own = ring_push (bs own) ?m"
    using assms by (simp add: global_common_send_dummy_def send_server deliver_def ring_push_def)
  then show "quiet (global_common_send_dummy bs own own)" "b_init (global_common_send_dummy bs own own) = b_init (bs own)"
    "contents (global_common_send_dummy bs own own) \<noteq> []"
    using quiet_push_dummy [OF assms(3), of ?m] by simp_all
qed

section \<open>Threads that were asked to exit\<close>

text \<open>What the server sees of its threads' ends, for the threads of a list.\<close>

definition settle_threads ::
  "(nat \<Rightarrow> 'a server_state_scheme \<Rightarrow> 'a server_state_scheme) \<Rightarrow> nat list
    \<Rightarrow> 'a server_state_scheme \<Rightarrow> 'a server_state_scheme" where
  "settle_threads ends is s =
     foldl (\<lambda>s i. if bit (thread_start (info s)) i \<and> bit (thread_exit (info s)) i then ends i s else s) s is"

text \<open>
  A thread that ends clears its bit, leaves a dummy in its server's queue and touches
  nothing else of the frame; \<open>exits\<close> is what it makes of the exit bits, of which it may touch
  its own.
\<close>

locale thread_pool =
  fixes own :: int
    and ends :: "nat \<Rightarrow> 'a server_state_scheme \<Rightarrow> 'a server_state_scheme"
    and exits :: "nat \<Rightarrow> int \<Rightarrow> int"
  assumes own_server: "is_server own" "own \<noteq> SERVER_MANAGER"
    and ends_info: "info (ends i s) = (info s)\<lparr>thread_start := misc_clear_bit (thread_start (info s)) i,
      thread_exit := exits i (thread_exit (info s))\<rparr>"
    and exits_other: "k \<noteq> i \<Longrightarrow> bit (exits i n) k = bit n k"
    and ends_queue: "bus (ends i s) own = global_common_send_dummy (bus s) own own"
    and ends_waiting: "waiting (ends i s) = waiting s"
begin

lemma settle_bits:
  "\<exists>a b. info (settle_threads ends is s) = (info s)\<lparr>thread_start := a, thread_exit := b\<rparr>
    \<and> (\<forall>k. bit a k = (bit (thread_start (info s)) k \<and> \<not> (k \<in> set is \<and> bit (thread_exit (info s)) k)))"
proof (induction "is" arbitrary: s)
  case Nil
  show ?case by (intro exI [of _ "thread_start (info s)"] exI [of _ "thread_exit (info s)"]) (simp add: settle_threads_def)
next
  case (Cons i "is")
  let ?t = "if bit (thread_start (info s)) i \<and> bit (thread_exit (info s)) i then ends i s else s"
  have "settle_threads ends (i # is) s = settle_threads ends is ?t" by (simp add: settle_threads_def)
  moreover have frame: "info ?t = (info s)\<lparr>thread_start := thread_start (info ?t), thread_exit := thread_exit (info ?t)\<rparr>"
    and start: "\<And>k. bit (thread_start (info ?t)) k = (bit (thread_start (info s)) k \<and> \<not> (k = i \<and> bit (thread_exit (info s)) k))"
    and exit: "\<And>k. k \<noteq> i \<Longrightarrow> bit (thread_exit (info ?t)) k = bit (thread_exit (info s)) k"
    by (auto simp: ends_info exits_other)
  moreover obtain a b where "info (settle_threads ends is ?t) = (info ?t)\<lparr>thread_start := a, thread_exit := b\<rparr>"
    and a: "\<And>k. bit a k = (bit (thread_start (info ?t)) k \<and> \<not> (k \<in> set is \<and> bit (thread_exit (info ?t)) k))"
    using Cons.IH [of ?t] by blast
  moreover have "(info ?t)\<lparr>thread_start := a, thread_exit := b\<rparr> = (info s)\<lparr>thread_start := a, thread_exit := b\<rparr>"
    by (subst frame) simp
  moreover have "bit a k = (bit (thread_start (info s)) k \<and> \<not> (k \<in> set (i # is) \<and> bit (thread_exit (info s)) k))" for k
    unfolding a start using exit [of k] by (cases "k = i") (auto simp: ends_info)
  ultimately show ?case by (intro exI [of _ a] exI [of _ b]) simp
qed

lemma settle_info:
  assumes "thread_start (info s) AND threads = thread_start (info s)" "\<And>k. bit threads k = (k \<in> set is)"
  shows "\<exists>e. info (settle_threads ends is s) = (info s)\<lparr>
      thread_start := thread_start (info s) AND NOT (thread_exit (info s)), thread_exit := e\<rparr>"
proof -
  have in_is: "\<And>k. bit (thread_start (info s)) k \<Longrightarrow> k \<in> set is"
    using assms by (metis bit_and_iff)
  obtain a b where ab: "info (settle_threads ends is s) = (info s)\<lparr>thread_start := a, thread_exit := b\<rparr>"
    "\<forall>k. bit a k = (bit (thread_start (info s)) k \<and> \<not> (k \<in> set is \<and> bit (thread_exit (info s)) k))"
    using settle_bits [of "is" s] by blast
  have "a = thread_start (info s) AND NOT (thread_exit (info s))"
    using ab(2) in_is by (auto intro!: bit_ext_int simp: bit_simps)
  then show ?thesis using ab(1) by blast
qed

lemma settle_rest: "waiting (settle_threads ends is s) = waiting s"
  by (induction "is" arbitrary: s) (auto simp: settle_threads_def ends_waiting)

lemma settle_invariant:
  "(\<And>i s. P (ends i s) = P s) \<Longrightarrow> P (settle_threads ends is s) = P s"
  by (induction "is" arbitrary: s) (auto simp: settle_threads_def)

lemma settle_quiet:
  "quiet (bus s own) \<Longrightarrow> b_init (bus s own) \<noteq> 0 \<Longrightarrow>
   quiet (bus (settle_threads ends is s) own) \<and> b_init (bus (settle_threads ends is s) own) \<noteq> 0
   \<and> (contents (bus s own) \<noteq> [] \<or> (\<exists>i \<in> set is. bit (thread_start (info s)) i \<and> bit (thread_exit (info s)) i)
        \<longrightarrow> contents (bus (settle_threads ends is s) own) \<noteq> [])"
proof (induction "is" arbitrary: s)
  case Nil
  then show ?case by (simp add: settle_threads_def)
next
  case (Cons i "is")
  let ?t = "if bit (thread_start (info s)) i \<and> bit (thread_exit (info s)) i then ends i s else s"
  have t: "quiet (bus ?t own)" "b_init (bus ?t own) \<noteq> 0"
    "bit (thread_start (info s)) i \<and> bit (thread_exit (info s)) i \<longrightarrow> contents (bus ?t own) \<noteq> []"
    "contents (bus s own) \<noteq> [] \<longrightarrow> contents (bus ?t own) \<noteq> []"
    using Cons.prems quiet_dummy [of own "bus s", OF own_server Cons.prems] by (auto simp: ends_queue)
  have "j \<noteq> i \<longrightarrow> bit (thread_start (info ?t)) j = bit (thread_start (info s)) j
      \<and> bit (thread_exit (info ?t)) j = bit (thread_exit (info s)) j" for j
    by (auto simp: ends_info exits_other)
  then show ?case
    using Cons.IH [OF t(1,2)] t(3,4) by (auto simp: settle_threads_def)
qed

lemma settle_queue:
  assumes "thread_start (info s) AND threads = thread_start (info s)" "\<And>k. bit threads k = (k \<in> set is)"
    and "quiet (bus s own)" "b_init (bus s own) \<noteq> 0"
  shows "quiet (bus (settle_threads ends is s) own) \<and> b_init (bus (settle_threads ends is s) own) \<noteq> 0
    \<and> (thread_start (info s) AND thread_exit (info s) \<noteq> 0 \<longrightarrow> contents (bus (settle_threads ends is s) own) \<noteq> [])"
proof -
  have "\<exists>i \<in> set is. bit (thread_start (info s)) i \<and> bit (thread_exit (info s)) i"
    if "thread_start (info s) AND thread_exit (info s) \<noteq> 0"
  proof -
    have "\<not> (\<forall>k. \<not> bit (thread_start (info s) AND thread_exit (info s)) k)"
    proof
      assume none: "\<forall>k. \<not> bit (thread_start (info s) AND thread_exit (info s)) k"
      have "thread_start (info s) AND thread_exit (info s) = 0" by (rule bit_ext_int) (use none in simp)
      then show False using that by simp
    qed
    then obtain k where "bit (thread_start (info s) AND thread_exit (info s)) k" by blast
    then show ?thesis using assms(1,2) by (metis bit_and_iff)
  qed
  then show ?thesis using settle_quiet [OF assms(3,4), of "is"] by blast
qed

lemma settle_none: "thread_start (info s) = 0 \<Longrightarrow> settle_threads ends is s = s"
  by (induction "is") (simp_all add: settle_threads_def)

end

section \<open>Leaving the loop\<close>

text \<open>A server on its way out, with nothing but dummies in its queue and nobody to wait for.\<close>

definition leaving :: "int \<Rightarrow> int \<Rightarrow> ('a server_state_scheme \<Rightarrow> bool) \<Rightarrow> 'a server_state_scheme \<Rightarrow> bool" where
  "leaving own threads sane s = (exit_flag (info s) \<noteq> 0 \<or>
     (status (info s) \<in> exit_states \<and> sane s \<and> msg_lock (info s) = 0 \<and> quit_status (info s) = 0
      \<and> thread_start (info s) AND threads = thread_start (info s)
      \<and> (if status (info s) = EXIT_FINISH then queue_empty own s else quiet (bus s own) \<and> b_init (bus s own) \<noteq> 0)
      \<and> (status (info s) \<in> {EXIT_STAGE2, EXIT_FINISH} \<longrightarrow> thread_start (info s) = 0)
      \<and> (waiting s \<longrightarrow> status (info s) = EXIT_THREAD \<and> thread_start (info s) \<noteq> 0
           \<and> thread_exit (info s) = thread_start (info s))))"

definition exit_rank :: "'a server_state_scheme \<Rightarrow> nat" where
  "exit_rank s =
     (let x = info s in
      if exit_flag x \<noteq> 0 then 0
      else if status x = EXIT_FINISH then 1
      else if status x = EXIT_STAGE2 then 2
      else if status x = EXIT_THREAD then
        (if thread_start x = 0 then 3 else if waiting s then 5 else if thread_exit x = thread_start x then 4 else 6)
      else if status x = EXIT_STAGE1 then 7
      else if status x = EXIT_SERVER then 8
      else 9)"

text \<open>
  What a server's functions promise for the ladder.  \<open>settle\<close> is what happens between two
  rounds: the threads that were asked to exit have ended, each clearing its bits and, if
  there was one, leaving a dummy in the queue.
\<close>

locale exit_ladder =
  fixes own threads :: int
    and machine :: "'a server_state_scheme \<Rightarrow> 'a server_state_scheme"
    and stopped :: "'a server_state_scheme \<Rightarrow> bool"
    and tproc :: "'a server_state_scheme \<Rightarrow> 'a server_state_scheme"
    and block :: "'a server_state_scheme \<Rightarrow> bool \<times> 'a server_state_scheme"
    and screen :: "msg \<Rightarrow> 'a server_state_scheme \<Rightarrow> bool"
    and handle :: "msg \<Rightarrow> 'a server_state_scheme \<Rightarrow> 'a server_state_scheme"
    and settle :: "'a server_state_scheme \<Rightarrow> 'a server_state_scheme"
    and sane :: "'a server_state_scheme \<Rightarrow> bool"
  assumes sane_frame: "task x = task (info s) \<Longrightarrow> sane (s\<lparr>info := x\<rparr>) = sane s" "sane (s\<lparr>bus := b\<rparr>) = sane s" "sane (s\<lparr>waiting := w\<rparr>) = sane s"
    and machine_info: "sane s \<Longrightarrow> status (info s) \<in> exit_states \<Longrightarrow> climbs (info s) (info (machine s))"
    and machine_queue: "sane s \<Longrightarrow> status (info s) \<in> exit_states \<Longrightarrow>
      bus (machine s) own = (if status (info s) = EXIT_STAGE2 then msg_buffer_release (bus s own) else bus s own)"
    and machine_rest: "sane s \<Longrightarrow> status (info s) \<in> exit_states \<Longrightarrow>
      waiting (machine s) = waiting s \<and> \<not> stopped (machine s) \<and> sane (machine s)"
    and tproc_exit: "sane s \<Longrightarrow> status (info s) \<in> exit_states \<Longrightarrow> tproc s = s"
    and tproc_status: "sane s \<Longrightarrow> status (info s) = STATUS_NONE \<Longrightarrow> \<exists>v. tproc s = set_status v s"
    and block_open: "msg_lock (info s) = 0 \<Longrightarrow> queue_empty own s \<or> quiet (bus s own) \<Longrightarrow> block s = (False, s)"
    and handle_dummy: "m_message m = MSG_MANAGER_DUMMY \<Longrightarrow> handle m s = s"
    and settle_info: "sane s \<Longrightarrow> thread_start (info s) AND threads = thread_start (info s) \<Longrightarrow> \<exists>e. info (settle s) = (info s)\<lparr>
      thread_start := thread_start (info s) AND NOT (thread_exit (info s)), thread_exit := e\<rparr>"
    and settle_rest: "sane s \<Longrightarrow> waiting (settle s) = waiting s \<and> sane (settle s)"
    and settle_queue: "sane s \<Longrightarrow> thread_start (info s) AND threads = thread_start (info s) \<Longrightarrow> quiet (bus s own) \<Longrightarrow> b_init (bus s own) \<noteq> 0 \<Longrightarrow>
      quiet (bus (settle s) own) \<and> b_init (bus (settle s) own) \<noteq> 0
      \<and> (thread_start (info s) AND thread_exit (info s) \<noteq> 0 \<longrightarrow> contents (bus (settle s) own) \<noteq> [])"
    and settle_none: "thread_start (info s) = 0 \<Longrightarrow> bus (settle s) own = bus s own"
begin


abbreviation "grab \<equiv> take_message own block screen handle"
abbreviation "step s \<equiv> loop_round own (loop_turn machine stopped tproc (message_proc own block screen handle)) grab (settle s)"

lemma grab_quiet:
  assumes "msg_lock (info s) = 0" "quiet (bus s own)"
  shows "info (grab s) = info s \<and> waiting (grab s) = waiting s \<and> sane (grab s) = sane s
    \<and> quiet (bus (grab s) own) \<and> b_init (bus (grab s) own) = b_init (bus s own)"
proof (cases "contents (bus s own)")
  case Nil
  then have "msg_buffer_pop (bus s own) msg_init = (1, msg_init, bus s own)"
    using assms(2) by (simp add: quiet_def pop_empty)
  then show ?thesis using assms block_open [of s] by (simp add: take_message_def)
next
  case (Cons m ms)
  have wf: "ring_wf (bus s own)" using assms(2) by (simp add: quiet_def)
  have "0 < ring_count (bus s own)" using Cons by (metis length_contents length_greater_0_conv list.distinct(1))
  note e = evict_props [OF wf this]
  have m: "m_message m = MSG_MANAGER_DUMMY" "quiet (evict (bus s own))"
    using assms(2) Cons by (simp_all add: quiet_def e)
  then show ?thesis
    using assms block_open [of s] pop_nonempty [OF wf Cons, of msg_init]
    by (simp add: take_message_def handle_dummy e sane_frame Let_def)
qed

lemma grab_empty:
  "msg_lock (info s) = 0 \<Longrightarrow> queue_empty own s \<Longrightarrow> grab s = s"
  using block_open [of s]
  by (simp add: take_message_def msg_buffer_pop_def msg_buffer_is_empty_def queue_empty_def)

lemma turn_unfold:
  assumes "sane s" "status (info s) \<in> exit_states"
  obtains t where "climbs ((info s)\<lparr>old_status := status (info s)\<rparr>) (info t)"
    "bus t own = (if status (info s) = EXIT_STAGE2 then msg_buffer_release (bus s own) else bus s own)"
    "waiting t = waiting s" "sane t"
    "loop_turn machine stopped tproc (message_proc own block screen handle) s = message_proc own block screen handle (tproc t)"
proof -
  let ?s = "with_info (\<lambda>x. x\<lparr>old_status := status x\<rparr>) s"
  have a: "sane ?s" "status (info ?s) \<in> exit_states" using assms by (auto simp: sane_frame)
  have "climbs ((info s)\<lparr>old_status := status (info s)\<rparr>) (info (machine ?s))"
    using machine_info [OF a] by simp
  moreover have "bus (machine ?s) own = (if status (info s) = EXIT_STAGE2 then msg_buffer_release (bus s own) else bus s own)"
    using machine_queue [OF a] by simp
  moreover have "waiting (machine ?s) = waiting s \<and> \<not> stopped (machine ?s) \<and> sane (machine ?s)"
    using machine_rest [OF a] by simp
  ultimately show ?thesis using that [of "machine ?s"] by (simp add: loop_turn_def Let_def)
qed

text \<open>A message is taken after a turn that changed the status.\<close>

lemma proc_moved:
  assumes "status (info t) \<noteq> old_status (info t)" "msg_lock (info t) = 0" "quiet (bus t own)"
  shows "info (message_proc own block screen handle t) = info t \<and> waiting (message_proc own block screen handle t) = waiting t
    \<and> sane (message_proc own block screen handle t) = sane t
    \<and> quiet (bus (message_proc own block screen handle t) own)
    \<and> b_init (bus (message_proc own block screen handle t) own) = b_init (bus t own)"
  using grab_quiet [OF assms(2,3)] assms(1) by (simp add: message_proc_def)

lemma leave_waiting:
  assumes "leaving own threads sane s" "exit_flag (info s) = 0" "waiting s"
  shows "leaving own threads sane (step s) \<and> exit_rank (step s) < exit_rank s"
proof -
  have s: "status (info s) = EXIT_THREAD" "thread_start (info s) \<noteq> 0" "thread_exit (info s) = thread_start (info s)"
    "sane s" "thread_start (info s) AND threads = thread_start (info s)" "msg_lock (info s) = 0" "quit_status (info s) = 0" "quiet (bus s own)" "b_init (bus s own) \<noteq> 0"
    using assms by (auto simp: leaving_def)
  let ?s = "settle s"
  obtain e where i: "info ?s = (info s)\<lparr>thread_start := 0, thread_exit := e\<rparr>" using settle_info [OF s(4,5)] s(3) by auto
  have q: "quiet (bus ?s own)" "b_init (bus ?s own) \<noteq> 0" "contents (bus ?s own) \<noteq> []"
    using settle_queue [OF s(4,5,8,9)] s(2,3) by simp_all
  have w: "waiting ?s" "sane ?s" using settle_rest [OF s(4)] assms(3) by simp_all
  have "\<not> queue_empty own ?s" using quiet_empty [OF q(1)] q(3) by (simp add: queue_empty_def)
  then have "step s = grab (?s\<lparr>waiting := False\<rparr>)" using i w assms(2) by (simp add: loop_round_def)
  then show ?thesis
    using grab_quiet [of "?s\<lparr>waiting := False\<rparr>"] i q w s assms(2,3)
    by (simp add: leaving_def exit_rank_def sane_frame Let_def)
qed

lemma leave_turn:
  assumes "leaving own threads sane s" "exit_flag (info s) = 0" "\<not> waiting s"
  shows "leaving own threads sane (step s) \<and> exit_rank (step s) < exit_rank s"
proof -
  have s: "status (info s) \<in> exit_states" "sane s" "msg_lock (info s) = 0" "quit_status (info s) = 0"
    "thread_start (info s) AND threads = thread_start (info s)"
    using assms(1,2) by (auto simp: leaving_def)
  let ?s = "settle s"
  obtain e where i: "info ?s = (info s)\<lparr>thread_start := thread_start (info s) AND NOT (thread_exit (info s)), thread_exit := e\<rparr>"
    using settle_info [OF s(2,5)] by blast
  have masked: "thread_start (info ?s) AND threads = thread_start (info ?s)"
    using i s(5) by simp (metis and.assoc and.commute)
  have st: "status (info ?s) = status (info s)" "exit_flag (info ?s) = 0" "msg_lock (info ?s) = 0" "quit_status (info ?s) = 0"
    using i s assms(2) by simp_all
  have w: "\<not> waiting ?s" "sane ?s" using settle_rest [OF s(2)] assms(3) by simp_all
  have step: "step s = loop_turn machine stopped tproc (message_proc own block screen handle) ?s"
    using st w by (simp add: loop_round_def)
  obtain t where t0: "climbs ((info ?s)\<lparr>old_status := status (info s)\<rparr>) (info t)"
    and t2: "bus t own = (if status (info s) = EXIT_STAGE2 then msg_buffer_release (bus ?s own) else bus ?s own)"
    "\<not> waiting t" "sane t" "step s = message_proc own block screen handle (tproc t)"
    using turn_unfold [of ?s] w s(1) st(1) step by metis
  then obtain v e' where t1: "info t = (ladder ((info ?s)\<lparr>old_status := status (info s)\<rparr>))\<lparr>status2 := v, thread_exit := e'\<rparr>"
    "status (info s) \<noteq> EXIT_STAGE1 \<longrightarrow> e' = thread_exit (ladder ((info ?s)\<lparr>old_status := status (info s)\<rparr>))"
    using st(1) by (auto simp: climbs_def)
  have quiet_s: "quiet (bus ?s own)" "b_init (bus ?s own) \<noteq> 0" if "status (info s) \<noteq> EXIT_FINISH"
    using settle_queue [OF s(2,5)] assms(1,2) that by (auto simp: leaving_def)
  consider "status (info s) \<in> {EXIT_INIT, EXIT_SERVER, EXIT_STAGE1}" | "status (info s) = EXIT_THREAD"
    | "status (info s) = EXIT_STAGE2" | "status (info s) = EXIT_FINISH" using s(1) by blast
  then show ?thesis
  proof cases
    case 1
    then have it: "status (info t) = status (info s) + 1" "old_status (info t) = status (info s)" "exit_flag (info t) = 0"
      "msg_lock (info t) = 0" "quit_status (info t) = 0" "thread_start (info t) AND threads = thread_start (info t)"
      using t1 st masked by (auto simp: ladder_def exit_init_def)
    then have "tproc t = t" using 1 t2(3) by (intro tproc_exit) auto
    then have p: "step s = message_proc own block screen handle t" using t2(4) by simp
    have "quiet (bus t own)" "b_init (bus t own) \<noteq> 0" using quiet_s 1 t2(1) by auto
    then show ?thesis
      using proc_moved [of t, folded p] it t2(2,3) 1 assms(2) by (auto simp: leaving_def exit_rank_def sane_frame Let_def)
  next
    case 2
    let ?start = "thread_start (info s) AND NOT (thread_exit (info s))"
    have it: "status (info t) = (if ?start = 0 then EXIT_STAGE2 else EXIT_THREAD)" "old_status (info t) = EXIT_THREAD"
      "exit_flag (info t) = 0" "msg_lock (info t) = 0" "quit_status (info t) = 0"
      "thread_start (info t) = ?start" "thread_exit (info t) = ?start" "thread_start (info t) AND threads = thread_start (info t)"
      using t1 st 2 masked by (auto simp: ladder_def i)
    then have "tproc t = t" using t2(3) by (intro tproc_exit) auto
    then have p: "step s = message_proc own block screen handle t" using t2(4) by simp
    have q: "quiet (bus t own)" "b_init (bus t own) \<noteq> 0" using quiet_s 2 t2(1) by auto
    show ?thesis
    proof (cases "?start = 0")
      case True
      then show ?thesis
        using proc_moved [of t, folded p] it t2(2,3) q 2 assms(2,3) by (auto simp: leaving_def exit_rank_def sane_frame Let_def)
    next
      case False
      then have start: "thread_start (info s) \<noteq> 0" "thread_exit (info s) \<noteq> thread_start (info s)" by auto
      show ?thesis
      proof (cases "queue_empty own t")
        case True
        then have "step s = t\<lparr>waiting := True\<rparr>" using p it False by (simp add: message_proc_def)
        then show ?thesis using it t2(2,3) q 2 assms(2,3) False start by (simp add: leaving_def exit_rank_def sane_frame Let_def)
      next
        case nonempty: False
        then have "step s = grab t" using p it False by (simp add: message_proc_def)
        then show ?thesis
          using grab_quiet [OF it(4) q(1)] it t2(2,3) q 2 assms(2,3) False start
          by (simp add: leaving_def exit_rank_def sane_frame Let_def)
      qed
    qed
  next
    case 3
    then have it: "status (info t) = EXIT_FINISH" "old_status (info t) = EXIT_STAGE2" "exit_flag (info t) = 0"
      "msg_lock (info t) = 0" "quit_status (info t) = 0" "thread_start (info t) = 0"
      using t1 st assms(1,2) by (auto simp: ladder_def i leaving_def)
    then have "tproc t = t" using t2(3) by (intro tproc_exit) auto
    then have p: "step s = message_proc own block screen handle t" using t2(4) by simp
    have e: "queue_empty own t" using t2(1) 3 by (simp add: queue_empty_def msg_buffer_release_def Let_def split: option.splits)
    have "step s = t" using p it grab_empty [OF it(4) e] by (simp add: message_proc_def)
    then show ?thesis using it e t2(2,3) 3 assms(2,3) by (simp add: leaving_def exit_rank_def sane_frame Let_def)
  next
    case 4
    have start: "thread_start (info s) = 0" "queue_empty own s" using assms(1,2) 4 by (auto simp: leaving_def)
    have it: "exit_flag (info t) = 1" "msg_lock (info t) = 0"
      using t1 st 4 by (auto simp: ladder_def)
    obtain v where v: "tproc t = set_status v t" using tproc_status [OF t2(3)] t1 st 4 by (auto simp: ladder_def)
    have "queue_empty own ?s" using start settle_none by (simp add: queue_empty_def)
    then have e: "queue_empty own (tproc t)" using t2(1) 4 v by (simp add: queue_empty_def)
    have "step s = tproc t \<or> step s = (tproc t)\<lparr>waiting := True\<rparr>"
      using t2(4) grab_empty [OF _ e] it v by (simp add: message_proc_def)
    then have "exit_flag (info (step s)) = 1" using it v by auto
    then show ?thesis using 4 assms(2) by (simp add: leaving_def exit_rank_def sane_frame Let_def)
  qed
qed

end

sublocale exit_ladder \<subseteq> progress step "leaving own threads sane" "\<lambda>s. exit_flag (info s) \<noteq> 0" exit_rank
proof
  fix s
  assume "leaving own threads sane s" "\<not> exit_flag (info s) \<noteq> 0"
  then have "leaving own threads sane (step s) \<and> exit_rank (step s) < exit_rank s"
    using leave_waiting leave_turn by (cases "waiting s") auto
  then show "leaving own threads sane (step s)" "exit_rank (step s) < exit_rank s" by simp_all
qed

context exit_ladder
begin

lemma leaves_loop: "leaving own threads sane s \<Longrightarrow> \<exists>n \<le> 9. exit_flag (info ((step ^^ n) s)) \<noteq> 0"
proof -
  assume "leaving own threads sane s"
  moreover have "exit_rank s \<le> 9" by (simp add: exit_rank_def Let_def)
  ultimately show ?thesis using reaches_goal by (meson order_trans)
qed

end

end
