(* ===== verification/MsgBlock.thy ===== *)
theory MsgBlock
  imports ServerLoop
begin

text \<open>
  How the audio, video and aliyun servers take messages while a task holds their
  \<open>msg_lock\<close>: system messages and answers are moved in front of the others
  (\<open>audio_message_block\<close>, \<open>video_message_block\<close>, \<open>aliyun_message_block\<close>, the same code three times),
  everything else waits.
\<close>

section \<open>The search\<close>

definition urgent :: "msg \<Rightarrow> bool" where
  "urgent m = (msg_is_system (m_message m) \<or> msg_is_response (m_message m))"

text \<open>
  The loop from \<open>index\<close> on, with the value returned and the queue.  It ends at the first urgent
  message or at the end of the queue; \<open>fuel\<close> is the size of the ring, which is enough
  (lemma \<open>block_search_spec\<close>).
\<close>

fun block_search :: "nat \<Rightarrow> nat \<Rightarrow> queue \<Rightarrow> bool \<times> queue" where
  "block_search 0 index q = (True, q)"
| "block_search (Suc fuel) index q =
     (case msg_buffer_probe_item q (int index) msg_init of (ret, m) \<Rightarrow>
        if ret \<noteq> 0 then (True, q)
        else if urgent m then
          (case msg_buffer_swap q 0 (int index) of
             Some (r, q) \<Rightarrow> (False, q)
           | None \<Rightarrow> (True, q))
        else block_search fuel (index + 1) q)"

definition message_block :: "int \<Rightarrow> 'a server_state_scheme \<Rightarrow> bool \<times> 'a server_state_scheme" where
  "message_block own s =
     (if msg_lock (info s) = 0 then (False, s)
      else case msg_buffer_probe_item (bus s own) 0 msg_init of (ret, m) \<Rightarrow>
        if ret \<noteq> 0 then (False, s)
        else if urgent m then (False, s)
        else case block_search (nat (b_size (bus s own))) 1 (bus s own) of (blocked, q) \<Rightarrow>
          (blocked, s\<lparr>bus := (bus s)(own := q)\<rparr>))"

definition audio_message_block :: "'a server_state_scheme \<Rightarrow> bool \<times> 'a server_state_scheme" where
  "audio_message_block = message_block SERVER_AUDIO"

definition video_message_block :: "'a server_state_scheme \<Rightarrow> bool \<times> 'a server_state_scheme" where
  "video_message_block = message_block SERVER_VIDEO"

definition aliyun_message_block :: "'a server_state_scheme \<Rightarrow> bool \<times> 'a server_state_scheme" where
  "aliyun_message_block = message_block SERVER_ALIYUN"

section \<open>What it does\<close>

lemma swap_keeps_init:
  fixes q :: queue
  assumes "msg_buffer_swap q i j = Some (r, q')"
  shows "b_init q' = b_init q"
proof -
  have item: "b_init (msg_buffer_swap_item b i j) = b_init b" for b :: queue and i j
    by (auto simp: msg_buffer_swap_item_def set_slot_def split: option.splits)
  have run: "swap_rundown fuel b i l k = Some b' \<Longrightarrow> b_init b' = b_init b" for fuel and b b' :: queue and i l k
    by (induction fuel b i l k rule: swap_rundown.induct) (auto simp: item Let_def split: if_splits)
  show ?thesis using assms by (auto simp: msg_buffer_swap_def Let_def item dest!: run split: if_splits)
qed

text \<open>The queue is searched behind its first \<open>i\<close> messages.\<close>

lemma block_search_spec:
  assumes "ring_wf q" "contents q = before @ waitlist" "length before = i" "0 < i" "length waitlist < fuel"
  shows "if \<exists>m \<in> set waitlist. urgent m
    then \<exists>q' skipped m rest. block_search fuel i q = (False, q') \<and> waitlist = skipped @ m # rest \<and> urgent m \<and> (\<forall>x \<in> set skipped. \<not> urgent x)
      \<and> ring_wf q' \<and> b_init q' = b_init q \<and> contents q' = m # before @ skipped @ rest
    else block_search fuel i q = (True, q)"
  using assms
proof (induction waitlist arbitrary: before i fuel)
  case Nil
  obtain f where f: "fuel = Suc f" using Nil.prems(5) by (cases fuel) auto
  have "ring_count q = i" using Nil.prems(2,3) length_contents [of q] by simp
  then show ?case using f probe_end [OF Nil.prems(1), of msg_init] by simp
next
  case (Cons m ws)
  obtain f where f: "fuel = Suc f" "length ws < f" using Cons.prems(5) by (cases fuel) auto
  have i: "i < ring_count q" using Cons.prems(2,3) length_contents [of q] by simp
  have m: "contents q ! i = m" using Cons.prems(2,3) by (metis nth_append_length)
  then have at: "(before @ m # ws) ! i = m" using Cons.prems(2) by simp
  have probe: "msg_buffer_probe_item q (int i) msg_init = (0, m)" using probe_in [OF Cons.prems(1) i] m by simp
  show ?case
  proof (cases "urgent m")
    case True
    obtain q' where q': "msg_buffer_swap q 0 (int i) = Some (0, q')" "ring_wf q'" "contents q' = move_up 0 i (contents q)"
      using swap_contents [OF Cons.prems(1,4) i] by auto
    have "contents q' = m # before @ [] @ ws"
      using q'(3) Cons.prems(2,3) at by (simp add: move_up_def)
    moreover have "block_search fuel i q = (False, q')" using True f probe q'(1) by simp
    ultimately have "\<exists>q' skipped u rest. block_search fuel i q = (False, q') \<and> m # ws = skipped @ u # rest \<and> urgent u
        \<and> (\<forall>x \<in> set skipped. \<not> urgent x) \<and> ring_wf q' \<and> b_init q' = b_init q \<and> contents q' = u # before @ skipped @ rest"
      using True q'(2) swap_keeps_init [OF q'(1)]
      by (intro exI [of _ q'] exI [of _ "[]"] exI [of _ m] exI [of _ ws]) simp
    moreover have "\<exists>x \<in> set (m # ws). urgent x" using True by simp
    ultimately show ?thesis by (simp only: if_True)
  next
    case False
    have "contents q = (before @ [m]) @ ws" "length (before @ [m]) = i + 1" using Cons.prems(2,3) by simp_all
    note ih = Cons.IH [OF Cons.prems(1) this _ f(2)]
    have step: "block_search fuel i q = block_search f (i + 1) q" using False f probe by simp
    show ?thesis
    proof (cases "\<exists>x \<in> set ws. urgent x")
      case True
      then obtain q' skipped u rest where r: "block_search f (i + 1) q = (False, q')" "ws = skipped @ u # rest" "urgent u"
        "\<forall>x \<in> set skipped. \<not> urgent x" "ring_wf q'" "b_init q' = b_init q" "contents q' = u # (before @ [m]) @ skipped @ rest"
        using ih by auto
      have "\<exists>x \<in> set (m # ws). urgent x" using True by auto
      moreover have "\<exists>q' skipped u rest. block_search fuel i q = (False, q') \<and> m # ws = skipped @ u # rest \<and> urgent u
          \<and> (\<forall>x \<in> set skipped. \<not> urgent x) \<and> ring_wf q' \<and> b_init q' = b_init q \<and> contents q' = u # before @ skipped @ rest"
        by (intro exI [of _ q'] exI [of _ "m # skipped"] exI [of _ u] exI [of _ rest]) (use r False step in simp)
      ultimately show ?thesis by (simp only: if_True)
    next
      case none: False
      then show ?thesis using ih step False by simp
    qed
  qed
qed


text \<open>The first urgent message of a queue, what is before it and what is after it.\<close>

lemma message_block_spec:
  assumes "msg_lock (info s) \<noteq> 0" "ring_wf (bus s own)"
  shows "if contents (bus s own) = [] then message_block own s = (False, s)
    else if \<exists>m \<in> set (contents (bus s own)). urgent m
    then \<exists>q skipped m rest. message_block own s = (False, s\<lparr>bus := (bus s)(own := q)\<rparr>)
      \<and> contents (bus s own) = skipped @ m # rest \<and> urgent m \<and> (\<forall>x \<in> set skipped. \<not> urgent x)
      \<and> ring_wf q \<and> b_init q = b_init (bus s own) \<and> contents q = m # skipped @ rest
    else message_block own s = (True, s)"
proof (cases "contents (bus s own)")
  case Nil
  then have "ring_count (bus s own) = 0" using length_contents [of "bus s own"] by simp
  then show ?thesis using Nil assms(1) probe_end [OF assms(2), of msg_init] by (simp add: message_block_def)
next
  case (Cons x xs)
  have len: "length (x # xs) = ring_count (bus s own)" using length_contents [of "bus s own"] Cons by simp
  have probe: "msg_buffer_probe_item (bus s own) 0 msg_init = (0, x)"
    using probe_in [OF assms(2), of 0 msg_init] len Cons by simp
  show ?thesis
  proof (cases "urgent x")
    case True
    have "message_block own s = (False, s\<lparr>bus := (bus s)(own := bus s own)\<rparr>)"
      using assms(1) probe True by (simp add: message_block_def)
    moreover have "x # xs = [] @ x # xs" "contents (bus s own) = x # [] @ xs" using Cons by simp_all
    ultimately have "\<exists>q skipped m rest. message_block own s = (False, s\<lparr>bus := (bus s)(own := q)\<rparr>)
      \<and> x # xs = skipped @ m # rest \<and> urgent m \<and> (\<forall>x \<in> set skipped. \<not> urgent x)
      \<and> ring_wf q \<and> b_init q = b_init (bus s own) \<and> contents q = m # skipped @ rest"
      using True assms(2) by (intro exI [of _ "bus s own"] exI [of _ "[]"] exI [of _ x] exI [of _ xs]) simp
    then show ?thesis using Cons True by (simp only: list.distinct if_False list.set_intros bex_simps) auto
  next
    case False
    have fuel: "length xs < nat (b_size (bus s own))" using ring_count_lt [OF assms(2)] len by simp
    have "contents (bus s own) = [x] @ xs" using Cons by simp
    note search = block_search_spec [OF assms(2) this _ _ fuel, of 1]
    have m: "message_block own s = (case block_search (nat (b_size (bus s own))) 1 (bus s own) of (blocked, q) \<Rightarrow>
          (blocked, s\<lparr>bus := (bus s)(own := q)\<rparr>))"
      using assms(1) probe False by (simp add: message_block_def)
    show ?thesis
    proof (cases "\<exists>m \<in> set xs. urgent m")
      case True
      then obtain q skipped u rest where r: "block_search (nat (b_size (bus s own))) 1 (bus s own) = (False, q)"
        "xs = skipped @ u # rest" "urgent u" "\<forall>x \<in> set skipped. \<not> urgent x" "ring_wf q" "b_init q = b_init (bus s own)"
        "contents q = u # [x] @ skipped @ rest"
        using search by auto
      have "\<exists>m \<in> set (contents (bus s own)). urgent m" using True Cons by auto
      moreover have "\<exists>q skipped m rest. message_block own s = (False, s\<lparr>bus := (bus s)(own := q)\<rparr>)
        \<and> contents (bus s own) = skipped @ m # rest \<and> urgent m \<and> (\<forall>x \<in> set skipped. \<not> urgent x)
        \<and> ring_wf q \<and> b_init q = b_init (bus s own) \<and> contents q = m # skipped @ rest"
        by (intro exI [of _ q] exI [of _ "x # skipped"] exI [of _ u] exI [of _ rest]) (use r m Cons False in simp)
      moreover have "contents (bus s own) \<noteq> []" using Cons by simp
      ultimately show ?thesis by (simp only: if_True if_False)
    next
      case none: False
      then have "block_search (nat (b_size (bus s own))) 1 (bus s own) = (True, bus s own)" using search by simp
      then show ?thesis using none False m Cons by simp
    qed
  qed
qed

text \<open>
  C3: A server whose task holds the lock handles exactly the first urgent message of its queue,
  wherever it stands, and the others keep their order; without an urgent message it handles
  nothing and the queue stays as it is.
\<close>

theorem locked_server_takes_urgent:
  assumes "msg_lock (info s) \<noteq> 0" "ring_wf (bus s own)" "contents (bus s own) \<noteq> []"
  shows "if \<exists>m \<in> set (contents (bus s own)). urgent m
    then \<exists>q skipped m rest. contents (bus s own) = skipped @ m # rest \<and> urgent m \<and> (\<forall>x \<in> set skipped. \<not> urgent x)
      \<and> ring_wf q \<and> contents q = skipped @ rest
      \<and> take_message own (message_block own) screen handle s =
          (let s = s\<lparr>bus := (bus s)(own := q)\<rparr> in if screen m s then s else handle m s)
    else take_message own (message_block own) screen handle s = s"
proof (cases "\<exists>m \<in> set (contents (bus s own)). urgent m")
  case True
  then obtain q skipped m rest where b: "message_block own s = (False, s\<lparr>bus := (bus s)(own := q)\<rparr>)"
    "contents (bus s own) = skipped @ m # rest" "urgent m" "\<forall>x \<in> set skipped. \<not> urgent x"
    "ring_wf q" "contents q = m # skipped @ rest"
    using message_block_spec [OF assms(1,2)] assms(3) by auto
  have "0 < ring_count q" using b(6) length_contents [of q] by simp
  note e = evict_props [OF b(5) this]
  have "msg_buffer_pop q msg_init = (0, m, evict q)" by (rule pop_nonempty [OF b(5,6)])
  then have "take_message own (message_block own) screen handle s =
      (let s = s\<lparr>bus := (bus s)(own := evict q)\<rparr> in if screen m s then s else handle m s)"
    by (simp add: take_message_def b(1) Let_def)
  then have "\<exists>q skipped m rest. contents (bus s own) = skipped @ m # rest \<and> urgent m \<and> (\<forall>x \<in> set skipped. \<not> urgent x)
      \<and> ring_wf q \<and> contents q = skipped @ rest
      \<and> take_message own (message_block own) screen handle s =
          (let s = s\<lparr>bus := (bus s)(own := q)\<rparr> in if screen m s then s else handle m s)"
    using b e by (intro exI [of _ "evict q"] exI [of _ skipped] exI [of _ m] exI [of _ rest]) simp
  then show ?thesis using True by (simp only: if_True)
next
  case False
  then have "message_block own s = (True, s)" using message_block_spec [OF assms(1,2)] assms(3) by simp
  then show ?thesis using False by (simp add: take_message_def)
qed

section \<open>What counts as urgent\<close>

lemma system_low_bits: "msg_is_system mid = (mid mod 65536 < 16)"
proof -
  have "mid AND push_bit 4 (mask 12) = push_bit 4 (take_bit 12 (drop_bit 4 mid))"
    by (rule bit_eqI) (auto simp: bit_simps)
  moreover have "push_bit 4 (mask 12) = (0xFFF0 :: int)" by (simp add: mask_eq_exp_minus_1 push_bit_eq_mult)
  ultimately have "mid AND 0xFFF0 = push_bit 4 (take_bit 12 (drop_bit 4 mid))" by (simp only:)
  moreover have "take_bit 12 (drop_bit 4 mid) = (mid mod 65536) div 16"
  proof -
    have "take_bit 12 (drop_bit 4 mid) = drop_bit 4 (take_bit 16 mid)" by (simp add: drop_bit_take_bit)
    then show ?thesis by (simp add: take_bit_eq_mod drop_bit_eq_div)
  qed
  ultimately have "msg_is_system mid = ((mid mod 65536) div 16 = 0)"
    by (simp add: msg_is_system_def push_bit_eq_mult)
  moreover have "0 \<le> mid mod 65536" by simp
  ultimately show ?thesis by (auto simp: zdiv_eq_0_iff)
qed

text \<open>
  An urgent message at the front of the queue passes the lock, and the filter of a server in an
  error or exit state.
\<close>

lemma urgent_not_filtered: "urgent m \<Longrightarrow> \<not> error_filter m s"
  by (auto simp: urgent_def error_filter_def)

lemma urgent_first_not_blocked:
  assumes "urgent m" "ring_wf (bus s own)" "contents (bus s own) = m # rest"
  shows "message_block own s = (False, s)"
proof -
  have "0 < ring_count (bus s own)" using assms(3) length_contents [of "bus s own"] by simp
  then have "msg_buffer_probe_item (bus s own) 0 msg_init = (0, m)"
    using probe_in [OF assms(2), of 0 msg_init] assms(3) by simp
  then show ?thesis using assms(1) by (simp add: message_block_def)
qed

section \<open>Concrete queues\<close>

definition busy_server :: "unit server_state_scheme" where
  "busy_server = \<lparr>info = (info_zero ())\<lparr>msg_lock := 1\<rparr>, bus = (\<lambda>_. ring_push (ring_push (demo_queue 1)
     (msg_init\<lparr>m_message := MSG_PLAYER_REQUEST_SYNC\<rparr>)) (msg_init\<lparr>m_message := MSG_MANAGER_EXIT\<rparr>)), waiting = False\<rparr>"

lemma busy_server_facts:
  "msg_lock (info busy_server) \<noteq> 0" "ring_wf (bus busy_server SERVER_AUDIO)"
  "map m_message (contents (bus busy_server SERVER_AUDIO)) = [MSG_PLAYER_REQUEST_SYNC, MSG_MANAGER_EXIT]"
proof -
  define q where "q = ring_push (demo_queue 1) (msg_init\<lparr>m_message := MSG_PLAYER_REQUEST_SYNC\<rparr>)"
  define m where "m = (msg_init\<lparr>m_message := MSG_MANAGER_EXIT\<rparr> :: msg)"
  have b: "bus busy_server SERVER_AUDIO = ring_push q m" by (simp add: busy_server_def q_def m_def)
  have q: "ring_wf q" "map m_message (contents q) = [MSG_PLAYER_REQUEST_SYNC]" "capacity q = 7"
    unfolding q_def by (simp_all add: ring_push_cases append_msg_props)
  have "ring_count q = 1" using arg_cong [OF q(2), of length] by simp
  then show "ring_wf (bus busy_server SERVER_AUDIO)" "map m_message (contents (bus busy_server SERVER_AUDIO)) = [MSG_PLAYER_REQUEST_SYNC, MSG_MANAGER_EXIT]"
    using q unfolding b by (simp_all add: ring_push_cases append_msg_props m_def)
qed (simp add: busy_server_def)

theorem locked_server_takes_urgent_witness:
  "map m_message (contents (bus (take_message SERVER_AUDIO (message_block SERVER_AUDIO) (\<lambda>m s. True) (\<lambda>m s. s) busy_server) SERVER_AUDIO))
    = [MSG_PLAYER_REQUEST_SYNC]"
proof -
  have u: "urgent m = (m_message m \<noteq> MSG_PLAYER_REQUEST_SYNC)" if "m_message m \<in> {MSG_PLAYER_REQUEST_SYNC, MSG_MANAGER_EXIT}" for m
    using that by (auto simp: urgent_def system_low_bits msg_is_response_def)
  obtain a b where c: "contents (bus busy_server SERVER_AUDIO) = [a, b]" "m_message a = MSG_PLAYER_REQUEST_SYNC" "m_message b = MSG_MANAGER_EXIT"
    using busy_server_facts(3) by auto
  have ab: "\<not> urgent a" "urgent b" using u c(2,3) by simp_all
  then have "\<exists>m \<in> set (contents (bus busy_server SERVER_AUDIO)). urgent m" "contents (bus busy_server SERVER_AUDIO) \<noteq> []" using c(1) by simp_all
  then obtain q skipped m rest where r: "[a, b] = skipped @ m # rest" "urgent m" "contents q = skipped @ rest"
    "take_message SERVER_AUDIO (message_block SERVER_AUDIO) (\<lambda>m s. True) (\<lambda>m s. s) busy_server =
      busy_server\<lparr>bus := (bus busy_server)(SERVER_AUDIO := q)\<rparr>"
    using locked_server_takes_urgent [OF busy_server_facts(1,2), of "\<lambda>m s. True" "\<lambda>m s. s"] c(1) by auto
  have "skipped = [a] \<and> m = b \<and> rest = []"
    using r(1,2) ab by (cases skipped) (auto simp: Cons_eq_append_conv)
  then show ?thesis using r(3,4) c(2) by simp
qed

end
