(* ===== verification/MessageNames.thy ===== *)
theory MessageNames
  imports Messages
begin

text \<open>
  The enumeration \<open>message_type_t\<close> as it is declared in \<open>global/global_interface.h\<close>, and the names
  \<open>global/common.c\<close> gives to messages and servers (\<open>global_common_message_to_string\<close>,
  \<open>global_common_get_server_name\<close>, \<open>global_common_get_server_names\<close>).

  An enumeration is a list of items that either fix a value or take the next one;
  \<open>enum_values\<close> is the C rule that numbers it.
\<close>

section \<open>C enumerations\<close>

datatype enum_item = Fixed string int | Next string

fun enum_values :: "int \<Rightarrow> enum_item list \<Rightarrow> (string \<times> int) list" where
  "enum_values n [] = []"
| "enum_values n (Fixed name v # items) = (name, v) # enum_values (v + 1) items"
| "enum_values n (Next name # items) = (name, n) # enum_values (n + 1) items"

section \<open>Server names\<close>

definition server_cases :: "(int \<times> string) list" where
  "server_cases = [
     (SERVER_MANAGER, ''SERVER_MANAGER''),
     (SERVER_DEVICE, ''SERVER_DEVICE''),
     (SERVER_GOKE, ''SERVER_GOKE''),
     (SERVER_VIDEO, ''SERVER_VIDEO''),
     (SERVER_AUDIO, ''SERVER_AUDIO''),
     (SERVER_RECORDER, ''SERVER_RECORDER''),
     (SERVER_PLAYER, ''SERVER_PLAYER''),
     (SERVER_ALIYUN, ''SERVER_ALIYUN'')]"

definition global_common_get_server_name :: "int \<Rightarrow> string" where
  "global_common_get_server_name type =
     (case map_of server_cases type of Some name \<Rightarrow> name | None \<Rightarrow> ''Unkown server!'')"

text \<open>
  \<open>global_common_get_server_names\<close> appends to a buffer of 128 bytes.  \<open>append_names\<close> is its
  loop from index \<open>i\<close>; \<open>None\<close> is a write past the buffer.
\<close>

definition strcat :: "nat \<Rightarrow> string \<Rightarrow> string \<Rightarrow> string option" where
  "strcat cap dst src = (if length dst + length src < cap then Some (dst @ src) else None)"

fun append_names :: "int \<Rightarrow> nat list \<Rightarrow> string \<Rightarrow> string option" where
  "append_names servers [] str = Some str"
| "append_names servers (i # is) str =
     (if misc_get_bit servers i \<noteq> 0 then
        Option.bind (strcat 128 str (global_common_get_server_name (int i))) (\<lambda>str.
        Option.bind (strcat 128 str '','') (\<lambda>str.
        append_names servers is str))
      else append_names servers is str)"

definition global_common_get_server_names :: "int \<Rightarrow> string option" where
  "global_common_get_server_names servers =
     Option.bind (append_names servers [0..<nat SERVER_BUTT] [])
       (\<lambda>str. if length str = 0 then strcat 128 str ''-'' else Some (butlast str))"

section \<open>Message names\<close>

definition message_type_t :: "enum_item list" where
  "message_type_t = [
     Fixed ''MSG_MANAGER_BASE'' (push_bit 16 SERVER_MANAGER),
     Next ''MSG_MANAGER_SIGINT'',
     Next ''MSG_MANAGER_EXIT'',
     Next ''MSG_MANAGER_DUMMY'',
     Next ''MSG_MANAGER_WAKEUP'',
     Next ''MSG_MANAGER_HEARTBEAT'',
     Next ''MSG_MANAGER_TIMER_ADD'',
     Next ''MSG_MANAGER_TIMER_REMOVE'',
     Next ''MSG_MANAGER_TIMER_ON'',
     Fixed ''MSG_MANAGER_NONE_SYSTEM'' (push_bit 16 SERVER_MANAGER OR 0x0010),
     Next ''MSG_MANAGER_PROPERTY_GET'',
     Next ''MSG_MANAGER_PROPERTY_SET'',
     Fixed ''MSG_MANAGER_ACK_BASE'' (push_bit 16 SERVER_MANAGER OR 0x1000),
     Next ''MSG_MANAGER_SIGINT_ACK'',
     Next ''MSG_MANAGER_EXIT_ACK'',
     Next ''MSG_MANAGER_DUMMY_ACK'',
     Next ''MSG_MANAGER_WAKEUP_ACK'',
     Next ''MSG_MANAGER_HEARTBEAT_ACK'',
     Next ''MSG_MANAGER_TIMER_ADD_ACK'',
     Next ''MSG_MANAGER_TIMER_REMOVE_ACK'',
     Next ''MSG_MANAGER_TIMER_ON_ACK'',
     Fixed ''MSG_MANAGER_NONE_SYSTEM_ACK'' (push_bit 16 SERVER_MANAGER OR 0x1010),
     Next ''MSG_MANAGER_PROPERTY_GET_ACK'',
     Next ''MSG_MANAGER_PROPERTY_SET_ACK'',
     Fixed ''MSG_DEVICE_BASE'' (push_bit 16 SERVER_DEVICE),
     Next ''MSG_DEVICE_SIGINT'',
     Next ''MSG_DEVICE_GET_PARA'',
     Next ''MSG_DEVICE_ACTION'',
     Next ''MSG_DEVICE_CTRL_DIRECT'',
     Next ''MSG_DEVICE_SD_FORMAT_START'',
     Next ''MSG_DEVICE_SD_FORMAT_STOP'',
     Fixed ''MSG_DEVICE_ACK_BASE'' (push_bit 16 SERVER_DEVICE OR 0x1000),
     Next ''MSG_DEVICE_SIGINT_ACK'',
     Next ''MSG_DEVICE_GET_PARA_ACK'',
     Next ''MSG_DEVICE_ACTION_ACK'',
     Next ''MSG_DEVICE_CTRL_DIRECT_ACK'',
     Next ''MSG_DEVICE_SD_FORMAT_START_ACK'',
     Next ''MSG_DEVICE_SD_FORMAT_STOP_ACK'',
     Fixed ''MSG_GOKE_BASE'' (push_bit 16 SERVER_GOKE),
     Next ''MSG_GOKE_SIGINT'',
     Next ''MSG_GOKE_PROPERTY_GET'',
     Next ''MSG_GOKE_PROPERTY_NOTIFY'',
     Fixed ''MSG_GOKE_ACK_BASE'' (push_bit 16 SERVER_GOKE OR 0x1000),
     Next ''MSG_GOKE_SIGINT_ACK'',
     Next ''MSG_GOKE_PROPERTY_GET_ACK'',
     Next ''MSG_GOKE_PROPERTY_NOTIFY_ACK'',
     Fixed ''MSG_VIDEO_BASE'' (push_bit 16 SERVER_VIDEO),
     Next ''MSG_VIDEO_SIGINT'',
     Next ''MSG_VIDEO_START'',
     Next ''MSG_VIDEO_STOP'',
     Next ''MSG_VIDEO_PROPERTY_SET'',
     Next ''MSG_VIDEO_PROPERTY_SET_EXT'',
     Next ''MSG_VIDEO_PROPERTY_SET_DIRECT'',
     Next ''MSG_VIDEO_PROPERTY_GET'',
     Next ''MSG_VIDEO_SNAPSHOT_THUMB'',
     Next ''MSG_VIDEO_SPD_VIDEO_DATA'',
     Next ''MSG_VIDEO_KEY_FRAME_REQUIRE'',
     Fixed ''MSG_VIDEO_ACK_BASE'' (push_bit 16 SERVER_VIDEO OR 0x1000),
     Next ''MSG_VIDEO_SIGINT_ACK'',
     Next ''MSG_VIDEO_START_ACK'',
     Next ''MSG_VIDEO_STOP_ACK'',
     Next ''MSG_VIDEO_PROPERTY_SET_ACK'',
     Next ''MSG_VIDEO_PROPERTY_SET_EXT_ACK'',
     Next ''MSG_VIDEO_PROPERTY_SET_DIRECT_ACK'',
     Next ''MSG_VIDEO_PROPERTY_GET_ACK'',
     Next ''MSG_VIDEO_SNAPSHOT_THUMB_ACK'',
     Next ''MSG_VIDEO_SPD_VIDEO_DATA_ACK'',
     Next ''MSG_VIDEO_KEY_FRAME_REQUIRE_ACK'',
     Fixed ''MSG_AUDIO_BASE'' (push_bit 16 SERVER_AUDIO),
     Next ''MSG_AUDIO_SIGINT'',
     Next ''MSG_AUDIO_START'',
     Next ''MSG_AUDIO_STOP'',
     Next ''MSG_AUDIO_PROPERTY_GET'',
     Next ''MSG_AUDIO_PROPERTY_SET'',
     Next ''MSG_AUDIO_SPEAKER_START'',
     Next ''MSG_AUDIO_SPEAKER_STOP'',
     Next ''MSG_AUDIO_SPEAKER_DATA'',
     Next ''MSG_AUDIO_PLAY_SOUND'',
     Fixed ''MSG_AUDIO_ACK_BASE'' (push_bit 16 SERVER_AUDIO OR 0x1000),
     Next ''MSG_AUDIO_SIGINT_ACK'',
     Next ''MSG_AUDIO_START_ACK'',
     Next ''MSG_AUDIO_STOP_ACK'',
     Next ''MSG_AUDIO_PROPERTY_GET_ACK'',
     Next ''MSG_AUDIO_PROPERTY_SET_ACK'',
     Next ''MSG_AUDIO_SPEAKER_START_ACK'',
     Next ''MSG_AUDIO_SPEAKER_STOP_ACK'',
     Next ''MSG_AUDIO_SPEAKER_DATA_ACK'',
     Next ''MSG_AUDIO_PLAY_SOUND_ACK'',
     Fixed ''MSG_RECORDER_BASE'' (push_bit 16 SERVER_RECORDER),
     Next ''MSG_RECORDER_SIGINT'',
     Next ''MSG_RECORDER_START'',
     Next ''MSG_RECORDER_STOP'',
     Next ''MSG_RECORDER_PROPERTY_GET'',
     Next ''MSG_RECORDER_PROPERTY_SET'',
     Next ''MSG_RECORDER_PROPERTY_NOTIFY'',
     Next ''MSG_RECORDER_ADD'',
     Next ''MSG_RECORDER_VIDEO_DATA'',
     Next ''MSG_RECORDER_AUDIO_DATA'',
     Next ''MSG_RECORDER_ADD_FILE'',
     Next ''MSG_RECORDER_CLEAN_DISK_START'',
     Next ''MSG_RECORDER_CLEAN_DISK_STOP'',
     Fixed ''MSG_RECORDER_ACK_BASE'' (push_bit 16 SERVER_RECORDER OR 0x1000),
     Next ''MSG_RECORDER_SIGINT_ACK'',
     Next ''MSG_RECORDER_START_ACK'',
     Next ''MSG_RECORDER_STOP_ACK'',
     Next ''MSG_RECORDER_PROPERTY_GET_ACK'',
     Next ''MSG_RECORDER_PROPERTY_SET_ACK'',
     Next ''MSG_RECORDER_PROPERTY_NOTIFY_ACK'',
     Next ''MSG_RECORDER_ADD_ACK'',
     Next ''MSG_RECORDER_VIDEO_DATA_ACK'',
     Next ''MSG_RECORDER_AUDIO_DATA_ACK'',
     Next ''MSG_RECORDER_ADD_FILE_ACK'',
     Next ''MSG_RECORDER_CLEAN_DISK_START_ACK'',
     Next ''MSG_RECORDER_CLEAN_DISK_STOP_ACK'',
     Fixed ''MSG_PLAYER_BASE'' (push_bit 16 SERVER_PLAYER),
     Next ''MSG_PLAYER_SIGINT'',
     Next ''MSG_PLAYER_START'',
     Next ''MSG_PLAYER_STOP'',
     Next ''MSG_PLAYER_PAUSE'',
     Next ''MSG_PLAYER_UNPAUSE'',
     Next ''MSG_PLAYER_SET_PARAM'',
     Next ''MSG_PLAYER_GET_FILE_BY_DAY'',
     Next ''MSG_PLAYER_GET_FILE_BY_MONTH'',
     Next ''MSG_PLAYER_PROPERTY_SET'',
     Next ''MSG_PLAYER_AUDIO_START'',
     Next ''MSG_PLAYER_AUDIO_STOP'',
     Next ''MSG_PLAYER_REQUEST'',
     Next ''MSG_PLAYER_RELAY'',
     Next ''MSG_PLAYER_FINISH'',
     Next ''MSG_PLAYER_GET_PICTURE_LIST'',
     Next ''MSG_PLAYER_GET_INFOMATION'',
     Next ''MSG_PLAYER_SEEK'',
     Next ''MSG_PLAYER_REQUEST_SYNC'',
     Fixed ''MSG_PLAYER_ACK_BASE'' (push_bit 16 SERVER_PLAYER OR 0x1000),
     Next ''MSG_PLAYER_SIGINT_ACK'',
     Next ''MSG_PLAYER_START_ACK'',
     Next ''MSG_PLAYER_STOP_ACK'',
     Next ''MSG_PLAYER_PAUSE_ACK'',
     Next ''MSG_PLAYER_UNPAUSE_ACK'',
     Next ''MSG_PLAYER_SET_PARAM_ACK'',
     Next ''MSG_PLAYER_GET_FILE_BY_DAY_ACK'',
     Next ''MSG_PLAYER_GET_FILE_BY_MONTH_ACK'',
     Next ''MSG_PLAYER_PROPERTY_SET_ACK'',
     Next ''MSG_PLAYER_AUDIO_START_ACK'',
     Next ''MSG_PLAYER_AUDIO_STOP_ACK'',
     Next ''MSG_PLAYER_REQUEST_ACK'',
     Next ''MSG_PLAYER_RELAY_ACK'',
     Next ''MSG_PLAYER_FINISH_ACK'',
     Next ''MSG_PLAYER_GET_PICTURE_LIST_ACK'',
     Next ''MSG_PLAYER_GET_INFOMATION_ACK'',
     Next ''MSG_PLAYER_SEEK_ACK'',
     Next ''MSG_PLAYER_REQUEST_SYNC_ACK'',
     Fixed ''MSG_ALIYUN_BASE'' (push_bit 16 SERVER_ALIYUN),
     Next ''MSG_ALIYUN_SIGINT'',
     Next ''MSG_ALIYUN_QRCODE_RESULT'',
     Next ''MSG_ALIYUN_CONNECT'',
     Next ''MSG_ALIYUN_TIME_SYNC'',
     Next ''MSG_ALIYUN_VIDEO_DATA'',
     Next ''MSG_ALIYUN_AUDIO_DATA'',
     Next ''MSG_ALIYUN_YIELD'',
     Next ''MSG_ALIYUN_TIME_SYNCHRONIZED'',
     Next ''MSG_ALIYUN_EVENT'',
     Next ''MSG_ALIYUN_SETUP'',
     Next ''MSG_ALIYUN_RESTART'',
     Next ''MSG_ALIYUN_GET_TIME_SYNC'',
     Fixed ''MSG_ALIYUN_ACK_BASE'' (push_bit 16 SERVER_ALIYUN OR 0x1000),
     Next ''MSG_ALIYUN_SIGINT_ACK'',
     Next ''MSG_ALIYUN_QRCODE_RESULT_ACK'',
     Next ''MSG_ALIYUN_CONNECT_ACK'',
     Next ''MSG_ALIYUN_TIME_SYNC_ACK'',
     Next ''MSG_ALIYUN_VIDEO_DATA_ACK'',
     Next ''MSG_ALIYUN_AUDIO_DATA_ACK'',
     Next ''MSG_ALIYUN_YIELD_ACK'',
     Next ''MSG_ALIYUN_TIME_SYNCHRONIZED_ACK'',
     Next ''MSG_ALIYUN_EVENT_ACK'',
     Next ''MSG_ALIYUN_SETUP_ACK'',
     Next ''MSG_ALIYUN_RESTART_ACK'',
     Next ''MSG_ALIYUN_GET_TIME_SYNC_ACK'']"

definition message_cases :: "(int \<times> string) list" where
  "message_cases = [
     (MSG_MANAGER_SIGINT, ''MSG_MANAGER_SIGINT''),
     (MSG_MANAGER_EXIT, ''MSG_MANAGER_EXIT''),
     (MSG_MANAGER_DUMMY, ''MSG_MANAGER_DUMMY''),
     (MSG_MANAGER_WAKEUP, ''MSG_MANAGER_WAKEUP''),
     (MSG_MANAGER_HEARTBEAT, ''MSG_MANAGER_HEARTBEAT''),
     (MSG_MANAGER_TIMER_ADD, ''MSG_MANAGER_TIMER_ADD''),
     (MSG_MANAGER_TIMER_REMOVE, ''MSG_MANAGER_TIMER_REMOVE''),
     (MSG_MANAGER_TIMER_ON, ''MSG_MANAGER_TIMER_ON''),
     (MSG_MANAGER_PROPERTY_GET, ''MSG_MANAGER_PROPERTY_GET''),
     (MSG_MANAGER_PROPERTY_SET, ''MSG_MANAGER_PROPERTY_SET''),
     (MSG_MANAGER_SIGINT_ACK, ''MSG_MANAGER_SIGINT_ACK''),
     (MSG_MANAGER_EXIT_ACK, ''MSG_MANAGER_EXIT_ACK''),
     (MSG_MANAGER_DUMMY_ACK, ''MSG_MANAGER_DUMMY_ACK''),
     (MSG_MANAGER_WAKEUP_ACK, ''MSG_MANAGER_WAKEUP_ACK''),
     (MSG_MANAGER_HEARTBEAT_ACK, ''MSG_MANAGER_HEARTBEAT_ACK''),
     (MSG_MANAGER_TIMER_ADD_ACK, ''MSG_MANAGER_TIMER_ADD_ACK''),
     (MSG_MANAGER_TIMER_REMOVE_ACK, ''MSG_MANAGER_TIMER_REMOVE_ACK''),
     (MSG_MANAGER_TIMER_ON_ACK, ''MSG_MANAGER_TIMER_ON_ACK''),
     (MSG_MANAGER_PROPERTY_GET_ACK, ''MSG_MANAGER_PROPERTY_GET_ACK''),
     (MSG_MANAGER_PROPERTY_SET_ACK, ''MSG_MANAGER_PROPERTY_SET_ACK''),
     (MSG_DEVICE_SIGINT, ''MSG_DEVICE_SIGINT''),
     (MSG_DEVICE_GET_PARA, ''MSG_DEVICE_GET_PARA''),
     (MSG_DEVICE_ACTION, ''MSG_DEVICE_ACTION''),
     (MSG_DEVICE_CTRL_DIRECT, ''MSG_DEVICE_CTRL_DIRECT''),
     (MSG_DEVICE_SD_FORMAT_START, ''MSG_DEVICE_SD_FORMAT_START''),
     (MSG_DEVICE_SD_FORMAT_STOP, ''MSG_DEVICE_SD_FORMAT_STOP''),
     (MSG_DEVICE_SIGINT_ACK, ''MSG_DEVICE_SIGINT_ACK''),
     (MSG_DEVICE_GET_PARA_ACK, ''MSG_DEVICE_GET_PARA_ACK''),
     (MSG_DEVICE_ACTION_ACK, ''MSG_DEVICE_ACTION_ACK''),
     (MSG_DEVICE_CTRL_DIRECT_ACK, ''MSG_DEVICE_CTRL_DIRECT_ACK''),
     (MSG_DEVICE_SD_FORMAT_START_ACK, ''MSG_DEVICE_SD_FORMAT_START_ACK''),
     (MSG_DEVICE_SD_FORMAT_STOP_ACK, ''MSG_DEVICE_SD_FORMAT_STOP_ACK''),
     (MSG_GOKE_SIGINT, ''MSG_GOKE_SIGINT''),
     (MSG_GOKE_PROPERTY_GET, ''MSG_GOKE_PROPERTY_GET''),
     (MSG_GOKE_PROPERTY_NOTIFY, ''MSG_GOKE_PROPERTY_NOTIFY''),
     (MSG_GOKE_SIGINT_ACK, ''MSG_GOKE_SIGINT_ACK''),
     (MSG_GOKE_PROPERTY_GET_ACK, ''MSG_GOKE_PROPERTY_GET_ACK''),
     (MSG_GOKE_PROPERTY_NOTIFY_ACK, ''MSG_GOKE_PROPERTY_NOTIFY_ACK''),
     (MSG_VIDEO_SIGINT, ''MSG_VIDEO_SIGINT''),
     (MSG_VIDEO_START, ''MSG_VIDEO_START''),
     (MSG_VIDEO_STOP, ''MSG_VIDEO_STOP''),
     (MSG_VIDEO_PROPERTY_SET, ''MSG_VIDEO_PROPERTY_SET''),
     (MSG_VIDEO_PROPERTY_SET_EXT, ''MSG_VIDEO_PROPERTY_SET_EXT''),
     (MSG_VIDEO_PROPERTY_SET_DIRECT, ''MSG_VIDEO_PROPERTY_SET_DIRECT''),
     (MSG_VIDEO_PROPERTY_GET, ''MSG_VIDEO_PROPERTY_GET''),
     (MSG_VIDEO_SNAPSHOT_THUMB, ''MSG_VIDEO_SNAPSHOT_THUMB''),
     (MSG_VIDEO_SPD_VIDEO_DATA, ''MSG_VIDEO_SPD_VIDEO_DATA''),
     (MSG_VIDEO_KEY_FRAME_REQUIRE, ''MSG_VIDEO_KEY_FRAME_REQUIRE''),
     (MSG_VIDEO_SIGINT_ACK, ''MSG_VIDEO_SIGINT_ACK''),
     (MSG_VIDEO_START_ACK, ''MSG_VIDEO_START_ACK''),
     (MSG_VIDEO_STOP_ACK, ''MSG_VIDEO_STOP_ACK''),
     (MSG_VIDEO_PROPERTY_SET_ACK, ''MSG_VIDEO_PROPERTY_SET_ACK''),
     (MSG_VIDEO_PROPERTY_SET_EXT_ACK, ''MSG_VIDEO_PROPERTY_SET_EXT_ACK''),
     (MSG_VIDEO_PROPERTY_SET_DIRECT_ACK, ''MSG_VIDEO_PROPERTY_SET_DIRECT_ACK''),
     (MSG_VIDEO_PROPERTY_GET_ACK, ''MSG_VIDEO_PROPERTY_GET_ACK''),
     (MSG_VIDEO_SNAPSHOT_THUMB_ACK, ''MSG_VIDEO_SNAPSHOT_THUMB_ACK''),
     (MSG_VIDEO_SPD_VIDEO_DATA_ACK, ''MSG_VIDEO_SPD_VIDEO_DATA_ACK''),
     (MSG_VIDEO_KEY_FRAME_REQUIRE_ACK, ''MSG_VIDEO_KEY_FRAME_REQUIRE_ACK''),
     (MSG_AUDIO_SIGINT, ''MSG_AUDIO_SIGINT''),
     (MSG_AUDIO_START, ''MSG_AUDIO_START''),
     (MSG_AUDIO_STOP, ''MSG_AUDIO_STOP''),
     (MSG_AUDIO_PROPERTY_GET, ''MSG_AUDIO_PROPERTY_GET''),
     (MSG_AUDIO_PROPERTY_SET, ''MSG_AUDIO_PROPERTY_SET''),
     (MSG_AUDIO_SPEAKER_START, ''MSG_AUDIO_SPEAKER_START''),
     (MSG_AUDIO_SPEAKER_STOP, ''MSG_AUDIO_SPEAKER_STOP''),
     (MSG_AUDIO_SPEAKER_DATA, ''MSG_AUDIO_SPEAKER_DATA''),
     (MSG_AUDIO_PLAY_SOUND, ''MSG_AUDIO_PLAY_SOUND''),
     (MSG_AUDIO_SIGINT_ACK, ''MSG_AUDIO_SIGINT_ACK''),
     (MSG_AUDIO_START_ACK, ''MSG_AUDIO_START_ACK''),
     (MSG_AUDIO_STOP_ACK, ''MSG_AUDIO_STOP_ACK''),
     (MSG_AUDIO_PROPERTY_GET_ACK, ''MSG_AUDIO_PROPERTY_GET_ACK''),
     (MSG_AUDIO_PROPERTY_SET_ACK, ''MSG_AUDIO_PROPERTY_SET_ACK''),
     (MSG_AUDIO_SPEAKER_START_ACK, ''MSG_AUDIO_SPEAKER_START_ACK''),
     (MSG_AUDIO_SPEAKER_STOP_ACK, ''MSG_AUDIO_SPEAKER_STOP_ACK''),
     (MSG_AUDIO_SPEAKER_DATA_ACK, ''MSG_AUDIO_SPEAKER_DATA_ACK''),
     (MSG_AUDIO_PLAY_SOUND_ACK, ''MSG_AUDIO_PLAY_SOUND_ACK''),
     (MSG_RECORDER_SIGINT, ''MSG_RECORDER_SIGINT''),
     (MSG_RECORDER_START, ''MSG_RECORDER_START''),
     (MSG_RECORDER_STOP, ''MSG_RECORDER_STOP''),
     (MSG_RECORDER_PROPERTY_GET, ''MSG_RECORDER_PROPERTY_GET''),
     (MSG_RECORDER_PROPERTY_SET, ''MSG_RECORDER_PROPERTY_SET''),
     (MSG_RECORDER_PROPERTY_NOTIFY, ''MSG_RECORDER_PROPERTY_NOTIFY''),
     (MSG_RECORDER_ADD, ''MSG_RECORDER_ADD''),
     (MSG_RECORDER_VIDEO_DATA, ''MSG_RECORDER_VIDEO_DATA''),
     (MSG_RECORDER_AUDIO_DATA, ''MSG_RECORDER_AUDIO_DATA''),
     (MSG_RECORDER_ADD_FILE, ''MSG_RECORDER_ADD_FILE''),
     (MSG_RECORDER_CLEAN_DISK_START, ''MSG_RECORDER_CLEAN_DISK_START''),
     (MSG_RECORDER_CLEAN_DISK_STOP, ''MSG_RECORDER_CLEAN_DISK_STOP''),
     (MSG_RECORDER_SIGINT_ACK, ''MSG_RECORDER_SIGINT_ACK''),
     (MSG_RECORDER_START_ACK, ''MSG_RECORDER_START_ACK''),
     (MSG_RECORDER_STOP_ACK, ''MSG_RECORDER_STOP_ACK''),
     (MSG_RECORDER_PROPERTY_GET_ACK, ''MSG_RECORDER_PROPERTY_GET_ACK''),
     (MSG_RECORDER_PROPERTY_SET_ACK, ''MSG_RECORDER_PROPERTY_SET_ACK''),
     (MSG_RECORDER_PROPERTY_NOTIFY_ACK, ''MSG_RECORDER_PROPERTY_NOTIFY_ACK''),
     (MSG_RECORDER_ADD_ACK, ''MSG_RECORDER_ADD_ACK''),
     (MSG_RECORDER_VIDEO_DATA_ACK, ''MSG_RECORDER_VIDEO_DATA_ACK''),
     (MSG_RECORDER_AUDIO_DATA_ACK, ''MSG_RECORDER_AUDIO_DATA_ACK''),
     (MSG_RECORDER_ADD_FILE_ACK, ''MSG_RECORDER_ADD_FILE_ACK''),
     (MSG_RECORDER_CLEAN_DISK_START_ACK, ''MSG_RECORDER_CLEAN_DISK_START_ACK''),
     (MSG_RECORDER_CLEAN_DISK_STOP_ACK, ''MSG_RECORDER_CLEAN_DISK_STOP_ACK''),
     (MSG_PLAYER_SIGINT, ''MSG_PLAYER_SIGINT''),
     (MSG_PLAYER_START, ''MSG_PLAYER_START''),
     (MSG_PLAYER_STOP, ''MSG_PLAYER_STOP''),
     (MSG_PLAYER_PAUSE, ''MSG_PLAYER_PAUSE''),
     (MSG_PLAYER_UNPAUSE, ''MSG_PLAYER_UNPAUSE''),
     (MSG_PLAYER_SET_PARAM, ''MSG_PLAYER_SET_PARAM''),
     (MSG_PLAYER_GET_FILE_BY_DAY, ''MSG_PLAYER_GET_FILE_BY_DAY''),
     (MSG_PLAYER_GET_FILE_BY_MONTH, ''MSG_PLAYER_GET_FILE_BY_MONTH''),
     (MSG_PLAYER_PROPERTY_SET, ''MSG_PLAYER_PROPERTY_SET''),
     (MSG_PLAYER_AUDIO_START, ''MSG_PLAYER_AUDIO_START''),
     (MSG_PLAYER_AUDIO_STOP, ''MSG_PLAYER_AUDIO_STOP''),
     (MSG_PLAYER_REQUEST, ''MSG_PLAYER_REQUEST''),
     (MSG_PLAYER_RELAY, ''MSG_PLAYER_RELAY''),
     (MSG_PLAYER_FINISH, ''MSG_PLAYER_FINISH''),
     (MSG_PLAYER_GET_PICTURE_LIST, ''MSG_PLAYER_GET_PICTURE_LIST''),
     (MSG_PLAYER_GET_INFOMATION, ''MSG_PLAYER_GET_INFOMATION''),
     (MSG_PLAYER_SEEK, ''MSG_PLAYER_SEEK''),
     (MSG_PLAYER_REQUEST_SYNC, ''MSG_PLAYER_REQUEST_SYNC''),
     (MSG_PLAYER_SIGINT_ACK, ''MSG_PLAYER_SIGINT_ACK''),
     (MSG_PLAYER_START_ACK, ''MSG_PLAYER_START_ACK''),
     (MSG_PLAYER_STOP_ACK, ''MSG_PLAYER_STOP_ACK''),
     (MSG_PLAYER_PAUSE_ACK, ''MSG_PLAYER_PAUSE_ACK''),
     (MSG_PLAYER_UNPAUSE_ACK, ''MSG_PLAYER_UNPAUSE_ACK''),
     (MSG_PLAYER_SET_PARAM_ACK, ''MSG_PLAYER_SET_PARAM_ACK''),
     (MSG_PLAYER_GET_FILE_BY_DAY_ACK, ''MSG_PLAYER_GET_FILE_BY_DAY_ACK''),
     (MSG_PLAYER_GET_FILE_BY_MONTH_ACK, ''MSG_PLAYER_GET_FILE_BY_MONTH_ACK''),
     (MSG_PLAYER_PROPERTY_SET_ACK, ''MSG_PLAYER_PROPERTY_SET_ACK''),
     (MSG_PLAYER_AUDIO_START_ACK, ''MSG_PLAYER_AUDIO_START_ACK''),
     (MSG_PLAYER_AUDIO_STOP_ACK, ''MSG_PLAYER_AUDIO_STOP_ACK''),
     (MSG_PLAYER_REQUEST_ACK, ''MSG_PLAYER_REQUEST_ACK''),
     (MSG_PLAYER_RELAY_ACK, ''MSG_PLAYER_RELAY_ACK''),
     (MSG_PLAYER_FINISH_ACK, ''MSG_PLAYER_FINISH_ACK''),
     (MSG_PLAYER_GET_PICTURE_LIST_ACK, ''MSG_PLAYER_GET_PICTURE_LIST_ACK''),
     (MSG_PLAYER_GET_INFOMATION_ACK, ''MSG_PLAYER_GET_INFOMATION_ACK''),
     (MSG_PLAYER_SEEK_ACK, ''MSG_PLAYER_SEEK_ACK''),
     (MSG_PLAYER_REQUEST_SYNC_ACK, ''MSG_PLAYER_REQUEST_SYNC_ACK''),
     (MSG_ALIYUN_SIGINT, ''MSG_ALIYUN_SIGINT''),
     (MSG_ALIYUN_QRCODE_RESULT, ''MSG_ALIYUN_QRCODE_RESULT''),
     (MSG_ALIYUN_CONNECT, ''MSG_ALIYUN_CONNECT''),
     (MSG_ALIYUN_TIME_SYNC, ''MSG_ALIYUN_TIME_SYNC''),
     (MSG_ALIYUN_VIDEO_DATA, ''MSG_ALIYUN_VIDEO_DATA''),
     (MSG_ALIYUN_AUDIO_DATA, ''MSG_ALIYUN_AUDIO_DATA''),
     (MSG_ALIYUN_YIELD, ''MSG_ALIYUN_YIELD''),
     (MSG_ALIYUN_TIME_SYNCHRONIZED, ''MSG_ALIYUN_TIME_SYNCHRONIZED''),
     (MSG_ALIYUN_EVENT, ''MSG_ALIYUN_EVENT''),
     (MSG_ALIYUN_SETUP, ''MSG_ALIYUN_SETUP''),
     (MSG_ALIYUN_RESTART, ''MSG_ALIYUN_RESTART''),
     (MSG_ALIYUN_GET_TIME_SYNC, ''MSG_ALIYUN_GET_TIME_SYNC''),
     (MSG_ALIYUN_SIGINT_ACK, ''MSG_ALIYUN_SIGINT_ACK''),
     (MSG_ALIYUN_QRCODE_RESULT_ACK, ''MSG_ALIYUN_QRCODE_RESULT_ACK''),
     (MSG_ALIYUN_CONNECT_ACK, ''MSG_ALIYUN_CONNECT_ACK''),
     (MSG_ALIYUN_TIME_SYNC_ACK, ''MSG_ALIYUN_TIME_SYNC_ACK''),
     (MSG_ALIYUN_VIDEO_DATA_ACK, ''MSG_ALIYUN_VIDEO_DATA_ACK''),
     (MSG_ALIYUN_AUDIO_DATA_ACK, ''MSG_ALIYUN_AUDIO_DATA_ACK''),
     (MSG_ALIYUN_YIELD_ACK, ''MSG_ALIYUN_YIELD_ACK''),
     (MSG_ALIYUN_TIME_SYNCHRONIZED_ACK, ''MSG_ALIYUN_TIME_SYNCHRONIZED_ACK''),
     (MSG_ALIYUN_EVENT_ACK, ''MSG_ALIYUN_EVENT_ACK''),
     (MSG_ALIYUN_SETUP_ACK, ''MSG_ALIYUN_SETUP_ACK''),
     (MSG_ALIYUN_RESTART_ACK, ''MSG_ALIYUN_RESTART_ACK''),
     (MSG_ALIYUN_GET_TIME_SYNC_ACK, ''MSG_ALIYUN_GET_TIME_SYNC_ACK'')]"

definition global_common_message_to_string :: "int \<Rightarrow> string" where
  "global_common_message_to_string type =
     (case map_of message_cases type of Some name \<Rightarrow> name | None \<Rightarrow> ''Unkown message'')"

section \<open>Properties\<close>

definition ends_with :: "string \<Rightarrow> string \<Rightarrow> bool" where
  "ends_with s name = (take (length s) (rev name) = rev s)"

text \<open>The enumerators that only mark the start of a block.\<close>

definition block_marker :: "string \<Rightarrow> bool" where
  "block_marker name = (ends_with ''_BASE'' name \<or> ends_with ''NONE_SYSTEM'' name
     \<or> ends_with ''NONE_SYSTEM_ACK'' name)"

text \<open>The enumeration, numbered.\<close>

lemma enum_numbers: "enum_values 0 message_type_t = [
     (''MSG_MANAGER_BASE'', 0),
     (''MSG_MANAGER_SIGINT'', 1),
     (''MSG_MANAGER_EXIT'', 2),
     (''MSG_MANAGER_DUMMY'', 3),
     (''MSG_MANAGER_WAKEUP'', 4),
     (''MSG_MANAGER_HEARTBEAT'', 5),
     (''MSG_MANAGER_TIMER_ADD'', 6),
     (''MSG_MANAGER_TIMER_REMOVE'', 7),
     (''MSG_MANAGER_TIMER_ON'', 8),
     (''MSG_MANAGER_NONE_SYSTEM'', 16),
     (''MSG_MANAGER_PROPERTY_GET'', 17),
     (''MSG_MANAGER_PROPERTY_SET'', 18),
     (''MSG_MANAGER_ACK_BASE'', 4096),
     (''MSG_MANAGER_SIGINT_ACK'', 4097),
     (''MSG_MANAGER_EXIT_ACK'', 4098),
     (''MSG_MANAGER_DUMMY_ACK'', 4099),
     (''MSG_MANAGER_WAKEUP_ACK'', 4100),
     (''MSG_MANAGER_HEARTBEAT_ACK'', 4101),
     (''MSG_MANAGER_TIMER_ADD_ACK'', 4102),
     (''MSG_MANAGER_TIMER_REMOVE_ACK'', 4103),
     (''MSG_MANAGER_TIMER_ON_ACK'', 4104),
     (''MSG_MANAGER_NONE_SYSTEM_ACK'', 4112),
     (''MSG_MANAGER_PROPERTY_GET_ACK'', 4113),
     (''MSG_MANAGER_PROPERTY_SET_ACK'', 4114),
     (''MSG_DEVICE_BASE'', 65536),
     (''MSG_DEVICE_SIGINT'', 65537),
     (''MSG_DEVICE_GET_PARA'', 65538),
     (''MSG_DEVICE_ACTION'', 65539),
     (''MSG_DEVICE_CTRL_DIRECT'', 65540),
     (''MSG_DEVICE_SD_FORMAT_START'', 65541),
     (''MSG_DEVICE_SD_FORMAT_STOP'', 65542),
     (''MSG_DEVICE_ACK_BASE'', 69632),
     (''MSG_DEVICE_SIGINT_ACK'', 69633),
     (''MSG_DEVICE_GET_PARA_ACK'', 69634),
     (''MSG_DEVICE_ACTION_ACK'', 69635),
     (''MSG_DEVICE_CTRL_DIRECT_ACK'', 69636),
     (''MSG_DEVICE_SD_FORMAT_START_ACK'', 69637),
     (''MSG_DEVICE_SD_FORMAT_STOP_ACK'', 69638),
     (''MSG_GOKE_BASE'', 131072),
     (''MSG_GOKE_SIGINT'', 131073),
     (''MSG_GOKE_PROPERTY_GET'', 131074),
     (''MSG_GOKE_PROPERTY_NOTIFY'', 131075),
     (''MSG_GOKE_ACK_BASE'', 135168),
     (''MSG_GOKE_SIGINT_ACK'', 135169),
     (''MSG_GOKE_PROPERTY_GET_ACK'', 135170),
     (''MSG_GOKE_PROPERTY_NOTIFY_ACK'', 135171),
     (''MSG_VIDEO_BASE'', 196608),
     (''MSG_VIDEO_SIGINT'', 196609),
     (''MSG_VIDEO_START'', 196610),
     (''MSG_VIDEO_STOP'', 196611),
     (''MSG_VIDEO_PROPERTY_SET'', 196612),
     (''MSG_VIDEO_PROPERTY_SET_EXT'', 196613),
     (''MSG_VIDEO_PROPERTY_SET_DIRECT'', 196614),
     (''MSG_VIDEO_PROPERTY_GET'', 196615),
     (''MSG_VIDEO_SNAPSHOT_THUMB'', 196616),
     (''MSG_VIDEO_SPD_VIDEO_DATA'', 196617),
     (''MSG_VIDEO_KEY_FRAME_REQUIRE'', 196618),
     (''MSG_VIDEO_ACK_BASE'', 200704),
     (''MSG_VIDEO_SIGINT_ACK'', 200705),
     (''MSG_VIDEO_START_ACK'', 200706),
     (''MSG_VIDEO_STOP_ACK'', 200707),
     (''MSG_VIDEO_PROPERTY_SET_ACK'', 200708),
     (''MSG_VIDEO_PROPERTY_SET_EXT_ACK'', 200709),
     (''MSG_VIDEO_PROPERTY_SET_DIRECT_ACK'', 200710),
     (''MSG_VIDEO_PROPERTY_GET_ACK'', 200711),
     (''MSG_VIDEO_SNAPSHOT_THUMB_ACK'', 200712),
     (''MSG_VIDEO_SPD_VIDEO_DATA_ACK'', 200713),
     (''MSG_VIDEO_KEY_FRAME_REQUIRE_ACK'', 200714),
     (''MSG_AUDIO_BASE'', 262144),
     (''MSG_AUDIO_SIGINT'', 262145),
     (''MSG_AUDIO_START'', 262146),
     (''MSG_AUDIO_STOP'', 262147),
     (''MSG_AUDIO_PROPERTY_GET'', 262148),
     (''MSG_AUDIO_PROPERTY_SET'', 262149),
     (''MSG_AUDIO_SPEAKER_START'', 262150),
     (''MSG_AUDIO_SPEAKER_STOP'', 262151),
     (''MSG_AUDIO_SPEAKER_DATA'', 262152),
     (''MSG_AUDIO_PLAY_SOUND'', 262153),
     (''MSG_AUDIO_ACK_BASE'', 266240),
     (''MSG_AUDIO_SIGINT_ACK'', 266241),
     (''MSG_AUDIO_START_ACK'', 266242),
     (''MSG_AUDIO_STOP_ACK'', 266243),
     (''MSG_AUDIO_PROPERTY_GET_ACK'', 266244),
     (''MSG_AUDIO_PROPERTY_SET_ACK'', 266245),
     (''MSG_AUDIO_SPEAKER_START_ACK'', 266246),
     (''MSG_AUDIO_SPEAKER_STOP_ACK'', 266247),
     (''MSG_AUDIO_SPEAKER_DATA_ACK'', 266248),
     (''MSG_AUDIO_PLAY_SOUND_ACK'', 266249),
     (''MSG_RECORDER_BASE'', 327680),
     (''MSG_RECORDER_SIGINT'', 327681),
     (''MSG_RECORDER_START'', 327682),
     (''MSG_RECORDER_STOP'', 327683),
     (''MSG_RECORDER_PROPERTY_GET'', 327684),
     (''MSG_RECORDER_PROPERTY_SET'', 327685),
     (''MSG_RECORDER_PROPERTY_NOTIFY'', 327686),
     (''MSG_RECORDER_ADD'', 327687),
     (''MSG_RECORDER_VIDEO_DATA'', 327688),
     (''MSG_RECORDER_AUDIO_DATA'', 327689),
     (''MSG_RECORDER_ADD_FILE'', 327690),
     (''MSG_RECORDER_CLEAN_DISK_START'', 327691),
     (''MSG_RECORDER_CLEAN_DISK_STOP'', 327692),
     (''MSG_RECORDER_ACK_BASE'', 331776),
     (''MSG_RECORDER_SIGINT_ACK'', 331777),
     (''MSG_RECORDER_START_ACK'', 331778),
     (''MSG_RECORDER_STOP_ACK'', 331779),
     (''MSG_RECORDER_PROPERTY_GET_ACK'', 331780),
     (''MSG_RECORDER_PROPERTY_SET_ACK'', 331781),
     (''MSG_RECORDER_PROPERTY_NOTIFY_ACK'', 331782),
     (''MSG_RECORDER_ADD_ACK'', 331783),
     (''MSG_RECORDER_VIDEO_DATA_ACK'', 331784),
     (''MSG_RECORDER_AUDIO_DATA_ACK'', 331785),
     (''MSG_RECORDER_ADD_FILE_ACK'', 331786),
     (''MSG_RECORDER_CLEAN_DISK_START_ACK'', 331787),
     (''MSG_RECORDER_CLEAN_DISK_STOP_ACK'', 331788),
     (''MSG_PLAYER_BASE'', 393216),
     (''MSG_PLAYER_SIGINT'', 393217),
     (''MSG_PLAYER_START'', 393218),
     (''MSG_PLAYER_STOP'', 393219),
     (''MSG_PLAYER_PAUSE'', 393220),
     (''MSG_PLAYER_UNPAUSE'', 393221),
     (''MSG_PLAYER_SET_PARAM'', 393222),
     (''MSG_PLAYER_GET_FILE_BY_DAY'', 393223),
     (''MSG_PLAYER_GET_FILE_BY_MONTH'', 393224),
     (''MSG_PLAYER_PROPERTY_SET'', 393225),
     (''MSG_PLAYER_AUDIO_START'', 393226),
     (''MSG_PLAYER_AUDIO_STOP'', 393227),
     (''MSG_PLAYER_REQUEST'', 393228),
     (''MSG_PLAYER_RELAY'', 393229),
     (''MSG_PLAYER_FINISH'', 393230),
     (''MSG_PLAYER_GET_PICTURE_LIST'', 393231),
     (''MSG_PLAYER_GET_INFOMATION'', 393232),
     (''MSG_PLAYER_SEEK'', 393233),
     (''MSG_PLAYER_REQUEST_SYNC'', 393234),
     (''MSG_PLAYER_ACK_BASE'', 397312),
     (''MSG_PLAYER_SIGINT_ACK'', 397313),
     (''MSG_PLAYER_START_ACK'', 397314),
     (''MSG_PLAYER_STOP_ACK'', 397315),
     (''MSG_PLAYER_PAUSE_ACK'', 397316),
     (''MSG_PLAYER_UNPAUSE_ACK'', 397317),
     (''MSG_PLAYER_SET_PARAM_ACK'', 397318),
     (''MSG_PLAYER_GET_FILE_BY_DAY_ACK'', 397319),
     (''MSG_PLAYER_GET_FILE_BY_MONTH_ACK'', 397320),
     (''MSG_PLAYER_PROPERTY_SET_ACK'', 397321),
     (''MSG_PLAYER_AUDIO_START_ACK'', 397322),
     (''MSG_PLAYER_AUDIO_STOP_ACK'', 397323),
     (''MSG_PLAYER_REQUEST_ACK'', 397324),
     (''MSG_PLAYER_RELAY_ACK'', 397325),
     (''MSG_PLAYER_FINISH_ACK'', 397326),
     (''MSG_PLAYER_GET_PICTURE_LIST_ACK'', 397327),
     (''MSG_PLAYER_GET_INFOMATION_ACK'', 397328),
     (''MSG_PLAYER_SEEK_ACK'', 397329),
     (''MSG_PLAYER_REQUEST_SYNC_ACK'', 397330),
     (''MSG_ALIYUN_BASE'', 458752),
     (''MSG_ALIYUN_SIGINT'', 458753),
     (''MSG_ALIYUN_QRCODE_RESULT'', 458754),
     (''MSG_ALIYUN_CONNECT'', 458755),
     (''MSG_ALIYUN_TIME_SYNC'', 458756),
     (''MSG_ALIYUN_VIDEO_DATA'', 458757),
     (''MSG_ALIYUN_AUDIO_DATA'', 458758),
     (''MSG_ALIYUN_YIELD'', 458759),
     (''MSG_ALIYUN_TIME_SYNCHRONIZED'', 458760),
     (''MSG_ALIYUN_EVENT'', 458761),
     (''MSG_ALIYUN_SETUP'', 458762),
     (''MSG_ALIYUN_RESTART'', 458763),
     (''MSG_ALIYUN_GET_TIME_SYNC'', 458764),
     (''MSG_ALIYUN_ACK_BASE'', 462848),
     (''MSG_ALIYUN_SIGINT_ACK'', 462849),
     (''MSG_ALIYUN_QRCODE_RESULT_ACK'', 462850),
     (''MSG_ALIYUN_CONNECT_ACK'', 462851),
     (''MSG_ALIYUN_TIME_SYNC_ACK'', 462852),
     (''MSG_ALIYUN_VIDEO_DATA_ACK'', 462853),
     (''MSG_ALIYUN_AUDIO_DATA_ACK'', 462854),
     (''MSG_ALIYUN_YIELD_ACK'', 462855),
     (''MSG_ALIYUN_TIME_SYNCHRONIZED_ACK'', 462856),
     (''MSG_ALIYUN_EVENT_ACK'', 462857),
     (''MSG_ALIYUN_SETUP_ACK'', 462858),
     (''MSG_ALIYUN_RESTART_ACK'', 462859),
     (''MSG_ALIYUN_GET_TIME_SYNC_ACK'', 462860)]"
  by code_simp

lemma cases_are_table:
  "message_cases = map (\<lambda>(n, v). (v, n)) (filter (\<lambda>(n, v). \<not> block_marker n) (enum_values 0 message_type_t))"
  by code_simp

lemma acks_are_table:
  "map (\<lambda>(n, v). (n @ ''_ACK'', v OR 0x1000))
     (filter (\<lambda>(n, v). \<not> block_marker n \<and> \<not> ends_with ''_ACK'' n) (enum_values 0 message_type_t))
   = filter (\<lambda>(n, v). \<not> block_marker n \<and> ends_with ''_ACK'' n) (enum_values 0 message_type_t)"
  by code_simp

lemma enum_ascending: "successively (<) (map snd (enum_values 0 message_type_t))"
  by code_simp

lemma enum_ranges:
  "list_all (\<lambda>(n, v). 0 \<le> drop_bit 16 v \<and> drop_bit 16 v < SERVER_BUTT
      \<and> (block_marker n \<or> msg_is_response v = ends_with ''_ACK'' n))
     (enum_values 0 message_type_t)"
  by code_simp

lemma enum_distinct: "distinct (map snd (enum_values 0 message_type_t))"
  using enum_ascending strict_sorted_iff
  by (metis successively_conv_sorted_wrt transp_on_less)

lemma cases_distinct: "distinct (map fst message_cases)"
proof -
  have "map fst (map (\<lambda>(n, v). (v, n)) xs) = map snd xs" for xs :: "(string \<times> int) list"
    by (induction xs) auto
  then show ?thesis
    unfolding cases_are_table by (simp only: distinct_map_filter enum_distinct)
qed

lemma to_string_message:
  "(name, v) \<in> set (enum_values 0 message_type_t) \<Longrightarrow> \<not> block_marker name \<Longrightarrow>
   global_common_message_to_string v = name"
proof -
  assume "(name, v) \<in> set (enum_values 0 message_type_t)" "\<not> block_marker name"
  then have "(v, name) \<in> set message_cases" by (force simp: cases_are_table)
  then have "map_of message_cases v = Some name" by (rule map_of_is_SomeI [OF cases_distinct])
  then show ?thesis by (simp add: global_common_message_to_string_def)
qed

lemma to_string_marker:
  "(name, v) \<in> set (enum_values 0 message_type_t) \<Longrightarrow> block_marker name \<Longrightarrow>
   global_common_message_to_string v = ''Unkown message''"
proof -
  assume nv: "(name, v) \<in> set (enum_values 0 message_type_t)" "block_marker name"
  have "v \<notin> fst ` set message_cases"
  proof
    assume "v \<in> fst ` set message_cases"
    then obtain n where "(n, v) \<in> set (enum_values 0 message_type_t)" "\<not> block_marker n"
      by (auto simp: cases_are_table)
    then have "n = name" using nv(1) enum_distinct by (metis eq_key_imp_eq_value distinct_map inj_onD prod.inject snd_conv)
    then show False using nv(2) \<open>\<not> block_marker n\<close> by simp
  qed
  then have "map_of message_cases v = None" by (simp add: map_of_eq_None_iff)
  then show ?thesis by (simp add: global_common_message_to_string_def)
qed

text \<open>
  \<open>global_common_message_to_string\<close> gives every message of the enumeration its own name
  (only the block markers are unknown to it): no case of the switch is missing, misspelt or
  shadowed.
\<close>

theorem message_to_string_complete:
  "list_all (\<lambda>(name, v). global_common_message_to_string v =
      (if block_marker name then ''Unkown message'' else name)) (enum_values 0 message_type_t)"
  by (auto simp: list_all_iff to_string_message to_string_marker)

text \<open>
  Every request has its acknowledgement \<open>0x1000\<close> above it, under the same name with
  \<open>_ACK\<close>; requests and acknowledgements are told apart by \<open>msg_is_response\<close>, and the block of
  every message is that of one of the eight servers.
\<close>

theorem message_ack_numbers:
  "list_all (\<lambda>(name, v). 0 \<le> drop_bit 16 v \<and> drop_bit 16 v < SERVER_BUTT \<and>
      (if block_marker name then True
       else if msg_is_response v then ends_with ''_ACK'' name
       else msg_is_response (v OR 0x1000)
         \<and> global_common_message_to_string (v OR 0x1000) = name @ ''_ACK'')) (enum_values 0 message_type_t)"
proof -
  have "msg_is_response (v OR 0x1000) \<and> global_common_message_to_string (v OR 0x1000) = name @ ''_ACK''"
    if nv: "(name, v) \<in> set (enum_values 0 message_type_t)" "\<not> block_marker name" "\<not> msg_is_response v"
    for name v
  proof -
    have "\<not> ends_with ''_ACK'' name" using enum_ranges nv by (auto simp: list_all_iff)
    then have "(name @ ''_ACK'', v OR 0x1000) \<in>
        set (filter (\<lambda>(n, v). \<not> block_marker n \<and> ends_with ''_ACK'' n) (enum_values 0 message_type_t))"
      using nv unfolding acks_are_table [symmetric] by force
    moreover from this have "msg_is_response (v OR 0x1000)"
      using enum_ranges by (auto simp: list_all_iff)
    ultimately show ?thesis by (auto simp: to_string_message)
  qed
  then show ?thesis using enum_ranges by (auto simp: list_all_iff)
qed

lemma append_names_eq:
  "length str + sum_list (map (\<lambda>i. length (global_common_get_server_name (int i)) + 1) is) < 128 \<Longrightarrow>
   append_names servers is str =
     Some (str @ concat (map (\<lambda>i. global_common_get_server_name (int i) @ '','')
                          (filter (\<lambda>i. bit servers i) is)))"
  by (induction "is" arbitrary: str) (auto simp: strcat_def)

text \<open>
  \<open>global_common_get_server_names\<close> never overruns its 128-byte buffer, whatever bit set
  it is given, and names exactly the servers whose bit is set.
\<close>

theorem server_names_fit:
  "global_common_get_server_names servers =
    Some (let named = filter (\<lambda>i. bit servers i) [0..<8] in
          if named = [] then ''-''
          else butlast (concat (map (\<lambda>i. global_common_get_server_name (int i) @ '','') named)))"
proof -
  have fits: "sum_list (map (\<lambda>i. length (global_common_get_server_name (int i)) + 1) [0..<8]) < 128"
    by code_simp
  have "append_names servers [0..<8] [] =
    Some (concat (map (\<lambda>i. global_common_get_server_name (int i) @ '','')
           (filter (\<lambda>i. bit servers i) [0..<8])))"
    using append_names_eq [of "[]" "[0..<8]" servers] fits by (simp del: upt_rec_numeral)
  then show ?thesis
    by (auto simp: global_common_get_server_names_def strcat_def Let_def filter_empty_conv
        simp del: upt_rec_numeral)
qed

end
