(* ===== verification/Urgency.thy ===== *)
theory Urgency
  imports MsgBlock MessageNames
begin

text \<open>
  Which messages of the enumeration \<open>message_type_t\<close> the lock of a running task and the filter of
  a server in an error or exit state hold back.  Both look at \<open>msg_is_system\<close> and
  \<open>msg_is_response\<close>; the answer is given for every enumerator, and carried through
  \<open>message_block\<close>, the queue and the filter.
\<close>

section \<open>The enumeration, sorted\<close>

definition held_names :: "string list" where
  "held_names = [''MSG_MANAGER_NONE_SYSTEM'', ''MSG_MANAGER_PROPERTY_GET'', ''MSG_MANAGER_PROPERTY_SET'',
     ''MSG_PLAYER_GET_INFOMATION'', ''MSG_PLAYER_SEEK'', ''MSG_PLAYER_REQUEST_SYNC'']"

lemma urgent_number: "urgent m = (m_message m mod 65536 < 16 \<or> m_message m AND 0xF000 \<noteq> 0)"
  by (simp add: urgent_def system_low_bits msg_is_response_def)

lemma enum_sorted:
  "list_all (\<lambda>(name, k). (k mod 65536 < 16 \<or> k AND 0xF000 \<noteq> 0) = (\<not> List.member held_names name))
     (enum_values 0 message_type_t)"
  unfolding enum_numbers by code_simp

lemma enum_urgent:
  assumes "(name, m_message m) \<in> set (enum_values 0 message_type_t)"
  shows "urgent m = (name \<notin> set held_names)"
  using assms enum_sorted by (auto simp: list_all_iff urgent_number)

section \<open>Through the lock and the filter\<close>

text \<open>What a locked server with a filter does with its queue, by the first urgent message.\<close>

lemma locked_server_handles:
  assumes "msg_lock (info s) \<noteq> 0" "ring_wf (bus s own)" "contents (bus s own) = skipped @ u # rest"
    and "urgent u" "\<forall>x \<in> set skipped. \<not> urgent x"
  shows "\<exists>q. ring_wf q \<and> contents q = skipped @ rest
    \<and> take_message own (message_block own) error_filter handle s = handle u (s\<lparr>bus := (bus s)(own := q)\<rparr>)"
proof -
  have "contents (bus s own) \<noteq> []" "\<exists>m \<in> set (contents (bus s own)). urgent m" using assms(3,4) by simp_all
  then obtain q before m behind where b: "message_block own s = (False, s\<lparr>bus := (bus s)(own := q)\<rparr>)"
    "contents (bus s own) = before @ m # behind" "urgent m" "\<forall>x \<in> set before. \<not> urgent x"
    "ring_wf q" "contents q = m # before @ behind"
    using message_block_spec [OF assms(1,2)] by auto
  have same: "before = skipped \<and> m = u \<and> behind = rest"
    using b(2-4) assms(3-5) by (auto simp: append_eq_append_conv2 append_eq_Cons_conv Cons_eq_append_conv)
  have "0 < ring_count q" using b(6) length_contents [of q] by simp
  note e = evict_props [OF b(5) this]
  have "msg_buffer_pop q msg_init = (0, m, evict q)" by (rule pop_nonempty [OF b(5,6)])
  then have "take_message own (message_block own) error_filter handle s = handle m (s\<lparr>bus := (bus s)(own := evict q)\<rparr>)"
    using urgent_not_filtered [OF b(3), of "s\<lparr>bus := (bus s)(own := evict q)\<rparr>"] by (simp add: take_message_def b(1) Let_def)
  then show ?thesis using e b(6) same by (intro exI [of _ "evict q"]) simp
qed

lemma locked_server_idles:
  assumes "msg_lock (info s) \<noteq> 0" "ring_wf (bus s own)" "\<forall>x \<in> set (contents (bus s own)). \<not> urgent x"
    and "contents (bus s own) \<noteq> []"
  shows "take_message own (message_block own) screen handle s = s"
  using message_block_spec [OF assms(1,2)] assms(3,4) by (simp add: take_message_def)

text \<open>
  C4: The test for system messages looks at the low 16 bits of the number only, so that nearly
  every message passes for one.  For every enumerator of \<open>message_type_t\<close>, with that message in front of
  the queue of a server whose task holds the lock: unless it is one of six (a marker, the two properties
  of the manager, and the last three requests of the player, whose low 16 bits are 16 and more)
  it is handled at once, whatever the lock and the status of the server.  Only the six
  wait: the first urgent message behind them is handled in their place, or nothing is, and a
  server in an error or exit state drops them.
\<close>

theorem requests_pass_as_system:
  assumes "(name, m_message m) \<in> set (enum_values 0 message_type_t)"
    and "msg_lock (info s) \<noteq> 0" "ring_wf (bus s own)" "contents (bus s own) = m # rest"
  shows "if name \<notin> {''MSG_MANAGER_NONE_SYSTEM'', ''MSG_MANAGER_PROPERTY_GET'', ''MSG_MANAGER_PROPERTY_SET'',
      ''MSG_PLAYER_GET_INFOMATION'', ''MSG_PLAYER_SEEK'', ''MSG_PLAYER_REQUEST_SYNC''}
    then \<exists>q. ring_wf q \<and> contents q = rest
      \<and> take_message own (message_block own) error_filter handle s = handle m (s\<lparr>bus := (bus s)(own := q)\<rparr>)
    else error_filter m s = (status (info s) \<ge> STATUS_ERROR)
      \<and> (case find urgent rest of
          None \<Rightarrow> take_message own (message_block own) error_filter handle s = s
        | Some u \<Rightarrow> \<exists>q. ring_wf q \<and> contents q = m # remove1 u rest
            \<and> take_message own (message_block own) error_filter handle s = handle u (s\<lparr>bus := (bus s)(own := q)\<rparr>))"
proof -
  have names: "{''MSG_MANAGER_NONE_SYSTEM'', ''MSG_MANAGER_PROPERTY_GET'', ''MSG_MANAGER_PROPERTY_SET'',
      ''MSG_PLAYER_GET_INFOMATION'', ''MSG_PLAYER_SEEK'', ''MSG_PLAYER_REQUEST_SYNC''} = set held_names"
    by (simp only: held_names_def list.set)
  show ?thesis
  proof (cases "urgent m")
    case True
    then have "name \<notin> set held_names" using enum_urgent [OF assms(1)] by simp
    moreover have "\<exists>q. ring_wf q \<and> contents q = rest
        \<and> take_message own (message_block own) error_filter handle s = handle m (s\<lparr>bus := (bus s)(own := q)\<rparr>)"
      using locked_server_handles [OF assms(2,3), of "[]" m rest handle] assms(4) True by simp
    ultimately show ?thesis by (simp only: names if_True not_False_eq_True)
  next
    case False
    then have held: "name \<in> set held_names" using enum_urgent [OF assms(1)] by simp
    have f: "error_filter m s = (status (info s) \<ge> STATUS_ERROR)"
      using False by (auto simp: urgent_def error_filter_def)
    have "case find urgent rest of
        None \<Rightarrow> take_message own (message_block own) error_filter handle s = s
      | Some u \<Rightarrow> \<exists>q. ring_wf q \<and> contents q = m # remove1 u rest
          \<and> take_message own (message_block own) error_filter handle s = handle u (s\<lparr>bus := (bus s)(own := q)\<rparr>)"
    proof (cases "find urgent rest")
      case None
      then have "\<forall>x \<in> set (contents (bus s own)). \<not> urgent x" using False assms(4) by (auto simp: find_None_iff)
      then show ?thesis using None locked_server_idles [OF assms(2,3)] assms(4) by simp
    next
      case (Some u)
      then obtain i where i: "i < length rest" "urgent (rest ! i)" "u = rest ! i" "\<forall>j < i. \<not> urgent (rest ! j)"
        by (auto simp: find_Some_iff)
      define before where "before = take i rest"
      define behind where "behind = drop (Suc i) rest"
      have r: "rest = before @ u # behind" using i(1,3) by (simp add: before_def behind_def id_take_nth_drop [symmetric])
      have clean: "\<forall>x \<in> set before. \<not> urgent x" using i(4) by (auto simp: before_def in_set_conv_nth)
      then have "remove1 u (before @ u # behind) = before @ behind" using i(2,3) by (auto simp: remove1_append)
      then have "remove1 u rest = before @ behind" by (simp only: r)
      moreover have u: "urgent u" using i(2,3) by simp
      have c: "contents (bus s own) = (m # before) @ u # behind" using assms(4) by (simp only: r append_Cons)
      have "\<exists>q. ring_wf q \<and> contents q = (m # before) @ behind
          \<and> take_message own (message_block own) error_filter handle s = handle u (s\<lparr>bus := (bus s)(own := q)\<rparr>)"
        by (rule locked_server_handles [OF assms(2,3) c u]) (use clean False in simp)
      ultimately show ?thesis using Some by simp
    qed
    then show ?thesis using held f by (simp only: names if_False not_True_eq_False simp_thms)
  qed
qed

section \<open>Concrete servers\<close>

definition erring_server :: "unit server_state_scheme" where
  "erring_server = busy_server\<lparr>info := (info busy_server)\<lparr>status := STATUS_ERROR\<rparr>,
     bus := (\<lambda>_. ring_push (demo_queue 1) (msg_init\<lparr>m_message := MSG_AUDIO_START\<rparr>))\<rparr>"

theorem requests_pass_as_system_witness:
  "map m_message (contents (bus (take_message SERVER_AUDIO (message_block SERVER_AUDIO) error_filter
      (\<lambda>m s. s) busy_server) SERVER_AUDIO)) = [MSG_PLAYER_REQUEST_SYNC]
   \<and> contents (bus (take_message SERVER_AUDIO (message_block SERVER_AUDIO) error_filter
      (\<lambda>m s. s) erring_server) SERVER_AUDIO) = []"
proof -
  obtain a b where c: "contents (bus busy_server SERVER_AUDIO) = [a, b]" "m_message a = MSG_PLAYER_REQUEST_SYNC" "m_message b = MSG_MANAGER_EXIT"
    using busy_server_facts(3) by auto
  have sync: "(''MSG_PLAYER_REQUEST_SYNC'', m_message a) \<in> set (enum_values 0 message_type_t)"
    unfolding enum_numbers using c(2) by simp
  have "urgent b" using c(3) by (simp add: urgent_number)
  then have first: "\<exists>q. contents q = [a] \<and> take_message SERVER_AUDIO (message_block SERVER_AUDIO) error_filter (\<lambda>m s. s) busy_server
      = busy_server\<lparr>bus := (bus busy_server)(SERVER_AUDIO := q)\<rparr>"
    using requests_pass_as_system [OF sync busy_server_facts(1,2) c(1), of "\<lambda>m s. s"] by auto
  define m where "m = (msg_init\<lparr>m_message := MSG_AUDIO_START, m_sequence := 1\<rparr> :: msg)"
  have t: "msg_lock (info erring_server) \<noteq> 0" "ring_wf (bus erring_server SERVER_AUDIO)" "contents (bus erring_server SERVER_AUDIO) = m # []"
    by (simp_all add: erring_server_def busy_server_def ring_push_cases append_msg_props m_def msg_init_def)
  have start: "(''MSG_AUDIO_START'', m_message m) \<in> set (enum_values 0 message_type_t)"
    unfolding enum_numbers by (simp add: m_def)
  have second: "\<exists>q. contents q = [] \<and> take_message SERVER_AUDIO (message_block SERVER_AUDIO) error_filter (\<lambda>m s. s) erring_server
      = erring_server\<lparr>bus := (bus erring_server)(SERVER_AUDIO := q)\<rparr>"
    using requests_pass_as_system [OF start t, of "\<lambda>m s. s"] by auto
  show ?thesis using first second c(2) by auto
qed

end
