(* ===== verification/Timer.thy ===== *)
theory Timer
  imports Bus
begin

text \<open>
  The timer table of \<open>server/manager/timer.c\<close>: 32 slots, a free slot has \<open>tid = 0\<close>, slot
  \<open>i\<close> in use has \<open>tid = i + 1\<close>, and a callback is registered at most once.  The millisecond
  clock is a 32-bit word; \<open>timer_get_ms\<close> is a parameter, its readings are arguments.
  A handler address is compared as the code does, by the function it names.
\<close>

section \<open>The table\<close>

record timer_struct_t =
  tid :: int
  t_sender :: int
  tick :: u32
  delay :: int
  interval :: u32
  oneshot :: int
  fpcallback :: handler_t
  t_arg :: message_arg_t

record timer_table =
  timer_run :: int
  timers :: "timer_struct_t list"

abbreviation (input) "TIMER_NUMBER \<equiv> 32 :: nat"

definition timer_zero :: timer_struct_t where
  "timer_zero = \<lparr>tid = 0, t_sender = 0, tick = 0, delay = 0, interval = 0, oneshot = 0,
     fpcallback = H_NULL, t_arg = arg_zero\<rparr>"

text \<open>
  The loop of \<open>timer_add\<close> from slot \<open>i\<close>: the index it stops at and \<open>usable_id\<close>, the first free
  slot seen or 1110; finding the handler stops the loop and resets \<open>usable_id\<close>.
\<close>

fun timer_scan :: "handler_t \<Rightarrow> timer_struct_t list \<Rightarrow> nat \<Rightarrow> nat \<Rightarrow> nat \<times> nat" where
  "timer_scan h [] i usable_id = (i, usable_id)"
| "timer_scan h (t # ts) i usable_id =
     (let usable_id = (if tid t = 0 \<and> usable_id = 1110 then i else usable_id) in
      if tid t \<noteq> 0 \<and> h = fpcallback t then (i, 1110)
      else timer_scan h ts (i + 1) usable_id)"

definition timer_add ::
  "u32 \<Rightarrow> handler_t \<Rightarrow> int \<Rightarrow> int \<Rightarrow> int \<Rightarrow> int \<Rightarrow> message_arg_t \<Rightarrow> timer_table \<Rightarrow> int \<times> timer_table" where
  "timer_add ms task_handler intv dly one sender arg st =
     (if timer_run st = 0 \<or> task_handler = H_NULL then (- 1, st)
      else let (i, usable_id) = timer_scan task_handler (timers st) 0 1110 in
        if i = TIMER_NUMBER \<and> usable_id = 1110 then (- 1, st)
        else let i = (if i = TIMER_NUMBER then usable_id else i) in
          (0, st\<lparr>timers := (timers st)[i :=
             \<lparr>tid = int i + 1, t_sender = sender,
              tick = (if dly = - 1 then 0 else ms + word_of_int dly),
              delay = dly, interval = word_of_int intv, oneshot = one,
              fpcallback = task_handler, t_arg = arg\<rparr>]\<rparr>))"

fun timer_find :: "handler_t \<Rightarrow> timer_struct_t list \<Rightarrow> nat \<Rightarrow> nat" where
  "timer_find h [] i = i"
| "timer_find h (t # ts) i = (if tid t \<noteq> 0 \<and> h = fpcallback t then i else timer_find h ts (i + 1))"

definition timer_remove :: "handler_t \<Rightarrow> timer_table \<Rightarrow> int \<times> timer_table" where
  "timer_remove task_handler st =
     (if timer_run st = 0 \<or> task_handler = H_NULL then (- 1, st)
      else let i = timer_find task_handler (timers st) 0 in
        (0, if i \<noteq> TIMER_NUMBER then st\<lparr>timers := (timers st)[i := timer_zero]\<rparr> else st))"

definition timer_init :: "timer_table \<Rightarrow> timer_table" where
  "timer_init st = (if timer_run st = 0
     then st\<lparr>timers := replicate TIMER_NUMBER timer_zero, timer_run := 1\<rparr> else st)"

definition timer_release :: "timer_table \<Rightarrow> timer_table" where
  "timer_release st = (if timer_run st \<noteq> 0
     then st\<lparr>timers := replicate TIMER_NUMBER timer_zero, timer_run := 0\<rparr> else st)"

text \<open>
  One slot of \<open>timer_proc\<close>: \<open>now\<close> and \<open>again\<close> are the two clock readings; the answer is the
  new slot and the message to send, if the timer fires.
\<close>

definition timer_on_msg :: "timer_struct_t \<Rightarrow> msg" where
  "timer_on_msg t = msg_init\<lparr>m_message := MSG_MANAGER_TIMER_ON, m_sender := SERVER_MANAGER,
     m_receiver := t_sender t, m_arg_in := arg_zero\<lparr>handler := fpcallback t\<rparr>,
     m_arg_pass := t_arg t\<rparr>"

definition timer_slot_proc ::
  "int \<Rightarrow> u32 \<Rightarrow> u32 \<Rightarrow> timer_struct_t \<Rightarrow> timer_struct_t \<times> msg option" where
  "timer_slot_proc server now again t =
     (if tid t = 0 then (t, None)
      else if misc_get_bit server (nat (t_sender t)) = 0 \<and> t_sender t \<noteq> 32 then (timer_zero, None)
      else if now < tick t \<or> now > tick t + interval t
        then (if oneshot t = 1 then timer_zero else t\<lparr>tick := again\<rparr>, Some (timer_on_msg t))
        else (t, None))"

fun timer_proc_loop ::
  "int \<Rightarrow> (nat \<Rightarrow> u32 \<times> u32) \<Rightarrow> nat list \<Rightarrow> timer_table \<times> bus \<Rightarrow> timer_table \<times> bus" where
  "timer_proc_loop server clock [] sb = sb"
| "timer_proc_loop server clock (i # is) (st, bus) =
     (let (now, again) = clock i;
          t = timers st ! i;
          (t', fired) = timer_slot_proc server now again t;
          st = st\<lparr>timers := (timers st)[i := t']\<rparr>;
          bus = (case fired of None \<Rightarrow> bus
                 | Some m \<Rightarrow> snd (global_common_send_message bus (t_sender t) m))
      in timer_proc_loop server clock is (st, bus))"

definition timer_proc ::
  "int \<Rightarrow> (nat \<Rightarrow> u32 \<times> u32) \<Rightarrow> timer_table \<times> bus \<Rightarrow> timer_table \<times> bus" where
  "timer_proc server clock sb = timer_proc_loop server clock [0..<TIMER_NUMBER] sb"

section \<open>The table's invariant\<close>

definition timer_active :: "timer_struct_t \<Rightarrow> bool" where
  "timer_active t = (tid t \<noteq> 0)"

definition slot_ok :: "nat \<Rightarrow> timer_struct_t \<Rightarrow> bool" where
  "slot_ok i t = (if timer_active t then tid t = int i + 1 \<and> fpcallback t \<noteq> H_NULL
     else t = timer_zero)"

definition registered :: "handler_t \<Rightarrow> timer_struct_t \<Rightarrow> bool" where
  "registered h t = (timer_active t \<and> fpcallback t = h)"

definition slots_ok :: "timer_struct_t list \<Rightarrow> bool" where
  "slots_ok ts = ((\<forall>i < length ts. slot_ok i (ts ! i))
     \<and> (\<forall>h. \<forall>i < length ts. \<forall>j < length ts. registered h (ts ! i) \<longrightarrow> registered h (ts ! j) \<longrightarrow> i = j))"

definition table_ok :: "timer_table \<Rightarrow> bool" where
  "table_ok st = (length (timers st) = TIMER_NUMBER \<and> slots_ok (timers st))"

lemma timer_zero_inactive [simp]: "\<not> timer_active timer_zero" "tid timer_zero = 0"
  by (simp_all add: timer_active_def timer_zero_def)

lemma slot_ok_zero [simp]: "slot_ok i timer_zero"
  by (simp add: slot_ok_def)

lemma slots_ok_update:
  assumes ok: "slots_ok ts" and t: "slot_ok i t"
    and new: "\<And>h j. registered h t \<Longrightarrow> j < length ts \<Longrightarrow> registered h (ts ! j) \<Longrightarrow> j = i"
  shows "slots_ok (ts[i := t])"
  unfolding slots_ok_def
proof (intro conjI allI impI, goal_cases)
  case (1 j)
  then show ?case using ok t by (cases "j = i") (auto simp: slots_ok_def)
next
  case (2 h j k)
  consider "j \<noteq> i" "k \<noteq> i" | "j = i" "k \<noteq> i" | "j \<noteq> i" "k = i" | "j = k" by blast
  then show ?case
  proof cases
    case 1
    then have "registered h (ts ! j)" "registered h (ts ! k)" using 2 by simp_all
    then show ?thesis using ok 2 unfolding slots_ok_def length_list_update by blast
  next
    case a: 2
    then have "registered h t" "registered h (ts ! k)" using 2 by simp_all
    then have "k = i" using new 2 by simp
    then show ?thesis using a by simp
  next
    case a: 3
    then have "registered h t" "registered h (ts ! j)" using 2 by simp_all
    then have "j = i" using new 2 by simp
    then show ?thesis using a by simp
  qed
qed

lemma registered_zero [simp]: "\<not> registered h timer_zero"
  by (simp add: registered_def)

lemma slots_ok_clear: "slots_ok ts \<Longrightarrow> slots_ok (ts[i := timer_zero])"
  by (rule slots_ok_update) auto

lemma table_ok_clear: "table_ok st \<Longrightarrow> table_ok (st\<lparr>timers := (timers st)[i := timer_zero]\<rparr>)"
  by (simp add: table_ok_def slots_ok_clear)

section \<open>Registering and removing\<close>

lemma timer_scan_found:
  "k < length ts \<Longrightarrow> registered h (ts ! k) \<Longrightarrow> \<forall>j < k. \<not> registered h (ts ! j) \<Longrightarrow>
   timer_scan h ts i u = (i + k, 1110)"
proof (induction ts arbitrary: i u k)
  case (Cons t ts)
  show ?case
  proof (cases k)
    case 0
    with Cons.prems show ?thesis by (simp add: registered_def timer_active_def)
  next
    case (Suc k')
    have "\<not> registered h t" using Cons.prems(3) Suc by (metis nth_Cons_0 zero_less_Suc)
    moreover have "\<forall>j < k'. \<not> registered h (ts ! j)" using Cons.prems(3) Suc by auto
    ultimately show ?thesis
      using Cons.IH [of k'] Cons.prems Suc
      by (auto simp: registered_def timer_active_def Let_def)
  qed
qed simp

lemma timer_scan_kept:
  "\<forall>t \<in> set ts. \<not> registered h t \<Longrightarrow> u \<noteq> 1110 \<Longrightarrow> timer_scan h ts i u = (i + length ts, u)"
  by (induction ts arbitrary: i) (auto simp: registered_def timer_active_def Let_def)

lemma timer_scan_full:
  "\<forall>t \<in> set ts. timer_active t \<and> fpcallback t \<noteq> h \<Longrightarrow> timer_scan h ts i 1110 = (i + length ts, 1110)"
  by (induction ts arbitrary: i) (auto simp: registered_def timer_active_def Let_def)

lemma timer_scan_free:
  "\<forall>t \<in> set ts. \<not> registered h t \<Longrightarrow> \<exists>t \<in> set ts. \<not> timer_active t \<Longrightarrow> i + length ts \<le> 1110 \<Longrightarrow>
   \<exists>k < length ts. timer_scan h ts i 1110 = (i + length ts, i + k) \<and> \<not> timer_active (ts ! k)"
proof (induction ts arbitrary: i)
  case (Cons t ts)
  show ?case
  proof (cases "timer_active t")
    case True
    then have "timer_scan h (t # ts) i 1110 = timer_scan h ts (i + 1) 1110"
      using Cons.prems(1) by (auto simp: registered_def timer_active_def Let_def)
    moreover obtain k where "k < length ts" "timer_scan h ts (i + 1) 1110 = (i + 1 + length ts, i + 1 + k)"
      "\<not> timer_active (ts ! k)"
      using Cons.IH [of "i + 1"] Cons.prems True by auto
    ultimately show ?thesis by (intro exI [of _ "Suc k"]) simp
  next
    case False
    then have "timer_scan h (t # ts) i 1110 = timer_scan h ts (i + 1) i"
      by (auto simp: timer_active_def Let_def)
    also have "\<dots> = (i + 1 + length ts, i)"
      using Cons.prems by (intro timer_scan_kept) auto
    finally show ?thesis using False by (intro exI [of _ 0]) simp
  qed
qed simp

lemma timer_find_found:
  "k < length ts \<Longrightarrow> registered h (ts ! k) \<Longrightarrow> \<forall>j < k. \<not> registered h (ts ! j) \<Longrightarrow>
   timer_find h ts i = i + k"
proof (induction ts arbitrary: i k)
  case (Cons t ts)
  show ?case
  proof (cases k)
    case 0
    with Cons.prems show ?thesis by (simp add: registered_def timer_active_def)
  next
    case (Suc k')
    have "\<not> registered h t" using Cons.prems(3) Suc by (metis nth_Cons_0 zero_less_Suc)
    moreover have "\<forall>j < k'. \<not> registered h (ts ! j)" using Cons.prems(3) Suc by auto
    ultimately show ?thesis
      using Cons.IH [of k'] Cons.prems Suc by (auto simp: registered_def timer_active_def)
  qed
qed simp

lemma timer_find_absent:
  "\<forall>k < length ts. \<not> registered h (ts ! k) \<Longrightarrow> timer_find h ts i = i + length ts"
proof (induction ts arbitrary: i)
  case (Cons t ts)
  then have "\<not> registered h t" "\<forall>k < length ts. \<not> registered h (ts ! k)" by force+
  then show ?case using Cons.IH by (auto simp: registered_def timer_active_def)
qed simp

text \<open>The contract: what is registered under a handler.\<close>

definition timer_lookup :: "timer_table \<Rightarrow> handler_t \<Rightarrow> timer_struct_t option" where
  "timer_lookup st h = find (registered h) (timers st)"

definition timer_space :: "timer_table \<Rightarrow> bool" where
  "timer_space st = list_ex (\<lambda>t. \<not> timer_active t) (timers st)"

lemma slots_unique:
  "slots_ok ts \<Longrightarrow> i < length ts \<Longrightarrow> j < length ts \<Longrightarrow>
   registered h (ts ! i) \<Longrightarrow> registered h (ts ! j) \<Longrightarrow> i = j"
  unfolding slots_ok_def by blast

lemma timer_lookup_Some:
  assumes "slots_ok (timers st)"
  shows "(timer_lookup st h = Some t) = (\<exists>k < length (timers st). timers st ! k = t \<and> registered h t)"
proof
  assume "timer_lookup st h = Some t"
  then show "\<exists>k < length (timers st). timers st ! k = t \<and> registered h t"
    by (auto simp: timer_lookup_def find_Some_iff)
next
  assume "\<exists>k < length (timers st). timers st ! k = t \<and> registered h t"
  then obtain k where k: "k < length (timers st)" "timers st ! k = t" "registered h t" by blast
  have "\<not> registered h (timers st ! j)" if "j < k" for j
    using k that slots_unique [OF assms, of j k h] by auto
  then show "timer_lookup st h = Some t"
    using k unfolding timer_lookup_def find_Some_iff by auto
qed

lemma timer_lookup_None:
  "(timer_lookup st h = None) = (\<forall>k < length (timers st). \<not> registered h (timers st ! k))"
  by (auto simp: timer_lookup_def find_None_iff in_set_conv_nth)

lemma timer_lookup_obtain:
  assumes "table_ok st" "timer_lookup st h \<noteq> None"
  obtains k where "k < TIMER_NUMBER" "registered h (timers st ! k)"
    "\<And>j. j < TIMER_NUMBER \<Longrightarrow> registered h (timers st ! j) \<Longrightarrow> j = k"
proof -
  have sl: "slots_ok (timers st)" "length (timers st) = TIMER_NUMBER"
    using assms(1) by (simp_all add: table_ok_def)
  obtain t where "timer_lookup st h = Some t" using assms(2) by blast
  then obtain k where k: "k < TIMER_NUMBER" "registered h (timers st ! k)"
    using sl by (auto simp: timer_lookup_Some)
  moreover have "j = k" if "j < TIMER_NUMBER" "registered h (timers st ! j)" for j
    using slots_unique [OF sl(1), of j k h] that k sl(2) by simp
  ultimately show ?thesis using that by blast
qed

definition new_timer ::
  "u32 \<Rightarrow> handler_t \<Rightarrow> int \<Rightarrow> int \<Rightarrow> int \<Rightarrow> int \<Rightarrow> message_arg_t \<Rightarrow> int \<Rightarrow> timer_struct_t" where
  "new_timer ms h intv dly one sender arg n = \<lparr>tid = n, t_sender = sender,
     tick = (if dly = - 1 then 0 else ms + word_of_int dly),
     delay = dly, interval = word_of_int intv, oneshot = one, fpcallback = h, t_arg = arg\<rparr>"

lemma registered_new_timer: "registered k (new_timer ms h intv dly one sender arg (int i + 1)) = (k = h)"
  by (auto simp: registered_def timer_active_def new_timer_def)

lemma slot_ok_new_timer: "h \<noteq> H_NULL \<Longrightarrow> slot_ok i (new_timer ms h intv dly one sender arg (int i + 1))"
  by (simp add: slot_ok_def new_timer_def timer_active_def)

lemma timer_add_at:
  assumes ok: "table_ok st" and run: "timer_run st \<noteq> 0" "h \<noteq> H_NULL"
    and room: "timer_lookup st h \<noteq> None \<or> timer_space st"
  shows "\<exists>i < TIMER_NUMBER. timer_add ms h intv dly one sender arg st =
      (0, st\<lparr>timers := (timers st)[i := new_timer ms h intv dly one sender arg (int i + 1)]\<rparr>)
    \<and> (registered h (timers st ! i)
       \<or> timer_lookup st h = None \<and> \<not> timer_active (timers st ! i))"
proof (cases "timer_lookup st h")
  case None
  then have no: "\<forall>t \<in> set (timers st). \<not> registered h t"
    by (auto simp: timer_lookup_def find_None_iff)
  have "\<exists>t \<in> set (timers st). \<not> timer_active t" using room None by (simp add: timer_space_def list_ex_iff)
  then obtain k where k: "k < TIMER_NUMBER"
    "timer_scan h (timers st) 0 1110 = (TIMER_NUMBER, k)" "\<not> timer_active (timers st ! k)"
    using timer_scan_free [OF no, of 0] ok by (auto simp: table_ok_def)
  then have "timer_add ms h intv dly one sender arg st =
      (0, st\<lparr>timers := (timers st)[k := new_timer ms h intv dly one sender arg (int k + 1)]\<rparr>)"
    using run by (simp add: timer_add_def new_timer_def)
  with k None show ?thesis by blast
next
  case (Some t)
  then obtain k where k: "k < TIMER_NUMBER" "registered h (timers st ! k)"
    "\<And>j. j < TIMER_NUMBER \<Longrightarrow> registered h (timers st ! j) \<Longrightarrow> j = k"
    using timer_lookup_obtain [OF ok, of h] by (metis option.distinct(1))
  have len: "length (timers st) = TIMER_NUMBER" using ok by (simp add: table_ok_def)
  have no: "\<forall>j < k. \<not> registered h (timers st ! j)"
  proof (intro allI impI notI)
    fix j assume "j < k" "registered h (timers st ! j)"
    then show False using k(3) [of j] k(1) by linarith
  qed
  have "timer_scan h (timers st) 0 1110 = (0 + k, 1110)"
    by (rule timer_scan_found [OF _ k(2) no]) (use k(1) len in simp)
  then have "timer_add ms h intv dly one sender arg st =
      (0, st\<lparr>timers := (timers st)[k := new_timer ms h intv dly one sender arg (int k + 1)]\<rparr>)"
    using run k(1) by (simp add: timer_add_def new_timer_def)
  with k show ?thesis by blast
qed

lemma timer_add_full:
  assumes ok: "table_ok st" and none: "timer_lookup st h = None" "\<not> timer_space st"
  shows "timer_add ms h intv dly one sender arg st = (- 1, st)"
proof -
  have "\<forall>t \<in> set (timers st). timer_active t \<and> fpcallback t \<noteq> h"
    using none by (auto simp: timer_lookup_def timer_space_def find_None_iff registered_def list_ex_iff)
  then have "timer_scan h (timers st) 0 1110 = (0 + length (timers st), 1110)"
    by (rule timer_scan_full)
  then show ?thesis using ok by (simp add: timer_add_def table_ok_def)
qed

lemma lookup_update:
  assumes ok: "slots_ok (timers st)" and i: "i < length (timers st)"
    and old: "\<And>k. k \<noteq> h \<Longrightarrow> \<not> registered k (timers st ! i)"
    and none: "\<And>j. j < length (timers st) \<Longrightarrow> registered h (timers st ! j) \<Longrightarrow> j = i"
    and t: "\<And>k. registered k t \<Longrightarrow> k = h" and ok': "slot_ok i t"
  shows "timer_lookup (st\<lparr>timers := (timers st)[i := t]\<rparr>) k =
    (if k = h then (if registered h t then Some t else None) else timer_lookup st k)"
proof -
  let ?st = "st\<lparr>timers := (timers st)[i := t]\<rparr>"
  have new: "slots_ok (timers ?st)"
    using slots_ok_update [OF ok ok'] none t by simp
  show ?thesis
  proof (cases "k = h")
    case True
    show ?thesis
    proof (cases "registered h t")
      case r: True
      then have "timer_lookup ?st h = Some t"
        using new i by (auto simp: timer_lookup_Some)
      then show ?thesis using True r by simp
    next
      case False
      have "\<not> registered h ((timers st)[i := t] ! j)" if "j < length (timers st)" for j
      proof (cases "j = i")
        case True
        then show ?thesis using False i by simp
      next
        case ne: False
        then show ?thesis using none [OF that] by auto
      qed
      then have "timer_lookup ?st h = None" by (simp add: timer_lookup_None)
      then show ?thesis using True False by simp
    qed
  next
    case False
    have slot: "((timers st)[i := t] ! j = u \<and> registered k u) = (timers st ! j = u \<and> registered k u)"
      if "j < length (timers st)" for j u
    proof (cases "j = i")
      case True
      then show ?thesis using that False old [OF False] t [of k] by auto
    qed simp
    have "(timer_lookup ?st k = Some u) = (timer_lookup st k = Some u)" for u
      unfolding timer_lookup_Some [OF new] timer_lookup_Some [OF ok] by (simp add: slot cong: conj_cong)
    then show ?thesis using False by (metis not_None_eq)
  qed
qed

lemma timer_add_lookup:
  assumes ok: "table_ok st" and run: "timer_run st \<noteq> 0" "h \<noteq> H_NULL"
    and room: "timer_lookup st h \<noteq> None \<or> timer_space st"
  shows "\<exists>n st'. timer_add ms h intv dly one sender arg st = (0, st') \<and> table_ok st' \<and>
     timer_run st' = timer_run st \<and>
     timer_lookup st' = (timer_lookup st)(h \<mapsto> new_timer ms h intv dly one sender arg n)"
proof -
  have len: "length (timers st) = TIMER_NUMBER" and sl: "slots_ok (timers st)"
    using ok by (simp_all add: table_ok_def)
  obtain i where i: "i < TIMER_NUMBER" "timer_add ms h intv dly one sender arg st =
      (0, st\<lparr>timers := (timers st)[i := new_timer ms h intv dly one sender arg (int i + 1)]\<rparr>)"
    "registered h (timers st ! i) \<or> timer_lookup st h = None \<and> \<not> timer_active (timers st ! i)"
    using timer_add_at [OF assms] by blast
  let ?t = "new_timer ms h intv dly one sender arg (int i + 1)"
  have old: "k \<noteq> h \<Longrightarrow> \<not> registered k (timers st ! i)" for k
    using i(3) by (auto simp: registered_def)
  have only: "j = i" if "j < length (timers st)" "registered h (timers st ! j)" for j
    using i(3)
  proof
    assume "registered h (timers st ! i)"
    then show ?thesis using slots_unique [OF sl, of j i h] that i(1) len by simp
  next
    assume "timer_lookup st h = None \<and> \<not> timer_active (timers st ! i)"
    then show ?thesis using that by (simp add: timer_lookup_None)
  qed
  note reg = registered_new_timer [of _ ms h intv dly one sender arg i]
  note sok = slot_ok_new_timer [OF run(2), of i ms intv dly one sender arg]
  have "timer_lookup (st\<lparr>timers := (timers st)[i := ?t]\<rparr>) = (timer_lookup st)(h \<mapsto> ?t)"
  proof
    fix k
    have "timer_lookup (st\<lparr>timers := (timers st)[i := ?t]\<rparr>) k =
        (if k = h then (if registered h ?t then Some ?t else None) else timer_lookup st k)"
      by (rule lookup_update [OF sl _ old only _ sok]) (use i(1) len reg in simp_all)
    then show "timer_lookup (st\<lparr>timers := (timers st)[i := ?t]\<rparr>) k = ((timer_lookup st)(h \<mapsto> ?t)) k"
      using reg [of h] by simp
  qed
  moreover have "slots_ok ((timers st)[i := ?t])"
  proof (rule slots_ok_update [OF sl sok])
    fix g j assume "registered g ?t" "j < length (timers st)" "registered g (timers st ! j)"
    then show "j = i" using reg [of g] only [of j] by simp
  qed
  ultimately show ?thesis using i(2) len by (auto simp: table_ok_def)
qed

lemma timer_remove_lookup:
  assumes ok: "table_ok st" and run: "timer_run st \<noteq> 0" "h \<noteq> H_NULL"
  shows "\<exists>st'. timer_remove h st = (0, st') \<and> table_ok st' \<and> timer_run st' = timer_run st \<and>
     timer_lookup st' = (timer_lookup st)(h := None)"
proof (cases "timer_lookup st h")
  case None
  then have "timer_find h (timers st) 0 = 0 + length (timers st)"
    by (intro timer_find_absent) (simp add: timer_lookup_None)
  then show ?thesis using None run ok by (simp add: timer_remove_def table_ok_def fun_upd_idem)
next
  case (Some t)
  have len: "length (timers st) = TIMER_NUMBER" and sl: "slots_ok (timers st)"
    using ok by (simp_all add: table_ok_def)
  obtain k where k: "k < TIMER_NUMBER" "registered h (timers st ! k)"
    "\<And>j. j < TIMER_NUMBER \<Longrightarrow> registered h (timers st ! j) \<Longrightarrow> j = k"
    using timer_lookup_obtain [OF ok, of h] Some by (metis option.distinct(1))
  have no: "\<forall>j < k. \<not> registered h (timers st ! j)"
  proof (intro allI impI notI)
    fix j assume "j < k" "registered h (timers st ! j)"
    then show False using k(3) [of j] k(1) by linarith
  qed
  have "timer_find h (timers st) 0 = 0 + k"
    by (rule timer_find_found [OF _ k(2) no]) (use k(1) len in simp)
  then have "timer_remove h st = (0, st\<lparr>timers := (timers st)[k := timer_zero]\<rparr>)"
    using run k(1) by (simp add: timer_remove_def)
  moreover have "timer_lookup (st\<lparr>timers := (timers st)[k := timer_zero]\<rparr>) g = ((timer_lookup st)(h := None)) g" for g
  proof -
    have nr: "\<not> registered g' (timers st ! k)" if "g' \<noteq> h" for g'
      using that k(2) by (simp add: registered_def)
    show ?thesis
      using lookup_update [OF sl k(1) [folded len] nr k(3) [folded len], where t = timer_zero and k = g] by simp
  qed
  ultimately show ?thesis using table_ok_clear [OF ok] by auto
qed

lemma timer_init_ok: "timer_run st = 0 \<Longrightarrow> table_ok (timer_init st)"
  by (simp add: timer_init_def table_ok_def slots_ok_def)

lemma timer_release_ok: "table_ok st \<Longrightarrow> table_ok (timer_release st)"
  by (simp add: timer_release_def table_ok_def slots_ok_def)

section \<open>The contract of a callback registry\<close>

locale callback_registry =
  fixes inv :: "'s \<Rightarrow> bool"
    and lookup :: "'s \<Rightarrow> 'k \<Rightarrow> 'v option"
    and size_limit :: nat
    and valid :: "'k \<Rightarrow> bool"
    and entry :: "'a \<Rightarrow> 'v"
    and add :: "'k \<Rightarrow> 'a \<Rightarrow> 's \<Rightarrow> int \<times> 's"
    and remove :: "'k \<Rightarrow> 's \<Rightarrow> int \<times> 's"
  assumes dom_finite: "inv s \<Longrightarrow> finite (dom (lookup s))"
    and add_ok: "inv s \<Longrightarrow> valid k \<Longrightarrow> k \<in> dom (lookup s) \<or> card (dom (lookup s)) < size_limit \<Longrightarrow>
        \<exists>s'. add k a s = (0, s') \<and> inv s' \<and> lookup s' = (lookup s)(k \<mapsto> entry a)"
    and add_full: "inv s \<Longrightarrow> valid k \<Longrightarrow> k \<notin> dom (lookup s) \<Longrightarrow> \<not> card (dom (lookup s)) < size_limit \<Longrightarrow>
        add k a s = (- 1, s)"
    and remove_ok: "inv s \<Longrightarrow> valid k \<Longrightarrow>
        \<exists>s'. remove k s = (0, s') \<and> inv s' \<and> lookup s' = (lookup s)(k := None)"
begin

lemma add_all:
  "inv s \<Longrightarrow> list_all (\<lambda>(k, a). valid k) kas \<Longrightarrow>
   card (dom (lookup s) \<union> fst ` set kas) \<le> size_limit \<Longrightarrow>
   \<exists>s'. foldl (\<lambda>(ok, s) (k, a). case add k a s of (r, s) \<Rightarrow> (ok \<and> r = 0, s)) (True, s) kas = (True, s')
     \<and> inv s' \<and> lookup s' = (lookup s) ++ map_of (rev (map (\<lambda>(k, a). (k, entry a)) kas))"
proof (induction kas arbitrary: s)
  case (Cons ka kas)
  obtain k a where ka: "ka = (k, a)" by (cases ka)
  have fin: "finite (dom (lookup s) \<union> fst ` set (ka # kas))" using dom_finite Cons.prems by auto
  have "k \<in> dom (lookup s) \<or> card (dom (lookup s)) < size_limit"
  proof (rule disjCI)
    assume "\<not> card (dom (lookup s)) < size_limit"
    then have "card (dom (lookup s) \<union> fst ` set (ka # kas)) = card (dom (lookup s))"
      using Cons.prems(3) card_mono [OF fin Un_upper1] by linarith
    then have "dom (lookup s) = dom (lookup s) \<union> fst ` set (ka # kas)"
      using card_subset_eq [OF fin, of "dom (lookup s)"] by auto
    then show "k \<in> dom (lookup s)" by (auto simp: ka)
  qed
  then obtain s1 where s1: "add k a s = (0, s1)" "inv s1" "lookup s1 = (lookup s)(k \<mapsto> entry a)"
    using add_ok [OF Cons.prems(1), of k a] Cons.prems(2) by (auto simp: ka)
  have "dom (lookup s1) \<union> fst ` set kas = dom (lookup s) \<union> fst ` set (ka # kas)"
    by (auto simp: s1 ka)
  then obtain s' where "foldl (\<lambda>(ok, s) (k, a). case add k a s of (r, s) \<Rightarrow> (ok \<and> r = 0, s)) (True, s1) kas = (True, s')"
    "inv s'" "lookup s' = (lookup s1) ++ map_of (rev (map (\<lambda>(k, a). (k, entry a)) kas))"
    using Cons.IH [OF s1(2)] Cons.prems by auto
  then show ?case by (intro exI [of _ s']) (simp add: ka s1 map_add_upd_left map_add_assoc [symmetric])
qed simp

lemma add_remove:
  assumes "inv s" "valid k" "k \<notin> dom (lookup s)" "card (dom (lookup s)) < size_limit"
  shows "lookup (snd (remove k (snd (add k a s)))) = lookup s"
proof -
  obtain s1 where s1: "add k a s = (0, s1)" "inv s1" "lookup s1 = (lookup s)(k \<mapsto> entry a)"
    using add_ok assms by blast
  obtain s2 where "remove k s1 = (0, s2)" "lookup s2 = (lookup s1)(k := None)"
    using remove_ok s1 assms by blast
  then show ?thesis using s1 assms(3) by (simp add: fun_upd_idem domIff)
qed

end

section \<open>The timer table is a callback registry\<close>

type_synonym timer_data = "int \<times> u32 \<times> int \<times> u32 \<times> int \<times> message_arg_t"
type_synonym timer_request = "u32 \<times> int \<times> int \<times> int \<times> int \<times> message_arg_t"

definition timer_data :: "timer_struct_t \<Rightarrow> timer_data" where
  "timer_data t = (t_sender t, tick t, delay t, interval t, oneshot t, t_arg t)"

definition request_data :: "timer_request \<Rightarrow> timer_data" where
  "request_data a = (case a of (ms, intv, dly, one, sender, arg) \<Rightarrow>
     (sender, if dly = - 1 then 0 else ms + word_of_int dly, dly, word_of_int intv, one, arg))"

definition timer_map :: "timer_table \<Rightarrow> handler_t \<Rightarrow> timer_data option" where
  "timer_map st h = map_option timer_data (timer_lookup st h)"

definition timer_register :: "handler_t \<Rightarrow> timer_request \<Rightarrow> timer_table \<Rightarrow> int \<times> timer_table" where
  "timer_register h a st = (case a of (ms, intv, dly, one, sender, arg) \<Rightarrow>
     timer_add ms h intv dly one sender arg st)"

definition table_run :: "timer_table \<Rightarrow> bool" where
  "table_run st = (table_ok st \<and> timer_run st \<noteq> 0)"

lemma timer_dom: "dom (timer_map st) = fpcallback ` {t \<in> set (timers st). timer_active t}"
proof -
  have "(h \<in> dom (timer_map st)) = (\<exists>t \<in> set (timers st). registered h t)" for h
    by (auto simp: timer_map_def domIff timer_lookup_def find_None_iff)
  then show ?thesis by (simp add: set_eq_iff image_iff registered_def) blast
qed

lemma timer_card:
  assumes "table_ok st"
  shows "card (dom (timer_map st)) = card {i. i < TIMER_NUMBER \<and> timer_active (timers st ! i)}"
proof -
  let ?I = "{i. i < TIMER_NUMBER \<and> timer_active (timers st ! i)}"
  have len: "length (timers st) = TIMER_NUMBER" "slots_ok (timers st)" using assms by (auto simp: table_ok_def)
  have "dom (timer_map st) = (\<lambda>i. fpcallback (timers st ! i)) ` ?I"
    unfolding timer_dom using len(1) by (force simp: in_set_conv_nth)
  moreover have "inj_on (\<lambda>i. fpcallback (timers st ! i)) ?I"
  proof (rule inj_onI)
    fix i j assume "i \<in> ?I" "j \<in> ?I" "fpcallback (timers st ! i) = fpcallback (timers st ! j)"
    then show "i = j"
      using slots_unique [OF len(2), of i j "fpcallback (timers st ! i)"] len(1)
      by (simp add: registered_def)
  qed
  ultimately show ?thesis by (simp add: card_image)
qed

lemma timer_space_iff:
  assumes "table_ok st"
  shows "timer_space st = (card (dom (timer_map st)) < TIMER_NUMBER)"
proof -
  let ?I = "{i. i < TIMER_NUMBER \<and> timer_active (timers st ! i)}"
  have sub: "?I \<subseteq> {..<TIMER_NUMBER}" by auto
  have "timer_space st = (\<exists>i < TIMER_NUMBER. \<not> timer_active (timers st ! i))"
    using assms by (auto simp: timer_space_def list_ex_length table_ok_def)
  also have "\<dots> = (?I \<noteq> {..<TIMER_NUMBER})" by blast
  also have "\<dots> = (card ?I < TIMER_NUMBER)"
    using card_subset_eq [OF _ sub] card_mono [OF _ sub] by fastforce
  finally show ?thesis using timer_card [OF assms] by simp
qed

lemma new_timer_data: "timer_data (new_timer ms h intv dly one sender arg n) = request_data (ms, intv, dly, one, sender, arg)"
  by (simp add: timer_data_def request_data_def new_timer_def)

interpretation timer_registry: callback_registry table_run timer_map TIMER_NUMBER
  "\<lambda>h. h \<noteq> H_NULL" request_data timer_register timer_remove
proof (unfold_locales, goal_cases)
  case (1 st)
  then show ?case by (simp add: timer_dom)
next
  case (2 st h a)
  obtain ms intv dly one sender arg where a: "a = (ms, intv, dly, one, sender, arg)" by (cases a)
  have ok: "table_ok st" "timer_run st \<noteq> 0" using 2 by (auto simp: table_run_def)
  have "timer_lookup st h \<noteq> None \<or> timer_space st"
    using 2 timer_space_iff [OF ok(1)] by (auto simp: timer_map_def)
  from timer_add_lookup [OF ok 2(2) this]
  obtain n st' where st': "timer_add ms h intv dly one sender arg st = (0, st')" "table_ok st'"
    "timer_run st' = timer_run st"
    "timer_lookup st' = (timer_lookup st)(h \<mapsto> new_timer ms h intv dly one sender arg n)"
    by blast
  have "timer_map st' = (timer_map st)(h \<mapsto> request_data a)"
    by (rule ext) (simp add: timer_map_def st'(4) new_timer_data a)
  then show ?case using st' ok by (auto simp: timer_register_def a table_run_def)
next
  case (3 st h a)
  then have "timer_lookup st h = None" "\<not> timer_space st"
    using timer_space_iff [of st] by (auto simp: timer_map_def table_run_def)
  then show ?case using 3 by (auto simp: timer_register_def table_run_def timer_add_full split: prod.split)
next
  case (4 st h)
  then obtain st' where "timer_remove h st = (0, st')" "table_ok st'" "timer_run st' = timer_run st"
    "timer_lookup st' = (timer_lookup st)(h := None)"
    using timer_remove_lookup [of st h] by (auto simp: table_run_def)
  then show ?case using 4 by (auto simp: table_run_def timer_map_def fun_eq_iff)
qed

section \<open>Polling\<close>

definition polled :: "int \<Rightarrow> (nat \<Rightarrow> u32 \<times> u32) \<Rightarrow> timer_table \<Rightarrow> nat \<Rightarrow> timer_struct_t \<times> msg option" where
  "polled server clock st i = timer_slot_proc server (fst (clock i)) (snd (clock i)) (timers st ! i)"

definition send_fired :: "timer_table \<Rightarrow> (nat \<Rightarrow> msg option) \<Rightarrow> bus \<Rightarrow> nat \<Rightarrow> bus" where
  "send_fired st fired bus i = (case fired i of None \<Rightarrow> bus
     | Some m \<Rightarrow> snd (global_common_send_message bus (t_sender (timers st ! i)) m))"

text \<open>The loop visits each slot once; what it does to one slot does not depend on the others.\<close>

lemma timer_proc_loop_eq:
  assumes "distinct is" "set is \<subseteq> {..<length (timers st)}"
  shows "timer_proc_loop server clock is (st, bus) =
    (st\<lparr>timers := map (\<lambda>j. if j \<in> set is then fst (polled server clock st j) else timers st ! j)
         [0..<length (timers st)]\<rparr>,
     foldl (send_fired st (\<lambda>i. snd (polled server clock st i))) bus is)"
  using assms
proof (induction "is" arbitrary: st bus)
  case Nil
  then show ?case by (simp add: map_nth)
next
  case (Cons i "is")
  obtain t' fired where p: "polled server clock st i = (t', fired)" by fastforce
  define st1 where "st1 = st\<lparr>timers := (timers st)[i := t']\<rparr>"
  define bus1 where "bus1 = send_fired st (\<lambda>i. snd (polled server clock st i)) bus i"
  have nth: "timers st1 ! j = timers st ! j" if "j \<noteq> i" for j
    using that by (simp add: st1_def)
  have other: "polled server clock st1 j = polled server clock st j" if "j \<noteq> i" for j
    using nth [OF that] by (simp add: polled_def)
  have other_send: "send_fired st1 (\<lambda>i. snd (polled server clock st1 i)) b j
      = send_fired st (\<lambda>i. snd (polled server clock st i)) b j" if "j \<noteq> i" for j b
    using nth [OF that] other [OF that] by (simp add: send_fired_def split: option.split)
  have "timer_proc_loop server clock (i # is) (st, bus) = timer_proc_loop server clock is (st1, bus1)"
    using p by (simp add: polled_def st1_def bus1_def send_fired_def case_prod_beta)
  also have "\<dots> = (st1\<lparr>timers := map (\<lambda>j. if j \<in> set is then fst (polled server clock st1 j) else timers st1 ! j)
         [0..<length (timers st1)]\<rparr>,
     foldl (send_fired st1 (\<lambda>i. snd (polled server clock st1 i))) bus1 is)"
    using Cons.prems by (intro Cons.IH) (auto simp: st1_def)
  also have "map (\<lambda>j. if j \<in> set is then fst (polled server clock st1 j) else timers st1 ! j)
         [0..<length (timers st1)]
      = map (\<lambda>j. if j \<in> set (i # is) then fst (polled server clock st j) else timers st ! j)
         [0..<length (timers st)]"
  proof (rule map_cong)
    fix x assume "x \<in> set [0..<length (timers st)]"
    then show "(if x \<in> set is then fst (polled server clock st1 x) else timers st1 ! x)
        = (if x \<in> set (i # is) then fst (polled server clock st x) else timers st ! x)"
      using Cons.prems p by (cases "x = i") (simp_all add: st1_def [symmetric] other nth, simp add: st1_def)
  qed (simp add: st1_def)
  also have "foldl (send_fired st1 (\<lambda>i. snd (polled server clock st1 i))) bus1 is
      = foldl (send_fired st (\<lambda>i. snd (polled server clock st i))) bus1 is"
    using Cons.prems by (intro foldl_cong) (auto intro!: other_send)
  finally show ?case by (simp add: st1_def bus1_def)
qed

lemma timer_proc_eq:
  assumes "length (timers st) = TIMER_NUMBER"
  shows "timer_proc server clock (st, bus) =
    (st\<lparr>timers := map (\<lambda>j. fst (polled server clock st j)) [0..<TIMER_NUMBER]\<rparr>,
     foldl (send_fired st (\<lambda>i. snd (polled server clock st i))) bus [0..<TIMER_NUMBER])"
proof -
  have "map (\<lambda>j. if j \<in> set [0..<TIMER_NUMBER] then fst (polled server clock st j) else timers st ! j) [0..<TIMER_NUMBER]
      = map (\<lambda>j. fst (polled server clock st j)) [0..<TIMER_NUMBER]"
    by (intro map_cong) (auto simp del: upt_rec_numeral)
  moreover have "set [0..<TIMER_NUMBER] \<subseteq> {..<length (timers st)}"
    using assms by (auto simp del: upt_rec_numeral)
  ultimately show ?thesis
    using timer_proc_loop_eq [of "[0..<TIMER_NUMBER]" st server clock bus] assms
    by (simp add: timer_proc_def del: upt_rec_numeral)
qed

lemma slot_proc_ok: "slot_ok i t \<Longrightarrow> slot_ok i (fst (timer_slot_proc server now again t))"
  by (auto simp: timer_slot_proc_def slot_ok_def timer_active_def)

lemma slot_proc_registered:
  "registered h (fst (timer_slot_proc server now again t)) \<Longrightarrow> registered h t"
  by (auto simp: timer_slot_proc_def registered_def timer_active_def split: if_splits)

lemma timer_proc_ok:
  assumes "table_ok st"
  shows "table_ok (fst (timer_proc server clock (st, bus)))"
proof -
  have len: "length (timers st) = TIMER_NUMBER" and sl: "slots_ok (timers st)"
    using assms by (auto simp: table_ok_def)
  let ?ts = "map (\<lambda>j. fst (polled server clock st j)) [0..<TIMER_NUMBER]"
  have "slots_ok ?ts"
    unfolding slots_ok_def
  proof (intro conjI allI impI)
    fix i assume "i < length ?ts"
    then show "slot_ok i (?ts ! i)"
      using sl len by (simp add: polled_def slot_proc_ok slots_ok_def del: upt_rec_numeral)
  next
    fix h i j assume "i < length ?ts" "j < length ?ts" "registered h (?ts ! i)" "registered h (?ts ! j)"
    then show "i = j"
      using slots_unique [OF sl, of i j h] len
      by (auto simp: polled_def dest!: slot_proc_registered simp del: upt_rec_numeral)
  qed
  then show ?thesis by (simp add: timer_proc_eq [OF len] table_ok_def del: upt_rec_numeral)
qed

text \<open>When a registered timer fires.\<close>

lemma slot_proc_gone:
  "timer_active t \<Longrightarrow> \<not> bit server (nat (t_sender t)) \<Longrightarrow> t_sender t \<noteq> 32 \<Longrightarrow>
   timer_slot_proc server now again t = (timer_zero, None)"
  by (simp add: timer_slot_proc_def timer_active_def)

lemma slot_proc_fires:
  "timer_active t \<Longrightarrow> bit server (nat (t_sender t)) \<or> t_sender t = 32 \<Longrightarrow>
   timer_slot_proc server now again t =
    (if now < tick t \<or> tick t + interval t < now
     then (if oneshot t = 1 then timer_zero else t\<lparr>tick := again\<rparr>, Some (timer_on_msg t))
     else (t, None))"
  by (auto simp: timer_slot_proc_def timer_active_def)

section \<open>Properties of the timers\<close>

lemma timer_add_ok:
  assumes "table_ok st"
  shows "table_ok (snd (timer_add ms h intv dly one sender arg st))"
proof (cases "timer_run st = 0 \<or> h = H_NULL")
  case True
  then show ?thesis using assms by (auto simp: timer_add_def)
next
  case False
  then show ?thesis
    using timer_registry.add_ok [of st h "(ms, intv, dly, one, sender, arg)"]
      timer_registry.add_full [of st h "(ms, intv, dly, one, sender, arg)"] assms
    by (cases "h \<in> dom (timer_map st) \<or> card (dom (timer_map st)) < TIMER_NUMBER")
       (auto simp: table_run_def timer_register_def)
qed

lemma timer_remove_ok: "table_ok st \<Longrightarrow> table_ok (snd (timer_remove h st))"
  using timer_remove_lookup [of st h]
  by (cases "timer_run st = 0 \<or> h = H_NULL") (auto simp: timer_remove_def)

text \<open>
  C35: The table keeps its invariant (slot \<open>i\<close> in use has id \<open>i + 1\<close>, free slots are zero,
  no callback is registered twice) under registration, removal, polling, start and stop.
\<close>

theorem timer_table_invariant:
  assumes "table_ok st"
  shows "table_ok (snd (timer_add ms h intv dly one sender arg st))
    \<and> table_ok (snd (timer_remove h st)) \<and> table_ok (fst (timer_proc server clock (st, bus)))
    \<and> table_ok (timer_release st) \<and> table_ok (timer_init st)"
  using assms timer_init_ok [of st]
  by (cases "timer_run st = 0")
     (auto simp: timer_add_ok timer_remove_ok timer_proc_ok timer_release_ok timer_init_def)

definition timers0 :: timer_table where
  "timers0 = timer_init \<lparr>timer_run = 0, timers = []\<rparr>"

lemma timers0_ok [simp]: "table_ok timers0" "timer_run timers0 = 1" "table_run timers0"
  by (simp_all add: timers0_def timer_init_ok table_run_def) (simp_all add: timer_init_def)

lemma timers0_empty [simp]: "timer_map timers0 = Map.empty"
  by (rule ext) (simp add: timer_map_def timer_lookup_def timers0_def timer_init_def find_None_iff)

theorem timer_table_invariant_witness:
  "table_ok (snd (timer_add 5 H_test_func 20000 0 1 0 arg_zero timers0))"
  using timer_table_invariant [of timers0] by simp

text \<open>
  Registering any list of callbacks that with those already there are at most 32 different
  ones succeeds each time; afterwards each callback is found with the data of its last
  registration and every other one is untouched.
\<close>

theorem timer_register_all:
  assumes "table_run st" "list_all (\<lambda>(h, a). h \<noteq> H_NULL) has"
    and "card (dom (timer_map st) \<union> fst ` set has) \<le> 32"
  shows "\<exists>st'. foldl (\<lambda>(ok, st) (h, a). case timer_register h a st of (r, st) \<Rightarrow> (ok \<and> r = 0, st)) (True, st) has = (True, st')
    \<and> timer_map st' = timer_map st ++ map_of (rev (map (\<lambda>(h, a). (h, request_data a)) has))"
  using timer_registry.add_all [OF assms] by blast

theorem timer_register_all_witness:
  "\<exists>st'. foldl (\<lambda>(ok, st) (h, a). case timer_register h a st of (r, st) \<Rightarrow> (ok \<and> r = 0, st)) (True, timers0)
      [(H_test_func, (7, 100, 0, 1, 3, arg_zero)), (H_test_func, (9, 100, 0, 0, 3, arg_zero))] = (True, st')
    \<and> timer_map st' H_test_func = Some (3, 9, 0, 100, 0, arg_zero)"
  using timer_register_all [of timers0
      "[(H_test_func, (7, 100, 0, 1, 3, arg_zero)), (H_test_func, (9, 100, 0, 0, 3, arg_zero))]"]
  by (auto simp: request_data_def)

text \<open>
  A timer registered without delay at time \<open>ms\<close> stays silent on every poll up to
  \<open>ms + interval\<close> and fires on the first poll after it (as long as the 32-bit clock does not
  wrap in between): a one-shot timer is then gone, a periodic one restarts at the poll.
\<close>

theorem timer_interval:
  assumes "bit server (nat sender) \<or> sender = 32" "0 \<le> intv" "uint ms + intv < 2 ^ 32" "ms \<le> now"
  shows "timer_slot_proc server now again (new_timer ms h intv 0 one sender arg (int i + 1)) =
    (if uint now \<le> uint ms + intv then (new_timer ms h intv 0 one sender arg (int i + 1), None)
     else (if one = 1 then timer_zero else (new_timer ms h intv 0 one sender arg (int i + 1))\<lparr>tick := again\<rparr>,
           Some (timer_on_msg (new_timer ms h intv 0 one sender arg (int i + 1)))))"
proof -
  let ?t = "new_timer ms h intv 0 one sender arg (int i + 1)"
  have f: "timer_active ?t" "t_sender ?t = sender" "tick ?t = ms" "interval ?t = word_of_int intv" "oneshot ?t = one"
    by (simp_all add: new_timer_def timer_active_def)
  have "uint (ms + word_of_int intv) = uint ms + intv"
    using assms by (intro uint_add_no_wrap)
  then have "(ms + word_of_int intv < now) = (uint ms + intv < uint now)"
    by (simp add: word_less_def)
  then show ?thesis
    using slot_proc_fires [of ?t server now again] assms f by auto
qed

lemma device_bit: "bit (2 :: int) (nat SERVER_DEVICE) \<or> (SERVER_DEVICE :: int) = 32"
  by simp

theorem timer_interval_witness:
  "snd (timer_slot_proc 2 1001 1002 (new_timer 0 H_device_check_reset 1000 0 0 1 arg_zero (int 0 + 1))) \<noteq> None
   \<and> snd (timer_slot_proc 2 1000 1002 (new_timer 0 H_device_check_reset 1000 0 0 1 arg_zero (int 0 + 1))) = None"
proof -
  have p: "(0 :: int) \<le> 1000" "uint (0 :: u32) + 1000 < 2 ^ 32" "(0 :: u32) \<le> 1001" "(0 :: u32) \<le> 1000"
    by simp_all
  show ?thesis
    unfolding timer_interval [OF device_bit p(1,2,3)] timer_interval [OF device_bit p(1,2,4)]
    by simp
qed

text \<open>
  A positive delay does not postpone the first firing: a timer registered at \<open>ms\<close> with
  delay \<open>d\<close> fires on every poll before \<open>ms + d\<close>.
\<close>

theorem timer_delay_fires_early:
  assumes "bit server (nat sender) \<or> sender = 32" "0 < d" "uint ms + d < 2 ^ 32"
    and "ms \<le> now" "uint now < uint ms + d"
  shows "snd (timer_slot_proc server now again (new_timer ms h intv d one sender arg (int i + 1)))
    = Some (timer_on_msg (new_timer ms h intv d one sender arg (int i + 1)))"
proof -
  let ?t = "new_timer ms h intv d one sender arg (int i + 1)"
  have f: "timer_active ?t" "t_sender ?t = sender" "tick ?t = ms + word_of_int d"
    using assms(2) by (simp_all add: new_timer_def timer_active_def)
  have "uint (ms + word_of_int d) = uint ms + d"
    using assms by (intro uint_add_no_wrap) auto
  then have "now < tick ?t" using assms(5) f by (simp add: word_less_def)
  then show ?thesis using slot_proc_fires [of ?t server now again] assms(1) f by simp
qed

theorem timer_delay_fires_early_witness:
  "snd (timer_slot_proc 2 1 1 (new_timer 0 H_device_check_reset 1000 5000 0 1 arg_zero (int 0 + 1))) \<noteq> None"
proof -
  have p: "(0 :: int) < 5000" "uint (0 :: u32) + 5000 < 2 ^ 32" "(0 :: u32) \<le> 1"
    "uint (1 :: u32) < uint (0 :: u32) + 5000"
    by simp_all
  show ?thesis unfolding timer_delay_fires_early [OF device_bit p] by simp
qed

end
