(* ===== verification/CStr.thy ===== *)
theory CStr
  imports CMisc
begin

text \<open>
  The C library's conversions between numbers and decimal text that the program uses
  (\<open>atoi\<close>, the \<open>%d\<close> and zero-padded \<open>%0wd\<close> of \<open>sprintf\<close>), and on top of them the date strings
  of \<open>common/time.c\<close>.
\<close>

section \<open>\<open>atoi\<close>\<close>

definition is_digit :: "char \<Rightarrow> bool" where
  "is_digit c = (48 \<le> (of_char c :: int) \<and> of_char c \<le> (57 :: int))"

definition is_space :: "char \<Rightarrow> bool" where
  "is_space c = ((of_char c :: int) = 32 \<or> (9 \<le> (of_char c :: int) \<and> (of_char c :: int) \<le> 13))"

fun atoi_digits :: "int \<Rightarrow> char list \<Rightarrow> int" where
  "atoi_digits acc [] = acc"
| "atoi_digits acc (c # cs) =
     (if is_digit c then atoi_digits (acc * 10 + (of_char c - 48)) cs else acc)"

definition atoi :: "char list \<Rightarrow> int" where
  "atoi s = (case dropWhile is_space s of
       [] \<Rightarrow> 0
     | c # cs \<Rightarrow> if c = CHR ''-'' then - atoi_digits 0 cs
                 else if c = CHR ''+'' then atoi_digits 0 cs
                 else atoi_digits 0 (c # cs))"

section \<open>Decimal text\<close>

definition digit_char :: "nat \<Rightarrow> char" where
  "digit_char d = char_of (48 + d)"

fun dec_string :: "nat \<Rightarrow> char list" where
  "dec_string n = (if n < 10 then [digit_char n]
     else dec_string (n div 10) @ [digit_char (n mod 10)])"

declare dec_string.simps [simp del]

text \<open>\<open>sprintf\<close> with \<open>%0wd\<close>; \<open>w = 0\<close> is \<open>%d\<close>.\<close>

definition sprintf_0d :: "nat \<Rightarrow> int \<Rightarrow> char list" where
  "sprintf_0d w i =
     (if i < 0
      then CHR ''-'' # replicate (w - 1 - length (dec_string (nat (- i)))) CHR ''0'' @ dec_string (nat (- i))
      else replicate (w - length (dec_string (nat i))) CHR ''0'' @ dec_string (nat i))"

text \<open>The \<open>w\<close> low decimal digits of a number, most significant first.\<close>

fun digits :: "nat \<Rightarrow> nat \<Rightarrow> char list" where
  "digits 0 n = []"
| "digits (Suc w) n = digits w (n div 10) @ [digit_char (n mod 10)]"

lemma length_digits [simp]: "length (digits w n) = w"
  by (induction w arbitrary: n) auto

lemma digits_0: "digits w 0 = replicate w CHR ''0''"
proof -
  have "digit_char 0 = CHR ''0''" by code_simp
  then show ?thesis by (induction w) (simp_all add: replicate_append_same)
qed

lemma pad_dec_string:
  "n < 10 ^ w \<Longrightarrow> 0 < w \<Longrightarrow> replicate (w - length (dec_string n)) CHR ''0'' @ dec_string n = digits w n"
proof (induction w arbitrary: n)
  case (Suc w)
  show ?case
  proof (cases "n < 10")
    case True
    then show ?thesis by (simp add: dec_string.simps [of n] digits_0)
  next
    case False
    then have w: "0 < w" "n div 10 < 10 ^ w" using Suc.prems by (cases w; auto)+
    have "dec_string n = dec_string (n div 10) @ [digit_char (n mod 10)]"
      using False by (subst dec_string.simps) simp
    then show ?thesis using Suc.IH [OF w(2,1)] by simp
  qed
qed simp

lemma sprintf_0d_digits:
  "0 \<le> i \<Longrightarrow> i < 10 ^ w \<Longrightarrow> 0 < w \<Longrightarrow> sprintf_0d w i = digits w (nat i)"
  using pad_dec_string [of "nat i" w] by (simp add: sprintf_0d_def nat_less_iff)

lemma digit_char_val: "d < 10 \<Longrightarrow> (of_char (digit_char d) :: int) = 48 + int d"
proof -
  assume "d < 10"
  then have "(of_char (digit_char d) :: nat) = 48 + d" by (simp add: digit_char_def of_char_of)
  then show ?thesis by (metis of_nat_add of_nat_numeral of_nat_of_char)
qed

lemma digit_char_digit: "d < 10 \<Longrightarrow> is_digit (digit_char d)"
  by (simp add: is_digit_def digit_char_val)

lemma digits_are_digits: "c \<in> set (digits w n) \<Longrightarrow> is_digit c"
  by (induction w arbitrary: n) (auto simp: digit_char_digit)

lemma atoi_digits_append:
  "list_all is_digit ds \<Longrightarrow> atoi_digits acc (ds @ cs) = atoi_digits (atoi_digits acc ds) cs"
  by (induction ds arbitrary: acc) auto

lemma atoi_digits_value:
  "n < 10 ^ w \<Longrightarrow> atoi_digits acc (digits w n) = acc * 10 ^ w + int n"
proof (induction w arbitrary: n)
  case (Suc w)
  have "list_all is_digit (digits w (n div 10))" by (auto simp: list_all_iff digits_are_digits)
  moreover have "n div 10 < 10 ^ w" using Suc.prems by auto
  moreover have "int n = int (n div 10) * 10 + int (n mod 10)" by (simp add: zdiv_int zmod_int)
  ultimately show ?case
    by (simp add: atoi_digits_append Suc.IH digit_char_digit digit_char_val algebra_simps)
qed simp

lemma digit_not_space: "is_digit c \<Longrightarrow> \<not> is_space c"
  by (simp add: is_digit_def is_space_def)

lemma digit_not_sign: "is_digit c \<Longrightarrow> c \<noteq> CHR ''-'' \<and> c \<noteq> CHR ''+''"
  by (auto simp: is_digit_def)

lemma atoi_of_digits:
  assumes "n < 10 ^ w" "0 < w" "cs = [] \<or> \<not> is_digit (hd cs)"
  shows "atoi (digits w n @ cs) = int n"
proof -
  obtain d ds where d: "digits w n = d # ds"
    using assms(2) by (cases "digits w n") (auto simp flip: length_0_conv)
  have all: "list_all is_digit (digits w n)" by (auto simp: list_all_iff digits_are_digits)
  then have "is_digit d" by (simp add: d)
  then have "atoi (digits w n @ cs) = atoi_digits 0 (digits w n @ cs)"
    by (simp add: atoi_def d digit_not_space digit_not_sign)
  also have "\<dots> = atoi_digits (int n) cs"
    using all assms(1) by (simp add: atoi_digits_append atoi_digits_value)
  also have "\<dots> = int n" using assms(3) by (cases cs) auto
  finally show ?thesis .
qed

section \<open>\<open>strstr\<close>\<close>

text \<open>The suffix that starts with the first occurrence.\<close>

fun strstr :: "char list \<Rightarrow> char list \<Rightarrow> char list option" where
  "strstr [] needle = (if needle = [] then Some [] else None)"
| "strstr (c # cs) needle =
     (if take (length needle) (c # cs) = needle then Some (c # cs) else strstr cs needle)"

lemma strstr_skip: "needle = n # ns \<Longrightarrow> n \<notin> set xs \<Longrightarrow> strstr (xs @ ys) needle = strstr ys needle"
  by (induction xs) auto

lemma strstr_none: "needle = n # ns \<Longrightarrow> n \<notin> set xs \<Longrightarrow> strstr xs needle = None"
  using strstr_skip [of needle n ns xs "[]"] by simp

section \<open>Dates\<close>

record tm =
  tm_year :: int
  tm_mon :: int
  tm_mday :: int
  tm_hour :: int
  tm_min :: int
  tm_sec :: int

text \<open>The text \<open>time_stamp_to_date\<close> and \<open>time_get_now_str\<close> print from the broken-down time.\<close>

definition date_string :: "tm \<Rightarrow> char list" where
  "date_string t = sprintf_0d 4 (tm_year t + 1900) @ sprintf_0d 2 (tm_mon t + 1) @
     sprintf_0d 2 (tm_mday t) @ sprintf_0d 2 (tm_hour t) @ sprintf_0d 2 (tm_min t) @
     sprintf_0d 2 (tm_sec t)"

definition time_stamp_to_date :: "(int \<Rightarrow> tm) \<Rightarrow> int \<Rightarrow> char list" where
  "time_stamp_to_date localtime stamp = date_string (localtime stamp)"

definition time_stamp_to_date_with_zone :: "(int \<Rightarrow> tm) \<Rightarrow> int \<Rightarrow> int \<Rightarrow> int \<Rightarrow> char list" where
  "time_stamp_to_date_with_zone localtime stamp standard_zone zone =
     (let zone = zone - standard_zone; stamp = stamp - zone * 360
      in date_string (localtime stamp))"

text \<open>
  The parsing half of \<open>time_date_to_stamp\<close>: each field goes through the scratch array \<open>temp\<close>,
  whose length is a parameter (the code's is 4).  \<open>None\<close> is an access out of bounds.
\<close>

definition parse_field :: "char list \<Rightarrow> char list \<Rightarrow> nat \<Rightarrow> nat \<Rightarrow> (int \<times> char list) option" where
  "parse_field temp date start len =
     map_option (\<lambda>(_, temp). (atoi temp, temp)) (misc_substr temp date start len)"

definition date_to_tm :: "nat \<Rightarrow> char list \<Rightarrow> tm option" where
  "date_to_tm temp_size date =
     Option.bind (parse_field (replicate temp_size CHR 0x00) date 0 4) (\<lambda>(year, temp).
     Option.bind (parse_field temp date 4 2) (\<lambda>(mon, temp).
     Option.bind (parse_field temp date 6 2) (\<lambda>(mday, temp).
     Option.bind (parse_field temp date 8 2) (\<lambda>(hour, temp).
     Option.bind (parse_field temp date 10 2) (\<lambda>(min, temp).
     Option.bind (parse_field temp date 12 2) (\<lambda>(sec, temp).
     Some \<lparr>tm_year = year - 1900, tm_mon = mon - 1, tm_mday = mday,
           tm_hour = hour, tm_min = min, tm_sec = sec\<rparr>))))))"

definition time_date_to_stamp :: "(tm \<Rightarrow> int) \<Rightarrow> char list \<Rightarrow> int option" where
  "time_date_to_stamp mktime date = map_option mktime (date_to_tm 4 date)"

definition time_date_to_stamp_with_zone ::
  "(tm \<Rightarrow> int) \<Rightarrow> char list \<Rightarrow> int \<Rightarrow> int \<Rightarrow> int option" where
  "time_date_to_stamp_with_zone mktime date standard_zone zone =
     map_option (\<lambda>t. mktime t + (zone - standard_zone) * 360) (date_to_tm 4 date)"

definition tm_printable :: "tm \<Rightarrow> bool" where
  "tm_printable t = (0 \<le> tm_year t + 1900 \<and> tm_year t + 1900 < 10000 \<and>
     0 \<le> tm_mon t + 1 \<and> tm_mon t + 1 < 100 \<and> 0 \<le> tm_mday t \<and> tm_mday t < 100 \<and>
     0 \<le> tm_hour t \<and> tm_hour t < 100 \<and> 0 \<le> tm_min t \<and> tm_min t < 100 \<and>
     0 \<le> tm_sec t \<and> tm_sec t < 100)"

lemma parse_field_digits:
  assumes "date = before @ digits len n @ after" "length before = start" "length temp > len"
    "n < 10 ^ len" "0 < len"
  shows "\<exists>temp'. parse_field temp date start len = Some (int n, temp') \<and> length temp' = length temp"
proof -
  have "misc_substr temp date start len =
      Some (len, digits len n @ CHR 0x00 # drop (Suc len) temp)"
  proof -
    have "substr_loop temp date start 0 len = Some (digits len n @ drop len temp)"
      using substr_loop_ok [of start 0 len date temp] assms by simp
    then show ?thesis
      using assms by (simp add: misc_substr_def array_set_def list_update_append
          upd_conv_take_nth_drop Cons_nth_drop_Suc [symmetric])
  qed
  moreover have "atoi (digits len n @ CHR 0x00 # drop (Suc len) temp) = int n"
    using assms by (intro atoi_of_digits) (auto simp: is_digit_def)
  ultimately show ?thesis using assms by (simp add: parse_field_def)
qed

text \<open>
  \<open>time_date_to_stamp\<close>, with or without a zone, writes one byte past its scratch array
  \<open>temp[4]\<close> on every input: the terminating zero of the four-digit year does not fit.
\<close>

theorem date_to_stamp_overflows:
  "time_date_to_stamp mktime date = None \<and> time_date_to_stamp_with_zone mktime date zone0 zone = None"
  by (simp add: time_date_to_stamp_def time_date_to_stamp_with_zone_def date_to_tm_def
      parse_field_def misc_substr_overflow)

text \<open>
  With a scratch array of five bytes or more the parser inverts the printer: the text
  of a broken-down time whose fields fit their widths is read back to the same fields.
\<close>

theorem date_roundtrip:
  assumes "tm_printable t" "5 \<le> temp_size"
  shows "length (date_string t) = 14 \<and> date_to_tm temp_size (date_string t @ rest) = Some t"
proof -
  let ?y = "nat (tm_year t + 1900)" and ?mo = "nat (tm_mon t + 1)" and ?d = "nat (tm_mday t)"
  let ?h = "nat (tm_hour t)" and ?mi = "nat (tm_min t)" and ?s = "nat (tm_sec t)"
  have str: "date_string t = digits 4 ?y @ digits 2 ?mo @ digits 2 ?d @ digits 2 ?h @ digits 2 ?mi @ digits 2 ?s"
    using assms(1) unfolding tm_printable_def date_string_def by (simp add: sprintf_0d_digits)
  have b: "?y < 10 ^ 4" "?mo < 10 ^ 2" "?d < 10 ^ 2" "?h < 10 ^ 2" "?mi < 10 ^ 2" "?s < 10 ^ 2"
    using assms(1) by (auto simp: tm_printable_def)
  let ?date = "date_string t @ rest"
  note pf = parse_field_digits [of ?date]
  obtain t1 where 1: "parse_field (replicate temp_size CHR 0x00) ?date 0 4 = Some (int ?y, t1)"
    "length t1 = temp_size"
    using pf [of "[]" 4 ?y "digits 2 ?mo @ digits 2 ?d @ digits 2 ?h @ digits 2 ?mi @ digits 2 ?s @ rest" 0
        "replicate temp_size CHR 0x00"] assms(2) b by (auto simp: str simp del: int_nat_eq)
  obtain t2 where 2: "parse_field t1 ?date 4 2 = Some (int ?mo, t2)" "length t2 = temp_size"
    using pf [of "digits 4 ?y" 2 ?mo "digits 2 ?d @ digits 2 ?h @ digits 2 ?mi @ digits 2 ?s @ rest" 4 t1]
      assms(2) 1 b by (auto simp: str simp del: int_nat_eq)
  obtain t3 where 3: "parse_field t2 ?date 6 2 = Some (int ?d, t3)" "length t3 = temp_size"
    using pf [of "digits 4 ?y @ digits 2 ?mo" 2 ?d "digits 2 ?h @ digits 2 ?mi @ digits 2 ?s @ rest" 6 t2]
      assms(2) 2 b by (auto simp: str simp del: int_nat_eq)
  obtain t4 where 4: "parse_field t3 ?date 8 2 = Some (int ?h, t4)" "length t4 = temp_size"
    using pf [of "digits 4 ?y @ digits 2 ?mo @ digits 2 ?d" 2 ?h "digits 2 ?mi @ digits 2 ?s @ rest" 8 t3]
      assms(2) 3 b by (auto simp: str simp del: int_nat_eq)
  obtain t5 where 5: "parse_field t4 ?date 10 2 = Some (int ?mi, t5)" "length t5 = temp_size"
    using pf [of "digits 4 ?y @ digits 2 ?mo @ digits 2 ?d @ digits 2 ?h" 2 ?mi "digits 2 ?s @ rest" 10 t4]
      assms(2) 4 b by (auto simp: str simp del: int_nat_eq)
  obtain t6 where 6: "parse_field t5 ?date 12 2 = Some (int ?s, t6)" "length t6 = temp_size"
    using pf [of "digits 4 ?y @ digits 2 ?mo @ digits 2 ?d @ digits 2 ?h @ digits 2 ?mi" 2 ?s rest 12 t5]
      assms(2) 5 b by (auto simp: str simp del: int_nat_eq)
  have "date_to_tm temp_size ?date = Some t"
    using assms(1) by (simp add: date_to_tm_def 1 2 3 4 5 6 tm_printable_def)
  then show ?thesis by (simp add: str)
qed

theorem date_roundtrip_witness:
  "date_to_tm 5 (date_string \<lparr>tm_year = 121, tm_mon = 0, tm_mday = 9, tm_hour = 23, tm_min = 5, tm_sec = 7\<rparr>)
   = Some \<lparr>tm_year = 121, tm_mon = 0, tm_mday = 9, tm_hour = 23, tm_min = 5, tm_sec = 7\<rparr>"
  using date_roundtrip [of "\<lparr>tm_year = 121, tm_mon = 0, tm_mday = 9, tm_hour = 23, tm_min = 5, tm_sec = 7\<rparr>"
      5 "[]"]
  by (simp add: tm_printable_def)

end
