(* ===== verification/Sleep.thy ===== *)
theory Sleep
  imports CStr
begin

text \<open>
  The sleep schedule of \<open>server/manager/sleep.c\<close>: its parser and its check against the time
  of day.  The schedule's text is \<open>HH:MM-HH:MM\<close>.  The parser copies it into the 16-byte array
  \<open>timestr\<close>; \<open>None\<close> is a copy past that array or a read of bytes that were never written.
\<close>

section \<open>The schedule\<close>

record scheduler_time_t =
  start_hour :: int
  start_min :: int
  start_sec :: int
  stop_hour :: int
  stop_min :: int
  stop_sec :: int

definition scheduler_zero :: scheduler_time_t where
  "scheduler_zero = \<lparr>start_hour = 0, start_min = 0, start_sec = 0, stop_hour = 0, stop_min = 0, stop_sec = 0\<rparr>"

definition two_at :: "char list \<Rightarrow> nat \<Rightarrow> char list" where
  "two_at s i = take 2 (drop i s)"

definition sleep_get_scheduler_time ::
  "char list \<Rightarrow> scheduler_time_t \<Rightarrow> int \<Rightarrow> (scheduler_time_t \<times> int) option" where
  "sleep_get_scheduler_time input st mode =
     (if length input > 0 then
        if length input > 16 \<or> length input < 11 then None
        else
          let sh = atoi (two_at input 0);
              sm = atoi (two_at input 3);
              eh = atoi (two_at input 6);
              em = atoi (two_at input 9)
          in Some
            (if sh = 0 \<and> sm = 0 \<and> eh = 0 \<and> em = 0 then (st, 0)
             else
               let st = st\<lparr>start_hour := sh, start_min := sm, start_sec := 0\<rparr> in
               if eh > sh then (st\<lparr>stop_hour := eh, stop_min := em, stop_sec := 0\<rparr>, 1)
               else if eh = sh then
                 if em > sm then (st\<lparr>stop_hour := eh, stop_min := em, stop_sec := 0\<rparr>, 1)
                 else if em = sm then (st\<lparr>stop_hour := eh, stop_min := em, stop_sec := 0\<rparr>, 0)
                 else (st\<lparr>stop_hour := 23, stop_min := 59, stop_sec := 0\<rparr>, 1)
               else (st\<lparr>stop_hour := 23, stop_min := 59, stop_sec := 0\<rparr>, 1))
      else Some (st, 0))"

definition sleep_check_scheduler_time :: "tm \<Rightarrow> scheduler_time_t \<Rightarrow> int \<Rightarrow> int" where
  "sleep_check_scheduler_time tv st mode =
     (if mode = 0 then 1
      else
        let start = start_hour st * 3600 + start_min st * 60 + start_sec st;
            stop = stop_hour st * 3600 + stop_min st * 60 + stop_sec st;
            now = tm_hour tv * 3600 + tm_min tv * 60 + tm_sec tv
        in if now \<ge> start \<and> now \<le> stop then 1
           else if now > stop then 2
           else 0)"

section \<open>What a schedule means\<close>

text \<open>A time of day as the configuration writes it.\<close>

definition hhmm :: "nat \<Rightarrow> nat \<Rightarrow> char list" where
  "hhmm h m = digits 2 h @ '':'' @ digits 2 m"

definition day_seconds :: "nat \<Rightarrow> nat \<Rightarrow> int" where
  "day_seconds h m = int h * 3600 + int m * 60"

definition tm_seconds :: "tm \<Rightarrow> int" where
  "tm_seconds tv = tm_hour tv * 3600 + tm_min tv * 60 + tm_sec tv"

lemma atoi_two: "n < 100 \<Longrightarrow> atoi (digits 2 n) = int n"
  using atoi_of_digits [of n 2 "[]"] by simp

lemma schedule_fields:
  assumes "sh < 100" "sm < 100" "eh < 100" "em < 100"
  shows "two_at (hhmm sh sm @ ''-'' @ hhmm eh em) 0 = digits 2 sh"
    "two_at (hhmm sh sm @ ''-'' @ hhmm eh em) 3 = digits 2 sm"
    "two_at (hhmm sh sm @ ''-'' @ hhmm eh em) 6 = digits 2 eh"
    "two_at (hhmm sh sm @ ''-'' @ hhmm eh em) 9 = digits 2 em"
    "length (hhmm sh sm @ ''-'' @ hhmm eh em) = 11"
  by (simp_all add: two_at_def hhmm_def)

text \<open>
  C36: A schedule written as \<open>HH:MM-HH:MM\<close> is read and checked as an interval of the day: equal
  bounds (and 00:00-00:00) mean always; a stop after the start means exactly that closed
  interval, with 2 answered behind it and 0 before it; a stop before the start is cut off at
  23:59:00, so the part of the night after midnight is outside the schedule.
\<close>

theorem schedule_window:
  assumes "sh < 24" "sm < 60" "eh < 24" "em < 60"
  shows "case sleep_get_scheduler_time (hhmm sh sm @ ''-'' @ hhmm eh em) st mode of
      None \<Rightarrow> False
    | Some (st', mode') \<Rightarrow> sleep_check_scheduler_time tv st' mode' =
        (let start = day_seconds sh sm; stop = day_seconds eh em;
             stop' = (if start < stop then stop else day_seconds 23 59)
         in if start = stop then 1
            else if start \<le> tm_seconds tv \<and> tm_seconds tv \<le> stop' then 1
            else if stop' < tm_seconds tv then 2 else 0)"
proof -
  have small: "sh < 100" "sm < 100" "eh < 100" "em < 100" using assms by auto
  have l1: "(day_seconds sh sm < day_seconds eh em) = (sh < eh \<or> (sh = eh \<and> sm < em))"
    using assms unfolding day_seconds_def by linarith
  have l2: "(day_seconds eh em < day_seconds sh sm) = (eh < sh \<or> (eh = sh \<and> em < sm))"
    using assms unfolding day_seconds_def by linarith
  have l3: "(day_seconds sh sm = day_seconds eh em) = (sh = eh \<and> sm = em)"
  proof
    assume "day_seconds sh sm = day_seconds eh em"
    then have "\<not> (sh < eh \<or> (sh = eh \<and> sm < em))" "\<not> (eh < sh \<or> (eh = sh \<and> em < sm))"
      using l1 l2 by simp_all
    then show "sh = eh \<and> sm = em" by auto
  qed simp
  note f = schedule_fields [OF small]
  have g: "sleep_get_scheduler_time (hhmm sh sm @ ''-'' @ hhmm eh em) st mode =
     Some (if sh = 0 \<and> sm = 0 \<and> eh = 0 \<and> em = 0 then (st, 0)
           else
             let st = st\<lparr>start_hour := int sh, start_min := int sm, start_sec := 0\<rparr> in
               if eh > sh then (st\<lparr>stop_hour := int eh, stop_min := int em, stop_sec := 0\<rparr>, 1)
               else if eh = sh then
                 if em > sm then (st\<lparr>stop_hour := int eh, stop_min := int em, stop_sec := 0\<rparr>, 1)
                 else if em = sm then (st\<lparr>stop_hour := int eh, stop_min := int em, stop_sec := 0\<rparr>, 0)
                 else (st\<lparr>stop_hour := 23, stop_min := 59, stop_sec := 0\<rparr>, 1)
               else (st\<lparr>stop_hour := 23, stop_min := 59, stop_sec := 0\<rparr>, 1))"
    unfolding sleep_get_scheduler_time_def f using small by (simp add: f atoi_two Let_def)
  consider "sh < eh" | "eh < sh" | "sh = eh" "sm < em" | "sh = eh" "em < sm" | "sh = eh" "sm = em"
    by linarith
  then show ?thesis
    unfolding g Let_def l1 l3
    by cases (simp_all add: sleep_check_scheduler_time_def day_seconds_def tm_seconds_def)
qed

theorem schedule_window_witness:
  "case sleep_get_scheduler_time (hhmm 22 30 @ ''-'' @ hhmm 6 0) scheduler_zero 0 of
      None \<Rightarrow> False
    | Some (st', mode') \<Rightarrow> sleep_check_scheduler_time
        \<lparr>tm_year = 121, tm_mon = 0, tm_mday = 1, tm_hour = 3, tm_min = 0, tm_sec = 0\<rparr> st' mode' = 0"
  using schedule_window [where sh = 22 and sm = 30 and eh = 6 and em = 0 and st = scheduler_zero and mode = 0
      and tv = "\<lparr>tm_year = 121, tm_mon = 0, tm_mday = 1, tm_hour = 3, tm_min = 0, tm_sec = 0\<rparr>"]
  by (simp add: day_seconds_def tm_seconds_def split: option.splits prod.splits)

end
