(* ===== verification/Manager.thy ===== *)
theory Manager
  imports Timer Sleep ServerInfo
begin

text \<open>
  The manager (\<open>server/manager/manager.c\<close>): the main thread's loop \<open>manager_proc\<close>, its five
  tasks, the message handler, the property requests, and the timer thread
  (\<open>manager_timer_func\<close>) that shares the timer table with it.

  What the manager calls and does not own is a field of \<open>mgr_env\<close>: whether a
  \<open>server_<name>_start\<close> succeeds, the millisecond clock, the local time of day, and the
  content of a variable the code may send without having assigned it.  \<open>saves\<close> counts the
  calls of \<open>config_set\<close>, \<open>cleans\<close> those of the cache-clean shell commands.  \<open>halted\<close> is the end
  of the process (\<open>exit(0)\<close>), \<open>fault\<close> a null or foreign pointer followed.
\<close>

section \<open>State\<close>

datatype mgr_task = TASK_NULL | TASK_SLEEP | TASK_DEEP_SLEEP | TASK_DEFAULT | TASK_TESTING | TASK_EXIT

abbreviation (input) "RUNNING_MODE_NONE \<equiv> 0 :: int"
abbreviation (input) "RUNNING_MODE_SLEEP \<equiv> 1 :: int"
abbreviation (input) "RUNNING_MODE_NORMAL \<equiv> 2 :: int"
abbreviation (input) "RUNNING_MODE_TESTING \<equiv> 3 :: int"
abbreviation (input) "RUNNING_MODE_DEEP_SLEEP \<equiv> 4 :: int"
abbreviation (input) "RUNNING_MODE_EXIT \<equiv> 5 :: int"

abbreviation (input) "MANAGER_PROPERTY_SLEEP \<equiv> 0 :: int"
abbreviation (input) "MANAGER_PROPERTY_TIMEZONE \<equiv> 5 :: int"

abbreviation (input) "THREAD_TIMER \<equiv> 0 :: nat"

record manager_config_t =
  running_mode :: int
  sleep_enable :: int
  cfg_sleep_start :: string
  cfg_sleep_stop :: string
  timezone :: int
  server_start :: int
  server_sleep :: int
  fail_restart :: int
  fail_restart_interval :: int
  cache_clean :: int
  msg_overrun :: int
  msg_buffer_size_normal :: int

text \<open>The values of \<open>server/manager/config.c\<close>.\<close>

definition manager_config_default :: manager_config_t where
  "manager_config_default = \<lparr>running_mode = RUNNING_MODE_NORMAL, sleep_enable = 0,
     cfg_sleep_start = ''00:00'', cfg_sleep_stop = ''00:00'', timezone = 80,
     server_start = 254, server_sleep = 254, fail_restart = 1, fail_restart_interval = 3,
     cache_clean = 1, msg_overrun = 1, msg_buffer_size_normal = 16\<rparr>"

record mgr_env =
  start_ok :: "int \<Rightarrow> bool"
  clock_ms :: u32
  local_time :: tm
  unset_temp :: int

record mgr =
  info :: "mgr_task server_info_t"
  config :: manager_config_t
  ttable :: timer_table
  bus :: bus
  scheduler :: scheduler_time_t
  sched_mode :: int
  sched_enable :: int
  timer_thread :: bool
  waiting :: bool
  halted :: bool
  fault :: bool
  saves :: nat
  cleans :: nat

abbreviation "set_status v s \<equiv> s\<lparr>info := (info s)\<lparr>status := v\<rparr>\<rparr>"
abbreviation "set_task f s \<equiv> s\<lparr>info := (info s)\<lparr>task := (task (info s))\<lparr>func := f\<rparr>\<rparr>\<rparr>"
abbreviation "set_mode v s \<equiv> s\<lparr>config := (config s)\<lparr>running_mode := v\<rparr>\<rparr>"
abbreviation "set_sleep_enable v s \<equiv> s\<lparr>config := (config s)\<lparr>sleep_enable := v\<rparr>\<rparr>"

definition send :: "int \<Rightarrow> msg \<Rightarrow> mgr \<Rightarrow> mgr" where
  "send receiver m s = s\<lparr>bus := snd (global_common_send_message (bus s) receiver m)\<rparr>"

text \<open>The request that registers one of the manager's own timers.\<close>

definition timer_request :: "int \<Rightarrow> int \<Rightarrow> int \<Rightarrow> handler_t \<Rightarrow> message_arg_t \<Rightarrow> msg" where
  "timer_request catv dogv duckv h pass = msg_init\<lparr>m_message := MSG_MANAGER_TIMER_ADD,
     m_sender := SERVER_MANAGER,
     m_arg_in := arg_zero\<lparr>cat := catv, dog := dogv, duck := duckv, handler := h\<rparr>, m_arg_pass := pass\<rparr>"

section \<open>Starting and stopping the servers\<close>

definition manager_server_start :: "mgr_env \<Rightarrow> int \<Rightarrow> mgr \<Rightarrow> mgr" where
  "manager_server_start env server s =
     (if server \<in> {SERVER_DEVICE, SERVER_GOKE, SERVER_VIDEO, SERVER_AUDIO, SERVER_ALIYUN,
                   SERVER_RECORDER, SERVER_PLAYER} \<and> start_ok env server
      then s\<lparr>info := (info s)\<lparr>thread_start := misc_set_bit (thread_start (info s)) (nat server)\<rparr>\<rparr>
      else s)"

definition exit_msg :: "int \<Rightarrow> msg" where
  "exit_msg catv = msg_init\<lparr>m_message := MSG_MANAGER_EXIT, m_sender := SERVER_MANAGER,
     m_receiver := SERVER_MANAGER, m_arg_in := arg_zero\<lparr>cat := catv\<rparr>\<rparr>"

definition manager_server_stop :: "int \<Rightarrow> mgr \<Rightarrow> mgr" where
  "manager_server_stop server s =
     send server (exit_msg (thread_start (info s) AND server_sleep (config s))) s"

text \<open>\<open>for(i=0;i<SERVER_BUTT;i++)\<close>\<close>

definition for_servers :: "(int \<Rightarrow> mgr \<Rightarrow> mgr) \<Rightarrow> mgr \<Rightarrow> mgr" where
  "for_servers f s = foldl (\<lambda>s i. f (int i) s) s [0..<8]"

definition server_is_on :: "int \<Rightarrow> int \<Rightarrow> bool" where
  "server_is_on bits i = (misc_get_bit bits (nat i) \<noteq> 0)"

definition send_running :: "msg \<Rightarrow> mgr \<Rightarrow> mgr" where
  "send_running m = for_servers (\<lambda>i s. if server_is_on (thread_start (info s)) i then send i m s else s)"

definition start_configured :: "mgr_env \<Rightarrow> mgr \<Rightarrow> mgr" where
  "start_configured env = for_servers (\<lambda>i s.
     if server_is_on (server_start (config s)) i \<and> misc_get_bit (thread_start (info s)) (nat i) \<noteq> 1
     then manager_server_start env i s else s)"

text \<open>Passing on who has quit, to the servers still running.\<close>

definition forward_exit_ack :: "mgr \<Rightarrow> mgr" where
  "forward_exit_ack s =
     (if m_message (task_msg (task (info s))) = MSG_MANAGER_EXIT_ACK
      then send_running (msg_init\<lparr>m_message := MSG_MANAGER_EXIT_ACK,
             m_sender := m_sender (task_msg (task (info s))),
             m_receiver := m_sender (task_msg (task (info s)))\<rparr>) s
      else s)"

section \<open>Sleeping and waking\<close>

definition manager_sleep :: "mgr \<Rightarrow> mgr" where
  "manager_sleep s = set_task TASK_SLEEP (set_status STATUS_NONE s)"

definition manager_deep_sleep :: "mgr \<Rightarrow> mgr" where
  "manager_deep_sleep s = set_sleep_enable 2 (set_mode RUNNING_MODE_DEEP_SLEEP
     (set_task TASK_DEEP_SLEEP (set_status STATUS_NONE s)))"

definition manager_send_wakeup :: "int \<Rightarrow> mgr \<Rightarrow> mgr" where
  "manager_send_wakeup server = send server (msg_init\<lparr>m_message := MSG_MANAGER_WAKEUP,
     m_sender := SERVER_MANAGER, m_receiver := SERVER_MANAGER\<rparr>)"

definition manager_wakeup :: "mgr \<Rightarrow> mgr" where
  "manager_wakeup s = manager_send_wakeup SERVER_ALIYUN (set_task TASK_TESTING (set_status STATUS_NONE s))"

definition sleep_check_scheduler :: "mgr_env \<Rightarrow> mgr \<Rightarrow> mgr" where
  "sleep_check_scheduler env s =
     (if sched_enable s = 2 then
        if sleep_check_scheduler_time (local_time env) (scheduler s) (sched_mode s) = 1
        then manager_deep_sleep s else manager_wakeup s
      else s)"

definition sleep_scheduler_init :: "int \<Rightarrow> string \<Rightarrow> string \<Rightarrow> mgr \<Rightarrow> mgr" where
  "sleep_scheduler_init n start stop s =
     (if length start + length stop + 1 \<ge> 64 then s\<lparr>fault := True\<rparr>
      else case sleep_get_scheduler_time (start @ ''-'' @ stop) (scheduler s) (sched_mode s) of
         None \<Rightarrow> s\<lparr>fault := True\<rparr>
       | Some (st, mode) \<Rightarrow> s\<lparr>scheduler := st, sched_mode := mode, sched_enable := n\<rparr>)"

definition sleep_init :: "int \<Rightarrow> string \<Rightarrow> string \<Rightarrow> mgr \<Rightarrow> mgr" where
  "sleep_init n start stop s =
     (let s = sleep_scheduler_init n start stop s; s = s\<lparr>sched_enable := n\<rparr>
      in send SERVER_MANAGER (timer_request (60 * 1000) 0 0 H_sleep_check_scheduler arg_zero) s)"

definition sleep_release :: "mgr \<Rightarrow> mgr" where
  "sleep_release s =
     (send SERVER_MANAGER (msg_init\<lparr>m_message := MSG_MANAGER_TIMER_REMOVE,
        m_sender := SERVER_MANAGER, m_receiver := SERVER_MANAGER,
        m_arg_in := arg_zero\<lparr>handler := H_sleep_check_scheduler\<rparr>\<rparr>) s)\<lparr>scheduler := scheduler_zero\<rparr>"

section \<open>The timers' callbacks\<close>

definition manager_routine_proc :: "mgr \<Rightarrow> mgr" where
  "manager_routine_proc s = (if cache_clean (config s) \<noteq> 0 then s\<lparr>cleans := cleans s + 1\<rparr> else s)"

definition manager_routine_init :: "mgr \<Rightarrow> mgr" where
  "manager_routine_init = send SERVER_MANAGER (timer_request (60 * 1000) 0 0 H_manager_routine_proc arg_zero)"

definition test_func :: "mgr \<Rightarrow> mgr" where
  "test_func s = (if func (task (info s)) = TASK_TESTING then set_status STATUS_STOP s else s)"

definition manager_kill_all :: "mgr \<Rightarrow> mgr" where
  "manager_kill_all s = s\<lparr>halted := True\<rparr>"

definition manager_delayed_start :: "mgr_env \<Rightarrow> message_arg_t \<Rightarrow> mgr \<Rightarrow> mgr" where
  "manager_delayed_start env arg = manager_server_start env (cat arg)"

text \<open>The call through \<open>arg_in.handler\<close>.  Only the manager's own callbacks can be called.\<close>

definition call_handler :: "mgr_env \<Rightarrow> handler_t \<Rightarrow> message_arg_t \<Rightarrow> mgr \<Rightarrow> mgr" where
  "call_handler env h arg s =
     (case h of
        H_sleep_check_scheduler \<Rightarrow> sleep_check_scheduler env s
      | H_manager_routine_proc \<Rightarrow> manager_routine_proc s
      | H_manager_delayed_start \<Rightarrow> manager_delayed_start env arg s
      | H_manager_kill_all \<Rightarrow> manager_kill_all s
      | H_test_func \<Rightarrow> test_func s
      | _ \<Rightarrow> s\<lparr>fault := True\<rparr>)"

section \<open>Properties\<close>

fun payload_int :: "payload option \<Rightarrow> int option" where
  "payload_int (Some (P_int i)) = Some i"
| "payload_int _ = None"

definition reply_to :: "msg \<Rightarrow> msg" where
  "reply_to m = msg_init\<lparr>m_arg_pass := m_arg_pass m, m_message := m_message m OR 0x1000,
     m_sender := SERVER_MANAGER, m_receiver := SERVER_MANAGER,
     m_arg_in := arg_zero\<lparr>cat := cat (m_arg_in m)\<rparr>\<rparr>"

definition manager_get_property :: "mgr_env \<Rightarrow> msg \<Rightarrow> mgr \<Rightarrow> mgr" where
  "manager_get_property env m s =
     (let reply = reply_to m;
          enable = sleep_enable (config s);
          reply = (if cat (m_arg_in m) = MANAGER_PROPERTY_SLEEP then
                     reply\<lparr>m_arg := Some (P_int (if enable = 0 then 1 else if enable = 1 then 0
                                               else if enable = 2 then 2 else unset_temp env)),
                           m_arg_size := 4\<rparr>
                   else reply)
      in send (m_receiver m) reply s)"

definition manager_set_property :: "msg \<Rightarrow> mgr \<Rightarrow> mgr" where
  "manager_set_property m s =
     (let reply = reply_to m in
      if cat (m_arg_in m) = MANAGER_PROPERTY_SLEEP then
        (case payload_int (m_arg m) of
           None \<Rightarrow> s\<lparr>fault := True\<rparr>
         | Some temp \<Rightarrow>
             let enable = sleep_enable (config s);
                 reply = reply\<lparr>m_arg := Some (P_int temp), m_arg_size := 4\<rparr>;
                 done_reply = reply\<lparr>m_arg_in := (m_arg_in reply)\<lparr>wolf := 1\<rparr>\<rparr> in
             if (temp = 1 \<and> enable = 0) \<or> (temp = 0 \<and> enable = 1) \<or> (temp = 2 \<and> enable = 2)
             then send (m_receiver m) reply s
             else if temp = 1 \<and> status (info s) = STATUS_RUN then
               let s = set_sleep_enable 0 (set_mode RUNNING_MODE_NORMAL s);
                   s = s\<lparr>saves := saves s + 1\<rparr>;
                   s = manager_wakeup s
               in send (m_receiver m) done_reply s
             else if temp = 0 \<and> status (info s) = STATUS_RUN then
               let s = set_sleep_enable 1 (set_mode RUNNING_MODE_SLEEP s);
                   s = s\<lparr>saves := saves s + 1\<rparr>;
                   s = manager_sleep s
               in send (m_receiver m) done_reply s
             else send (m_receiver m) reply s)
      else if cat (m_arg_in m) = MANAGER_PROPERTY_TIMEZONE then
        (let s = (if cat (m_arg_in m) \<noteq> timezone (config s)
                  then s\<lparr>config := (config s)\<lparr>timezone := cat (m_arg_in m)\<rparr>, saves := saves s + 1\<rparr>
                  else s)
         in send (m_receiver m) reply s)
      else send (m_receiver m) reply s)"

section \<open>The message handler\<close>

definition is_sigint :: "int \<Rightarrow> bool" where
  "is_sigint m = (m \<in> {MSG_MANAGER_SIGINT, MSG_ALIYUN_SIGINT, MSG_GOKE_SIGINT, MSG_DEVICE_SIGINT,
     MSG_VIDEO_SIGINT, MSG_AUDIO_SIGINT, MSG_RECORDER_SIGINT, MSG_PLAYER_SIGINT})"

definition handle_message :: "mgr_env \<Rightarrow> msg \<Rightarrow> mgr \<Rightarrow> mgr" where
  "handle_message env m s =
     (if is_sigint (m_message m) then
        if func (task (info s)) \<noteq> TASK_EXIT
        then set_mode RUNNING_MODE_EXIT (set_status EXIT_INIT (set_task TASK_EXIT s))
        else s
      else if m_message m = MSG_MANAGER_EXIT_ACK then
        (let s = s\<lparr>info := (info s)\<lparr>thread_start := misc_clear_bit (thread_start (info s)) (nat (m_sender m))\<rparr>\<rparr>
         in if running_mode (config s) = RUNNING_MODE_NORMAL \<and> fail_restart (config s) \<noteq> 0
            then send SERVER_MANAGER (timer_request (fail_restart_interval (config s) * 1000) 0 1
                   H_manager_delayed_start (arg_zero\<lparr>cat := m_sender m\<rparr>)) s
            else s)
      else if m_message m = MSG_MANAGER_TIMER_ADD then
        s\<lparr>ttable := snd (timer_add (clock_ms env) (handler (m_arg_in m)) (cat (m_arg_in m))
              (dog (m_arg_in m)) (duck (m_arg_in m)) (m_sender m) (m_arg_pass m) (ttable s))\<rparr>
      else if m_message m = MSG_MANAGER_TIMER_ON then
        call_handler env (handler (m_arg_in m)) (m_arg_pass m) s
      else if m_message m = MSG_MANAGER_TIMER_REMOVE then
        s\<lparr>ttable := snd (timer_remove (handler (m_arg_in m)) (ttable s))\<rparr>
      else if m_message m = MSG_MANAGER_PROPERTY_GET then manager_get_property env m s
      else if m_message m = MSG_MANAGER_PROPERTY_SET then manager_set_property m s
      else s)"

text \<open>The part of \<open>server_message_proc\<close> behind the wait.\<close>

definition pop_and_handle :: "mgr_env \<Rightarrow> mgr \<Rightarrow> mgr" where
  "pop_and_handle env s =
     (if msg_lock (info s) \<noteq> 0 then s
      else case msg_buffer_pop (bus s SERVER_MANAGER) msg_init of (ret, m, q) \<Rightarrow>
        let s = s\<lparr>bus := (bus s)(SERVER_MANAGER := q)\<rparr> in
        if ret = 1 then s
        else handle_message env m
               (s\<lparr>info := (info s)\<lparr>task := (task (info s))\<lparr>task_msg := m\<rparr>\<rparr>\<rparr>))"

definition queue_empty :: "mgr \<Rightarrow> bool" where
  "queue_empty s = (b_head (bus s SERVER_MANAGER) = b_tail (bus s SERVER_MANAGER))"

definition server_message_proc :: "mgr_env \<Rightarrow> mgr \<Rightarrow> mgr" where
  "server_message_proc env s =
     (if queue_empty s \<and> status (info s) = old_status (info s)
      then s\<lparr>waiting := True\<rparr>
      else pop_and_handle env s)"

section \<open>The tasks\<close>

definition asleep_set :: "mgr \<Rightarrow> int" where
  "asleep_set s = (NOT (server_sleep (config s))) AND 0x7FFF"

definition task_sleep :: "mgr \<Rightarrow> mgr" where
  "task_sleep s =
     (if status (info s) = STATUS_NONE then set_status STATUS_WAIT s
      else if status (info s) = STATUS_WAIT then set_status STATUS_SETUP s
      else if status (info s) = STATUS_SETUP then
        set_status STATUS_IDLE (for_servers (\<lambda>i s.
          if server_is_on (thread_start (info s)) i \<and> server_is_on (server_sleep (config s)) i
             \<and> i \<noteq> SERVER_ALIYUN
          then manager_server_stop i s else s) s)
      else if status (info s) = STATUS_IDLE then
        if thread_start (info s) = asleep_set s then set_status STATUS_START s
        else forward_exit_ack s
      else if status (info s) = STATUS_START then set_status STATUS_RUN s
      else s)"

definition task_deep_sleep :: "mgr \<Rightarrow> mgr" where
  "task_deep_sleep s =
     (if status (info s) = STATUS_NONE then set_status STATUS_WAIT s
      else if status (info s) = STATUS_WAIT then set_status STATUS_SETUP s
      else if status (info s) = STATUS_SETUP then
        set_status STATUS_IDLE (for_servers (\<lambda>i s.
          if server_is_on (thread_start (info s)) i then manager_server_stop i s else s) s)
      else if status (info s) = STATUS_IDLE then
        if thread_start (info s) = 0 then set_status STATUS_START s
        else forward_exit_ack s
      else if status (info s) = STATUS_START then set_status STATUS_RUN s
      else s)"

definition enter_exit :: "mgr \<Rightarrow> mgr" where
  "enter_exit s = set_mode RUNNING_MODE_EXIT (set_status EXIT_INIT (set_task TASK_EXIT s))"

definition task_default :: "mgr_env \<Rightarrow> mgr \<Rightarrow> mgr" where
  "task_default env s =
     (if status (info s) = STATUS_NONE then set_status STATUS_WAIT s
      else if status (info s) = STATUS_WAIT then set_status STATUS_SETUP s
      else if status (info s) = STATUS_SETUP then set_status STATUS_IDLE (start_configured env s)
      else if status (info s) = STATUS_IDLE then set_status STATUS_START s
      else if status (info s) = STATUS_START then set_status STATUS_RUN s
      else if status (info s) = STATUS_ERROR then enter_exit s
      else s)"

definition task_testing :: "mgr_env \<Rightarrow> mgr \<Rightarrow> mgr" where
  "task_testing env s =
     (if status (info s) = STATUS_NONE then set_status STATUS_WAIT s
      else if status (info s) = STATUS_WAIT then set_status STATUS_SETUP s
      else if status (info s) = STATUS_SETUP then set_status STATUS_IDLE (start_configured env s)
      else if status (info s) = STATUS_IDLE then set_status STATUS_START s
      else if status (info s) = STATUS_START then
        set_status STATUS_RUN (send SERVER_MANAGER (timer_request (1000 * 20) 0 1 H_test_func arg_zero) s)
      else if status (info s) = STATUS_STOP then
        set_status STATUS_RESTART (for_servers (\<lambda>i s.
          if server_is_on (thread_start (info s)) i \<and> server_is_on (server_sleep (config s)) i
          then manager_server_stop i s else s) s)
      else if status (info s) = STATUS_RESTART then
        if thread_start (info s) = asleep_set s then set_status STATUS_NONE s
        else forward_exit_ack s
      else if status (info s) = STATUS_ERROR then enter_exit s
      else s)"

definition server_release_2 :: "mgr \<Rightarrow> mgr" where
  "server_release_2 s =
     (let s = sleep_release s
      in s\<lparr>bus := (bus s)(SERVER_MANAGER := msg_buffer_release (bus s SERVER_MANAGER))\<rparr>)"

definition server_release_3 :: "mgr \<Rightarrow> mgr" where
  "server_release_3 s = s\<lparr>info := info_zero TASK_NULL\<rparr>"

definition task_exit :: "mgr \<Rightarrow> mgr" where
  "task_exit s =
     (if status (info s) = EXIT_INIT then
        set_status EXIT_SERVER (send_running (exit_msg (thread_start (info s))) s)
      else if status (info s) = EXIT_SERVER then
        if thread_start (info s) = 0 then set_status EXIT_STAGE1 s
        else forward_exit_ack s
      else if status (info s) = EXIT_STAGE1 then set_status EXIT_THREAD s
      else if status (info s) = EXIT_THREAD then
        (let s = s\<lparr>info := (info s)\<lparr>thread_exit := thread_start (info s)\<rparr>\<rparr>
         in if thread_start (info s) = 0 then set_status EXIT_STAGE2 s else s)
      else if status (info s) = EXIT_STAGE2 then set_status EXIT_FINISH (server_release_2 s)
      else if status (info s) = EXIT_FINISH then
        (let s = (if status2 (info s) \<noteq> 0 then
                    set_mode RUNNING_MODE_NORMAL (set_task TASK_DEFAULT
                      (s\<lparr>info := (info s)\<lparr>status2 := 0, msg_lock := 0\<rparr>\<rparr>))
                  else s\<lparr>info := (info s)\<lparr>exit_flag := 1\<rparr>\<rparr>)
         in set_status STATUS_NONE s)
      else s)"

definition run_task :: "mgr_env \<Rightarrow> mgr \<Rightarrow> mgr" where
  "run_task env s =
     (case func (task (info s)) of
        TASK_NULL \<Rightarrow> s\<lparr>fault := True\<rparr>
      | TASK_SLEEP \<Rightarrow> task_sleep s
      | TASK_DEEP_SLEEP \<Rightarrow> task_deep_sleep s
      | TASK_DEFAULT \<Rightarrow> task_default env s
      | TASK_TESTING \<Rightarrow> task_testing env s
      | TASK_EXIT \<Rightarrow> task_exit s)"

section \<open>The loops\<close>

text \<open>
  One round of the main loop, or, while it waits for a message, the rest of the round that
  is waiting: nothing happens until the queue holds a message.
\<close>

definition manager_proc :: "mgr_env \<Rightarrow> mgr \<Rightarrow> mgr" where
  "manager_proc env s =
     (if halted s \<or> fault s then s
      else if waiting s then
        if queue_empty s then s else pop_and_handle env (s\<lparr>waiting := False\<rparr>)
      else if exit_flag (info s) = 0 then
        server_message_proc env (run_task env (s\<lparr>info := (info s)\<lparr>old_status := status (info s)\<rparr>\<rparr>))
      else (server_release_3 s)\<lparr>halted := True\<rparr>)"

text \<open>One round of the timer thread; \<open>clock\<close> are the readings for the 32 slots.\<close>

definition manager_timer_func :: "(nat \<Rightarrow> u32 \<times> u32) \<Rightarrow> mgr \<Rightarrow> mgr" where
  "manager_timer_func clock s =
     (if halted s \<or> \<not> timer_thread s then s
      else if exit_flag (info s) \<noteq> 0 \<or> misc_get_bit (thread_exit (info s)) THREAD_TIMER \<noteq> 0 then
        (let s = s\<lparr>ttable := timer_release (ttable s),
                   info := (info s)\<lparr>error := misc_clear_bit (error (info s)) THREAD_TIMER\<rparr>\<rparr>
         in s\<lparr>bus := global_common_send_dummy (bus s) SERVER_MANAGER, timer_thread := False\<rparr>)
      else case timer_proc (thread_start (info s)) clock (ttable s, bus s) of
        (tt, b) \<Rightarrow> s\<lparr>ttable := tt, bus := b\<rparr>)"

text \<open>\<open>manager_init\<close>; \<open>created\<close> says that the timer thread could be created.\<close>

definition manager_init :: "bool \<Rightarrow> bool \<Rightarrow> mgr \<Rightarrow> mgr" where
  "manager_init created alloc_ok s =
     (let s = s\<lparr>ttable := timer_init (ttable s), info := info_zero TASK_NULL\<rparr> in
      if \<not> created then s
      else
        let s = s\<lparr>timer_thread := True,
                  info := (info s)\<lparr>error := misc_set_bit (error (info s)) THREAD_TIMER\<rparr>,
                  bus := (bus s)(SERVER_MANAGER := msg_buffer_init alloc_ok (bus s SERVER_MANAGER)
                           (msg_overrun (config s)) (msg_buffer_size_normal (config s)))\<rparr>;
            s = s\<lparr>info := (info s)\<lparr>init := 1\<rparr>\<rparr>;
            s = sleep_init (sleep_enable (config s)) (cfg_sleep_start (config s)) (cfg_sleep_stop (config s)) s;
            s = manager_routine_init s
        in if running_mode (config s) = RUNNING_MODE_SLEEP then set_task TASK_SLEEP s
           else if running_mode (config s) = RUNNING_MODE_NORMAL then set_task TASK_DEFAULT s
           else if running_mode (config s) = RUNNING_MODE_TESTING then set_task TASK_TESTING s
           else s)"

definition main_thread_termination :: "mgr \<Rightarrow> mgr" where
  "main_thread_termination = send SERVER_MANAGER (msg_init\<lparr>m_message := MSG_MANAGER_SIGINT,
     m_sender := SERVER_MANAGER, m_receiver := SERVER_MANAGER\<rparr>)"

end
