(* ===== verification/ManagerProps.thy ===== *)
theory ManagerProps
  imports Manager
begin

text \<open>
  What the manager guarantees, and what it does not: invariants over every interleaving of
  the main loop, the timer thread and messages from the other servers, the start-up and
  shut-down sequences, and the property requests.
\<close>

section \<open>What the operations leave alone\<close>

lemma for_servers_inv:
  assumes "\<And>i s. P s \<Longrightarrow> P (f i s)" "P s"
  shows "P (for_servers f s)"
proof -
  have "P (foldl (\<lambda>s i. f (int i) s) s is)" for "is"
    using assms by (induction "is" arbitrary: s) auto
  then show ?thesis by (simp add: for_servers_def)
qed

lemma send_fields [simp]:
  "info (send r m s) = info s" "config (send r m s) = config s" "ttable (send r m s) = ttable s"
  "waiting (send r m s) = waiting s" "halted (send r m s) = halted s" "fault (send r m s) = fault s"
  "timer_thread (send r m s) = timer_thread s" "saves (send r m s) = saves s"
  "sched_enable (send r m s) = sched_enable s" "sched_mode (send r m s) = sched_mode s"
  "scheduler (send r m s) = scheduler s" "cleans (send r m s) = cleans s"
  by (simp_all add: send_def)

lemma send_other_queue: "q \<noteq> r \<Longrightarrow> bus (send r m s) q = bus s q"
  by (simp add: send_def send_other)

text \<open>Everything but the servers' queues.\<close>

definition same_but_bus :: "mgr \<Rightarrow> mgr \<Rightarrow> bool" where
  "same_but_bus s s' = (s' = s\<lparr>bus := bus s'\<rparr>)"

lemma same_but_bus_refl [simp]: "same_but_bus s s"
  by (simp add: same_but_bus_def)

lemma same_but_bus_trans: "same_but_bus s t \<Longrightarrow> same_but_bus t u \<Longrightarrow> same_but_bus s u"
  unfolding same_but_bus_def by (metis mgr.surjective mgr.update_convs(4))

lemma same_but_bus_send [simp]: "same_but_bus s (send r m s)"
  by (simp add: same_but_bus_def send_def)

lemma same_but_bus_fields:
  assumes "same_but_bus s s'"
  shows "info s' = info s" "config s' = config s" "ttable s' = ttable s" "waiting s' = waiting s"
    "halted s' = halted s" "fault s' = fault s" "timer_thread s' = timer_thread s"
  using arg_cong [OF assms [unfolded same_but_bus_def], of info]
    arg_cong [OF assms [unfolded same_but_bus_def], of config]
    arg_cong [OF assms [unfolded same_but_bus_def], of ttable]
    arg_cong [OF assms [unfolded same_but_bus_def], of waiting]
    arg_cong [OF assms [unfolded same_but_bus_def], of halted]
    arg_cong [OF assms [unfolded same_but_bus_def], of fault]
    arg_cong [OF assms [unfolded same_but_bus_def], of timer_thread]
  by simp_all

lemma for_servers_sends:
  assumes "\<And>i s. f i s = s \<or> (\<exists>m. f i s = send i m s)"
  shows "same_but_bus s (for_servers f s)"
proof -
  have "same_but_bus s t \<Longrightarrow> same_but_bus s (f i t)" for i t
    using assms [of i t] same_but_bus_trans [of s t "f i t"] by auto
  then show ?thesis using for_servers_inv [of "same_but_bus s" f s] by simp
qed

lemma send_running_same: "same_but_bus s (send_running m s)"
  unfolding send_running_def by (rule for_servers_sends) auto

lemma forward_exit_ack_same: "same_but_bus s (forward_exit_ack s)"
  by (simp add: forward_exit_ack_def send_running_same)

text \<open>A broadcast to the running servers does not touch a queue whose server is not running.\<close>

lemma send_running_queue:
  assumes "\<not> bit (thread_start (info s)) q"
  shows "bus (send_running m s) (int q) = bus s (int q)"
proof -
  let ?P = "\<lambda>t. info t = info s \<and> bus t (int q) = bus s (int q)"
  let ?f = "\<lambda>i s. if server_is_on (thread_start (info s)) i then send i m s else s"
  have "?P t \<Longrightarrow> ?P (?f i t)" if "0 \<le> i" for i t
    using assms that by (cases "i = int q") (auto simp: server_is_on_def send_other_queue)
  then have "?P t \<Longrightarrow> ?P (foldl (\<lambda>s i. ?f (int i) s) t is)" for t "is"
    by (induction "is" arbitrary: t) auto
  then show ?thesis by (auto simp: send_running_def for_servers_def)
qed

lemma forward_exit_ack_queue:
  "\<not> bit (thread_start (info s)) q \<Longrightarrow> bus (forward_exit_ack s) (int q) = bus s (int q)"
  by (simp add: forward_exit_ack_def send_running_queue)

section \<open>Which servers run\<close>

text \<open>Only the seven servers below the manager are ever marked as running.\<close>

definition server_set :: "int \<Rightarrow> bool" where
  "server_set n = (\<forall>k. bit n k \<longrightarrow> 1 \<le> k \<and> k \<le> 7)"

abbreviation only_servers :: "mgr \<Rightarrow> bool" where
  "only_servers s \<equiv> server_set (thread_start (info s))"

lemma server_set_0 [simp]: "server_set 0"
  by (simp add: server_set_def)

lemma server_set_clear [simp]: "server_set n \<Longrightarrow> server_set (misc_clear_bit n k)"
  by (simp add: server_set_def)

lemma server_set_no_manager: "server_set n \<Longrightarrow> \<not> bit n 0"
  by (auto simp: server_set_def)

lemma only_servers_start [simp]: "only_servers s \<Longrightarrow> only_servers (manager_server_start env i s)"
  by (auto simp: manager_server_start_def server_set_def)

lemma stop_fields [simp]:
  "info (manager_server_stop i s) = info s" "config (manager_server_stop i s) = config s"
  "ttable (manager_server_stop i s) = ttable s" "waiting (manager_server_stop i s) = waiting s"
  "halted (manager_server_stop i s) = halted s" "fault (manager_server_stop i s) = fault s"
  "timer_thread (manager_server_stop i s) = timer_thread s"
  by (simp_all add: manager_server_stop_def)

lemma only_servers_configured [simp]: "only_servers s \<Longrightarrow> only_servers (start_configured env s)"
  unfolding start_configured_def by (rule for_servers_inv) auto

lemma broadcast_info [simp]:
  "info (send_running m s) = info s" "info (forward_exit_ack s) = info s"
  "config (send_running m s) = config s" "config (forward_exit_ack s) = config s"
  "halted (send_running m s) = halted s" "halted (forward_exit_ack s) = halted s"
  "fault (send_running m s) = fault s" "fault (forward_exit_ack s) = fault s"
  "waiting (send_running m s) = waiting s" "waiting (forward_exit_ack s) = waiting s"
  "ttable (send_running m s) = ttable s" "ttable (forward_exit_ack s) = ttable s"
  "timer_thread (send_running m s) = timer_thread s" "timer_thread (forward_exit_ack s) = timer_thread s"
  by (simp_all add: same_but_bus_fields [OF send_running_same] same_but_bus_fields [OF forward_exit_ack_same])

lemmas manager_small_defs =
  manager_sleep_def manager_deep_sleep_def manager_wakeup_def manager_send_wakeup_def
  sleep_check_scheduler_def manager_routine_proc_def manager_delayed_start_def manager_kill_all_def
  test_func_def enter_exit_def server_release_2_def sleep_release_def

lemma only_servers_call: "only_servers s \<Longrightarrow> only_servers (call_handler env h arg s)"
  by (cases h) (simp_all add: call_handler_def manager_small_defs)

lemma only_servers_property [simp]:
  "only_servers s \<Longrightarrow> only_servers (manager_set_property m s)"
  "only_servers s \<Longrightarrow> only_servers (manager_get_property env m s)"
  by (simp_all add: manager_set_property_def manager_get_property_def manager_small_defs Let_def
      split: option.split)

lemma only_servers_handle: "only_servers s \<Longrightarrow> only_servers (handle_message env m s)"
  by (simp add: handle_message_def Let_def only_servers_call)

lemma only_servers_stops:
  "only_servers s \<Longrightarrow> (\<And>i s. only_servers s \<Longrightarrow> only_servers (f i s)) \<Longrightarrow> only_servers (for_servers f s)"
  by (rule for_servers_inv [where P = only_servers])

lemma only_servers_tasks [simp]:
  "only_servers s \<Longrightarrow> only_servers (task_sleep s)"
  "only_servers s \<Longrightarrow> only_servers (task_deep_sleep s)"
  "only_servers s \<Longrightarrow> only_servers (task_default env s)"
  "only_servers s \<Longrightarrow> only_servers (task_testing env s)"
  "only_servers s \<Longrightarrow> only_servers (task_exit s)"
  by (auto simp add: task_sleep_def task_deep_sleep_def task_default_def task_testing_def task_exit_def
      manager_small_defs Let_def only_servers_stops)

lemma only_servers_run_task: "only_servers s \<Longrightarrow> only_servers (run_task env s)"
  by (simp add: run_task_def split: mgr_task.split)

section \<open>Every interleaving\<close>

definition mgr_blank :: "manager_config_t \<Rightarrow> bus \<Rightarrow> mgr" where
  "mgr_blank c b = \<lparr>info = info_zero TASK_NULL, config = c,
     ttable = \<lparr>timer_run = 0, timers = []\<rparr>, bus = b, scheduler = scheduler_zero, sched_mode = 0,
     sched_enable = 0, timer_thread = False, waiting = False, halted = False, fault = False,
     saves = 0, cleans = 0\<rparr>"

definition boot :: "manager_config_t \<Rightarrow> bus \<Rightarrow> mgr" where
  "boot c b = manager_init True True (mgr_blank c b)"

definition crashed :: "mgr \<Rightarrow> bool" where
  "crashed s = (fault s \<or> b_fault (bus s SERVER_MANAGER))"

text \<open>
  A step of the process as far as the manager sees it: a round of its main loop or of its
  timer thread, a message pushed to it by anyone, or anything that happens to the other
  servers' queues.  A crashed process takes no step.
\<close>

inductive mgr_step :: "mgr \<Rightarrow> mgr \<Rightarrow> bool" where
  main: "\<not> crashed s \<Longrightarrow> mgr_step s (manager_proc env s)"
| timer: "\<not> crashed s \<Longrightarrow> mgr_step s (manager_timer_func clock s)"
| receive: "\<not> crashed s \<Longrightarrow>
    mgr_step s (s\<lparr>bus := (bus s)(SERVER_MANAGER := snd (manager_message (bus s SERVER_MANAGER) m))\<rparr>)"
| others: "\<not> crashed s \<Longrightarrow> b SERVER_MANAGER = bus s SERVER_MANAGER \<Longrightarrow> mgr_step s (s\<lparr>bus := b\<rparr>)"

inductive mgr_reach :: "manager_config_t \<Rightarrow> mgr \<Rightarrow> bool" for c where
  start: "mgr_reach c (boot c b)"
| step: "mgr_reach c s \<Longrightarrow> mgr_step s s' \<Longrightarrow> mgr_reach c s'"

inductive_cases mgr_stepE: "mgr_step s s'"

lemma reach_invariant:
  assumes reach: "mgr_reach c s" and start: "\<And>b. P (boot c b)"
    and main: "\<And>s env. P s \<Longrightarrow> \<not> crashed s \<Longrightarrow> P (manager_proc env s)"
    and timer: "\<And>s clock. P s \<Longrightarrow> \<not> crashed s \<Longrightarrow> P (manager_timer_func clock s)"
    and queue: "\<And>s m. P s \<Longrightarrow> \<not> crashed s \<Longrightarrow>
      P (s\<lparr>bus := (bus s)(SERVER_MANAGER := snd (manager_message (bus s SERVER_MANAGER) m))\<rparr>)"
    and others: "\<And>s b. P s \<Longrightarrow> \<not> crashed s \<Longrightarrow> b SERVER_MANAGER = bus s SERVER_MANAGER \<Longrightarrow> P (s\<lparr>bus := b\<rparr>)"
  shows "P s"
  using reach
proof induction
  case (step s s')
  from step.hyps(2) show ?case
    by (cases rule: mgr_step.cases) (use step.IH main timer queue others in auto)
qed (rule start)

section \<open>Timer table and configuration\<close>

definition steady :: "manager_config_t \<Rightarrow> mgr \<Rightarrow> bool" where
  "steady c s = (only_servers s \<and> table_ok (ttable s) \<and> server_sleep (config s) = server_sleep c
     \<and> status2 (info s) = 0 \<and> server_set (thread_exit (info s)))"

lemma start_fields [simp]:
  "config (manager_server_start env i s) = config s" "ttable (manager_server_start env i s) = ttable s"
  "status2 (info (manager_server_start env i s)) = status2 (info s)"
  "thread_exit (info (manager_server_start env i s)) = thread_exit (info s)"
  "bus (manager_server_start env i s) = bus s"
  "halted (manager_server_start env i s) = halted s" "fault (manager_server_start env i s) = fault s"
  "func (task (info (manager_server_start env i s))) = func (task (info s))"
  "status (info (manager_server_start env i s)) = status (info s)"
  "exit_flag (info (manager_server_start env i s)) = exit_flag (info s)"
  "timer_thread (manager_server_start env i s) = timer_thread s"
  by (simp_all add: manager_server_start_def)

lemma steady_start [simp]: "steady c s \<Longrightarrow> steady c (manager_server_start env i s)"
  by (simp add: steady_def)

lemma steady_configured [simp]: "steady c s \<Longrightarrow> steady c (start_configured env s)"
  unfolding start_configured_def by (rule for_servers_inv) auto

lemma steady_stops:
  "steady c s \<Longrightarrow> (\<And>i s. steady c s \<Longrightarrow> steady c (f i s)) \<Longrightarrow> steady c (for_servers f s)"
  by (rule for_servers_inv [where P = "steady c"])

lemma steady_send [simp]: "steady c (send r m s) = steady c s"
  by (simp add: steady_def)

lemma steady_stop [simp]: "steady c (manager_server_stop i s) = steady c s"
  by (simp add: steady_def)

lemma steady_broadcast [simp]:
  "steady c (send_running m s) = steady c s" "steady c (forward_exit_ack s) = steady c s"
  by (simp_all add: steady_def)

lemma steady_updates [simp]:
  "steady c (set_status v s) = steady c s" "steady c (set_task f s) = steady c s"
  "steady c (s\<lparr>bus := b\<rparr>) = steady c s" "steady c (s\<lparr>waiting := w\<rparr>) = steady c s"
  "steady c (s\<lparr>halted := w\<rparr>) = steady c s" "steady c (s\<lparr>fault := w\<rparr>) = steady c s"
  "steady c (s\<lparr>saves := n\<rparr>) = steady c s" "steady c (s\<lparr>cleans := n\<rparr>) = steady c s"
  "steady c (s\<lparr>scheduler := sc\<rparr>) = steady c s" "steady c (s\<lparr>timer_thread := w\<rparr>) = steady c s"
  "steady c (set_mode v s) = steady c s" "steady c (set_sleep_enable v s) = steady c s"
  by (simp_all add: steady_def)

lemma steady_wake [simp]:
  "steady c (manager_sleep s) = steady c s" "steady c (manager_deep_sleep s) = steady c s"
  "steady c (manager_wakeup s) = steady c s" "steady c (enter_exit s) = steady c s"
  "steady c (server_release_2 s) = steady c s"
  by (simp_all add: steady_def manager_small_defs Let_def)

lemma steady_call: "steady c s \<Longrightarrow> steady c (call_handler env h arg s)"
  by (cases h) (simp_all add: call_handler_def sleep_check_scheduler_def manager_routine_proc_def
      manager_delayed_start_def manager_kill_all_def test_func_def)

lemma steady_property [simp]:
  "steady c s \<Longrightarrow> steady c (manager_set_property m s)"
  "steady c s \<Longrightarrow> steady c (manager_get_property env m s)"
  by (simp_all add: steady_def manager_set_property_def manager_get_property_def manager_small_defs Let_def
      split: option.split)

lemma steady_handle: "steady c s \<Longrightarrow> steady c (handle_message env m s)"
  by (simp add: handle_message_def Let_def steady_call)
     (simp add: steady_def timer_add_ok timer_remove_ok)

lemma steady_tasks [simp]:
  "steady c s \<Longrightarrow> steady c (task_sleep s)"
  "steady c s \<Longrightarrow> steady c (task_deep_sleep s)"
  "steady c s \<Longrightarrow> steady c (task_default env s)"
  "steady c s \<Longrightarrow> steady c (task_testing env s)"
  by (auto simp add: task_sleep_def task_deep_sleep_def task_default_def task_testing_def steady_stops)
     (simp add: steady_def)

lemma steady_exit [simp]: "steady c s \<Longrightarrow> steady c (task_exit s)"
  by (auto simp: task_exit_def Let_def) (auto simp: steady_def)

lemma steady_run_task: "steady c s \<Longrightarrow> steady c (run_task env s)"
  by (simp add: run_task_def split: mgr_task.split)

lemma steady_info: "steady c s \<Longrightarrow> thread_start x = thread_start (info s) \<Longrightarrow> status2 x = 0 \<Longrightarrow>
    thread_exit x = thread_exit (info s) \<Longrightarrow> steady c (s\<lparr>info := x\<rparr>)"
  by (simp add: steady_def)

lemma steady_pop: "steady c s \<Longrightarrow> steady c (pop_and_handle env s)"
  by (auto simp: pop_and_handle_def Let_def split: prod.split intro!: steady_handle steady_info)
     (auto simp: steady_def)

lemma steady_proc: "steady c s \<Longrightarrow> steady c (manager_proc env s)"
proof -
  assume s: "steady c s"
  then have s2: "status2 (info s) = 0" by (simp add: steady_def)
  have "steady c (run_task env (s\<lparr>info := (info s)\<lparr>old_status := status (info s)\<rparr>\<rparr>))"
    using s s2 by (intro steady_run_task steady_info) auto
  then have "steady c (server_message_proc env (run_task env (s\<lparr>info := (info s)\<lparr>old_status := status (info s)\<rparr>\<rparr>)))"
    by (simp add: server_message_proc_def steady_pop)
  moreover have "steady c (server_release_3 s)"
    using s by (simp add: steady_def server_release_3_def info_zero_def)
  ultimately show ?thesis using s by (simp add: manager_proc_def steady_pop)
qed

lemma steady_timer: "steady c s \<Longrightarrow> steady c (manager_timer_func clock s)"
  using timer_proc_ok [of "ttable s" "thread_start (info s)" clock "bus s"]
  by (auto simp: manager_timer_func_def Let_def steady_def timer_release_ok split: prod.split)

lemma steady_sleep_init: "steady c s \<Longrightarrow> steady c (sleep_init n start stop s)"
  by (simp add: sleep_init_def sleep_scheduler_init_def Let_def split: option.split)
     (simp add: steady_def)

lemma steady_init:
  assumes "steady c (s\<lparr>ttable := timer_init (ttable s), info := info_zero TASK_NULL\<rparr>)"
  shows "steady c (manager_init True alloc_ok s)"
  unfolding manager_init_def
  apply (rule let_inv [where P = "steady c"])
   apply (rule assms)
  apply (simp only: not_True_eq_False if_False)
  apply (rule let_inv [where P = "steady c"], simp add: steady_def)
  apply (rule let_inv [where P = "steady c"], simp add: steady_def)
  apply (rule let_inv [where P = "steady c"], erule steady_sleep_init)
  apply (rule let_inv [where P = "steady c"], simp add: manager_routine_init_def)
  apply simp
  done

lemma steady_boot: "steady c (boot c b)"
  unfolding boot_def
  by (rule steady_init) (simp add: mgr_blank_def steady_def info_zero_def timer_init_ok)

lemma reach_steady: "mgr_reach c s \<Longrightarrow> steady c s"
  by (erule reach_invariant) (simp_all add: steady_boot steady_proc steady_timer)

section \<open>The manager's own timers\<close>

lemma send_fired_manager:
  assumes "\<And>i m. i \<in> set is \<Longrightarrow> fired i = Some m \<Longrightarrow> t_sender (timers st ! i) \<noteq> SERVER_MANAGER"
  shows "foldl (send_fired st fired) b is SERVER_MANAGER = b SERVER_MANAGER"
  using assms
proof (induction "is" arbitrary: b)
  case (Cons i "is")
  have "send_fired st fired b i SERVER_MANAGER = b SERVER_MANAGER"
    using Cons.prems [of i] by (auto simp: send_fired_def send_other split: option.split)
  then show ?case using Cons by auto
qed simp

text \<open>
  In every reachable state a round of the timer thread removes all timers of the manager
  itself without sending a message to the manager: the code takes the manager for a server
  that is gone, since its bit is never set in \<open>thread_start\<close>.  The sleep schedule, the cache
  cleaning, the test timer and the delayed restart of a failed server never run from it.
\<close>

theorem own_timers_never_fire:
  assumes "mgr_reach c s" "exit_flag (info s) = 0" "\<not> halted s"
  shows "bus (manager_timer_func clock s) SERVER_MANAGER = bus s SERVER_MANAGER
    \<and> (timer_thread s \<longrightarrow> list_all (\<lambda>t. timer_active t \<longrightarrow> t_sender t \<noteq> SERVER_MANAGER)
         (timers (ttable (manager_timer_func clock s))))"
proof (cases "timer_thread s \<and> misc_get_bit (thread_exit (info s)) THREAD_TIMER = 0")
  case True
  let ?st = "ttable s" and ?srv = "thread_start (info s)"
  have st: "steady c s" using assms(1) by (rule reach_steady)
  then have nob: "\<not> bit ?srv 0" and len: "length (timers ?st) = TIMER_NUMBER"
    by (auto simp: steady_def server_set_no_manager table_ok_def)
  have gone: "polled ?srv clock ?st i = (timer_zero, None)"
    if "timer_active (timers ?st ! i)" "t_sender (timers ?st ! i) = SERVER_MANAGER" for i
    using slot_proc_gone [OF that(1)] that(2) nob by (simp add: polled_def)
  have "foldl (send_fired ?st (\<lambda>i. snd (polled ?srv clock ?st i))) (bus s) [0..<TIMER_NUMBER] SERVER_MANAGER
      = bus s SERVER_MANAGER"
  proof (rule send_fired_manager)
    fix i m assume "snd (polled ?srv clock ?st i) = Some m"
    then show "t_sender (timers ?st ! i) \<noteq> SERVER_MANAGER"
      using gone [of i] by (auto simp: polled_def timer_slot_proc_def timer_active_def split: if_splits)
  qed
  moreover have "\<not> timer_active (fst (polled ?srv clock ?st i)) \<or> t_sender (fst (polled ?srv clock ?st i)) \<noteq> SERVER_MANAGER" for i
  proof (cases "timer_active (timers ?st ! i)")
    case True
    then show ?thesis using gone [of i] nob by (auto simp: polled_def timer_slot_proc_def)
  next
    case False
    then show ?thesis by (simp add: polled_def timer_slot_proc_def timer_active_def)
  qed
  ultimately show ?thesis
    using assms True
    by (simp add: manager_timer_func_def timer_proc_eq [OF len] list_all_iff del: upt_rec_numeral)
next
  case False
  have "\<not> bit (thread_exit (info s)) 0"
    using reach_steady [OF assms(1)] by (simp add: steady_def server_set_no_manager)
  with False show ?thesis using assms by (auto simp: manager_timer_func_def)
qed

lemma boot_running: "exit_flag (info (boot c b)) = 0 \<and> \<not> halted (boot c b)"
proof -
  let ?P = "\<lambda>s. exit_flag (info s) = 0 \<and> \<not> halted s"
  have sl: "?P s \<Longrightarrow> ?P (sleep_init n a z s)" for s n a z
    by (simp add: sleep_init_def sleep_scheduler_init_def Let_def split: option.split)
  show ?thesis
    unfolding boot_def manager_init_def
    apply (rule let_inv [where P = ?P], simp add: mgr_blank_def info_zero_def)
    apply (simp only: not_True_eq_False if_False)
    apply (rule let_inv [where P = ?P], simp)
    apply (rule let_inv [where P = ?P], simp)
    apply (rule let_inv [where P = ?P], erule sl)
    apply (rule let_inv [where P = ?P], simp add: manager_routine_init_def)
    apply simp
    done
qed

definition clock0 :: "nat \<Rightarrow> u32 \<times> u32" where
  "clock0 i = (0, 0)"

definition env0 :: mgr_env where
  "env0 = \<lparr>start_ok = (\<lambda>_. True), clock_ms = 0,
     local_time = \<lparr>tm_year = 121, tm_mon = 0, tm_mday = 1, tm_hour = 3, tm_min = 0, tm_sec = 0\<rparr>,
     unset_temp = 0\<rparr>"

theorem own_timers_never_fire_witness:
  "bus (manager_timer_func clock0 (boot manager_config_default (\<lambda>_. demo_queue 0))) SERVER_MANAGER
    = bus (boot manager_config_default (\<lambda>_. demo_queue 0)) SERVER_MANAGER"
  using own_timers_never_fire [of manager_config_default "boot manager_config_default (\<lambda>_. demo_queue 0)" clock0]
    boot_running [of manager_config_default "\<lambda>_. demo_queue 0"] mgr_reach.start by simp

section \<open>Falling asleep and waking up\<close>

lemma asleep_never: "steady c s \<Longrightarrow> \<not> bit (server_sleep c) 0 \<Longrightarrow> thread_start (info s) \<noteq> asleep_set s"
proof
  assume s: "steady c s" "\<not> bit (server_sleep c) 0" and eq: "thread_start (info s) = asleep_set s"
  have "(0x7FFF :: int) = mask 15" by (simp add: mask_eq_exp_minus_1)
  then have "bit (asleep_set s) 0"
    using s by (simp add: asleep_set_def steady_def bit_simps)
  moreover have "\<not> bit (thread_start (info s)) 0"
    using s(1) by (simp add: steady_def server_set_no_manager)
  ultimately show False using eq by simp
qed

text \<open>
  With a \<open>server_sleep\<close> set that leaves out the manager (the default is 254) falling asleep
  never completes: once the manager waits in \<open>STATUS_IDLE\<close> of its sleep task, no round of the task
  and no message but a SIGINT or a timer gets it out of there.  In particular the request to
  wake up is answered and ignored.
\<close>

theorem sleep_never_completes:
  assumes "mgr_reach c s" "\<not> bit (server_sleep c) 0"
    and "func (task (info s)) = TASK_SLEEP" "status (info s) = STATUS_IDLE"
    and "\<not> is_sigint (m_message m)" "m_message m \<noteq> MSG_MANAGER_TIMER_ON"
  shows "let s' = handle_message env m (run_task env s) in
    func (task (info s')) = TASK_SLEEP \<and> status (info s') = STATUS_IDLE
    \<and> sleep_enable (config s') = sleep_enable (config s)"
proof -
  have "thread_start (info s) \<noteq> asleep_set s"
    using asleep_never [OF reach_steady [OF assms(1)] assms(2)] .
  then have t: "run_task env s = forward_exit_ack s"
    using assms(3,4) by (simp add: run_task_def task_sleep_def)
  have i: "info (forward_exit_ack s) = info s" "config (forward_exit_ack s) = config s" by simp_all
  have p: "func (task (info (manager_set_property m t))) = TASK_SLEEP
      \<and> status (info (manager_set_property m t)) = STATUS_IDLE
      \<and> sleep_enable (config (manager_set_property m t)) = sleep_enable (config t)"
    if "func (task (info t)) = TASK_SLEEP" "status (info t) = STATUS_IDLE" for t
    using that by (simp add: manager_set_property_def Let_def split: option.split)
  show ?thesis
    using assms p [of "forward_exit_ack s"]
    unfolding t Let_def by (simp add: handle_message_def i Let_def manager_get_property_def)
qed

section \<open>Quiet rounds\<close>

text \<open>
  Rounds in which the queue holds nothing but timer registrations and exit
  acknowledgements, in a running mode without restarts.
\<close>

definition quiet :: "queue \<Rightarrow> bool" where
  "quiet q = list_all (\<lambda>m. m_message m = MSG_MANAGER_TIMER_ADD \<or> m_message m = MSG_MANAGER_EXIT_ACK) (contents q)"

definition live :: "mgr \<Rightarrow> bool" where
  "live s = (\<not> halted s \<and> \<not> fault s \<and> \<not> waiting s \<and> exit_flag (info s) = 0 \<and> msg_lock (info s) = 0
     \<and> status2 (info s) = 0 \<and> running_mode (config s) \<noteq> RUNNING_MODE_NORMAL
     \<and> ring_wf (bus s SERVER_MANAGER) \<and> quiet (bus s SERVER_MANAGER) \<and> only_servers s)"

definition acked :: "msg list \<Rightarrow> int \<Rightarrow> int" where
  "acked ms n = (case ms of [] \<Rightarrow> n | m # _ \<Rightarrow>
     if m_message m = MSG_MANAGER_EXIT_ACK then misc_clear_bit n (nat (m_sender m)) else n)"

lemma pop_live:
  assumes live: "live s"
  shows "live (pop_and_handle env s)
    \<and> status (info (pop_and_handle env s)) = status (info s)
    \<and> func (task (info (pop_and_handle env s))) = func (task (info s))
    \<and> contents (bus (pop_and_handle env s) SERVER_MANAGER) = tl (contents (bus s SERVER_MANAGER))
    \<and> thread_start (info (pop_and_handle env s)) = acked (contents (bus s SERVER_MANAGER)) (thread_start (info s))"
proof (cases "contents (bus s SERVER_MANAGER)")
  case Nil
  then have "msg_buffer_pop (bus s SERVER_MANAGER) msg_init = (1, msg_init, bus s SERVER_MANAGER)"
    using live by (simp add: live_def pop_empty)
  then show ?thesis using live Nil by (simp add: pop_and_handle_def acked_def live_def)
next
  case (Cons m ms)
  let ?q = "evict (bus s SERVER_MANAGER)"
  have wf: "ring_wf (bus s SERVER_MANAGER)" using live by (simp add: live_def)
  have "0 < ring_count (bus s SERVER_MANAGER)"
    using Cons by (metis length_contents length_greater_0_conv list.distinct(1))
  note e = evict_props [OF wf this]
  have pop: "msg_buffer_pop (bus s SERVER_MANAGER) msg_init = (0, m, ?q)"
    by (rule pop_nonempty [OF wf Cons])
  have q: "ring_wf ?q" "contents ?q = ms" "quiet ?q"
    using live Cons by (simp_all add: e quiet_def live_def)
  have m: "m_message m = MSG_MANAGER_TIMER_ADD \<or> m_message m = MSG_MANAGER_EXIT_ACK"
    using live Cons by (simp add: live_def quiet_def)
  show ?thesis
    using m
  proof
    assume "m_message m = MSG_MANAGER_TIMER_ADD"
    then show ?thesis
      using live pop q Cons
      by (simp add: pop_and_handle_def handle_message_def is_sigint_def live_def acked_def Let_def)
  next
    assume "m_message m = MSG_MANAGER_EXIT_ACK"
    then show ?thesis
      using live pop q Cons
      by (simp add: pop_and_handle_def handle_message_def is_sigint_def live_def acked_def Let_def)
  qed
qed

definition begin_round :: "mgr \<Rightarrow> mgr" where
  "begin_round s = s\<lparr>info := (info s)\<lparr>old_status := status (info s)\<rparr>\<rparr>"

lemma begin_round_fields [simp]:
  "status (info (begin_round s)) = status (info s)" "func (task (info (begin_round s))) = func (task (info s))"
  "thread_start (info (begin_round s)) = thread_start (info s)" "config (begin_round s) = config s"
  "bus (begin_round s) = bus s" "old_status (info (begin_round s)) = status (info s)"
  "task (info (begin_round s)) = task (info s)" "live (begin_round s) = live s"
  "status2 (info (begin_round s)) = status2 (info s)"
  by (simp_all add: begin_round_def live_def)

lemma queue_empty_contents: "ring_wf (bus s SERVER_MANAGER) \<Longrightarrow> queue_empty s = (contents (bus s SERVER_MANAGER) = [])"
  using ring_empty_iff [of "bus s SERVER_MANAGER"]
  by (simp add: queue_empty_def msg_buffer_is_empty_def flip: length_0_conv)

lemma round_proc:
  assumes "\<not> halted s" "\<not> fault s" "\<not> waiting s" "exit_flag (info s) = 0"
    and "t = run_task env (begin_round s)"
    and "status (info t) \<noteq> old_status (info t) \<or> \<not> queue_empty t"
  shows "manager_proc env s = pop_and_handle env t"
  using assms by (auto simp: manager_proc_def server_message_proc_def begin_round_def)

lemma live_status [simp]: "live (set_status v s) = live s"
  by (simp add: live_def)

text \<open>Two quiet rounds of the sleep task.\<close>

lemma sleep_round:
  assumes "live s" "func (task (info s)) = TASK_SLEEP" "status (info s) = x" "x = STATUS_NONE \<or> x = STATUS_WAIT"
  shows "live (manager_proc env s) \<and> func (task (info (manager_proc env s))) = TASK_SLEEP
    \<and> status (info (manager_proc env s)) = (if x = STATUS_NONE then STATUS_WAIT else STATUS_SETUP)
    \<and> thread_start (info (manager_proc env s)) = acked (contents (bus s SERVER_MANAGER)) (thread_start (info s))"
proof -
  let ?t = "run_task env (begin_round s)"
  have t: "?t = set_status (if x = STATUS_NONE then STATUS_WAIT else STATUS_SETUP) (begin_round s)"
    using assms by (auto simp: run_task_def task_sleep_def)
  have "manager_proc env s = pop_and_handle env ?t"
    using assms by (intro round_proc) (auto simp: live_def t)
  then show ?thesis using pop_live [of ?t env] assms by (simp add: t)
qed

lemma push_quiet:
  assumes "ring_wf q" "quiet q" "m_message m = MSG_MANAGER_TIMER_ADD \<or> m_message m = MSG_MANAGER_EXIT_ACK"
  shows "quiet (ring_push q m)"
proof -
  have "list_all P (tl xs)" if "list_all P xs" for P and xs :: "msg list"
    using that by (cases xs) auto
  then show ?thesis
    using assms by (simp add: quiet_def ring_push_cases append_msg_props replace_oldest)
qed

lemma send_request_live:
  assumes "live s" "m_message m = MSG_MANAGER_TIMER_ADD"
  shows "live (send SERVER_MANAGER m s)"
proof -
  have b: "bus (send SERVER_MANAGER m s) SERVER_MANAGER = ring_push (bus s SERVER_MANAGER) m"
    by (simp add: send_def send_manager deliver_def ring_push_def)
  show ?thesis
    using assms push_quiet [of "bus s SERVER_MANAGER" m] ring_push_props [of "bus s SERVER_MANAGER" m]
    by (simp add: live_def b)
qed

lemma timer_request_message [simp]: "m_message (timer_request a b c h p) = MSG_MANAGER_TIMER_ADD"
  by (simp add: timer_request_def)

lemma boot_live:
  assumes "running_mode c = RUNNING_MODE_SLEEP" "msg_buffer_size_normal c = 2 ^ k" "1 \<le> k"
    and "\<not> b_fault (b SERVER_MANAGER)"
    and "sleep_get_scheduler_time (cfg_sleep_start c @ ''-'' @ cfg_sleep_stop c) scheduler_zero 0 \<noteq> None"
    and "length (cfg_sleep_start c) + length (cfg_sleep_stop c) + 1 < 64"
  shows "live (boot c b) \<and> status (info (boot c b)) = STATUS_NONE
    \<and> func (task (info (boot c b))) = TASK_SLEEP \<and> thread_start (info (boot c b)) = 0"
proof -
  let ?P = "\<lambda>s. config s = c \<and> status (info s) = STATUS_NONE \<and> thread_start (info s) = 0 \<and> live s"
  define s1 where "s1 = (mgr_blank c b)\<lparr>ttable := timer_init (ttable (mgr_blank c b)), info := info_zero TASK_NULL\<rparr>"
  define s2 where "s2 = s1\<lparr>timer_thread := True,
                  info := (info s1)\<lparr>error := misc_set_bit (error (info s1)) THREAD_TIMER\<rparr>,
                  bus := (bus s1)(SERVER_MANAGER := msg_buffer_init True (bus s1 SERVER_MANAGER)
                           (msg_overrun (config s1)) (msg_buffer_size_normal (config s1)))\<rparr>"
  define s3 where "s3 = s2\<lparr>info := (info s2)\<lparr>init := 1\<rparr>\<rparr>"
  define s4 where "s4 = sleep_init (sleep_enable (config s3)) (cfg_sleep_start (config s3)) (cfg_sleep_stop (config s3)) s3"
  define s5 where "s5 = manager_routine_init s4"
  have q: "bus s3 SERVER_MANAGER = msg_buffer_init True (b SERVER_MANAGER) (msg_overrun c) (2 ^ k)"
    using assms by (simp add: s3_def s2_def s1_def mgr_blank_def)
  have nf: "(b SERVER_MANAGER)\<lparr>b_fault := False\<rparr> = b SERVER_MANAGER" using assms(4) by simp
  have "ring_wf (bus s3 SERVER_MANAGER)" "contents (bus s3 SERVER_MANAGER) = []"
    unfolding q using init_props(1) [OF assms(3), of "b SERVER_MANAGER" "msg_overrun c"]
      init_props(2) [OF assms(3), of "b SERVER_MANAGER" "msg_overrun c"] nf by simp_all
  then have s3: "?P s3" "scheduler s3 = scheduler_zero" "sched_mode s3 = 0"
    using assms(1) by (simp_all add: live_def quiet_def s3_def s2_def s1_def mgr_blank_def info_zero_def)
  have "?P s4"
  proof -
    let ?u = "(sleep_scheduler_init (sleep_enable c) (cfg_sleep_start c) (cfg_sleep_stop c) s3)\<lparr>sched_enable := sleep_enable c\<rparr>"
    have "?P ?u" using s3 assms(5,6) by (auto simp: sleep_scheduler_init_def live_def)
    then show ?thesis using s3 by (simp add: s4_def sleep_init_def Let_def send_request_live)
  qed
  then have "?P s5" by (simp add: s5_def manager_routine_init_def send_request_live)
  moreover have "boot c b = set_task TASK_SLEEP s5"
    using calculation assms(1)
    by (simp add: boot_def manager_init_def s5_def s4_def s3_def s2_def s1_def Let_def)
  ultimately show ?thesis using assms(1) by (simp add: live_def)
qed

lemma set_task_live [simp]: "live (set_task f s) = live s"
  by (simp add: live_def)

text \<open>A manager that boots into sleep reaches the idle state of the sleep task.\<close>

definition sleepy_config :: manager_config_t where
  "sleepy_config = manager_config_default\<lparr>running_mode := RUNNING_MODE_SLEEP\<rparr>"

lemma acked_zero [simp]: "acked ms 0 = 0"
  by (simp add: acked_def split: list.split)

lemma reach_proc: "mgr_reach c s \<Longrightarrow> live s \<Longrightarrow> mgr_reach c (manager_proc env s)"
  by (erule mgr_reach.step) (auto intro: mgr_step.main simp: live_def crashed_def ring_wf_def)

lemma sleepy_reaches_idle:
  "\<exists>s. mgr_reach sleepy_config s \<and> func (task (info s)) = TASK_SLEEP \<and> status (info s) = STATUS_IDLE"
proof -
  let ?s0 = "boot sleepy_config (\<lambda>_. demo_queue 1)"
  let ?s1 = "manager_proc env0 ?s0" and ?s2 = "manager_proc env0 (manager_proc env0 ?s0)"
  let ?t = "run_task env0 (begin_round ?s2)"
  have "\<not> b_fault (demo_queue 1)" by (simp add: demo_queue_def msg_buffer_init_def Let_def)
  moreover have "sleep_get_scheduler_time (''00:00'' @ ''-'' @ ''00:00'') scheduler_zero 0 \<noteq> None"
    by (simp add: sleep_get_scheduler_time_def Let_def)
  ultimately have 0: "live ?s0" "status (info ?s0) = STATUS_NONE" "func (task (info ?s0)) = TASK_SLEEP"
    "thread_start (info ?s0) = 0"
    using boot_live [of sleepy_config 4 "\<lambda>_. demo_queue 1"]
    by (simp_all add: sleepy_config_def manager_config_default_def)
  have 1: "live ?s1" "status (info ?s1) = STATUS_WAIT" "func (task (info ?s1)) = TASK_SLEEP"
    "thread_start (info ?s1) = 0"
    using sleep_round [of ?s0 STATUS_NONE env0] 0 by simp_all
  have 2: "live ?s2" "status (info ?s2) = STATUS_SETUP" "func (task (info ?s2)) = TASK_SLEEP"
    "thread_start (info ?s2) = 0"
    using sleep_round [of ?s1 STATUS_WAIT env0] 1 by simp_all
  have "for_servers (\<lambda>i s. if server_is_on (thread_start (info s)) i \<and> server_is_on (server_sleep (config s)) i
             \<and> i \<noteq> SERVER_ALIYUN then manager_server_stop i s else s) (begin_round ?s2) = begin_round ?s2"
    using for_servers_inv [of "\<lambda>s. s = begin_round ?s2"] 2(4) by (auto simp: server_is_on_def)
  then have t: "?t = set_status STATUS_IDLE (begin_round ?s2)"
    using 2 by (simp add: run_task_def task_sleep_def)
  have "manager_proc env0 ?s2 = pop_and_handle env0 ?t"
    using 2 by (intro round_proc) (auto simp: live_def t)
  then have "status (info (manager_proc env0 ?s2)) = STATUS_IDLE \<and> func (task (info (manager_proc env0 ?s2))) = TASK_SLEEP"
    using pop_live [of ?t env0] 2 by (simp add: t)
  moreover have "mgr_reach sleepy_config (manager_proc env0 ?s2)"
    using 0(1) 1(1) 2(1) by (intro reach_proc mgr_reach.start)
  ultimately show ?thesis by blast
qed

theorem sleep_never_completes_witness:
  "\<exists>s. mgr_reach sleepy_config s \<and> (let s' = handle_message env0
       (msg_init\<lparr>m_message := MSG_MANAGER_PROPERTY_SET, m_arg := Some (P_int 1), m_arg_size := 4\<rparr>) (run_task env0 s)
     in func (task (info s')) = TASK_SLEEP \<and> status (info s') = STATUS_IDLE)"
proof -
  obtain s where s: "mgr_reach sleepy_config s" "func (task (info s)) = TASK_SLEEP" "status (info s) = STATUS_IDLE"
    using sleepy_reaches_idle by blast
  moreover have "\<not> bit (server_sleep sleepy_config) 0"
    by (simp add: sleepy_config_def manager_config_default_def)
  ultimately show ?thesis
    using sleep_never_completes [of sleepy_config s
        "msg_init\<lparr>m_message := MSG_MANAGER_PROPERTY_SET, m_arg := Some (P_int 1), m_arg_size := 4\<rparr>" env0]
    by (auto simp: Let_def is_sigint_def)
qed

text \<open>
  While the manager runs, setting the sleep property to awake (1) or asleep (0) is followed
  by reads that answer the value set, whatever it was before.
\<close>

theorem sleep_property_roundtrip:
  assumes "status (info s) = STATUS_RUN" "v \<in> {0, 1}"
    and "cat (m_arg_in m) = MANAGER_PROPERTY_SLEEP" "m_arg m = Some (P_int v)"
    and "cat (m_arg_in g) = MANAGER_PROPERTY_SLEEP"
  shows "let s' = manager_set_property m s in
    manager_get_property env g s' =
      send (m_receiver g) ((reply_to g)\<lparr>m_arg := Some (P_int v), m_arg_size := 4\<rparr>) s'"
  using assms
  by (auto simp: manager_set_property_def manager_get_property_def manager_wakeup_def
      manager_send_wakeup_def manager_sleep_def Let_def)

theorem sleep_property_roundtrip_witness:
  "let s = set_status STATUS_RUN (mgr_blank manager_config_default (\<lambda>_. demo_queue 0));
       s' = manager_set_property (msg_init\<lparr>m_arg := Some (P_int 0)\<rparr>) s
   in sleep_enable (config s') = 1 \<and> manager_get_property env0 msg_init s' =
      send 0 ((reply_to msg_init)\<lparr>m_arg := Some (P_int 0), m_arg_size := 4\<rparr>) s'"
  using sleep_property_roundtrip [of "set_status STATUS_RUN (mgr_blank manager_config_default (\<lambda>_. demo_queue 0))"
      0 "msg_init\<lparr>m_arg := Some (P_int 0)\<rparr>" msg_init env0]
  by (simp add: Let_def msg_init_def arg_zero_def mgr_blank_def manager_set_property_def reply_to_def
      manager_config_default_def manager_sleep_def)

section \<open>Starting up\<close>

lemma start_configured_spec:
  "bit (thread_start (info (start_configured env s))) k =
     (bit (thread_start (info s)) k \<or>
      (1 \<le> k \<and> k \<le> 7 \<and> bit (server_start (config s)) k \<and> start_ok env (int k)))
   \<and> config (start_configured env s) = config s"
proof -
  let ?f = "\<lambda>i s. if server_is_on (server_start (config s)) i \<and> misc_get_bit (thread_start (info s)) (nat i) \<noteq> 1
     then manager_server_start env i s else s"
  have step: "bit (thread_start (info (?f (int i) t))) k =
      (bit (thread_start (info t)) k \<or>
       (k = i \<and> 1 \<le> k \<and> k \<le> 7 \<and> bit (server_start (config t)) k \<and> start_ok env (int k)))
    \<and> config (?f (int i) t) = config t" for i t
    by (cases "1 \<le> i \<and> i \<le> 7") (auto simp: server_is_on_def manager_server_start_def)
  have "bit (thread_start (info (foldl (\<lambda>s i. ?f (int i) s) t is))) k =
     (bit (thread_start (info t)) k \<or>
      (k \<in> set is \<and> 1 \<le> k \<and> k \<le> 7 \<and> bit (server_start (config t)) k \<and> start_ok env (int k)))
    \<and> config (foldl (\<lambda>s i. ?f (int i) s) t is) = config t" for t "is"
    by (induction "is" arbitrary: t) (use step in \<open>auto simp del: split_paired_All\<close>)
  from this [of s "[0..<8]"] show ?thesis
    by (auto simp: start_configured_def for_servers_def simp del: upt_rec_numeral)
qed

text \<open>
  From \<open>STATUS_NONE\<close> the default task runs through its states in five rounds to
  \<open>STATUS_RUN\<close>, starting on the way each configured server that is not running yet, and marks
  as running exactly those that were running and those whose start succeeded.
\<close>

theorem default_task_starts_up:
  assumes "func (task (info s)) = TASK_DEFAULT" "status (info s) = STATUS_NONE"
  shows "status (info ((run_task env ^^ 5) s)) = STATUS_RUN
    \<and> (\<forall>k. bit (thread_start (info ((run_task env ^^ 5) s))) k =
        (bit (thread_start (info s)) k \<or>
         (1 \<le> k \<and> k \<le> 7 \<and> bit (server_start (config s)) k \<and> start_ok env (int k))))"
proof -
  have f: "func (task (info (start_configured env t))) = func (task (info t))" for t
    unfolding start_configured_def by (rule for_servers_inv) auto
  have st: "status (info (start_configured env t)) = status (info t)" for t
    unfolding start_configured_def by (rule for_servers_inv) auto
  have "(run_task env ^^ 5) s =
      set_status STATUS_RUN (set_status STATUS_START (set_status STATUS_IDLE
        (start_configured env (set_status STATUS_SETUP (set_status STATUS_WAIT s)))))"
    using assms by (simp add: eval_nat_numeral run_task_def task_default_def f)
  then show ?thesis using start_configured_spec by simp
qed

theorem default_task_starts_up_witness:
  "status (info ((run_task env0 ^^ 5) (set_task TASK_DEFAULT (mgr_blank manager_config_default (\<lambda>_. demo_queue 0)))))
     = STATUS_RUN"
  using default_task_starts_up [of "set_task TASK_DEFAULT (mgr_blank manager_config_default (\<lambda>_. demo_queue 0))" env0]
  by (simp add: mgr_blank_def info_zero_def)

section \<open>Shutting down\<close>

lemma pop_empty_queue: "queue_empty s \<Longrightarrow> pop_and_handle env s = s"
  by (simp add: pop_and_handle_def queue_empty_def msg_buffer_pop_def msg_buffer_is_empty_def)

definition all_acked :: "mgr \<Rightarrow> bool" where
  "all_acked s = (\<forall>k. bit (thread_start (info s)) k \<longrightarrow>
     (\<exists>m \<in> set (contents (bus s SERVER_MANAGER)). m_message m = MSG_MANAGER_EXIT_ACK \<and> nat (m_sender m) = k))"

definition leaving :: "mgr \<Rightarrow> bool" where
  "leaving s = (\<not> fault s \<and> (halted s \<or> (\<not> waiting s \<and> (exit_flag (info s) \<noteq> 0 \<or>
     func (task (info s)) = TASK_EXIT \<and>
       (if status (info s) = EXIT_FINISH then status2 (info s) = 0 \<and> queue_empty s
        else if status (info s) \<in> {EXIT_STAGE1, EXIT_THREAD, EXIT_STAGE2}
        then live s \<and> thread_start (info s) = 0
        else status (info s) = EXIT_SERVER \<and> live s \<and> all_acked s)))))"

definition exit_rank :: "mgr \<Rightarrow> nat" where
  "exit_rank s = (if halted s then 0 else if exit_flag (info s) \<noteq> 0 then 1
     else if status (info s) = EXIT_FINISH then 2 else if status (info s) = EXIT_STAGE2 then 3
     else if status (info s) = EXIT_THREAD then 4 else if status (info s) = EXIT_STAGE1 then 5
     else 6 + length (contents (bus s SERVER_MANAGER)))"

lemma leaving_stage:
  assumes "live s" "func (task (info s)) = TASK_EXIT" "thread_start (info s) = 0"
    "status (info s) \<in> {EXIT_STAGE1, EXIT_THREAD, EXIT_STAGE2}"
  shows "leaving s"
proof -
  have "\<not> fault s" "\<not> waiting s" using assms(1) by (simp_all add: live_def)
  then show ?thesis using assms by (auto simp: leaving_def)
qed

lemma leaving_server:
  assumes "live s" "func (task (info s)) = TASK_EXIT" "status (info s) = EXIT_SERVER" "all_acked s"
  shows "leaving s"
proof -
  have "\<not> fault s" "\<not> waiting s" using assms(1) by (simp_all add: live_def)
  then show ?thesis using assms by (simp add: leaving_def)
qed

lemma live_rank:
  "live s \<Longrightarrow> exit_rank s = (if status (info s) = EXIT_FINISH then 2 else if status (info s) = EXIT_STAGE2 then 3
     else if status (info s) = EXIT_THREAD then 4 else if status (info s) = EXIT_STAGE1 then 5
     else 6 + length (contents (bus s SERVER_MANAGER)))"
  by (simp add: live_def exit_rank_def)

lemma leave_round:
  assumes "live s" "run_task env (begin_round s) = t" "live t" "func (task (info t)) = TASK_EXIT"
    and "status (info t) \<noteq> status (info s)" "old_status (info t) = status (info s)"
  shows "live (manager_proc env s) \<and> status (info (manager_proc env s)) = status (info t)
    \<and> func (task (info (manager_proc env s))) = TASK_EXIT
    \<and> thread_start (info (manager_proc env s)) = acked (contents (bus t SERVER_MANAGER)) (thread_start (info t))"
proof -
  have "manager_proc env s = pop_and_handle env t"
    using assms by (intro round_proc) (auto simp: live_def)
  then show ?thesis using pop_live [OF assms(3), of env] assms(4) by simp
qed

lemma leave_server:
  assumes "leaving s" "live s" "status (info s) = EXIT_SERVER" "func (task (info s)) = TASK_EXIT"
  shows "leaving (manager_proc env s) \<and> exit_rank (manager_proc env s) < exit_rank s"
proof (cases "thread_start (info s) = 0")
  case True
  then have "run_task env (begin_round s) = set_status EXIT_STAGE1 (begin_round s)"
    using assms by (simp add: run_task_def task_exit_def)
  note r = leave_round [OF assms(2) this]
  have "live (manager_proc env s)" "status (info (manager_proc env s)) = EXIT_STAGE1"
      "func (task (info (manager_proc env s))) = TASK_EXIT" "thread_start (info (manager_proc env s)) = 0"
    using r assms True by simp_all
  then show ?thesis
    using assms by (simp add: leaving_stage live_rank)
next
  case False
  let ?t = "forward_exit_ack (begin_round s)"
  have t: "run_task env (begin_round s) = ?t"
    using assms False by (simp add: run_task_def task_exit_def)
  have no: "\<not> bit (thread_start (info (begin_round s))) 0"
    using assms(2) by (simp add: live_def server_set_no_manager)
  have b: "bus ?t SERVER_MANAGER = bus s SERVER_MANAGER"
    using forward_exit_ack_queue [OF no] by simp
  have acked: "all_acked s" using assms by (auto simp: leaving_def live_def)
  obtain k where "bit (thread_start (info s)) k" using False by (metis bit_0_eq bot_apply bot_bool_def bit_eqI)
  then obtain m ms where c: "contents (bus s SERVER_MANAGER) = m # ms"
    using acked unfolding all_acked_def by (cases "contents (bus s SERVER_MANAGER)") auto
  have lt: "live ?t"
    using assms(2) b by (simp add: live_def begin_round_def)
  have "\<not> queue_empty ?t"
    using queue_empty_contents [of ?t] lt b c by (simp add: live_def)
  then have p: "manager_proc env s = pop_and_handle env ?t"
    using assms(2) t by (intro round_proc) (auto simp: live_def)
  note q = pop_live [OF lt, of env, folded p]
  have c': "contents (bus (manager_proc env s) SERVER_MANAGER) = ms"
    and ts: "thread_start (info (manager_proc env s)) = acked (m # ms) (thread_start (info s))"
    using q b c by simp_all
  have "all_acked (manager_proc env s)"
    unfolding all_acked_def c' ts
  proof (intro allI impI)
    fix j assume j: "bit (acked (m # ms) (thread_start (info s))) j"
    then have "bit (thread_start (info s)) j" by (auto simp: acked_def split: if_splits)
    then obtain m' where m': "m' \<in> set (m # ms)" "m_message m' = MSG_MANAGER_EXIT_ACK" "nat (m_sender m') = j"
      using acked c unfolding all_acked_def by metis
    moreover have "m' \<noteq> m" using j m' by (auto simp: acked_def)
    ultimately show "\<exists>m \<in> set ms. m_message m = MSG_MANAGER_EXIT_ACK \<and> nat (m_sender m) = j" by auto
  qed
  moreover have "live (manager_proc env s)" "status (info (manager_proc env s)) = EXIT_SERVER"
    "func (task (info (manager_proc env s))) = TASK_EXIT"
    using q assms by simp_all
  ultimately show ?thesis
    using leaving_server [of "manager_proc env s"] assms c c'
    by (simp add: live_rank del: length_contents)
qed

lemma leave_stage1:
  assumes "live s" "thread_start (info s) = 0" "func (task (info s)) = TASK_EXIT"
    "status (info s) = EXIT_STAGE1"
  shows "leaving (manager_proc env s) \<and> exit_rank (manager_proc env s) < exit_rank s"
proof -
  have t: "run_task env (begin_round s) = set_status EXIT_THREAD (begin_round s)"
    using assms by (simp add: run_task_def task_exit_def)
  have "live (manager_proc env s)" "status (info (manager_proc env s)) = EXIT_THREAD"
    "func (task (info (manager_proc env s))) = TASK_EXIT" "thread_start (info (manager_proc env s)) = 0"
    using leave_round [OF assms(1) t] assms by simp_all
  then show ?thesis using assms by (simp add: leaving_stage live_rank)
qed

lemma leave_thread:
  assumes "live s" "thread_start (info s) = 0" "func (task (info s)) = TASK_EXIT"
    "status (info s) = EXIT_THREAD"
  shows "leaving (manager_proc env s) \<and> exit_rank (manager_proc env s) < exit_rank s"
proof -
  let ?t = "set_status EXIT_STAGE2 ((begin_round s)\<lparr>info := (info (begin_round s))\<lparr>thread_exit := 0\<rparr>\<rparr>)"
  have t: "run_task env (begin_round s) = ?t"
    using assms by (simp add: run_task_def task_exit_def Let_def)
  have "live ?t" using assms(1) by (simp add: live_def begin_round_def)
  then have "live (manager_proc env s)" "status (info (manager_proc env s)) = EXIT_STAGE2"
    "func (task (info (manager_proc env s))) = TASK_EXIT" "thread_start (info (manager_proc env s)) = 0"
    using leave_round [OF assms(1) t] assms by simp_all
  then show ?thesis using assms by (simp add: leaving_stage live_rank)
qed

lemma leave_release:
  assumes "live s" "func (task (info s)) = TASK_EXIT" "status (info s) = EXIT_STAGE2"
  shows "leaving (manager_proc env s) \<and> exit_rank (manager_proc env s) < exit_rank s"
proof -
  let ?t = "set_status EXIT_FINISH (server_release_2 (begin_round s))"
  have t: "run_task env (begin_round s) = ?t"
    using assms by (simp add: run_task_def task_exit_def)
  have e: "queue_empty ?t"
    by (simp add: queue_empty_def server_release_2_def msg_buffer_release_def Let_def split: option.split)
  have i: "info ?t = (info (begin_round s))\<lparr>status := EXIT_FINISH\<rparr>" "halted ?t = halted s" "fault ?t = fault s"
    "waiting ?t = waiting s"
    by (simp_all add: server_release_2_def sleep_release_def Let_def begin_round_def)
  have "manager_proc env s = pop_and_handle env ?t"
    using assms by (intro round_proc) (auto simp: live_def t i)
  then have "manager_proc env s = ?t" using pop_empty_queue [OF e] by simp
  moreover have "leaving ?t \<and> exit_rank ?t < exit_rank s"
    using assms e i by (simp add: leaving_def exit_rank_def live_def begin_round_def)
  ultimately show ?thesis by simp
qed

lemma leave_end:
  assumes "leaving s" "\<not> halted s" "exit_flag (info s) \<noteq> 0 \<or> status (info s) = EXIT_FINISH"
  shows "leaving (manager_proc env s) \<and> exit_rank (manager_proc env s) < exit_rank s"
proof (cases "exit_flag (info s) = 0")
  case False
  then show ?thesis using assms
    by (auto simp: leaving_def manager_proc_def exit_rank_def server_release_3_def)
next
  case True
  let ?t = "set_status STATUS_NONE ((begin_round s)\<lparr>info := (info (begin_round s))\<lparr>exit_flag := 1\<rparr>\<rparr>)"
  have a: "\<not> fault s" "\<not> waiting s" "func (task (info s)) = TASK_EXIT" "status2 (info s) = 0" "queue_empty s"
    "status (info s) = EXIT_FINISH"
    using assms True by (auto simp: leaving_def)
  then have t: "run_task env (begin_round s) = ?t"
    by (simp add: run_task_def task_exit_def Let_def)
  have "manager_proc env s = pop_and_handle env ?t"
    using assms True a by (intro round_proc) (auto simp: t)
  also have "\<dots> = ?t" using a by (intro pop_empty_queue) (simp add: queue_empty_def)
  finally have p: "manager_proc env s = ?t" .
  have "halted ?t = halted s" "fault ?t = fault s" "waiting ?t = waiting s"
    by (simp_all add: begin_round_def)
  then show ?thesis unfolding p using assms True a by (simp add: leaving_def exit_rank_def)
qed

interpretation manager_exit: progress "manager_proc env" leaving halted exit_rank for env
proof -
  have "leaving (manager_proc env s) \<and> exit_rank (manager_proc env s) < exit_rank s"
    if l: "leaving s" "\<not> halted s" for s
  proof -
    have body: "func (task (info s)) = TASK_EXIT \<and>
        (if status (info s) \<in> {EXIT_STAGE1, EXIT_THREAD, EXIT_STAGE2}
         then live s \<and> thread_start (info s) = 0
         else status (info s) = EXIT_SERVER \<and> live s)"
      if "\<not> (exit_flag (info s) \<noteq> 0 \<or> status (info s) = EXIT_FINISH)"
      using l that unfolding leaving_def by (auto split: if_split_asm)
    show ?thesis
    proof (cases "exit_flag (info s) \<noteq> 0 \<or> status (info s) = EXIT_FINISH")
      case True
      then show ?thesis by (rule leave_end [OF l])
    next
      case False
      note b = body [OF False]
      show ?thesis
      proof (cases "status (info s) \<in> {EXIT_STAGE1, EXIT_THREAD, EXIT_STAGE2}")
        case True
        then have f: "live s" "thread_start (info s) = 0" "func (task (info s)) = TASK_EXIT"
          using b by simp_all
        from True consider "status (info s) = EXIT_STAGE1" | "status (info s) = EXIT_THREAD"
          | "status (info s) = EXIT_STAGE2" by blast
        then show ?thesis
          by cases (use leave_stage1 [OF f] leave_thread [OF f] leave_release [OF f(1,3)] in blast)+
      next
        case False
        then have "live s" "status (info s) = EXIT_SERVER" "func (task (info s)) = TASK_EXIT"
          using b by simp_all
        then show ?thesis by (rule leave_server [OF l(1)])
      qed
    qed
  qed
  then show "progress (manager_proc env) leaving halted exit_rank" by unfold_locales auto
qed

text \<open>
  C5: Once every running server's exit acknowledgement is in the queue, the exit task brings
  the process to its end: within six rounds more than there are messages it has passed all
  its stages, released the queue and halted, without following a bad pointer.
\<close>

theorem exit_completes:
  assumes "live s" "func (task (info s)) = TASK_EXIT" "status (info s) = EXIT_SERVER" "all_acked s"
  shows "\<exists>n \<le> 6 + length (contents (bus s SERVER_MANAGER)).
    halted ((manager_proc env ^^ n) s) \<and> \<not> fault ((manager_proc env ^^ n) s)"
proof -
  have "exit_rank s = 6 + length (contents (bus s SERVER_MANAGER))"
    using assms by (simp add: live_rank)
  then show ?thesis
    using manager_exit.reaches_goal [OF leaving_server [OF assms], of env]
    by (auto simp: leaving_def)
qed

definition device_ack :: msg where
  "device_ack = msg_init\<lparr>m_message := MSG_MANAGER_EXIT_ACK, m_sender := SERVER_DEVICE\<rparr>"

definition leaving_demo :: mgr where
  "leaving_demo = set_status EXIT_SERVER (set_task TASK_EXIT (set_mode RUNNING_MODE_EXIT
     ((mgr_blank manager_config_default (\<lambda>_. ring_push (demo_queue 1) device_ack))
        \<lparr>info := (info_zero TASK_NULL)\<lparr>thread_start := 2\<rparr>\<rparr>)))"

theorem exit_completes_witness:
  "\<exists>n \<le> 7. halted ((manager_proc env0 ^^ n) leaving_demo)"
proof -
  let ?q = "ring_push (demo_queue 1) device_ack"
  have q: "ring_wf ?q" "contents ?q = [device_ack\<lparr>m_sequence := 1\<rparr>]"
    using append_msg_props [of "demo_queue 1" device_ack] by (simp_all add: ring_push_cases)
  have two: "bit (2 :: int) k = (k = 1)" for k
    using bit_push_bit_iff [of 1 "1 :: int" k] by (auto simp: bit_1_iff)
  have "live leaving_demo"
    using q by (simp add: live_def leaving_demo_def mgr_blank_def info_zero_def quiet_def device_ack_def
        server_set_def two)
  moreover have "all_acked leaving_demo"
    using q by (simp add: all_acked_def leaving_demo_def mgr_blank_def info_zero_def two device_ack_def)
  moreover have "contents (bus leaving_demo SERVER_MANAGER) = [device_ack\<lparr>m_sequence := 1\<rparr>]"
    using q by (simp add: leaving_demo_def mgr_blank_def)
  ultimately show ?thesis
    using exit_completes [of leaving_demo env0] by (auto simp: leaving_demo_def simp del: length_contents)
qed

text \<open>
  After the exit task has released the queue, the last message of the timer thread is
  pushed into the null array: \<open>manager_message\<close> does not look at \<open>message.init\<close>, and the thread
  sends its dummy message after it has seen the exit flag.
\<close>

theorem timer_thread_exit_faults:
  assumes "timer_thread s" "\<not> halted s" "exit_flag (info s) \<noteq> 0"
    and "bus s SERVER_MANAGER = msg_buffer_release q" "2 \<le> b_size q"
  shows "crashed (manager_timer_func clock s)"
proof -
  let ?q = "msg_buffer_release q"
  have z: "b_head ?q = 0" "b_tail ?q = 0" "b_buffer ?q = None" "b_size ?q = b_size q"
    by (auto simp: msg_buffer_release_def Let_def split: option.split)
  have "\<not> msg_buffer_is_full ?q" using assms(5) z by (simp add: msg_buffer_is_full_def)
  then have "b_fault (snd (msg_buffer_push ?q (Some m)))" for m
    by (simp add: msg_buffer_push_def Let_def set_slot_def z)
  then show ?thesis
    using assms by (simp add: manager_timer_func_def Let_def crashed_def global_common_send_dummy_def
        send_manager deliver_def)
qed

theorem timer_thread_exit_faults_witness:
  "crashed (manager_timer_func clock0
     ((mgr_blank manager_config_default (\<lambda>_. msg_buffer_release (demo_queue 1)))
        \<lparr>timer_thread := True, info := (info_zero TASK_NULL)\<lparr>exit_flag := 1\<rparr>\<rparr>))"
proof -
  have "2 \<le> b_size (demo_queue 1)" by (simp add: demo_queue_def msg_buffer_init_def)
  then show ?thesis
    using timer_thread_exit_faults [of "(mgr_blank manager_config_default (\<lambda>_. msg_buffer_release (demo_queue 1)))
        \<lparr>timer_thread := True, info := (info_zero TASK_NULL)\<lparr>exit_flag := 1\<rparr>\<rparr>" "demo_queue 1" clock0]
    by (simp add: mgr_blank_def)
qed

end
