(* ===== verification/FileManager.thy ===== *)
theory FileManager
  imports CStr
begin

text \<open>
  The index of recorded files of \<open>server/device/file_manager.c\<close>: per record type an array of
  start stamps and one of stop stamps, filled by a directory scan and by the recorder, and
  searched with two binary searches.  A linked list of results is a list of pairs; its
  fields are 32-bit.  Reading an array outside of it is \<open>None\<close>.

  Directories, file sizes and the clock are arguments; allocations succeed.
\<close>

section \<open>The index\<close>

abbreviation (input) "MAX_FILE_NUM \<equiv> 1440 :: nat"
abbreviation (input) "LV_STORAGE_RECORD_INITIATIVE \<equiv> 2 :: nat"
abbreviation (input) "LV_STORAGE_RECORD_ANY \<equiv> 99 :: nat"

record file_list_t =
  f_start :: "u64 list"
  f_stop :: "u64 list"
  f_num :: nat

definition file_list_zero :: file_list_t where
  "file_list_zero = \<lparr>f_start = replicate MAX_FILE_NUM 0, f_stop = replicate MAX_FILE_NUM 0, f_num = 0\<rparr>"

type_synonym node = "u32 \<times> u32"

section \<open>The linked list of results\<close>

definition file_manager_node_remove_last :: "node list \<Rightarrow> node list" where
  "file_manager_node_remove_last ns = butlast ns"

definition file_manager_node_insert :: "node list \<Rightarrow> u64 \<Rightarrow> u64 \<Rightarrow> node list" where
  "file_manager_node_insert ns start stop = ns @ [(ucast start, ucast stop)]"

function file_manager_node_clear :: "node list \<Rightarrow> node list" where
  "file_manager_node_clear [] = []"
| "file_manager_node_clear (n # ns) =
     (if ns \<noteq> [] then file_manager_node_clear (file_manager_node_remove_last (n # ns))
      else file_manager_node_remove_last [n])"
  by pat_completeness auto
termination
  by (relation "measure length") (auto simp: file_manager_node_remove_last_def)

lemma node_clear_empty [simp]: "file_manager_node_clear ns = []"
  by (induction ns rule: file_manager_node_clear.induct) (auto simp: file_manager_node_remove_last_def)

section \<open>Binary search\<close>

text \<open>
  The loop both searches share: \<open>Inl mid\<close> when the key is found, \<open>Inr low\<close> when the interval
  is empty.
\<close>

function bisearch_loop :: "u64 list \<Rightarrow> u64 \<Rightarrow> int \<Rightarrow> int \<Rightarrow> (int + int) option" where
  "bisearch_loop xs key low high =
     (if low \<le> high then
        let mid = (low + high) div 2 in
        case array_get xs (nat mid) of
          None \<Rightarrow> None
        | Some x \<Rightarrow>
            if key < x then bisearch_loop xs key low (mid - 1)
            else if x < key then bisearch_loop xs key (mid + 1) high
            else Some (Inl mid)
      else Some (Inr low))"
  by pat_completeness auto
termination
  by (relation "measure (\<lambda>(xs, key, low, high). nat (high - low + 1))") auto

declare bisearch_loop.simps [simp del]

definition file_manager_file_bisearch_start :: "file_list_t \<Rightarrow> u64 \<Rightarrow> int option" where
  "file_manager_file_bisearch_start fl key =
     (case array_get (f_start fl) 0 of None \<Rightarrow> None | Some s0 \<Rightarrow>
      if key < s0 then Some 0
      else case bisearch_loop (f_start fl) key 0 (int (f_num fl) - 1) of
             None \<Rightarrow> None
           | Some (Inl mid) \<Rightarrow> Some mid
           | Some (Inr low) \<Rightarrow>
               (case array_get (f_start fl) (nat low) of None \<Rightarrow> None | Some s \<Rightarrow>
                  Some (if s < key then low else low - 1)))"

definition file_manager_file_bisearch_stop :: "file_list_t \<Rightarrow> u64 \<Rightarrow> int option" where
  "file_manager_file_bisearch_stop fl key =
     (if f_num fl = 0 then None else
      case array_get (f_stop fl) (f_num fl - 1) of None \<Rightarrow> None | Some sl \<Rightarrow>
      if sl < key then Some (int (f_num fl) - 1)
      else case bisearch_loop (f_stop fl) key 0 (int (f_num fl) - 1) of
             None \<Rightarrow> None
           | Some (Inl mid) \<Rightarrow> Some mid
           | Some (Inr low) \<Rightarrow>
               (case array_get (f_stop fl) (nat low) of None \<Rightarrow> None | Some s \<Rightarrow>
                  Some (if key < s then low else low + 1)))"

section \<open>Searching\<close>

text \<open>The interval of indices both searches walk, or \<open>None\<close> for the early returns of -1.\<close>

definition search_range :: "file_list_t \<Rightarrow> u64 \<Rightarrow> u64 \<Rightarrow> (nat \<times> nat) option option" where
  "search_range fl start stop =
     (if f_num fl = 0 then Some None
      else case (file_manager_file_bisearch_start fl start, file_manager_file_bisearch_stop fl stop) of
        (Some start_index, Some stop_index) \<Rightarrow> Some (
          if start_index < 0 \<or> stop_index < 0 then None
          else if start_index > int (f_num fl) - 1 \<or> stop_index > int (f_num fl) - 1 then None
          else if start_index > stop_index then None
          else Some (nat start_index, nat stop_index))
      | _ \<Rightarrow> None)"

fun collect_nodes :: "file_list_t \<Rightarrow> u64 \<Rightarrow> u64 \<Rightarrow> nat list \<Rightarrow> node list \<Rightarrow> node list option" where
  "collect_nodes fl start stop [] ns = Some ns"
| "collect_nodes fl start stop (i # is) ns =
     (case (array_get (f_start fl) i, array_get (f_stop fl) i) of
        (Some s, Some e) \<Rightarrow>
          if e \<le> start then collect_nodes fl start stop is ns
          else if s \<ge> stop then collect_nodes fl start stop is ns
          else collect_nodes fl start stop is (file_manager_node_insert ns s e)
      | _ \<Rightarrow> None)"

definition file_manager_search_file_list ::
  "file_list_t \<Rightarrow> u64 \<Rightarrow> u64 \<Rightarrow> node list \<Rightarrow> (int \<times> node list) option" where
  "file_manager_search_file_list fl start stop fhead =
     (let fhead = file_manager_node_clear fhead in
      case search_range fl start stop of
        None \<Rightarrow> None
      | Some None \<Rightarrow> Some (- 1, fhead)
      | Some (Some (a, b)) \<Rightarrow>
          map_option (\<lambda>ns. (if ns = [] then - 1 else 0, ns))
            (collect_nodes fl start stop [a..<b + 1] fhead))"

definition file_manager_check_file_list :: "file_list_t \<Rightarrow> u64 \<Rightarrow> u64 \<Rightarrow> int option" where
  "file_manager_check_file_list fl start stop =
     (case search_range fl start stop of
        None \<Rightarrow> None
      | Some None \<Rightarrow> Some (- 1)
      | Some (Some (a, b)) \<Rightarrow>
          map_option (\<lambda>ns. if ns = [] then - 1 else 0) (collect_nodes fl start stop [a..<b + 1] []))"

definition file_manager_add_file :: "file_list_t \<Rightarrow> u64 \<Rightarrow> u64 \<Rightarrow> int \<times> file_list_t" where
  "file_manager_add_file fl start stop =
     (if f_num fl \<ge> MAX_FILE_NUM then (- 1, fl)
      else (0, fl\<lparr>f_start := (f_start fl)[f_num fl := start], f_stop := (f_stop fl)[f_num fl := stop],
                  f_num := f_num fl + 1\<rparr>))"

section \<open>The folders\<close>

text \<open>
  A folder is the list of its entries in the order of \<open>scandir\<close>, or \<open>None\<close> when it cannot be
  scanned; \<open>d_type\<close> 4 is a directory and 10 a link.  \<open>remove\<close> succeeds.
\<close>

record dirent =
  d_name :: "char list"
  d_type :: int

type_synonym folder = "dirent list option"

record file_manager_t =
  fm_init :: bool
  flist :: "file_list_t list"
  folders :: "folder list"
  lock_balance :: int

record media_config =
  media_directory :: "char list"
  folder_prefix :: "char list list"

abbreviation (input) "SD_ALIYUN_STATUS_NORMAL \<equiv> 1 :: int"
abbreviation (input) "MAX_SYSTEM_STRING_SIZE \<equiv> 64 :: nat"

definition this_path :: "media_config \<Rightarrow> nat \<Rightarrow> char list" where
  "this_path mc i = media_directory mc @ folder_prefix mc ! i @ ''/''"

text \<open>
  Ten characters copied into a zeroed buffer and read as a number; then eleven characters
  are skipped, \<open>None\<close> when that leaves the string.
\<close>

definition stamp_at :: "char list \<Rightarrow> int" where
  "stamp_at p = atoi (take 10 p)"

definition skip_chars :: "nat \<Rightarrow> char list \<Rightarrow> char list option" where
  "skip_chars k p = (if k \<le> length p then Some (drop k p) else None)"

definition jpg_to_mp4 :: "char list \<Rightarrow> char list" where
  "jpg_to_mp4 name = take (length name - 3) name @ ''mp4''"

definition has :: "char list \<Rightarrow> char list \<Rightarrow> bool" where
  "has name needle = (strstr name needle \<noteq> None)"

definition recorder_temporary :: "char list \<Rightarrow> bool" where
  "recorder_temporary name = (has name ''snap-'' \<or> has name ''normal-'' \<or> has name ''plan-'' \<or> has name ''alarm-'')"

definition is_media :: "char list \<Rightarrow> bool" where
  "is_media name = (has name ''.mp4'' \<or> has name ''.jpg'')"

section \<open>Reading the folders into the index\<close>

text \<open>One entry: the index after it and whether its file is removed.\<close>

definition index_entry :: "file_list_t \<Rightarrow> int \<Rightarrow> int \<Rightarrow> file_list_t option" where
  "index_entry fl st ed =
     (case (array_set (f_start fl) (f_num fl) (word_of_int st), array_set (f_stop fl) (f_num fl) (word_of_int ed)) of
        (Some ss, Some es) \<Rightarrow> Some (fl\<lparr>f_start := ss, f_stop := es, f_num := f_num fl + 1\<rparr>)
      | _ \<Rightarrow> None)"

definition remove_entry :: "char list \<Rightarrow> char list \<Rightarrow> file_list_t \<Rightarrow> (file_list_t \<times> bool) option" where
  "remove_entry path name fl =
     (if length path + length name < MAX_SYSTEM_STRING_SIZE then Some (fl, True) else None)"

definition scan_entry ::
  "char list \<Rightarrow> (char list \<Rightarrow> bool) \<Rightarrow> dirent \<Rightarrow> file_list_t \<Rightarrow> (file_list_t \<times> bool) option" where
  "scan_entry path present d fl =
     (let name = d_name d in
      if name = ''.'' \<or> name = ''..'' then Some (fl, False)
      else if d_type d = 10 then Some (fl, False)
      else if d_type d = 4 then Some (fl, False)
      else if \<not> is_media name then remove_entry path name fl
      else if recorder_temporary name then remove_entry path name fl
      else if has name ''.jpg'' \<and> \<not> length path + length name < MAX_SYSTEM_STRING_SIZE then None
      else if has name ''.jpg'' \<and> \<not> present (jpg_to_mp4 name) then remove_entry path name fl
      else if has name ''.jpg'' then Some (fl, False)
      else case strstr name ''1'' of None \<Rightarrow> Some (fl, False)
      | Some p \<Rightarrow>
          (case skip_chars 11 p of None \<Rightarrow> None
           | Some q \<Rightarrow>
               if stamp_at p \<ge> stamp_at q then remove_entry path name fl
               else map_option (\<lambda>fl. (fl, False)) (index_entry fl (stamp_at p) (stamp_at q))))"

fun scan_loop ::
  "char list \<Rightarrow> dirent list \<Rightarrow> dirent list \<Rightarrow> file_list_t \<Rightarrow> (dirent list \<times> file_list_t) option" where
  "scan_loop path [] files fl = Some (files, fl)"
| "scan_loop path (d # ds) files fl =
     (case scan_entry path (\<lambda>n. n \<in> d_name ` set files) d fl of None \<Rightarrow> None
      | Some (fl, removed) \<Rightarrow>
          (let files = (if removed then filter (\<lambda>e. d_name e \<noteq> d_name d) files else files) in
           if f_num fl \<ge> MAX_FILE_NUM then Some (files, fl\<lparr>f_num := MAX_FILE_NUM\<rparr>)
           else scan_loop path ds files fl))"

definition scan_folder :: "media_config \<Rightarrow> nat \<Rightarrow> file_manager_t \<Rightarrow> file_manager_t option" where
  "scan_folder mc i s =
     (case folders s ! i of None \<Rightarrow> Some s
      | Some ds \<Rightarrow>
          map_option (\<lambda>(files, fl). s\<lparr>flist := (flist s)[i := fl], folders := (folders s)[i := Some files]\<rparr>)
            (scan_loop (this_path mc i) ds ds (flist s ! i)))"

definition file_manager_read_file_list :: "media_config \<Rightarrow> file_manager_t \<Rightarrow> (int \<times> file_manager_t) option" where
  "file_manager_read_file_list mc s =
     (if fm_init s then Some (0, s)
      else let s = s\<lparr>flist := (flist s)[0 := file_list_zero]\<rparr> in
        case scan_folder mc 0 s of None \<Rightarrow> None | Some s \<Rightarrow>
        case scan_folder mc 1 s of None \<Rightarrow> None | Some s \<Rightarrow>
        case scan_folder mc 2 s of None \<Rightarrow> None | Some s \<Rightarrow>
          Some (0, s\<lparr>fm_init := True\<rparr>))"

definition file_manager_set_reinit :: "file_manager_t \<Rightarrow> int \<times> file_manager_t" where
  "file_manager_set_reinit s =
     (0, if fm_init s then s\<lparr>fm_init := False, flist := replicate 3 file_list_zero\<rparr> else s)"

definition file_manager_check_sd :: "int \<Rightarrow> int" where
  "file_manager_check_sd sd_status = (if sd_status = SD_ALIYUN_STATUS_NORMAL then 0 else - 1)"

section \<open>Looking files up by name and by day\<close>

fun find_type :: "char list \<Rightarrow> char list list \<Rightarrow> nat \<Rightarrow> (nat \<times> char list) option" where
  "find_type fname [] i = None"
| "find_type fname (p # ps) i =
     (case strstr fname p of Some pos \<Rightarrow> Some (i, pos) | None \<Rightarrow> find_type fname ps (i + 1))"

definition file_manager_search_file ::
  "media_config \<Rightarrow> file_manager_t \<Rightarrow> char list \<Rightarrow> node list \<Rightarrow> (int \<times> node list \<times> file_manager_t) option" where
  "file_manager_search_file mc s fname fhead =
     (let fhead = file_manager_node_clear fhead in
      case find_type fname (folder_prefix mc) 0 of
        None \<Rightarrow> Some (- 1, fhead, s)
      | Some (type, pos) \<Rightarrow>
          if f_num (flist s ! type) = 0 then Some (- 1, fhead, s\<lparr>lock_balance := lock_balance s - 1\<rparr>)
          else case skip_chars (length (folder_prefix mc ! type) + 1) pos of None \<Rightarrow> None
          | Some pos \<Rightarrow>
            (case skip_chars 11 pos of None \<Rightarrow> None
             | Some pos' \<Rightarrow>
                 Some (0, file_manager_node_insert fhead (word_of_int (stamp_at pos)) (word_of_int (stamp_at pos')), s)))"

record lv_query_record_response_day =
  file_name :: "char list"
  file_size :: int
  start_time :: u64
  stop_time :: u64
  record_type :: nat

definition media_file_name :: "media_config \<Rightarrow> nat \<Rightarrow> u64 \<Rightarrow> u64 \<Rightarrow> char list" where
  "media_file_name mc j start stop =
     media_directory mc @ folder_prefix mc ! j @ ''/'' @ sprintf_0d 0 (sint start) @ ''_''
       @ sprintf_0d 0 (sint stop) @ ''.mp4''"

definition inside :: "u64 \<Rightarrow> u64 \<Rightarrow> u64 \<times> u64 \<Rightarrow> bool" where
  "inside sr_start sr_stop f = (\<not> fst f < sr_start \<and> \<not> snd f > sr_stop)"

fun count_by_day :: "u64 \<Rightarrow> u64 \<Rightarrow> (u64 \<times> u64) list \<Rightarrow> nat \<Rightarrow> nat" where
  "count_by_day sr_start sr_stop [] num = num"
| "count_by_day sr_start sr_stop (f # fs) num =
     count_by_day sr_start sr_stop fs
       (if fst f < sr_start then num else if snd f > sr_stop then num else num + 1)"

text \<open>
  The fill loop over one list, then over the lists; \<open>True\<close> once \<open>number\<close> entries are filled.
  \<open>None\<close> is a store past the allocated \<open>num\<close> entries.
\<close>

fun fill_list ::
  "media_config \<Rightarrow> (char list \<Rightarrow> int) \<Rightarrow> nat \<Rightarrow> int \<Rightarrow> nat \<Rightarrow> u64 \<Rightarrow> u64 \<Rightarrow> (u64 \<times> u64) list
    \<Rightarrow> lv_query_record_response_day list \<Rightarrow> (bool \<times> lv_query_record_response_day list) option" where
  "fill_list mc sz num number j sr_start sr_stop [] days = Some (False, days)"
| "fill_list mc sz num number j sr_start sr_stop (f # fs) days =
     (if fst f < sr_start then fill_list mc sz num number j sr_start sr_stop fs days
      else if snd f > sr_stop then fill_list mc sz num number j sr_start sr_stop fs days
      else if num \<le> length days then None
      else let fname = media_file_name mc j (fst f) (snd f);
               days = days @ [\<lparr>file_name = fname, file_size = sz fname, start_time = fst f,
                               stop_time = snd f, record_type = j\<rparr>] in
           if int (length days) = number then Some (True, days)
           else fill_list mc sz num number j sr_start sr_stop fs days)"

fun fill_lists ::
  "media_config \<Rightarrow> (char list \<Rightarrow> int) \<Rightarrow> nat \<Rightarrow> int \<Rightarrow> u64 \<Rightarrow> u64 \<Rightarrow> (nat \<times> (u64 \<times> u64) list) list
    \<Rightarrow> lv_query_record_response_day list \<Rightarrow> lv_query_record_response_day list option" where
  "fill_lists mc sz num number sr_start sr_stop [] days = Some days"
| "fill_lists mc sz num number sr_start sr_stop ((j, fs) # rest) days =
     (case fill_list mc sz num number j sr_start sr_stop fs days of
        None \<Rightarrow> None
      | Some (True, days) \<Rightarrow> Some days
      | Some (False, days) \<Rightarrow> fill_lists mc sz num number sr_start sr_stop rest days)"

text \<open>The entries in use.\<close>

definition entries :: "file_list_t \<Rightarrow> (u64 \<times> u64) list" where
  "entries fl = zip (take (f_num fl) (f_start fl)) (take (f_num fl) (f_stop fl))"

definition day_types :: "nat \<Rightarrow> nat list" where
  "day_types type = (if type = LV_STORAGE_RECORD_ANY then [0, 1, 2] else [type])"

text \<open>The result and \<open>by_day.num\<close> with \<open>by_day.days\<close>, when the latter are set.\<close>

definition file_manager_get_file_by_day ::
  "media_config \<Rightarrow> (char list \<Rightarrow> int) \<Rightarrow> file_manager_t \<Rightarrow> nat \<Rightarrow> int \<Rightarrow> u64 \<Rightarrow> u64
    \<Rightarrow> (int \<times> (nat \<times> lv_query_record_response_day list) option) option" where
  "file_manager_get_file_by_day mc sz s type number sr_start sr_stop =
     (if \<not> fm_init s then Some (- 1, None)
      else if \<not> (\<forall>j \<in> set (day_types type). j < length (flist s)) then None
      else let lists = map (\<lambda>j. (j, entries (flist s ! j))) (day_types type);
               num = fold (\<lambda>(j, fs) num. count_by_day sr_start sr_stop fs num) lists 0 in
           if num > 0 \<and> number > 0 then
             let num = (if int num > number then nat number else num) in
             case fill_lists mc sz num number sr_start sr_stop lists [] of
               None \<Rightarrow> None
             | Some days \<Rightarrow> Some (0, Some (num, days))
           else Some (0, Some (0, [])))"

section \<open>Cleaning the card\<close>

definition clean_entry :: "char list \<Rightarrow> u64 \<Rightarrow> dirent \<Rightarrow> bool option" where
  "clean_entry path cutoff_date d =
     (let name = d_name d;
          remove_it = (if length path + length name < 4 * MAX_SYSTEM_STRING_SIZE then Some True else None) in
      if name = ''.'' \<or> name = ''..'' then Some False
      else if d_type d = 10 then Some False
      else if d_type d = 4 then Some False
      else if recorder_temporary name then Some False
      else if \<not> is_media name then remove_it
      else case strstr name ''1'' of None \<Rightarrow> Some False
        | Some p \<Rightarrow> if (word_of_int (stamp_at p) :: u64) < cutoff_date then remove_it else Some False)"

text \<open>The entries of a folder that stay.\<close>

fun clean_folder :: "char list \<Rightarrow> u64 \<Rightarrow> dirent list \<Rightarrow> nat \<Rightarrow> (dirent list \<times> nat) option" where
  "clean_folder path cutoff_date [] deleted = Some ([], deleted)"
| "clean_folder path cutoff_date (d # ds) deleted =
     (case clean_entry path cutoff_date d of None \<Rightarrow> None
      | Some True \<Rightarrow> clean_folder path cutoff_date ds (deleted + 1)
      | Some False \<Rightarrow> map_option (\<lambda>(rest, n). (d # rest, n)) (clean_folder path cutoff_date ds deleted))"

text \<open>One pass over the folders; \<open>False\<close> when one of them cannot be scanned.\<close>

fun clean_pass :: "media_config \<Rightarrow> u64 \<Rightarrow> nat list \<Rightarrow> folder list \<Rightarrow> nat \<Rightarrow> (bool \<times> folder list \<times> nat) option" where
  "clean_pass mc cutoff_date [] fs deleted = Some (True, fs, deleted)"
| "clean_pass mc cutoff_date (j # js) fs deleted =
     (case fs ! j of
        None \<Rightarrow> Some (False, fs, deleted)
      | Some ds \<Rightarrow>
          (case clean_folder (this_path mc j) cutoff_date ds deleted of
             None \<Rightarrow> None
           | Some (ds, deleted) \<Rightarrow> clean_pass mc cutoff_date js (fs[j := Some ds]) deleted))"

datatype 'a run = Undefined | Out_of_fuel | Done 'a

definition next_block_time :: "u64 \<Rightarrow> u64" where
  "next_block_time block_time =
     (let block_time = block_time + 3600 * 4 in
      if block_time < 86400 then block_time else block_time - 1 * 3600)"

fun clean_loop :: "nat \<Rightarrow> media_config \<Rightarrow> u64 \<Rightarrow> u64 \<Rightarrow> file_manager_t \<Rightarrow> (int \<times> file_manager_t) run" where
  "clean_loop 0 mc now block_time s = Out_of_fuel"
| "clean_loop (Suc fuel) mc now block_time s =
     (let cutoff_date = now - 1 * 86400 + block_time in
      case clean_pass mc cutoff_date [0, 1, 2] (folders s) 0 of
        None \<Rightarrow> Undefined
      | Some (False, fs, deleted) \<Rightarrow> Done (- 1, s\<lparr>folders := fs\<rparr>)
      | Some (True, fs, deleted) \<Rightarrow>
          if deleted = 0 then clean_loop fuel mc now (next_block_time block_time) (s\<lparr>folders := fs\<rparr>)
          else Done (0, s\<lparr>folders := fs, lock_balance := lock_balance s - 1\<rparr>))"

definition file_manager_clean_disk :: "nat \<Rightarrow> media_config \<Rightarrow> u64 \<Rightarrow> file_manager_t \<Rightarrow> (int \<times> file_manager_t) run" where
  "file_manager_clean_disk fuel mc now s =
     clean_loop fuel mc now 0 (s\<lparr>lock_balance := lock_balance s + 1\<rparr>)"

section \<open>The binary searches are right\<close>

text \<open>A well-formed index is ordered and its files do not overlap.\<close>

definition index_ok :: "file_list_t \<Rightarrow> bool" where
  "index_ok fl = (length (f_start fl) = MAX_FILE_NUM \<and> length (f_stop fl) = MAX_FILE_NUM
     \<and> f_num fl \<le> MAX_FILE_NUM
     \<and> (\<forall>i < f_num fl. f_start fl ! i < f_stop fl ! i)
     \<and> (\<forall>i < f_num fl. \<forall>j < i. f_stop fl ! j \<le> f_start fl ! i)
     \<and> (\<forall>i < MAX_FILE_NUM. f_num fl \<le> i \<longrightarrow> f_start fl ! i = 0 \<and> f_stop fl ! i = 0))"

definition ascending :: "u64 list \<Rightarrow> nat \<Rightarrow> bool" where
  "ascending xs n = (n \<le> length xs \<and> (\<forall>i < n. \<forall>j < i. xs ! j < xs ! i))"

lemma bisearch_loop_spec:
  assumes "ascending xs n" "0 \<le> low" "low \<le> high + 1" "high < int n"
    and "\<And>i. int i < low \<Longrightarrow> xs ! i < key" and "\<And>i. high < int i \<Longrightarrow> i < n \<Longrightarrow> key < xs ! i"
  shows "(\<exists>i < n. bisearch_loop xs key low high = Some (Inl (int i)) \<and> xs ! i = key)
     \<or> (\<exists>i \<le> n. bisearch_loop xs key low high = Some (Inr (int i))
          \<and> (\<forall>j < i. xs ! j < key) \<and> (\<forall>j. i \<le> j \<longrightarrow> j < n \<longrightarrow> key < xs ! j))"
  (is "?P low high")
  using assms
proof (induction xs key low high rule: bisearch_loop.induct)
  case (1 xs key low high)
  show ?case
  proof (cases "low \<le> high")
    case False
    then have eq: "low = high + 1" using "1.prems" by simp
    then have "bisearch_loop xs key low high = Some (Inr (int (nat low)))"
      using "1.prems"(2) by (subst bisearch_loop.simps) simp
    moreover have "\<forall>j < nat low. xs ! j < key" using "1.prems"(5) by simp
    moreover have "\<forall>j. nat low \<le> j \<longrightarrow> j < n \<longrightarrow> key < xs ! j" using "1.prems"(2,6) eq by simp
    moreover have "nat low \<le> n" using "1.prems"(4) eq by simp
    ultimately show ?thesis by blast
  next
    case True
    define mid where "mid = (low + high) div 2"
    have m: "low \<le> mid" "mid \<le> high" "0 \<le> mid" using True "1.prems"(2) by (auto simp: mid_def)
    then have mn: "nat mid < n" "int (nat mid) = mid" using "1.prems"(4) by auto
    have asc: "\<And>i j. i < n \<Longrightarrow> j < i \<Longrightarrow> xs ! j < xs ! i" and len: "n \<le> length xs"
      using "1.prems"(1) by (auto simp: ascending_def)
    have get: "array_get xs (nat mid) = Some (xs ! nat mid)" using mn(1) len by simp
    consider "key < xs ! nat mid" | "xs ! nat mid < key" | "xs ! nat mid = key" by fastforce
    then show ?thesis
    proof cases
      case 1
      have "\<And>i. mid - 1 < int i \<Longrightarrow> i < n \<Longrightarrow> key < xs ! i"
        using 1 asc [of _ "nat mid"] mn(2) by (metis less_trans linorder_neqE_nat of_nat_less_iff zle_diff1_eq linorder_not_le)
      then show ?thesis
        using "1.IH"(1) [OF True mid_def get 1 "1.prems"(1,2)] "1.prems"(4,5) m 1 get True
        by (subst (1 2) bisearch_loop.simps) (simp add: mid_def [symmetric])
    next
      case 2
      have "\<And>i. int i < mid + 1 \<Longrightarrow> xs ! i < key"
        using 2 asc [of "nat mid"] mn by (metis less_trans linorder_neqE_nat of_nat_less_iff zless_add1_eq)
      moreover have "\<not> key < xs ! nat mid" using 2 by simp
      ultimately show ?thesis
        using "1.IH"(2) [OF True mid_def get _ 2 "1.prems"(1)] "1.prems"(4,6) m 2 get True
        by (subst (1 2) bisearch_loop.simps) (simp add: mid_def [symmetric])
    next
      case 3
      then have "bisearch_loop xs key low high = Some (Inl (int (nat mid)))"
        using True get mn(2) by (subst bisearch_loop.simps) (simp add: mid_def [symmetric])
      then show ?thesis using mn(1) 3 by blast
    qed
  qed
qed

lemma index_ok_ascending:
  assumes "index_ok fl"
  shows "ascending (f_start fl) (f_num fl)" "ascending (f_stop fl) (f_num fl)"
proof -
  have len: "f_num fl \<le> length (f_start fl)" "f_num fl \<le> length (f_stop fl)"
    and own: "\<And>i. i < f_num fl \<Longrightarrow> f_start fl ! i < f_stop fl ! i"
    and next_to: "\<And>i j. i < f_num fl \<Longrightarrow> j < i \<Longrightarrow> f_stop fl ! j \<le> f_start fl ! i"
    using assms by (auto simp: index_ok_def)
  show "ascending (f_start fl) (f_num fl)" unfolding ascending_def
  proof (intro conjI allI impI)
    fix i j assume ij: "i < f_num fl" "j < i"
    show "f_start fl ! j < f_start fl ! i"
      by (rule order.strict_trans2 [OF own next_to]) (use ij in simp_all)
  qed (rule len)
  show "ascending (f_stop fl) (f_num fl)" unfolding ascending_def
  proof (intro conjI allI impI)
    fix i j assume ij: "i < f_num fl" "j < i"
    show "f_stop fl ! j < f_stop fl ! i"
      by (rule order.strict_trans1 [OF next_to own]) (use ij in simp_all)
  qed (rule len)
qed

lemma bisearch_start_spec:
  assumes ok: "index_ok fl" and pos: "0 < f_num fl" and le: "key \<le> f_start fl ! (f_num fl - 1)"
  shows "\<exists>a < f_num fl. file_manager_file_bisearch_start fl key = Some (int a)
     \<and> (a = 0 \<or> f_start fl ! a \<le> key) \<and> (\<forall>j. a < j \<longrightarrow> j < f_num fl \<longrightarrow> key < f_start fl ! j)"
proof -
  let ?xs = "f_start fl" and ?n = "f_num fl"
  have asc: "ascending ?xs ?n" by (rule index_ok_ascending [OF ok])
  have len: "?n \<le> length ?xs" using ok by (simp add: index_ok_def)
  have get: "\<And>i. i < ?n \<Longrightarrow> array_get ?xs i = Some (?xs ! i)" using len by simp
  show ?thesis
  proof (cases "key < ?xs ! 0")
    case True
    then have "\<forall>j. 0 < j \<longrightarrow> j < ?n \<longrightarrow> key < ?xs ! j"
      using asc unfolding ascending_def by (metis less_trans)
    then show ?thesis using True pos get [OF pos]
      by (intro exI [of _ 0]) (simp add: file_manager_file_bisearch_start_def)
  next
    case False
    from bisearch_loop_spec [OF asc, of 0 "int ?n - 1" key] pos
    consider i where "i < ?n" "bisearch_loop ?xs key 0 (int ?n - 1) = Some (Inl (int i))" "?xs ! i = key"
      | i where "i \<le> ?n" "bisearch_loop ?xs key 0 (int ?n - 1) = Some (Inr (int i))"
          "\<forall>j < i. ?xs ! j < key" "\<forall>j. i \<le> j \<longrightarrow> j < ?n \<longrightarrow> key < ?xs ! j"
      by (auto simp: not_le)
    then show ?thesis
    proof cases
      case 1
      then have "\<forall>j. i < j \<longrightarrow> j < ?n \<longrightarrow> key < ?xs ! j" using asc unfolding ascending_def by blast
      then show ?thesis using 1 False get [OF pos]
        by (intro exI [of _ i]) (simp add: file_manager_file_bisearch_start_def)
    next
      case 2
      have "i \<noteq> ?n" using 2(3) le pos by (metis diff_less leD less_one)
      then have i: "i < ?n" using 2(1) by simp
      have "i \<noteq> 0" using 2(4) False i by (metis le0)
      then obtain k where k: "i = Suc k" by (cases i) auto
      have "\<not> ?xs ! i < key" using 2(4) i by (metis less_asym order_refl)
      then have "file_manager_file_bisearch_start fl key = Some (int k)"
        using False get [OF pos] get [OF i] 2(2) k
        by (simp add: file_manager_file_bisearch_start_def nat_add_distrib)
      moreover have "?xs ! k \<le> key" using 2(3) k by (simp add: less_imp_le)
      ultimately show ?thesis using i k 2(4) by (intro exI [of _ k]) (simp add: Suc_le_eq)
    qed
  qed
qed

lemma bisearch_start_past_last:
  assumes ok: "index_ok fl" and pos: "0 < f_num fl"
    and gt: "f_start fl ! (f_num fl - 1) < key"
  shows "file_manager_file_bisearch_start fl key =
    (if f_num fl < MAX_FILE_NUM then Some (int (f_num fl)) else None)"
proof -
  let ?xs = "f_start fl" and ?n = "f_num fl"
  have asc: "ascending ?xs ?n" by (rule index_ok_ascending [OF ok])
  have len: "length ?xs = MAX_FILE_NUM" using ok by (simp add: index_ok_def)
  have all: "\<And>i. i < ?n \<Longrightarrow> ?xs ! i < key"
  proof -
    fix i assume "i < ?n"
    then consider "i = ?n - 1" | "i < ?n - 1" by linarith
    then show "?xs ! i < key"
    proof cases
      case 2
      then have "?xs ! i < ?xs ! (?n - 1)" using asc pos by (simp add: ascending_def)
      then show ?thesis using gt by simp
    qed (use gt in simp)
  qed
  have zero: "array_get ?xs ?n = (if ?n < MAX_FILE_NUM then Some 0 else None)"
    using ok len by (simp add: index_ok_def array_get_def)
  have "bisearch_loop ?xs key 0 (int ?n - 1) = Some (Inr (int ?n))"
    using bisearch_loop_spec [OF asc, of 0 "int ?n - 1" key] pos all
    by (auto simp: not_le) (metis less_asym order_refl nat_less_le)
  moreover have "array_get ?xs 0 = Some (?xs ! 0)" "\<not> key < ?xs ! 0"
    using len all [OF pos] by auto
  moreover have "0 < key" using gt by (metis word_gt_0 not_less0 word_less_nat_alt unat_0 neq0_conv)
  ultimately show ?thesis using zero by (simp add: file_manager_file_bisearch_start_def)
qed

lemma bisearch_stop_spec:
  assumes ok: "index_ok fl" and pos: "0 < f_num fl"
  shows "\<exists>b < f_num fl. file_manager_file_bisearch_stop fl key = Some (int b)
     \<and> (b = f_num fl - 1 \<or> key \<le> f_stop fl ! b) \<and> (\<forall>j < b. f_stop fl ! j < key)"
proof -
  let ?xs = "f_stop fl" and ?n = "f_num fl"
  have asc: "ascending ?xs ?n" by (rule index_ok_ascending [OF ok])
  have len: "?n \<le> length ?xs" using ok by (simp add: index_ok_def)
  have get: "\<And>i. i < ?n \<Longrightarrow> array_get ?xs i = Some (?xs ! i)" using len by simp
  have last: "?n - 1 < ?n" "array_get ?xs (?n - 1) = Some (?xs ! (?n - 1))" using pos get by auto
  show ?thesis
  proof (cases "?xs ! (?n - 1) < key")
    case True
    then have "\<forall>j < ?n - 1. ?xs ! j < key" using asc last(1) unfolding ascending_def by (metis less_trans)
    then show ?thesis using True last pos
      by (intro exI [of _ "?n - 1"]) (simp add: file_manager_file_bisearch_stop_def of_nat_diff)
  next
    case False
    from bisearch_loop_spec [OF asc, of 0 "int ?n - 1" key] pos
    consider i where "i < ?n" "bisearch_loop ?xs key 0 (int ?n - 1) = Some (Inl (int i))" "?xs ! i = key"
      | i where "i \<le> ?n" "bisearch_loop ?xs key 0 (int ?n - 1) = Some (Inr (int i))"
          "\<forall>j < i. ?xs ! j < key" "\<forall>j. i \<le> j \<longrightarrow> j < ?n \<longrightarrow> key < ?xs ! j"
      by (auto simp: not_le)
    then show ?thesis
    proof cases
      case 1
      then have "\<forall>j < i. ?xs ! j < key" using asc unfolding ascending_def by blast
      then show ?thesis using 1 False last pos
        by (intro exI [of _ i]) (simp add: file_manager_file_bisearch_stop_def)
    next
      case 2
      have "i \<noteq> ?n" using 2(3) False last(1) by metis
      then have i: "i < ?n" using 2(1) by simp
      then have "key < ?xs ! i" using 2(4) by simp
      then have "file_manager_file_bisearch_stop fl key = Some (int i)"
        using False last get [OF i] 2(2) pos by (simp add: file_manager_file_bisearch_stop_def)
      then show ?thesis using i 2(3) \<open>key < ?xs ! i\<close> by (intro exI [of _ i]) (simp add: less_imp_le)
    qed
  qed
qed

section \<open>Searching finds the files that overlap a period\<close>

definition overlaps :: "u64 \<Rightarrow> u64 \<Rightarrow> u64 \<times> u64 \<Rightarrow> bool" where
  "overlaps start stop f = (start < snd f \<and> fst f < stop)"

definition as_node :: "u64 \<times> u64 \<Rightarrow> node" where
  "as_node f = (ucast (fst f), ucast (snd f))"

lemma entries_eq:
  assumes "index_ok fl"
  shows "entries fl = map (\<lambda>i. (f_start fl ! i, f_stop fl ! i)) [0..<f_num fl]"
  using assms by (auto simp: entries_def index_ok_def intro!: nth_equalityI)

lemma collect_nodes_eq:
  assumes "index_ok fl" "set is \<subseteq> {..<f_num fl}"
  shows "collect_nodes fl start stop is ns =
    Some (ns @ map as_node (filter (overlaps start stop) (map (\<lambda>i. (f_start fl ! i, f_stop fl ! i)) is)))"
  using assms(2)
proof (induction "is" arbitrary: ns)
  case (Cons i "is")
  have "i < length (f_start fl)" "i < length (f_stop fl)"
    using Cons.prems assms(1) by (auto simp: index_ok_def)
  then show ?case using Cons
    by (simp add: file_manager_node_insert_def as_node_def overlaps_def not_le)
qed simp

lemma search_range_eq:
  assumes ok: "index_ok fl" and pos: "0 < f_num fl" and le: "start \<le> f_start fl ! (f_num fl - 1)"
  shows "(search_range fl start stop = Some None \<and> filter (overlaps start stop) (entries fl) = [])
    \<or> (\<exists>a b. search_range fl start stop = Some (Some (a, b)) \<and> b < f_num fl
      \<and> filter (overlaps start stop) (map (\<lambda>i. (f_start fl ! i, f_stop fl ! i)) [a..<b + 1])
        = filter (overlaps start stop) (entries fl))"
proof -
  let ?e = "\<lambda>i. (f_start fl ! i, f_stop fl ! i)" and ?n = "f_num fl"
  have next_to: "\<And>i j. i < ?n \<Longrightarrow> j < i \<Longrightarrow> f_stop fl ! j \<le> f_start fl ! i" using ok by (simp add: index_ok_def)
  obtain a where a: "a < ?n" "file_manager_file_bisearch_start fl start = Some (int a)"
    "a = 0 \<or> f_start fl ! a \<le> start"
    using bisearch_start_spec [OF ok pos le] by blast
  obtain b where b: "b < ?n" "file_manager_file_bisearch_stop fl stop = Some (int b)"
    "b = ?n - 1 \<or> stop \<le> f_stop fl ! b"
    using bisearch_stop_spec [OF ok pos] by blast
  have low: "\<And>i. i < a \<Longrightarrow> \<not> overlaps start stop (?e i)"
  proof -
    fix i assume i: "i < a"
    then have "f_stop fl ! i \<le> start" using next_to [OF a(1) i] a(3) by auto
    then show "\<not> overlaps start stop (?e i)" by (simp add: overlaps_def not_less)
  qed
  have high: "\<And>i. b < i \<Longrightarrow> i < ?n \<Longrightarrow> \<not> overlaps start stop (?e i)"
  proof -
    fix i assume i: "b < i" "i < ?n"
    then have "stop \<le> f_start fl ! i" using next_to [OF i(2,1)] b(3) by auto
    then show "\<not> overlaps start stop (?e i)" by (simp add: overlaps_def not_less)
  qed
  show ?thesis
  proof (cases "a \<le> b")
  case False
  then have "\<not> overlaps start stop (?e i)" if "i < ?n" for i using low [of i] high [of i] that by (cases "i < a") auto
  then have "filter (overlaps start stop) (entries fl) = []" by (simp add: entries_eq [OF ok] filter_empty_conv)
  moreover have "search_range fl start stop = Some None"
    using a(1,2) b(1,2) False pos by (simp add: search_range_def of_nat_diff)
  ultimately show ?thesis by simp
  next
  case ab: True
  have split: "[0..<?n] = [0..<a] @ [a..<b + 1] @ [b + 1..<?n]"
    using ab b(1) upt_add_eq_append [of 0 a "?n - a"] upt_add_eq_append [of a "b + 1" "?n - (b + 1)"]
    by simp
  have "filter (overlaps start stop) (map ?e [0..<a]) = []"
    using low by (simp add: filter_empty_conv)
  moreover have "filter (overlaps start stop) (map ?e [b + 1..<?n]) = []"
    using high by (simp add: filter_empty_conv)
  ultimately have "filter (overlaps start stop) (map ?e [a..<b + 1]) = filter (overlaps start stop) (entries fl)"
    unfolding entries_eq [OF ok] split by simp
  moreover have "search_range fl start stop = Some (Some (a, b))"
    using a(1,2) b(1,2) ab pos by (simp add: search_range_def of_nat_diff)
  ultimately show ?thesis using b(1) by blast
  qed
qed

lemma search_file_list_range:
  assumes "index_ok fl" "search_range fl start stop = Some (Some (a, b))" "b < f_num fl"
    and "filter (overlaps start stop) (map (\<lambda>i. (f_start fl ! i, f_stop fl ! i)) [a..<b + 1])
      = filter (overlaps start stop) (entries fl)"
  shows "collect_nodes fl start stop [a..<b + 1] [] = Some (map as_node (filter (overlaps start stop) (entries fl)))"
proof -
  have "set [a..<b + 1] \<subseteq> {..<f_num fl}" using assms(3) by auto
  from collect_nodes_eq [OF assms(1) this, of start stop "[]"] show ?thesis
    unfolding assms(4) by simp
qed

text \<open>Behind the start of the newest file the search for the first index runs off the files.\<close>

lemma search_range_past_last:
  assumes "index_ok fl" "0 < f_num fl" "f_start fl ! (f_num fl - 1) < start"
  shows "search_range fl start stop = (if f_num fl < MAX_FILE_NUM then Some None else None)"
proof -
  obtain b where "b < f_num fl" "file_manager_file_bisearch_stop fl stop = Some (int b)"
    using bisearch_stop_spec [OF assms(1,2)] by blast
  then show ?thesis
    using bisearch_start_past_last [OF assms] assms(2) by (simp add: search_range_def of_nat_diff)
qed

text \<open>
  C7: What the search and the check for existence answer on a well-formed index, for every
  period.  When the period starts at the start of the newest file or before, exactly the
  files that overlap it are returned, oldest first, with -1 when there is none; the check agrees.
  When it starts behind, the answer is -1 and no file, also when the newest file overlaps the
  period; if the index is full, both read behind its array.
\<close>

theorem search_file_list_spec:
  assumes "index_ok fl"
  shows "if f_num fl = 0 \<or> start \<le> f_start fl ! (f_num fl - 1)
    then file_manager_search_file_list fl start stop fhead =
        Some (if filter (overlaps start stop) (entries fl) = [] then - 1 else 0,
              map as_node (filter (overlaps start stop) (entries fl)))
      \<and> file_manager_check_file_list fl start stop =
        Some (if filter (overlaps start stop) (entries fl) = [] then - 1 else 0)
    else if f_num fl < MAX_FILE_NUM
    then file_manager_search_file_list fl start stop fhead = Some (- 1, [])
      \<and> file_manager_check_file_list fl start stop = Some (- 1)
    else file_manager_search_file_list fl start stop fhead = None
      \<and> file_manager_check_file_list fl start stop = None"
proof -
  note defs = file_manager_search_file_list_def file_manager_check_file_list_def
  consider "f_num fl = 0" | "0 < f_num fl" "start \<le> f_start fl ! (f_num fl - 1)"
    | "0 < f_num fl" "f_start fl ! (f_num fl - 1) < start" by fastforce
  then show ?thesis
  proof cases
    case 1
    then show ?thesis by (simp add: defs search_range_def entries_def)
  next
    case 2
    from search_range_eq [OF assms 2, of stop] show ?thesis
    proof (elim disjE exE conjE)
      fix a b
      assume r: "search_range fl start stop = Some (Some (a, b))" "b < f_num fl"
        "filter (overlaps start stop) (map (\<lambda>i. (f_start fl ! i, f_stop fl ! i)) [a..<b + 1])
          = filter (overlaps start stop) (entries fl)"
      show ?thesis using 2 r(1) search_file_list_range [OF assms r] by (simp add: defs del: upt_Suc)
    qed (use 2 in \<open>simp add: defs\<close>)
  next
    case 3
    then have "\<not> (f_num fl = 0 \<or> start \<le> f_start fl ! (f_num fl - 1))" by simp
    then show ?thesis using search_range_past_last [OF assms 3, of stop] by (simp only: if_False defs) simp
  qed
qed

text \<open>
  A search for a period that starts inside the newest file answers -1 with no file,
  although that file overlaps the period.
\<close>

theorem search_misses_last_file:
  assumes "index_ok fl" "0 < f_num fl" "f_num fl < MAX_FILE_NUM"
    and "f_start fl ! (f_num fl - 1) < start" "start < f_stop fl ! (f_num fl - 1)" "start < stop"
  shows "file_manager_search_file_list fl start stop fhead = Some (- 1, [])
    \<and> file_manager_check_file_list fl start stop = Some (- 1)
    \<and> filter (overlaps start stop) (entries fl) = [last (entries fl)]"
proof -
  let ?n = "f_num fl" and ?e = "\<lambda>i. (f_start fl ! i, f_stop fl ! i)"
  have "search_range fl start stop = Some None"
    using search_range_past_last [OF assms(1,2,4)] assms(3) by simp
  moreover have "\<not> overlaps start stop (?e i)" if "i < ?n - 1" for i
  proof -
    have "f_stop fl ! i \<le> f_start fl ! (?n - 1)" using assms(1,2) that by (simp add: index_ok_def)
    then show ?thesis using assms(4) by (auto simp: overlaps_def not_less)
  qed
  moreover have "overlaps start stop (?e (?n - 1))"
    using assms(4-6) less_trans [OF assms(4,6)] by (simp add: overlaps_def)
  moreover have "entries fl = map ?e [0..<?n - 1] @ [?e (?n - 1)]"
    using assms(2) entries_eq [OF assms(1)] upt_Suc_append [of 0 "?n - 1"] by simp
  ultimately show ?thesis
    by (simp add: file_manager_search_file_list_def file_manager_check_file_list_def filter_empty_conv)
qed

section \<open>Adding files\<close>

lemma index_ok_zero: "index_ok file_list_zero" "f_num file_list_zero = 0" "entries file_list_zero = []"
  by (simp_all add: index_ok_def file_list_zero_def entries_def)

lemma index_ok_stop_le:
  assumes "index_ok fl" "i < f_num fl"
  shows "f_stop fl ! i \<le> f_stop fl ! (f_num fl - 1)"
proof (cases "i = f_num fl - 1")
  case False
  then have "i < f_num fl - 1" "f_num fl - 1 < f_num fl" using assms(2) by auto
  then show ?thesis using index_ok_ascending(2) [OF assms(1)] by (simp add: ascending_def less_imp_le)
qed simp

lemma add_file_index_ok:
  assumes ok: "index_ok fl" and room: "f_num fl < MAX_FILE_NUM" and le: "start < stop"
    and after: "f_num fl = 0 \<or> f_stop fl ! (f_num fl - 1) \<le> start"
  shows "index_ok (snd (file_manager_add_file fl start stop))"
proof -
  let ?n = "f_num fl" and ?fl = "snd (file_manager_add_file fl start stop)"
  have fl: "f_start ?fl = (f_start fl)[?n := start]" "f_stop ?fl = (f_stop fl)[?n := stop]" "f_num ?fl = ?n + 1"
    using room by (simp_all add: file_manager_add_file_def)
  have len: "length (f_start fl) = MAX_FILE_NUM" "length (f_stop fl) = MAX_FILE_NUM"
    and own: "\<And>i. i < ?n \<Longrightarrow> f_start fl ! i < f_stop fl ! i"
    and next_to: "\<And>i j. i < ?n \<Longrightarrow> j < i \<Longrightarrow> f_stop fl ! j \<le> f_start fl ! i"
    and zero: "\<And>i. i < MAX_FILE_NUM \<Longrightarrow> ?n \<le> i \<Longrightarrow> f_start fl ! i = 0 \<and> f_stop fl ! i = 0"
    using ok by (auto simp: index_ok_def)
  have before: "\<And>j. j < ?n \<Longrightarrow> f_stop fl ! j \<le> start"
  proof -
    fix j assume j: "j < ?n"
    have "f_stop fl ! (?n - 1) \<le> start" using after j by auto
    then show "f_stop fl ! j \<le> start" by (rule order_trans [OF index_ok_stop_le [OF ok j]])
  qed
  show ?thesis unfolding index_ok_def fl
  proof (intro conjI allI impI)
    fix i assume "i < ?n + 1"
    then show "(f_start fl)[?n := start] ! i < (f_stop fl)[?n := stop] ! i"
      using own [of i] le len room by (cases "i = ?n") auto
  next
    fix i j assume "i < ?n + 1" "j < i"
    then show "(f_stop fl)[?n := stop] ! j \<le> (f_start fl)[?n := start] ! i"
      using next_to [of i j] before [of j] len room by (cases "i = ?n") auto
  next
    fix i assume "i < MAX_FILE_NUM" "?n + 1 \<le> i"
    then show "(f_start fl)[?n := start] ! i = 0" "(f_stop fl)[?n := stop] ! i = 0" using zero [of i] by auto
  qed (use len room in simp_all)
qed

lemma add_file_entries:
  assumes "index_ok fl" "f_num fl < MAX_FILE_NUM"
  shows "entries (snd (file_manager_add_file fl start stop)) = entries fl @ [(start, stop)]"
    "f_num (snd (file_manager_add_file fl start stop)) = f_num fl + 1"
proof -
  have "length (f_start fl) = MAX_FILE_NUM" "length (f_stop fl) = MAX_FILE_NUM"
    using assms(1) by (auto simp: index_ok_def)
  then show "entries (snd (file_manager_add_file fl start stop)) = entries fl @ [(start, stop)]"
    using assms(2) by (simp add: entries_def file_manager_add_file_def take_Suc_conv_app_nth)
  show "f_num (snd (file_manager_add_file fl start stop)) = f_num fl + 1"
    using assms(2) by (simp add: file_manager_add_file_def)
qed

text \<open>Recordings in the order they were made, with ten-digit stamps that start with a 1.\<close>

definition recordings_ok :: "(int \<times> int) list \<Rightarrow> bool" where
  "recordings_ok rs = (sorted_wrt (\<lambda>a b. snd a \<le> fst b) rs
     \<and> (\<forall>r \<in> set rs. 1000000000 \<le> fst r \<and> fst r < snd r \<and> snd r < 2000000000))"

definition add_recordings :: "(int \<times> int) list \<Rightarrow> file_list_t \<Rightarrow> file_list_t" where
  "add_recordings rs fl = fold (\<lambda>r fl. snd (file_manager_add_file fl (word_of_int (fst r)) (word_of_int (snd r)))) rs fl"

abbreviation stamps :: "int \<times> int \<Rightarrow> u64 \<times> u64" where
  "stamps r \<equiv> (word_of_int (fst r), word_of_int (snd r))"

lemma stamp_less: "0 \<le> a \<Longrightarrow> b < 2 ^ 63 \<Longrightarrow> a < b \<Longrightarrow> (word_of_int a :: u64) < word_of_int b"
  by (simp add: word_less_def uint_word_of_int)

lemma stamp_le: "0 \<le> a \<Longrightarrow> b < 2 ^ 63 \<Longrightarrow> a \<le> b \<Longrightarrow> (word_of_int a :: u64) \<le> word_of_int b"
  by (simp add: word_le_def uint_word_of_int)

lemma entries_last:
  assumes "index_ok fl" "entries fl \<noteq> []"
  shows "f_stop fl ! (f_num fl - 1) = snd (last (entries fl))"
proof -
  have "f_num fl \<noteq> 0" using assms entries_eq by auto
  then obtain n where "f_num fl = Suc n" by (cases "f_num fl") auto
  then show ?thesis using entries_eq [OF assms(1)] by simp
qed

lemma add_recordings_index:
  assumes "recordings_ok rs" "length rs \<le> MAX_FILE_NUM"
  shows "index_ok (add_recordings rs file_list_zero) \<and> f_num (add_recordings rs file_list_zero) = length rs
    \<and> entries (add_recordings rs file_list_zero) = map stamps rs"
  using assms
proof (induction rs rule: rev_induct)
  case (snoc r rs)
  let ?fl = "add_recordings rs file_list_zero"
  have rs: "recordings_ok rs" "length rs < MAX_FILE_NUM" using snoc.prems by (auto simp: recordings_ok_def sorted_wrt_append)
  then have IH: "index_ok ?fl" "f_num ?fl = length rs" "entries ?fl = map stamps rs" using snoc.IH by auto
  have r: "1000000000 \<le> fst r" "fst r < snd r" "snd r < 2000000000" using snoc.prems(1) by (auto simp: recordings_ok_def)
  have "f_num ?fl = 0 \<or> f_stop ?fl ! (f_num ?fl - 1) \<le> word_of_int (fst r)"
  proof (cases "rs = []")
    case False
    then have "1000000000 \<le> fst (last rs)" "fst (last rs) < snd (last rs)" "snd (last rs) \<le> fst r"
      using snoc.prems(1) by (auto simp: recordings_ok_def sorted_wrt_append)
    then have "(word_of_int (snd (last rs)) :: u64) \<le> word_of_int (fst r)" using r by (intro stamp_le) auto
    then show ?thesis using False entries_last [OF IH(1)] IH(3) by (simp add: last_map)
  qed (use IH in simp)
  moreover have "(word_of_int (fst r) :: u64) < word_of_int (snd r)" using r by (intro stamp_less) auto
  moreover have "f_num ?fl < MAX_FILE_NUM" using IH(2) rs(2) by simp
  ultimately show ?case
    using add_file_index_ok [OF IH(1)] add_file_entries [OF IH(1)] IH(2,3)
    by (simp only: add_recordings_def fold_append fold_simps o_apply id_apply length_append list.size map_append list.map)
       (simp del: stamp_less stamp_le)
qed (simp add: add_recordings_def index_ok_zero)

section \<open>Reading the folders rebuilds the index\<close>

definition recording_name :: "int \<times> int \<Rightarrow> char list" where
  "recording_name r = sprintf_0d 0 (fst r) @ ''_'' @ sprintf_0d 0 (snd r) @ ''.mp4''"

definition recording_entry :: "int \<times> int \<Rightarrow> dirent" where
  "recording_entry r = \<lparr>d_name = recording_name r, d_type = 8\<rparr>"

lemma sprintf_0d_stamp:
  assumes "1000000000 \<le> i" "i < 2000000000"
  shows "sprintf_0d 0 i = CHR ''1'' # digits 9 (nat i - 1000000000)" "sprintf_0d 0 i = digits 10 (nat i)"
proof -
  have d: "dec_string n = digits (Suc w) n" if "10 ^ w \<le> n" "n < 10 ^ Suc w" for w n
    using that
  proof (induction w arbitrary: n)
    case (Suc w)
    then have "10 ^ w \<le> n div 10" "n div 10 < 10 ^ Suc w" by auto
    moreover have "(1 :: nat) \<le> 10 ^ w" by simp
    then have "\<not> n < 10" using Suc.prems(1) unfolding power_Suc by linarith
    ultimately have "10 ^ w \<le> n div 10" "n div 10 < 10 ^ Suc w" "\<not> n < 10" by auto
    then show ?case using Suc.IH [of "n div 10"] by (subst dec_string.simps) simp
  qed (simp add: dec_string.simps)
  have n: "10 ^ 9 \<le> nat i" "nat i < 10 ^ Suc 9" using assms by auto
  then show all: "sprintf_0d 0 i = digits 10 (nat i)" using d [OF n] assms by (simp add: sprintf_0d_def)
  have first: "digits (Suc w) (10 ^ w + k) = CHR ''1'' # digits w k" if "k < 10 ^ w" for w k
    using that
  proof (induction w arbitrary: k)
    case 0
    have "digit_char 1 = CHR ''1''" by code_simp
    then show ?case using 0 by simp
  next
    case (Suc w)
    have "(10 ^ Suc w + k) div 10 = 10 ^ w + k div 10" "(10 ^ Suc w + k) mod 10 = k mod 10" by simp_all
    moreover have "k div 10 < 10 ^ w" using Suc.prems by (simp add: less_mult_imp_div_less mult.commute)
    ultimately show ?case using Suc.IH [of "k div 10"] by (subst digits.simps) (simp del: power_Suc)
  qed
  have "nat i = 10 ^ 9 + (nat i - 1000000000)" "nat i - 1000000000 < 10 ^ 9" using n assms by auto
  then show "sprintf_0d 0 i = CHR ''1'' # digits 9 (nat i - 1000000000)"
    using first [of "nat i - 1000000000" 9] all by simp
qed

lemma stamp_chars:
  assumes "1000000000 \<le> fst r" "fst r < 2000000000" "1000000000 \<le> snd r" "snd r < 2000000000"
  shows "recording_name r = digits 10 (nat (fst r)) @ ''_'' @ digits 10 (nat (snd r)) @ ''.mp4''"
    "\<exists>cs. recording_name r = CHR ''1'' # cs"
  using assms by (auto simp: recording_name_def sprintf_0d_stamp(2)) (simp add: sprintf_0d_stamp(1) flip: sprintf_0d_stamp(2))

lemma has_in_name:
  assumes "needle = n # ns" "\<not> is_digit n" "n \<noteq> CHR ''_''"
  shows "has (digits k x @ ''_'' @ digits l y @ suffix) needle = has suffix needle"
proof -
  have "n \<notin> set (digits k x)" "n \<notin> set (digits l y)" using assms(2) digits_are_digits by blast+
  then have "n \<notin> set (digits k x @ ''_'' @ digits l y)" using assms(3) by simp
  from strstr_skip [OF assms(1) this, of suffix] show ?thesis by (simp add: has_def)
qed

lemma recording_name_class:
  assumes "1000000000 \<le> fst r" "fst r < 2000000000" "1000000000 \<le> snd r" "snd r < 2000000000"
  shows "is_media (recording_name r)" "\<not> recorder_temporary (recording_name r)"
    "\<not> has (recording_name r) ''.jpg''" "recording_name r \<noteq> ''.''" "recording_name r \<noteq> ''..''"
proof -
  have d: "\<not> is_digit CHR ''.''" "\<not> is_digit CHR ''s''" "\<not> is_digit CHR ''n''" "\<not> is_digit CHR ''p''" "\<not> is_digit CHR ''a''"
    by (simp_all add: is_digit_def)
  have h: "has (recording_name r) (n # ns) = has ''.mp4'' (n # ns)" if "\<not> is_digit n" "n \<noteq> CHR ''_''" for n ns
    unfolding stamp_chars(1) [OF assms] by (rule has_in_name [OF refl that])
  have e: "has ''.mp4'' ''.mp4''" "\<not> has ''.mp4'' ''.jpg''" "\<not> has ''.mp4'' ''snap-''"
    "\<not> has ''.mp4'' ''normal-''" "\<not> has ''.mp4'' ''plan-''" "\<not> has ''.mp4'' ''alarm-''"
    by (simp_all add: has_def)
  show "is_media (recording_name r)" "\<not> recorder_temporary (recording_name r)" "\<not> has (recording_name r) ''.jpg''"
    using d e by (simp_all add: is_media_def recorder_temporary_def h)
  show "recording_name r \<noteq> ''.''" "recording_name r \<noteq> ''..''"
    using stamp_chars(2) [OF assms] by auto
qed

lemma recording_stamps:
  assumes "1000000000 \<le> fst r" "fst r < 2000000000" "1000000000 \<le> snd r" "snd r < 2000000000"
  shows "strstr (recording_name r) ''1'' = Some (recording_name r)"
    "stamp_at (recording_name r) = fst r"
    "\<exists>q. skip_chars 11 (recording_name r) = Some q \<and> stamp_at q = snd r"
proof -
  have val: "atoi (digits 10 (nat i)) = i" if "1000000000 \<le> i" "i < 2000000000" for i
    using atoi_of_digits [of "nat i" 10 "[]"] that by (simp add: nat_less_iff)
  show "strstr (recording_name r) ''1'' = Some (recording_name r)"
    using stamp_chars(2) [OF assms] by auto
  show "stamp_at (recording_name r) = fst r"
    using assms val by (simp add: stamp_at_def stamp_chars(1) [OF assms])
  show "\<exists>q. skip_chars 11 (recording_name r) = Some q \<and> stamp_at q = snd r"
    using assms val by (simp add: stamp_at_def skip_chars_def stamp_chars(1) [OF assms])
qed

text \<open>
  What a folder holds: directories (\<open>.\<close> and \<open>..\<close> among them) and links, recordings, the
  picture of a recording, recordings that end before they start, and other files.
\<close>

datatype folder_item = Directory "char list" | Link "char list" | Recording "int \<times> int" | Picture "int \<times> int"
  | Backwards "int \<times> int" | Rubbish "char list"

definition picture_name :: "int \<times> int \<Rightarrow> char list" where
  "picture_name r = sprintf_0d 0 (fst r) @ ''_'' @ sprintf_0d 0 (snd r) @ ''.jpg''"

fun item_name :: "folder_item \<Rightarrow> char list" where
  "item_name (Directory n) = n"
| "item_name (Link n) = n"
| "item_name (Recording r) = recording_name r"
| "item_name (Picture r) = picture_name r"
| "item_name (Backwards r) = recording_name r"
| "item_name (Rubbish n) = n"

definition item_entry :: "folder_item \<Rightarrow> dirent" where
  "item_entry x = \<lparr>d_name = item_name x, d_type = (case x of Directory n \<Rightarrow> 4 | Link n \<Rightarrow> 10 | _ \<Rightarrow> 8)\<rparr>"

fun recordings_of :: "folder_item list \<Rightarrow> (int \<times> int) list" where
  "recordings_of [] = []"
| "recordings_of (Recording r # xs) = r # recordings_of xs"
| "recordings_of (x # xs) = recordings_of xs"

definition ten_digits :: "int \<Rightarrow> bool" where
  "ten_digits i = (1000000000 \<le> i \<and> i < 2000000000)"

text \<open>
  The items the scan can meet, by the names that are in the folder: the paths fit the buffers, and
  another file is one that is no media file, a temporary file of the recorder, or a picture
  without its recording.
\<close>

fun item_ok :: "char list \<Rightarrow> char list set \<Rightarrow> folder_item \<Rightarrow> bool" where
  "item_ok path names (Directory n) = True"
| "item_ok path names (Link n) = True"
| "item_ok path names (Recording r) = (ten_digits (fst r) \<and> ten_digits (snd r) \<and> fst r < snd r)"
| "item_ok path names (Picture r) = (ten_digits (fst r) \<and> ten_digits (snd r) \<and> recording_name r \<in> names
     \<and> length path + length (picture_name r) < MAX_SYSTEM_STRING_SIZE)"
| "item_ok path names (Backwards r) = (ten_digits (fst r) \<and> ten_digits (snd r) \<and> snd r \<le> fst r
     \<and> length path + length (recording_name r) < MAX_SYSTEM_STRING_SIZE)"
| "item_ok path names (Rubbish n) = (n \<noteq> ''.'' \<and> n \<noteq> ''..'' \<and> length path + length n < MAX_SYSTEM_STRING_SIZE
     \<and> (\<not> is_media n \<or> recorder_temporary n \<or> has n ''.jpg'' \<and> jpg_to_mp4 n \<notin> names))"

fun rubbish :: "folder_item \<Rightarrow> bool" where
  "rubbish (Rubbish n) = True"
| "rubbish (Backwards r) = True"
| "rubbish x = False"

text \<open>
  A folder: the names differ, and a picture has its recording.
\<close>

definition folder_ok :: "char list \<Rightarrow> folder_item list \<Rightarrow> bool" where
  "folder_ok path items = (distinct (map item_name items)
     \<and> (\<forall>x \<in> set items. item_ok path (set (map item_name items)) x)
     \<and> (\<forall>x \<in> set items. case x of Picture r \<Rightarrow> Recording r \<in> set items | _ \<Rightarrow> True)
     \<and> recordings_ok (recordings_of items))"

text \<open>What stays of a folder when \<open>room\<close> more recordings fit the index: the scan stops when it is full.\<close>

fun tidied :: "nat \<Rightarrow> folder_item list \<Rightarrow> folder_item list" where
  "tidied room [] = []"
| "tidied room (x # xs) =
     (if rubbish x then tidied room xs
      else case x of
        Recording r \<Rightarrow> x # (if room \<le> 1 then xs else tidied (room - 1) xs)
      | _ \<Rightarrow> x # tidied room xs)"

lemma tidied_room:
  "length (recordings_of items) < room \<Longrightarrow> tidied room items = filter (\<lambda>x. \<not> rubbish x) items"
  by (induction items arbitrary: room rule: recordings_of.induct) auto

lemma picture_chars:
  assumes "ten_digits (fst r)" "ten_digits (snd r)"
  shows "picture_name r = digits 10 (nat (fst r)) @ ''_'' @ digits 10 (nat (snd r)) @ ''.jpg''"
    "\<exists>cs. picture_name r = CHR ''1'' # cs" "jpg_to_mp4 (picture_name r) = recording_name r"
  using assms by (auto simp: ten_digits_def picture_name_def recording_name_def jpg_to_mp4_def sprintf_0d_stamp(2))
    (simp add: sprintf_0d_stamp(1) flip: sprintf_0d_stamp(2))

lemma picture_name_class:
  assumes "ten_digits (fst r)" "ten_digits (snd r)"
  shows "is_media (picture_name r)" "\<not> recorder_temporary (picture_name r)"
    "has (picture_name r) ''.jpg''" "picture_name r \<noteq> ''.''" "picture_name r \<noteq> ''..''"
proof -
  have d: "\<not> is_digit CHR ''.''" "\<not> is_digit CHR ''s''" "\<not> is_digit CHR ''n''" "\<not> is_digit CHR ''p''" "\<not> is_digit CHR ''a''"
    by (simp_all add: is_digit_def)
  have h: "has (picture_name r) (n # ns) = has ''.jpg'' (n # ns)" if "\<not> is_digit n" "n \<noteq> CHR ''_''" for n ns
    unfolding picture_chars(1) [OF assms] by (rule has_in_name [OF refl that])
  have e: "has ''.jpg'' ''.jpg''" "\<not> has ''.jpg'' ''snap-''"
    "\<not> has ''.jpg'' ''normal-''" "\<not> has ''.jpg'' ''plan-''" "\<not> has ''.jpg'' ''alarm-''"
    by (simp_all add: has_def)
  show "is_media (picture_name r)" "\<not> recorder_temporary (picture_name r)" "has (picture_name r) ''.jpg''"
    using d e by (simp_all add: is_media_def recorder_temporary_def h)
  show "picture_name r \<noteq> ''.''" "picture_name r \<noteq> ''..''"
    using picture_chars(2) [OF assms] by auto
qed

text \<open>One item.\<close>

lemma scan_item:
  assumes "item_ok path names x" "\<And>n. present n \<Longrightarrow> n \<in> names" "\<And>r. x = Picture r \<Longrightarrow> present (recording_name r)"
    and "length (f_start fl) = MAX_FILE_NUM" "length (f_stop fl) = MAX_FILE_NUM" "f_num fl < MAX_FILE_NUM"
  shows "scan_entry path present (item_entry x) fl = Some (add_recordings (recordings_of [x]) fl, rubbish x)"
proof (cases x)
  case (Recording r)
  then have r: "1000000000 \<le> fst r" "fst r < 2000000000" "1000000000 \<le> snd r" "snd r < 2000000000" "fst r < snd r"
    using assms(1) by (simp_all add: ten_digits_def)
  obtain q where q: "skip_chars 11 (recording_name r) = Some q" "stamp_at q = snd r"
    using recording_stamps(3) [OF r(1-4)] by blast
  show ?thesis
    using Recording r(5) q recording_stamps(1,2) [OF r(1-4)] recording_name_class [OF r(1-4)] assms(4-6)
    by (simp add: scan_entry_def item_entry_def index_entry_def array_set_def file_manager_add_file_def add_recordings_def)
next
  case (Backwards r)
  then have r: "1000000000 \<le> fst r" "fst r < 2000000000" "1000000000 \<le> snd r" "snd r < 2000000000" "snd r \<le> fst r"
    "length path + length (recording_name r) < MAX_SYSTEM_STRING_SIZE"
    using assms(1) by (simp_all add: ten_digits_def)
  obtain q where q: "skip_chars 11 (recording_name r) = Some q" "stamp_at q = snd r"
    using recording_stamps(3) [OF r(1-4)] by blast
  show ?thesis
    using Backwards r(5,6) q recording_stamps(1,2) [OF r(1-4)] recording_name_class [OF r(1-4)]
    by (simp add: scan_entry_def item_entry_def remove_entry_def add_recordings_def)
next
  case (Picture r)
  then have r: "ten_digits (fst r)" "ten_digits (snd r)" "length path + length (picture_name r) < MAX_SYSTEM_STRING_SIZE"
    "present (recording_name r)"
    using assms(1,3) by simp_all
  show ?thesis
    using Picture r(3,4) picture_name_class [OF r(1,2)] picture_chars(3) [OF r(1,2)]
    by (simp add: scan_entry_def item_entry_def add_recordings_def)
next
  case (Rubbish n)
  have "n \<noteq> ''.''" "n \<noteq> ''..''" "length path + length n < MAX_SYSTEM_STRING_SIZE"
    "\<not> is_media n \<or> recorder_temporary n \<or> has n ''.jpg'' \<and> \<not> present (jpg_to_mp4 n)"
    using assms(1,2) Rubbish by auto
  then show ?thesis
    using Rubbish by (auto simp: scan_entry_def item_entry_def remove_entry_def add_recordings_def Let_def)
qed (simp_all add: scan_entry_def item_entry_def add_recordings_def)

lemma add_recordings_append: "add_recordings (rs @ rs') fl = add_recordings rs' (add_recordings rs fl)"
  by (simp add: add_recordings_def)

lemma add_recordings_full: "f_num fl \<ge> MAX_FILE_NUM \<Longrightarrow> add_recordings rs fl = fl"
  by (induction rs) (simp_all add: add_recordings_def file_manager_add_file_def)

lemma recordings_of_Cons: "recordings_of (x # xs) = recordings_of [x] @ recordings_of xs"
  by (cases x) simp_all

lemma add_item_fields:
  assumes "length (f_start fl) = MAX_FILE_NUM" "length (f_stop fl) = MAX_FILE_NUM" "f_num fl < MAX_FILE_NUM"
  shows "length (f_start (add_recordings (recordings_of [x]) fl)) = MAX_FILE_NUM"
    "length (f_stop (add_recordings (recordings_of [x]) fl)) = MAX_FILE_NUM"
    "f_num (add_recordings (recordings_of [x]) fl) = f_num fl + length (recordings_of [x])"
  using assms by (cases x; simp add: add_recordings_def file_manager_add_file_def)+

text \<open>The loop, with the items it has kept and those it has before it.\<close>

lemma scan_items:
  assumes "distinct (map item_name (kept @ todo))" "\<forall>x \<in> set todo. item_ok path names x"
    and "item_name ` set (kept @ todo) \<subseteq> names"
    and "\<And>r. Picture r \<in> set todo \<Longrightarrow> Recording r \<in> set (kept @ todo)"
    and "length (f_start fl) = MAX_FILE_NUM" "length (f_stop fl) = MAX_FILE_NUM" "f_num fl < MAX_FILE_NUM"
  shows "scan_loop path (map item_entry todo) (map item_entry (kept @ todo)) fl =
    Some (map item_entry (kept @ tidied (MAX_FILE_NUM - f_num fl) todo), add_recordings (recordings_of todo) fl)"
  using assms
proof (induction todo arbitrary: kept fl)
  case Nil
  then show ?case by (simp add: add_recordings_def)
next
  case (Cons x todo)
  let ?files = "map item_entry (kept @ x # todo)" and ?fl = "add_recordings (recordings_of [x]) fl"
  have d: "d_name (item_entry y) = item_name y" for y by (simp add: item_entry_def)
  have names: "d_name ` set ?files = item_name ` set (kept @ x # todo)" by (simp only: set_map image_image d)
  have entry: "scan_entry path (\<lambda>n. n \<in> d_name ` set ?files) (item_entry x) fl = Some (?fl, rubbish x)"
  proof (rule scan_item)
    show "item_ok path names x" using Cons.prems(2) by simp
    show "n \<in> names" if "n \<in> d_name ` set ?files" for n using that Cons.prems(3) unfolding names by blast
    show "recording_name r \<in> d_name ` set ?files" if "x = Picture r" for r
    proof -
      have "Recording r \<in> set (kept @ x # todo)" by (rule Cons.prems(4)) (simp add: that)
      then have "item_name (Recording r) \<in> item_name ` set (kept @ x # todo)" by (rule imageI)
      then show ?thesis unfolding names by simp
    qed
  qed (rule Cons.prems(5-7))+
  have add: "add_recordings (recordings_of (x # todo)) fl = add_recordings (recordings_of todo) ?fl"
    by (simp only: recordings_of_Cons [of x todo] add_recordings_append)
  note fields = add_item_fields [OF Cons.prems(5-7), of x]
  show ?case
  proof (cases "rubbish x")
    case True
    have gone: "filter (\<lambda>e. d_name e \<noteq> d_name (item_entry x)) ?files = map item_entry (kept @ todo)"
    proof -
      have "item_name y \<noteq> item_name x" if "y \<in> set kept \<or> y \<in> set todo" for y
        using Cons.prems(1) that by (auto simp: image_iff)
      then have "filter (\<lambda>y. item_name y \<noteq> item_name x) kept = kept" "filter (\<lambda>y. item_name y \<noteq> item_name x) todo = todo"
        by (simp_all add: filter_id_conv)
      then show ?thesis by (simp add: filter_map o_def d)
    qed
    have same: "recordings_of [x] = []" using True by (cases x) simp_all
    have "scan_loop path (map item_entry todo) (map item_entry (kept @ todo)) fl =
      Some (map item_entry (kept @ tidied (MAX_FILE_NUM - f_num fl) todo), add_recordings (recordings_of todo) fl)"
    proof (rule Cons.IH)
      show "Recording r \<in> set (kept @ todo)" if "Picture r \<in> set todo" for r
        using Cons.prems(4) [of r] that True by auto
    qed (use Cons.prems in auto)
    moreover have "?fl = fl" by (simp add: same add_recordings_def)
    ultimately show ?thesis using True Cons.prems(7) gone entry add by (simp add: same)
  next
    case False
    have next_turn: "scan_loop path (map item_entry (x # todo)) ?files fl =
      (if f_num ?fl \<ge> MAX_FILE_NUM then Some (?files, ?fl\<lparr>f_num := MAX_FILE_NUM\<rparr>)
       else scan_loop path (map item_entry todo) ?files ?fl)"
      using entry False by simp
    show ?thesis
    proof (cases "f_num ?fl < MAX_FILE_NUM")
      case True
      have "scan_loop path (map item_entry todo) (map item_entry ((kept @ [x]) @ todo)) ?fl =
        Some (map item_entry ((kept @ [x]) @ tidied (MAX_FILE_NUM - f_num ?fl) todo), add_recordings (recordings_of todo) ?fl)"
      proof (rule Cons.IH)
        show "Recording r \<in> set ((kept @ [x]) @ todo)" if "Picture r \<in> set todo" for r
          using Cons.prems(4) [of r] that by auto
      qed (use Cons.prems fields True in auto)
      moreover have "tidied (MAX_FILE_NUM - f_num fl) (x # todo) = x # tidied (MAX_FILE_NUM - f_num ?fl) todo"
        using False True fields(3) by (cases x) (simp_all, auto)
      ultimately show ?thesis unfolding next_turn add using True by simp
    next
      case full: False
      then have one: "recordings_of [x] \<noteq> []" "f_num fl + length (recordings_of [x]) \<ge> MAX_FILE_NUM"
        using fields(3) Cons.prems(7) by auto
      then obtain r where x: "x = Recording r" by (cases x) simp_all
      have room: "MAX_FILE_NUM - f_num fl \<le> 1" "f_num ?fl = MAX_FILE_NUM"
        using one(2) fields(3) Cons.prems(7) unfolding x by simp_all
      have "?fl\<lparr>f_num := MAX_FILE_NUM\<rparr> = ?fl" using room(2) by simp
      moreover have "add_recordings (recordings_of todo) ?fl = ?fl" by (rule add_recordings_full) (simp add: room(2))
      moreover have "tidied (MAX_FILE_NUM - f_num fl) (x # todo) = x # todo" using room(1) by (simp add: x)
      ultimately show ?thesis unfolding next_turn add using full by simp
    qed
  qed
qed

lemma add_recordings_taken:
  assumes "recordings_ok rs"
  shows "index_ok (add_recordings rs file_list_zero)
    \<and> entries (add_recordings rs file_list_zero) = map stamps (take MAX_FILE_NUM rs)"
proof -
  have "recordings_ok (take MAX_FILE_NUM rs)"
    using assms sorted_wrt_take [of _ rs] by (auto simp: recordings_ok_def dest: in_set_takeD)
  from add_recordings_index [OF this]
  have taken: "index_ok (add_recordings (take MAX_FILE_NUM rs) file_list_zero)"
    "f_num (add_recordings (take MAX_FILE_NUM rs) file_list_zero) = min (length rs) MAX_FILE_NUM"
    "entries (add_recordings (take MAX_FILE_NUM rs) file_list_zero) = map stamps (take MAX_FILE_NUM rs)"
    by simp_all
  have "add_recordings rs file_list_zero =
      add_recordings (drop MAX_FILE_NUM rs) (add_recordings (take MAX_FILE_NUM rs) file_list_zero)"
    by (simp flip: add_recordings_append)
  also have "\<dots> = add_recordings (take MAX_FILE_NUM rs) file_list_zero"
  proof (cases "length rs \<le> MAX_FILE_NUM")
    case True
    then show ?thesis by (simp add: add_recordings_def)
  next
    case False
    then show ?thesis using taken(2) by (intro add_recordings_full) linarith
  qed
  finally show ?thesis using taken by simp
qed

text \<open>
  C8: After a restart the scan of a folder rebuilds the index that registering its recordings
  one by one had produced, and that index is well formed and holds them (the first 1440).  The
  folder holds its directories and links, the recordings with their pictures, and what does not
  belong there, in any order: the recordings and the pictures stay, the files that are no media, the
  temporary files, the pictures without a recording and the recordings that end before
  they start are removed (until the index is full, when the scan stops).
\<close>

theorem rescan_rebuilds_index:
  assumes "folder_ok (this_path mc i) items"
    and "i < length (flist s)" "flist s ! i = file_list_zero" "folders s ! i = Some (map item_entry items)"
  shows "scan_folder mc i s = Some (s\<lparr>
      flist := (flist s)[i := add_recordings (recordings_of items) file_list_zero],
      folders := (folders s)[i := Some (map item_entry (if length (recordings_of items) < MAX_FILE_NUM
        then filter (\<lambda>x. \<not> rubbish x) items else tidied MAX_FILE_NUM items))]\<rparr>)
    \<and> index_ok (add_recordings (recordings_of items) file_list_zero)
    \<and> entries (add_recordings (recordings_of items) file_list_zero) = map stamps (take MAX_FILE_NUM (recordings_of items))"
proof -
  have zero: "length (f_start file_list_zero) = MAX_FILE_NUM" "length (f_stop file_list_zero) = MAX_FILE_NUM"
    "f_num file_list_zero = 0"
    by (simp_all add: file_list_zero_def)
  have "scan_loop (this_path mc i) (map item_entry items) (map item_entry ([] @ items)) file_list_zero
      = Some (map item_entry ([] @ tidied (MAX_FILE_NUM - f_num file_list_zero) items), add_recordings (recordings_of items) file_list_zero)"
  proof (rule scan_items)
    show "Recording r \<in> set ([] @ items)" if "Picture r \<in> set items" for r
      using assms(1) that unfolding folder_ok_def by (auto dest!: bspec [OF _ that])
  qed (use assms(1) zero in \<open>auto simp: folder_ok_def\<close>)
  then have "scan_folder mc i s = Some (s\<lparr>flist := (flist s)[i := add_recordings (recordings_of items) file_list_zero],
      folders := (folders s)[i := Some (map item_entry (tidied MAX_FILE_NUM items))]\<rparr>)"
    using assms(3,4) zero(3) by (simp add: scan_folder_def)
  moreover have "recordings_ok (recordings_of items)" using assms(1) by (simp add: folder_ok_def)
  ultimately show ?thesis using add_recordings_taken tidied_room [of items MAX_FILE_NUM] by simp
qed

section \<open>The files of a day\<close>

definition day_record :: "media_config \<Rightarrow> (char list \<Rightarrow> int) \<Rightarrow> nat \<times> u64 \<times> u64 \<Rightarrow> lv_query_record_response_day" where
  "day_record mc sz jf = (case jf of (j, f) \<Rightarrow>
     \<lparr>file_name = media_file_name mc j (fst f) (snd f), file_size = sz (media_file_name mc j (fst f) (snd f)),
      start_time = fst f, stop_time = snd f, record_type = j\<rparr>)"

definition day_files :: "file_manager_t \<Rightarrow> nat \<Rightarrow> u64 \<Rightarrow> u64 \<Rightarrow> (nat \<times> u64 \<times> u64) list" where
  "day_files s type sr_start sr_stop =
     concat (map (\<lambda>j. map (Pair j) (filter (inside sr_start sr_stop) (entries (flist s ! j)))) (day_types type))"

lemma count_by_day_eq: "count_by_day a b fs num = num + length (filter (inside a b) fs)"
  by (induction fs arbitrary: num) (auto simp: inside_def)

lemma fill_list_eq:
  assumes "int (length days) < number" "min (nat number) (length days + length (filter (inside a b) fs)) \<le> num"
  shows "fill_list mc sz num number j a b fs days =
    Some (number \<le> int (length days + length (filter (inside a b) fs)),
          days @ map (day_record mc sz) (take (nat number - length days) (map (Pair j) (filter (inside a b) fs))))"
  using assms
proof (induction fs arbitrary: days)
  case (Cons f fs)
  show ?case
  proof (cases "inside a b f")
    case False
    then show ?thesis using Cons.IH [of days] Cons.prems by (auto simp: inside_def)
  next
    case True
    let ?days = "days @ [day_record mc sz (j, f)]"
    obtain k where k: "nat number - length days = Suc k" using Cons.prems(1) by (cases "nat number - length days") auto
    have "length days < num" using Cons.prems True by (auto simp: min_def split: if_splits)
    then have step: "fill_list mc sz num number j a b (f # fs) days =
        (if int (length ?days) = number then Some (True, ?days) else fill_list mc sz num number j a b fs ?days)"
      using True by (simp add: inside_def day_record_def Let_def)
    show ?thesis
    proof (cases "int (length ?days) = number")
      case full: True
      then have "k = 0" using k by simp
      then show ?thesis using full True k unfolding step by simp
    next
      case False
      then have "int (length ?days) < number" using Cons.prems(1) by simp
      moreover have "min (nat number) (length ?days + length (filter (inside a b) fs)) \<le> num"
        using Cons.prems(2) True by simp
      moreover have "nat number - length ?days = k" using k by simp
      ultimately show ?thesis using False Cons.IH [of ?days] True k unfolding step by simp
    qed
  qed
qed simp

lemma fill_lists_eq:
  assumes "int (length days) < number"
    and "min (nat number) (length days + (\<Sum>(j, fs) \<leftarrow> fls. length (filter (inside a b) fs))) \<le> num"
  shows "fill_lists mc sz num number a b fls days =
    Some (days @ map (day_record mc sz) (take (nat number - length days)
      (concat (map (\<lambda>(j, fs). map (Pair j) (filter (inside a b) fs)) fls))))"
  using assms
proof (induction fls arbitrary: days)
  case (Cons jf fls)
  obtain j fs where jf: "jf = (j, fs)" by fastforce
  let ?k = "length (filter (inside a b) fs)"
  let ?days = "days @ map (day_record mc sz) (take (nat number - length days) (map (Pair j) (filter (inside a b) fs)))"
  have "min (nat number) (length days + ?k) \<le> num" using Cons.prems(2) by (simp add: jf)
  from fill_list_eq [OF Cons.prems(1) this]
  have fill: "fill_list mc sz num number j a b fs days = Some (number \<le> int (length days + ?k), ?days)" .
  show ?case
  proof (cases "number \<le> int (length days + ?k)")
    case True
    then have "nat number - length days \<le> ?k" by linarith
    then show ?thesis using fill True by (simp add: jf)
  next
    case False
    then have le: "?k \<le> nat number - length days" "length ?days = length days + ?k" by auto
    then have "int (length ?days) < number" using False by linarith
    moreover have "min (nat number) (length ?days + (\<Sum>(j, fs) \<leftarrow> fls. length (filter (inside a b) fs))) \<le> num"
      using Cons.prems(2) le(2) by (simp add: jf add.assoc)
    ultimately have "fill_lists mc sz num number a b fls ?days =
      Some (?days @ map (day_record mc sz) (take (nat number - length ?days)
        (concat (map (\<lambda>(j, fs). map (Pair j) (filter (inside a b) fs)) fls))))"
      by (rule Cons.IH)
    moreover have "nat number - length ?days = nat number - length days - ?k" using le(2) by simp
    ultimately show ?thesis using fill False le(1) by (simp add: jf)
  qed
qed simp

text \<open>
  A query by day answers with the first \<open>number\<close> files that lie wholly inside the period,
  list by list, each under the name of its recording; the count it reports is the number of
  entries it filled, so none is left uninitialised, and nothing is stored past the array.
\<close>

theorem get_file_by_day_spec:
  assumes "fm_init s" "\<forall>j \<in> set (day_types type). j < length (flist s)"
  shows "file_manager_get_file_by_day mc sz s type number sr_start sr_stop =
    Some (0, Some (min (nat number) (length (day_files s type sr_start sr_stop)),
                   map (day_record mc sz) (take (nat number) (day_files s type sr_start sr_stop))))"
proof -
  let ?lists = "map (\<lambda>j. (j, entries (flist s ! j))) (day_types type)"
  have sum: "fold (\<lambda>(j, fs) num. count_by_day sr_start sr_stop fs num) ls k
      = k + (\<Sum>(j, fs) \<leftarrow> ls. length (filter (inside sr_start sr_stop) fs))" for ls k
    by (induction ls arbitrary: k) (auto simp: count_by_day_eq)
  have files: "concat (map (\<lambda>(j, fs). map (Pair j) (filter (inside sr_start sr_stop) fs)) ?lists)
      = day_files s type sr_start sr_stop"
    by (simp add: day_files_def comp_def)
  have len: "(\<Sum>(j, fs) \<leftarrow> ?lists. length (filter (inside sr_start sr_stop) fs))
      = length (day_files s type sr_start sr_stop)"
    by (simp add: day_files_def length_concat comp_def)
  let ?num = "length (day_files s type sr_start sr_stop)"
  have total: "fold (\<lambda>(j, fs) num. count_by_day sr_start sr_stop fs num) ?lists 0 = ?num"
    unfolding sum len by simp
  show ?thesis
  proof (cases "0 < ?num \<and> 0 < number")
    case True
    let ?n = "if int ?num > number then nat number else ?num"
    have n: "?n = min (nat number) ?num" by (simp add: min_def) linarith
    have "min (nat number) (length [] + (\<Sum>(j, fs) \<leftarrow> ?lists. length (filter (inside sr_start sr_stop) fs))) \<le> ?n"
      unfolding len n by simp
    then have "fill_lists mc sz ?n number sr_start sr_stop ?lists []
        = Some (map (day_record mc sz) (take (nat number) (day_files s type sr_start sr_stop)))"
      using fill_lists_eq [of "[]" number sr_start sr_stop ?lists ?n mc sz] True unfolding files by simp
    then show ?thesis
      using assms True n unfolding file_manager_get_file_by_day_def Let_def total by simp
  next
    case False
    then consider "day_files s type sr_start sr_stop = []" | "nat number = 0" "\<not> 0 < number" by fastforce
    then show ?thesis
      using assms unfolding file_manager_get_file_by_day_def Let_def total by cases simp_all
  qed
qed

section \<open>Cleaning the card: when it ends\<close>

definition names_fit :: "media_config \<Rightarrow> nat \<Rightarrow> dirent list \<Rightarrow> bool" where
  "names_fit mc j ds = (\<forall>d \<in> set ds. length (this_path mc j) + length (d_name d) < 4 * MAX_SYSTEM_STRING_SIZE)"

definition doomed :: "u64 \<Rightarrow> dirent \<Rightarrow> bool" where
  "doomed cutoff_date d = (clean_entry [] cutoff_date d = Some True)"

abbreviation staying :: "u64 \<Rightarrow> dirent list \<Rightarrow> dirent list" where
  "staying cutoff_date ds \<equiv> filter (\<lambda>d. \<not> doomed cutoff_date d) ds"

lemma clean_entry_doomed:
  assumes "length path + length (d_name d) < 4 * MAX_SYSTEM_STRING_SIZE"
  shows "clean_entry path cutoff d = Some (doomed cutoff d)"
  using assms by (auto simp: clean_entry_def doomed_def Let_def split: option.splits)

lemma clean_folder_eq:
  assumes "names_fit mc j ds"
  shows "clean_folder (this_path mc j) cutoff ds n =
    Some (staying cutoff ds, n + length (filter (doomed cutoff) ds))"
  using assms
  by (induction ds arbitrary: n) (auto simp: names_fit_def clean_entry_doomed split: bool.splits)

lemma clean_pass_eq:
  assumes "folders s = [Some ds0, Some ds1, Some ds2]"
    and "names_fit mc 0 ds0" "names_fit mc 1 ds1" "names_fit mc 2 ds2"
  shows "clean_pass mc cutoff [0, 1, 2] (folders s) 0 =
    Some (True, [Some (staying cutoff ds0), Some (staying cutoff ds1), Some (staying cutoff ds2)],
      length (filter (doomed cutoff) (ds0 @ ds1 @ ds2)))"
  using assms by (simp add: clean_folder_eq numeral_2_eq_2)

lemma nothing_doomed: "filter (doomed cutoff) ds = [] \<Longrightarrow> staying cutoff ds = ds"
  by (simp add: filter_empty_conv)

lemma clean_loop_step:
  assumes "folders s = [Some ds0, Some ds1, Some ds2]"
    and "names_fit mc 0 ds0" "names_fit mc 1 ds1" "names_fit mc 2 ds2"
    and "cutoff = now - 1 * 86400 + block_time"
  shows "clean_loop (Suc fuel) mc now block_time s =
    (if filter (doomed cutoff) (ds0 @ ds1 @ ds2) = [] then clean_loop fuel mc now (next_block_time block_time) s
     else Done (0, s\<lparr>folders := [Some (staying cutoff ds0), Some (staying cutoff ds1), Some (staying cutoff ds2)],
                    lock_balance := lock_balance s - 1\<rparr>))"
proof (cases "filter (doomed cutoff) (ds0 @ ds1 @ ds2) = []")
  case True
  then have "[Some (staying cutoff ds0), Some (staying cutoff ds1), Some (staying cutoff ds2)] = folders s"
    using assms(1) nothing_doomed by simp
  then show ?thesis using True clean_pass_eq [OF assms(1-4), of cutoff] assms(5)
    by (simp del: filter_append clean_pass.simps)
next
  case False
  then show ?thesis using clean_pass_eq [OF assms(1-4), of cutoff] assms(5)
    by (simp add: Let_def del: filter_append clean_pass.simps)
qed

text \<open>
  A card on which nothing can be deleted (no recording, only directories, links and
  temporary files) keeps the cleaning job in its loop for ever, with the write lock held.
\<close>

theorem clean_disk_never_returns:
  assumes "folders s = [Some ds0, Some ds1, Some ds2]"
    and "names_fit mc 0 ds0" "names_fit mc 1 ds1" "names_fit mc 2 ds2"
    and "\<forall>d \<in> set (ds0 @ ds1 @ ds2). d_name d = ''.'' \<or> d_name d = ''..'' \<or> d_type d = 4 \<or> d_type d = 10
      \<or> recorder_temporary (d_name d)"
  shows "file_manager_clean_disk fuel mc now s = Out_of_fuel"
proof -
  have none: "\<And>cutoff. filter (doomed cutoff) (ds0 @ ds1 @ ds2) = []"
    using assms(5) by (auto simp: filter_empty_conv doomed_def clean_entry_def Let_def)
  have "clean_loop fuel mc now block_time s' = Out_of_fuel"
    if "folders s' = [Some ds0, Some ds1, Some ds2]" for block_time s'
    by (induction fuel arbitrary: block_time) (simp_all only: clean_loop.simps(1) clean_loop_step [OF that assms(2-4) refl] none simp_thms if_True)
  then show ?thesis using assms(1) by (simp add: file_manager_clean_disk_def)
qed

lemma next_block_time_uint:
  assumes "uint block_time < 2 ^ 40"
  shows "uint block_time + 10800 \<le> uint (next_block_time block_time)"
    and "uint (next_block_time block_time) \<le> uint block_time + 14400"
proof -
  have a: "uint (block_time + 14400) = uint block_time + 14400"
    using uint_add_small [of 14400 block_time] assms by simp
  have "block_time + 14400 - 3600 = block_time + 10800" by simp
  then have "uint (block_time + 14400 - 3600) = uint block_time + 10800"
    using uint_add_small [of 10800 block_time] assms by (simp add: add.commute)
  then show "uint block_time + 10800 \<le> uint (next_block_time block_time)"
    "uint (next_block_time block_time) \<le> uint block_time + 14400"
    using a by (auto simp: next_block_time_def Let_def)
qed

lemma cutoff_uint:
  fixes now block_time :: u64
  assumes "86400 \<le> uint now" "uint now < 2 ^ 40" "uint block_time < 2 ^ 41"
  shows "uint (now - 1 * 86400 + block_time) = uint now - 86400 + uint block_time"
proof -
  have "uint (now - 86400) = uint now - 86400"
    using assms(1) by (simp add: uint_sub_if')
  then show ?thesis using uint_add_small [of "uint block_time" "now - 86400"] assms by simp
qed

lemma recording_doomed:
  assumes "1000000000 \<le> fst r" "fst r < snd r" "snd r < 2000000000" "d_type d \<noteq> 4" "d_type d \<noteq> 10"
    and "d_name d = recording_name r"
  shows "doomed cutoff d = (fst r < uint cutoff)"
proof -
  have r: "1000000000 \<le> fst r" "fst r < 2000000000" "1000000000 \<le> snd r" "snd r < 2000000000" using assms by auto
  have short: "length (recording_name r) = 25" by (simp add: stamp_chars(1) [OF r])
  have "(word_of_int (fst r) < cutoff) = (fst r < uint cutoff)" using r by (simp add: word_less_def uint_word_of_int)
  then show ?thesis
    using recording_name_class [OF r] recording_stamps [OF r] assms(4-6) short
    by (simp add: doomed_def clean_entry_def Let_def)
qed

lemma clean_loop_ends:
  assumes "folders s = [Some ds0, Some ds1, Some ds2]"
    and "names_fit mc 0 ds0" "names_fit mc 1 ds1" "names_fit mc 2 ds2"
    and now: "86400 \<le> uint now" "uint now < 2 ^ 40"
    and r: "d \<in> set (ds0 @ ds1 @ ds2)" "d_type d \<noteq> 4" "d_type d \<noteq> 10" "d_name d = recording_name r"
      "1000000000 \<le> fst r" "fst r < snd r" "snd r < 2000000000"
    and "uint block_time < 2 ^ 35"
  shows "\<exists>fuel cutoff. filter (doomed cutoff) (ds0 @ ds1 @ ds2) \<noteq> []
    \<and> clean_loop fuel mc now block_time s =
      Done (0, s\<lparr>folders := [Some (staying cutoff ds0), Some (staying cutoff ds1), Some (staying cutoff ds2)],
                lock_balance := lock_balance s - 1\<rparr>)"
  using assms(14)
proof (induction "nat (2 ^ 35 - uint block_time)" arbitrary: block_time rule: less_induct)
  case less
  let ?cutoff = "now - 1 * 86400 + block_time"
  show ?case
  proof (cases "filter (doomed ?cutoff) (ds0 @ ds1 @ ds2) = []")
    case True
    then have "\<not> doomed ?cutoff d" using r(1) by (metis filter_empty_conv)
    then have "uint ?cutoff \<le> fst r"
      using recording_doomed [of r d ?cutoff] r by simp
    then have "uint block_time < 2000086400" using cutoff_uint [OF now, of block_time] now less.prems r by simp
    then have next_block: "uint block_time < uint (next_block_time block_time)" "uint (next_block_time block_time) < 2 ^ 35"
      using next_block_time_uint [of block_time] less.prems by auto
    then have "nat (2 ^ 35 - uint (next_block_time block_time)) < nat (2 ^ 35 - uint block_time)" by simp
    from less.hyps [OF this next_block(2)] obtain fuel cutoff where
      "filter (doomed cutoff) (ds0 @ ds1 @ ds2) \<noteq> []"
      "clean_loop fuel mc now (next_block_time block_time) s =
        Done (0, s\<lparr>folders := [Some (staying cutoff ds0), Some (staying cutoff ds1), Some (staying cutoff ds2)],
                  lock_balance := lock_balance s - 1\<rparr>)" by blast
    then show ?thesis
      using clean_loop_step [OF assms(1-4) refl, of fuel now block_time] True
      by (intro exI [of _ "Suc fuel"] exI [of _ cutoff]) (simp only: if_True simp_thms)
  next
    case False
    then show ?thesis
      using clean_loop_step [OF assms(1-4) refl, of 0 now block_time]
      by (intro exI [of _ "Suc 0"] exI [of _ ?cutoff]) (simp only: if_False simp_thms)
  qed
qed

text \<open>
  On a card that holds a recording the cleaning job ends: it releases the lock, deletes
  at least one file, and what it deletes is exactly what one cut-off date condemns.
\<close>

theorem clean_disk_frees_space:
  assumes "folders s = [Some ds0, Some ds1, Some ds2]"
    and "names_fit mc 0 ds0" "names_fit mc 1 ds1" "names_fit mc 2 ds2"
    and "86400 \<le> uint now" "uint now < 2 ^ 40"
    and "d \<in> set (ds0 @ ds1 @ ds2)" "d_type d \<noteq> 4" "d_type d \<noteq> 10" "d_name d = recording_name r"
    and "1000000000 \<le> fst r" "fst r < snd r" "snd r < 2000000000"
  shows "\<exists>fuel cutoff. filter (doomed cutoff) (ds0 @ ds1 @ ds2) \<noteq> []
    \<and> file_manager_clean_disk fuel mc now s =
      Done (0, s\<lparr>folders := [Some (staying cutoff ds0), Some (staying cutoff ds1), Some (staying cutoff ds2)]\<rparr>)"
proof -
  have "folders (s\<lparr>lock_balance := lock_balance s + 1\<rparr>) = [Some ds0, Some ds1, Some ds2]" using assms(1) by simp
  from clean_loop_ends [OF this assms(2-13), of 0]
  show ?thesis by (simp add: file_manager_clean_disk_def)
qed

section \<open>The properties on a concrete card\<close>

definition two_recordings :: "(int \<times> int) list" where
  "two_recordings = [(1600000000, 1600000060), (1600000060, 1600000120)]"

definition demo_config :: media_config where
  "demo_config = \<lparr>media_directory = ''/mnt/sdcard/media/'', folder_prefix = [''plan'', ''alarm'', ''normal'']\<rparr>"

definition demo_index :: file_list_t where
  "demo_index = add_recordings two_recordings file_list_zero"

definition demo_manager :: file_manager_t where
  "demo_manager = \<lparr>fm_init = True, flist = [file_list_zero, demo_index, file_list_zero],
     folders = [Some [\<lparr>d_name = ''.'', d_type = 4\<rparr>], Some [], Some (map recording_entry two_recordings)],
     lock_balance = 0\<rparr>"

lemma demo_index:
  "index_ok demo_index" "f_num demo_index = 2"
  "entries demo_index = [(1600000000, 1600000060), (1600000060, 1600000120)]"
  "f_start demo_index ! Suc 0 = 1600000060" "f_stop demo_index ! Suc 0 = 1600000120"
proof -
  have "recordings_ok two_recordings" "length two_recordings \<le> MAX_FILE_NUM"
    by (simp_all add: recordings_ok_def two_recordings_def)
  from add_recordings_index [OF this]
  show ok: "index_ok demo_index" and n: "f_num demo_index = 2"
    and e: "entries demo_index = [(1600000000, 1600000060), (1600000060, 1600000120)]"
    by (simp_all add: demo_index_def two_recordings_def)
  have "entries demo_index ! 1 = (f_start demo_index ! 1, f_stop demo_index ! 1)"
    using entries_eq [OF ok] n by simp
  then show "f_start demo_index ! Suc 0 = 1600000060" "f_stop demo_index ! Suc 0 = 1600000120" using e by simp_all
qed

lemma search_file_list_spec_witness:
  "file_manager_search_file_list demo_index 1600000010 1600000020 [] = Some (0, [(1600000000, 1600000060)])
   \<and> file_manager_search_file_list demo_index 1600000070 1600000080 [] = Some (- 1, [])"
  using search_file_list_spec [OF demo_index(1), of 1600000010 1600000020 "[]"]
    search_file_list_spec [OF demo_index(1), of 1600000070 1600000080 "[]"]
  by (simp add: demo_index overlaps_def as_node_def)

lemma search_misses_last_file_witness:
  "file_manager_search_file_list demo_index 1600000070 1600000080 [] = Some (- 1, [])
    \<and> filter (overlaps 1600000070 1600000080) (entries demo_index) = [(1600000060, 1600000120)]"
  using search_misses_last_file [of demo_index 1600000070 1600000080 "[]"]
  by (simp add: demo_index overlaps_def)

text \<open>The folder of the two recordings as \<open>scandir\<close> returns it, with a picture and some rubbish.\<close>

definition demo_folder :: "folder_item list" where
  "demo_folder = [Directory ''.'', Directory ''..'', Picture (1600000000, 1600000060), Recording (1600000000, 1600000060),
     Rubbish ''1600000060_1600000100.jpg'', Recording (1600000060, 1600000120), Backwards (1600000130, 1600000120),
     Rubbish ''a.txt'', Rubbish ''normal-20200913.mp4'']"

definition full_card :: file_manager_t where
  "full_card = demo_manager\<lparr>folders := [Some [], Some [], Some (map item_entry demo_folder)]\<rparr>"

lemma demo_folder_ok: "folder_ok (this_path demo_config 2) demo_folder"
proof -
  have digit: "digit_char 0 = CHR ''0''" "digit_char (Suc 0) = CHR ''1''" "digit_char 2 = CHR ''2''" "digit_char 3 = CHR ''3''"
    "digit_char 6 = CHR ''6''"
    by code_simp+
  have stamps: "sprintf_0d 0 1600000000 = ''1600000000''" "sprintf_0d 0 1600000060 = ''1600000060''"
    "sprintf_0d 0 1600000120 = ''1600000120''" "sprintf_0d 0 1600000130 = ''1600000130''"
    by (simp_all add: sprintf_0d_def dec_string.simps digit)
  have rubbish: "\<not> is_media ''a.txt''" "recorder_temporary ''normal-20200913.mp4''"
    "has ''1600000060_1600000100.jpg'' ''.jpg''" "jpg_to_mp4 ''1600000060_1600000100.jpg'' = ''1600000060_1600000100.mp4''"
    by (simp_all add: is_media_def recorder_temporary_def has_def jpg_to_mp4_def)
  show ?thesis
    by (simp add: folder_ok_def demo_folder_def this_path_def demo_config_def ten_digits_def recordings_ok_def
        recording_name_def picture_name_def stamps rubbish)
qed

lemma rescan_rebuilds_index_witness:
  "map_option (\<lambda>s. (entries (flist s ! 2), folders s ! 2)) (scan_folder demo_config 2 full_card) =
    Some ([(1600000000, 1600000060), (1600000060, 1600000120)],
      Some (map item_entry [Directory ''.'', Directory ''..'', Picture (1600000000, 1600000060),
        Recording (1600000000, 1600000060), Recording (1600000060, 1600000120)]))"
proof -
  have "flist full_card ! 2 = file_list_zero" "folders full_card ! 2 = Some (map item_entry demo_folder)"
    "length (flist full_card) = 3" "length (folders full_card) = 3"
    by (simp_all add: full_card_def demo_manager_def)
  moreover have "recordings_of demo_folder = two_recordings" by (simp add: demo_folder_def two_recordings_def)
  ultimately show ?thesis
    using rescan_rebuilds_index [OF demo_folder_ok, of full_card]
    by (simp add: two_recordings_def) (simp add: demo_folder_def)
qed

lemma get_file_by_day_spec_witness:
  "map_option (\<lambda>(ret, days). (ret, map_option fst days))
     (file_manager_get_file_by_day demo_config (\<lambda>n. 0) demo_manager LV_STORAGE_RECORD_ANY 1 1600000000 1600000100)
    = Some (0, Some 1)"
  using get_file_by_day_spec [of demo_manager LV_STORAGE_RECORD_ANY demo_config "\<lambda>n. 0" 1 1600000000 1600000100]
  by (simp add: demo_manager_def day_types_def day_files_def demo_index index_ok_zero inside_def)

lemma clean_disk_never_returns_witness:
  "file_manager_clean_disk 1000 demo_config 1600000000
     (demo_manager\<lparr>folders := [Some [\<lparr>d_name = ''.'', d_type = 4\<rparr>], Some [], Some []]\<rparr>) = Out_of_fuel"
  by (rule clean_disk_never_returns [where ?ds0.0 = "[\<lparr>d_name = ''.'', d_type = 4\<rparr>]" and ?ds1.0 = "[]" and ?ds2.0 = "[]"])
     (simp_all add: names_fit_def this_path_def demo_config_def)

lemma clean_disk_frees_space_witness:
  "\<exists>fuel s. file_manager_clean_disk fuel demo_config 1700000000 demo_manager = Done (0, s)"
proof -
  have short: "length (recording_name (1600000000, 1600000060)) = 25" "length (recording_name (1600000060, 1600000120)) = 25"
    by (simp_all add: stamp_chars(1))
  have "names_fit demo_config 0 [\<lparr>d_name = ''.'', d_type = 4\<rparr>]" "names_fit demo_config 1 []"
    "names_fit demo_config 2 (map recording_entry two_recordings)"
    by (simp_all add: names_fit_def this_path_def demo_config_def recording_entry_def two_recordings_def short)
  from clean_disk_frees_space [of demo_manager, OF _ this, of 1700000000 "recording_entry (1600000000, 1600000060)" "(1600000000, 1600000060)"]
  show ?thesis by (auto simp: demo_manager_def recording_entry_def two_recordings_def)
qed

text \<open>
  From 2033 on stamps start with a 2 and the parser finds the first 1 elsewhere: a recording
  from 2000000010 to 2000000020 is indexed as the period from 10 to 20.
\<close>

lemma name_after_2033:
  "strstr ''2000000010_2000000020.mp4'' ''1'' = Some ''10_2000000020.mp4''
    \<and> stamp_at ''10_2000000020.mp4'' = 10
    \<and> map_option stamp_at (skip_chars 11 ''10_2000000020.mp4'') = Some 20"
  by code_simp

end
