(* ===== verification/Recorder.thy ===== *)
theory Recorder
  imports FileManager Bus
begin

text \<open>
  The recording thread of \<open>server/recorder/recorder.c\<close>: one job writes the frames of its two
  queues into an MP4 file, closes it after its period and starts over.

  The MP4 library, the file system and the clock are outside: \<open>rec_env\<close> holds what they
  answer, and the calls made are the list \<open>effects\<close>, oldest first.  The clock stands still
  during one step.  \<open>None\<close> is a null pointer, a division by zero or an array index outside.
\<close>

section \<open>State\<close>

abbreviation (input) "RECORDER_THREAD_NONE \<equiv> 0 :: int"
abbreviation (input) "RECORDER_THREAD_INITED \<equiv> 1 :: int"
abbreviation (input) "RECORDER_THREAD_STARTED \<equiv> 2 :: int"
abbreviation (input) "RECORDER_THREAD_RUN \<equiv> 3 :: int"
abbreviation (input) "RECORDER_THREAD_PAUSE \<equiv> 4 :: int"
abbreviation (input) "RECORDER_THREAD_ERROR \<equiv> 5 :: int"

abbreviation (input) "MP4_INVALID_FILE_HANDLE \<equiv> 0 :: int"
abbreviation (input) "MP4_INVALID_TRACK_ID \<equiv> 0 :: int"
abbreviation (input) "MAX_BETWEEN_RECODER_PAUSE \<equiv> 3 :: u64"
abbreviation (input) "ERR_NO_DATA \<equiv> - 1 :: int"
abbreviation (input) "ERR_ERROR \<equiv> - 4 :: int"

record recorder_run_t =
  file_path :: "char list"
  mp4_file :: int
  video_track :: int
  audio_track :: int
  run_start :: u64
  run_stop :: u64
  real_start :: u64
  real_stop :: u64
  last_write :: u64
  last_vframe_stamp :: u64
  last_aframe_stamp :: u64
  first_frame_stamp :: u64
  first_audio :: bool
  sps_read :: bool
  pps_read :: bool
  first_frame :: bool
  run_fps :: u32
  run_width :: u32
  run_height :: u32
  run_exit :: bool

definition recorder_run_zero :: recorder_run_t where
  "recorder_run_zero = \<lparr>file_path = [], mp4_file = 0, video_track = 0, audio_track = 0, run_start = 0,
     run_stop = 0, real_start = 0, real_stop = 0, last_write = 0, last_vframe_stamp = 0,
     last_aframe_stamp = 0, first_frame_stamp = 0, first_audio = False, sps_read = False,
     pps_read = False, first_frame = False, run_fps = 0, run_width = 0, run_height = 0, run_exit = False\<rparr>"

record recorder_job_t =
  job_status :: int
  t_id :: nat
  job_init :: recorder_init_t
  job_run :: recorder_run_t

record recorder_config_t =
  normal_start :: "char list"
  normal_end :: "char list"
  normal_repeat :: int
  normal_repeat_interval :: int
  normal_audio :: int
  normal_quality :: int
  audio_sample :: "int list"
  max_length :: u32
  min_length :: u32

definition recorder_config_default :: recorder_config_t where
  "recorder_config_default = \<lparr>normal_start = ''0'', normal_end = ''0'', normal_repeat = 1,
     normal_repeat_interval = 0, normal_audio = 1, normal_quality = 0,
     audio_sample = [8000, 8000, 8000], max_length = 180, min_length = 10\<rparr>"

text \<open>The calls a recording makes; \<open>Video\<close> and \<open>Audio\<close> are samples written to a track.\<close>

datatype rec_effect =
    MP4_create "char list"
  | MP4_add_audio_track int
  | MP4_add_video_track u32 u32 u8 u8 u8
  | MP4_add_sps bytes
  | MP4_add_pps bytes
  | MP4_video bytes u64 bool
  | MP4_audio bytes u64
  | MP4_close
  | File_remove "char list"
  | File_rename "char list" "char list"
  | Index_add int u64 u64
  | Snapshot "char list" int int

record rec_env =
  now :: u64
  mp4_create :: int
  mp4_add_video_track :: int
  mp4_add_audio_track :: int
  mp4_sample_ok :: "rec_effect list \<Rightarrow> bool"
  file_present :: "char list \<Rightarrow> bool"
  rename_ok :: "char list \<Rightarrow> bool"
  addr_last_write :: u64
  date_to_stamp :: "char list \<Rightarrow> u64 option"

record rec_thread =
  ctrl :: recorder_job_t
  video_buff :: queue
  audio_buff :: queue
  effects :: "rec_effect list"
  rec_bus :: bus

abbreviation "emit e s \<equiv> s\<lparr>effects := effects s @ [e]\<rparr>"
abbreviation "run_of s \<equiv> job_run (ctrl s)"
abbreviation "with_run f s \<equiv> s\<lparr>ctrl := (ctrl s)\<lparr>job_run := f (job_run (ctrl s))\<rparr>\<rparr>"
abbreviation "with_status v s \<equiv> s\<lparr>ctrl := (ctrl s)\<lparr>job_status := v\<rparr>\<rparr>"

definition rec_send :: "int \<Rightarrow> msg \<Rightarrow> rec_thread \<Rightarrow> rec_thread" where
  "rec_send receiver m s = s\<lparr>rec_bus := snd (global_common_send_message (rec_bus s) receiver m)\<rparr>"

definition folder_of :: "media_config \<Rightarrow> int \<Rightarrow> char list" where
  "folder_of mc type = media_directory mc @ folder_prefix mc ! nat type"

definition stamp_text :: "u64 \<Rightarrow> char list" where
  "stamp_text t = sprintf_0d 0 (sint t)"

definition snap_name :: "media_config \<Rightarrow> int \<Rightarrow> u64 \<Rightarrow> char list" where
  "snap_name mc type start = folder_of mc type @ ''/snap-'' @ stamp_text start @ ''.jpg''"

definition final_name :: "media_config \<Rightarrow> int \<Rightarrow> u64 \<Rightarrow> u64 \<Rightarrow> char list \<Rightarrow> char list" where
  "final_name mc type start stop ext =
     folder_of mc type @ ''/'' @ stamp_text start @ ''_'' @ stamp_text stop @ ext"

section \<open>The streams\<close>

definition recorder_thread_start_stream :: "rec_thread \<Rightarrow> rec_thread" where
  "recorder_thread_start_stream s =
     (let msg = msg_init\<lparr>m_sender := SERVER_RECORDER, m_receiver := SERVER_RECORDER,
            m_arg_in := arg_zero\<lparr>wolf := int (t_id (ctrl s)), cat := ri_quality (job_init (ctrl s))\<rparr>,
            m_arg_pass := arg_zero\<lparr>wolf := int (t_id (ctrl s))\<rparr>, m_message := MSG_VIDEO_START\<rparr>;
          s = rec_send SERVER_VIDEO msg s in
      if ri_audio (job_init (ctrl s)) \<noteq> 0 then rec_send SERVER_AUDIO (msg\<lparr>m_message := MSG_AUDIO_START\<rparr>) s else s)"

definition recorder_thread_stop_stream :: "int \<Rightarrow> rec_thread \<Rightarrow> rec_thread" where
  "recorder_thread_stop_stream real s =
     (let msg = msg_init\<lparr>m_arg_in := arg_zero\<lparr>wolf := int (t_id (ctrl s)), duck := real,
              cat := ri_quality (job_init (ctrl s))\<rparr>, m_message := MSG_VIDEO_STOP,
            m_sender := SERVER_RECORDER, m_receiver := SERVER_RECORDER\<rparr>;
          s = rec_send SERVER_VIDEO msg s in
      if ri_audio (job_init (ctrl s)) \<noteq> 0 then rec_send SERVER_AUDIO (msg\<lparr>m_message := MSG_AUDIO_STOP\<rparr>) s else s)"

definition recorder_thread_check_and_exit_stream :: "int \<Rightarrow> rec_thread \<Rightarrow> rec_thread" where
  "recorder_thread_check_and_exit_stream real s = recorder_thread_stop_stream real s"

section \<open>Opening and closing a file\<close>

definition recorder_thread_error :: "rec_thread \<Rightarrow> rec_thread" where
  "recorder_thread_error s = with_run (\<lambda>r. r\<lparr>run_exit := True\<rparr>) s"

definition recorder_thread_check_finish :: "rec_env \<Rightarrow> rec_thread \<Rightarrow> bool" where
  "recorder_thread_check_finish env s = (now env \<ge> run_stop (run_of s))"

definition recorder_thread_init_mp4v2 ::
  "rec_env \<Rightarrow> media_config \<Rightarrow> recorder_config_t \<Rightarrow> rec_thread \<Rightarrow> (int \<times> rec_thread) option" where
  "recorder_thread_init_mp4v2 env mc cfg s =
     (let ty = ri_type (job_init (ctrl s));
          fname = folder_of mc ty @ ''/'' @ folder_prefix mc ! nat ty @ ''-'' @ stamp_text (run_start (run_of s));
          s = with_run (\<lambda>r. r\<lparr>mp4_file := mp4_create env\<rparr>) s;
          finish = (\<lambda>s. Some (0, emit (Snapshot (snap_name mc ty (run_start (run_of s))) ty (ri_sub_type (job_init (ctrl s))))
                              (with_run (\<lambda>r. r\<lparr>file_path := fname\<rparr>) s))) in
      if mp4_create env = MP4_INVALID_FILE_HANDLE then Some (- 1, s)
      else let s = emit (MP4_create fname) s in
        if ri_audio (job_init (ctrl s)) \<noteq> 0 then
          case array_get (audio_sample cfg) (nat (ri_quality (job_init (ctrl s)))) of
            None \<Rightarrow> None
          | Some rate \<Rightarrow>
              let s = with_run (\<lambda>r. r\<lparr>audio_track := mp4_add_audio_track env\<rparr>) (emit (MP4_add_audio_track rate) s) in
              if mp4_add_audio_track env = MP4_INVALID_TRACK_ID then Some (- 1, s) else finish s
        else finish s)"

definition recorder_thread_close ::
  "rec_env \<Rightarrow> media_config \<Rightarrow> recorder_config_t \<Rightarrow> rec_thread \<Rightarrow> int \<times> rec_thread" where
  "recorder_thread_close env mc cfg s =
     (if mp4_file (run_of s) = MP4_INVALID_FILE_HANDLE then (- 1, s)
      else
        let s = with_run (\<lambda>r. r\<lparr>mp4_file := MP4_INVALID_FILE_HANDLE\<rparr>) (emit MP4_close s);
            run = run_of s; ty = ri_type (job_init (ctrl s));
            oldname = file_path run; snapname = snap_name mc ty (run_start run) in
        if last_write run - real_start run < ucast (min_length cfg) then
          let s = emit (File_remove oldname) s in
          (- 1, if file_present env snapname then emit (File_remove snapname) s else s)
        else
          let newname = final_name mc ty (real_start run) (last_write run) ''.mp4'';
              s = with_run (\<lambda>r. r\<lparr>real_stop := last_write r, file_path := newname\<rparr>) s;
              s = emit (File_rename snapname (final_name mc ty (real_start run) (last_write run) ''.jpg'')) s;
              s = emit (File_rename oldname newname) s in
          if rename_ok env oldname
          then (0, emit (Index_add ty (real_start run) (addr_last_write env)) s)
          else (- 1, s))"

section \<open>Writing the frames\<close>

definition be32 :: "int \<Rightarrow> bytes" where
  "be32 n = [word_of_int (drop_bit 24 n), word_of_int (drop_bit 16 n), word_of_int (drop_bit 8 n),
             word_of_int (n AND 0xff)]"

definition nalu_bytes :: "bytes \<Rightarrow> nalu_unit_t \<Rightarrow> bytes" where
  "nalu_bytes data nalu = take (nat (nalu_size nalu)) (drop (nalu_data nalu) data)"

text \<open>One picture unit: \<open>Some\<close> is a \<open>return\<close> with its value, \<open>None\<close> the \<open>break\<close> of the switch.\<close>

definition write_picture ::
  "rec_env \<Rightarrow> bytes \<Rightarrow> av_data_info_t \<Rightarrow> nalu_unit_t \<Rightarrow> rec_thread \<Rightarrow> int option \<times> rec_thread" where
  "write_picture env data avinfo nalu s =
     (let r = run_of s; key = (nalu_type nalu = 5) in
      if \<not> sps_read r \<or> \<not> pps_read r then (Some (- 2), s)
      else if \<not> key \<and> \<not> first_frame r then (Some (- 2), s)
      else
        let duration = (if first_frame r
              then (ucast (av_timestamp avinfo) - last_vframe_stamp r) * 90000 div 1000
              else ucast (90000 div av_fps avinfo));
            sample = be32 (nalu_size nalu) @ nalu_bytes data nalu;
            ok = mp4_sample_ok env (effects s);
            s = emit (MP4_video sample duration key) s in
        if \<not> ok then (Some (- 1), s)
        else
          let s = (if \<not> first_frame r \<and> key
                then with_run (\<lambda>r. r\<lparr>real_start := now env, run_fps := av_fps avinfo, run_width := av_width avinfo,
                       run_height := av_height avinfo, first_frame_stamp := ucast (av_timestamp avinfo),
                       first_frame := True\<rparr>) s
                else s) in
          (None, with_run (\<lambda>r. r\<lparr>last_write := now env, last_vframe_stamp := ucast (av_timestamp avinfo)\<rparr>) s))"

definition write_unit ::
  "rec_env \<Rightarrow> bytes \<Rightarrow> av_data_info_t \<Rightarrow> nalu_unit_t \<Rightarrow> rec_thread \<Rightarrow> (int option \<times> rec_thread) option" where
  "write_unit env data avinfo nalu s =
     (let r = run_of s in
      if nalu_type nalu = 7 then
        if sps_read r then Some (None, s)
        else case (array_get data (nalu_data nalu + 1), array_get data (nalu_data nalu + 2),
                   array_get data (nalu_data nalu + 3)) of
          (Some b1, Some b2, Some b3) \<Rightarrow>
            let s = with_run (\<lambda>r. r\<lparr>video_track := mp4_add_video_track env\<rparr>)
                  (emit (MP4_add_video_track (av_width avinfo) (av_height avinfo) b1 b2 b3) s) in
            Some (if mp4_add_video_track env = MP4_INVALID_TRACK_ID then (Some (- 1), s)
              else (None, emit (MP4_add_sps (nalu_bytes data nalu)) (with_run (\<lambda>r. r\<lparr>sps_read := True\<rparr>) s)))
        | _ \<Rightarrow> None
      else if nalu_type nalu = 8 then
        Some (None, if pps_read r then s else if \<not> sps_read r then s
          else emit (MP4_add_pps (nalu_bytes data nalu)) (with_run (\<lambda>r. r\<lparr>pps_read := True\<rparr>) s))
      else if nalu_type nalu = 1 \<or> nalu_type nalu = 5 then
        if sps_read r \<and> pps_read r \<and> nalu_type nalu = 5 \<and> \<not> first_frame r \<and> av_fps avinfo = 0 then None
        else Some (write_picture env data avinfo nalu s)
      else Some (None, s))"

fun write_loop ::
  "nat \<Rightarrow> rec_env \<Rightarrow> bytes \<Rightarrow> nat \<Rightarrow> av_data_info_t \<Rightarrow> nat \<Rightarrow> nalu_unit_t \<Rightarrow> rec_thread \<Rightarrow> (int \<times> rec_thread) run" where
  "write_loop 0 env data n avinfo pos nalu s = Out_of_fuel"
| "write_loop (Suc fuel) env data n avinfo pos nalu s =
     (case h264_read_nalu data n pos nalu of
        None \<Rightarrow> Undefined
      | Some (len, nalu) \<Rightarrow>
          if len = 0 then Done (0, s)
          else (case write_unit env data avinfo nalu s of
              None \<Rightarrow> Undefined
            | Some (Some ret, s) \<Rightarrow> Done (ret, s)
            | Some (None, s) \<Rightarrow> write_loop fuel env data n avinfo (nat (int pos + len)) nalu s))"

definition recorder_thread_write_mp4_video ::
  "rec_env \<Rightarrow> bytes \<Rightarrow> nat \<Rightarrow> av_data_info_t \<Rightarrow> rec_thread \<Rightarrow> (int \<times> rec_thread) run" where
  "recorder_thread_write_mp4_video env data data_length avinfo s =
     write_loop (data_length + 1) env data data_length avinfo 0 \<lparr>nalu_type = 0, nalu_size = 0, nalu_data = 0\<rparr> s"

section \<open>One step of the recording\<close>

text \<open>
  The audio half of a step: \<open>Inl\<close> is the jump to \<open>close_exit\<close>.  The sample's duration is its
  size; the duration the code computes from the stamps is not used.
\<close>

definition run_audio :: "rec_env \<Rightarrow> msg \<Rightarrow> rec_thread \<Rightarrow> (rec_thread + rec_thread) option" where
  "run_audio env amsg s =
     (case (m_extra amsg, m_arg amsg) of
        (Some (P_av_info avinfo), Some (P_bytes p)) \<Rightarrow>
          if \<not> first_frame (run_of s) then Some (Inr s)
          else if length p < unat (av_size avinfo) then None
          else
            let s = with_run (\<lambda>r. r\<lparr>first_audio := True\<rparr>) s;
                ok = mp4_sample_ok env (effects s);
                s = emit (MP4_audio (take (unat (av_size avinfo)) p) (ucast (av_size avinfo))) s in
            Some (if \<not> ok then Inl s
              else Inr (with_run (\<lambda>r. r\<lparr>last_aframe_stamp := ucast (av_timestamp avinfo)\<rparr>) s))
      | _ \<Rightarrow> None)"

text \<open>The video half: \<open>Inl\<close> again jumps to \<open>close_exit\<close>, \<open>Inr\<close> to \<open>exit\<close>.\<close>

definition run_video :: "rec_env \<Rightarrow> msg \<Rightarrow> rec_thread \<Rightarrow> (rec_thread + rec_thread) run" where
  "run_video env vmsg s =
     (case (m_extra vmsg, m_arg vmsg) of
        (Some (P_av_info avinfo), Some (P_bytes p)) \<Rightarrow>
          let r = run_of s in
          if first_frame r \<and> av_fps avinfo \<noteq> run_fps r then Done (Inl s)
          else if first_frame r \<and> (av_width avinfo \<noteq> run_width r \<or> av_height avinfo \<noteq> run_height r) then Done (Inl s)
          else (case recorder_thread_write_mp4_video env p (unat (av_size avinfo)) avinfo s of
              Undefined \<Rightarrow> Undefined
            | Out_of_fuel \<Rightarrow> Out_of_fuel
            | Done (ret, s) \<Rightarrow>
                if ret = - 1 then Done (Inr s)
                else if recorder_thread_check_finish env s then Done (Inl s)
                else Done (Inr s))
      | _ \<Rightarrow> Undefined)"

definition close_exit :: "rec_env \<Rightarrow> media_config \<Rightarrow> recorder_config_t \<Rightarrow> rec_thread \<Rightarrow> rec_thread" where
  "close_exit env mc cfg s = with_status RECORDER_THREAD_PAUSE (snd (recorder_thread_close env mc cfg s))"

definition recorder_thread_run ::
  "rec_env \<Rightarrow> media_config \<Rightarrow> recorder_config_t \<Rightarrow> rec_thread \<Rightarrow> rec_thread run" where
  "recorder_thread_run env mc cfg s =
     (case msg_buffer_pop (video_buff s) msg_init of (ret_video, vmsg, vb) \<Rightarrow>
      case msg_buffer_pop (audio_buff s) msg_init of (ret_audio, amsg, ab) \<Rightarrow>
      let s = s\<lparr>video_buff := vb, audio_buff := ab\<rparr> in
      case (if ret_audio = 0 then run_audio env amsg s else Some (Inr s)) of
        None \<Rightarrow> Undefined
      | Some (Inl s) \<Rightarrow> Done (close_exit env mc cfg s)
      | Some (Inr s) \<Rightarrow>
          if ret_video = 0 then
            case run_video env vmsg s of
              Undefined \<Rightarrow> Undefined
            | Out_of_fuel \<Rightarrow> Out_of_fuel
            | Done (Inl s) \<Rightarrow> Done (close_exit env mc cfg s)
            | Done (Inr s) \<Rightarrow> Done s
          else Done s)"

definition recorder_thread_started ::
  "rec_env \<Rightarrow> media_config \<Rightarrow> recorder_config_t \<Rightarrow> rec_thread \<Rightarrow> rec_thread run" where
  "recorder_thread_started env mc cfg s =
     (if now env \<ge> run_start (run_of s) then
        case recorder_thread_init_mp4v2 env mc cfg s of
          None \<Rightarrow> Undefined
        | Some (ret, s) \<Rightarrow>
            Done (if ret \<noteq> 0 then with_status RECORDER_THREAD_ERROR s
              else recorder_thread_start_stream (with_status RECORDER_THREAD_RUN s))
      else Done s)"

definition recorder_thread_pause :: "rec_env \<Rightarrow> rec_thread \<Rightarrow> rec_thread" where
  "recorder_thread_pause env s =
     (if ri_repeat (job_init (ctrl s)) = 0 then with_run (\<lambda>r. r\<lparr>run_exit := True\<rparr>) s
      else
        let temp1 = real_stop (run_of s); temp2 = run_stop (run_of s) - run_start (run_of s);
            temp1 = (if temp1 = 0 then now env else temp1);
            start = temp1 + word_of_int (ri_repeat_interval (job_init (ctrl s)));
            s = with_status RECORDER_THREAD_STARTED
                  (with_run (\<lambda>r. recorder_run_zero\<lparr>run_start := start, run_stop := start + temp2\<rparr>) s) in
        if now env \<le> start - MAX_BETWEEN_RECODER_PAUSE
        then recorder_thread_check_and_exit_stream 1 s
        else recorder_thread_check_and_exit_stream 0 s)"

section \<open>The thread\<close>

text \<open>The preamble of \<open>recorder_func\<close>.\<close>

definition starts_now :: "char list \<Rightarrow> bool" where
  "starts_now date = (take 1 date = ''0'')"

definition job_window ::
  "rec_env \<Rightarrow> recorder_config_t \<Rightarrow> recorder_init_t \<Rightarrow> (u64 \<times> u64) option" where
  "job_window env cfg ini =
     (case (if starts_now (ri_start ini) then Some (now env) else date_to_stamp env (ri_start ini)) of
        None \<Rightarrow> None
      | Some start \<Rightarrow>
          (case (if starts_now (ri_stop ini) then Some (start + ucast (max_length cfg))
                 else date_to_stamp env (ri_stop ini)) of
             None \<Rightarrow> None
           | Some stop \<Rightarrow>
               Some (start, if stop - start < ucast (min_length cfg) \<or> stop - start > ucast (max_length cfg)
                 then start + ucast (max_length cfg) else stop)))"

definition recorder_func_begin ::
  "rec_env \<Rightarrow> recorder_config_t \<Rightarrow> int \<Rightarrow> rec_thread \<Rightarrow> rec_thread option" where
  "recorder_func_begin env cfg msg_buffer_size_media s =
     (let s = s\<lparr>video_buff := msg_buffer_init True (video_buff s) MSG_BUFFER_OVERFLOW_NO msg_buffer_size_media,
               audio_buff := msg_buffer_init True (audio_buff s) MSG_BUFFER_OVERFLOW_NO msg_buffer_size_media\<rparr> in
      case job_window env cfg (job_init (ctrl s)) of
        None \<Rightarrow> None
      | Some (start, stop) \<Rightarrow>
          Some (with_status RECORDER_THREAD_STARTED (with_run (\<lambda>r. r\<lparr>run_start := start, run_stop := stop\<rparr>) s)))"

text \<open>One turn of its loop; \<open>False\<close> when the loop is left.\<close>

definition recorder_func_turn ::
  "rec_env \<Rightarrow> media_config \<Rightarrow> recorder_config_t \<Rightarrow> int \<Rightarrow> int \<Rightarrow> rec_thread \<Rightarrow> (bool \<times> rec_thread) run" where
  "recorder_func_turn env mc cfg info_exit info_thread_exit s =
     (if info_exit \<noteq> 0 then Done (False, s)
      else if run_exit (run_of s) then Done (False, s)
      else if misc_get_bit info_thread_exit (t_id (ctrl s)) \<noteq> 0 then Done (False, s)
      else
        let continue = (\<lambda>r. case r of Undefined \<Rightarrow> Undefined | Out_of_fuel \<Rightarrow> Out_of_fuel | Done s \<Rightarrow> Done (True, s)) in
        if job_status (ctrl s) = RECORDER_THREAD_STARTED then continue (recorder_thread_started env mc cfg s)
        else if job_status (ctrl s) = RECORDER_THREAD_RUN then continue (recorder_thread_run env mc cfg s)
        else if job_status (ctrl s) = RECORDER_THREAD_PAUSE then Done (True, recorder_thread_pause env s)
        else if job_status (ctrl s) = RECORDER_THREAD_ERROR then Done (True, recorder_thread_error s)
        else Done (True, s))"

text \<open>What follows the loop; the bits and the job table belong to the server.\<close>

definition recorder_func_end :: "rec_thread \<Rightarrow> rec_thread" where
  "recorder_func_end s =
     (let s = s\<lparr>video_buff := msg_buffer_release (video_buff s), audio_buff := msg_buffer_release (audio_buff s)\<rparr>;
          s = (if mp4_file (run_of s) \<noteq> MP4_INVALID_FILE_HANDLE
               then with_run (\<lambda>r. r\<lparr>mp4_file := MP4_INVALID_FILE_HANDLE\<rparr>) (emit MP4_close s) else s);
          s = recorder_thread_stop_stream 1 s in
      s\<lparr>rec_bus := global_common_send_dummy (rec_bus s) SERVER_RECORDER\<rparr>)"

section \<open>The protocol of the MP4 library\<close>

record file_state =
  fs_open :: bool
  fs_sps :: bool
  fs_pps :: bool
  fs_key :: bool

abbreviation "no_file \<equiv> \<lparr>fs_open = False, fs_sps = False, fs_pps = False, fs_key = False\<rparr>"

text \<open>
  A file is created when none is open, gets one sequence and then one picture parameter set,
  no picture before both, no picture or sound before a key picture, and is closed once.
\<close>

fun mp4_step :: "file_state \<Rightarrow> rec_effect \<Rightarrow> file_state option" where
  "mp4_step st (MP4_create f) =
     (if fs_open st then None else Some \<lparr>fs_open = True, fs_sps = False, fs_pps = False, fs_key = False\<rparr>)"
| "mp4_step st (MP4_add_audio_track rate) = (if fs_open st then Some st else None)"
| "mp4_step st (MP4_add_video_track w h a b c) = (if fs_open st \<and> \<not> fs_sps st then Some st else None)"
| "mp4_step st (MP4_add_sps d) = (if fs_open st \<and> \<not> fs_sps st then Some (st\<lparr>fs_sps := True\<rparr>) else None)"
| "mp4_step st (MP4_add_pps d) =
     (if fs_open st \<and> fs_sps st \<and> \<not> fs_pps st then Some (st\<lparr>fs_pps := True\<rparr>) else None)"
| "mp4_step st (MP4_video d dur key) =
     (if fs_open st \<and> fs_sps st \<and> fs_pps st \<and> (key \<or> fs_key st) then Some (st\<lparr>fs_key := True\<rparr>) else None)"
| "mp4_step st (MP4_audio d dur) = (if fs_open st \<and> fs_key st then Some st else None)"
| "mp4_step st MP4_close = (if fs_open st then Some no_file else None)"
| "mp4_step st _ = Some st"

fun mp4_from :: "file_state \<Rightarrow> rec_effect list \<Rightarrow> file_state option" where
  "mp4_from st [] = Some st"
| "mp4_from st (e # es) = (case mp4_step st e of None \<Rightarrow> None | Some st \<Rightarrow> mp4_from st es)"

abbreviation mp4_run :: "rec_effect list \<Rightarrow> file_state option" where
  "mp4_run es \<equiv> mp4_from no_file es"

lemma mp4_from_append [simp]:
  "mp4_from st (es @ fs) = (case mp4_from st es of None \<Rightarrow> None | Some st \<Rightarrow> mp4_from st fs)"
  by (induction es arbitrary: st) (auto split: option.splits)

lemma mp4_step_closed: "mp4_step st e = Some st' \<Longrightarrow> \<not> fs_open st' \<Longrightarrow> (\<not> fs_open st \<longrightarrow> st = no_file) \<Longrightarrow> st' = no_file"
  by (cases "(st, e)" rule: mp4_step.cases) (auto split: if_splits)

lemma closed_no_file: "mp4_run es = Some st \<Longrightarrow> \<not> fs_open st \<Longrightarrow> st = no_file"
proof (induction es arbitrary: st rule: rev_induct)
  case (snoc e es)
  then obtain st0 where "mp4_run es = Some st0" "mp4_step st0 e = Some st" by (auto split: option.splits)
  then show ?case using mp4_step_closed snoc by blast
qed simp

text \<open>The calls so far are accepted and the file state is what the flags of the job say.\<close>

definition file_matches :: "recorder_run_t \<Rightarrow> file_state \<Rightarrow> bool" where
  "file_matches r st = (fs_open st = (mp4_file r \<noteq> 0) \<and> fs_sps st = sps_read r \<and> fs_pps st = pps_read r
     \<and> (first_frame r \<longrightarrow> fs_key st))"

definition writing :: "rec_thread \<Rightarrow> bool" where
  "writing s = (\<exists>st. mp4_run (effects s) = Some st \<and> file_matches (run_of s) st \<and> fs_open st)"

definition handled :: "rec_thread \<Rightarrow> bool" where
  "handled s = (\<exists>st. mp4_run (effects s) = Some st \<and> fs_open st = (mp4_file (run_of s) \<noteq> 0))"

definition no_flags :: "recorder_run_t \<Rightarrow> bool" where
  "no_flags r = (mp4_file r = 0 \<and> \<not> sps_read r \<and> \<not> pps_read r \<and> \<not> first_frame r)"

definition thread_inv :: "rec_thread \<Rightarrow> bool" where
  "thread_inv s = (handled s \<and> (job_status (ctrl s) = RECORDER_THREAD_RUN \<longrightarrow> writing s)
     \<and> (job_status (ctrl s) = RECORDER_THREAD_STARTED \<longrightarrow> no_flags (run_of s))
     \<and> (job_status (ctrl s) = RECORDER_THREAD_PAUSE \<longrightarrow> mp4_file (run_of s) = 0))"

lemmas thread_defs = writing_def handled_def file_matches_def no_flags_def

lemma send_effects [simp]:
  "effects (rec_send r m s) = effects s" "ctrl (rec_send r m s) = ctrl s"
  by (simp_all add: rec_send_def)

lemma stream_effects [simp]:
  "effects (recorder_thread_start_stream s) = effects s" "ctrl (recorder_thread_start_stream s) = ctrl s"
  "effects (recorder_thread_stop_stream k s) = effects s" "ctrl (recorder_thread_stop_stream k s) = ctrl s"
  by (simp_all add: recorder_thread_start_stream_def recorder_thread_stop_stream_def Let_def)

text \<open>Two threads that agree on the calls made and on the job.\<close>

definition same_job :: "rec_thread \<Rightarrow> rec_thread \<Rightarrow> bool" where
  "same_job s t = (effects s = effects t \<and> ctrl s = ctrl t)"

lemma inv_same_job: "same_job s t \<Longrightarrow> thread_inv s = thread_inv t"
  by (simp add: same_job_def thread_inv_def thread_defs)

lemma writing_handled: "writing s \<Longrightarrow> handled s"
  by (auto simp: thread_defs)

lemma write_picture_writing:
  "writing s \<Longrightarrow> writing (snd (write_picture env data avinfo nalu s))
    \<and> job_status (ctrl (snd (write_picture env data avinfo nalu s))) = job_status (ctrl s)"
  by (auto simp: write_picture_def thread_defs Let_def)

lemma write_unit_writing:
  assumes "write_unit env data avinfo nalu s = Some (r, s')" "writing s"
  shows "writing s' \<and> job_status (ctrl s') = job_status (ctrl s)"
proof -
  consider "nalu_type nalu = 7" | "nalu_type nalu = 8" | "nalu_type nalu \<noteq> 7" "nalu_type nalu \<noteq> 8" by blast
  then show ?thesis
  proof cases
    case 1
    show ?thesis
    proof (cases "sps_read (run_of s)")
      case True
      then show ?thesis using assms 1 by (simp add: write_unit_def)
    next
      case False
      then obtain b1 b2 b3 where "array_get data (nalu_data nalu + 1) = Some b1"
        "array_get data (nalu_data nalu + 2) = Some b2" "array_get data (nalu_data nalu + 3) = Some b3"
        using assms 1 by (auto simp: write_unit_def split: option.splits)
      then show ?thesis using assms 1 False by (auto simp: write_unit_def thread_defs Let_def split: if_splits)
    qed
  next
    case 2
    then show ?thesis using assms by (auto simp: write_unit_def thread_defs split: if_splits)
  next
    case 3
    then show ?thesis using assms write_picture_writing [OF assms(2), of env data avinfo nalu]
      by (auto simp: write_unit_def Let_def split: if_splits)
  qed
qed

declare write_loop.simps [simp del]

lemma write_loop_writing:
  "write_loop fuel env data n avinfo pos nalu s = Done (r, s') \<Longrightarrow> writing s \<Longrightarrow>
   writing s' \<and> job_status (ctrl s') = job_status (ctrl s)"
proof (induction fuel arbitrary: pos nalu s)
  case (Suc fuel)
  then obtain len u where nalu: "h264_read_nalu data n pos nalu = Some (len, u)"
    by (auto simp: write_loop.simps(2) split: option.splits)
  show ?case
  proof (cases "len = 0")
    case True
    then show ?thesis using Suc.prems nalu by (simp add: write_loop.simps(2))
  next
    case False
    then obtain x t where t: "write_unit env data avinfo u s = Some (x, t)"
      using Suc.prems(1) nalu by (auto simp: write_loop.simps(2) split: option.splits)
    have w: "writing t \<and> job_status (ctrl t) = job_status (ctrl s)" by (rule write_unit_writing [OF t Suc.prems(2)])
    then show ?thesis
      using Suc.IH [of "nat (int pos + len)" u t] Suc.prems(1) nalu False t
      by (cases x) (simp_all add: write_loop.simps(2))
  qed
qed (simp add: write_loop.simps)

lemma write_video_writing:
  "recorder_thread_write_mp4_video env data n avinfo s = Done (r, s') \<Longrightarrow> writing s \<Longrightarrow>
   writing s' \<and> job_status (ctrl s') = job_status (ctrl s)"
  unfolding recorder_thread_write_mp4_video_def by (rule write_loop_writing)

lemma run_audio_writing:
  "run_audio env amsg s = Some r \<Longrightarrow> writing s \<Longrightarrow>
   (case r of Inl s' \<Rightarrow> writing s' | Inr s' \<Rightarrow> writing s' \<and> job_status (ctrl s') = job_status (ctrl s))"
  by (auto simp: run_audio_def thread_defs Let_def split: option.splits payload.splits if_splits)

lemma run_video_writing:
  assumes "run_video env vmsg s = Done r" "writing s"
  shows "case r of Inl s' \<Rightarrow> writing s' | Inr s' \<Rightarrow> writing s' \<and> job_status (ctrl s') = job_status (ctrl s)"
proof -
  obtain avinfo p where m: "m_extra vmsg = Some (P_av_info avinfo)" "m_arg vmsg = Some (P_bytes p)"
    using assms(1) by (auto simp: run_video_def split: option.splits payload.splits)
  let ?w = "recorder_thread_write_mp4_video env p (unat (av_size avinfo)) avinfo s"
  from assms(1) m consider "r = Inl s"
    | ret t where "?w = Done (ret, t)" "r = Inl t \<or> r = Inr t"
    by (auto simp: run_video_def Let_def split: if_splits run.splits)
  then show ?thesis
  proof cases
    case 1
    then show ?thesis using assms(2) by simp
  next
    case 2
    then show ?thesis using write_video_writing [OF 2(1) assms(2)] by (auto split: sum.splits)
  qed
qed

lemma close_handled:
  "handled s \<Longrightarrow> handled (snd (recorder_thread_close env mc cfg s))
    \<and> mp4_file (run_of (snd (recorder_thread_close env mc cfg s))) = 0"
  by (auto simp: recorder_thread_close_def thread_defs Let_def)

lemma close_exit_inv: "handled s \<Longrightarrow> thread_inv (close_exit env mc cfg s)"
  using close_handled [of s env mc cfg] by (auto simp: close_exit_def thread_inv_def thread_defs)

lemma init_mp4v2_inv:
  "recorder_thread_init_mp4v2 env mc cfg s = Some (r, s') \<Longrightarrow> handled s \<Longrightarrow> no_flags (run_of s) \<Longrightarrow>
   handled s' \<and> (r = 0 \<longrightarrow> writing s')"
  by (auto simp: recorder_thread_init_mp4v2_def thread_defs Let_def split: option.splits if_splits)

lemma started_inv:
  assumes "recorder_thread_started env mc cfg s = Done s'" "thread_inv s" "job_status (ctrl s) = RECORDER_THREAD_STARTED"
  shows "thread_inv s'"
proof -
  have h: "handled s" "no_flags (run_of s)" using assms(2,3) by (simp_all add: thread_inv_def)
  show ?thesis
  proof (cases "now env \<ge> run_start (run_of s)")
    case True
    then obtain r t where t: "recorder_thread_init_mp4v2 env mc cfg s = Some (r, t)"
      and s': "s' = (if r \<noteq> 0 then with_status RECORDER_THREAD_ERROR t
        else recorder_thread_start_stream (with_status RECORDER_THREAD_RUN t))"
      using assms(1) by (auto simp: recorder_thread_started_def split: option.splits)
    then show ?thesis using init_mp4v2_inv [OF t h] by (auto simp: thread_inv_def thread_defs)
  next
    case False
    then show ?thesis using assms(1,2) by (simp add: recorder_thread_started_def)
  qed
qed

lemma run_inv:
  assumes "recorder_thread_run env mc cfg s = Done s'" "thread_inv s" "job_status (ctrl s) = RECORDER_THREAD_RUN"
  shows "thread_inv s'"
proof -
  obtain ret_video vmsg vb where v: "msg_buffer_pop (video_buff s) msg_init = (ret_video, vmsg, vb)" by (metis prod_cases3)
  obtain ret_audio amsg ab where a: "msg_buffer_pop (audio_buff s) msg_init = (ret_audio, amsg, ab)" by (metis prod_cases3)
  let ?s = "s\<lparr>video_buff := vb, audio_buff := ab\<rparr>"
  have w: "writing ?s" and st: "job_status (ctrl ?s) = RECORDER_THREAD_RUN"
    using assms(2,3) by (simp_all add: thread_inv_def thread_defs)
  obtain r where r: "(if ret_audio = 0 then run_audio env amsg ?s else Some (Inr ?s)) = Some r"
    using assms(1) v a by (auto simp: recorder_thread_run_def Let_def split: option.splits)
  have wr: "case r of Inl t \<Rightarrow> writing t | Inr t \<Rightarrow> writing t \<and> job_status (ctrl t) = RECORDER_THREAD_RUN"
    using run_audio_writing [of env amsg ?s r] r w st by (auto split: if_splits sum.splits)
  have inv: "writing t \<Longrightarrow> job_status (ctrl t) = RECORDER_THREAD_RUN \<Longrightarrow> thread_inv t" for t
    by (simp add: thread_inv_def writing_handled)
  show ?thesis
  proof (cases r)
    case (Inl t)
    then have "s' = close_exit env mc cfg t" using assms(1) v a r by (simp add: recorder_thread_run_def Let_def)
    then show ?thesis using wr Inl close_exit_inv writing_handled by simp
  next
    case (Inr t)
    then have t: "writing t" "job_status (ctrl t) = RECORDER_THREAD_RUN" using wr by simp_all
    show ?thesis
    proof (cases "ret_video = 0")
      case True
      then obtain q where q: "run_video env vmsg t = Done q"
        and s': "s' = (case q of Inl u \<Rightarrow> close_exit env mc cfg u | Inr u \<Rightarrow> u)"
        using assms(1) v a r Inr by (auto simp: recorder_thread_run_def Let_def split: run.splits sum.splits)
      then show ?thesis
        using run_video_writing [OF q t(1)] t(2) inv close_exit_inv writing_handled by (auto split: sum.splits)
    next
      case False
      then have "s' = t" using assms(1) v a r Inr by (simp add: recorder_thread_run_def Let_def)
      then show ?thesis using inv t by simp
    qed
  qed
qed

lemma pause_inv:
  assumes "thread_inv s" "job_status (ctrl s) = RECORDER_THREAD_PAUSE"
  shows "thread_inv (recorder_thread_pause env s)"
  using assms
  by (auto simp: recorder_thread_pause_def thread_inv_def thread_defs recorder_run_zero_def Let_def
      recorder_thread_check_and_exit_stream_def)

lemma turn_inv:
  assumes "recorder_func_turn env mc cfg x te s = Done (b, s')" "thread_inv s"
  shows "thread_inv s'"
proof -
  have e: "thread_inv (recorder_thread_error s)" using assms(2) by (simp add: recorder_thread_error_def thread_inv_def thread_defs)
  show ?thesis
    using assms started_inv [of env mc cfg s s'] run_inv [of env mc cfg s s'] pause_inv [of s env] e
    by (auto simp: recorder_func_turn_def Let_def split: if_splits run.splits)
qed

section \<open>Reachable threads\<close>

text \<open>
  A thread starts on a job with zeroed run data; the frames arrive in its queues from outside
  and its environment may answer differently at every turn.
\<close>

inductive rec_reach :: "media_config \<Rightarrow> recorder_config_t \<Rightarrow> rec_thread \<Rightarrow> bool" for mc cfg where
  begins: "effects s = [] \<Longrightarrow> job_run (ctrl s) = recorder_run_zero \<Longrightarrow>
     recorder_func_begin env cfg sz s = Some s' \<Longrightarrow> rec_reach mc cfg s'"
| turns: "rec_reach mc cfg s \<Longrightarrow> recorder_func_turn env mc cfg info_exit te s = Done (True, s') \<Longrightarrow> rec_reach mc cfg s'"
| frames: "rec_reach mc cfg s \<Longrightarrow> rec_reach mc cfg (s\<lparr>video_buff := vb, audio_buff := ab, rec_bus := b\<rparr>)"

inductive_cases rec_reach_cases: "rec_reach mc cfg s"

lemma rec_reach_inv: "rec_reach mc cfg s \<Longrightarrow> thread_inv s"
proof (induction rule: rec_reach.induct)
  case (begins s env sz s')
  then have "effects s' = []" "no_flags (run_of s')"
    by (auto simp: recorder_func_begin_def no_flags_def recorder_run_zero_def Let_def split: option.splits)
  then show ?case
    using begins(3) by (auto simp: thread_inv_def handled_def no_flags_def recorder_func_begin_def Let_def split: option.splits)
next
  case (turns s env info_exit te s')
  then show ?case using turn_inv by blast
next
  case frames
  then show ?case by (subst inv_same_job) (simp_all add: same_job_def)
qed

text \<open>
  C6: Whatever frames arrive and however the environment answers, a recording thread drives
  the MP4 library by its protocol: no file is created while one is open, parameter sets come
  once and in order, no sample is written before them and before a key picture, nothing
  touches a closed file; and when the thread ends, no file is left open.
\<close>

theorem recorder_obeys_mp4_protocol:
  assumes "rec_reach mc cfg s"
  shows "mp4_run (effects s) \<noteq> None \<and> mp4_run (effects (recorder_func_end s)) = Some no_file"
proof -
  obtain st where st: "mp4_run (effects s) = Some st" "fs_open st = (mp4_file (run_of s) \<noteq> 0)"
    using rec_reach_inv [OF assms] by (auto simp: thread_inv_def handled_def)
  show ?thesis
  proof (cases "fs_open st")
    case True
    then show ?thesis using st by (simp add: recorder_func_end_def Let_def)
  next
    case False
    then show ?thesis using st closed_no_file [OF st(1)] by (simp add: recorder_func_end_def Let_def)
  qed
qed

section \<open>The frame loop ends\<close>

lemma start_code_step_bound: "start_code_step p i = Some (b, j) \<Longrightarrow> j \<le> length p \<and> (b \<longrightarrow> j = i + 4)"
  by (auto simp: start_code_step_def array_get_def split: if_splits)

lemma find_start_code_bound:
  "find_start_code p n i = Some (b, j) \<Longrightarrow> i \<le> length p \<Longrightarrow> n = length p \<Longrightarrow>
   j \<le> n \<and> (b \<longrightarrow> i + 4 \<le> j) \<and> (\<not> b \<longrightarrow> j = n)"
proof (induction p n i rule: find_start_code.induct)
  case (1 p n i)
  show ?case
  proof (cases "i < n")
    case True
    then obtain f k where k: "start_code_step p i = Some (f, k)"
      using "1.prems"(1) by (auto simp: find_start_code.simps [of p n i] split: option.splits)
    have kb: "k \<le> length p" "f \<longrightarrow> k = i + 4" "i < k"
      using start_code_step_bound [OF k] start_code_step_gt [OF k] by auto
    show ?thesis
    proof (cases f)
      case f: True
      then have "b \<and> j = k" using "1.prems"(1) k True by (simp add: find_start_code.simps [of p n i])
      then show ?thesis using "1.prems"(3) kb f by simp
    next
      case False
      then have "find_start_code p n k = Some (b, j)" using "1.prems"(1) k True by (simp add: find_start_code.simps [of p n i])
      then have "j \<le> n \<and> (b \<longrightarrow> k + 4 \<le> j) \<and> (\<not> b \<longrightarrow> j = n)"
        using "1.IH" [OF True k refl False] "1.prems"(3) kb(1) by simp
      then show ?thesis using kb(3) by auto
    qed
  next
    case False
    then have "i = n" using "1.prems"(2,3) by simp
    then show ?thesis using "1.prems"(1,3) by (simp add: find_start_code_end)
  qed
qed

lemma read_nalu_advances:
  assumes "h264_read_nalu data (length data) pos u = Some (len, u')" "pos \<le> length data"
  shows "len = 0 \<or> (4 \<le> len \<and> int pos + len \<le> int (length data))"
proof -
  let ?n = "length data"
  obtain f i where i: "find_start_code data ?n pos = Some (f, i)"
    using assms(1) by (auto simp: h264_read_nalu_def split: option.splits)
  show ?thesis
  proof (cases f)
    case False
    then show ?thesis using assms(1) i by (simp add: h264_read_nalu_def)
  next
    case True
    then have ib: "i \<le> ?n" "pos + 4 \<le> i" using find_start_code_bound [OF i assms(2) refl] by auto
    obtain g j where j: "find_start_code data ?n i = Some (g, j)"
      using assms(1) i True by (auto simp: h264_read_nalu_def split: option.splits)
    have jb: "j \<le> ?n" "g \<longrightarrow> i + 4 \<le> j" "\<not> g \<longrightarrow> j = ?n" using find_start_code_bound [OF j ib(1) refl] by auto
    have "len = (if j = ?n then int j - int i else int j - 4 - int i) + int i - int pos"
      using assms(1) i j True by (auto simp: h264_read_nalu_def Let_def split: option.splits if_splits)
    then show ?thesis using ib jb by (cases g) auto
  qed
qed

lemma write_loop_fuel:
  "pos \<le> length data \<Longrightarrow> length data - pos < fuel \<Longrightarrow>
   write_loop fuel env data (length data) avinfo pos nalu s \<noteq> Out_of_fuel"
proof (induction fuel arbitrary: pos nalu s)
  case (Suc fuel)
  show ?case
  proof (cases "h264_read_nalu data (length data) pos nalu")
    case (Some lu)
    obtain len u where lu: "lu = (len, u)" by fastforce
    have "len = 0 \<or> (4 \<le> len \<and> int pos + len \<le> int (length data))"
      using read_nalu_advances [of data pos nalu len u] Some lu Suc.prems(1) by simp
    then consider "len = 0" | "len \<noteq> 0" "nat (int pos + len) \<le> length data" "length data - nat (int pos + len) < fuel"
      using Suc.prems(2) by fastforce
    then show ?thesis
      using Suc.IH Some lu by cases (auto simp: write_loop.simps(2) split: option.splits)
  qed (simp add: write_loop.simps(2))
qed simp

text \<open>
  The frame writer ends on every frame, however its units are laid out: the fuel it is
  given, one more than the length of the frame, is never used up.
\<close>

theorem write_mp4_video_terminates:
  "recorder_thread_write_mp4_video env data (length data) avinfo s \<noteq> Out_of_fuel"
  unfolding recorder_thread_write_mp4_video_def by (rule write_loop_fuel) simp_all

section \<open>The period of a recording\<close>

lemma uint_ucast64: "uint (ucast (w :: u32) :: u64) = uint w"
proof -
  have "uint w < 2 ^ 64" using uint_lt2p [of w] by simp
  then show ?thesis by (simp add: unsigned_ucast_eq take_bit_int_eq_self_iff)
qed

lemma job_window_length:
  assumes "job_window env cfg ini = Some (start, stop)" "min_length cfg \<le> max_length cfg"
  shows "ucast (min_length cfg) \<le> stop - start \<and> stop - start \<le> ucast (max_length cfg)"
proof -
  have le: "(ucast (min_length cfg) :: u64) \<le> ucast (max_length cfg)"
    using assms(2) by (simp add: word_le_def uint_ucast64)
  show ?thesis using assms(1) le by (auto simp: job_window_def not_less split: option.splits if_splits)
qed

text \<open>
  A recording that is repeated starts over where the last file ended: its next period
  begins \<open>repeat_interval\<close> seconds after the last frame written (or after now, when there was
  none) and keeps its length, all flags of the old file are cleared, and the thread waits
  for the start again; a single recording asks its thread to exit.
\<close>

theorem recorder_pause_spec:
  "ctrl (recorder_thread_pause env s) =
    (if ri_repeat (job_init (ctrl s)) = 0 then (ctrl s)\<lparr>job_run := (run_of s)\<lparr>run_exit := True\<rparr>\<rparr>
     else let start = (if real_stop (run_of s) = 0 then now env else real_stop (run_of s))
                        + word_of_int (ri_repeat_interval (job_init (ctrl s))) in
       (ctrl s)\<lparr>job_status := RECORDER_THREAD_STARTED,
         job_run := recorder_run_zero\<lparr>run_start := start, run_stop := start + (run_stop (run_of s) - run_start (run_of s))\<rparr>\<rparr>)"
  by (simp add: recorder_thread_pause_def recorder_thread_check_and_exit_stream_def Let_def)

section \<open>What closing registers\<close>

text \<open>
  Closing a recording of at least the minimum length names its file by the stamps of its
  first and last frame, but registers it in the index with the address of the last stamp
  in place of its value, so that the index entry ends where the file does only by accident.
\<close>

theorem recorder_close_registers_address:
  assumes "mp4_file (run_of s) \<noteq> 0" "\<not> last_write (run_of s) - real_start (run_of s) < ucast (min_length cfg)"
    and "rename_ok env (file_path (run_of s))"
  shows "recorder_thread_close env mc cfg s = (0, s\<lparr>
      ctrl := (ctrl s)\<lparr>job_run := (run_of s)\<lparr>mp4_file := 0, real_stop := last_write (run_of s),
        file_path := final_name mc (ri_type (job_init (ctrl s))) (real_start (run_of s)) (last_write (run_of s)) ''.mp4''\<rparr>\<rparr>,
      effects := effects s @
        [MP4_close,
         File_rename (snap_name mc (ri_type (job_init (ctrl s))) (run_start (run_of s)))
           (final_name mc (ri_type (job_init (ctrl s))) (real_start (run_of s)) (last_write (run_of s)) ''.jpg''),
         File_rename (file_path (run_of s))
           (final_name mc (ri_type (job_init (ctrl s))) (real_start (run_of s)) (last_write (run_of s)) ''.mp4''),
         Index_add (ri_type (job_init (ctrl s))) (real_start (run_of s)) (addr_last_write env)]\<rparr>)"
  using assms by (simp add: recorder_thread_close_def Let_def)

text \<open>
  Once the address, read as a time, is after the start of the next recording, the index is
  no longer well formed, and the searches' precondition is gone.
\<close>

lemma address_breaks_index:
  assumes "length (f_start fl) = MAX_FILE_NUM" "length (f_stop fl) = MAX_FILE_NUM" "f_num fl + 1 < MAX_FILE_NUM"
    and "start2 < address"
  shows "\<not> index_ok (snd (file_manager_add_file (snd (file_manager_add_file fl start1 address)) start2 address))"
proof -
  let ?n = "f_num fl"
  let ?fl = "snd (file_manager_add_file (snd (file_manager_add_file fl start1 address)) start2 address)"
  have "f_num ?fl = ?n + 2" "f_stop ?fl ! ?n = address" "f_start ?fl ! (?n + 1) = start2"
    using assms(1-3) by (simp_all add: file_manager_add_file_def)
  then have "?n + 1 < f_num ?fl \<and> ?n < ?n + 1 \<and> \<not> f_stop ?fl ! ?n \<le> f_start ?fl ! (?n + 1)"
    using assms(4) by simp
  then show ?thesis unfolding index_ok_def by blast
qed

section \<open>The properties on a concrete job\<close>

definition demo_rec_env :: rec_env where
  "demo_rec_env = \<lparr>now = 1600000000, mp4_create = 1, mp4_add_video_track = 1, mp4_add_audio_track = 2,
     mp4_sample_ok = (\<lambda>_. True), file_present = (\<lambda>_. True), rename_ok = (\<lambda>_. True),
     addr_last_write = 0xb6f00000, date_to_stamp = (\<lambda>_. None)\<rparr>"

definition demo_thread :: rec_thread where
  "demo_thread = \<lparr>ctrl = \<lparr>job_status = RECORDER_THREAD_INITED, t_id = 0,
       job_init = \<lparr>ri_type = 0, ri_sub_type = 0, ri_mode = 0, ri_repeat = 1, ri_repeat_interval = 0,
         ri_audio = 1, ri_quality = 0, ri_video_channel = 0, ri_start = ''0'', ri_stop = ''0''\<rparr>,
       job_run = recorder_run_zero\<rparr>,
     video_buff = demo_queue 0, audio_buff = demo_queue 0, effects = [], rec_bus = (\<lambda>_. demo_queue 1)\<rparr>"

lemma recorder_obeys_mp4_protocol_witness:
  "\<exists>s. effects s \<noteq> [] \<and> mp4_file (run_of s) = 1 \<and> mp4_run (effects s) \<noteq> None
    \<and> mp4_run (effects (recorder_func_end s)) = Some no_file"
proof -
  obtain s1 where s1: "recorder_func_begin demo_rec_env recorder_config_default 16 demo_thread = Some s1"
    "ctrl s1 = (ctrl demo_thread)\<lparr>job_status := RECORDER_THREAD_STARTED,
       job_run := recorder_run_zero\<lparr>run_start := 1600000000, run_stop := 1600000180\<rparr>\<rparr>" "effects s1 = []"
    by (simp add: recorder_func_begin_def job_window_def starts_now_def demo_thread_def demo_rec_env_def
        recorder_config_default_def)
  have "rec_reach demo_config recorder_config_default s1"
    by (rule rec_reach.begins [OF _ _ s1(1)]) (simp_all add: demo_thread_def)
  moreover obtain s2 where s2: "recorder_func_turn demo_rec_env demo_config recorder_config_default 0 0 s1 = Done (True, s2)"
    "effects s2 \<noteq> []" "mp4_file (run_of s2) = 1"
    using s1(2,3)
    by (simp add: recorder_func_turn_def recorder_thread_started_def recorder_thread_init_mp4v2_def Let_def
        demo_thread_def demo_rec_env_def recorder_config_default_def recorder_run_zero_def misc_get_bit_def)
  ultimately have "rec_reach demo_config recorder_config_default s2" by (metis rec_reach.turns)
  from recorder_obeys_mp4_protocol [OF this] s2(2,3) show ?thesis by blast
qed

lemma recorder_close_registers_address_witness:
  "Index_add 0 1600000000 0xb6f00000 \<in> set (effects (snd (recorder_thread_close demo_rec_env demo_config recorder_config_default
      (with_run (\<lambda>r. r\<lparr>mp4_file := 1, real_start := 1600000000, last_write := 1600000180\<rparr>) demo_thread))))"
  using recorder_close_registers_address
      [of "with_run (\<lambda>r. r\<lparr>mp4_file := 1, real_start := 1600000000, last_write := 1600000180\<rparr>) demo_thread"
        recorder_config_default demo_rec_env demo_config]
  by (simp add: demo_thread_def demo_rec_env_def recorder_config_default_def)

end
