(* ===== verification/RecorderServer.thy ===== *)
theory RecorderServer
  imports Recorder ServerLoop
begin

text \<open>
  The recorder server of \<open>server/recorder/recorder.c\<close>: its job table, its message handler, its
  state machine and its loop.

  The recording threads are the bits of \<open>thread_start\<close>: a thread sets its bit when it starts,
  and clears it, its exit bit and its entry of the job table when it ends.  A wait for them
  (\<open>while (info.thread_start != 0) usleep(...)\<close>) is the field \<open>await\<close>, the code to run
  after it.  Whether \<open>pthread_create\<close> succeeds is an argument.
\<close>

section \<open>State\<close>

abbreviation (input) "MAX_RECORDER_JOB \<equiv> 3 :: nat"
abbreviation (input) "RECORDER_PROPERTY_SWITCH \<equiv> 5 :: int"
abbreviation (input) "RECORDER_INIT_CONDITION_DEVICE_SD \<equiv> 0 :: nat"
abbreviation (input) "RECORDER_INIT_CONDITION_TIME_SYCHRONIZED \<equiv> 1 :: nat"
abbreviation (input) "RECORDER_INIT_CONDITION_NUM \<equiv> 2 :: nat"
abbreviation (input) "RECORDER_EXIT_CONDITION \<equiv> 0 :: int"
abbreviation (input) "ALIYUN_RECORDER_MODE_NONE \<equiv> 0 :: int"
abbreviation (input) "ALIYUN_RECORDER_MODE_ALARM \<equiv> 1 :: int"
abbreviation (input) "ALIYUN_RECORDER_MODE_PLAN \<equiv> 2 :: int"
abbreviation (input) "ALIYUN_RECORDER_MODE_ALL \<equiv> 3 :: int"
abbreviation (input) "LV_STORAGE_RECORD_PLAN \<equiv> 0 :: int"
abbreviation (input) "LV_STORAGE_RECORD_ALARM \<equiv> 1 :: int"
abbreviation (input) "DEVICE_PARAM_SD_INFO \<equiv> 0 :: int"
abbreviation (input) "RECORDER_MODE_BY_TIME \<equiv> 0 :: int"

datatype stage = Stopped | Restarted | Reinited

datatype server_call =
    Save_config
  | Sync_property int
  | Sd_format_response
  | Broadcast
  | Make_folders
  | Timer_handler

record rec_server = server_state +
  jobs :: "recorder_job_t list"
  recorder_enable :: int
  rec_config :: recorder_config_t
  await :: "stage option"
  calls :: "server_call list"
  fault :: bool

abbreviation "call c s \<equiv> s\<lparr>calls := calls s @ [c]\<rparr>"

definition init_zero :: recorder_init_t where
  "init_zero = \<lparr>ri_type = 0, ri_sub_type = 0, ri_mode = 0, ri_repeat = 0, ri_repeat_interval = 0,
     ri_audio = 0, ri_quality = 0, ri_video_channel = 0, ri_start = [], ri_stop = []\<rparr>"

definition job_zero :: recorder_job_t where
  "job_zero = \<lparr>job_status = 0, t_id = 0, job_init = init_zero, job_run = recorder_run_zero\<rparr>"

section \<open>Jobs\<close>

definition count_job_number :: "rec_server \<Rightarrow> nat" where
  "count_job_number s = length (filter (\<lambda>j. job_status j > 0) (jobs s))"

definition recorder_broadcast_session_exit :: "rec_server \<Rightarrow> rec_server" where
  "recorder_broadcast_session_exit s = call Broadcast s"

text \<open>The acknowledgement goes to \<open>msg->receiver\<close>, not to the sender.\<close>

definition add_ack :: "msg \<Rightarrow> int \<Rightarrow> msg" where
  "add_ack m result = msg_init\<lparr>m_message := m_message m OR 0x1000, m_sender := SERVER_RECORDER,
     m_receiver := SERVER_RECORDER, m_result := result\<rparr>"

definition refused_mode :: "int \<Rightarrow> int \<Rightarrow> bool" where
  "refused_mode enable ty =
     (ty = LV_STORAGE_RECORD_PLAN \<and> (enable = ALIYUN_RECORDER_MODE_NONE \<or> enable = ALIYUN_RECORDER_MODE_ALARM)
      \<or> ty = LV_STORAGE_RECORD_ALARM \<and> (enable = ALIYUN_RECORDER_MODE_NONE \<or> enable = ALIYUN_RECORDER_MODE_PLAN))"

fun free_slot :: "recorder_job_t list \<Rightarrow> nat \<Rightarrow> nat option" where
  "free_slot [] i = None"
| "free_slot (j # js) i = (if job_status j = RECORDER_THREAD_NONE then Some i else free_slot js (i + 1))"

definition start_job :: "bool \<Rightarrow> recorder_init_t \<Rightarrow> nat \<Rightarrow> rec_server \<Rightarrow> rec_server" where
  "start_job create_ok ini i s =
     (if create_ok
      then s\<lparr>jobs := (jobs s)[i := job_zero\<lparr>t_id := i, job_status := RECORDER_THREAD_STARTED, job_init := ini\<rparr>],
             info := (info s)\<lparr>thread_exit := misc_clear_bit (thread_exit (info s)) i\<rparr>\<rparr>
      else s\<lparr>jobs := (jobs s)[i := job_zero\<lparr>t_id := 255, job_status := RECORDER_THREAD_NONE, job_init := ini\<rparr>]\<rparr>)"

definition recorder_add_job :: "bool \<Rightarrow> msg \<Rightarrow> rec_server \<Rightarrow> int \<times> rec_server" where
  "recorder_add_job create_ok m s =
     (let answer = (\<lambda>result s. global_common_send_message (bus s) (m_receiver m) (add_ack m result)) in
      if recorder_enable s = ALIYUN_RECORDER_MODE_NONE \<or> count_job_number s = MAX_RECORDER_JOB
      then (- 1, s\<lparr>bus := snd (answer (- 1) s)\<rparr>)
      else case m_arg m of
        Some (P_recorder_init ini) \<Rightarrow>
          if refused_mode (recorder_enable s) (ri_type ini) then (- 1, s\<lparr>bus := snd (answer (- 1) s)\<rparr>)
          else let s = (case free_slot (jobs s) 0 of None \<Rightarrow> s | Some i \<Rightarrow> start_job create_ok ini i s) in
            (fst (answer 0 s), s\<lparr>bus := snd (answer 0 s)\<rparr>)
      | _ \<Rightarrow> (0, s\<lparr>fault := True\<rparr>))"

text \<open>
  The default job.  Its record is a local variable that is only partly assigned, \<open>garbage\<close>;
  the dates are copied over it without their terminating zero.
\<close>

definition recorder_start_init_recorder_job :: "bool \<Rightarrow> recorder_init_t \<Rightarrow> rec_server \<Rightarrow> int \<times> rec_server" where
  "recorder_start_init_recorder_job create_ok garbage s =
     (if status2 (info s) \<noteq> 0 then (0, s)
      else
        let c = rec_config s;
            over = (\<lambda>txt old. txt @ drop (length txt) old);
            ini = garbage\<lparr>ri_video_channel := 0, ri_mode := RECORDER_MODE_BY_TIME, ri_type := LV_STORAGE_RECORD_PLAN,
              ri_audio := normal_audio c, ri_start := over (normal_start c) (ri_start garbage),
              ri_stop := over (normal_end c) (ri_stop garbage), ri_repeat := normal_repeat c,
              ri_repeat_interval := normal_repeat_interval c, ri_quality := normal_quality c\<rparr>;
            m = msg_init\<lparr>m_message := MSG_RECORDER_ADD, m_sender := SERVER_RECORDER, m_receiver := SERVER_RECORDER,
              m_arg := Some (P_recorder_init ini)\<rparr>;
            (ret, s) = recorder_add_job create_ok m s in
        (ret, if ret = 0 then with_info (\<lambda>x. x\<lparr>status2 := 1\<rparr>) s else s))"

definition recorder_set_property :: "msg \<Rightarrow> rec_server \<Rightarrow> rec_server" where
  "recorder_set_property m s =
     (if cat (m_arg_in m) = RECORDER_PROPERTY_SWITCH then
        case m_arg m of
          Some (P_int temp) \<Rightarrow>
            let s = (if recorder_enable s \<noteq> temp
                  then call Save_config ((set_status (if temp = 0 then STATUS_STOP else STATUS_START) s)\<lparr>recorder_enable := temp\<rparr>)
                  else s) in
            call (Sync_property (recorder_enable s)) s
        | _ \<Rightarrow> s\<lparr>fault := True\<rparr>
      else s)"

section \<open>Messages\<close>

definition recorder_message_filter :: "msg \<Rightarrow> rec_server \<Rightarrow> bool" where
  "recorder_message_filter m s = error_filter m s"

definition handle_message :: "bool \<Rightarrow> msg \<Rightarrow> rec_server \<Rightarrow> rec_server" where
  "handle_message create_ok m s =
     (let k = m_message m in
      if k = MSG_RECORDER_ADD then
        (if status (info s) = STATUS_RUN then snd (recorder_add_job create_ok m s) else s)
      else if k = MSG_MANAGER_EXIT then
        on_manager_exit m s
      else if k = MSG_MANAGER_TIMER_ON then call Timer_handler s
      else if k = MSG_DEVICE_GET_PARA_ACK then
        (if cat (m_arg_in m) = DEVICE_PARAM_SD_INFO \<and> dog (m_arg_in m) \<noteq> 0
         then call Make_folders (with_info (\<lambda>x. x\<lparr>init_status := misc_set_bit (init_status x) RECORDER_INIT_CONDITION_DEVICE_SD\<rparr>) s)
         else s)
      else if k = MSG_ALIYUN_TIME_SYNCHRONIZED then
        with_info (\<lambda>x. x\<lparr>init_status := misc_set_bit (init_status x) RECORDER_INIT_CONDITION_TIME_SYCHRONIZED\<rparr>) s
      else if k = MSG_ALIYUN_GET_TIME_SYNC_ACK then
        with_info (\<lambda>x. x\<lparr>init_status :=
          (if cat (m_arg_in m) = 1 then misc_set_bit (init_status x) RECORDER_INIT_CONDITION_TIME_SYCHRONIZED
           else misc_clear_bit (init_status x) RECORDER_INIT_CONDITION_TIME_SYCHRONIZED)\<rparr>) s
      else if k = MSG_MANAGER_EXIT_ACK then
        on_exit_ack m s
      else if k = MSG_DEVICE_SD_FORMAT_START then
        set_status STATUS_REINIT (keep_task_msg m s)
      else if k = MSG_RECORDER_PROPERTY_SET then recorder_set_property m s
      else s)"

text \<open>After the wait on the condition variable.\<close>

definition rec_take_message :: "bool \<Rightarrow> rec_server \<Rightarrow> rec_server" where
  "rec_take_message create_ok = take_message SERVER_RECORDER lock_block recorder_message_filter (handle_message create_ok)"

definition rec_server_message_proc :: "bool \<Rightarrow> rec_server \<Rightarrow> rec_server" where
  "rec_server_message_proc create_ok =
     message_proc SERVER_RECORDER lock_block recorder_message_filter (handle_message create_ok)"

section \<open>The state machine\<close>

definition rec_server_init :: "rec_server \<Rightarrow> rec_server" where
  "rec_server_init s =
     (let s = (if misc_get_bit (init_status (info s)) RECORDER_INIT_CONDITION_DEVICE_SD = 0
            then send SERVER_DEVICE (msg_init\<lparr>m_message := MSG_DEVICE_GET_PARA, m_sender := SERVER_RECORDER,
              m_receiver := SERVER_RECORDER, m_arg_in := arg_zero\<lparr>cat := DEVICE_PARAM_SD_INFO\<rparr>\<rparr>) s else s);
          s = (if misc_get_bit (init_status (info s)) RECORDER_INIT_CONDITION_TIME_SYCHRONIZED = 0
            then send SERVER_ALIYUN (msg_init\<lparr>m_message := MSG_ALIYUN_GET_TIME_SYNC, m_sender := SERVER_RECORDER,
              m_receiver := SERVER_RECORDER\<rparr>) s else s) in
      if misc_full_bit (init_status (info s)) RECORDER_INIT_CONDITION_NUM \<noteq> 0
      then with_info (\<lambda>x. x\<lparr>status := STATUS_WAIT, info_tick := 0\<rparr>) s else s)"

definition rec_server_setup :: "rec_server \<Rightarrow> rec_server" where
  "rec_server_setup s = set_status STATUS_IDLE s"

definition rec_server_start :: "rec_server \<Rightarrow> rec_server" where
  "rec_server_start s = set_status STATUS_RUN s"

text \<open>What stopping, restarting and reinitialising have in common, up to the wait.\<close>

definition stop_threads :: "stage \<Rightarrow> rec_server \<Rightarrow> rec_server" where
  "stop_threads next_stage s =
     (let s = with_info (\<lambda>x. x\<lparr>thread_exit := foldl misc_set_bit (thread_exit x) [0..<MAX_RECORDER_JOB]\<rparr>) s;
          s = recorder_broadcast_session_exit s in
      s\<lparr>bus := global_common_send_dummy (bus s) SERVER_RECORDER, await := Some next_stage\<rparr>)"

definition rec_server_stop :: "rec_server \<Rightarrow> rec_server" where
  "rec_server_stop s = stop_threads Stopped s"

definition rec_server_restart :: "rec_server \<Rightarrow> rec_server" where
  "rec_server_restart s = stop_threads Restarted s"

definition rec_server_reinit :: "rec_server \<Rightarrow> rec_server" where
  "rec_server_reinit s = stop_threads Reinited s"

text \<open>After the wait.\<close>

definition threads_stopped :: "stage \<Rightarrow> rec_server \<Rightarrow> rec_server" where
  "threads_stopped k s =
     (let s = s\<lparr>await := None\<rparr> in
      case k of
        Stopped \<Rightarrow> with_info (\<lambda>x. x\<lparr>status2 := 0, status := STATUS_IDLE\<rparr>) s
      | Restarted \<Rightarrow> with_info (\<lambda>x. x\<lparr>status2 := 0, status := STATUS_WAIT\<rparr>) s
      | Reinited \<Rightarrow> (call Sd_format_response (set_status STATUS_NONE s))\<lparr>info := info_zero ()\<rparr>)"

definition rec_server_release_1 :: "rec_server \<Rightarrow> rec_server" where
  "rec_server_release_1 s = recorder_broadcast_session_exit s"

text \<open>\<open>memset(&jobs, 0, sizeof(recorder_job_t))\<close> clears the first job only.\<close>

definition rec_server_release_2 :: "rec_server \<Rightarrow> rec_server" where
  "rec_server_release_2 s =
     s\<lparr>bus := (bus s)(SERVER_RECORDER := msg_buffer_release (bus s SERVER_RECORDER)), jobs := (jobs s)[0 := job_zero]\<rparr>"

definition rec_server_release_3 :: "rec_server \<Rightarrow> rec_server" where
  "rec_server_release_3 s =
     send SERVER_MANAGER (msg_init\<lparr>m_message := MSG_MANAGER_EXIT_ACK, m_sender := SERVER_RECORDER\<rparr>)
       (s\<lparr>info := info_zero ()\<rparr>)"

definition task_proc :: "rec_server \<Rightarrow> rec_server" where
  "task_proc s =
     (if status (info s) = STATUS_NONE then set_status STATUS_INIT s
      else if status (info s) = STATUS_WAIT then
        (if recorder_enable s \<noteq> 0 then set_status STATUS_SETUP s else s)
      else if status (info s) = STATUS_IDLE then set_status STATUS_START s
      else s)"

definition run_default_job :: "bool \<Rightarrow> recorder_init_t \<Rightarrow> rec_server \<Rightarrow> rec_server" where
  "run_default_job create_ok garbage s =
     (if status2 (info s) = 0 \<and> (recorder_enable s = ALIYUN_RECORDER_MODE_PLAN \<or> recorder_enable s = ALIYUN_RECORDER_MODE_ALL)
      then with_info (\<lambda>x. x\<lparr>status2 := 1\<rparr>) (snd (recorder_start_init_recorder_job create_ok garbage s))
      else s)"

definition state_machine :: "bool \<Rightarrow> recorder_init_t \<Rightarrow> rec_server \<Rightarrow> rec_server" where
  "state_machine create_ok garbage s =
     (let st = status (info s) in
      if st = STATUS_RUN then run_default_job create_ok garbage s
      else if st = STATUS_INIT then rec_server_init s
      else if st = STATUS_SETUP then rec_server_setup s
      else if st = STATUS_START then rec_server_start s
      else if st = STATUS_STOP then rec_server_stop s
      else if st = STATUS_RESTART then rec_server_restart s
      else if st = STATUS_REINIT then rec_server_reinit s
      else if st = STATUS_ERROR then with_info (\<lambda>x. x\<lparr>status := EXIT_INIT, msg_lock := 0\<rparr>) s
      else if st = EXIT_INIT then with_info exit_init s
      else if st = EXIT_SERVER then (if quit_status (info s) = 0 then set_status EXIT_STAGE1 s else s)
      else if st = EXIT_STAGE1 then set_status EXIT_THREAD (rec_server_release_1 s)
      else if st = EXIT_THREAD then
        (let s = recorder_broadcast_session_exit (with_info (\<lambda>x. x\<lparr>thread_exit := thread_start x\<rparr>) s) in
         if thread_start (info s) = 0 then set_status EXIT_STAGE2 s else s)
      else if st = EXIT_STAGE2 then set_status EXIT_FINISH (rec_server_release_2 s)
      else if st = EXIT_FINISH then with_info (\<lambda>x. x\<lparr>exit_flag := 1, status := STATUS_NONE\<rparr>) s
      else s)"

section \<open>The loop and the threads\<close>

definition rec_server_begin :: "int \<Rightarrow> int \<Rightarrow> rec_server \<Rightarrow> rec_server" where
  "rec_server_begin msg_overrun msg_buffer_size_small s =
     (let s = s\<lparr>bus := (bus s)(SERVER_RECORDER := msg_buffer_init True (bus s SERVER_RECORDER) msg_overrun msg_buffer_size_small)\<rparr> in
      with_info (\<lambda>x. x\<lparr>quit_status := RECORDER_EXIT_CONDITION, init := 1\<rparr>) s)"

text \<open>
  A turn; and the rest of a turn whose state machine waited for the threads, once they are
  gone.
\<close>

definition rec_server_turn :: "bool \<Rightarrow> recorder_init_t \<Rightarrow> rec_server \<Rightarrow> rec_server" where
  "rec_server_turn create_ok garbage =
     loop_turn (state_machine create_ok garbage) (\<lambda>s. await s \<noteq> None) task_proc (rec_server_message_proc create_ok)"

definition rec_server_resume :: "bool \<Rightarrow> rec_server \<Rightarrow> rec_server" where
  "rec_server_resume create_ok s =
     (case await s of
        Some k \<Rightarrow> if thread_start (info s) = 0
                  then rec_server_message_proc create_ok (task_proc (threads_stopped k s)) else s
      | None \<Rightarrow> s)"

definition rec_server_round :: "bool \<Rightarrow> recorder_init_t \<Rightarrow> rec_server \<Rightarrow> rec_server" where
  "rec_server_round create_ok garbage s =
     (if await s \<noteq> None then rec_server_resume create_ok s
      else loop_round SERVER_RECORDER (rec_server_turn create_ok garbage) (rec_take_message create_ok) s)"

text \<open>The server's share of a recording thread's beginning and end.\<close>

definition thread_begins :: "nat \<Rightarrow> rec_server \<Rightarrow> rec_server" where
  "thread_begins i = with_info (\<lambda>x. x\<lparr>thread_start := misc_set_bit (thread_start x) i\<rparr>)"

definition thread_ends :: "nat \<Rightarrow> rec_server \<Rightarrow> rec_server" where
  "thread_ends i s =
     (let s = with_info (\<lambda>x. x\<lparr>thread_start := misc_clear_bit (thread_start x) i,
                               thread_exit := misc_clear_bit (thread_exit x) i\<rparr>) s;
          s = s\<lparr>jobs := (jobs s)[i := job_zero]\<rparr> in
      s\<lparr>bus := global_common_send_dummy (bus s) SERVER_RECORDER\<rparr>)"

text \<open>The frame queues' entry points.\<close>

definition server_recorder_video_message :: "queue list \<Rightarrow> msg \<Rightarrow> (int \<times> queue list) option" where
  "server_recorder_video_message buffs m =
     (case array_get buffs (nat (wolf (m_arg_in m))) of
        None \<Rightarrow> None
      | Some q \<Rightarrow>
          if b_init q = 0 then Some (- 1, buffs)
          else case msg_buffer_push q (Some m) of (ret, q) \<Rightarrow>
            Some (ret, buffs[nat (wolf (m_arg_in m)) := q]))"

definition server_recorder_audio_message :: "queue list \<Rightarrow> msg \<Rightarrow> (int \<times> queue list) option" where
  "server_recorder_audio_message buffs m =
     (case array_get buffs (nat (wolf (m_arg_in m))) of
        None \<Rightarrow> None
      | Some q \<Rightarrow>
          if b_init q = 0 then Some (- 1, buffs)
          else case msg_buffer_push q (Some m) of (ret, q) \<Rightarrow>
            Some (ret, buffs[nat (wolf (m_arg_in m)) := q]))"

section \<open>The server leaves its loop\<close>

lemma lock_block_open: "msg_lock (info s) = 0 \<Longrightarrow> lock_block s = (False, s)"
  by (simp add: lock_block_def)

lemma thread_ends_frame:
  "info (thread_ends i s) = (info s)\<lparr>thread_start := misc_clear_bit (thread_start (info s)) i,
     thread_exit := misc_clear_bit (thread_exit (info s)) i\<rparr>"
  "bus (thread_ends i s) SERVER_RECORDER = global_common_send_dummy (bus s) SERVER_RECORDER SERVER_RECORDER"
  "waiting (thread_ends i s) = waiting s" "await (thread_ends i s) = await s"
  by (simp_all add: thread_ends_def Let_def)

interpretation recorder_threads: thread_pool SERVER_RECORDER thread_ends "\<lambda>i n. misc_clear_bit n i"
  by unfold_locales (simp_all add: is_server_def thread_ends_frame)

definition rec_settle :: "rec_server \<Rightarrow> rec_server" where
  "rec_settle = settle_threads thread_ends [0..<MAX_RECORDER_JOB]"

lemma rec_settle_await [simp]: "await (rec_settle s) = await s"
  unfolding rec_settle_def by (rule recorder_threads.settle_invariant) (rule thread_ends_frame)

lemma recorder_bits: "bit (7 :: int) k = (k \<in> set [0..<MAX_RECORDER_JOB])"
proof -
  have "(7 :: int) = mask 3" by (simp add: mask_eq_exp_minus_1)
  then show ?thesis by (simp only: bit_mask_iff) auto
qed

lemmas recorder_machine_defs = state_machine_def ladder_def exit_init_def rec_server_release_1_def
  rec_server_release_2_def recorder_broadcast_session_exit_def

interpretation recorder_exit: exit_ladder SERVER_RECORDER 7 "state_machine create_ok garbage" "\<lambda>s. await s \<noteq> None"
    task_proc lock_block recorder_message_filter "handle_message create_ok" rec_settle "\<lambda>s. await s = None"
  for create_ok garbage
proof unfold_locales
  fix s :: rec_server and m
  show "status (info s) \<in> exit_states \<Longrightarrow> climbs (info s) (info (state_machine create_ok garbage s))"
    by (rule ladder_keeps) (auto simp: recorder_machine_defs Let_def)
  show "status (info s) \<in> exit_states \<Longrightarrow> bus (state_machine create_ok garbage s) SERVER_RECORDER =
      (if status (info s) = EXIT_STAGE2 then msg_buffer_release (bus s SERVER_RECORDER) else bus s SERVER_RECORDER)"
    by (auto simp: recorder_machine_defs Let_def)
  show "await s = None \<Longrightarrow> status (info s) \<in> exit_states \<Longrightarrow>
      waiting (state_machine create_ok garbage s) = waiting s \<and> \<not> await (state_machine create_ok garbage s) \<noteq> None
      \<and> await (state_machine create_ok garbage s) = None"
    by (auto simp: recorder_machine_defs Let_def)
  show "status (info s) \<in> exit_states \<Longrightarrow> task_proc s = s" by (auto simp: task_proc_def)
  show "\<exists>v. task_proc s = set_status v s"
    by (auto simp: task_proc_def intro: exI [of _ "status (info s)"])
  show "m_message m = MSG_MANAGER_DUMMY \<Longrightarrow> handle_message create_ok m s = s" by (simp add: handle_message_def)
  show "thread_start (info s) AND 7 = thread_start (info s) \<Longrightarrow> \<exists>e. info (rec_settle s) = (info s)\<lparr>
      thread_start := thread_start (info s) AND NOT (thread_exit (info s)), thread_exit := e\<rparr>"
    unfolding rec_settle_def by (rule recorder_threads.settle_info [OF _ recorder_bits])
  show "await s = None \<Longrightarrow> waiting (rec_settle s) = waiting s \<and> await (rec_settle s) = None"
    using rec_settle_await [of s] by (simp add: rec_settle_def recorder_threads.settle_rest)
  show "thread_start (info s) AND 7 = thread_start (info s) \<Longrightarrow> quiet (bus s SERVER_RECORDER) \<Longrightarrow>
      b_init (bus s SERVER_RECORDER) \<noteq> 0 \<Longrightarrow>
      quiet (bus (rec_settle s) SERVER_RECORDER) \<and> b_init (bus (rec_settle s) SERVER_RECORDER) \<noteq> 0
      \<and> (thread_start (info s) AND thread_exit (info s) \<noteq> 0 \<longrightarrow> contents (bus (rec_settle s) SERVER_RECORDER) \<noteq> [])"
    unfolding rec_settle_def by (rule recorder_threads.settle_queue [OF _ recorder_bits])
  show "thread_start (info s) = 0 \<Longrightarrow> bus (rec_settle s) SERVER_RECORDER = bus s SERVER_RECORDER"
    by (simp add: rec_settle_def recorder_threads.settle_none)
qed (simp_all add: lock_block_open)

text \<open>One round, after the threads that were asked to exit have ended.\<close>

definition rec_exit_step :: "bool \<Rightarrow> recorder_init_t \<Rightarrow> rec_server \<Rightarrow> rec_server" where
  "rec_exit_step create_ok garbage s =
     loop_round SERVER_RECORDER (rec_server_turn create_ok garbage) (rec_take_message create_ok) (rec_settle s)"

text \<open>
  A recorder server that was told to exit, whose queue holds nothing but dummies and
  whose recording threads end when their exit bit is set, leaves its loop within nine
  rounds, whatever threads are running at the start.
\<close>

theorem recorder_exit_completes:
  assumes "leaving SERVER_RECORDER 7 (\<lambda>s. await s = None) s"
  shows "\<exists>n \<le> 9. exit_flag (info ((rec_exit_step create_ok garbage ^^ n) s)) \<noteq> 0"
proof -
  have "rec_exit_step create_ok garbage = (\<lambda>s. loop_round SERVER_RECORDER
      (loop_turn (state_machine create_ok garbage) (\<lambda>s. await s \<noteq> None) task_proc
        (message_proc SERVER_RECORDER lock_block recorder_message_filter (handle_message create_ok)))
      (take_message SERVER_RECORDER lock_block recorder_message_filter (handle_message create_ok)) (rec_settle s))"
    by (rule ext) (simp add: rec_exit_step_def rec_server_turn_def rec_server_message_proc_def rec_take_message_def)
  then show ?thesis using recorder_exit.leaves_loop [OF assms] by simp
qed

section \<open>The job table\<close>

text \<open>
  The server together with its threads and everybody who sends it messages.  A thread starts
  for a job that was given one, under the number the job holds at that moment; after the release
  a late thread may find any entry of the table.  A running thread ends at any time.
\<close>

inductive rec_server_reach :: "rec_server \<Rightarrow> bool" where
  start: "jobs s = replicate MAX_RECORDER_JOB job_zero \<Longrightarrow> info s = info_zero () \<Longrightarrow> rec_server_reach (rec_server_begin overrun sz s)"
| round: "rec_server_reach s \<Longrightarrow> rec_server_reach (rec_server_round create_ok garbage s)"
| thread_begin: "rec_server_reach s \<Longrightarrow> j \<in> set (jobs s) \<Longrightarrow>
     job_status j = RECORDER_THREAD_STARTED \<or> b_init (bus s SERVER_RECORDER) = 0 \<Longrightarrow> rec_server_reach (thread_begins (t_id j) s)"
| thread_end: "rec_server_reach s \<Longrightarrow> bit (thread_start (info s)) i \<Longrightarrow> rec_server_reach (thread_ends i s)"
| message: "rec_server_reach s \<Longrightarrow> rec_server_reach (send receiver m s)"

definition jobs_ok :: "recorder_job_t list \<Rightarrow> bool" where
  "jobs_ok js = (length js = MAX_RECORDER_JOB \<and> (\<forall>i < MAX_RECORDER_JOB.
     job_status (js ! i) = RECORDER_THREAD_NONE
     \<or> job_status (js ! i) = RECORDER_THREAD_STARTED \<and> t_id (js ! i) = i))"

text \<open>Every running thread has its own started job.\<close>

definition threads_ok :: "int \<Rightarrow> recorder_job_t list \<Rightarrow> bool" where
  "threads_ok n js = (\<forall>k. bit n k \<longrightarrow> k < MAX_RECORDER_JOB \<and> job_status (js ! k) = RECORDER_THREAD_STARTED)"

definition table_ok :: "rec_server \<Rightarrow> bool" where
  "table_ok s = (jobs_ok (jobs s)
     \<and> (b_init (bus s SERVER_RECORDER) \<noteq> 0 \<longrightarrow> threads_ok (thread_start (info s)) (jobs s)))"

subsection \<open>The entries\<close>

lemma jobs_ok_update:
  "jobs_ok js \<Longrightarrow> job_status j = RECORDER_THREAD_NONE \<or> job_status j = RECORDER_THREAD_STARTED \<and> t_id j = i \<Longrightarrow>
   jobs_ok (js[i := j])"
proof -
  assume j: "jobs_ok js" "job_status j = RECORDER_THREAD_NONE \<or> job_status j = RECORDER_THREAD_STARTED \<and> t_id j = i"
  have "job_status (js[i := j] ! k) = RECORDER_THREAD_NONE
      \<or> job_status (js[i := j] ! k) = RECORDER_THREAD_STARTED \<and> t_id (js[i := j] ! k) = k"
    if "k < MAX_RECORDER_JOB" for k
    using j that by (cases "k = i") (auto simp: jobs_ok_def)
  then show "jobs_ok (js[i := j])" using j(1) unfolding jobs_ok_def by (simp only: length_list_update) blast
qed

lemma job_zero_status [simp]: "job_status job_zero = RECORDER_THREAD_NONE"
  by (simp add: job_zero_def)

lemma free_slot_some:
  "free_slot js k = Some i \<Longrightarrow> k \<le> i \<and> i - k < length js \<and> job_status (js ! (i - k)) = RECORDER_THREAD_NONE"
proof (induction js k rule: free_slot.induct)
  case (2 j js k)
  show ?case
  proof (cases "job_status j = RECORDER_THREAD_NONE")
    case False
    then have "k + 1 \<le> i \<and> i - (k + 1) < length js \<and> job_status (js ! (i - (k + 1))) = RECORDER_THREAD_NONE"
      using 2 by simp
    moreover from this have "i - k = Suc (i - (k + 1))" by linarith
    ultimately show ?thesis by simp
  qed (use 2 in simp)
qed simp

lemma free_slot_none: "free_slot js k = None \<Longrightarrow> j \<in> set js \<Longrightarrow> job_status j \<noteq> RECORDER_THREAD_NONE"
  by (induction js k rule: free_slot.induct) (auto split: if_splits)

lemma job_cases: "jobs_ok js \<Longrightarrow> j \<in> set js \<Longrightarrow> job_status j = RECORDER_THREAD_NONE \<or> job_status j = RECORDER_THREAD_STARTED"
  by (auto simp: jobs_ok_def in_set_conv_nth)

lemma all_started:
  assumes "jobs_ok js"
  shows "(length (filter (\<lambda>j. job_status j > 0) js) = MAX_RECORDER_JOB)
    = (\<forall>i < MAX_RECORDER_JOB. job_status (js ! i) = RECORDER_THREAD_STARTED)"
proof -
  have len: "length js = MAX_RECORDER_JOB" using assms by (simp add: jobs_ok_def)
  have "(length (filter (\<lambda>j. job_status j > 0) js) = length js) = (\<forall>j \<in> set js. job_status j > 0)"
    by (metis filter_True length_filter_less less_irrefl)
  also have "\<dots> = (\<forall>i < length js. job_status (js ! i) > 0)" by (simp add: all_set_conv_all_nth)
  also have "\<dots> = (\<forall>i < length js. job_status (js ! i) = RECORDER_THREAD_STARTED)"
    using assms unfolding jobs_ok_def by fastforce
  finally show ?thesis by (simp only: len)
qed

lemma filter_update:
  "i < length xs \<Longrightarrow> length (filter P (xs[i := y])) + (if P (xs ! i) then 1 else 0)
    = length (filter P xs) + (if P y then 1 else 0)"
proof (induction xs arbitrary: i)
  case (Cons x xs)
  then show ?case by (cases i) auto
qed simp

text \<open>A job given away, and a job given back.\<close>

lemma threads_ok_update:
  assumes "threads_ok n js" "job_status (js ! i) = RECORDER_THREAD_NONE"
  shows "threads_ok n (js[i := j])" "\<not> bit n i"
proof -
  show free: "\<not> bit n i" using assms by (auto simp: threads_ok_def)
  have "js[i := j] ! k = js ! k" if "bit n k" for k
    using free that by (intro nth_list_update_neq) auto
  then show "threads_ok n (js[i := j])" using assms(1) by (simp add: threads_ok_def)
qed

lemma threads_ok_clear: "threads_ok n js \<Longrightarrow> threads_ok (misc_clear_bit n i) (js[i := j])"
proof -
  assume ok: "threads_ok n js"
  have "bit n k \<and> js[i := j] ! k = js ! k" if "bit (misc_clear_bit n i) k" for k
    using that by auto
  then show ?thesis using ok by (simp add: threads_ok_def)
qed

subsection \<open>The operations\<close>

lemma push_keeps_init: "b_init (snd (msg_buffer_push b (Some m))) = b_init b"
  by (auto simp: msg_buffer_push_def Let_def set_slot_def split: option.splits)

lemma pop_keeps_init: "b_init (snd (snd (msg_buffer_pop b d))) = b_init b"
  by (auto simp: msg_buffer_pop_def Let_def set_slot_def split: option.splits)

lemma send_keeps_init [simp]: "b_init (snd (global_common_send_message b r m) k) = b_init (b k)"
proof (cases "k = r \<and> is_server r")
  case True
  then show ?thesis
    by (cases "r = SERVER_MANAGER") (simp_all add: send_manager send_server deliver_def push_keeps_init)
next
  case False
  then show ?thesis by (cases "k = r") (simp_all add: send_other send_unknown)
qed

lemma dummy_keeps_init [simp]: "b_init (global_common_send_dummy b r k) = b_init (b k)"
  by (simp add: global_common_send_dummy_def)

lemma table_ok_frame [simp]:
  "table_ok (set_status v s) = table_ok s" "table_ok (s\<lparr>waiting := w\<rparr>) = table_ok s"
  "table_ok (s\<lparr>calls := c\<rparr>) = table_ok s" "table_ok (s\<lparr>await := a\<rparr>) = table_ok s" "table_ok (s\<lparr>fault := f\<rparr>) = table_ok s"
  "table_ok (s\<lparr>recorder_enable := e\<rparr>) = table_ok s" "table_ok (send r m s) = table_ok s"
  by (simp_all add: table_ok_def send_def)

lemma table_ok_bus: "table_ok s \<Longrightarrow> (b_init (b SERVER_RECORDER) \<noteq> 0 \<Longrightarrow> b_init (bus s SERVER_RECORDER) \<noteq> 0) \<Longrightarrow> table_ok (s\<lparr>bus := b\<rparr>)"
  by (auto simp: table_ok_def)

lemma table_ok_info:
  "table_ok s \<Longrightarrow> thread_start x = thread_start (info s) \<or> thread_start x = 0 \<Longrightarrow> table_ok (s\<lparr>info := x\<rparr>)"
  by (auto simp: table_ok_def threads_ok_def)

lemma table_start_job:
  assumes "table_ok s" "free_slot (jobs s) 0 = Some i"
  shows "table_ok (start_job create_ok ini i s)"
proof -
  have "job_status (jobs s ! i) = RECORDER_THREAD_NONE" using free_slot_some [OF assms(2)] by simp
  then show ?thesis
    using assms(1) threads_ok_update(1)
    by (auto simp: start_job_def table_ok_def intro!: jobs_ok_update)
qed

lemma table_add: "table_ok s \<Longrightarrow> table_ok (snd (recorder_add_job create_ok m s))"
  by (auto simp: recorder_add_job_def Let_def intro!: table_ok_bus table_start_job split: option.splits payload.splits)

lemma table_property: "table_ok s \<Longrightarrow> table_ok (recorder_set_property m s)"
  by (auto simp: recorder_set_property_def Let_def split: option.splits payload.splits)

lemma table_handle: "table_ok s \<Longrightarrow> table_ok (handle_message create_ok m s)"
  using table_add [of s create_ok m] table_property [of s m]
  by (auto simp: handle_message_def on_manager_exit_def on_exit_ack_def keep_task_msg_def Let_def intro!: table_ok_info)

lemma table_take: "table_ok s \<Longrightarrow> table_ok (rec_take_message create_ok s)"
proof -
  assume t: "table_ok s"
  obtain ret m q where p: "msg_buffer_pop (bus s SERVER_RECORDER) msg_init = (ret, m, q)" by (metis prod_cases3)
  have "b_init q = b_init (bus s SERVER_RECORDER)" using pop_keeps_init [of "bus s SERVER_RECORDER" msg_init] p by simp
  then have "table_ok (s\<lparr>bus := (bus s)(SERVER_RECORDER := q)\<rparr>)" by (intro table_ok_bus [OF t]) simp
  then show ?thesis
    using t p by (cases "msg_lock (info s) = 0")
      (auto simp: rec_take_message_def take_message_def lock_block_def Let_def intro!: table_handle)
qed

lemma table_proc: "table_ok s \<Longrightarrow> table_ok (rec_server_message_proc create_ok s)"
  using table_take [of s create_ok] by (simp add: rec_server_message_proc_def message_proc_def rec_take_message_def)

lemma table_task: "table_ok s \<Longrightarrow> table_ok (task_proc s)"
  by (simp add: task_proc_def)

lemma table_stop: "table_ok s \<Longrightarrow> table_ok (stop_threads k s)"
  by (auto simp: stop_threads_def recorder_broadcast_session_exit_def Let_def intro!: table_ok_info table_ok_bus)

lemma table_stopped: "table_ok s \<Longrightarrow> table_ok (threads_stopped k s)"
  by (cases k) (auto simp: threads_stopped_def Let_def info_zero_def intro!: table_ok_info)

lemma table_default: "table_ok s \<Longrightarrow> table_ok (run_default_job create_ok garbage s)"
proof -
  assume t: "table_ok s"
  have "table_ok (snd (recorder_start_init_recorder_job create_ok garbage s))"
    using t table_add [OF t]
    by (auto simp: recorder_start_init_recorder_job_def Let_def intro!: table_ok_info split: prod.splits)
      (metis snd_conv)+
  then show ?thesis using t by (auto simp: run_default_job_def intro!: table_ok_info)
qed

lemma table_init: "table_ok s \<Longrightarrow> table_ok (rec_server_init s)"
  by (auto simp: rec_server_init_def Let_def intro!: table_ok_info)

lemma table_release: "table_ok s \<Longrightarrow> table_ok (rec_server_release_2 s)"
  by (simp add: rec_server_release_2_def table_ok_def jobs_ok_update msg_buffer_release_def Let_def)

lemma table_machine:
  assumes "table_ok s"
  shows "table_ok (state_machine create_ok garbage s)"
proof -
  note branches = table_default [OF assms] table_init [OF assms] table_stop [OF assms] table_release [OF assms]
  have info: "table_ok t \<Longrightarrow> thread_start x = thread_start (info t) \<Longrightarrow> table_ok (t\<lparr>info := x\<rparr>)" for t x
    by (simp add: table_ok_def)
  show ?thesis
    using assms branches info
    by (simp add: state_machine_def Let_def rec_server_setup_def rec_server_start_def rec_server_stop_def
        rec_server_restart_def rec_server_reinit_def rec_server_release_1_def recorder_broadcast_session_exit_def
        exit_init_def)
qed

lemma table_turn: "table_ok s \<Longrightarrow> table_ok (rec_server_turn create_ok garbage s)"
proof -
  assume t: "table_ok s"
  let ?s = "with_info (\<lambda>x. x\<lparr>old_status := status x\<rparr>) s"
  have "table_ok ?s" by (rule table_ok_info [OF t]) simp
  then have "table_ok (state_machine create_ok garbage ?s)" by (rule table_machine)
  then show ?thesis by (simp add: rec_server_turn_def loop_turn_def Let_def table_proc table_task)
qed

lemma table_round: "table_ok s \<Longrightarrow> table_ok (rec_server_round create_ok garbage s)"
  by (auto simp: rec_server_round_def rec_server_resume_def loop_round_def
      intro!: table_proc table_task table_stopped table_turn table_take split: option.splits)

lemma table_begins:
  assumes "table_ok s" "j \<in> set (jobs s)" "job_status j = RECORDER_THREAD_STARTED \<or> b_init (bus s SERVER_RECORDER) = 0"
  shows "table_ok (thread_begins (t_id j) s)"
proof (cases "b_init (bus s SERVER_RECORDER) = 0")
  case False
  then have ok: "jobs_ok (jobs s)" "threads_ok (thread_start (info s)) (jobs s)" and j: "job_status j = RECORDER_THREAD_STARTED"
    using assms by (auto simp: table_ok_def)
  obtain k where k: "k < MAX_RECORDER_JOB" "jobs s ! k = j" using assms(2) ok(1) by (auto simp: in_set_conv_nth jobs_ok_def)
  have "t_id j = k" using ok(1) k j by (auto simp: jobs_ok_def)
  then show ?thesis using ok k j by (auto simp: thread_begins_def table_ok_def threads_ok_def)
qed (use assms(1) in \<open>simp add: thread_begins_def table_ok_def\<close>)

lemma table_ends: "table_ok s \<Longrightarrow> table_ok (thread_ends i s)"
  by (simp add: thread_ends_def table_ok_def Let_def jobs_ok_update threads_ok_clear)

lemma table_start:
  "jobs s = replicate MAX_RECORDER_JOB job_zero \<Longrightarrow> info s = info_zero () \<Longrightarrow> table_ok (rec_server_begin overrun sz s)"
  by (simp add: rec_server_begin_def table_ok_def jobs_ok_def threads_ok_def info_zero_def)

lemma table_reached: "rec_server_reach s \<Longrightarrow> table_ok s"
  by (induction rule: rec_server_reach.induct) (simp_all add: table_start table_round table_begins table_ends)

text \<open>A request on a table with a free entry.\<close>

lemma add_job_free:
  assumes "jobs_ok (jobs s)" "threads_ok (thread_start (info s)) (jobs s)" "m_arg m = Some (P_recorder_init ini)"
    and "recorder_enable s \<noteq> ALIYUN_RECORDER_MODE_NONE" "\<not> refused_mode (recorder_enable s) (ri_type ini)"
    and "\<not> (\<forall>i < MAX_RECORDER_JOB. job_status (jobs s ! i) = RECORDER_THREAD_STARTED)"
    and "recorder_add_job create_ok m s = (ret, s')"
  shows "\<exists>i < MAX_RECORDER_JOB. job_status (jobs s ! i) = RECORDER_THREAD_NONE \<and> \<not> bit (thread_start (info s)) i
    \<and> thread_start (info s') = thread_start (info s)
    \<and> jobs s' = (jobs s)[i := if create_ok then job_zero\<lparr>t_id := i, job_status := RECORDER_THREAD_STARTED, job_init := ini\<rparr>
        else job_zero\<lparr>t_id := 255, job_init := ini\<rparr>]
    \<and> count_job_number s' = count_job_number s + (if create_ok then 1 else 0)"
proof -
  have len: "length (jobs s) = MAX_RECORDER_JOB" using assms(1) by (simp add: jobs_ok_def)
  have "free_slot (jobs s) 0 \<noteq> None"
  proof
    assume "free_slot (jobs s) 0 = None"
    then have "\<forall>j \<in> set (jobs s). job_status j = RECORDER_THREAD_STARTED"
      using free_slot_none [of "jobs s" 0] job_cases [OF assms(1)] by blast
    then show False using assms(6) len by simp
  qed
  then obtain i where slot: "free_slot (jobs s) 0 = Some i" by blast
  then have i: "i < MAX_RECORDER_JOB" "job_status (jobs s ! i) = RECORDER_THREAD_NONE"
    using free_slot_some [OF slot] len by simp_all
  have "count_job_number s \<noteq> MAX_RECORDER_JOB"
    unfolding count_job_number_def all_started [OF assms(1)] by (rule assms(6))
  then have s': "jobs s' = jobs (start_job create_ok ini i s)" "info s' = info (start_job create_ok ini i s)"
    using assms(3-5,7) slot by (auto simp: recorder_add_job_def Let_def)
  have upd: "jobs s' = (jobs s)[i := if create_ok then job_zero\<lparr>t_id := i, job_status := RECORDER_THREAD_STARTED, job_init := ini\<rparr>
      else job_zero\<lparr>t_id := 255, job_init := ini\<rparr>]"
    unfolding s'(1) by (simp add: start_job_def job_zero_def)
  have "count_job_number s' = count_job_number s + (if create_ok then 1 else 0)"
    unfolding count_job_number_def upd
    using filter_update [of i "jobs s" "\<lambda>j. job_status j > 0"] i len by (simp add: job_zero_def)
  then show ?thesis
    using i threads_ok_update(2) [OF assms(2) i(2)] upd s'(2) by (intro exI [of _ i]) (simp add: start_job_def)
qed

text \<open>
  C12: The job table of a reachable, ready recorder server is an allocator of its three entries.
  Each is free or started under its own index, and every running thread has the started
  entry of its number.  A request for a recording is refused, and changes nothing, when recording is
  off, its type is not enabled, or all three entries are started; otherwise it gets a free entry
  on which no thread runs, numbered with its index, and the count of recordings grows by one (an
  entry whose thread could not be created stays free).  A thread that ends gives its
  entry back: the count falls by one, and the other entries and threads are untouched.
\<close>

theorem recorder_table_invariant:
  assumes "rec_server_reach s" "b_init (bus s SERVER_RECORDER) \<noteq> 0"
  shows "jobs_ok (jobs s)
    \<and> (\<forall>i. bit (thread_start (info s)) i \<longrightarrow> i < MAX_RECORDER_JOB \<and> job_status (jobs s ! i) = RECORDER_THREAD_STARTED)
    \<and> (\<forall>m ini create_ok ret s'. m_arg m = Some (P_recorder_init ini) \<longrightarrow> recorder_add_job create_ok m s = (ret, s') \<longrightarrow>
        (if recorder_enable s = ALIYUN_RECORDER_MODE_NONE \<or> refused_mode (recorder_enable s) (ri_type ini)
            \<or> (\<forall>i < MAX_RECORDER_JOB. job_status (jobs s ! i) = RECORDER_THREAD_STARTED)
         then ret = - 1 \<and> jobs s' = jobs s \<and> info s' = info s
         else \<exists>i < MAX_RECORDER_JOB. job_status (jobs s ! i) = RECORDER_THREAD_NONE \<and> \<not> bit (thread_start (info s)) i
           \<and> thread_start (info s') = thread_start (info s)
           \<and> jobs s' = (jobs s)[i := if create_ok then job_zero\<lparr>t_id := i, job_status := RECORDER_THREAD_STARTED, job_init := ini\<rparr>
               else job_zero\<lparr>t_id := 255, job_init := ini\<rparr>]
           \<and> count_job_number s' = count_job_number s + (if create_ok then 1 else 0)))
    \<and> (\<forall>i. bit (thread_start (info s)) i \<longrightarrow>
        job_status (jobs (thread_ends i s) ! i) = RECORDER_THREAD_NONE \<and> \<not> bit (thread_start (info (thread_ends i s))) i
        \<and> (\<forall>k. k \<noteq> i \<longrightarrow> jobs (thread_ends i s) ! k = jobs s ! k
            \<and> bit (thread_start (info (thread_ends i s))) k = bit (thread_start (info s)) k)
        \<and> count_job_number (thread_ends i s) + 1 = count_job_number s)"
proof -
  have ok: "jobs_ok (jobs s)" "threads_ok (thread_start (info s)) (jobs s)"
    using table_reached [OF assms(1)] assms(2) by (simp_all add: table_ok_def)
  have len: "length (jobs s) = MAX_RECORDER_JOB" using ok(1) by (simp add: jobs_ok_def)
  have running: "i < MAX_RECORDER_JOB \<and> job_status (jobs s ! i) = RECORDER_THREAD_STARTED" if "bit (thread_start (info s)) i" for i
    using ok(2) that by (simp add: threads_ok_def)
  have refused: "ret = - 1 \<and> jobs s' = jobs s \<and> info s' = info s"
    if "m_arg m = Some (P_recorder_init ini)" "recorder_add_job create_ok m s = (ret, s')"
      "recorder_enable s = ALIYUN_RECORDER_MODE_NONE \<or> refused_mode (recorder_enable s) (ri_type ini)
        \<or> (\<forall>i < MAX_RECORDER_JOB. job_status (jobs s ! i) = RECORDER_THREAD_STARTED)"
    for m ini create_ok ret s'
    using that all_started [OF ok(1)] by (auto simp: recorder_add_job_def count_job_number_def Let_def split: if_splits)
  have ended: "job_status (jobs (thread_ends i s) ! i) = RECORDER_THREAD_NONE \<and> \<not> bit (thread_start (info (thread_ends i s))) i
      \<and> (\<forall>k. k \<noteq> i \<longrightarrow> jobs (thread_ends i s) ! k = jobs s ! k
          \<and> bit (thread_start (info (thread_ends i s))) k = bit (thread_start (info s)) k)
      \<and> count_job_number (thread_ends i s) + 1 = count_job_number s"
    if "bit (thread_start (info s)) i" for i
  proof -
    have e: "jobs (thread_ends i s) = (jobs s)[i := job_zero]" by (simp add: thread_ends_def Let_def)
    have "count_job_number (thread_ends i s) + 1 = count_job_number s"
      unfolding count_job_number_def e
      using filter_update [of i "jobs s" "\<lambda>j. job_status j > 0" job_zero] running [OF that] len by simp
    then show ?thesis using running [OF that] len by (simp add: e thread_ends_frame)
  qed
  have asked: "if recorder_enable s = ALIYUN_RECORDER_MODE_NONE \<or> refused_mode (recorder_enable s) (ri_type ini)
        \<or> (\<forall>i < MAX_RECORDER_JOB. job_status (jobs s ! i) = RECORDER_THREAD_STARTED)
     then ret = - 1 \<and> jobs s' = jobs s \<and> info s' = info s
     else \<exists>i < MAX_RECORDER_JOB. job_status (jobs s ! i) = RECORDER_THREAD_NONE \<and> \<not> bit (thread_start (info s)) i
       \<and> thread_start (info s') = thread_start (info s)
       \<and> jobs s' = (jobs s)[i := if create_ok then job_zero\<lparr>t_id := i, job_status := RECORDER_THREAD_STARTED, job_init := ini\<rparr>
           else job_zero\<lparr>t_id := 255, job_init := ini\<rparr>]
       \<and> count_job_number s' = count_job_number s + (if create_ok then 1 else 0)"
    if "m_arg m = Some (P_recorder_init ini)" "recorder_add_job create_ok m s = (ret, s')"
    for m ini create_ok ret s'
  proof (cases "recorder_enable s = ALIYUN_RECORDER_MODE_NONE \<or> refused_mode (recorder_enable s) (ri_type ini)
        \<or> (\<forall>i < MAX_RECORDER_JOB. job_status (jobs s ! i) = RECORDER_THREAD_STARTED)")
    case True
    then show ?thesis using refused [OF that True] by (simp only: if_True)
  next
    case False
    then have "recorder_enable s \<noteq> ALIYUN_RECORDER_MODE_NONE" "\<not> refused_mode (recorder_enable s) (ri_type ini)"
      "\<not> (\<forall>i < MAX_RECORDER_JOB. job_status (jobs s ! i) = RECORDER_THREAD_STARTED)" by simp_all
    from add_job_free [OF ok that(1) this that(2)] show ?thesis using False by (simp only: if_False)
  qed
  show ?thesis by (intro conjI allI impI ok(1) asked) (use running ended in blast)+
qed

section \<open>Concrete servers\<close>

definition demo_server :: rec_server where
  "demo_server = \<lparr>info = info_zero (), bus = (\<lambda>_. demo_queue 1), waiting = False,
     jobs = replicate MAX_RECORDER_JOB job_zero, recorder_enable = ALIYUN_RECORDER_MODE_ALL,
     rec_config = recorder_config_default, await = None, calls = [], fault = False\<rparr>"

definition ask_recording :: msg where
  "ask_recording = msg_init\<lparr>m_message := MSG_RECORDER_ADD, m_receiver := SERVER_RECORDER, m_arg := Some (P_recorder_init init_zero)\<rparr>"

lemma recorder_table_invariant_witness:
  "\<exists>i < MAX_RECORDER_JOB. job_status (jobs (snd (recorder_add_job True ask_recording (rec_server_begin 1 8 demo_server))) ! i)
      = RECORDER_THREAD_STARTED
    \<and> count_job_number (snd (recorder_add_job True ask_recording (rec_server_begin 1 8 demo_server))) = 1"
proof -
  define s where "s = rec_server_begin 1 8 demo_server"
  obtain ret s' where r: "recorder_add_job True ask_recording s = (ret, s')" by (cases "recorder_add_job True ask_recording s")
  have reach: "rec_server_reach s" unfolding s_def by (intro rec_server_reach.intros) (simp_all add: demo_server_def)
  have s: "recorder_enable s = ALIYUN_RECORDER_MODE_ALL" "b_init (bus s SERVER_RECORDER) \<noteq> 0"
    "jobs s = replicate MAX_RECORDER_JOB job_zero"
    by (simp_all add: s_def rec_server_begin_def demo_server_def msg_buffer_init_def Let_def)
  have arg: "m_arg ask_recording = Some (P_recorder_init init_zero)" by (simp add: ask_recording_def)
  have none: "count_job_number s = 0" by (simp add: count_job_number_def s(3))
  have "\<not> (\<forall>i < MAX_RECORDER_JOB. job_status (jobs s ! i) = RECORDER_THREAD_STARTED)"
    by (auto simp: s(3) intro: exI [of _ 0])
  then have "\<not> (recorder_enable s = ALIYUN_RECORDER_MODE_NONE \<or> refused_mode (recorder_enable s) (ri_type init_zero)
      \<or> (\<forall>i < MAX_RECORDER_JOB. job_status (jobs s ! i) = RECORDER_THREAD_STARTED))"
    by (simp add: s(1) refused_mode_def)
  with recorder_table_invariant [OF reach s(2), THEN conjunct2, THEN conjunct2, THEN conjunct1, rule_format, OF arg r]
  obtain i where i: "i < MAX_RECORDER_JOB"
    "jobs s' = (jobs s)[i := job_zero\<lparr>t_id := i, job_status := RECORDER_THREAD_STARTED, job_init := init_zero\<rparr>]"
    "count_job_number s' = count_job_number s + 1"
    by (simp only: if_False if_True) blast
  then have "job_status (jobs s' ! i) = RECORDER_THREAD_STARTED" by (simp add: s(3))
  moreover have "count_job_number s' = 1" using i(3) none by simp
  ultimately show ?thesis unfolding s_def [symmetric] r snd_conv using i(1) by blast
qed

lemma recorder_exit_completes_witness:
  "\<exists>n \<le> 9. exit_flag (info ((rec_exit_step True init_zero ^^ n)
     (with_info (\<lambda>x. x\<lparr>status := EXIT_INIT, thread_start := 5\<rparr>) demo_server))) \<noteq> 0"
proof (rule recorder_exit_completes)
  show "leaving SERVER_RECORDER 7 (\<lambda>s. await s = None)
      (with_info (\<lambda>x. x\<lparr>status := EXIT_INIT, thread_start := 5\<rparr>) demo_server)"
    by (simp add: leaving_def demo_server_def info_zero_def quiet_def)
qed

end
