(* ===== verification/Player.thy ===== *)
theory Player
  imports FileManager Bus "HOL-Library.Signed_Division"
begin

text \<open>
  The playback of recorded files of \<open>server/player/player.c\<close>: opening a file, seeking in it,
  sending its frames to the cloud library, keeping video and audio together, going on to the
  next file.

  The MP4 library is outside: \<open>play_env\<close> holds its functions.  The calls made are the list
  \<open>p_effects\<close>, oldest first.  The list of files is a \<open>node list\<close> and \<open>run->current\<close> a position in
  it.  A plain \<open>char\<close> is unsigned (the target is ARM).  Allocations succeed.
\<close>

section \<open>The MP4 library\<close>

datatype track_kind = Video_track | Audio_track | Other_track

text \<open>\<open>tr_headers\<close> are the parameter sets up to the terminating zero size.\<close>

record mp4_track_t =
  tr_id :: int
  tr_kind :: track_kind
  tr_duration :: u64
  tr_samples :: int
  tr_timescale :: int
  tr_fps :: int
  tr_width :: int
  tr_height :: int
  tr_headers :: "bytes list \<times> bytes list"

record mp4_sample_t =
  sm_ok :: bool
  sm_data :: "bytes option"
  sm_time :: u64
  sm_key :: bool

record play_env =
  mp4_read :: "char list \<Rightarrow> int"
  mp4_tracks :: "int \<Rightarrow> mp4_track_t list"
  mp4_sample_time :: "int \<Rightarrow> int \<Rightarrow> int \<Rightarrow> u64"
  mp4_read_sample :: "int \<Rightarrow> int \<Rightarrow> int \<Rightarrow> mp4_sample_t"

datatype play_effect =
    Mp4_read "char list"
  | Mp4_close int
  | Stream_config int int int
  | Send_video int bytes u32 bool
  | Send_audio int bytes u32
  | Usleep nat
  | Send_complete int

section \<open>State\<close>

abbreviation (input) "DEFAULT_SYNC_DURATION \<equiv> 67 :: u64"
abbreviation (input) "HEADER_SIZE \<equiv> 256 :: nat"

record player_run_t =
  current :: "nat option"
  p_file_path :: "char list"
  p_file :: int
  p_video_track :: int
  p_audio_track :: int
  video_frame_num :: int
  audio_frame_num :: int
  video_timescale :: int
  audio_timescale :: int
  video_index :: int
  audio_index :: int
  play_duration :: int
  slen :: nat
  sps :: bytes
  plen :: nat
  pps :: bytes
  vstream_wait :: bool
  astream_wait :: bool
  video_sync :: u64
  audio_sync :: u64
  play_start :: u64
  play_stop :: u64
  i_frame_read :: bool
  play_fps :: int
  play_width :: int
  play_height :: int

definition player_run_zero :: player_run_t where
  "player_run_zero = \<lparr>current = None, p_file_path = [], p_file = 0, p_video_track = 0, p_audio_track = 0,
     video_frame_num = 0, audio_frame_num = 0, video_timescale = 0, audio_timescale = 0, video_index = 0,
     audio_index = 0, play_duration = 0, slen = 0, sps = replicate HEADER_SIZE 0, plen = 0,
     pps = replicate HEADER_SIZE 0, vstream_wait = False, astream_wait = False, video_sync = 0,
     audio_sync = 0, play_start = 0, play_stop = 0, i_frame_read = False, play_fps = 0, play_width = 0,
     play_height = 0\<rparr>"

record player =
  p_run :: player_run_t
  p_effects :: "play_effect list"

abbreviation "with_prun f s \<equiv> s\<lparr>p_run := f (p_run s)\<rparr>"
abbreviation "pemit e s \<equiv> s\<lparr>p_effects := p_effects s @ [e]\<rparr>"

section \<open>Frames\<close>

definition NAL :: bytes where
  "NAL = [0, 0, 0, 1]"

definition to_ms :: "u64 \<Rightarrow> int \<Rightarrow> u64" where
  "to_ms t timescale = t * 1000 div word_of_int timescale"

definition past_stop :: "player_run_t \<Rightarrow> u64 \<Rightarrow> bool" where
  "past_stop r t = (play_stop r \<noteq> 0 \<and> t div 1000 + play_start r > play_stop r)"

definition timestamp_ms :: "player_run_t \<Rightarrow> u64 \<Rightarrow> u32" where
  "timestamp_ms r t = ucast (t + play_start r * 1000 + 1000)"

definition video_step :: "u8 \<Rightarrow> int" where
  "video_step speed = (if speed = 1 \<or> speed = 2 \<or> speed = 4 \<or> speed = 0 then 1 else if speed = 16 then 1 else 0)"

definition audio_step :: "u8 \<Rightarrow> int" where
  "audio_step speed = (if speed = 1 \<or> speed = 2 \<or> speed = 4 \<or> speed = 0 then 1 else if speed = 16 then 30 else 0)"

abbreviation "move_video n s \<equiv> with_prun (\<lambda>r. r\<lparr>video_index := video_index r + n\<rparr>) s"
abbreviation "move_audio n s \<equiv> with_prun (\<lambda>r. r\<lparr>audio_index := audio_index r + n\<rparr>) s"

text \<open>A key frame is sent behind the parameter sets; the four length bytes become a start code.\<close>

definition key_frame :: "player_run_t \<Rightarrow> bytes \<Rightarrow> bytes" where
  "key_frame r data = NAL @ take (slen r) (sps r) @ NAL @ take (plen r) (pps r) @ NAL @ drop 4 data"

definition player_get_video_frame ::
  "play_env \<Rightarrow> player_init_t \<Rightarrow> u8 \<Rightarrow> player \<Rightarrow> (int \<times> player) option" where
  "player_get_video_frame env ini speed s =
     (let r = p_run s in
      if p_file r = 0 then Some (- 1, s)
      else if video_index r \<ge> video_frame_num r then Some (- 1, s)
      else if video_timescale r = 0 then None
      else
        let sm = mp4_read_sample env (p_file r) (p_video_track r) (video_index r) in
        if \<not> sm_ok sm then Some (- 1, move_video 1 s)
        else if \<not> i_frame_read r \<and> \<not> sm_key sm then Some (0, move_video 1 s)
        else case sm_data sm of
          None \<Rightarrow> Some (0, move_video (video_step speed) s)
        | Some data \<Rightarrow>
            let t = to_ms (sm_time sm) (video_timescale r) in
            if past_stop r t then Some (- 1, s)
            else if sm_key sm then
              if length data < 4 then None
              else
                let s = pemit (Send_video (pi_channel ini) (key_frame r data) (timestamp_ms r t) True) s;
                    s = with_prun (\<lambda>r. r\<lparr>i_frame_read := True\<rparr>) s in
                Some (0, move_video (video_step speed) s)
            else case array_get data 4 of
              None \<Rightarrow> None
            | Some b \<Rightarrow>
                if b AND 0x1f = 0x07 \<or> b AND 0x1f = 0x08 then Some (0, move_video 1 s)
                else if speed = 16 then Some (0, move_video 1 s)
                else
                  let s = pemit (Send_video (pi_channel ini) (NAL @ drop 4 data) (timestamp_ms r t) False) s;
                      s = with_prun (\<lambda>r. r\<lparr>i_frame_read := True, video_sync := t\<rparr>) s in
                  Some (0, move_video (video_step speed) s))"

definition player_get_audio_frame ::
  "play_env \<Rightarrow> player_init_t \<Rightarrow> u8 \<Rightarrow> player \<Rightarrow> (int \<times> player) option" where
  "player_get_audio_frame env ini speed s =
     (let r = p_run s in
      if p_file r = 0 then Some (- 1, s)
      else if audio_index r \<ge> audio_frame_num r then Some (- 1, s)
      else if audio_timescale r = 0 then None
      else
        let sm = mp4_read_sample env (p_file r) (p_audio_track r) (audio_index r) in
        if \<not> sm_ok sm then Some (- 1, move_audio 1 s)
        else if \<not> i_frame_read r then Some (0, move_audio 1 s)
        else case sm_data sm of
          None \<Rightarrow> Some (0, move_audio (audio_step speed) s)
        | Some data \<Rightarrow>
            let t = to_ms (sm_time sm) (audio_timescale r) in
            if past_stop r t then Some (- 1, s)
            else
              let s = pemit (Send_audio (pi_channel ini) data (timestamp_ms r t)) s;
                  s = with_prun (\<lambda>r. r\<lparr>audio_sync := t\<rparr>) s in
              Some (0, move_audio (audio_step speed) s))"

section \<open>Opening a file\<close>

text \<open>
  The parameter sets: copied as long as the buffer starts with a zero byte.  \<open>None\<close> is a set
  that is longer than the buffer.
\<close>

fun copy_headers :: "bytes list \<Rightarrow> bytes \<times> nat \<Rightarrow> (bytes \<times> nat) option" where
  "copy_headers [] (buf, len) = Some (buf, len)"
| "copy_headers (h # hs) (buf, len) =
     (if hd buf = 0
      then if length h \<le> length buf then copy_headers hs (h @ drop (length h) buf, length h) else None
      else copy_headers hs (buf, len))"

definition video_info :: "mp4_track_t \<Rightarrow> player_run_t \<Rightarrow> player_run_t option" where
  "video_info t r =
     (let zeros = (replicate HEADER_SIZE 0, 0) in
      if tr_timescale t = 0 then None
      else case (copy_headers (fst (tr_headers t)) zeros, copy_headers (snd (tr_headers t)) zeros) of
        (Some (sp, sl), Some (pp, pl)) \<Rightarrow> Some (r\<lparr>p_video_track := tr_id t,
          video_frame_num := tr_samples t, video_timescale := tr_timescale t,
          play_duration := sint (ucast (tr_duration t) :: u32) sdiv tr_timescale t,
          play_fps := tr_fps t, play_width := tr_width t, play_height := tr_height t,
          video_index := 1, sps := sp, slen := sl, pps := pp, plen := pl\<rparr>)
      | _ \<Rightarrow> None)"

definition audio_info :: "mp4_track_t \<Rightarrow> player_run_t \<Rightarrow> player_run_t" where
  "audio_info t r = r\<lparr>p_audio_track := tr_id t, audio_frame_num := tr_samples t,
     audio_timescale := tr_timescale t, audio_index := 1\<rparr>"

text \<open>
  The loop over the tracks.  The loops over the parameter sets use the same counter, so after
  a video track it goes on from the number of picture parameter sets; it may never end.
\<close>

fun track_loop :: "nat \<Rightarrow> mp4_track_t list \<Rightarrow> nat \<Rightarrow> player_run_t \<Rightarrow> player_run_t run" where
  "track_loop 0 ts i r = Out_of_fuel"
| "track_loop (Suc fuel) ts i r =
     (if i < length ts then
        case tr_kind (ts ! i) of
          Video_track \<Rightarrow>
            (case video_info (ts ! i) r of
               None \<Rightarrow> Undefined
             | Some r \<Rightarrow> track_loop fuel ts (length (snd (tr_headers (ts ! i))) + 1) r)
        | Audio_track \<Rightarrow> track_loop fuel ts (i + 1) (audio_info (ts ! i) r)
        | Other_track \<Rightarrow> track_loop fuel ts (i + 1) r
      else Done r)"

definition reached :: "u32 \<Rightarrow> u64 \<Rightarrow> bool" where
  "reached diff t = (0 \<le> sint (ucast (scast diff + t) :: u32))"

definition seek_index :: "play_env \<Rightarrow> int \<Rightarrow> int \<Rightarrow> int \<Rightarrow> int \<Rightarrow> u32 \<Rightarrow> int \<Rightarrow> int option" where
  "seek_index env file track num timescale diff index =
     (if num \<ge> 1 \<and> timescale = 0 then None
      else case List.find (\<lambda>i. reached diff (to_ms (mp4_sample_time env file track i) timescale)) [1..num] of
        None \<Rightarrow> Some index
      | Some i \<Rightarrow> Some (if i > 1 then i else 1))"

definition file_name_of :: "media_config \<Rightarrow> player_init_t \<Rightarrow> node \<Rightarrow> char list" where
  "file_name_of mc ini f = media_directory mc @ folder_prefix mc ! nat (pi_type ini) @ ''/''
     @ sprintf_0d 0 (sint (fst f)) @ ''_'' @ sprintf_0d 0 (sint (snd f)) @ ''.mp4''"

definition seek_diff :: "player_init_t \<Rightarrow> node \<Rightarrow> player_run_t \<Rightarrow> u32" where
  "seek_diff ini f r = ucast ((ucast (fst f) - (play_start r + ucast (pi_offset ini))) * 1000)"

definition player_seek :: "play_env \<Rightarrow> u32 \<Rightarrow> player_run_t \<Rightarrow> player_run_t option" where
  "player_seek env diff r =
     (case seek_index env (p_file r) (p_video_track r) (video_frame_num r) (video_timescale r) diff (video_index r) of
        None \<Rightarrow> None
      | Some v \<Rightarrow>
          map_option (\<lambda>a. r\<lparr>video_index := v, audio_index := a\<rparr>)
            (seek_index env (p_file r) (p_audio_track r) (audio_frame_num r) (audio_timescale r) diff (audio_index r)))"

definition player_open_mp4 ::
  "nat \<Rightarrow> play_env \<Rightarrow> media_config \<Rightarrow> player_init_t \<Rightarrow> node list \<Rightarrow> player \<Rightarrow> (int \<times> player) run" where
  "player_open_mp4 fuel env mc ini fhead s =
     (let cur = (case current (p_run s) of None \<Rightarrow> 0 | Some k \<Rightarrow> k + 1);
          s = with_prun (\<lambda>r. r\<lparr>current := Some cur\<rparr>) s in
      if p_file (p_run s) \<noteq> 0 then Done (0, s)
      else case array_get fhead cur of
        None \<Rightarrow> Undefined
      | Some f \<Rightarrow>
          let path = file_name_of mc ini f in
          if \<not> length path < 2 * MAX_SYSTEM_STRING_SIZE then Undefined
          else
            let file = mp4_read env path;
                s = pemit (Mp4_read path) (with_prun (\<lambda>r. r\<lparr>p_file_path := path, p_file := file\<rparr>) s) in
            if file = 0 then Done (- 1, s)
            else
              let r = (p_run s)\<lparr>play_start := (if cur = 0 then pi_start ini else ucast (fst f)),
                    play_stop := (if cur + 1 = length fhead then pi_stop ini else 0), p_video_track := 0\<rparr> in
              case track_loop fuel (mp4_tracks env file) 0 r of
                Undefined \<Rightarrow> Undefined
              | Out_of_fuel \<Rightarrow> Out_of_fuel
              | Done r \<Rightarrow>
                  (case player_seek env (seek_diff ini f r) r of
                     None \<Rightarrow> Undefined
                   | Some r \<Rightarrow> Done (0, s\<lparr>p_run := r\<rparr>)))"

definition player_close_mp4 :: "player \<Rightarrow> player" where
  "player_close_mp4 s =
     (if p_file (p_run s) \<noteq> 0
      then pemit (Mp4_close (p_file (p_run s))) (with_prun (\<lambda>r. player_run_zero\<lparr>current := current r\<rparr>) s)
      else s)"

section \<open>One call of the player\<close>

definition sync_streams :: "player_run_t \<Rightarrow> player_run_t" where
  "sync_streams r =
     (if i_frame_read r then
        if video_sync r > audio_sync r + DEFAULT_SYNC_DURATION then r\<lparr>vstream_wait := True, astream_wait := False\<rparr>
        else if audio_sync r > video_sync r + DEFAULT_SYNC_DURATION then r\<lparr>astream_wait := True, vstream_wait := False\<rparr>
        else r\<lparr>astream_wait := False, vstream_wait := False\<rparr>
      else r)"

definition pause_after :: "u8 \<Rightarrow> play_effect list" where
  "pause_after speed =
     (if speed = 0 then [Usleep 60000] else if speed = 1 then [Usleep 30000]
      else if speed = 2 then [Usleep 10000] else if speed = 4 then [Usleep 3000]
      else if speed = 16 then [Usleep 2000] else [])"

definition next_stream :: "node list \<Rightarrow> int \<Rightarrow> player \<Rightarrow> (int \<times> player) run" where
  "next_stream fhead ret s =
     (let s = player_close_mp4 s in
      case current (p_run s) of
        None \<Rightarrow> Undefined
      | Some k \<Rightarrow> Done (if k + 1 \<ge> length fhead then - 1 else ret, s))"

text \<open>
  A stream that waits leaves its result unassigned: \<open>garbage_video\<close> and \<open>garbage_audio\<close> are what
  the two variables hold then.
\<close>

definition play_streams ::
  "play_env \<Rightarrow> player_init_t \<Rightarrow> u8 \<Rightarrow> int \<Rightarrow> int \<Rightarrow> player \<Rightarrow> ((int \<times> int) \<times> player) option" where
  "play_streams env ini speed garbage_video garbage_audio s =
     (case (if vstream_wait (p_run s) then Some (garbage_video, s) else player_get_video_frame env ini speed s) of
        None \<Rightarrow> None
      | Some (ret_video, s) \<Rightarrow>
          map_option (\<lambda>(ret_audio, s). ((ret_video, ret_audio), s))
            (if astream_wait (p_run s) then Some (garbage_audio, s) else player_get_audio_frame env ini speed s))"

definition play_on ::
  "play_env \<Rightarrow> player_init_t \<Rightarrow> node list \<Rightarrow> u8 \<Rightarrow> int \<Rightarrow> int \<Rightarrow> player \<Rightarrow> (int \<times> player) run" where
  "play_on env ini fhead speed garbage_video garbage_audio s =
     (case play_streams env ini speed garbage_video garbage_audio s of
        None \<Rightarrow> Undefined
      | Some ((ret_video, ret_audio), s) \<Rightarrow>
          let s = with_prun sync_streams s;
              s = (if ret_video \<noteq> 0 \<or> ret_audio \<noteq> 0
                   then with_prun (\<lambda>r. r\<lparr>astream_wait := False, vstream_wait := False\<rparr>) s else s) in
          if ret_video \<noteq> 0 \<and> ret_audio \<noteq> 0 then next_stream fhead 0 s
          else Done (0, s\<lparr>p_effects := p_effects s @ pause_after (pi_speed ini)\<rparr>))"

definition player_main ::
  "nat \<Rightarrow> play_env \<Rightarrow> media_config \<Rightarrow> player_init_t \<Rightarrow> node list \<Rightarrow> u8 \<Rightarrow> int \<Rightarrow> int \<Rightarrow> player \<Rightarrow> (int \<times> player) run" where
  "player_main fuel env mc ini fhead speed garbage_video garbage_audio s =
     (if p_file (p_run s) = 0 then
        case player_open_mp4 fuel env mc ini fhead s of
          Undefined \<Rightarrow> Undefined
        | Out_of_fuel \<Rightarrow> Out_of_fuel
        | Done (ret, s) \<Rightarrow>
            if ret \<noteq> 0 then next_stream fhead ret s
            else play_on env ini fhead speed garbage_video garbage_audio
              (pemit (Stream_config (pi_channel ini) (play_fps (p_run s)) (play_duration (p_run s))) s)
      else play_on env ini fhead speed garbage_video garbage_audio s)"

section \<open>Playing until the end\<close>

text \<open>
  The calls a thread makes while nobody pauses, seeks or stops it; \<open>g n\<close> is what the two
  results hold when they are not assigned, \<open>n\<close> calls before the last.
\<close>

fun playback ::
  "nat \<Rightarrow> nat \<Rightarrow> play_env \<Rightarrow> media_config \<Rightarrow> player_init_t \<Rightarrow> node list \<Rightarrow> u8 \<Rightarrow> (nat \<Rightarrow> int \<times> int) \<Rightarrow> player
    \<Rightarrow> (int \<times> player) run" where
  "playback 0 fuel env mc ini fhead speed g s = Done (0, s)"
| "playback (Suc n) fuel env mc ini fhead speed g s =
     (case player_main fuel env mc ini fhead speed (fst (g n)) (snd (g n)) s of
        Done (ret, s) \<Rightarrow> if ret \<noteq> 0 then Done (ret, s) else playback n fuel env mc ini fhead speed g s
      | e \<Rightarrow> e)"

text \<open>The files the recorder writes: an audio track, if any, before the video track with its parameter sets.\<close>

definition video_track_ok :: "mp4_track_t \<Rightarrow> bool" where
  "video_track_ok v = (tr_kind v = Video_track \<and> 0 < tr_timescale v \<and>
     (\<exists>sp pp. tr_headers v = ([sp], [pp]) \<and> length sp \<le> HEADER_SIZE \<and> length pp \<le> HEADER_SIZE))"

definition recording_tracks :: "mp4_track_t list \<Rightarrow> bool" where
  "recording_tracks ts = (\<exists>a v. (ts = [v] \<or> ts = [a, v] \<and> tr_kind a = Audio_track \<and> 0 < tr_timescale a) \<and> video_track_ok v)"

definition library_ok :: "play_env \<Rightarrow> bool" where
  "library_ok env = (\<forall>file. file \<noteq> 0 \<longrightarrow> recording_tracks (mp4_tracks env file) \<and>
     (\<forall>track i d. sm_data (mp4_read_sample env file track i) = Some d \<longrightarrow> 5 \<le> length d))"

abbreviation served_speed :: "u8 \<Rightarrow> bool" where
  "served_speed speed \<equiv> speed \<in> {0, 1, 2, 4, 16}"

text \<open>What a frame leaves alone, and what it moves.\<close>

definition same_file :: "player_run_t \<Rightarrow> player_run_t \<Rightarrow> bool" where
  "same_file r r' = (current r' = current r \<and> p_file r' = p_file r \<and> video_frame_num r' = video_frame_num r
     \<and> audio_frame_num r' = audio_frame_num r \<and> video_timescale r' = video_timescale r \<and> audio_timescale r' = audio_timescale r)"

abbreviation "video_moved ret b t e s \<equiv>
  s\<lparr>p_run := (p_run s)\<lparr>video_index := video_index (p_run s) + 1, i_frame_read := b, video_sync := t\<rparr>, p_effects := p_effects s @ e\<rparr>"

lemma video_frame_moves:
  assumes "library_ok env" "served_speed speed" "p_file (p_run s) \<noteq> 0" "0 < video_timescale (p_run s)"
  shows "player_get_video_frame env ini speed s = Some (- 1, s)
    \<or> video_index (p_run s) < video_frame_num (p_run s)
      \<and> (\<exists>ret b t e. player_get_video_frame env ini speed s = Some (ret, video_moved ret b t e s))"
    (is "?frame = _ \<or> _")
proof -
  define r where "r = p_run s"
  define sm where "sm = mp4_read_sample env (p_file r) (p_video_track r) (video_index r)"
  note eval = r_def [symmetric] sm_def [symmetric] player_get_video_frame_def Let_def
  have one: "video_step speed = 1" using assms(2) by (auto simp: video_step_def)
  have d: "5 \<le> length d" if "sm_data sm = Some d" for d
    using assms(1,3) that unfolding library_ok_def sm_def r_def by blast
  have opened: "p_file r \<noteq> 0" "0 < video_timescale r" using assms(3,4) by (simp_all add: r_def)
  have moved: ?thesis if "video_index r < video_frame_num r"
    "?frame = Some (ret, s\<lparr>p_run := r\<lparr>video_index := video_index r + 1, i_frame_read := b, video_sync := t\<rparr>,
      p_effects := p_effects s @ e\<rparr>)" for ret b t e
    using that unfolding r_def by blast
  have skipped: ?thesis if "video_index r < video_frame_num r"
    "?frame = Some (ret, s\<lparr>p_run := r\<lparr>video_index := video_index r + 1\<rparr>\<rparr>)" for ret
    using moved [OF that(1), where ret = ret and b = "i_frame_read r" and t = "video_sync r" and e = "[]"] that(2) by simp
  show ?thesis
  proof (cases "video_index r < video_frame_num r")
    case False
    then show ?thesis using opened by (simp add: eval)
  next
    case todo: True
    note now = opened todo one
    consider "\<not> sm_ok sm" | "sm_ok sm" "\<not> i_frame_read r \<and> \<not> sm_key sm \<or> sm_data sm = None"
      | d where "sm_ok sm" "i_frame_read r \<or> sm_key sm" "sm_data sm = Some d"
      by (cases "sm_data sm") auto
    then show ?thesis
    proof cases
      case 1
      then show ?thesis using now by (intro skipped [of "- 1"]) (simp_all add: eval)
    next
      case 2
      then have "?frame = Some (0, s\<lparr>p_run := r\<lparr>video_index := video_index r + 1\<rparr>\<rparr>)"
        using now by (cases "\<not> i_frame_read r \<and> \<not> sm_key sm") (simp_all add: eval)
      then show ?thesis by (rule skipped [OF todo])
    next
      case 3
      let ?t = "to_ms (sm_time sm) (video_timescale r)"
      have l: "5 \<le> length d" using d 3 by simp
      consider "past_stop r ?t" | "\<not> past_stop r ?t" "sm_key sm"
        | "\<not> past_stop r ?t" "\<not> sm_key sm" "d ! 4 AND 0x1f = 7 \<or> d ! 4 AND 0x1f = 8 \<or> speed = 16"
        | "\<not> past_stop r ?t" "\<not> sm_key sm" "\<not> (d ! 4 AND 0x1f = 7 \<or> d ! 4 AND 0x1f = 8 \<or> speed = 16)" by blast
      then show ?thesis
      proof cases
        case 1
        then show ?thesis using now 3 l by (cases "sm_key sm") (simp_all add: eval)
      next
        case 2
        then show ?thesis using now 3 l
          by (intro moved [where ret = 0 and b = True and t = "video_sync r" and e = "[Send_video (pi_channel ini) (key_frame r d) (timestamp_ms r ?t) True]"])
            (simp_all add: eval)
      next
        case skip: 3
        then have "?frame = Some (0, s\<lparr>p_run := r\<lparr>video_index := video_index r + 1\<rparr>\<rparr>)"
          using now 3 l by (cases "d ! 4 AND 0x1f = 7"; cases "d ! 4 AND 0x1f = 8") (simp_all add: eval)
        then show ?thesis by (rule skipped [OF todo])
      next
        case 4
        then show ?thesis using now 3 l
          by (intro moved [where ret = 0 and b = True and t = ?t and e = "[Send_video (pi_channel ini) (NAL @ drop 4 d) (timestamp_ms r ?t) False]"])
            (simp_all add: eval)
      qed
    qed
  qed
qed

abbreviation "audio_moved n t e s \<equiv>
  s\<lparr>p_run := (p_run s)\<lparr>audio_index := audio_index (p_run s) + n, audio_sync := t\<rparr>, p_effects := p_effects s @ e\<rparr>"

lemma audio_frame_moves:
  assumes "served_speed speed" "p_file (p_run s) \<noteq> 0" "audio_index (p_run s) < audio_frame_num (p_run s) \<longrightarrow> 0 < audio_timescale (p_run s)"
  shows "player_get_audio_frame env ini speed s = Some (- 1, s)
    \<or> audio_index (p_run s) < audio_frame_num (p_run s)
      \<and> (\<exists>ret n t e. 1 \<le> n \<and> player_get_audio_frame env ini speed s = Some (ret, audio_moved n t e s))"
    (is "?frame = _ \<or> _")
proof -
  define r where "r = p_run s"
  define sm where "sm = mp4_read_sample env (p_file r) (p_audio_track r) (audio_index r)"
  note eval = r_def [symmetric] sm_def [symmetric] player_get_audio_frame_def Let_def
  have step: "1 \<le> audio_step speed" using assms(1) by (auto simp: audio_step_def)
  have moved: ?thesis if "audio_index r < audio_frame_num r" "1 \<le> n"
    "?frame = Some (ret, s\<lparr>p_run := r\<lparr>audio_index := audio_index r + n, audio_sync := t\<rparr>, p_effects := p_effects s @ e\<rparr>)" for ret n t e
    using that unfolding r_def by blast
  have skipped: ?thesis if "audio_index r < audio_frame_num r" "1 \<le> n"
    "?frame = Some (ret, s\<lparr>p_run := r\<lparr>audio_index := audio_index r + n\<rparr>\<rparr>)" for ret n
    using moved [OF that(1,2), where ret = ret and t = "audio_sync r" and e = "[]"] that(3) by simp
  have opened: "p_file r \<noteq> 0" using assms(2) by (simp add: r_def)
  show ?thesis
  proof (cases "audio_index r < audio_frame_num r")
    case False
    then show ?thesis using opened by (simp add: eval)
  next
    case todo: True
    then have scale: "0 < audio_timescale r" using assms(3) by (simp add: r_def)
    note now = opened todo scale
    consider "\<not> sm_ok sm \<or> \<not> i_frame_read r" | "sm_ok sm" "i_frame_read r" "sm_data sm = None"
      | d where "sm_ok sm" "i_frame_read r" "sm_data sm = Some d"
      by (cases "sm_data sm") auto
    then show ?thesis
    proof cases
      case 1
      then show ?thesis using now
        by (cases "sm_ok sm") (rule skipped [where n = 1 and ret = 0] skipped [where n = 1 and ret = "- 1"]; simp add: eval)+
    next
      case 2
      then show ?thesis using now step by (intro skipped [where n = "audio_step speed" and ret = 0]) (simp_all add: eval)
    next
      case 3
      let ?t = "to_ms (sm_time sm) (audio_timescale r)"
      show ?thesis
      proof (cases "past_stop r ?t")
        case True
        then show ?thesis using now 3 by (simp add: eval)
      next
        case False
        then show ?thesis using now 3 step
          by (intro moved [where n = "audio_step speed" and ret = 0 and t = ?t
                and e = "[Send_audio (pi_channel ini) d (timestamp_ms r ?t)]"]) (simp_all add: eval)
      qed
    qed
  qed
qed

section \<open>Opening a recording\<close>

lemma video_info_ok:
  assumes "video_track_ok v"
  obtains r' where "video_info v r = Some r'" "p_file r' = p_file r" "current r' = current r"
    "video_timescale r' = tr_timescale v" "video_frame_num r' = tr_samples v" "video_index r' = 1"
    "audio_frame_num r' = audio_frame_num r" "audio_timescale r' = audio_timescale r" "audio_index r' = audio_index r"
    "vstream_wait r' = vstream_wait r" "astream_wait r' = astream_wait r"
proof -
  from assms obtain sp pp where h: "tr_headers v = ([sp], [pp])" "length sp \<le> HEADER_SIZE" "length pp \<le> HEADER_SIZE"
    and t: "0 < tr_timescale v" by (auto simp: video_track_ok_def)
  have "copy_headers [x] (replicate HEADER_SIZE 0, 0) = Some (x @ drop (length x) (replicate HEADER_SIZE 0), length x)"
    if "length x \<le> HEADER_SIZE" for x using that by simp
  then show ?thesis using that h t by (simp add: video_info_def)
qed

lemma track_loop_recording:
  assumes "recording_tracks ts" "3 \<le> fuel" "audio_frame_num r = 0"
  shows "\<exists>r'. track_loop fuel ts 0 r = Done r' \<and> p_file r' = p_file r \<and> current r' = current r
    \<and> 0 < video_timescale r' \<and> (0 < audio_frame_num r' \<longrightarrow> 0 < audio_timescale r')
    \<and> nat (video_frame_num r') + nat (audio_frame_num r') \<le> (\<Sum>t \<leftarrow> ts. nat (tr_samples t))
    \<and> vstream_wait r' = vstream_wait r \<and> astream_wait r' = astream_wait r
    \<and> 0 \<le> video_index r' \<and> (0 \<le> audio_index r \<longrightarrow> 0 \<le> audio_index r')"
proof -
  obtain f where fuel: "fuel = Suc (Suc (Suc f))" using assms(2) by (metis Suc_le_D eval_nat_numeral(3) numeral_2_eq_2 Suc_le_mono)
  from assms(1) obtain a v where v: "video_track_ok v" and ts: "ts = [v] \<or> ts = [a, v] \<and> tr_kind a = Audio_track \<and> 0 < tr_timescale a"
    unfolding recording_tracks_def by blast
  have kind: "tr_kind v = Video_track" "length (snd (tr_headers v)) = 1" "0 < tr_timescale v" using v by (auto simp: video_track_ok_def)
  from ts show ?thesis
  proof
    assume ts: "ts = [v]"
    from v show ?thesis
      by (rule video_info_ok [of v r]) (use assms(3) kind in \<open>simp add: ts fuel\<close>)
  next
    assume ts: "ts = [a, v] \<and> tr_kind a = Audio_track \<and> 0 < tr_timescale a"
    from v show ?thesis
      by (rule video_info_ok [of v "audio_info a r"]) (use ts kind in \<open>simp add: fuel audio_info_def\<close>)
  qed
qed

section \<open>Playback comes to an end\<close>

abbreviation "next_pos r \<equiv> (case current r of None \<Rightarrow> 0 | Some k \<Rightarrow> k + 1)"

definition frames_left :: "player_run_t \<Rightarrow> nat" where
  "frames_left r = nat (video_frame_num r - video_index r) + nat (audio_frame_num r - audio_index r)"

definition file_weight :: "play_env \<Rightarrow> media_config \<Rightarrow> player_init_t \<Rightarrow> node \<Rightarrow> nat" where
  "file_weight env mc ini f = 2 * (\<Sum>t \<leftarrow> mp4_tracks env (mp4_read env (file_name_of mc ini f)). nat (tr_samples t)) + 3"

definition files_left :: "play_env \<Rightarrow> media_config \<Rightarrow> player_init_t \<Rightarrow> node list \<Rightarrow> player_run_t \<Rightarrow> nat" where
  "files_left env mc ini fhead r = (\<Sum>f \<leftarrow> drop (next_pos r) fhead. file_weight env mc ini f)"

definition open_ok :: "player_run_t \<Rightarrow> bool" where
  "open_ok r = (p_file r \<noteq> 0 \<and> 0 < video_timescale r \<and> (audio_index r < audio_frame_num r \<longrightarrow> 0 < audio_timescale r)
     \<and> \<not> (vstream_wait r \<and> astream_wait r))"

definition playing :: "node list \<Rightarrow> player_run_t \<Rightarrow> bool" where
  "playing fhead r = (if p_file r = 0 then next_pos r < length fhead \<and> r = player_run_zero\<lparr>current := current r\<rparr>
     else open_ok r \<and> (\<exists>k < length fhead. current r = Some k))"

definition play_rank :: "play_env \<Rightarrow> media_config \<Rightarrow> player_init_t \<Rightarrow> node list \<Rightarrow> player_run_t \<Rightarrow> nat" where
  "play_rank env mc ini fhead r = files_left env mc ini fhead r +
     (if p_file r = 0 then 0 else 2 * frames_left r + (if vstream_wait r \<or> astream_wait r then 2 else 1))"

lemma play_streams_moves:
  assumes "library_ok env" "served_speed speed" "open_ok (p_run s)"
  obtains rv ra s' where "play_streams env ini speed gv ga s = Some ((rv, ra), s')" "same_file (p_run s) (p_run s')"
    "vstream_wait (p_run s') = vstream_wait (p_run s)" "astream_wait (p_run s') = astream_wait (p_run s)"
    "audio_index (p_run s) \<le> audio_index (p_run s')" "frames_left (p_run s') \<le> frames_left (p_run s)"
    "frames_left (p_run s') < frames_left (p_run s)
      \<or> (\<not> vstream_wait (p_run s) \<longrightarrow> rv = - 1) \<and> (\<not> astream_wait (p_run s) \<longrightarrow> ra = - 1)"
proof -
  let ?r = "p_run s"
  have opened: "p_file ?r \<noteq> 0" "0 < video_timescale ?r" using assms(3) by (simp_all add: open_ok_def)
  obtain rv t where t: "(if vstream_wait ?r then Some (gv, s) else player_get_video_frame env ini speed s) = Some (rv, t)"
    and tr: "same_file ?r (p_run t)" "vstream_wait (p_run t) = vstream_wait ?r" "astream_wait (p_run t) = astream_wait ?r"
      "audio_index (p_run t) = audio_index ?r" "frames_left (p_run t) \<le> frames_left ?r"
      "frames_left (p_run t) < frames_left ?r \<or> (\<not> vstream_wait ?r \<longrightarrow> rv = - 1)"
  proof (cases "vstream_wait ?r")
    case True
    then show ?thesis using that [of gv s] by (simp add: same_file_def)
  next
    case False
    from video_frame_moves [OF assms(1,2) opened, of ini] show ?thesis
    proof (elim disjE conjE exE)
      assume "player_get_video_frame env ini speed s = Some (- 1, s)"
      then show ?thesis using that [of "- 1" s] False by (simp add: same_file_def)
    next
      fix ret b t e
      assume "video_index ?r < video_frame_num ?r" "player_get_video_frame env ini speed s = Some (ret, video_moved ret b t e s)"
      then show ?thesis using that [of ret "video_moved ret b t e s"] False by (simp add: same_file_def frames_left_def)
    qed
  qed
  have scale: "audio_index (p_run t) < audio_frame_num (p_run t) \<longrightarrow> 0 < audio_timescale (p_run t)" "p_file (p_run t) \<noteq> 0"
    using assms(3) tr by (simp_all add: open_ok_def same_file_def)
  note result = that [unfolded play_streams_def t]
  show ?thesis
  proof (cases "astream_wait ?r")
    case True
    then show ?thesis using result [of rv ga t] tr by simp
  next
    case False
    from audio_frame_moves [OF assms(2) scale(2,1), of env ini] show ?thesis
    proof (elim disjE conjE exE)
      assume "player_get_audio_frame env ini speed t = Some (- 1, t)"
      then show ?thesis using result [of rv "- 1" t] tr False by simp
    next
      fix ret n u e
      assume a: "audio_index (p_run t) < audio_frame_num (p_run t)" "1 \<le> n"
        "player_get_audio_frame env ini speed t = Some (ret, audio_moved n u e t)"
      then have "frames_left (p_run (audio_moved n u e t)) < frames_left (p_run t)" by (simp add: frames_left_def)
      then have "frames_left (p_run (audio_moved n u e t)) < frames_left ?r" using tr(5) by simp
      then show ?thesis
        by (rule_tac result [of rv ret "audio_moved n u e t"]) (use tr False a in \<open>simp_all add: same_file_def\<close>)
    qed
  qed
qed

lemma next_stream_closes:
  assumes "p_file (p_run s) \<noteq> 0" "current (p_run s) = Some k" "k < length fhead"
  shows "\<exists>s'. next_stream fhead 0 s = Done (if k + 1 \<ge> length fhead then - 1 else 0, s')
    \<and> p_run s' = player_run_zero\<lparr>current := Some k\<rparr>"
  using assms by (simp add: next_stream_def player_close_mp4_def player_run_zero_def)

lemma zero_file [simp]: "p_file (player_run_zero\<lparr>current := c\<rparr>) = 0" "current (player_run_zero\<lparr>current := c\<rparr>) = c"
  by (simp_all add: player_run_zero_def)

lemma play_on_progress:
  assumes "library_ok env" "served_speed speed" "playing fhead (p_run s)" "p_file (p_run s) \<noteq> 0"
  obtains ret s' where "play_on env ini fhead speed gv ga s = Done (ret, s')"
    "ret = 0 \<and> playing fhead (p_run s') \<and> play_rank env mc ini fhead (p_run s') < play_rank env mc ini fhead (p_run s)
      \<or> ret = - 1 \<and> p_file (p_run s') = 0"
proof -
  let ?r = "p_run s"
  from assms(3,4) obtain k where k: "open_ok ?r" "k < length fhead" "current ?r = Some k" by (auto simp: playing_def)
  from play_streams_moves [OF assms(1,2) k(1), of ini gv ga]
  obtain rv ra t where t: "play_streams env ini speed gv ga s = Some ((rv, ra), t)" "same_file ?r (p_run t)"
    "vstream_wait (p_run t) = vstream_wait ?r" "astream_wait (p_run t) = astream_wait ?r"
    "audio_index ?r \<le> audio_index (p_run t)" "frames_left (p_run t) \<le> frames_left ?r"
    "frames_left (p_run t) < frames_left ?r
      \<or> (\<not> vstream_wait ?r \<longrightarrow> rv = - 1) \<and> (\<not> astream_wait ?r \<longrightarrow> ra = - 1)"
    by blast
  define u where "u = (if rv \<noteq> 0 \<or> ra \<noteq> 0 then (sync_streams (p_run t))\<lparr>astream_wait := False, vstream_wait := False\<rparr>
    else sync_streams (p_run t))"
  have u: "same_file ?r u" "audio_index ?r \<le> audio_index u" "frames_left u = frames_left (p_run t)"
    "rv \<noteq> 0 \<or> ra \<noteq> 0 \<Longrightarrow> \<not> vstream_wait u \<and> \<not> astream_wait u" "\<not> (vstream_wait u \<and> astream_wait u)"
    using t(2-5) k(1) by (simp_all add: u_def sync_streams_def same_file_def frames_left_def open_ok_def)
  have step: "play_on env ini fhead speed gv ga s = (if rv \<noteq> 0 \<and> ra \<noteq> 0 then next_stream fhead 0 (t\<lparr>p_run := u\<rparr>)
      else Done (0, t\<lparr>p_run := u, p_effects := p_effects t @ pause_after (pi_speed ini)\<rparr>))"
    by (simp add: play_on_def t(1) u_def Let_def)
  have left: "files_left env mc ini fhead u = files_left env mc ini fhead ?r" "p_file u = p_file ?r" "current u = Some k"
    using u(1) k(3) by (simp_all add: files_left_def same_file_def)
  show ?thesis
  proof (cases "rv \<noteq> 0 \<and> ra \<noteq> 0")
    case True
    then obtain s' where s': "play_on env ini fhead speed gv ga s = Done (if k + 1 \<ge> length fhead then - 1 else 0, s')"
      "p_run s' = player_run_zero\<lparr>current := Some k\<rparr>"
      using step next_stream_closes [of "t\<lparr>p_run := u\<rparr>" k fhead] left assms(4) k(2) by auto
    have "play_rank env mc ini fhead (p_run s') < play_rank env mc ini fhead ?r"
      using s'(2) k(3) assms(4) by (simp add: play_rank_def files_left_def)
    then show ?thesis using that [OF s'(1)] s'(2) by (simp add: playing_def split: if_splits)
  next
    case False
    have "2 * frames_left u + (if vstream_wait u \<or> astream_wait u then 2 else 1)
        < 2 * frames_left ?r + (if vstream_wait ?r \<or> astream_wait ?r then 2 else 1)"
      using t(6,7) u(3,4) False k(1) by (auto simp: open_ok_def split: if_splits)
    then have "play_rank env mc ini fhead u < play_rank env mc ini fhead ?r"
      using left assms(4) by (simp add: play_rank_def)
    moreover have "playing fhead u"
      using u k left assms(4) by (auto simp: playing_def open_ok_def same_file_def)
    ultimately show ?thesis using that [of 0 "t\<lparr>p_run := u, p_effects := p_effects t @ pause_after (pi_speed ini)\<rparr>"] step False
      by simp
  qed
qed

lemma seek_index_ok:
  assumes "1 \<le> num \<longrightarrow> 0 < timescale" "0 \<le> index"
  shows "\<exists>i. seek_index env h track num timescale diff index = Some i \<and> 0 \<le> i"
proof -
  have "\<not> (num \<ge> 1 \<and> timescale = 0)" using assms(1) by auto
  then show ?thesis using assms(2) by (simp add: seek_index_def split: option.split)
qed

lemma open_progress:
  assumes "library_ok env" "playing fhead (p_run s)" "p_file (p_run s) = 0" "3 \<le> fuel"
    and short: "\<forall>f \<in> set fhead. length (file_name_of mc ini f) < 2 * MAX_SYSTEM_STRING_SIZE"
  obtains (failed) s' where "player_open_mp4 fuel env mc ini fhead s = Done (- 1, s')" "p_file (p_run s') = 0" "current (p_run s') \<noteq> None"
  | (opened) s' where "player_open_mp4 fuel env mc ini fhead s = Done (0, s')" "playing fhead (p_run s')" "p_file (p_run s') \<noteq> 0"
      "play_rank env mc ini fhead (p_run s') < play_rank env mc ini fhead (p_run s)"
proof -
  let ?k = "next_pos (p_run s)"
  let ?f = "fhead ! ?k"
  let ?h = "mp4_read env (file_name_of mc ini ?f)"
  have k: "?k < length fhead" "p_run s = player_run_zero\<lparr>current := current (p_run s)\<rparr>"
    using assms(2,3) by (simp_all add: playing_def split: option.splits)
  have len: "length (file_name_of mc ini ?f) < 2 * MAX_SYSTEM_STRING_SIZE" using short k(1) by simp
  define r where "r = (p_run s)\<lparr>current := Some ?k, p_file_path := file_name_of mc ini ?f, p_file := ?h,
    play_start := (if ?k = 0 then pi_start ini else ucast (fst ?f)),
    play_stop := (if ?k + 1 = length fhead then pi_stop ini else 0), p_video_track := 0\<rparr>"
  show ?thesis
  proof (cases "?h = 0")
    case True
    then have "player_open_mp4 fuel env mc ini fhead s = Done (- 1, s\<lparr>p_run := (p_run s)\<lparr>current := Some ?k,
        p_file_path := file_name_of mc ini ?f, p_file := 0\<rparr>, p_effects := p_effects s @ [Mp4_read (file_name_of mc ini ?f)]\<rparr>)"
      using assms(3) k(1) len by (simp add: player_open_mp4_def Let_def)
    then show ?thesis by (rule failed) simp_all
  next
    case False
    have z: "audio_frame_num r = 0" "audio_index r = 0" "\<not> vstream_wait r" "\<not> astream_wait r"
      unfolding r_def by (subst k(2), simp add: player_run_zero_def)+
    have rec: "recording_tracks (mp4_tracks env ?h)" using assms(1) False by (simp add: library_ok_def)
    from track_loop_recording [OF rec assms(4) z(1)] obtain r1 where
      r1: "track_loop fuel (mp4_tracks env ?h) 0 r = Done r1" "p_file r1 = ?h" "current r1 = Some ?k" "0 < video_timescale r1"
        "0 < audio_frame_num r1 \<longrightarrow> 0 < audio_timescale r1"
        "nat (video_frame_num r1) + nat (audio_frame_num r1) \<le> (\<Sum>t \<leftarrow> mp4_tracks env ?h. nat (tr_samples t))"
        "\<not> vstream_wait r1" "\<not> astream_wait r1" "0 \<le> video_index r1" "0 \<le> audio_index r1"
      using z by (auto simp: r_def)
    obtain v where v: "seek_index env (p_file r1) (p_video_track r1) (video_frame_num r1) (video_timescale r1) (seek_diff ini ?f r1) (video_index r1) = Some v" "0 \<le> v"
      using seek_index_ok [of "video_frame_num r1" "video_timescale r1" "video_index r1"] r1(4,9) by blast
    obtain a where a: "seek_index env (p_file r1) (p_audio_track r1) (audio_frame_num r1) (audio_timescale r1) (seek_diff ini ?f r1) (audio_index r1) = Some a" "0 \<le> a"
      using seek_index_ok [of "audio_frame_num r1" "audio_timescale r1" "audio_index r1"] r1(5,10) by force
    let ?r2 = "r1\<lparr>video_index := v, audio_index := a\<rparr>"
    have seek: "player_seek env (seek_diff ini ?f r1) r1 = Some ?r2" by (simp add: player_seek_def v(1) a(1))
    have step: "player_open_mp4 fuel env mc ini fhead s = Done (0, s\<lparr>p_run := ?r2, p_effects := p_effects s @ [Mp4_read (file_name_of mc ini ?f)]\<rparr>)"
      using assms(3) k(1) len False r1(1) seek unfolding r_def by (simp add: player_open_mp4_def Let_def)
    have "frames_left ?r2 \<le> (\<Sum>t \<leftarrow> mp4_tracks env ?h. nat (tr_samples t))"
      using r1(6) v(2) a(2) by (simp add: frames_left_def)
    moreover have "drop ?k fhead = ?f # drop (?k + 1) fhead" using k(1) by (simp add: Cons_nth_drop_Suc)
    ultimately have "play_rank env mc ini fhead ?r2 < play_rank env mc ini fhead (p_run s)"
      using r1 assms(3) False by (simp add: play_rank_def files_left_def file_weight_def)
    moreover have "playing fhead ?r2" using r1 a(2) False k(1) by (auto simp: playing_def open_ok_def)
    ultimately show ?thesis by (rule_tac opened [OF step]) (use r1 False in simp_all)
  qed
qed

lemma player_main_progress:
  assumes "library_ok env" "served_speed speed" "playing fhead (p_run s)" "3 \<le> fuel"
    and short: "\<forall>f \<in> set fhead. length (file_name_of mc ini f) < 2 * MAX_SYSTEM_STRING_SIZE"
  obtains ret s' where "player_main fuel env mc ini fhead speed gv ga s = Done (ret, s')"
    "ret = 0 \<and> playing fhead (p_run s') \<and> play_rank env mc ini fhead (p_run s') < play_rank env mc ini fhead (p_run s)
      \<or> ret = - 1 \<and> p_file (p_run s') = 0"
proof (cases "p_file (p_run s) = 0")
  case False
  have "player_main fuel env mc ini fhead speed gv ga s = play_on env ini fhead speed gv ga s"
    by (simp add: player_main_def False)
  then show ?thesis using play_on_progress [OF assms(1-3) False, of ini gv ga mc] that by metis
next
  case True
  from assms(1,3) True assms(4) short show ?thesis
  proof (cases rule: open_progress)
    case (failed s')
    then have "player_main fuel env mc ini fhead speed gv ga s = next_stream fhead (- 1) s'"
      using True by (simp add: player_main_def)
    also from failed obtain k where "\<dots> = Done (- 1, s')" by (auto simp: next_stream_def player_close_mp4_def)
    finally show ?thesis using that failed by blast
  next
    case (opened s')
    let ?s = "pemit (Stream_config (pi_channel ini) (play_fps (p_run s')) (play_duration (p_run s'))) s'"
    have "player_main fuel env mc ini fhead speed gv ga s = play_on env ini fhead speed gv ga ?s"
      using True opened by (simp add: player_main_def)
    with play_on_progress [of env speed fhead ?s ini gv ga mc] assms(1,2) opened that show ?thesis
      by (metis (no_types, lifting) order.strict_trans player.select_convs(1) player.surjective player.update_convs(2))
  qed
qed

lemma playback_within:
  assumes "library_ok env" "served_speed speed" "3 \<le> fuel"
    and "\<forall>f \<in> set fhead. length (file_name_of mc ini f) < 2 * MAX_SYSTEM_STRING_SIZE"
  shows "playing fhead (p_run s) \<Longrightarrow> play_rank env mc ini fhead (p_run s) \<le> n \<Longrightarrow>
    \<exists>s'. playback (Suc n) fuel env mc ini fhead speed g s = Done (- 1, s') \<and> p_file (p_run s') = 0"
proof (induction n arbitrary: s)
  case 0
  from player_main_progress [OF assms(1,2) 0(1) assms(3,4), of "fst (g 0)" "snd (g 0)"] obtain ret s'
    where "player_main fuel env mc ini fhead speed (fst (g 0)) (snd (g 0)) s = Done (ret, s')" "ret = - 1" "p_file (p_run s') = 0"
    using 0(2) by (metis less_nat_zero_code le_0_eq)
  then show ?case by simp
next
  case (Suc n)
  from player_main_progress [OF assms(1,2) Suc.prems(1) assms(3,4), of "fst (g (Suc n))" "snd (g (Suc n))"] obtain ret s'
    where m: "player_main fuel env mc ini fhead speed (fst (g (Suc n))) (snd (g (Suc n))) s = Done (ret, s')"
    and "ret = 0 \<and> playing fhead (p_run s') \<and> play_rank env mc ini fhead (p_run s') < play_rank env mc ini fhead (p_run s)
      \<or> ret = - 1 \<and> p_file (p_run s') = 0" by blast
  then consider "ret = - 1" "p_file (p_run s') = 0" | "ret = 0" "playing fhead (p_run s')" "play_rank env mc ini fhead (p_run s') \<le> n"
    using Suc.prems(2) by linarith
  then show ?case
  proof cases
    case 1
    then show ?thesis using m by simp
  next
    case 2
    then show ?thesis using m Suc.IH [OF 2(2,3)] by simp
  qed
qed

text \<open>
  C14: At every speed the player serves, the playback of a list of recordings ends and leaves no
  file open, whatever the library answers, whatever the unassigned results hold, and even when
  a file cannot be opened: within two calls for each sample and three for each file.
\<close>

theorem playback_ends:
  assumes "library_ok env" "served_speed speed" "3 \<le> fuel" "fhead \<noteq> []" "p_run s = player_run_zero"
    and "\<forall>f \<in> set fhead. length (file_name_of mc ini f) < 2 * MAX_SYSTEM_STRING_SIZE"
  shows "\<exists>s'. playback (Suc (\<Sum>f \<leftarrow> fhead. file_weight env mc ini f)) fuel env mc ini fhead speed g s = Done (- 1, s')
    \<and> p_file (p_run s') = 0"
proof -
  have "playing fhead (p_run s)" using assms(4,5) by (simp add: playing_def player_run_zero_def)
  moreover have "play_rank env mc ini fhead (p_run s) = (\<Sum>f \<leftarrow> fhead. file_weight env mc ini f)"
    using assms(5) by (simp add: play_rank_def files_left_def player_run_zero_def)
  ultimately show ?thesis using playback_within [OF assms(1,2,3,6)] by simp
qed

section \<open>What is sent\<close>

text \<open>The frame of a sample, and what one call adds for it.\<close>

definition sent_frame :: "player_init_t \<Rightarrow> bytes \<Rightarrow> bytes \<Rightarrow> u64 \<Rightarrow> int \<Rightarrow> mp4_sample_t \<Rightarrow> play_effect" where
  "sent_frame ini sp pp start timescale sm = Send_video (pi_channel ini)
     (if sm_key sm then NAL @ sp @ NAL @ pp @ NAL @ drop 4 (the (sm_data sm)) else NAL @ drop 4 (the (sm_data sm)))
     (ucast (to_ms (sm_time sm) timescale + start * 1000 + 1000)) (sm_key sm)"

definition plain_sample :: "mp4_sample_t \<Rightarrow> bool" where
  "plain_sample sm = (sm_ok sm \<and> (\<exists>d. sm_data sm = Some d \<and> 5 \<le> length d
     \<and> (\<not> sm_key sm \<longrightarrow> d ! 4 AND 0x1f \<noteq> 7 \<and> d ! 4 AND 0x1f \<noteq> 8)))"

definition at_frame :: "int \<Rightarrow> mp4_track_t \<Rightarrow> u64 \<Rightarrow> bytes \<Rightarrow> bytes \<Rightarrow> int \<Rightarrow> player_run_t \<Rightarrow> bool" where
  "at_frame h v start sp pp i r = (p_file r = h \<and> current r = Some 0 \<and> video_frame_num r = tr_samples v
     \<and> p_video_track r = tr_id v \<and> video_timescale r = tr_timescale v \<and> video_index r = i \<and> audio_frame_num r = 0
     \<and> audio_index r = 0 \<and> take (slen r) (sps r) = sp \<and> take (plen r) (pps r) = pp \<and> play_start r = start
     \<and> play_stop r = 0 \<and> \<not> vstream_wait r \<and> \<not> astream_wait r \<and> (1 < i \<longrightarrow> i_frame_read r))"

lemma plays_frame:
  assumes "at_frame h v start sp pp i (p_run s)" "h \<noteq> 0" "1 \<le> i" "i < tr_samples v" "tr_timescale v \<noteq> 0" "speed \<in> {0, 1, 2, 4}"
    and "plain_sample (mp4_read_sample env h (tr_id v) i)" "i = 1 \<Longrightarrow> sm_key (mp4_read_sample env h (tr_id v) i)"
  shows "\<exists>s'. play_on env ini fhead speed gv ga s = Done (0, s') \<and> at_frame h v start sp pp (i + 1) (p_run s')
    \<and> p_effects s' = p_effects s @ sent_frame ini sp pp start (tr_timescale v) (mp4_read_sample env h (tr_id v) i) # pause_after (pi_speed ini)"
proof -
  let ?sm = "mp4_read_sample env h (tr_id v) i"
  let ?t = "to_ms (sm_time ?sm) (tr_timescale v)"
  let ?sent = "sent_frame ini sp pp start (tr_timescale v) ?sm"
  from assms(7) obtain d where d: "sm_ok ?sm" "sm_data ?sm = Some d" "5 \<le> length d"
    "\<not> sm_key ?sm \<longrightarrow> d ! 4 AND 0x1f \<noteq> 7 \<and> d ! 4 AND 0x1f \<noteq> 8" by (auto simp: plain_sample_def)
  note r = assms(1) [unfolded at_frame_def]
  have seen: "i_frame_read (p_run s) \<or> sm_key ?sm" using r assms(3,8) by (cases "i = 1") auto
  have one: "video_step speed = 1" "speed \<noteq> 16" using assms(6) by (auto simp: video_step_def)
  have video: "player_get_video_frame env ini speed s = Some (0,
      s\<lparr>p_run := (p_run s)\<lparr>video_index := i + 1, i_frame_read := True,
        video_sync := (if sm_key ?sm then video_sync (p_run s) else ?t)\<rparr>, p_effects := p_effects s @ [?sent]\<rparr>)"
    using r assms(2,4,5) d seen one
    by (cases "sm_key ?sm") (simp_all add: player_get_video_frame_def Let_def past_stop_def key_frame_def timestamp_ms_def sent_frame_def)
  let ?s = "s\<lparr>p_run := (p_run s)\<lparr>video_index := i + 1, i_frame_read := True,
        video_sync := (if sm_key ?sm then video_sync (p_run s) else ?t)\<rparr>, p_effects := p_effects s @ [?sent]\<rparr>"
  have audio: "player_get_audio_frame env ini speed ?s = Some (- 1, ?s)"
    using r assms(2) by (simp add: player_get_audio_frame_def Let_def)
  have "play_streams env ini speed gv ga s = Some ((0, - 1), ?s)"
    using r video audio by (simp add: play_streams_def)
  then have "play_on env ini fhead speed gv ga s =
      Done (0, ?s\<lparr>p_run := (sync_streams (p_run ?s))\<lparr>astream_wait := False, vstream_wait := False\<rparr>,
        p_effects := p_effects ?s @ pause_after (pi_speed ini)\<rparr>)"
    by (simp add: play_on_def)
  moreover have "at_frame h v start sp pp (i + 1) ((sync_streams (p_run ?s))\<lparr>astream_wait := False, vstream_wait := False\<rparr>)"
    using r by (simp add: at_frame_def sync_streams_def)
  ultimately show ?thesis by simp
qed

definition frames_sent :: "play_env \<Rightarrow> player_init_t \<Rightarrow> int \<Rightarrow> mp4_track_t \<Rightarrow> u64 \<Rightarrow> bytes \<Rightarrow> bytes \<Rightarrow> int \<Rightarrow> play_effect list" where
  "frames_sent env ini h v start sp pp i = concat (map (\<lambda>j.
     sent_frame ini sp pp start (tr_timescale v) (mp4_read_sample env h (tr_id v) j) # pause_after (pi_speed ini)) [i..tr_samples v - 1])"

lemma main_open: "p_file (p_run s) \<noteq> 0 \<Longrightarrow> player_main fuel env mc ini fhead speed gv ga s = play_on env ini fhead speed gv ga s"
  by (simp add: player_main_def)

lemma plays_rest:
  assumes "h \<noteq> 0" "tr_timescale v \<noteq> 0" "speed \<in> {0, 1, 2, 4}"
    and "\<forall>j. 1 \<le> j \<and> j < tr_samples v \<longrightarrow> plain_sample (mp4_read_sample env h (tr_id v) j)"
    and "sm_key (mp4_read_sample env h (tr_id v) 1)"
  shows "at_frame h v start sp pp i (p_run s) \<Longrightarrow> 1 \<le> i \<Longrightarrow> i \<le> tr_samples v \<Longrightarrow> n = nat (tr_samples v - i) \<Longrightarrow>
    \<exists>s'. playback (Suc n) fuel env mc ini [f] speed g s = Done (- 1, s')
      \<and> p_effects s' = p_effects s @ frames_sent env ini h v start sp pp i @ [Mp4_close h]"
proof (induction n arbitrary: i s)
  case 0
  note r = 0(1) [unfolded at_frame_def]
  have "tr_samples v = i" using 0 by simp
  then have "player_get_video_frame env ini speed s = Some (- 1, s)" "player_get_audio_frame env ini speed s = Some (- 1, s)"
    using r assms(1) by (simp_all add: player_get_video_frame_def player_get_audio_frame_def Let_def)
  then have "play_on env ini [f] speed gv ga s = next_stream [f] 0
      (s\<lparr>p_run := (sync_streams (p_run s))\<lparr>astream_wait := False, vstream_wait := False\<rparr>\<rparr>)" for gv ga
    using r by (simp add: play_on_def play_streams_def)
  moreover have "current (sync_streams (p_run s)) = Some 0" "p_file (sync_streams (p_run s)) = h"
    using r by (simp_all add: sync_streams_def)
  ultimately show ?case using r assms(1) \<open>tr_samples v = i\<close>
    by (simp add: main_open next_stream_def player_close_mp4_def frames_sent_def)
next
  case (Suc n)
  have lt: "i < tr_samples v" using Suc.prems by simp
  from plays_frame [OF Suc.prems(1) assms(1) Suc.prems(2) lt assms(2,3), of env ini "[f]" "fst (g (Suc n))" "snd (g (Suc n))"]
  obtain s1 where s1: "play_on env ini [f] speed (fst (g (Suc n))) (snd (g (Suc n))) s = Done (0, s1)" "at_frame h v start sp pp (i + 1) (p_run s1)"
    "p_effects s1 = p_effects s @ sent_frame ini sp pp start (tr_timescale v) (mp4_read_sample env h (tr_id v) i) # pause_after (pi_speed ini)"
    using assms(4,5) Suc.prems(2) lt by auto
  have "1 \<le> i + 1" "i + 1 \<le> tr_samples v" "n = nat (tr_samples v - (i + 1))" using Suc.prems lt by simp_all
  from Suc.IH [OF s1(2) this] obtain s2 where
    s2: "playback (Suc n) fuel env mc ini [f] speed g s1 = Done (- 1, s2)"
      "p_effects s2 = p_effects s1 @ frames_sent env ini h v start sp pp (i + 1) @ [Mp4_close h]" by blast
  have "p_file (p_run s) \<noteq> 0" using Suc.prems(1) assms(1) by (simp add: at_frame_def)
  then have "playback (Suc (Suc n)) fuel env mc ini [f] speed g s = Done (- 1, s2)"
    using s1(1) s2(1) by (simp add: main_open del: playback.simps(2) add: playback.simps(2) [of "Suc n"])
  moreover have "[i..tr_samples v - 1] = i # [i + 1..tr_samples v - 1]" using lt by (simp add: upto_rec1)
  ultimately show ?case using s1(3) s2(2) by (simp add: frames_sent_def)
qed

text \<open>
  C40: The playback of one recording from its start, video only: each sample from the first to
  the last but one is sent once and in order, a key sample behind the two parameter sets,
  the four length bytes replaced by a start code, with its time shifted by the start of the
  recording; then the file is closed.  The last sample is never sent.
\<close>

theorem playback_sends_all_but_last:
  assumes "h = mp4_read env (file_name_of mc ini f)" "h \<noteq> 0" "mp4_tracks env h = [v]" "video_track_ok v" "tr_headers v = ([sp], [pp])"
    and "1 \<le> tr_samples v" "speed \<in> {0, 1, 2, 4}" "2 \<le> fuel"
    and "\<forall>j. 1 \<le> j \<and> j < tr_samples v \<longrightarrow> plain_sample (mp4_read_sample env h (tr_id v) j)"
    and "sm_key (mp4_read_sample env h (tr_id v) 1)" "mp4_sample_time env h (tr_id v) 1 = 0"
    and "pi_start ini = ucast (fst f)" "pi_stop ini = 0" "pi_offset ini = 0"
    and "length (file_name_of mc ini f) < 2 * MAX_SYSTEM_STRING_SIZE" "p_run s = player_run_zero"
  shows "\<exists>s'. playback (nat (tr_samples v)) fuel env mc ini [f] speed g s = Done (- 1, s')
    \<and> p_effects s' = p_effects s @ [Mp4_read (file_name_of mc ini f),
        Stream_config (pi_channel ini) (tr_fps v) (sint (ucast (tr_duration v) :: u32) sdiv tr_timescale v)]
      @ concat (map (\<lambda>j. sent_frame ini sp pp (ucast (fst f)) (tr_timescale v) (mp4_read_sample env h (tr_id v) j)
          # pause_after (pi_speed ini)) [1..tr_samples v - 1]) @ [Mp4_close h]"
proof -
  obtain e where fuel: "fuel = Suc (Suc e)" using assms(8) by (metis add_2_eq_Suc le_Suc_ex)
  have v: "tr_kind v = Video_track" "0 < tr_timescale v" "length sp \<le> HEADER_SIZE" "length pp \<le> HEADER_SIZE"
    using assms(4,5) by (auto simp: video_track_ok_def)
  define r where "r = player_run_zero\<lparr>current := Some 0, p_file_path := file_name_of mc ini f, p_file := h,
    play_start := pi_start ini, play_stop := 0, p_video_track := 0\<rparr>"
  define r1 where "r1 = r\<lparr>p_video_track := tr_id v, video_frame_num := tr_samples v, video_timescale := tr_timescale v,
    play_duration := sint (ucast (tr_duration v) :: u32) sdiv tr_timescale v, play_fps := tr_fps v, play_width := tr_width v,
    play_height := tr_height v, video_index := 1, sps := sp @ drop (length sp) (replicate HEADER_SIZE 0), slen := length sp,
    pps := pp @ drop (length pp) (replicate HEADER_SIZE 0), plen := length pp\<rparr>"
  have "video_info v r = Some r1" using v assms(5) by (simp add: video_info_def r1_def)
  then have tracks: "track_loop fuel (mp4_tracks env h) 0 r = Done r1" using v assms(3,5) by (simp add: fuel)
  have "seek_diff ini f r1 = 0" using assms(12,14) by (simp add: seek_diff_def r1_def r_def)
  moreover have "reached 0 (to_ms (mp4_sample_time env h (tr_id v) 1) (tr_timescale v))"
    using assms(11) by (simp add: reached_def to_ms_def)
  moreover have "[1..tr_samples v] = 1 # [2..tr_samples v]" using assms(6) by (simp add: upto_rec1)
  ultimately have "seek_index env h (tr_id v) (tr_samples v) (tr_timescale v) (seek_diff ini f r1) 1 = Some 1"
    using v(2) by (simp add: seek_index_def)
  moreover have "seek_index env h (p_audio_track r1) 0 0 (seek_diff ini f r1) 0 = Some 0" by (simp add: seek_index_def)
  ultimately have seek: "player_seek env (seek_diff ini f r1) r1 = Some r1"
    by (simp add: player_seek_def r1_def r_def player_run_zero_def)
  let ?s = "s\<lparr>p_run := r1, p_effects := p_effects s @ [Mp4_read (file_name_of mc ini f)]\<rparr>"
  let ?t = "pemit (Stream_config (pi_channel ini) (tr_fps v) (play_duration r1)) ?s"
  have start: "player_open_mp4 fuel env mc ini [f] s = Done (0, ?s)"
    using assms(1,2,13,15,16) tracks seek unfolding r_def
    by (simp add: player_open_mp4_def Let_def player_run_zero_def)
  have main: "player_main fuel env mc ini [f] speed gv ga s = player_main fuel env mc ini [f] speed gv ga ?t" for gv ga
    using assms(2,16) start by (simp add: player_main_def r1_def r_def player_run_zero_def)
  have "at_frame h v (ucast (fst f)) sp pp 1 (p_run ?t)"
    using assms(12) v by (simp add: at_frame_def r1_def r_def player_run_zero_def)
  from plays_rest [OF assms(2) _ assms(7,9,10) this, of "nat (tr_samples v) - 1" fuel mc ini f g] v(2) assms(6)
  obtain s' where s': "playback (nat (tr_samples v)) fuel env mc ini [f] speed g ?t = Done (- 1, s')"
    "p_effects s' = p_effects ?t @ frames_sent env ini h v (ucast (fst f)) sp pp 1 @ [Mp4_close h]"
    by (auto simp: nat_diff_distrib)
  moreover obtain n where "nat (tr_samples v) = Suc n" using assms(6) by (metis Suc_nat_eq_nat_zadd1 int_one_le_iff_zero_less nat_eq_iff not0_implies_Suc zero_less_nat_eq less_numeral_extra(3))
  ultimately have "playback (nat (tr_samples v)) fuel env mc ini [f] speed g s = Done (- 1, s')" using main by simp
  then show ?thesis using s'(2) by (simp add: frames_sent_def r1_def)
qed

section \<open>Seeking\<close>

text \<open>The point to play from, in milliseconds after the start of the file.\<close>

definition seek_target :: "player_init_t \<Rightarrow> node \<Rightarrow> player_run_t \<Rightarrow> int" where
  "seek_target ini f r = (uint (play_start r) + uint (pi_offset ini) - uint (fst f)) * 1000"

lemma word32_mod: "(word_of_int (x mod 2 ^ 64) :: u32) = word_of_int x"
proof -
  have "take_bit 32 (take_bit 64 x) = take_bit 32 x" by (simp add: take_bit_take_bit)
  then show ?thesis by (simp only: word_of_int_eq_iff) (simp add: take_bit_eq_mod)
qed

lemma seek_diff_eq: "seek_diff ini f r = word_of_int (- seek_target ini f r)"
proof -
  let ?w = "(ucast (fst f) - (play_start r + ucast (pi_offset ini))) * 1000 :: u64"
  have "?w = word_of_int ((uint (fst f) - (uint (play_start r) + uint (pi_offset ini))) * 1000)"
    by (simp add: unsigned_ucast_eq word_of_int_uint)
  also have "\<dots> = word_of_int (- seek_target ini f r)" by (simp add: seek_target_def algebra_simps)
  finally have "uint ?w = - seek_target ini f r mod 2 ^ 64"
    using uint_word_of_int [where ?'a = 64] by (simp del: of_int_minus)
  then have "ucast ?w = (word_of_int (- seek_target ini f r mod 2 ^ 64) :: u32)" by (simp only: ucast_eq)
  also have "\<dots> = word_of_int (- seek_target ini f r)"
    by (rule word32_mod)
  finally show ?thesis by (simp add: seek_diff_def)
qed

lemma reached_iff:
  assumes "- (2 ^ 31) \<le> - x" "- x + uint t < 2 ^ 31" "- x < 2 ^ 31"
  shows "reached (word_of_int (- x)) t = (x \<le> uint t)"
proof -
  have x: "sint (word_of_int (- x) :: u32) = - x"
    using assms(1,3) by (simp add: sint_sbintrunc' signed_take_bit_int_eq_self del: of_int_minus)
  have "ucast (scast (word_of_int (- x) :: u32) + t :: u64) = (word_of_int (- x + uint t) :: u32)"
  proof -
    have "scast (word_of_int (- x) :: u32) + t = (word_of_int (- x + uint t) :: u64)"
      by (simp only: scast_eq x) simp
    then have "uint (scast (word_of_int (- x) :: u32) + t :: u64) = (- x + uint t) mod 2 ^ 64"
      using uint_word_of_int [of "- x + uint t", where ?'a = 64] by (simp del: of_int_minus of_int_add)
    then have "ucast (scast (word_of_int (- x) :: u32) + t :: u64) = (word_of_int ((- x + uint t) mod 2 ^ 64) :: u32)"
      by (metis ucast_eq)
    also have "\<dots> = word_of_int (- x + uint t)"
      by (rule word32_mod)
    finally show ?thesis .
  qed
  moreover have low: "- (2 ^ 31) \<le> - x + uint t" using assms(1) uint_nonnegative [of t] by linarith
  have "sint (word_of_int (- x + uint t) :: u32) = - x + uint t"
    using low assms(2) unfolding sint_sbintrunc' by (intro signed_take_bit_int_eq_self) simp_all
  ultimately show ?thesis by (simp add: reached_def)
qed

lemma find_upto: "(case List.find P [1..num] of
    None \<Rightarrow> \<forall>i. 1 \<le> i \<and> i \<le> num \<longrightarrow> \<not> P i
  | Some k \<Rightarrow> 1 \<le> k \<and> k \<le> num \<and> P k \<and> (\<forall>i. 1 \<le> i \<and> i < k \<longrightarrow> \<not> P i))"
proof (cases "List.find P [1..num]")
  case None
  then have "\<forall>i. 1 \<le> i \<and> i \<le> num \<longrightarrow> \<not> P i" by (auto simp: find_None_iff)
  with None show ?thesis by simp
next
  case (Some k)
  then obtain n where n: "n < length [1..num]" "P ([1..num] ! n)" "k = [1..num] ! n" "\<forall>m < n. \<not> P ([1..num] ! m)"
    by (auto simp: find_Some_iff)
  then have k: "k = 1 + int n" "int n < num" by (simp_all add: nth_upto)
  moreover have "\<not> P i" if "1 \<le> i" "i < k" for i
  proof -
    have "nat (i - 1) < n" using that k by simp
    then have "\<not> P ([1..num] ! nat (i - 1))" using n(4) by blast
    moreover have "[1..num] ! nat (i - 1) = i" using that k by (simp add: nth_upto)
    ultimately show ?thesis by simp
  qed
  ultimately show ?thesis using Some n(2,3) by simp
qed

text \<open>
  Within the range of a C \<open>int\<close> of milliseconds, seeking finds the first sample at or after
  the point to play from; when the point lies behind the last sample the position stays where
  opening put it, at the first one.
\<close>

theorem seek_finds_sample:
  assumes "0 < timescale"
    and "seek_target ini f r \<le> 2 ^ 31" "- (2 ^ 30) < seek_target ini f r"
    and "\<And>i. 1 \<le> i \<Longrightarrow> i \<le> num \<Longrightarrow> uint (to_ms (mp4_sample_time env h track i) timescale) < 2 ^ 30"
  shows "\<exists>k. seek_index env h track num timescale (seek_diff ini f r) index = Some k \<and>
    (if \<exists>i. 1 \<le> i \<and> i \<le> num \<and> seek_target ini f r \<le> uint (to_ms (mp4_sample_time env h track i) timescale)
     then 1 \<le> k \<and> k \<le> num \<and> seek_target ini f r \<le> uint (to_ms (mp4_sample_time env h track k) timescale)
       \<and> (\<forall>i. 1 \<le> i \<and> i < k \<longrightarrow> uint (to_ms (mp4_sample_time env h track i) timescale) < seek_target ini f r)
     else k = index)"
proof -
  let ?ms = "\<lambda>i. to_ms (mp4_sample_time env h track i) timescale"
  let ?P = "\<lambda>i. reached (seek_diff ini f r) (?ms i)"
  have P: "?P i = (seek_target ini f r \<le> uint (?ms i))" if "1 \<le> i" "i \<le> num" for i
    unfolding seek_diff_eq using assms(2,3) assms(4) [OF that] by (intro reached_iff) auto
  have pos: "\<not> (num \<ge> 1 \<and> timescale = 0)" using assms(1) by simp
  show ?thesis
  proof (cases "List.find ?P [1..num]")
    case None
    then have "\<forall>i. 1 \<le> i \<and> i \<le> num \<longrightarrow> \<not> seek_target ini f r \<le> uint (?ms i)"
      using find_upto [where P = ?P and num = num] P by simp
    then show ?thesis using None pos by (auto simp: seek_index_def)
  next
    case (Some k)
    then have k: "1 \<le> k" "k \<le> num" "?P k" "\<forall>i. 1 \<le> i \<and> i < k \<longrightarrow> \<not> ?P i" using find_upto [where P = ?P and num = num] by auto
    then have "seek_index env h track num timescale (seek_diff ini f r) index = Some k" using Some pos by (simp add: seek_index_def)
    moreover have "seek_target ini f r \<le> uint (?ms k)" using k P by simp
    moreover have "\<forall>i. 1 \<le> i \<and> i < k \<longrightarrow> uint (?ms i) < seek_target ini f r" using k P by (metis linorder_not_le order.strict_trans2 order.strict_implies_order)
    ultimately show ?thesis using k(1,2) by auto
  qed
qed

section \<open>The order of the tracks\<close>

text \<open>
  The shared counter: after a video track with one picture parameter set at position 0 the loop
  goes on at position 2, so an audio track right behind it is not found.  Without a picture
  parameter set a video track at position 1 is read again and again.
\<close>

lemma audio_behind_video_is_skipped:
  assumes "tr_kind v = Video_track" "video_info v r = Some r'" "length (snd (tr_headers v)) = 1"
  shows "track_loop (Suc (Suc fuel)) [v, a] 0 r = Done r'"
  using assms by simp

lemma track_loop_never_ends:
  assumes "tr_kind a = Audio_track" "tr_kind v = Video_track" "snd (tr_headers v) = []" "\<And>r. video_info v r \<noteq> None"
  shows "track_loop fuel [a, v] 1 r = Out_of_fuel"
proof (induction fuel arbitrary: r)
  case (Suc fuel)
  obtain r' where "video_info v r = Some r'" using assms(4) by blast
  then show ?case using assms Suc.IH by simp
qed simp

section \<open>The properties on a concrete file\<close>

definition demo_track :: mp4_track_t where
  "demo_track = \<lparr>tr_id = 1, tr_kind = Video_track, tr_duration = 200, tr_samples = 3, tr_timescale = 1000, tr_fps = 15,
     tr_width = 640, tr_height = 360, tr_headers = ([[0x67, 1]], [[0x68, 2]])\<rparr>"

definition demo_sample :: "int \<Rightarrow> mp4_sample_t" where
  "demo_sample i = \<lparr>sm_ok = True, sm_data = Some (if i = 1 then [0, 0, 0, 2, 0x65, 9] else [0, 0, 0, 2, 0x41, 8]),
     sm_time = (if i = 1 then 0 else 66), sm_key = (i = 1)\<rparr>"

definition demo_library :: play_env where
  "demo_library = \<lparr>mp4_read = (\<lambda>_. 7), mp4_tracks = (\<lambda>_. [demo_track]),
     mp4_sample_time = (\<lambda>_ _ i. if i = 1 then 0 else 66), mp4_read_sample = (\<lambda>_ _. demo_sample)\<rparr>"

definition demo_media :: media_config where
  "demo_media = \<lparr>media_directory = ''/mnt/sdcard/media/'', folder_prefix = [''plan'', ''alarm'', ''normal'']\<rparr>"

definition demo_request :: player_init_t where
  "demo_request = \<lparr>switch_to_live = 0, switch_to_live_audio = 0, auto_exit = 0, pi_offset = 0, pi_speed = 1, channel_merge = 0,
     pi_audio = 1, pi_start = 1600000000, pi_stop = 0, pi_channel = 2, pi_tid = 0, pi_type = 0, keyonly = False, pi_filename = []\<rparr>"

definition demo_player :: player where
  "demo_player = \<lparr>p_run = player_run_zero, p_effects = []\<rparr>"

lemma demo_library_ok: "library_ok demo_library"
proof -
  have "video_track_ok demo_track" by (simp add: video_track_ok_def demo_track_def)
  then have "recording_tracks [demo_track]" unfolding recording_tracks_def by blast
  then show ?thesis by (simp add: library_ok_def demo_library_def demo_sample_def)
qed

lemma demo_name: "length (file_name_of demo_media demo_request (1600000000, 1600000060)) < 128"
proof -
  have "sint (1600000000 :: u32) = 1600000000" "sint (1600000060 :: u32) = 1600000060" by simp_all
  then show ?thesis by (simp add: file_name_of_def demo_media_def demo_request_def sprintf_0d_stamp(2))
qed

lemma demo_request_fields: "pi_offset demo_request = 0" "pi_speed demo_request = 1" "pi_start demo_request = 1600000000"
  "pi_stop demo_request = 0" "pi_channel demo_request = 2"
  by (simp_all add: demo_request_def)

lemma playback_ends_witness:
  "\<exists>s'. playback (Suc 9) 3 demo_library demo_media demo_request [(1600000000, 1600000060)] 1 (\<lambda>_. (5, 6)) demo_player = Done (- 1, s')
    \<and> p_file (p_run s') = 0"
  using playback_ends [OF demo_library_ok, of 1 3 "[(1600000000, 1600000060)]" demo_player demo_media demo_request "\<lambda>_. (5, 6)"]
  by (simp add: demo_name demo_player_def file_weight_def demo_library_def demo_track_def)

lemma playback_sends_all_but_last_witness:
  "\<exists>s'. playback 3 2 demo_library demo_media demo_request [(1600000000, 1600000060)] 1 (\<lambda>_. (5, 6)) demo_player = Done (- 1, s')
    \<and> p_effects s' = [Mp4_read (file_name_of demo_media demo_request (1600000000, 1600000060)), Stream_config 2 15 0,
        Send_video 2 [0, 0, 0, 1, 0x67, 1, 0, 0, 0, 1, 0x68, 2, 0, 0, 0, 1, 0x65, 9] (ucast (1600000001000 :: u64)) True, Usleep 30000,
        Send_video 2 [0, 0, 0, 1, 0x41, 8] (ucast (1600000001066 :: u64)) False, Usleep 30000, Mp4_close 7]"
proof -
  have upto: "[1..2] = [1, 2 :: int]" by (simp add: upto_rec1)
  have t: "to_ms 0 1000 = 0" "to_ms 66 1000 = 66" by (simp_all add: to_ms_def)
  have "plain_sample (demo_sample j)" for j by (simp add: plain_sample_def demo_sample_def)
  then show ?thesis
    using playback_sends_all_but_last [of 7 demo_library demo_media demo_request "(1600000000, 1600000060)" demo_track
        "[0x67, 1]" "[0x68, 2]" 1 2 demo_player "\<lambda>_. (5, 6)"] upto t
    by (simp add: demo_name demo_library_def demo_track_def video_track_ok_def demo_request_fields demo_player_def)
      (simp add: demo_sample_def sent_frame_def NAL_def pause_after_def demo_request_fields)
qed

lemma seek_finds_sample_witness:
  "\<exists>k. seek_index demo_library 7 1 3 1000 (seek_diff demo_request (1600000000, 0)
      (player_run_zero\<lparr>play_start := 1600000000\<rparr>)) 1 = Some k \<and> k \<le> 3"
proof -
  let ?r = "player_run_zero\<lparr>play_start := 1600000000\<rparr>"
  have t: "uint (to_ms (mp4_sample_time demo_library 7 1 i) 1000) < 2 ^ 30" for i
    by (simp add: to_ms_def demo_library_def)
  have target: "seek_target demo_request (1600000000, 0) ?r = 0"
    by (simp add: seek_target_def demo_request_fields player_run_zero_def)
  have "\<exists>k. seek_index demo_library 7 1 3 1000 (seek_diff demo_request (1600000000, 0) ?r) 1 = Some k \<and>
    (if \<exists>i. 1 \<le> i \<and> i \<le> 3 \<and> seek_target demo_request (1600000000, 0) ?r \<le> uint (to_ms (mp4_sample_time demo_library 7 1 i) 1000)
     then 1 \<le> k \<and> k \<le> 3 \<and> seek_target demo_request (1600000000, 0) ?r \<le> uint (to_ms (mp4_sample_time demo_library 7 1 k) 1000)
       \<and> (\<forall>i. 1 \<le> i \<and> i < k \<longrightarrow> uint (to_ms (mp4_sample_time demo_library 7 1 i) 1000) < seek_target demo_request (1600000000, 0) ?r)
     else k = 1)"
    by (rule seek_finds_sample) (use t target in simp_all)
  then show ?thesis by (auto split: if_splits)
qed

end
