(* ===== verification/PlayerServer.thy ===== *)
theory PlayerServer
  imports Player ServerLoop
begin

text \<open>
  The player server of \<open>server/player/player.c\<close>: its job table, the threads that play, its
  message handler, its state machine and its loop.

  A playing thread is a \<open>player_thread\<close>, its locals; it reads and writes the job table and the
  server's \<open>info\<close>.  A wait for the threads (\<open>while (info.thread_start != 0) usleep(...)\<close>) is the
  field \<open>p_await\<close>, the code to run after it.  Whether \<open>pthread_create\<close> succeeds and which files
  exist are arguments.
\<close>

section \<open>State\<close>

abbreviation (input) "ALIYUN_VISUAL_MAX_CHANNEL \<equiv> 4 :: nat"
abbreviation (input) "PLAYER_INIT_CONDITION_DEVICE_SD \<equiv> 0 :: nat"
abbreviation (input) "PLAYER_INIT_CONDITION_TIME_SYCHRONIZED \<equiv> 1 :: nat"
abbreviation (input) "PLAYER_INIT_CONDITION_NUM \<equiv> 2 :: nat"
abbreviation (input) "PLAYER_SYNC_VIDEO \<equiv> 0 :: nat"
abbreviation (input) "PLAYER_SYNC_AUDIO \<equiv> 1 :: nat"
abbreviation (input) "PLAYER_SYNC_BUTT \<equiv> 2 :: nat"
abbreviation (input) "DEVICE_PARAM_SD_INFO \<equiv> 0 :: int"

text \<open>\<open>PLAYER_EXIT_CONDITION\<close>: the bit of the aliyun server.\<close>

abbreviation (input) "PLAYER_EXIT_CONDITION \<equiv> 2 ^ nat SERVER_ALIYUN :: int"

abbreviation (input) "PLAYER_THREAD_NONE \<equiv> 0 :: int"
abbreviation (input) "PLAYER_THREAD_INITED \<equiv> 1 :: int"
abbreviation (input) "PLAYER_THREAD_SYNC \<equiv> 2 :: int"
abbreviation (input) "PLAYER_THREAD_IDLE \<equiv> 3 :: int"
abbreviation (input) "PLAYER_THREAD_RUN \<equiv> 4 :: int"
abbreviation (input) "PLAYER_THREAD_STOP \<equiv> 5 :: int"
abbreviation (input) "PLAYER_THREAD_PAUSE \<equiv> 6 :: int"
abbreviation (input) "PLAYER_THREAD_FINISH \<equiv> 7 :: int"
abbreviation (input) "PLAYER_THREAD_ERROR \<equiv> 8 :: int"

record player_job_t =
  pj_status :: int
  pj_run :: bool
  pj_speed :: u8
  pj_restart :: bool
  pj_exit :: int
  pj_pause :: bool
  pj_audio :: u8
  pj_channel :: u8
  pj_sid :: nat
  pj_init :: player_init_t
  pj_type :: int
  live_sync :: int

definition player_init_zero :: player_init_t where
  "player_init_zero = \<lparr>switch_to_live = 0, switch_to_live_audio = 0, auto_exit = 0, pi_offset = 0, pi_speed = 0,
     channel_merge = 0, pi_audio = 0, pi_start = 0, pi_stop = 0, pi_channel = 0, pi_tid = 0, pi_type = 0,
     keyonly = False, pi_filename = []\<rparr>"

definition player_job_zero :: player_job_t where
  "player_job_zero = \<lparr>pj_status = 0, pj_run = False, pj_speed = 0, pj_restart = False, pj_exit = 0, pj_pause = False,
     pj_audio = 0, pj_channel = 0, pj_sid = 0, pj_init = player_init_zero, pj_type = 0, live_sync = 0\<rparr>"

datatype player_stage = P_restarted | P_reinited

datatype player_call = P_sd_format_response | P_timer_handler

record player_server = server_state +
  p_jobs :: "player_job_t list"
  p_index :: file_manager_t
  p_await :: "player_stage option"
  p_calls :: "player_call list"
  p_fault :: bool

abbreviation "with_job f i s \<equiv> s\<lparr>p_jobs := (p_jobs s)[i := f (p_jobs s ! i)]\<rparr>"

section \<open>Jobs\<close>

fun find_job_channel :: "player_job_t list \<Rightarrow> int \<Rightarrow> nat \<Rightarrow> nat option" where
  "find_job_channel [] channel i = None"
| "find_job_channel (j # js) channel i =
     (if pj_status j > PLAYER_THREAD_NONE \<and> pi_channel (pj_init j) = channel then Some i
      else find_job_channel js channel (i + 1))"

fun free_job :: "player_job_t list \<Rightarrow> nat \<Rightarrow> nat option" where
  "free_job [] i = None"
| "free_job (j # js) i = (if pj_status j = PLAYER_THREAD_NONE then Some i else free_job js (i + 1))"

definition by_name :: "player_init_t \<Rightarrow> bool" where
  "by_name ini = (pi_filename ini \<noteq> [] \<and> pi_start ini = 0)"

text \<open>Whether there is something to play; \<open>None\<close> is a type outside the index.\<close>

definition playable :: "(char list \<Rightarrow> bool) \<Rightarrow> file_manager_t \<Rightarrow> player_init_t \<Rightarrow> bool option" where
  "playable present fm ini =
     (if by_name ini then Some (present (pi_filename ini))
      else case array_get (flist fm) (nat (pi_type ini)) of
        None \<Rightarrow> None
      | Some fl \<Rightarrow> map_option (\<lambda>ret. ret = 0) (file_manager_check_file_list fl (pi_start ini) (pi_stop ini)))"

definition update_job :: "player_init_t \<Rightarrow> nat \<Rightarrow> player_job_t \<Rightarrow> player_job_t" where
  "update_job ini i j = j\<lparr>pj_init := ini\<lparr>pi_tid := i\<rparr>, pj_status := PLAYER_THREAD_INITED, pj_audio := pi_audio ini,
     pj_run := True, pj_speed := pi_speed ini, pj_restart := True, pj_exit := 0, pj_type := pi_type ini\<rparr>"

definition new_job :: "player_init_t \<Rightarrow> nat \<Rightarrow> player_job_t" where
  "new_job ini i = player_job_zero\<lparr>pj_init := ini\<lparr>pi_tid := i\<rparr>, pj_status := PLAYER_THREAD_INITED,
     pj_channel := word_of_int (pi_channel ini), pj_sid := i, pj_audio := pi_audio ini, pj_run := True,
     pj_speed := pi_speed ini, pj_type := pi_type ini\<rparr>"

definition player_add_job :: "bool \<Rightarrow> (char list \<Rightarrow> bool) \<Rightarrow> msg \<Rightarrow> player_server \<Rightarrow> int \<times> player_server" where
  "player_add_job create_ok present m s =
     (if status (info s) \<noteq> STATUS_RUN then (- 1, s)
      else case m_arg m of
        None \<Rightarrow> (- 1, s)
      | Some (P_player_init ini) \<Rightarrow>
          (case playable present (p_index s) ini of
             None \<Rightarrow> (0, s\<lparr>p_fault := True\<rparr>)
           | Some False \<Rightarrow> (- 1, s)
           | Some True \<Rightarrow>
               (case find_job_channel (p_jobs s) (pi_channel ini) 0 of
                  Some i \<Rightarrow> (0, with_job (update_job ini i) i s)
                | None \<Rightarrow>
                    (case free_job (p_jobs s) 0 of
                       None \<Rightarrow> (- 1, s)
                     | Some i \<Rightarrow>
                         if create_ok then (0, with_job (\<lambda>_. new_job ini i) i s)
                         else (- 1, with_job (\<lambda>_. player_job_zero\<lparr>pj_init := ini\<lparr>pi_tid := i\<rparr>\<rparr>) i s))))
      | _ \<Rightarrow> (0, s\<lparr>p_fault := True\<rparr>))"

definition on_channel :: "(player_job_t \<Rightarrow> player_job_t) \<Rightarrow> msg \<Rightarrow> player_server \<Rightarrow> int \<times> player_server" where
  "on_channel f m s =
     (case find_job_channel (p_jobs s) (wolf (m_arg_in m)) 0 of
        None \<Rightarrow> (- 1, s)
      | Some i \<Rightarrow> (0, with_job f i s))"

definition player_start_job :: "msg \<Rightarrow> player_server \<Rightarrow> int \<times> player_server" where
  "player_start_job m = on_channel (\<lambda>j. j\<lparr>pj_run := True\<rparr>) m"

definition player_stop_job :: "msg \<Rightarrow> player_server \<Rightarrow> int \<times> player_server" where
  "player_stop_job m = on_channel (\<lambda>j. j\<lparr>pj_exit := 1\<rparr>) m"

definition player_pause_job :: "msg \<Rightarrow> player_server \<Rightarrow> int \<times> player_server" where
  "player_pause_job m = on_channel (\<lambda>j. j\<lparr>pj_pause := True\<rparr>) m"

definition player_unpause_job :: "msg \<Rightarrow> player_server \<Rightarrow> int \<times> player_server" where
  "player_unpause_job m = on_channel (\<lambda>j. j\<lparr>pj_pause := False\<rparr>) m"

text \<open>
  The second test of the status, \<open>jobs[id].status == PLAYER_THREAD_NONE\<close>, is one of what was
  just found and never holds.
\<close>

definition player_start_audio :: "msg \<Rightarrow> player_server \<Rightarrow> int \<times> player_server" where
  "player_start_audio m = on_channel (\<lambda>j. j\<lparr>pj_audio := 1\<rparr>) m"

definition player_stop_audio :: "msg \<Rightarrow> player_server \<Rightarrow> int \<times> player_server" where
  "player_stop_audio m = on_channel (\<lambda>j. j\<lparr>pj_audio := 0\<rparr>) m"

text \<open>The offset and the speed become a \<open>char\<close>.\<close>

definition player_seek_job :: "msg \<Rightarrow> player_server \<Rightarrow> int \<times> player_server" where
  "player_seek_job m = on_channel (\<lambda>j. j\<lparr>pj_status := PLAYER_THREAD_INITED, pj_run := True,
     pj_init := (pj_init j)\<lparr>pi_offset := word_of_int (cat (m_arg_in m))\<rparr>, pj_restart := True, pj_exit := 0\<rparr>) m"

definition player_set_param_job :: "msg \<Rightarrow> player_server \<Rightarrow> int \<times> player_server" where
  "player_set_param_job m = on_channel (\<lambda>j. j\<lparr>pj_status := PLAYER_THREAD_INITED, pj_run := True,
     pj_init := (pj_init j)\<lparr>pi_speed := word_of_int (chick (m_arg_in m)), pi_offset := word_of_int (cat (m_arg_in m)),
       keyonly := (dog (m_arg_in m) \<noteq> 0)\<rparr>, pj_restart := True, pj_exit := 0\<rparr>) m"

section \<open>A playing thread\<close>

record player_thread =
  th_status :: int
  th_init :: player_init_t
  th_fhead :: "node list"
  th_player :: player
  th_send_finish :: bool
  th_left :: bool

definition player_func_begin :: "nat \<Rightarrow> player_server \<Rightarrow> player_thread \<times> player_server" where
  "player_func_begin i s =
     (\<lparr>th_status = PLAYER_THREAD_INITED, th_init = pj_init (p_jobs s ! i), th_fhead = [],
        th_player = \<lparr>p_run = player_run_zero, p_effects = []\<rparr>, th_send_finish = False, th_left = False\<rparr>,
      with_info (\<lambda>x. x\<lparr>thread_start := misc_set_bit (thread_start x) i\<rparr>) s)"

definition player_restart :: "nat \<Rightarrow> player_thread \<times> player_server \<Rightarrow> player_thread \<times> player_server" where
  "player_restart i ts =
     (case ts of (t, s) \<Rightarrow>
      if pj_restart (p_jobs s ! i) then
        let t = t\<lparr>th_init := pj_init (p_jobs s ! i)\<rparr>;
            t = (if th_status t \<ge> PLAYER_THREAD_RUN
                 then t\<lparr>th_player := with_prun (\<lambda>_. player_run_zero) (player_close_mp4 (th_player t)),
                        th_fhead := file_manager_node_clear (th_fhead t)\<rparr>
                 else t) in
        (t\<lparr>th_status := PLAYER_THREAD_INITED\<rparr>, with_job (\<lambda>j. j\<lparr>pj_restart := False\<rparr>) i s)
      else (t, s))"

text \<open>The search of the first state; \<open>None\<close> is a type outside the index or a broken name.\<close>

definition player_search ::
  "media_config \<Rightarrow> player_thread \<Rightarrow> file_manager_t \<Rightarrow> (int \<times> node list \<times> file_manager_t) option" where
  "player_search mc t fm =
     (let ini = th_init t in
      if by_name ini then file_manager_search_file mc fm (pi_filename ini) (th_fhead t)
      else case array_get (flist fm) (nat (pi_type ini)) of
        None \<Rightarrow> None
      | Some fl \<Rightarrow> map_option (\<lambda>(ret, ns). (ret, ns, fm))
          (file_manager_search_file_list fl (pi_start ini) (pi_stop ini) (th_fhead t)))"

definition request_sync :: "nat \<Rightarrow> int \<Rightarrow> msg" where
  "request_sync i channel = msg_init\<lparr>m_message := MSG_PLAYER_REQUEST_SYNC, m_sender := SERVER_PLAYER,
     m_receiver := SERVER_PLAYER, m_arg_in := arg_zero\<lparr>cat := channel, dog := int i\<rparr>\<rparr>"

text \<open>
  The state machine of the thread, with the flags it read under the lock.  \<open>PLAYER_THREAD_FINISH\<close> and
  \<open>PLAYER_THREAD_ERROR\<close> write the status of the server, not their own.
\<close>

definition player_func_switch ::
  "nat \<Rightarrow> play_env \<Rightarrow> media_config \<Rightarrow> int \<times> int \<Rightarrow> bool \<Rightarrow> u8 \<Rightarrow> bool \<Rightarrow> nat
    \<Rightarrow> player_thread \<times> player_server \<Rightarrow> (player_thread \<times> player_server) run" where
  "player_func_switch fuel env mc garbage play speed pause i ts =
     (case ts of (t, s) \<Rightarrow>
      let st = th_status t; finish = with_job (\<lambda>j. j\<lparr>pj_exit := 1\<rparr>) i (set_status PLAYER_THREAD_INITED s) in
      if st = PLAYER_THREAD_INITED then
        (case player_search mc t (p_index s) of
           None \<Rightarrow> Undefined
         | Some (ret, ns, fm) \<Rightarrow>
             let t = t\<lparr>th_fhead := ns\<rparr>; s = s\<lparr>p_index := fm\<rparr> in
             if ret \<noteq> 0 then Done (t\<lparr>th_status := PLAYER_THREAD_ERROR\<rparr>, s)
             else let m = request_sync i (pi_channel (th_init t)) in
               Done (t\<lparr>th_status := PLAYER_THREAD_SYNC\<rparr>, send SERVER_AUDIO m (send SERVER_VIDEO m s)))
      else if st = PLAYER_THREAD_SYNC then
        (if misc_full_bit (live_sync (p_jobs s ! i)) PLAYER_SYNC_BUTT \<noteq> 0
         then Done (t\<lparr>th_status := PLAYER_THREAD_IDLE\<rparr>, with_job (\<lambda>j. j\<lparr>live_sync := 0\<rparr>) i s)
         else Done (t, s))
      else if st = PLAYER_THREAD_IDLE then Done (if play then t\<lparr>th_status := PLAYER_THREAD_RUN\<rparr> else t, s)
      else if st = PLAYER_THREAD_RUN then
        (if pause then Done (t\<lparr>th_status := PLAYER_THREAD_PAUSE\<rparr>, s)
         else case player_main fuel env mc (th_init t) (th_fhead t) speed (fst garbage) (snd garbage) (th_player t) of
           Undefined \<Rightarrow> Undefined
         | Out_of_fuel \<Rightarrow> Out_of_fuel
         | Done (ret, p) \<Rightarrow>
             Done ((if ret \<noteq> 0 then t\<lparr>th_player := p, th_status := PLAYER_THREAD_FINISH\<rparr> else t\<lparr>th_player := p\<rparr>), s))
      else if st = PLAYER_THREAD_PAUSE then Done (if \<not> pause then t\<lparr>th_status := PLAYER_THREAD_RUN\<rparr> else t, s)
      else if st = PLAYER_THREAD_FINISH then Done (t\<lparr>th_send_finish := True\<rparr>, finish)
      else if st = PLAYER_THREAD_ERROR then Done (t, finish)
      else Done (t, s))"

definition player_func_turn ::
  "nat \<Rightarrow> play_env \<Rightarrow> media_config \<Rightarrow> int \<times> int \<Rightarrow> nat \<Rightarrow> player_thread \<times> player_server
    \<Rightarrow> (player_thread \<times> player_server) run" where
  "player_func_turn fuel env mc garbage i ts =
     (case ts of (t, s) \<Rightarrow>
      let j = p_jobs s ! i in
      if exit_flag (info s) \<noteq> 0 \<or> pj_exit j \<noteq> 0 then Done (t\<lparr>th_left := True\<rparr>, s)
      else if misc_get_bit (thread_exit (info s)) i \<noteq> 0 then Done (t\<lparr>th_left := True\<rparr>, s)
      else player_func_switch fuel env mc garbage (pj_run j) (pj_speed j) (pj_pause j) i (player_restart i (t, s)))"

text \<open>The server's share of a thread's end, and the whole of it.\<close>

definition player_thread_ends :: "nat \<Rightarrow> player_server \<Rightarrow> player_server" where
  "player_thread_ends i s =
     (let s = with_info (\<lambda>x. x\<lparr>thread_start := misc_clear_bit (thread_start x) i\<rparr>) s;
          s = with_job (\<lambda>_. player_job_zero) i s in
      s\<lparr>bus := global_common_send_dummy (bus s) SERVER_PLAYER\<rparr>)"

definition player_func_end :: "nat \<Rightarrow> player_thread \<times> player_server \<Rightarrow> player_thread \<times> player_server" where
  "player_func_end i ts =
     (case ts of (t, s) \<Rightarrow>
      let t = t\<lparr>th_fhead := file_manager_node_clear (th_fhead t)\<rparr>;
          p = th_player t;
          p = (if p_file (p_run p) \<noteq> 0 then pemit (Mp4_close (p_file (p_run p))) (with_prun (\<lambda>r. r\<lparr>p_file := 0\<rparr>) p) else p);
          p = (if th_send_finish t then pemit (Send_complete (pi_channel (th_init t))) p else p) in
      (t\<lparr>th_player := p\<rparr>, player_thread_ends i s))"

section \<open>Messages\<close>

definition player_message_filter :: "msg \<Rightarrow> player_server \<Rightarrow> bool" where
  "player_message_filter m s = error_filter m s"

definition player_sync_ack :: "msg \<Rightarrow> player_server \<Rightarrow> player_server" where
  "player_sync_ack m s =
     (let i = nat (dog (m_arg_in m)); mark = (\<lambda>n. if m_result m \<noteq> 0 then s
            else if 0 \<le> dog (m_arg_in m) \<and> i < length (p_jobs s) then with_job (\<lambda>j. j\<lparr>live_sync := misc_set_bit (live_sync j) n\<rparr>) i s
            else s\<lparr>p_fault := True\<rparr>) in
      if m_sender m = SERVER_VIDEO then mark PLAYER_SYNC_VIDEO
      else if m_sender m = SERVER_AUDIO then mark PLAYER_SYNC_AUDIO
      else s)"

definition handle_message :: "bool \<Rightarrow> (char list \<Rightarrow> bool) \<Rightarrow> msg \<Rightarrow> player_server \<Rightarrow> player_server" where
  "handle_message create_ok present m s =
     (let k = m_message m in
      if k = MSG_PLAYER_REQUEST then
        snd (player_add_job create_ok present m (with_info (\<lambda>x. x\<lparr>task := (task x)\<lparr>task_msg := m\<rparr>\<rparr>) s))
      else if k = MSG_PLAYER_START then snd (player_start_job m s)
      else if k = MSG_PLAYER_STOP then snd (player_stop_job m s)
      else if k = MSG_PLAYER_PAUSE then snd (player_pause_job m s)
      else if k = MSG_PLAYER_UNPAUSE then snd (player_unpause_job m s)
      else if k = MSG_PLAYER_AUDIO_START then snd (player_start_audio m s)
      else if k = MSG_PLAYER_AUDIO_STOP then snd (player_stop_audio m s)
      else if k = MSG_PLAYER_SEEK then snd (player_seek_job m s)
      else if k = MSG_PLAYER_SET_PARAM then snd (player_set_param_job m s)
      else if k = MSG_MANAGER_EXIT then on_manager_exit m s
      else if k = MSG_MANAGER_TIMER_ON then s\<lparr>p_calls := p_calls s @ [P_timer_handler]\<rparr>
      else if k = MSG_MANAGER_EXIT_ACK then on_exit_ack m s
      else if k = MSG_PLAYER_RELAY then
        send (m_receiver m) (msg_init\<lparr>m_message := m_message m OR 0x1000, m_sender := SERVER_PLAYER,
          m_receiver := SERVER_PLAYER, m_arg_pass := m_arg_pass m, m_arg_in := m_arg_in m\<rparr>) s
      else if k = MSG_ALIYUN_TIME_SYNCHRONIZED then
        with_info (\<lambda>x. x\<lparr>init_status := misc_set_bit (init_status x) PLAYER_INIT_CONDITION_TIME_SYCHRONIZED\<rparr>) s
      else if k = MSG_ALIYUN_GET_TIME_SYNC_ACK then
        with_info (\<lambda>x. x\<lparr>init_status :=
          (if cat (m_arg_in m) = 1 then misc_set_bit (init_status x) PLAYER_INIT_CONDITION_TIME_SYCHRONIZED
           else misc_clear_bit (init_status x) PLAYER_INIT_CONDITION_TIME_SYCHRONIZED)\<rparr>) s
      else if k = MSG_DEVICE_SD_FORMAT_START then set_status STATUS_REINIT (keep_task_msg m s)
      else if k = MSG_DEVICE_GET_PARA_ACK then
        (if cat (m_arg_in m) = DEVICE_PARAM_SD_INFO \<and> dog (m_arg_in m) \<noteq> 0
         then with_info (\<lambda>x. x\<lparr>init_status := misc_set_bit (init_status x) PLAYER_INIT_CONDITION_DEVICE_SD\<rparr>) s
         else s)
      else if k = MSG_PLAYER_REQUEST_SYNC_ACK then player_sync_ack m s
      else s)"

definition player_take_message :: "bool \<Rightarrow> (char list \<Rightarrow> bool) \<Rightarrow> player_server \<Rightarrow> player_server" where
  "player_take_message create_ok present =
     take_message SERVER_PLAYER lock_block player_message_filter (handle_message create_ok present)"

definition player_message_proc :: "bool \<Rightarrow> (char list \<Rightarrow> bool) \<Rightarrow> player_server \<Rightarrow> player_server" where
  "player_message_proc create_ok present =
     message_proc SERVER_PLAYER lock_block player_message_filter (handle_message create_ok present)"

section \<open>The state machine\<close>

definition player_server_init :: "player_server \<Rightarrow> player_server" where
  "player_server_init s =
     (let s = (if misc_get_bit (init_status (info s)) PLAYER_INIT_CONDITION_DEVICE_SD = 0
            then send SERVER_DEVICE (msg_init\<lparr>m_message := MSG_DEVICE_GET_PARA, m_sender := SERVER_PLAYER,
              m_receiver := SERVER_PLAYER, m_arg_in := arg_zero\<lparr>cat := DEVICE_PARAM_SD_INFO\<rparr>\<rparr>) s else s);
          s = (if misc_get_bit (init_status (info s)) PLAYER_INIT_CONDITION_TIME_SYCHRONIZED = 0
            then send SERVER_ALIYUN (msg_init\<lparr>m_message := MSG_ALIYUN_GET_TIME_SYNC, m_sender := SERVER_PLAYER,
              m_receiver := SERVER_PLAYER\<rparr>) s else s) in
      if misc_full_bit (init_status (info s)) PLAYER_INIT_CONDITION_NUM \<noteq> 0
      then with_info (\<lambda>x. x\<lparr>status := STATUS_WAIT, info_tick := 0\<rparr>) s else s)"

definition player_server_setup :: "player_server \<Rightarrow> player_server" where
  "player_server_setup s = set_status STATUS_IDLE s"

definition player_server_start :: "player_server \<Rightarrow> player_server" where
  "player_server_start s = set_status STATUS_RUN s"

definition player_server_stop :: "player_server \<Rightarrow> player_server" where
  "player_server_stop s = s"

text \<open>What restarting and reinitialising have in common: bit \<open>i\<close> of the exit flag of job \<open>i\<close>.\<close>

definition player_stop_threads :: "player_stage \<Rightarrow> player_server \<Rightarrow> player_server" where
  "player_stop_threads k s =
     (let s = foldl (\<lambda>s i. with_job (\<lambda>j. j\<lparr>pj_exit := misc_set_bit (pj_exit j) i\<rparr>) i s) s [0..<ALIYUN_VISUAL_MAX_CHANNEL] in
      s\<lparr>bus := global_common_send_dummy (bus s) SERVER_PLAYER, p_await := Some k\<rparr>)"

definition player_server_restart :: "player_server \<Rightarrow> player_server" where
  "player_server_restart s = player_stop_threads P_restarted s"

definition player_server_reinit :: "player_server \<Rightarrow> player_server" where
  "player_server_reinit s = player_stop_threads P_reinited s"

definition player_threads_stopped :: "player_stage \<Rightarrow> player_server \<Rightarrow> player_server" where
  "player_threads_stopped k s =
     (let s = s\<lparr>p_await := None\<rparr> in
      case k of
        P_restarted \<Rightarrow> set_status STATUS_WAIT s
      | P_reinited \<Rightarrow> s\<lparr>p_calls := p_calls s @ [P_sd_format_response], info := info_zero ()\<rparr>)"

definition player_server_release_1 :: "player_server \<Rightarrow> player_server" where
  "player_server_release_1 s = s"

definition player_server_release_2 :: "player_server \<Rightarrow> player_server" where
  "player_server_release_2 s =
     s\<lparr>bus := (bus s)(SERVER_PLAYER := msg_buffer_release (bus s SERVER_PLAYER)),
       p_jobs := replicate ALIYUN_VISUAL_MAX_CHANNEL player_job_zero\<rparr>"

definition player_server_release_3 :: "player_server \<Rightarrow> player_server" where
  "player_server_release_3 s =
     send SERVER_MANAGER (msg_init\<lparr>m_message := MSG_MANAGER_EXIT_ACK, m_sender := SERVER_PLAYER\<rparr>)
       (s\<lparr>info := info_zero ()\<rparr>)"

definition task_proc :: "player_server \<Rightarrow> player_server" where
  "task_proc s =
     (if status (info s) = STATUS_NONE then set_status STATUS_INIT s
      else if status (info s) = STATUS_WAIT then set_status STATUS_SETUP s
      else if status (info s) = STATUS_IDLE then set_status STATUS_START s
      else s)"

definition state_machine :: "player_server \<Rightarrow> player_server" where
  "state_machine s =
     (let st = status (info s) in
      if st = STATUS_INIT then player_server_init s
      else if st = STATUS_SETUP then player_server_setup s
      else if st = STATUS_START then player_server_start s
      else if st = STATUS_STOP then player_server_stop s
      else if st = STATUS_RESTART then player_server_restart s
      else if st = STATUS_REINIT then player_server_reinit s
      else if st = STATUS_ERROR then with_info (\<lambda>x. x\<lparr>status := EXIT_INIT, msg_lock := 0\<rparr>) s
      else if st = EXIT_INIT then with_info exit_init s
      else if st = EXIT_SERVER then (if quit_status (info s) = 0 then set_status EXIT_STAGE1 s else s)
      else if st = EXIT_STAGE1 then set_status EXIT_THREAD (player_server_release_1 s)
      else if st = EXIT_THREAD then
        (let s = with_info (\<lambda>x. x\<lparr>thread_exit := thread_start x\<rparr>) s in
         if thread_start (info s) = 0 then set_status EXIT_STAGE2 s else s)
      else if st = EXIT_STAGE2 then set_status EXIT_FINISH (player_server_release_2 s)
      else if st = EXIT_FINISH then with_info (\<lambda>x. x\<lparr>exit_flag := 1, status := STATUS_NONE\<rparr>) s
      else s)"

section \<open>The loop\<close>

definition player_server_begin :: "int \<Rightarrow> int \<Rightarrow> player_server \<Rightarrow> player_server" where
  "player_server_begin msg_overrun msg_buffer_size_small s =
     (let s = s\<lparr>bus := (bus s)(SERVER_PLAYER := msg_buffer_init True (bus s SERVER_PLAYER) msg_overrun msg_buffer_size_small)\<rparr> in
      with_info (\<lambda>x. x\<lparr>quit_status := PLAYER_EXIT_CONDITION, init := 1\<rparr>) s)"

definition player_server_turn :: "bool \<Rightarrow> (char list \<Rightarrow> bool) \<Rightarrow> player_server \<Rightarrow> player_server" where
  "player_server_turn create_ok present =
     loop_turn state_machine (\<lambda>s. p_await s \<noteq> None) task_proc (player_message_proc create_ok present)"

definition player_server_resume :: "bool \<Rightarrow> (char list \<Rightarrow> bool) \<Rightarrow> player_server \<Rightarrow> player_server" where
  "player_server_resume create_ok present s =
     (case p_await s of
        Some k \<Rightarrow> if thread_start (info s) = 0
                  then player_message_proc create_ok present (task_proc (player_threads_stopped k s)) else s
      | None \<Rightarrow> s)"

definition player_server_round :: "bool \<Rightarrow> (char list \<Rightarrow> bool) \<Rightarrow> player_server \<Rightarrow> player_server" where
  "player_server_round create_ok present s =
     (if p_await s \<noteq> None then player_server_resume create_ok present s
      else loop_round SERVER_PLAYER (player_server_turn create_ok present) (player_take_message create_ok present) s)"

section \<open>The server leaves its loop\<close>

lemma player_lock_open: "msg_lock (info s) = 0 \<Longrightarrow> lock_block s = (False, s)"
  by (simp add: lock_block_def)

lemma player_thread_ends_frame:
  "info (player_thread_ends i s) = (info s)\<lparr>thread_start := misc_clear_bit (thread_start (info s)) i\<rparr>"
  "bus (player_thread_ends i s) SERVER_PLAYER = global_common_send_dummy (bus s) SERVER_PLAYER SERVER_PLAYER"
  "waiting (player_thread_ends i s) = waiting s" "p_await (player_thread_ends i s) = p_await s"
  by (simp_all add: player_thread_ends_def Let_def)

interpretation player_threads: thread_pool SERVER_PLAYER player_thread_ends "\<lambda>i n. n"
  by unfold_locales (simp_all add: is_server_def player_thread_ends_frame)

definition player_settle :: "player_server \<Rightarrow> player_server" where
  "player_settle = settle_threads player_thread_ends [0..<ALIYUN_VISUAL_MAX_CHANNEL]"

lemma player_settle_await [simp]: "p_await (player_settle s) = p_await s"
  unfolding player_settle_def by (rule player_threads.settle_invariant) (rule player_thread_ends_frame)

lemma player_bits: "bit (15 :: int) k = (k \<in> set [0..<ALIYUN_VISUAL_MAX_CHANNEL])"
proof -
  have "(15 :: int) = mask 4" by (simp add: mask_eq_exp_minus_1)
  then show ?thesis by (simp only: bit_mask_iff) auto
qed

lemmas player_machine_defs = state_machine_def ladder_def exit_init_def player_server_release_1_def player_server_release_2_def

interpretation player_exit: exit_ladder SERVER_PLAYER 15 state_machine "\<lambda>s. p_await s \<noteq> None"
    task_proc lock_block player_message_filter "handle_message create_ok present" player_settle "\<lambda>s. p_await s = None"
  for create_ok present
proof unfold_locales
  fix s :: player_server and m
  show "status (info s) \<in> exit_states \<Longrightarrow> climbs (info s) (info (state_machine s))"
    by (rule ladder_keeps) (auto simp: player_machine_defs Let_def)
  show "status (info s) \<in> exit_states \<Longrightarrow> bus (state_machine s) SERVER_PLAYER =
      (if status (info s) = EXIT_STAGE2 then msg_buffer_release (bus s SERVER_PLAYER) else bus s SERVER_PLAYER)"
    by (auto simp: player_machine_defs Let_def)
  show "p_await s = None \<Longrightarrow> status (info s) \<in> exit_states \<Longrightarrow>
      waiting (state_machine s) = waiting s \<and> \<not> p_await (state_machine s) \<noteq> None \<and> p_await (state_machine s) = None"
    by (auto simp: player_machine_defs Let_def)
  show "status (info s) \<in> exit_states \<Longrightarrow> task_proc s = s" by (auto simp: task_proc_def)
  show "\<exists>v. task_proc s = set_status v s"
    by (auto simp: task_proc_def intro: exI [of _ "status (info s)"])
  show "m_message m = MSG_MANAGER_DUMMY \<Longrightarrow> handle_message create_ok present m s = s" by (simp add: handle_message_def)
  show "thread_start (info s) AND 15 = thread_start (info s) \<Longrightarrow> \<exists>e. info (player_settle s) = (info s)\<lparr>
      thread_start := thread_start (info s) AND NOT (thread_exit (info s)), thread_exit := e\<rparr>"
    unfolding player_settle_def by (rule player_threads.settle_info [OF _ player_bits])
  show "p_await s = None \<Longrightarrow> waiting (player_settle s) = waiting s \<and> p_await (player_settle s) = None"
    using player_settle_await [of s] by (simp add: player_settle_def player_threads.settle_rest)
  show "thread_start (info s) AND 15 = thread_start (info s) \<Longrightarrow> quiet (bus s SERVER_PLAYER) \<Longrightarrow>
      b_init (bus s SERVER_PLAYER) \<noteq> 0 \<Longrightarrow>
      quiet (bus (player_settle s) SERVER_PLAYER) \<and> b_init (bus (player_settle s) SERVER_PLAYER) \<noteq> 0
      \<and> (thread_start (info s) AND thread_exit (info s) \<noteq> 0 \<longrightarrow> contents (bus (player_settle s) SERVER_PLAYER) \<noteq> [])"
    unfolding player_settle_def by (rule player_threads.settle_queue [OF _ player_bits])
  show "thread_start (info s) = 0 \<Longrightarrow> bus (player_settle s) SERVER_PLAYER = bus s SERVER_PLAYER"
    by (simp add: player_settle_def player_threads.settle_none)
qed (simp_all add: player_lock_open)

definition player_exit_step :: "bool \<Rightarrow> (char list \<Rightarrow> bool) \<Rightarrow> player_server \<Rightarrow> player_server" where
  "player_exit_step create_ok present s =
     loop_round SERVER_PLAYER (player_server_turn create_ok present) (player_take_message create_ok present) (player_settle s)"

text \<open>
  A player server that was told to exit, whose queue holds nothing but dummies and whose
  playing threads end by their exit bit, leaves its loop within nine rounds.  A thread that
  finishes its files at that moment breaks this: \<open>finish_cancels_exit\<close>.
\<close>

theorem player_exit_completes:
  assumes "leaving SERVER_PLAYER 15 (\<lambda>s. p_await s = None) s"
  shows "\<exists>n \<le> 9. exit_flag (info ((player_exit_step create_ok present ^^ n) s)) \<noteq> 0"
proof -
  have "player_exit_step create_ok present = (\<lambda>s. loop_round SERVER_PLAYER
      (loop_turn state_machine (\<lambda>s. p_await s \<noteq> None) task_proc
        (message_proc SERVER_PLAYER lock_block player_message_filter (handle_message create_ok present)))
      (take_message SERVER_PLAYER lock_block player_message_filter (handle_message create_ok present)) (player_settle s))"
    by (rule ext) (simp add: player_exit_step_def player_server_turn_def player_message_proc_def player_take_message_def)
  then show ?thesis using player_exit.leaves_loop [OF assms] by simp
qed

section \<open>A finished playback cancels the exit\<close>

text \<open>A server that starts anew: one turn of it, with nothing but dummies to take.\<close>

definition restarting :: "player_server \<Rightarrow> bool" where
  "restarting s = (msg_lock (info s) = 0 \<and> quiet (bus s SERVER_PLAYER) \<and> p_await s = None \<and> exit_flag (info s) = 0
     \<and> init_status (info s) = 3)"

lemma both_conditions: "misc_full_bit 3 2 = 1" "bit (3 :: int) 0" "bit (3 :: int) 1"
  by (simp_all add: misc_full_bit_def)

lemma restarting_turn:
  assumes "restarting s" "status (info s) \<in> {STATUS_INIT, STATUS_SETUP, STATUS_START}"
  shows "restarting (player_server_turn create_ok present s)
    \<and> status (info (player_server_turn create_ok present s)) =
      (if status (info s) = STATUS_INIT then STATUS_SETUP else if status (info s) = STATUS_SETUP then STATUS_START else STATUS_RUN)"
proof -
  note r = assms(1) [unfolded restarting_def]
  let ?s = "with_info (\<lambda>x. x\<lparr>old_status := status x\<rparr>) s"
  let ?t = "task_proc (state_machine ?s)"
  have t: "status (info ?t) = (if status (info s) = STATUS_INIT then STATUS_SETUP else if status (info s) = STATUS_SETUP then STATUS_START else STATUS_RUN)"
    "old_status (info ?t) = status (info s)" "msg_lock (info ?t) = 0" "quiet (bus ?t SERVER_PLAYER)" "p_await ?t = None"
    "p_await (state_machine ?s) = None" "exit_flag (info ?t) = 0" "init_status (info ?t) = init_status (info s)"
    using assms(2) by (elim insertE emptyE; use r in \<open>simp add: state_machine_def player_server_init_def both_conditions
        player_server_setup_def player_server_start_def task_proc_def Let_def\<close>)+
  have turn: "player_server_turn create_ok present s = player_message_proc create_ok present ?t"
    using t(6) by (simp add: player_server_turn_def loop_turn_def)
  have "status (info ?t) \<noteq> old_status (info ?t)" using t(1,2) assms(2) by auto
  from player_exit.proc_moved [OF this t(3,4), of create_ok present] t r turn show ?thesis
    by (simp add: player_message_proc_def restarting_def)
qed

text \<open>
  A thread that finishes its files (or fails) while the server is on its way out writes its
  own first state into the status of the server: the exit is forgotten, and three turns later
  the server runs as before, with the thread bits it had and without an acknowledgement.
\<close>

theorem finish_cancels_exit:
  assumes "th_status t = PLAYER_THREAD_FINISH \<or> th_status t = PLAYER_THREAD_ERROR"
    and "status (info s) \<in> {EXIT_INIT, EXIT_SERVER, EXIT_STAGE1, EXIT_THREAD}" "restarting s"
    and "pj_exit (p_jobs s ! i) = 0" "\<not> pj_restart (p_jobs s ! i)" "\<not> bit (thread_exit (info s)) i"
  shows "\<exists>t' s'. player_func_turn fuel env mc garbage i (t, s) = Done (t', s')
    \<and> status (info ((player_server_turn create_ok present ^^ 3) s')) = STATUS_RUN
    \<and> exit_flag (info ((player_server_turn create_ok present ^^ 3) s')) = 0"
proof -
  note r = assms(3) [unfolded restarting_def]
  let ?s = "with_job (\<lambda>j. j\<lparr>pj_exit := 1\<rparr>) i (set_status PLAYER_THREAD_INITED s)"
  have turn: "\<exists>t'. player_func_turn fuel env mc garbage i (t, s) = Done (t', ?s)"
    using assms r by (auto simp: player_func_turn_def player_restart_def player_func_switch_def)
  let ?f = "player_server_turn create_ok present"
  have "restarting ?s" "status (info ?s) = STATUS_INIT" using r by (simp_all add: restarting_def)
  then have 1: "restarting (?f ?s)" "status (info (?f ?s)) = STATUS_SETUP" using restarting_turn [of ?s create_ok present] by auto
  then have 2: "restarting (?f (?f ?s))" "status (info (?f (?f ?s))) = STATUS_START" using restarting_turn [of "?f ?s" create_ok present] by auto
  then have 3: "restarting (?f (?f (?f ?s)))" "status (info (?f (?f (?f ?s)))) = STATUS_RUN"
    using restarting_turn [of "?f (?f ?s)" create_ok present] by auto
  have "(?f ^^ 3) ?s = ?f (?f (?f ?s))" by (simp add: eval_nat_numeral)
  then show ?thesis using turn 3 by (auto simp: restarting_def)
qed

section \<open>The job table\<close>

lemma find_job_channel_Some:
  "find_job_channel js c n = Some i \<Longrightarrow> \<exists>k < length js. i = n + k \<and> pj_status (js ! k) > PLAYER_THREAD_NONE \<and> pi_channel (pj_init (js ! k)) = c"
proof (induction js c n rule: find_job_channel.induct)
  case (2 j js c n)
  then show ?case by (auto split: if_splits)
qed simp

lemma find_job_channel_None:
  "find_job_channel js c n = None \<Longrightarrow> k < length js \<Longrightarrow> pj_status (js ! k) > PLAYER_THREAD_NONE \<Longrightarrow> pi_channel (pj_init (js ! k)) \<noteq> c"
  by (induction js c n arbitrary: k rule: find_job_channel.induct) (auto simp: nth_Cons split: if_splits nat.splits)

lemma free_job_Some: "free_job js n = Some i \<Longrightarrow> \<exists>k < length js. i = n + k \<and> pj_status (js ! k) = PLAYER_THREAD_NONE"
proof (induction js n rule: free_job.induct)
  case (2 j js n)
  then show ?case by (cases "pj_status j = 0") force+
qed simp

definition active :: "player_job_t \<Rightarrow> bool" where
  "active j = (pj_status j > PLAYER_THREAD_NONE)"

definition jobs_ok :: "player_job_t list \<Rightarrow> bool" where
  "jobs_ok js = (length js = ALIYUN_VISUAL_MAX_CHANNEL \<and>
     (\<forall>i < length js. pj_status (js ! i) = PLAYER_THREAD_NONE \<or> pj_status (js ! i) = PLAYER_THREAD_INITED \<and> pi_tid (pj_init (js ! i)) = i) \<and>
     (\<forall>i < length js. \<forall>k < length js. i \<noteq> k \<longrightarrow> active (js ! i) \<longrightarrow> active (js ! k) \<longrightarrow>
        pi_channel (pj_init (js ! i)) \<noteq> pi_channel (pj_init (js ! k))))"

definition bits_ok :: "int \<Rightarrow> bool" where
  "bits_ok n = (\<forall>k. bit n k \<longrightarrow> k < ALIYUN_VISUAL_MAX_CHANNEL)"

definition table_ok :: "player_server \<Rightarrow> bool" where
  "table_ok s = (jobs_ok (p_jobs s) \<and> bits_ok (thread_start (info s)))"

text \<open>A job may be replaced by an inactive one, or by one on a channel nobody else plays.\<close>

lemma player_jobs_ok_update:
  assumes "jobs_ok js"
    and "pj_status j = PLAYER_THREAD_NONE \<or> pj_status j = PLAYER_THREAD_INITED \<and> pi_tid (pj_init j) = i
      \<and> (\<forall>k < length js. k \<noteq> i \<longrightarrow> active (js ! k) \<longrightarrow> pi_channel (pj_init (js ! k)) \<noteq> pi_channel (pj_init j))"
  shows "jobs_ok (js[i := j])"
proof -
  have "pj_status (js[i := j] ! k) = PLAYER_THREAD_NONE \<or> pj_status (js[i := j] ! k) = PLAYER_THREAD_INITED \<and> pi_tid (pj_init (js[i := j] ! k)) = k"
    if "k < length js" for k
    using assms that by (cases "k = i") (auto simp: jobs_ok_def)
  moreover have "pi_channel (pj_init (js[i := j] ! k)) \<noteq> pi_channel (pj_init (js[i := j] ! l))"
    if "k < length js" "l < length js" "k \<noteq> l" "active (js[i := j] ! k)" "active (js[i := j] ! l)" for k l
  proof -
    have old: "pi_channel (pj_init (js ! a)) \<noteq> pi_channel (pj_init (js ! b))"
      if "a < length js" "b < length js" "a \<noteq> b" "active (js ! a)" "active (js ! b)" for a b
      using assms(1) that unfolding jobs_ok_def by blast
    have new: "pi_channel (pj_init (js ! a)) \<noteq> pi_channel (pj_init j)"
      if "a < length js" "a \<noteq> i" "active (js ! a)" "active j" for a
      using assms(2) that by (auto simp: active_def)
    show ?thesis
      using that old [of k l] new [of k] new [of l] by (cases "k = i"; cases "l = i") auto
  qed
  moreover have "length js = ALIYUN_VISUAL_MAX_CHANNEL" using assms(1) by (simp add: jobs_ok_def)
  ultimately show ?thesis unfolding jobs_ok_def by (simp only: length_list_update) blast
qed

text \<open>Or by itself with other flags.\<close>

lemma jobs_ok_flags:
  assumes "jobs_ok js" "pi_channel (pj_init j) = pi_channel (pj_init (js ! i))" "pi_tid (pj_init j) = pi_tid (pj_init (js ! i))"
    and "pj_status j = pj_status (js ! i) \<or> pj_status j = PLAYER_THREAD_INITED \<and> active (js ! i)"
  shows "jobs_ok (js[i := j])"
proof (cases "i < length js")
  case True
  have st: "pj_status (js ! i) = PLAYER_THREAD_NONE \<or> pj_status (js ! i) = PLAYER_THREAD_INITED \<and> pi_tid (pj_init (js ! i)) = i"
    using assms(1) True by (simp add: jobs_ok_def)
  moreover have "pi_channel (pj_init (js ! k)) \<noteq> pi_channel (pj_init j)"
    if "k < length js" "k \<noteq> i" "active (js ! k)" "pj_status j = PLAYER_THREAD_INITED" for k
    using assms(1,2,4) True that unfolding jobs_ok_def active_def by (metis zero_less_one)
  ultimately show ?thesis using assms by (intro player_jobs_ok_update) (auto simp: active_def)
qed (use assms(1) in \<open>simp add: list_update_beyond\<close>)

lemma jobs_ok_on_channel:
  assumes "table_ok s"
    and "\<And>j. pi_channel (pj_init (f j)) = pi_channel (pj_init j) \<and> pi_tid (pj_init (f j)) = pi_tid (pj_init j)
      \<and> (pj_status (f j) = pj_status j \<or> pj_status (f j) = PLAYER_THREAD_INITED)"
  shows "table_ok (snd (on_channel f m s))"
proof (cases "find_job_channel (p_jobs s) (wolf (m_arg_in m)) 0")
  case (Some i)
  then have "active (p_jobs s ! i)" using find_job_channel_Some [OF Some] by (auto simp: active_def)
  then have "jobs_ok ((p_jobs s)[i := f (p_jobs s ! i)])"
    using assms by (intro jobs_ok_flags) (auto simp: table_ok_def)
  then show ?thesis using assms(1) Some by (simp add: on_channel_def table_ok_def)
qed (use assms(1) in \<open>simp add: on_channel_def\<close>)

lemma table_ok_flags:
  "table_ok s \<Longrightarrow> pj_init j = pj_init (p_jobs s ! i) \<Longrightarrow> pj_status j = pj_status (p_jobs s ! i) \<Longrightarrow>
   table_ok (s\<lparr>p_jobs := (p_jobs s)[i := j]\<rparr>)"
  by (simp add: table_ok_def jobs_ok_flags)

lemma player_table_ok_frame [simp]:
  "table_ok (set_status v s) = table_ok s" "table_ok (s\<lparr>bus := b\<rparr>) = table_ok s" "table_ok (s\<lparr>waiting := w\<rparr>) = table_ok s"
  "table_ok (s\<lparr>p_calls := c\<rparr>) = table_ok s" "table_ok (s\<lparr>p_await := a\<rparr>) = table_ok s" "table_ok (s\<lparr>p_fault := f\<rparr>) = table_ok s"
  "table_ok (s\<lparr>p_index := e\<rparr>) = table_ok s" "table_ok (send r m s) = table_ok s"
  by (simp_all add: table_ok_def send_def)

lemma player_table_ok_info: "table_ok s \<Longrightarrow> bits_ok (thread_start x) \<Longrightarrow> table_ok (s\<lparr>info := x\<rparr>)"
  by (simp add: table_ok_def)

lemma player_table_bits: "table_ok s \<Longrightarrow> bits_ok (thread_start (info s))"
  by (simp add: table_ok_def)

lemma player_job_zero_status [simp]: "pj_status player_job_zero = PLAYER_THREAD_NONE"
  by (simp add: player_job_zero_def)

lemma player_table_add:
  assumes "table_ok s"
  shows "table_ok (snd (player_add_job create_ok present m s))"
proof -
  have same: "table_ok (with_job (update_job ini i) i s)" if "find_job_channel (p_jobs s) (pi_channel ini) 0 = Some i" for ini i
  proof -
    have i': "i < length (p_jobs s)" "active (p_jobs s ! i)" "pi_channel (pj_init (p_jobs s ! i)) = pi_channel ini"
      using find_job_channel_Some [OF that] by (auto simp: active_def)
    moreover have "pi_channel (pj_init (p_jobs s ! k)) \<noteq> pi_channel (pj_init (p_jobs s ! i))"
      if "k < length (p_jobs s)" "k \<noteq> i" "active (p_jobs s ! k)" for k
      using assms i' that unfolding table_ok_def jobs_ok_def by blast
    ultimately have "jobs_ok ((p_jobs s)[i := update_job ini i (p_jobs s ! i)])"
      using assms by (intro player_jobs_ok_update) (auto simp: table_ok_def update_job_def)
    then show ?thesis using assms by (simp add: table_ok_def)
  qed
  have new: "table_ok (with_job (\<lambda>_. new_job ini i) i s)" if "find_job_channel (p_jobs s) (pi_channel ini) 0 = None" for ini i
  proof -
    have "jobs_ok ((p_jobs s)[i := new_job ini i])"
      using assms find_job_channel_None [OF that]
      by (intro player_jobs_ok_update) (auto simp: table_ok_def new_job_def active_def)
    then show ?thesis using assms by (simp add: table_ok_def)
  qed
  have failed: "table_ok (with_job (\<lambda>_. player_job_zero\<lparr>pj_init := ini\<rparr>) i s)" for ini i
    using assms by (simp add: table_ok_def player_jobs_ok_update)
  show ?thesis
    using assms same new failed by (auto simp: player_add_job_def split: option.split payload.split bool.split)
qed

lemma table_channel_ops:
  assumes "table_ok s"
  shows "table_ok (snd (player_start_job m s))" "table_ok (snd (player_stop_job m s))" "table_ok (snd (player_pause_job m s))"
    "table_ok (snd (player_unpause_job m s))" "table_ok (snd (player_start_audio m s))" "table_ok (snd (player_stop_audio m s))"
    "table_ok (snd (player_seek_job m s))" "table_ok (snd (player_set_param_job m s))"
  unfolding player_start_job_def player_stop_job_def player_pause_job_def player_unpause_job_def player_start_audio_def
    player_stop_audio_def player_seek_job_def player_set_param_job_def
  by (intro jobs_ok_on_channel [OF assms]; simp)+

lemma table_sync_ack: "table_ok s \<Longrightarrow> table_ok (player_sync_ack m s)"
  by (auto simp: player_sync_ack_def Let_def intro!: table_ok_flags)

lemma table_add_kept: "table_ok s \<Longrightarrow> table_ok (snd (player_add_job create_ok present m (with_info (\<lambda>x. x\<lparr>task := t\<rparr>) s)))"
  by (rule player_table_add) (simp add: table_ok_def)

lemma player_table_handle: "table_ok s \<Longrightarrow> table_ok (handle_message create_ok present m s)"
  using table_add_kept [of s create_ok present m]
    table_channel_ops [of s m] table_sync_ack [of s m] player_table_bits [of s]
  by (auto simp: handle_message_def on_manager_exit_def on_exit_ack_def keep_task_msg_def Let_def intro!: player_table_ok_info)

lemma player_table_take: "table_ok s \<Longrightarrow> table_ok (player_take_message create_ok present s)"
  by (auto simp: player_take_message_def take_message_def lock_block_def Let_def intro!: player_table_handle split: prod.splits bool.splits)

lemma player_table_proc: "table_ok s \<Longrightarrow> table_ok (player_message_proc create_ok present s)"
  using player_table_take [of s create_ok present] by (simp add: player_message_proc_def message_proc_def player_take_message_def)

lemma player_table_task: "table_ok s \<Longrightarrow> table_ok (task_proc s)"
  by (simp add: task_proc_def)

lemma table_exit_bits:
  "table_ok s \<Longrightarrow> table_ok (foldl (\<lambda>s i. with_job (\<lambda>j. j\<lparr>pj_exit := misc_set_bit (pj_exit j) i\<rparr>) i s) s is)"
  by (induction "is" arbitrary: s) (simp_all add: table_ok_flags)

lemma player_table_stop: "table_ok s \<Longrightarrow> table_ok (player_stop_threads k s)"
  using table_exit_bits [of s "[0..<ALIYUN_VISUAL_MAX_CHANNEL]"] by (simp add: player_stop_threads_def Let_def)

lemma player_table_stopped: "table_ok s \<Longrightarrow> table_ok (player_threads_stopped k s)"
  by (cases k) (auto simp: player_threads_stopped_def Let_def info_zero_def bits_ok_def intro!: player_table_ok_info dest: player_table_bits)

lemma player_table_init: "table_ok s \<Longrightarrow> table_ok (player_server_init s)"
  by (auto simp: player_server_init_def Let_def intro!: player_table_ok_info player_table_bits)

lemma player_table_release: "table_ok s \<Longrightarrow> table_ok (player_server_release_2 s)"
  by (simp add: player_server_release_2_def table_ok_def jobs_ok_def active_def)

lemma player_table_machine:
  assumes "table_ok s"
  shows "table_ok (state_machine s)"
proof -
  note branches = player_table_init [OF assms] player_table_stop [OF assms] player_table_release [OF assms]
  have info: "table_ok t \<Longrightarrow> thread_start x = thread_start (info t) \<Longrightarrow> table_ok (t\<lparr>info := x\<rparr>)" for t x
    by (simp add: table_ok_def)
  show ?thesis
    using assms branches info
    by (simp add: state_machine_def Let_def player_server_setup_def player_server_start_def player_server_stop_def
        player_server_restart_def player_server_reinit_def player_server_release_1_def exit_init_def)
qed

lemma player_table_turn: "table_ok s \<Longrightarrow> table_ok (player_server_turn create_ok present s)"
  by (auto simp: player_server_turn_def loop_turn_def Let_def player_table_bits intro!: player_table_proc player_table_task player_table_machine player_table_ok_info)

lemma player_table_round: "table_ok s \<Longrightarrow> table_ok (player_server_round create_ok present s)"
  by (auto simp: player_server_round_def player_server_resume_def loop_round_def
      intro!: player_table_turn player_table_take player_table_proc player_table_task player_table_stopped split: option.splits)

text \<open>The threads: whatever their locals are.\<close>

lemma table_restart: "player_restart i (t, s) = (t', s') \<Longrightarrow> table_ok s \<Longrightarrow> table_ok s'"
  by (auto simp: player_restart_def Let_def table_ok_flags split: if_splits)

lemma table_switch:
  assumes "player_func_switch fuel env mc garbage play speed pause i (t, s) = Done (t', s')" "table_ok s"
  shows "table_ok s'"
proof -
  consider "th_status t = PLAYER_THREAD_INITED" | "th_status t = PLAYER_THREAD_RUN"
    | "th_status t \<noteq> PLAYER_THREAD_INITED" "th_status t \<noteq> PLAYER_THREAD_RUN" by blast
  then show ?thesis
  proof cases
    case 1
    then show ?thesis using assms by (auto simp: player_func_switch_def Let_def split: option.splits if_splits)
  next
    case 2
    then show ?thesis using assms by (auto simp: player_func_switch_def Let_def split: run.splits if_splits)
  next
    case 3
    then show ?thesis using assms table_ok_flags [OF assms(2)] table_ok_flags [of "set_status PLAYER_THREAD_INITED s"]
      by (auto simp: player_func_switch_def Let_def split: if_splits)
  qed
qed

lemma table_thread_turn:
  assumes "player_func_turn fuel env mc garbage i (t, s) = Done (t', s')" "table_ok s"
  shows "table_ok s'"
proof -
  obtain u v where uv: "player_restart i (t, s) = (u, v)" by (cases "player_restart i (t, s)")
  then show ?thesis
    using assms table_restart [OF uv] table_switch [of fuel env mc garbage _ _ _ i u v t' s']
    by (auto simp: player_func_turn_def Let_def split: if_splits)
qed

lemma table_begin: "table_ok s \<Longrightarrow> i < ALIYUN_VISUAL_MAX_CHANNEL \<Longrightarrow> table_ok (snd (player_func_begin i s))"
  by (auto simp: player_func_begin_def bits_ok_def dest: player_table_bits intro!: player_table_ok_info)

lemma player_table_ends: "table_ok s \<Longrightarrow> table_ok (player_thread_ends i s)"
  by (auto simp: player_thread_ends_def Let_def table_ok_def bits_ok_def intro!: player_jobs_ok_update)

text \<open>
  The server together with its threads and everybody who sends it messages.  A thread takes a
  turn with any locals.
\<close>

inductive player_reach :: "player_server \<Rightarrow> bool" where
  start: "p_jobs s = replicate ALIYUN_VISUAL_MAX_CHANNEL player_job_zero \<Longrightarrow> info s = info_zero () \<Longrightarrow>
     player_reach (player_server_begin overrun sz s)"
| round: "player_reach s \<Longrightarrow> player_reach (player_server_round create_ok present s)"
| thread_begin: "player_reach s \<Longrightarrow> i < ALIYUN_VISUAL_MAX_CHANNEL \<Longrightarrow> player_reach (snd (player_func_begin i s))"
| thread_turn: "player_reach s \<Longrightarrow> player_func_turn fuel env mc garbage i (t, s) = Done (t', s') \<Longrightarrow> player_reach s'"
| thread_end: "player_reach s \<Longrightarrow> player_reach (snd (player_func_end i (t, s)))"
| message: "player_reach s \<Longrightarrow> player_reach (send receiver m s)"

inductive_cases player_reachE: "player_reach s"

text \<open>
  C13: In every reachable state the job table has its four entries, an active job is in its
  first state and knows its position, no two active jobs play on the same channel, and
  only the bits of the four threads are set.
\<close>

theorem player_table_invariant:
  "player_reach s \<Longrightarrow> jobs_ok (p_jobs s) \<and> bits_ok (thread_start (info s))"
proof -
  have "player_reach s \<Longrightarrow> table_ok s"
  proof (induction rule: player_reach.induct)
    case (start s overrun sz)
    then show ?case
      by (simp add: player_server_begin_def Let_def table_ok_def jobs_ok_def active_def bits_ok_def info_zero_def nth_Cons')
  next
    case (thread_end s i t)
    then show ?case by (simp add: player_func_end_def Let_def player_table_ends)
  qed (simp_all add: player_table_round table_begin table_thread_turn)
  then show "player_reach s \<Longrightarrow> jobs_ok (p_jobs s) \<and> bits_ok (thread_start (info s))" by (simp add: table_ok_def)
qed

section \<open>A request that is lost\<close>

text \<open>
  A thread that has left its loop still owns its job.  A request for its channel that
  arrives before the thread cleared the job is answered with success and lost: the thread
  clears the job, and no thread is left to play it.
\<close>

theorem request_lost_while_ending:
  assumes "status (info s) = STATUS_RUN" "m_arg m = Some (P_player_init ini)" "playable present (p_index s) ini = Some True"
    and "find_job_channel (p_jobs s) (pi_channel ini) 0 = Some i"
  shows "case player_add_job create_ok present m s of (ret, s') \<Rightarrow> ret = 0 \<and>
    (case player_func_end i (t, s') of (t', s'') \<Rightarrow> p_jobs s'' ! i = player_job_zero
      \<and> \<not> bit (thread_start (info s'')) i \<and> (\<forall>k. k \<noteq> i \<longrightarrow> p_jobs s'' ! k = p_jobs s ! k))"
proof -
  have "i < length (p_jobs s)" using find_job_channel_Some [OF assms(4)] by auto
  then show ?thesis
    using assms by (simp add: player_add_job_def player_func_end_def player_thread_ends_def Let_def)
qed

text \<open>The speed of a new parameter reaches the pauses between frames only, not the frames.\<close>

lemma set_param_keeps_speed:
  "pj_speed (p_jobs (snd (player_set_param_job m s)) ! i) = pj_speed (p_jobs s ! i)"
proof (cases "find_job_channel (p_jobs s) (wolf (m_arg_in m)) 0")
  case (Some k)
  then have "k < length (p_jobs s)" using find_job_channel_Some [OF Some] by auto
  then show ?thesis using Some by (cases "i = k") (simp_all add: player_set_param_job_def on_channel_def)
qed (simp add: player_set_param_job_def on_channel_def)

section \<open>The properties on a concrete server\<close>

definition demo_player_server :: player_server where
  "demo_player_server = \<lparr>info = (info_zero ())\<lparr>init_status := 3\<rparr>, bus = (\<lambda>_. demo_queue 1), waiting = False,
     p_jobs = replicate 4 player_job_zero, p_index = \<lparr>fm_init = True, flist = [], folders = [], lock_balance = 0\<rparr>,
     p_await = None, p_calls = [], p_fault = False\<rparr>"

lemma player_exit_completes_witness:
  "\<exists>n \<le> 9. exit_flag (info ((player_exit_step True (\<lambda>_. True) ^^ n)
     (with_info (\<lambda>x. x\<lparr>status := EXIT_INIT, thread_start := 5\<rparr>) demo_player_server))) \<noteq> 0"
proof (rule player_exit_completes)
  show "leaving SERVER_PLAYER 15 (\<lambda>s. p_await s = None)
      (with_info (\<lambda>x. x\<lparr>status := EXIT_INIT, thread_start := 5\<rparr>) demo_player_server)"
    by (simp add: leaving_def demo_player_server_def info_zero_def quiet_def)
qed

lemma player_table_invariant_witness:
  "jobs_ok (p_jobs (player_server_round True (\<lambda>_. True) (player_server_begin 1 8 (demo_player_server\<lparr>info := info_zero ()\<rparr>))))"
proof -
  have "player_reach (player_server_round True (\<lambda>_. True) (player_server_begin 1 8 (demo_player_server\<lparr>info := info_zero ()\<rparr>)))"
    by (intro player_reach.intros) (simp_all add: demo_player_server_def)
  then show ?thesis using player_table_invariant by blast
qed

definition finished_thread :: player_thread where
  "finished_thread = \<lparr>th_status = PLAYER_THREAD_FINISH, th_init = demo_request, th_fhead = [], th_player = demo_player,
     th_send_finish = False, th_left = False\<rparr>"

lemma finish_cancels_exit_witness:
  "\<exists>t' s'. player_func_turn 3 demo_library demo_media (0, 0) 0 (finished_thread,
       with_info (\<lambda>x. x\<lparr>status := EXIT_THREAD, thread_start := 1\<rparr>) demo_player_server) = Done (t', s')
    \<and> status (info ((player_server_turn True (\<lambda>_. True) ^^ 3) s')) = STATUS_RUN
    \<and> exit_flag (info ((player_server_turn True (\<lambda>_. True) ^^ 3) s')) = 0"
  by (rule finish_cancels_exit)
    (simp_all add: finished_thread_def demo_player_server_def restarting_def quiet_def info_zero_def player_job_zero_def)

lemma request_lost_while_ending_witness:
  "case player_add_job True (\<lambda>_. True) (msg_init\<lparr>m_arg := Some (P_player_init (demo_request\<lparr>pi_filename := ''x'', pi_start := 0\<rparr>))\<rparr>)
      (with_info (\<lambda>x. x\<lparr>status := STATUS_RUN\<rparr>) (demo_player_server\<lparr>p_jobs := [new_job demo_request 0]\<rparr>)) of (ret, s') \<Rightarrow>
    ret = 0 \<and> p_jobs (snd (player_func_end 0 (finished_thread, s'))) ! 0 = player_job_zero"
proof -
  let ?ini = "demo_request\<lparr>pi_filename := ''x'', pi_start := 0\<rparr>"
  let ?s = "with_info (\<lambda>x. x\<lparr>status := STATUS_RUN\<rparr>) (demo_player_server\<lparr>p_jobs := [new_job demo_request 0]\<rparr>)"
  have "playable (\<lambda>_. True) (p_index ?s) ?ini = Some True" by (simp add: playable_def by_name_def)
  moreover have "find_job_channel (p_jobs ?s) (pi_channel ?ini) 0 = Some 0" by (simp add: new_job_def)
  ultimately show ?thesis
    using request_lost_while_ending [where s = ?s and m = "msg_init\<lparr>m_arg := Some (P_player_init ?ini)\<rparr>" and ini = ?ini
        and present = "\<lambda>_. True" and i = 0 and create_ok = True and t = finished_thread]
    by (auto split: prod.splits)
qed

end
