(* ===== verification/SdCard.thy ===== *)
theory SdCard
  imports FileManager Bus
begin

text \<open>
  The memory card of \<open>server/device/gk_sd.c\<close>: the state machine \<open>sd_proc\<close> the device server's
  thread runs, the requests of the cloud client to format or to eject, the answers of the
  recorder and the player, the hotplug events.  The build is the release build.

  The kernel and the shell are outside: \<open>sd_env\<close> is what they answer, and the calls that change
  the card are the list \<open>sd_effects\<close>, oldest first.  A buffer written past its end and a signed
  overflow are noted in \<open>sd_faults\<close>, and the code goes on, as it does on the device.
\<close>

section \<open>State\<close>

datatype sd_status =
    SD_NULL | SD_PLUGIN | SD_FORMAT | SD_FORMATING | SD_FORMAT_SUCCESS | SD_MOUNT
  | SD_UNMOUNT | SD_UNMOUNTING | SD_UNMOUNT_SUCCESS | SD_MOUNT_FAIL

abbreviation (input) "SD_ALIYUN_STATUS_UNPLUG \<equiv> 0 :: int"
abbreviation (input) "SD_ALIYUN_STATUS_FORMATING \<equiv> 3 :: int"
abbreviation (input) "E_SD_ACTION_FORMAT \<equiv> 0 :: int"
abbreviation (input) "DEVICE_SD_CLEAN_SIZE \<equiv> 128 * 1024 :: u32"
abbreviation (input) "SD_MOUNT_NODE \<equiv> ''/dev/mmcblk0''"
abbreviation (input) "SD_MOUNT_NODEP1 \<equiv> ''/dev/mmcblk0p1''"
abbreviation (input) "SD_PLUG_PATH \<equiv> ''/sys/devices/platform/soc/10010000.sdhci/mmc_host/mmc0/mmc0:''"
abbreviation (input) "MMC0_PLUG_KMSG \<equiv> ''mmc0: new high speed SDHC card at address ''"

text \<open>The calls on the card, with what they returned, and what the C code leaves undefined.\<close>

datatype sd_effect =
    Sd_mount "char list" bool
  | Sd_mount_cmd bool
  | Sd_umount bool
  | Sd_mkfs "char list" bool
  | Sd_report
  | Sd_usleep int

datatype sd_fault =
    Plug_path_overflow
  | Address_overflow
  | Check_tag_overflow

text \<open>
  The answers of the system during one call of \<open>sd_proc\<close>: the lines of \<open>dmesg\<close>, the files that
  exist, whether \<open>/proc/mounts\<close> names the card, what the calls return, the media folders.
\<close>

record sd_env =
  dmesg :: "char list list option"
  present :: "char list \<Rightarrow> bool"
  mounted :: bool
  mount_call :: "char list \<Rightarrow> bool"
  mount_cmd_ok :: bool
  umount_ok :: bool
  popen_ok :: bool
  statfs_blocks :: "(u64 \<times> u64 \<times> u64) option"
  clock :: u64
  media_folders :: "folder list"

record sd_state =
  sd_card_status :: sd_status
  sd_card_last_status :: "sd_status option"
  sleep_time :: int
  file_init :: int
  size_check_tag :: int
  format_status :: int
  init_wait :: bool
  sd_address :: "char list"
  sd_files :: file_manager_t
  sd_effects :: "sd_effect list"
  sd_faults :: "sd_fault list"

abbreviation "sd_emit e s \<equiv> s\<lparr>sd_effects := sd_effects s @ [e]\<rparr>"
abbreviation "sd_goto v s \<equiv> s\<lparr>sd_card_status := v\<rparr>"
abbreviation "sd_check f ok s \<equiv> s\<lparr>sd_faults := sd_faults s @ (if ok then [] else [f])\<rparr>"

definition sd_initial :: "file_manager_t \<Rightarrow> sd_state" where
  "sd_initial fm = \<lparr>sd_card_status = SD_NULL, sd_card_last_status = None, sleep_time = 100000, file_init = - 1,
     size_check_tag = 0, format_status = 0, init_wait = False, sd_address = [], sd_files = fm, sd_effects = [],
     sd_faults = []\<rparr>"

section \<open>The card\<close>

text \<open>
  The address of the card in the kernel's messages: the length copied is that of the line
  and not of what follows the message in it, the buffer has 32 characters.
\<close>

definition copy_address :: "char list \<Rightarrow> char list \<Rightarrow> sd_state \<Rightarrow> sd_state" where
  "copy_address line pos s =
     (let num = int (length line) - int (length MMC0_PLUG_KMSG) - 1 in
      sd_check Address_overflow (0 \<le> num \<and> num < 32)
        (s\<lparr>sd_address := take (nat num) (drop (length MMC0_PLUG_KMSG) pos)\<rparr>))"

fun search_dmesg :: "char list list \<Rightarrow> sd_state \<Rightarrow> sd_state" where
  "search_dmesg [] s = s"
| "search_dmesg (line # rest) s =
     (case strstr line MMC0_PLUG_KMSG of
        None \<Rightarrow> search_dmesg rest s
      | Some pos \<Rightarrow> search_dmesg rest (copy_address line pos s))"

text \<open>The path of the card in \<open>sysfs\<close> is printed into a buffer of 64 characters.\<close>

definition sd_plug_path :: "char list \<Rightarrow> char list" where
  "sd_plug_path address = SD_PLUG_PATH @ address @ ''/cid''"

definition access_plug_path :: "sd_env \<Rightarrow> sd_state \<Rightarrow> bool \<times> sd_state" where
  "access_plug_path env s =
     (let path = sd_plug_path (sd_address s) in
      (present env path, sd_check Plug_path_overflow (length path < MAX_SYSTEM_STRING_SIZE) s))"

definition sd_is_plugin :: "sd_env \<Rightarrow> sd_state \<Rightarrow> bool \<times> sd_state" where
  "sd_is_plugin env s =
     (if sd_address s = [] then
        (case dmesg env of None \<Rightarrow> (False, s) | Some msgs \<Rightarrow> access_plug_path env (search_dmesg msgs s))
      else access_plug_path env s)"

definition sd_is_mount :: "sd_env \<Rightarrow> bool" where
  "sd_is_mount env = mounted env"

text \<open>The node of the card, its first partition before the whole of it.\<close>

definition sd_node :: "sd_env \<Rightarrow> char list option" where
  "sd_node env = (if present env SD_MOUNT_NODEP1 then Some SD_MOUNT_NODEP1
     else if present env SD_MOUNT_NODE then Some SD_MOUNT_NODE else None)"

definition sd_mount :: "sd_env \<Rightarrow> sd_state \<Rightarrow> bool \<times> sd_state" where
  "sd_mount env s =
     (case sd_node env of
        None \<Rightarrow> (mount_cmd_ok env, sd_emit (Sd_mount_cmd (mount_cmd_ok env)) s)
      | Some node \<Rightarrow>
          let s = sd_emit (Sd_mount node (mount_call env node)) s in
          if mount_call env node then (True, s)
          else (mount_cmd_ok env, sd_emit (Sd_mount_cmd (mount_cmd_ok env)) s))"

text \<open>Sizes in kilobytes, cut to 32 bits: the total, the free and the used ones.\<close>

definition sd_get_info :: "sd_env \<Rightarrow> sd_state \<Rightarrow> (u32 \<times> u32 \<times> u32) option" where
  "sd_get_info env s =
     (if sd_card_status s \<noteq> SD_MOUNT then None
      else case statfs_blocks env of
        None \<Rightarrow> None
      | Some (blocks, bfree, bsize) \<Rightarrow>
          let whole = ucast (blocks * bsize div 1024); avail = ucast (bfree * bsize div 1024) in
          Some (whole, avail, whole - avail))"

definition sd_get_file_status :: "sd_state \<Rightarrow> int" where
  "sd_get_file_status s = file_init s"

fun sd_status_number :: "sd_status \<Rightarrow> int" where
  "sd_status_number SD_MOUNT = SD_ALIYUN_STATUS_NORMAL"
| "sd_status_number SD_FORMAT = SD_ALIYUN_STATUS_FORMATING"
| "sd_status_number SD_FORMATING = SD_ALIYUN_STATUS_FORMATING"
| "sd_status_number SD_FORMAT_SUCCESS = SD_ALIYUN_STATUS_FORMATING"
| "sd_status_number _ = SD_ALIYUN_STATUS_UNPLUG"

definition sd_get_status :: "sd_state \<Rightarrow> int" where
  "sd_get_status s = sd_status_number (sd_card_status s)"

section \<open>Requests, answers and events\<close>

definition format_start :: msg where
  "format_start = msg_init\<lparr>m_message := MSG_DEVICE_SD_FORMAT_START, m_sender := SERVER_ALIYUN, m_receiver := SERVER_ALIYUN\<rparr>"

definition tell_servers :: "bus \<Rightarrow> bus" where
  "tell_servers b =
     (let b = snd (global_common_send_message b SERVER_RECORDER format_start) in
      snd (global_common_send_message b SERVER_PLAYER format_start))"

definition sd_format :: "sd_state \<Rightarrow> bus \<Rightarrow> int \<times> sd_state \<times> bus" where
  "sd_format s b = (if sd_card_status s = SD_NULL then (- 1, s, b) else (0, sd_goto SD_FORMAT s, tell_servers b))"

definition sd_unmount :: "sd_state \<Rightarrow> bus \<Rightarrow> int \<times> sd_state \<times> bus" where
  "sd_unmount s b = (if sd_card_status s \<noteq> SD_MOUNT then (- 1, s, b) else (0, sd_goto SD_UNMOUNT s, tell_servers b))"

definition sd_set_response :: "int \<Rightarrow> int \<Rightarrow> sd_state \<Rightarrow> sd_state" where
  "sd_set_response action server s =
     (if sd_card_status s \<in> {SD_FORMAT, SD_UNMOUNT} \<and> action = E_SD_ACTION_FORMAT
      then s\<lparr>format_status := misc_set_bit (format_status s) (nat server)\<rparr> else s)"

text \<open>An address longer than its buffer of 32 characters is a fault.\<close>

definition update_hotplug_event :: "bool \<Rightarrow> char list \<Rightarrow> sd_state \<Rightarrow> sd_state" where
  "update_hotplug_event type addr s =
     (if type then sd_check Address_overflow (length addr < 32) (s\<lparr>init_wait := False, sd_address := addr\<rparr>)
      else s\<lparr>sd_address := [], init_wait := True\<rparr>)"

section \<open>The state machine\<close>

definition both_answered :: "sd_state \<Rightarrow> bool" where
  "both_answered s =
     (misc_get_bit (format_status s) (nat SERVER_RECORDER) \<noteq> 0 \<and> misc_get_bit (format_status s) (nat SERVER_PLAYER) \<noteq> 0)"

definition drop_index :: "sd_state \<Rightarrow> sd_state" where
  "drop_index s = s\<lparr>sd_files := snd (file_manager_set_reinit (sd_files s)), format_status := 0\<rparr>"

definition sd_switch :: "sd_env \<Rightarrow> sd_state \<Rightarrow> sd_state" where
  "sd_switch env s =
     (case sd_card_status s of
        SD_NULL \<Rightarrow>
          (if init_wait s then s
           else case sd_is_plugin env s of (there, s) \<Rightarrow>
             if there then sd_goto SD_PLUGIN s else s\<lparr>init_wait := True\<rparr>)
      | SD_PLUGIN \<Rightarrow>
          (if sd_is_mount env then (sd_goto SD_MOUNT s)\<lparr>sleep_time := 200000\<rparr>
           else case sd_mount env s of (ok, s) \<Rightarrow> if ok then (sd_goto SD_MOUNT s)\<lparr>sleep_time := 200000\<rparr> else s)
      | SD_FORMAT \<Rightarrow> if both_answered s then sd_goto SD_FORMATING s else s
      | SD_FORMATING \<Rightarrow>
          (let s = drop_index s; was = sd_is_mount env;
               s = (if was then sd_emit (Sd_umount (umount_ok env)) s else s) in
           if was \<and> \<not> umount_ok env then s
           else
             let s = sd_emit (Sd_usleep 20000) s;
                 s = (case sd_node env of
                        None \<Rightarrow> sd_goto SD_NULL s
                      | Some node \<Rightarrow>
                          let s = sd_emit (Sd_mkfs node (popen_ok env)) s in
                          if popen_ok env then sd_goto SD_FORMAT_SUCCESS s else s) in
             sd_emit (Sd_usleep 20000) s)
      | SD_FORMAT_SUCCESS \<Rightarrow>
          (if sd_is_mount env then sd_goto SD_MOUNT s
           else case sd_mount env s of (ok, s) \<Rightarrow> if ok then (sd_goto SD_MOUNT s)\<lparr>sleep_time := 200000\<rparr> else s)
      | SD_UNMOUNT \<Rightarrow> if both_answered s then sd_goto SD_UNMOUNTING s else s
      | SD_UNMOUNTING \<Rightarrow>
          (let s = drop_index s in
           if sd_is_mount env then
             let s = sd_emit (Sd_umount (umount_ok env)) s in
             if umount_ok env then sd_goto SD_UNMOUNT_SUCCESS s else s
           else sd_goto SD_UNMOUNT_SUCCESS s)
      | SD_UNMOUNT_SUCCESS \<Rightarrow> (sd_goto SD_NULL s)\<lparr>init_wait := True\<rparr>
      | SD_MOUNT \<Rightarrow> s
      | SD_MOUNT_FAIL \<Rightarrow> s)"

text \<open>A status that is new is reported; a card that has just been mounted is scanned first.\<close>

definition sd_changed :: "media_config \<Rightarrow> sd_state \<Rightarrow> sd_state run" where
  "sd_changed mc s =
     (if sd_card_last_status s = Some (sd_card_status s) then Done s
      else
        let s = s\<lparr>sd_card_last_status := Some (sd_card_status s)\<rparr> in
        if sd_card_status s = SD_MOUNT then
          case file_manager_read_file_list mc (sd_files s) of
            None \<Rightarrow> Undefined
          | Some (ret, fm) \<Rightarrow> Done (sd_emit Sd_report (s\<lparr>sd_files := fm, file_init := (if ret \<noteq> 0 then 0 else 1)\<rparr>))
        else Done (sd_emit Sd_report s))"

text \<open>
  Every twenty seconds a card that is nearly full is cleaned.  The time is counted in a
  signed 32-bit integer, card or no card.
\<close>

definition count_time :: "sd_state \<Rightarrow> sd_state" where
  "count_time s =
     (let tag = size_check_tag s + sleep_time s div 1000 in
      sd_check Check_tag_overflow (tag < 2 ^ 31) (s\<lparr>size_check_tag := signed_take_bit 31 tag\<rparr>))"

definition sd_check_size :: "nat \<Rightarrow> sd_env \<Rightarrow> media_config \<Rightarrow> sd_state \<Rightarrow> sd_state run" where
  "sd_check_size fuel env mc s =
     (if sd_card_status s = SD_MOUNT \<and> size_check_tag s > 20000 then
        let finish = (\<lambda>s. Done (sd_emit Sd_report (s\<lparr>size_check_tag := 0\<rparr>))) in
        case sd_get_info env s of
          None \<Rightarrow> finish s
        | Some (whole, avail, used) \<Rightarrow>
            if avail < DEVICE_SD_CLEAN_SIZE then
              case file_manager_clean_disk fuel mc (clock env) (sd_files s) of
                Undefined \<Rightarrow> Undefined
              | Out_of_fuel \<Rightarrow> Out_of_fuel
              | Done (ret, fm) \<Rightarrow>
                  (case file_manager_read_file_list mc fm of
                     None \<Rightarrow> Undefined
                   | Some (ret, fm) \<Rightarrow> finish (s\<lparr>sd_files := fm\<rparr>))
            else finish s
      else Done s)"

text \<open>The folders the index is built from are those of the card of this turn.\<close>

definition see_card :: "sd_env \<Rightarrow> sd_state \<Rightarrow> sd_state" where
  "see_card env s = s\<lparr>sd_files := (sd_files s)\<lparr>folders := media_folders env\<rparr>\<rparr>"

definition sd_proc :: "nat \<Rightarrow> sd_env \<Rightarrow> media_config \<Rightarrow> sd_state \<Rightarrow> sd_state run" where
  "sd_proc fuel env mc s =
     (case sd_changed mc (sd_switch env (see_card env s)) of
        Done s \<Rightarrow>
          (case sd_check_size fuel env mc (count_time s) of
             Done s \<Rightarrow> Done (sd_emit (Sd_usleep (sleep_time s)) s)
           | e \<Rightarrow> e)
      | e \<Rightarrow> e)"

section \<open>Runs\<close>

text \<open>What can happen to the card, in any order: the calls of other threads and a turn of its own.\<close>

datatype sd_event =
    Request_format
  | Request_unmount
  | Answer int int
  | Hotplug bool "char list"
  | Tick nat sd_env

type_synonym sd_system = "sd_state \<times> bus"

fun sd_happens :: "media_config \<Rightarrow> sd_event \<Rightarrow> sd_system \<Rightarrow> sd_system run" where
  "sd_happens mc Request_format (s, b) = Done (snd (sd_format s b))"
| "sd_happens mc Request_unmount (s, b) = Done (snd (sd_unmount s b))"
| "sd_happens mc (Answer action server) (s, b) = Done (sd_set_response action server s, b)"
| "sd_happens mc (Hotplug type addr) (s, b) = Done (update_hotplug_event type addr s, b)"
| "sd_happens mc (Tick fuel env) (s, b) =
     (case sd_proc fuel env mc s of Done s \<Rightarrow> Done (s, b) | Out_of_fuel \<Rightarrow> Out_of_fuel | Undefined \<Rightarrow> Undefined)"

inductive sd_run :: "media_config \<Rightarrow> sd_system \<Rightarrow> sd_event list \<Rightarrow> sd_system \<Rightarrow> bool" for mc s where
  start: "sd_run mc s [] s"
| event: "sd_run mc s es t \<Longrightarrow> sd_happens mc e t = Done u \<Longrightarrow> sd_run mc s (es @ [e]) u"

inductive_cases sd_run_Nil [elim!]: "sd_run mc s [] t"

lemma tick_done: "sd_happens mc (Tick fuel env) (s, b) = Done u \<Longrightarrow> \<exists>t. sd_proc fuel env mc s = Done t \<and> u = (t, b)"
  by (auto split: run.splits)

section \<open>One turn of the thread\<close>

lemmas sd_switch_parts = sd_is_mount_def sd_mount_def drop_index_def Let_def

text \<open>What follows the switch keeps the status and the answers, and only reports and sleeps.\<close>

lemma changed_frame:
  "sd_changed mc s = Done t \<Longrightarrow>
   sd_card_status t = sd_card_status s \<and> format_status t = format_status s \<and> init_wait t = init_wait s
   \<and> sleep_time t = sleep_time s \<and> size_check_tag t = size_check_tag s \<and> sd_faults t = sd_faults s
   \<and> sd_card_last_status t = Some (sd_card_status s)
   \<and> (sd_effects t = sd_effects s \<or> sd_effects t = sd_effects s @ [Sd_report])
   \<and> (sd_card_status s \<noteq> SD_MOUNT \<longrightarrow> sd_files t = sd_files s)"
  by (auto simp: sd_changed_def Let_def split: if_splits option.splits)

lemma check_size_frame:
  "sd_check_size fuel env mc s = Done t \<Longrightarrow>
   sd_card_status t = sd_card_status s \<and> format_status t = format_status s \<and> init_wait t = init_wait s
   \<and> sleep_time t = sleep_time s \<and> sd_faults t = sd_faults s \<and> sd_card_last_status t = sd_card_last_status s
   \<and> (sd_effects t = sd_effects s \<or> sd_effects t = sd_effects s @ [Sd_report])
   \<and> (sd_card_status s \<noteq> SD_MOUNT \<longrightarrow> t = s)"
  by (auto simp: sd_check_size_def Let_def split: if_splits option.splits run.splits prod.splits)

lemma count_time_frame [simp]:
  "sd_card_status (count_time s) = sd_card_status s" "format_status (count_time s) = format_status s"
  "init_wait (count_time s) = init_wait s" "sleep_time (count_time s) = sleep_time s"
  "sd_effects (count_time s) = sd_effects s" "sd_card_last_status (count_time s) = sd_card_last_status s"
  "sd_files (count_time s) = sd_files s"
  by (simp_all add: count_time_def Let_def)

lemma see_card_frame [simp]:
  "sd_card_status (see_card env s) = sd_card_status s" "format_status (see_card env s) = format_status s"
  "init_wait (see_card env s) = init_wait s" "sleep_time (see_card env s) = sleep_time s"
  "sd_effects (see_card env s) = sd_effects s" "sd_faults (see_card env s) = sd_faults s"
  "size_check_tag (see_card env s) = size_check_tag s" "sd_address (see_card env s) = sd_address s"
  "both_answered (see_card env s) = both_answered s"
  by (simp_all add: see_card_def both_answered_def)

definition tail_effects :: "sd_effect list \<Rightarrow> bool" where
  "tail_effects es = (\<forall>e \<in> set es. e = Sd_report \<or> (\<exists>n. e = Sd_usleep n))"

lemma proc_frame:
  assumes "sd_proc fuel env mc s = Done t"
  shows "sd_card_status t = sd_card_status (sd_switch env (see_card env s))" "format_status t = format_status (sd_switch env (see_card env s))"
    "init_wait t = init_wait (sd_switch env (see_card env s))" "sleep_time t = sleep_time (sd_switch env (see_card env s))"
    "sd_card_last_status t = Some (sd_card_status t)"
    "\<exists>es. sd_effects t = sd_effects (sd_switch env (see_card env s)) @ es \<and> tail_effects es"
    "sd_card_status t \<noteq> SD_MOUNT \<Longrightarrow> sd_files t = sd_files (sd_switch env (see_card env s))"
proof -
  obtain a b where a: "sd_changed mc (sd_switch env (see_card env s)) = Done a"
    and b: "sd_check_size fuel env mc (count_time a) = Done b" and t: "t = sd_emit (Sd_usleep (sleep_time b)) b"
    using assms by (auto simp: sd_proc_def split: run.splits)
  note fr = changed_frame [OF a] check_size_frame [OF b]
  show "sd_card_status t = sd_card_status (sd_switch env (see_card env s))" "format_status t = format_status (sd_switch env (see_card env s))"
    "init_wait t = init_wait (sd_switch env (see_card env s))" "sleep_time t = sleep_time (sd_switch env (see_card env s))"
    "sd_card_last_status t = Some (sd_card_status t)"
    "sd_card_status t \<noteq> SD_MOUNT \<Longrightarrow> sd_files t = sd_files (sd_switch env (see_card env s))"
    using fr by (auto simp: t)
  show "\<exists>es. sd_effects t = sd_effects (sd_switch env (see_card env s)) @ es \<and> tail_effects es"
    using fr by (auto simp: t tail_effects_def)
qed

lemma plugin_frame:
  "sd_is_plugin env s = (there, t) \<Longrightarrow> \<exists>a fs. t = s\<lparr>sd_address := a, sd_faults := fs\<rparr>"
proof -
  have search: "\<exists>a fs. search_dmesg msgs s = s\<lparr>sd_address := a, sd_faults := fs\<rparr>" for msgs s
  proof (induction msgs arbitrary: s)
    case Nil
    show ?case by (intro exI [of _ "sd_address s"] exI [of _ "sd_faults s"]) simp
  next
    case (Cons l ls)
    show ?case
    proof (cases "strstr l MMC0_PLUG_KMSG")
      case None
      then show ?thesis using Cons.IH [of s] by simp
    next
      case (Some pos)
      then show ?thesis using Cons.IH [of "copy_address l pos s"] by (auto simp: copy_address_def Let_def)
    qed
  qed
  have access: "\<exists>fs. snd (access_plug_path env s) = s\<lparr>sd_faults := fs\<rparr>" for s
    unfolding access_plug_path_def Let_def by (simp only: snd_conv) blast
  assume "sd_is_plugin env s = (there, t)"
  then consider "t = s" | "t = snd (access_plug_path env s)"
    | msgs where "t = snd (access_plug_path env (search_dmesg msgs s))"
    by (auto simp: sd_is_plugin_def split: if_splits option.splits) (metis snd_conv)+
  then show ?thesis
  proof cases
    case 1
    then show ?thesis by (intro exI [of _ "sd_address s"] exI [of _ "sd_faults s"]) simp
  next
    case 2
    obtain fs where "t = s\<lparr>sd_faults := fs\<rparr>" using 2 access [of s] by auto
    then show ?thesis by (intro exI [of _ "sd_address s"] exI [of _ fs]) simp
  next
    case 3
    obtain a fs where a: "search_dmesg msgs s = s\<lparr>sd_address := a, sd_faults := fs\<rparr>" using search by blast
    obtain fs' where "t = (search_dmesg msgs s)\<lparr>sd_faults := fs'\<rparr>" using 3 access by auto
    then show ?thesis using a by (intro exI [of _ a] exI [of _ fs']) simp
  qed
qed

text \<open>The switch, status by status.\<close>

lemma switch_null:
  assumes "sd_card_status s = SD_NULL"
  shows "\<exists>a fs. sd_switch env s = s\<lparr>sd_address := a, sd_faults := fs, init_wait := True\<rparr>
    \<or> sd_switch env s = s\<lparr>sd_address := a, sd_faults := fs, sd_card_status := SD_PLUGIN\<rparr>"
proof (cases "init_wait s")
  case True
  then have "sd_switch env s = s\<lparr>sd_address := sd_address s, sd_faults := sd_faults s, init_wait := True\<rparr>"
    using assms by (simp add: sd_switch_def)
  then show ?thesis by blast
next
  case False
  obtain there t where p: "sd_is_plugin env s = (there, t)" by fastforce
  then obtain a fs where t: "t = s\<lparr>sd_address := a, sd_faults := fs\<rparr>" using plugin_frame by blast
  show ?thesis
    using assms False p by (intro exI [of _ a] exI [of _ fs]) (simp add: sd_switch_def t)
qed

lemma switch_formating:
  assumes "sd_card_status s = SD_FORMATING"
  shows "sd_switch env s = (
     if mounted env \<and> \<not> umount_ok env then sd_emit (Sd_umount False) (drop_index s)
     else (case sd_node env of
        None \<Rightarrow> (drop_index s)\<lparr>sd_card_status := SD_NULL, sd_effects := sd_effects s
          @ (if mounted env then [Sd_umount True] else []) @ [Sd_usleep 20000, Sd_usleep 20000]\<rparr>
      | Some node \<Rightarrow> (drop_index s)\<lparr>sd_card_status := (if popen_ok env then SD_FORMAT_SUCCESS else SD_FORMATING),
          sd_effects := sd_effects s @ (if mounted env then [Sd_umount True] else [])
            @ [Sd_usleep 20000, Sd_mkfs node (popen_ok env), Sd_usleep 20000]\<rparr>))"
  using assms by (auto simp: sd_switch_def sd_switch_parts split: option.splits)

lemma drop_index_fields [simp]:
  "sd_card_status (drop_index s) = sd_card_status s" "sd_effects (drop_index s) = sd_effects s"
  "format_status (drop_index s) = 0" "\<not> fm_init (sd_files (drop_index s))"
  by (simp_all add: drop_index_def file_manager_set_reinit_def)

text \<open>No other status formats the card.\<close>

lemma switch_other_effects:
  assumes "sd_card_status s \<noteq> SD_FORMATING"
  shows "\<exists>es. sd_effects (sd_switch env s) = sd_effects s @ es \<and> (\<forall>node ok. Sd_mkfs node ok \<notin> set es)"
proof (cases "sd_card_status s = SD_NULL")
  case True
  then show ?thesis using switch_null [OF True, of env] by auto
next
  case False
  then show ?thesis
    using assms by (auto simp: sd_switch_def sd_switch_parts split: sd_status.splits option.splits)
qed

text \<open>How a turn moves the status and the answers.\<close>

lemma switch_moves:
  "sd_card_status (sd_switch env s) = SD_FORMATING \<Longrightarrow>
     sd_card_status s = SD_FORMATING \<or> sd_card_status s = SD_FORMAT \<and> both_answered s"
  "sd_card_status (sd_switch env s) = SD_FORMAT \<Longrightarrow> sd_card_status s = SD_FORMAT"
  "sd_card_status (sd_switch env s) = SD_UNMOUNT \<Longrightarrow> sd_card_status s = SD_UNMOUNT"
  "sd_card_status (sd_switch env s) = SD_UNMOUNTING \<Longrightarrow> sd_card_status s \<in> {SD_UNMOUNT, SD_UNMOUNTING}"
  "format_status (sd_switch env s) =
     (if sd_card_status s \<in> {SD_FORMATING, SD_UNMOUNTING} then 0 else format_status s)"
proof -
  have "(sd_card_status (sd_switch env s) = SD_FORMATING \<longrightarrow>
      sd_card_status s = SD_FORMATING \<or> sd_card_status s = SD_FORMAT \<and> both_answered s)
    \<and> (sd_card_status (sd_switch env s) = SD_FORMAT \<longrightarrow> sd_card_status s = SD_FORMAT)
    \<and> (sd_card_status (sd_switch env s) = SD_UNMOUNT \<longrightarrow> sd_card_status s = SD_UNMOUNT)
    \<and> (sd_card_status (sd_switch env s) = SD_UNMOUNTING \<longrightarrow> sd_card_status s \<in> {SD_UNMOUNT, SD_UNMOUNTING})
    \<and> format_status (sd_switch env s) =
       (if sd_card_status s \<in> {SD_FORMATING, SD_UNMOUNTING} then 0 else format_status s)"
  proof (cases "sd_card_status s = SD_NULL")
    case True
    then show ?thesis using switch_null [OF True, of env] by auto
  next
    case False
    then show ?thesis
      by (auto simp: sd_switch_def sd_switch_parts split: sd_status.splits option.splits)
  qed
  then show
    "sd_card_status (sd_switch env s) = SD_FORMATING \<Longrightarrow>
       sd_card_status s = SD_FORMATING \<or> sd_card_status s = SD_FORMAT \<and> both_answered s"
    "sd_card_status (sd_switch env s) = SD_FORMAT \<Longrightarrow> sd_card_status s = SD_FORMAT"
    "sd_card_status (sd_switch env s) = SD_UNMOUNT \<Longrightarrow> sd_card_status s = SD_UNMOUNT"
    "sd_card_status (sd_switch env s) = SD_UNMOUNTING \<Longrightarrow> sd_card_status s \<in> {SD_UNMOUNT, SD_UNMOUNTING}"
    "format_status (sd_switch env s) =
       (if sd_card_status s \<in> {SD_FORMATING, SD_UNMOUNTING} then 0 else format_status s)"
    by blast+
qed

lemma proc_effects:
  assumes "sd_proc fuel env mc s = Done t"
  shows "\<exists>es. sd_effects t = sd_effects s @ es
    \<and> (sd_card_status s \<noteq> SD_FORMATING \<longrightarrow> (\<forall>node ok. Sd_mkfs node ok \<notin> set es))"
proof -
  let ?s = "see_card env s"
  obtain tl where tl: "sd_effects t = sd_effects (sd_switch env ?s) @ tl" "tail_effects tl"
    using proc_frame(6) [OF assms] by blast
  have no: "Sd_mkfs node ok \<notin> set tl" for node ok using tl(2) by (auto simp: tail_effects_def)
  obtain es where es: "sd_effects (sd_switch env ?s) = sd_effects s @ es"
    "sd_card_status s \<noteq> SD_FORMATING \<longrightarrow> (\<forall>node ok. Sd_mkfs node ok \<notin> set es)"
  proof (cases "sd_card_status s = SD_FORMATING")
    case True
    then have f: "sd_card_status ?s = SD_FORMATING" by simp
    have "\<exists>es. sd_effects (sd_switch env ?s) = sd_effects s @ es"
      unfolding switch_formating [OF f] by (cases "sd_node env") auto
    then show ?thesis using that True by blast
  next
    case False
    then show ?thesis using that switch_other_effects [of ?s env] by auto
  qed
  show ?thesis using tl(1) es no by (intro exI [of _ "es @ tl"]) auto
qed

section \<open>A card is only formatted after both servers have answered\<close>

definition busy :: "sd_state \<Rightarrow> bool" where
  "busy s = (sd_card_status s \<in> {SD_FORMAT, SD_FORMATING, SD_UNMOUNT, SD_UNMOUNTING})"

definition answered_after_request :: "int \<Rightarrow> sd_event list \<Rightarrow> bool" where
  "answered_after_request server es =
     (\<exists>before q between after. es = before @ q # between @ Answer E_SD_ACTION_FORMAT server # after
        \<and> (q = Request_format \<or> q = Request_unmount))"

definition requested :: "sd_event list \<Rightarrow> bool" where
  "requested es = (Request_format \<in> set es \<or> Request_unmount \<in> set es)"

lemma answered_snoc: "answered_after_request server es \<Longrightarrow> answered_after_request server (es @ [e])"
  unfolding answered_after_request_def by (metis append_Cons append_assoc)

lemma answered_now: "requested es \<Longrightarrow> answered_after_request server (es @ [Answer E_SD_ACTION_FORMAT server])"
proof -
  assume "requested es"
  then obtain q where "q \<in> set es" "q = Request_format \<or> q = Request_unmount" by (auto simp: requested_def)
  then show ?thesis by (auto simp: answered_after_request_def in_set_conv_decomp) blast+
qed

definition formatted_since :: "sd_state \<Rightarrow> sd_state \<Rightarrow> bool" where
  "formatted_since s t = (\<exists>node ok. Sd_mkfs node ok \<in> set (drop (length (sd_effects s)) (sd_effects t)))"

text \<open>What a run that began at rest knows.\<close>

definition both_after_request :: "sd_event list \<Rightarrow> bool" where
  "both_after_request es = (Request_format \<in> set es \<and> answered_after_request SERVER_RECORDER es
     \<and> answered_after_request SERVER_PLAYER es)"

definition since_rest :: "sd_state \<Rightarrow> sd_event list \<Rightarrow> sd_state \<Rightarrow> bool" where
  "since_rest s es t =
     ((busy t \<longrightarrow> requested es)
      \<and> (\<forall>r. bit (format_status t) (nat r) \<longrightarrow> 0 < r \<longrightarrow> answered_after_request r es)
      \<and> (sd_card_status t = SD_FORMAT \<longrightarrow> Request_format \<in> set es)
      \<and> (sd_card_status t = SD_FORMATING \<longrightarrow> both_after_request es)
      \<and> (\<exists>new. sd_effects t = sd_effects s @ new)
      \<and> (formatted_since s t \<longrightarrow> both_after_request es))"

lemma formatted_appended: "sd_effects t = sd_effects s @ new \<Longrightarrow> formatted_since s t = (\<exists>node ok. Sd_mkfs node ok \<in> set new)"
  by (simp add: formatted_since_def)

lemma since_rest_start: "\<not> busy s \<Longrightarrow> format_status s = 0 \<Longrightarrow> since_rest s [] s"
  by (auto simp: since_rest_def busy_def formatted_since_def)

lemma both_snoc: "both_after_request es \<Longrightarrow> both_after_request (es @ [e])"
  by (simp add: both_after_request_def answered_snoc)

lemma since_rest_snoc: "since_rest s es t \<Longrightarrow> since_rest s (es @ [e]) t"
  unfolding since_rest_def requested_def using answered_snoc both_snoc by auto

lemma since_rest_goto:
  assumes "since_rest s es t" "e = Request_format \<and> v = SD_FORMAT \<or> e = Request_unmount \<and> v = SD_UNMOUNT"
  shows "since_rest s (es @ [e]) (sd_goto v t)"
proof -
  have "formatted_since s (sd_goto v t) = formatted_since s t" by (simp add: formatted_since_def)
  moreover have "requested (es @ [e])" "v = SD_FORMAT \<longrightarrow> Request_format \<in> set (es @ [e])" "v \<noteq> SD_FORMATING"
    using assms(2) by (auto simp: requested_def)
  ultimately show ?thesis using since_rest_snoc [OF assms(1), of e] by (simp add: since_rest_def)
qed

lemma since_rest_tick:
  assumes "since_rest s es t" "sd_proc fuel env mc t = Done u"
  shows "since_rest s (es @ [e]) u"
proof -
  note fr = proc_frame(1,2) [OF assms(2)] and mv = switch_moves [of env "see_card env t", unfolded see_card_frame]
  obtain old where old: "sd_effects t = sd_effects s @ old" using assms(1) by (auto simp: since_rest_def)
  obtain new where new: "sd_effects u = sd_effects t @ new"
    "sd_card_status t \<noteq> SD_FORMATING \<longrightarrow> (\<forall>node ok. Sd_mkfs node ok \<notin> set new)"
    using proc_effects [OF assms(2)] by blast
  have eff: "sd_effects u = sd_effects s @ old @ new" using old new by simp
  have busy: "busy u \<Longrightarrow> busy t" using fr mv by (auto simp: busy_def)
  have bits: "bit (format_status u) n \<Longrightarrow> bit (format_status t) n" for n using fr mv by (auto split: if_splits)
  have both: "sd_card_status t = SD_FORMAT \<Longrightarrow> both_answered t \<Longrightarrow> both_after_request (es @ [e])"
    using assms(1) by (auto simp: since_rest_def both_answered_def both_after_request_def intro: answered_snoc)
  have "sd_card_status u = SD_FORMATING \<longrightarrow> both_after_request (es @ [e])"
    using assms(1) fr mv both both_snoc by (auto simp: since_rest_def)
  moreover have "formatted_since s u \<longrightarrow> both_after_request (es @ [e])"
    using assms(1) new(2) both_snoc by (auto simp: since_rest_def formatted_appended [OF eff] formatted_appended [OF old])
  ultimately show ?thesis
    using assms(1) busy bits eff fr mv
    by (auto simp: since_rest_def requested_def intro: answered_snoc)
qed

lemma since_rest_event:
  assumes "since_rest s es t" "sd_happens mc e (t, b) = Done (u, b')"
  shows "since_rest s (es @ [e]) u"
proof (cases e)
  case Request_format
  then show ?thesis
    using assms(2) since_rest_snoc [OF assms(1)] since_rest_goto [OF assms(1), of Request_format SD_FORMAT]
    by (simp add: sd_format_def split: if_splits)
next
  case Request_unmount
  then show ?thesis
    using assms(2) since_rest_snoc [OF assms(1)] since_rest_goto [OF assms(1), of Request_unmount SD_UNMOUNT]
    by (simp add: sd_unmount_def split: if_splits)
next
  case (Answer action server)
  have u: "u = sd_set_response action server t" using assms(2) Answer by simp
  have now: "answered_after_request r (es @ [e])"
    if "bit (format_status u) (nat r)" "0 < r" for r
  proof (cases "bit (format_status t) (nat r)")
    case True
    then show ?thesis using assms(1) that answered_snoc by (simp add: since_rest_def)
  next
    case False
    then have "nat r = nat server" "action = E_SD_ACTION_FORMAT" "busy t"
      using that(1) by (auto simp: u sd_set_response_def busy_def split: if_splits)
    moreover from this that(2) have "r = server" by simp
    ultimately show ?thesis using assms(1) answered_now Answer by (simp add: since_rest_def)
  qed
  show ?thesis
    using assms(1) now both_snoc
    by (auto simp: u sd_set_response_def since_rest_def busy_def requested_def formatted_since_def split: if_splits)
next
  case (Hotplug type addr)
  then have u: "u = update_hotplug_event type addr t" using assms(2) by simp
  show ?thesis
    using assms(1) both_snoc answered_snoc
    by (auto simp: u update_hotplug_event_def since_rest_def busy_def requested_def formatted_since_def)
next
  case (Tick fuel env)
  then have "sd_proc fuel env mc t = Done u" using assms(2) by (auto split: run.splits)
  then show ?thesis using since_rest_tick [OF assms(1)] by blast
qed

lemma since_rest_run:
  assumes "sd_run mc s0 es t" "\<not> busy (fst s0)" "format_status (fst s0) = 0"
  shows "since_rest (fst s0) es (fst t)"
  using assms
proof induction
  case start
  then show ?case by (simp add: since_rest_start)
next
  case (event es t e u)
  then show ?case using since_rest_event by (metis prod.collapse)
qed

text \<open>A card at rest has no answer left over from an earlier request.\<close>

lemma rest_has_no_answers:
  assumes "sd_run mc s0 es t" "format_status (fst s0) = 0"
  shows "format_status (fst t) = 0 \<or> busy (fst t)"
  using assms
proof induction
  case start
  then show ?case by simp
next
  case (event es t e u)
  obtain a b where t: "t = (a, b)" by fastforce
  show ?case
  proof (cases e)
    case (Tick fuel env)
    then obtain c where c: "sd_proc fuel env mc a = Done c" "u = (c, b)" using event.hyps t by (auto split: run.splits)
    have waits: "busy (sd_switch env (see_card env a))" if "sd_card_status a \<in> {SD_FORMAT, SD_UNMOUNT}"
      using that by (auto simp: busy_def sd_switch_def see_card_def)
    have "format_status c = 0 \<or> sd_card_status a \<in> {SD_FORMAT, SD_UNMOUNT}"
      using event.IH event.prems proc_frame(2) [OF c(1)] switch_moves(5) [of env "see_card env a"] by (auto simp: t busy_def)
    then show ?thesis using waits proc_frame(1) [OF c(1)] by (auto simp: c busy_def)
  qed (use event t in \<open>auto simp: sd_format_def sd_unmount_def sd_set_response_def update_hotplug_event_def busy_def
        split: if_splits\<close>)
qed

text \<open>
  C9: From any moment at which no request is pending: whenever the card is formatted later,
  a request to format has been made since, and the recorder and the player have each
  answered after a request of that time; no answer is left over from before.
\<close>

theorem format_needs_both_answers:
  assumes "sd_run mc (sd_initial fm, b) es0 s" "\<not> busy (fst s)"
    and "sd_run mc s es t" "formatted_since (fst s) (fst t)"
  shows "Request_format \<in> set es \<and> answered_after_request SERVER_RECORDER es
    \<and> answered_after_request SERVER_PLAYER es"
proof -
  have "format_status (fst s) = 0"
    using rest_has_no_answers [OF assms(1)] assms(2) by (simp add: sd_initial_def)
  then show ?thesis
    using since_rest_run [OF assms(3,2)] assms(4) by (simp add: since_rest_def both_after_request_def)
qed

text \<open>
  The turn that formats the card is in the formatting state, has dropped the index of the
  recordings and the answers, has unmounted the card if it was mounted, formats a node that
  exists, once, and does nothing to the card after that.
\<close>

theorem format_turn:
  assumes "sd_proc fuel env mc s = Done t" "sd_effects t = sd_effects s @ new" "Sd_mkfs node ok \<in> set new"
  shows "sd_card_status s = SD_FORMATING \<and> present env node \<and> format_status t = 0 \<and> \<not> fm_init (sd_files t)
    \<and> (\<exists>rest. new = (if mounted env then [Sd_umount True] else []) @ [Sd_usleep 20000, Sd_mkfs node ok, Sd_usleep 20000] @ rest
         \<and> tail_effects rest)"
proof -
  let ?s = "see_card env s"
  have st: "sd_card_status ?s = SD_FORMATING"
    using proc_effects [OF assms(1)] assms(2,3) by auto
  obtain tl where tl: "sd_effects t = sd_effects (sd_switch env ?s) @ tl" "tail_effects tl"
    using proc_frame(6) [OF assms(1)] by blast
  have no: "Sd_mkfs node ok \<notin> set tl" using tl(2) by (auto simp: tail_effects_def)
  have "\<not> (mounted env \<and> \<not> umount_ok env)"
  proof
    assume "mounted env \<and> \<not> umount_ok env"
    then have "new = Sd_umount False # tl" using tl(1) assms(2) by (simp add: switch_formating [OF st])
    then show False using no assms(3) by simp
  qed
  moreover obtain nd where nd: "sd_node env = Some nd"
  proof (cases "sd_node env")
    case None
    then have "new = (if mounted env then [Sd_umount True] else []) @ [Sd_usleep 20000, Sd_usleep 20000] @ tl"
      using calculation tl(1) assms(2) by (auto simp: switch_formating [OF st])
    then show ?thesis using no assms(3) by (auto split: if_splits)
  qed auto
  ultimately have sw: "sd_switch env ?s = (drop_index ?s)\<lparr>sd_card_status := (if popen_ok env then SD_FORMAT_SUCCESS else SD_FORMATING),
      sd_effects := sd_effects s @ (if mounted env then [Sd_umount True] else [])
        @ [Sd_usleep 20000, Sd_mkfs nd (popen_ok env), Sd_usleep 20000]\<rparr>"
    by (auto simp: switch_formating [OF st])
  have new: "new = (if mounted env then [Sd_umount True] else [])
      @ [Sd_usleep 20000, Sd_mkfs nd (popen_ok env), Sd_usleep 20000] @ tl"
    using tl(1) assms(2) by (simp add: sw)
  then have "node = nd" "ok = popen_ok env"
    using assms(3) tl(2) by (auto simp: tail_effects_def split: if_splits)
  then show ?thesis
    using st new tl(2) nd proc_frame(1,2,7) [OF assms(1)]
    by (auto simp: sw sd_node_def split: if_splits)
qed

section \<open>A format that is answered succeeds\<close>

text \<open>A card that does what it is told, with room enough not to be cleaned.\<close>

definition cooperates :: "sd_env \<Rightarrow> bool" where
  "cooperates env = (sd_node env \<noteq> None \<and> umount_ok env \<and> popen_ok env \<and> mount_cmd_ok env
     \<and> (case statfs_blocks env of None \<Rightarrow> True | Some (blocks, bfree, bsize) \<Rightarrow>
          DEVICE_SD_CLEAN_SIZE \<le> ucast (bfree * bsize div 1024)))"

lemma check_size_roomy:
  "cooperates env \<Longrightarrow> \<exists>n es. sd_check_size fuel env mc s = Done (s\<lparr>size_check_tag := n, sd_effects := es\<rparr>)"
proof -
  assume c: "cooperates env"
  have "sd_check_size fuel env mc s = Done s
    \<or> sd_check_size fuel env mc s = Done (sd_emit Sd_report (s\<lparr>size_check_tag := 0\<rparr>))"
    using c by (auto simp: sd_check_size_def sd_get_info_def cooperates_def Let_def split: option.splits prod.splits)
  then show ?thesis
    by (elim disjE, intro exI [of _ "size_check_tag s"] exI [of _ "sd_effects s"], simp,
        intro exI [of _ "0"] exI [of _ "sd_effects s @ [Sd_report]"], simp)
qed

text \<open>A turn that does not end mounted does not read the folders.\<close>

lemma proc_unmounted:
  "cooperates env \<Longrightarrow> sd_card_status (sd_switch env (see_card env s)) \<noteq> SD_MOUNT \<Longrightarrow>
   \<exists>t. sd_proc fuel env mc s = Done t"
  by (auto simp: sd_proc_def sd_changed_def sd_check_size_def Let_def)

text \<open>A turn that mounts the card reads them.\<close>

lemma proc_mounts:
  assumes "cooperates env" "sd_card_status (sd_switch env (see_card env s)) = SD_MOUNT"
    and "sd_card_last_status (sd_switch env (see_card env s)) \<noteq> Some SD_MOUNT"
    and "file_manager_read_file_list mc (sd_files (sd_switch env (see_card env s))) = Some (0, fm)"
  shows "\<exists>t. sd_proc fuel env mc s = Done t \<and> sd_files t = fm \<and> file_init t = 1"
proof -
  let ?u = "sd_emit Sd_report ((sd_switch env (see_card env s))\<lparr>sd_card_last_status := Some SD_MOUNT, sd_files := fm, file_init := 1\<rparr>)"
  have ch: "sd_changed mc (sd_switch env (see_card env s)) = Done ?u"
    using assms by (simp add: sd_changed_def Let_def)
  obtain n es where "sd_check_size fuel env mc (count_time ?u) = Done ((count_time ?u)\<lparr>size_check_tag := n, sd_effects := es\<rparr>)"
    using check_size_roomy [OF assms(1)] by blast
  then show ?thesis by (simp add: sd_proc_def ch) (simp add: count_time_def Let_def)
qed

definition answer_both :: "sd_state \<Rightarrow> sd_state" where
  "answer_both s = sd_set_response E_SD_ACTION_FORMAT SERVER_PLAYER (sd_set_response E_SD_ACTION_FORMAT SERVER_RECORDER s)"

lemma sd_run_append: "sd_run mc t es' u \<Longrightarrow> sd_run mc s es t \<Longrightarrow> sd_run mc s (es @ es') u"
proof (induction rule: sd_run.induct)
  case (event es' v e w)
  then show ?case using sd_run.event [OF event.IH [OF event.prems] event.hyps(2)] by simp
qed simp

lemma sd_run_Cons: "sd_happens mc e s = Done t \<Longrightarrow> sd_run mc t es u \<Longrightarrow> sd_run mc s (e # es) u"
  using sd_run_append [of mc t es u s "[e]"] sd_run.event [OF sd_run.start] by fastforce

lemma turn_format:
  assumes "sd_card_status s = SD_FORMAT" "both_answered s" "cooperates env" "fm_init (sd_files s)"
  shows "\<exists>t. sd_proc fuel env mc s = Done t \<and> sd_card_status t = SD_FORMATING \<and> fm_init (sd_files t)
    \<and> lock_balance (sd_files t) = lock_balance (sd_files s)"
proof -
  have sw: "sd_switch env (see_card env s) = sd_goto SD_FORMATING (see_card env s)"
    using assms by (simp add: sd_switch_def)
  then obtain t where t: "sd_proc fuel env mc s = Done t" using proc_unmounted [OF assms(3), of s fuel mc] by auto
  show ?thesis using t sw proc_frame(1,7) [OF t] assms(4) by (intro exI [of _ t]) (simp add: see_card_def)
qed

lemma turn_formating:
  assumes "sd_card_status s = SD_FORMATING" "cooperates env" "fm_init (sd_files s)"
  shows "\<exists>t. sd_proc fuel env mc s = Done t \<and> sd_card_status t = SD_FORMAT_SUCCESS \<and> format_status t = 0
    \<and> sd_card_last_status t = Some SD_FORMAT_SUCCESS
    \<and> flist (sd_files t) = replicate 3 file_list_zero \<and> \<not> fm_init (sd_files t) \<and> lock_balance (sd_files t) = lock_balance (sd_files s)"
proof -
  have st: "sd_card_status (see_card env s) = SD_FORMATING" using assms(1) by simp
  obtain node where "sd_node env = Some node" using assms(2) by (auto simp: cooperates_def)
  then have sw: "sd_switch env (see_card env s) = (drop_index (see_card env s))\<lparr>sd_card_status := SD_FORMAT_SUCCESS,
      sd_effects := sd_effects s @ (if mounted env then [Sd_umount True] else [])
        @ [Sd_usleep 20000, Sd_mkfs node True, Sd_usleep 20000]\<rparr>"
    using assms(2) by (simp add: switch_formating [OF st] cooperates_def)
  then obtain t where t: "sd_proc fuel env mc s = Done t" using proc_unmounted [OF assms(2), of s fuel mc] by auto
  show ?thesis
    using t sw proc_frame(1,2,5,7) [OF t] assms(3)
    by (intro exI [of _ t]) (simp add: drop_index_def file_manager_set_reinit_def see_card_def)
qed

lemma turn_format_success:
  assumes "sd_card_status s = SD_FORMAT_SUCCESS" "cooperates env" "sd_card_last_status s = Some SD_FORMAT_SUCCESS"
    and "file_manager_read_file_list mc ((sd_files s)\<lparr>folders := media_folders env\<rparr>) = Some (0, fm)"
  shows "\<exists>t. sd_proc fuel env mc s = Done t \<and> sd_card_status t = SD_MOUNT \<and> sd_files t = fm \<and> file_init t = 1
    \<and> format_status t = format_status s"
proof -
  let ?u = "sd_switch env (see_card env s)"
  have u: "sd_card_status ?u = SD_MOUNT" "sd_card_last_status ?u = Some SD_FORMAT_SUCCESS"
    "sd_files ?u = (sd_files s)\<lparr>folders := media_folders env\<rparr>" "format_status ?u = format_status s"
    using assms(1-3) by (auto simp: sd_switch_def sd_switch_parts cooperates_def see_card_def)
  obtain t where t: "sd_proc fuel env mc s = Done t" "sd_files t = fm" "file_init t = 1"
    using proc_mounts [OF assms(2) u(1), where mc = mc and fm = fm and fuel = fuel] u assms(4) by auto
  show ?thesis using t u proc_frame(1,2) [OF t(1)] by (intro exI [of _ t]) simp
qed

text \<open>
  C38: On a card that does what it is told, a request to format in any status but the empty
  one, the answers of the recorder and the player and three turns of the thread bring the
  card back mounted, with the answers forgotten and with the index that a scan of the new
  card yields from three empty lists.
\<close>

theorem format_completes:
  assumes "sd_card_status s \<noteq> SD_NULL" "fm_init (sd_files s)"
    and "cooperates e1" "cooperates e2" "cooperates e3"
    and "file_manager_read_file_list mc \<lparr>fm_init = False, flist = replicate 3 file_list_zero,
      folders = media_folders e3, lock_balance = lock_balance (sd_files s)\<rparr> = Some (0, fm)"
  shows "\<exists>t. sd_run mc (s, b) [Request_format, Answer E_SD_ACTION_FORMAT SERVER_RECORDER,
      Answer E_SD_ACTION_FORMAT SERVER_PLAYER, Tick fuel e1, Tick fuel e2, Tick fuel e3] (t, tell_servers b)
    \<and> sd_get_status t = SD_ALIYUN_STATUS_NORMAL \<and> sd_get_file_status t = 1 \<and> sd_files t = fm \<and> format_status t = 0"
proof -
  define a where "a = answer_both (sd_goto SD_FORMAT s)"
  have a: "sd_card_status a = SD_FORMAT" "both_answered a" "fm_init (sd_files a)" "sd_files a = sd_files s"
    using assms(2) by (simp_all add: a_def answer_both_def sd_set_response_def both_answered_def)
  obtain t1 where t1: "sd_proc fuel e1 mc a = Done t1" "sd_card_status t1 = SD_FORMATING" "fm_init (sd_files t1)"
    "lock_balance (sd_files t1) = lock_balance (sd_files s)"
    using turn_format [OF a(1,2) assms(3) a(3)] a(4) by metis
  obtain t2 where t2: "sd_proc fuel e2 mc t1 = Done t2" "sd_card_status t2 = SD_FORMAT_SUCCESS" "format_status t2 = 0"
    "sd_card_last_status t2 = Some SD_FORMAT_SUCCESS" "flist (sd_files t2) = replicate 3 file_list_zero"
    "\<not> fm_init (sd_files t2)" "lock_balance (sd_files t2) = lock_balance (sd_files s)"
    using turn_formating [OF t1(2) assms(4) t1(3)] t1(4) by metis
  have "file_manager_read_file_list mc ((sd_files t2)\<lparr>folders := media_folders e3\<rparr>) = Some (0, fm)"
    using assms(6) t2(5-7) by (cases "sd_files t2") simp
  from turn_format_success [OF t2(2) assms(5) t2(4) this]
  obtain t3 where t3: "sd_proc fuel e3 mc t2 = Done t3" "sd_card_status t3 = SD_MOUNT" "sd_files t3 = fm" "file_init t3 = 1"
    "format_status t3 = 0"
    using t2(3) by metis
  have "sd_run mc (s, b) [Request_format, Answer E_SD_ACTION_FORMAT SERVER_RECORDER,
      Answer E_SD_ACTION_FORMAT SERVER_PLAYER, Tick fuel e1, Tick fuel e2, Tick fuel e3] (t3, tell_servers b)"
    using assms(1) t1(1) t2(1) t3(1)
    by (auto simp: sd_format_def a_def answer_both_def intro!: sd_run_Cons sd_run.start)
  then show ?thesis using t3 by (auto simp: sd_get_status_def sd_get_file_status_def)
qed

section \<open>A card that is pulled out\<close>

lemma mounted_stays:
  assumes "sd_run mc s es t" "sd_card_status (fst s) = SD_MOUNT" "Request_format \<notin> set es" "Request_unmount \<notin> set es"
  shows "sd_card_status (fst t) = SD_MOUNT"
  using assms
proof induction
  case start
  then show ?case by simp
next
  case (event es t e u)
  obtain a b where t: "t = (a, b)" by fastforce
  have m: "sd_card_status a = SD_MOUNT" using event t by simp
  show ?case
  proof (cases e)
    case (Tick fuel env)
    then obtain c where c: "sd_proc fuel env mc a = Done c" "u = (c, b)" using event.hyps t by (auto split: run.splits)
    show ?thesis using proc_frame(1) [OF c(1)] m by (simp add: c sd_switch_def)
  qed (use event t m in \<open>auto simp: sd_set_response_def update_hotplug_event_def\<close>)
qed

text \<open>
  A mounted card is never noticed to be gone: whatever hotplug events, turns and answers
  follow, with no node and no mount left, its status stays the normal one until the cloud
  client asks for a format or an unmount.
\<close>

theorem removal_unnoticed:
  assumes "sd_run mc (s, b) es (t, b')" "sd_card_status s = SD_MOUNT"
    and "Request_format \<notin> set es" "Request_unmount \<notin> set es"
  shows "sd_get_status t = SD_ALIYUN_STATUS_NORMAL"
  using mounted_stays [OF assms(1)] assms(2-4) by (simp add: sd_get_status_def)

section \<open>Bounds\<close>

lemma search_dmesg_faults: "set (sd_faults s) \<subseteq> set (sd_faults (search_dmesg msgs s))"
  by (induction msgs s rule: search_dmesg.induct) (auto simp: copy_address_def Let_def split: option.splits)

text \<open>
  Every check for a card writes its path past the end of its buffer of 64 characters:
  the fixed parts of the path fill the buffer, whatever the address.
\<close>

theorem plug_path_overflows:
  assumes "sd_card_status s = SD_NULL" "\<not> init_wait s" "sd_address s \<noteq> [] \<or> dmesg env \<noteq> None"
  shows "Plug_path_overflow \<in> set (sd_faults (sd_switch env s))"
proof -
  have "Plug_path_overflow \<in> set (sd_faults (snd (access_plug_path env u)))" for u
    by (simp add: access_plug_path_def sd_plug_path_def Let_def)
  then have "Plug_path_overflow \<in> set (sd_faults (snd (sd_is_plugin env s)))"
    using assms(3) by (auto simp: sd_is_plugin_def split: option.splits)
  then show ?thesis using assms(1,2) by (auto simp: sd_switch_def split: prod.splits)
qed

text \<open>An address found behind a time stamp is copied with the end of its line.\<close>

lemma dmesg_address_keeps_newline:
  "sd_address (search_dmesg [''[ 1.02] mmc0: new high speed SDHC card at address e624'' @ [CHR 0x0A]] s) = ''e624'' @ [CHR 0x0A]"
  by (simp add: copy_address_def Let_def)

text \<open>A slot that was found empty.\<close>

definition empty_slot :: "sd_state \<Rightarrow> bool" where
  "empty_slot s = (sd_card_status s = SD_NULL \<and> init_wait s \<and> sleep_time s = 100000)"

lemma empty_slot_turn:
  assumes "empty_slot s"
  shows "\<exists>t. sd_proc fuel env mc s = Done t \<and> empty_slot t \<and> size_check_tag t = signed_take_bit 31 (size_check_tag s + 100)
    \<and> sd_faults t = sd_faults s @ (if size_check_tag s + 100 < 2 ^ 31 then [] else [Check_tag_overflow])"
  using assms
  by (auto simp: empty_slot_def sd_proc_def sd_switch_def see_card_def sd_changed_def sd_check_size_def count_time_def Let_def)

definition is_tick :: "sd_event \<Rightarrow> bool" where
  "is_tick e = (case e of Tick fuel env \<Rightarrow> True | _ \<Rightarrow> False)"

lemma empty_slot_run:
  assumes "sd_run mc s es t" "empty_slot (fst s)" "\<forall>e \<in> set es. is_tick e" "0 \<le> size_check_tag (fst s)" "size_check_tag (fst s) < 2 ^ 31"
    "Check_tag_overflow \<notin> set (sd_faults (fst s))"
  shows "empty_slot (fst t) \<and> (Check_tag_overflow \<in> set (sd_faults (fst t)))
      = (2 ^ 31 \<le> size_check_tag (fst s) + 100 * int (length es))
    \<and> (size_check_tag (fst s) + 100 * int (length es) < 2 ^ 31 \<longrightarrow>
         size_check_tag (fst t) = size_check_tag (fst s) + 100 * int (length es))"
  using assms
proof induction
  case start
  then show ?case by simp
next
  case (event es t e u)
  obtain a b where t: "t = (a, b)" by fastforce
  obtain fuel env where e: "e = Tick fuel env" using event.prems by (auto simp: is_tick_def split: sd_event.splits)
  obtain c where c: "sd_proc fuel env mc a = Done c" "u = (c, b)" using event.hyps t e by (auto split: run.splits)
  have ih: "empty_slot a" "(Check_tag_overflow \<in> set (sd_faults a))
      = (2 ^ 31 \<le> size_check_tag (fst s) + 100 * int (length es))"
    "size_check_tag (fst s) + 100 * int (length es) < 2 ^ 31 \<longrightarrow>
         size_check_tag a = size_check_tag (fst s) + 100 * int (length es)"
    using event t by auto
  have turn: "empty_slot c" "size_check_tag c = signed_take_bit 31 (size_check_tag a + 100)"
    "sd_faults c = sd_faults a @ (if size_check_tag a + 100 < 2 ^ 31 then [] else [Check_tag_overflow])"
    using empty_slot_turn [OF ih(1), of fuel env mc] c(1) by auto
  show ?case
  proof (cases "size_check_tag (fst s) + 100 * int (length es) < 2 ^ 31")
    case True
    then have tag: "size_check_tag a = size_check_tag (fst s) + 100 * int (length es)" using ih(3) by simp
    have "size_check_tag a + 100 < 2 ^ 31 \<Longrightarrow> size_check_tag c = size_check_tag a + 100"
      using event.prems(3) tag by (simp add: turn(2) signed_take_bit_int_eq_self)
    then show ?thesis using True turn(1,3) tag ih(2) by (auto simp: c algebra_simps)
  next
    case False
    then show ?thesis using turn(1,3) ih(2) by (auto simp: c)
  qed
qed

text \<open>
  The counter of milliseconds since the last size check is only reset while a card is
  mounted: with an empty slot it grows by one hundred a turn, and overflows its signed 32
  bits exactly when the thread has taken enough turns, 21474837 of them (25 days) from zero.
\<close>

theorem empty_slot_overflows:
  assumes "sd_run mc (s, b) es (t, b')" "\<forall>e \<in> set es. is_tick e" "empty_slot s"
    and "0 \<le> size_check_tag s" "size_check_tag s < 2 ^ 31" "Check_tag_overflow \<notin> set (sd_faults s)"
  shows "(Check_tag_overflow \<in> set (sd_faults t)) = (2 ^ 31 \<le> size_check_tag s + 100 * int (length es))"
  using empty_slot_run [OF assms(1)] assms(2-) by simp

section \<open>Concrete cards\<close>

definition demo_env :: sd_env where
  "demo_env = \<lparr>dmesg = Some [], present = (\<lambda>p. p = SD_MOUNT_NODEP1), mounted = False, mount_call = (\<lambda>_. True),
     mount_cmd_ok = True, umount_ok = True, popen_ok = True, statfs_blocks = None, clock = 0,
     media_folders = [None, None, None]\<rparr>"

definition demo_card :: sd_state where
  "demo_card = (sd_initial (file_manager_t.make True (replicate 3 file_list_zero) [None, None, None] 0))
     \<lparr>sd_card_status := SD_MOUNT, sd_card_last_status := Some SD_MOUNT\<rparr>"

lemma demo_cooperates: "cooperates demo_env"
  by (simp add: cooperates_def demo_env_def sd_node_def)

lemma format_completes_witness:
  "\<exists>t. sd_run demo_config (demo_card, demo_queue) [Request_format, Answer E_SD_ACTION_FORMAT SERVER_RECORDER,
      Answer E_SD_ACTION_FORMAT SERVER_PLAYER, Tick 1 demo_env, Tick 1 demo_env, Tick 1 demo_env] (t, tell_servers demo_queue)
    \<and> sd_get_status t = SD_ALIYUN_STATUS_NORMAL \<and> sd_get_file_status t = 1
    \<and> sd_files t = file_manager_t.make True (replicate 3 file_list_zero) [None, None, None] 0 \<and> format_status t = 0"
proof (rule format_completes [OF _ _ demo_cooperates demo_cooperates demo_cooperates])
qed (simp_all add: demo_card_def sd_initial_def file_manager_t.make_def demo_env_def
      file_manager_read_file_list_def scan_folder_def numeral_3_eq_3)

lemma format_needs_both_answers_witness:
  "\<exists>s t es. sd_run demo_config (sd_initial (sd_files demo_card), demo_queue) [Tick 1 (demo_env\<lparr>present := \<lambda>_. True\<rparr>)] s
    \<and> formatted_since (fst s) (fst t) \<and> answered_after_request SERVER_RECORDER es \<and> answered_after_request SERVER_PLAYER es
    \<and> sd_run demo_config s es t"
proof -
  let ?es = "[Request_format, Answer 0 SERVER_PLAYER, Answer 0 SERVER_RECORDER, Tick 1 demo_env, Tick 1 demo_env]"
  note eval = sd_proc_def sd_switch_def demo_env_def see_card_def sd_changed_def sd_check_size_def count_time_def Let_def
    sd_set_response_def both_answered_def sd_is_mount_def drop_index_def sd_node_def
  obtain s where s: "sd_run demo_config (sd_initial (sd_files demo_card), demo_queue) [Tick 1 (demo_env\<lparr>present := \<lambda>_. True\<rparr>)] (s, demo_queue)"
    "sd_card_status s = SD_PLUGIN" "format_status s = 0" "sd_card_last_status s = Some SD_PLUGIN"
  proof -
    have "\<exists>s. sd_happens demo_config (Tick 1 (demo_env\<lparr>present := \<lambda>_. True\<rparr>)) (sd_initial (sd_files demo_card), demo_queue) = Done (s, demo_queue)
        \<and> sd_card_status s = SD_PLUGIN \<and> format_status s = 0 \<and> sd_card_last_status s = Some SD_PLUGIN"
      by (simp add: eval sd_initial_def sd_is_plugin_def access_plug_path_def)
    then show ?thesis using that sd_run_Cons [OF _ sd_run.start] by blast
  qed
  have "\<exists>t. sd_run demo_config (s, demo_queue) ?es (t, tell_servers demo_queue) \<and> formatted_since s t"
    apply (rule exI, rule conjI)
     apply (rule sd_run_Cons, simp add: sd_format_def s)
     apply (rule sd_run_Cons, simp add: eval s)
     apply (rule sd_run_Cons, simp add: eval s)
     apply (rule sd_run_Cons, simp add: eval s)
     apply (rule sd_run_Cons, simp add: eval s)
     apply (rule sd_run.start)
    apply (simp add: formatted_since_def s ex_bool_eq)
    done
  then obtain t where t: "sd_run demo_config (s, demo_queue) ?es (t, tell_servers demo_queue)" "formatted_since s t" by blast
  have "\<not> busy (fst (s, demo_queue))" by (simp add: busy_def s)
  from format_needs_both_answers [OF s(1) this t(1)] s(1) t show ?thesis by fastforce
qed

lemma format_turn_witness:
  "\<exists>t. sd_proc 1 (demo_env\<lparr>mounted := True\<rparr>) demo_config (demo_card\<lparr>sd_card_status := SD_FORMATING\<rparr>) = Done t \<and> \<not> fm_init (sd_files t)"
proof -
  let ?s = "demo_card\<lparr>sd_card_status := SD_FORMATING\<rparr>"
  let ?env = "demo_env\<lparr>mounted := True\<rparr>"
  obtain t new where t: "sd_proc 1 ?env demo_config ?s = Done t" "sd_effects t = sd_effects ?s @ new"
      "Sd_mkfs SD_MOUNT_NODEP1 True \<in> set new"
    by (simp add: sd_proc_def switch_formating sd_changed_def sd_check_size_def count_time_def demo_env_def demo_card_def
        sd_initial_def see_card_def sd_node_def drop_index_def Let_def)
  from format_turn [OF this] t show ?thesis by blast
qed

lemma removal_unnoticed_witness:
  "sd_get_status (update_hotplug_event False [] demo_card) = SD_ALIYUN_STATUS_NORMAL"
proof (rule removal_unnoticed)
  show "sd_run demo_config (demo_card, demo_queue) [Hotplug False []] (update_hotplug_event False [] demo_card, demo_queue)"
    by (rule sd_run_Cons [OF _ sd_run.start]) simp
qed (simp_all add: demo_card_def)

lemma plug_path_overflows_witness:
  "Plug_path_overflow \<in> set (sd_faults (sd_switch demo_env (sd_initial (sd_files demo_card))))"
  by (rule plug_path_overflows) (simp_all add: sd_initial_def demo_env_def)

definition demo_slot :: sd_state where
  "demo_slot = demo_card\<lparr>sd_card_status := SD_NULL, init_wait := True\<rparr>"

lemma empty_slot_runs:
  "empty_slot s \<Longrightarrow> \<exists>t. sd_run mc (s, b) (replicate n (Tick fuel env)) (t, b)"
proof (induction n arbitrary: s)
  case 0
  have "sd_run mc (s, b) [] (s, b)" by (rule sd_run.start)
  then show ?case by (intro exI [of _ s]) simp
next
  case (Suc n)
  obtain u where u: "sd_proc fuel env mc s = Done u" "empty_slot u" using empty_slot_turn [OF Suc.prems] by blast
  obtain t where "sd_run mc (u, b) (replicate n (Tick fuel env)) (t, b)" using Suc.IH [OF u(2)] by blast
  then have "sd_run mc (s, b) (Tick fuel env # replicate n (Tick fuel env)) (t, b)"
    by (rule sd_run_Cons [rotated]) (simp add: u(1))
  then show ?case by auto
qed

lemma empty_slot_overflows_witness:
  "\<exists>t. sd_run demo_config (demo_slot, demo_queue) (replicate 21474837 (Tick 0 demo_env)) (t, demo_queue)
    \<and> Check_tag_overflow \<in> set (sd_faults t)"
proof -
  have slot: "empty_slot demo_slot" "size_check_tag demo_slot = 0" "sd_faults demo_slot = []"
    by (simp_all add: empty_slot_def demo_slot_def demo_card_def sd_initial_def)
  obtain t where t: "sd_run demo_config (demo_slot, demo_queue) (replicate 21474837 (Tick 0 demo_env)) (t, demo_queue)"
    using empty_slot_runs [OF slot(1)] by blast
  have "(Check_tag_overflow \<in> set (sd_faults t))
      = (2 ^ 31 \<le> size_check_tag demo_slot + 100 * int (length (replicate 21474837 (Tick 0 demo_env))))"
    by (rule empty_slot_overflows [OF t _ slot(1)]) (simp_all add: slot is_tick_def)
  then show ?thesis using t slot(2) by (intro exI [of _ t]) simp
qed

end
