(* ===== verification/Board.thy ===== *)
theory Board
  imports CStr
begin

text \<open>
  The board: the lines of \<open>server/device/gk_gpio.c\<close>, driven through the files of
  \<open>/sys/class/gpio\<close>, and the motor of \<open>gk_motor.c\<close>.
\<close>

section \<open>Lines\<close>

text \<open>
  The writes made so far, a file and what was written, oldest first; \<open>fs\<close> is the kernel: which
  files can be opened after these writes.
\<close>

type_synonym gpio_writes = "(char list \<times> char list) list"
type_synonym gpio_fs = "gpio_writes \<Rightarrow> char list \<Rightarrow> bool"

abbreviation (input) "GK_GPIO_RESET \<equiv> 9 :: nat"
abbreviation (input) "GK_GPIO_IRCUT1 \<equiv> 14 :: nat"
abbreviation (input) "GK_GPIO_IRCUT2 \<equiv> 13 :: nat"
abbreviation (input) "GK_GPIO_LED1 \<equiv> 52 :: nat"
abbreviation (input) "GK_GPIO_LED2 \<equiv> 53 :: nat"
abbreviation (input) "GK_GPIO_IRLED \<equiv> 54 :: nat"
abbreviation (input) "GK_GPIO_SPEAKER \<equiv> 4 :: nat"
abbreviation (input) "GPIO_EXPORT \<equiv> ''/sys/class/gpio/export''"
abbreviation (input) "GPIO_UNEXPORT \<equiv> ''/sys/class/gpio/unexport''"

definition gpio_file :: "nat \<Rightarrow> char list \<Rightarrow> char list" where
  "gpio_file num name = ''/sys/class/gpio/gpio'' @ dec_string num @ name"

text \<open>Number, default value, direction (0 is in).\<close>

definition stGpioDef :: "(nat \<times> int \<times> int) list" where
  "stGpioDef = [(GK_GPIO_RESET, 0, 0), (GK_GPIO_IRCUT1, 0, 1), (GK_GPIO_IRCUT2, 0, 1), (GK_GPIO_LED1, 0, 1),
     (GK_GPIO_LED2, 0, 1), (GK_GPIO_IRLED, 0, 1), (GK_GPIO_SPEAKER, 0, 1)]"

definition gk_gpio_export :: "gpio_fs \<Rightarrow> nat \<Rightarrow> gpio_writes \<Rightarrow> int \<times> gpio_writes" where
  "gk_gpio_export fs num w =
     (if fs w (gpio_file num ''/value'') then (0, w)
      else if \<not> fs w GPIO_EXPORT then (- 1, w)
      else (0, w @ [(GPIO_EXPORT, dec_string num)]))"

definition gk_gpio_unexport :: "gpio_fs \<Rightarrow> nat \<Rightarrow> gpio_writes \<Rightarrow> int \<times> gpio_writes" where
  "gk_gpio_unexport fs num w =
     (if fs w (gpio_file num ''/value'') then (0, w)
      else if \<not> fs w GPIO_UNEXPORT then (- 1, w)
      else (0, w @ [(GPIO_UNEXPORT, dec_string num)]))"

definition gk_gpio_setdir :: "gpio_fs \<Rightarrow> nat \<Rightarrow> char list \<Rightarrow> gpio_writes \<Rightarrow> int \<times> gpio_writes" where
  "gk_gpio_setdir fs num dir w =
     (if \<not> fs w (gpio_file num ''/direction'') then (- 1, w) else (0, w @ [(gpio_file num ''/direction'', dir)]))"

definition gk_gpio_setvalue :: "gpio_fs \<Rightarrow> nat \<Rightarrow> int \<Rightarrow> gpio_writes \<Rightarrow> int \<times> gpio_writes" where
  "gk_gpio_setvalue fs num value w =
     (case gk_gpio_export fs num w of (ret, w) \<Rightarrow>
        if ret < 0 then (- 1, w)
        else if \<not> fs w (gpio_file num ''/value'') then (- 1, w)
        else (0, w @ [(gpio_file num ''/value'', dec_string (if value \<noteq> 0 then 1 else 0))]))"

text \<open>\<open>content\<close> is what a file holds when it is read.\<close>

definition gk_gpio_getvalue :: "gpio_fs \<Rightarrow> (char list \<Rightarrow> char list) \<Rightarrow> nat \<Rightarrow> gpio_writes \<Rightarrow> int option \<times> gpio_writes" where
  "gk_gpio_getvalue fs content num w =
     (case gk_gpio_export fs num w of (ret, w) \<Rightarrow>
        if ret < 0 then (None, w)
        else if \<not> fs w (gpio_file num ''/value'') then (None, w)
        else (Some (atoi (content (gpio_file num ''/value''))), w))"

definition gk_ircut_daymode :: "gpio_fs \<Rightarrow> gpio_writes \<Rightarrow> gpio_writes" where
  "gk_ircut_daymode fs w =
     snd (gk_gpio_setvalue fs GK_GPIO_IRLED 0 (snd (gk_gpio_setvalue fs GK_GPIO_IRCUT2 0
       (snd (gk_gpio_setvalue fs GK_GPIO_IRCUT1 1 w)))))"

definition gk_ircut_nightmode :: "gpio_fs \<Rightarrow> gpio_writes \<Rightarrow> gpio_writes" where
  "gk_ircut_nightmode fs w =
     snd (gk_gpio_setvalue fs GK_GPIO_IRLED 1 (snd (gk_gpio_setvalue fs GK_GPIO_IRCUT2 1
       (snd (gk_gpio_setvalue fs GK_GPIO_IRCUT1 0 w)))))"

definition gk_ircut_release :: "gpio_fs \<Rightarrow> gpio_writes \<Rightarrow> gpio_writes" where
  "gk_ircut_release fs w =
     snd (gk_gpio_setvalue fs GK_GPIO_IRCUT2 0 (snd (gk_gpio_setvalue fs GK_GPIO_IRCUT1 0 w)))"

definition gk_enable_speaker :: "gpio_fs \<Rightarrow> gpio_writes \<Rightarrow> gpio_writes" where
  "gk_enable_speaker fs w = snd (gk_gpio_setvalue fs GK_GPIO_SPEAKER 0 w)"

definition gk_disable_speaker :: "gpio_fs \<Rightarrow> gpio_writes \<Rightarrow> gpio_writes" where
  "gk_disable_speaker fs w = snd (gk_gpio_setvalue fs GK_GPIO_SPEAKER 1 w)"

definition gk_led1_on :: "gpio_fs \<Rightarrow> gpio_writes \<Rightarrow> gpio_writes" where
  "gk_led1_on fs w = snd (gk_gpio_setvalue fs GK_GPIO_LED1 1 w)"

definition gk_led1_off :: "gpio_fs \<Rightarrow> gpio_writes \<Rightarrow> gpio_writes" where
  "gk_led1_off fs w = snd (gk_gpio_setvalue fs GK_GPIO_LED1 0 w)"

definition gk_led2_on :: "gpio_fs \<Rightarrow> gpio_writes \<Rightarrow> gpio_writes" where
  "gk_led2_on fs w = snd (gk_gpio_setvalue fs GK_GPIO_LED2 1 w)"

definition gk_led2_off :: "gpio_fs \<Rightarrow> gpio_writes \<Rightarrow> gpio_writes" where
  "gk_led2_off fs w = snd (gk_gpio_setvalue fs GK_GPIO_LED2 0 w)"

definition init_line :: "gpio_fs \<Rightarrow> gpio_writes \<Rightarrow> nat \<times> int \<times> int \<Rightarrow> gpio_writes" where
  "init_line fs w d =
     (case d of (num, def_value, direction) \<Rightarrow>
        let w = snd (gk_gpio_export fs num w) in
        if direction = 0 then snd (gk_gpio_setdir fs num ''in'' w)
        else snd (gk_gpio_setvalue fs num def_value (snd (gk_gpio_setdir fs num ''out'' w))))"

definition gk_gpio_init :: "gpio_fs \<Rightarrow> gpio_writes \<Rightarrow> gpio_writes" where
  "gk_gpio_init fs w = foldl (init_line fs) w stGpioDef"

section \<open>The motor\<close>

abbreviation (input) "MOTOR_FOREWARD \<equiv> 1 :: int"
abbreviation (input) "MOTOR_BACKWARD \<equiv> 2 :: int"

datatype aliyun_ptz_action_t =
    ALIYUN_PTZ_LEFT | ALIYUN_PTZ_RIGHT | ALIYUN_PTZ_UP | ALIYUN_PTZ_DOWN
  | ALIYUN_PTZ_LEFT_UP | ALIYUN_PTZ_RIGHT_UP | ALIYUN_PTZ_LEFT_DOWN | ALIYUN_PTZ_RIGHT_DOWN
  | ALIYUN_PTZ_ZOOM_IN | ALIYUN_PTZ_ZOOM_OUT

record stMotorCtrl =
  iEnable :: int
  iDir :: int
  iSteps :: int

record stPtzCtrlInfo =
  xMotor :: stMotorCtrl
  yMotor :: stMotorCtrl

definition motor_zero :: stMotorCtrl where
  "motor_zero = \<lparr>iEnable = 0, iDir = 0, iSteps = 0\<rparr>"

definition motor_move :: "int \<Rightarrow> int \<Rightarrow> stMotorCtrl" where
  "motor_move dir step = \<lparr>iEnable = 1, iDir = dir, iSteps = step\<rparr>"

text \<open>The result and what is passed to the driver, if it is called.\<close>

definition motor_control :: "aliyun_ptz_action_t \<Rightarrow> int \<Rightarrow> int \<times> stPtzCtrlInfo option" where
  "motor_control action step =
     (let run = (\<lambda>x y. (0, Some \<lparr>xMotor = x, yMotor = y\<rparr>)) in
      if step \<le> 0 then (- 1, None)
      else case action of
        ALIYUN_PTZ_LEFT \<Rightarrow> run (motor_move MOTOR_FOREWARD step) motor_zero
      | ALIYUN_PTZ_RIGHT \<Rightarrow> run (motor_move MOTOR_BACKWARD step) motor_zero
      | ALIYUN_PTZ_DOWN \<Rightarrow> run motor_zero (motor_move MOTOR_FOREWARD step)
      | ALIYUN_PTZ_UP \<Rightarrow> run motor_zero (motor_move MOTOR_BACKWARD step)
      | ALIYUN_PTZ_LEFT_UP \<Rightarrow> run (motor_move MOTOR_FOREWARD step) (motor_move MOTOR_BACKWARD step)
      | ALIYUN_PTZ_RIGHT_UP \<Rightarrow> run (motor_move MOTOR_BACKWARD step) (motor_move MOTOR_BACKWARD step)
      | ALIYUN_PTZ_LEFT_DOWN \<Rightarrow> run (motor_move MOTOR_FOREWARD step) (motor_move MOTOR_FOREWARD step)
      | ALIYUN_PTZ_RIGHT_DOWN \<Rightarrow> run (motor_move MOTOR_BACKWARD step) (motor_move MOTOR_FOREWARD step)
      | _ \<Rightarrow> (- 1, None))"

datatype motor_status_t = MOTOR_STATUS_IDLE | MOTOR_STATUS_RUN | MOTOR_STATUS_PAUSE | MOTOR_STATUS_CALIBRATE

text \<open>The motor's thread only leaves its first status.\<close>

definition motor_proc :: "motor_status_t \<Rightarrow> int \<times> motor_status_t" where
  "motor_proc st = (0, case st of MOTOR_STATUS_IDLE \<Rightarrow> MOTOR_STATUS_RUN | _ \<Rightarrow> st)"

section \<open>What the motor does\<close>

text \<open>How far a motor turns, forward counted positive.\<close>

definition turns :: "stMotorCtrl \<Rightarrow> int" where
  "turns c = (if iEnable c = 0 then 0 else if iDir c = MOTOR_FOREWARD then iSteps c else - iSteps c)"

fun heading :: "aliyun_ptz_action_t \<Rightarrow> (int \<times> int) option" where
  "heading ALIYUN_PTZ_LEFT = Some (1, 0)"
| "heading ALIYUN_PTZ_RIGHT = Some (- 1, 0)"
| "heading ALIYUN_PTZ_UP = Some (0, - 1)"
| "heading ALIYUN_PTZ_DOWN = Some (0, 1)"
| "heading ALIYUN_PTZ_LEFT_UP = Some (1, - 1)"
| "heading ALIYUN_PTZ_RIGHT_UP = Some (- 1, - 1)"
| "heading ALIYUN_PTZ_LEFT_DOWN = Some (1, 1)"
| "heading ALIYUN_PTZ_RIGHT_DOWN = Some (- 1, 1)"
| "heading _ = None"

text \<open>
  An action of the cloud client moves the two motors along its heading by the given
  number of steps; a step that is not positive and the zoom actions are refused and reach no
  motor.
\<close>

theorem motor_control_heading:
  "(case motor_control action step of
      (ret, None) \<Rightarrow> ret = - 1 \<and> (step \<le> 0 \<or> heading action = None)
    | (ret, Some c) \<Rightarrow> ret = 0 \<and> 0 < step \<and> heading action \<noteq> None
        \<and> (turns (xMotor c), turns (yMotor c)) = (step * fst (the (heading action)), step * snd (the (heading action))))"
  by (cases action) (simp_all add: motor_control_def motor_move_def motor_zero_def turns_def)

section \<open>What the lines hold\<close>

text \<open>What a file was last written.\<close>

definition last_write :: "gpio_writes \<Rightarrow> char list \<Rightarrow> char list option" where
  "last_write w path = map_of (rev w) path"

lemma last_write_snoc [simp]: "last_write (w @ [(p, v)]) q = (if q = p then Some v else last_write w q)"
  by (simp add: last_write_def)

text \<open>The documented kernel: a line that is exported has its two files.\<close>

definition gpio_kernel :: "gpio_fs \<Rightarrow> bool" where
  "gpio_kernel fs = ((\<forall>w. fs w GPIO_EXPORT)
     \<and> (\<forall>w num. fs (w @ [(GPIO_EXPORT, dec_string num)]) (gpio_file num ''/value''))
     \<and> (\<forall>w num. fs w (gpio_file num ''/value'') \<longrightarrow> fs w (gpio_file num ''/direction''))
     \<and> (\<forall>w num p v. fs w (gpio_file num ''/value'') \<longrightarrow> p \<noteq> GPIO_UNEXPORT \<longrightarrow> fs (w @ [(p, v)]) (gpio_file num ''/value'')))"

lemma gpio_file_inj: "gpio_file n s = gpio_file m s \<Longrightarrow> n = m"
proof -
  let ?val = "foldl (\<lambda>a c. 10 * a + (of_char c - 48)) (0 :: int)"
  have val: "?val (dec_string n) = int n" for n
  proof (induction n rule: dec_string.induct)
    case (1 n)
    show ?case
    proof (cases "n < 10")
      case True
      then show ?thesis by (subst dec_string.simps) (simp add: digit_char_val)
    next
      case False
      then show ?thesis using 1 by (subst dec_string.simps) (simp add: digit_char_val zdiv_int zmod_int)
    qed
  qed
  assume "gpio_file n s = gpio_file m s"
  then have "dec_string n = dec_string m" by (simp add: gpio_file_def)
  then have "int n = int m" by (simp only: val [symmetric])
  then show "n = m" by simp
qed

lemma gpio_file_kinds: "gpio_file n ''/value'' \<noteq> gpio_file m ''/direction''"
proof
  assume "gpio_file n ''/value'' = gpio_file m ''/direction''"
  then have "last (gpio_file n ''/value'') = last (gpio_file m ''/direction'')" by simp
  then show False by (simp add: gpio_file_def)
qed

lemma gpio_file_not_export: "gpio_file n s \<noteq> GPIO_EXPORT" "gpio_file n s \<noteq> GPIO_UNEXPORT"
  by (simp_all add: gpio_file_def)

lemmas gpio_files [simp] = gpio_file_kinds gpio_file_kinds [symmetric] gpio_file_not_export gpio_file_not_export [symmetric]

text \<open>An export leaves the line usable and touches no other file.\<close>

lemma export_ready:
  assumes "gpio_kernel fs"
  shows "\<exists>w'. gk_gpio_export fs num w = (0, w') \<and> fs w' (gpio_file num ''/value'')
    \<and> (\<forall>n s. last_write w' (gpio_file n s) = last_write w (gpio_file n s))"
  using assms by (auto simp: gk_gpio_export_def gpio_kernel_def)

lemma setvalue_writes:
  assumes "gpio_kernel fs"
  shows "\<exists>w'. gk_gpio_setvalue fs num v w = (0, w') \<and> (\<forall>n s. last_write w' (gpio_file n s) =
     (if gpio_file n s = gpio_file num ''/value'' then Some (dec_string (if v \<noteq> 0 then 1 else 0)) else last_write w (gpio_file n s)))"
proof -
  obtain u where "gk_gpio_export fs num w = (0, u)" "fs u (gpio_file num ''/value'')"
    "\<forall>n s. last_write u (gpio_file n s) = last_write w (gpio_file n s)"
    using export_ready [OF assms] by blast
  then show ?thesis by (simp add: gk_gpio_setvalue_def)
qed

definition line_set :: "gpio_writes \<Rightarrow> nat \<times> int \<times> int \<Rightarrow> bool" where
  "line_set w d = (case d of (num, def_value, direction) \<Rightarrow>
     last_write w (gpio_file num ''/direction'') = Some (if direction = 0 then ''in'' else ''out'')
     \<and> (direction \<noteq> 0 \<longrightarrow> last_write w (gpio_file num ''/value'') = Some (dec_string (if def_value \<noteq> 0 then 1 else 0))))"

lemma init_line_sets:
  assumes "gpio_kernel fs"
  shows "line_set (init_line fs w d) d" "fst e \<noteq> fst d \<Longrightarrow> line_set w e \<Longrightarrow> line_set (init_line fs w d) e"
proof -
  obtain num v dir where d: "d = (num, v, dir)" by (cases d) auto
  obtain u where u: "gk_gpio_export fs num w = (0, u)" "fs u (gpio_file num ''/value'')"
    "\<And>n s. last_write u (gpio_file n s) = last_write w (gpio_file n s)"
    using export_ready [OF assms] by blast
  have "fs u (gpio_file num ''/direction'')" using assms u(2) by (auto simp: gpio_kernel_def)
  then have dirs: "snd (gk_gpio_setdir fs num t u) = u @ [(gpio_file num ''/direction'', t)]" for t
    by (simp add: gk_gpio_setdir_def)
  obtain x where x: "gk_gpio_setvalue fs num v (u @ [(gpio_file num ''/direction'', ''out'')]) = (0, x)"
    "\<And>n s. last_write x (gpio_file n s) = (if gpio_file n s = gpio_file num ''/value'' then Some (dec_string (if v \<noteq> 0 then 1 else 0))
        else last_write (u @ [(gpio_file num ''/direction'', ''out'')]) (gpio_file n s))"
    using setvalue_writes [OF assms, of num v "u @ [(gpio_file num ''/direction'', ''out'')]"] by blast
  show "line_set (init_line fs w d) d"
    by (simp add: d init_line_def u(1) dirs x(1) Let_def line_set_def x(2))
  have other: "last_write (init_line fs w d) (gpio_file n s) = last_write w (gpio_file n s)"
    if "gpio_file n s \<noteq> gpio_file num ''/value''" "gpio_file n s \<noteq> gpio_file num ''/direction''" for n s
    using that by (simp add: d init_line_def u(1,3) dirs x(1) Let_def x(2))
  assume e: "fst e \<noteq> fst d" "line_set w e"
  then have "gpio_file (fst e) s \<noteq> gpio_file num s" for s using gpio_file_inj [of "fst e" s num] by (auto simp: d)
  then have "last_write (init_line fs w d) (gpio_file (fst e) ''/value'') = last_write w (gpio_file (fst e) ''/value'')"
    "last_write (init_line fs w d) (gpio_file (fst e) ''/direction'') = last_write w (gpio_file (fst e) ''/direction'')"
    by (simp_all add: other)
  then show "line_set (init_line fs w d) e" using e(2) by (cases e) (simp add: line_set_def)
qed

lemma init_lines_set:
  assumes "gpio_kernel fs" "distinct (map fst ds)"
  shows "d \<in> set ds \<Longrightarrow> line_set (foldl (init_line fs) w ds) d"
    and "fst e \<notin> fst ` set ds \<Longrightarrow> line_set w e \<Longrightarrow> line_set (foldl (init_line fs) w ds) e"
proof -
  have "(\<forall>d \<in> set ds. line_set (foldl (init_line fs) w ds) d)
    \<and> (\<forall>e. fst e \<notin> fst ` set ds \<longrightarrow> line_set w e \<longrightarrow> line_set (foldl (init_line fs) w ds) e)"
    using assms(2)
  proof (induction ds arbitrary: w)
    case Nil
    then show ?case by simp
  next
    case (Cons d ds)
    have ih: "\<forall>x \<in> set ds. line_set (foldl (init_line fs) (init_line fs w d) ds) x"
      "\<forall>e. fst e \<notin> fst ` set ds \<longrightarrow> line_set (init_line fs w d) e \<longrightarrow> line_set (foldl (init_line fs) (init_line fs w d) ds) e"
      using Cons.IH [of "init_line fs w d"] Cons.prems by simp_all
    have "fst d \<notin> fst ` set ds" using Cons.prems by simp
    then have "line_set (foldl (init_line fs) (init_line fs w d) ds) d"
      using ih(2) init_line_sets(1) [OF assms(1)] by blast
    then show ?case using ih init_line_sets(2) [OF assms(1)] by simp
  qed
  then show "d \<in> set ds \<Longrightarrow> line_set (foldl (init_line fs) w ds) d"
    and "fst e \<notin> fst ` set ds \<Longrightarrow> line_set w e \<Longrightarrow> line_set (foldl (init_line fs) w ds) e" by blast+
qed

text \<open>
  With a kernel whose exported lines have their files, the initialisation leaves every
  line of the board with the direction of its table entry and every output at its default
  level, whatever was written before.
\<close>

theorem gpio_init_sets_lines:
  assumes "gpio_kernel fs"
  shows "\<forall>d \<in> set stGpioDef. line_set (gk_gpio_init fs w) d"
proof -
  have "distinct (map fst stGpioDef)" by (simp add: stGpioDef_def)
  from init_lines_set(1) [OF assms this] show ?thesis by (simp add: gk_gpio_init_def)
qed

text \<open>A line that is exported is never unexported.\<close>

lemma unexport_keeps_exported:
  "fs w (gpio_file num ''/value'') \<Longrightarrow> gk_gpio_unexport fs num w = (0, w)"
  by (simp add: gk_gpio_unexport_def)

definition demo_kernel :: gpio_fs where
  "demo_kernel w path = (path = GPIO_EXPORT \<or> path = GPIO_UNEXPORT
     \<or> (\<exists>num. (GPIO_EXPORT, dec_string num) \<in> set w \<and> (path = gpio_file num ''/value'' \<or> path = gpio_file num ''/direction'')))"

lemma gpio_init_sets_lines_witness:
  "\<forall>d \<in> set stGpioDef. line_set (gk_gpio_init demo_kernel []) d"
proof (rule gpio_init_sets_lines)
  show "gpio_kernel demo_kernel"
    by (auto simp: gpio_kernel_def demo_kernel_def dest: gpio_file_inj)
qed

end
