(* ===== verification/Device.thy ===== *)
theory Device
  imports SdCard Board ServerLoop
begin

text \<open>
  The device server of \<open>server/device/device.c\<close>: its three threads (card, hotplug events,
  motor), the reset button, its message handler, its state machine and its loop.  The build is
  the release build.
\<close>

section \<open>State\<close>

abbreviation (input) "DEVICE_THREAD_SD \<equiv> 0 :: nat"
abbreviation (input) "DEVICE_THREAD_HOTPLUG \<equiv> 1 :: nat"
abbreviation (input) "DEVICE_THREAD_MOTOR \<equiv> 2 :: nat"
abbreviation (input) "DEVICE_INIT_CONDITION_NUM \<equiv> 0 :: nat"
abbreviation (input) "DEVICE_EXIT_CONDITION \<equiv> 0 :: int"
abbreviation (input) "DEVICE_PARAM_SD_INFO \<equiv> 0 :: int"
abbreviation (input) "AUDIO_RESOURCE_REBOOT \<equiv> 4 :: int"
abbreviation (input) "AUDIO_RESOURCE_RESET \<equiv> 5 :: int"
abbreviation (input) "SD_PLUG_ADD_CMD \<equiv> ''add@/devices/platform/soc/10010000.sdhci/mmc_host/mmc0/mmc0:''"
abbreviation (input) "SD_PLUG_REMOVE_CMD \<equiv> ''remove@/devices/platform/soc/10010000.sdhci/mmc_host/mmc0/mmc0:''"

text \<open>The calls of the server on the system, oldest first.\<close>

datatype dev_call =
    Thread_create nat
  | Drop_caches
  | Erase_network
  | Erase_config
  | Erase_timezone
  | Sync_disk
  | Sleep_s int
  | Reset_flag
  | Null_call

record dev_server = server_state +
  dev_card :: sd_state
  dev_lines :: gpio_writes
  motor_status :: motor_status_t
  iCounts :: int
  iCounts2 :: int
  iUptime :: int
  dev_calls :: "dev_call list"

text \<open>The configuration the setup reads, and what the system answers.\<close>

record dev_env =
  day_night_mode :: int
  speaker_enable :: int
  led_enable :: int
  create_ok :: "nat \<Rightarrow> bool"
  gpio_fs :: gpio_fs
  gpio_content :: "char list \<Rightarrow> char list"
  uptime_ms :: int

abbreviation "dev_do c s \<equiv> s\<lparr>dev_calls := dev_calls s @ [c]\<rparr>"

section \<open>Hotplug events\<close>

text \<open>
  One event of the kernel, as received: its strings end in zeros, which become line feeds; the
  address ends at a line feed, at a slash or with the buffer.  More than 31 characters run over
  the buffer of the address.
\<close>

definition uevent_text :: "char list \<Rightarrow> char list" where
  "uevent_text buf = map (\<lambda>c. if c = CHR 0x00 then CHR 0x0A else c) buf"

definition uevent_address :: "char list \<Rightarrow> char list" where
  "uevent_address pos = takeWhile (\<lambda>c. c \<noteq> CHR 0x00 \<and> c \<noteq> CHR 0x0A \<and> c \<noteq> CHR ''/'') pos"

definition hotplug_event :: "char list \<Rightarrow> sd_state \<Rightarrow> sd_state" where
  "hotplug_event buf s =
     (if buf = [] then s
      else case strstr (uevent_text buf) SD_PLUG_ADD_CMD of
        Some pos \<Rightarrow>
          let address = uevent_address (drop (length SD_PLUG_ADD_CMD) pos) in
          if address \<noteq> [] then update_hotplug_event True address s else s
      | None \<Rightarrow>
          (case strstr (uevent_text buf) SD_PLUG_REMOVE_CMD of
             Some pos \<Rightarrow> update_hotplug_event False [] s
           | None \<Rightarrow> s))"

section \<open>The threads\<close>

definition dev_thread_begins :: "nat \<Rightarrow> dev_server \<Rightarrow> dev_server" where
  "dev_thread_begins i s =
     (let s = with_info (\<lambda>x. x\<lparr>thread_start := misc_set_bit (thread_start x) i\<rparr>) s in
      s\<lparr>bus := global_common_send_dummy (bus s) SERVER_DEVICE\<rparr>)"

definition dev_thread_ends :: "nat \<Rightarrow> dev_server \<Rightarrow> dev_server" where
  "dev_thread_ends i s =
     (let s = with_info (\<lambda>x. x\<lparr>thread_start := misc_clear_bit (thread_start x) i\<rparr>) s in
      s\<lparr>bus := global_common_send_dummy (bus s) SERVER_DEVICE\<rparr>)"

definition thread_told :: "nat \<Rightarrow> dev_server \<Rightarrow> bool" where
  "thread_told i s = (exit_flag (info s) \<noteq> 0 \<or> misc_get_bit (thread_exit (info s)) i \<noteq> 0)"

text \<open>One turn of each loop; \<open>None\<close> when the card's turn does not end.\<close>

definition sd_func :: "nat \<Rightarrow> sd_env \<Rightarrow> media_config \<Rightarrow> dev_server \<Rightarrow> dev_server option" where
  "sd_func fuel env mc s =
     (if thread_told DEVICE_THREAD_SD s then Some (dev_thread_ends DEVICE_THREAD_SD s)
      else case sd_proc fuel env mc (dev_card s) of
        Done c \<Rightarrow> Some (s\<lparr>dev_card := c\<rparr>)
      | _ \<Rightarrow> None)"

definition hotplug_func :: "char list \<Rightarrow> dev_server \<Rightarrow> dev_server" where
  "hotplug_func buf s =
     (if thread_told DEVICE_THREAD_HOTPLUG s then dev_thread_ends DEVICE_THREAD_HOTPLUG s
      else s\<lparr>dev_card := hotplug_event buf (dev_card s)\<rparr>)"

definition motor_func :: "dev_server \<Rightarrow> dev_server" where
  "motor_func s =
     (if thread_told DEVICE_THREAD_MOTOR s then dev_thread_ends DEVICE_THREAD_MOTOR s
      else s\<lparr>motor_status := snd (motor_proc (motor_status s))\<rparr>)"

section \<open>The reset button\<close>

definition dev_thread_termination :: "dev_server \<Rightarrow> dev_server" where
  "dev_thread_termination = send SERVER_MANAGER (msg_init\<lparr>m_message := MSG_DEVICE_SIGINT\<rparr>)"

definition play_sound :: "int \<Rightarrow> dev_server \<Rightarrow> dev_server" where
  "play_sound sound = send SERVER_AUDIO (msg_init\<lparr>m_message := MSG_AUDIO_PLAY_SOUND, m_arg_in := arg_zero\<lparr>cat := sound\<rparr>\<rparr>)"

definition factory_reset :: "dev_server \<Rightarrow> dev_server" where
  "factory_reset s =
     dev_do Reset_flag (dev_thread_termination (dev_do (Sleep_s 2) (play_sound AUDIO_RESOURCE_RESET
       (s\<lparr>dev_calls := dev_calls s @ [Erase_network, Erase_config, Erase_timezone, Sync_disk]\<rparr>))))"

definition device_check_reset :: "dev_env \<Rightarrow> dev_server \<Rightarrow> dev_server" where
  "device_check_reset env s =
     (let s = (if iUptime s \<le> 30000 then s\<lparr>iUptime := uptime_ms env\<rparr> else s);
          s = s\<lparr>iCounts2 := iCounts2 s + 1\<rparr>;
          s = (if iCounts2 s > 20 \<and> iUptime s > 30000 then (dev_do Drop_caches s)\<lparr>iCounts2 := 0\<rparr> else s) in
      case gk_gpio_getvalue (gpio_fs env) (gpio_content env) GK_GPIO_RESET (dev_lines s) of (value, w) \<Rightarrow>
        let s = s\<lparr>dev_lines := w\<rparr> in
        case value of
          None \<Rightarrow> s
        | Some iValue \<Rightarrow>
            if iValue = 0 then
              let s = s\<lparr>iCounts := iCounts s + 1\<rparr> in
              if iCounts s \<ge> 5 then factory_reset s else s
            else s\<lparr>iCounts := 0\<rparr>)"

definition device_reboot :: "dev_server \<Rightarrow> dev_server" where
  "device_reboot s =
     dev_do Reset_flag (dev_thread_termination (dev_do (Sleep_s 2) (play_sound AUDIO_RESOURCE_REBOOT s)))"

section \<open>The time zone\<close>

text \<open>The file of the zone and the command run for it.\<close>

definition zone_file :: "int \<Rightarrow> char list" where
  "zone_file zone =
     (if zone = 0 then ''/misc/zoneinfo/Etc/GMT''
      else if zone \<le> 12 \<and> zone > 0 then ''/misc/zoneinfo/Etc/GMT-'' @ dec_string (nat zone)
      else if zone > 12 \<and> zone < 24 then ''/misc/zoneinfo/Etc/GMT+'' @ dec_string (nat (24 - zone))
      else [])"

text \<open>The result, the command and the zone stored in the configuration; \<open>run\<close> is \<open>system\<close>.\<close>

definition device_set_timezone :: "(char list \<Rightarrow> int) \<Rightarrow> int \<Rightarrow> int \<times> char list option \<times> int option" where
  "device_set_timezone run zone =
     (if zone < 0 \<or> zone > 23 then (- 1, None, None)
      else let cmd = ''rm /misc/localtime;cp -rf '' @ zone_file zone @ '' /misc/localtime'' in
        (run cmd, Some cmd, if run cmd = 0 then Some zone else None))"

section \<open>Messages\<close>

definition device_message_filter :: "msg \<Rightarrow> dev_server \<Rightarrow> bool" where
  "device_message_filter m s = error_filter m s"

text \<open>The answer to a question for a parameter.\<close>

definition para_answer :: "msg \<Rightarrow> sd_state \<Rightarrow> msg" where
  "para_answer m c =
     msg_init\<lparr>m_message := m_message m OR 0x1000, m_sender := SERVER_DEVICE, m_receiver := SERVER_DEVICE,
       m_arg_in := arg_zero\<lparr>cat := cat (m_arg_in m),
         dog := (if cat (m_arg_in m) = DEVICE_PARAM_SD_INFO \<and> sd_get_file_status c \<noteq> 0
           \<and> sd_get_status c = SD_ALIYUN_STATUS_NORMAL then 1 else 0)\<rparr>\<rparr>"

definition handle_message :: "dev_env \<Rightarrow> msg \<Rightarrow> dev_server \<Rightarrow> dev_server" where
  "handle_message env m s =
     (let k = m_message m in
      if k = MSG_MANAGER_EXIT then on_manager_exit m s
      else if k = MSG_DEVICE_GET_PARA then send (m_receiver m) (para_answer m (dev_card s)) s
      else if k = MSG_MANAGER_TIMER_ON then
        (if handler (m_arg_in m) = H_device_check_reset then device_check_reset env s
         else if handler (m_arg_in m) = H_NULL then dev_do Null_call s
         else s)
      else if k = MSG_MANAGER_EXIT_ACK then on_exit_ack m s
      else s)"

definition dev_take_message :: "dev_env \<Rightarrow> dev_server \<Rightarrow> dev_server" where
  "dev_take_message env = take_message SERVER_DEVICE lock_block device_message_filter (handle_message env)"

definition dev_message_proc :: "dev_env \<Rightarrow> dev_server \<Rightarrow> dev_server" where
  "dev_message_proc env = message_proc SERVER_DEVICE lock_block device_message_filter (handle_message env)"

section \<open>The state machine\<close>

definition dev_server_init :: "dev_server \<Rightarrow> dev_server" where
  "dev_server_init s = (if misc_full_bit (init_status (info s)) DEVICE_INIT_CONDITION_NUM \<noteq> 0 then set_status STATUS_WAIT s else s)"

text \<open>The lines at the end of the setup.\<close>

definition setup_lines :: "dev_env \<Rightarrow> gpio_writes \<Rightarrow> gpio_writes" where
  "setup_lines env w =
     (let fs = gpio_fs env;
          w = gk_gpio_init fs w;
          w = (if day_night_mode env = 0 then gk_ircut_daymode fs w
               else if day_night_mode env = 1 then gk_ircut_nightmode fs w else w);
          w = gk_ircut_release fs w;
          w = (if speaker_enable env \<noteq> 0 then gk_enable_speaker fs w else gk_disable_speaker fs w) in
      if led_enable env \<noteq> 0 then gk_led2_off fs (gk_led1_on fs w) else w)"

text \<open>A thread that cannot be created ends the setup, and the status stays.\<close>

definition dev_server_setup :: "dev_env \<Rightarrow> dev_server \<Rightarrow> dev_server" where
  "dev_server_setup env s =
     (if \<not> create_ok env DEVICE_THREAD_SD then s
      else let s = dev_do (Thread_create DEVICE_THREAD_SD) s in
        if \<not> create_ok env DEVICE_THREAD_HOTPLUG then s
        else let s = dev_do (Thread_create DEVICE_THREAD_HOTPLUG) s in
          if \<not> create_ok env DEVICE_THREAD_MOTOR then s
          else let s = dev_do (Thread_create DEVICE_THREAD_MOTOR) s;
                   s = s\<lparr>dev_lines := setup_lines env (dev_lines s)\<rparr> in
            set_status STATUS_IDLE
              (send SERVER_MANAGER (msg_init\<lparr>m_message := MSG_MANAGER_TIMER_ADD, m_sender := SERVER_DEVICE,
                 m_arg_in := arg_zero\<lparr>cat := 500, dog := 0, duck := 0, handler := H_device_check_reset\<rparr>\<rparr>) s))"

definition dev_server_start :: "dev_server \<Rightarrow> dev_server" where
  "dev_server_start s = set_status STATUS_RUN s"

text \<open>\<open>exit\<close> is set and cleared again with the whole record.\<close>

definition dev_server_restart :: "dev_server \<Rightarrow> dev_server" where
  "dev_server_restart s = set_status STATUS_NONE ((with_info (\<lambda>x. x\<lparr>exit_flag := 1\<rparr>) s)\<lparr>info := info_zero ()\<rparr>)"

definition dev_server_release_2 :: "dev_server \<Rightarrow> dev_server" where
  "dev_server_release_2 s = s\<lparr>bus := (bus s)(SERVER_DEVICE := msg_buffer_release (bus s SERVER_DEVICE))\<rparr>"

definition dev_server_release_3 :: "dev_server \<Rightarrow> dev_server" where
  "dev_server_release_3 s =
     send SERVER_MANAGER (msg_init\<lparr>m_message := MSG_MANAGER_EXIT_ACK, m_sender := SERVER_DEVICE\<rparr>)
       (s\<lparr>info := info_zero ()\<rparr>)"

definition task_proc :: "dev_server \<Rightarrow> dev_server" where
  "task_proc s =
     (if status (info s) = STATUS_NONE then set_status STATUS_INIT s
      else if status (info s) = STATUS_WAIT then set_status STATUS_SETUP s
      else if status (info s) = STATUS_IDLE then set_status STATUS_START s
      else s)"

definition state_machine :: "dev_env \<Rightarrow> dev_server \<Rightarrow> dev_server" where
  "state_machine env s =
     (let st = status (info s) in
      if st = STATUS_INIT then dev_server_init s
      else if st = STATUS_SETUP then dev_server_setup env s
      else if st = STATUS_START then dev_server_start s
      else if st = STATUS_STOP then s
      else if st = STATUS_RESTART then dev_server_restart s
      else if st = STATUS_ERROR then with_info (\<lambda>x. x\<lparr>status := EXIT_INIT, msg_lock := 0\<rparr>) s
      else if st = EXIT_INIT then with_info exit_init s
      else if st = EXIT_SERVER then (if quit_status (info s) = 0 then set_status EXIT_STAGE1 s else s)
      else if st = EXIT_STAGE1 then set_status EXIT_THREAD s
      else if st = EXIT_THREAD then
        (let s = with_info (\<lambda>x. x\<lparr>thread_exit := thread_start x\<rparr>) s in
         if thread_start (info s) = 0 then set_status EXIT_STAGE2 s else s)
      else if st = EXIT_STAGE2 then set_status EXIT_FINISH (dev_server_release_2 s)
      else if st = EXIT_FINISH then with_info (\<lambda>x. x\<lparr>exit_flag := 1, status := STATUS_NONE\<rparr>) s
      else s)"

section \<open>The loop\<close>

definition dev_server_begin :: "int \<Rightarrow> int \<Rightarrow> dev_server \<Rightarrow> dev_server" where
  "dev_server_begin msg_overrun msg_buffer_size_large s =
     (let s = s\<lparr>bus := (bus s)(SERVER_DEVICE := msg_buffer_init True (bus s SERVER_DEVICE) msg_overrun msg_buffer_size_large)\<rparr> in
      with_info (\<lambda>x. x\<lparr>quit_status := DEVICE_EXIT_CONDITION, init := 1\<rparr>) s)"

definition dev_server_turn :: "dev_env \<Rightarrow> dev_server \<Rightarrow> dev_server" where
  "dev_server_turn env = loop_turn (state_machine env) (\<lambda>s. False) task_proc (dev_message_proc env)"

definition dev_server_round :: "dev_env \<Rightarrow> dev_server \<Rightarrow> dev_server" where
  "dev_server_round env = loop_round SERVER_DEVICE (dev_server_turn env) (dev_take_message env)"

section \<open>The exit\<close>

lemma dev_thread_ends_frame:
  "info (dev_thread_ends i s) = (info s)\<lparr>thread_start := misc_clear_bit (thread_start (info s)) i,
     thread_exit := thread_exit (info s)\<rparr>"
  "bus (dev_thread_ends i s) SERVER_DEVICE = global_common_send_dummy (bus s) SERVER_DEVICE SERVER_DEVICE"
  "waiting (dev_thread_ends i s) = waiting s"
  by (simp_all add: dev_thread_ends_def Let_def)

interpretation device_threads: thread_pool SERVER_DEVICE dev_thread_ends "\<lambda>i n. n"
  by unfold_locales (simp_all add: is_server_def dev_thread_ends_frame)

definition dev_settle :: "dev_server \<Rightarrow> dev_server" where
  "dev_settle = settle_threads dev_thread_ends [DEVICE_THREAD_SD, DEVICE_THREAD_HOTPLUG, DEVICE_THREAD_MOTOR]"

lemma device_bits: "bit (7 :: int) k = (k \<in> set [DEVICE_THREAD_SD, DEVICE_THREAD_HOTPLUG, DEVICE_THREAD_MOTOR])"
proof -
  have "(7 :: int) = mask 3" by (simp add: mask_eq_exp_minus_1)
  then show ?thesis by (simp only: bit_mask_iff) auto
qed

lemma dev_lock_block_open: "msg_lock (info s) = 0 \<Longrightarrow> lock_block s = (False, s)"
  by (simp add: lock_block_def)

lemmas dev_machine_defs = state_machine_def ladder_def exit_init_def dev_server_release_2_def

interpretation device_exit: exit_ladder SERVER_DEVICE 7 "state_machine env" "\<lambda>s. False"
    task_proc lock_block device_message_filter "handle_message env" dev_settle "\<lambda>s. True"
  for env
proof unfold_locales
  fix s :: dev_server and m
  show "status (info s) \<in> exit_states \<Longrightarrow> climbs (info s) (info (state_machine env s))"
    by (rule ladder_keeps) (auto simp: dev_machine_defs Let_def)
  show "status (info s) \<in> exit_states \<Longrightarrow> bus (state_machine env s) SERVER_DEVICE =
      (if status (info s) = EXIT_STAGE2 then msg_buffer_release (bus s SERVER_DEVICE) else bus s SERVER_DEVICE)"
    by (auto simp: dev_machine_defs Let_def)
  show "status (info s) \<in> exit_states \<Longrightarrow>
      waiting (state_machine env s) = waiting s \<and> \<not> False \<and> True"
    by (auto simp: dev_machine_defs Let_def)
  show "status (info s) \<in> exit_states \<Longrightarrow> task_proc s = s" by (auto simp: task_proc_def)
  show "\<exists>v. task_proc s = set_status v s"
    by (auto simp: task_proc_def intro: exI [of _ "status (info s)"])
  show "m_message m = MSG_MANAGER_DUMMY \<Longrightarrow> handle_message env m s = s" by (simp add: handle_message_def)
  show "thread_start (info s) AND 7 = thread_start (info s) \<Longrightarrow> \<exists>e. info (dev_settle s) = (info s)\<lparr>
      thread_start := thread_start (info s) AND NOT (thread_exit (info s)), thread_exit := e\<rparr>"
    unfolding dev_settle_def by (rule device_threads.settle_info [OF _ device_bits])
  show "waiting (dev_settle s) = waiting s \<and> True"
    by (simp add: dev_settle_def device_threads.settle_rest)
  show "thread_start (info s) AND 7 = thread_start (info s) \<Longrightarrow> quiet (bus s SERVER_DEVICE) \<Longrightarrow>
      b_init (bus s SERVER_DEVICE) \<noteq> 0 \<Longrightarrow>
      quiet (bus (dev_settle s) SERVER_DEVICE) \<and> b_init (bus (dev_settle s) SERVER_DEVICE) \<noteq> 0
      \<and> (thread_start (info s) AND thread_exit (info s) \<noteq> 0 \<longrightarrow> contents (bus (dev_settle s) SERVER_DEVICE) \<noteq> [])"
    unfolding dev_settle_def by (rule device_threads.settle_queue [OF _ device_bits])
  show "thread_start (info s) = 0 \<Longrightarrow> bus (dev_settle s) SERVER_DEVICE = bus s SERVER_DEVICE"
    by (simp add: dev_settle_def device_threads.settle_none)
qed (simp_all add: dev_lock_block_open)

text \<open>One round, after the threads that were asked to exit have ended.\<close>

definition dev_exit_step :: "dev_env \<Rightarrow> dev_server \<Rightarrow> dev_server" where
  "dev_exit_step env s = loop_round SERVER_DEVICE (dev_server_turn env) (dev_take_message env) (dev_settle s)"

text \<open>
  A device server that was told to exit, whose queue holds nothing but dummies and whose
  threads end when their exit bit is set, leaves its loop within nine rounds, whichever of
  the card, hotplug and motor threads are running.
\<close>

theorem device_exit_completes:
  assumes "leaving SERVER_DEVICE 7 (\<lambda>s. True) s"
  shows "\<exists>n \<le> 9. exit_flag (info ((dev_exit_step env ^^ n) s)) \<noteq> 0"
proof -
  have "dev_exit_step env = (\<lambda>s. loop_round SERVER_DEVICE
      (loop_turn (state_machine env) (\<lambda>s. False) task_proc
        (message_proc SERVER_DEVICE lock_block device_message_filter (handle_message env)))
      (take_message SERVER_DEVICE lock_block device_message_filter (handle_message env)) (dev_settle s))"
    by (rule ext) (simp add: dev_exit_step_def dev_server_turn_def dev_message_proc_def dev_take_message_def)
  then show ?thesis using device_exit.leaves_loop [OF assms] by simp
qed

section \<open>A card that is plugged in\<close>

lemma strstr_at_start: "needle \<noteq> [] \<Longrightarrow> strstr (needle @ rest) needle = Some (needle @ rest)"
proof (cases needle)
  case (Cons c cs)
  have "take (length (c # cs)) (c # (cs @ rest)) = c # cs" by simp
  then show ?thesis unfolding Cons append_Cons strstr.simps(2) by (simp only: if_True refl)
next
  case Nil
  assume "needle \<noteq> []"
  with Nil show ?thesis by contradiction
qed

definition plain_address :: "char list \<Rightarrow> bool" where
  "plain_address address = (address \<noteq> [] \<and> length address < 32
     \<and> (\<forall>c \<in> set address. c \<noteq> CHR 0x00 \<and> c \<noteq> CHR 0x0A \<and> c \<noteq> CHR ''/''))"

lemma uevent_add:
  assumes "plain_address address" "rest = [] \<or> hd rest \<in> {CHR 0x00, CHR 0x0A, CHR ''/''}"
  shows "hotplug_event (SD_PLUG_ADD_CMD @ address @ rest) s = update_hotplug_event True address s"
proof -
  have "uevent_text address = address"
    using assms(1) unfolding uevent_text_def plain_address_def by (intro map_idI) simp
  moreover have "uevent_text SD_PLUG_ADD_CMD = SD_PLUG_ADD_CMD"
    unfolding uevent_text_def by simp
  moreover have "uevent_text (a @ b) = uevent_text a @ uevent_text b" for a b
    by (simp add: uevent_text_def)
  ultimately have replaced: "uevent_text (SD_PLUG_ADD_CMD @ address @ rest) = SD_PLUG_ADD_CMD @ address @ uevent_text rest"
    by (simp only:)
  have tail: "takeWhile (\<lambda>c. c \<noteq> CHR 0x00 \<and> c \<noteq> CHR 0x0A \<and> c \<noteq> CHR ''/'') (uevent_text rest) = []"
    using assms(2) by (cases rest) (auto simp: uevent_text_def)
  have "uevent_address (address @ uevent_text rest) = address"
    unfolding uevent_address_def using assms(1) tail
    by (subst takeWhile_append2) (simp_all add: plain_address_def)
  moreover have "strstr (uevent_text (SD_PLUG_ADD_CMD @ address @ rest)) SD_PLUG_ADD_CMD = Some (SD_PLUG_ADD_CMD @ address @ uevent_text rest)"
    unfolding replaced by (rule strstr_at_start) simp
  moreover have "SD_PLUG_ADD_CMD @ address @ rest \<noteq> []" by simp
  moreover have "address \<noteq> []" using assms(1) by (simp add: plain_address_def)
  moreover have "drop (length SD_PLUG_ADD_CMD) (SD_PLUG_ADD_CMD @ xs) = xs" for xs
    by (simp only: drop_append drop_all order_refl diff_self_eq_0 drop0 append_Nil)
  ultimately show ?thesis unfolding hotplug_event_def by (simp only: option.case if_False if_True Let_def simp_thms)
qed

text \<open>
  A card whose insertion the kernel announces is mounted by the next two turns of the
  card's thread and its recordings are indexed, when its path and its node are there and the
  mount succeeds: the address is the text between the announcement and the next slash or end
  of string.
\<close>

theorem inserted_card_is_mounted:
  assumes "sd_card_status c = SD_NULL" "plain_address address" "rest = [] \<or> hd rest \<in> {CHR 0x00, CHR 0x0A, CHR ''/''}"
    and "present env (sd_plug_path address)" "cooperates env" "cooperates env2"
    and "file_manager_read_file_list mc ((sd_files c)\<lparr>folders := media_folders env2\<rparr>) = Some (0, fm)"
  shows "\<exists>c1 c2. sd_proc fuel env mc (hotplug_event (SD_PLUG_ADD_CMD @ address @ rest) c) = Done c1
    \<and> sd_proc fuel env2 mc c1 = Done c2 \<and> sd_get_status c2 = SD_ALIYUN_STATUS_NORMAL \<and> sd_files c2 = fm"
proof -
  define d where "d = hotplug_event (SD_PLUG_ADD_CMD @ address @ rest) c"
  have d: "d = update_hotplug_event True address c" unfolding d_def by (rule uevent_add [OF assms(2,3)])
  have c: "sd_card_status d = SD_NULL" "\<not> init_wait d" "sd_address d = address" "sd_files d = sd_files c"
    "sd_card_last_status d = sd_card_last_status c"
    using assms(1) by (simp_all add: d update_hotplug_event_def)
  have ne: "address \<noteq> []" using assms(2) by (simp add: plain_address_def)
  have nm: "sd_card_status (sd_switch env (see_card env d)) = SD_PLUGIN"
    "sd_files (sd_switch env (see_card env d)) = (sd_files c)\<lparr>folders := media_folders env\<rparr>"
    "sd_address (sd_switch env (see_card env d)) = address"
    using c ne assms(4) by (simp_all add: sd_switch_def sd_is_plugin_def access_plug_path_def see_card_def Let_def)
  obtain c1 where c1: "sd_proc fuel env mc d = Done c1"
    using proc_unmounted [OF assms(5), where s = d and fuel = fuel and mc = mc] nm by auto
  have f1: "sd_card_status c1 = SD_PLUGIN" "sd_card_last_status c1 = Some SD_PLUGIN"
    "sd_files c1 = (sd_files c)\<lparr>folders := media_folders env\<rparr>"
    using proc_frame(1,5,7) [OF c1] nm by simp_all
  let ?u = "sd_switch env2 (see_card env2 c1)"
  have u: "sd_card_status ?u = SD_MOUNT" "sd_card_last_status ?u = Some SD_PLUGIN"
    "sd_files ?u = (sd_files c)\<lparr>folders := media_folders env2\<rparr>"
    using f1 assms(6) by (auto simp: sd_switch_def sd_switch_parts cooperates_def see_card_def)
  obtain c2 where c2: "sd_proc fuel env2 mc c1 = Done c2" "sd_files c2 = fm"
    using proc_mounts [OF assms(6) u(1), where mc = mc and fm = fm and fuel = fuel] u assms(7) by auto
  have "sd_card_status c2 = SD_MOUNT" using proc_frame(1) [OF c2(1)] u(1) by simp
  then have "sd_get_status c2 = SD_ALIYUN_STATUS_NORMAL" by (simp add: sd_get_status_def)
  then show ?thesis using c1 [unfolded d_def] c2 by (intro exI [of _ c1] exI [of _ c2] conjI)
qed

section \<open>What the device server answers\<close>

text \<open>
  A question for the card is answered at the queue of the server the question names as
  its receiver, under the acknowledgement of the message, with the flag set exactly when the
  card is mounted and the index has been read or has not been read yet; nothing but that
  queue changes.
\<close>

theorem card_question_answered:
  assumes "m_message m = MSG_DEVICE_GET_PARA"
  shows "handle_message env m s = s\<lparr>bus := snd (global_common_send_message (bus s) (m_receiver m) (para_answer m (dev_card s)))\<rparr>
    \<and> m_message (para_answer m (dev_card s)) = MSG_DEVICE_GET_PARA_ACK
    \<and> (dog (m_arg_in (para_answer m (dev_card s))) = 1) =
        (cat (m_arg_in m) = DEVICE_PARAM_SD_INFO \<and> sd_card_status (dev_card s) = SD_MOUNT \<and> file_init (dev_card s) \<noteq> 0)"
proof -
  have "(sd_get_status c = SD_ALIYUN_STATUS_NORMAL) = (sd_card_status c = SD_MOUNT)" for c
    by (cases "sd_card_status c") (simp_all add: sd_get_status_def)
  then show ?thesis
    using assms by (auto simp: handle_message_def send_def para_answer_def sd_get_file_status_def)
qed

text \<open>
  The card counts as ready before its first scan: the status is set first, and the result of
  the scan is \<open>- 1\<close> until then.
\<close>

lemma ready_before_scan:
  assumes "sd_card_status c = SD_PLUGIN" "file_init c = - 1" "mounted env" "cat (m_arg_in m) = DEVICE_PARAM_SD_INFO"
  shows "dog (m_arg_in (para_answer m (sd_switch env c))) = 1"
  using assms by (simp add: sd_switch_def sd_is_mount_def para_answer_def sd_get_file_status_def sd_get_status_def)

section \<open>The reset button\<close>

text \<open>The readings of the button: pressed, released, or not readable.\<close>

definition reading :: "dev_env \<Rightarrow> gpio_writes \<Rightarrow> int option" where
  "reading env w = fst (gk_gpio_getvalue (gpio_fs env) (gpio_content env) GK_GPIO_RESET w)"

fun check_resets :: "dev_env list \<Rightarrow> dev_server \<Rightarrow> dev_server" where
  "check_resets [] s = s"
| "check_resets (e # es) s = check_resets es (device_check_reset e s)"

fun readings :: "dev_env list \<Rightarrow> dev_server \<Rightarrow> int option list" where
  "readings [] s = []"
| "readings (e # es) s = reading e (dev_lines s) # readings es (device_check_reset e s)"

text \<open>How many readable readings in a row, up to the last one, had the button pressed.\<close>

definition pressed_run :: "int option list \<Rightarrow> nat" where
  "pressed_run rs = length (takeWhile (\<lambda>v. v = Some 0) (rev (filter (\<lambda>v. v \<noteq> None) rs)))"

lemma pressed_run_snoc:
  "pressed_run (rs @ [None]) = pressed_run rs" "pressed_run (rs @ [Some 0]) = pressed_run rs + 1"
  "v \<noteq> 0 \<Longrightarrow> pressed_run (rs @ [Some v]) = 0"
  by (simp_all add: pressed_run_def)

definition resets :: "dev_server \<Rightarrow> nat" where
  "resets s = length (filter (\<lambda>c. c = Reset_flag) (dev_calls s))"

lemma check_reset_counts:
  "iCounts (device_check_reset e s) =
     (case reading e (dev_lines s) of None \<Rightarrow> iCounts s | Some v \<Rightarrow> if v = 0 then iCounts s + 1 else 0)"
  "resets (device_check_reset e s) =
     (if reading e (dev_lines s) = Some 0 \<and> iCounts s + 1 \<ge> 5 then resets s + 1 else resets s)"
  by (auto simp: device_check_reset_def reading_def factory_reset_def resets_def dev_thread_termination_def play_sound_def
      send_def Let_def split: prod.splits option.splits)

lemma check_resets_snoc: "check_resets (es @ [e]) s = device_check_reset e (check_resets es s)"
  by (induction es arbitrary: s) simp_all

lemma readings_snoc: "readings (es @ [e]) s = readings es s @ [reading e (dev_lines (check_resets es s))]"
  by (induction es arbitrary: s) simp_all

lemma check_resets_counts:
  "iCounts s = 0 \<Longrightarrow> iCounts (check_resets es s) = int (pressed_run (readings es s))"
proof (induction es rule: rev_induct)
  case Nil
  then show ?case by (simp add: pressed_run_def)
next
  case (snoc e es)
  then show ?case
    by (cases "reading e (dev_lines (check_resets es s))")
      (simp_all add: check_resets_snoc readings_snoc check_reset_counts pressed_run_snoc)
qed

text \<open>
  However the checks of the reset button come out, the next one erases the
  configuration exactly when it reads the button pressed and the four readable readings
  before it had it pressed too; a reading that fails neither counts nor interrupts.
\<close>

theorem reset_after_five_presses:
  assumes "iCounts s = 0"
  shows "(resets (check_resets (es @ [e]) s) \<noteq> resets (check_resets es s))
    = (reading e (dev_lines (check_resets es s)) = Some 0 \<and> pressed_run (readings es s) \<ge> 4)"
  using check_resets_counts [OF assms, of es] by (auto simp: check_resets_snoc check_reset_counts)

section \<open>The setup\<close>

definition created :: "nat \<Rightarrow> dev_server \<Rightarrow> nat" where
  "created i s = length (filter (\<lambda>c. c = Thread_create i) (dev_calls s))"

lemma setup_creates:
  "created i (dev_server_setup env s) = created i s
     + (if i = DEVICE_THREAD_SD \<and> create_ok env DEVICE_THREAD_SD
          \<or> i = DEVICE_THREAD_HOTPLUG \<and> create_ok env DEVICE_THREAD_SD \<and> create_ok env DEVICE_THREAD_HOTPLUG
          \<or> i = DEVICE_THREAD_MOTOR \<and> create_ok env DEVICE_THREAD_SD \<and> create_ok env DEVICE_THREAD_HOTPLUG
              \<and> create_ok env DEVICE_THREAD_MOTOR then 1 else 0)"
  by (auto simp: created_def dev_server_setup_def send_def Let_def)

lemma setup_status:
  "status (info (dev_server_setup env s)) = (if create_ok env DEVICE_THREAD_SD \<and> create_ok env DEVICE_THREAD_HOTPLUG
     \<and> create_ok env DEVICE_THREAD_MOTOR then STATUS_IDLE else status (info s))"
  by (auto simp: dev_server_setup_def Let_def)

text \<open>The setup as it is repeated by the loop until it succeeds.\<close>

definition setups :: "dev_env list \<Rightarrow> dev_server \<Rightarrow> dev_server" where
  "setups es s = foldl (\<lambda>s env. if status (info s) = STATUS_SETUP then state_machine env s else s) s es"

text \<open>
  A setup that fails because the motor's thread cannot be created is repeated from the
  beginning with the threads of the attempts before still running: after \<open>n\<close> such failures the
  successful setup has created \<open>n + 1\<close> threads for the card and as many for the hotplug
  events, and one for the motor.
\<close>

theorem failed_setups_duplicate_threads:
  assumes "status (info s) = STATUS_SETUP" "dev_calls s = []"
    and "\<forall>env \<in> set es. create_ok env DEVICE_THREAD_SD \<and> create_ok env DEVICE_THREAD_HOTPLUG \<and> \<not> create_ok env DEVICE_THREAD_MOTOR"
    and "create_ok good DEVICE_THREAD_SD" "create_ok good DEVICE_THREAD_HOTPLUG" "create_ok good DEVICE_THREAD_MOTOR"
  shows "status (info (setups (es @ [good]) s)) = STATUS_IDLE
    \<and> created DEVICE_THREAD_SD (setups (es @ [good]) s) = length es + 1
    \<and> created DEVICE_THREAD_HOTPLUG (setups (es @ [good]) s) = length es + 1
    \<and> created DEVICE_THREAD_MOTOR (setups (es @ [good]) s) = 1"
proof -
  have m: "status (info s) = STATUS_SETUP \<Longrightarrow> state_machine env s = dev_server_setup env s" for env s
    by (simp add: state_machine_def)
  have "status (info (setups es s)) = STATUS_SETUP \<and> created DEVICE_THREAD_SD (setups es s) = length es
    \<and> created DEVICE_THREAD_HOTPLUG (setups es s) = length es \<and> created DEVICE_THREAD_MOTOR (setups es s) = 0"
    using assms(3)
  proof (induction es rule: rev_induct)
    case Nil
    then show ?case using assms(1,2) by (simp add: setups_def created_def)
  next
    case (snoc e es)
    then have ih: "status (info (setups es s)) = STATUS_SETUP" "created DEVICE_THREAD_SD (setups es s) = length es"
      "created DEVICE_THREAD_HOTPLUG (setups es s) = length es" "created DEVICE_THREAD_MOTOR (setups es s) = 0" by simp_all
    have "setups (es @ [e]) s = dev_server_setup e (setups es s)" using ih(1) m by (simp add: setups_def)
    then show ?case using snoc.prems ih by (simp add: setup_creates setup_status)
  qed
  moreover from this have "setups (es @ [good]) s = dev_server_setup good (setups es s)" using m by (simp add: setups_def)
  ultimately show ?thesis using assms(4-6) by (simp add: setup_creates setup_status)
qed

section \<open>The time zone\<close>

text \<open>Zone files count westwards: \<open>GMT-n\<close> is \<open>n\<close> hours east of Greenwich.\<close>

definition hours_east :: "char list \<Rightarrow> int option" where
  "hours_east path =
     (case strstr path ''GMT'' of
        None \<Rightarrow> None
      | Some p \<Rightarrow> Some (- atoi (drop 3 p)))"

text \<open>
  For each of the 24 zones the file installed is that of the zone's hours, up to twelve
  east of Greenwich and the others west; the zone is stored when the command succeeded.
\<close>

theorem timezone_installs_zone:
  assumes "0 \<le> zone" "zone \<le> 23"
  shows "\<exists>h. hours_east (zone_file zone) = Some h \<and> h mod 24 = zone \<and> - 12 < h \<and> h \<le> 12
    \<and> device_set_timezone run zone = (let cmd = ''rm /misc/localtime;cp -rf '' @ zone_file zone @ '' /misc/localtime'' in
        (run cmd, Some cmd, if run cmd = 0 then Some zone else None))"
proof -
  have "map (\<lambda>z. hours_east (zone_file z)) [0..23] = map (\<lambda>z. Some (if z \<le> 12 then z else z - 24)) [0..23]"
    by code_simp
  then have "\<forall>z \<in> set [0..23]. hours_east (zone_file z) = Some (if z \<le> 12 then z else z - 24)"
    by (simp only: map_eq_conv)
  then have "hours_east (zone_file zone) = Some (if zone \<le> 12 then zone else zone - 24)"
    using assms by simp
  moreover have "(if zone \<le> 12 then zone else zone - 24) mod 24 = zone"
    using assms by (auto simp: mod_pos_pos_trivial minus_mod_eq_mult_div [symmetric] algebra_simps)
  ultimately show ?thesis using assms by (auto simp: device_set_timezone_def)
qed

section \<open>Concrete servers\<close>

definition demo_board :: dev_env where
  "demo_board = \<lparr>day_night_mode = 0, speaker_enable = 1, led_enable = 1, create_ok = (\<lambda>i. i \<noteq> DEVICE_THREAD_MOTOR),
     gpio_fs = (\<lambda>w p. True), gpio_content = (\<lambda>p. ''0''), uptime_ms = 0\<rparr>"

definition demo_device :: dev_server where
  "demo_device = \<lparr>info = info_zero (), bus = (\<lambda>_. demo_queue 1), waiting = False, dev_card = demo_card, dev_lines = [],
     motor_status = MOTOR_STATUS_IDLE, iCounts = 0, iCounts2 = 0, iUptime = 0, dev_calls = []\<rparr>"

lemma device_exit_completes_witness:
  "\<exists>n \<le> 9. exit_flag (info ((dev_exit_step demo_board ^^ n)
     (with_info (\<lambda>x. x\<lparr>status := EXIT_INIT, thread_start := 5\<rparr>) demo_device))) \<noteq> 0"
proof (rule device_exit_completes)
  show "leaving SERVER_DEVICE 7 (\<lambda>s. True)
      (with_info (\<lambda>x. x\<lparr>status := EXIT_INIT, thread_start := 5\<rparr>) demo_device)"
    by (simp add: leaving_def demo_device_def info_zero_def quiet_def)
qed

lemma inserted_card_is_mounted_witness:
  "\<exists>c1 c2. sd_proc 1 (demo_env\<lparr>present := \<lambda>_. True\<rparr>) demo_config (hotplug_event (SD_PLUG_ADD_CMD @ ''e624'' @ ''/block'') demo_slot) = Done c1
    \<and> sd_proc 1 demo_env demo_config c1 = Done c2 \<and> sd_get_status c2 = SD_ALIYUN_STATUS_NORMAL
    \<and> sd_files c2 = sd_files demo_slot"
  by (rule inserted_card_is_mounted)
    (simp_all add: demo_slot_def demo_card_def sd_initial_def plain_address_def demo_env_def cooperates_def sd_node_def
      file_manager_read_file_list_def file_manager_t.make_def)

lemma card_question_answered_witness:
  "handle_message demo_board (msg_init\<lparr>m_message := MSG_DEVICE_GET_PARA, m_receiver := SERVER_RECORDER\<rparr>) demo_device =
   demo_device\<lparr>bus := snd (global_common_send_message (bus demo_device) SERVER_RECORDER
     (para_answer (msg_init\<lparr>m_message := MSG_DEVICE_GET_PARA, m_receiver := SERVER_RECORDER\<rparr>) demo_card))\<rparr>"
  using card_question_answered [of "msg_init\<lparr>m_message := MSG_DEVICE_GET_PARA, m_receiver := SERVER_RECORDER\<rparr>" demo_board demo_device]
  by (simp add: demo_device_def)

lemma reset_after_five_presses_witness:
  "(resets (check_resets ([] @ [demo_board]) demo_device) \<noteq> resets (check_resets [] demo_device)) = False"
proof -
  have "iCounts demo_device = 0" by (simp add: demo_device_def)
  from reset_after_five_presses [OF this, of "[]" demo_board] show ?thesis by (simp add: pressed_run_def)
qed

lemma failed_setups_duplicate_threads_witness:
  "created DEVICE_THREAD_SD (setups ([demo_board, demo_board] @ [demo_board\<lparr>create_ok := \<lambda>_. True\<rparr>])
     (set_status STATUS_SETUP demo_device)) = 3"
proof -
  have "status (info (set_status STATUS_SETUP demo_device)) = STATUS_SETUP" "dev_calls (set_status STATUS_SETUP demo_device) = []"
    by (simp_all add: demo_device_def)
  from failed_setups_duplicate_threads [OF this, of "[demo_board, demo_board]" "demo_board\<lparr>create_ok := \<lambda>_. True\<rparr>"]
  show ?thesis by (simp add: demo_board_def)
qed

lemma timezone_installs_zone_witness:
  "\<exists>h. hours_east (zone_file 20) = Some h \<and> h mod 24 = 20 \<and> - 12 < h \<and> h \<le> 12"
  using timezone_installs_zone [of 20 "\<lambda>_. 0"] by auto

end
