(* ===== verification/Composition.thy ===== *)
theory Composition
  imports RecorderServer PlayerServer Device
begin

text \<open>
  The servers together: the recorder and the player ask the device server for the card before
  they start, and give the card up before it is formatted.
\<close>

section \<open>A message from one server to another\<close>

definition idle_queue :: "queue \<Rightarrow> bool" where
  "idle_queue q = (ring_wf q \<and> b_init q \<noteq> 0 \<and> contents q = [])"

definition one_message :: "msg \<Rightarrow> queue \<Rightarrow> bool" where
  "one_message m q = (ring_wf q \<and> b_init q \<noteq> 0 \<and> (\<exists>n. contents q = [m\<lparr>m_sequence := n\<rparr>]))"

lemma idle_send:
  assumes "idle_queue (b r)" "is_server r" "r \<noteq> SERVER_MANAGER"
  shows "\<exists>q. snd (global_common_send_message b r m) = b(r := q) \<and> one_message m q"
proof -
  have wf: "ring_wf (b r)" "b_init (b r) \<noteq> 0" "contents (b r) = []" using assms(1) by (simp_all add: idle_queue_def)
  have "ring_count (b r) < capacity (b r)"
    using wf(3) ring_size_pos [OF wf(1)] length_contents [of "b r"] by (simp add: capacity_def)
  then have "one_message m (ring_push (b r) m)"
    using wf by (auto simp: ring_push_cases append_msg_props one_message_def)
  moreover have "snd (global_common_send_message b r m) = b(r := ring_push (b r) m)"
    using wf assms by (simp add: send_server deliver_def ring_push_def split: prod.splits)
  ultimately show ?thesis by blast
qed

lemma take_single:
  assumes "block s = (False, s)" "one_message m (bus s own)"
  shows "\<exists>q n. idle_queue q \<and> take_message own block screen handle s =
    (if screen (m\<lparr>m_sequence := n\<rparr>) (s\<lparr>bus := (bus s)(own := q)\<rparr>) then s\<lparr>bus := (bus s)(own := q)\<rparr>
     else handle (m\<lparr>m_sequence := n\<rparr>) (s\<lparr>bus := (bus s)(own := q)\<rparr>))"
proof -
  obtain n where c: "ring_wf (bus s own)" "b_init (bus s own) \<noteq> 0" "contents (bus s own) = [m\<lparr>m_sequence := n\<rparr>]"
    using assms by (auto simp: one_message_def)
  have "0 < ring_count (bus s own)" using c(3) by (metis length_contents length_greater_0_conv list.distinct(1))
  note e = evict_props [OF c(1) this]
  have "idle_queue (evict (bus s own))" using e c by (simp add: idle_queue_def)
  moreover have "msg_buffer_pop (bus s own) msg_init = (0, m\<lparr>m_sequence := n\<rparr>, evict (bus s own))"
    by (rule pop_nonempty [OF c(1,3)])
  ultimately show ?thesis
    using assms(1) by (intro exI [of _ "evict (bus s own)"] exI [of _ n]) (simp add: take_message_def Let_def)
qed

lemma take_one:
  assumes "msg_lock (info s) = 0" "one_message m (bus s own)"
  shows "\<exists>q n. idle_queue q \<and> take_message own lock_block screen handle s =
    (if screen (m\<lparr>m_sequence := n\<rparr>) (s\<lparr>bus := (bus s)(own := q)\<rparr>) then s\<lparr>bus := (bus s)(own := q)\<rparr>
     else handle (m\<lparr>m_sequence := n\<rparr>) (s\<lparr>bus := (bus s)(own := q)\<rparr>))"
  by (rule take_single) (use assms in \<open>simp_all add: lock_block_def\<close>)

section \<open>The recorder asks for the card\<close>

text \<open>The recorder in its first state, the device server and the recorder again, on one bus.\<close>

definition ask_for_card :: "dev_env \<Rightarrow> bool \<Rightarrow> rec_server \<Rightarrow> dev_server \<Rightarrow> rec_server \<times> dev_server" where
  "ask_for_card env ok r d =
     (let r = rec_server_init r;
          d = dev_take_message env (d\<lparr>bus := bus r\<rparr>) in
      (rec_take_message ok (r\<lparr>bus := bus d\<rparr>), d))"

definition card_ready :: "sd_state \<Rightarrow> bool" where
  "card_ready c = (sd_card_status c = SD_MOUNT \<and> file_init c \<noteq> 0)"

lemma card_ready_answer:
  "cat (m_arg_in m) = Device.DEVICE_PARAM_SD_INFO \<Longrightarrow> (dog (m_arg_in (para_answer m c)) \<noteq> 0) = card_ready c"
  by (cases "sd_card_status c") (simp_all add: para_answer_def card_ready_def sd_get_status_def sd_get_file_status_def)

text \<open>The device server's part.\<close>

lemma device_answers:
  assumes "msg_lock (info d) = 0" "status (info d) < STATUS_ERROR"
    and "one_message m (bus d SERVER_DEVICE)" "idle_queue (bus d r)"
    and "m_message m = MSG_DEVICE_GET_PARA" "m_receiver m = r" "is_server r" "r \<noteq> SERVER_MANAGER" "r \<noteq> SERVER_DEVICE"
  shows "\<exists>n. one_message (para_answer (m\<lparr>m_sequence := n\<rparr>) (dev_card d)) (bus (dev_take_message env d) r)
    \<and> dev_card (dev_take_message env d) = dev_card d"
proof -
  obtain q n where t: "dev_take_message env d =
      (if device_message_filter (m\<lparr>m_sequence := n\<rparr>) (d\<lparr>bus := (bus d)(SERVER_DEVICE := q)\<rparr>) then d\<lparr>bus := (bus d)(SERVER_DEVICE := q)\<rparr>
       else Device.handle_message env (m\<lparr>m_sequence := n\<rparr>) (d\<lparr>bus := (bus d)(SERVER_DEVICE := q)\<rparr>))"
    using take_one [OF assms(1,3), of device_message_filter "Device.handle_message env"] unfolding dev_take_message_def by blast
  have h: "dev_take_message env d = send r (para_answer (m\<lparr>m_sequence := n\<rparr>) (dev_card d)) (d\<lparr>bus := (bus d)(SERVER_DEVICE := q)\<rparr>)"
    using t assms(2,5,6) by (simp add: device_message_filter_def error_filter_def Device.handle_message_def)
  have "idle_queue (((bus d)(SERVER_DEVICE := q)) r)" using assms(4,9) by simp
  then obtain q' where "snd (global_common_send_message ((bus d)(SERVER_DEVICE := q)) r (para_answer (m\<lparr>m_sequence := n\<rparr>) (dev_card d)))
      = ((bus d)(SERVER_DEVICE := q))(r := q')" "one_message (para_answer (m\<lparr>m_sequence := n\<rparr>) (dev_card d)) q'"
    using idle_send [OF _ assms(7,8)] by blast
  then show ?thesis unfolding h by (intro exI [of _ n]) (simp add: send_def)
qed

text \<open>
  Composition of the recorder, the device server and the message queues: with idle
  queues, the recorder that asks for the card in its first state has learnt, when it has
  taken the device server's answer, that the card is there exactly if the card is mounted and
  its index is not known to have failed.
\<close>

theorem recorder_learns_of_card:
  assumes "idle_queue (bus r SERVER_DEVICE)" "idle_queue (bus r SERVER_RECORDER)"
    and "msg_lock (info r) = 0" "msg_lock (info d) = 0" "status (info d) < STATUS_ERROR"
    and "\<not> bit (init_status (info r)) RECORDER_INIT_CONDITION_DEVICE_SD"
  shows "bit (init_status (info (fst (ask_for_card env ok r d)))) RECORDER_INIT_CONDITION_DEVICE_SD = card_ready (dev_card d)"
proof -
  define r1 where "r1 = rec_server_init r"
  let ?m = "msg_init\<lparr>m_message := MSG_DEVICE_GET_PARA, m_sender := SERVER_RECORDER,
              m_receiver := SERVER_RECORDER, m_arg_in := arg_zero\<lparr>cat := RecorderServer.DEVICE_PARAM_SD_INFO\<rparr>\<rparr> :: msg"
  have "misc_full_bit (init_status (info r)) RECORDER_INIT_CONDITION_NUM = 0"
  proof -
    have "misc_full_bit (init_status (info r)) RECORDER_INIT_CONDITION_NUM \<noteq> 1"
      unfolding misc_full_bit_iff using assms(6) by (intro notI) (drule spec [of _ RECORDER_INIT_CONDITION_DEVICE_SD], simp)
    then show ?thesis unfolding misc_full_bit_def by presburger
  qed
  then have r1: "r1 = (if misc_get_bit (init_status (info r)) RECORDER_INIT_CONDITION_TIME_SYCHRONIZED = 0
      then send SERVER_ALIYUN (msg_init\<lparr>m_message := MSG_ALIYUN_GET_TIME_SYNC, m_sender := SERVER_RECORDER,
              m_receiver := SERVER_RECORDER\<rparr>) (send SERVER_DEVICE ?m r) else send SERVER_DEVICE ?m r)"
    using assms(6) by (simp add: r1_def rec_server_init_def Let_def)
  obtain q where q: "bus (send SERVER_DEVICE ?m r) = (bus r)(SERVER_DEVICE := q)" "one_message ?m q"
    using idle_send [of "bus r" SERVER_DEVICE ?m] assms(1) by (auto simp: send_def is_server_def)
  have i1: "info r1 = info r" and b1: "bus r1 SERVER_DEVICE = q" "bus r1 SERVER_RECORDER = bus r SERVER_RECORDER"
    using q(1) by (simp_all add: r1 frame_send_other_queue)
  define d1 where "d1 = dev_take_message env (d\<lparr>bus := bus r1\<rparr>)"
  obtain n where a: "one_message (para_answer (?m\<lparr>m_sequence := n\<rparr>) (dev_card d)) (bus d1 SERVER_RECORDER)"
    using device_answers [of "d\<lparr>bus := bus r1\<rparr>" ?m SERVER_RECORDER env] assms(2,4,5) q(2)
    by (auto simp: d1_def b1 is_server_def)
  let ?a = "para_answer (?m\<lparr>m_sequence := n\<rparr>) (dev_card d)"
  define r2 where "r2 = r1\<lparr>bus := bus d1\<rparr>"
  have r2: "info r2 = info r" "one_message ?a (bus r2 SERVER_RECORDER)" using a i1 by (simp_all add: r2_def)
  then have "msg_lock (info r2) = 0" using assms(3) by simp
  from take_one [OF this r2(2), of recorder_message_filter "RecorderServer.handle_message ok"]
  obtain q' n' where t: "rec_take_message ok r2 =
      (if recorder_message_filter (?a\<lparr>m_sequence := n'\<rparr>) (r2\<lparr>bus := (bus r2)(SERVER_RECORDER := q')\<rparr>)
       then r2\<lparr>bus := (bus r2)(SERVER_RECORDER := q')\<rparr>
       else RecorderServer.handle_message ok (?a\<lparr>m_sequence := n'\<rparr>) (r2\<lparr>bus := (bus r2)(SERVER_RECORDER := q')\<rparr>))"
    unfolding rec_take_message_def by blast
  have ack: "m_message ?a = MSG_DEVICE_GET_PARA_ACK" "cat (m_arg_in ?a) = RecorderServer.DEVICE_PARAM_SD_INFO"
    by (simp_all add: para_answer_def arg_zero_def)
  have dog: "(dog (m_arg_in ?a) \<noteq> 0) = card_ready (dev_card d)"
    by (rule card_ready_answer) (simp add: arg_zero_def)
  have "\<not> recorder_message_filter (?a\<lparr>m_sequence := n'\<rparr>) s" for s
    using ack(1) by (simp add: recorder_message_filter_def error_filter_def msg_is_response_def)
  then have "rec_take_message ok r2 =
      RecorderServer.handle_message ok (?a\<lparr>m_sequence := n'\<rparr>) (r2\<lparr>bus := (bus r2)(SERVER_RECORDER := q')\<rparr>)"
    using t by simp
  moreover have "fst (ask_for_card env ok r d) = rec_take_message ok r2"
    by (simp add: ask_for_card_def r1_def [symmetric] d1_def [symmetric] r2_def Let_def)
  ultimately show ?thesis
    using ack dog r2(1) assms(6) by (simp add: RecorderServer.handle_message_def)
qed

section \<open>Giving the card up\<close>

text \<open>How often the recorder has told the card that it is done.\<close>

definition answers :: "rec_server \<Rightarrow> nat" where
  "answers s = length (filter (\<lambda>c. c = Sd_format_response) (calls s))"

lemma answers_add: "answers (snd (recorder_add_job ok m s)) = answers s"
  by (auto simp: answers_def recorder_add_job_def start_job_def Let_def split: option.splits payload.splits)

lemma answers_property: "answers (recorder_set_property m s) = answers s"
  by (auto simp: answers_def recorder_set_property_def Let_def split: option.splits payload.splits)

lemma answers_handle: "answers (RecorderServer.handle_message ok m s) = answers s"
  using answers_add [of ok m s] answers_property [of m s]
  by (auto simp: RecorderServer.handle_message_def on_manager_exit_def on_exit_ack_def keep_task_msg_def Let_def answers_def)

lemma answers_take: "answers (rec_take_message ok s) = answers s"
proof -
  have bus: "answers (s\<lparr>bus := b\<rparr>) = answers s" for b by (simp add: answers_def)
  show ?thesis
    by (auto simp: rec_take_message_def take_message_def lock_block_def Let_def answers_handle bus split: prod.splits bool.splits)
qed

lemma answers_proc: "answers (rec_server_message_proc ok s) = answers s"
proof -
  have "answers (s\<lparr>waiting := True\<rparr>) = answers s" by (simp add: answers_def)
  then show ?thesis using answers_take [of ok s] by (simp add: rec_server_message_proc_def message_proc_def rec_take_message_def)
qed

lemma calls_send [simp]: "calls (send r m s) = calls s"
  by (simp add: send_def)

lemma answers_machine: "answers (RecorderServer.state_machine ok garbage s) = answers s"
proof -
  have "answers (snd (recorder_start_init_recorder_job ok garbage s)) = answers s"
  proof -
    have "answers (with_info f t) = answers t" for f and t :: rec_server by (simp add: answers_def)
    moreover have "recorder_add_job ok m s = (ret, t) \<Longrightarrow> answers t = answers s" for m ret t
      using answers_add [of ok m s] by simp
    ultimately show ?thesis
      by (auto simp: recorder_start_init_recorder_job_def Let_def split: prod.splits)
  qed
  then have default: "answers (run_default_job ok garbage s) = answers s"
    by (simp add: run_default_job_def answers_def)
  have frame: "answers (s\<lparr>info := x\<rparr>) = answers s" for s :: rec_server and x by (simp add: answers_def)
  have init: "answers (rec_server_init s) = answers s"
    by (simp add: rec_server_init_def answers_def Let_def)
  have stop: "answers (stop_threads k s) = answers s" for k
    by (simp add: stop_threads_def recorder_broadcast_session_exit_def answers_def Let_def)
  have rest: "answers (recorder_broadcast_session_exit s) = answers s" "answers (rec_server_release_2 s) = answers s"
    for s by (simp_all add: recorder_broadcast_session_exit_def rec_server_release_2_def answers_def)
  show ?thesis
    unfolding RecorderServer.state_machine_def Let_def rec_server_setup_def rec_server_start_def rec_server_stop_def
        rec_server_restart_def rec_server_reinit_def rec_server_release_1_def
    by (simp only: if_distrib [of answers] default frame init stop rest if_cancel)
qed

text \<open>
  The recorder only tells the card that it may be formatted in a round that finds no bit
  of a recording thread set and that ends the wait of a reinitialisation.
\<close>

theorem format_answer_waits_for_threads:
  assumes "answers (rec_server_round ok garbage s) \<noteq> answers s"
  shows "await s = Some Reinited \<and> thread_start (info s) = 0"
proof -
  have frame: "answers (s\<lparr>info := x\<rparr>) = answers s" "answers (s\<lparr>await := k\<rparr>) = answers s" "answers (s\<lparr>waiting := w\<rparr>) = answers s"
    for s :: rec_server and x k w by (simp_all add: answers_def)
  have turn: "answers (rec_server_turn ok garbage s) = answers s"
    by (simp add: rec_server_turn_def loop_turn_def Let_def answers_proc answers_machine frame RecorderServer.task_proc_def)
  have "await s \<noteq> None"
  proof
    assume "await s = None"
    then have "answers (rec_server_round ok garbage s) = answers s"
      by (simp add: rec_server_round_def loop_round_def turn answers_take frame)
    then show False using assms by simp
  qed
  then obtain k where k: "await s = Some k" by blast
  moreover from k assms have "thread_start (info s) = 0"
    by (auto simp: rec_server_round_def rec_server_resume_def split: if_splits)
  moreover from this k assms have "k = Reinited"
    by (cases k) (simp_all add: rec_server_round_def rec_server_resume_def answers_proc frame RecorderServer.task_proc_def
        threads_stopped_def Let_def split: if_splits)
  ultimately show ?thesis by simp
qed

lemma one_message_nonempty: "one_message m (bus s own) \<Longrightarrow> \<not> queue_empty own s"
  using ring_empty_iff [of "bus s own"] length_contents [of "bus s own"]
  by (auto simp: one_message_def queue_empty_def msg_buffer_is_empty_def simp del: length_contents)

lemma recorder_takes_format:
  assumes "one_message format_start (bus s SERVER_RECORDER)" "msg_lock (info s) = 0"
  shows "\<exists>q n. rec_server_message_proc ok s =
    set_status STATUS_REINIT (keep_task_msg (format_start\<lparr>m_sequence := n\<rparr>) (s\<lparr>bus := (bus s)(SERVER_RECORDER := q)\<rparr>))"
proof -
  obtain q n where t: "rec_take_message ok s =
    (if recorder_message_filter (format_start\<lparr>m_sequence := n\<rparr>) (s\<lparr>bus := (bus s)(SERVER_RECORDER := q)\<rparr>) then s\<lparr>bus := (bus s)(SERVER_RECORDER := q)\<rparr>
     else RecorderServer.handle_message ok (format_start\<lparr>m_sequence := n\<rparr>) (s\<lparr>bus := (bus s)(SERVER_RECORDER := q)\<rparr>))"
    using take_one [OF assms(2,1), of recorder_message_filter "RecorderServer.handle_message ok"]
    unfolding rec_take_message_def by blast
  then have "rec_take_message ok s =
      set_status STATUS_REINIT (keep_task_msg (format_start\<lparr>m_sequence := n\<rparr>) (s\<lparr>bus := (bus s)(SERVER_RECORDER := q)\<rparr>))"
    by (simp add: recorder_message_filter_def error_filter_def format_start_def msg_is_system_def RecorderServer.handle_message_def)
  moreover have "rec_server_message_proc ok s = rec_take_message ok s"
    using one_message_nonempty [OF assms(1)] by (simp add: rec_server_message_proc_def message_proc_def rec_take_message_def)
  ultimately show ?thesis by (intro exI [of _ q] exI [of _ n]) simp
qed

lemma jobs_not_running:
  assumes "status (info s) \<noteq> STATUS_RUN"
  shows "jobs (rec_server_message_proc ok s) = jobs s"
proof -
  have "jobs (recorder_set_property m s) = jobs s" for m and s
    by (auto simp: recorder_set_property_def Let_def split: option.splits payload.splits)
  then have "jobs (RecorderServer.handle_message ok m s) = jobs s" if "status (info s) \<noteq> STATUS_RUN" for m s
    using that by (auto simp: RecorderServer.handle_message_def on_manager_exit_def on_exit_ack_def keep_task_msg_def Let_def)
  then show ?thesis
    using assms by (auto simp: rec_server_message_proc_def message_proc_def take_message_def lock_block_def Let_def
        split: prod.splits bool.splits)
qed

text \<open>
  The bits are set by the threads themselves, so a thread that has been created and has
  not run yet is overlooked: when the request to format arrives then, the recorder answers
  within three rounds with the job still started, and the thread records on a card that is
  being formatted.
\<close>

theorem answer_overlooks_new_thread:
  assumes "status (info s) = STATUS_RUN" "status2 (info s) = 1" "exit_flag (info s) = 0" "msg_lock (info s) = 0"
    and "await s = None" "\<not> waiting s" "one_message format_start (bus s SERVER_RECORDER)"
    and "thread_start (info s) = 0" "job_status (jobs s ! i) = RECORDER_THREAD_STARTED"
  shows "answers ((rec_server_round ok garbage ^^ 3) s) = answers s + 1
    \<and> job_status (jobs ((rec_server_round ok garbage ^^ 3) s) ! i) = RECORDER_THREAD_STARTED"
proof -
  let ?round = "rec_server_round ok garbage"
  let ?s = "with_info (\<lambda>x. x\<lparr>old_status := status x\<rparr>) s"
  have idle: "RecorderServer.task_proc (RecorderServer.state_machine ok garbage ?s) = ?s"
    using assms(1,2) by (simp add: RecorderServer.state_machine_def run_default_job_def RecorderServer.task_proc_def)
  have "one_message format_start (bus ?s SERVER_RECORDER)" "msg_lock (info ?s) = 0" using assms(4,7) by simp_all
  from recorder_takes_format [OF this]
  obtain q n where p: "rec_server_message_proc ok ?s =
      set_status STATUS_REINIT (keep_task_msg (format_start\<lparr>m_sequence := n\<rparr>) (?s\<lparr>bus := (bus ?s)(SERVER_RECORDER := q)\<rparr>))"
    by blast
  have first: "?round s = rec_server_message_proc ok ?s"
    using assms(1-6) idle by (simp add: rec_server_round_def loop_round_def rec_server_turn_def loop_turn_def Let_def
        RecorderServer.state_machine_def run_default_job_def RecorderServer.task_proc_def)
  define a where "a = ?round s"
  have a: "status (info a) = STATUS_REINIT" "exit_flag (info a) = 0" "thread_start (info a) = 0" "await a = None"
    "\<not> waiting a" "jobs a = jobs s" "calls a = calls s"
    using assms(3,5,6,8) by (simp_all add: a_def first p keep_task_msg_def)
  define b where "b = ?round a"
  have b: "b = stop_threads Reinited (with_info (\<lambda>x. x\<lparr>old_status := STATUS_REINIT\<rparr>) a)"
    using a by (simp add: b_def rec_server_round_def loop_round_def rec_server_turn_def loop_turn_def Let_def
        RecorderServer.state_machine_def rec_server_reinit_def stop_threads_def)
  have b': "await b = Some Reinited" "thread_start (info b) = 0" "jobs b = jobs s" "answers b = answers s"
    using a by (simp_all add: b stop_threads_def recorder_broadcast_session_exit_def answers_def Let_def)
  have third: "?round b = rec_server_message_proc ok (RecorderServer.task_proc (threads_stopped Reinited b))"
    using b' by (simp add: rec_server_round_def rec_server_resume_def)
  have "answers (RecorderServer.task_proc (threads_stopped Reinited b)) = answers s + 1"
    using b' by (simp add: RecorderServer.task_proc_def threads_stopped_def answers_def Let_def)
  then have "answers (?round b) = answers s + 1" by (simp add: third answers_proc)
  moreover have "jobs (RecorderServer.task_proc (threads_stopped Reinited b)) = jobs s"
    using b' by (simp add: RecorderServer.task_proc_def threads_stopped_def Let_def)
  moreover have "(?round ^^ 3) s = ?round b" by (simp add: numeral_3_eq_3 a_def b_def)
  moreover have "status (info (RecorderServer.task_proc (threads_stopped Reinited b))) \<noteq> STATUS_RUN"
    by (simp add: RecorderServer.task_proc_def threads_stopped_def info_zero_def Let_def)
  ultimately show ?thesis using assms(9) jobs_not_running by (simp add: third)
qed

section \<open>Concrete servers\<close>

lemma demo_idle: "idle_queue (demo_queue n)"
  by (simp add: idle_queue_def)

lemma recorder_learns_of_card_witness:
  "bit (init_status (info (fst (ask_for_card demo_board True demo_server demo_device)))) RECORDER_INIT_CONDITION_DEVICE_SD"
proof -
  have "bit (init_status (info (fst (ask_for_card demo_board True demo_server demo_device)))) RECORDER_INIT_CONDITION_DEVICE_SD
      = card_ready (dev_card demo_device)"
    by (rule recorder_learns_of_card)
      (simp_all add: RecorderServer.demo_server_def demo_device_def demo_idle info_zero_def)
  then show ?thesis by (simp add: card_ready_def demo_device_def demo_card_def sd_initial_def)
qed

lemma format_answer_waits_for_threads_witness:
  "answers (rec_server_round True init_zero (demo_server\<lparr>await := Some Reinited\<rparr>)) \<noteq> answers (demo_server\<lparr>await := Some Reinited\<rparr>)
   \<and> thread_start (info (demo_server\<lparr>await := Some Reinited\<rparr>)) = 0"
proof -
  let ?s = "demo_server\<lparr>await := Some Reinited\<rparr>"
  have "rec_server_round True init_zero ?s = rec_server_message_proc True (RecorderServer.task_proc (threads_stopped Reinited ?s))"
    by (simp add: rec_server_round_def rec_server_resume_def RecorderServer.demo_server_def info_zero_def)
  moreover have "answers (RecorderServer.task_proc (threads_stopped Reinited ?s)) = answers ?s + 1"
    by (simp add: RecorderServer.task_proc_def threads_stopped_def answers_def Let_def)
  ultimately have "answers (rec_server_round True init_zero ?s) \<noteq> answers ?s" by (simp add: answers_proc)
  from format_answer_waits_for_threads [OF this] this show ?thesis by simp
qed

lemma answer_overlooks_new_thread_witness:
  "\<exists>s. job_status (jobs s ! 0) = RECORDER_THREAD_STARTED \<and> answers s = 0
    \<and> answers ((rec_server_round True init_zero ^^ 3) s) = 1
    \<and> job_status (jobs ((rec_server_round True init_zero ^^ 3) s) ! 0) = RECORDER_THREAD_STARTED"
proof -
  obtain q where q: "one_message format_start q"
    using idle_send [of "\<lambda>_. demo_queue 1" SERVER_RECORDER format_start] demo_idle by (auto simp: is_server_def)
  define s where "s = (with_info (\<lambda>x. x\<lparr>status := STATUS_RUN, status2 := 1\<rparr>) demo_server)
    \<lparr>jobs := [job_zero\<lparr>job_status := RECORDER_THREAD_STARTED\<rparr>, job_zero, job_zero], bus := (\<lambda>_. q)\<rparr>"
  have s: "jobs s ! 0 = job_zero\<lparr>job_status := RECORDER_THREAD_STARTED\<rparr>" "answers s = 0"
    by (simp_all add: s_def answers_def RecorderServer.demo_server_def)
  have "answers ((rec_server_round True init_zero ^^ 3) s) = answers s + 1
    \<and> job_status (jobs ((rec_server_round True init_zero ^^ 3) s) ! 0) = RECORDER_THREAD_STARTED"
    by (rule answer_overlooks_new_thread) (simp_all add: s_def RecorderServer.demo_server_def info_zero_def q)
  then show ?thesis using s by (intro exI [of _ s]) simp
qed

end
