(* ===== verification/Config.thy ===== *)
theory Config
  imports CStr "HOL-Library.Countable"
begin

text \<open>
  The configuration file: the table of \<open>global/config.c\<close> and the two conversions of
  \<open>common/config/rwio.c\<close> that it drives, over the objects of \<open>common/cJSON/cJSON.c\<close>.  Printing
  and parsing the text of an object are arguments.
\<close>

section \<open>Objects\<close>

text \<open>An item as the conversions see it, its \<open>valueint\<close> and its \<open>valuestring\<close>; an object in order.\<close>

type_synonym json_item = "int \<times> char list option"
type_synonym cjson = "(char list \<times> json_item) list"

abbreviation (input) "INT_MAX \<equiv> 2147483647 :: int"
abbreviation (input) "INT_MIN \<equiv> - 2147483648 :: int"

definition c_tolower :: "char \<Rightarrow> char" where
  "c_tolower c = (if 65 \<le> (of_char c :: nat) \<and> of_char c \<le> (90 :: nat) then char_of ((of_char c :: nat) + 32) else c)"

definition case_insensitive_eq :: "char list \<Rightarrow> char list \<Rightarrow> bool" where
  "case_insensitive_eq s t = (map c_tolower s = map c_tolower t)"

definition cJSON_CreateNumber :: "int \<Rightarrow> json_item" where
  "cJSON_CreateNumber num = (if num \<ge> INT_MAX then INT_MAX else if num \<le> INT_MIN then INT_MIN else num, None)"

definition cJSON_CreateString :: "char list \<Rightarrow> json_item" where
  "cJSON_CreateString s = (0, Some s)"

definition cJSON_AddItemToObject :: "cjson \<Rightarrow> char list \<Rightarrow> json_item \<Rightarrow> cjson" where
  "cJSON_AddItemToObject root name item = root @ [(name, item)]"

fun get_object_item :: "cjson \<Rightarrow> char list \<Rightarrow> json_item option" where
  "get_object_item [] name = None"
| "get_object_item ((key, item) # rest) name = (if case_insensitive_eq name key then Some item else get_object_item rest name)"

definition cJSON_GetObjectItem :: "cjson option \<Rightarrow> char list \<Rightarrow> json_item option" where
  "cJSON_GetObjectItem json name = (case json of None \<Rightarrow> None | Some root \<Rightarrow> get_object_item root name)"

section \<open>The table\<close>

datatype config_data_type_t =
    cfg_u32 | cfg_u16 | cfg_u8 | cfg_s32 | cfg_s16 | cfg_s8 | cfg_float | cfg_string | cfg_stime | cfg_slice

text \<open>
  \<open>data_address\<close> is the member of \<open>config_t\<close> the entry points to; the bounds are integers in
  every entry.
\<close>

record config_map_t =
  string_name :: "char list"
  data_address :: "char list"
  data_type :: config_data_type_t
  default_value :: "char list"
  cfg_min :: int
  cfg_max :: int

definition entry :: "char list \<Rightarrow> char list \<Rightarrow> config_data_type_t \<Rightarrow> char list \<Rightarrow> int \<Rightarrow> int \<Rightarrow> config_map_t" where
  "entry name addr t d lo hi = \<lparr>string_name = name, data_address = addr, data_type = t, default_value = d, cfg_min = lo, cfg_max = hi\<rparr>"

abbreviation (input) "APPLICATION_VERSION_STRING \<equiv> ''alpha-4.0''"

definition config_profile_map :: "config_map_t list" where
  "config_profile_map = [
     entry ''video_quality'' ''video_quality'' cfg_u8 ''2'' 0 2,
     entry ''subvideo_quality'' ''subvideo_quality'' cfg_u8 ''0'' 0 2,
     entry ''alarm_switch'' ''alarm_switch'' cfg_u8 ''1'' 0 1,
     entry ''motion_detect_sensitivity'' ''motion_detect_sensitivity'' cfg_u8 ''3'' 0 5,
     entry ''alarm_freqency'' ''alarm_freqency'' cfg_u8 ''1'' 0 2,
     entry ''video_mirror'' ''video_mirror'' cfg_u8 ''0'' 0 1,
     entry ''ipc_version'' ''ipc_version'' cfg_string APPLICATION_VERSION_STRING 0 32,
     entry ''day_night_mode'' ''day_night_mode'' cfg_u8 ''0'' 0 2,
     entry ''motion_scheduler_enable'' ''motion_scheduler_enable'' cfg_u8 ''0'' 0 1,
     entry ''motion_scheduler_0_begin'' ''motion_scheduler[0].begin'' cfg_u32 ''0'' 0 86400,
     entry ''motion_scheduler_0_end'' ''motion_scheduler[0].end'' cfg_u32 ''0'' 0 86400,
     entry ''motion_scheduler_1_begin'' ''motion_scheduler[1].begin'' cfg_u32 ''0'' 0 86400,
     entry ''motion_scheduler_1_end'' ''motion_scheduler[1].end'' cfg_u32 ''0'' 0 86400,
     entry ''motion_scheduler_2_begin'' ''motion_scheduler[2].begin'' cfg_u32 ''0'' 0 86400,
     entry ''motion_scheduler_2_end'' ''motion_scheduler[2].end'' cfg_u32 ''0'' 0 86400,
     entry ''motion_scheduler_3_begin'' ''motion_scheduler[3].begin'' cfg_u32 ''0'' 0 86400,
     entry ''motion_scheduler_3_end'' ''motion_scheduler[3].end'' cfg_u32 ''0'' 0 86400,
     entry ''motion_scheduler_4_begin'' ''motion_scheduler[4].begin'' cfg_u32 ''0'' 0 86400,
     entry ''motion_scheduler_4_end'' ''motion_scheduler[4].end'' cfg_u32 ''0'' 0 86400,
     entry ''motion_scheduler_5_begin'' ''motion_scheduler[5].begin'' cfg_u32 ''0'' 0 86400,
     entry ''motion_scheduler_5_end'' ''motion_scheduler[5].end'' cfg_u32 ''0'' 0 86400,
     entry ''motion_scheduler_6_begin'' ''motion_scheduler[6].begin'' cfg_u32 ''0'' 0 86400,
     entry ''motion_scheduler_6_end'' ''motion_scheduler[6].end'' cfg_u32 ''0'' 0 86400,
     entry ''osd_enable'' ''osd_enable'' cfg_u8 ''1'' 0 1,
     entry ''wdr_enable'' ''wdr_enable'' cfg_u8 ''0'' 0 1,
     entry ''speaker_enable'' ''speaker_enable'' cfg_u8 ''1'' 0 1,
     entry ''recorder_enable'' ''recorder_enable'' cfg_u8 ''3'' 0 3,
     entry ''led_enable'' ''led_enable'' cfg_u8 ''1'' 0 1,
     entry ''image_correct'' ''image_correct'' cfg_u8 ''1'' 0 1,
     entry ''device_name'' ''device_name'' cfg_string '''' 0 32,
     entry ''smd_enable'' ''smd_enable'' cfg_u8 ''1'' 0 1,
     entry ''debug_level'' ''debug_level'' cfg_u8 ''2'' 0 8,
     entry ''time_zone'' ''time_zone'' cfg_u8 ''0'' 0 23,
     entry ''debug_switch'' ''debug_switch'' cfg_s8 ''0'' 0 1,
     entry ''debug00'' ''debug[0]'' cfg_s32 ''0'' (- 1000000) 1000000,
     entry ''debug01'' ''debug[1]'' cfg_s32 ''0'' (- 1000000) 1000000,
     entry ''debug02'' ''debug[2]'' cfg_s32 ''0'' (- 1000000) 1000000,
     entry ''debug03'' ''debug[3]'' cfg_s32 ''0'' (- 1000000) 1000000,
     entry ''debug04'' ''debug[4]'' cfg_s32 ''0'' (- 1000000) 1000000,
     entry ''debug05'' ''debug[5]'' cfg_s32 ''0'' (- 1000000) 1000000,
     entry ''debug06'' ''debug[6]'' cfg_s32 ''0'' (- 1000000) 1000000,
     entry ''debug07'' ''debug[7]'' cfg_s32 ''0'' (- 1000000) 1000000,
     entry ''debug08'' ''debug[8]'' cfg_s32 ''0'' (- 1000000) 1000000,
     entry ''debug09'' ''debug[9]'' cfg_s32 ''0'' (- 1000000) 1000000,
     entry ''debug10'' ''debug[10]'' cfg_s32 ''0'' (- 1000000) 1000000,
     entry ''debug11'' ''debug[11]'' cfg_s32 ''0'' (- 1000000) 1000000,
     entry ''debug12'' ''debug[12]'' cfg_s32 ''0'' (- 1000000) 1000000,
     entry ''debug13'' ''debug[13]'' cfg_s32 ''0'' (- 1000000) 1000000,
     entry ''debug14'' ''debug[14]'' cfg_s32 ''0'' (- 1000000) 1000000,
     entry ''debug15'' ''debug[15]'' cfg_s32 ''0'' (- 1000000) 1000000,
     entry ''debug16'' ''debug[16]'' cfg_s32 ''0'' (- 1000000) 1000000,
     entry ''debug17'' ''debug[17]'' cfg_s32 ''0'' (- 1000000) 1000000,
     entry ''debug18'' ''debug[18]'' cfg_s32 ''0'' (- 1000000) 1000000,
     entry ''debug19'' ''debug[19]'' cfg_s32 ''0'' (- 1000000) 1000000]"

section \<open>Reading an object into the configuration\<close>

text \<open>
  The members of \<open>config_t\<close> by their names: the bit pattern of a number, the text of a string.
\<close>

record config_t =
  cfg_num :: "char list \<Rightarrow> int"
  cfg_str :: "char list \<Rightarrow> char list"

text \<open>\<open>strtol\<close> with base 0.\<close>

definition digit_value :: "char \<Rightarrow> int" where
  "digit_value c =
     (let n = (of_char c :: int) in
      if 48 \<le> n \<and> n \<le> 57 then n - 48
      else if 97 \<le> n \<and> n \<le> 122 then n - 87
      else if 65 \<le> n \<and> n \<le> 90 then n - 55
      else 99)"

fun strtol_digits :: "int \<Rightarrow> int \<Rightarrow> char list \<Rightarrow> int" where
  "strtol_digits base acc [] = acc"
| "strtol_digits base acc (c # cs) =
     (if digit_value c < base then strtol_digits base (acc * base + digit_value c) cs else acc)"

definition strtol_0 :: "char list \<Rightarrow> int" where
  "strtol_0 s =
     (let s = dropWhile is_space s;
          negative = (s \<noteq> [] \<and> hd s = CHR ''-'');
          s = (if s \<noteq> [] \<and> (hd s = CHR ''-'' \<or> hd s = CHR ''+'') then tl s else s);
          v = (if take 2 s = ''0x'' \<or> take 2 s = ''0X'' then strtol_digits 16 0 (drop 2 s)
               else if take 1 s = ''0'' then strtol_digits 8 0 s
               else strtol_digits 10 0 s) in
      if negative then - v else v)"

text \<open>A value kept in \<open>int tmp\<close>; the default as it is assigned to \<open>tmp\<close>.\<close>

definition default_number :: "config_map_t \<Rightarrow> int" where
  "default_number e = signed_take_bit 31 (strtol_0 (default_value e))"

definition in_bounds :: "config_map_t \<Rightarrow> int \<Rightarrow> bool" where
  "in_bounds e tmp = (\<not> (tmp > cfg_max e \<or> tmp < cfg_min e))"

text \<open>Storing \<open>tmp\<close> in a member, and reading it back into \<open>tmp\<close>.\<close>

fun store_number :: "config_data_type_t \<Rightarrow> int \<Rightarrow> int option" where
  "store_number cfg_u32 tmp = Some (take_bit 32 tmp)"
| "store_number cfg_u16 tmp = Some (take_bit 16 tmp)"
| "store_number cfg_u8 tmp = Some (take_bit 8 tmp)"
| "store_number cfg_s32 tmp = Some (take_bit 32 tmp)"
| "store_number cfg_s16 tmp = Some (take_bit 16 tmp)"
| "store_number cfg_s8 tmp = Some (take_bit 8 tmp)"
| "store_number _ tmp = None"

fun fetch_number :: "config_data_type_t \<Rightarrow> int \<Rightarrow> int option" where
  "fetch_number cfg_u32 pattern = Some (signed_take_bit 31 pattern)"
| "fetch_number cfg_u16 pattern = Some (take_bit 16 pattern)"
| "fetch_number cfg_u8 pattern = Some (take_bit 8 pattern)"
| "fetch_number cfg_s32 pattern = Some (signed_take_bit 31 pattern)"
| "fetch_number cfg_s16 pattern = Some (signed_take_bit 15 pattern)"
| "fetch_number cfg_s8 pattern = Some (signed_take_bit 7 pattern)"
| "fetch_number _ pattern = None"

text \<open>
  One entry: the return value and the configuration, or \<open>None\<close> when the code goes wrong.  A
  string is copied whole; its member has \<open>cfg_max\<close> characters in every entry of the table.  An
  item without a string is a null pointer.  No entry has the type \<open>cfg_float\<close>, which is left out.
\<close>

definition put_string :: "config_map_t \<Rightarrow> char list \<Rightarrow> config_t \<Rightarrow> config_t option" where
  "put_string e s c =
     (if int (length s) < cfg_max e then Some (c\<lparr>cfg_str := (cfg_str c)(data_address e := s)\<rparr>) else None)"

definition load_entry :: "cjson option \<Rightarrow> config_map_t \<Rightarrow> config_t \<Rightarrow> (int \<times> config_t) option" where
  "load_entry json e c =
     (let js = cJSON_GetObjectItem json (string_name e);
          tmp = (case js of None \<Rightarrow> default_number e
                 | Some (valueint, valuestring) \<Rightarrow> if in_bounds e valueint then valueint else default_number e) in
      case data_type e of
        cfg_string \<Rightarrow>
          if cfg_max e > 1 then
            map_option (Pair 0)
              (case js of
                 None \<Rightarrow> put_string e (default_value e) c
               | Some (valueint, None) \<Rightarrow> None
               | Some (valueint, Some s) \<Rightarrow> put_string e s c)
          else Some (0, c)
      | cfg_float \<Rightarrow> None
      | cfg_stime \<Rightarrow> Some (1, c)
      | cfg_slice \<Rightarrow> Some (1, c)
      | t \<Rightarrow> map_option (\<lambda>p. (0, c\<lparr>cfg_num := (cfg_num c)(data_address e := p)\<rparr>)) (store_number t tmp))"

fun cjson_to_data_by_map :: "config_map_t list \<Rightarrow> cjson option \<Rightarrow> int \<Rightarrow> config_t \<Rightarrow> (int \<times> config_t) option" where
  "cjson_to_data_by_map [] json ret c = Some (ret, c)"
| "cjson_to_data_by_map (e # es) json ret c =
     (case load_entry json e c of None \<Rightarrow> None
      | Some (r, c) \<Rightarrow> cjson_to_data_by_map es json (if r \<noteq> 0 then r else ret) c)"

section \<open>Writing the configuration into an object\<close>

definition save_entry :: "config_t \<Rightarrow> config_map_t \<Rightarrow> cjson \<Rightarrow> cjson option" where
  "save_entry c e root =
     (let number = (\<lambda>tmp. cJSON_CreateNumber (if in_bounds e tmp then tmp else default_number e)) in
      case data_type e of
        cfg_string \<Rightarrow> Some (cJSON_AddItemToObject root (string_name e) (cJSON_CreateString (cfg_str c (data_address e))))
      | cfg_float \<Rightarrow> None
      | cfg_stime \<Rightarrow> Some root
      | cfg_slice \<Rightarrow> Some root
      | t \<Rightarrow> map_option (\<lambda>tmp. cJSON_AddItemToObject root (string_name e) (number tmp))
          (fetch_number t (cfg_num c (data_address e))))"

fun data_to_json_by_map :: "config_map_t list \<Rightarrow> config_t \<Rightarrow> cjson \<Rightarrow> cjson option" where
  "data_to_json_by_map [] c root = Some root"
| "data_to_json_by_map (e # es) c root =
     (case save_entry c e root of None \<Rightarrow> None | Some root \<Rightarrow> data_to_json_by_map es c root)"

section \<open>The file\<close>

text \<open>A file is its text, or \<open>None\<close> when it is missing; \<open>parse\<close> and \<open>print\<close> are the library's.\<close>

type_synonym config_file = "char list option"

datatype file_write = Write_done | Open_failed | Write_short nat

definition read_json_file :: "config_file \<Rightarrow> char list option" where
  "read_json_file file = file"

definition write_json_file :: "file_write \<Rightarrow> char list \<Rightarrow> config_file \<Rightarrow> int \<times> config_file" where
  "write_json_file w data file =
     (case w of
        Write_done \<Rightarrow> (0, Some data)
      | Open_failed \<Rightarrow> (- 1, file)
      | Write_short n \<Rightarrow> (- 1, Some (take n data)))"

definition load_json :: "(char list \<Rightarrow> cjson option) \<Rightarrow> config_file \<Rightarrow> cjson option" where
  "load_json parse file = (case read_json_file file of None \<Rightarrow> None | Some data \<Rightarrow> parse data)"

definition read_config_file ::
  "(char list \<Rightarrow> cjson option) \<Rightarrow> config_map_t list \<Rightarrow> config_file \<Rightarrow> config_t \<Rightarrow> (int \<times> config_t) option" where
  "read_config_file parse cmap file c =
     map_option (\<lambda>(ret, c). (if ret \<noteq> 0 then - 1 else 0, c)) (cjson_to_data_by_map cmap (load_json parse file) 0 c)"

definition write_config_file ::
  "(cjson \<Rightarrow> char list) \<Rightarrow> file_write \<Rightarrow> config_map_t list \<Rightarrow> config_t \<Rightarrow> config_file \<Rightarrow> (int \<times> config_file) option" where
  "write_config_file print w cmap c file =
     map_option (\<lambda>root. case write_json_file w (print root) file of (ret, file) \<Rightarrow> (if ret \<noteq> 0 then - 1 else 0, file))
       (data_to_json_by_map cmap c [])"

text \<open>The copy of the configuration the file's functions keep, and the file.\<close>

record config_store =
  config_copy :: config_t
  config_text :: config_file

definition config_get :: "(char list \<Rightarrow> cjson option) \<Rightarrow> config_store \<Rightarrow> (int \<times> config_t \<times> config_store) option" where
  "config_get parse s =
     map_option (\<lambda>(ret, c). (ret, c, s\<lparr>config_copy := c\<rparr>))
       (read_config_file parse config_profile_map (config_text s) (config_copy s))"

definition config_set :: "(cjson \<Rightarrow> char list) \<Rightarrow> file_write \<Rightarrow> config_t \<Rightarrow> config_store \<Rightarrow> (int \<times> config_store) option" where
  "config_set print w wconfig s =
     map_option (\<lambda>(ret, file). (ret, \<lparr>config_copy = wconfig, config_text = file\<rparr>))
       (write_config_file print w config_profile_map wconfig (config_text s))"

section \<open>The table is well formed\<close>

fun type_range :: "config_data_type_t \<Rightarrow> (int \<times> int) option" where
  "type_range cfg_u32 = Some (INT_MIN, INT_MAX)"
| "type_range cfg_u16 = Some (0, 65535)"
| "type_range cfg_u8 = Some (0, 255)"
| "type_range cfg_s32 = Some (INT_MIN, INT_MAX)"
| "type_range cfg_s16 = Some (- 32768, 32767)"
| "type_range cfg_s8 = Some (- 128, 127)"
| "type_range _ = None"

definition entry_ok :: "config_map_t \<Rightarrow> bool" where
  "entry_ok e =
     (case type_range (data_type e) of
        Some (lo, hi) \<Rightarrow> lo \<le> cfg_min e \<and> cfg_max e \<le> hi \<and> in_bounds e (default_number e)
      | None \<Rightarrow> data_type e = cfg_string \<and> 1 < cfg_max e \<and> int (length (default_value e)) < cfg_max e)"

definition names_distinct :: "config_map_t list \<Rightarrow> bool" where
  "names_distinct es = distinct (map (\<lambda>e. map c_tolower (string_name e)) es)"

lemma profile_entries: "\<forall>e \<in> set config_profile_map. entry_ok e"
  by (simp add: config_profile_map_def entry_def entry_ok_def in_bounds_def default_number_def strtol_0_def is_space_def
      digit_value_def Let_def)

lemma profile_addresses: "distinct (map data_address config_profile_map)"
  by (simp add: config_profile_map_def entry_def)

lemma profile_names: "names_distinct config_profile_map"
proof -
  have "map c_tolower s = s" if "\<forall>c \<in> set s. 90 < (of_char c :: nat) \<or> (of_char c :: nat) < 65" for s
    using that by (induction s) (auto simp: c_tolower_def)
  moreover have "\<forall>e \<in> set config_profile_map. \<forall>c \<in> set (string_name e). 90 < (of_char c :: nat) \<or> (of_char c :: nat) < 65"
    by (simp add: config_profile_map_def entry_def)
  ultimately have "map (\<lambda>e. map c_tolower (string_name e)) config_profile_map = map string_name config_profile_map" by simp
  moreover have "distinct (map string_name config_profile_map)" by (simp add: config_profile_map_def entry_def)
  ultimately show ?thesis by (simp only: names_distinct_def)
qed

section \<open>One entry there and back\<close>

text \<open>The member of an entry holds a value within the entry's bounds, or a text that fits.\<close>

definition member_ok :: "config_map_t \<Rightarrow> config_t \<Rightarrow> bool" where
  "member_ok e c =
     (if data_type e = cfg_string then int (length (cfg_str c (data_address e))) < cfg_max e
      else \<exists>v. in_bounds e v \<and> store_number (data_type e) v = Some (cfg_num c (data_address e)))"

definition same_member :: "config_map_t \<Rightarrow> config_t \<Rightarrow> config_t \<Rightarrow> bool" where
  "same_member e c d =
     (if data_type e = cfg_string then cfg_str c (data_address e) = cfg_str d (data_address e)
      else cfg_num c (data_address e) = cfg_num d (data_address e))"

definition copy_member :: "config_t \<Rightarrow> config_map_t \<Rightarrow> config_t \<Rightarrow> config_t" where
  "copy_member c e d =
     (if data_type e = cfg_string then d\<lparr>cfg_str := (cfg_str d)(data_address e := cfg_str c (data_address e))\<rparr>
      else d\<lparr>cfg_num := (cfg_num d)(data_address e := cfg_num c (data_address e))\<rparr>)"

definition saved_item :: "config_t \<Rightarrow> config_map_t \<Rightarrow> json_item" where
  "saved_item c e =
     (if data_type e = cfg_string then (0, Some (cfg_str c (data_address e)))
      else (the (fetch_number (data_type e) (cfg_num c (data_address e))), None))"

lemma fetch_store:
  assumes "type_range t = Some (lo, hi)" "lo \<le> v" "v \<le> hi"
  shows "\<exists>pat. store_number t v = Some pat \<and> fetch_number t pat = Some v"
  using assms by (cases t)
    (auto simp: signed_take_bit_take_bit min_def signed_take_bit_int_eq_self take_bit_int_eq_self)

lemma number_types: "type_range t = Some r \<Longrightarrow> t \<in> {cfg_u32, cfg_u16, cfg_u8, cfg_s32, cfg_s16, cfg_s8}"
  by (cases t) simp_all

lemma entry_ok_cases:
  assumes "entry_ok e"
  obtains (string) "data_type e = cfg_string" "1 < cfg_max e" "int (length (default_value e)) < cfg_max e"
  | (number) lo hi where "type_range (data_type e) = Some (lo, hi)" "lo \<le> cfg_min e" "cfg_max e \<le> hi"
      "in_bounds e (default_number e)" "data_type e \<noteq> cfg_string" "INT_MIN \<le> lo" "hi \<le> INT_MAX"
proof (cases "type_range (data_type e)")
  case None
  then show ?thesis using assms string by (simp add: entry_ok_def)
next
  case (Some r)
  then have "INT_MIN \<le> fst r \<and> snd r \<le> INT_MAX \<and> data_type e \<noteq> cfg_string" by (cases "data_type e") auto
  then show ?thesis using assms number Some by (cases r) (simp add: entry_ok_def)
qed

lemma save_entry_ok:
  assumes "entry_ok e" "member_ok e c"
  shows "save_entry c e root = Some (root @ [(string_name e, saved_item c e)])"
  using assms(1)
proof (cases rule: entry_ok_cases)
  case string
  then show ?thesis by (simp add: save_entry_def cJSON_AddItemToObject_def cJSON_CreateString_def saved_item_def)
next
  case (number lo hi)
  obtain v where v: "in_bounds e v" "store_number (data_type e) v = Some (cfg_num c (data_address e))"
    using assms(2) number(5) by (auto simp: member_ok_def)
  have b: "lo \<le> v" "v \<le> hi" using v(1) number(2,3) by (auto simp: in_bounds_def)
  have f: "fetch_number (data_type e) (cfg_num c (data_address e)) = Some v"
    using fetch_store [OF number(1) b] v(2) by auto
  have n: "cJSON_CreateNumber v = (v, None)" using b number(6,7) by (auto simp: cJSON_CreateNumber_def)
  show ?thesis
    using number_types [OF number(1)] f n v(1) by (auto simp: save_entry_def cJSON_AddItemToObject_def saved_item_def)
qed

lemma load_entry_saved:
  assumes "entry_ok e" "member_ok e c" "cJSON_GetObjectItem json (string_name e) = Some (saved_item c e)"
  shows "load_entry json e d = Some (0, copy_member c e d)"
  using assms(1)
proof (cases rule: entry_ok_cases)
  case string
  then show ?thesis
    using assms(2,3) by (simp add: load_entry_def saved_item_def put_string_def member_ok_def copy_member_def)
next
  case (number lo hi)
  obtain v where v: "in_bounds e v" "store_number (data_type e) v = Some (cfg_num c (data_address e))"
    using assms(2) number(5) by (auto simp: member_ok_def)
  have b: "lo \<le> v" "v \<le> hi" using v(1) number(2,3) by (auto simp: in_bounds_def)
  have "saved_item c e = (v, None)"
    using fetch_store [OF number(1) b] v(2) number(5) by (auto simp: saved_item_def)
  then show ?thesis
    using number_types [OF number(1)] v assms(3) by (auto simp: load_entry_def copy_member_def)
qed

lemma load_entry_valid:
  assumes "entry_ok e" "load_entry json e c = Some (r, d)"
  shows "r = 0 \<and> member_ok e d \<and> (\<forall>a. a \<noteq> data_address e \<longrightarrow> cfg_num d a = cfg_num c a \<and> cfg_str d a = cfg_str c a)"
  using assms(1)
proof (cases rule: entry_ok_cases)
  case string
  then show ?thesis
    using assms(2) by (auto simp: load_entry_def put_string_def member_ok_def split: option.splits if_splits)
next
  case (number lo hi)
  define tmp where "tmp = (case cJSON_GetObjectItem json (string_name e) of None \<Rightarrow> default_number e
                 | Some (valueint, valuestring) \<Rightarrow> if in_bounds e valueint then valueint else default_number e)"
  have tmp: "in_bounds e tmp" using number(4) by (auto simp: tmp_def split: option.splits)
  then have b: "lo \<le> tmp" "tmp \<le> hi" using number(2,3) by (auto simp: in_bounds_def)
  obtain pat where pat: "store_number (data_type e) tmp = Some pat" using fetch_store [OF number(1) b] by auto
  have "load_entry json e c = Some (0, c\<lparr>cfg_num := (cfg_num c)(data_address e := pat)\<rparr>)"
    using number_types [OF number(1)] pat by (auto simp: load_entry_def tmp_def [symmetric])
  then show ?thesis using assms(2) tmp pat number(5) by (auto simp: member_ok_def)
qed

section \<open>The whole table\<close>

lemma save_all:
  "\<forall>e \<in> set es. entry_ok e \<and> member_ok e c \<Longrightarrow>
   data_to_json_by_map es c root = Some (root @ map (\<lambda>e. (string_name e, saved_item c e)) es)"
  by (induction es arbitrary: root) (simp_all add: save_entry_ok)

lemma get_saved:
  "e \<in> set es \<Longrightarrow> names_distinct es \<Longrightarrow>
   get_object_item (map (\<lambda>e. (string_name e, saved_item c e)) es) (string_name e) = Some (saved_item c e)"
proof (induction es)
  case Nil
  then show ?case by simp
next
  case (Cons a es)
  show ?case
  proof (cases "e = a")
    case True
    then show ?thesis by (simp add: case_insensitive_eq_def)
  next
    case False
    then have e: "e \<in> set es" using Cons.prems(1) by simp
    then have "map c_tolower (string_name e) \<noteq> map c_tolower (string_name a)"
      using Cons.prems(2) unfolding names_distinct_def by (metis (mono_tags, lifting) distinct.simps(2) image_eqI list.simps(9) list.set_map)
    then show ?thesis using Cons.IH [OF e] Cons.prems(2) by (simp add: case_insensitive_eq_def names_distinct_def)
  qed
qed

lemma load_all_saved:
  assumes "\<forall>e \<in> set es. entry_ok e \<and> member_ok e c \<and> cJSON_GetObjectItem json (string_name e) = Some (saved_item c e)"
  shows "cjson_to_data_by_map es json 0 d = Some (0, fold (copy_member c) es d)"
  using assms by (induction es arbitrary: d) (simp_all add: load_entry_saved [where c = c])

lemma copied: "same_member e c d \<or> e \<in> set es \<Longrightarrow> same_member e c (fold (copy_member c) es d)"
proof (induction es arbitrary: d)
  case Nil
  then show ?case by simp
next
  case (Cons f es)
  have "same_member e c d \<Longrightarrow> same_member e c (copy_member c f d)" "same_member f c (copy_member c f d)"
    by (auto simp: same_member_def copy_member_def)
  then show ?case using Cons by auto
qed

lemma load_all_valid:
  assumes "\<forall>e \<in> set es. entry_ok e" "distinct (map data_address es)" "cjson_to_data_by_map es json ret c = Some (r, d)"
  shows "r = ret \<and> (\<forall>e \<in> set es. member_ok e d)
    \<and> (\<forall>a. a \<notin> data_address ` set es \<longrightarrow> cfg_num d a = cfg_num c a \<and> cfg_str d a = cfg_str c a)"
  using assms
proof (induction es arbitrary: c)
  case Nil
  then show ?case by simp
next
  case (Cons e es)
  obtain r' c' where l: "load_entry json e c = Some (r', c')" using Cons.prems(3) by (auto split: option.splits)
  have v: "r' = 0" "member_ok e c'" "\<forall>a. a \<noteq> data_address e \<longrightarrow> cfg_num c' a = cfg_num c a \<and> cfg_str c' a = cfg_str c a"
    using load_entry_valid [OF _ l] Cons.prems(1) by simp_all
  have ih: "r = ret" "\<forall>e \<in> set es. member_ok e d"
    "\<forall>a. a \<notin> data_address ` set es \<longrightarrow> cfg_num d a = cfg_num c' a \<and> cfg_str d a = cfg_str c' a"
    using Cons.IH [of c'] Cons.prems l v(1) by simp_all
  have "data_address e \<notin> data_address ` set es" using Cons.prems(2) by auto
  then have "member_ok e d" using v(2) ih(3) by (simp add: member_ok_def)
  then show ?case using ih v(3) by auto
qed

text \<open>
  C10: A configuration whose members are within the bounds of the table is read back from the
  file as it was stored, whatever the configuration held before, when the library reads
  the text it has printed.
\<close>

theorem config_roundtrip:
  assumes "\<And>root. parse (print root) = Some root"
    and "\<forall>e \<in> set config_profile_map. member_ok e w"
  shows "\<exists>s' c s''. config_set print Write_done w s = Some (0, s')
    \<and> config_get parse (s'\<lparr>config_copy := old\<rparr>) = Some (0, c, s'')
    \<and> (\<forall>e \<in> set config_profile_map. same_member e w c)"
proof -
  let ?root = "map (\<lambda>e. (string_name e, saved_item w e)) config_profile_map"
  have "data_to_json_by_map config_profile_map w [] = Some ?root"
    using save_all [of config_profile_map w "[]"] profile_entries assms(2) by simp
  then have set: "config_set print Write_done w s = Some (0, \<lparr>config_copy = w, config_text = Some (print ?root)\<rparr>)"
    by (simp add: config_set_def write_config_file_def write_json_file_def)
  have "\<forall>e \<in> set config_profile_map. cJSON_GetObjectItem (Some ?root) (string_name e) = Some (saved_item w e)"
    using get_saved profile_names by (simp add: cJSON_GetObjectItem_def)
  then have "cjson_to_data_by_map config_profile_map (Some ?root) 0 old = Some (0, fold (copy_member w) config_profile_map old)"
    using load_all_saved profile_entries assms(2) by blast
  then have "config_get parse \<lparr>config_copy = old, config_text = Some (print ?root)\<rparr> =
      Some (0, fold (copy_member w) config_profile_map old,
        \<lparr>config_copy = fold (copy_member w) config_profile_map old, config_text = Some (print ?root)\<rparr>)"
    by (simp add: config_get_def read_config_file_def load_json_def read_json_file_def assms(1))
  moreover have "\<forall>e \<in> set config_profile_map. same_member e w (fold (copy_member w) config_profile_map old)"
    using copied by blast
  ultimately show ?thesis using set by auto
qed

text \<open>
  A string the reading cannot take: an item without a text, or a text that does not fit its
  member.  What a member is read from: its item when it is there and within the bounds, its
  default otherwise.
\<close>

definition bad_string :: "cjson option \<Rightarrow> config_map_t \<Rightarrow> bool" where
  "bad_string json e = (data_type e = cfg_string \<and> (case cJSON_GetObjectItem json (string_name e) of
       None \<Rightarrow> False
     | Some (valueint, None) \<Rightarrow> True
     | Some (valueint, Some t) \<Rightarrow> cfg_max e \<le> int (length t)))"

definition read_from :: "cjson option \<Rightarrow> config_map_t \<Rightarrow> config_t \<Rightarrow> bool" where
  "read_from json e c =
     (case cJSON_GetObjectItem json (string_name e) of
        None \<Rightarrow> if data_type e = cfg_string then cfg_str c (data_address e) = default_value e
          else store_number (data_type e) (default_number e) = Some (cfg_num c (data_address e))
      | Some (v, t) \<Rightarrow> if data_type e = cfg_string then t = Some (cfg_str c (data_address e))
          else store_number (data_type e) (if in_bounds e v then v else default_number e) = Some (cfg_num c (data_address e)))"

lemma load_entry_result:
  assumes "entry_ok e"
  shows "if bad_string json e then load_entry json e c = None
    else \<exists>d. load_entry json e c = Some (0, d) \<and> read_from json e d
      \<and> (\<forall>a. a \<noteq> data_address e \<longrightarrow> cfg_num d a = cfg_num c a \<and> cfg_str d a = cfg_str c a)"
  using assms
proof (cases rule: entry_ok_cases)
  case string
  then show ?thesis
    by (auto simp: load_entry_def put_string_def bad_string_def read_from_def split: option.splits)
next
  case (number lo hi)
  define tmp where "tmp = (case cJSON_GetObjectItem json (string_name e) of None \<Rightarrow> default_number e
                 | Some (valueint, valuestring) \<Rightarrow> if in_bounds e valueint then valueint else default_number e)"
  have "in_bounds e tmp" using number(4) by (auto simp: tmp_def split: option.splits)
  then have b: "lo \<le> tmp" "tmp \<le> hi" using number(2,3) by (auto simp: in_bounds_def)
  obtain pat where pat: "store_number (data_type e) tmp = Some pat" using fetch_store [OF number(1) b] by auto
  have "load_entry json e c = Some (0, c\<lparr>cfg_num := (cfg_num c)(data_address e := pat)\<rparr>)"
    using number_types [OF number(1)] pat by (auto simp: load_entry_def tmp_def [symmetric])
  moreover have "read_from json e (c\<lparr>cfg_num := (cfg_num c)(data_address e := pat)\<rparr>)"
    using pat number(5) by (auto simp: read_from_def tmp_def split: option.splits prod.splits)
  ultimately show ?thesis using number(5) by (simp add: bad_string_def)
qed

lemma load_all_result:
  assumes "\<forall>e \<in> set es. entry_ok e" "distinct (map data_address es)"
  shows "if \<exists>e \<in> set es. bad_string json e then cjson_to_data_by_map es json ret c = None
    else \<exists>d. cjson_to_data_by_map es json ret c = Some (ret, d) \<and> (\<forall>e \<in> set es. read_from json e d)
      \<and> (\<forall>a. a \<notin> data_address ` set es \<longrightarrow> cfg_num d a = cfg_num c a \<and> cfg_str d a = cfg_str c a)"
  using assms
proof (induction es arbitrary: c)
  case Nil
  then show ?case by simp
next
  case (Cons e es)
  have ok: "entry_ok e" "\<forall>e \<in> set es. entry_ok e" "distinct (map data_address es)" "data_address e \<notin> data_address ` set es"
    using Cons.prems by auto
  show ?case
  proof (cases "bad_string json e")
    case True
    then show ?thesis using load_entry_result [OF ok(1), of json c] by simp
  next
    case False
    then obtain c' where l: "load_entry json e c = Some (0, c')" "read_from json e c'"
      "\<forall>a. a \<noteq> data_address e \<longrightarrow> cfg_num c' a = cfg_num c a \<and> cfg_str c' a = cfg_str c a"
      using load_entry_result [OF ok(1), of json c] by auto
    note ih = Cons.IH [OF ok(2,3), of c']
    show ?thesis
    proof (cases "\<exists>e \<in> set es. bad_string json e")
      case True
      then show ?thesis using ih l(1) by simp
    next
      case none: False
      then obtain d where d: "cjson_to_data_by_map es json ret c' = Some (ret, d)" "\<forall>e \<in> set es. read_from json e d"
        "\<forall>a. a \<notin> data_address ` set es \<longrightarrow> cfg_num d a = cfg_num c' a \<and> cfg_str d a = cfg_str c' a"
        using ih by auto
      have "cfg_num d (data_address e) = cfg_num c' (data_address e)" "cfg_str d (data_address e) = cfg_str c' (data_address e)"
        using d(3) ok(4) by simp_all
      then have "read_from json e d" using l(2) unfolding read_from_def by (simp only:)
      then have "\<exists>d. cjson_to_data_by_map (e # es) json ret c = Some (ret, d) \<and> (\<forall>e \<in> set (e # es). read_from json e d)
        \<and> (\<forall>a. a \<notin> data_address ` set (e # es) \<longrightarrow> cfg_num d a = cfg_num c a \<and> cfg_str d a = cfg_str c a)"
        using d l by (intro exI [of _ d]) simp
      moreover have "\<not> (\<exists>e \<in> set (e # es). bad_string json e)" using False none by simp
      ultimately show ?thesis by (simp only: if_False)
    qed
  qed
qed

text \<open>
  C11: What the reading of the configuration does, whatever the file holds - nothing, a text
  that is no object, or any object at all.  If an item of a string member has no text or a text that
  does not fit the member, the reading goes wrong, through the null pointer or past the member.
  In every other case it succeeds, and every member of the table is within its bounds: it
  has the value of its item when there is one within the bounds, and its default otherwise.
\<close>

theorem config_get_in_bounds:
  "if \<exists>e \<in> set config_profile_map. bad_string (load_json parse (config_text s)) e then config_get parse s = None
   else \<exists>c. config_get parse s = Some (0, c, s\<lparr>config_copy := c\<rparr>)
     \<and> (\<forall>e \<in> set config_profile_map. member_ok e c \<and> read_from (load_json parse (config_text s)) e c)"
proof -
  let ?json = "load_json parse (config_text s)"
  note all = load_all_result [OF profile_entries profile_addresses, of ?json 0 "config_copy s"]
  show ?thesis
  proof (cases "\<exists>e \<in> set config_profile_map. bad_string ?json e")
    case True
    then show ?thesis using all by (simp add: config_get_def read_config_file_def)
  next
    case False
    then obtain c where c: "cjson_to_data_by_map config_profile_map ?json 0 (config_copy s) = Some (0, c)"
      "\<forall>e \<in> set config_profile_map. read_from ?json e c"
      using all by auto
    have "\<forall>e \<in> set config_profile_map. member_ok e c"
      using load_all_valid [OF profile_entries profile_addresses c(1)] by blast
    then have "\<exists>c. config_get parse s = Some (0, c, s\<lparr>config_copy := c\<rparr>)
      \<and> (\<forall>e \<in> set config_profile_map. member_ok e c \<and> read_from ?json e c)"
      using c by (intro exI [of _ c]) (simp add: config_get_def read_config_file_def)
    then show ?thesis using False by (simp only: if_False)
  qed
qed

section \<open>Defaults, and what a damaged file does\<close>

definition has_default :: "config_map_t \<Rightarrow> config_t \<Rightarrow> bool" where
  "has_default e c =
     (if data_type e = cfg_string then cfg_str c (data_address e) = default_value e
      else store_number (data_type e) (default_number e) = Some (cfg_num c (data_address e)))"

lemma load_entry_default:
  assumes "entry_ok e"
  shows "\<exists>d. load_entry None e c = Some (0, d) \<and> has_default e d
    \<and> (\<forall>a. a \<noteq> data_address e \<longrightarrow> cfg_num d a = cfg_num c a \<and> cfg_str d a = cfg_str c a)"
  using assms
proof (cases rule: entry_ok_cases)
  case string
  then show ?thesis by (simp add: load_entry_def cJSON_GetObjectItem_def put_string_def has_default_def)
next
  case (number lo hi)
  then have b: "lo \<le> default_number e" "default_number e \<le> hi" by (auto simp: in_bounds_def)
  obtain pat where "store_number (data_type e) (default_number e) = Some pat" using fetch_store [OF number(1) b] by auto
  then show ?thesis
    using number_types [OF number(1)] by (auto simp: load_entry_def cJSON_GetObjectItem_def has_default_def)
qed

lemma load_all_default:
  assumes "\<forall>e \<in> set es. entry_ok e" "distinct (map data_address es)"
  shows "\<exists>d. cjson_to_data_by_map es None ret c = Some (ret, d) \<and> (\<forall>e \<in> set es. has_default e d)
    \<and> (\<forall>a. a \<notin> data_address ` set es \<longrightarrow> cfg_num d a = cfg_num c a \<and> cfg_str d a = cfg_str c a)"
  using assms
proof (induction es arbitrary: c)
  case Nil
  then show ?case by simp
next
  case (Cons e es)
  obtain c' where l: "load_entry None e c = Some (0, c')" "has_default e c'"
    "\<forall>a. a \<noteq> data_address e \<longrightarrow> cfg_num c' a = cfg_num c a \<and> cfg_str c' a = cfg_str c a"
    using load_entry_default [of e c] Cons.prems(1) by auto
  obtain d where d: "cjson_to_data_by_map es None ret c' = Some (ret, d)" "\<forall>e \<in> set es. has_default e d"
    "\<forall>a. a \<notin> data_address ` set es \<longrightarrow> cfg_num d a = cfg_num c' a \<and> cfg_str d a = cfg_str c' a"
    using Cons.IH [of c'] Cons.prems by auto
  have "data_address e \<notin> data_address ` set es" using Cons.prems(2) by auto
  then have "has_default e d" using l(2) d(3) by (simp add: has_default_def)
  then show ?case using l d by auto
qed

definition no_config :: config_t where
  "no_config = \<lparr>cfg_num = (\<lambda>_. 0), cfg_str = (\<lambda>_. [])\<rparr>"

definition default_config :: config_t where
  "default_config = (case cjson_to_data_by_map config_profile_map None 0 no_config of Some (r, c) \<Rightarrow> c | None \<Rightarrow> no_config)"

lemma default_loaded: "cjson_to_data_by_map config_profile_map None 0 no_config = Some (0, default_config)"
  using load_all_default [OF profile_entries profile_addresses, of 0 no_config] by (auto simp: default_config_def)

lemma default_config_ok: "\<forall>e \<in> set config_profile_map. member_ok e default_config"
  using load_all_valid [OF profile_entries profile_addresses default_loaded] by blast

text \<open>
  A configuration that is written short is lost: the call reports -1, and when the library
  does not accept the text that was cut off, the next reading gives every member its default
  and reports success.
\<close>

theorem short_write_loses_configuration:
  assumes "\<And>root. parse (take n (print root)) = None"
    and "\<forall>e \<in> set config_profile_map. member_ok e w"
  shows "\<exists>s' c s''. config_set print (Write_short n) w s = Some (- 1, s')
    \<and> config_get parse s' = Some (0, c, s'')
    \<and> (\<forall>e \<in> set config_profile_map. has_default e c)"
proof -
  obtain root where "data_to_json_by_map config_profile_map w [] = Some root"
    using save_all [of config_profile_map w "[]"] profile_entries assms(2) by simp
  then have "config_set print (Write_short n) w s = Some (- 1, \<lparr>config_copy = w, config_text = Some (take n (print root))\<rparr>)"
    by (simp add: config_set_def write_config_file_def write_json_file_def)
  moreover obtain d where "cjson_to_data_by_map config_profile_map None 0 w = Some (0, d)" "\<forall>e \<in> set config_profile_map. has_default e d"
    using load_all_default [OF profile_entries profile_addresses, of 0 w] by blast
  ultimately show ?thesis
    by (simp add: config_get_def read_config_file_def load_json_def read_json_file_def assms(1))
qed

lemma load_stops:
  assumes "e \<in> set es" "\<And>c. load_entry json e c = None"
  shows "cjson_to_data_by_map es json ret c = None"
  using assms by (induction es arbitrary: ret c) (auto split: option.splits)

text \<open>
  The text of a string member in the file is copied as it is: a name of 32 characters or
  more, or a value that is no string, makes the reading go wrong, whatever else the file holds.
\<close>

theorem long_string_overruns:
  assumes "config_text s = Some data" "parse data = Some root" "e \<in> set config_profile_map" "data_type e = cfg_string"
    and "get_object_item root (string_name e) = Some (v, val)" "\<forall>t. val = Some t \<longrightarrow> 32 \<le> length t"
  shows "config_get parse s = None"
proof -
  have "data_type e = cfg_string \<longrightarrow> cfg_max e = 32"
    using assms(3) by (auto simp: config_profile_map_def entry_def)
  then have "load_entry (Some root) e c = None" for c
    using assms(4-6) by (cases val) (simp_all add: load_entry_def cJSON_GetObjectItem_def put_string_def)
  then have "cjson_to_data_by_map config_profile_map (Some root) 0 (config_copy s) = None"
    using load_stops [OF assms(3)] by blast
  then show ?thesis using assms(1,2) by (simp add: config_get_def read_config_file_def load_json_def read_json_file_def)
qed

section \<open>Witnesses\<close>

text \<open>A library that prints an object as its number, in unary.\<close>

definition unary_print :: "cjson \<Rightarrow> char list" where
  "unary_print root = replicate (Suc (to_nat root)) CHR ''x''"

definition unary_parse :: "char list \<Rightarrow> cjson option" where
  "unary_parse s = (case s of [] \<Rightarrow> None | _ # s \<Rightarrow> Some (from_nat (length s)))"

lemma unary_roundtrip: "unary_parse (unary_print root) = Some root"
  by (simp add: unary_print_def unary_parse_def)

theorem config_roundtrip_witness:
  "\<exists>s' c s''. config_set unary_print Write_done default_config \<lparr>config_copy = no_config, config_text = None\<rparr> = Some (0, s')
    \<and> config_get unary_parse (s'\<lparr>config_copy := no_config\<rparr>) = Some (0, c, s'')
    \<and> list_all (\<lambda>e. same_member e default_config c) config_profile_map"
  using config_roundtrip [OF unary_roundtrip default_config_ok] unfolding list_all_iff by blast

text \<open>A file with a number out of its bounds, and one whose device name is a number.\<close>

theorem config_get_in_bounds_witness:
  "(\<exists>c. config_get (\<lambda>_. Some [(''video_quality'', (7, None))]) \<lparr>config_copy = no_config, config_text = Some []\<rparr>
      = Some (0, c, \<lparr>config_copy = c, config_text = Some []\<rparr>) \<and> cfg_num c ''video_quality'' = 2)
   \<and> config_get (\<lambda>_. Some [(''device_name'', (7, None))]) \<lparr>config_copy = no_config, config_text = Some []\<rparr> = None"
proof -
  let ?root = "[(''video_quality'', (7 :: int, None :: char list option))]"
  define name where "name = entry ''device_name'' ''device_name'' cfg_string '''' 0 32"
  define quality where "quality = entry ''video_quality'' ''video_quality'' cfg_u8 ''2'' 0 2"
  have m: "name \<in> set config_profile_map" "quality \<in> set config_profile_map"
    unfolding config_profile_map_def name_def quality_def by (simp_all only: list.set insert_iff simp_thms)
  have strings: "list_all (\<lambda>e. data_type e = cfg_string \<longrightarrow> get_object_item ?root (string_name e) = None) config_profile_map"
    by code_simp
  then have "\<not> (\<exists>e \<in> set config_profile_map. bad_string (Some ?root) e)"
    by (auto simp: list_all_iff bad_string_def cJSON_GetObjectItem_def)
  moreover have l: "load_json (\<lambda>_. Some ?root) (Some []) = Some ?root" by (simp add: load_json_def read_json_file_def)
  ultimately obtain c where c: "config_get (\<lambda>_. Some ?root) \<lparr>config_copy = no_config, config_text = Some []\<rparr>
      = Some (0, c, \<lparr>config_copy = c, config_text = Some []\<rparr>)" "read_from (Some ?root) quality c"
    using config_get_in_bounds [of "\<lambda>_. Some ?root" "\<lparr>config_copy = no_config, config_text = Some []\<rparr>"] m(2) by auto
  have "get_object_item ?root ''video_quality'' = Some (7, None)" by code_simp
  then have "cfg_num c ''video_quality'' = 2"
    using c(2) by (simp add: read_from_def cJSON_GetObjectItem_def quality_def entry_def in_bounds_def default_number_def
        strtol_0_def is_space_def digit_value_def Let_def)
  moreover have "get_object_item [(''device_name'', (7, None))] ''device_name'' = Some (7, None)" by code_simp
  then have "bad_string (Some [(''device_name'', (7, None))]) name"
    by (simp add: bad_string_def cJSON_GetObjectItem_def name_def entry_def)
  then have "config_get (\<lambda>_. Some [(''device_name'', (7, None))]) \<lparr>config_copy = no_config, config_text = Some []\<rparr> = None"
    using config_get_in_bounds [of "\<lambda>_. Some [(''device_name'', (7, None))]" "\<lparr>config_copy = no_config, config_text = Some []\<rparr>"] m(1)
    by (auto simp: load_json_def read_json_file_def split: if_splits)
  ultimately show ?thesis using c(1) by blast
qed

theorem short_write_loses_configuration_witness:
  "\<exists>s' c s''. config_set unary_print (Write_short 0) default_config \<lparr>config_copy = no_config, config_text = None\<rparr> = Some (- 1, s')
    \<and> config_get unary_parse s' = Some (0, c, s'')
    \<and> list_all (\<lambda>e. has_default e c) config_profile_map"
  unfolding list_all_iff
  using short_write_loses_configuration [of unary_parse 0 unary_print default_config "\<lparr>config_copy = no_config, config_text = None\<rparr>"]
    default_config_ok by (simp add: unary_parse_def)

theorem long_string_overruns_witness:
  "config_get (\<lambda>_. Some [(''Device_Name'', (0, Some (replicate 32 CHR ''a'')))]) \<lparr>config_copy = no_config, config_text = Some []\<rparr> = None"
proof -
  have m: "entry ''device_name'' ''device_name'' cfg_string '''' 0 32 \<in> set config_profile_map"
    unfolding config_profile_map_def by (simp only: list.set insert_iff simp_thms)
  have l: "get_object_item [(''Device_Name'', (0, Some (replicate 32 CHR ''a'')))] ''device_name'' =
    Some (0, Some (replicate 32 CHR ''a''))"
    by code_simp
  show ?thesis
    by (rule long_string_overruns [where e = "entry ''device_name'' ''device_name'' cfg_string '''' 0 32" and v = 0
          and val = "Some (replicate 32 CHR ''a'')" and data = "[]", OF _ refl m])
      (simp, simp add: entry_def, use l in \<open>simp only: entry_def config_map_t.simps\<close>, simp)
qed

end
