(* ===== verification/Goke.thy ===== *)
theory Goke
  imports ServerLoop
begin

text \<open>
  The goke server of \<open>server/goke/goke.c\<close>, which owns the media system: the sizes it gives the
  video channels, its message handler, its state machine and its loop.  What the media
  library's own set-up functions return is an argument.
\<close>

section \<open>The parameters of the video\<close>

datatype picture_size_t =
    PIC_CIF | PIC_360P | PIC_VGA | PIC_640x360 | PIC_D1_PAL | PIC_D1_NTSC | PIC_720P | PIC_1080P
  | PIC_2304x1296 | PIC_2592x1520 | PIC_2592x1536 | PIC_2592x1944 | PIC_2688x1520 | PIC_2688x1536
  | PIC_2688x1944 | PIC_2716x1524 | PIC_3840x2160 | PIC_4096x2160 | PIC_3000x3000 | PIC_4000x3000
  | PIC_7680x4320 | PIC_3840x8640 | PIC_BUTT

fun hisi_get_pic_size :: "picture_size_t \<Rightarrow> (int \<times> int) option" where
  "hisi_get_pic_size PIC_CIF = Some (352, 288)"
| "hisi_get_pic_size PIC_360P = Some (640, 360)"
| "hisi_get_pic_size PIC_VGA = Some (640, 480)"
| "hisi_get_pic_size PIC_640x360 = Some (640, 360)"
| "hisi_get_pic_size PIC_D1_PAL = Some (720, 576)"
| "hisi_get_pic_size PIC_D1_NTSC = Some (720, 480)"
| "hisi_get_pic_size PIC_720P = Some (1280, 720)"
| "hisi_get_pic_size PIC_1080P = Some (1920, 1080)"
| "hisi_get_pic_size PIC_2304x1296 = Some (2304, 1296)"
| "hisi_get_pic_size PIC_2592x1520 = Some (2592, 1520)"
| "hisi_get_pic_size PIC_2592x1944 = Some (2592, 1944)"
| "hisi_get_pic_size PIC_2592x1536 = Some (2592, 1536)"
| "hisi_get_pic_size PIC_2688x1520 = Some (2688, 1520)"
| "hisi_get_pic_size PIC_2716x1524 = Some (2716, 1524)"
| "hisi_get_pic_size PIC_3840x2160 = Some (3840, 2160)"
| "hisi_get_pic_size PIC_3000x3000 = Some (3000, 3000)"
| "hisi_get_pic_size PIC_4000x3000 = Some (4000, 3000)"
| "hisi_get_pic_size PIC_4096x2160 = Some (4096, 2160)"
| "hisi_get_pic_size PIC_7680x4320 = Some (7680, 4320)"
| "hisi_get_pic_size PIC_3840x8640 = Some (3840, 8640)"
| "hisi_get_pic_size PIC_2688x1536 = Some (2688, 1536)"
| "hisi_get_pic_size PIC_2688x1944 = Some (2688, 1944)"
| "hisi_get_pic_size PIC_BUTT = None"

record stream_profile_info_t =
  enable :: bool
  pic_size :: picture_size_t
  width :: int
  height :: int
  frame_rate :: int
  vpss_chn :: int

record vpss_chn_t =
  chn_width :: int
  chn_height :: int
  chn_mirror :: int
  chn_enabled :: bool

record video_config_t =
  streams :: "stream_profile_info_t list"
  group_w :: int
  group_h :: int
  vpss_channels :: "vpss_chn_t list"
  isp_frame_rate :: int

abbreviation (input) "MAX_STREAM_NUM \<equiv> 5 :: nat"
abbreviation (input) "VPSS_MAX_PHY_CHN_NUM \<equiv> 3 :: nat"

text \<open>
  The body of the loop for one stream, with the largest frame rate so far; \<open>None\<close> is an access
  outside the table of the channels.
\<close>

definition adjust_stream :: "int \<Rightarrow> nat \<Rightarrow> int \<times> video_config_t \<Rightarrow> (int \<times> video_config_t) option" where
  "adjust_stream mirror i mc =
     (let (max_rate, c) = mc; p = streams c ! i in
      if \<not> enable p then Some mc
      else
        let c = (case hisi_get_pic_size (pic_size p) of
                None \<Rightarrow> c
              | Some (w, h) \<Rightarrow>
                  let c = c\<lparr>streams := (streams c)[i := p\<lparr>width := w, height := h\<rparr>]\<rparr> in
                  if w > group_w c then c\<lparr>group_w := w, group_h := h\<rparr> else c);
            p = streams c ! i;
            vpss = vpss_chn p;
            max_rate = (if frame_rate p > max_rate then frame_rate p else max_rate) in
        if 0 \<le> vpss \<and> vpss < int VPSS_MAX_PHY_CHN_NUM then
          Some (max_rate, c\<lparr>vpss_channels := (vpss_channels c)[nat vpss :=
            \<lparr>chn_width = width p, chn_height = height p, chn_mirror = mirror, chn_enabled = True\<rparr>]\<rparr>)
        else None)"

fun adjust_streams :: "int \<Rightarrow> nat \<Rightarrow> int \<times> video_config_t \<Rightarrow> (int \<times> video_config_t) option" where
  "adjust_streams mirror 0 mc = Some mc"
| "adjust_streams mirror (Suc i) mc =
     (case adjust_stream mirror i mc of None \<Rightarrow> None | Some mc \<Rightarrow> adjust_streams mirror i mc)"

definition goke_adjust_video_parameters :: "int \<Rightarrow> video_config_t \<Rightarrow> (int \<times> video_config_t) option" where
  "goke_adjust_video_parameters mirror c =
     (case adjust_streams mirror MAX_STREAM_NUM (0, c\<lparr>group_w := 0, group_h := 0\<rparr>) of
        None \<Rightarrow> None
      | Some (max_rate, c) \<Rightarrow>
          let c = c\<lparr>isp_frame_rate := max_rate\<rparr> in
          Some (if group_w c = 0 then - 1 else 0, c))"

section \<open>The server\<close>

abbreviation (input) "GOKE_INIT_CONDITION_NUM \<equiv> 0 :: nat"
abbreviation (input) "GOKE_EXIT_CONDITION \<equiv> 24 :: int"
abbreviation (input) "GOKE_PROPERTY_STATUS \<equiv> 0 :: int"

text \<open>The calls on the media system with their results, oldest first.\<close>

datatype goke_call = Register_vqe int | Init_sys int | Uninit_sys

record goke_server = server_state +
  video_config :: video_config_t
  goke_calls :: "goke_call list"
  goke_fault :: bool

record goke_env =
  vqe_ret :: int
  sys_ret :: int
  video_mirror :: int

abbreviation "goke_do c s \<equiv> s\<lparr>goke_calls := goke_calls s @ [c]\<rparr>"

definition goke_thread_termination :: "goke_server \<Rightarrow> goke_server" where
  "goke_thread_termination = send SERVER_MANAGER (msg_init\<lparr>m_message := MSG_GOKE_SIGINT, m_sender := SERVER_GOKE, m_receiver := SERVER_GOKE\<rparr>)"

definition goke_server_release_1 :: "goke_server \<Rightarrow> goke_server" where
  "goke_server_release_1 s = (if status2 (info s) \<noteq> 0 then with_info (\<lambda>x. x\<lparr>status2 := 0\<rparr>) (goke_do Uninit_sys s) else s)"

definition goke_server_release_2 :: "goke_server \<Rightarrow> goke_server" where
  "goke_server_release_2 s = s\<lparr>bus := (bus s)(SERVER_GOKE := msg_buffer_release (bus s SERVER_GOKE))\<rparr>"

definition goke_server_release_3 :: "goke_server \<Rightarrow> goke_server" where
  "goke_server_release_3 s =
     send SERVER_MANAGER (msg_init\<lparr>m_message := MSG_MANAGER_EXIT_ACK, m_sender := SERVER_GOKE\<rparr>) (s\<lparr>info := info_zero ()\<rparr>)"

definition goke_server_init :: "goke_server \<Rightarrow> goke_server" where
  "goke_server_init s = (if misc_full_bit (init_status (info s)) GOKE_INIT_CONDITION_NUM \<noteq> 0 then set_status STATUS_WAIT s else s)"

text \<open>An access outside the table of the channels sets \<open>goke_fault\<close>, and the server is not followed further.\<close>

definition goke_server_setup :: "goke_env \<Rightarrow> goke_server \<Rightarrow> goke_server" where
  "goke_server_setup env s =
     (if status2 (info s) = 0 then
        let s = goke_do (Register_vqe (vqe_ret env)) s in
        if vqe_ret env \<noteq> 0 then s
        else case goke_adjust_video_parameters (video_mirror env) (video_config s) of
          None \<Rightarrow> s\<lparr>goke_fault := True\<rparr>
        | Some (ret, c) \<Rightarrow>
            let s = s\<lparr>video_config := c\<rparr> in
            if ret \<noteq> 0 then set_status STATUS_ERROR s
            else
              let s = goke_do (Init_sys (sys_ret env)) s in
              if sys_ret env \<noteq> 0 then set_status STATUS_ERROR s
              else set_status STATUS_IDLE (with_info (\<lambda>x. x\<lparr>status2 := 1\<rparr>) s)
      else set_status STATUS_IDLE s)"

definition goke_server_start :: "goke_server \<Rightarrow> goke_server" where
  "goke_server_start s = set_status STATUS_RUN s"

definition goke_server_stop :: "goke_server \<Rightarrow> goke_server" where
  "goke_server_stop s = set_status STATUS_IDLE s"

definition goke_server_restart :: "goke_server \<Rightarrow> goke_server" where
  "goke_server_restart s = set_status STATUS_WAIT (goke_server_release_1 s)"

section \<open>Messages\<close>

definition goke_message_filter :: "msg \<Rightarrow> goke_server \<Rightarrow> bool" where
  "goke_message_filter m s = error_filter m s"

text \<open>
  The answer to a question for a property.  Its condition is an assignment,
  \<open>if (msg.arg_in.cat = GOKE_PROPERTY_STATUS)\<close>, whose value decides.
\<close>

definition goke_property_answer :: "msg \<Rightarrow> goke_server \<Rightarrow> msg" where
  "goke_property_answer m s =
     msg_init\<lparr>m_message := m_message m OR 0x1000, m_sender := SERVER_GOKE, m_receiver := SERVER_GOKE,
       m_arg_in := arg_zero\<lparr>cat := cat (m_arg_in m), dog := (if GOKE_PROPERTY_STATUS \<noteq> 0 then status (info s) else 0)\<rparr>,
       m_result := 0\<rparr>"

text \<open>The server has no timers; a handler that a timer names is another server's and is not called here.\<close>

definition handle_message :: "msg \<Rightarrow> goke_server \<Rightarrow> goke_server" where
  "handle_message m s =
     (let k = m_message m in
      if k = MSG_MANAGER_EXIT then on_manager_exit m s
      else if k = MSG_GOKE_PROPERTY_GET then send (m_receiver m) (goke_property_answer m s) s
      else if k = MSG_MANAGER_EXIT_ACK then on_exit_ack m s
      else s)"

definition goke_take_message :: "goke_server \<Rightarrow> goke_server" where
  "goke_take_message = take_message SERVER_GOKE lock_block goke_message_filter handle_message"

definition goke_message_proc :: "goke_server \<Rightarrow> goke_server" where
  "goke_message_proc = message_proc SERVER_GOKE lock_block goke_message_filter handle_message"

section \<open>Task, state machine and loop\<close>

definition goke_notify :: msg where
  "goke_notify = msg_init\<lparr>m_message := MSG_GOKE_PROPERTY_NOTIFY, m_sender := SERVER_GOKE, m_receiver := SERVER_GOKE,
     m_arg_in := arg_zero\<lparr>cat := GOKE_PROPERTY_STATUS, dog := STATUS_RUN\<rparr>\<rparr>"

definition task_proc :: "goke_server \<Rightarrow> goke_server" where
  "task_proc s =
     (if status (info s) = STATUS_NONE then set_status STATUS_INIT s
      else if status (info s) = STATUS_WAIT then set_status STATUS_SETUP s
      else if status (info s) = STATUS_IDLE then set_status STATUS_START s
      else if status (info s) = STATUS_RUN then send SERVER_AUDIO goke_notify (send SERVER_VIDEO goke_notify s)
      else s)"

definition state_machine :: "goke_env \<Rightarrow> goke_server \<Rightarrow> goke_server" where
  "state_machine env s =
     (let st = status (info s) in
      if st = STATUS_INIT then goke_server_init s
      else if st = STATUS_SETUP then goke_server_setup env s
      else if st = STATUS_START then goke_server_start s
      else if st = STATUS_STOP then goke_server_stop s
      else if st = STATUS_RESTART then goke_server_restart s
      else if st = STATUS_ERROR then with_info (\<lambda>x. x\<lparr>status := EXIT_INIT, msg_lock := 0\<rparr>) s
      else if st = EXIT_INIT then with_info exit_init s
      else if st = EXIT_SERVER then (if quit_status (info s) = 0 then set_status EXIT_STAGE1 s else s)
      else if st = EXIT_STAGE1 then set_status EXIT_THREAD (goke_server_release_1 s)
      else if st = EXIT_THREAD then
        (let s = with_info (\<lambda>x. x\<lparr>thread_exit := thread_start x\<rparr>) s in
         if thread_start (info s) = 0 then set_status EXIT_STAGE2 s else s)
      else if st = EXIT_STAGE2 then set_status EXIT_FINISH (goke_server_release_2 s)
      else if st = EXIT_FINISH then with_info (\<lambda>x. x\<lparr>exit_flag := 1, status := STATUS_NONE\<rparr>) s
      else s)"

definition goke_server_begin :: "int \<Rightarrow> int \<Rightarrow> goke_server \<Rightarrow> goke_server" where
  "goke_server_begin msg_overrun msg_buffer_size_small s =
     (let s = s\<lparr>bus := (bus s)(SERVER_GOKE := msg_buffer_init True (bus s SERVER_GOKE) msg_overrun msg_buffer_size_small)\<rparr> in
      with_info (\<lambda>x. x\<lparr>quit_status := GOKE_EXIT_CONDITION, init := 1\<rparr>) s)"

definition goke_server_turn :: "goke_env \<Rightarrow> goke_server \<Rightarrow> goke_server" where
  "goke_server_turn env = loop_turn (state_machine env) goke_fault task_proc goke_message_proc"

definition goke_server_round :: "goke_env \<Rightarrow> goke_server \<Rightarrow> goke_server" where
  "goke_server_round env s =
     (if goke_fault s then s else loop_round SERVER_GOKE (goke_server_turn env) goke_take_message s)"

section \<open>The parameters are consistent\<close>

text \<open>Which streams are on a channel, and the sizes they ask for.\<close>

definition on_channel :: "video_config_t \<Rightarrow> nat \<Rightarrow> nat \<Rightarrow> bool" where
  "on_channel c i k = (enable (streams c ! i) \<and> vpss_chn (streams c ! i) = int k)"

definition asked_size :: "stream_profile_info_t \<Rightarrow> int \<times> int" where
  "asked_size p = (case hisi_get_pic_size (pic_size p) of None \<Rightarrow> (width p, height p) | Some sz \<Rightarrow> sz)"

definition chn_size :: "vpss_chn_t \<Rightarrow> int \<times> int" where
  "chn_size v = (chn_width v, chn_height v)"

definition params_wf :: "video_config_t \<Rightarrow> bool" where
  "params_wf c = (length (vpss_channels c) = VPSS_MAX_PHY_CHN_NUM \<and> length (streams c) = MAX_STREAM_NUM
     \<and> (\<forall>i < MAX_STREAM_NUM. enable (streams c ! i) \<longrightarrow> 0 \<le> vpss_chn (streams c ! i)
          \<and> vpss_chn (streams c ! i) < int VPSS_MAX_PHY_CHN_NUM))"

text \<open>What one stream leaves in the configuration.\<close>

lemma adjust_stream_effect:
  assumes "params_wf c" "i < MAX_STREAM_NUM"
  shows "\<exists>max_rate' c'. adjust_stream mirror i (max_rate, c) = Some (max_rate', c') \<and> params_wf c'
    \<and> (\<forall>j. j \<noteq> i \<longrightarrow> streams c' ! j = streams c ! j)
    \<and> enable (streams c' ! i) = enable (streams c ! i) \<and> vpss_chn (streams c' ! i) = vpss_chn (streams c ! i)
    \<and> asked_size (streams c' ! i) = asked_size (streams c ! i) \<and> pic_size (streams c' ! i) = pic_size (streams c ! i)
    \<and> (\<forall>k < VPSS_MAX_PHY_CHN_NUM. if on_channel c i k then chn_size (vpss_channels c' ! k) = asked_size (streams c ! i) \<and> chn_enabled (vpss_channels c' ! k)
         else vpss_channels c' ! k = vpss_channels c ! k)
    \<and> (if enable (streams c ! i) \<and> pic_size (streams c ! i) \<noteq> PIC_BUTT \<and> group_w c < fst (asked_size (streams c ! i))
       then (group_w c', group_h c') = asked_size (streams c ! i) else (group_w c', group_h c') = (group_w c, group_h c))"
proof (cases "enable (streams c ! i)")
  case False
  then show ?thesis using assms by (simp add: adjust_stream_def on_channel_def)
next
  case True
  let ?p = "streams c ! i"
  have v: "0 \<le> vpss_chn ?p" "vpss_chn ?p < 3" "length (vpss_channels c) = 3" "i < length (streams c)"
    using assms True by (auto simp: params_wf_def)
  have none: "(hisi_get_pic_size (pic_size ?p) = None) = (pic_size ?p = PIC_BUTT)" by (cases "pic_size ?p") simp_all
  define q where "q = ?p\<lparr>width := fst (asked_size ?p), height := snd (asked_size ?p)\<rparr>"
  have q: "asked_size q = asked_size ?p" "enable q" "vpss_chn q = vpss_chn ?p" "pic_size q = pic_size ?p" "width q = fst (asked_size ?p)" "height q = snd (asked_size ?p)"
    "frame_rate q = frame_rate ?p"
    using True by (auto simp: q_def asked_size_def split: option.splits)
  define g where "g = (if pic_size ?p \<noteq> PIC_BUTT \<and> group_w c < fst (asked_size ?p) then asked_size ?p else (group_w c, group_h c))"
  define chn where "chn = \<lparr>chn_width = width q, chn_height = height q, chn_mirror = mirror, chn_enabled = True\<rparr>"
  define d where "d = c\<lparr>streams := (streams c)[i := q], group_w := fst g, group_h := snd g,
    vpss_channels := (vpss_channels c)[nat (vpss_chn ?p) := chn]\<rparr>"
  have "adjust_stream mirror i (max_rate, c) = Some (if frame_rate ?p > max_rate then frame_rate ?p else max_rate, d)"
  proof (cases "hisi_get_pic_size (pic_size ?p)")
    case None
    then have "q = ?p" "g = (group_w c, group_h c)" using none by (simp_all add: q_def g_def asked_size_def)
    then show ?thesis using None True v by (simp add: adjust_stream_def d_def chn_def Let_def)
  next
    case (Some sz)
    then have "pic_size ?p \<noteq> PIC_BUTT" "asked_size ?p = sz" using none by (auto simp: asked_size_def)
    then show ?thesis
      using Some True v by (cases sz) (simp add: adjust_stream_def d_def chn_def g_def q_def Let_def)
  qed
  moreover have "params_wf d"
    using assms q v by (auto simp: params_wf_def d_def nth_list_update)
  moreover have "k < 3 \<Longrightarrow> (if on_channel c i k then chn_size (vpss_channels d ! k) = asked_size ?p \<and> chn_enabled (vpss_channels d ! k)
      else vpss_channels d ! k = vpss_channels c ! k)" for k
    using v True q by (auto simp: on_channel_def d_def nth_list_update chn_def chn_size_def)
  moreover have "streams d = (streams c)[i := q]" "(group_w d, group_h d) = g" by (simp_all add: d_def)
  moreover have "streams d ! i = q" using v by (simp add: d_def)
  ultimately show ?thesis
    using q True by (intro exI [of _ "if frame_rate ?p > max_rate then frame_rate ?p else max_rate"] exI [of _ d])
      (simp add: g_def)
qed

definition known :: "video_config_t \<Rightarrow> nat \<Rightarrow> bool" where
  "known c i = (enable (streams c ! i) \<and> pic_size (streams c ! i) \<noteq> PIC_BUTT)"

text \<open>The loop runs downwards, so that the stream with the smallest number has the last word.\<close>

lemma adjust_streams_effect:
  assumes "params_wf c" "n \<le> MAX_STREAM_NUM"
  shows "\<exists>max_rate' c'. adjust_streams mirror n (max_rate, c) = Some (max_rate', c') \<and> params_wf c'
    \<and> (\<forall>k i. k < VPSS_MAX_PHY_CHN_NUM \<and> i < n \<and> on_channel c i k \<and> (\<forall>j < i. \<not> on_channel c j k) \<longrightarrow>
         chn_size (vpss_channels c' ! k) = asked_size (streams c ! i) \<and> chn_enabled (vpss_channels c' ! k))
    \<and> (\<forall>k < VPSS_MAX_PHY_CHN_NUM. (\<forall>i < n. \<not> on_channel c i k) \<longrightarrow> vpss_channels c' ! k = vpss_channels c ! k)
    \<and> group_w c \<le> group_w c' \<and> (\<forall>i < n. known c i \<longrightarrow> fst (asked_size (streams c ! i)) \<le> group_w c')
    \<and> ((group_w c', group_h c') = (group_w c, group_h c) \<or> (\<exists>i < n. known c i \<and> (group_w c', group_h c') = asked_size (streams c ! i)))"
  using assms
proof (induction n arbitrary: max_rate c)
  case 0
  then show ?case by simp
next
  case (Suc n)
  then have n: "n < MAX_STREAM_NUM" by simp
  obtain r1 c1 where s: "adjust_stream mirror n (max_rate, c) = Some (r1, c1)" "params_wf c1"
    "\<And>j. j \<noteq> n \<Longrightarrow> streams c1 ! j = streams c ! j"
    and ch: "\<And>k. k < 3 \<Longrightarrow> (if on_channel c n k then chn_size (vpss_channels c1 ! k) = asked_size (streams c ! n) \<and> chn_enabled (vpss_channels c1 ! k)
         else vpss_channels c1 ! k = vpss_channels c ! k)"
    and g: "if known c n \<and> group_w c < fst (asked_size (streams c ! n))
       then (group_w c1, group_h c1) = asked_size (streams c ! n) else (group_w c1, group_h c1) = (group_w c, group_h c)"
    using adjust_stream_effect [OF Suc.prems(1) n, of mirror max_rate] unfolding known_def by auto
  have same: "j < n \<Longrightarrow> on_channel c1 j k = on_channel c j k" "j < n \<Longrightarrow> known c1 j = known c j"
    "j < n \<Longrightarrow> streams c1 ! j = streams c ! j" for j k
    using s(3) [of j] by (simp_all add: on_channel_def known_def)
  obtain r2 c2 where t: "adjust_streams mirror n (r1, c1) = Some (r2, c2)" "params_wf c2"
    and j1: "\<forall>k i. k < 3 \<and> i < n \<and> on_channel c1 i k \<and> (\<forall>j < i. \<not> on_channel c1 j k) \<longrightarrow>
         chn_size (vpss_channels c2 ! k) = asked_size (streams c1 ! i) \<and> chn_enabled (vpss_channels c2 ! k)"
    and j2: "\<forall>k < 3. (\<forall>i < n. \<not> on_channel c1 i k) \<longrightarrow> vpss_channels c2 ! k = vpss_channels c1 ! k"
    and i3: "group_w c1 \<le> group_w c2"
    and j3: "\<forall>i < n. known c1 i \<longrightarrow> fst (asked_size (streams c1 ! i)) \<le> group_w c2"
    and j4: "(group_w c2, group_h c2) = (group_w c1, group_h c1) \<or> (\<exists>i < n. known c1 i \<and> (group_w c2, group_h c2) = asked_size (streams c1 ! i))"
    using Suc.IH [OF s(2), of r1] n by auto
  have i1: "chn_size (vpss_channels c2 ! k) = asked_size (streams c ! i) \<and> chn_enabled (vpss_channels c2 ! k)"
    if "k < 3" "i < n" "on_channel c i k" "\<forall>j < i. \<not> on_channel c j k" for k i
    using j1 [rule_format, of k i] that same by simp
  have i2: "vpss_channels c2 ! k = vpss_channels c1 ! k" if "k < 3" "\<forall>i < n. \<not> on_channel c i k" for k
    using j2 that same by simp
  have i4: "(group_w c2, group_h c2) = (group_w c1, group_h c1) \<or> (\<exists>i < n. known c i \<and> (group_w c2, group_h c2) = asked_size (streams c ! i))"
    using j4 same by metis
  have gw: "group_w c \<le> group_w c1" "known c n \<Longrightarrow> fst (asked_size (streams c ! n)) \<le> group_w c1"
    using g by (auto split: if_splits dest: arg_cong [where f = fst])
  have "chn_size (vpss_channels c2 ! k) = asked_size (streams c ! i) \<and> chn_enabled (vpss_channels c2 ! k)"
    if "k < 3" "i < Suc n" "on_channel c i k" "\<forall>j < i. \<not> on_channel c j k" for k i
  proof (cases "i = n")
    case True
    then show ?thesis using i2 [of k] ch [of k] that by auto
  next
    case False
    then show ?thesis using i1 [of k i] that by auto
  qed
  moreover have "vpss_channels c2 ! k = vpss_channels c ! k" if "k < 3" "\<forall>i < Suc n. \<not> on_channel c i k" for k
    using i2 [of k] ch [of k] that by (auto split: if_splits)
  moreover have "fst (asked_size (streams c ! i)) \<le> group_w c2" if "i < Suc n" "known c i" for i
    using i3 gw(2) j3 [rule_format, of i] same [of i] that by (cases "i = n") auto
  moreover have "(group_w c2, group_h c2) = (group_w c, group_h c) \<or> (\<exists>i < Suc n. known c i \<and> (group_w c2, group_h c2) = asked_size (streams c ! i))"
    using i4 g by (auto split: if_splits simp: less_Suc_eq)
  ultimately show ?case
    using s(1) t gw(1) i3(1) by (intro exI [of _ r2] exI [of _ c2]) auto
qed

text \<open>
  The sizes given to the media system: every channel in use has the size of the
  lowest-numbered stream on it, the group is at least as wide as every stream with a known
  size and has the size of one of them, and the call fails exactly when there is none.
\<close>

theorem goke_parameters:
  assumes "params_wf c"
  shows "\<exists>ret c'. goke_adjust_video_parameters mirror c = Some (ret, c') \<and> (ret = 0) = (\<exists>i < MAX_STREAM_NUM. known c i)
    \<and> (\<forall>k i. k < VPSS_MAX_PHY_CHN_NUM \<and> i < MAX_STREAM_NUM \<and> on_channel c i k \<and> (\<forall>j < i. \<not> on_channel c j k) \<longrightarrow>
         chn_size (vpss_channels c' ! k) = asked_size (streams c ! i) \<and> chn_enabled (vpss_channels c' ! k))
    \<and> (\<forall>i < MAX_STREAM_NUM. known c i \<longrightarrow> fst (asked_size (streams c ! i)) \<le> group_w c')
    \<and> (ret = 0 \<longrightarrow> (\<exists>i < MAX_STREAM_NUM. known c i \<and> (group_w c', group_h c') = asked_size (streams c ! i)))"
proof -
  let ?c = "c\<lparr>group_w := 0, group_h := 0\<rparr>"
  have wf: "params_wf ?c" "\<And>i k. on_channel ?c i k = on_channel c i k" "\<And>i. known ?c i = known c i"
    using assms by (simp_all add: params_wf_def on_channel_def known_def)
  have pos: "0 < fst (asked_size (streams c ! i))" if "known c i" for i
    using that by (cases "pic_size (streams c ! i)") (simp_all add: known_def asked_size_def)
  obtain r d where d: "adjust_streams mirror MAX_STREAM_NUM (0, ?c) = Some (r, d)"
    "\<forall>k i. k < VPSS_MAX_PHY_CHN_NUM \<and> i < MAX_STREAM_NUM \<and> on_channel c i k \<and> (\<forall>j < i. \<not> on_channel c j k) \<longrightarrow>
         chn_size (vpss_channels d ! k) = asked_size (streams c ! i) \<and> chn_enabled (vpss_channels d ! k)"
    "0 \<le> group_w d" "\<forall>i < MAX_STREAM_NUM. known c i \<longrightarrow> fst (asked_size (streams c ! i)) \<le> group_w d"
    "(group_w d, group_h d) = (0, 0) \<or> (\<exists>i < MAX_STREAM_NUM. known c i \<and> (group_w d, group_h d) = asked_size (streams c ! i))"
    using adjust_streams_effect [OF wf(1), of MAX_STREAM_NUM mirror 0] by (auto simp: wf(2,3))
  have zero: "(group_w d = 0) = (\<not> (\<exists>i < MAX_STREAM_NUM. known c i))"
    using d(4,5) pos by (metis fst_conv leD)
  show ?thesis
    by (intro exI [of _ "if group_w d = 0 then - 1 else 0"] exI [of _ "d\<lparr>isp_frame_rate := r\<rparr>"])
      (use d zero in \<open>auto simp: goke_adjust_video_parameters_def\<close>)
qed

text \<open>
  The height of the group is that of the first stream of the largest width, counted from
  above: another stream of that width may be higher than the group.
\<close>

lemma group_too_low:
  assumes "params_wf c" "enable (streams c ! 4)" "pic_size (streams c ! 4) = PIC_D1_NTSC"
    and "\<forall>i < 4. enable (streams c ! i) \<longrightarrow> pic_size (streams c ! i) = PIC_D1_PAL" "enable (streams c ! 0)"
  shows "\<exists>c'. goke_adjust_video_parameters mirror c = Some (0, c') \<and> group_h c' = 480 \<and> height (streams c' ! 0) = 576"
proof -
  obtain a0 a1 a2 a3 a4 where l: "streams c = [a0, a1, a2, a3, a4]"
    using assms(1) by (auto simp: params_wf_def numeral_eq_Suc length_Suc_conv)
  obtain b0 b1 b2 where b: "vpss_channels c = [b0, b1, b2]"
    using assms(1) by (auto simp: params_wf_def numeral_eq_Suc length_Suc_conv)
  have "\<forall>i < 4. enable ([a0, a1, a2, a3, a4] ! i) \<longrightarrow> pic_size ([a0, a1, a2, a3, a4] ! i) = PIC_D1_PAL"
    "\<forall>i < 5. enable ([a0, a1, a2, a3, a4] ! i) \<longrightarrow> 0 \<le> vpss_chn ([a0, a1, a2, a3, a4] ! i) \<and> vpss_chn ([a0, a1, a2, a3, a4] ! i) < 3"
    using assms(1,4) l by (simp_all add: params_wf_def)
  then have e: "enable a0" "enable a4" "pic_size a4 = PIC_D1_NTSC" "pic_size a0 = PIC_D1_PAL"
    "enable a1 \<Longrightarrow> pic_size a1 = PIC_D1_PAL" "enable a2 \<Longrightarrow> pic_size a2 = PIC_D1_PAL" "enable a3 \<Longrightarrow> pic_size a3 = PIC_D1_PAL"
    "0 \<le> vpss_chn a0 \<and> vpss_chn a0 < 3" "enable a1 \<Longrightarrow> 0 \<le> vpss_chn a1 \<and> vpss_chn a1 < 3"
    "enable a2 \<Longrightarrow> 0 \<le> vpss_chn a2 \<and> vpss_chn a2 < 3" "enable a3 \<Longrightarrow> 0 \<le> vpss_chn a3 \<and> vpss_chn a3 < 3"
    "0 \<le> vpss_chn a4 \<and> vpss_chn a4 < 3"
    using assms(2,3,5) l by (simp_all add: numeral_eq_Suc All_less_Suc)
  show ?thesis
    using e by (cases "enable a1"; cases "enable a2"; cases "enable a3")
      (simp_all add: goke_adjust_video_parameters_def adjust_stream_def l numeral_eq_Suc Let_def)
qed

section \<open>The exit\<close>

text \<open>
  The goke server reuses \<open>status2\<close> for the state of the media system, which its first release
  stage resets.  It has no threads.
\<close>

lemmas goke_machine_defs = state_machine_def ladder_def exit_init_def goke_server_release_1_def goke_server_release_2_def

interpretation goke_exit: exit_ladder SERVER_GOKE 0 "state_machine env" goke_fault
    task_proc lock_block goke_message_filter handle_message "\<lambda>s. s" "\<lambda>s. \<not> goke_fault s"
  for env
proof unfold_locales
  fix s :: goke_server and m
  show "status (info s) \<in> exit_states \<Longrightarrow> climbs (info s) (info (state_machine env s))"
    by (rule climbs_ladder) (auto simp: goke_machine_defs Let_def)
  show "status (info s) \<in> exit_states \<Longrightarrow> bus (state_machine env s) SERVER_GOKE =
      (if status (info s) = EXIT_STAGE2 then msg_buffer_release (bus s SERVER_GOKE) else bus s SERVER_GOKE)"
    by (auto simp: goke_machine_defs Let_def)
  show "\<not> goke_fault s \<Longrightarrow> status (info s) \<in> exit_states \<Longrightarrow>
      waiting (state_machine env s) = waiting s \<and> \<not> goke_fault (state_machine env s) \<and> \<not> goke_fault (state_machine env s)"
    by (auto simp: goke_machine_defs Let_def)
  show "status (info s) \<in> exit_states \<Longrightarrow> task_proc s = s" by (auto simp: task_proc_def)
  show "status (info s) = STATUS_NONE \<Longrightarrow> \<exists>v. task_proc s = set_status v s"
    by (auto simp: task_proc_def)
  show "m_message m = MSG_MANAGER_DUMMY \<Longrightarrow> handle_message m s = s" by (simp add: handle_message_def)
  show "thread_start (info s) AND 0 = thread_start (info s) \<Longrightarrow> \<exists>e. info s = (info s)\<lparr>
      thread_start := thread_start (info s) AND NOT (thread_exit (info s)), thread_exit := e\<rparr>"
    by (intro exI [of _ "thread_exit (info s)"]) simp
qed (simp_all add: lock_block_def)

text \<open>
  A goke server that was told to exit and waits for nobody, with nothing but dummies in its
  queue, leaves its loop within nine rounds.
\<close>

theorem goke_exit_completes:
  assumes "leaving SERVER_GOKE 0 (\<lambda>s. \<not> goke_fault s) s"
  shows "\<exists>n \<le> 9. exit_flag (info ((loop_round SERVER_GOKE (goke_server_turn env) goke_take_message ^^ n) s)) \<noteq> 0"
proof -
  have "loop_round SERVER_GOKE (goke_server_turn env) goke_take_message = (\<lambda>s. loop_round SERVER_GOKE
      (loop_turn (state_machine env) goke_fault task_proc
        (message_proc SERVER_GOKE lock_block goke_message_filter handle_message))
      (take_message SERVER_GOKE lock_block goke_message_filter handle_message) s)"
    by (rule ext) (simp add: goke_server_turn_def goke_message_proc_def goke_take_message_def)
  then show ?thesis using goke_exit.leaves_loop [OF assms, of env] by simp
qed

section \<open>The media system is initialised once and released once\<close>

text \<open>Successful initialisations not followed by a release.\<close>

definition sys_balance :: "goke_server \<Rightarrow> int" where
  "sys_balance s = int (length (filter (\<lambda>c. c = Init_sys 0) (goke_calls s))) - int (length (filter (\<lambda>c. c = Uninit_sys) (goke_calls s)))"

text \<open>The server from its start, with any messages of the others between its rounds.\<close>

inductive goke_runs :: "goke_server \<Rightarrow> bool" where
  begins: "info s = info_zero () \<Longrightarrow> goke_calls s = [] \<Longrightarrow> \<not> goke_fault s \<Longrightarrow> goke_runs (goke_server_begin ovr sz s)"
| goes_on: "goke_runs s \<Longrightarrow> goke_runs (goke_server_round env s)"
| others: "goke_runs s \<Longrightarrow> goke_runs (s\<lparr>bus := b\<rparr>)"

definition sys_numbers :: "int \<Rightarrow> int \<Rightarrow> int \<Rightarrow> int \<Rightarrow> bool" where
  "sys_numbers balance st2 st ex =
     (balance = st2 \<and> st2 \<in> {0, 1} \<and> st \<noteq> STATUS_STOP \<and> st \<noteq> STATUS_RESTART
     \<and> (st \<in> {STATUS_IDLE, STATUS_START, STATUS_RUN} \<longrightarrow> st2 = 1)
     \<and> (st \<in> {STATUS_NONE, STATUS_INIT, STATUS_WAIT, STATUS_SETUP, EXIT_THREAD, EXIT_STAGE2, EXIT_FINISH} \<longrightarrow> st2 = 0)
     \<and> (ex \<noteq> 0 \<longrightarrow> st2 = 0))"

definition sys_inv :: "goke_server \<Rightarrow> bool" where
  "sys_inv s = sys_numbers (sys_balance s) (status2 (info s)) (status (info s)) (exit_flag (info s))"

lemma sys_inv_frame:
  "goke_calls t = goke_calls s \<Longrightarrow> status2 (info t) = status2 (info s) \<Longrightarrow> exit_flag (info t) = exit_flag (info s) \<Longrightarrow>
   status (info t) = status (info s) \<or> status (info t) = EXIT_INIT \<Longrightarrow> sys_inv s \<Longrightarrow> sys_inv t"
  unfolding sys_inv_def sys_balance_def
  by (erule disjE) (simp, simp add: sys_numbers_def)

lemma goke_send_fields [simp]:
  "goke_calls (send r m s) = goke_calls s" "goke_fault (send r m s) = goke_fault s" "video_config (send r m s) = video_config s"
  by (simp_all add: send_def)

lemma handle_sys_inv: "sys_inv s \<Longrightarrow> sys_inv (handle_message m s)"
proof -
  assume s: "sys_inv s"
  have "sys_inv (on_manager_exit m s)" "sys_inv (on_exit_ack m s)" "sys_inv (send r a s)" for r a
    by (rule sys_inv_frame [OF _ _ _ _ s]; simp add: on_manager_exit_def keep_task_msg_def on_exit_ack_def)+
  then show ?thesis using s by (simp add: handle_message_def Let_def)
qed

lemma take_sys_inv: "sys_inv s \<Longrightarrow> sys_inv (goke_take_message s)"
proof -
  assume s: "sys_inv s"
  have "sys_inv (s\<lparr>bus := b\<rparr>)" for b by (rule sys_inv_frame [OF _ _ _ _ s]) simp_all
  then show ?thesis
    using s handle_sys_inv by (cases "msg_lock (info s) = 0") (simp_all add: goke_take_message_def take_message_def lock_block_def Let_def split: prod.splits)
qed

lemma task_sys_inv: "sys_inv s \<Longrightarrow> sys_inv (task_proc s)"
proof -
  assume s: "sys_inv s"
  have n: "sys_inv (send r a s)" if "sys_inv s" for r a s
    by (rule sys_inv_frame [OF _ _ _ _ that]) simp_all
  consider "status (info s) = STATUS_NONE" | "status (info s) = STATUS_WAIT" | "status (info s) = STATUS_IDLE"
    | "status (info s) = STATUS_RUN" | "task_proc s = s"
    unfolding task_proc_def by presburger
  then show ?thesis
    using s n by cases (simp_all add: task_proc_def, auto simp: sys_inv_def sys_balance_def sys_numbers_def)
qed

lemma machine_sys_inv:
  assumes "sys_inv s" "exit_flag (info s) = 0" "\<not> goke_fault (state_machine env s)"
  shows "sys_inv (state_machine env s)"
proof -
  let ?st = "status (info s)"
  consider "?st = STATUS_INIT" | "?st = STATUS_SETUP" | "?st = STATUS_START" | "?st = STATUS_STOP \<or> ?st = STATUS_RESTART"
    | "?st = STATUS_ERROR" | "?st = EXIT_INIT" | "?st = EXIT_SERVER" | "?st = EXIT_STAGE1" | "?st = EXIT_THREAD"
    | "?st = EXIT_STAGE2" | "?st = EXIT_FINISH" | "state_machine env s = s"
    unfolding state_machine_def Let_def by presburger
  then show ?thesis
  proof cases
    case 2
    then have z: "status2 (info s) = 0" "sys_balance s = 0" using assms(1) by (simp_all add: sys_inv_def sys_numbers_def)
    have "state_machine env s = goke_server_setup env s" using 2 by (simp add: state_machine_def)
    then show ?thesis
      using z assms 2
      by (simp add: goke_server_setup_def sys_inv_def sys_numbers_def sys_balance_def Let_def split: option.splits prod.splits if_splits)
  next
    case 4
    then show ?thesis using assms(1) by (auto simp: sys_inv_def sys_numbers_def)
  next
    case 8
    then show ?thesis
      using assms(1,2) by (simp add: state_machine_def goke_server_release_1_def sys_inv_def sys_balance_def sys_numbers_def) linarith
  next
    case 12
    then show ?thesis using assms(1) by simp
  qed (use assms(1,2) in \<open>simp_all add: goke_machine_defs goke_server_init_def goke_server_start_def sys_inv_def sys_balance_def sys_numbers_def Let_def\<close>)
qed

text \<open>
  C15: In every run the media system is initialised and released in turns, beginning with an
  initialisation, and never twice in a row; it is up whenever the server is running, and down
  before and after.
\<close>

theorem media_system_balanced:
  assumes "goke_runs s" "\<not> goke_fault s"
  shows "sys_balance s \<in> {0, 1} \<and> (status (info s) = STATUS_RUN \<longrightarrow> sys_balance s = 1)
    \<and> (status (info s) = STATUS_SETUP \<or> exit_flag (info s) \<noteq> 0 \<longrightarrow> sys_balance s = 0)"
proof -
  from assms(1) have "\<not> goke_fault s \<longrightarrow> sys_inv s"
  proof induction
    case (begins s ovr sz)
    then show ?case by (simp add: goke_server_begin_def sys_inv_def sys_numbers_def sys_balance_def info_zero_def)
  next
    case (goes_on s env)
    have fault: "goke_fault (goke_message_proc t) = goke_fault t" "goke_fault (task_proc t) = goke_fault t"
      "goke_fault (goke_take_message t) = goke_fault t" for t
      by (auto simp: goke_message_proc_def message_proc_def goke_take_message_def take_message_def lock_block_def
          handle_message_def on_manager_exit_def keep_task_msg_def on_exit_ack_def task_proc_def Let_def split: bool.splits prod.splits)
    show ?case
    proof (cases "goke_fault s \<or> exit_flag (info s) \<noteq> 0")
      case True
      then show ?thesis using goes_on.IH by (auto simp: goke_server_round_def loop_round_def)
    next
      case False
      then have inv: "sys_inv s" "exit_flag (info s) = 0" "\<not> goke_fault s" using goes_on.IH by simp_all
      have w: "sys_inv (t\<lparr>waiting := b\<rparr>)" if "sys_inv t" for t b
        by (rule sys_inv_frame [OF _ _ _ _ that]) simp_all
      let ?t = "with_info (\<lambda>x. x\<lparr>old_status := status x\<rparr>) s"
      have t: "sys_inv ?t" by (rule sys_inv_frame [OF _ _ _ _ inv(1)]) simp_all
      have proc: "sys_inv (goke_message_proc u)" if "sys_inv u" for u
        using take_sys_inv [OF that] w [OF that, of True]
        by (simp add: goke_message_proc_def message_proc_def goke_take_message_def)
      show ?thesis
      proof (cases "waiting s")
        case True
        then show ?thesis
          using inv w take_sys_inv by (simp add: goke_server_round_def loop_round_def)
      next
        case False
        have turn: "sys_inv (goke_server_turn env s)" if "\<not> goke_fault (goke_server_turn env s)"
          using machine_sys_inv [OF t, of env] inv that proc task_sys_inv
          by (simp add: goke_server_turn_def loop_turn_def Let_def fault split: if_splits)
        then show ?thesis using inv False by (simp add: goke_server_round_def loop_round_def)
      qed
    qed
  next
    case (others s b)
    have "sys_inv (s\<lparr>bus := b\<rparr>)" if "sys_inv s" by (rule sys_inv_frame [OF _ _ _ _ that]) simp_all
    then show ?case using others by simp
  qed
  then show ?thesis using assms(2) by (auto simp: sys_inv_def sys_numbers_def)
qed

section \<open>Concrete servers\<close>

definition demo_stream :: stream_profile_info_t where
  "demo_stream = \<lparr>enable = True, pic_size = PIC_VGA, width = 0, height = 0, frame_rate = 20, vpss_chn = 1\<rparr>"

text \<open>The streams of the configuration in \<open>server/video/config.c\<close>.\<close>

definition demo_video :: video_config_t where
  "demo_video = \<lparr>streams = [demo_stream\<lparr>pic_size := PIC_1080P, vpss_chn := 0\<rparr>, demo_stream,
       demo_stream\<lparr>vpss_chn := 0, frame_rate := 5\<rparr>, demo_stream\<lparr>pic_size := PIC_360P, vpss_chn := 2\<rparr>, demo_stream\<lparr>enable := False\<rparr>],
     group_w = 0, group_h = 0, vpss_channels = replicate 3 \<lparr>chn_width = 0, chn_height = 0, chn_mirror = 0, chn_enabled = False\<rparr>,
     isp_frame_rate = 0\<rparr>"

definition demo_goke :: goke_server where
  "demo_goke = \<lparr>info = info_zero (), bus = (\<lambda>_. demo_queue 1), waiting = False, video_config = demo_video,
     goke_calls = [], goke_fault = False\<rparr>"

lemma demo_video_wf: "params_wf demo_video"
  by (simp add: params_wf_def demo_video_def demo_stream_def numeral_eq_Suc All_less_Suc)

text \<open>Two streams share the first channel, the larger one has the smaller number.\<close>

theorem goke_parameters_witness:
  "\<exists>c'. goke_adjust_video_parameters 0 demo_video = Some (0, c') \<and> chn_size (vpss_channels c' ! 0) = (1920, 1080)"
proof -
  obtain ret c' where c: "goke_adjust_video_parameters 0 demo_video = Some (ret, c')" "(ret = 0) = (\<exists>i < 5. known demo_video i)"
    "\<forall>k i. k < 3 \<and> i < 5 \<and> on_channel demo_video i k \<and> (\<forall>j < i. \<not> on_channel demo_video j k) \<longrightarrow>
         chn_size (vpss_channels c' ! k) = asked_size (streams demo_video ! i) \<and> chn_enabled (vpss_channels c' ! k)"
    using goke_parameters [OF demo_video_wf, of 0] by auto
  have "known demo_video 0" by (simp add: known_def demo_video_def demo_stream_def)
  then have "ret = 0" using c(2) by (metis zero_less_numeral)
  moreover have "chn_size (vpss_channels c' ! 0) = (1920, 1080)"
    using c(3) [rule_format, of 0 0] by (simp add: on_channel_def demo_video_def demo_stream_def asked_size_def)
  ultimately show ?thesis using c(1) by auto
qed

theorem goke_exit_completes_witness:
  "\<exists>n \<le> 9. exit_flag (info ((loop_round SERVER_GOKE (goke_server_turn \<lparr>vqe_ret = 0, sys_ret = 0, video_mirror = 0\<rparr>) goke_take_message ^^ n)
     (with_info (\<lambda>x. x\<lparr>status := EXIT_INIT, status2 := 1\<rparr>) demo_goke))) \<noteq> 0"
proof (rule goke_exit_completes)
  show "leaving SERVER_GOKE 0 (\<lambda>s. \<not> goke_fault s) (with_info (\<lambda>x. x\<lparr>status := EXIT_INIT, status2 := 1\<rparr>) demo_goke)"
    by (simp add: leaving_def demo_goke_def info_zero_def quiet_def)
qed

theorem media_system_balanced_witness:
  "sys_balance (goke_server_begin 1 8 demo_goke) \<in> {0, 1}"
proof -
  have "goke_runs (goke_server_begin 1 8 demo_goke)" by (rule begins) (simp_all add: demo_goke_def)
  moreover have "\<not> goke_fault (goke_server_begin 1 8 demo_goke)" by (simp add: goke_server_begin_def demo_goke_def)
  ultimately show ?thesis using media_system_balanced by blast
qed

end
