(* ===== verification/Audio.thy ===== *)
theory Audio
  imports MsgBlock RecorderServer Goke
begin

text \<open>
  The audio server of \<open>server/audio/audio.c\<close>: the channels it streams to, the stages of the
  audio hardware, the sounds it plays, its stream thread, its message handler, its task, its
  state machine and its loop.  What the media library's set-up functions and the cloud library
  return is an argument.
\<close>

section \<open>State\<close>

abbreviation (input) "AUDIO_THREAD_ENCODER \<equiv> 0 :: nat"
abbreviation (input) "AUDIO_INIT_CONDITION_GOKE \<equiv> 0 :: nat"
abbreviation (input) "AUDIO_INIT_CONDITION_NUM \<equiv> 1 :: nat"
abbreviation (input) "AUDIO_EXIT_CONDITION \<equiv> 160 :: int"
abbreviation (input) "AUDIO_PROPERTY_SPEAKER \<equiv> 2 :: int"
abbreviation (input) "SPEAKER_CTL_INTERCOM_DATA \<equiv> 0x50 :: int"
abbreviation (input) "AUDIO_RESOURCE_SCAN_START \<equiv> 0 :: int"
abbreviation (input) "AUDIO_RESOURCE_SCAN_SUCCESS \<equiv> 1 :: int"
abbreviation (input) "AUDIO_RESOURCE_BINDING_SUCCESS \<equiv> 2 :: int"
abbreviation (input) "AUDIO_RESOURCE_START \<equiv> 3 :: int"
abbreviation (input) "MAX_AV_CHANNEL \<equiv> 4 :: nat"
abbreviation (input) "MAX_AUDIO_FRAME_SIZE \<equiv> 2048 :: nat"
abbreviation (input) "QOS_MAX_LATENCY \<equiv> 10000 :: int"
abbreviation (input) "PT_NUM_PER_FRM \<equiv> 480 :: nat"

text \<open>The functions of the media system the server calls.\<close>

datatype hisi_call =
    Aac_init | Aac_deinit
  | Init_ai | Init_codec | Init_ae | Init_ao | Init_ad
  | Start_ai | Start_ae | Start_ad | Start_ao | Bind_ae_ai | Bind_ao_ad
  | Unbind_ao_ad | Unbind_ae_ai | Stop_ao | Stop_ad | Stop_ae | Stop_ai
  | Uninit_ao | Uninit_ad | Uninit_ae | Uninit_ai

text \<open>What the server does outside of its own state, oldest first.\<close>

datatype audio_call =
    Hisi hisi_call int
  | Create_stream_thread int
  | Decode bytes
  | End_of_stream
  | Mute bool
  | Speaker_line bool
  | Save_config int
  | Sync_property int int
  | Send_config int
  | Send_media int bytes u32 int

record audio_running_info_t =
  ai_init :: bool
  ai_start :: bool
  codec_init :: bool
  ae_init :: bool
  ae_start :: bool
  ao_init :: bool
  ao_start :: bool
  ad_init :: bool
  ad_start :: bool
  ae_ai_bind :: bool
  ao_ad_bind :: bool

datatype channel_status_t = CHANNEL_EMPTY | CHANNEL_VALID

text \<open>\<open>qos_success\<close> is kept as the bits of the time stamp that is stored in it.\<close>

record audio_channel_t =
  ch_status :: channel_status_t
  channel_type :: int
  service_id :: int
  require_key :: bool
  qos_success :: u32

text \<open>A sound file: missing, unreadable, or its bytes and whether reading on fails at their end.\<close>

datatype sound_file = Sound_missing | Sound_unopened | Sound_file bytes bool

text \<open>\<open>recorder_buff\<close> are the recorder's queues for audio frames; \<open>_config_.speaker_enable\<close> is global.\<close>

record audio_server = server_state +
  running_info :: audio_running_info_t
  channels :: "audio_channel_t list"
  recorder_buff :: "queue list"
  speaker_on :: int
  audio_calls :: "audio_call list"
  audio_fault :: bool

record audio_env =
  hisi :: "hisi_call \<Rightarrow> int"
  create_ret :: int
  payload_aac :: bool
  sound :: "char list \<Rightarrow> sound_file"
  decode_ok :: bool

abbreviation "audio_do c s \<equiv> s\<lparr>audio_calls := audio_calls s @ [c]\<rparr>"
abbreviation "with_running f s \<equiv> s\<lparr>running_info := f (running_info s)\<rparr>"
abbreviation "fails s \<equiv> s\<lparr>audio_fault := True\<rparr>"

section \<open>Channels\<close>

text \<open>The index of the first channel that satisfies \<open>P\<close>, or -1.\<close>

fun first_channel :: "(audio_channel_t \<Rightarrow> bool) \<Rightarrow> int \<Rightarrow> audio_channel_t list \<Rightarrow> int" where
  "first_channel P i [] = - 1"
| "first_channel P i (c # cs) = (if P c then i else first_channel P (i + 1) cs)"

definition get_old_channel :: "int \<Rightarrow> int \<Rightarrow> audio_channel_t list \<Rightarrow> int" where
  "get_old_channel sid ty chs =
     first_channel (\<lambda>c. service_id c = sid \<and> ch_status c = CHANNEL_VALID
       \<and> (channel_type c = SERVER_AUDIO \<or> channel_type c = ty)) 0 chs"

definition get_new_channel :: "int \<Rightarrow> int \<Rightarrow> audio_channel_t list \<Rightarrow> int \<times> audio_channel_t list" where
  "get_new_channel sid ty chs =
     (let i = first_channel (\<lambda>c. service_id c = sid \<and> channel_type c = ty \<and> ch_status c = CHANNEL_VALID) 0 chs in
      if i \<noteq> - 1 then (i, chs)
      else let i = first_channel (\<lambda>c. ch_status c \<noteq> CHANNEL_VALID) 0 chs in
        if i \<noteq> - 1 then
          (i, chs[nat i := (chs ! nat i)\<lparr>service_id := sid, channel_type := ty, ch_status := CHANNEL_VALID\<rparr>])
        else (- 1, chs))"

section \<open>The stages of the audio hardware\<close>

text \<open>
  One call of the media system; a stage is one call whose success sets a flag of
  \<open>running_info\<close>; a sequence stops at the first stage that fails.
\<close>

definition call_hisi :: "audio_env \<Rightarrow> hisi_call \<Rightarrow> audio_server \<Rightarrow> audio_server" where
  "call_hisi env c s = audio_do (Hisi c (hisi env c)) s"

definition stage :: "audio_env \<Rightarrow> hisi_call \<Rightarrow> (audio_running_info_t \<Rightarrow> audio_running_info_t) \<Rightarrow> audio_server \<Rightarrow> int \<times> audio_server" where
  "stage env c upd s = (if hisi env c \<noteq> 0 then (- 1, call_hisi env c s) else (0, with_running upd (call_hisi env c s)))"

definition only_if ::
  "(audio_running_info_t \<Rightarrow> bool) \<Rightarrow> (audio_server \<Rightarrow> int \<times> audio_server) \<Rightarrow> audio_server \<Rightarrow> int \<times> audio_server" where
  "only_if b f s = (if b (running_info s) then f s else (0, s))"

definition audio_init :: "audio_env \<Rightarrow> audio_server \<Rightarrow> int \<times> audio_server" where
  "audio_init env s =
     (let s = (if payload_aac env then call_hisi env Aac_init s else s) in
      andthen (stage env Init_ai (\<lambda>r. r\<lparr>ai_init := True\<rparr>))
      (andthen (stage env Init_codec (\<lambda>r. r\<lparr>codec_init := True\<rparr>))
      (andthen (stage env Init_ae (\<lambda>r. r\<lparr>ae_init := True\<rparr>))
      (andthen (stage env Init_ao (\<lambda>r. r\<lparr>ao_init := True\<rparr>))
        (stage env Init_ad (\<lambda>r. r\<lparr>ad_init := True\<rparr>))))) s)"

text \<open>The encoder is started with its stream thread; without the thread it is stopped again.\<close>

definition start_ae :: "audio_env \<Rightarrow> audio_server \<Rightarrow> int \<times> audio_server" where
  "start_ae env s =
     (let s = call_hisi env Start_ae s in
      if hisi env Start_ae \<noteq> 0 then (hisi env Start_ae, s)
      else let s = audio_do (Create_stream_thread (create_ret env)) s in
        if create_ret env \<noteq> 0 then (create_ret env, call_hisi env Stop_ae s)
        else (0, with_running (\<lambda>r. r\<lparr>ae_start := True\<rparr>) s))"

text \<open>The value of a failed stage is only compared with 0 by the callers.\<close>

definition audio_start :: "audio_env \<Rightarrow> audio_server \<Rightarrow> int \<times> audio_server" where
  "audio_start env =
      andthen (only_if (\<lambda>r. \<not> ai_start r) (stage env Start_ai (\<lambda>r. r\<lparr>ai_start := True\<rparr>)))
      (andthen (only_if (\<lambda>r. \<not> ae_start r) (start_ae env))
      (andthen (only_if (\<lambda>r. \<not> ad_start r) (stage env Start_ad (\<lambda>r. r\<lparr>ad_start := True\<rparr>)))
      (andthen (only_if (\<lambda>r. \<not> ao_start r) (stage env Start_ao (\<lambda>r. r\<lparr>ao_start := True\<rparr>)))
      (andthen (only_if (\<lambda>r. \<not> ae_ai_bind r) (stage env Bind_ae_ai (\<lambda>r. r\<lparr>ae_ai_bind := True\<rparr>)))
        (only_if (\<lambda>r. \<not> ao_ad_bind r) (stage env Bind_ao_ad (\<lambda>r. r\<lparr>ao_ad_bind := True\<rparr>)))))))"

definition audio_stop :: "audio_env \<Rightarrow> audio_server \<Rightarrow> int \<times> audio_server" where
  "audio_stop env =
      andthen (only_if ao_ad_bind (stage env Unbind_ao_ad (\<lambda>r. r\<lparr>ao_ad_bind := False\<rparr>)))
      (andthen (only_if ae_ai_bind (stage env Unbind_ae_ai (\<lambda>r. r\<lparr>ae_ai_bind := False\<rparr>)))
      (andthen (only_if ao_start (stage env Stop_ao (\<lambda>r. r\<lparr>ao_start := False\<rparr>)))
      (andthen (only_if ad_start (stage env Stop_ad (\<lambda>r. r\<lparr>ad_start := False\<rparr>)))
      (andthen (only_if ae_start (stage env Stop_ae (\<lambda>r. r\<lparr>ae_start := False\<rparr>)))
        (only_if ai_start (stage env Stop_ai (\<lambda>r. r\<lparr>ai_start := False\<rparr>)))))))"

definition audio_uninit :: "audio_env \<Rightarrow> audio_server \<Rightarrow> int \<times> audio_server" where
  "audio_uninit env =
      andthen (only_if ao_init (stage env Uninit_ao (\<lambda>r. r\<lparr>ao_init := False\<rparr>)))
      (andthen (only_if ad_init (stage env Uninit_ad (\<lambda>r. r\<lparr>ad_init := False\<rparr>)))
      (andthen (only_if ae_init (stage env Uninit_ae (\<lambda>r. r\<lparr>ae_init := False\<rparr>)))
      (andthen (only_if ai_init (stage env Uninit_ai (\<lambda>r. r\<lparr>ai_init := False\<rparr>)))
        (\<lambda>s. (0, if payload_aac env then call_hisi env Aac_deinit s else s)))))"

section \<open>Sounds\<close>

text \<open>A frame for the decoder: the header counts the payload in 16-bit units, in one byte.\<close>

definition hisi_add_audio_header :: "bytes \<Rightarrow> bytes" where
  "hisi_add_audio_header payload = [0, 1, of_nat (length payload div 2), 0] @ payload"

definition audio_speaker :: "audio_env \<Rightarrow> bytes \<Rightarrow> bool \<Rightarrow> audio_server \<Rightarrow> audio_server" where
  "audio_speaker env buffer ends s =
     (let s = (if buffer \<noteq> [] then audio_do (Decode buffer) s else s) in
      if buffer \<noteq> [] \<and> \<not> decode_ok env then s
      else if ends then audio_do End_of_stream s else s)"

text \<open>A short read sets the end-of-file or the error indicator of the file.\<close>

function play_chunks :: "audio_env \<Rightarrow> bytes \<Rightarrow> bool \<Rightarrow> audio_server \<Rightarrow> int \<times> audio_server" where
  "play_chunks env data bad s =
     (if length data < PT_NUM_PER_FRM then
        (if bad then (- 1, s) else (0, audio_speaker env (hisi_add_audio_header data) True s))
      else play_chunks env (drop PT_NUM_PER_FRM data) bad
        (audio_speaker env (hisi_add_audio_header (take PT_NUM_PER_FRM data)) False s))"
  by auto

termination by (relation "measure (\<lambda>(env, data, bad, s). length data)") auto

declare play_chunks.simps [simp del]

definition play_audio_file :: "audio_env \<Rightarrow> char list \<Rightarrow> audio_server \<Rightarrow> int \<times> audio_server" where
  "play_audio_file env path s =
     (case sound env path of
        Sound_missing \<Rightarrow> (- 1, s)
      | Sound_unopened \<Rightarrow> (- 1, s)
      | Sound_file data bad \<Rightarrow> play_chunks env data bad s)"

definition sound_path :: "int \<Rightarrow> char list option" where
  "sound_path type =
     (if type = AUDIO_RESOURCE_SCAN_START then Some ''/misc/audio/scan_start.alaw''
      else if type = AUDIO_RESOURCE_SCAN_SUCCESS then Some ''/misc/audio/scan_success.alaw''
      else if type = AUDIO_RESOURCE_BINDING_SUCCESS then Some ''/misc/audio/binding_success.alaw''
      else if type = AUDIO_RESOURCE_START then Some ''/misc/audio/start.alaw''
      else if type = 4 then Some ''/misc/audio/scan_success.alaw''
      else if type = 5 then Some ''/misc/audio/scan_success.alaw''
      else None)"

text \<open>Its result is never assigned, and no caller looks at it.\<close>

definition audio_play :: "audio_env \<Rightarrow> int \<Rightarrow> audio_server \<Rightarrow> audio_server" where
  "audio_play env type s =
     (case sound_path type of None \<Rightarrow> s | Some path \<Rightarrow> snd (play_audio_file env path s))"

section \<open>The stream thread\<close>

text \<open>What one turn of the thread's loop meets.\<close>

datatype select_result = Select_failed | Select_timeout | Select_other | Select_frame

record stream_env =
  selected :: select_result
  get_stream :: int
  frame_seq :: u32
  frame_data :: bytes
  malloc_ok :: bool
  release_stream :: int
  now_ms :: u64
  universal_tag :: u64
  synchronize :: "int \<Rightarrow> int"
  send_media :: "int \<Rightarrow> int"

datatype stream_next = Stream_on | Stream_leaves | Stream_faults

definition audio_thread_termination :: "audio_server \<Rightarrow> audio_server" where
  "audio_thread_termination =
     send SERVER_MANAGER (msg_init\<lparr>m_message := MSG_AUDIO_SIGINT, m_sender := SERVER_AUDIO, m_receiver := SERVER_AUDIO\<rparr>)"

definition write_audio_buffer :: "av_data_info_t \<Rightarrow> bytes \<Rightarrow> int \<Rightarrow> audio_server \<Rightarrow> audio_server" where
  "write_audio_buffer avinfo data sid s =
     (case server_recorder_audio_message (recorder_buff s)
        (msg_init\<lparr>m_message := MSG_RECORDER_AUDIO_DATA, m_sender := SERVER_AUDIO, m_receiver := SERVER_AUDIO,
          m_arg_in := arg_zero\<lparr>wolf := sid\<rparr>, m_arg := Some (P_bytes data), m_arg_size := uint (av_size avinfo),
          m_extra := Some (P_av_info avinfo), m_extra_size := 56\<rparr>) of
        None \<Rightarrow> fails s
      | Some (ret, buffs) \<Rightarrow> s\<lparr>recorder_buff := buffs\<rparr>)"

text \<open>A frame for the cloud: the channel after it.  The latency is a difference of 32-bit numbers.\<close>

definition send_frame :: "stream_env \<Rightarrow> u32 \<Rightarrow> audio_channel_t \<Rightarrow> audio_channel_t" where
  "send_frame env stamp c =
     (if send_media env (service_id c) \<noteq> 0 then
        (if qos_success c \<noteq> 0 \<and> sint (stamp - qos_success c) > QOS_MAX_LATENCY then c\<lparr>ch_status := CHANNEL_EMPTY\<rparr> else c)
      else c\<lparr>qos_success := stamp\<rparr>)"

definition set_channel :: "nat \<Rightarrow> audio_channel_t \<Rightarrow> audio_server \<Rightarrow> audio_server" where
  "set_channel i c s = s\<lparr>channels := (channels s)[i := c]\<rparr>"

definition deliver_frame :: "stream_env \<Rightarrow> av_data_info_t \<Rightarrow> bytes \<Rightarrow> nat \<Rightarrow> audio_server \<Rightarrow> audio_server" where
  "deliver_frame env avinfo data i s =
     (let c = channels s ! i; stamp = av_timestamp avinfo in
      if ch_status c \<noteq> CHANNEL_VALID then s
      else if channel_type c = SERVER_RECORDER then write_audio_buffer avinfo data (service_id c) s
      else if channel_type c = SERVER_ALIYUN then
        (if synchronize env (service_id c) = 0 then
           set_channel i (send_frame env stamp c)
             (audio_do (Send_media (service_id c) data stamp (send_media env (service_id c))) s)
         else s)
      else if channel_type c = SERVER_AUDIO then
        let (c, s) = (if require_key c then (c\<lparr>require_key := False\<rparr>, audio_do (Send_config (service_id c)) s) else (c, s)) in
        set_channel i (send_frame env stamp c)
          (audio_do (Send_media (service_id c) data stamp (send_media env (service_id c))) s)
      else s)"

text \<open>The fields of \<open>avinfo\<close> the thread does not set are left over from before: \<open>scrap\<close>.\<close>

definition frame_info :: "av_data_info_t \<Rightarrow> stream_env \<Rightarrow> av_data_info_t" where
  "frame_info scrap env = scrap\<lparr>av_flag := 0, av_frame_index := frame_seq env,
     av_timestamp := ucast (now_ms env - universal_tag env), av_size := of_nat (length (frame_data env)) - 4,
     av_source := 0, av_channel := 0, av_type := 1\<rparr>"

definition stream_frame :: "av_data_info_t \<Rightarrow> stream_env \<Rightarrow> audio_server \<Rightarrow> audio_server" where
  "stream_frame scrap env s =
     foldl (\<lambda>s i. deliver_frame env (frame_info scrap env) (drop 4 (frame_data env)) i s) s [0..<MAX_AV_CHANNEL]"

text \<open>
  One turn of the loop.  A frame of fewer than 4 bytes is copied with a length below zero; a
  frame that is too long is released without being sent.
\<close>

definition stream_turn :: "av_data_info_t \<Rightarrow> stream_env \<Rightarrow> audio_server \<Rightarrow> stream_next \<times> audio_server" where
  "stream_turn scrap env s =
     (if exit_flag (info s) \<noteq> 0 \<or> misc_get_bit (thread_exit (info s)) AUDIO_THREAD_ENCODER \<noteq> 0 then (Stream_leaves, s)
      else if status (info s) \<noteq> STATUS_RUN then (Stream_on, s)
      else case selected env of
        Select_failed \<Rightarrow> (Stream_leaves, s)
      | Select_timeout \<Rightarrow> (Stream_leaves, s)
      | Select_other \<Rightarrow> (Stream_on, s)
      | Select_frame \<Rightarrow>
          let release = (if release_stream env \<noteq> 0 then Stream_leaves else Stream_on) in
          if get_stream env \<noteq> 0 then (Stream_on, s)
          else if length (frame_data env) > MAX_AUDIO_FRAME_SIZE then (release, s)
          else if \<not> malloc_ok env then (Stream_leaves, s)
          else if length (frame_data env) < 4 then (Stream_faults, fails s)
          else (release, stream_frame scrap env s))"

text \<open>
  The thread from its start: it returns at once, with its bit set, when it gets no descriptor
  for the encoder.
\<close>

definition stream_begins :: "int \<Rightarrow> audio_server \<Rightarrow> bool \<times> audio_server" where
  "stream_begins fd s =
     (let s = with_info (\<lambda>x. x\<lparr>thread_start := misc_set_bit (thread_start x) AUDIO_THREAD_ENCODER\<rparr>) s in
      if fd < 0 then (False, s) else (True, s\<lparr>bus := global_common_send_dummy (bus s) SERVER_AUDIO\<rparr>))"

definition stream_ends :: "nat \<Rightarrow> audio_server \<Rightarrow> audio_server" where
  "stream_ends i s =
     (let s = with_info (\<lambda>x. x\<lparr>thread_start := misc_clear_bit (thread_start x) i\<rparr>) s in
      s\<lparr>bus := global_common_send_dummy (bus s) SERVER_AUDIO\<rparr>)"

definition aduio_stream_func :: "av_data_info_t \<Rightarrow> stream_env \<Rightarrow> audio_server \<Rightarrow> bool \<times> audio_server" where
  "aduio_stream_func scrap env s =
     (case stream_turn scrap env s of
        (Stream_on, s) \<Rightarrow> (True, s)
      | (Stream_leaves, s) \<Rightarrow> (False, stream_ends AUDIO_THREAD_ENCODER s)
      | (Stream_faults, s) \<Rightarrow> (False, s))"

section \<open>Messages\<close>

text \<open>A set without its block reads through a null pointer.\<close>

definition audio_set_property :: "audio_env \<Rightarrow> msg \<Rightarrow> audio_server \<Rightarrow> audio_server" where
  "audio_set_property env m s =
     (if cat (m_arg_in m) = AUDIO_PROPERTY_SPEAKER then
        (case m_arg m of
           Some (P_int temp) \<Rightarrow>
             let s = (if speaker_on s \<noteq> temp then
                        (audio_do (Save_config temp) (audio_do (Speaker_line (temp \<noteq> 0)) (audio_do (Mute (temp = 0)) s)))\<lparr>speaker_on := temp\<rparr>
                      else s) in
             audio_do (Sync_property (wolf (m_arg_in m)) (speaker_on s)) s
         | _ \<Rightarrow> fails s)
      else s)"

definition audio_message_filter :: "msg \<Rightarrow> audio_server \<Rightarrow> bool" where
  "audio_message_filter m s = error_filter m s"

definition take_task :: "int \<Rightarrow> msg \<Rightarrow> audio_server \<Rightarrow> audio_server" where
  "take_task ty m s = with_info (\<lambda>x. x\<lparr>task := (task x)\<lparr>task_type := ty\<rparr>, msg_lock := 1\<rparr>) (keep_task_msg m s)"

definition on_goke_status :: "msg \<Rightarrow> audio_server \<Rightarrow> audio_server" where
  "on_goke_status m s =
     (if cat (m_arg_in m) = GOKE_PROPERTY_STATUS \<and> dog (m_arg_in m) = STATUS_RUN
      then with_info (\<lambda>x. x\<lparr>init_status := misc_set_bit (init_status x) AUDIO_INIT_CONDITION_GOKE\<rparr>) s else s)"

definition on_request_sync :: "msg \<Rightarrow> audio_server \<Rightarrow> audio_server" where
  "on_request_sync m s =
     (let i = get_old_channel (cat (m_arg_in m)) SERVER_ALIYUN (channels s);
          s = (if i \<noteq> - 1 then s\<lparr>channels := (channels s)[nat i := (channels s ! nat i)\<lparr>ch_status := CHANNEL_EMPTY\<rparr>]\<rparr> else s) in
      send SERVER_PLAYER (msg_init\<lparr>m_message := MSG_PLAYER_REQUEST_SYNC_ACK, m_sender := SERVER_AUDIO, m_receiver := SERVER_AUDIO,
        m_arg_in := arg_zero\<lparr>cat := cat (m_arg_in m), dog := dog (m_arg_in m)\<rparr>\<rparr>) s)"

text \<open>The server has no timers of its own.\<close>

definition handle_message :: "audio_env \<Rightarrow> msg \<Rightarrow> audio_server \<Rightarrow> audio_server" where
  "handle_message env m s =
     (let k = m_message m in
      if k = MSG_AUDIO_START then take_task TASK_TYPE_START m s
      else if k = MSG_AUDIO_STOP then take_task TASK_TYPE_STOP m s
      else if k = MSG_MANAGER_EXIT then on_manager_exit m s
      else if k = MSG_GOKE_PROPERTY_NOTIFY \<or> k = MSG_GOKE_PROPERTY_GET_ACK then on_goke_status m s
      else if k = MSG_MANAGER_EXIT_ACK then on_exit_ack m s
      else if k = MSG_AUDIO_PLAY_SOUND then (if status (info s) = STATUS_RUN then audio_play env (cat (m_arg_in m)) s else s)
      else if k = MSG_AUDIO_PROPERTY_SET then audio_set_property env m s
      else if k = MSG_AUDIO_SPEAKER_DATA then
        (case m_arg m of
           Some (P_bytes data) \<Rightarrow>
             if cat (m_arg_in m) = SPEAKER_CTL_INTERCOM_DATA
             then audio_speaker env (hisi_add_audio_header data) False s else s
         | _ \<Rightarrow> s)
      else if k = MSG_PLAYER_REQUEST_SYNC then on_request_sync m s
      else s)"

definition audio_take_message :: "audio_env \<Rightarrow> audio_server \<Rightarrow> audio_server" where
  "audio_take_message env = take_message SERVER_AUDIO audio_message_block audio_message_filter (handle_message env)"

definition audio_message_proc :: "audio_env \<Rightarrow> audio_server \<Rightarrow> audio_server" where
  "audio_message_proc env = message_proc SERVER_AUDIO audio_message_block audio_message_filter (handle_message env)"

section \<open>The state machine\<close>

definition audio_server_init :: "audio_server \<Rightarrow> audio_server" where
  "audio_server_init s =
     (let s = (if misc_get_bit (init_status (info s)) AUDIO_INIT_CONDITION_GOKE = 0
               then send SERVER_GOKE (msg_init\<lparr>m_message := MSG_GOKE_PROPERTY_GET, m_sender := SERVER_AUDIO, m_receiver := SERVER_AUDIO\<rparr>) s
               else s) in
      if misc_full_bit (init_status (info s)) AUDIO_INIT_CONDITION_NUM \<noteq> 0 then set_status STATUS_WAIT s else s)"

definition audio_server_setup :: "audio_env \<Rightarrow> audio_server \<Rightarrow> audio_server" where
  "audio_server_setup env s =
     (case audio_init env s of (ret, s) \<Rightarrow> if ret = 0 then set_status STATUS_IDLE s else set_status STATUS_ERROR s)"

definition audio_server_start :: "audio_env \<Rightarrow> audio_server \<Rightarrow> audio_server" where
  "audio_server_start env s =
     (case audio_start env s of (ret, s) \<Rightarrow>
        if ret = 0 then
          (if misc_get_bit (thread_start (info s)) AUDIO_THREAD_ENCODER \<noteq> 0
           then audio_play env AUDIO_RESOURCE_START (set_status STATUS_RUN s) else s)
        else set_status STATUS_ERROR s)"

definition audio_server_stop :: "audio_env \<Rightarrow> audio_server \<Rightarrow> audio_server" where
  "audio_server_stop env s =
     (case audio_stop env s of (ret, s) \<Rightarrow>
        if ret = 0 then (if thread_start (info s) = 0 then set_status STATUS_IDLE s else s)
        else set_status STATUS_ERROR s)"

definition audio_server_restart :: "audio_env \<Rightarrow> audio_server \<Rightarrow> audio_server" where
  "audio_server_restart env s =
     (case audio_stop env s of (ret, s) \<Rightarrow>
        if ret = 0 then
          (case audio_uninit env s of (ret, s) \<Rightarrow>
             if ret = 0 then (if status2 (info s) = 0 then set_status STATUS_IDLE s else s)
             else set_status STATUS_ERROR s)
        else set_status STATUS_ERROR s)"

definition audio_server_release_1 :: "audio_env \<Rightarrow> audio_server \<Rightarrow> audio_server" where
  "audio_server_release_1 env s = snd (audio_uninit env (snd (audio_stop env s)))"

definition audio_server_release_2 :: "audio_server \<Rightarrow> audio_server" where
  "audio_server_release_2 s = s\<lparr>bus := (bus s)(SERVER_AUDIO := msg_buffer_release (bus s SERVER_AUDIO))\<rparr>"

definition audio_server_release_3 :: "audio_server \<Rightarrow> audio_server" where
  "audio_server_release_3 s =
     send SERVER_MANAGER (msg_init\<lparr>m_message := MSG_MANAGER_EXIT_ACK, m_sender := SERVER_AUDIO\<rparr>) (s\<lparr>info := info_zero ()\<rparr>)"

definition state_machine :: "audio_env \<Rightarrow> audio_server \<Rightarrow> audio_server" where
  "state_machine env s =
     (let st = status (info s) in
      if st = STATUS_INIT then audio_server_init s
      else if st = STATUS_SETUP then audio_server_setup env s
      else if st = STATUS_START then audio_server_start env s
      else if st = STATUS_STOP then audio_server_stop env s
      else if st = STATUS_RESTART then audio_server_restart env s
      else if st = STATUS_ERROR then with_info (\<lambda>x. x\<lparr>status := EXIT_INIT, msg_lock := 0\<rparr>) s
      else if st = EXIT_INIT then with_info exit_init s
      else if st = EXIT_SERVER then (if quit_status (info s) = 0 then set_status EXIT_STAGE1 s else s)
      else if st = EXIT_STAGE1 then set_status EXIT_THREAD (audio_server_release_1 env s)
      else if st = EXIT_THREAD then
        (let s = with_info (\<lambda>x. x\<lparr>thread_exit := thread_start x\<rparr>) s in
         if thread_start (info s) = 0 then set_status EXIT_STAGE2 s else s)
      else if st = EXIT_STAGE2 then set_status EXIT_FINISH (audio_server_release_2 s)
      else if st = EXIT_FINISH then with_info (\<lambda>x. x\<lparr>exit_flag := 1, status := STATUS_NONE\<rparr>) s
      else s)"

section \<open>The task\<close>

definition task_answer :: "bool \<Rightarrow> audio_server \<Rightarrow> msg" where
  "task_answer success s =
     msg_init\<lparr>m_arg_pass := m_arg_pass (task_msg (task (info s))), m_message := m_message (task_msg (task (info s))) OR 0x1000,
       m_sender := SERVER_AUDIO, m_receiver := SERVER_AUDIO, m_result := (if success then 0 else - 1)\<rparr>"

text \<open>The answer goes to the receiver the request names; then the task and its lock are gone.\<close>

definition finish_task :: "bool \<Rightarrow> audio_server \<Rightarrow> audio_server" where
  "finish_task success s =
     with_info (\<lambda>x. x\<lparr>task := (task x)\<lparr>task_type := TASK_TYPE_NONE\<rparr>, msg_lock := 0\<rparr>)
       (send (m_receiver (task_msg (task (info s)))) (task_answer success s) s)"

text \<open>
  A successful start enters the sender as a channel; an intercom's channel changes its type.  When all
  channels are in use, that change is made to the memory in front of the table.
\<close>

definition enter_channel :: "audio_server \<Rightarrow> audio_server" where
  "enter_channel s =
     (let r = task_msg (task (info s)) in
      case get_new_channel (wolf (m_arg_in r)) (m_sender r) (channels s) of (i, chs) \<Rightarrow>
        if cat (m_arg_in r) = 2 then
          (if i = - 1 then fails s
           else s\<lparr>channels := chs[nat i := (chs ! nat i)\<lparr>require_key := True, channel_type := SERVER_AUDIO, qos_success := 0\<rparr>]\<rparr>)
        else s\<lparr>channels := chs\<rparr>)"

definition leave_channel :: "audio_server \<Rightarrow> audio_server" where
  "leave_channel s =
     (let r = task_msg (task (info s)); i = get_old_channel (wolf (m_arg_in r)) (m_sender r) (channels s) in
      if i \<noteq> - 1 then s\<lparr>channels := (channels s)[nat i := (channels s ! nat i)\<lparr>ch_status := CHANNEL_EMPTY\<rparr>]\<rparr> else s)"

definition task_proc :: "audio_server \<Rightarrow> audio_server" where
  "task_proc s =
     (let st = status (info s); ty = task_type (task (info s)) in
      if ty = TASK_TYPE_NONE then
        (if st = STATUS_NONE then set_status STATUS_INIT s
         else if st = STATUS_WAIT then set_status STATUS_SETUP s
         else if st = STATUS_IDLE then set_status STATUS_START s
         else s)
      else if ty = TASK_TYPE_START then
        (if st = STATUS_RUN then finish_task True (enter_channel s)
         else if st = STATUS_NONE then set_status STATUS_INIT s
         else if st = STATUS_WAIT then set_status STATUS_SETUP s
         else if st = STATUS_IDLE then set_status STATUS_START s
         else if st \<ge> STATUS_ERROR then finish_task False s
         else s)
      else if ty = TASK_TYPE_STOP then
        (if st = STATUS_RUN then finish_task True (leave_channel s)
         else if st \<ge> STATUS_ERROR then finish_task False s
         else finish_task True s)
      else s)"

section \<open>The loop\<close>

definition audio_server_begin :: "int \<Rightarrow> int \<Rightarrow> audio_server \<Rightarrow> audio_server" where
  "audio_server_begin msg_overrun msg_buffer_size_normal s =
     (let s = s\<lparr>bus := (bus s)(SERVER_AUDIO := msg_buffer_init True (bus s SERVER_AUDIO) msg_overrun msg_buffer_size_normal)\<rparr> in
      with_info (\<lambda>x. x\<lparr>quit_status := AUDIO_EXIT_CONDITION, init := 1\<rparr>) s)"

definition audio_server_turn :: "audio_env \<Rightarrow> audio_server \<Rightarrow> audio_server" where
  "audio_server_turn env = loop_turn (state_machine env) audio_fault task_proc (audio_message_proc env)"

definition audio_server_round :: "audio_env \<Rightarrow> audio_server \<Rightarrow> audio_server" where
  "audio_server_round env s =
     (if audio_fault s then s else loop_round SERVER_AUDIO (audio_server_turn env) (audio_take_message env) s)"

section \<open>Every stage is started and stopped in turns\<close>

text \<open>What starts a stage, what stops it and its flag.\<close>

definition hw_stages :: "(hisi_call \<times> hisi_call \<times> (audio_running_info_t \<Rightarrow> bool)) set" where
  "hw_stages = {(Start_ai, Stop_ai, ai_start), (Start_ae, Stop_ae, ae_start), (Start_ad, Stop_ad, ad_start),
     (Start_ao, Stop_ao, ao_start), (Bind_ae_ai, Unbind_ae_ai, ae_ai_bind), (Bind_ao_ad, Unbind_ao_ad, ao_ad_bind)}"

definition succeeded :: "hisi_call \<Rightarrow> audio_server \<Rightarrow> int" where
  "succeeded c s = int (length (filter (\<lambda>x. x = Hisi c 0) (audio_calls s)))"

text \<open>
  The encoders that were lost: the stream thread could not be created, and the stop of the encoder
  that follows failed too.
\<close>

fun failed_thread :: "audio_call \<Rightarrow> bool" where
  "failed_thread (Create_stream_thread r) = (r \<noteq> 0)"
| "failed_thread c = False"

fun failed_stop :: "audio_call \<Rightarrow> bool" where
  "failed_stop (Hisi c v) = (c = Stop_ae \<and> v \<noteq> 0)"
| "failed_stop c = False"

definition lost_encoders :: "audio_call list \<Rightarrow> nat" where
  "lost_encoders cs = length (filter (\<lambda>(c, d). failed_thread c \<and> failed_stop d) (zip cs (tl cs)))"

definition settled :: "audio_call list \<Rightarrow> bool" where
  "settled cs = (cs \<noteq> [] \<longrightarrow> \<not> failed_thread (last cs))"

lemma zip_neighbours: "cs \<noteq> [] \<Longrightarrow> zip (cs @ [c]) (tl (cs @ [c])) = zip cs (tl cs) @ [(last cs, c)]"
proof (induction cs)
  case (Cons a cs)
  then show ?case by (cases cs) simp_all
qed simp

lemma lost_append:
  "lost_encoders (cs @ [c]) = lost_encoders cs + (if \<not> settled cs \<and> failed_stop c then 1 else 0)"
proof (cases "cs = []")
  case False
  then show ?thesis unfolding lost_encoders_def zip_neighbours [OF False] by (simp add: settled_def)
qed (simp add: lost_encoders_def settled_def)

lemma settled_append [simp]: "settled (cs @ [c]) = (\<not> failed_thread c)"
  by (simp add: settled_def)

definition hw_balanced :: "audio_server \<Rightarrow> bool" where
  "hw_balanced s = (settled (audio_calls s) \<and> (\<forall>(up, down, flag) \<in> hw_stages. succeeded up s - succeeded down s =
     (if flag (running_info s) then 1 else 0) + (if up = Start_ae then int (lost_encoders (audio_calls s)) else 0)))"

definition keeps_balance :: "(audio_server \<Rightarrow> int \<times> audio_server) \<Rightarrow> bool" where
  "keeps_balance f = (\<forall>s. hw_balanced s \<longrightarrow> hw_balanced (snd (f s)))"

lemma keeps_andthen [intro]: "keeps_balance f \<Longrightarrow> keeps_balance g \<Longrightarrow> keeps_balance (andthen f g)"
  unfolding keeps_balance_def andthen_def by (auto split: prod.splits)

lemma stage_effect:
  "succeeded x (snd (stage env c upd s)) = succeeded x s + (if x = c \<and> hisi env c = 0 then 1 else 0)"
  "running_info (snd (stage env c upd s)) = (if hisi env c = 0 then upd (running_info s) else running_info s)"
  "audio_calls (snd (stage env c upd s)) = audio_calls s @ [Hisi c (hisi env c)]"
  "succeeded x (call_hisi env c s) = succeeded x s + (if x = c \<and> hisi env c = 0 then 1 else 0)"
  "running_info (call_hisi env c s) = running_info s"
  "audio_calls (call_hisi env c s) = audio_calls s @ [Hisi c (hisi env c)]"
  "succeeded x (audio_do d s) = succeeded x s + (if d = Hisi x 0 then 1 else 0)"
  "succeeded x (s\<lparr>running_info := r\<rparr>) = succeeded x s"
  by (auto simp: succeeded_def stage_def call_hisi_def)

lemma hw_balanced_stages:
  "hw_balanced s =
     (settled (audio_calls s)
      \<and> succeeded Start_ai s - succeeded Stop_ai s = (if ai_start (running_info s) then 1 else 0)
      \<and> succeeded Start_ae s - succeeded Stop_ae s = (if ae_start (running_info s) then 1 else 0) + int (lost_encoders (audio_calls s))
      \<and> succeeded Start_ad s - succeeded Stop_ad s = (if ad_start (running_info s) then 1 else 0)
      \<and> succeeded Start_ao s - succeeded Stop_ao s = (if ao_start (running_info s) then 1 else 0)
      \<and> succeeded Bind_ae_ai s - succeeded Unbind_ae_ai s = (if ae_ai_bind (running_info s) then 1 else 0)
      \<and> succeeded Bind_ao_ad s - succeeded Unbind_ao_ad s = (if ao_ad_bind (running_info s) then 1 else 0))"
  by (simp add: hw_balanced_def hw_stages_def)

lemma keeps_stages:
  "keeps_balance (only_if (\<lambda>r. \<not> ai_start r) (stage env Start_ai (\<lambda>r. r\<lparr>ai_start := True\<rparr>)))"
  "keeps_balance (only_if (\<lambda>r. \<not> ad_start r) (stage env Start_ad (\<lambda>r. r\<lparr>ad_start := True\<rparr>)))"
  "keeps_balance (only_if (\<lambda>r. \<not> ao_start r) (stage env Start_ao (\<lambda>r. r\<lparr>ao_start := True\<rparr>)))"
  "keeps_balance (only_if (\<lambda>r. \<not> ae_ai_bind r) (stage env Bind_ae_ai (\<lambda>r. r\<lparr>ae_ai_bind := True\<rparr>)))"
  "keeps_balance (only_if (\<lambda>r. \<not> ao_ad_bind r) (stage env Bind_ao_ad (\<lambda>r. r\<lparr>ao_ad_bind := True\<rparr>)))"
  "keeps_balance (only_if ao_ad_bind (stage env Unbind_ao_ad (\<lambda>r. r\<lparr>ao_ad_bind := False\<rparr>)))"
  "keeps_balance (only_if ae_ai_bind (stage env Unbind_ae_ai (\<lambda>r. r\<lparr>ae_ai_bind := False\<rparr>)))"
  "keeps_balance (only_if ao_start (stage env Stop_ao (\<lambda>r. r\<lparr>ao_start := False\<rparr>)))"
  "keeps_balance (only_if ad_start (stage env Stop_ad (\<lambda>r. r\<lparr>ad_start := False\<rparr>)))"
  "keeps_balance (only_if ae_start (stage env Stop_ae (\<lambda>r. r\<lparr>ae_start := False\<rparr>)))"
  "keeps_balance (only_if ai_start (stage env Stop_ai (\<lambda>r. r\<lparr>ai_start := False\<rparr>)))"
  by (simp_all add: keeps_balance_def hw_balanced_stages only_if_def stage_effect lost_append)

lemma keeps_inits:
  "keeps_balance (stage env Init_ai (\<lambda>r. r\<lparr>ai_init := True\<rparr>))" "keeps_balance (stage env Init_codec (\<lambda>r. r\<lparr>codec_init := True\<rparr>))"
  "keeps_balance (stage env Init_ae (\<lambda>r. r\<lparr>ae_init := True\<rparr>))" "keeps_balance (stage env Init_ao (\<lambda>r. r\<lparr>ao_init := True\<rparr>))"
  "keeps_balance (stage env Init_ad (\<lambda>r. r\<lparr>ad_init := True\<rparr>))"
  "keeps_balance (only_if ao_init (stage env Uninit_ao (\<lambda>r. r\<lparr>ao_init := False\<rparr>)))"
  "keeps_balance (only_if ad_init (stage env Uninit_ad (\<lambda>r. r\<lparr>ad_init := False\<rparr>)))"
  "keeps_balance (only_if ae_init (stage env Uninit_ae (\<lambda>r. r\<lparr>ae_init := False\<rparr>)))"
  "keeps_balance (only_if ai_init (stage env Uninit_ai (\<lambda>r. r\<lparr>ai_init := False\<rparr>)))"
  "keeps_balance (\<lambda>s. (0, if payload_aac env then call_hisi env Aac_deinit s else s))"
  by (simp_all add: keeps_balance_def hw_balanced_stages only_if_def stage_effect lost_append)

lemma keeps_start_ae: "keeps_balance (only_if (\<lambda>r. \<not> ae_start r) (start_ae env))"
  unfolding keeps_balance_def
proof (intro allI impI)
  fix s assume b: "hw_balanced s"
  define t where "t = call_hisi env Start_ae s"
  define u where "u = audio_do (Create_stream_thread (create_ret env)) t"
  have t: "audio_calls t = audio_calls s @ [Hisi Start_ae (hisi env Start_ae)]" "running_info t = running_info s"
    "\<And>x. succeeded x t = succeeded x s + (if x = Start_ae \<and> hisi env Start_ae = 0 then 1 else 0)"
    unfolding t_def by (simp_all add: stage_effect)
  have u: "audio_calls u = audio_calls t @ [Create_stream_thread (create_ret env)]" "running_info u = running_info s"
    "\<And>x. succeeded x u = succeeded x t"
    unfolding u_def by (simp_all add: t(2) stage_effect(7))
  have e: "start_ae env s = (if hisi env Start_ae \<noteq> 0 then (hisi env Start_ae, t)
      else if create_ret env \<noteq> 0 then (create_ret env, call_hisi env Stop_ae u)
      else (0, with_running (\<lambda>r. r\<lparr>ae_start := True\<rparr>) u))"
    by (simp add: start_ae_def Let_def t_def u_def)
  consider "ae_start (running_info s)" | "\<not> ae_start (running_info s)" "hisi env Start_ae \<noteq> 0"
    | "\<not> ae_start (running_info s)" "hisi env Start_ae = 0" "create_ret env \<noteq> 0"
    | "\<not> ae_start (running_info s)" "hisi env Start_ae = 0" "create_ret env = 0" by blast
  then show "hw_balanced (snd (only_if (\<lambda>r. \<not> ae_start r) (start_ae env) s))"
  proof cases
    case 1
    then show ?thesis using b by (simp add: only_if_def)
  next
    case 2
    then show ?thesis using b by (simp add: only_if_def e hw_balanced_stages t lost_append)
  next
    case 3
    then show ?thesis using b
      by (simp add: only_if_def e hw_balanced_stages stage_effect(4-6) u t lost_append del: append_assoc)
  next
    case 4
    then show ?thesis using b
      by (simp add: only_if_def e hw_balanced_stages stage_effect(8) u t lost_append del: append_assoc)
  qed
qed

lemma keeps_start: "keeps_balance (audio_start env)"
  unfolding audio_start_def by (intro keeps_andthen keeps_stages keeps_start_ae)

lemma keeps_stop: "keeps_balance (audio_stop env)"
  unfolding audio_stop_def by (intro keeps_andthen keeps_stages)

lemma keeps_uninit: "keeps_balance (audio_uninit env)"
  unfolding audio_uninit_def by (intro keeps_andthen keeps_inits)

lemma keeps_init: "keeps_balance (audio_init env)"
proof -
  let ?stages = "andthen (stage env Init_ai (\<lambda>r. r\<lparr>ai_init := True\<rparr>)) (andthen (stage env Init_codec (\<lambda>r. r\<lparr>codec_init := True\<rparr>))
    (andthen (stage env Init_ae (\<lambda>r. r\<lparr>ae_init := True\<rparr>)) (andthen (stage env Init_ao (\<lambda>r. r\<lparr>ao_init := True\<rparr>))
      (stage env Init_ad (\<lambda>r. r\<lparr>ad_init := True\<rparr>)))))"
  have "keeps_balance ?stages" by (intro keeps_andthen keeps_inits)
  moreover have "hw_balanced s \<Longrightarrow> hw_balanced (call_hisi env Aac_init s)" for s
    by (simp add: hw_balanced_stages stage_effect lost_append)
  ultimately show ?thesis by (simp add: keeps_balance_def audio_init_def Let_def)
qed

text \<open>
  The hardware from the start of the program on, with any results of its functions and of the
  creation of the thread, each time.
\<close>

inductive hw_runs :: "audio_server \<Rightarrow> bool" where
  fresh: "audio_calls s = [] \<Longrightarrow> \<forall>(up, down, flag) \<in> hw_stages. \<not> flag (running_info s) \<Longrightarrow> hw_runs s"
| inits: "hw_runs s \<Longrightarrow> hw_runs (snd (audio_init env s))"
| starts: "hw_runs s \<Longrightarrow> hw_runs (snd (audio_start env s))"
| stops: "hw_runs s \<Longrightarrow> hw_runs (snd (audio_stop env s))"
| uninits: "hw_runs s \<Longrightarrow> hw_runs (snd (audio_uninit env s))"

text \<open>
  C16: Through any sequence of starts and stops of the audio hardware, each of which may fail at
  any of its stages and be repeated, the successful starts of a stage are one ahead of its
  successful stops while its flag is set, and level with them otherwise: no stage is started twice
  without a stop between, and none is stopped that is not up.  The encoder is the one
  exception, and exactly once each time its stream thread cannot be created and the stop that
  follows fails: it is left running with its flag clear, and the next start starts it again.
\<close>

theorem audio_stages_balanced:
  assumes "hw_runs s" "(up, down, flag) \<in> hw_stages"
  shows "succeeded up s - succeeded down s =
    (if flag (running_info s) then 1 else 0) + (if up = Start_ae then int (lost_encoders (audio_calls s)) else 0)"
proof -
  from assms(1) have "hw_balanced s"
  proof induction
    case (fresh s)
    then show ?case by (auto simp: hw_balanced_def succeeded_def settled_def lost_encoders_def)
  qed (use keeps_init keeps_start keeps_stop keeps_uninit in \<open>simp_all add: keeps_balance_def\<close>)
  then show ?thesis using assms(2) by (auto simp: hw_balanced_def)
qed

section \<open>The exit\<close>

lemma stage_frames:
  "info (snd (stage env c upd s)) = info s" "bus (snd (stage env c upd s)) = bus s"
  "waiting (snd (stage env c upd s)) = waiting s" "audio_fault (snd (stage env c upd s)) = audio_fault s"
  by (simp_all add: stage_def call_hisi_def)

definition keeps_frame :: "(audio_server \<Rightarrow> int \<times> audio_server) \<Rightarrow> bool" where
  "keeps_frame f = (\<forall>s. info (snd (f s)) = info s \<and> bus (snd (f s)) = bus s \<and> waiting (snd (f s)) = waiting s
     \<and> audio_fault (snd (f s)) = audio_fault s)"

lemma frame_rules:
  "keeps_frame f \<Longrightarrow> keeps_frame g \<Longrightarrow> keeps_frame (andthen f g)"
  "keeps_frame f \<Longrightarrow> keeps_frame (only_if b f)" "keeps_frame (stage env c upd)"
  "keeps_frame (\<lambda>s. (0, if payload_aac env then call_hisi env Aac_deinit s else s))"
proof -
  assume "keeps_frame f" "keeps_frame g"
  then show "keeps_frame (andthen f g)" unfolding keeps_frame_def andthen_def by (simp split: prod.splits) (metis snd_conv)
qed (simp_all add: keeps_frame_def only_if_def stage_frames call_hisi_def)

lemma audio_stop_frame: "keeps_frame (audio_stop env)"
  unfolding audio_stop_def by (intro frame_rules)

lemma audio_uninit_frame: "keeps_frame (audio_uninit env)"
  unfolding audio_uninit_def by (intro frame_rules)

lemma release_1_frame [simp]:
  "info (audio_server_release_1 env s) = info s" "bus (audio_server_release_1 env s) = bus s"
  "waiting (audio_server_release_1 env s) = waiting s" "audio_fault (audio_server_release_1 env s) = audio_fault s"
  using audio_stop_frame [of env] audio_uninit_frame [of env] by (simp_all add: audio_server_release_1_def keeps_frame_def)

lemma stream_ends_frame:
  "info (stream_ends i s) = (info s)\<lparr>thread_start := misc_clear_bit (thread_start (info s)) i, thread_exit := thread_exit (info s)\<rparr>"
  "bus (stream_ends i s) SERVER_AUDIO = global_common_send_dummy (bus s) SERVER_AUDIO SERVER_AUDIO"
  "waiting (stream_ends i s) = waiting s" "audio_fault (stream_ends i s) = audio_fault s"
  "task (info (stream_ends i s)) = task (info s)"
  by (simp_all add: stream_ends_def Let_def)

interpretation audio_threads: thread_pool SERVER_AUDIO stream_ends "\<lambda>i n. n"
  by unfold_locales (simp_all add: is_server_def stream_ends_frame)

definition audio_settle :: "audio_server \<Rightarrow> audio_server" where
  "audio_settle = settle_threads stream_ends [AUDIO_THREAD_ENCODER]"

text \<open>No task is pending.\<close>

definition audio_idle :: "audio_server \<Rightarrow> bool" where
  "audio_idle s = (\<not> audio_fault s \<and> task_type (task (info s)) = TASK_TYPE_NONE)"

lemma audio_bits: "bit (1 :: int) k = (k \<in> set [AUDIO_THREAD_ENCODER])"
  by (simp add: bit_1_iff)

lemma audio_settle_idle: "audio_idle (audio_settle s) = audio_idle s"
  unfolding audio_settle_def by (rule audio_threads.settle_invariant) (simp add: audio_idle_def stream_ends_frame)

lemmas audio_machine_defs = state_machine_def ladder_def exit_init_def audio_server_release_2_def

interpretation audio_exit: exit_ladder SERVER_AUDIO 1 "state_machine env" audio_fault
    task_proc audio_message_block audio_message_filter "handle_message env" audio_settle audio_idle
  for env
proof unfold_locales
  fix s :: audio_server and m
  show "status (info s) \<in> exit_states \<Longrightarrow> climbs (info s) (info (state_machine env s))"
    by (rule ladder_keeps) (auto simp: audio_machine_defs Let_def)
  show "status (info s) \<in> exit_states \<Longrightarrow> bus (state_machine env s) SERVER_AUDIO =
      (if status (info s) = EXIT_STAGE2 then msg_buffer_release (bus s SERVER_AUDIO) else bus s SERVER_AUDIO)"
    by (auto simp: audio_machine_defs Let_def)
  show "audio_idle s \<Longrightarrow> status (info s) \<in> exit_states \<Longrightarrow>
      waiting (state_machine env s) = waiting s \<and> \<not> audio_fault (state_machine env s) \<and> audio_idle (state_machine env s)"
    by (auto simp: audio_machine_defs audio_idle_def Let_def)
  show "audio_idle s \<Longrightarrow> status (info s) \<in> exit_states \<Longrightarrow> task_proc s = s" by (auto simp: task_proc_def audio_idle_def)
  show "audio_idle s \<Longrightarrow> status (info s) = STATUS_NONE \<Longrightarrow> \<exists>v. task_proc s = set_status v s"
    by (auto simp: task_proc_def audio_idle_def)
  show "m_message m = MSG_MANAGER_DUMMY \<Longrightarrow> handle_message env m s = s" by (simp add: handle_message_def)
  show "thread_start (info s) AND 1 = thread_start (info s) \<Longrightarrow> \<exists>e. info (audio_settle s) = (info s)\<lparr>
      thread_start := thread_start (info s) AND NOT (thread_exit (info s)), thread_exit := e\<rparr>"
    unfolding audio_settle_def by (rule audio_threads.settle_info [OF _ audio_bits])
  show "audio_idle s \<Longrightarrow> waiting (audio_settle s) = waiting s \<and> audio_idle (audio_settle s)"
    using audio_settle_idle [of s] by (simp add: audio_settle_def audio_threads.settle_rest)
  show "thread_start (info s) AND 1 = thread_start (info s) \<Longrightarrow> quiet (bus s SERVER_AUDIO) \<Longrightarrow>
      b_init (bus s SERVER_AUDIO) \<noteq> 0 \<Longrightarrow>
      quiet (bus (audio_settle s) SERVER_AUDIO) \<and> b_init (bus (audio_settle s) SERVER_AUDIO) \<noteq> 0
      \<and> (thread_start (info s) AND thread_exit (info s) \<noteq> 0 \<longrightarrow> contents (bus (audio_settle s) SERVER_AUDIO) \<noteq> [])"
    unfolding audio_settle_def by (rule audio_threads.settle_queue [OF _ audio_bits])
  show "thread_start (info s) = 0 \<Longrightarrow> bus (audio_settle s) SERVER_AUDIO = bus s SERVER_AUDIO"
    by (simp add: audio_settle_def audio_threads.settle_none)
qed (simp_all add: audio_message_block_def message_block_def audio_idle_def)

definition audio_exit_step :: "audio_env \<Rightarrow> audio_server \<Rightarrow> audio_server" where
  "audio_exit_step env s = loop_round SERVER_AUDIO (audio_server_turn env) (audio_take_message env) (audio_settle s)"

text \<open>
  An audio server that was told to exit with no task pending, whose queue holds nothing but dummies
  and whose stream thread ends when its exit bit is set, leaves its loop within nine rounds.
\<close>

theorem audio_exit_completes:
  assumes "leaving SERVER_AUDIO 1 audio_idle s"
  shows "\<exists>n \<le> 9. exit_flag (info ((audio_exit_step env ^^ n) s)) \<noteq> 0"
proof -
  have "audio_exit_step env = (\<lambda>s. loop_round SERVER_AUDIO
      (loop_turn (state_machine env) audio_fault task_proc
        (message_proc SERVER_AUDIO audio_message_block audio_message_filter (handle_message env)))
      (take_message SERVER_AUDIO audio_message_block audio_message_filter (handle_message env)) (audio_settle s))"
    by (rule ext) (simp add: audio_exit_step_def audio_server_turn_def audio_message_proc_def audio_take_message_def)
  then show ?thesis using audio_exit.leaves_loop [OF assms, of env] by simp
qed

section \<open>Sounds reach the decoder whole\<close>

text \<open>The buffers handed to the decoder by the calls of a list, with their headers cut off.\<close>

definition decoded :: "audio_call list \<Rightarrow> bytes list" where
  "decoded cs = concat (map (\<lambda>c. case c of Decode b \<Rightarrow> [b] | _ \<Rightarrow> []) cs)"

lemma decoded_append [simp]: "decoded (xs @ ys) = decoded xs @ decoded ys"
  by (simp add: decoded_def)

lemma play_chunks_calls:
  assumes "decode_ok env"
  shows "\<exists>cs. play_chunks env data False s = (0, s\<lparr>audio_calls := audio_calls s @ cs @ [End_of_stream]\<rparr>)
    \<and> concat (map (drop 4) (decoded cs)) = data \<and> length (decoded cs) = length data div 480 + 1
    \<and> (\<forall>b \<in> set (decoded cs). length b \<le> 484) \<and> End_of_stream \<notin> set cs"
proof (induction "length data" arbitrary: data s rule: less_induct)
  case less
  show ?case
  proof (cases "length data < 480")
    case True
    then have "play_chunks env data False s =
        (0, s\<lparr>audio_calls := audio_calls s @ [Decode (hisi_add_audio_header data)] @ [End_of_stream]\<rparr>)"
      using assms by (subst play_chunks.simps) (simp add: audio_speaker_def hisi_add_audio_header_def)
    then show ?thesis using True
      by (intro exI [of _ "[Decode (hisi_add_audio_header data)]"]) (simp add: decoded_def hisi_add_audio_header_def)
  next
    case False
    let ?b = "hisi_add_audio_header (take 480 data)"
    let ?s = "s\<lparr>audio_calls := audio_calls s @ [Decode ?b]\<rparr>"
    have "play_chunks env data False s = play_chunks env (drop 480 data) False ?s"
      using False assms by (subst play_chunks.simps) (simp add: audio_speaker_def hisi_add_audio_header_def)
    moreover obtain cs where cs: "play_chunks env (drop 480 data) False ?s
          = (0, ?s\<lparr>audio_calls := audio_calls ?s @ cs @ [End_of_stream]\<rparr>)"
        "concat (map (drop 4) (decoded cs)) = drop 480 data" "length (decoded cs) = length (drop 480 data) div 480 + 1"
        "\<forall>b \<in> set (decoded cs). length b \<le> 484" "End_of_stream \<notin> set cs"
    proof -
      have "length (drop 480 data) < length data" using False by simp
      from less [OF this, of ?s] show ?thesis using that by blast
    qed
    moreover have "decoded (Decode ?b # cs) = ?b # decoded cs" by (simp add: decoded_def)
    moreover have "drop 4 ?b = take 480 data" "length ?b \<le> 484" by (simp_all add: hisi_add_audio_header_def)
    moreover have "length data div 480 = length (drop 480 data) div 480 + 1"
      using False by (simp add: le_div_geq)
    ultimately show ?thesis by (intro exI [of _ "Decode ?b # cs"]) simp
  qed
qed

text \<open>
  A sound that is played reaches the decoder byte for byte, in frames of at most 480 bytes
  behind their headers, one more than the file has full frames, and the stream is ended once,
  after the last of them.
\<close>

theorem sound_reaches_decoder:
  assumes "decode_ok env" "sound_path type = Some path" "sound env path = Sound_file data False"
  shows "\<exists>cs. audio_play env type s = s\<lparr>audio_calls := audio_calls s @ cs @ [End_of_stream]\<rparr>
    \<and> concat (map (drop 4) (decoded cs)) = data \<and> length (decoded cs) = length data div 480 + 1
    \<and> (\<forall>b \<in> set (decoded cs). length b \<le> 484) \<and> End_of_stream \<notin> set cs"
  using play_chunks_calls [OF assms(1), of data s] assms(2,3)
  by (auto simp: audio_play_def play_audio_file_def)

section \<open>A stream that falls silent\<close>

text \<open>
  The stream thread leaves on the first second without a frame, and only the stages are asked
  before it is created again.
\<close>

definition silent :: "audio_server \<Rightarrow> bool" where
  "silent s = (status (info s) = STATUS_RUN \<and> ae_start (running_info s) \<and> \<not> bit (thread_start (info s)) AUDIO_THREAD_ENCODER)"

definition threads_created :: "audio_server \<Rightarrow> nat" where
  "threads_created s = length (filter (\<lambda>c. case c of Create_stream_thread _ \<Rightarrow> True | _ \<Rightarrow> False) (audio_calls s))"

text \<open>What the handlers and the task leave alone.\<close>

definition same_stream :: "audio_server \<Rightarrow> audio_server \<Rightarrow> bool" where
  "same_stream s t = (status (info t) = status (info s) \<and> running_info t = running_info s
     \<and> thread_start (info t) = thread_start (info s) \<and> threads_created t = threads_created s)"

lemma same_stream_refl [simp, intro]: "same_stream s s" by (simp add: same_stream_def)

lemma same_stream_trans: "same_stream s t \<Longrightarrow> same_stream t u \<Longrightarrow> same_stream s u"
  by (simp add: same_stream_def)

lemma audio_send_fields [simp]:
  "running_info (send r m s) = running_info s" "audio_calls (send r m s) = audio_calls s" "channels (send r m s) = channels s"
  "audio_fault (send r m s) = audio_fault s" "speaker_on (send r m s) = speaker_on s" "recorder_buff (send r m s) = recorder_buff s"
  by (simp_all add: send_def)

lemma threads_created_calls:
  "threads_created (s\<lparr>audio_calls := cs @ [c]\<rparr>) =
     threads_created (s\<lparr>audio_calls := cs\<rparr>) + (case c of Create_stream_thread _ \<Rightarrow> 1 | _ \<Rightarrow> 0)"
  by (cases c) (simp_all add: threads_created_def)

lemma speaker_same_stream: "same_stream s (audio_speaker env b e s)"
  by (simp add: audio_speaker_def same_stream_def threads_created_def Let_def)

lemma chunks_same_stream: "same_stream s (snd (play_chunks env data bad s))"
proof (induction env data bad s rule: play_chunks.induct)
  case (1 env data bad s)
  show ?case
  proof (cases "length data < PT_NUM_PER_FRM")
    case True
    then show ?thesis by (subst play_chunks.simps) (simp add: speaker_same_stream)
  next
    case False
    then show ?thesis
      using same_stream_trans [OF speaker_same_stream "1.IH" [OF False]] by (subst play_chunks.simps) simp
  qed
qed

lemma play_same_stream: "same_stream s (audio_play env type s)"
  using chunks_same_stream by (auto simp: audio_play_def play_audio_file_def split: option.splits sound_file.splits)

lemma handle_same_stream:
  assumes "m_message m \<noteq> MSG_MANAGER_EXIT"
  shows "same_stream s (handle_message env m s)"
proof -
  have "same_stream s (take_task ty m s)" for ty by (simp add: take_task_def keep_task_msg_def same_stream_def threads_created_def)
  moreover have "same_stream s (on_goke_status m s)" by (simp add: on_goke_status_def same_stream_def threads_created_def)
  moreover have "same_stream s (on_exit_ack m s)" by (simp add: on_exit_ack_def same_stream_def threads_created_def)
  moreover have "same_stream s (audio_set_property env m s)"
    by (simp add: audio_set_property_def same_stream_def threads_created_def Let_def split: option.splits payload.splits)
  moreover have "same_stream s (on_request_sync m s)"
    by (simp add: on_request_sync_def same_stream_def threads_created_def Let_def)
  ultimately show ?thesis
    using assms play_same_stream speaker_same_stream
    by (simp add: handle_message_def Let_def split: option.splits payload.splits)
qed

lemma task_same_stream:
  assumes "status (info s) = STATUS_RUN"
  shows "same_stream s (task_proc s)"
proof -
  have f: "same_stream s (finish_task ok t)" if "same_stream s t" for ok t
    using that by (simp add: finish_task_def same_stream_def threads_created_def)
  have "same_stream s (enter_channel s)" "same_stream s (leave_channel s)"
    by (simp_all add: enter_channel_def leave_channel_def same_stream_def threads_created_def Let_def split: prod.splits)
  then show ?thesis using assms f by (simp add: task_proc_def Let_def)
qed

text \<open>
  When the encoder delivers nothing for a second, the stream thread leaves for good: the
  server stays in its running state, answers requests for a stream with success, and no round
  creates the thread again unless the server is told to exit.
\<close>

theorem timeout_silences_stream:
  assumes "status (info s) = STATUS_RUN" "ae_start (running_info s)" "exit_flag (info s) = 0"
    and "misc_get_bit (thread_exit (info s)) AUDIO_THREAD_ENCODER = 0" "selected env = Select_timeout"
  shows "silent (snd (aduio_stream_func scrap env s))
    \<and> (\<forall>t env'. silent t \<longrightarrow> threads_created (audio_server_round env' t) = threads_created t
         \<and> (silent (audio_server_round env' t) \<or> status (info (audio_server_round env' t)) = EXIT_INIT))"
proof
  show "silent (snd (aduio_stream_func scrap env s))"
    using assms by (simp add: aduio_stream_func_def stream_turn_def stream_ends_def silent_def misc_clear_bit_def bit_simps Let_def)
next
  show "\<forall>t env'. silent t \<longrightarrow> threads_created (audio_server_round env' t) = threads_created t
         \<and> (silent (audio_server_round env' t) \<or> status (info (audio_server_round env' t)) = EXIT_INIT)"
  proof (intro allI impI)
    fix t env'
    assume t: "silent t"
    define good where "good u = (threads_created u = threads_created t \<and> (silent u \<or> status (info u) = EXIT_INIT))" for u
    have good_frame: "good (u\<lparr>waiting := w\<rparr>) = good u" "good (u\<lparr>bus := b\<rparr>) = good u" for u w b
      by (simp_all add: good_def silent_def threads_created_def)
    have same: "same_stream u v \<Longrightarrow> good u \<Longrightarrow> good v" for u v
      by (simp add: good_def silent_def same_stream_def)
    have handle: "good (handle_message env' m u)" if "good u" for m u
    proof (cases "m_message m = MSG_MANAGER_EXIT")
      case True
      then show ?thesis using that
        by (simp add: handle_message_def on_manager_exit_def keep_task_msg_def good_def threads_created_def)
    next
      case False
      then show ?thesis using same [OF handle_same_stream that] by simp
    qed
    have taken: "good (audio_take_message env' u)" if "good u" for u
    proof -
      have "good (snd (audio_message_block u))"
        using that by (simp add: audio_message_block_def message_block_def good_frame split: prod.splits)
      then show ?thesis
        using handle good_frame
        by (cases "audio_message_block u"; cases "fst (audio_message_block u)")
          (simp_all add: audio_take_message_def take_message_def Let_def split: prod.splits)
    qed
    have proc: "good (audio_message_proc env' u)" if "good u" for u
      using that taken good_frame by (simp add: audio_message_proc_def audio_take_message_def message_proc_def)
    have "good (audio_server_turn env' t)"
    proof -
      let ?t = "with_info (\<lambda>x. x\<lparr>old_status := status x\<rparr>) t"
      have run: "status (info ?t) = STATUS_RUN" using t by (simp add: silent_def)
      have "good ?t" using t by (simp add: good_def silent_def threads_created_def)
      moreover have "state_machine env' ?t = ?t" using run by (simp add: state_machine_def)
      ultimately show ?thesis
        using proc same [OF task_same_stream [OF run]] by (simp add: audio_server_turn_def loop_turn_def Let_def)
    qed
    moreover have "good t" using t by (simp add: good_def)
    ultimately have "good (audio_server_round env' t)"
      using taken good_frame by (simp add: audio_server_round_def loop_round_def)
    then show "threads_created (audio_server_round env' t) = threads_created t
         \<and> (silent (audio_server_round env' t) \<or> status (info (audio_server_round env' t)) = EXIT_INIT)"
      by (simp add: good_def)
  qed
qed

section \<open>A thread that never ran\<close>

definition thread_lost :: "audio_server \<Rightarrow> bool" where
  "thread_lost s = (exit_flag (info s) = 0 \<and> bit (thread_start (info s)) AUDIO_THREAD_ENCODER
     \<and> status (info s) \<notin> {EXIT_STAGE2, EXIT_FINISH})"

lemma stages_frame: "keeps_frame (audio_init env)" "keeps_frame (audio_start env)"
proof -
  have "keeps_frame (start_ae env)" by (simp add: keeps_frame_def start_ae_def call_hisi_def Let_def)
  then show "keeps_frame (audio_start env)" unfolding audio_start_def by (intro frame_rules)
  have "keeps_frame (\<lambda>s. andthen (stage env Init_ai (\<lambda>r. r\<lparr>ai_init := True\<rparr>))
      (andthen (stage env Init_codec (\<lambda>r. r\<lparr>codec_init := True\<rparr>))
      (andthen (stage env Init_ae (\<lambda>r. r\<lparr>ae_init := True\<rparr>))
      (andthen (stage env Init_ao (\<lambda>r. r\<lparr>ao_init := True\<rparr>))
        (stage env Init_ad (\<lambda>r. r\<lparr>ad_init := True\<rparr>))))) s)"
    by (intro frame_rules)
  then show "keeps_frame (audio_init env)" by (simp add: audio_init_def keeps_frame_def call_hisi_def Let_def)
qed

text \<open>No handler, task or state touches the bits of the threads, and the exit waits for them.\<close>

definition same_threads :: "audio_server \<Rightarrow> audio_server \<Rightarrow> bool" where
  "same_threads s t = (thread_start (info t) = thread_start (info s) \<and> exit_flag (info t) = exit_flag (info s))"

lemma info_same_threads: "info t = info s \<Longrightarrow> same_threads s t" by (simp add: same_threads_def)

lemma machine_lost: "thread_lost s \<Longrightarrow> thread_lost (state_machine env s)"
proof -
  assume s: "thread_lost s"
  have nz: "thread_start (info s) \<noteq> 0" using s by (auto simp: thread_lost_def)
  have f: "info (snd (f s)) = info s" if "keeps_frame f" for f using that by (simp add: keeps_frame_def)
  note frames = f [OF stages_frame(1)] f [OF stages_frame(2)] f [OF audio_stop_frame]
  have u: "info (snd (audio_uninit env t)) = info t" for t using audio_uninit_frame [of env] by (simp add: keeps_frame_def)
  have play: "info (audio_play env' ty t) = info t" for env' ty t
  proof -
    have sp: "info (audio_speaker env b e t) = info t" for env b e t by (simp add: audio_speaker_def Let_def)
    have "info (snd (play_chunks env data bad t)) = info t" for env data bad t
      by (induction env data bad t rule: play_chunks.induct) (subst play_chunks.simps, simp add: sp)
    then show ?thesis by (simp add: audio_play_def play_audio_file_def split: option.splits sound_file.splits)
  qed
  let ?st = "status (info s)"
  consider "?st = STATUS_INIT" | "?st = STATUS_SETUP" | "?st = STATUS_START" | "?st = STATUS_STOP" | "?st = STATUS_RESTART"
    | "?st = STATUS_ERROR" | "?st = EXIT_INIT" | "?st = EXIT_SERVER" | "?st = EXIT_STAGE1" | "?st = EXIT_THREAD"
    | "?st = EXIT_STAGE2" | "?st = EXIT_FINISH" | "state_machine env s = s"
    unfolding state_machine_def Let_def by presburger
  then show ?thesis
  proof cases
    case 2
    then show ?thesis using s frames(1) [of env]
      by (cases "audio_init env s") (simp add: state_machine_def audio_server_setup_def thread_lost_def)
  next
    case 3
    then show ?thesis using s frames(2) [of env]
      by (cases "audio_start env s") (simp add: state_machine_def audio_server_start_def thread_lost_def play)
  next
    case 4
    then show ?thesis using s nz frames(3) [of env]
      by (cases "audio_stop env s") (simp add: state_machine_def audio_server_stop_def thread_lost_def)
  next
    case 5
    have "thread_lost (audio_server_restart env s)"
    proof -
      obtain r1 s1 where s1: "audio_stop env s = (r1, s1)" "info s1 = info s" using frames(3) [of env] by (metis prod.collapse)
      obtain r2 s2 where s2: "audio_uninit env s1 = (r2, s2)" "info s2 = info s" using u [of s1] s1(2) by (metis prod.collapse)
      show ?thesis using s s1 s2 5 by (simp add: audio_server_restart_def thread_lost_def)
    qed
    then show ?thesis using 5 by (simp add: state_machine_def)
  next
    case 13
    then show ?thesis using s by simp
  qed (use s nz in \<open>simp_all add: audio_machine_defs audio_server_init_def thread_lost_def Let_def\<close>)
qed

lemma handle_lost:
  assumes "thread_lost s"
  shows "thread_lost (handle_message env m s)"
proof -
  have keep: "thread_lost (with_info f s)"
    if "\<And>x. thread_start (f x) = thread_start x" "\<And>x. exit_flag (f x) = exit_flag x"
      "\<And>x. status (f x) = status x \<or> status (f x) = EXIT_INIT" for f
    using assms that [of "info s"] by (auto simp: thread_lost_def)
  have same: "thread_lost t" if "same_stream s t" "exit_flag (info t) = exit_flag (info s)" for t
    using assms that by (simp add: thread_lost_def same_stream_def)
  show ?thesis
  proof (cases "m_message m = MSG_MANAGER_EXIT")
    case True
    then show ?thesis using assms
      by (simp add: handle_message_def on_manager_exit_def keep_task_msg_def thread_lost_def)
  next
    case False
    have sp: "exit_flag (info (audio_speaker env b e t)) = exit_flag (info t)" for env b e t
      by (simp add: audio_speaker_def Let_def)
    have ch: "exit_flag (info (snd (play_chunks env data bad t))) = exit_flag (info t)" for env data bad t
      by (induction env data bad t rule: play_chunks.induct) (subst play_chunks.simps, simp add: sp)
    have play: "exit_flag (info (audio_play env ty t)) = exit_flag (info t)" for env ty t
      by (simp add: audio_play_def play_audio_file_def ch split: option.splits sound_file.splits)
    have "exit_flag (info (audio_set_property env m s)) = exit_flag (info s)"
      by (simp add: audio_set_property_def Let_def split: option.splits payload.splits)
    moreover have "exit_flag (info (on_request_sync m s)) = exit_flag (info s)"
      by (simp add: on_request_sync_def Let_def)
    moreover have "exit_flag (info (take_task ty m s)) = exit_flag (info s)" for ty by (simp add: take_task_def keep_task_msg_def)
    ultimately have "exit_flag (info (handle_message env m s)) = exit_flag (info s)"
      using False sp play
      by (simp add: handle_message_def on_goke_status_def on_exit_ack_def Let_def split: option.splits payload.splits)
    then show ?thesis using same [OF handle_same_stream [OF False]] by blast
  qed
qed

lemma task_lost: "thread_lost s \<Longrightarrow> thread_lost (task_proc s)"
proof -
  assume s: "thread_lost s"
  have c: "info (enter_channel s) = info s" "info (leave_channel s) = info s"
    by (simp_all add: enter_channel_def leave_channel_def Let_def split: prod.splits)
  have f: "thread_lost (finish_task ok t)" if "info t = info s" for ok t
    using s that by (simp add: finish_task_def thread_lost_def)
  show ?thesis using s f [OF c(1)] f [OF c(2)] f [OF refl] by (simp add: task_proc_def thread_lost_def Let_def)
qed

text \<open>
  A stream thread that gets no descriptor for the encoder returns with its bit set, and
  nothing clears the bit afterwards: however often the server goes round, with whatever messages
  the others put into its queue, an exit it is told never completes.
\<close>

theorem lost_thread_blocks_exit:
  assumes "exit_flag (info s) = 0" "status (info s) = STATUS_START" "fd < 0"
  shows "exit_flag (info (foldl (\<lambda>t (env, b). audio_server_round env (t\<lparr>bus := b\<rparr>)) (snd (stream_begins fd s)) rounds)) = 0"
proof -
  have frame: "thread_lost (u\<lparr>waiting := w\<rparr>) = thread_lost u" "thread_lost (u\<lparr>bus := b\<rparr>) = thread_lost u" for u w b
    by (simp_all add: thread_lost_def)
  have taken: "thread_lost (audio_take_message env u)" if "thread_lost u" for env u
  proof -
    have "thread_lost (snd (audio_message_block u))"
      using that by (simp add: audio_message_block_def message_block_def frame split: prod.splits)
    then show ?thesis
      using handle_lost frame
      by (cases "audio_message_block u"; cases "fst (audio_message_block u)")
        (simp_all add: audio_take_message_def take_message_def Let_def split: prod.splits)
  qed
  have proc: "thread_lost (audio_message_proc env u)" if "thread_lost u" for env u
    using that taken frame by (simp add: audio_message_proc_def audio_take_message_def message_proc_def)
  have turn: "thread_lost (audio_server_turn env u)" if "thread_lost u" for env u
  proof -
    have "thread_lost (with_info (\<lambda>x. x\<lparr>old_status := status x\<rparr>) u)" using that by (simp add: thread_lost_def)
    from machine_lost [OF this, of env] show ?thesis
      using proc task_lost by (simp add: audio_server_turn_def loop_turn_def Let_def)
  qed
  have round: "thread_lost (audio_server_round env u)" if "thread_lost u" for env u
    using that taken turn frame by (simp add: audio_server_round_def loop_round_def)
  have "thread_lost (foldl (\<lambda>t (env, b). audio_server_round env (t\<lparr>bus := b\<rparr>)) u rounds)" if "thread_lost u" for u
    using that by (induction rounds arbitrary: u) (auto simp: round frame)
  moreover have "thread_lost (snd (stream_begins fd s))"
    using assms by (simp add: stream_begins_def thread_lost_def misc_set_bit_def bit_simps Let_def)
  ultimately show ?thesis by (simp add: thread_lost_def)
qed

section \<open>Channels of an intercom\<close>

text \<open>What a request to start leaves in the table, again and again.\<close>

fun start_requests :: "nat \<Rightarrow> audio_server \<Rightarrow> audio_server" where
  "start_requests 0 s = s"
| "start_requests (Suc n) s = enter_channel (start_requests n s)"

definition intercom_channel :: "int \<Rightarrow> audio_channel_t \<Rightarrow> bool" where
  "intercom_channel sid c = (ch_status c = CHANNEL_VALID \<and> channel_type c = SERVER_AUDIO \<and> service_id c = sid)"

lemma first_channel_split:
  assumes "\<forall>c \<in> set xs. \<not> P c" "P c"
  shows "first_channel P i (xs @ c # ys) = i + int (length xs)"
  using assms by (induction xs arbitrary: i) auto

lemma first_channel_none: "\<forall>c \<in> set xs. \<not> P c \<Longrightarrow> first_channel P i xs = - 1"
  by (induction xs arbitrary: i) auto

text \<open>
  An intercom that is started again gets another channel, since its first channel no longer
  bears the type of the sender: after four requests of one sender for one service the table is
  full of them, and a fifth is written in front of the table.
\<close>

theorem intercom_restart_fills_table:
  assumes "length (channels s) = MAX_AV_CHANNEL" "\<forall>c \<in> set (channels s). ch_status c = CHANNEL_EMPTY" "\<not> audio_fault s"
    and "cat (m_arg_in (task_msg (task (info s)))) = 2" "m_sender (task_msg (task (info s))) \<noteq> SERVER_AUDIO"
    and "n \<le> MAX_AV_CHANNEL"
  shows "length (filter (intercom_channel (wolf (m_arg_in (task_msg (task (info s)))))) (channels (start_requests n s))) = n
    \<and> \<not> audio_fault (start_requests n s)
    \<and> (n = MAX_AV_CHANNEL \<longrightarrow> audio_fault (start_requests (Suc n) s))"
proof -
  let ?r = "task_msg (task (info s))"
  let ?sid = "wolf (m_arg_in ?r)"
  define used where "used t k = (\<exists>xs ys. channels t = xs @ ys \<and> length xs = k \<and> length ys = 4 - k
    \<and> (\<forall>c \<in> set xs. intercom_channel ?sid c) \<and> (\<forall>c \<in> set ys. ch_status c = CHANNEL_EMPTY)
    \<and> info t = info s \<and> \<not> audio_fault t)" for t :: audio_server and k
  have unmatched: "first_channel (\<lambda>c. service_id c = ?sid \<and> channel_type c = m_sender ?r \<and> ch_status c = CHANNEL_VALID) 0 (xs @ ys) = - 1"
    if "\<forall>c \<in> set xs. intercom_channel ?sid c" "\<forall>c \<in> set ys. ch_status c = CHANNEL_EMPTY" for xs ys
    by (rule first_channel_none) (use that assms(5) in \<open>auto simp: intercom_channel_def\<close>)
  have step: "used (enter_channel t) (Suc k)" if u: "used t k" and k: "k < 4" for t k
  proof -
    obtain xs ys where t: "channels t = xs @ ys" "length xs = k" "length ys = 4 - k" "\<forall>c \<in> set xs. intercom_channel ?sid c"
      "\<forall>c \<in> set ys. ch_status c = CHANNEL_EMPTY" "info t = info s" "\<not> audio_fault t"
      using u by (auto simp: used_def)
    obtain y zs where y: "ys = y # zs" using t(3) k by (cases ys) auto
    have "first_channel (\<lambda>c. ch_status c \<noteq> CHANNEL_VALID) 0 (xs @ y # zs) = int k"
      using first_channel_split [of xs "\<lambda>c. ch_status c \<noteq> CHANNEL_VALID" y 0 zs] t y by (simp add: intercom_channel_def)
    then have "get_new_channel ?sid (m_sender ?r) (channels t) = (int k, xs @ (y\<lparr>service_id := ?sid, channel_type := m_sender ?r, ch_status := CHANNEL_VALID\<rparr>) # zs)"
      using unmatched [OF t(4,5)] t y by (simp add: get_new_channel_def Let_def list_update_append nth_append)
    then have "enter_channel t = t\<lparr>channels := xs @ (y\<lparr>service_id := ?sid, channel_type := SERVER_AUDIO, ch_status := CHANNEL_VALID,
        require_key := True, qos_success := 0\<rparr>) # zs\<rparr>"
      using t assms(4) by (simp add: enter_channel_def Let_def list_update_append nth_append)
    then show ?thesis
      using t y unfolding used_def
      by (intro exI [of _ "xs @ [y\<lparr>service_id := ?sid, channel_type := SERVER_AUDIO, ch_status := CHANNEL_VALID,
        require_key := True, qos_success := 0\<rparr>]"] exI [of _ zs]) (auto simp: intercom_channel_def)
  qed
  have all: "used (start_requests k s) k" if "k \<le> 4" for k
    using that
  proof (induction k)
    case 0
    then show ?case using assms(1-3) unfolding used_def by (intro exI [of _ "[]"] exI [of _ "channels s"]) simp
  next
    case (Suc k)
    then show ?case using step [of "start_requests k s" k] by simp
  qed
  have full: "audio_fault (enter_channel t)" if u: "used t 4" for t
  proof -
    obtain xs where t: "channels t = xs" "\<forall>c \<in> set xs. intercom_channel ?sid c" "info t = info s"
      using u by (auto simp: used_def)
    have "first_channel (\<lambda>c. ch_status c \<noteq> CHANNEL_VALID) 0 xs = - 1"
      by (rule first_channel_none) (use t in \<open>auto simp: intercom_channel_def\<close>)
    then have "get_new_channel ?sid (m_sender ?r) (channels t) = (- 1, xs)"
      using unmatched [of xs "[]"] t by (simp add: get_new_channel_def Let_def)
    then show ?thesis using t assms(4) by (simp add: enter_channel_def Let_def)
  qed
  have "length (filter (intercom_channel ?sid) (channels t)) = k \<and> \<not> audio_fault t" if u: "used t k" for t k
  proof -
    obtain xs ys where t: "channels t = xs @ ys" "length xs = k" "\<forall>c \<in> set xs. intercom_channel ?sid c"
      "\<forall>c \<in> set ys. ch_status c = CHANNEL_EMPTY" "\<not> audio_fault t"
      using u by (auto simp: used_def)
    have "filter (intercom_channel ?sid) xs = xs" "filter (intercom_channel ?sid) ys = []"
      using t by (auto simp: filter_id_conv filter_empty_conv intercom_channel_def)
    then show ?thesis using t by simp
  qed
  then show ?thesis using all [OF assms(6)] full by (simp only: start_requests.simps) blast
qed

section \<open>Latency\<close>

text \<open>
  A channel of the cloud is given up exactly when a frame cannot be sent although one was
  sent before and that is more than ten seconds ago; a channel that never had a frame through
  is kept for ever.
\<close>

theorem slow_channel_given_up:
  assumes "ch_status c = CHANNEL_VALID" "uint (qos_success c) \<le> uint stamp" "uint stamp - uint (qos_success c) < 2 ^ 31"
  shows "(ch_status (send_frame env stamp c) = CHANNEL_EMPTY) =
      (send_media env (service_id c) \<noteq> 0 \<and> qos_success c \<noteq> 0 \<and> uint stamp - uint (qos_success c) > QOS_MAX_LATENCY)
    \<and> (send_media env (service_id c) = 0 \<longrightarrow> qos_success (send_frame env stamp c) = stamp)"
proof -
  have "uint (stamp - qos_success c) = uint stamp - uint (qos_success c)"
    using assms(2) by (simp add: uint_sub_if')
  then have "sint (stamp - qos_success c) = uint stamp - uint (qos_success c)"
    using assms(2,3) by (simp add: signed_take_bit_int_eq_self sint_uint)
  then show ?thesis using assms(1) by (simp add: send_frame_def)
qed

section \<open>Requests behind a running task\<close>

text \<open>
  While a request to start waits for the server to come up, its lock does not keep the next
  one out: the second request takes the first one's place, and the first sender never gets an
  answer; the answer, when it comes, is the second one's.
\<close>

theorem second_request_replaces_first:
  assumes "task_type (task (info s)) = TASK_TYPE_START" "msg_lock (info s) \<noteq> 0" "status (info s) < STATUS_ERROR"
    and "ring_wf (bus s SERVER_AUDIO)" "contents (bus s SERVER_AUDIO) = m # rest" "m_message m = MSG_AUDIO_START"
  shows "\<exists>q. contents q = rest
    \<and> audio_take_message env s = take_task TASK_TYPE_START m (s\<lparr>bus := (bus s)(SERVER_AUDIO := q)\<rparr>)
    \<and> task_msg (task (info (audio_take_message env s))) = m\<lparr>m_arg := None, m_extra := None\<rparr>
    \<and> (\<forall>r. r \<noteq> SERVER_AUDIO \<longrightarrow> bus (audio_take_message env s) r = bus s r)"
proof -
  have "audio_message_block s = (False, s)"
    using urgent_first_not_blocked [of m s SERVER_AUDIO rest] assms(4-6)
    by (simp add: audio_message_block_def urgent_def system_low_bits)
  moreover have "0 < ring_count (bus s SERVER_AUDIO)" using assms(5) length_contents [of "bus s SERVER_AUDIO"] by simp
  note e = evict_props [OF assms(4) this]
  have "msg_buffer_pop (bus s SERVER_AUDIO) msg_init = (0, m, evict (bus s SERVER_AUDIO))"
    by (rule pop_nonempty [OF assms(4,5)])
  ultimately have "audio_take_message env s = take_task TASK_TYPE_START m (s\<lparr>bus := (bus s)(SERVER_AUDIO := evict (bus s SERVER_AUDIO))\<rparr>)"
    using assms(3,6) by (simp add: audio_take_message_def take_message_def audio_message_filter_def error_filter_def handle_message_def Let_def)
  then show ?thesis
    using e assms(5) by (intro exI [of _ "evict (bus s SERVER_AUDIO)"]) (simp add: take_task_def keep_task_msg_def)
qed

section \<open>An exit while a request waits\<close>

text \<open>
  An exit that arrives while a request waits is acknowledged twice.  The request's task is
  failed in the round after the exit message, with an answer made of the exit message itself: an
  acknowledgement of the exit, sent to the manager when the server has not left its loop nor
  released anything.
\<close>

theorem exit_acknowledged_too_soon:
  assumes "task_type (task (info s)) \<in> {TASK_TYPE_START, TASK_TYPE_STOP}" "exit_flag (info s) = 0"
    and "m_message m = MSG_MANAGER_EXIT" "m_receiver m = SERVER_MANAGER"
  shows "\<exists>t ack. task_proc (state_machine env (with_info (\<lambda>x. x\<lparr>old_status := status x\<rparr>) (handle_message env m s))) = t
    \<and> m_message ack = MSG_MANAGER_EXIT_ACK \<and> m_sender ack = SERVER_AUDIO
    \<and> bus t = snd (global_common_send_message (bus s) SERVER_MANAGER ack)
    \<and> status (info t) = EXIT_SERVER \<and> exit_flag (info t) = 0 \<and> thread_start (info t) = thread_start (info s)
    \<and> running_info t = running_info s"
proof -
  let ?u = "state_machine env (with_info (\<lambda>x. x\<lparr>old_status := status x\<rparr>) (handle_message env m s))"
  have h: "handle_message env m s = on_manager_exit m s" using assms(3) by (simp add: handle_message_def)
  have u: "status (info ?u) = EXIT_SERVER" "task_type (task (info ?u)) = task_type (task (info s))"
    "task_msg (task (info ?u)) = m\<lparr>m_arg := None, m_extra := None\<rparr>" "exit_flag (info ?u) = 0"
    "thread_start (info ?u) = thread_start (info s)" "bus ?u = bus s" "running_info ?u = running_info s"
    using assms(2) by (simp_all add: h on_manager_exit_def keep_task_msg_def state_machine_def exit_init_def Let_def)
  have t: "task_proc ?u = finish_task False ?u" using assms(1) u(1,2) by (auto simp: task_proc_def)
  show ?thesis
    using u assms(3,4) unfolding t
    by (intro exI [of _ "finish_task False ?u"] exI [of _ "task_answer False ?u"])
      (simp add: finish_task_def task_answer_def send_def)
qed

section \<open>Concrete servers\<close>

definition all_off :: audio_running_info_t where
  "all_off = \<lparr>ai_init = False, ai_start = False, codec_init = False, ae_init = False, ae_start = False, ao_init = False,
     ao_start = False, ad_init = False, ad_start = False, ae_ai_bind = False, ao_ad_bind = False\<rparr>"

definition free_channel :: audio_channel_t where
  "free_channel = \<lparr>ch_status = CHANNEL_EMPTY, channel_type = 0, service_id = 0, require_key = False, qos_success = 0\<rparr>"

definition demo_audio :: audio_server where
  "demo_audio = \<lparr>info = info_zero (), bus = (\<lambda>_. demo_queue 1), waiting = False, running_info = all_off,
     channels = replicate 4 free_channel, recorder_buff = [], speaker_on = 1, audio_calls = [], audio_fault = False\<rparr>"

definition demo_sound :: audio_env where
  "demo_sound = \<lparr>hisi = (\<lambda>_. 0), create_ret = 0, payload_aac = False, sound = (\<lambda>_. Sound_file [1, 2, 3] False), decode_ok = True\<rparr>"

definition demo_stream_env :: stream_env where
  "demo_stream_env = \<lparr>selected = Select_timeout, get_stream = 0, frame_seq = 0, frame_data = [], malloc_ok = True,
     release_stream = 0, now_ms = 0, universal_tag = 0, synchronize = (\<lambda>_. 0), send_media = (\<lambda>_. 1)\<rparr>"

text \<open>The encoder of a server without threads, whose stop fails: after two starts it is two starts ahead.\<close>

definition no_threads :: audio_env where
  "no_threads = demo_sound\<lparr>hisi := (\<lambda>c. if c = Stop_ae then - 1 else 0), create_ret := 11\<rparr>"

theorem audio_stages_balanced_witness:
  "succeeded Start_ae (snd (audio_start demo_sound demo_audio)) - succeeded Stop_ae (snd (audio_start demo_sound demo_audio)) = 1
   \<and> (let s = snd (audio_start no_threads (snd (audio_start no_threads demo_audio))) in
      succeeded Start_ae s - succeeded Stop_ae s = 2)"
proof -
  have fresh_start: "hw_runs demo_audio" by (rule fresh) (simp_all add: demo_audio_def all_off_def hw_stages_def)
  define s where "s = snd (audio_start no_threads (snd (audio_start no_threads demo_audio)))"
  have runs: "hw_runs (snd (audio_start demo_sound demo_audio))" "hw_runs s"
    unfolding s_def by (intro starts fresh_start)+
  have one: "ae_start (running_info (snd (audio_start demo_sound demo_audio)))"
    "lost_encoders (audio_calls (snd (audio_start demo_sound demo_audio))) = 0"
    by (simp_all add: audio_start_def andthen_def only_if_def stage_def start_ae_def call_hisi_def demo_sound_def demo_audio_def
        all_off_def Let_def lost_encoders_def)
  have two: "\<not> ae_start (running_info s)" "lost_encoders (audio_calls s) = 2"
    by (simp_all add: s_def no_threads_def audio_start_def andthen_def only_if_def stage_def start_ae_def call_hisi_def demo_sound_def
        demo_audio_def all_off_def Let_def lost_encoders_def)
  have ae: "(Start_ae, Stop_ae, ae_start) \<in> hw_stages" by (simp add: hw_stages_def)
  show ?thesis
    using audio_stages_balanced [OF runs(1) ae] audio_stages_balanced [OF runs(2) ae] one two
    by (simp add: s_def [symmetric])
qed

theorem sound_reaches_decoder_witness:
  "\<exists>cs. audio_play demo_sound AUDIO_RESOURCE_START demo_audio
      = demo_audio\<lparr>audio_calls := audio_calls demo_audio @ cs @ [End_of_stream]\<rparr> \<and> length (decoded cs) = 1"
  using sound_reaches_decoder [of demo_sound AUDIO_RESOURCE_START "''/misc/audio/start.alaw''" "[1, 2, 3]" demo_audio]
  by (auto simp: demo_sound_def sound_path_def)

theorem timeout_silences_stream_witness:
  "silent (snd (aduio_stream_func undefined demo_stream_env
     (with_running (\<lambda>r. r\<lparr>ae_start := True\<rparr>) (with_info (\<lambda>x. x\<lparr>status := STATUS_RUN, thread_start := 1\<rparr>) demo_audio))))"
  using timeout_silences_stream [of "with_running (\<lambda>r. r\<lparr>ae_start := True\<rparr>) (with_info (\<lambda>x. x\<lparr>status := STATUS_RUN, thread_start := 1\<rparr>) demo_audio)"
      demo_stream_env undefined]
  by (simp add: demo_audio_def demo_stream_env_def info_zero_def misc_get_bit_def)

theorem lost_thread_blocks_exit_witness:
  "exit_flag (info (foldl (\<lambda>t (env, b). audio_server_round env (t\<lparr>bus := b\<rparr>))
     (snd (stream_begins (- 1) (set_status STATUS_START demo_audio))) [(demo_sound, \<lambda>_. demo_queue 1)])) = 0"
  by (rule lost_thread_blocks_exit) (simp_all add: demo_audio_def info_zero_def)

definition demo_intercom :: msg where
  "demo_intercom = msg_init\<lparr>m_message := MSG_AUDIO_START, m_sender := SERVER_ALIYUN, m_receiver := SERVER_ALIYUN,
     m_arg_in := arg_zero\<lparr>cat := 2, wolf := 7\<rparr>\<rparr>"

theorem intercom_restart_fills_table_witness:
  "audio_fault (start_requests 5 (with_info (\<lambda>x. x\<lparr>task := (task x)\<lparr>task_msg := demo_intercom\<rparr>\<rparr>) demo_audio))"
proof -
  have five: "(5 :: nat) = Suc 4" by simp
  show ?thesis
    unfolding five
    using intercom_restart_fills_table [of "with_info (\<lambda>x. x\<lparr>task := (task x)\<lparr>task_msg := demo_intercom\<rparr>\<rparr>) demo_audio" 4]
    by (simp only: demo_audio_def demo_intercom_def free_channel_def) simp
qed

theorem slow_channel_given_up_witness:
  "ch_status (send_frame demo_stream_env 20000 (free_channel\<lparr>ch_status := CHANNEL_VALID, qos_success := 1\<rparr>)) = CHANNEL_EMPTY"
  using slow_channel_given_up [of "free_channel\<lparr>ch_status := CHANNEL_VALID, qos_success := 1\<rparr>" 20000 demo_stream_env]
  by (simp add: demo_stream_env_def free_channel_def)

lemma one_request:
  "ring_wf (ring_push (demo_queue 1) m)" "contents (ring_push (demo_queue 1) m) = [m\<lparr>m_sequence := 1\<rparr>]"
  by (simp_all add: ring_push_cases append_msg_props)

definition waiting_audio :: audio_server where
  "waiting_audio = with_info (\<lambda>x. x\<lparr>msg_lock := 1, task := (task x)\<lparr>task_type := TASK_TYPE_START\<rparr>\<rparr>)
     (demo_audio\<lparr>bus := \<lambda>_. ring_push (demo_queue 1) demo_intercom\<rparr>)"

theorem second_request_replaces_first_witness:
  "task_msg (task (info (audio_take_message demo_sound waiting_audio))) = demo_intercom\<lparr>m_sequence := 1, m_arg := None, m_extra := None\<rparr>"
proof -
  have "task_type (task (info waiting_audio)) = TASK_TYPE_START" "msg_lock (info waiting_audio) \<noteq> 0"
    "status (info waiting_audio) < STATUS_ERROR" "ring_wf (bus waiting_audio SERVER_AUDIO)"
    "contents (bus waiting_audio SERVER_AUDIO) = demo_intercom\<lparr>m_sequence := 1\<rparr> # []"
    by (simp_all add: waiting_audio_def demo_audio_def info_zero_def one_request)
  moreover have "m_message (demo_intercom\<lparr>m_sequence := 1\<rparr>) = MSG_AUDIO_START" by (simp add: demo_intercom_def)
  ultimately show ?thesis using second_request_replaces_first [of waiting_audio _ "[]" demo_sound] by blast
qed

theorem exit_acknowledged_too_soon_witness:
  "\<exists>(t :: audio_server) ack. m_message ack = MSG_MANAGER_EXIT_ACK \<and> m_sender ack = SERVER_AUDIO
    \<and> bus t = snd (global_common_send_message (\<lambda>_. demo_queue 1) SERVER_MANAGER ack) \<and> exit_flag (info t) = 0"
proof -
  define a where "a = with_info (\<lambda>x. x\<lparr>task := (task x)\<lparr>task_type := TASK_TYPE_START\<rparr>\<rparr>) demo_audio"
  define m where "m = (msg_init\<lparr>m_message := MSG_MANAGER_EXIT\<rparr> :: msg)"
  have a: "task_type (task (info a)) \<in> {TASK_TYPE_START, TASK_TYPE_STOP}" "exit_flag (info a) = 0" "bus a = (\<lambda>_. demo_queue 1)"
    by (simp_all add: a_def demo_audio_def info_zero_def)
  have m: "m_message m = MSG_MANAGER_EXIT" "m_receiver m = SERVER_MANAGER" by (simp_all add: m_def msg_init_def)
  show ?thesis using exit_acknowledged_too_soon [OF a(1,2) m, of demo_sound] unfolding a(3) by blast
qed

end
