(* ===== verification/MediaStart.thy ===== *)
theory MediaStart
  imports Composition Audio
begin

text \<open>
  The start of the media servers together: how the audio server learns that the media system is
  up, from the goke server, over the message queues.
\<close>

section \<open>The audio server asks the goke server\<close>

text \<open>
  The audio server in its first state asks, the goke server, which was waiting for a message,
  answers; the audio server takes the answer.  Then the goke server goes round once more, and the
  audio server takes what that round has sent.
\<close>

definition audio_asks :: "goke_server \<Rightarrow> audio_env \<Rightarrow> audio_server \<Rightarrow> goke_server \<times> audio_server" where
  "audio_asks g env a =
     (let a = audio_server_init a;
          g = goke_take_message (g\<lparr>bus := bus a\<rparr>) in
      (g, audio_take_message env (a\<lparr>bus := bus g\<rparr>)))"

definition goke_goes_round :: "goke_env \<Rightarrow> audio_env \<Rightarrow> goke_server \<times> audio_server \<Rightarrow> goke_server \<times> audio_server" where
  "goke_goes_round genv env ga =
     (case ga of (g, a) \<Rightarrow>
        let g = goke_server_turn genv (g\<lparr>bus := bus a\<rparr>) in
        (g, audio_take_message env (a\<lparr>bus := bus g\<rparr>)))"

lemma audio_takes:
  assumes "msg_lock (info a) = 0" "status (info a) < STATUS_ERROR" "one_message m (bus a SERVER_AUDIO)"
    and "m_message m \<in> {MSG_GOKE_PROPERTY_NOTIFY, MSG_GOKE_PROPERTY_GET_ACK}"
  shows "\<exists>q. idle_queue q \<and> audio_take_message env a = on_goke_status m (a\<lparr>bus := (bus a)(SERVER_AUDIO := q)\<rparr>)"
proof -
  have "audio_message_block a = (False, a)" using assms(1) by (simp add: audio_message_block_def message_block_def)
  from take_single [where block = audio_message_block and s = a, OF this assms(3), of audio_message_filter "Audio.handle_message env"]
  obtain q n where "idle_queue q" "audio_take_message env a =
    (if audio_message_filter (m\<lparr>m_sequence := n\<rparr>) (a\<lparr>bus := (bus a)(SERVER_AUDIO := q)\<rparr>) then a\<lparr>bus := (bus a)(SERVER_AUDIO := q)\<rparr>
     else Audio.handle_message env (m\<lparr>m_sequence := n\<rparr>) (a\<lparr>bus := (bus a)(SERVER_AUDIO := q)\<rparr>))"
    unfolding audio_take_message_def by blast
  moreover have "Audio.handle_message env (m\<lparr>m_sequence := n\<rparr>) t = on_goke_status m t" for t
    using assms(4) by (auto simp: Audio.handle_message_def on_goke_status_def)
  ultimately show ?thesis using assms(2) by (intro exI [of _ q]) (simp add: audio_message_filter_def error_filter_def)
qed

lemma goke_answers:
  assumes "msg_lock (info g) = 0" "status (info g) = STATUS_RUN" "one_message m (bus g SERVER_GOKE)"
    and "m_message m = MSG_GOKE_PROPERTY_GET"
  shows "\<exists>q n. idle_queue q \<and> goke_take_message g =
    send (m_receiver m) (goke_property_answer (m\<lparr>m_sequence := n\<rparr>) g) (g\<lparr>bus := (bus g)(SERVER_GOKE := q)\<rparr>)"
proof -
  from take_one [OF assms(1,3), of goke_message_filter Goke.handle_message]
  obtain q n where "idle_queue q" "goke_take_message g =
    (if goke_message_filter (m\<lparr>m_sequence := n\<rparr>) (g\<lparr>bus := (bus g)(SERVER_GOKE := q)\<rparr>) then g\<lparr>bus := (bus g)(SERVER_GOKE := q)\<rparr>
     else Goke.handle_message (m\<lparr>m_sequence := n\<rparr>) (g\<lparr>bus := (bus g)(SERVER_GOKE := q)\<rparr>))"
    unfolding goke_take_message_def by blast
  then show ?thesis
    using assms(2,4) by (intro exI [of _ q] exI [of _ n])
      (simp add: goke_message_filter_def error_filter_def Goke.handle_message_def goke_property_answer_def)
qed

lemma goke_turn_notifies:
  assumes "status (info g) = STATUS_RUN" "\<not> goke_fault g" "queue_empty SERVER_GOKE g"
  shows "bus (goke_server_turn genv g) = bus (send SERVER_AUDIO goke_notify (send SERVER_VIDEO goke_notify g))"
proof -
  let ?g = "with_info (\<lambda>x. x\<lparr>old_status := status x\<rparr>) g"
  have m: "Goke.state_machine genv ?g = ?g" "Goke.task_proc ?g = send SERVER_AUDIO goke_notify (send SERVER_VIDEO goke_notify ?g)"
    using assms(1) by (simp_all add: Goke.state_machine_def Goke.task_proc_def)
  have "queue_empty SERVER_GOKE (send SERVER_AUDIO goke_notify (send SERVER_VIDEO goke_notify ?g))"
    using assms(3) by (simp add: queue_empty_def frame_send_other_queue)
  then show ?thesis
    using assms m by (simp add: goke_server_turn_def loop_turn_def goke_message_proc_def message_proc_def Let_def send_def)
qed

text \<open>
  C39: Composition of the audio server, the goke server and the queues: the answer the running
  goke server gives to the audio server's question leaves the audio server where it was, for its
  condition is an assignment and no status is filled in; the round the question has woken
  the goke server to sends the notification that does start the audio server.
\<close>

theorem audio_starts_by_notification:
  assumes "status (info a) = STATUS_INIT" "msg_lock (info a) = 0" "init_status (info a) = 0"
    and "status (info g) = STATUS_RUN" "msg_lock (info g) = 0" "\<not> goke_fault g"
    and "idle_queue (bus a SERVER_GOKE)" "idle_queue (bus a SERVER_AUDIO)" "idle_queue (bus a SERVER_VIDEO)"
  shows "init_status (info (snd (audio_asks g env a))) = 0
    \<and> status (info (audio_server_init (snd (audio_asks g env a)))) = STATUS_INIT
    \<and> status (info (audio_server_init (snd (goke_goes_round genv env (audio_asks g env a))))) = STATUS_WAIT"
proof -
  let ?ask = "msg_init\<lparr>m_message := MSG_GOKE_PROPERTY_GET, m_sender := SERVER_AUDIO, m_receiver := SERVER_AUDIO\<rparr> :: msg"
  have a1: "audio_server_init a = send SERVER_GOKE ?ask a"
    using assms(3) by (simp add: audio_server_init_def misc_get_bit_def misc_full_bit_def)
  obtain q1 where q1: "bus (audio_server_init a) = (bus a)(SERVER_GOKE := q1)" "one_message ?ask q1"
    using idle_send [of "bus a" SERVER_GOKE ?ask] assms(7) unfolding a1 by (auto simp: is_server_def send_def)
  let ?g0 = "g\<lparr>bus := bus (audio_server_init a)\<rparr>"
  obtain q2 n where g1: "idle_queue q2" "goke_take_message ?g0 =
      send SERVER_AUDIO (goke_property_answer (?ask\<lparr>m_sequence := n\<rparr>) ?g0) (?g0\<lparr>bus := (bus ?g0)(SERVER_GOKE := q2)\<rparr>)"
    using goke_answers [of ?g0 ?ask] assms(4,5) q1 by (auto simp: msg_init_def)
  let ?ans = "goke_property_answer (?ask\<lparr>m_sequence := n\<rparr>) ?g0"
  have ans: "m_message ?ans = MSG_GOKE_PROPERTY_GET_ACK" "dog (m_arg_in ?ans) = 0"
    by (simp_all add: goke_property_answer_def arg_zero_def)
  let ?g1 = "goke_take_message ?g0"
  have "idle_queue (((bus ?g0)(SERVER_GOKE := q2)) SERVER_AUDIO)" using assms(8) q1(1) by simp
  then obtain q3 where q3: "bus ?g1 = (bus a)(SERVER_GOKE := q2, SERVER_AUDIO := q3)" "one_message ?ans q3"
    using idle_send [of "(bus ?g0)(SERVER_GOKE := q2)" SERVER_AUDIO ?ans] q1(1) unfolding g1(2) by (auto simp: is_server_def send_def)
  let ?a1 = "(audio_server_init a)\<lparr>bus := bus ?g1\<rparr>"
  have i1: "info ?a1 = info a" by (simp add: a1)
  obtain q4 where q4: "idle_queue q4" "audio_take_message env ?a1 = on_goke_status ?ans (?a1\<lparr>bus := (bus ?a1)(SERVER_AUDIO := q4)\<rparr>)"
    using audio_takes [of ?a1 ?ans env] assms(1,2) i1 ans(1) q3 by auto
  let ?a2 = "audio_take_message env ?a1"
  have a2: "info ?a2 = info a" "bus ?a2 = (bus a)(SERVER_GOKE := q2, SERVER_AUDIO := q4)"
    using q4(2) ans(2) i1 q3(1) by (simp_all add: on_goke_status_def)
  have asks: "audio_asks g env a = (?g1, ?a2)" by (simp add: audio_asks_def Let_def)
  let ?g2 = "?g1\<lparr>bus := bus ?a2\<rparr>"
  have g2: "info ?g2 = info g" "goke_fault ?g2 = goke_fault g" by (simp_all add: g1(2))
  have "queue_empty SERVER_GOKE ?g2"
    using g1(1) a2(2) ring_empty_iff [of q2] by (simp add: queue_empty_def idle_queue_def contents_def msg_buffer_is_empty_def)
  then have n1: "bus (goke_server_turn genv ?g2) = bus (send SERVER_AUDIO goke_notify (send SERVER_VIDEO goke_notify ?g2))"
    using goke_turn_notifies [of ?g2 genv] g2 assms(4,6) by simp
  have "idle_queue (bus (send SERVER_VIDEO goke_notify ?g2) SERVER_AUDIO)"
    using q4(1) a2(2) by (simp add: frame_send_other_queue)
  then obtain q5 where "bus (send SERVER_AUDIO goke_notify (send SERVER_VIDEO goke_notify ?g2)) =
      (bus (send SERVER_VIDEO goke_notify ?g2))(SERVER_AUDIO := q5)" "one_message goke_notify q5"
    using idle_send [of "bus (send SERVER_VIDEO goke_notify ?g2)" SERVER_AUDIO goke_notify] by (auto simp: is_server_def send_def)
  then have q5: "one_message goke_notify (bus (goke_server_turn genv ?g2) SERVER_AUDIO)" using n1 by simp
  let ?a3 = "?a2\<lparr>bus := bus (goke_server_turn genv ?g2)\<rparr>"
  obtain q6 where "audio_take_message env ?a3 = on_goke_status goke_notify (?a3\<lparr>bus := (bus ?a3)(SERVER_AUDIO := q6)\<rparr>)"
    using audio_takes [of ?a3 goke_notify env] assms(1,2) a2(1) q5 by (auto simp: goke_notify_def)
  then have a3: "info (audio_take_message env ?a3) = (info a)\<lparr>init_status := 1\<rparr>"
    using a2(1) assms(3) by (simp add: on_goke_status_def goke_notify_def misc_set_bit_def)
  have "snd (goke_goes_round genv env (audio_asks g env a)) = audio_take_message env ?a3"
    unfolding asks by (simp add: goke_goes_round_def Let_def)
  then show ?thesis
    using a2(1) a3 assms(1,3) unfolding asks by (simp add: audio_server_init_def misc_full_bit_def misc_get_bit_def)
qed

theorem audio_starts_by_notification_witness:
  "status (info (audio_server_init (snd (goke_goes_round \<lparr>vqe_ret = 0, sys_ret = 0, video_mirror = 0\<rparr> demo_sound
     (audio_asks (set_status STATUS_RUN demo_goke) demo_sound (set_status STATUS_INIT demo_audio)))))) = STATUS_WAIT"
  using audio_starts_by_notification [of "set_status STATUS_INIT demo_audio" "set_status STATUS_RUN demo_goke" demo_sound
      "\<lparr>vqe_ret = 0, sys_ret = 0, video_mirror = 0\<rparr>"]
  by (simp add: demo_audio_def demo_goke_def info_zero_def demo_idle)

end
