(* ===== verification/VideoInput.thy ===== *)
theory VideoInput
  imports CMisc
begin

text \<open>
  The video input of \<open>server/goke/hisi/hisi_vi.c\<close>: how its five parts are set up, started, stopped
  and taken down.  What the media library's functions for one part return is an argument; the
  functions that start a part do nothing.
\<close>

section \<open>The parts\<close>

datatype vi_part = Vi_mipi | Vi_device | Vi_isp | Vi_pipe | Vi_channel

fun vi_bit :: "vi_part \<Rightarrow> nat" where
  "vi_bit Vi_mipi = 0"
| "vi_bit Vi_device = 1"
| "vi_bit Vi_isp = 2"
| "vi_bit Vi_pipe = 3"
| "vi_bit Vi_channel = 4"

abbreviation (input) "VI_INIT_START_BUTT \<equiv> 5 :: nat"

section \<open>Set-up and start\<close>

text \<open>One part after the other, until one fails: the value, the bits and the parts that were tried.\<close>

fun vi_up :: "(vi_part \<Rightarrow> int) \<Rightarrow> vi_part list \<Rightarrow> int \<Rightarrow> int \<times> int \<times> vi_part list" where
  "vi_up ret [] info = (0, info, [])"
| "vi_up ret (p # ps) info =
     (if ret p \<noteq> 0 then (- 1, info, [p])
      else case vi_up ret ps (misc_set_bit info (vi_bit p)) of (r, info, tried) \<Rightarrow> (r, info, p # tried))"

text \<open>The device fails as well when the mode of the video input cannot be set before.\<close>

definition hisi_init_vi :: "(vi_part \<Rightarrow> int) \<Rightarrow> int \<Rightarrow> int \<Rightarrow> int \<times> int \<times> vi_part list" where
  "hisi_init_vi init_ret mode_ret info =
     vi_up (init_ret(Vi_device := mode_ret OR init_ret Vi_device)) [Vi_mipi, Vi_device, Vi_pipe, Vi_channel, Vi_isp] info"

definition vi_start_part :: "int \<Rightarrow> vi_part \<Rightarrow> int" where
  "vi_start_part info p = (if misc_get_bit info (vi_bit p) = 0 then misc_set_bit info (vi_bit p) else info)"

definition hisi_start_vi :: "int \<Rightarrow> int \<times> int" where
  "hisi_start_vi info = (0, foldl vi_start_part info [Vi_mipi, Vi_device, Vi_pipe, Vi_channel])"

section \<open>Stop and take-down\<close>

text \<open>
  Both ask the bits of \<open>info\<close> itself, which is the address of the caller's variable, and clear the
  bits in the variable.
\<close>

definition vi_down :: "(vi_part \<Rightarrow> int) \<Rightarrow> int \<Rightarrow> int \<times> int \<times> vi_part list \<Rightarrow> vi_part \<Rightarrow> int \<times> int \<times> vi_part list" where
  "vi_down ret address acc p =
     (case acc of (r, info, tried) \<Rightarrow>
        if misc_get_bit address (vi_bit p) \<noteq> 0 then (r OR ret p, misc_clear_bit info (vi_bit p), tried @ [p]) else acc)"

definition hisi_stop_vi :: "(vi_part \<Rightarrow> int) \<Rightarrow> int \<Rightarrow> int \<Rightarrow> int \<times> int \<times> vi_part list" where
  "hisi_stop_vi stop_ret address info =
     foldl (vi_down stop_ret address) (0, info, []) [Vi_isp, Vi_channel, Vi_pipe, Vi_device, Vi_mipi]"

definition hisi_uninit_vi :: "(vi_part \<Rightarrow> int) \<Rightarrow> int \<Rightarrow> int \<Rightarrow> int \<times> int \<times> vi_part list" where
  "hisi_uninit_vi uninit_ret address info =
     foldl (vi_down uninit_ret address) (0, info, []) [Vi_isp, Vi_channel, Vi_pipe, Vi_device, Vi_mipi]"

section \<open>Which parts are stopped\<close>

lemma aligned_bits:
  assumes "4 dvd (address :: int)"
  shows "\<not> bit address 0" "\<not> bit address 1"
proof -
  obtain k where k: "address = push_bit 2 k" using assms by (auto simp: push_bit_eq_mult elim: dvdE)
  then show "\<not> bit address 0" "\<not> bit address 1" by (simp_all add: bit_push_bit_iff)
qed

lemma vi_down_parts:
  "foldl (vi_down ret address) (0, info, []) [Vi_isp, Vi_channel, Vi_pipe, Vi_device, Vi_mipi] = (r, info', tried)
   \<Longrightarrow> tried = filter (\<lambda>p. bit address (vi_bit p)) [Vi_isp, Vi_channel, Vi_pipe, Vi_device, Vi_mipi]"
  by (auto simp: vi_down_def split: if_splits)

text \<open>Started from nothing, all parts but the image processor count as started.\<close>

lemma vi_starts: "hisi_start_vi 0 = (0, 27)"
  by (simp add: hisi_start_vi_def vi_start_part_def misc_set_bit_def Let_def)

lemma vi_inits:
  assumes "\<forall>p. init_ret p = 0" "mode_ret = 0"
  shows "hisi_init_vi init_ret mode_ret 0 = (0, 31, [Vi_mipi, Vi_device, Vi_pipe, Vi_channel, Vi_isp])"
  using assms by (simp add: hisi_init_vi_def misc_set_bit_def Let_def)

text \<open>
  Which parts of the video input are stopped and taken down is decided by the address of the
  variable the functions are handed, not by what is up: the mipi interface and the device never are,
  since an address of an \<open>int\<close> is a multiple of four, and the image processor is when bit 2 of the
  address is set.
\<close>

theorem vi_stopped_by_address:
  assumes "4 dvd address"
    and "(r, left, tried) \<in> {hisi_stop_vi ret address info, hisi_uninit_vi ret address info}"
  shows "Vi_mipi \<notin> set tried \<and> Vi_device \<notin> set tried \<and> (Vi_isp \<in> set tried \<longleftrightarrow> bit address 2)
    \<and> misc_get_bit left 0 = misc_get_bit info 0 \<and> misc_get_bit left 1 = misc_get_bit info 1"
proof -
  have d: "foldl (vi_down ret address) (0, info, []) [Vi_isp, Vi_channel, Vi_pipe, Vi_device, Vi_mipi] = (r, left, tried)"
    using assms(2) by (auto simp: hisi_stop_vi_def hisi_uninit_vi_def)
  have "bit left 0 = bit info 0 \<and> bit left 1 = bit info 1"
    using d aligned_bits [OF assms(1)] by (auto simp: vi_down_def split: if_splits)
  then show ?thesis using vi_down_parts [OF d] aligned_bits [OF assms(1)] by (simp add: misc_get_bit_eq)
qed

theorem vi_stopped_by_address_witness:
  "snd (snd (hisi_stop_vi (\<lambda>_. 0) 0xbefff0f8 31)) = [Vi_channel, Vi_pipe] \<and> misc_get_bit (fst (snd (hisi_stop_vi (\<lambda>_. 0) 0xbefff0f8 31))) 0 = 1"
proof -
  have v: "hisi_stop_vi (\<lambda>_. 0) 0xbefff0f8 31 = (0, 7, [Vi_channel, Vi_pipe])"
    by (simp add: hisi_stop_vi_def vi_down_def misc_clear_bit_def misc_get_bit_def)
  have "misc_get_bit 7 0 = misc_get_bit 31 0"
    using vi_stopped_by_address [where address = "0xbefff0f8" and ret = "\<lambda>_. 0" and info = 31 and r = 0 and left = 7
        and tried = "[Vi_channel, Vi_pipe]"] v by simp
  then show ?thesis using v by (simp add: misc_get_bit_def)
qed

end
