(* ===== verification/Video.thy ===== *)
theory Video
  imports MsgBlock RecorderServer Goke VideoInput
begin

text \<open>
  The video server of \<open>server/video/video.c\<close>, first part: its state, the channels it streams to,
  the threads that take the frames from the encoders, the threads around the image processor, and
  the properties.  What the media library and the cloud library return is an argument.
\<close>

section \<open>State\<close>

abbreviation (input) "VIDEO_THREAD_ENCODER \<equiv> 0 :: nat"
abbreviation (input) "VIDEO_THREAD_ISP \<equiv> 3 :: nat"
abbreviation (input) "VIDEO_THREAD_ISP_EXTRA \<equiv> 4 :: nat"
abbreviation (input) "VIDEO_THREAD_OSD \<equiv> 5 :: nat"
abbreviation (input) "VIDEO_THREAD_MD \<equiv> 6 :: nat"
abbreviation (input) "ID_HIGH \<equiv> 0 :: nat"
abbreviation (input) "ID_PIC \<equiv> 2 :: nat"
abbreviation (input) "ID_MD \<equiv> 3 :: nat"
abbreviation (input) "VIDEO_STREAM_HIGH \<equiv> 0 :: int"
abbreviation (input) "VIDEO_STREAM_LOW \<equiv> 1 :: int"
abbreviation (input) "MAX_AV_CHANNEL \<equiv> 4 :: nat"
abbreviation (input) "MAX_VIDEO_FRAME_SIZE \<equiv> 131072 :: nat"
abbreviation (input) "QOS_MAX_LATENCY \<equiv> 10000 :: int"
abbreviation (input) "LV_ERROR_DEFAULT \<equiv> - 1 :: int"
abbreviation (input) "LV_ERROR_ILLEGAL_INPUT \<equiv> - 2 :: int"

datatype payload_type = PT_H264 | PT_H265 | PT_JPEG | PT_G711A | PT_G711U | PT_AAC | PT_OTHER

text \<open>The functions of the media system the server calls.\<close>

datatype hisi_call =
    Get_chip | Vi_up vi_part | Vi_down vi_part | Vi_off vi_part
  | Init_vpss | Start_vpss | Stop_vpss | Uninit_vpss
  | Init_venc nat | Start_venc nat | Stop_venc nat | Uninit_venc nat
  | Init_snap nat | Start_snap nat | Stop_snap nat | Uninit_snap nat
  | Osd_init | Osd_exit | Init_md | Uninit_md | Od_init | Od_uninit
  | Get_md_attr | Set_md_attr | Set_vpss_chn nat

text \<open>What the cloud is told of a stream before its first frame; zero where the code sets nothing.\<close>

record stream_config_t =
  sc_video_format :: int
  sc_fps :: int
  sc_audio_format :: int
  sc_sample_rate :: int
  sc_sample_bits :: int
  sc_bitrate :: int

text \<open>What the server does outside of its own state, oldest first.\<close>

datatype video_call =
    Hisi hisi_call int
  | Create_thread nat int
  | Send_config int stream_config_t
  | Send_media int bytes av_data_info_t int
  | Save_config
  | Sync_property int int
  | Ircut_day | Ircut_night | Ircut_release
  | Md_threshold int
  | Snap_start int | Snap_trigger int | Snap_got | Snap_released int | Snap_stop int
  | Snap_file string bytes | Post_picture int bytes | Post_alarm int bytes

record video_running_info_t =
  vi_init :: int
  vi_start :: int
  vpss_init :: bool
  vpss_start :: bool
  venc_init :: "bool list"
  venc_start :: "bool list"
  region_init :: bool
  region_start :: bool
  md_init :: bool
  md_start :: bool
  md_run :: bool

datatype channel_status_t = CHANNEL_EMPTY | CHANNEL_VALID

text \<open>\<open>vc_qos\<close> is \<open>qos_sucess\<close>, kept as the bits of the time stamp that is stored in it.\<close>

record video_channel_t =
  vc_status :: channel_status_t
  vc_type :: int
  vc_stream :: int
  vc_service :: int
  vc_require_key :: bool
  vc_qos :: u32

text \<open>The members of \<open>_config_\<close> the server reads and writes; all but the plan are bytes.\<close>

record video_settings =
  video_quality :: int
  subvideo_quality :: int
  alarm_switch :: int
  motion_detect_sensitivity :: int
  alarm_freqency :: int
  mirror :: int
  day_night :: int
  motion_scheduler :: "(int \<times> int) list"
  motion_scheduler_enable :: int
  osd_enable :: int
  wdr_enable :: int
  image_correct :: int
  smd_enable :: int

text \<open>
  \<open>v_config\<close>, \<open>payloads\<close>, \<open>ldc\<close>, \<open>sad_thresh\<close> and \<open>alarm_interval\<close> are of the global
  \<open>video_config\<close>; \<open>snap_buff\<close> is the queue of the snapshot thread, \<open>video_rec_buff\<close> the recorder's
  queues for video frames.
\<close>

record video_server = server_state +
  v_running :: video_running_info_t
  v_channels :: "video_channel_t list"
  v_config :: video_config_t
  payloads :: "payload_type list"
  ldc :: bool
  sad_thresh :: "int list"
  alarm_interval :: "int list"
  settings :: video_settings
  last_report :: u64
  para_set :: bool
  snap_buff :: queue
  video_rec_buff :: "queue list"
  video_calls :: "video_call list"
  video_fault :: bool

abbreviation "video_do c s \<equiv> s\<lparr>video_calls := video_calls s @ [c]\<rparr>"
abbreviation "with_running f s \<equiv> s\<lparr>v_running := f (v_running s)\<rparr>"
abbreviation "with_settings f s \<equiv> s\<lparr>settings := f (settings s)\<rparr>"
abbreviation "video_fails s \<equiv> s\<lparr>video_fault := True\<rparr>"
abbreviation "set_channel i c s \<equiv> s\<lparr>v_channels := (v_channels s)[i := c]\<rparr>"

section \<open>Channels\<close>

text \<open>The index of the first channel that satisfies \<open>P\<close>, or -1.\<close>

fun first_channel :: "(video_channel_t \<Rightarrow> bool) \<Rightarrow> int \<Rightarrow> video_channel_t list \<Rightarrow> int" where
  "first_channel P i [] = - 1"
| "first_channel P i (c # cs) = (if P c then i else first_channel P (i + 1) cs)"

definition channel_of :: "int \<Rightarrow> int \<Rightarrow> video_channel_t \<Rightarrow> bool" where
  "channel_of sid ty c = (vc_service c = sid \<and> vc_type c = ty \<and> vc_status c = CHANNEL_VALID)"

definition get_old_channel :: "int \<Rightarrow> int \<Rightarrow> video_channel_t list \<Rightarrow> int" where
  "get_old_channel sid ty chs = first_channel (channel_of sid ty) 0 chs"

definition get_new_channel :: "int \<Rightarrow> int \<Rightarrow> video_channel_t list \<Rightarrow> int \<times> video_channel_t list" where
  "get_new_channel sid ty chs =
     (let i = first_channel (channel_of sid ty) 0 chs in
      if i \<noteq> - 1 then (i, chs)
      else let i = first_channel (\<lambda>c. vc_status c \<noteq> CHANNEL_VALID) 0 chs in
        if i \<noteq> - 1 then
          (i, chs[nat i := (chs ! nat i)\<lparr>vc_service := sid, vc_type := ty, vc_status := CHANNEL_VALID\<rparr>])
        else (- 1, chs))"

text \<open>What the audio server asks before it sends: 0 when the first channel of the service has its key frame.\<close>

definition audio_video_synchronize :: "video_channel_t list \<Rightarrow> int \<Rightarrow> int" where
  "audio_video_synchronize chs sid =
     (let i = first_channel (\<lambda>c. vc_service c = sid \<and> vc_status c = CHANNEL_VALID) 0 chs in
      if i \<noteq> - 1 then (if vc_require_key (chs ! nat i) then 1 else 0) else 1)"

section \<open>The stream threads\<close>

text \<open>The audio server's configuration, of which the cloud is told as well.\<close>

record audio_settings =
  a_payload :: payload_type
  a_bits :: int
  a_rate :: int

definition init_visual_stream_config :: "audio_settings \<Rightarrow> video_channel_t \<Rightarrow> video_server \<Rightarrow> stream_config_t" where
  "init_visual_stream_config a c s =
     \<lparr>sc_video_format = (if payloads s ! nat (vc_stream c) = PT_H265 then 1 else 0),
      sc_fps = frame_rate (streams (v_config s) ! nat (vc_stream c)),
      sc_audio_format = (case a_payload a of PT_G711A \<Rightarrow> 1 | PT_G711U \<Rightarrow> 3 | PT_AAC \<Rightarrow> 2 | _ \<Rightarrow> 0),
      sc_sample_rate = (if a_rate a = 8000 then 11 else if a_rate a = 16000 then 8 else 0),
      sc_sample_bits = (if a_bits a = 16 then 1 else 0),
      sc_bitrate = (if vc_stream c = VIDEO_STREAM_HIGH then 1536 else 512)\<rparr>"

text \<open>What one turn of the thread's loop meets; \<open>packs\<close> are the bytes of the packs of a frame.\<close>

datatype select_result = Select_failed | Select_timeout | Select_other | Select_frame

record stream_env =
  selected :: select_result
  query_status :: int
  cur_packs :: nat
  pack_malloc_ok :: bool
  get_stream :: int
  packs :: "bytes list"
  data_malloc_ok :: bool
  release_stream :: int
  frame_seq :: u32
  now_ms :: u64
  universal_tag :: u64
  send_media :: "nat \<Rightarrow> int"
  audio_set :: audio_settings

text \<open>What the thread read from its encoder when it started.\<close>

record stream_info =
  si_width :: u32
  si_height :: u32
  si_fps :: u32

datatype stream_next = Stream_on | Stream_leaves | Stream_lost | Stream_faults

definition video_thread_termination :: "video_server \<Rightarrow> video_server" where
  "video_thread_termination =
     send SERVER_MANAGER (msg_init\<lparr>m_message := MSG_VIDEO_SIGINT, m_sender := SERVER_VIDEO, m_receiver := SERVER_VIDEO\<rparr>)"

text \<open>The stream thread hands its frames to the recorder only.\<close>

definition write_video_buffer :: "av_data_info_t \<Rightarrow> bytes \<Rightarrow> int \<Rightarrow> video_server \<Rightarrow> video_server" where
  "write_video_buffer avinfo data sid s =
     (case server_recorder_video_message (video_rec_buff s)
        (msg_init\<lparr>m_message := MSG_RECORDER_VIDEO_DATA, m_sender := SERVER_VIDEO, m_receiver := SERVER_VIDEO,
          m_arg_in := arg_zero\<lparr>wolf := sid\<rparr>, m_arg := Some (P_bytes data), m_arg_size := uint (av_size avinfo),
          m_extra := Some (P_av_info avinfo), m_extra_size := 56\<rparr>) of
        None \<Rightarrow> video_fails s
      | Some (ret, buffs) \<Rightarrow> s\<lparr>video_rec_buff := buffs\<rparr>)"

text \<open>
  The channel after a frame the cloud answered with \<open>ret\<close>.  The latency is a difference of 32-bit
  numbers.
\<close>

definition after_send :: "int \<Rightarrow> u32 \<Rightarrow> video_channel_t \<Rightarrow> video_channel_t" where
  "after_send ret stamp c =
     (if ret \<noteq> 0 then
        let c = (if ret = LV_ERROR_DEFAULT \<or> ret = LV_ERROR_ILLEGAL_INPUT then c\<lparr>vc_status := CHANNEL_EMPTY\<rparr> else c) in
        (if vc_qos c \<noteq> 0 \<and> sint (stamp - vc_qos c) > QOS_MAX_LATENCY then c\<lparr>vc_status := CHANNEL_EMPTY\<rparr> else c)
      else c\<lparr>vc_qos := stamp, vc_require_key := False\<rparr>)"

definition deliver_frame :: "stream_env \<Rightarrow> av_data_info_t \<Rightarrow> bytes \<Rightarrow> nat \<Rightarrow> nat \<Rightarrow> video_server \<Rightarrow> video_server" where
  "deliver_frame env avinfo data ch i s =
     (let c = v_channels s ! i in
      if vc_status c \<noteq> CHANNEL_VALID \<or> vc_stream c \<noteq> int ch then s
      else if vc_type c = SERVER_RECORDER then write_video_buffer avinfo data (vc_service c) s
      else if vc_type c = SERVER_ALIYUN then
        (if vc_require_key c \<and> av_key_frame avinfo = 0 then s
         else
           let s = (if vc_require_key c then video_do (Send_config (vc_service c) (init_visual_stream_config (audio_set env) c s)) s
                    else s) in
           set_channel i (after_send (send_media env i) (av_timestamp avinfo) c)
             (video_do (Send_media (vc_service c) data avinfo (send_media env i)) s))
      else s)"

text \<open>The fields of \<open>avinfo\<close> the thread does not set are left over from before: \<open>scrap\<close>.\<close>

definition frame_info :: "av_data_info_t \<Rightarrow> stream_info \<Rightarrow> nat \<Rightarrow> stream_env \<Rightarrow> av_data_info_t" where
  "frame_info scrap si ch env = scrap\<lparr>av_flag := 0, av_frame_index := frame_seq env,
     av_timestamp := ucast (now_ms env - universal_tag env), av_fps := si_fps si, av_width := si_width si,
     av_height := si_height si, av_size := of_nat (length (concat (packs env))), av_source := 0,
     av_channel := (if ch \<noteq> 0 then 1 else 0), av_type := 0,
     av_key_frame := word_of_int (h264_is_iframe (concat (packs env) ! 4))\<rparr>"

definition stream_frame :: "av_data_info_t \<Rightarrow> stream_info \<Rightarrow> nat \<Rightarrow> stream_env \<Rightarrow> video_server \<Rightarrow> video_server" where
  "stream_frame scrap si ch env s =
     foldl (\<lambda>s i. deliver_frame env (frame_info scrap si ch env) (concat (packs env)) ch i s) s [0..<MAX_AV_CHANNEL]"

text \<open>
  One turn of the loop.  A frame that is too long, or for which there is no memory, is released
  without being sent; the fifth byte of a frame is read whatever its length.
\<close>

definition stream_turn :: "av_data_info_t \<Rightarrow> stream_info \<Rightarrow> nat \<Rightarrow> stream_env \<Rightarrow> video_server \<Rightarrow> stream_next \<times> video_server" where
  "stream_turn scrap si ch env s =
     (if exit_flag (info s) \<noteq> 0 \<or> misc_get_bit (thread_exit (info s)) (VIDEO_THREAD_ENCODER + ch) \<noteq> 0 then (Stream_leaves, s)
      else if status (info s) \<noteq> STATUS_RUN then (Stream_on, s)
      else case selected env of
        Select_failed \<Rightarrow> (Stream_leaves, s)
      | Select_timeout \<Rightarrow> (Stream_on, s)
      | Select_other \<Rightarrow> (Stream_on, s)
      | Select_frame \<Rightarrow>
          let release = (if release_stream env \<noteq> 0 then Stream_leaves else Stream_on) in
          if query_status env \<noteq> 0 then (Stream_leaves, s)
          else if cur_packs env = 0 then (Stream_on, s)
          else if \<not> pack_malloc_ok env then (Stream_leaves, s)
          else if get_stream env \<noteq> 0 then (Stream_leaves, s)
          else if length (concat (packs env)) > MAX_VIDEO_FRAME_SIZE \<or> \<not> data_malloc_ok env then (release, s)
          else if length (concat (packs env)) \<le> 4 then (Stream_faults, video_fails s)
          else (release, stream_frame scrap si ch env s))"

text \<open>A thread that begins sets its bit, a thread that ends clears it; both leave the server a dummy.\<close>

definition video_thread_begins :: "nat \<Rightarrow> video_server \<Rightarrow> video_server" where
  "video_thread_begins i s =
     (let s = with_info (\<lambda>x. x\<lparr>thread_start := misc_set_bit (thread_start x) i\<rparr>) s in
      s\<lparr>bus := global_common_send_dummy (bus s) SERVER_VIDEO\<rparr>)"

definition video_thread_ends :: "nat \<Rightarrow> video_server \<Rightarrow> video_server" where
  "video_thread_ends i s =
     (let s = with_info (\<lambda>x. x\<lparr>thread_start := misc_clear_bit (thread_start x) i\<rparr>) s in
      s\<lparr>bus := global_common_send_dummy (bus s) SERVER_VIDEO\<rparr>)"

text \<open>
  The thread up to its loop: without the encoder's attributes it ends at once, without a descriptor
  it returns with its bit set.
\<close>

definition stream_begins :: "nat \<Rightarrow> int \<Rightarrow> int \<Rightarrow> video_server \<Rightarrow> stream_next \<times> video_server" where
  "stream_begins ch attr_ret fd s =
     (let s = video_thread_begins (VIDEO_THREAD_ENCODER + ch) s in
      if attr_ret \<noteq> 0 then (Stream_leaves, video_thread_ends (VIDEO_THREAD_ENCODER + ch) s)
      else if fd < 0 then (Stream_lost, s)
      else (Stream_on, s))"

definition video_stream_func ::
  "av_data_info_t \<Rightarrow> stream_info \<Rightarrow> nat \<Rightarrow> stream_env \<Rightarrow> video_server \<Rightarrow> stream_next \<times> video_server" where
  "video_stream_func scrap si ch env s =
     (case stream_turn scrap si ch env s of
        (Stream_leaves, s) \<Rightarrow> (Stream_leaves, video_thread_ends (VIDEO_THREAD_ENCODER + ch) s)
      | (next, s) \<Rightarrow> (next, s))"

section \<open>The other threads\<close>

definition thread_told :: "nat \<Rightarrow> video_server \<Rightarrow> bool" where
  "thread_told i s = (exit_flag (info s) \<noteq> 0 \<or> misc_get_bit (thread_exit (info s)) i \<noteq> 0)"

text \<open>The image processor's thread is inside \<open>MPI_ISP_Run\<close> until that returns; no exit bit ends it.\<close>

definition video_isp_func :: "bool \<Rightarrow> video_server \<Rightarrow> bool \<times> video_server" where
  "video_isp_func run_returns s = (if run_returns then (False, video_thread_ends VIDEO_THREAD_ISP s) else (True, s))"

text \<open>One turn of the loops beside it; \<open>proc_ret\<close> is what the work of the turn returned.\<close>

definition video_isp_extra_func :: "int \<Rightarrow> video_server \<Rightarrow> bool \<times> video_server" where
  "video_isp_extra_func proc_ret s =
     (if thread_told VIDEO_THREAD_ISP_EXTRA s then (False, video_thread_ends VIDEO_THREAD_ISP_EXTRA s)
      else if status (info s) \<noteq> STATUS_RUN \<or> misc_get_bit (thread_start (info s)) VIDEO_THREAD_ISP = 0 then (True, s)
      else if proc_ret \<noteq> 0 then (False, video_thread_ends VIDEO_THREAD_ISP_EXTRA s)
      else (True, s))"

definition video_osd_func :: "int \<Rightarrow> video_server \<Rightarrow> bool \<times> video_server" where
  "video_osd_func proc_ret s =
     (if thread_told VIDEO_THREAD_OSD s then (False, video_thread_ends VIDEO_THREAD_OSD s)
      else if status (info s) \<noteq> STATUS_RUN then (True, s)
      else if proc_ret = 0 then (False, video_thread_ends VIDEO_THREAD_OSD s)
      else (True, s))"

section \<open>Properties\<close>

abbreviation (input) "VIDEO_PROPERTY_NIGHT_SHOT \<equiv> 0x0002 :: int"
abbreviation (input) "VIDEO_PROPERTY_TIME_WATERMARK \<equiv> 0x0003 :: int"
abbreviation (input) "VIDEO_PROPERTY_IMAGE_FLIP \<equiv> 0x0004 :: int"
abbreviation (input) "VIDEO_PROPERTY_MOTION_SWITCH \<equiv> 0x0010 :: int"
abbreviation (input) "VIDEO_PROPERTY_MOTION_ALARM_INTERVAL \<equiv> 0x0011 :: int"
abbreviation (input) "VIDEO_PROPERTY_MOTION_SENSITIVITY \<equiv> 0x0012 :: int"
abbreviation (input) "VIDEO_PROPERTY_MOTION_PLAN \<equiv> 0x0013 :: int"
abbreviation (input) "VIDEO_PROPERTY_QUALITY \<equiv> 0x0020 :: int"
abbreviation (input) "VIDEO_PROPERTY_SUBQUALITY \<equiv> 0x0021 :: int"
abbreviation (input) "VIDEO_PROPERTY_WDR \<equiv> 0x0022 :: int"
abbreviation (input) "VIDEO_PROPERTY_IMAGE_CORRECTION \<equiv> 0x0023 :: int"

text \<open>What the media library returns, and what the server's start and exit depend on beside it.\<close>

record video_env =
  v_hisi :: "hisi_call \<Rightarrow> int"
  v_create :: "nat \<Rightarrow> int"
  chip_known :: bool
  vi_mode :: int
  stop_value :: int
  stop_address :: int
  uninit_address :: int
  stack_info :: int
  stack_temp :: int
  stack_msg :: "msg option"
  now :: int
  local_time :: "int \<Rightarrow> tm"
  week_day :: "int \<Rightarrow> nat"
  alarm_length :: int

definition hisi_do :: "video_env \<Rightarrow> hisi_call \<Rightarrow> video_server \<Rightarrow> video_server" where
  "hisi_do env c s = video_do (Hisi c (v_hisi env c)) s"

text \<open>A byte of the configuration that is changed, saved and reported to the cloud.\<close>

definition set_byte ::
  "int \<Rightarrow> msg \<Rightarrow> (video_settings \<Rightarrow> int) \<Rightarrow> (int \<Rightarrow> video_settings \<Rightarrow> video_settings) \<Rightarrow> video_server \<Rightarrow> video_server" where
  "set_byte temp m get upd s =
     (let s = (if get (settings s) \<noteq> temp then video_do Save_config (with_settings (upd (temp mod 256)) s) else s) in
      video_do (Sync_property (wolf (m_arg_in m)) (get (settings s))) s)"

text \<open>A change of quality moves the channels of the cloud to the other stream, from its next key frame on.\<close>

definition change_quality :: "int \<Rightarrow> video_channel_t \<Rightarrow> video_channel_t" where
  "change_quality val c =
     (if vc_status c = CHANNEL_VALID \<and> vc_type c = SERVER_ALIYUN \<and> val \<noteq> vc_stream c
      then c\<lparr>vc_stream := val, vc_require_key := True\<rparr> else c)"

text \<open>The threshold is read from a table of six with the number the message brings.\<close>

definition set_sensitivity :: "video_env \<Rightarrow> int \<Rightarrow> video_server \<Rightarrow> video_server" where
  "set_sensitivity env temp s =
     (if temp \<noteq> motion_detect_sensitivity (settings s) \<and> status (info s) = STATUS_RUN then
        let s = hisi_do env Get_md_attr s in
        if v_hisi env Get_md_attr \<noteq> 0 then s
        else if temp < 0 \<or> temp \<ge> 6 then video_fails s
        else
          let s = hisi_do env Set_md_attr (video_do (Md_threshold ((sad_thresh s ! nat temp * 2) mod 65536)) s) in
          if v_hisi env Set_md_attr = 0
          then video_do Save_config (with_settings (\<lambda>c. c\<lparr>motion_detect_sensitivity := temp mod 256\<rparr>) s) else s
      else s)"

text \<open>The channels are flipped one after the other; the one that refuses keeps the old value.\<close>

definition set_mirror :: "nat \<Rightarrow> int \<Rightarrow> video_server \<Rightarrow> video_server" where
  "set_mirror i v s = s\<lparr>v_config := (v_config s)\<lparr>vpss_channels :=
     (vpss_channels (v_config s))[i := (vpss_channels (v_config s) ! i)\<lparr>chn_mirror := v\<rparr>]\<rparr>\<rparr>"

fun flip_channels :: "video_env \<Rightarrow> int \<Rightarrow> nat list \<Rightarrow> video_server \<Rightarrow> bool \<times> video_server" where
  "flip_channels env temp [] s = (True, s)"
| "flip_channels env temp (i # is) s =
     (if \<not> chn_enabled (vpss_channels (v_config s) ! i) then flip_channels env temp is s
      else
        let s = set_mirror i temp s in
        if status (info s) \<noteq> STATUS_RUN then flip_channels env temp is s
        else
          let s = hisi_do env (Set_vpss_chn i) s in
          if v_hisi env (Set_vpss_chn i) \<noteq> 0 then (False, set_mirror i (mirror (settings s)) s)
          else flip_channels env temp is s)"

definition set_flip :: "video_env \<Rightarrow> int \<Rightarrow> video_server \<Rightarrow> video_server" where
  "set_flip env temp s =
     (if mirror (settings s) \<noteq> temp then
        (case flip_channels env temp [0..<VPSS_MAX_PHY_CHN_NUM] s of
           (True, s) \<Rightarrow> video_do Save_config (with_settings (\<lambda>c. c\<lparr>mirror := temp mod 256\<rparr>) s)
         | (False, s) \<Rightarrow> s)
      else s)"

definition set_night_shot :: "int \<Rightarrow> video_server \<Rightarrow> video_server" where
  "set_night_shot temp s =
     (if temp \<noteq> day_night (settings s) then
        let s = (if temp = 0 then video_do Ircut_day s else if temp = 1 then video_do Ircut_night s else s);
            s = send SERVER_MANAGER (msg_init\<lparr>m_message := MSG_MANAGER_TIMER_ADD, m_sender := SERVER_VIDEO,
              m_arg_in := arg_zero\<lparr>cat := 200, dog := 0, duck := 1, handler := H_ircut_opt_release\<rparr>\<rparr>) s in
        video_do Save_config (with_settings (\<lambda>c. c\<lparr>day_night := temp mod 256\<rparr>) s)
      else s)"

text \<open>One day of the plan of the motion detection, or the end of the plan; the day is not checked.\<close>

definition set_motion_plan :: "msg \<Rightarrow> video_server \<Rightarrow> video_server" where
  "set_motion_plan m s =
     (let day = dog (m_arg_in m) in
      if day \<noteq> - 1 then
        (if day < 0 \<or> day \<ge> 7 then video_fails s
         else video_do Save_config (with_settings (\<lambda>c. c\<lparr>motion_scheduler :=
           (motion_scheduler c)[nat day := (chick (m_arg_in m), duck (m_arg_in m))], motion_scheduler_enable := 1\<rparr>) s))
      else video_do Save_config (with_settings (\<lambda>c. c\<lparr>motion_scheduler_enable := 0, motion_scheduler := replicate 7 (0, 0)\<rparr>) s))"

text \<open>The call that would correct the image is commented out, and only the setting changes.\<close>

definition set_image_correct :: "int \<Rightarrow> video_server \<Rightarrow> video_server" where
  "set_image_correct temp s =
     (if temp \<noteq> image_correct (settings s)
      then video_do Save_config (with_settings (\<lambda>c. c\<lparr>image_correct := temp mod 256\<rparr>) (s\<lparr>ldc := (temp \<noteq> 0)\<rparr>))
      else s)"

text \<open>
  The report of a property to the cloud: its device and its value.  The name it is reported under is
  the text of the request (\<open>msg->extra\<close>), passed on as it is and left out here.
\<close>

definition report :: "msg \<Rightarrow> (video_settings \<Rightarrow> int) \<Rightarrow> video_server \<Rightarrow> video_server" where
  "report m get s = video_do (Sync_property (wolf (m_arg_in m)) (get (settings s))) s"

definition set_quality :: "int \<Rightarrow> video_server \<Rightarrow> video_server" where
  "set_quality temp s =
     (if video_quality (settings s) \<noteq> temp
      then s\<lparr>v_channels := map (change_quality (if temp > 0 then VIDEO_STREAM_HIGH else VIDEO_STREAM_LOW)) (v_channels s)\<rparr> else s)"

text \<open>A set without its block reads through a null pointer; the plan and unknown properties have none.\<close>

definition video_set_property :: "video_env \<Rightarrow> msg \<Rightarrow> video_server \<Rightarrow> video_server" where
  "video_set_property env m s =
     (let k = cat (m_arg_in m) in
      if k = VIDEO_PROPERTY_MOTION_PLAN then set_motion_plan m s
      else if k \<notin> {VIDEO_PROPERTY_QUALITY, VIDEO_PROPERTY_SUBQUALITY, VIDEO_PROPERTY_MOTION_SWITCH, VIDEO_PROPERTY_MOTION_SENSITIVITY,
        VIDEO_PROPERTY_MOTION_ALARM_INTERVAL, VIDEO_PROPERTY_IMAGE_FLIP, VIDEO_PROPERTY_NIGHT_SHOT, VIDEO_PROPERTY_TIME_WATERMARK,
        VIDEO_PROPERTY_WDR, VIDEO_PROPERTY_IMAGE_CORRECTION} then s
      else case m_arg m of
        Some (P_int temp) \<Rightarrow>
          if k = VIDEO_PROPERTY_QUALITY then
            set_byte temp m video_quality (\<lambda>v c. c\<lparr>video_quality := v\<rparr>) (set_quality temp s)
          else if k = VIDEO_PROPERTY_SUBQUALITY then set_byte temp m subvideo_quality (\<lambda>v c. c\<lparr>subvideo_quality := v\<rparr>) s
          else if k = VIDEO_PROPERTY_MOTION_SWITCH then set_byte temp m alarm_switch (\<lambda>v c. c\<lparr>alarm_switch := v\<rparr>) s
          else if k = VIDEO_PROPERTY_MOTION_SENSITIVITY then report m motion_detect_sensitivity (set_sensitivity env temp s)
          else if k = VIDEO_PROPERTY_MOTION_ALARM_INTERVAL then set_byte temp m alarm_freqency (\<lambda>v c. c\<lparr>alarm_freqency := v\<rparr>) s
          else if k = VIDEO_PROPERTY_IMAGE_FLIP then report m mirror (set_flip env temp s)
          else if k = VIDEO_PROPERTY_NIGHT_SHOT then report m day_night (set_night_shot temp s)
          else if k = VIDEO_PROPERTY_TIME_WATERMARK then set_byte temp m osd_enable (\<lambda>v c. c\<lparr>osd_enable := v\<rparr>) s
          else if k = VIDEO_PROPERTY_WDR then set_byte temp m wdr_enable (\<lambda>v c. c\<lparr>wdr_enable := v\<rparr>) s
          else report m image_correct (set_image_correct temp s)
      | _ \<Rightarrow> video_fails s)"

end
