(* ===== verification/VideoServer.thy ===== *)
theory VideoServer
  imports Video
begin

text \<open>
  The video server of \<open>server/video/video.c\<close>, second part: the plan of the motion detection, the
  set-up, start, stop and take-down of the media system, the message handler, the state machine,
  the task and the loop.
\<close>

section \<open>The plan of the motion detection\<close>

text \<open>The value is 0 when the detection is on now.\<close>

definition video_md_check_scheduler_time :: "video_env \<Rightarrow> video_settings \<Rightarrow> int" where
  "video_md_check_scheduler_time env c =
     (if motion_scheduler_enable c = 0 then 0
      else
        let t = local_time env (now env); (begins, ends) = motion_scheduler c ! week_day env (now env);
            ts = tm_hour t * 3600 + tm_min t * 60 + tm_sec t in
        if ends \<noteq> 0 then (if ts \<ge> begins \<and> ts \<le> ends then 0 else 1) else 1)"

definition video_md_check_scheduler :: "video_env \<Rightarrow> video_server \<Rightarrow> video_server" where
  "video_md_check_scheduler env s =
     with_running (\<lambda>r. r\<lparr>md_run := (video_md_check_scheduler_time env (settings s) = 0)\<rparr>) s"

section \<open>Set-up\<close>

abbreviation "enabled i s \<equiv> enable (streams (v_config s) ! i)"

definition running_zero :: video_running_info_t where
  "running_zero = \<lparr>vi_init = 0, vi_start = 0, vpss_init = False, vpss_start = False,
     venc_init = replicate 3 False, venc_start = replicate 3 False, region_init = False, region_start = False,
     md_init = False, md_start = False, md_run = False\<rparr>"

text \<open>The goke server's code again, which also decides on the correction of the image.\<close>

definition video_adjust_parameters :: "video_server \<Rightarrow> int \<times> video_server" where
  "video_adjust_parameters s =
     (case goke_adjust_video_parameters (mirror (settings s)) (v_config s) of
        None \<Rightarrow> (- 1, video_fails s)
      | Some (ret, c) \<Rightarrow>
          (ret, s\<lparr>v_config := c, ldc := (if list_ex enable (streams (v_config s)) then image_correct (settings s) \<noteq> 0 else ldc s)\<rparr>))"

text \<open>A call of the media system, and a stage, whose success sets a flag.\<close>

definition stage :: "video_env \<Rightarrow> hisi_call \<Rightarrow> (video_running_info_t \<Rightarrow> video_running_info_t) \<Rightarrow> video_server \<Rightarrow> int \<times> video_server" where
  "stage env c upd s =
     (if v_hisi env c \<noteq> 0 then (v_hisi env c, hisi_do env c s) else (0, with_running upd (hisi_do env c s)))"

definition only_if :: "(video_server \<Rightarrow> bool) \<Rightarrow> (video_server \<Rightarrow> int \<times> video_server) \<Rightarrow> video_server \<Rightarrow> int \<times> video_server" where
  "only_if b f s = (if b s then f s else (0, s))"

definition check_chip :: "video_env \<Rightarrow> video_server \<Rightarrow> int \<times> video_server" where
  "check_chip env s = (if v_hisi env Get_chip \<noteq> 0 \<or> \<not> chip_known env then (- 1, hisi_do env Get_chip s) else (0, hisi_do env Get_chip s))"

definition log_parts :: "video_env \<Rightarrow> (vi_part \<Rightarrow> hisi_call) \<Rightarrow> vi_part list \<Rightarrow> video_server \<Rightarrow> video_server" where
  "log_parts env c ps s = foldl (\<lambda>s p. hisi_do env (c p) s) s ps"

definition init_vi :: "video_env \<Rightarrow> video_server \<Rightarrow> int \<times> video_server" where
  "init_vi env s =
     (case hisi_init_vi (\<lambda>p. v_hisi env (Vi_up p)) (vi_mode env) 0 of (ret, bits, tried) \<Rightarrow>
        let s = log_parts env Vi_up tried s in
        if ret \<noteq> 0 then (ret, s) else (0, with_running (\<lambda>r. r\<lparr>vi_init := bits\<rparr>) s))"

definition init_encoder :: "video_env \<Rightarrow> nat \<Rightarrow> video_server \<Rightarrow> int \<times> video_server" where
  "init_encoder env i =
     only_if (\<lambda>s. enabled i s) (\<lambda>s. stage env (if payloads s ! i \<noteq> PT_JPEG then Init_venc i else Init_snap i)
       (\<lambda>r. r\<lparr>venc_init := (venc_init r)[i := True]\<rparr>) s)"

text \<open>What \<open>goke_osd_init\<close> returns is not looked at.\<close>

definition init_region :: "video_env \<Rightarrow> video_server \<Rightarrow> int \<times> video_server" where
  "init_region env s = (0, with_running (\<lambda>r. r\<lparr>region_init := True\<rparr>) (hisi_do env Osd_init s))"

text \<open>The threshold is read from a table of six; the human detection is set up whatever became of the motion detection.\<close>

definition init_motion :: "video_env \<Rightarrow> video_server \<Rightarrow> int \<times> video_server" where
  "init_motion env s =
     (if motion_detect_sensitivity (settings s) \<ge> 6 then (- 1, video_fails s)
      else
        let s = video_do (Md_threshold (sad_thresh s ! nat (motion_detect_sensitivity (settings s)) * 2)) s;
            s = hisi_do env Init_md s;
            ret = v_hisi env Init_md;
            (ret, s) = (if smd_enable (settings s) \<noteq> 0 then (ret OR v_hisi env Od_init, hisi_do env Od_init s) else (ret, s)) in
        if ret \<noteq> 0 then (ret, s)
        else (0, with_running (\<lambda>r. r\<lparr>md_init := True, md_run := False\<rparr>)
          (send SERVER_MANAGER (msg_init\<lparr>m_message := MSG_MANAGER_TIMER_ADD, m_sender := SERVER_VIDEO,
             m_arg_in := arg_zero\<lparr>cat := 1000, dog := 0, duck := 0, handler := H_video_md_check_scheduler\<rparr>\<rparr>) s)))"

definition video_init :: "video_env \<Rightarrow> video_server \<Rightarrow> int \<times> video_server" where
  "video_init env s =
     andthen (\<lambda>s. case video_adjust_parameters s of (ret, s) \<Rightarrow> (if ret \<noteq> 0 then - 1 else 0, s))
      (andthen (check_chip env)
      (andthen (init_vi env)
      (andthen (stage env Init_vpss (\<lambda>r. r\<lparr>vpss_init := True\<rparr>))
      (andthen (init_encoder env 0)
      (andthen (init_encoder env 1)
      (andthen (init_encoder env 2)
      (andthen (init_region env)
        (only_if (\<lambda>s. enabled ID_MD s) (init_motion env))))))))) (s\<lparr>v_running := running_zero\<rparr>)"

section \<open>Start\<close>

definition create_thread :: "video_env \<Rightarrow> nat \<Rightarrow> (video_running_info_t \<Rightarrow> video_running_info_t) \<Rightarrow> video_server \<Rightarrow> int \<times> video_server" where
  "create_thread env i upd s =
     (let s = video_do (Create_thread i (v_create env i)) s in
      if v_create env i \<noteq> 0 then (v_create env i, s) else (0, with_running upd s))"

definition set_isp_bit :: "video_running_info_t \<Rightarrow> video_running_info_t" where
  "set_isp_bit r = r\<lparr>vi_start := misc_set_bit (vi_start r) (vi_bit Vi_isp)\<rparr>"

definition start_vi :: "video_env \<Rightarrow> video_server \<Rightarrow> int \<times> video_server" where
  "start_vi env =
     andthen (\<lambda>s. case hisi_start_vi 0 of (ret, bits) \<Rightarrow>
         if ret \<noteq> 0 then (ret, s) else (0, with_running (\<lambda>r. r\<lparr>vi_start := bits\<rparr>) s))
      (andthen (create_thread env VIDEO_THREAD_ISP set_isp_bit)
        (create_thread env VIDEO_THREAD_ISP_EXTRA set_isp_bit))"

text \<open>An encoder whose thread cannot be created is stopped again.\<close>

definition start_encoder :: "video_env \<Rightarrow> nat \<Rightarrow> video_server \<Rightarrow> int \<times> video_server" where
  "start_encoder env i s =
     (let (up, down) = (if payloads s ! i \<noteq> PT_JPEG then (Start_venc i, Stop_venc i) else (Start_snap i, Stop_snap i));
          s = hisi_do env up s in
      if v_hisi env up \<noteq> 0 then (v_hisi env up, s)
      else
        let s = video_do (Create_thread i (v_create env i)) s in
        if v_create env i \<noteq> 0 then (v_create env i, hisi_do env down s)
        else (0, with_running (\<lambda>r. r\<lparr>venc_start := (venc_start r)[i := True]\<rparr>) s))"

definition encoder_idle :: "nat \<Rightarrow> video_server \<Rightarrow> bool" where
  "encoder_idle i s = (enabled i s \<and> \<not> venc_start (v_running s) ! i)"

definition video_start :: "video_env \<Rightarrow> video_server \<Rightarrow> int \<times> video_server" where
  "video_start env =
     andthen (only_if (\<lambda>s. misc_full_bit (vi_start (v_running s)) VI_INIT_START_BUTT = 0) (start_vi env))
      (andthen (only_if (\<lambda>s. \<not> vpss_start (v_running s)) (stage env Start_vpss (\<lambda>r. r\<lparr>vpss_start := True\<rparr>)))
      (andthen (only_if (encoder_idle 0) (start_encoder env 0))
      (andthen (only_if (encoder_idle 1) (start_encoder env 1))
      (andthen (only_if (encoder_idle 2) (start_encoder env 2))
      (andthen (only_if (\<lambda>s. \<not> region_start (v_running s)) (create_thread env VIDEO_THREAD_OSD (\<lambda>r. r\<lparr>region_start := True\<rparr>)))
        (only_if (\<lambda>s. enabled ID_MD s \<and> \<not> md_start (v_running s))
          (create_thread env VIDEO_THREAD_MD (\<lambda>r. r\<lparr>md_start := True\<rparr>))))))))"

text \<open>All threads that are to run have set their bit.\<close>

definition video_test_full_thread :: "video_server \<Rightarrow> bool" where
  "video_test_full_thread s =
     (let up = (\<lambda>i. misc_get_bit (thread_start (info s)) i \<noteq> 0) in
      up VIDEO_THREAD_ISP \<and> up VIDEO_THREAD_ISP_EXTRA \<and> up VIDEO_THREAD_OSD \<and> (enabled ID_MD s \<longrightarrow> up VIDEO_THREAD_MD)
      \<and> list_all (\<lambda>i. enabled i s \<longrightarrow> up (VIDEO_THREAD_ENCODER + i)) [0..<VPSS_MAX_PHY_CHN_NUM])"

section \<open>Stop and take-down\<close>

definition tell_exit :: "nat \<Rightarrow> video_server \<Rightarrow> video_server" where
  "tell_exit i = with_info (\<lambda>x. x\<lparr>thread_exit := misc_set_bit (thread_exit x) i\<rparr>)"

definition stop_encoder :: "video_env \<Rightarrow> video_server \<Rightarrow> nat \<Rightarrow> video_server" where
  "stop_encoder env s i =
     (if payloads s ! i = PT_JPEG \<or> venc_start (v_running s) ! i then
        with_running (\<lambda>r. r\<lparr>venc_start := (venc_start r)[i := False]\<rparr>)
          (hisi_do env (if payloads s ! i \<noteq> PT_JPEG then Stop_venc i else Stop_snap i) (tell_exit (VIDEO_THREAD_ENCODER + i) s))
      else s)"

definition stop_vi :: "video_env \<Rightarrow> video_server \<Rightarrow> video_server" where
  "stop_vi env s =
     (let s = tell_exit VIDEO_THREAD_ISP (tell_exit VIDEO_THREAD_ISP_EXTRA s) in
      case hisi_stop_vi (\<lambda>p. v_hisi env (Vi_down p)) (stop_address env) (stack_info env) of (ret, bits, tried) \<Rightarrow>
        with_running (\<lambda>r. r\<lparr>vi_start := bits\<rparr>) (log_parts env Vi_down tried s))"

text \<open>The function returns no value, and its callers look at one: \<open>stop_value\<close>.\<close>

definition video_stop :: "video_env \<Rightarrow> video_server \<Rightarrow> video_server" where
  "video_stop env s =
     (let s = (if md_start (v_running s)
               then with_running (\<lambda>r. r\<lparr>md_run := False, md_start := False\<rparr>) (tell_exit VIDEO_THREAD_MD s) else s);
          s = (if region_start (v_running s) then with_running (\<lambda>r. r\<lparr>region_start := False\<rparr>) (tell_exit VIDEO_THREAD_OSD s) else s);
          s = foldl (stop_encoder env) s [0..<VPSS_MAX_PHY_CHN_NUM];
          s = (if vpss_start (v_running s) then with_running (\<lambda>r. r\<lparr>vpss_start := False\<rparr>) (hisi_do env Stop_vpss s) else s) in
      if vi_start (v_running s) \<noteq> 0 then stop_vi env s else s)"

definition uninit_motion :: "video_env \<Rightarrow> video_server \<Rightarrow> video_server" where
  "uninit_motion env s =
     (let s = (if smd_enable (settings s) \<noteq> 0 then hisi_do env Od_uninit s else s) in
      send SERVER_MANAGER (msg_init\<lparr>m_message := MSG_MANAGER_TIMER_REMOVE, m_sender := SERVER_VIDEO,
          m_arg_in := arg_zero\<lparr>handler := H_video_md_check_scheduler\<rparr>\<rparr>)
        (with_running (\<lambda>r. r\<lparr>md_init := False\<rparr>) (hisi_do env Uninit_md s)))"

definition uninit_encoder :: "video_env \<Rightarrow> int \<times> video_server \<Rightarrow> nat \<Rightarrow> int \<times> video_server" where
  "uninit_encoder env acc i =
     (case acc of (ret, s) \<Rightarrow>
        if payloads s ! i = PT_JPEG \<or> venc_init (v_running s) ! i then
          let c = (if payloads s ! i \<noteq> PT_JPEG then Uninit_venc i else Uninit_snap i) in
          (v_hisi env c, with_running (\<lambda>r. r\<lparr>venc_init := (venc_init r)[i := False]\<rparr>) (hisi_do env c s))
        else (ret, s))"

definition uninit_overlays :: "video_env \<Rightarrow> video_server \<Rightarrow> video_server" where
  "uninit_overlays env s =
     (let s = (if md_init (v_running s) then uninit_motion env s else s) in
      if region_init (v_running s) then with_running (\<lambda>r. r\<lparr>region_init := False\<rparr>) (hisi_do env Osd_exit s) else s)"

definition uninit_input :: "video_env \<Rightarrow> video_server \<Rightarrow> video_server" where
  "uninit_input env s =
     (let s = (if vpss_init (v_running s) then with_running (\<lambda>r. r\<lparr>vpss_init := False\<rparr>) (hisi_do env Uninit_vpss s) else s) in
      if vi_init (v_running s) \<noteq> 0 then
        (case hisi_uninit_vi (\<lambda>p. v_hisi env (Vi_off p)) (uninit_address env) 0 of (r, bits, tried) \<Rightarrow>
           with_running (\<lambda>r. r\<lparr>vi_init := bits\<rparr>) (log_parts env Vi_off tried s))
      else s)"

text \<open>The value is that of the last encoder that was taken down.\<close>

definition video_uninit :: "video_env \<Rightarrow> video_server \<Rightarrow> int \<times> video_server" where
  "video_uninit env s =
     (case foldl (uninit_encoder env) (0, uninit_overlays env s) [0..<VPSS_MAX_PHY_CHN_NUM] of
        (ret, s) \<Rightarrow> (ret, uninit_input env s))"

section \<open>The state machine\<close>

definition channel_zero :: video_channel_t where
  "channel_zero = \<lparr>vc_status = CHANNEL_EMPTY, vc_type = 0, vc_stream = 0, vc_service = 0, vc_require_key = False, vc_qos = 0\<rparr>"

definition profile_zero :: stream_profile_info_t where
  "profile_zero = \<lparr>enable = False, pic_size = PIC_CIF, width = 0, height = 0, frame_rate = 0, vpss_chn = 0\<rparr>"

definition config_zero :: video_config_t where
  "config_zero = \<lparr>streams = replicate MAX_STREAM_NUM profile_zero, group_w = 0, group_h = 0,
     vpss_channels = replicate VPSS_MAX_PHY_CHN_NUM \<lparr>chn_width = 0, chn_height = 0, chn_mirror = 0, chn_enabled = False\<rparr>, isp_frame_rate = 0\<rparr>"

definition server_video_snap_message :: "queue \<Rightarrow> msg \<Rightarrow> int \<times> queue" where
  "server_video_snap_message q m = (if b_init q = 0 then (- 1, q) else msg_buffer_push q (Some m))"

text \<open>
  The message for the snapshot thread is taken from the stack as it is; a queue that is in use
  copies the blocks its pointers name.
\<close>

definition video_broadcast_thread_exit :: "video_env \<Rightarrow> video_server \<Rightarrow> video_server" where
  "video_broadcast_thread_exit env s =
     (if b_init (snap_buff s) = 0 then s
      else case stack_msg env of
        None \<Rightarrow> video_fails s
      | Some m \<Rightarrow> s\<lparr>snap_buff := snd (server_video_snap_message (snap_buff s) (m\<lparr>m_message := MSG_MANAGER_DUMMY\<rparr>))\<rparr>)"

definition video_server_release_1 :: "video_env \<Rightarrow> video_server \<Rightarrow> video_server" where
  "video_server_release_1 env s = snd (video_uninit env (video_stop env s))"

text \<open>The configuration is cleared with the rest; it is set up by its initialiser only.\<close>

definition video_server_release_2 :: "video_server \<Rightarrow> video_server" where
  "video_server_release_2 s = s\<lparr>v_channels := replicate MAX_AV_CHANNEL channel_zero,
     bus := (bus s)(SERVER_VIDEO := msg_buffer_release (bus s SERVER_VIDEO)),
     v_config := config_zero, payloads := replicate MAX_STREAM_NUM PT_OTHER, ldc := False,
     sad_thresh := replicate 6 0, alarm_interval := replicate 3 0\<rparr>"

definition video_server_release_3 :: "video_server \<Rightarrow> video_server" where
  "video_server_release_3 s =
     send SERVER_MANAGER (msg_init\<lparr>m_message := MSG_MANAGER_EXIT_ACK, m_sender := SERVER_VIDEO\<rparr>) (s\<lparr>info := info_zero ()\<rparr>)"

abbreviation (input) "VIDEO_INIT_CONDITION_GOKE \<equiv> 0 :: nat"
abbreviation (input) "VIDEO_INIT_CONDITION_NUM \<equiv> 1 :: nat"
abbreviation (input) "VIDEO_EXIT_CONDITION \<equiv> 160 :: int"

definition video_server_init :: "video_server \<Rightarrow> video_server" where
  "video_server_init s =
     (let s = (if misc_get_bit (init_status (info s)) VIDEO_INIT_CONDITION_GOKE = 0
               then send SERVER_GOKE (msg_init\<lparr>m_message := MSG_GOKE_PROPERTY_GET, m_sender := SERVER_VIDEO, m_receiver := SERVER_VIDEO,
                 m_arg_in := arg_zero\<lparr>cat := GOKE_PROPERTY_STATUS\<rparr>\<rparr>) s
               else s) in
      if misc_full_bit (init_status (info s)) VIDEO_INIT_CONDITION_NUM \<noteq> 0 then set_status STATUS_WAIT s else s)"

definition video_server_setup :: "video_env \<Rightarrow> video_server \<Rightarrow> video_server" where
  "video_server_setup env s =
     (case video_init env s of (ret, s) \<Rightarrow> if ret = 0 then set_status STATUS_IDLE s else set_status STATUS_ERROR s)"

definition video_server_start :: "video_env \<Rightarrow> video_server \<Rightarrow> video_server" where
  "video_server_start env s =
     (case video_start env s of (ret, s) \<Rightarrow>
        if ret = 0 then (if video_test_full_thread s then set_status STATUS_RUN s else s)
        else set_status STATUS_ERROR s)"

definition video_server_stop :: "video_env \<Rightarrow> video_server \<Rightarrow> video_server" where
  "video_server_stop env s =
     (let s = video_stop env s in
      if stop_value env = 0 then (if thread_start (info s) = 0 then set_status STATUS_IDLE s else s)
      else set_status STATUS_ERROR s)"

definition video_server_restart :: "video_env \<Rightarrow> video_server \<Rightarrow> video_server" where
  "video_server_restart env s =
     (let s = video_stop env s in
      if stop_value env = 0 \<and> thread_start (info s) = 0 then
        (case video_uninit env s of (ret, s) \<Rightarrow> if ret = 0 then set_status STATUS_IDLE s else s)
      else set_status STATUS_ERROR s)"

definition state_machine :: "video_env \<Rightarrow> video_server \<Rightarrow> video_server" where
  "state_machine env s =
     (let st = status (info s) in
      if st = STATUS_INIT then video_server_init s
      else if st = STATUS_SETUP then video_server_setup env s
      else if st = STATUS_START then video_server_start env s
      else if st = STATUS_STOP then video_server_stop env s
      else if st = STATUS_RESTART then video_server_restart env s
      else if st = STATUS_ERROR then with_info (\<lambda>x. x\<lparr>status := EXIT_INIT, msg_lock := 0\<rparr>) s
      else if st = EXIT_INIT then with_info exit_init s
      else if st = EXIT_SERVER then (if quit_status (info s) = 0 then set_status EXIT_STAGE1 s else s)
      else if st = EXIT_STAGE1 then set_status EXIT_THREAD (video_server_release_1 env s)
      else if st = EXIT_THREAD then
        (let s = video_broadcast_thread_exit env (with_info (\<lambda>x. x\<lparr>thread_exit := thread_start x\<rparr>) s) in
         if thread_start (info s) = 0 then set_status EXIT_STAGE2 s else s)
      else if st = EXIT_STAGE2 then set_status EXIT_FINISH (video_server_release_2 s)
      else if st = EXIT_FINISH then with_info (\<lambda>x. x\<lparr>exit_flag := 1, status := STATUS_NONE\<rparr>) s
      else s)"

section \<open>Messages\<close>

definition video_message_filter :: "msg \<Rightarrow> video_server \<Rightarrow> bool" where
  "video_message_filter m s = error_filter m s"

definition take_task :: "int \<Rightarrow> msg \<Rightarrow> video_server \<Rightarrow> video_server" where
  "take_task ty m s = with_info (\<lambda>x. x\<lparr>task := (task x)\<lparr>task_type := ty\<rparr>, msg_lock := 1\<rparr>) (keep_task_msg m s)"

text \<open>The request to set properties with a restart is kept with its blocks, and with the status it came in.\<close>

definition take_restart :: "msg \<Rightarrow> video_server \<Rightarrow> video_server" where
  "take_restart m = with_info (\<lambda>x. x\<lparr>task := (task x)\<lparr>task_msg := m, task_type := TASK_TYPE_RESTART, task_start := status x\<rparr>,
     msg_lock := 1\<rparr>)"

definition require_key_frame :: "msg \<Rightarrow> video_server \<Rightarrow> video_server" where
  "require_key_frame m s =
     (let i = get_old_channel (wolf (m_arg_in m)) (m_sender m) (v_channels s) in
      if i \<noteq> - 1 then set_channel (nat i) ((v_channels s ! nat i)\<lparr>vc_require_key := True\<rparr>) s else s)"

definition on_goke_status :: "msg \<Rightarrow> video_server \<Rightarrow> video_server" where
  "on_goke_status m s =
     (if cat (m_arg_in m) = GOKE_PROPERTY_STATUS \<and> dog (m_arg_in m) = STATUS_RUN
      then with_info (\<lambda>x. x\<lparr>init_status := misc_set_bit (init_status x) VIDEO_INIT_CONDITION_GOKE\<rparr>) s else s)"

definition close_channel :: "int \<Rightarrow> video_server \<Rightarrow> video_server" where
  "close_channel i s = (if i \<noteq> - 1 then set_channel (nat i) ((v_channels s ! nat i)\<lparr>vc_status := CHANNEL_EMPTY\<rparr>) s else s)"

definition on_request_sync :: "msg \<Rightarrow> video_server \<Rightarrow> video_server" where
  "on_request_sync m s =
     send SERVER_PLAYER (msg_init\<lparr>m_message := MSG_PLAYER_REQUEST_SYNC_ACK, m_sender := SERVER_VIDEO, m_receiver := SERVER_VIDEO,
        m_arg_in := arg_zero\<lparr>cat := cat (m_arg_in m), dog := dog (m_arg_in m)\<rparr>\<rparr>)
       (close_channel (get_old_channel (cat (m_arg_in m)) SERVER_ALIYUN (v_channels s)) s)"

text \<open>A handler that is none of the server's own is another server's and is not followed.\<close>

definition on_timer :: "video_env \<Rightarrow> msg \<Rightarrow> video_server \<Rightarrow> video_server" where
  "on_timer env m s =
     (case handler (m_arg_in m) of
        H_video_md_check_scheduler \<Rightarrow> video_md_check_scheduler env s
      | H_ircut_opt_release \<Rightarrow> video_do Ircut_release s
      | H_NULL \<Rightarrow> video_fails s
      | _ \<Rightarrow> s)"

definition handle_message :: "video_env \<Rightarrow> msg \<Rightarrow> video_server \<Rightarrow> video_server" where
  "handle_message env m s =
     (let k = m_message m in
      if k = MSG_VIDEO_KEY_FRAME_REQUIRE then require_key_frame m s
      else if k = MSG_VIDEO_START then take_task TASK_TYPE_START m s
      else if k = MSG_VIDEO_STOP then take_task TASK_TYPE_STOP m s
      else if k = MSG_VIDEO_PROPERTY_SET_DIRECT then video_set_property env m s
      else if k = MSG_VIDEO_PROPERTY_SET_EXT then take_restart m s
      else if k = MSG_MANAGER_EXIT then on_manager_exit m s
      else if k = MSG_MANAGER_TIMER_ON then on_timer env m s
      else if k = MSG_GOKE_PROPERTY_NOTIFY \<or> k = MSG_GOKE_PROPERTY_GET_ACK then on_goke_status m s
      else if k = MSG_MANAGER_EXIT_ACK then on_exit_ack m s
      else if k = MSG_PLAYER_REQUEST_SYNC then on_request_sync m s
      else s)"

definition video_take_message :: "video_env \<Rightarrow> video_server \<Rightarrow> video_server" where
  "video_take_message env = take_message SERVER_VIDEO video_message_block video_message_filter (handle_message env)"

definition video_message_proc :: "video_env \<Rightarrow> video_server \<Rightarrow> video_server" where
  "video_message_proc env = message_proc SERVER_VIDEO video_message_block video_message_filter (handle_message env)"

section \<open>The task\<close>

definition task_answer :: "bool \<Rightarrow> video_server \<Rightarrow> msg" where
  "task_answer success s =
     msg_init\<lparr>m_arg_pass := m_arg_pass (task_msg (task (info s))), m_message := m_message (task_msg (task (info s))) OR 0x1000,
       m_sender := SERVER_VIDEO, m_receiver := SERVER_VIDEO, m_result := (if success then 0 else - 1)\<rparr>"

text \<open>The answer goes to the receiver the request names; then the task and its lock are gone.\<close>

definition end_task :: "msg \<Rightarrow> video_server \<Rightarrow> video_server" where
  "end_task answer s =
     with_info (\<lambda>x. x\<lparr>task := (task x)\<lparr>task_type := TASK_TYPE_NONE\<rparr>, msg_lock := 0\<rparr>)
       (send (m_receiver (task_msg (task (info s)))) answer s)"

definition finish_task :: "bool \<Rightarrow> video_server \<Rightarrow> video_server" where
  "finish_task success s = end_task (task_answer success s) s"

text \<open>
  A successful start enters the sender as a channel.  The test behind it compares the table, not the
  index, so that with all channels in use the memory in front of the table is written.
\<close>

definition enter_channel :: "video_server \<Rightarrow> video_server" where
  "enter_channel s =
     (let r = task_msg (task (info s)) in
      case get_new_channel (wolf (m_arg_in r)) (m_sender r) (v_channels s) of (i, chs) \<Rightarrow>
        if i = - 1 then video_fails s
        else s\<lparr>v_channels := chs[nat i := (chs ! nat i)\<lparr>vc_stream := cat (m_arg_in r), vc_require_key := True, vc_qos := 0\<rparr>]\<rparr>)"

definition leave_channel :: "video_server \<Rightarrow> video_server" where
  "leave_channel s =
     (let r = task_msg (task (info s)) in close_channel (get_old_channel (wolf (m_arg_in r)) (m_sender r) (v_channels s)) s)"

text \<open>
  The value a restart answers with is read from the request only for the time watermark; otherwise
  it is what the stack holds.
\<close>

definition watermark_value :: "video_env \<Rightarrow> msg \<Rightarrow> int option" where
  "watermark_value env r =
     (if cat (m_arg_in r) = VIDEO_PROPERTY_TIME_WATERMARK then (case m_arg r of Some (P_int temp) \<Rightarrow> Some temp | _ \<Rightarrow> None)
      else Some (stack_temp env))"

definition finish_restart :: "int \<Rightarrow> video_server \<Rightarrow> video_server" where
  "finish_restart temp s =
     (end_task ((task_answer True s)\<lparr>m_arg := Some (P_int temp), m_arg_size := 4\<rparr>) s)\<lparr>para_set := False\<rparr>"

definition restart_task :: "video_env \<Rightarrow> video_server \<Rightarrow> video_server" where
  "restart_task env s =
     (let st = status (info s); r = task_msg (task (info s)); begun = task_start (task (info s)) in
      if st = STATUS_WAIT then
        (case watermark_value env r of
           None \<Rightarrow> video_fails s
         | Some temp \<Rightarrow>
             let s = s\<lparr>para_set := True\<rparr> in
             if begun = STATUS_WAIT then finish_restart temp s else set_status STATUS_SETUP s)
      else if st = STATUS_IDLE then
        (if \<not> para_set s then set_status STATUS_RESTART s
         else if begun = STATUS_IDLE then finish_restart (stack_temp env) s else set_status STATUS_START s)
      else if st = STATUS_RUN then
        (if \<not> para_set s then
           (if cat (m_arg_in r) = VIDEO_PROPERTY_TIME_WATERMARK then
              (case watermark_value env r of None \<Rightarrow> video_fails s | Some temp \<Rightarrow> finish_restart temp s)
            else set_status STATUS_RESTART s)
         else finish_restart (stack_temp env) s)
      else finish_restart (stack_temp env) s)"

definition task_proc :: "video_env \<Rightarrow> video_server \<Rightarrow> video_server" where
  "task_proc env s =
     (let st = status (info s); ty = task_type (task (info s)) in
      if ty = TASK_TYPE_NONE then
        (if st = STATUS_NONE then set_status STATUS_INIT s
         else if st = STATUS_WAIT then set_status STATUS_SETUP s
         else if st = STATUS_IDLE then set_status STATUS_START s
         else s)
      else if ty = TASK_TYPE_START then
        (if st = STATUS_NONE then set_status STATUS_INIT s
         else if st = STATUS_WAIT then set_status STATUS_SETUP s
         else if st = STATUS_IDLE then set_status STATUS_START s
         else if st = STATUS_RUN then finish_task True (enter_channel s)
         else if st \<ge> STATUS_ERROR then finish_task False s
         else s)
      else if ty = TASK_TYPE_STOP then
        (if st = STATUS_RUN then finish_task True (leave_channel s)
         else if st \<ge> STATUS_ERROR then finish_task False s
         else finish_task True s)
      else if ty = TASK_TYPE_RESTART then restart_task env s
      else s)"

section \<open>The loop\<close>

definition video_server_begin :: "int \<Rightarrow> int \<Rightarrow> video_server \<Rightarrow> video_server" where
  "video_server_begin msg_overrun msg_buffer_size_normal s =
     (let s = s\<lparr>bus := (bus s)(SERVER_VIDEO := msg_buffer_init True (bus s SERVER_VIDEO) msg_overrun msg_buffer_size_normal)\<rparr> in
      with_info (\<lambda>x. x\<lparr>quit_status := VIDEO_EXIT_CONDITION, init := 1\<rparr>) s)"

definition video_server_turn :: "video_env \<Rightarrow> video_server \<Rightarrow> video_server" where
  "video_server_turn env = loop_turn (state_machine env) video_fault (task_proc env) (video_message_proc env)"

definition video_server_round :: "video_env \<Rightarrow> video_server \<Rightarrow> video_server" where
  "video_server_round env s =
     (if video_fault s then s else loop_round SERVER_VIDEO (video_server_turn env) (video_take_message env) s)"

end
