(* ===== verification/VideoProps.thy ===== *)
theory VideoProps
  imports VideoServer
begin

text \<open>
  What the video server promises of its channels, of its start and restart, and of its exit.
\<close>

section \<open>Looking a channel up\<close>

lemma first_channel_spec:
  "0 \<le> i \<Longrightarrow> if \<exists>c \<in> set cs. P c
    then \<exists>k < length cs. first_channel P i cs = i + int k \<and> P (cs ! k) \<and> (\<forall>j < k. \<not> P (cs ! j))
    else first_channel P i cs = - 1"
proof (induction cs arbitrary: i)
  case (Cons c cs)
  show ?case
  proof (cases "P c")
    case True
    then show ?thesis by auto
  next
    case False
    note ih = Cons.IH [of "i + 1"]
    show ?thesis
    proof (cases "\<exists>c \<in> set cs. P c")
      case True
      then obtain k where k: "k < length cs" "first_channel P (i + 1) cs = i + 1 + int k" "P (cs ! k)" "\<forall>j < k. \<not> P (cs ! j)"
        using ih Cons.prems by auto
      then have "\<forall>j < Suc k. \<not> P ((c # cs) ! j)" using False by (auto simp: less_Suc_eq_0_disj)
      then have "\<exists>k < length (c # cs). first_channel P i (c # cs) = i + int k \<and> P ((c # cs) ! k) \<and> (\<forall>j < k. \<not> P ((c # cs) ! j))"
        using k False by (intro exI [of _ "Suc k"]) simp
      then show ?thesis using True by simp
    next
      case none: False
      then show ?thesis using ih Cons.prems False by simp
    qed
  qed
qed simp

lemma first_channel_cases:
  obtains (absent) "\<forall>c \<in> set cs. \<not> P c" "first_channel P 0 cs = - 1"
  | (found) k where "k < length cs" "first_channel P 0 cs = int k" "P (cs ! k)" "\<forall>j < k. \<not> P (cs ! j)"
  using first_channel_spec [of 0 cs P] by (cases "\<exists>c \<in> set cs. P c") auto

lemma first_channel_unique:
  assumes "k < length cs" "P (cs ! k)" "\<forall>j < length cs. P (cs ! j) \<longrightarrow> j = k"
  shows "first_channel P 0 cs = int k"
proof (rule first_channel_cases [of cs P])
  assume "\<forall>c \<in> set cs. \<not> P c"
  then show ?thesis using assms(1,2) nth_mem by blast
next
  fix n
  assume "n < length cs" "first_channel P 0 cs = int n" "P (cs ! n)"
  then show ?thesis using assms(3) by simp
qed

section \<open>No two channels for one viewer\<close>

text \<open>Of two channels in use, the services or the kinds differ.\<close>

definition channels_ok :: "video_channel_t list \<Rightarrow> bool" where
  "channels_ok chs = (length chs = MAX_AV_CHANNEL \<and> (\<forall>i < MAX_AV_CHANNEL. \<forall>j < MAX_AV_CHANNEL.
     vc_status (chs ! i) = CHANNEL_VALID \<longrightarrow> vc_status (chs ! j) = CHANNEL_VALID \<longrightarrow>
     vc_service (chs ! i) = vc_service (chs ! j) \<longrightarrow> vc_type (chs ! i) = vc_type (chs ! j) \<longrightarrow> i = j))"

text \<open>What changes neither the viewer of a channel nor opens it.\<close>

definition keeps_viewer :: "video_channel_t \<Rightarrow> video_channel_t \<Rightarrow> bool" where
  "keeps_viewer c c' = (vc_service c' = vc_service c \<and> vc_type c' = vc_type c
     \<and> (vc_status c' = CHANNEL_VALID \<longrightarrow> vc_status c = CHANNEL_VALID))"

lemma channels_ok_change:
  assumes "channels_ok chs" "length chs' = length chs" "\<And>i. i < length chs \<Longrightarrow> keeps_viewer (chs ! i) (chs' ! i)"
  shows "channels_ok chs'"
  unfolding channels_ok_def
proof (intro conjI allI impI)
  show "length chs' = MAX_AV_CHANNEL" using assms(1,2) by (simp add: channels_ok_def)
  fix i j
  assume ij: "i < MAX_AV_CHANNEL" "j < MAX_AV_CHANNEL" "vc_status (chs' ! i) = CHANNEL_VALID" "vc_status (chs' ! j) = CHANNEL_VALID"
    "vc_service (chs' ! i) = vc_service (chs' ! j)" "vc_type (chs' ! i) = vc_type (chs' ! j)"
  have "keeps_viewer (chs ! i) (chs' ! i)" "keeps_viewer (chs ! j) (chs' ! j)"
    using assms(1,3) ij(1,2) by (simp_all add: channels_ok_def)
  then show "i = j" using assms(1) ij unfolding channels_ok_def keeps_viewer_def by metis
qed

lemma channels_ok_update:
  "channels_ok chs \<Longrightarrow> keeps_viewer (chs ! i) c \<Longrightarrow> channels_ok (chs[i := c])"
proof (rule channels_ok_change [of chs])
  assume "keeps_viewer (chs ! i) c"
  then show "keeps_viewer (chs ! k) (chs[i := c] ! k)" if "k < length chs" for k
    using that by (cases "k = i") (simp_all add: keeps_viewer_def)
qed simp_all

lemma keeps_viewer_fields [simp]:
  "keeps_viewer c c" "keeps_viewer c (c\<lparr>vc_require_key := b\<rparr>)" "keeps_viewer c (c\<lparr>vc_status := CHANNEL_EMPTY\<rparr>)"
  "keeps_viewer c (c\<lparr>vc_stream := x, vc_require_key := b, vc_qos := q\<rparr>)" "keeps_viewer c (change_quality v c)"
  "keeps_viewer c (after_send r t c)"
  by (auto simp: keeps_viewer_def change_quality_def after_send_def Let_def)

lemma channels_ok_new:
  assumes "channels_ok chs" "get_new_channel sid ty chs = (i, chs')"
  shows "channels_ok chs' \<and> (i = - 1 \<longrightarrow> chs' = chs \<and> (\<forall>c \<in> set chs. vc_status c = CHANNEL_VALID \<and> \<not> channel_of sid ty c))
    \<and> (i \<noteq> - 1 \<longrightarrow> 0 \<le> i \<and> nat i < MAX_AV_CHANNEL \<and> channel_of sid ty (chs' ! nat i))"
proof (rule first_channel_cases [of chs "channel_of sid ty"])
  fix k
  assume k: "k < length chs" "first_channel (channel_of sid ty) 0 chs = int k" "channel_of sid ty (chs ! k)"
  then have "i = int k" "chs' = chs" using assms(2) by (simp_all add: get_new_channel_def)
  then show ?thesis using k assms(1) by (simp add: channels_ok_def)
next
  assume none: "\<forall>c \<in> set chs. \<not> channel_of sid ty c" "first_channel (channel_of sid ty) 0 chs = - 1"
  show ?thesis
  proof (rule first_channel_cases [of chs "\<lambda>c. vc_status c \<noteq> CHANNEL_VALID"])
    assume "\<forall>c \<in> set chs. \<not> vc_status c \<noteq> CHANNEL_VALID" "first_channel (\<lambda>c. vc_status c \<noteq> CHANNEL_VALID) 0 chs = - 1"
    then show ?thesis using assms none by (simp add: get_new_channel_def)
  next
    fix k
    assume k: "k < length chs" "first_channel (\<lambda>c. vc_status c \<noteq> CHANNEL_VALID) 0 chs = int k"
    let ?c = "(chs ! k)\<lparr>vc_service := sid, vc_type := ty, vc_status := CHANNEL_VALID\<rparr>"
    have i: "i = int k" "chs' = chs[k := ?c]" using assms(2) none k by (simp_all add: get_new_channel_def)
    have len: "length chs = 4" using assms(1) by (simp add: channels_ok_def)
    have free: "vc_status (chs ! j) = CHANNEL_VALID \<longrightarrow> \<not> (vc_service (chs ! j) = sid \<and> vc_type (chs ! j) = ty)" if "j < 4" for j
      using none(1) that len by (auto simp: channel_of_def)
    have "channels_ok chs'"
      using assms(1) free k(1) len unfolding i(2) channels_ok_def by (auto simp: nth_list_update)
    then show ?thesis using i k(1) len by (simp add: channel_of_def)
  qed
qed

lemma channels_ok_enter: "channels_ok (v_channels s) \<Longrightarrow> channels_ok (v_channels (enter_channel s))"
proof -
  let ?r = "task_msg (task (info s))"
  assume s: "channels_ok (v_channels s)"
  obtain i chs where g: "get_new_channel (wolf (m_arg_in ?r)) (m_sender ?r) (v_channels s) = (i, chs)" by fastforce
  show ?thesis using s channels_ok_new [OF s g] g by (auto simp: enter_channel_def intro: channels_ok_update)
qed

lemma channels_ok_close: "channels_ok (v_channels s) \<Longrightarrow> channels_ok (v_channels (close_channel i s))"
  by (simp add: close_channel_def channels_ok_update)

lemma video_send_fields [simp]:
  "v_running (send r m s) = v_running s" "v_channels (send r m s) = v_channels s" "v_config (send r m s) = v_config s"
  "payloads (send r m s) = payloads s" "settings (send r m s) = settings s" "video_calls (send r m s) = video_calls s"
  "video_fault (send r m s) = video_fault s" "para_set (send r m s) = para_set s" "snap_buff (send r m s) = snap_buff s"
  by (simp_all add: send_def)

lemma channels_ok_property: "channels_ok (v_channels s) \<Longrightarrow> channels_ok (v_channels (video_set_property env m s))"
proof -
  assume s: "channels_ok (v_channels s)"
  have q: "channels_ok (map (change_quality v) (v_channels s))" for v
    using s by (rule channels_ok_change) simp_all
  have m: "v_channels (set_mirror i v t) = v_channels t" for i v t by (simp add: set_mirror_def)
  have f: "v_channels (snd (flip_channels env temp is t)) = v_channels t" for temp "is" t
    by (induction "is" arbitrary: t) (simp_all add: m hisi_do_def Let_def)
  have "v_channels (set_flip env temp s) = v_channels s" for temp
  proof -
    obtain ok t where "flip_channels env temp [0..<VPSS_MAX_PHY_CHN_NUM] s = (ok, t)" by fastforce
    then show ?thesis using f [of temp "[0..<VPSS_MAX_PHY_CHN_NUM]" s] by (cases ok) (simp_all add: set_flip_def)
  qed
  moreover have "v_channels (set_sensitivity env temp s) = v_channels s" for temp
    by (simp add: set_sensitivity_def hisi_do_def Let_def)
  moreover have "v_channels (set_motion_plan m s) = v_channels s" by (simp add: set_motion_plan_def Let_def)
  moreover have "v_channels (set_night_shot temp s) = v_channels s" for temp by (simp add: set_night_shot_def Let_def)
  moreover have "v_channels (set_image_correct temp s) = v_channels s" for temp by (simp add: set_image_correct_def)
  moreover have "v_channels (set_byte temp m get upd t) = v_channels t" for temp get upd t by (simp add: set_byte_def Let_def)
  moreover have "v_channels (report m get t) = v_channels t" for get t by (simp add: report_def)
  moreover have "channels_ok (v_channels (set_quality temp s))" for temp using s q by (simp add: set_quality_def)
  ultimately show ?thesis using s
    unfolding video_set_property_def Let_def by (auto split: option.split payload.split)
qed

lemma channels_ok_handle: "channels_ok (v_channels s) \<Longrightarrow> channels_ok (v_channels (handle_message env m s))"
proof -
  assume s: "channels_ok (v_channels s)"
  have "channels_ok (v_channels (require_key_frame m s))"
    using s by (simp add: require_key_frame_def Let_def channels_ok_update)
  moreover have "v_channels (on_timer env m s) = v_channels s"
    by (simp add: on_timer_def video_md_check_scheduler_def split: handler_t.split)
  moreover have "channels_ok (v_channels (on_request_sync m s))" by (simp add: on_request_sync_def channels_ok_close s)
  ultimately show ?thesis
    using s channels_ok_property [OF s, of env m]
    by (simp add: handle_message_def take_task_def keep_task_msg_def take_restart_def on_manager_exit_def on_goke_status_def
        on_exit_ack_def Let_def)
qed

lemma log_parts_channels [simp]: "v_channels (log_parts env c ps s) = v_channels s"
  by (induction ps arbitrary: s) (simp_all add: log_parts_def hisi_do_def)

lemma fold_channels: "(\<And>i t. v_channels (f t i) = v_channels t) \<Longrightarrow> v_channels (foldl f s is) = v_channels s"
  by (induction "is" arbitrary: s) simp_all

lemma video_stop_channels [simp]: "v_channels (video_stop env s) = v_channels s"
proof -
  have e: "v_channels (stop_encoder env t i) = v_channels t" for i t by (simp add: stop_encoder_def tell_exit_def hisi_do_def)
  have v: "v_channels (stop_vi env t) = v_channels t" for t by (simp add: stop_vi_def tell_exit_def Let_def split: prod.split)
  show ?thesis by (simp add: video_stop_def v fold_channels e tell_exit_def hisi_do_def Let_def)
qed

lemma video_uninit_channels [simp]: "v_channels (snd (video_uninit env s)) = v_channels s"
proof -
  have e: "v_channels (snd (uninit_encoder env a i)) = v_channels (snd a)" for a i
    by (cases a) (simp add: uninit_encoder_def hisi_do_def Let_def)
  have f: "v_channels (snd (foldl (uninit_encoder env) a is)) = v_channels (snd a)" for a "is"
    by (induction "is" arbitrary: a) (simp_all add: e)
  have "v_channels (uninit_overlays env s) = v_channels s"
    by (simp add: uninit_overlays_def uninit_motion_def hisi_do_def Let_def)
  moreover have "v_channels (uninit_input env t) = v_channels t" for t
    by (simp add: uninit_input_def hisi_do_def Let_def split: prod.split)
  ultimately show ?thesis
    using f [of "(0, uninit_overlays env s)" "[0..<VPSS_MAX_PHY_CHN_NUM]"] unfolding video_uninit_def
    by (cases "foldl (uninit_encoder env) (0, uninit_overlays env s) [0..<VPSS_MAX_PHY_CHN_NUM]") (simp del: upt.simps)
qed

text \<open>The stages touch neither the channels nor the frame of the server.\<close>

definition same_channels :: "(video_server \<Rightarrow> int \<times> video_server) \<Rightarrow> bool" where
  "same_channels f = (\<forall>s. v_channels (snd (f s)) = v_channels s \<and> info (snd (f s)) = info s)"

lemma log_parts_info [simp]: "info (log_parts env c ps s) = info s"
  by (induction ps arbitrary: s) (simp_all add: log_parts_def hisi_do_def)

lemma same_channels_stages:
  "same_channels f \<Longrightarrow> same_channels g \<Longrightarrow> same_channels (andthen f g)"
  "same_channels f \<Longrightarrow> same_channels (only_if b f)"
  "same_channels (stage env c upd)" "same_channels (create_thread env i upd)" "same_channels (check_chip env)"
  "same_channels (init_vi env)" "same_channels (start_vi env)" "same_channels (start_encoder env i)"
  "same_channels (init_encoder env i)" "same_channels (init_region env)" "same_channels (init_motion env)"
  "same_channels (\<lambda>s. case video_adjust_parameters s of (ret, s) \<Rightarrow> (if ret \<noteq> 0 then - 1 else 0, s))"
proof -
  have a: "same_channels (andthen f g)" if "same_channels f" "same_channels g" for f g
    using that unfolding same_channels_def andthen_def by (simp split: prod.split) (metis snd_conv)
  have c: "same_channels (create_thread env i upd)" for i upd by (simp add: same_channels_def create_thread_def Let_def)
  show "same_channels f \<Longrightarrow> same_channels g \<Longrightarrow> same_channels (andthen f g)" by (rule a)
  show "same_channels (create_thread env i upd)" by (rule c)
  show "same_channels (start_vi env)" unfolding start_vi_def
    by (intro a c) (simp add: same_channels_def hisi_start_vi_def)
  show "same_channels (init_encoder env i)" by (simp add: same_channels_def init_encoder_def only_if_def stage_def hisi_do_def)
  show "same_channels f \<Longrightarrow> same_channels (only_if b f)" by (simp add: same_channels_def only_if_def)
  show "same_channels (stage env c upd)" by (simp add: same_channels_def stage_def hisi_do_def)
  show "same_channels (check_chip env)" by (simp add: same_channels_def check_chip_def hisi_do_def)
  show "same_channels (init_vi env)" by (simp add: same_channels_def init_vi_def Let_def split: prod.split)
  show "same_channels (start_encoder env i)"
    by (simp add: same_channels_def start_encoder_def hisi_do_def Let_def)
  show "same_channels (init_region env)" by (simp add: same_channels_def init_region_def hisi_do_def)
  show "same_channels (init_motion env)"
    by (simp add: same_channels_def init_motion_def hisi_do_def Let_def)
  show "same_channels (\<lambda>s. case video_adjust_parameters s of (ret, s) \<Rightarrow> (if ret \<noteq> 0 then - 1 else 0, s))"
    by (simp add: same_channels_def video_adjust_parameters_def split: prod.split option.split)
qed

lemma video_start_channels [simp]:
  "v_channels (snd (video_start env s)) = v_channels s" "info (snd (video_start env s)) = info s"
proof -
  have "same_channels (video_start env)" unfolding video_start_def by (intro same_channels_stages)
  then show "v_channels (snd (video_start env s)) = v_channels s" "info (snd (video_start env s)) = info s"
    by (simp_all add: same_channels_def)
qed

lemma video_init_channels [simp]:
  "v_channels (snd (video_init env s)) = v_channels s" "info (snd (video_init env s)) = info s"
proof -
  have "same_channels (\<lambda>s. andthen (\<lambda>s. case video_adjust_parameters s of (ret, s) \<Rightarrow> (if ret \<noteq> 0 then - 1 else 0, s))
      (andthen (check_chip env)
      (andthen (init_vi env)
      (andthen (stage env Init_vpss (\<lambda>r. r\<lparr>vpss_init := True\<rparr>))
      (andthen (init_encoder env 0)
      (andthen (init_encoder env 1)
      (andthen (init_encoder env 2)
      (andthen (init_region env)
        (only_if (\<lambda>s. enabled ID_MD s) (init_motion env))))))))) s)"
    by (intro same_channels_stages)
  then show "v_channels (snd (video_init env s)) = v_channels s" "info (snd (video_init env s)) = info s"
    by (simp_all add: same_channels_def video_init_def)
qed

lemma channels_ok_machine: "channels_ok (v_channels s) \<Longrightarrow> channels_ok (v_channels (state_machine env s))"
proof -
  assume s: "channels_ok (v_channels s)"
  have "channels_ok (replicate 4 channel_zero)" by (simp add: channels_ok_def channel_zero_def)
  then have z: "channels_ok (v_channels (video_server_release_2 s))" by (simp add: video_server_release_2_def)
  have b: "v_channels (video_broadcast_thread_exit env t) = v_channels t" for t
    by (simp add: video_broadcast_thread_exit_def split: option.split)
  have "v_channels (video_server_setup env s) = v_channels s"
    by (cases "video_init env s") (use video_init_channels [of env s] in \<open>simp add: video_server_setup_def\<close>)
  moreover have "v_channels (video_server_start env s) = v_channels s"
    by (cases "video_start env s") (use video_start_channels [of env s] in \<open>simp add: video_server_start_def\<close>)
  moreover have "v_channels (video_server_restart env s) = v_channels s"
    by (cases "video_uninit env (video_stop env s)")
      (use video_uninit_channels [of env "video_stop env s"] in \<open>simp add: video_server_restart_def Let_def\<close>)
  moreover have "v_channels (video_server_stop env s) = v_channels s" by (simp add: video_server_stop_def Let_def)
  moreover have "v_channels (video_server_init s) = v_channels s" by (simp add: video_server_init_def Let_def)
  moreover have "v_channels (video_server_release_1 env s) = v_channels s" by (simp add: video_server_release_1_def)
  ultimately show ?thesis using s z b unfolding state_machine_def Let_def by simp
qed

lemma channels_ok_task: "channels_ok (v_channels s) \<Longrightarrow> channels_ok (v_channels (task_proc env s))"
proof -
  assume s: "channels_ok (v_channels s)"
  have f: "v_channels (finish_task ok t) = v_channels t" "v_channels (finish_restart temp t) = v_channels t" for ok temp t
    by (simp_all add: finish_task_def finish_restart_def end_task_def)
  have "v_channels (restart_task env s) = v_channels s"
    by (simp add: restart_task_def f Let_def split: option.split)
  moreover have "channels_ok (v_channels (leave_channel s))" by (simp add: leave_channel_def channels_ok_close s Let_def)
  ultimately show ?thesis using s channels_ok_enter [OF s] f unfolding task_proc_def Let_def by simp
qed

text \<open>What the steps of a round keep, the round keeps.\<close>

lemma video_round_keeps:
  assumes frame: "\<And>u w. P (u\<lparr>waiting := w\<rparr>) = P u" "\<And>u b. P (u\<lparr>bus := b\<rparr>) = P u"
      "\<And>u. P u \<Longrightarrow> P (with_info (\<lambda>x. x\<lparr>old_status := status x\<rparr>) u)"
    and machine: "\<And>u. P u \<Longrightarrow> P (state_machine env u)" and task: "\<And>u. P u \<Longrightarrow> P (task_proc env u)"
    and handle: "\<And>m u. P u \<Longrightarrow> P (handle_message env m u)"
  shows "P s \<Longrightarrow> P (video_server_round env s)"
proof -
  assume s: "P s"
  have taken: "P (video_take_message env t)" if t: "P t" for t
  proof -
    obtain b u where bl: "video_message_block t = (b, u)" by fastforce
    then have "u = t \<or> (\<exists>q. u = t\<lparr>bus := q\<rparr>)"
      by (auto simp: video_message_block_def message_block_def split: prod.splits if_splits)
    then have u: "P u" using t frame(2) by auto
    obtain ret m q where p: "msg_buffer_pop (bus u SERVER_VIDEO) msg_init = (ret, m, q)" by (metis prod_cases3)
    have "P (handle_message env m (u\<lparr>bus := (bus u)(SERVER_VIDEO := q)\<rparr>))" by (rule handle) (simp add: frame u)
    then show ?thesis using bl u p frame(2) by (simp add: video_take_message_def take_message_def Let_def split: bool.split)
  qed
  have proc: "P (video_message_proc env t)" if "P t" for t
    using taken [OF that] that frame(1) by (simp add: video_message_proc_def video_take_message_def message_proc_def)
  have turn: "P (video_server_turn env s)"
    using s frame(3) by (simp add: video_server_turn_def loop_turn_def machine task proc Let_def)
  show ?thesis
    using s turn taken [of "s\<lparr>waiting := False\<rparr>"] frame(1) by (simp add: video_server_round_def loop_round_def)
qed

lemma channels_ok_round: "channels_ok (v_channels s) \<Longrightarrow> channels_ok (v_channels (video_server_round env s))"
  by (rule video_round_keeps [where P = "\<lambda>s. channels_ok (v_channels s)"])
    (simp_all add: channels_ok_machine channels_ok_task channels_ok_handle)

section \<open>Frames\<close>

lemma deliver_channel:
  assumes "i < length (v_channels s)"
  shows "v_channels (deliver_frame env avinfo data ch i s) ! i = v_channels s ! i
    \<or> v_channels (deliver_frame env avinfo data ch i s) ! i = after_send (send_media env i) (av_timestamp avinfo) (v_channels s ! i)"
  using assms by (simp add: deliver_frame_def write_video_buffer_def Let_def split: option.split prod.split)

lemma deliver_others:
  "length (v_channels (deliver_frame env avinfo data ch i s)) = length (v_channels s)"
  "k \<noteq> i \<Longrightarrow> v_channels (deliver_frame env avinfo data ch i s) ! k = v_channels s ! k"
  "info (deliver_frame env avinfo data ch i s) = info s"
  by (simp_all add: deliver_frame_def write_video_buffer_def Let_def split: option.split prod.split)

lemma channels_ok_deliver:
  "channels_ok (v_channels s) \<Longrightarrow> channels_ok (v_channels (deliver_frame env avinfo data ch i s))"
proof (rule channels_ok_change [of "v_channels s"])
  fix k
  assume "k < length (v_channels s)"
  then show "keeps_viewer (v_channels s ! k) (v_channels (deliver_frame env avinfo data ch i s) ! k)"
    using deliver_channel [of k s env avinfo data ch] deliver_others(2) [of k i env avinfo data ch s]
    by (cases "k = i") auto
qed (simp_all add: deliver_others)

lemma stream_frame_invariant:
  assumes "\<And>avinfo data i t. i < MAX_AV_CHANNEL \<Longrightarrow> P t \<Longrightarrow> P (deliver_frame env avinfo data ch i t)"
  shows "P s \<Longrightarrow> P (stream_frame scrap si ch env s)"
proof -
  have "list_all (\<lambda>i. i < MAX_AV_CHANNEL) is \<Longrightarrow> P t \<Longrightarrow> P (foldl (\<lambda>s i. deliver_frame env avinfo data ch i s) t is)" for avinfo data t "is"
    by (induction "is" arbitrary: t) (simp_all add: assms)
  then show "P s \<Longrightarrow> P (stream_frame scrap si ch env s)" unfolding stream_frame_def by (simp add: list_all_iff)
qed

lemma channels_ok_stream:
  assumes "channels_ok (v_channels s)"
  shows "channels_ok (v_channels (snd (video_stream_func scrap si ch env s)))"
proof -
  have f: "channels_ok (v_channels (stream_frame scrap si ch env s))"
    by (rule stream_frame_invariant [where P = "\<lambda>s. channels_ok (v_channels s)", OF channels_ok_deliver assms])
  have e: "v_channels (video_thread_ends i t) = v_channels t" for i t by (simp add: video_thread_ends_def Let_def)
  have "channels_ok (v_channels (snd (stream_turn scrap si ch env s)))"
    using f assms by (simp add: stream_turn_def Let_def split: select_result.split)
  moreover obtain nx t where "stream_turn scrap si ch env s = (nx, t)" by fastforce
  ultimately show ?thesis by (cases nx) (simp_all add: video_stream_func_def e)
qed

text \<open>
  The server from its start on: its rounds, the turns of its stream threads, threads that begin and
  end, and what the others put into the queues.
\<close>

inductive video_runs :: "video_server \<Rightarrow> bool" where
  fresh: "length (v_channels s) = MAX_AV_CHANNEL \<Longrightarrow> list_all (\<lambda>c. vc_status c = CHANNEL_EMPTY) (v_channels s) \<Longrightarrow> video_runs s"
| round: "video_runs s \<Longrightarrow> video_runs (video_server_round env s)"
| frame: "video_runs s \<Longrightarrow> video_runs (snd (video_stream_func scrap si ch senv s))"
| begins: "video_runs s \<Longrightarrow> video_runs (video_thread_begins i s)"
| ends: "video_runs s \<Longrightarrow> video_runs (video_thread_ends i s)"
| arrives: "video_runs s \<Longrightarrow> video_runs (s\<lparr>bus := b\<rparr>)"

text \<open>
  C17: Through any requests, answers, frames and errors, no viewer has two channels: of two
  channels in use the services or the kinds differ, so that a stop, a request for a key frame or a
  synchronisation finds the one channel it is meant for.
\<close>

theorem viewer_has_one_channel:
  assumes "video_runs s" "i < MAX_AV_CHANNEL" "channel_of sid ty (v_channels s ! i)"
  shows "length (v_channels s) = MAX_AV_CHANNEL \<and> get_old_channel sid ty (v_channels s) = int i"
proof -
  from assms(1) have "channels_ok (v_channels s)"
  proof induction
    case (fresh s)
    then show ?case by (auto simp: channels_ok_def list_all_length)
  next
    case (round s env)
    then show ?case by (simp add: channels_ok_round)
  next
    case (frame s scrap si ch senv)
    then show ?case by (simp add: channels_ok_stream)
  qed (simp_all add: video_thread_begins_def video_thread_ends_def Let_def)
  then show ?thesis
    using assms(2,3) unfolding get_old_channel_def
    by (auto simp: channels_ok_def channel_of_def intro!: first_channel_unique)
qed

section \<open>A viewer's first frame\<close>

text \<open>The frames that reached a service, and the run of frames from any encoders.\<close>

definition reached :: "int \<Rightarrow> video_call list \<Rightarrow> av_data_info_t list" where
  "reached sid cs = concat (map (\<lambda>c. case c of Send_media n _ avinfo r \<Rightarrow> if n = sid \<and> r = 0 then [avinfo] else [] | _ \<Rightarrow> []) cs)"

lemma reached_append [simp]: "reached sid (xs @ ys) = reached sid xs @ reached sid ys"
  by (simp add: reached_def)

lemma reached_simps [simp]:
  "reached sid [Send_media n d avinfo r] = (if n = sid \<and> r = 0 then [avinfo] else [])" "reached sid [Send_config n c] = []"
  by (simp_all add: reached_def)

type_synonym frame = "av_data_info_t \<times> stream_info \<times> nat \<times> stream_env"

definition frames_run :: "frame list \<Rightarrow> video_server \<Rightarrow> video_server" where
  "frames_run fs s = foldl (\<lambda>s (scrap, si, ch, env). stream_frame scrap si ch env s) s fs"

text \<open>Channel \<open>k\<close> is the one channel of a viewer, and waits for a key frame until one has reached him.\<close>

definition viewer :: "nat \<Rightarrow> int \<Rightarrow> video_call list \<Rightarrow> video_server \<Rightarrow> bool" where
  "viewer k sid before s = (length (v_channels s) = MAX_AV_CHANNEL \<and> k < MAX_AV_CHANNEL
     \<and> vc_service (v_channels s ! k) = sid \<and> vc_type (v_channels s ! k) = SERVER_ALIYUN
     \<and> (\<forall>i < MAX_AV_CHANNEL. i \<noteq> k \<longrightarrow> vc_service (v_channels s ! i) \<noteq> sid)
     \<and> (\<exists>new. video_calls s = before @ new \<and> (vc_require_key (v_channels s ! k) \<longleftrightarrow> reached sid new = [])
          \<and> (reached sid new \<noteq> [] \<longrightarrow> av_key_frame (hd (reached sid new)) \<noteq> 0)))"

lemma after_send_key:
  "vc_require_key (after_send r t c) = (vc_require_key c \<and> r \<noteq> 0)" "vc_service (after_send r t c) = vc_service c"
  "vc_type (after_send r t c) = vc_type c"
  by (simp_all add: after_send_def Let_def)

lemma viewer_deliver:
  assumes "i < MAX_AV_CHANNEL" "viewer k sid before s"
  shows "viewer k sid before (deliver_frame env avinfo data ch i s)"
proof -
  let ?t = "deliver_frame env avinfo data ch i s" and ?c = "v_channels s ! i"
  have s: "length (v_channels s) = 4" "k < 4" "vc_service (v_channels s ! k) = sid" "vc_type (v_channels s ! k) = SERVER_ALIYUN"
    "\<forall>i < 4. i \<noteq> k \<longrightarrow> vc_service (v_channels s ! i) \<noteq> sid"
    using assms(2) by (simp_all add: viewer_def)
  obtain new where new: "video_calls s = before @ new" "vc_require_key (v_channels s ! k) \<longleftrightarrow> reached sid new = []"
    "reached sid new \<noteq> [] \<longrightarrow> av_key_frame (hd (reached sid new)) \<noteq> 0"
    using assms(2) by (auto simp: viewer_def)
  consider (same) "v_channels ?t = v_channels s" "video_calls ?t = video_calls s"
    | (sent) cs where "v_channels ?t = (v_channels s)[i := after_send (send_media env i) (av_timestamp avinfo) ?c]"
      "video_calls ?t = video_calls s @ cs @ [Send_media (vc_service ?c) data avinfo (send_media env i)]" "\<And>n. reached n cs = []"
      "vc_require_key ?c \<longrightarrow> av_key_frame avinfo \<noteq> 0"
  proof (cases "vc_status ?c \<noteq> CHANNEL_VALID \<or> vc_stream ?c \<noteq> int ch \<or> vc_type ?c \<noteq> SERVER_ALIYUN \<or> (vc_require_key ?c \<and> av_key_frame avinfo = 0)")
    case True
    then show ?thesis
      by (intro same) (auto simp: deliver_frame_def write_video_buffer_def Let_def split: option.split prod.split)
  next
    case False
    let ?cs = "if vc_require_key ?c then [Send_config (vc_service ?c) (init_visual_stream_config (audio_set env) ?c s)] else []"
    show ?thesis
      by (rule sent [of ?cs]) (use False in \<open>auto simp: deliver_frame_def Let_def reached_def\<close>)
  qed
  then show ?thesis
  proof cases
    case same
    then show ?thesis using assms(2) by (simp add: viewer_def)
  next
    case sent
    let ?new = "new @ cs @ [Send_media (vc_service ?c) data avinfo (send_media env i)]"
    have calls: "video_calls ?t = before @ ?new" using sent(2) new(1) by simp
    have fields: "vc_service (v_channels ?t ! j) = vc_service (v_channels s ! j)" "vc_type (v_channels ?t ! j) = vc_type (v_channels s ! j)" for j
      unfolding sent(1) using s(1) assms(1) by (simp_all add: nth_list_update after_send_key)
    have "(vc_require_key (v_channels ?t ! k) \<longleftrightarrow> reached sid ?new = [])
      \<and> (reached sid ?new \<noteq> [] \<longrightarrow> av_key_frame (hd (reached sid ?new)) \<noteq> 0)"
    proof (cases "i = k")
      case True
      then show ?thesis using sent(1,3,4) new(2,3) s(1,2,3) by (auto simp: after_send_key hd_append)
    next
      case other: False
      have "vc_service ?c \<noteq> sid" using s(5) assms(1) other by blast
      then show ?thesis using other sent(1,3) new(2,3) by simp
    qed
    then show ?thesis using s fields sent(1) calls unfolding viewer_def by auto
  qed
qed

lemma viewer_frames: "viewer k sid before s \<Longrightarrow> viewer k sid before (frames_run fs s)"
proof (induction fs arbitrary: s)
  case (Cons f fs)
  obtain scrap si ch env where f: "f = (scrap, si, ch, env)" by (metis prod_cases4)
  have "viewer k sid before (stream_frame scrap si ch env s)"
    by (rule stream_frame_invariant [where P = "viewer k sid before", OF viewer_deliver Cons.prems])
  then show ?case using Cons.IH f by (simp add: frames_run_def)
qed (simp add: frames_run_def)

text \<open>
  C18: A viewer in the cloud that waits for a key frame is sent nothing that reaches it before one
  does: whatever frames the encoders produce and whichever of them the cloud takes, the first frame
  that reaches it is a key frame, and its channel waits exactly until then.
\<close>

theorem cloud_starts_with_key_frame:
  assumes "length (v_channels s) = MAX_AV_CHANNEL" "k < MAX_AV_CHANNEL" "channel_of sid SERVER_ALIYUN (v_channels s ! k)"
    and "vc_require_key (v_channels s ! k)" "\<forall>i < MAX_AV_CHANNEL. i \<noteq> k \<longrightarrow> vc_service (v_channels s ! i) \<noteq> sid"
  shows "\<exists>new. video_calls (frames_run fs s) = video_calls s @ new
    \<and> (vc_require_key (v_channels (frames_run fs s) ! k) \<longleftrightarrow> reached sid new = [])
    \<and> (reached sid new \<noteq> [] \<longrightarrow> av_key_frame (hd (reached sid new)) \<noteq> 0)"
proof -
  have "viewer k sid (video_calls s) s"
    unfolding viewer_def using assms
    by (intro conjI exI [of _ "[]"]) (simp_all add: channel_of_def reached_def)
  from viewer_frames [OF this, of fs] show ?thesis by (auto simp: viewer_def)
qed

section \<open>The start is repeated until all threads are there\<close>

text \<open>What is up stays up.\<close>

definition grows :: "video_server \<Rightarrow> video_server \<Rightarrow> bool" where
  "grows s t = (v_config t = v_config s \<and> length (venc_start (v_running t)) = length (venc_start (v_running s))
     \<and> (vi_start (v_running s) = 31 \<longrightarrow> vi_start (v_running t) = 31) \<and> (vpss_start (v_running s) \<longrightarrow> vpss_start (v_running t))
     \<and> (\<forall>i. venc_start (v_running s) ! i \<longrightarrow> venc_start (v_running t) ! i)
     \<and> (region_start (v_running s) \<longrightarrow> region_start (v_running t)) \<and> (md_start (v_running s) \<longrightarrow> md_start (v_running t)))"

definition brings_up :: "(video_server \<Rightarrow> bool) \<Rightarrow> (video_server \<Rightarrow> int \<times> video_server) \<Rightarrow> bool" where
  "brings_up up f = ((\<forall>s t. up s \<longrightarrow> grows s t \<longrightarrow> up t)
     \<and> (\<forall>s. length (venc_start (v_running s)) = 3 \<longrightarrow> fst (f s) = 0 \<longrightarrow> grows s (snd (f s)) \<and> up (snd (f s))))"

lemma grows_trans: "grows s t \<Longrightarrow> grows t u \<Longrightarrow> grows s u"
  by (simp add: grows_def)

lemma brings_up_andthen:
  assumes "brings_up a f" "brings_up b g"
  shows "brings_up (\<lambda>s. a s \<and> b s) (andthen f g)"
  unfolding brings_up_def
proof (intro conjI allI impI)
  show "a t" "b t" if "a s \<and> b s" "grows s t" for s t using assms that by (auto simp: brings_up_def)
  fix s :: video_server
  assume s: "length (venc_start (v_running s)) = 3" "fst (andthen f g s) = 0"
  obtain r t where f: "f s = (r, t)" by fastforce
  then have r: "r = 0" "fst (g t) = 0" "andthen f g s = g t" using s(2) by (auto simp: andthen_def split: if_splits)
  have t: "grows s t" "a t" using assms(1) s(1) f r(1) by (force simp: brings_up_def)+
  then have "length (venc_start (v_running t)) = 3" using s(1) by (simp add: grows_def)
  then have u: "grows t (snd (g t))" "b (snd (g t))" using assms(2) r(2) by (auto simp: brings_up_def)
  then show "grows s (snd (andthen f g s))" "b (snd (andthen f g s))" using t grows_trans r(3) by auto
  show "a (snd (andthen f g s))" using t u(1) assms(1) r(3) by (auto simp: brings_up_def)
qed

lemma full_bit: "misc_full_bit a VI_INIT_START_BUTT = 0 \<longleftrightarrow> a \<noteq> 31"
  by (simp add: misc_full_bit_def)

lemma start_vi_running:
  "fst (start_vi env s) = 0 \<Longrightarrow> v_running (snd (start_vi env s)) = (v_running s)\<lparr>vi_start := 31\<rparr> \<and> v_config (snd (start_vi env s)) = v_config s"
  by (simp add: start_vi_def andthen_def vi_starts create_thread_def set_isp_bit_def misc_set_bit_def Let_def split: if_splits)

definition encoder_up :: "nat \<Rightarrow> video_server \<Rightarrow> bool" where
  "encoder_up i s = (\<not> encoder_idle i s)"

lemma start_brings_up:
  "brings_up (\<lambda>s. vi_start (v_running s) = 31) (only_if (\<lambda>s. misc_full_bit (vi_start (v_running s)) VI_INIT_START_BUTT = 0) (start_vi env))"
  "brings_up (\<lambda>s. vpss_start (v_running s)) (only_if (\<lambda>s. \<not> vpss_start (v_running s)) (stage env Start_vpss (\<lambda>r. r\<lparr>vpss_start := True\<rparr>)))"
  "i < 3 \<Longrightarrow> brings_up (encoder_up i) (only_if (encoder_idle i) (start_encoder env i))"
  "brings_up (\<lambda>s. region_start (v_running s)) (only_if (\<lambda>s. \<not> region_start (v_running s))
     (create_thread env VIDEO_THREAD_OSD (\<lambda>r. r\<lparr>region_start := True\<rparr>)))"
  "brings_up (\<lambda>s. \<not> (enabled ID_MD s \<and> \<not> md_start (v_running s))) (only_if (\<lambda>s. enabled ID_MD s \<and> \<not> md_start (v_running s))
     (create_thread env VIDEO_THREAD_MD (\<lambda>r. r\<lparr>md_start := True\<rparr>)))"
proof -
  show "brings_up (\<lambda>s. vi_start (v_running s) = 31) (only_if (\<lambda>s. misc_full_bit (vi_start (v_running s)) VI_INIT_START_BUTT = 0) (start_vi env))"
    unfolding brings_up_def only_if_def full_bit using start_vi_running [of env] by (auto simp: grows_def)
  show "brings_up (\<lambda>s. vpss_start (v_running s)) (only_if (\<lambda>s. \<not> vpss_start (v_running s)) (stage env Start_vpss (\<lambda>r. r\<lparr>vpss_start := True\<rparr>)))"
    by (auto simp: brings_up_def only_if_def stage_def hisi_do_def grows_def)
  assume i: "i < 3"
  show "brings_up (encoder_up i) (only_if (encoder_idle i) (start_encoder env i))"
    unfolding brings_up_def
  proof (intro conjI allI impI)
    show "encoder_up i t" if "encoder_up i s" "grows s t" for s t
      using that by (auto simp: encoder_up_def encoder_idle_def grows_def)
    fix s :: video_server
    assume s: "length (venc_start (v_running s)) = 3" "fst (only_if (encoder_idle i) (start_encoder env i) s) = 0"
    let ?t = "snd (only_if (encoder_idle i) (start_encoder env i) s)"
    have "v_config ?t = v_config s \<and> v_running ?t = (if encoder_idle i s then (v_running s)\<lparr>venc_start := (venc_start (v_running s))[i := True]\<rparr> else v_running s)"
      using s(2) by (auto simp: only_if_def start_encoder_def hisi_do_def Let_def split: if_splits)
    then show "grows s ?t" "encoder_up i ?t"
      using s(1) i by (auto simp: grows_def encoder_up_def encoder_idle_def nth_list_update)
  qed
next
  show "brings_up (\<lambda>s. region_start (v_running s)) (only_if (\<lambda>s. \<not> region_start (v_running s))
     (create_thread env VIDEO_THREAD_OSD (\<lambda>r. r\<lparr>region_start := True\<rparr>)))"
    by (auto simp: brings_up_def only_if_def create_thread_def grows_def Let_def)
  show "brings_up (\<lambda>s. \<not> (enabled ID_MD s \<and> \<not> md_start (v_running s))) (only_if (\<lambda>s. enabled ID_MD s \<and> \<not> md_start (v_running s))
     (create_thread env VIDEO_THREAD_MD (\<lambda>r. r\<lparr>md_start := True\<rparr>)))"
    by (auto simp: brings_up_def only_if_def create_thread_def grows_def Let_def)
qed

lemma video_start_brings_up:
  "brings_up (\<lambda>s. vi_start (v_running s) = 31 \<and> vpss_start (v_running s) \<and> encoder_up 0 s \<and> encoder_up 1 s \<and> encoder_up 2 s
     \<and> region_start (v_running s) \<and> \<not> (enabled ID_MD s \<and> \<not> md_start (v_running s))) (video_start env)"
  unfolding video_start_def by (intro brings_up_andthen start_brings_up) simp_all

text \<open>
  A start that succeeds has set up everything it is asked for, so that the starts of the
  following rounds, which wait for the threads to report, do nothing: no thread is created and no
  stage started a second time.
\<close>

theorem repeated_start_does_nothing:
  assumes "length (venc_start (v_running s)) = 3" "fst (video_start env s) = 0"
  shows "video_start env' (snd (video_start env s)) = (0, snd (video_start env s))"
proof -
  define t where "t = snd (video_start env s)"
  have "vi_start (v_running t) = 31 \<and> vpss_start (v_running t) \<and> encoder_up 0 t \<and> encoder_up 1 t \<and> encoder_up 2 t
     \<and> region_start (v_running t) \<and> \<not> (enabled ID_MD t \<and> \<not> md_start (v_running t))"
    using video_start_brings_up [of env] assms unfolding brings_up_def t_def by blast
  then have "\<not> misc_full_bit (vi_start (v_running t)) VI_INIT_START_BUTT = 0" "vpss_start (v_running t)"
    "\<not> encoder_idle 0 t" "\<not> encoder_idle 1 t" "\<not> encoder_idle 2 t" "region_start (v_running t)"
    "\<not> (enabled ID_MD t \<and> \<not> md_start (v_running t))"
    unfolding encoder_up_def full_bit by blast+
  then have "video_start env' t = (0, t)"
    unfolding video_start_def andthen_def only_if_def by (simp only: if_False if_True prod.case not_True_eq_False refl)
  then show ?thesis by (simp only: t_def)
qed

section \<open>A restart\<close>

text \<open>
  A request that needs a restart, met by the running server, ends the server: the first step of
  the restart tells the threads to exit and does not wait for them, so that the server counts the
  restart as failed, reports it to the sender as done, and is on its way out one round later.
\<close>

theorem restart_ends_server:
  assumes "status (info s) = STATUS_RUN" "task_type (task (info s)) = TASK_TYPE_RESTART" "\<not> para_set s"
    and "cat (m_arg_in (task_msg (task (info s)))) \<noteq> VIDEO_PROPERTY_TIME_WATERMARK" "thread_start (info s) \<noteq> 0"
  shows "let r = task_proc env (state_machine env (task_proc env s)) in
    status (info r) = STATUS_ERROR \<and> task_type (task (info r)) = TASK_TYPE_NONE
    \<and> (\<exists>answer t. r = end_task answer t\<lparr>para_set := False\<rparr> \<and> m_result answer = 0
        \<and> m_receiver (task_msg (task (info t))) = m_receiver (task_msg (task (info s))))
    \<and> status (info (state_machine env r)) = EXIT_INIT"
proof -
  let ?a = "set_status STATUS_RESTART s"
  have a: "task_proc env s = ?a" using assms by (simp add: task_proc_def restart_task_def Let_def)
  have enc: "thread_start (info (stop_encoder env t i)) = thread_start (info t) \<and> task (info (stop_encoder env t i)) = task (info t)" for t i
    by (simp add: stop_encoder_def tell_exit_def hisi_do_def)
  have encs: "thread_start (info (foldl (stop_encoder env) t is)) = thread_start (info t)
      \<and> task (info (foldl (stop_encoder env) t is)) = task (info t)" for t "is"
    by (induction "is" arbitrary: t) (simp_all add: enc)
  have vi: "thread_start (info (stop_vi env t)) = thread_start (info t) \<and> task (info (stop_vi env t)) = task (info t)" for t
    by (simp add: stop_vi_def tell_exit_def Let_def split: prod.split)
  have stop: "thread_start (info (video_stop env ?a)) = thread_start (info s) \<and> task (info (video_stop env ?a)) = task (info s)"
    by (simp add: video_stop_def vi encs tell_exit_def hisi_do_def Let_def del: upt.simps foldl_Cons)
  let ?b = "set_status STATUS_ERROR (video_stop env ?a)"
  have b: "state_machine env ?a = ?b"
    using stop assms(5) by (simp add: state_machine_def video_server_restart_def Let_def)
  have c: "task_proc env ?b = finish_restart (stack_temp env) ?b"
    using stop assms(2) by (simp add: task_proc_def restart_task_def Let_def)
  let ?r = "finish_restart (stack_temp env) ?b"
  have r: "task_proc env (state_machine env (task_proc env s)) = ?r" by (simp only: a b c)
  have "\<exists>answer t. ?r = end_task answer t\<lparr>para_set := False\<rparr> \<and> m_result answer = 0
        \<and> m_receiver (task_msg (task (info t))) = m_receiver (task_msg (task (info s)))"
    using stop by (intro exI [of _ "(task_answer True ?b)\<lparr>m_arg := Some (P_int (stack_temp env)), m_arg_size := 4\<rparr>"] exI [of _ ?b])
      (simp add: finish_restart_def task_answer_def)
  moreover have "status (info ?r) = STATUS_ERROR" "task_type (task (info ?r)) = TASK_TYPE_NONE"
    by (simp_all add: finish_restart_def end_task_def)
  moreover have "status (info (state_machine env ?r)) = EXIT_INIT"
    using calculation(2) by (simp add: state_machine_def)
  ultimately show ?thesis unfolding r Let_def by blast
qed

section \<open>A concrete server\<close>

definition free_video_channel :: video_channel_t where
  "free_video_channel = \<lparr>vc_status = CHANNEL_EMPTY, vc_type = 0, vc_stream = 0, vc_service = 0, vc_require_key = False, vc_qos = 0\<rparr>"

definition demo_profile :: stream_profile_info_t where
  "demo_profile = \<lparr>enable = True, pic_size = PIC_CIF, width = 352, height = 288, frame_rate = 15, vpss_chn = 0\<rparr>"

definition demo_video :: video_server where
  "demo_video = \<lparr>info = info_zero (), bus = (\<lambda>_. demo_queue 1), waiting = False,
     v_running = running_zero, v_channels = [free_video_channel, free_video_channel, free_video_channel, free_video_channel],
     v_config = \<lparr>streams = replicate 4 demo_profile, group_w = 0, group_h = 0,
       vpss_channels = replicate 3 \<lparr>chn_width = 0, chn_height = 0, chn_mirror = 0, chn_enabled = False\<rparr>, isp_frame_rate = 0\<rparr>,
     payloads = [PT_H265, PT_H264, PT_JPEG, PT_OTHER], ldc = False, sad_thresh = [100, 80, 60, 40, 20, 10], alarm_interval = [1, 5, 10],
     settings = \<lparr>video_quality = 0, subvideo_quality = 0, alarm_switch = 1, motion_detect_sensitivity = 2, alarm_freqency = 0,
       mirror = 0, day_night = 2, motion_scheduler = replicate 7 (0, 0), motion_scheduler_enable = 0, osd_enable = 1, wdr_enable = 0,
       image_correct = 0, smd_enable = 0\<rparr>,
     last_report = 0, para_set = False, snap_buff = demo_queue 1, video_rec_buff = [], video_calls = [], video_fault = False\<rparr>"

definition demo_venv :: video_env where
  "demo_venv = \<lparr>v_hisi = (\<lambda>_. 0), v_create = (\<lambda>_. 0), chip_known = True, vi_mode = 0, stop_value = 0, stop_address = 0,
     uninit_address = 0, stack_info = 0, stack_temp = 0, stack_msg = None, now = 0, local_time = (\<lambda>_. \<lparr>tm_year = 0, tm_mon = 0, tm_mday = 0, tm_hour = 0, tm_min = 0, tm_sec = 0\<rparr>),
     week_day = (\<lambda>_. 0), alarm_length = 0\<rparr>"

definition demo_viewer :: msg where
  "demo_viewer = msg_init\<lparr>m_message := MSG_VIDEO_START, m_sender := SERVER_ALIYUN, m_receiver := SERVER_ALIYUN,
     m_arg_in := arg_zero\<lparr>cat := 0, wolf := 7\<rparr>\<rparr>"

text \<open>A running server with a request to start the stream pending, and the server after its round.\<close>

definition asked_video :: video_server where
  "asked_video = with_info (\<lambda>x. x\<lparr>status := STATUS_RUN, task := (task x)\<lparr>task_type := TASK_TYPE_START, task_msg := demo_viewer\<rparr>\<rparr>) demo_video"

definition viewed_video :: video_server where
  "viewed_video = demo_video\<lparr>v_channels := [free_video_channel\<lparr>vc_status := CHANNEL_VALID, vc_type := SERVER_ALIYUN,
     vc_service := 7, vc_require_key := True\<rparr>, free_video_channel, free_video_channel, free_video_channel]\<rparr>"

definition demo_frame :: "u8 \<Rightarrow> frame" where
  "demo_frame b = (undefined, \<lparr>si_width = 352, si_height = 288, si_fps = 15\<rparr>, 0,
     \<lparr>selected = Select_frame, query_status = 0, cur_packs = 1, pack_malloc_ok = True, get_stream = 0,
      packs = [[0, 0, 0, 1, b, 0, 0, 0]], data_malloc_ok = True, release_stream = 0, frame_seq = 0, now_ms = 0,
      universal_tag = 0, send_media = (\<lambda>_. 0), audio_set = \<lparr>a_payload = PT_G711A, a_bits = 16, a_rate = 8000\<rparr>\<rparr>)"

lemma deliver_closed: "vc_status (v_channels s ! i) \<noteq> CHANNEL_VALID \<Longrightarrow> deliver_frame env avinfo data ch i s = s"
  by (simp add: deliver_frame_def Let_def)

lemma only_viewer:
  assumes "\<forall>i \<in> {1, 2, 3}. vc_status (v_channels s ! i) \<noteq> CHANNEL_VALID"
  shows "stream_frame scrap si ch env s = deliver_frame env (frame_info scrap si ch env) (concat (packs env)) ch 0 s"
proof -
  let ?d = "deliver_frame env (frame_info scrap si ch env) (concat (packs env)) ch"
  have d: "?d i (?d 0 s) = ?d 0 s" if "i \<in> {1, 2, 3}" for i
    using assms that by (intro deliver_closed) (auto simp: deliver_others(2))
  have "[0..<4] = [0, 1, 2, 3 :: nat]" by (simp add: upt_conv_Cons)
  then show ?thesis using d [of 1] d [of 2] d [of 3] by (simp add: stream_frame_def)
qed

lemma demo_frame_key:
  "vc_require_key (v_channels (frames_run [demo_frame b] viewed_video) ! 0) = (h264_is_iframe b = 0)"
  if "h264_is_iframe b \<in> {0, 1}"
proof -
  have s: "\<forall>i \<in> {1, 2, 3}. vc_status (v_channels viewed_video ! i) \<noteq> CHANNEL_VALID"
    by (simp add: viewed_video_def free_video_channel_def)
  show ?thesis
    using that unfolding frames_run_def demo_frame_def
    by (simp add: only_viewer [OF s]) (auto simp: deliver_frame_def frame_info_def after_send_def viewed_video_def demo_video_def free_video_channel_def Let_def)
qed

theorem viewer_has_one_channel_witness:
  "get_old_channel 7 SERVER_ALIYUN (v_channels (video_server_round demo_venv asked_video)) = 0"
proof -
  have "video_runs asked_video" by (rule fresh) (simp_all add: asked_video_def demo_video_def free_video_channel_def list_all_iff)
  then have r: "video_runs (video_server_round demo_venv asked_video)" by (rule round)
  have "channel_of 7 SERVER_ALIYUN (v_channels (video_server_round demo_venv asked_video) ! 0)"
    using quiet_empty [of "demo_queue 1"]
    by (simp add: quiet_def queue_empty_def frame_send_other_queue video_server_round_def loop_round_def video_server_turn_def loop_turn_def state_machine_def task_proc_def
        enter_channel_def finish_task_def end_task_def get_new_channel_def channel_of_def video_message_proc_def message_proc_def
        asked_video_def demo_video_def demo_viewer_def free_video_channel_def info_zero_def Let_def)
  from viewer_has_one_channel [OF r _ this] show ?thesis by simp
qed

theorem cloud_starts_with_key_frame_witness:
  "vc_require_key (v_channels (frames_run [demo_frame 0x61] viewed_video) ! 0)
   \<and> \<not> vc_require_key (v_channels (frames_run [demo_frame 0x65] viewed_video) ! 0)
   \<and> (\<exists>new. video_calls (frames_run [demo_frame 0x65] viewed_video) = new \<and> reached 7 new \<noteq> []
        \<and> av_key_frame (hd (reached 7 new)) \<noteq> 0)"
proof -
  have h: "length (v_channels viewed_video) = MAX_AV_CHANNEL" "(0 :: nat) < MAX_AV_CHANNEL"
    "channel_of 7 SERVER_ALIYUN (v_channels viewed_video ! 0)" "vc_require_key (v_channels viewed_video ! 0)"
    "\<forall>i < MAX_AV_CHANNEL. i \<noteq> 0 \<longrightarrow> vc_service (v_channels viewed_video ! i) \<noteq> 7"
    by (auto simp: viewed_video_def channel_of_def free_video_channel_def nth_Cons split: nat.split)
  have run: "vc_require_key (v_channels (frames_run [demo_frame 0x61] viewed_video) ! 0)"
    "\<not> vc_require_key (v_channels (frames_run [demo_frame 0x65] viewed_video) ! 0)"
    using demo_frame_key [of "0x61"] demo_frame_key [of "0x65"] by (simp_all add: h264_is_iframe_def)
  have "video_calls viewed_video = []" by (simp add: viewed_video_def demo_video_def)
  then show ?thesis using cloud_starts_with_key_frame [OF h, of "[demo_frame 0x65]"] run by auto
qed

theorem repeated_start_does_nothing_witness:
  "video_start demo_venv (snd (video_start demo_venv demo_video)) = (0, snd (video_start demo_venv demo_video))"
proof (rule repeated_start_does_nothing)
  show "length (venc_start (v_running demo_video)) = 3" by (simp add: demo_video_def running_zero_def)
  show "fst (video_start demo_venv demo_video) = 0"
    by (simp add: video_start_def andthen_def only_if_def stage_def start_vi_def start_encoder_def create_thread_def encoder_idle_def
        hisi_do_def vi_starts demo_venv_def demo_video_def demo_profile_def running_zero_def Let_def)
qed

theorem restart_ends_server_witness:
  "let s = with_info (\<lambda>x. x\<lparr>status := STATUS_RUN, thread_start := 1,
       task := (task x)\<lparr>task_type := TASK_TYPE_RESTART, task_msg := demo_viewer, task_start := STATUS_RUN\<rparr>\<rparr>) demo_video in
     status (info (state_machine demo_venv (task_proc demo_venv (state_machine demo_venv (task_proc demo_venv s))))) = EXIT_INIT"
proof -
  let ?s = "with_info (\<lambda>x. x\<lparr>status := STATUS_RUN, thread_start := 1,
       task := (task x)\<lparr>task_type := TASK_TYPE_RESTART, task_msg := demo_viewer, task_start := STATUS_RUN\<rparr>\<rparr>) demo_video"
  have "status (info ?s) = STATUS_RUN" "task_type (task (info ?s)) = TASK_TYPE_RESTART" "\<not> para_set ?s"
    "cat (m_arg_in (task_msg (task (info ?s)))) \<noteq> VIDEO_PROPERTY_TIME_WATERMARK" "thread_start (info ?s) \<noteq> 0"
    by (simp_all add: demo_video_def demo_viewer_def)
  from restart_ends_server [OF this, of demo_venv] show ?thesis by (simp add: Let_def)
qed

end
