(* ===== verification/VideoExit.thy ===== *)
theory VideoExit
  imports VideoProps
begin

text \<open>How the video server leaves its loop, what can keep it in, and what it finds when it is started again.\<close>

section \<open>What the release leaves alone\<close>

definition only_tells :: "video_server \<Rightarrow> video_server \<Rightarrow> bool" where
  "only_tells s t = ((\<exists>e. info t = (info s)\<lparr>thread_exit := e\<rparr>) \<and> bus t SERVER_VIDEO = bus s SERVER_VIDEO \<and> waiting t = waiting s
     \<and> video_fault t = video_fault s \<and> snap_buff t = snap_buff s \<and> v_config t = v_config s)"

lemma only_tellsI:
  "info t = (info s)\<lparr>thread_exit := e\<rparr> \<Longrightarrow> bus t SERVER_VIDEO = bus s SERVER_VIDEO \<Longrightarrow> waiting t = waiting s
   \<Longrightarrow> video_fault t = video_fault s \<Longrightarrow> snap_buff t = snap_buff s \<Longrightarrow> v_config t = v_config s \<Longrightarrow> only_tells s t"
  by (auto simp: only_tells_def)

lemma only_tells_refl [simp, intro]: "only_tells s s"
  by (rule only_tellsI [where e = "thread_exit (info s)"]) simp_all

lemma only_tells_trans: "only_tells s t \<Longrightarrow> only_tells t u \<Longrightarrow> only_tells s u"
proof -
  assume st: "only_tells s t" and tu: "only_tells t u"
  obtain e e' where "info t = (info s)\<lparr>thread_exit := e\<rparr>" "info u = (info t)\<lparr>thread_exit := e'\<rparr>"
    using st tu unfolding only_tells_def by blast
  then have "info u = (info s)\<lparr>thread_exit := e'\<rparr>" by simp
  then show "only_tells s u" by (rule only_tellsI) (use st tu in \<open>simp_all add: only_tells_def\<close>)
qed

lemma only_tells_foldl:
  "(\<And>i t. only_tells t (f t i)) \<Longrightarrow> only_tells s (foldl f s is)"
proof (induction "is" arbitrary: s)
  case (Cons i "is")
  show ?case using only_tells_trans [OF Cons.prems Cons.IH [OF Cons.prems]] by simp
qed simp

lemma only_tells_steps:
  "only_tells s (with_running f s)" "only_tells s (hisi_do env c s)" "only_tells s (tell_exit i s)" "only_tells s (log_parts env g ps s)"
proof -
  have same: "only_tells s t" if "info t = info s" "bus t = bus s" "waiting t = waiting s" "video_fault t = video_fault s"
    "snap_buff t = snap_buff s" "v_config t = v_config s" for s t :: video_server
    by (rule only_tellsI [where e = "thread_exit (info s)"]) (use that in simp_all)
  show "only_tells s (with_running f s)" "only_tells s (hisi_do env c s)" by (rule same; simp add: hisi_do_def)+
  show "only_tells s (tell_exit i s)" by (rule only_tellsI) (simp_all add: tell_exit_def)
  show "only_tells s (log_parts env g ps s)" unfolding log_parts_def
    by (rule only_tells_foldl) (rule same; simp add: hisi_do_def)
qed

lemmas only_tells_chain = only_tells_steps only_tells_trans [OF _ only_tells_steps(1)] only_tells_trans [OF _ only_tells_steps(2)]
  only_tells_trans [OF _ only_tells_steps(3)] only_tells_trans [OF _ only_tells_steps(4)]

lemma only_tells_stop: "only_tells s (video_stop env s)"
proof -
  have se: "only_tells t (stop_encoder env t i)" for t i
    unfolding stop_encoder_def by (auto intro!: only_tells_chain)
  have sv: "only_tells t (stop_vi env t)" for t
    unfolding stop_vi_def Let_def by (auto intro!: only_tells_chain split: prod.split)
  define a where "a = (if md_start (v_running s)
             then with_running (\<lambda>r. r\<lparr>md_run := False, md_start := False\<rparr>) (tell_exit VIDEO_THREAD_MD s) else s)"
  define b where "b = (if region_start (v_running a) then with_running (\<lambda>r. r\<lparr>region_start := False\<rparr>) (tell_exit VIDEO_THREAD_OSD a) else a)"
  define c where "c = foldl (stop_encoder env) b [0..<VPSS_MAX_PHY_CHN_NUM]"
  define d where "d = (if vpss_start (v_running c) then with_running (\<lambda>r. r\<lparr>vpss_start := False\<rparr>) (hisi_do env Stop_vpss c) else c)"
  have sa: "only_tells s a" unfolding a_def by (auto intro!: only_tells_chain)
  have ab: "only_tells a b" unfolding b_def by (auto intro!: only_tells_chain)
  have bc: "only_tells b c" unfolding c_def by (rule only_tells_foldl) (rule se)
  have cd: "only_tells c d" unfolding d_def by (auto intro!: only_tells_chain)
  have "video_stop env s = (if vi_start (v_running d) \<noteq> 0 then stop_vi env d else d)"
    unfolding video_stop_def Let_def a_def b_def c_def d_def by (rule refl)
  moreover have "only_tells d (if vi_start (v_running d) \<noteq> 0 then stop_vi env d else d)" using sv by simp
  ultimately have "only_tells d (video_stop env s)" by simp
  then show ?thesis by (rule only_tells_trans [OF only_tells_trans [OF only_tells_trans [OF only_tells_trans [OF sa ab] bc] cd]])
qed

lemma only_tells_uninit: "only_tells s (snd (video_uninit env s))"
proof -
  have to_manager: "only_tells t (send SERVER_MANAGER m u)" if "only_tells t u" for t u m
    using that by (simp add: only_tells_def frame_send_other_queue)
  have ue: "only_tells (snd a) (snd (uninit_encoder env a i))" for a i
    unfolding uninit_encoder_def by (cases a) (auto simp: Let_def intro!: only_tells_chain)
  have ues: "only_tells (snd a) (snd (foldl (uninit_encoder env) a is))" for a "is"
  proof (induction "is" arbitrary: a)
    case (Cons i "is")
    show ?case using only_tells_trans [OF ue Cons.IH] by simp
  qed simp
  have uo: "only_tells t (uninit_overlays env t)" for t
  proof -
    have "only_tells t (uninit_motion env t)" unfolding uninit_motion_def Let_def by (auto intro!: to_manager only_tells_chain)
    then show ?thesis unfolding uninit_overlays_def Let_def by (auto intro!: only_tells_chain)
  qed
  have ui: "only_tells t (uninit_input env t)" for t
    unfolding uninit_input_def Let_def by (auto intro!: only_tells_chain split: prod.split)
  show ?thesis
    using only_tells_trans [OF uo [of s] only_tells_trans [OF ues [of "(0, uninit_overlays env s)" "[0..<VPSS_MAX_PHY_CHN_NUM]", simplified snd_conv] ui]]
    unfolding video_uninit_def
    by (cases "foldl (uninit_encoder env) (0, uninit_overlays env s) [0..<VPSS_MAX_PHY_CHN_NUM]") (simp del: upt.simps)
qed

lemma only_tells_release: "only_tells s (video_server_release_1 env s)"
  unfolding video_server_release_1_def by (rule only_tells_trans [OF only_tells_stop only_tells_uninit])

section \<open>The server leaves its loop\<close>

lemma video_ends_frame:
  "info (video_thread_ends i s) = (info s)\<lparr>thread_start := misc_clear_bit (thread_start (info s)) i, thread_exit := thread_exit (info s)\<rparr>"
  "bus (video_thread_ends i s) SERVER_VIDEO = global_common_send_dummy (bus s) SERVER_VIDEO SERVER_VIDEO"
  "waiting (video_thread_ends i s) = waiting s" "video_fault (video_thread_ends i s) = video_fault s"
  "task (info (video_thread_ends i s)) = task (info s)" "snap_buff (video_thread_ends i s) = snap_buff s"
  by (simp_all add: video_thread_ends_def Let_def)

interpretation video_threads: thread_pool SERVER_VIDEO video_thread_ends "\<lambda>i n. n"
  by unfold_locales (simp_all add: is_server_def video_ends_frame)

text \<open>The threads that end when their exit bit is set: all but the one of the image processor.\<close>

abbreviation "told_threads \<equiv> [VIDEO_THREAD_ENCODER, VIDEO_THREAD_ENCODER + 1, VIDEO_THREAD_ENCODER + 2,
  VIDEO_THREAD_ISP_EXTRA, VIDEO_THREAD_OSD, VIDEO_THREAD_MD]"

definition video_settle :: "video_server \<Rightarrow> video_server" where
  "video_settle = settle_threads video_thread_ends told_threads"

text \<open>No task is pending, and the message from the stack can be copied or nobody copies it.\<close>

definition video_idle :: "video_env \<Rightarrow> video_server \<Rightarrow> bool" where
  "video_idle env s = (\<not> video_fault s \<and> task_type (task (info s)) = TASK_TYPE_NONE
     \<and> (stack_msg env = None \<longrightarrow> b_init (snap_buff s) = 0))"

lemma video_bits: "bit (119 :: int) k = (k \<in> set told_threads)"
proof -
  have "bit (119 :: int) k = (k < 7 \<and> k \<noteq> 3)"
  proof (cases "k < 7")
    case True
    then have "k \<in> {0, 1, 2, 3, 4, 5, 6}" by auto
    then show ?thesis by (auto simp: bit_iff_odd)
  next
    case False
    then have "(2 :: int) ^ 7 \<le> 2 ^ k" by (intro power_increasing) simp_all
    then have "(119 :: int) div 2 ^ k = 0" by (intro div_pos_pos_trivial) simp_all
    then show ?thesis using False by (simp add: bit_iff_odd)
  qed
  then show ?thesis by auto
qed

lemma video_settle_idle: "video_idle env (video_settle s) = video_idle env s"
  unfolding video_settle_def by (rule video_threads.settle_invariant) (simp add: video_idle_def video_ends_frame)

lemma broadcast_frame:
  assumes "video_idle env s"
  shows "info (video_broadcast_thread_exit env (s\<lparr>info := x\<rparr>)) = x" "bus (video_broadcast_thread_exit env (s\<lparr>info := x\<rparr>)) = bus s"
    "waiting (video_broadcast_thread_exit env (s\<lparr>info := x\<rparr>)) = waiting s"
    "\<not> video_fault (video_broadcast_thread_exit env (s\<lparr>info := x\<rparr>))"
    "stack_msg env = None \<Longrightarrow> b_init (snap_buff (video_broadcast_thread_exit env (s\<lparr>info := x\<rparr>))) = 0"
  using assms by (simp_all add: video_broadcast_thread_exit_def video_idle_def split: option.split)

lemmas video_machine_defs = state_machine_def ladder_def exit_init_def video_server_release_2_def

lemma machine_climbs:
  assumes "video_idle env s" "status (info s) \<in> exit_states"
  shows "climbs (info s) (info (state_machine env s))
    \<and> bus (state_machine env s) SERVER_VIDEO =
        (if status (info s) = EXIT_STAGE2 then msg_buffer_release (bus s SERVER_VIDEO) else bus s SERVER_VIDEO)
    \<and> waiting (state_machine env s) = waiting s \<and> video_idle env (state_machine env s)"
proof -
  consider "status (info s) = EXIT_STAGE1" | "status (info s) = EXIT_THREAD"
    | "status (info s) \<in> {EXIT_INIT, EXIT_SERVER, EXIT_STAGE2, EXIT_FINISH}" using assms(2) by blast
  then show ?thesis
  proof cases
    case 1
    let ?t = "video_server_release_1 env s"
    obtain e where t: "info ?t = (info s)\<lparr>thread_exit := e\<rparr>" "bus ?t SERVER_VIDEO = bus s SERVER_VIDEO" "waiting ?t = waiting s"
      "video_fault ?t = video_fault s" "snap_buff ?t = snap_buff s"
      using only_tells_release [of s env] by (auto simp: only_tells_def)
    have "climbs (info s) ((info s)\<lparr>thread_exit := e, status := EXIT_THREAD\<rparr>)"
      unfolding climbs_def by (rule exI [of _ "status2 (info s)"], rule exI [of _ e]) (simp add: 1 ladder_def)
    then show ?thesis using 1 t assms(1) by (simp add: state_machine_def video_idle_def)
  next
    case 2
    let ?x = "(info s)\<lparr>thread_exit := thread_start (info s)\<rparr>"
    define u where "u = video_broadcast_thread_exit env (with_info (\<lambda>x. x\<lparr>thread_exit := thread_start x\<rparr>) s)"
    have b: "info u = ?x" "bus u = bus s" "waiting u = waiting s" "\<not> video_fault u" "stack_msg env = None \<Longrightarrow> b_init (snap_buff u) = 0"
      using broadcast_frame [OF assms(1), of ?x] unfolding u_def by simp_all
    have m: "state_machine env s = (if thread_start (info u) = 0 then set_status EXIT_STAGE2 u else u)"
      using 2 by (simp add: state_machine_def u_def Let_def)
    have c: "climbs (info s) (if thread_start (info s) = 0 then ?x\<lparr>status := EXIT_STAGE2\<rparr> else ?x)"
      using 2 by (intro ladder_keeps) (simp add: ladder_def)
    have i: "info (state_machine env s) = (if thread_start (info s) = 0 then ?x\<lparr>status := EXIT_STAGE2\<rparr> else ?x)"
      by (simp only: m b(1)) (simp add: b(1))
    have "bus (state_machine env s) = bus s" "waiting (state_machine env s) = waiting s"
      "\<not> video_fault (state_machine env s)" "snap_buff (state_machine env s) = snap_buff u"
      using b by (simp_all add: m)
    moreover have "task (info (state_machine env s)) = task (info s)" by (simp add: i)
    ultimately show ?thesis using 2 b(5) c assms(1) by (simp only: i video_idle_def) simp
  next
    case 3
    then have "climbs (info s) (info (state_machine env s))"
      by (intro ladder_keeps) (auto simp: video_machine_defs Let_def)
    then show ?thesis using 3 assms(1) by (auto simp: video_machine_defs video_idle_def Let_def)
  qed
qed

interpretation video_exit: exit_ladder SERVER_VIDEO 119 "state_machine env" video_fault
    "task_proc env" video_message_block video_message_filter "handle_message env" video_settle "video_idle env"
  for env
proof unfold_locales
  fix s :: video_server and m
  assume s: "video_idle env s" "status (info s) \<in> exit_states"
  show "climbs (info s) (info (state_machine env s))" using machine_climbs [OF s] by blast
  show "bus (state_machine env s) SERVER_VIDEO =
      (if status (info s) = EXIT_STAGE2 then msg_buffer_release (bus s SERVER_VIDEO) else bus s SERVER_VIDEO)"
    using machine_climbs [OF s] by blast
  show "waiting (state_machine env s) = waiting s \<and> \<not> video_fault (state_machine env s) \<and> video_idle env (state_machine env s)"
    using machine_climbs [OF s] by (auto simp: video_idle_def)
  show "task_proc env s = s" using s by (auto simp: task_proc_def video_idle_def)
next
  fix s :: video_server and m :: msg
  show "video_idle env s \<Longrightarrow> status (info s) = STATUS_NONE \<Longrightarrow> \<exists>v. task_proc env s = set_status v s"
    by (auto simp: task_proc_def video_idle_def)
  show "m_message m = MSG_MANAGER_DUMMY \<Longrightarrow> handle_message env m s = s" by (simp add: handle_message_def)
  show "thread_start (info s) AND 119 = thread_start (info s) \<Longrightarrow> \<exists>e. info (video_settle s) = (info s)\<lparr>
      thread_start := thread_start (info s) AND NOT (thread_exit (info s)), thread_exit := e\<rparr>"
    unfolding video_settle_def by (rule video_threads.settle_info [OF _ video_bits])
  show "video_idle env s \<Longrightarrow> waiting (video_settle s) = waiting s \<and> video_idle env (video_settle s)"
    using video_settle_idle [of env s] by (simp add: video_settle_def video_threads.settle_rest)
  show "thread_start (info s) AND 119 = thread_start (info s) \<Longrightarrow> quiet (bus s SERVER_VIDEO) \<Longrightarrow>
      b_init (bus s SERVER_VIDEO) \<noteq> 0 \<Longrightarrow>
      quiet (bus (video_settle s) SERVER_VIDEO) \<and> b_init (bus (video_settle s) SERVER_VIDEO) \<noteq> 0
      \<and> (thread_start (info s) AND thread_exit (info s) \<noteq> 0 \<longrightarrow> contents (bus (video_settle s) SERVER_VIDEO) \<noteq> [])"
    unfolding video_settle_def by (rule video_threads.settle_queue [OF _ video_bits])
  show "thread_start (info s) = 0 \<Longrightarrow> bus (video_settle s) SERVER_VIDEO = bus s SERVER_VIDEO"
    by (simp add: video_settle_def video_threads.settle_none)
qed (simp_all add: video_message_block_def message_block_def video_idle_def)

definition video_exit_step :: "video_env \<Rightarrow> video_server \<Rightarrow> video_server" where
  "video_exit_step env s = loop_round SERVER_VIDEO (video_server_turn env) (video_take_message env) (video_settle s)"

text \<open>
  A video server that was told to exit with no task pending, whose image processor's thread has
  ended, whose queue holds nothing but dummies and whose other threads end when their exit bit is
  set, leaves its loop within nine rounds.
\<close>

theorem video_exit_completes:
  assumes "leaving SERVER_VIDEO 119 (video_idle env) s"
  shows "\<exists>n \<le> 9. exit_flag (info ((video_exit_step env ^^ n) s)) \<noteq> 0"
proof -
  have "video_exit_step env = (\<lambda>s. loop_round SERVER_VIDEO
      (loop_turn (state_machine env) video_fault (task_proc env)
        (message_proc SERVER_VIDEO video_message_block video_message_filter (handle_message env)))
      (take_message SERVER_VIDEO video_message_block video_message_filter (handle_message env)) (video_settle s))"
    by (rule ext) (simp add: video_exit_step_def video_server_turn_def video_message_proc_def video_take_message_def)
  then show ?thesis using video_exit.leaves_loop [OF assms] by simp
qed


theorem video_exit_completes_witness:
  "\<exists>n \<le> 9. exit_flag (info ((video_exit_step demo_venv ^^ n)
     ((with_info (\<lambda>x. x\<lparr>status := EXIT_INIT, thread_start := 0x77\<rparr>) demo_video)\<lparr>snap_buff := (demo_queue 1)\<lparr>b_init := 0\<rparr>\<rparr>))) \<noteq> 0"
  by (rule video_exit_completes)
    (simp add: leaving_def video_idle_def demo_video_def demo_venv_def info_zero_def quiet_def task_zero_def)

end
