(* ===== verification/VideoFaults.thy ===== *)
theory VideoFaults
  imports VideoExit
begin

text \<open>
  What keeps the video server in its loop, and what it finds when it is started a second time.
\<close>

section \<open>What the handler and the task leave alone\<close>

lemma no_channel_flips:
  assumes "v_config s = config_zero"
  shows "set_flip env temp s = s \<or> (\<exists>c. set_flip env temp s = video_do Save_config (with_settings c s))"
proof -
  have "flip_channels env temp [0..<VPSS_MAX_PHY_CHN_NUM] s = (True, s)"
    using assms by (simp add: config_zero_def upt_conv_Cons)
  then show ?thesis by (auto simp: set_flip_def)
qed

lemma flips_info: "info (snd (flip_channels env temp is s)) = info s"
  by (induction "is" arbitrary: s) (simp_all add: set_mirror_def hisi_do_def Let_def)

lemma set_flip_info: "info (set_flip env temp s) = info s"
proof -
  obtain ok t where "flip_channels env temp [0..<VPSS_MAX_PHY_CHN_NUM] s = (ok, t)" by fastforce
  then show ?thesis using flips_info [of env temp "[0..<VPSS_MAX_PHY_CHN_NUM]" s] by (cases ok) (simp_all add: set_flip_def)
qed

lemma setters_frame:
  "info (set_sensitivity env temp s) = info s" "v_config (set_sensitivity env temp s) = v_config s"
  "info (set_motion_plan m s) = info s" "v_config (set_motion_plan m s) = v_config s"
  "info (set_night_shot temp s) = info s" "v_config (set_night_shot temp s) = v_config s"
  "info (set_image_correct temp s) = info s" "v_config (set_image_correct temp s) = v_config s"
  "info (set_quality temp s) = info s" "v_config (set_quality temp s) = v_config s"
  "info (set_byte temp m get upd s) = info s" "v_config (set_byte temp m get upd s) = v_config s"
  "info (report m get s) = info s" "v_config (report m get s) = v_config s"
  by (simp_all add: set_sensitivity_def set_motion_plan_def set_night_shot_def set_image_correct_def set_quality_def set_byte_def
      report_def hisi_do_def Let_def)

lemma property_frame:
  "info (video_set_property env m s) = info s"
  "v_config s = config_zero \<Longrightarrow> v_config (video_set_property env m s) = config_zero"
proof -
  show "info (video_set_property env m s) = info s"
    by (simp add: video_set_property_def setters_frame set_flip_info Let_def split: option.split payload.split)
  assume z: "v_config s = config_zero"
  have "v_config (set_flip env temp s) = config_zero" for temp using no_channel_flips [OF z, of env temp] z by auto
  then show "v_config (video_set_property env m s) = config_zero"
    using z by (simp add: video_set_property_def setters_frame Let_def split: option.split payload.split)
qed

lemma handle_frame:
  "thread_start (info (handle_message env m s)) = thread_start (info s)"
  "exit_flag (info (handle_message env m s)) = exit_flag (info s)"
  "status (info (handle_message env m s)) \<in> {status (info s), EXIT_INIT}"
  "v_config s = config_zero \<Longrightarrow> v_config (handle_message env m s) = config_zero"
proof -
  have t: "info (on_timer env m s) = info s" "v_config (on_timer env m s) = v_config s"
    by (simp_all add: on_timer_def video_md_check_scheduler_def split: handler_t.split)
  note defs = handle_message_def property_frame t require_key_frame_def take_task_def keep_task_msg_def take_restart_def
    on_manager_exit_def on_goke_status_def on_exit_ack_def on_request_sync_def close_channel_def Let_def
  show "thread_start (info (handle_message env m s)) = thread_start (info s)"
    "exit_flag (info (handle_message env m s)) = exit_flag (info s)"
    "status (info (handle_message env m s)) \<in> {status (info s), EXIT_INIT}"
    "v_config s = config_zero \<Longrightarrow> v_config (handle_message env m s) = config_zero"
    by (simp_all add: defs)
qed

lemma task_frame:
  "thread_start (info (task_proc env s)) = thread_start (info s)"
  "exit_flag (info (task_proc env s)) = exit_flag (info s)"
  "v_config (task_proc env s) = v_config s"
proof -
  have c: "info (enter_channel s) = info s" "v_config (enter_channel s) = v_config s" "info (leave_channel s) = info s"
    "v_config (leave_channel s) = v_config s"
    by (simp_all add: enter_channel_def leave_channel_def close_channel_def Let_def split: prod.split)
  note defs = task_proc_def restart_task_def finish_task_def finish_restart_def end_task_def c Let_def
  show "thread_start (info (task_proc env s)) = thread_start (info s)"
    "exit_flag (info (task_proc env s)) = exit_flag (info s)" "v_config (task_proc env s) = v_config s"
    by (simp_all add: defs split: option.split)
qed

lemma task_status: "status (info (task_proc env s)) \<in> {status (info s), STATUS_INIT, STATUS_SETUP, STATUS_START, STATUS_RESTART}"
proof -
  have c: "info (enter_channel s) = info s" "info (leave_channel s) = info s"
    by (simp_all add: enter_channel_def leave_channel_def close_channel_def Let_def split: prod.split)
  show ?thesis
    by (simp add: task_proc_def restart_task_def finish_task_def finish_restart_def end_task_def c Let_def split: option.split)
qed

section \<open>The thread of the image processor\<close>

text \<open>Everything but the end of that thread: the rounds of the server, its other threads, and other servers' messages.\<close>

inductive others_run :: "video_server \<Rightarrow> video_server \<Rightarrow> bool" for s where
  start: "others_run s s"
| round: "others_run s t \<Longrightarrow> others_run s (video_server_round env t)"
| frame: "others_run s t \<Longrightarrow> ch < VPSS_MAX_PHY_CHN_NUM \<Longrightarrow> others_run s (snd (video_stream_func scrap si ch senv t))"
| begins: "others_run s t \<Longrightarrow> others_run s (video_thread_begins i t)"
| ends: "others_run s t \<Longrightarrow> i \<noteq> VIDEO_THREAD_ISP \<Longrightarrow> others_run s (video_thread_ends i t)"
| arrives: "others_run s t \<Longrightarrow> others_run s (t\<lparr>bus := b\<rparr>)"

definition held_up :: "video_server \<Rightarrow> bool" where
  "held_up s = (exit_flag (info s) = 0 \<and> status (info s) \<notin> {EXIT_STAGE2, EXIT_FINISH} \<and> bit (thread_start (info s)) VIDEO_THREAD_ISP)"

lemma held_up_machine: "held_up s \<Longrightarrow> held_up (state_machine env s)"
proof -
  assume s: "held_up s"
  have told: "held_up t" if "only_tells s t" for t using that s by (auto simp: only_tells_def held_up_def)
  have st: "held_up (set_status v t)" if "held_up t" "v \<notin> {EXIT_STAGE2, EXIT_FINISH}" for v t using that by (simp add: held_up_def)
  have same: "held_up t" if "info t = info s" for t using that s by (simp add: held_up_def)
  have nz: "thread_start (info s) \<noteq> 0" using s by (auto simp: held_up_def)
  have b: "info (video_broadcast_thread_exit env t) = info t" for t by (simp add: video_broadcast_thread_exit_def split: option.split)
  have stop: "held_up (video_stop env s)" by (rule told [OF only_tells_stop])
  have started: "thread_start (info (video_stop env s)) \<noteq> 0" using stop by (auto simp: held_up_def)
  have "held_up (video_server_init s)" by (simp add: video_server_init_def Let_def same st)
  moreover have "held_up (video_server_setup env s)"
  proof -
    obtain r u where v: "video_init env s = (r, u)" by fastforce
    have "held_up u" using video_init_channels(2) [of env s] same [of u] v by simp
    then show ?thesis using st by (simp add: video_server_setup_def v)
  qed
  moreover have "held_up (video_server_start env s)"
  proof -
    obtain r u where v: "video_start env s = (r, u)" by fastforce
    have "held_up u" using video_start_channels(2) [of env s] same [of u] v by simp
    then show ?thesis using st by (simp add: video_server_start_def v)
  qed
  moreover have "held_up (video_server_stop env s)" using stop started st by (simp add: video_server_stop_def Let_def)
  moreover have "held_up (video_server_restart env s)" using stop started st by (simp add: video_server_restart_def Let_def)
  moreover have "held_up (set_status EXIT_THREAD (video_server_release_1 env s))" by (rule st [OF told [OF only_tells_release]]) simp
  moreover have "held_up (video_broadcast_thread_exit env (with_info (\<lambda>x. x\<lparr>thread_exit := thread_start x\<rparr>) s))"
    using s by (simp add: held_up_def b)
  ultimately show ?thesis
    using s nz unfolding state_machine_def Let_def by (simp add: b) (simp add: held_up_def exit_init_def Let_def)
qed

lemma held_up_frames: "held_up (u\<lparr>waiting := w\<rparr>) = held_up u" "held_up (u\<lparr>bus := b\<rparr>) = held_up u"
  "held_up (with_info (\<lambda>x. x\<lparr>old_status := status x\<rparr>) u) = held_up u"
  by (simp_all add: held_up_def)

lemma held_up_round: "held_up s \<Longrightarrow> held_up (video_server_round env s)"
proof (rule video_round_keeps [where P = held_up])
  show "held_up (task_proc env u)" if "held_up u" for u
    using that task_status [of env u] by (auto simp: held_up_def task_frame)
  show "held_up (handle_message env m u)" if "held_up u" for m u
    using that handle_frame(3) [of env m u] by (auto simp: held_up_def handle_frame)
qed (simp_all add: held_up_machine held_up_frames)

lemma held_up_thread:
  "held_up s \<Longrightarrow> held_up (video_thread_begins i s)" "held_up s \<Longrightarrow> i \<noteq> VIDEO_THREAD_ISP \<Longrightarrow> held_up (video_thread_ends i s)"
  by (simp_all add: held_up_def video_thread_begins_def video_thread_ends_def Let_def)

lemma held_up_frame: "held_up s \<Longrightarrow> ch < VPSS_MAX_PHY_CHN_NUM \<Longrightarrow> held_up (snd (video_stream_func scrap si ch senv s))"
proof -
  assume s: "held_up s" and ch: "ch < VPSS_MAX_PHY_CHN_NUM"
  have "info (stream_frame scrap si ch senv s) = info s"
    by (rule stream_frame_invariant [where P = "\<lambda>t. info t = info s"]) (simp_all add: deliver_others)
  then have "info (snd (stream_turn scrap si ch senv s)) = info s"
    by (simp add: stream_turn_def Let_def split: select_result.split)
  then have t: "held_up (snd (stream_turn scrap si ch senv s))" using s by (simp add: held_up_def)
  obtain nx t where "stream_turn scrap si ch senv s = (nx, t)" by fastforce
  then show ?thesis using t held_up_thread(2) [of t ch] ch by (cases nx) (simp_all add: video_stream_func_def)
qed

text \<open>
  As long as the thread of the image processor is inside the library, the server does not leave
  its loop, whatever it is sent and whatever its other threads do: no exit bit reaches the thread,
  and nothing but its own end clears its bit, on which the exit waits.
\<close>

theorem isp_thread_blocks_exit:
  assumes "others_run s t" "exit_flag (info s) = 0" "status (info s) \<notin> {EXIT_STAGE2, EXIT_FINISH}"
    and "misc_get_bit (thread_start (info s)) VIDEO_THREAD_ISP \<noteq> 0"
  shows "exit_flag (info t) = 0 \<and> misc_get_bit (thread_start (info t)) VIDEO_THREAD_ISP \<noteq> 0
    \<and> video_isp_func False t = (True, t)"
proof -
  have "held_up s" using assms(2-4) by (simp add: held_up_def misc_get_bit_eq split: if_splits)
  with assms(1) have "held_up t"
  proof induction
    case (arrives t b)
    then show ?case by (simp add: held_up_def)
  qed (simp_all add: held_up_round held_up_frame held_up_thread)
  then show ?thesis by (simp add: held_up_def misc_get_bit_eq video_isp_func_def)
qed

theorem isp_thread_blocks_exit_witness:
  "exit_flag (info (video_thread_ends VIDEO_THREAD_OSD (video_server_round demo_venv
     (with_info (\<lambda>x. x\<lparr>status := EXIT_THREAD, thread_start := 0x28\<rparr>) demo_video)))) = 0"
proof -
  let ?s = "with_info (\<lambda>x. x\<lparr>status := EXIT_THREAD, thread_start := 0x28\<rparr>) demo_video"
  have "others_run ?s (video_thread_ends VIDEO_THREAD_OSD (video_server_round demo_venv ?s))"
    by (intro others_run.intros) simp
  then show ?thesis
    using isp_thread_blocks_exit [of ?s] by (simp add: demo_video_def info_zero_def misc_get_bit_def)
qed

section \<open>The second start\<close>

lemma adjust_zero: "goke_adjust_video_parameters v config_zero = Some (- 1, config_zero)"
proof -
  have "adjust_stream v i (0, config_zero) = Some (0, config_zero)" if "i < MAX_STREAM_NUM" for i
    using that by (simp add: adjust_stream_def config_zero_def profile_zero_def Let_def)
  then have "adjust_streams v n (0, config_zero) = Some (0, config_zero)" if "n \<le> MAX_STREAM_NUM" for n
    using that by (induction n) simp_all
  then show ?thesis by (simp add: goke_adjust_video_parameters_def config_zero_def)
qed

text \<open>The set-up fails in its first step.\<close>

lemma init_zero:
  assumes "v_config s = config_zero"
  shows "fst (video_init env s) = - 1 \<and> v_config (snd (video_init env s)) = config_zero"
  using assms by (simp add: video_init_def andthen_def video_adjust_parameters_def adjust_zero)

definition never_up :: "video_server \<Rightarrow> bool" where
  "never_up s = (v_config s = config_zero \<and> status (info s) \<notin> {STATUS_IDLE, STATUS_START, STATUS_STOP, STATUS_RUN, STATUS_RESTART})"

lemma never_up_machine: "never_up s \<Longrightarrow> never_up (state_machine env s)"
proof -
  assume s: "never_up s"
  have st: "never_up (set_status v t)"
    if "v_config t = config_zero" "v \<notin> {STATUS_IDLE, STATUS_START, STATUS_STOP, STATUS_RUN, STATUS_RESTART}" for v t
    using that by (simp add: never_up_def)
  have z: "v_config s = config_zero" using s by (simp add: never_up_def)
  have b: "info (video_broadcast_thread_exit env t) = info t" "v_config (video_broadcast_thread_exit env t) = v_config t" for t
    by (simp_all add: video_broadcast_thread_exit_def split: option.split)
  have "v_config (video_server_release_1 env s) = config_zero" using only_tells_release [of s env] z by (simp add: only_tells_def)
  moreover have "never_up (video_server_init s)" using s z by (simp add: video_server_init_def never_up_def Let_def)
  moreover have "never_up (video_server_setup env s)"
    using init_zero [OF z, of env] st by (cases "video_init env s") (simp add: video_server_setup_def)
  moreover have "v_config (video_server_release_2 s) = config_zero" by (simp add: video_server_release_2_def)
  ultimately show ?thesis
    using s unfolding state_machine_def Let_def by (simp add: b st never_up_def exit_init_def Let_def)
qed

lemma never_up_task: "never_up s \<Longrightarrow> never_up (task_proc env s)"
proof -
  assume s: "never_up s"
  have z: "v_config (task_proc env s) = config_zero" using s by (simp add: never_up_def task_frame)
  have "status (info (task_proc env s)) \<in> {status (info s), STATUS_INIT, STATUS_SETUP}"
    using s by (simp add: never_up_def task_proc_def restart_task_def finish_task_def finish_restart_def end_task_def Let_def split: option.split)
  then show ?thesis using z s by (auto simp: never_up_def)
qed

lemma never_up_frames: "never_up (u\<lparr>waiting := w\<rparr>) = never_up u" "never_up (u\<lparr>bus := b\<rparr>) = never_up u"
  "never_up (with_info (\<lambda>x. x\<lparr>old_status := status x\<rparr>) u) = never_up u"
  by (simp_all add: never_up_def)

lemma never_up_round: "never_up s \<Longrightarrow> never_up (video_server_round env s)"
proof (rule video_round_keeps [where P = never_up])
  show "never_up (handle_message env m u)" if "never_up u" for m u
    using that handle_frame(3) [of env m u] by (auto simp: never_up_def handle_frame(4))
qed (simp_all add: never_up_machine never_up_task never_up_frames)

text \<open>
  A video server that is started again after it has exited never runs: the release has cleared
  its configuration, which only the initialiser of the program fills, so that every set-up fails,
  whatever requests arrive and however often the server goes round.
\<close>

theorem released_server_never_runs:
  assumes "v_config s = v_config (video_server_release_2 gone)" "status (info s) = STATUS_NONE"
  shows "status (info (foldl (\<lambda>t (env, b). video_server_round env (t\<lparr>bus := b\<rparr>)) s rounds)) \<noteq> STATUS_RUN"
proof -
  have "never_up t \<Longrightarrow> never_up (foldl (\<lambda>t (env, b). video_server_round env (t\<lparr>bus := b\<rparr>)) t rounds)" for t
  proof (induction rounds arbitrary: t)
    case (Cons r rounds)
    obtain env b where r: "r = (env, b)" by fastforce
    have "never_up (video_server_round env (t\<lparr>bus := b\<rparr>))" by (rule never_up_round) (use Cons.prems in \<open>simp add: never_up_def\<close>)
    then show ?case using Cons.IH r by simp
  qed simp
  moreover have "never_up s" using assms by (simp add: never_up_def video_server_release_2_def)
  ultimately show ?thesis by (simp add: never_up_def)
qed

theorem released_server_never_runs_witness:
  "status (info (foldl (\<lambda>t (env, b). video_server_round env (t\<lparr>bus := b\<rparr>)) (demo_video\<lparr>v_config := config_zero\<rparr>)
     [(demo_venv, \<lambda>_. demo_queue 1), (demo_venv, \<lambda>_. demo_queue 1)])) \<noteq> STATUS_RUN"
  by (rule released_server_never_runs [where gone = demo_video])
    (simp_all add: demo_video_def info_zero_def video_server_release_2_def)

end
