(* ===== verification/Motion.thy ===== *)
theory Motion
  imports VideoProps
begin

text \<open>
  The motion detection: the regions of \<open>server/goke/hisi/hisi_ive.c\<close>, the alarm and the thread of
  \<open>server/video/video.c\<close>.  What the media library finds in a picture is an argument, and so is
  the product of three floating-point numbers that scales a coordinate.
\<close>

section \<open>Regions\<close>

type_synonym u16 = "16 word"

record region_t =
  rg_area :: u32
  rg_left :: u16
  rg_right :: u16
  rg_top :: u16
  rg_bottom :: u16

record blob_t =
  cur_area_thr :: u16
  region_num :: u8
  regions :: "region_t list"

type_synonym point = "u32 \<times> u32"

abbreviation (input) "IVE_RECT_NUM \<equiv> 20 :: nat"
abbreviation (input) "IVE_MAX_REGION_NUM \<equiv> 254 :: nat"

definition ive_calculate_stride :: "u32 \<Rightarrow> u8 \<Rightarrow> u16" where
  "ive_calculate_stride w align = ucast (w + (ucast align - w mod ucast align) mod ucast align)"

definition larger :: "u16 \<Rightarrow> region_t \<Rightarrow> bool" where
  "larger thr r = (uint (rg_area r) > uint thr)"

definition count_larger :: "u16 \<Rightarrow> region_t list \<Rightarrow> nat" where
  "count_larger thr rs = length (filter (larger thr) rs)"

text \<open>The threshold is raised, and wraps around, until few enough regions are larger.\<close>

partial_function (option) raise_threshold :: "u16 \<Rightarrow> nat \<Rightarrow> region_t list \<Rightarrow> u16 \<Rightarrow> u16 option" where
  "raise_threshold delta most rs thr =
     (if count_larger (thr + delta) rs > most then raise_threshold delta most rs (thr + delta) else Some (thr + delta))"

text \<open>The corners of a region, on even coordinates.\<close>

definition corners :: "(u16 \<Rightarrow> u32) \<Rightarrow> (u16 \<Rightarrow> u32) \<Rightarrow> region_t \<Rightarrow> point list" where
  "corners scale_x scale_y r =
     (let x = (\<lambda>v. scale_x v AND NOT 1); y = (\<lambda>v. scale_y v AND NOT 1) in
      [(x (rg_left r), y (rg_top r)), (x (rg_right r), y (rg_top r)),
       (x (rg_right r), y (rg_bottom r)), (x (rg_left r), y (rg_bottom r))])"

definition four_corners :: "point list \<Rightarrow> bool" where
  "four_corners ps = list_all (\<lambda>j. list_all (\<lambda>k. ps ! j \<noteq> ps ! k) [Suc j..<4]) [0..<3]"

text \<open>A region that shrinks to less than four corners is overwritten by the next one.\<close>

fun collect_rects :: "(region_t \<Rightarrow> point list) \<Rightarrow> u16 \<Rightarrow> nat \<Rightarrow> point list list \<Rightarrow> region_t list \<Rightarrow> (nat \<times> point list list) option" where
  "collect_rects c thr n rects [] = Some (n, rects)"
| "collect_rects c thr n rects (r # rs) =
     (if larger thr r then
        (case array_set rects n (c r) of
           None \<Rightarrow> None
         | Some rects \<Rightarrow> collect_rects c thr (if four_corners (c r) then n + 1 else n) rects rs)
      else collect_rects c thr n rects rs)"

definition ive_blob_to_rect ::
  "(region_t \<Rightarrow> point list) \<Rightarrow> blob_t \<Rightarrow> point list list \<Rightarrow> nat \<Rightarrow> u16 \<Rightarrow> (nat \<times> point list list) option" where
  "ive_blob_to_rect c b rects most delta =
     (case (if unat (region_num b) > most then raise_threshold delta most (regions b) (cur_area_thr b) else Some 0) of
        None \<Rightarrow> None
      | Some thr \<Rightarrow> collect_rects c thr 0 rects (regions b))"

section \<open>The alarm\<close>

abbreviation (input) "LV_INTELLIGENT_EVENT_MOVING_CHECK \<equiv> 1 :: int"
abbreviation (input) "LV_INTELLIGENT_EVENT_HUMAN_CHECK \<equiv> 3 :: int"

text \<open>The difference of the times is one of 64-bit numbers; the interval is read from a table of three.\<close>

definition alarm_due :: "video_env \<Rightarrow> video_server \<Rightarrow> bool" where
  "alarm_due env s = ((word_of_int (now env) :: u64) - last_report s
     \<ge> word_of_int (alarm_interval s ! nat (alarm_freqency (settings s)) * 60))"

definition alarm_message :: "video_env \<Rightarrow> int \<Rightarrow> msg" where
  "alarm_message env event =
     (let stop = uint (word_of_int (now env + alarm_length env) :: u64) in
      msg_init\<lparr>m_message := MSG_RECORDER_ADD, m_sender := SERVER_VIDEO, m_receiver := SERVER_VIDEO,
        m_arg := Some (P_recorder_init (init_zero\<lparr>ri_video_channel := 0, ri_mode := RECORDER_MODE_BY_TIME,
          ri_type := LV_STORAGE_RECORD_ALARM, ri_sub_type := event, ri_audio := 1,
          ri_start := date_string (local_time env (now env)), ri_stop := time_stamp_to_date (local_time env) stop\<rparr>)),
        m_extra := Some (P_int stop), m_extra_size := 8\<rparr>)"

definition video_md_trigger_message :: "video_env \<Rightarrow> int \<Rightarrow> video_server \<Rightarrow> int \<times> video_server" where
  "video_md_trigger_message env event s =
     (if alarm_switch (settings s) = 0 then (0, s)
      else if nat (alarm_freqency (settings s)) \<ge> length (alarm_interval s) then (0, video_fails s)
      else if alarm_due env s then
        (case global_common_send_message (bus s) SERVER_RECORDER (alarm_message env event) of
           (ret, b) \<Rightarrow> (ret, s\<lparr>last_report := word_of_int (now env), bus := b\<rparr>))
      else (0, s))"

section \<open>The thread\<close>

text \<open>
  What one turn of the loop meets.  \<open>picture\<close> stands for the frame; the copy of a frame into an
  image may fail without the thread noticing, since \<open>hisi_md_dma_image\<close> always returns 0.
\<close>

record md_env =
  get_frame :: int
  picture :: int
  people :: "nat list"
  dma_copies :: bool
  md_process :: int
  found :: blob_t
  scale :: "region_t \<Rightarrow> point list"
  clock :: video_env

text \<open>The two images, the index of the current one, and the comparisons that were made, newest last.\<close>

record md_state =
  images :: "int list"
  cur_idx :: nat
  first_frame :: bool
  region_rects :: "nat \<times> point list list"
  compared :: "(int \<times> int) list"

definition hisi_md_dma_image :: "md_env \<Rightarrow> nat \<Rightarrow> md_state \<Rightarrow> md_state" where
  "hisi_md_dma_image env i d = (if dma_copies env then d\<lparr>images := (images d)[i := picture env]\<rparr> else d)"

definition human_check :: "md_env \<Rightarrow> video_server \<Rightarrow> video_server" where
  "human_check env s =
     (if smd_enable (settings s) \<noteq> 0 \<and> sum_list (people env) > 0
      then snd (video_md_trigger_message (clock env) LV_INTELLIGENT_EVENT_HUMAN_CHECK s) else s)"

text \<open>The comparison of the current image with the other one; \<open>None\<close> is a write behind the table of the regions.\<close>

definition md_compare :: "md_env \<Rightarrow> md_state \<Rightarrow> video_server \<Rightarrow> md_state \<times> video_server" where
  "md_compare env d s =
     (let d = d\<lparr>compared := compared d @ [(images d ! cur_idx d, images d ! (1 - cur_idx d))]\<rparr> in
      if md_process env \<noteq> 0 then (d, s)
      else
        (case ive_blob_to_rect (scale env) (found env) (snd (region_rects d)) IVE_RECT_NUM 8 of
           None \<Rightarrow> (d, video_fails s)
         | Some rects \<Rightarrow>
             (d\<lparr>region_rects := rects, cur_idx := 1 - cur_idx d\<rparr>,
              if fst rects > 3 then snd (video_md_trigger_message (clock env) LV_INTELLIGENT_EVENT_MOVING_CHECK s) else s)))"

text \<open>The result says whether the thread goes on.\<close>

definition md_turn :: "md_env \<Rightarrow> md_state \<Rightarrow> video_server \<Rightarrow> bool \<times> md_state \<times> video_server" where
  "md_turn env d s =
     (if thread_told VIDEO_THREAD_MD s then (False, d, video_thread_ends VIDEO_THREAD_MD s)
      else if status (info s) \<noteq> STATUS_RUN \<or> \<not> md_run (v_running s) then (True, d\<lparr>cur_idx := 0, first_frame := True\<rparr>, s)
      else if get_frame env \<noteq> 0 then (True, d, s)
      else
        let s = human_check env s in
        if \<not> first_frame d then (True, md_compare env (hisi_md_dma_image env (cur_idx d) d) s)
        else (True, (hisi_md_dma_image env (1 - cur_idx d) d)\<lparr>first_frame := False, cur_idx := 1 - cur_idx d\<rparr>, s))"

text \<open>The thread up to its loop: without its channel in the library it ends at once.\<close>

definition md_begins :: "int \<Rightarrow> video_server \<Rightarrow> bool \<times> video_server" where
  "md_begins create_ret s =
     (let s = video_thread_begins VIDEO_THREAD_MD s in
      if create_ret \<noteq> 0 then (False, video_thread_ends VIDEO_THREAD_MD s) else (True, s))"

section \<open>The regions fit their table\<close>

lemma four_corners_distinct: "length ps = 4 \<Longrightarrow> four_corners ps = distinct ps"
proof -
  assume "length ps = 4"
  then obtain a b c d where "ps = [a, b, c, d]" by (auto simp: eval_nat_numeral length_Suc_conv)
  then show ?thesis by (auto simp: four_corners_def upt_conv_Cons)
qed

lemma raise_threshold_few: "raise_threshold delta most rs thr = Some t \<Longrightarrow> count_larger t rs \<le> most"
  by (rule raise_threshold.raw_induct [where P = "\<lambda>delta most rs thr t. count_larger t rs \<le> most"]) (auto split: if_splits)

text \<open>The threshold ends below the largest area that more than \<open>most\<close> regions could have.\<close>

lemma count_larger_bound:
  assumes "sum_list (map (uint \<circ> rg_area) rs) < (int most + 1) * (uint thr + 1)"
  shows "count_larger thr rs \<le> most"
proof -
  have "int (count_larger thr rs) * (uint thr + 1) \<le> sum_list (map (uint \<circ> rg_area) rs)"
  proof (induction rs)
    case (Cons r rs)
    show ?case
    proof (cases "larger thr r")
      case True
      then have "uint thr + 1 \<le> uint (rg_area r)" by (simp add: larger_def)
      then show ?thesis using Cons.IH True by (simp add: count_larger_def distrib_right)
    next
      case False
      then show ?thesis using Cons.IH uint_ge_0 [of "rg_area r"] by (simp add: count_larger_def add_increasing)
    qed
  qed (simp add: count_larger_def)
  then have "int (count_larger thr rs) * (uint thr + 1) < (int most + 1) * (uint thr + 1)" using assms by linarith
  then have "int (count_larger thr rs) < int most + 1" by (simp add: mult_less_cancel_right)
  then show ?thesis by simp
qed

lemma raise_climbs:
  assumes "sum_list (map (uint \<circ> rg_area) rs) < (int most + 1) * 65529"
  shows "uint thr + 8 \<le> 65535 \<Longrightarrow> \<exists>t. raise_threshold 8 most rs thr = Some t"
proof (induction "nat (65535 - uint thr)" arbitrary: thr rule: less_induct)
  case less
  have u: "uint (thr + 8) = uint thr + 8" using less.prems uint_add_small [of 8 thr] by simp
  show ?case
  proof (cases "count_larger (thr + 8) rs > most")
    case True
    have "uint (thr + 8) < 65528"
    proof (rule ccontr)
      assume "\<not> uint (thr + 8) < 65528"
      then have "(int most + 1) * 65529 \<le> (int most + 1) * (uint (thr + 8) + 1)" by (intro mult_left_mono) auto
      then have "count_larger (thr + 8) rs \<le> most" using assms by (intro count_larger_bound) linarith
      then show False using True by simp
    qed
    then have "\<exists>t. raise_threshold 8 most rs (thr + 8) = Some t" using less u by (intro less.hyps) auto
    then show ?thesis using True by (subst raise_threshold.simps) simp
  next
    case False
    then show ?thesis by (subst raise_threshold.simps) simp
  qed
qed

lemma raise_ends:
  assumes "sum_list (map (uint \<circ> rg_area) rs) < (int most + 1) * 65529"
  shows "\<exists>t. raise_threshold 8 most rs thr = Some t"
proof (cases "uint thr + 8 \<le> 65535")
  case True
  then show ?thesis by (rule raise_climbs [OF assms])
next
  case False
  have thr: "65527 < uint thr" "uint thr < 65536" using False uint_lt2p [of thr] by simp_all
  have "uint (thr + 8) = (uint thr + 8) mod 65536" by (simp add: uint_word_ariths)
  also have "\<dots> = (uint thr + 8 - 65536) mod 65536" by (rule minus_mod_self2 [symmetric])
  also have "\<dots> = uint thr - 65528" using thr by (subst mod_pos_pos_trivial) simp_all
  finally have small: "uint (thr + 8) + 8 \<le> 65535" using thr by simp
  show ?thesis using raise_climbs [OF assms small] by (subst raise_threshold.simps) auto
qed

lemma collect_fits:
  "length rects = size_r \<Longrightarrow> n + count_larger thr rs \<le> size_r \<Longrightarrow>
   \<exists>m out. collect_rects c thr n rects rs = Some (m, out) \<and> length out = size_r
     \<and> m = n + length (filter (\<lambda>r. larger thr r \<and> four_corners (c r)) rs)
     \<and> take m out = take n rects @ map c (filter (\<lambda>r. larger thr r \<and> four_corners (c r)) rs)"
proof (induction rs arbitrary: n rects)
  case (Cons r rs)
  show ?case
  proof (cases "larger thr r")
    case True
    then have n: "n < length rects" "n + 1 + count_larger thr rs \<le> size_r" using Cons.prems by (simp_all add: count_larger_def)
    show ?thesis
    proof (cases "four_corners (c r)")
      case corners: True
      have t: "take (n + 1) (rects[n := c r]) = take n rects @ [c r]" using n(1) by (simp add: take_Suc_conv_app_nth)
      show ?thesis
        using Cons.IH [of "rects[n := c r]" "n + 1"] Cons.prems(1) n True corners t
        by (auto simp: array_set_def)
    next
      case False
      show ?thesis
        using Cons.IH [of "rects[n := c r]" n] Cons.prems(1) n True False by (auto simp: array_set_def)
    qed
  next
    case False
    then show ?thesis using Cons.IH [of rects n] Cons.prems by (simp add: count_larger_def)
  qed
qed (simp add: count_larger_def)

lemma regions_stored:
  assumes "sum_list (map (uint \<circ> rg_area) (regions b)) < 21 * 65529" "length rects = IVE_RECT_NUM"
    and "unat (region_num b) = length (filter (\<lambda>r. rg_area r \<noteq> 0) (regions b))"
  shows "\<exists>n out thr. ive_blob_to_rect (corners sx sy) b rects IVE_RECT_NUM 8 = Some (n, out) \<and> n \<le> IVE_RECT_NUM
    \<and> length out = IVE_RECT_NUM
    \<and> take n out = map (corners sx sy) (filter (\<lambda>r. larger thr r \<and> distinct (corners sx sy r)) (regions b))"
proof -
  have "\<exists>thr. (if unat (region_num b) > 20 then raise_threshold 8 20 (regions b) (cur_area_thr b) else Some 0) = Some thr"
    using raise_ends [of "regions b" 20 "cur_area_thr b"] assms(1) by simp
  then obtain thr where thr: "(if unat (region_num b) > 20 then raise_threshold 8 20 (regions b) (cur_area_thr b) else Some 0) = Some thr"
    by blast
  have few: "count_larger thr (regions b) \<le> 20"
  proof (cases "unat (region_num b) > 20")
    case True
    then show ?thesis using thr raise_threshold_few by simp
  next
    case False
    have "larger 0 r = (rg_area r \<noteq> 0)" for r
    proof -
      have "larger 0 r = (0 < uint (rg_area r))" by (simp add: larger_def)
      then show ?thesis using uint_ge_0 [of "rg_area r"] uint_0_iff [of "rg_area r"] by (metis less_le)
    qed
    then have "larger 0 = (\<lambda>r. rg_area r \<noteq> 0)" by (rule ext)
    then show ?thesis using False thr assms(3) by (simp add: count_larger_def)
  qed
  have fc: "four_corners (corners sx sy r) = distinct (corners sx sy r)" for r
    by (rule four_corners_distinct) (simp add: corners_def Let_def)
  obtain m out where out: "collect_rects (corners sx sy) thr 0 rects (regions b) = Some (m, out)" "length out = 20"
    "m = length (filter (\<lambda>r. larger thr r \<and> distinct (corners sx sy r)) (regions b))"
    "take m out = map (corners sx sy) (filter (\<lambda>r. larger thr r \<and> distinct (corners sx sy r)) (regions b))"
    using collect_fits [of rects 20 0 thr "regions b" "corners sx sy"] few assms(2) unfolding fc by auto
  have "length (filter (\<lambda>r. larger thr r \<and> P r) rs) \<le> count_larger thr rs" for P rs
    by (induction rs) (simp_all add: count_larger_def)
  then have "m \<le> 20" using few unfolding out(3) by (rule le_trans)
  then show ?thesis using out thr unfolding ive_blob_to_rect_def by auto
qed

text \<open>
  C21: The search for the moving regions ends and stays inside its table of 20: for a picture of up
  to 1.3 million points (the sum of all areas) the raising of the threshold ends, also where it
  wraps around, and what is stored are the corners of exactly the regions above one threshold that
  keep four corners.
\<close>

theorem regions_fit_table:
  assumes "sum_list (map (uint \<circ> rg_area) (regions b)) < 21 * 65529" "length rects = IVE_RECT_NUM"
    and "unat (region_num b) = length (filter (\<lambda>r. rg_area r \<noteq> 0) (regions b))"
  shows "\<exists>n out thr. ive_blob_to_rect (corners sx sy) b rects IVE_RECT_NUM 8 = Some (n, out) \<and> n \<le> IVE_RECT_NUM
    \<and> length out = IVE_RECT_NUM
    \<and> take n out = map (corners sx sy) (filter (\<lambda>r. larger thr r \<and> distinct (corners sx sy r)) (regions b))"
  by (rule regions_stored [OF assms])

text \<open>With more than 20 regions of the largest area the search does not return.\<close>

lemma threshold_never_found:
  assumes "\<And>thr. count_larger thr rs > most"
  shows "raise_threshold delta most rs thr = None"
proof (rule ccontr)
  assume "raise_threshold delta most rs thr \<noteq> None"
  then obtain t where "raise_threshold delta most rs thr = Some t" by blast
  then show False using raise_threshold_few assms [of t] by (simp add: not_less [symmetric])
qed

text \<open>The stride is the width rounded up to a multiple of 16, as long as that fits 16 bits.\<close>

lemma stride_rounds_up:
  assumes "unat w \<le> 65520"
  shows "unat (ive_calculate_stride w 16) = (unat w + 15) div 16 * 16"
proof -
  let ?r = "unat w mod 16"
  have m: "unat (w mod 16) = ?r" by (simp add: unat_mod_distrib)
  then have "w mod 16 \<le> 16" by (simp add: word_le_nat_alt)
  then have "unat (16 - w mod 16) = 16 - ?r" using m by (subst unat_sub) simp_all
  then have p: "unat ((16 - w mod 16) mod 16) = (16 - ?r) mod 16" by (simp add: unat_mod_distrib)
  have up: "n + (16 - n mod 16) mod 16 = (n + 15) div 16 * 16" for n :: nat
  proof -
    define q r where "q = n div 16" and "r = n mod 16"
    have n: "n = 16 * q + r" "r < 16" by (simp_all add: q_def r_def)
    show ?thesis
    proof (cases "r = 0")
      case False
      then have "(n + 15) div 16 = q + 1" using n by simp
      then show ?thesis using False n by (simp add: r_def [symmetric])
    qed (use n in simp)
  qed
  have "(16 - ?r) mod 16 < 16" by simp
  then have "unat w + (16 - ?r) mod 16 < 65536" using assms by linarith
  then have "unat (ive_calculate_stride w 16) = unat w + (16 - ?r) mod 16"
    unfolding ive_calculate_stride_def by (simp add: unsigned_ucast_eq take_bit_eq_mod unat_word_ariths(1) p)
  then show ?thesis by (simp only: up)
qed

section \<open>The alarms keep their distance\<close>

lemma trigger_cases:
  assumes "alarm_switch (settings s) \<noteq> 0" "nat (alarm_freqency (settings s)) < length (alarm_interval s)"
  shows "video_md_trigger_message env event s =
    (if alarm_due env s
     then (fst (global_common_send_message (bus s) SERVER_RECORDER (alarm_message env event)),
           s\<lparr>last_report := word_of_int (now env), bus := snd (global_common_send_message (bus s) SERVER_RECORDER (alarm_message env event))\<rparr>)
     else (0, s))"
  using assms by (simp add: video_md_trigger_message_def split: prod.split)

text \<open>A run of events, and the events an alarm was raised for.\<close>

fun alarm_run :: "(video_env \<times> int) list \<Rightarrow> video_server \<Rightarrow> (video_env \<times> int) list \<times> video_server" where
  "alarm_run [] s = ([], s)"
| "alarm_run ((env, event) # es) s =
     (case alarm_run es (snd (video_md_trigger_message env event s)) of
        (raised, t) \<Rightarrow> (if alarm_due env s then (env, event) # raised else raised, t))"

text \<open>The events that are at least \<open>d\<close> seconds behind the last one taken.\<close>

fun spaced :: "int \<Rightarrow> int \<Rightarrow> (video_env \<times> int) list \<Rightarrow> (video_env \<times> int) list" where
  "spaced d last_time [] = []"
| "spaced d last_time (e # es) =
     (if now (fst e) - last_time \<ge> d then e # spaced d (now (fst e)) es else spaced d last_time es)"

lemma spaced_successively: "successively (\<lambda>t u. u - t \<ge> d) (t # map (now \<circ> fst) (spaced d t es))"
proof (induction es arbitrary: t)
  case (Cons e es)
  show ?case using Cons.IH [of t] Cons.IH [of "now (fst e)"] by simp
qed simp

definition tell_recorder :: "bus \<Rightarrow> video_env \<times> int \<Rightarrow> bus" where
  "tell_recorder b e = snd (global_common_send_message b SERVER_RECORDER (alarm_message (fst e) (snd e)))"

lemma due_spec:
  assumes "0 \<le> now env" "now env < 2 ^ 64" "uint (last_report s) \<le> now env" "0 \<le> d" "d < 2 ^ 64"
    and "d = alarm_interval s ! nat (alarm_freqency (settings s)) * 60"
  shows "alarm_due env s = (now env - uint (last_report s) \<ge> d)"
proof -
  have n: "uint (word_of_int (now env) :: u64) = now env" using assms(1,2) by (simp add: uint_word_of_int)
  have "last_report s \<le> word_of_int (now env)" using assms(3) n by (simp add: word_le_def)
  then have "uint ((word_of_int (now env) :: u64) - last_report s) = now env - uint (last_report s)"
    by (simp add: uint_sub_lem [THEN iffD1] word_le_def n)
  moreover have "uint (word_of_int d :: u64) = d" using assms(4,5) by (simp add: uint_word_of_int)
  ultimately show ?thesis using assms(6) by (simp add: alarm_due_def word_le_def)
qed

lemma alarm_run_spaced:
  assumes "0 \<le> d" "d < 2 ^ 64"
  shows "alarm_switch (settings s) \<noteq> 0 \<Longrightarrow> nat (alarm_freqency (settings s)) < length (alarm_interval s)
    \<Longrightarrow> d = alarm_interval s ! nat (alarm_freqency (settings s)) * 60
    \<Longrightarrow> \<forall>e \<in> set es. 0 \<le> now (fst e) \<and> now (fst e) < 2 ^ 64
    \<Longrightarrow> sorted (uint (last_report s) # map (now \<circ> fst) es)
    \<Longrightarrow> fst (alarm_run es s) = spaced d (uint (last_report s)) es
      \<and> bus (snd (alarm_run es s)) = foldl tell_recorder (bus s) (spaced d (uint (last_report s)) es)"
proof (induction es arbitrary: s)
  case (Cons e es)
  obtain env event where e: "e = (env, event)" by fastforce
  let ?t = "snd (video_md_trigger_message env event s)"
  have now: "0 \<le> now env" "now env < 2 ^ 64" "uint (last_report s) \<le> now env" using Cons.prems(4,5) e by simp_all
  note due = due_spec [OF now assms Cons.prems(3)]
  show ?case
  proof (cases "alarm_due env s")
    case True
    have t: "last_report ?t = word_of_int (now env)" "settings ?t = settings s" "alarm_interval ?t = alarm_interval s"
      "bus ?t = tell_recorder (bus s) e"
      using trigger_cases [OF Cons.prems(1,2)] True by (simp_all add: tell_recorder_def e)
    have n: "uint (last_report ?t) = now env" using now by (simp add: t uint_word_of_int)
    have "fst (alarm_run es ?t) = spaced d (now env) es \<and> bus (snd (alarm_run es ?t)) = foldl tell_recorder (bus ?t) (spaced d (now env) es)"
      unfolding n [symmetric] by (rule Cons.IH) (use Cons.prems t n e in auto)
    then show ?thesis using True due t(4) by (cases "alarm_run es ?t") (simp add: e)
  next
    case False
    then have "?t = s" using trigger_cases [OF Cons.prems(1,2)] by simp
    then show ?thesis using Cons.IH [OF Cons.prems(1-3)] Cons.prems(4,5) False due by (cases "alarm_run es s") (simp add: e)
  qed
qed simp

text \<open>
  C22: Of any run of detected motions and persons, the recorder is told exactly of those that are
  at least the configured interval behind the last one it was told of; so no two alarms are closer
  than that.  The times are compared as 64-bit numbers, and do not run backwards.
\<close>

theorem alarms_are_spaced:
  assumes "alarm_switch (settings s) \<noteq> 0" "nat (alarm_freqency (settings s)) < length (alarm_interval s)"
    and "d = alarm_interval s ! nat (alarm_freqency (settings s)) * 60" "0 \<le> d" "d < 2 ^ 64"
    and "\<forall>e \<in> set es. 0 \<le> now (fst e) \<and> now (fst e) < 2 ^ 64" "sorted (uint (last_report s) # map (now \<circ> fst) es)"
  shows "bus (snd (alarm_run es s)) = foldl tell_recorder (bus s) (spaced d (uint (last_report s)) es)
    \<and> successively (\<lambda>t u. u - t \<ge> d) (uint (last_report s) # map (now \<circ> fst) (fst (alarm_run es s)))"
  using alarm_run_spaced [OF assms(4,5,1,2,3,6,7)] spaced_successively [of d "uint (last_report s)" es] by simp

text \<open>A clock that was set back makes the difference wrap around, and the next event raises an alarm.\<close>

lemma alarm_after_clock_step:
  assumes "0 \<le> now env" "now env < uint (last_report s)" "0 \<le> d" "d \<le> 2 ^ 63" "uint (last_report s) < 2 ^ 63"
    and "d = alarm_interval s ! nat (alarm_freqency (settings s)) * 60"
  shows "alarm_due env s"
proof -
  have n: "uint (word_of_int (now env) :: u64) = now env" using assms(1,2,5) by (simp add: uint_word_of_int)
  have "uint ((word_of_int (now env) :: u64) - last_report s) = (now env - uint (last_report s)) mod 2 ^ 64"
    by (simp add: uint_word_ariths n)
  also have "\<dots> = (now env - uint (last_report s) + 2 ^ 64) mod 2 ^ 64" by simp
  also have "\<dots> = now env - uint (last_report s) + 2 ^ 64" using assms(1,2,5) by (intro mod_pos_pos_trivial) simp_all
  finally have "uint ((word_of_int (now env) :: u64) - last_report s) \<ge> 2 ^ 63" using assms(1,5) by simp
  moreover have "uint (word_of_int d :: u64) = d" using assms(3,4) by (simp add: uint_word_of_int)
  ultimately show ?thesis using assms(4,6) by (simp add: alarm_due_def word_le_def)
qed

section \<open>What is compared\<close>

text \<open>
  The reference: the frames behind the first one are compared each with the last one whose
  comparison succeeded, and those up to the first success with what the image held at the start.
\<close>

fun compare_spec :: "int \<Rightarrow> md_env list \<Rightarrow> (int \<times> int) list" where
  "compare_spec old [] = []"
| "compare_spec old (e # es) = (picture e, old) # compare_spec (if md_process e = 0 then picture e else old) es"

text \<open>A turn that gets a frame while the detection is on, in a server that runs.\<close>

definition md_on :: "video_server \<Rightarrow> bool" where
  "md_on s = (\<not> thread_told VIDEO_THREAD_MD s \<and> status (info s) = STATUS_RUN \<and> md_run (v_running s))"

definition gets_frame :: "md_env \<Rightarrow> bool" where
  "gets_frame e = (get_frame e = 0 \<and> dma_copies e
     \<and> (\<forall>rects. length rects = IVE_RECT_NUM \<longrightarrow> (\<exists>n out. ive_blob_to_rect (scale e) (found e) rects IVE_RECT_NUM 8 = Some (n, out) \<and> length out = IVE_RECT_NUM)))"

fun md_turns :: "md_env list \<Rightarrow> md_state \<times> video_server \<Rightarrow> md_state \<times> video_server" where
  "md_turns [] ds = ds"
| "md_turns (e # es) ds = md_turns es (snd (md_turn e (fst ds) (snd ds)))"

lemma trigger_on: "md_on (snd (video_md_trigger_message env event s)) = md_on s"
  by (simp add: video_md_trigger_message_def md_on_def thread_told_def split: prod.split)

lemma human_on: "md_on (human_check e s) = md_on s"
  by (simp add: human_check_def trigger_on)

lemma compare_turn:
  assumes "md_on s" "gets_frame e" "\<not> first_frame d" "cur_idx d < 2" "length (images d) = 2" "length (snd (region_rects d)) = IVE_RECT_NUM"
  shows "\<exists>d' t. md_turn e d s = (True, d', t) \<and> md_on t \<and> \<not> first_frame d' \<and> cur_idx d' < 2 \<and> length (images d') = 2
    \<and> length (snd (region_rects d')) = IVE_RECT_NUM \<and> compared d' = compared d @ [(picture e, images d ! (1 - cur_idx d))]
    \<and> images d' ! (1 - cur_idx d') = (if md_process e = 0 then picture e else images d ! (1 - cur_idx d))"
proof -
  obtain n out where r: "ive_blob_to_rect (scale e) (found e) (snd (region_rects d)) IVE_RECT_NUM 8 = Some (n, out)" "length out = IVE_RECT_NUM"
    using assms(2,6) by (auto simp: gets_frame_def)
  have c: "cur_idx d = 0 \<or> cur_idx d = 1" using assms(4) by auto
  have g: "get_frame e = 0" "dma_copies e" using assms(2) by (simp_all add: gets_frame_def)
  have on: "\<not> thread_told VIDEO_THREAD_MD s" "status (info s) = STATUS_RUN" "md_run (v_running s)" using assms(1) by (simp_all add: md_on_def)
  let ?d = "d\<lparr>images := (images d)[cur_idx d := picture e], compared := compared d @ [(picture e, images d ! (1 - cur_idx d))]\<rparr>"
  have d: "(images d)[cur_idx d := picture e] ! cur_idx d = picture e"
    "(images d)[cur_idx d := picture e] ! (1 - cur_idx d) = images d ! (1 - cur_idx d)"
    using c assms(5) by auto
  have turn: "md_turn e d s = (True, md_compare e (hisi_md_dma_image e (cur_idx d) d) (human_check e s))"
    using assms(3) g on by (simp add: md_turn_def Let_def)
  show ?thesis
  proof (cases "md_process e = 0")
    case True
    let ?t = "if n > 3 then snd (video_md_trigger_message (clock e) LV_INTELLIGENT_EVENT_MOVING_CHECK (human_check e s)) else human_check e s"
    have "md_turn e d s = (True, ?d\<lparr>region_rects := (n, out), cur_idx := 1 - cur_idx d\<rparr>, ?t)"
      unfolding turn using True r d g by (simp add: md_compare_def hisi_md_dma_image_def Let_def)
    moreover have "md_on ?t" using assms(1) by (simp add: trigger_on human_on)
    moreover have "images ?d ! (1 - (1 - cur_idx d)) = picture e" using c d(1) by auto
    ultimately show ?thesis using True r(2) assms(3,5) c by auto
  next
    case False
    then have "md_turn e d s = (True, ?d, human_check e s)"
      unfolding turn using d g by (simp add: md_compare_def hisi_md_dma_image_def Let_def)
    then show ?thesis using False assms d(2) by (simp add: human_on)
  qed
qed

lemma compare_turns:
  "md_on s \<Longrightarrow> list_all gets_frame es \<Longrightarrow> \<not> first_frame d \<Longrightarrow> cur_idx d < 2 \<Longrightarrow> length (images d) = 2
   \<Longrightarrow> length (snd (region_rects d)) = IVE_RECT_NUM
   \<Longrightarrow> compared (fst (md_turns es (d, s))) = compared d @ compare_spec (images d ! (1 - cur_idx d)) es"
proof (induction es arbitrary: d s)
  case (Cons e es)
  have e: "gets_frame e" "list_all gets_frame es" using Cons.prems(2) by simp_all
  obtain d' t where t: "md_turn e d s = (True, d', t)" "md_on t" "\<not> first_frame d'" "cur_idx d' < 2" "length (images d') = 2"
    "length (snd (region_rects d')) = IVE_RECT_NUM" "compared d' = compared d @ [(picture e, images d ! (1 - cur_idx d))]"
    "images d' ! (1 - cur_idx d') = (if md_process e = 0 then picture e else images d ! (1 - cur_idx d))"
    using compare_turn [OF Cons.prems(1) e(1) Cons.prems(3-6)] by blast
  show ?case using Cons.IH [OF t(2) e(2) t(3-6)] t(1,7,8) by simp
qed simp

text \<open>
  C20: The detection compares each frame with the last frame it compared successfully, with one
  exception at each start: the first frame is stored where the second one goes, so that the second
  one, and those after it until a comparison succeeds, are compared with what the other image held
  before the start.
\<close>

theorem motion_compares_neighbours:
  assumes "md_on s" "first_frame d" "cur_idx d < 2" "length (images d) = 2" "length (snd (region_rects d)) = IVE_RECT_NUM"
    and "list_all gets_frame (e # es)"
  shows "compared (fst (md_turns (e # es) (d, s))) = compared d @ compare_spec (images d ! cur_idx d) es"
proof -
  let ?d = "d\<lparr>images := (images d)[1 - cur_idx d := picture e], first_frame := False, cur_idx := 1 - cur_idx d\<rparr>"
  have c: "cur_idx d = 0 \<or> cur_idx d = 1" using assms(3) by auto
  have "md_turn e d s = (True, ?d, human_check e s)"
    using assms(1,2,6) by (simp add: md_turn_def md_on_def gets_frame_def hisi_md_dma_image_def Let_def)
  moreover have "compared (fst (md_turns es (?d, human_check e s))) = compared ?d @ compare_spec (images ?d ! (1 - cur_idx ?d)) es"
    by (rule compare_turns) (use assms c in \<open>auto simp: human_on\<close>)
  moreover have "images ?d ! (1 - cur_idx ?d) = images d ! cur_idx d" using c assms(4) by auto
  ultimately show ?thesis by simp
qed

section \<open>Concrete pictures\<close>

definition demo_blob :: blob_t where
  "demo_blob = \<lparr>cur_area_thr = 16, region_num = 2, regions =
     [\<lparr>rg_area = 400, rg_left = 0, rg_right = 20, rg_top = 0, rg_bottom = 20\<rparr>,
      \<lparr>rg_area = 0, rg_left = 0, rg_right = 0, rg_top = 0, rg_bottom = 0\<rparr>,
      \<lparr>rg_area = 64, rg_left = 40, rg_right = 48, rg_top = 8, rg_bottom = 16\<rparr>]\<rparr>"

abbreviation "demo_corners \<equiv> corners (\<lambda>v. ucast v * 3) (\<lambda>v. ucast v * 3)"

theorem regions_fit_table_witness:
  "\<exists>n out. ive_blob_to_rect demo_corners demo_blob (replicate 20 []) 20 8 = Some (n, out) \<and> n \<le> 20 \<and> length out = 20"
proof -
  have "sum_list (map (uint \<circ> rg_area) (regions demo_blob)) < 21 * 65529" "length (replicate 20 ([] :: point list)) = IVE_RECT_NUM"
    "unat (region_num demo_blob) = length (filter (\<lambda>r. rg_area r \<noteq> 0) (regions demo_blob))"
    by (simp_all add: demo_blob_def)
  from regions_fit_table [OF this, of "\<lambda>v. ucast v * 3" "\<lambda>v. ucast v * 3"] show ?thesis by auto
qed

definition demo_events :: "(video_env \<times> int) list" where
  "demo_events = [(demo_venv\<lparr>now := 1000\<rparr>, 1), (demo_venv\<lparr>now := 1010\<rparr>, 3), (demo_venv\<lparr>now := 1060\<rparr>, 1)]"

theorem alarms_are_spaced_witness:
  "successively (\<lambda>t u. u - t \<ge> 60) (0 # map (now \<circ> fst) (fst (alarm_run demo_events demo_video)))
   \<and> bus (snd (alarm_run demo_events demo_video))
       = foldl tell_recorder (bus demo_video) [(demo_venv\<lparr>now := 1000\<rparr>, 1), (demo_venv\<lparr>now := 1060\<rparr>, 1)]"
proof -
  have h: "alarm_switch (settings demo_video) \<noteq> 0" "nat (alarm_freqency (settings demo_video)) < length (alarm_interval demo_video)"
    "60 = alarm_interval demo_video ! nat (alarm_freqency (settings demo_video)) * 60"
    "\<forall>e \<in> set demo_events. 0 \<le> now (fst e) \<and> now (fst e) < 2 ^ 64"
    "sorted (uint (last_report demo_video) # map (now \<circ> fst) demo_events)"
    by (simp_all add: demo_video_def demo_events_def)
  have "spaced 60 0 demo_events = [(demo_venv\<lparr>now := 1000\<rparr>, 1), (demo_venv\<lparr>now := 1060\<rparr>, 1)]" by (simp add: demo_events_def)
  moreover have "last_report demo_video = 0" by (simp add: demo_video_def)
  ultimately show ?thesis using alarms_are_spaced [OF h(1,2,3) _ _ h(4,5)] by simp
qed

definition demo_picture :: "int \<Rightarrow> md_env" where
  "demo_picture n = \<lparr>get_frame = 0, picture = n, people = [], dma_copies = True, md_process = 0, found = demo_blob, scale = demo_corners,
     clock = demo_venv\<rparr>"

definition demo_md :: md_state where
  "demo_md = \<lparr>images = [0, 0], cur_idx = 0, first_frame = True, region_rects = (0, replicate 20 []), compared = []\<rparr>"

lemma demo_picture_frame: "gets_frame (demo_picture n)"
proof -
  have b: "sum_list (map (uint \<circ> rg_area) (regions demo_blob)) < 21 * 65529"
    "unat (region_num demo_blob) = length (filter (\<lambda>r. rg_area r \<noteq> 0) (regions demo_blob))"
    by (simp_all add: demo_blob_def)
  have "\<exists>n out. ive_blob_to_rect demo_corners demo_blob rects IVE_RECT_NUM 8 = Some (n, out) \<and> length out = IVE_RECT_NUM"
    if "length rects = IVE_RECT_NUM" for rects
    using regions_stored [OF b(1) that b(2)] by blast
  then show ?thesis by (simp add: gets_frame_def demo_picture_def)
qed

theorem motion_compares_neighbours_witness:
  "compared (fst (md_turns [demo_picture 1, demo_picture 2, demo_picture 3]
     (demo_md, with_running (\<lambda>r. r\<lparr>md_run := True\<rparr>) (set_status STATUS_RUN demo_video)))) = [(2, 0), (3, 2)]"
proof -
  let ?s = "with_running (\<lambda>r. r\<lparr>md_run := True\<rparr>) (set_status STATUS_RUN demo_video)"
  have "md_on ?s" by (simp add: md_on_def thread_told_def demo_video_def info_zero_def misc_get_bit_def)
  moreover have "first_frame demo_md" "cur_idx demo_md < 2" "length (images demo_md) = 2"
    "length (snd (region_rects demo_md)) = IVE_RECT_NUM" by (simp_all add: demo_md_def)
  moreover have "list_all gets_frame (demo_picture 1 # [demo_picture 2, demo_picture 3])" by (simp add: demo_picture_frame)
  ultimately show ?thesis
    using motion_compares_neighbours [of ?s demo_md "demo_picture 1" "[demo_picture 2, demo_picture 3]"]
    by (simp add: demo_picture_def demo_md_def)
qed

end
