(* ===== verification/VideoMedia.thy ===== *)
theory VideoMedia
  imports MediaStart Motion
begin

text \<open>
  The video server together with others: the audio server, which asks it before it sends sound to
  the cloud, and the recorder, which it tells of alarms.
\<close>

section \<open>No sound before the picture\<close>

text \<open>The frames of the audio server that were handed to the cloud for a service.\<close>

definition sounds :: "int \<Rightarrow> audio_call list \<Rightarrow> bytes list" where
  "sounds sid cs = concat (map (\<lambda>c. case c of Audio.Send_media n data _ _ \<Rightarrow> if n = sid then [data] else [] | _ \<Rightarrow> []) cs)"

lemma sounds_simps [simp]:
  "sounds sid (xs @ ys) = sounds sid xs @ sounds sid ys" "sounds sid [] = []"
  "sounds sid (Audio.Send_media n data stamp r # cs) = (if n = sid then data # sounds sid cs else sounds sid cs)"
  "sounds sid (Audio.Send_config n # cs) = sounds sid cs"
  by (simp_all add: sounds_def)

text \<open>The service belongs to no intercom, whose sound is sent whatever the video server says.\<close>

definition no_intercom :: "int \<Rightarrow> audio_server \<Rightarrow> bool" where
  "no_intercom sid a = (\<forall>c \<in> set (channels a). service_id c = sid \<longrightarrow> channel_type c \<noteq> SERVER_AUDIO)"

text \<open>Frames of both servers in any order; the audio server asks the video server as it is then.\<close>

datatype any_frame =
    Picture frame
  | Sound av_data_info_t "Audio.stream_env"

fun any_step :: "any_frame \<Rightarrow> video_server \<times> audio_server \<Rightarrow> video_server \<times> audio_server" where
  "any_step (Picture f) (v, a) = (frames_run [f] v, a)"
| "any_step (Sound scrap env) (v, a) =
     (v, Audio.stream_frame scrap (env\<lparr>synchronize := audio_video_synchronize (v_channels v)\<rparr>) a)"

definition any_run :: "any_frame list \<Rightarrow> video_server \<times> audio_server \<Rightarrow> video_server \<times> audio_server" where
  "any_run fs va = foldl (\<lambda>va f. any_step f va) va fs"

text \<open>The audio channels that send a frame of their own to the service in the cloud.\<close>

definition hears :: "int \<Rightarrow> audio_channel_t \<Rightarrow> bool" where
  "hears sid c = (ch_status c = Audio.CHANNEL_VALID \<and> channel_type c = SERVER_ALIYUN \<and> service_id c = sid)"

definition hearers :: "int \<Rightarrow> audio_server \<Rightarrow> nat" where
  "hearers sid a = length (filter (\<lambda>i. hears sid (channels a ! i)) [0..<4])"

lemma send_frame_fields: "service_id (send_frame env stamp c) = service_id c" "channel_type (send_frame env stamp c) = channel_type c"
  by (simp_all add: send_frame_def)

lemma audio_write_frame:
  "channels (write_audio_buffer avinfo data sid a) = channels a" "audio_calls (write_audio_buffer avinfo data sid a) = audio_calls a"
  by (simp_all add: write_audio_buffer_def split: option.split prod.split)

lemma audio_deliver_channel:
  "length (channels (Audio.deliver_frame env avinfo data i a)) = length (channels a)"
  "k \<noteq> i \<Longrightarrow> channels (Audio.deliver_frame env avinfo data i a) ! k = channels a ! k"
  "i < length (channels a) \<Longrightarrow> service_id (channels (Audio.deliver_frame env avinfo data i a) ! i) = service_id (channels a ! i)
    \<and> channel_type (channels (Audio.deliver_frame env avinfo data i a) ! i) = channel_type (channels a ! i)"
  by (simp_all add: Audio.deliver_frame_def Audio.set_channel_def audio_write_frame send_frame_fields Let_def)

lemma audio_deliver_sounds:
  assumes "no_intercom sid a" "i < length (channels a)"
  shows "sounds sid (audio_calls (Audio.deliver_frame env avinfo data i a)) =
    sounds sid (audio_calls a) @ (if hears sid (channels a ! i) \<and> synchronize env sid = 0 then [data] else [])"
proof -
  have "service_id (channels a ! i) = sid \<longrightarrow> channel_type (channels a ! i) \<noteq> SERVER_AUDIO"
    using assms nth_mem by (auto simp: no_intercom_def)
  then show ?thesis
    by (auto simp: Audio.deliver_frame_def Audio.set_channel_def audio_write_frame hears_def Let_def)
qed

lemma no_intercom_deliver: "no_intercom sid a \<Longrightarrow> no_intercom sid (Audio.deliver_frame env avinfo data i a)"
proof -
  let ?b = "Audio.deliver_frame env avinfo data i a"
  assume a: "no_intercom sid a"
  have "service_id (channels ?b ! k) = service_id (channels a ! k) \<and> channel_type (channels ?b ! k) = channel_type (channels a ! k)"
    if "k < length (channels a)" for k
    using audio_deliver_channel(2,3) that by (cases "k = i") simp_all
  then show ?thesis using a audio_deliver_channel(1) [of env avinfo data i a] unfolding no_intercom_def
    by (simp add: all_set_conv_all_nth)
qed

lemma audio_fold_sounds:
  "no_intercom sid a \<Longrightarrow> distinct is \<Longrightarrow> list_all (\<lambda>i. i < length (channels a)) is \<Longrightarrow>
   (let b = foldl (\<lambda>a i. Audio.deliver_frame env avinfo data i a) a is in
    no_intercom sid b \<and> length (channels b) = length (channels a) \<and> sounds sid (audio_calls b) = sounds sid (audio_calls a)
      @ replicate (if synchronize env sid = 0 then length (filter (\<lambda>i. hears sid (channels a ! i)) is) else 0) data)"
proof (induction "is" arbitrary: a)
  case (Cons i "is")
  let ?b = "Audio.deliver_frame env avinfo data i a"
  have i: "i < length (channels a)" "distinct is" "i \<notin> set is" using Cons.prems(2,3) by simp_all
  have "list_all (\<lambda>i. i < length (channels ?b)) is" using Cons.prems(3) audio_deliver_channel(1) by simp
  note ih = Cons.IH [OF no_intercom_deliver [OF Cons.prems(1)] i(2) this]
  have "channels ?b ! x = channels a ! x" if "x \<in> set is" for x
    using that i(3) by (intro audio_deliver_channel(2)) auto
  then have "filter (\<lambda>i. hears sid (channels ?b ! i)) is = filter (\<lambda>i. hears sid (channels a ! i)) is"
    by (intro filter_cong) simp_all
  then show ?case
    using ih audio_deliver_sounds [OF Cons.prems(1) i(1), of env avinfo data] audio_deliver_channel(1) [of env avinfo data i a]
    by (simp add: Let_def)
qed simp

lemma audio_frame_sounds:
  assumes "no_intercom sid a" "length (channels a) = 4"
  shows "no_intercom sid (Audio.stream_frame scrap env a) \<and> length (channels (Audio.stream_frame scrap env a)) = 4
    \<and> sounds sid (audio_calls (Audio.stream_frame scrap env a)) = sounds sid (audio_calls a)
      @ replicate (if synchronize env sid = 0 then hearers sid a else 0) (drop 4 (frame_data env))"
  using audio_fold_sounds [OF assms(1), of "[0..<4]" env "Audio.frame_info scrap env" "drop 4 (frame_data env)"] assms(2)
  by (simp add: Audio.stream_frame_def hearers_def Let_def list_all_iff)

text \<open>What the video server answers for the viewer.\<close>

lemma viewer_synchronize:
  assumes "viewer k sid before v"
  shows "(audio_video_synchronize (v_channels v) sid = 0) =
    (vc_status (v_channels v ! k) = Video.CHANNEL_VALID \<and> \<not> vc_require_key (v_channels v ! k))"
proof -
  let ?P = "\<lambda>c. vc_service c = sid \<and> vc_status c = Video.CHANNEL_VALID"
  have k: "k < length (v_channels v)" "vc_service (v_channels v ! k) = sid"
    "\<forall>j < length (v_channels v). ?P (v_channels v ! j) \<longrightarrow> j = k"
    using assms by (auto simp: viewer_def)
  show ?thesis
  proof (cases "vc_status (v_channels v ! k) = Video.CHANNEL_VALID")
    case True
    have "Video.first_channel ?P 0 (v_channels v) = int k"
      by (rule first_channel_unique [OF k(1) _ k(3)]) (simp add: True k(2))
    then show ?thesis using True by (simp add: audio_video_synchronize_def)
  next
    case False
    have none: "(\<exists>c \<in> set (v_channels v). ?P c) = False" using k(3) False by (metis in_set_conv_nth)
    have "Video.first_channel ?P 0 (v_channels v) = - 1"
      using first_channel_spec [of 0 "v_channels v" ?P] unfolding none by simp
    then show ?thesis using False by (simp add: audio_video_synchronize_def)
  qed
qed

lemma key_frame_stays: "\<not> vc_require_key (v_channels v ! k) \<Longrightarrow> \<not> vc_require_key (v_channels (frames_run fs v) ! k)"
proof (induction fs arbitrary: v)
  case (Cons f fs)
  obtain scrap si ch env where f: "f = (scrap, si, ch, env)" by (metis prod_cases4)
  have d: "\<not> vc_require_key (v_channels (Video.deliver_frame env avinfo data ch i t) ! k)" if "\<not> vc_require_key (v_channels t ! k)" for avinfo data i t
  proof (cases "k = i \<and> i < length (v_channels t)")
    case True
    then show ?thesis using deliver_channel [of i t env avinfo data ch] that by (auto simp: after_send_key)
  next
    case False
    then show ?thesis using that deliver_others(2) [of k i env avinfo data ch t]
      by (cases "k = i") (auto simp: Video.deliver_frame_def write_video_buffer_def list_update_beyond not_less Let_def split: option.split prod.split)
  qed
  have "\<not> vc_require_key (v_channels (Video.stream_frame scrap si ch env v) ! k)"
    by (rule stream_frame_invariant [where P = "\<lambda>t. \<not> vc_require_key (v_channels t ! k)"]) (use d Cons.prems in auto)
  then show ?case using Cons.IH f by (simp add: frames_run_def)
qed (simp add: frames_run_def)

definition in_step :: "nat \<Rightarrow> int \<Rightarrow> video_call list \<Rightarrow> video_server \<times> audio_server \<Rightarrow> bool" where
  "in_step k sid before va = (viewer k sid before (fst va) \<and> no_intercom sid (snd va) \<and> length (channels (snd va)) = 4
     \<and> (sounds sid (audio_calls (snd va)) \<noteq> [] \<longrightarrow> \<not> vc_require_key (v_channels (fst va) ! k)))"

lemma in_step_run: "in_step k sid before va \<Longrightarrow> in_step k sid before (any_run fs va)"
proof (induction fs arbitrary: va)
  case (Cons f fs)
  obtain v a where va: "va = (v, a)" by fastforce
  have "in_step k sid before (any_step f (v, a))"
  proof (cases f)
    case (Picture p)
    then show ?thesis using Cons.prems viewer_frames [of k sid before v "[p]"] key_frame_stays [of v k "[p]"]
      by (auto simp: in_step_def va)
  next
    case (Sound scrap env)
    let ?env = "env\<lparr>synchronize := audio_video_synchronize (v_channels v)\<rparr>"
    have a: "no_intercom sid a" "length (channels a) = 4" using Cons.prems by (simp_all add: in_step_def va)
    show ?thesis
      using Cons.prems audio_frame_sounds [OF a, of scrap ?env] viewer_synchronize [of k sid before v]
      by (auto simp: in_step_def va Sound split: if_splits)
  qed
  then show ?case using Cons.IH va by (simp add: any_run_def)
qed (simp add: any_run_def)

text \<open>
  C19: Composition of the video and the audio server: a viewer in the cloud hears nothing before a
  key frame has reached him, in whatever order the frames of the two servers come; from then on,
  and as long as his picture is not given up, every sound frame is sent to him by each audio channel
  he has.
\<close>

theorem sound_follows_picture:
  assumes "length (v_channels v) = MAX_AV_CHANNEL" "k < MAX_AV_CHANNEL" "channel_of sid SERVER_ALIYUN (v_channels v ! k)"
    and "vc_require_key (v_channels v ! k)" "\<forall>i < MAX_AV_CHANNEL. i \<noteq> k \<longrightarrow> vc_service (v_channels v ! i) \<noteq> sid"
    and "no_intercom sid a" "length (channels a) = MAX_AV_CHANNEL" "sounds sid (audio_calls a) = []"
    and "any_run fs (v, a) = (v', a')"
  shows "\<exists>new. video_calls v' = video_calls v @ new
    \<and> (sounds sid (audio_calls a') \<noteq> [] \<longrightarrow> reached sid new \<noteq> [] \<and> av_key_frame (hd (reached sid new)) \<noteq> 0)
    \<and> sounds sid (audio_calls (snd (any_step (Sound scrap env) (v', a')))) = sounds sid (audio_calls a')
      @ replicate (if reached sid new \<noteq> [] \<and> vc_status (v_channels v' ! k) = Video.CHANNEL_VALID then hearers sid a' else 0)
          (drop 4 (frame_data env))"
proof -
  have "in_step k sid (video_calls v) (v, a)"
    using assms(1-8) unfolding in_step_def viewer_def by (auto simp: channel_of_def reached_def)
  from in_step_run [OF this, of fs] have i: "viewer k sid (video_calls v) v'" "no_intercom sid a'" "length (channels a') = 4"
    "sounds sid (audio_calls a') \<noteq> [] \<longrightarrow> \<not> vc_require_key (v_channels v' ! k)"
    using assms(9) by (simp_all add: in_step_def)
  obtain new where new: "video_calls v' = video_calls v @ new" "vc_require_key (v_channels v' ! k) \<longleftrightarrow> reached sid new = []"
    "reached sid new \<noteq> [] \<longrightarrow> av_key_frame (hd (reached sid new)) \<noteq> 0"
    using i(1) by (auto simp: viewer_def)
  let ?env = "env\<lparr>synchronize := audio_video_synchronize (v_channels v')\<rparr>"
  have "sounds sid (audio_calls (Audio.stream_frame scrap ?env a')) = sounds sid (audio_calls a')
      @ replicate (if reached sid new \<noteq> [] \<and> vc_status (v_channels v' ! k) = Video.CHANNEL_VALID then hearers sid a' else 0)
          (drop 4 (frame_data env))"
    using audio_frame_sounds [OF i(2,3), of scrap ?env] viewer_synchronize [OF i(1)] new(2) by auto
  then show ?thesis using new i(4) by (intro exI [of _ new]) simp
qed

definition heard_audio :: audio_server where
  "heard_audio = demo_audio\<lparr>channels := [free_channel\<lparr>ch_status := Audio.CHANNEL_VALID, channel_type := SERVER_ALIYUN, service_id := 7\<rparr>,
     free_channel, free_channel, free_channel]\<rparr>"

theorem sound_follows_picture_witness:
  "sounds 7 (audio_calls (snd (any_step (Sound undefined Audio.demo_stream_env) (viewed_video, heard_audio)))) = []"
proof -
  have h: "length (v_channels viewed_video) = MAX_AV_CHANNEL" "(0 :: nat) < MAX_AV_CHANNEL"
    "channel_of 7 SERVER_ALIYUN (v_channels viewed_video ! 0)" "vc_require_key (v_channels viewed_video ! 0)"
    "\<forall>i < MAX_AV_CHANNEL. i \<noteq> 0 \<longrightarrow> vc_service (v_channels viewed_video ! i) \<noteq> 7"
    by (auto simp: viewed_video_def channel_of_def free_video_channel_def nth_Cons split: nat.split)
  have a: "no_intercom 7 heard_audio" "length (channels heard_audio) = MAX_AV_CHANNEL" "sounds 7 (audio_calls heard_audio) = []"
    "any_run [] (viewed_video, heard_audio) = (viewed_video, heard_audio)"
    by (simp_all add: no_intercom_def heard_audio_def free_channel_def demo_audio_def any_run_def)
  show ?thesis
    using sound_follows_picture [OF h a, of undefined Audio.demo_stream_env] a(3) by (auto simp: reached_def)
qed

section \<open>An alarm starts a recording\<close>

text \<open>The video server raises an alarm, the recorder takes the message.\<close>

definition alarm_recorded :: "video_env \<Rightarrow> int \<Rightarrow> bool \<Rightarrow> video_server \<Rightarrow> rec_server \<Rightarrow> video_server \<times> rec_server" where
  "alarm_recorded env event ok v r =
     (let v = snd (video_md_trigger_message env event v) in
      (v, rec_take_message ok (r\<lparr>bus := bus v\<rparr>)))"

text \<open>
  C23: Composition of the video server and the recorder: an alarm that is due makes the running
  recorder, if alarms are to be recorded and a slot is free, start one recording of that
  kind, from the time of the alarm for the configured length, in the first free slot, and
  leaves the other recordings alone.
\<close>

theorem alarm_starts_recording:
  assumes "alarm_switch (settings v) \<noteq> 0" "nat (alarm_freqency (settings v)) < length (alarm_interval v)" "alarm_due env v"
    and "idle_queue (bus v SERVER_RECORDER)"
    and "status (info r) = STATUS_RUN" "msg_lock (info r) = 0" "recorder_enable r \<in> {ALIYUN_RECORDER_MODE_ALARM, ALIYUN_RECORDER_MODE_ALL}"
    and "free_slot (jobs r) 0 = Some i" "i < length (jobs r)" "count_job_number r \<noteq> MAX_RECORDER_JOB"
  shows "\<exists>ini. jobs (snd (alarm_recorded env event True v r)) = (jobs r)[i := job_zero\<lparr>t_id := i, job_status := RECORDER_THREAD_STARTED, job_init := ini\<rparr>]
    \<and> ri_type ini = LV_STORAGE_RECORD_ALARM \<and> ri_sub_type ini = event
    \<and> ri_start ini = date_string (local_time env (now env))
    \<and> ri_stop ini = date_string (local_time env (uint (word_of_int (now env + alarm_length env) :: u64)))"
proof -
  let ?v = "snd (video_md_trigger_message env event v)" and ?m = "alarm_message env event"
  let ?ini = "init_zero\<lparr>ri_video_channel := 0, ri_mode := RECORDER_MODE_BY_TIME, ri_type := LV_STORAGE_RECORD_ALARM, ri_sub_type := event,
    ri_audio := 1, ri_start := date_string (local_time env (now env)),
    ri_stop := time_stamp_to_date (local_time env) (uint (word_of_int (now env + alarm_length env) :: u64))\<rparr>"
  have m: "m_message ?m = MSG_RECORDER_ADD" "m_arg ?m = Some (P_recorder_init ?ini)"
    by (simp_all add: alarm_message_def Let_def)
  obtain q where q: "bus ?v = (bus v)(SERVER_RECORDER := q)" "one_message ?m q"
    using idle_send [of "bus v" SERVER_RECORDER ?m] assms(4) trigger_cases [OF assms(1,2), of env event] assms(3)
    by (auto simp: is_server_def)
  let ?r = "r\<lparr>bus := bus ?v\<rparr>"
  have one: "one_message ?m (bus ?r SERVER_RECORDER)" using q by simp
  obtain q' n where t: "rec_take_message True ?r =
    (if recorder_message_filter (?m\<lparr>m_sequence := n\<rparr>) (?r\<lparr>bus := (bus ?r)(SERVER_RECORDER := q')\<rparr>) then ?r\<lparr>bus := (bus ?r)(SERVER_RECORDER := q')\<rparr>
     else RecorderServer.handle_message True (?m\<lparr>m_sequence := n\<rparr>) (?r\<lparr>bus := (bus ?r)(SERVER_RECORDER := q')\<rparr>))"
    using take_one [where s = ?r, OF _ one, of recorder_message_filter "RecorderServer.handle_message True"] assms(6)
    unfolding rec_take_message_def by auto
  let ?s = "?r\<lparr>bus := (bus ?r)(SERVER_RECORDER := q')\<rparr>"
  have "\<not> recorder_message_filter (?m\<lparr>m_sequence := n\<rparr>) ?s" using assms(5) by (simp add: recorder_message_filter_def error_filter_def)
  then have "rec_take_message True ?r = snd (recorder_add_job True (?m\<lparr>m_sequence := n\<rparr>) ?s)"
    using t m assms(5) by (simp add: RecorderServer.handle_message_def)
  moreover have "jobs (snd (recorder_add_job True (?m\<lparr>m_sequence := n\<rparr>) ?s)) =
      (jobs r)[i := job_zero\<lparr>t_id := i, job_status := RECORDER_THREAD_STARTED, job_init := ?ini\<rparr>]"
    using assms(7,8,10) m by (auto simp: recorder_add_job_def count_job_number_def refused_mode_def start_job_def Let_def)
  ultimately have "jobs (snd (alarm_recorded env event True v r)) = (jobs r)[i := job_zero\<lparr>t_id := i, job_status := RECORDER_THREAD_STARTED, job_init := ?ini\<rparr>]"
    by (simp add: alarm_recorded_def Let_def)
  then show ?thesis by (intro exI [of _ ?ini]) (simp add: time_stamp_to_date_def)
qed

theorem alarm_starts_recording_witness:
  "job_status (jobs (snd (alarm_recorded (demo_venv\<lparr>now := 1000\<rparr>) 1 True demo_video (set_status STATUS_RUN RecorderServer.demo_server))) ! 0)
     = RECORDER_THREAD_STARTED"
proof -
  let ?e = "demo_venv\<lparr>now := 1000\<rparr>" and ?r = "set_status STATUS_RUN RecorderServer.demo_server"
  have "alarm_switch (settings demo_video) \<noteq> 0" "nat (alarm_freqency (settings demo_video)) < length (alarm_interval demo_video)"
    "alarm_due ?e demo_video" "idle_queue (bus demo_video SERVER_RECORDER)"
    by (simp_all add: demo_video_def alarm_due_def demo_idle)
  moreover have "status (info ?r) = STATUS_RUN" "msg_lock (info ?r) = 0" "recorder_enable ?r \<in> {ALIYUN_RECORDER_MODE_ALARM, ALIYUN_RECORDER_MODE_ALL}"
    "free_slot (jobs ?r) 0 = Some 0" "0 < length (jobs ?r)" "count_job_number ?r \<noteq> MAX_RECORDER_JOB"
    by (simp_all add: RecorderServer.demo_server_def info_zero_def job_zero_def count_job_number_def eval_nat_numeral)
  ultimately show ?thesis
    using alarm_starts_recording [of demo_video ?e ?r 0 1] by (auto simp: RecorderServer.demo_server_def)
qed

end
