(* ===== verification/Aliyun.thy ===== *)
theory Aliyun
  imports Config VideoServer
begin

text \<open>
  The aliyun server of \<open>server/aliyun/aliyun.c\<close>, with the connection to the cloud of
  \<open>server/aliyun/linkkit_client.c\<close> it drives: how it finds the wireless network, how it connects, how it
  keeps the cloud's library running, and how it leaves.  What the cloud's library, the JSON
  parser, the wireless tools and the flash answer is an argument.
\<close>

section \<open>State\<close>

datatype wifi_status_e = WIFI_QRCODE | WIFI_STA

text \<open>The calls out of the program.\<close>

datatype cloud_call =
    Lv_init int
  | Lv_destroy
  | Lv_send_cmd int
  | Linkkit_open int
  | Linkkit_connect int
  | Linkkit_close
  | Linkkit_yield
  | Add_network "char list" "char list"
  | Save_network
  | Forget_network
  | Save_config

record aliyun_server = server_state +
  need_bind :: bool
  time_sync_label :: int
  wifi_st :: wifi_status_e
  ssid :: "char list"
  passwd :: "char list"
  bssid :: bytes
  token :: bytes
  product :: "char list \<times> char list \<times> char list \<times> char list"
  config_name :: "char list"
  retry :: int
  g_init :: bool
  g_running :: bool
  is_wifi_start :: bool
  is_iot_start :: bool
  wifi_file :: "bytes option"
  wifi_temp :: "bytes option"
  scan_queue :: queue
  cloud_calls :: "cloud_call list"
  al_stopped :: bool
  al_fault :: bool

text \<open>
  \<open>behind\<close> is what the memory holds behind an allocated block: texts are read up to the first zero, and
  neither a bar code nor a file brings one.  \<open>accepts\<close> is the queue of the snapshot thread when it takes
  its first message, if it ever does.
\<close>

record aliyun_env =
  devinfo_ret :: int
  devinfo :: "(char list \<times> char list \<times> char list \<times> char list) option"
  lv_init_ret :: int
  dev_malloc_ok :: bool
  open_ret :: int
  link_ok :: bool
  link_ok_again :: bool
  system_ret :: int
  connect_ret :: int
  parse :: "bytes \<Rightarrow> cjson option"
  printed :: "json_item \<Rightarrow> char list option"
  behind :: bytes
  text_malloc_ok :: bool
  temp_writes :: bool
  temp_reads :: bool
  accepts :: "queue option"

abbreviation "cloud_do c s \<equiv> s\<lparr>cloud_calls := cloud_calls s @ [c]\<rparr>"
abbreviation "al_fails s \<equiv> s\<lparr>al_fault := True\<rparr>"

section \<open>The texts in the network's file\<close>

text \<open>
  \<open>json_del_yinhao\<close> takes a quotation mark at the beginning away and cuts the text at its last
  other one; a text without one becomes empty.  An empty text is read behind its end.
\<close>

fun last_quote :: "nat \<Rightarrow> nat \<Rightarrow> char list \<Rightarrow> nat" where
  "last_quote lp i [] = lp"
| "last_quote lp i (c # cs) = last_quote (if c = CHR 0x22 then i else lp) (i + 1) cs"

definition json_del_yinhao :: "char list \<Rightarrow> char list option" where
  "json_del_yinhao str =
     (let str = (if str \<noteq> [] \<and> hd str = CHR 0x22 then tl str else str) in
      if str = [] then None else Some (take (last_quote 0 1 (tl str)) str))"

text \<open>An item by its name: \<open>None\<close> for a fault, \<open>Some None\<close> for an item that is missing or cannot be printed.\<close>

definition take_item :: "aliyun_env \<Rightarrow> char list \<Rightarrow> cjson \<Rightarrow> char list option option" where
  "take_item env name root =
     (case cJSON_GetObjectItem (Some root) name of
        None \<Rightarrow> Some None
      | Some item \<Rightarrow> (case printed env item of None \<Rightarrow> Some None | Some text \<Rightarrow> map_option Some (json_del_yinhao text)))"

text \<open>The hexadecimal digits are converted in place.\<close>

definition hex_in_place :: "char list \<Rightarrow> bytes" where
  "hex_in_place text = (case misc_str_hex_2_hex text (length text) of
     None \<Rightarrow> [] | Some (n, bs) \<Rightarrow> bs @ map of_char (drop n text))"

definition store_item :: "char list \<Rightarrow> char list \<Rightarrow> aliyun_server \<Rightarrow> aliyun_server" where
  "store_item name text s =
     (if name = ''s'' then s\<lparr>ssid := take 32 text\<rparr>
      else if name = ''p'' then s\<lparr>passwd := take 64 text\<rparr>
      else if name = ''b'' then s\<lparr>bssid := hex_in_place (take 12 text)\<rparr>
      else s\<lparr>token := hex_in_place (take 6 text)\<rparr>)"

fun store_items :: "aliyun_env \<Rightarrow> cjson \<Rightarrow> char list list \<Rightarrow> aliyun_server \<Rightarrow> bool option \<times> aliyun_server" where
  "store_items env root [] s = (Some True, s)"
| "store_items env root (name # names) s =
     (case take_item env name root of
        None \<Rightarrow> (None, s)
      | Some None \<Rightarrow> (Some False, s)
      | Some (Some text) \<Rightarrow> store_items env root names (store_item name text s))"

definition read_text :: "aliyun_env \<Rightarrow> bytes \<Rightarrow> bytes" where
  "read_text env data = takeWhile (\<lambda>b. b \<noteq> 0) (data @ behind env)"

text \<open>Without the last two items the parsed text is given back and used on.\<close>

definition wifi_configure :: "aliyun_env \<Rightarrow> bytes option \<Rightarrow> aliyun_server \<Rightarrow> int \<times> aliyun_server" where
  "wifi_configure env fp s =
     (case fp of
        None \<Rightarrow> (- 1, s)
      | Some data \<Rightarrow>
          if \<not> text_malloc_ok env then (- 1, s)
          else case parse env (read_text env data) of
            None \<Rightarrow> (- 1, s)
          | Some root \<Rightarrow>
              (case store_items env root [''s'', ''p''] s of
                 (None, s) \<Rightarrow> (- 1, al_fails s)
               | (Some False, s) \<Rightarrow> (- 1, s)
               | (Some True, s) \<Rightarrow>
                   (case store_items env root [''b'', ''t''] s of
                      (Some True, s) \<Rightarrow> (0, s)
                    | (_, s) \<Rightarrow> (- 1, al_fails s))))"

section \<open>The search for a network\<close>

text \<open>The snapshot thread is asked for a bar code until its queue takes the message.\<close>

definition scan_request :: msg where
  "scan_request = msg_init\<lparr>m_sender := SERVER_ALIYUN, m_receiver := SERVER_ALIYUN, m_arg_in := arg_zero\<lparr>cat := 1\<rparr>\<rparr>"

definition send_qr_scan :: "aliyun_env \<Rightarrow> aliyun_server \<Rightarrow> aliyun_server" where
  "send_qr_scan env s =
     (case accepts env of
        None \<Rightarrow> s\<lparr>al_stopped := True\<rparr>
      | Some q \<Rightarrow>
          (case server_video_snap_message q scan_request of (ret, q) \<Rightarrow>
             if ret = - 1 then s\<lparr>al_stopped := True\<rparr> else s\<lparr>scan_queue := q\<rparr>))"

definition connect_request :: msg where
  "connect_request = msg_init\<lparr>m_message := MSG_ALIYUN_CONNECT, m_sender := SERVER_ALIYUN, m_receiver := SERVER_ALIYUN,
     m_arg_in := arg_zero\<lparr>chick := 1\<rparr>\<rparr>"

definition try_network :: "aliyun_env \<Rightarrow> bytes option \<Rightarrow> aliyun_server \<Rightarrow> aliyun_server" where
  "try_network env fp s =
     (case wifi_configure env fp s of (ret, s) \<Rightarrow>
        if al_fault s then s
        else if ret = 0 then send SERVER_ALIYUN connect_request (s\<lparr>wifi_st := WIFI_STA\<rparr>)
        else send_qr_scan env (s\<lparr>wifi_st := WIFI_QRCODE\<rparr>))"

definition wifi_init :: "aliyun_env \<Rightarrow> aliyun_server \<Rightarrow> aliyun_server" where
  "wifi_init env s =
     (let s = s\<lparr>wifi_st := WIFI_QRCODE\<rparr> in
      if wifi_file s = None then send_qr_scan env (s\<lparr>need_bind := True\<rparr>) else try_network env (wifi_file s) s)"

text \<open>A file that could not be opened is closed all the same.\<close>

definition get_qrcode_callback :: "aliyun_env \<Rightarrow> msg \<Rightarrow> aliyun_server \<Rightarrow> aliyun_server" where
  "get_qrcode_callback env m s =
     (case m_arg m of
        None \<Rightarrow> send_qr_scan env s
      | Some (P_bytes code) \<Rightarrow>
          let text = read_text env code; s = s\<lparr>ssid := [], passwd := [], bssid := [], token := []\<rparr> in
          (case parse env text of
             None \<Rightarrow> send_qr_scan env s
           | Some root \<Rightarrow>
               (case store_items env root [''s'', ''p'', ''b'', ''t''] s of
                  (None, s) \<Rightarrow> al_fails s
                | (Some False, s) \<Rightarrow> send_qr_scan env s
                | (Some True, s) \<Rightarrow>
                    if \<not> temp_writes env then
                      (let s = send_qr_scan env s in if al_stopped s then s else al_fails s)
                    else
                      let s = s\<lparr>wifi_temp := Some text\<rparr> in
                      if temp_reads env then try_network env (Some text) s
                      else (let s = try_network env None s in if al_stopped s then s else al_fails s)))
      | _ \<Rightarrow> al_fails s)"

section \<open>The connection\<close>

text \<open>Commands of the shell add the network; only a camera that is not bound does it.\<close>

definition wifi_connect :: "aliyun_server \<Rightarrow> aliyun_server" where
  "wifi_connect s = (if need_bind s then cloud_do (Add_network (ssid s) (passwd s)) s else s)"

definition find_link :: "aliyun_env \<Rightarrow> aliyun_server \<Rightarrow> int \<times> aliyun_server" where
  "find_link env s =
     (if is_wifi_start s then (0, s)
      else if link_ok env then (1, s\<lparr>is_wifi_start := True\<rparr>)
      else
        let s = wifi_connect s in
        if link_ok_again env then (1, s\<lparr>is_wifi_start := True\<rparr>) else (0, s))"

definition linkkit_client_start :: "aliyun_env \<Rightarrow> aliyun_server \<Rightarrow> int \<times> aliyun_server" where
  "linkkit_client_start env s =
     (case find_link env s of (ret, s) \<Rightarrow>
        if \<not> is_wifi_start s then (- 1, s)
        else
          let (ret, s) = (if need_bind s then (system_ret env, cloud_do Save_network s) else (ret, s)) in
          if is_iot_start s then (ret, s)
          else
            let s = cloud_do (Linkkit_connect (connect_ret env)) s in
            if connect_ret env < 0 then (- 1, s) else (connect_ret env, s\<lparr>is_iot_start := True\<rparr>))"

definition linkkit_init_client :: "aliyun_env \<Rightarrow> aliyun_server \<Rightarrow> aliyun_server" where
  "linkkit_init_client env s =
     (if g_running s then s
      else
        let s = s\<lparr>g_running := True\<rparr> in
        if dev_malloc_ok env then cloud_do (Linkkit_open (open_ret env)) s else s)"

definition linkkit_client_destroy :: "aliyun_server \<Rightarrow> aliyun_server" where
  "linkkit_client_destroy s =
     (if g_running s then cloud_do Linkkit_close (s\<lparr>g_running := False, is_wifi_start := False, is_iot_start := False\<rparr>) else s)"

definition linkvisual_init_client :: "aliyun_env \<Rightarrow> aliyun_server \<Rightarrow> aliyun_server" where
  "linkvisual_init_client env s =
     (if g_init s then s else (cloud_do (Lv_init (lv_init_ret env)) s)\<lparr>g_init := (lv_init_ret env \<ge> 0)\<rparr>)"

definition linkvisual_client_stop :: "aliyun_server \<Rightarrow> aliyun_server" where
  "linkvisual_client_stop s = (if g_init s then cloud_do Lv_destroy (s\<lparr>g_init := False\<rparr>) else s)"

text \<open>
  The library is given ten milliseconds; a message to itself makes the server come back to it.  The
  callbacks the library makes meanwhile are steps of their own.
\<close>

definition yield_request :: msg where
  "yield_request = msg_init\<lparr>m_message := MSG_ALIYUN_YIELD, m_sender := SERVER_ALIYUN, m_receiver := SERVER_ALIYUN\<rparr>"

definition aliyun_yield :: "aliyun_server \<Rightarrow> aliyun_server" where
  "aliyun_yield s = send SERVER_ALIYUN yield_request (cloud_do Linkkit_yield s)"

definition aliyun_restart :: "aliyun_server \<Rightarrow> aliyun_server" where
  "aliyun_restart s =
     (let s = linkkit_client_destroy s;
          s = (if need_bind s then cloud_do Forget_network (s\<lparr>wifi_file := None, wifi_temp := None, need_bind := False\<rparr>) else s) in
      set_status STATUS_SETUP s)"

text \<open>The names in the flash are used as formats and cut to one less than their length.\<close>

definition aliyun_get_uuid :: "aliyun_env \<Rightarrow> aliyun_server \<Rightarrow> int \<times> aliyun_server" where
  "aliyun_get_uuid env s =
     (if devinfo_ret env \<noteq> 0 then (devinfo_ret env, s)
      else case devinfo env of
        None \<Rightarrow> (- 1, s)
      | Some (pk, ps, dn, ds) \<Rightarrow>
          if CHR ''%'' \<in> set pk \<union> set ps \<union> set dn \<union> set ds then (0, al_fails s)
          else
            let s = s\<lparr>product := (take 19 pk, take 63 ps, take 31 dn, take 63 ds)\<rparr>;
                s = (if config_name s \<noteq> take 31 dn then cloud_do Save_config (s\<lparr>config_name := take 31 dn\<rparr>) else s) in
            (0, s))"

section \<open>The server\<close>

definition aliyun_server_init :: "aliyun_server \<Rightarrow> aliyun_server" where
  "aliyun_server_init s = (if misc_full_bit (init_status (info s)) 0 \<noteq> 0 then set_status STATUS_WAIT s else s)"

definition aliyun_server_setup :: "aliyun_env \<Rightarrow> aliyun_server \<Rightarrow> aliyun_server" where
  "aliyun_server_setup env s =
     (case aliyun_get_uuid env s of (ret, s) \<Rightarrow>
        if al_fault s then s
        else if ret \<noteq> 0 then set_status STATUS_WAIT s
        else
          let s = wifi_init env (linkkit_init_client env (linkvisual_init_client env s)) in
          if al_stopped s \<or> al_fault s then s else set_status STATUS_IDLE s)"

definition aliyun_server_start :: "aliyun_env \<Rightarrow> aliyun_server \<Rightarrow> aliyun_server" where
  "aliyun_server_start env s =
     (case linkkit_client_start env s of (ret, s) \<Rightarrow>
        if ret \<ge> 0 then aliyun_yield (set_status STATUS_RUN s)
        else
          let s = s\<lparr>retry := retry s + 1\<rparr> in
          if retry s > 4 then aliyun_restart (s\<lparr>retry := 0\<rparr>)
          else send SERVER_ALIYUN (msg_init\<lparr>m_message := MSG_MANAGER_DUMMY, m_sender := SERVER_ALIYUN, m_receiver := SERVER_ALIYUN\<rparr>) s)"

definition aliyun_server_release_1 :: "aliyun_server \<Rightarrow> aliyun_server" where
  "aliyun_server_release_1 s = linkkit_client_destroy (linkvisual_client_stop s)"

definition aliyun_server_release_2 :: "aliyun_server \<Rightarrow> aliyun_server" where
  "aliyun_server_release_2 s = s\<lparr>bus := (bus s)(SERVER_ALIYUN := msg_buffer_release (bus s SERVER_ALIYUN))\<rparr>"

definition aliyun_server_release_3 :: "aliyun_server \<Rightarrow> aliyun_server" where
  "aliyun_server_release_3 s =
     send SERVER_MANAGER (msg_init\<lparr>m_message := MSG_MANAGER_EXIT_ACK, m_sender := SERVER_ALIYUN\<rparr>) (with_info (\<lambda>x. info_zero ()) s)"

definition time_sync_answer :: "aliyun_server \<Rightarrow> msg" where
  "time_sync_answer s = msg_init\<lparr>m_message := MSG_ALIYUN_GET_TIME_SYNC_ACK, m_sender := SERVER_ALIYUN, m_receiver := SERVER_ALIYUN,
     m_arg_in := arg_zero\<lparr>cat := time_sync_label s\<rparr>\<rparr>"

text \<open>The server has no timers of its own; the messages without a case here change nothing.\<close>

definition handle_message :: "aliyun_env \<Rightarrow> msg \<Rightarrow> aliyun_server \<Rightarrow> aliyun_server" where
  "handle_message env m s =
     (let k = m_message m in
      if k = MSG_ALIYUN_CONNECT then (if status (info s) = STATUS_IDLE then set_status STATUS_START s else s)
      else if k = MSG_ALIYUN_QRCODE_RESULT then get_qrcode_callback env m s
      else if k = MSG_PLAYER_FINISH then cloud_do (Lv_send_cmd (wolf (m_arg_in m))) s
      else if k = MSG_ALIYUN_RESTART then aliyun_restart s
      else if k = MSG_MANAGER_EXIT then on_manager_exit m s
      else if k = MSG_MANAGER_EXIT_ACK then on_exit_ack m s
      else if k = MSG_ALIYUN_YIELD then aliyun_yield s
      else if k = MSG_ALIYUN_TIME_SYNCHRONIZED then s\<lparr>time_sync_label := 1\<rparr>
      else if k = MSG_ALIYUN_GET_TIME_SYNC then send (m_sender m) (time_sync_answer s) s
      else s)"

definition aliyun_message_filter :: "msg \<Rightarrow> aliyun_server \<Rightarrow> bool" where
  "aliyun_message_filter = error_filter"

definition aliyun_take_message :: "aliyun_env \<Rightarrow> aliyun_server \<Rightarrow> aliyun_server" where
  "aliyun_take_message env = take_message SERVER_ALIYUN aliyun_message_block aliyun_message_filter (handle_message env)"

definition aliyun_message_proc :: "aliyun_env \<Rightarrow> aliyun_server \<Rightarrow> aliyun_server" where
  "aliyun_message_proc env = message_proc SERVER_ALIYUN aliyun_message_block aliyun_message_filter (handle_message env)"

definition task_proc :: "aliyun_server \<Rightarrow> aliyun_server" where
  "task_proc s =
     (if status (info s) = STATUS_NONE then set_status STATUS_INIT s
      else if status (info s) = STATUS_WAIT then set_status STATUS_SETUP s
      else s)"

text \<open>\<open>server_restart\<close> has no definition in the source; no state leads to it.\<close>

definition state_machine :: "aliyun_env \<Rightarrow> aliyun_server \<Rightarrow> aliyun_server" where
  "state_machine env s =
     (let st = status (info s) in
      if st = STATUS_INIT then aliyun_server_init s
      else if st = STATUS_SETUP then aliyun_server_setup env s
      else if st = STATUS_START then aliyun_server_start env s
      else if st = STATUS_RESTART then al_fails s
      else if st = STATUS_ERROR then with_info (\<lambda>x. x\<lparr>status := EXIT_INIT, msg_lock := 0\<rparr>) s
      else if st = EXIT_INIT then with_info exit_init s
      else if st = EXIT_SERVER then (if quit_status (info s) = 0 then set_status EXIT_STAGE1 s else s)
      else if st = EXIT_STAGE1 then set_status EXIT_THREAD (aliyun_server_release_1 s)
      else if st = EXIT_THREAD then
        (let s = with_info (\<lambda>x. x\<lparr>thread_exit := thread_start x\<rparr>) s in
         if thread_start (info s) = 0 then set_status EXIT_STAGE2 s else s)
      else if st = EXIT_STAGE2 then set_status EXIT_FINISH (aliyun_server_release_2 s)
      else if st = EXIT_FINISH then with_info (\<lambda>x. x\<lparr>exit_flag := 1, status := STATUS_NONE\<rparr>) s
      else s)"

definition aliyun_server_begin :: "int \<Rightarrow> int \<Rightarrow> aliyun_server \<Rightarrow> aliyun_server" where
  "aliyun_server_begin msg_overrun msg_buffer_size_media s =
     (let s = s\<lparr>bus := (bus s)(SERVER_ALIYUN := msg_buffer_init True (bus s SERVER_ALIYUN) msg_overrun msg_buffer_size_media)\<rparr> in
      with_info (\<lambda>x. x\<lparr>quit_status := 0, init := 1\<rparr>) s)"

abbreviation "al_halted s \<equiv> al_stopped s \<or> al_fault s"

definition aliyun_server_turn :: "aliyun_env \<Rightarrow> aliyun_server \<Rightarrow> aliyun_server" where
  "aliyun_server_turn env = loop_turn (state_machine env) (\<lambda>s. al_halted s) task_proc (aliyun_message_proc env)"

definition aliyun_server_round :: "aliyun_env \<Rightarrow> aliyun_server \<Rightarrow> aliyun_server" where
  "aliyun_server_round env s =
     (if al_halted s then s else loop_round SERVER_ALIYUN (aliyun_server_turn env) (aliyun_take_message env) s)"

end
