(* ===== verification/Snapshot.thy ===== *)
theory Snapshot
  imports VideoProps
begin

text \<open>
  The snapshot thread of \<open>server/video/video.c\<close>: pictures for the cloud and for alarms, and the
  search for a bar code.  What the media library, the bar-code library and the file system
  answer is an argument.
\<close>

section \<open>One request\<close>

abbreviation (input) "SNAP_TYPE_NORMAL \<equiv> 0 :: int"
abbreviation (input) "SNAP_TYPE_BARCODE \<equiv> 1 :: int"
abbreviation (input) "SNAP_TYPE_CLOUD \<equiv> 2 :: int"
abbreviation (input) "AUDIO_RESOURCE_SCAN_START \<equiv> 0 :: int"
abbreviation (input) "AUDIO_RESOURCE_SCAN_SUCCESS \<equiv> 1 :: int"
abbreviation (input) "SNAP_NAME_SIZE \<equiv> 256 :: nat"
abbreviation (input) "SNAP_IMAGE_LIMIT \<equiv> 1048576 :: nat"

text \<open>\<open>codes\<close> are the texts of the bar codes that are found in the picture.\<close>

record snap_env =
  start_recv :: int
  trigger_snap :: int
  snap_fd :: int
  snap_selected :: select_result
  snap_query :: int
  snap_cur_packs :: nat
  snap_packs_ok :: bool
  snap_get :: int
  snap_packs :: "bytes list"
  codes :: "bytes list"
  code_copy_ok :: bool
  file_opens :: bool
  image_malloc_ok :: bool
  snap_release :: int
  stop_recv :: int

text \<open>Exactly one bar code counts; its text is sent without its terminating zero.\<close>

definition zbar_process :: "snap_env \<Rightarrow> video_server \<Rightarrow> int \<times> video_server" where
  "zbar_process env s =
     (case codes env of
        [code] \<Rightarrow>
          if code_copy_ok env then
            (0, send SERVER_ALIYUN (msg_init\<lparr>m_message := MSG_ALIYUN_QRCODE_RESULT, m_result := 1, m_arg := Some (P_bytes code),
                  m_arg_size := int (length code)\<rparr>)
                (send SERVER_AUDIO (msg_init\<lparr>m_message := MSG_AUDIO_PLAY_SOUND, m_arg_in := arg_zero\<lparr>cat := AUDIO_RESOURCE_SCAN_SUCCESS\<rparr>\<rparr>) s))
          else (- 1, s)
      | _ \<Rightarrow> (- 1, s))"

text \<open>The picture goes to the cloud when it was asked for by the cloud, or for an alarm.\<close>

definition post_picture :: "snap_env \<Rightarrow> msg \<Rightarrow> video_server \<Rightarrow> video_server" where
  "post_picture env m s =
     (let image = concat (snap_packs env); k = cat (m_arg_in m) in
      if (k = SNAP_TYPE_NORMAL \<and> dog (m_arg_in m) = LV_STORAGE_RECORD_ALARM) \<or> k = SNAP_TYPE_CLOUD then
        (if 0 < length image \<and> length image \<le> SNAP_IMAGE_LIMIT \<and> image_malloc_ok env then
           video_do (if k = SNAP_TYPE_CLOUD then Post_picture (wolf (m_arg_in m)) image else Post_alarm (wolf (m_arg_in m)) image) s
         else s)
      else s)"

text \<open>
  What is done with the picture; the result says whether the stream goes back to the encoder, which
  it does not when the file cannot be opened.  The name is copied into an array of 256 bytes.
\<close>

definition use_picture :: "snap_env \<Rightarrow> msg \<Rightarrow> video_server \<Rightarrow> bool \<times> bool \<times> video_server" where
  "use_picture env m s =
     (if cat (m_arg_in m) = SNAP_TYPE_BARCODE then
        (case zbar_process env s of (ret, s) \<Rightarrow> (ret = 0, True, s))
      else case m_arg m of
        Some (P_string name) \<Rightarrow>
          if length name \<ge> SNAP_NAME_SIZE then (False, False, video_fails s)
          else if \<not> file_opens env then (False, False, s)
          else (False, True, post_picture env m (video_do (Snap_file name (concat (snap_packs env))) s))
      | _ \<Rightarrow> (False, False, video_fails s))"

text \<open>The result says whether a bar code was found.\<close>

definition take_picture :: "snap_env \<Rightarrow> msg \<Rightarrow> video_server \<Rightarrow> bool \<times> video_server" where
  "take_picture env m s =
     (let s = video_do (Snap_start (start_recv env)) s in
      if start_recv env \<noteq> 0 then (False, s)
      else
        let s = video_do (Snap_trigger (trigger_snap env)) s in
        if trigger_snap env \<noteq> 0 \<or> snap_fd env < 0 \<or> snap_selected env \<noteq> Select_frame \<or> snap_query env \<noteq> 0
          \<or> snap_cur_packs env = 0 \<or> \<not> snap_packs_ok env \<or> snap_get env \<noteq> 0 then (False, s)
        else
          case use_picture env m (video_do Snap_got s) of
            (success, given, s) \<Rightarrow> (success, if given then video_do (Snap_released (snap_release env)) s else s))"

text \<open>A request for a bar code that was not found is put back; every sixtieth time the start sound is played.\<close>

definition snap_request :: "snap_env \<Rightarrow> msg \<Rightarrow> int \<Rightarrow> video_server \<Rightarrow> int \<times> video_server" where
  "snap_request env m repeat s =
     (case take_picture env m s of (success, s) \<Rightarrow>
        let s = video_do (Snap_stop (stop_recv env)) s in
        if cat (m_arg_in m) = SNAP_TYPE_BARCODE then
          (repeat + 1,
           if success then s
           else
             let s = s\<lparr>snap_buff := snd (server_video_snap_message (snap_buff s)
               (msg_init\<lparr>m_sender := SERVER_ALIYUN, m_arg_in := arg_zero\<lparr>cat := SNAP_TYPE_BARCODE\<rparr>\<rparr>))\<rparr> in
             if repeat mod 60 = 0
             then send SERVER_AUDIO (msg_init\<lparr>m_message := MSG_AUDIO_PLAY_SOUND, m_arg_in := arg_zero\<lparr>cat := AUDIO_RESOURCE_SCAN_START\<rparr>\<rparr>) s
             else s)
        else (repeat, s))"

section \<open>The thread\<close>

text \<open>
  The thread up to its loop: a source with no compression, or whose attributes cannot be read, ends it.
\<close>

definition snap_begins :: "nat \<Rightarrow> int \<Rightarrow> int \<Rightarrow> bool \<Rightarrow> video_server \<Rightarrow> bool \<times> video_server" where
  "snap_begins ch overrun size_small source_ok s =
     (let s = video_thread_begins (VIDEO_THREAD_ENCODER + ch) s;
          s = s\<lparr>snap_buff := msg_buffer_init True (snap_buff s) overrun size_small\<rparr> in
      if source_ok then (True, s)
      else (False, video_thread_ends (VIDEO_THREAD_ENCODER + ch) (s\<lparr>snap_buff := msg_buffer_release (snap_buff s)\<rparr>)))"

text \<open>One turn of the loop, after the wait for a message; \<open>repeat\<close> counts the searches.\<close>

definition video_snap_func :: "snap_env \<Rightarrow> nat \<Rightarrow> int \<Rightarrow> video_server \<Rightarrow> bool \<times> int \<times> video_server" where
  "video_snap_func env ch repeat s =
     (if thread_told (VIDEO_THREAD_ENCODER + ch) s then
        (False, repeat, video_thread_ends (VIDEO_THREAD_ENCODER + ch) (s\<lparr>snap_buff := msg_buffer_release (snap_buff s)\<rparr>))
      else
        (case msg_buffer_pop (snap_buff s) msg_init of
           (ret, m, q) \<Rightarrow>
             let s = s\<lparr>snap_buff := q\<rparr> in
             if ret \<noteq> 0 \<or> m_message m = MSG_MANAGER_DUMMY then (True, repeat, s)
             else case snap_request env m repeat s of (repeat, s) \<Rightarrow> (True, repeat, s)))"

section \<open>What is taken is given back\<close>

definition started :: "video_call list \<Rightarrow> int" where
  "started cs = int (length (filter (\<lambda>c. case c of Snap_start _ \<Rightarrow> True | _ \<Rightarrow> False) cs))
     - int (length (filter (\<lambda>c. case c of Snap_stop _ \<Rightarrow> True | _ \<Rightarrow> False) cs))"

definition streams_out :: "video_call list \<Rightarrow> int" where
  "streams_out cs = int (length (filter (\<lambda>c. c = Snap_got) cs))
     - int (length (filter (\<lambda>c. case c of Snap_released _ \<Rightarrow> True | _ \<Rightarrow> False) cs))"

lemma balance_append [simp]:
  "started (xs @ ys) = started xs + started ys" "streams_out (xs @ ys) = streams_out xs + streams_out ys"
  "started (c # d # cs) = started [c] + started (d # cs)" "streams_out (c # d # cs) = streams_out [c] + streams_out (d # cs)"
  by (simp_all add: started_def streams_out_def)

lemma balance_calls [simp]:
  "started [Snap_start r] = 1" "started [Snap_stop r] = - 1" "started [Snap_trigger r] = 0" "started [Snap_got] = 0"
  "started [Snap_released r] = 0" "started [Snap_file n d] = 0" "started [Post_picture i d] = 0" "started [Post_alarm i d] = 0"
  "streams_out [Snap_start r] = 0" "streams_out [Snap_stop r] = 0" "streams_out [Snap_trigger r] = 0" "streams_out [Snap_got] = 1"
  "streams_out [Snap_released r] = - 1" "streams_out [Snap_file n d] = 0" "streams_out [Post_picture i d] = 0" "streams_out [Post_alarm i d] = 0"
  by (simp_all add: started_def streams_out_def)

lemma zbar_calls: "video_calls (snd (zbar_process env s)) = video_calls s"
  by (simp add: zbar_process_def split: list.split)

lemma post_calls:
  "started (video_calls (post_picture env m s)) = started (video_calls s)"
  "streams_out (video_calls (post_picture env m s)) = streams_out (video_calls s)"
  by (simp_all add: post_picture_def Let_def)

text \<open>A picture whose file cannot be opened, or whose name is none.\<close>

definition kept_back :: "snap_env \<Rightarrow> msg \<Rightarrow> bool" where
  "kept_back env m = (cat (m_arg_in m) \<noteq> SNAP_TYPE_BARCODE \<and>
     (case m_arg m of Some (P_string name) \<Rightarrow> length name \<ge> SNAP_NAME_SIZE \<or> \<not> file_opens env | _ \<Rightarrow> True))"

lemma use_picture_calls:
  assumes "use_picture env m s = (success, given, t)"
  shows "started (video_calls t) = started (video_calls s) \<and> streams_out (video_calls t) = streams_out (video_calls s)
    \<and> given = (\<not> kept_back env m)"
proof (cases "cat (m_arg_in m) = SNAP_TYPE_BARCODE")
  case True
  obtain ret u where "zbar_process env s = (ret, u)" by fastforce
  then show ?thesis using assms True zbar_calls [of env s] by (auto simp: use_picture_def kept_back_def)
next
  case False
  then show ?thesis
    using assms by (auto simp: use_picture_def kept_back_def post_calls split: option.splits payload.splits if_splits)
qed

definition picture_taken :: "snap_env \<Rightarrow> bool" where
  "picture_taken env = (start_recv env = 0 \<and> trigger_snap env = 0 \<and> snap_fd env \<ge> 0 \<and> snap_selected env = Select_frame \<and> snap_query env = 0
     \<and> snap_cur_packs env \<noteq> 0 \<and> snap_packs_ok env \<and> snap_get env = 0)"

lemma take_picture_calls:
  "started (video_calls (snd (take_picture env m s))) = started (video_calls s) + 1
   \<and> streams_out (video_calls (snd (take_picture env m s))) = streams_out (video_calls s) + (if picture_taken env \<and> kept_back env m then 1 else 0)"
proof -
  define a where "a = video_do (Snap_start (start_recv env)) s"
  define b where "b = video_do (Snap_trigger (trigger_snap env)) a"
  have ab: "started (video_calls a) = started (video_calls s) + 1" "streams_out (video_calls a) = streams_out (video_calls s)"
    "started (video_calls b) = started (video_calls s) + 1" "streams_out (video_calls b) = streams_out (video_calls s)"
    by (simp_all add: a_def b_def)
  consider (start) "start_recv env \<noteq> 0" | (none) "start_recv env = 0" "\<not> picture_taken env" | (taken) "start_recv env = 0" "picture_taken env" by blast
  then show ?thesis
  proof cases
    case start
    then have "take_picture env m s = (False, a)" by (simp add: take_picture_def a_def)
    then show ?thesis using start ab by (simp add: picture_taken_def)
  next
    case none
    then have "take_picture env m s = (False, b)" by (auto simp: take_picture_def a_def b_def picture_taken_def Let_def not_less)
    then show ?thesis using none ab by simp
  next
    case taken
    obtain success given t where u: "use_picture env m (video_do Snap_got b) = (success, given, t)" by (metis prod_cases3)
    have "take_picture env m s = (success, if given then video_do (Snap_released (snap_release env)) t else t)"
      using taken u by (simp add: take_picture_def a_def b_def picture_taken_def Let_def)
    then show ?thesis using taken use_picture_calls [OF u] ab by simp
  qed
qed

lemma snap_request_calls:
  "started (video_calls (snd (snap_request env m repeat s))) = started (video_calls s)
   \<and> streams_out (video_calls (snd (snap_request env m repeat s))) = streams_out (video_calls s) + (if picture_taken env \<and> kept_back env m then 1 else 0)"
proof -
  obtain success t where t: "take_picture env m s = (success, t)" by fastforce
  have "video_calls (snd (snap_request env m repeat s)) = video_calls t @ [Snap_stop (stop_recv env)]"
    by (simp add: snap_request_def t Let_def)
  then show ?thesis using take_picture_calls [of env m s] t by simp
qed

text \<open>A run of the thread, with the messages the others put into its queue between the turns.\<close>

fun snap_run :: "nat \<Rightarrow> (snap_env \<times> queue) list \<Rightarrow> int \<times> video_server \<Rightarrow> int \<times> video_server" where
  "snap_run ch [] rs = rs"
| "snap_run ch ((env, q) # es) rs = snap_run ch es (snd (video_snap_func env ch (fst rs) ((snd rs)\<lparr>snap_buff := q\<rparr>)))"

text \<open>The turns of a run in which a picture was kept back.\<close>

definition keeps_back :: "nat \<Rightarrow> snap_env \<times> queue \<Rightarrow> video_server \<Rightarrow> bool" where
  "keeps_back ch eq s = (case msg_buffer_pop (snd eq) msg_init of (ret, m, q) \<Rightarrow>
     \<not> thread_told (VIDEO_THREAD_ENCODER + ch) s \<and> ret = 0 \<and> m_message m \<noteq> MSG_MANAGER_DUMMY \<and> picture_taken (fst eq) \<and> kept_back (fst eq) m)"

fun lost_streams :: "nat \<Rightarrow> (snap_env \<times> queue) list \<Rightarrow> int \<times> video_server \<Rightarrow> int" where
  "lost_streams ch [] rs = 0"
| "lost_streams ch ((env, q) # es) rs =
     (if keeps_back ch (env, q) (snd rs) then 1 else 0)
      + lost_streams ch es (snd (video_snap_func env ch (fst rs) ((snd rs)\<lparr>snap_buff := q\<rparr>)))"

lemma snap_turn_calls:
  "started (video_calls (snd (snd (video_snap_func env ch repeat (s\<lparr>snap_buff := q\<rparr>))))) = started (video_calls s)
   \<and> streams_out (video_calls (snd (snd (video_snap_func env ch repeat (s\<lparr>snap_buff := q\<rparr>)))))
      = streams_out (video_calls s) + (if keeps_back ch (env, q) s then 1 else 0)"
proof -
  obtain ret m q' where p: "msg_buffer_pop q msg_init = (ret, m, q')" by (metis prod_cases3)
  have told: "thread_told i (s\<lparr>snap_buff := q\<rparr>) = thread_told i s" for i by (simp add: thread_told_def)
  obtain r t where t: "snap_request env m repeat (s\<lparr>snap_buff := q'\<rparr>) = (r, t)" by fastforce
  show ?thesis
    using snap_request_calls [of env m repeat "s\<lparr>snap_buff := q'\<rparr>"] t
    by (simp add: video_snap_func_def told p keeps_back_def video_thread_ends_def Let_def)
qed

text \<open>
  C33: Through any requests and any failures the snapshot thread stops the encoder as often as it has
  started it, and gives back every picture it has taken from it, with one exception: a picture whose
  file cannot be opened (or has no name that fits) stays taken.
\<close>

theorem snapshots_given_back:
  "started (video_calls (snd (snap_run ch es (repeat, s)))) = started (video_calls s)
   \<and> streams_out (video_calls (snd (snap_run ch es (repeat, s)))) = streams_out (video_calls s) + lost_streams ch es (repeat, s)"
proof (induction es arbitrary: repeat s)
  case (Cons e es)
  obtain env q where e: "e = (env, q)" by fastforce
  obtain b r t where t: "video_snap_func env ch repeat (s\<lparr>snap_buff := q\<rparr>) = (b, r, t)" by (metis prod_cases3)
  show ?case using Cons.IH [of r t] snap_turn_calls [where env = env and ch = ch and repeat = repeat and s = s and q = q] t by (simp add: e)
qed simp

section \<open>The search for a bar code\<close>

definition misses :: "snap_env \<Rightarrow> bool" where
  "misses env = (\<not> (picture_taken env \<and> code_copy_ok env \<and> length (codes env) = 1))"

definition barcode_request :: "msg \<Rightarrow> bool" where
  "barcode_request m = (cat (m_arg_in m) = SNAP_TYPE_BARCODE \<and> m_message m \<noteq> MSG_MANAGER_DUMMY)"

text \<open>The thread with one such request in its queue, and the queue it sends the result to.\<close>

definition searching :: "nat \<Rightarrow> video_server \<Rightarrow> bool" where
  "searching ch s = (\<not> thread_told (VIDEO_THREAD_ENCODER + ch) s \<and> ring_wf (snap_buff s) \<and> b_init (snap_buff s) \<noteq> 0
     \<and> (\<exists>m. contents (snap_buff s) = [m] \<and> barcode_request m))"

definition scan_result :: "bytes \<Rightarrow> msg" where
  "scan_result code = msg_init\<lparr>m_message := MSG_ALIYUN_QRCODE_RESULT, m_result := 1, m_arg := Some (P_bytes code),
     m_arg_size := int (length code)\<rparr>"

fun snap_turns :: "nat \<Rightarrow> snap_env list \<Rightarrow> int \<times> video_server \<Rightarrow> int \<times> video_server" where
  "snap_turns ch [] rs = rs"
| "snap_turns ch (env # es) rs = snap_turns ch es (snd (video_snap_func env ch (fst rs) (snd rs)))"

lemma search_turn:
  assumes "searching ch s"
  shows "\<exists>q r t m. ring_wf q \<and> b_init q \<noteq> 0 \<and> contents q = [] \<and> barcode_request m
    \<and> ring_count q < capacity q \<and> video_snap_func env ch repeat s = (True, r, t) \<and> snap_request env m repeat (s\<lparr>snap_buff := q\<rparr>) = (r, t)"
proof -
  obtain m where m: "contents (snap_buff s) = [m]" "barcode_request m" using assms by (auto simp: searching_def)
  have s: "ring_wf (snap_buff s)" "b_init (snap_buff s) \<noteq> 0" "\<not> thread_told (VIDEO_THREAD_ENCODER + ch) s"
    using assms by (simp_all add: searching_def)
  have "0 < ring_count (snap_buff s)" using m(1) by (metis length_contents length_greater_0_conv list.distinct(1))
  note e = evict_props [OF s(1) this]
  let ?q = "evict (snap_buff s)"
  have c: "contents ?q = []" using e m(1) by simp
  have "ring_count ?q < capacity ?q"
    using c ring_size_pos [OF e(1)] length_contents [of ?q] by (simp add: capacity_def)
  moreover have "msg_buffer_pop (snap_buff s) msg_init = (0, m, ?q)" by (rule pop_nonempty [OF s(1) m(1)])
  moreover obtain r t where t: "snap_request env m repeat (s\<lparr>snap_buff := ?q\<rparr>) = (r, t)" by fastforce
  ultimately show ?thesis
    using s(2,3) e m c
    by - (rule exI [of _ ?q], rule exI [of _ r], rule exI [of _ t], rule exI [of _ m], simp add: video_snap_func_def barcode_request_def)
qed

lemma send_aliyun:
  assumes "bus s SERVER_ALIYUN = bus u SERVER_ALIYUN"
  shows "bus (send SERVER_ALIYUN m s) SERVER_ALIYUN = bus (send SERVER_ALIYUN m u) SERVER_ALIYUN"
  using assms by (simp add: send_def send_server is_server_def deliver_def)

lemma send_audio_aliyun: "bus (send SERVER_AUDIO m s) SERVER_ALIYUN = bus s SERVER_ALIYUN"
  by (simp add: send_def send_other)

definition answers :: "snap_env \<Rightarrow> bool" where
  "answers env = (code_copy_ok env \<and> length (codes env) = 1)"

lemma zbar_result:
  assumes "zbar_process env s = (ret, t)"
  shows "(ret = 0) = answers env \<and> info t = info s \<and> snap_buff t = snap_buff s
    \<and> bus t SERVER_ALIYUN = (if answers env then bus (send SERVER_ALIYUN (scan_result (hd (codes env))) s) SERVER_ALIYUN else bus s SERVER_ALIYUN)"
proof (cases "answers env")
  case True
  then obtain c where c: "codes env = [c]" "code_copy_ok env" by (auto simp: answers_def length_Suc_conv)
  define u where "u = send SERVER_AUDIO (msg_init\<lparr>m_message := MSG_AUDIO_PLAY_SOUND, m_arg_in := arg_zero\<lparr>cat := AUDIO_RESOURCE_SCAN_SUCCESS\<rparr>\<rparr>) s"
  have u: "info u = info s" "snap_buff u = snap_buff s" "bus u SERVER_ALIYUN = bus s SERVER_ALIYUN"
    by (simp_all add: u_def send_audio_aliyun)
  have t: "ret = 0" "t = send SERVER_ALIYUN (scan_result c) u" using assms c by (simp_all add: zbar_process_def u_def scan_result_def)
  have "snap_buff t = snap_buff u" by (simp add: t(2) send_def)
  then show ?thesis using True c(1) t u send_aliyun [OF u(3), of "scan_result c"] by simp
next
  case False
  then have "zbar_process env s = (- 1, s)" by (cases "codes env"; cases "tl (codes env)") (simp_all add: zbar_process_def answers_def)
  then show ?thesis using assms False by auto
qed

lemma take_picture_barcode:
  assumes "cat (m_arg_in m) = SNAP_TYPE_BARCODE" "take_picture env m s = (success, t)"
  shows "success = (\<not> misses env) \<and> info t = info s \<and> snap_buff t = snap_buff s
    \<and> bus t SERVER_ALIYUN = (if misses env then bus s SERVER_ALIYUN
        else bus (send SERVER_ALIYUN (scan_result (hd (codes env))) s) SERVER_ALIYUN)"
proof (cases "picture_taken env")
  case False
  define a where "a = video_do (Snap_start (start_recv env)) s"
  define b where "b = video_do (Snap_trigger (trigger_snap env)) a"
  have ab: "info a = info s" "snap_buff a = snap_buff s" "bus a = bus s" "info b = info s" "snap_buff b = snap_buff s" "bus b = bus s"
    by (simp_all add: a_def b_def)
  have "take_picture env m s = (False, if start_recv env = 0 then b else a)"
    using False by (simp add: take_picture_def picture_taken_def a_def b_def Let_def not_less) linarith
  then show ?thesis using assms(2) False ab by (auto simp: misses_def split: if_splits)
next
  case True
  define u where "u = video_do Snap_got (video_do (Snap_trigger (trigger_snap env)) (video_do (Snap_start (start_recv env)) s))"
  obtain ret v where z: "zbar_process env u = (ret, v)" by fastforce
  have u: "info u = info s" "snap_buff u = snap_buff s" "bus u = bus s" by (simp_all add: u_def)
  have "success = (ret = 0)" "t = video_do (Snap_released (snap_release env)) v"
    using assms True z by (simp_all add: take_picture_def picture_taken_def use_picture_def u_def Let_def)
  then show ?thesis
    using zbar_result [OF z] u send_aliyun [of u s] True by (auto simp: misses_def answers_def)
qed

lemma barcode_turn:
  assumes "searching ch s"
  shows "\<exists>r t. video_snap_func env ch repeat s = (True, r, t) \<and>
    (if misses env then searching ch t \<and> bus t SERVER_ALIYUN = bus s SERVER_ALIYUN
     else contents (snap_buff t) = [] \<and> bus t SERVER_ALIYUN = bus (send SERVER_ALIYUN (scan_result (hd (codes env))) s) SERVER_ALIYUN)"
proof -
  obtain q r t m where q: "ring_wf q" "b_init q \<noteq> 0" "contents q = []" "barcode_request m" "ring_count q < capacity q"
    and t: "video_snap_func env ch repeat s = (True, r, t)" "snap_request env m repeat (s\<lparr>snap_buff := q\<rparr>) = (r, t)"
    using search_turn [OF assms] by blast
  obtain success u where u: "take_picture env m (s\<lparr>snap_buff := q\<rparr>) = (success, u)" by fastforce
  have m: "cat (m_arg_in m) = SNAP_TYPE_BARCODE" using q(4) by (simp add: barcode_request_def)
  note k = take_picture_barcode [OF m u]
  have told: "\<not> thread_told (VIDEO_THREAD_ENCODER + ch) s" using assms by (simp add: searching_def)
  show ?thesis
  proof (cases "misses env")
    case True
    let ?m = "msg_init\<lparr>m_sender := SERVER_ALIYUN, m_arg_in := arg_zero\<lparr>cat := SNAP_TYPE_BARCODE\<rparr>\<rparr>"
    have sn: "snap_buff t = append_msg q ?m" "info t = info s" "bus t SERVER_ALIYUN = bus s SERVER_ALIYUN"
      using t(2) u k m True q push_room [OF q(1,5)]
      by (auto simp: snap_request_def server_video_snap_message_def send_audio_aliyun Let_def split: if_splits)
    have "searching ch t"
      using told sn append_msg_props [OF q(1,5), of ?m] q(2,3)
      by (simp add: searching_def thread_told_def barcode_request_def msg_init_def)
    then show ?thesis using t(1) sn True by simp
  next
    case False
    then show ?thesis using t u k m q(3) send_aliyun [of "s\<lparr>snap_buff := q\<rparr>" s] by (auto simp: snap_request_def Let_def)
  qed
qed

lemma barcode_turns:
  "searching ch s \<Longrightarrow> \<forall>env\<in>set es. misses env \<Longrightarrow>
   searching ch (snd (snap_turns ch es (repeat, s))) \<and> bus (snd (snap_turns ch es (repeat, s))) SERVER_ALIYUN = bus s SERVER_ALIYUN"
proof (induction es arbitrary: repeat s)
  case (Cons env es)
  obtain r t where t: "video_snap_func env ch repeat s = (True, r, t)" "searching ch t" "bus t SERVER_ALIYUN = bus s SERVER_ALIYUN"
    using barcode_turn [OF Cons.prems(1), of env repeat] Cons.prems(2) by auto
  show ?case using Cons.IH [OF t(2), of r] Cons.prems(2) t by simp
qed simp

lemma barcode_found:
  assumes "searching ch s" "\<forall>env\<in>set es. misses env" "\<not> misses hit"
  shows "case snap_turns ch (es @ [hit]) (repeat, s) of (r, t) \<Rightarrow>
    searching ch (snd (snap_turns ch es (repeat, s))) \<and> contents (snap_buff t) = []
    \<and> bus t SERVER_ALIYUN = bus (send SERVER_ALIYUN (scan_result (hd (codes hit))) s) SERVER_ALIYUN"
proof -
  have app: "snap_turns ch (xs @ ys) rs = snap_turns ch ys (snap_turns ch xs rs)" for xs ys rs
    by (induction xs arbitrary: rs) simp_all
  obtain r t where t: "snap_turns ch es (repeat, s) = (r, t)" by fastforce
  have s: "searching ch t" "bus t SERVER_ALIYUN = bus s SERVER_ALIYUN"
    using barcode_turns [OF assms(1,2), of repeat] t by simp_all
  obtain r' u where u: "video_snap_func hit ch r t = (True, r', u)" "contents (snap_buff u) = []"
    "bus u SERVER_ALIYUN = bus (send SERVER_ALIYUN (scan_result (hd (codes hit))) t) SERVER_ALIYUN"
    using barcode_turn [OF s(1), of hit r] assms(3) by auto
  show ?thesis using s u send_aliyun [OF s(2)] by (simp add: app t)
qed

text \<open>
  C34: Once asked to look for a bar code, the snapshot thread goes on looking by itself, through failing
  calls and pictures without (or with several) bar codes, and tells the cloud nothing; the first picture
  with one bar code ends the search and sends its text to the cloud server.
\<close>

theorem barcode_search_ends_with_hit:
  assumes "searching ch s" "\<forall>env\<in>set es. misses env" "\<not> misses hit"
  shows "case snap_turns ch (es @ [hit]) (repeat, s) of (r, t) \<Rightarrow>
    searching ch (snd (snap_turns ch es (repeat, s))) \<and> contents (snap_buff t) = []
    \<and> bus t SERVER_ALIYUN = bus (send SERVER_ALIYUN (scan_result (hd (codes hit))) s) SERVER_ALIYUN"
  by (rule barcode_found [OF assms])

definition demo_shot :: "bytes list \<Rightarrow> snap_env" where
  "demo_shot cs = \<lparr>start_recv = 0, trigger_snap = 0, snap_fd = 5, snap_selected = Select_frame, snap_query = 0, snap_cur_packs = 1,
     snap_packs_ok = True, snap_get = 0, snap_packs = [[0xff, 0xd8]], codes = cs, code_copy_ok = True, file_opens = True,
     image_malloc_ok = True, snap_release = 0, stop_recv = 0\<rparr>"

definition demo_search :: video_server where
  "demo_search = demo_video\<lparr>snap_buff := append_msg (demo_queue 1) (msg_init\<lparr>m_sender := SERVER_ALIYUN, m_arg_in := arg_zero\<lparr>cat := 1\<rparr>\<rparr>)\<rparr>"

lemma demo_searching: "searching 1 demo_search"
  using append_msg_props [of "demo_queue 1" "msg_init\<lparr>m_sender := SERVER_ALIYUN, m_arg_in := arg_zero\<lparr>cat := 1\<rparr>\<rparr>"]
  by (simp add: searching_def demo_search_def barcode_request_def thread_told_def demo_video_def info_zero_def msg_init_def misc_get_bit_def)

theorem barcode_search_ends_with_hit_witness:
  "case snap_turns 1 [demo_shot [], demo_shot [[1], [2]], demo_shot [[7]]] (0, demo_search) of (r, t) \<Rightarrow>
     searching 1 (snd (snap_turns 1 [demo_shot [], demo_shot [[1], [2]]] (0, demo_search))) \<and> contents (snap_buff t) = []
     \<and> bus t SERVER_ALIYUN = bus (send SERVER_ALIYUN (scan_result [7]) demo_search) SERVER_ALIYUN"
proof -
  have s: "searching 1 demo_search" by (rule demo_searching)
  have m: "\<forall>env\<in>set [demo_shot [], demo_shot [[1], [2]]]. misses env" "\<not> misses (demo_shot [[7]])"
    by (simp_all add: misses_def picture_taken_def demo_shot_def)
  show ?thesis using barcode_search_ends_with_hit [OF s m, of 0] by (simp add: demo_shot_def)
qed

end
