(* ===== verification/AliyunProps.thy ===== *)
theory AliyunProps
  imports Aliyun Snapshot Composition
begin

text \<open>
  What the aliyun server promises: it comes up through failing attempts, keeps its library running, leaves
  its loop when told to, and finds its network in a bar code that the video server has seen.
\<close>

section \<open>What the functions leave alone\<close>

text \<open>Nothing but the network's parameters has changed, and perhaps the flag of a fault.\<close>

definition learns :: "aliyun_server \<Rightarrow> aliyun_server \<Rightarrow> bool" where
  "learns s t = (info t = info s \<and> bus t = bus s \<and> waiting t = waiting s \<and> al_stopped t = al_stopped s \<and> cloud_calls t = cloud_calls s
    \<and> need_bind t = need_bind s \<and> wifi_file t = wifi_file s \<and> retry t = retry s \<and> is_wifi_start t = is_wifi_start s \<and> is_iot_start t = is_iot_start s)"

lemma learns_simps [simp]:
  "learns s s" "learns s (al_fails t) = learns s t" "learns s (store_item name x t) = learns s t"
  by (simp_all add: learns_def store_item_def)

lemma learns_trans: "learns s t \<Longrightarrow> learns t u \<Longrightarrow> learns s u"
  by (simp add: learns_def)

lemma store_items_frame:
  "store_items env root names s = (r, t) \<Longrightarrow> learns s t \<and> al_fault t = al_fault s"
proof (induction names arbitrary: s)
  case (Cons name names)
  have st: "learns s (store_item name x s)" "al_fault (store_item name x s) = al_fault s" for x
    by simp (simp add: store_item_def)
  show ?case
  proof (cases "take_item env name root")
    case (Some x)
    then show ?thesis
    proof (cases x)
      case (Some y)
      then have "store_items env root names (store_item name y s) = (r, t)" using Cons.prems \<open>take_item env name root = Some x\<close> by simp
      from Cons.IH [OF this] show ?thesis using st [of y] learns_trans [OF st(1) [of y]] by simp
    qed (use Cons.prems in simp)
  qed (use Cons.prems in simp)
qed simp

lemma wifi_configure_frame:
  assumes "wifi_configure env fp s = (r, t)"
  shows "learns s t \<and> (r = 0 \<longrightarrow> al_fault t = al_fault s)"
proof (cases "fp = None \<or> \<not> text_malloc_ok env \<or> parse env (read_text env (the fp)) = None")
  case True
  then show ?thesis using assms by (auto simp: wifi_configure_def split: option.splits)
next
  case False
  then obtain data root where d: "fp = Some data" "parse env (read_text env data) = Some root" "text_malloc_ok env" by auto
  obtain a u where a: "store_items env root [''s'', ''p''] s = (a, u)" by fastforce
  obtain b v where b: "store_items env root [''b'', ''t''] u = (b, v)" by fastforce
  have u: "learns s u" "al_fault u = al_fault s" and v: "learns s v" "al_fault v = al_fault s"
    using store_items_frame [OF a] store_items_frame [OF b] learns_trans by auto
  have "wifi_configure env fp s = (case a of None \<Rightarrow> (- 1, al_fails u) | Some False \<Rightarrow> (- 1, u)
      | Some True \<Rightarrow> (if b = Some True then (0, v) else (- 1, al_fails v)))"
    using d a b by (simp add: wifi_configure_def del: store_items.simps split: option.split bool.split)
  then show ?thesis using assms u v by (cases a) (auto split: if_splits bool.splits)
qed

lemma send_qr_frame:
  "info (send_qr_scan env s) = info s" "bus (send_qr_scan env s) = bus s" "waiting (send_qr_scan env s) = waiting s"
  by (simp_all add: send_qr_scan_def split: option.split prod.split)

section \<open>The messages to itself\<close>

abbreviation "own s \<equiv> bus s SERVER_ALIYUN"

definition put :: "queue \<Rightarrow> msg \<Rightarrow> queue" where
  "put q m = (if b_init q = 0 then q else ring_push q m)"

lemma send_own: "own (send SERVER_ALIYUN m s) = put (own s) m"
  by (simp add: send_def send_server is_server_def deliver_def put_def ring_push_def split: prod.split)

lemma send_elsewhere: "r \<noteq> SERVER_ALIYUN \<Longrightarrow> own (send r m s) = own s"
  by (simp add: frame_send_other_queue)

text \<open>At most one message to itself, which is none for the library.\<close>

definition others :: "aliyun_server \<Rightarrow> aliyun_server \<Rightarrow> bool" where
  "others s t = (msg_lock (info t) = msg_lock (info s)
     \<and> (own t = own s \<or> (\<exists>m. m_message m \<noteq> MSG_ALIYUN_YIELD \<and> own t = put (own s) m)))"

lemma othersI [intro]:
  "msg_lock (info t) = msg_lock (info s) \<Longrightarrow> own t = own s \<Longrightarrow> others s t"
  "msg_lock (info t) = msg_lock (info s) \<Longrightarrow> own t = put (own s) m \<Longrightarrow> m_message m \<noteq> MSG_ALIYUN_YIELD \<Longrightarrow> others s t"
  by (auto simp: others_def)

lemma others_try: "others s (try_network env fp s)"
proof -
  obtain r t where t: "wifi_configure env fp s = (r, t)" by fastforce
  have f: "info t = info s" "bus t = bus s" using wifi_configure_frame [OF t] by (simp_all add: learns_def)
  consider "al_fault t" | "\<not> al_fault t" "r \<noteq> 0" | "\<not> al_fault t" "r = 0" by blast
  then show ?thesis
  proof cases
    case 3
    then have "try_network env fp s = send SERVER_ALIYUN connect_request (t\<lparr>wifi_st := WIFI_STA\<rparr>)"
      using t by (simp add: try_network_def)
    moreover have "m_message connect_request \<noteq> MSG_ALIYUN_YIELD" by (simp add: connect_request_def)
    ultimately show ?thesis using f by (intro othersI(2) [where m = connect_request]) (simp_all add: send_own)
  qed (use t f in \<open>auto simp: try_network_def send_qr_frame\<close>)
qed

lemma others_frame: "info s' = info s \<Longrightarrow> own s' = own s \<Longrightarrow> others s' t \<Longrightarrow> others s t"
  by (simp add: others_def)

lemma others_wifi_init: "others s (wifi_init env s)"
  unfolding wifi_init_def Let_def
  by (auto simp: send_qr_frame intro: others_frame [OF _ _ others_try])

lemma others_qrcode: "others s (get_qrcode_callback env m s)"
proof (cases "m_arg m")
  case (Some p)
  show ?thesis
  proof (cases p)
    case (P_bytes code)
    define u where "u = s\<lparr>ssid := [], passwd := [], bssid := [], token := []\<rparr>"
    have u: "info u = info s" "own u = own s" by (simp_all add: u_def)
    show ?thesis
    proof (cases "parse env (read_text env code)")
      case None
      then have "get_qrcode_callback env m s = send_qr_scan env u"
        using Some P_bytes by (simp add: get_qrcode_callback_def u_def)
      then show ?thesis using u by (auto simp: send_qr_frame)
    next
      case (Some root)
      obtain r v where v: "store_items env root [''s'', ''p'', ''b'', ''t''] u = (r, v)" by fastforce
      have fv: "info v = info s" "own v = own s" using store_items_frame [OF v] u by (simp_all add: learns_def)
      define w where "w = v\<lparr>wifi_temp := Some (read_text env code)\<rparr>"
      have fw: "info w = info s" "own w = own s" using fv by (simp_all add: w_def)
      have eq: "get_qrcode_callback env m s = (case r of None \<Rightarrow> al_fails v | Some False \<Rightarrow> send_qr_scan env v
        | Some True \<Rightarrow> if \<not> temp_writes env then (if al_stopped (send_qr_scan env v) then send_qr_scan env v else al_fails (send_qr_scan env v))
          else if temp_reads env then try_network env (Some (read_text env code)) w
          else if al_stopped (try_network env None w) then try_network env None w else al_fails (try_network env None w))"
        using \<open>m_arg m = Some p\<close> P_bytes Some v
        by (cases r) (simp_all add: get_qrcode_callback_def u_def w_def Let_def del: store_items.simps split: bool.split)
      have tn: "others s (try_network env fp w)" for fp using others_try [of w env fp] fw by (rule others_frame [rotated 2])
      have fails: "others s (al_fails t)" if "others s t" for t using that by (simp add: others_def)
      show ?thesis
        unfolding eq using fv tn by (auto simp: send_qr_frame split: option.split bool.split intro: fails)
    qed
  qed (auto simp: get_qrcode_callback_def Some)
qed (auto simp: get_qrcode_callback_def send_qr_frame)

section \<open>The messages that keep the library running\<close>

lemma connection_frames:
  "info (wifi_connect s) = info s" "bus (wifi_connect s) = bus s"
  "info (linkkit_init_client env s) = info s" "bus (linkkit_init_client env s) = bus s"
  "info (linkvisual_init_client env s) = info s" "bus (linkvisual_init_client env s) = bus s"
  "info (linkkit_client_destroy s) = info s" "bus (linkkit_client_destroy s) = bus s"
  "info (linkvisual_client_stop s) = info s" "bus (linkvisual_client_stop s) = bus s"
  by (simp_all add: wifi_connect_def linkkit_init_client_def linkvisual_init_client_def linkkit_client_destroy_def
      linkvisual_client_stop_def Let_def)

lemma uuid_frame: "aliyun_get_uuid env s = (r, t) \<Longrightarrow> info t = info s \<and> bus t = bus s"
  by (auto simp: aliyun_get_uuid_def Let_def split: if_splits option.splits)

lemma find_link_frame: "find_link env s = (r, t) \<Longrightarrow> info t = info s \<and> bus t = bus s"
  by (auto simp: find_link_def connection_frames Let_def split: if_splits)

lemma start_frame: "linkkit_client_start env s = (r, t) \<Longrightarrow> info t = info s \<and> bus t = bus s"
proof -
  assume a: "linkkit_client_start env s = (r, t)"
  obtain r' u where u: "find_link env s = (r', u)" by fastforce
  then have "info u = info s" "bus u = bus s" using find_link_frame by blast+
  then show ?thesis using a u by (auto simp: linkkit_client_start_def Let_def split: if_splits)
qed

lemma restart_frame: "msg_lock (info (aliyun_restart s)) = msg_lock (info s)" "bus (aliyun_restart s) = bus s"
  by (simp_all add: aliyun_restart_def connection_frames Let_def)

text \<open>The start of the library succeeds.\<close>

definition came_up :: "aliyun_env \<Rightarrow> aliyun_server \<Rightarrow> bool" where
  "came_up env s = (status (info s) = STATUS_START \<and> fst (linkkit_client_start env s) \<ge> 0)"

lemma setup_others: "others s (aliyun_server_setup env s)"
proof -
  obtain r t where t: "aliyun_get_uuid env s = (r, t)" by fastforce
  define u where "u = linkkit_init_client env (linkvisual_init_client env t)"
  have u: "info u = info s" "own u = own s" "info t = info s" "own t = own s"
    using uuid_frame [OF t] by (simp_all add: u_def connection_frames)
  have w: "others s (wifi_init env u)" using others_wifi_init [of u env] u(1,2) by (rule others_frame [rotated 2])
  have idle: "others s (set_status v x)" if "others s x" for v x using that by (simp add: others_def)
  have "aliyun_server_setup env s = (if al_fault t then t else if r \<noteq> 0 then set_status STATUS_WAIT t
      else if al_halted (wifi_init env u) then wifi_init env u else set_status STATUS_IDLE (wifi_init env u))"
    by (simp add: aliyun_server_setup_def t u_def Let_def)
  moreover have "others s t" "others s (set_status STATUS_WAIT t)" using u by auto
  ultimately show ?thesis using w idle [OF w] by presburger
qed

lemma start_effect:
  assumes "status (info s) = STATUS_START"
  shows "if came_up env s then own (aliyun_server_start env s) = put (own s) yield_request \<and> msg_lock (info (aliyun_server_start env s)) = msg_lock (info s)
    else others s (aliyun_server_start env s)"
proof -
  obtain r t where t: "linkkit_client_start env s = (r, t)" by fastforce
  note f = start_frame [OF t]
  show ?thesis
  proof (cases "r \<ge> 0")
    case True
    then show ?thesis using t f assms by (simp add: came_up_def aliyun_server_start_def aliyun_yield_def send_own)
  next
    case False
    let ?m = "msg_init\<lparr>m_message := MSG_MANAGER_DUMMY, m_sender := SERVER_ALIYUN, m_receiver := SERVER_ALIYUN\<rparr>"
    have "others s (aliyun_server_start env s)"
    proof (cases "retry t + 1 > 4")
      case True
      then show ?thesis using t f False by (auto simp: aliyun_server_start_def restart_frame Let_def)
    next
      case retried: False
      then have "aliyun_server_start env s = send SERVER_ALIYUN ?m (t\<lparr>retry := retry t + 1\<rparr>)"
        using t False by (simp add: aliyun_server_start_def Let_def)
      then show ?thesis using f by (intro othersI(2) [where m = ?m]) (simp_all add: send_own)
    qed
    then show ?thesis using t False by (simp add: came_up_def)
  qed
qed

lemma machine_effect:
  assumes "msg_lock (info s) = 0"
  shows "msg_lock (info (Aliyun.state_machine env s)) = 0 \<and>
    (if status (info s) = EXIT_STAGE2 then b_init (own (Aliyun.state_machine env s)) = 0
     else if came_up env s then own (Aliyun.state_machine env s) = put (own s) yield_request
     else others s (Aliyun.state_machine env s))"
proof -
  have lock: "msg_lock (info t) = 0" if "others s t" for t using that assms by (simp add: others_def)
  consider (sets) "status (info s) = STATUS_SETUP" | (start) "status (info s) = STATUS_START"
    | (rest) "status (info s) \<noteq> STATUS_SETUP" "status (info s) \<noteq> STATUS_START" by blast
  then show ?thesis
  proof cases
    case sets
    then have "Aliyun.state_machine env s = aliyun_server_setup env s" "\<not> came_up env s" by (simp_all add: Aliyun.state_machine_def came_up_def)
    then show ?thesis using sets setup_others [of s env] lock by simp
  next
    case start
    then have "Aliyun.state_machine env s = aliyun_server_start env s" by (simp add: Aliyun.state_machine_def)
    then show ?thesis using start start_effect [OF start, of env] lock assms by (simp split: if_splits)
  next
    case rest
    then have up: "\<not> came_up env s" by (simp add: came_up_def)
    have "msg_lock (info (Aliyun.state_machine env s)) = 0"
      "status (info s) = EXIT_STAGE2 \<Longrightarrow> b_init (own (Aliyun.state_machine env s)) = 0"
      "status (info s) \<noteq> EXIT_STAGE2 \<Longrightarrow> own (Aliyun.state_machine env s) = own s"
      using rest assms
      by (simp_all add: Aliyun.state_machine_def aliyun_server_init_def exit_init_def aliyun_server_release_1_def aliyun_server_release_2_def
          msg_buffer_release_def connection_frames Let_def)
    then show ?thesis using up assms by (auto simp: others_def)
  qed
qed

lemma handle_effect:
  assumes "msg_lock (info s) = 0"
  shows "msg_lock (info (Aliyun.handle_message env m s)) = 0 \<and>
    (if m_message m = MSG_ALIYUN_YIELD then own (Aliyun.handle_message env m s) = put (own s) yield_request
     else others s (Aliyun.handle_message env m s))"
proof -
  have lock: "msg_lock (info t) = 0" if "others s t" for t using that assms by (simp add: others_def)
  consider (qr) "m_message m = MSG_ALIYUN_QRCODE_RESULT" | (time) "m_message m = MSG_ALIYUN_GET_TIME_SYNC"
    | (yields) "m_message m = MSG_ALIYUN_YIELD"
    | (rest) "m_message m \<noteq> MSG_ALIYUN_QRCODE_RESULT" "m_message m \<noteq> MSG_ALIYUN_GET_TIME_SYNC" "m_message m \<noteq> MSG_ALIYUN_YIELD" by blast
  then show ?thesis
  proof cases
    case qr
    then have "Aliyun.handle_message env m s = get_qrcode_callback env m s" by (simp add: Aliyun.handle_message_def)
    then show ?thesis using qr others_qrcode [of s env m] lock by simp
  next
    case time
    then have h: "Aliyun.handle_message env m s = send (m_sender m) (time_sync_answer s) s" by (simp add: Aliyun.handle_message_def)
    have "m_message (time_sync_answer s) \<noteq> MSG_ALIYUN_YIELD" by (simp add: time_sync_answer_def)
    then have "others s (Aliyun.handle_message env m s)"
      unfolding h by (cases "m_sender m = SERVER_ALIYUN") (auto simp: send_elsewhere intro: othersI(2) simp: send_own)
    then show ?thesis using time lock by simp
  next
    case yields
    then show ?thesis using assms by (simp add: Aliyun.handle_message_def aliyun_yield_def send_own)
  next
    case rest
    then have "msg_lock (info (Aliyun.handle_message env m s)) = 0" "own (Aliyun.handle_message env m s) = own s"
      using assms by (simp_all add: Aliyun.handle_message_def on_manager_exit_def keep_task_msg_def on_exit_ack_def restart_frame Let_def)
    then show ?thesis using rest assms by (auto simp: others_def)
  qed
qed

definition yields :: "queue \<Rightarrow> nat" where
  "yields q = length (filter (\<lambda>m. m_message m = MSG_ALIYUN_YIELD) (contents q))"

definition circulating :: "nat \<Rightarrow> aliyun_server \<Rightarrow> bool" where
  "circulating n s = (msg_lock (info s) = 0 \<and> (b_init (own s) \<noteq> 0 \<longrightarrow> ring_wf (own s) \<and> yields (own s) = n))"

lemma put_init: "ring_wf q \<Longrightarrow> b_init (put q m) = b_init q" "b_init q = 0 \<Longrightarrow> put q m = q"
  by (simp_all add: put_def ring_push_props)

lemma put_yields:
  assumes "ring_wf q" "b_init q \<noteq> 0" "ring_count q < capacity q"
  shows "ring_wf (put q m) \<and> yields (put q m) = yields q + (if m_message m = MSG_ALIYUN_YIELD then 1 else 0)"
proof -
  have "put q m = append_msg q m" using assms by (simp add: put_def ring_push_cases)
  then show ?thesis using append_msg_props [OF assms(1,3), of m] by (simp add: yields_def)
qed

lemma circulating_others:
  assumes "circulating n s" "others s t" "b_init (own s) \<noteq> 0 \<Longrightarrow> ring_count (own s) < capacity (own s)"
  shows "circulating n t"
proof -
  have lock: "msg_lock (info t) = 0" using assms by (simp add: circulating_def others_def)
  have "own t = own s \<or> (\<exists>m. m_message m \<noteq> MSG_ALIYUN_YIELD \<and> own t = put (own s) m)" using assms(2) by (simp add: others_def)
  then show ?thesis
  proof
    assume "\<exists>m. m_message m \<noteq> MSG_ALIYUN_YIELD \<and> own t = put (own s) m"
    then obtain m where m: "m_message m \<noteq> MSG_ALIYUN_YIELD" "own t = put (own s) m" by blast
    show ?thesis
    proof (cases "b_init (own s) = 0")
      case False
      then show ?thesis
        using lock m assms(1) put_yields [of "own s" m, OF _ False assms(3) [OF False]] by (simp add: circulating_def)
    qed (use lock m put_init(2) in \<open>simp add: circulating_def\<close>)
  qed (use lock assms(1) in \<open>simp add: circulating_def\<close>)
qed

lemma circulating_yield:
  assumes "circulating n s" "own t = put (own s) yield_request" "msg_lock (info t) = 0"
    "b_init (own s) \<noteq> 0 \<Longrightarrow> ring_count (own s) < capacity (own s)"
  shows "circulating (Suc n) t"
proof (cases "b_init (own s) = 0")
  case False
  then show ?thesis
    using assms(1-3) put_yields [of "own s" yield_request, OF _ False assms(4) [OF False]] by (simp add: circulating_def yield_request_def)
qed (use assms put_init(2) in \<open>simp add: circulating_def\<close>)

text \<open>A step of the state machine.\<close>

lemma circulating_machine:
  assumes "circulating n s" "b_init (own s) \<noteq> 0 \<Longrightarrow> ring_count (own s) < capacity (own s)"
  shows "circulating (if came_up env s then Suc n else n) (Aliyun.state_machine env s)"
proof -
  have lock: "msg_lock (info s) = 0" using assms(1) by (simp add: circulating_def)
  note e = machine_effect [OF lock, of env]
  show ?thesis
  proof (cases "status (info s) = EXIT_STAGE2")
    case True
    then show ?thesis using e by (simp add: circulating_def)
  next
    case False
    then show ?thesis using e circulating_yield [OF assms(1) _ _ assms(2)] circulating_others [OF assms(1) _ assms(2)] by (simp split: if_splits)
  qed
qed

lemma pop_init: "b_init q = 0 \<Longrightarrow> msg_buffer_pop q d = (r, m, q') \<Longrightarrow> b_init q' = 0"
  by (auto simp: msg_buffer_pop_def set_slot_def Let_def split: if_splits option.splits)

text \<open>A message is taken: a message for the library comes back.\<close>

lemma circulating_take:
  assumes "circulating n s"
  shows "circulating n (aliyun_take_message env s)"
proof -
  have lock: "msg_lock (info s) = 0" using assms by (simp add: circulating_def)
  have open_block: "aliyun_message_block s = (False, s)" using lock by (simp add: aliyun_message_block_def message_block_def)
  obtain r m q where p: "msg_buffer_pop (own s) msg_init = (r, m, q)" by (metis prod_cases3)
  define t where "t = s\<lparr>bus := (bus s)(SERVER_ALIYUN := q)\<rparr>"
  have t: "msg_lock (info t) = 0" "own t = q" using lock by (simp_all add: t_def)
  have taken: "aliyun_take_message env s = (if r = 1 then t else if aliyun_message_filter m t then t else Aliyun.handle_message env m t)"
    by (simp add: aliyun_take_message_def take_message_def open_block p t_def Let_def)
  note h = handle_effect [OF t(1), of env m]
  show ?thesis
  proof (cases "b_init (own s) = 0")
    case True
    then have q: "b_init q = 0" using pop_init p by blast
    have c: "circulating k t" for k using t q by (simp add: circulating_def)
    have "circulating n (Aliyun.handle_message env m t)"
    proof (cases "m_message m = MSG_ALIYUN_YIELD")
      case True
      then show ?thesis using h t q put_init(2) [OF q] by (simp add: circulating_def)
    qed (use h circulating_others [OF c] t q in simp)
    then show ?thesis using taken c by simp
  next
    case False
    then have wf: "ring_wf (own s)" "yields (own s) = n" using assms by (simp_all add: circulating_def)
    show ?thesis
    proof (cases "contents (own s)")
      case Nil
      then show ?thesis using p pop_empty [OF wf(1) Nil] taken t False wf by (simp add: circulating_def)
    next
      case (Cons x xs)
      have pos: "0 < ring_count (own s)" using Cons by (metis length_contents length_greater_0_conv list.distinct(1))
      note e = evict_props [OF wf(1) pos]
      have x: "r = 0" "m = x" "q = evict (own s)" using p pop_nonempty [OF wf(1) Cons] by simp_all
      have c: "contents q = xs" "ring_wf q" "b_init q \<noteq> 0" "ring_count q < capacity q"
        using e x(3) Cons False pos ring_count_le_capacity [OF wf(1)] by simp_all
      have room: "ring_count (own t) < capacity (own t)" using c(4) t by simp
      show ?thesis
      proof (cases "m_message m = MSG_ALIYUN_YIELD")
        case True
        have pass: "\<not> aliyun_message_filter m t" by (simp add: aliyun_message_filter_def error_filter_def msg_is_system_def True)
        have ct: "circulating (n - 1) t" "n > 0" using wf(2) Cons x(2) True c t by (auto simp: circulating_def yields_def)
        have "circulating (Suc (n - 1)) (Aliyun.handle_message env m t)"
          using h True circulating_yield [OF ct(1) _ _ room] by simp
        then show ?thesis using taken x(1) pass ct(2) by simp
      next
        case False
        have ct: "circulating n t" using wf(2) Cons x(2) False c t by (auto simp: circulating_def yields_def)
        then have "circulating n (Aliyun.handle_message env m t)" using h False circulating_others [OF ct _ room] by simp
        then show ?thesis using taken x(1) ct by simp
      qed
    qed
  qed
qed

section \<open>Coming up\<close>

text \<open>A file that names a network completely, as the parser and the printer see it.\<close>

definition network_known :: "aliyun_env \<Rightarrow> bytes \<Rightarrow> bool" where
  "network_known env data = (text_malloc_ok env \<and> (\<exists>root. parse env (read_text env data) = Some root
     \<and> (\<forall>name \<in> {''s'', ''p'', ''b'', ''t''}. \<exists>text. take_item env name root = Some (Some text))))"

lemma known_configures:
  assumes "network_known env data" "wifi_configure env (Some data) s = (r, t)"
  shows "r = 0"
proof -
  obtain root a b c d where "parse env (read_text env data) = Some root" "text_malloc_ok env"
    "take_item env ''s'' root = Some (Some a)" "take_item env ''p'' root = Some (Some b)"
    "take_item env ''b'' root = Some (Some c)" "take_item env ''t'' root = Some (Some d)"
    using assms(1) by (auto simp: network_known_def)
  then show ?thesis using assms(2) by (simp add: wifi_configure_def)
qed

text \<open>The flash names the camera.\<close>

definition camera_named :: "aliyun_env \<Rightarrow> bool" where
  "camera_named env = (devinfo_ret env = 0 \<and> (case devinfo env of None \<Rightarrow> False
     | Some (pk, ps, dn, ds) \<Rightarrow> CHR ''%'' \<notin> set pk \<union> set ps \<union> set dn \<union> set ds))"

definition undisturbed :: "bytes \<Rightarrow> aliyun_server \<Rightarrow> bool" where
  "undisturbed data s = (idle_queue (own s) \<and> msg_lock (info s) = 0 \<and> exit_flag (info s) = 0 \<and> init_status (info s) = 0
     \<and> \<not> waiting s \<and> \<not> al_stopped s \<and> \<not> al_fault s \<and> wifi_file s = Some data \<and> \<not> need_bind s)"

definition running :: "aliyun_server \<Rightarrow> bool" where
  "running s = (status (info s) = STATUS_RUN \<and> msg_lock (info s) = 0 \<and> exit_flag (info s) = 0
     \<and> \<not> waiting s \<and> \<not> al_stopped s \<and> \<not> al_fault s \<and> one_message yield_request (own s))"

definition trying :: "bytes \<Rightarrow> aliyun_server \<Rightarrow> bool" where
  "trying data s = (running s \<or> (undisturbed data s \<and> status (info s) \<in> {STATUS_NONE, STATUS_INIT, STATUS_SETUP, STATUS_START}))"

lemma round_turn:
  assumes "\<not> waiting s" "exit_flag (info s) = 0" "\<not> al_stopped s" "\<not> al_fault s"
  shows "aliyun_server_round env s = (let t = Aliyun.state_machine env (with_info (\<lambda>x. x\<lparr>old_status := status x\<rparr>) s) in
    if al_halted t then t else aliyun_message_proc env (Aliyun.task_proc t))"
  using assms by (simp add: aliyun_server_round_def loop_round_def aliyun_server_turn_def loop_turn_def)

lemma proc_idle:
  assumes "idle_queue (own s)" "msg_lock (info s) = 0" "status (info s) \<noteq> old_status (info s)"
  shows "aliyun_message_proc env s = s"
proof -
  have "msg_buffer_pop (own s) msg_init = (1, msg_init, own s)" using assms(1) by (simp add: idle_queue_def pop_empty)
  then show ?thesis using assms by (simp add: aliyun_message_proc_def message_proc_def take_message_def aliyun_message_block_def message_block_def)
qed

lemma proc_single:
  assumes "one_message m (own s)" "msg_lock (info s) = 0"
    "m_message m \<in> {MSG_ALIYUN_CONNECT, MSG_ALIYUN_YIELD, MSG_MANAGER_DUMMY, MSG_ALIYUN_QRCODE_RESULT}"
  shows "\<exists>q n. idle_queue q \<and> aliyun_message_proc env s = Aliyun.handle_message env (m\<lparr>m_sequence := n\<rparr>) (s\<lparr>bus := (bus s)(SERVER_ALIYUN := q)\<rparr>)"
proof -
  have ob: "aliyun_message_block s = (False, s)" using assms(2) by (simp add: aliyun_message_block_def message_block_def)
  from take_single [where block = aliyun_message_block and s = s and own = SERVER_ALIYUN, OF ob assms(1), of aliyun_message_filter "Aliyun.handle_message env"]
  obtain q n where q: "idle_queue q" "take_message SERVER_ALIYUN aliyun_message_block aliyun_message_filter (Aliyun.handle_message env) s =
    (if aliyun_message_filter (m\<lparr>m_sequence := n\<rparr>) (s\<lparr>bus := (bus s)(SERVER_ALIYUN := q)\<rparr>) then s\<lparr>bus := (bus s)(SERVER_ALIYUN := q)\<rparr>
     else Aliyun.handle_message env (m\<lparr>m_sequence := n\<rparr>) (s\<lparr>bus := (bus s)(SERVER_ALIYUN := q)\<rparr>))" by blast
  have "\<not> aliyun_message_filter (m\<lparr>m_sequence := n\<rparr>) t" for t
    using assms(3) by (auto simp: aliyun_message_filter_def error_filter_def msg_is_system_def)
  moreover have "ring_wf (own s)" "ring_count (own s) \<noteq> 0"
    using assms(1) length_contents [of "own s"] by (auto simp: one_message_def simp del: length_contents)
  then have "\<not> queue_empty SERVER_ALIYUN s" using ring_empty_iff [of "own s"] by (simp add: queue_empty_def msg_buffer_is_empty_def)
  ultimately show ?thesis using q by - (rule exI [of _ q], rule exI [of _ n], simp add: aliyun_message_proc_def message_proc_def)
qed

lemma put_idle: "idle_queue q \<Longrightarrow> one_message m (put q m)"
proof -
  assume q: "idle_queue q"
  then have "ring_count q < capacity q"
    using ring_size_pos [of q] length_contents [of q] by (simp add: idle_queue_def capacity_def)
  then show ?thesis using q append_msg_props [of q m] by (auto simp: put_def idle_queue_def one_message_def ring_push_cases)
qed

lemma yield_effect:
  assumes "msg_lock (info s) = 0" "idle_queue (own s)"
  shows "one_message yield_request (own (aliyun_yield s)) \<and> info (aliyun_yield s) = info s \<and> waiting (aliyun_yield s) = waiting s
    \<and> al_stopped (aliyun_yield s) = al_stopped s \<and> al_fault (aliyun_yield s) = al_fault s"
  using put_idle [OF assms(2), of yield_request] by (simp add: aliyun_yield_def send_own) (simp add: send_def)

lemma running_round:
  assumes "running s"
  shows "running (aliyun_server_round env s)"
proof -
  define t where "t = with_info (\<lambda>x. x\<lparr>old_status := status x\<rparr>) s"
  have t: "status (info t) = STATUS_RUN" "msg_lock (info t) = 0" "exit_flag (info t) = 0" "\<not> waiting t" "\<not> al_stopped t" "\<not> al_fault t"
    "one_message yield_request (own t)" using assms by (simp_all add: t_def running_def)
  have "Aliyun.state_machine env t = t" "Aliyun.task_proc t = t" using t(1) by (simp_all add: Aliyun.state_machine_def Aliyun.task_proc_def)
  then have r: "aliyun_server_round env s = aliyun_message_proc env t"
    using assms round_turn [of s env] t by (simp add: running_def t_def Let_def)
  obtain q n where q: "idle_queue q"
    "aliyun_message_proc env t = Aliyun.handle_message env (yield_request\<lparr>m_sequence := n\<rparr>) (t\<lparr>bus := (bus t)(SERVER_ALIYUN := q)\<rparr>)"
    using proc_single [OF t(7,2), of env] by (auto simp: yield_request_def)
  have "aliyun_message_proc env t = aliyun_yield (t\<lparr>bus := (bus t)(SERVER_ALIYUN := q)\<rparr>)"
    by (simp add: q(2) Aliyun.handle_message_def yield_request_def)
  then show ?thesis using r yield_effect [of "t\<lparr>bus := (bus t)(SERVER_ALIYUN := q)\<rparr>"] t q(1) by (simp add: running_def)
qed

text \<open>The start: it succeeds, or the server tries again, or it begins anew with its set-up.\<close>

lemma link_frame:
  assumes "find_link env s = (r, t)" "\<not> need_bind s"
  shows "info t = info s \<and> bus t = bus s \<and> waiting t = waiting s \<and> al_stopped t = al_stopped s \<and> al_fault t = al_fault s
    \<and> wifi_file t = wifi_file s \<and> need_bind t = need_bind s \<and> r \<ge> 0"
  using assms by (auto simp: find_link_def wifi_connect_def Let_def split: if_splits)

lemma client_start_frame:
  assumes "linkkit_client_start env s = (r, t)" "\<not> need_bind s"
  shows "info t = info s \<and> bus t = bus s \<and> waiting t = waiting s \<and> al_stopped t = al_stopped s \<and> al_fault t = al_fault s
    \<and> wifi_file t = wifi_file s \<and> need_bind t = need_bind s"
proof -
  obtain r' u where u: "find_link env s = (r', u)" by fastforce
  note f = link_frame [OF u assms(2)]
  have "t = u \<or> (\<exists>cs b. t = u\<lparr>cloud_calls := cs, is_iot_start := b\<rparr>) \<or> (\<exists>cs. t = u\<lparr>cloud_calls := cs\<rparr>)"
    using assms u f by (auto simp: linkkit_client_start_def Let_def split: if_splits)
  then show ?thesis using f by auto
qed

lemma start_round:
  assumes "undisturbed data s" "status (info s) = STATUS_START"
  shows "let t = aliyun_server_round env s in
    if came_up env s then running t else undisturbed data t \<and> status (info t) \<in> {STATUS_SETUP, STATUS_START}"
proof -
  define u where "u = with_info (\<lambda>x. x\<lparr>old_status := status x\<rparr>) s"
  have u: "undisturbed data u" "status (info u) = STATUS_START" "old_status (info u) = STATUS_START" using assms by (simp_all add: u_def undisturbed_def)
  have up: "came_up env u = came_up env s"
    by (simp add: came_up_def u_def linkkit_client_start_def find_link_def wifi_connect_def Let_def)
  obtain r t where t: "linkkit_client_start env u = (r, t)" by fastforce
  have f: "info t = info u" "own t = own u" "waiting t = waiting u" "al_stopped t = al_stopped u" "al_fault t = al_fault u"
    "wifi_file t = wifi_file u" "need_bind t = need_bind u" using client_start_frame [OF t] u(1) by (simp_all add: undisturbed_def)
  have m: "Aliyun.state_machine env u = aliyun_server_start env u" using u(2) by (simp add: Aliyun.state_machine_def)
  have rt: "aliyun_server_round env s = (if al_halted (aliyun_server_start env u) then aliyun_server_start env u
      else aliyun_message_proc env (Aliyun.task_proc (aliyun_server_start env u)))"
    using round_turn [of s env] assms(1) m by (simp add: undisturbed_def u_def Let_def)
  show ?thesis
  proof (cases "r \<ge> 0")
    case True
    define v where "v = aliyun_yield (set_status STATUS_RUN t)"
    have st: "aliyun_server_start env u = v" using t True by (simp add: aliyun_server_start_def v_def)
    have v: "one_message yield_request (own v)" "status (info v) = STATUS_RUN" "msg_lock (info v) = 0" "\<not> waiting v" "\<not> al_stopped v" "\<not> al_fault v" "exit_flag (info v) = 0"
      using yield_effect [of "set_status STATUS_RUN t"] u(1) f by (simp_all add: v_def undisturbed_def)
    obtain q n where q: "idle_queue q"
      "aliyun_message_proc env v = Aliyun.handle_message env (yield_request\<lparr>m_sequence := n\<rparr>) (v\<lparr>bus := (bus v)(SERVER_ALIYUN := q)\<rparr>)"
      using proc_single [OF v(1,3), of env] by (auto simp: yield_request_def)
    have "aliyun_server_round env s = aliyun_yield (v\<lparr>bus := (bus v)(SERVER_ALIYUN := q)\<rparr>)"
      using rt v q(2) by (simp add: st Aliyun.task_proc_def Aliyun.handle_message_def yield_request_def)
    then have "running (aliyun_server_round env s)" using yield_effect [of "v\<lparr>bus := (bus v)(SERVER_ALIYUN := q)\<rparr>"] v q(1) by (simp add: running_def)
    moreover have "came_up env s" using up t True u(2) by (simp add: came_up_def)
    ultimately show ?thesis by simp
  next
    case False
    let ?m = "msg_init\<lparr>m_message := MSG_MANAGER_DUMMY, m_sender := SERVER_ALIYUN, m_receiver := SERVER_ALIYUN\<rparr>"
    have nup: "\<not> came_up env s" using up t False by (simp add: came_up_def)
    show ?thesis
    proof (cases "retry t + 1 > 4")
      case True
      define v where "v = aliyun_restart (t\<lparr>retry := 0\<rparr>)"
      have st: "aliyun_server_start env u = v" using t False True by (simp add: aliyun_server_start_def v_def Let_def)
      have v: "undisturbed data v" "status (info v) = STATUS_SETUP" "old_status (info v) = STATUS_START"
        using u f by (simp_all add: v_def undisturbed_def aliyun_restart_def linkkit_client_destroy_def Let_def)
      have "aliyun_server_round env s = v"
        using rt v proc_idle [of v env] by (simp add: st Aliyun.task_proc_def undisturbed_def)
      then show ?thesis using nup v by simp
    next
      case retried: False
      define v where "v = send SERVER_ALIYUN ?m (t\<lparr>retry := retry t + 1\<rparr>)"
      have st: "aliyun_server_start env u = v" using t False retried by (simp add: aliyun_server_start_def v_def Let_def)
      have v: "one_message ?m (own v)" "status (info v) = STATUS_START" "info v = info u"
        "waiting v = waiting u" "al_stopped v = al_stopped u" "al_fault v = al_fault u" "wifi_file v = wifi_file u" "need_bind v = need_bind u"
        using put_idle [of "own t" ?m] u f by (simp_all add: v_def send_own undisturbed_def) (simp_all add: send_def)
      obtain q n where q: "idle_queue q" "aliyun_message_proc env v = Aliyun.handle_message env (?m\<lparr>m_sequence := n\<rparr>) (v\<lparr>bus := (bus v)(SERVER_ALIYUN := q)\<rparr>)"
        using proc_single [OF v(1), of env] u(1) v(3) by (auto simp: undisturbed_def)
      have "aliyun_server_round env s = v\<lparr>bus := (bus v)(SERVER_ALIYUN := q)\<rparr>"
        using rt v u(1) q(2) by (simp add: st Aliyun.task_proc_def Aliyun.handle_message_def undisturbed_def)
      then show ?thesis using nup v u q(1) by (simp add: undisturbed_def)
    qed
  qed
qed

lemma setup_round:
  assumes "undisturbed data s" "status (info s) = STATUS_SETUP" "camera_named env" "network_known env data"
  shows "undisturbed data (aliyun_server_round env s) \<and> status (info (aliyun_server_round env s)) = STATUS_START"
proof -
  define u where "u = with_info (\<lambda>x. x\<lparr>old_status := status x\<rparr>) s"
  have u: "undisturbed data u" "status (info u) = STATUS_SETUP" using assms by (simp_all add: u_def undisturbed_def)
  obtain pk ps dn ds where dev: "devinfo_ret env = 0" "devinfo env = Some (pk, ps, dn, ds)" "CHR ''%'' \<notin> set pk \<union> set ps \<union> set dn \<union> set ds"
    using assms(3) by (auto simp: camera_named_def split: option.splits)
  obtain t where t: "aliyun_get_uuid env u = (0, t)" "info t = info u" "bus t = bus u" "waiting t = waiting u" "al_stopped t = al_stopped u"
    "al_fault t = al_fault u" "wifi_file t = wifi_file u" "need_bind t = need_bind u"
    using dev by (cases "config_name u \<noteq> take 31 dn") (auto simp: aliyun_get_uuid_def)
  define v where "v = (linkkit_init_client env (linkvisual_init_client env t))\<lparr>wifi_st := WIFI_QRCODE\<rparr>"
  have v: "info v = info u" "bus v = bus u" "waiting v = waiting u" "al_stopped v = al_stopped u" "al_fault v = al_fault u"
    "wifi_file v = wifi_file u" "need_bind v = need_bind u"
    using t by (simp_all add: v_def linkkit_init_client_def linkvisual_init_client_def Let_def)
  obtain r w where w: "wifi_configure env (Some data) v = (r, w)" by fastforce
  have r: "r = 0" using known_configures [OF assms(4) w] .
  have fw: "info w = info u" "bus w = bus u" "waiting w = waiting u" "al_stopped w = al_stopped u" "al_fault w = al_fault u"
    "wifi_file w = wifi_file u" "need_bind w = need_bind u"
    using wifi_configure_frame [OF w] r v by (simp_all add: learns_def)
  define x where "x = set_status STATUS_IDLE (send SERVER_ALIYUN connect_request (w\<lparr>wifi_st := WIFI_STA\<rparr>))"
  have "aliyun_server_setup env u = x"
    using t u(1) v(6) w r fw by (simp add: aliyun_server_setup_def wifi_init_def try_network_def v_def [symmetric] x_def undisturbed_def Let_def)
      (simp add: send_def)
  then have m: "Aliyun.state_machine env u = x" using u(2) by (simp add: Aliyun.state_machine_def)
  have fx: "one_message connect_request (own x)" "status (info x) = STATUS_IDLE" "msg_lock (info x) = 0" "exit_flag (info x) = 0" "init_status (info x) = 0"
    "\<not> waiting x" "\<not> al_stopped x" "\<not> al_fault x" "wifi_file x = Some data" "\<not> need_bind x"
    using put_idle [of "own u" connect_request] u(1) fw by (simp_all add: x_def send_own undisturbed_def) (simp_all add: send_def)
  obtain q n where q: "idle_queue q"
    "aliyun_message_proc env x = Aliyun.handle_message env (connect_request\<lparr>m_sequence := n\<rparr>) (x\<lparr>bus := (bus x)(SERVER_ALIYUN := q)\<rparr>)"
    using proc_single [OF fx(1,3), of env] by (auto simp: connect_request_def)
  have "aliyun_server_round env s = aliyun_message_proc env x"
    using round_turn [of s env] assms(1) fx m by (simp add: undisturbed_def u_def [symmetric] Aliyun.task_proc_def Let_def)
  then show ?thesis using q fx by (simp add: Aliyun.handle_message_def connect_request_def undisturbed_def)
qed

lemma early_rounds:
  assumes "undisturbed data s"
  shows "status (info s) = STATUS_NONE \<Longrightarrow> undisturbed data (aliyun_server_round env s) \<and> status (info (aliyun_server_round env s)) = STATUS_INIT"
    and "status (info s) = STATUS_INIT \<Longrightarrow> undisturbed data (aliyun_server_round env s) \<and> status (info (aliyun_server_round env s)) = STATUS_SETUP"
proof -
  define u where "u = with_info (\<lambda>x. x\<lparr>old_status := status x\<rparr>) s"
  have u: "undisturbed data u" "status (info u) = status (info s)" "old_status (info u) = status (info s)" using assms by (simp_all add: u_def undisturbed_def)
  have rt: "aliyun_server_round env s = (let t = Aliyun.state_machine env u in if al_halted t then t else aliyun_message_proc env (Aliyun.task_proc t))"
    using round_turn [of s env] assms by (simp add: undisturbed_def u_def Let_def)
  have idle: "aliyun_message_proc env t = t" if "undisturbed data t" "status (info t) \<noteq> old_status (info t)" for t
    using proc_idle [of t env] that by (simp add: undisturbed_def)
  show "undisturbed data (aliyun_server_round env s) \<and> status (info (aliyun_server_round env s)) = STATUS_INIT" if "status (info s) = STATUS_NONE"
  proof -
    have "Aliyun.state_machine env u = u" "Aliyun.task_proc u = set_status STATUS_INIT u"
      using that u by (simp_all add: Aliyun.state_machine_def Aliyun.task_proc_def)
    moreover have "undisturbed data (set_status STATUS_INIT u)" using u(1) by (simp add: undisturbed_def)
    ultimately show ?thesis using rt u that idle [of "set_status STATUS_INIT u"] by (simp add: undisturbed_def)
  qed
  show "undisturbed data (aliyun_server_round env s) \<and> status (info (aliyun_server_round env s)) = STATUS_SETUP" if "status (info s) = STATUS_INIT"
  proof -
    have "Aliyun.state_machine env u = set_status STATUS_WAIT u" "Aliyun.task_proc (set_status STATUS_WAIT u) = set_status STATUS_SETUP u"
      using that u by (simp_all add: Aliyun.state_machine_def Aliyun.task_proc_def aliyun_server_init_def undisturbed_def misc_full_bit_def)
    moreover have "undisturbed data (set_status STATUS_SETUP u)" using u(1) by (simp add: undisturbed_def)
    ultimately show ?thesis using rt u that idle [of "set_status STATUS_SETUP u"] by (simp add: undisturbed_def)
  qed
qed

lemma trying_round:
  assumes "trying data s" "camera_named env" "network_known env data"
  shows "trying data (aliyun_server_round env s)"
proof (cases "running s")
  case True
  then show ?thesis using running_round by (simp add: trying_def)
next
  case False
  then have s: "undisturbed data s" "status (info s) \<in> {STATUS_NONE, STATUS_INIT, STATUS_SETUP, STATUS_START}"
    using assms(1) by (auto simp: trying_def)
  then consider "status (info s) = STATUS_NONE" | "status (info s) = STATUS_INIT" | "status (info s) = STATUS_SETUP" | "status (info s) = STATUS_START" by blast
  then show ?thesis
  proof cases
    case 4
    then show ?thesis using start_round [OF s(1) 4, of env] by (auto simp: trying_def Let_def split: if_splits)
  qed (use early_rounds [OF s(1), of env] setup_round [OF s(1) _ assms(2,3)] in \<open>auto simp: trying_def\<close>)
qed

text \<open>An attempt that works: the link is there and the cloud answers.\<close>

definition attempt_works :: "aliyun_env \<Rightarrow> bool" where
  "attempt_works env = ((link_ok env \<or> link_ok_again env) \<and> connect_ret env \<ge> 0)"

definition steps_left :: "aliyun_server \<Rightarrow> nat" where
  "steps_left s = (if running s then 0 else if status (info s) = STATUS_START then 1 else if status (info s) = STATUS_SETUP then 2
     else if status (info s) = STATUS_INIT then 3 else 4)"

lemma working_attempt:
  assumes "undisturbed data s" "status (info s) = STATUS_START" "attempt_works env"
  shows "came_up env s"
proof -
  obtain r u where u: "find_link env s = (r, u)" by fastforce
  have nb: "\<not> need_bind s" using assms(1) by (simp add: undisturbed_def)
  have "is_wifi_start u" using u assms(3) by (auto simp: find_link_def attempt_works_def Let_def split: if_splits)
  then show ?thesis
    using u link_frame [OF u nb] assms by (simp add: came_up_def linkkit_client_start_def attempt_works_def undisturbed_def Let_def)
qed

interpretation coming_up: progress "aliyun_server_round env"
    "\<lambda>s. trying data s \<and> camera_named env \<and> network_known env data \<and> attempt_works env" running steps_left
  for env data
proof unfold_locales
  fix s
  assume a: "trying data s \<and> camera_named env \<and> network_known env data \<and> attempt_works env" "\<not> running s"
  then show "trying data (aliyun_server_round env s) \<and> camera_named env \<and> network_known env data \<and> attempt_works env"
    using trying_round by blast
  have s: "undisturbed data s" "status (info s) \<in> {STATUS_NONE, STATUS_INIT, STATUS_SETUP, STATUS_START}" using a by (auto simp: trying_def)
  then consider "status (info s) = STATUS_NONE" | "status (info s) = STATUS_INIT" | "status (info s) = STATUS_SETUP" | "status (info s) = STATUS_START" by blast
  then show "steps_left (aliyun_server_round env s) < steps_left s"
  proof cases
    case 4
    then show ?thesis using a start_round [OF s(1) 4, of env] working_attempt [OF s(1) 4] by (simp add: steps_left_def)
  qed (use a early_rounds [OF s(1), of env] setup_round [OF s(1)] in \<open>auto simp: steps_left_def\<close>)
qed

text \<open>
  C24: However many attempts to reach the cloud fail, and in whatever way, a bound camera that is left alone
  goes on trying: within four rounds of the link being there and the cloud answering it runs.
\<close>

theorem aliyun_keeps_trying:
  assumes "undisturbed data s" "status (info s) = STATUS_NONE"
    and "\<forall>env \<in> set envs. camera_named env \<and> network_known env data"
    and "camera_named env" "network_known env data" "attempt_works env"
  shows "\<exists>n \<le> 4. running ((aliyun_server_round env ^^ n) (fold aliyun_server_round envs s))"
proof -
  have "trying data s \<Longrightarrow> trying data (fold aliyun_server_round envs s)" for s
    using assms(3) by (induction envs arbitrary: s) (auto simp: trying_round)
  then have t: "trying data (fold aliyun_server_round envs s)" using assms(1,2) by (simp add: trying_def)
  have "steps_left x \<le> 4" for x by (simp add: steps_left_def)
  then show ?thesis using coming_up.reaches_goal [of data "fold aliyun_server_round envs s" env] t assms(4-6) by (meson order_trans)
qed

section \<open>The life of the server\<close>

definition room :: "aliyun_server \<Rightarrow> bool" where
  "room s = (b_init (own s) \<noteq> 0 \<longrightarrow> ring_count (own s) < capacity (own s))"

definition starts :: "aliyun_env \<Rightarrow> aliyun_server \<Rightarrow> bool" where
  "starts env s = (\<not> al_halted s \<and> exit_flag (info s) = 0 \<and> \<not> waiting s \<and> came_up env s)"

text \<open>The server from its start, with any messages of the others between its rounds; the number counts its successful starts.\<close>

inductive aliyun_runs :: "nat \<Rightarrow> aliyun_server \<Rightarrow> bool" where
  begins: "info s = info_zero () \<Longrightarrow> \<not> b_fault (own s) \<Longrightarrow> k \<ge> 1 \<Longrightarrow> aliyun_runs 0 (aliyun_server_begin ovr (2 ^ k) s)"
| arrives: "aliyun_runs n s \<Longrightarrow> room s \<Longrightarrow> m_message m \<noteq> MSG_ALIYUN_YIELD \<Longrightarrow> aliyun_runs n (send SERVER_ALIYUN m s)"
| turns: "aliyun_runs n s \<Longrightarrow> room s \<Longrightarrow> aliyun_runs (if starts env s then Suc n else n) (aliyun_server_round env s)"

lemma circulating_frame:
  "circulating n s \<Longrightarrow> own t = own s \<Longrightarrow> msg_lock (info t) = msg_lock (info s) \<Longrightarrow> circulating n t"
  by (simp add: circulating_def)

lemma circulating_proc: "circulating n s \<Longrightarrow> circulating n (aliyun_message_proc env s)"
  using circulating_take [of n s env] circulating_frame [of n s "s\<lparr>waiting := True\<rparr>"]
  by (simp add: aliyun_message_proc_def message_proc_def aliyun_take_message_def)

lemma circulating_round:
  assumes "circulating n s" "room s"
  shows "circulating (if starts env s then Suc n else n) (aliyun_server_round env s)"
proof (cases "al_halted s \<or> exit_flag (info s) \<noteq> 0")
  case True
  then show ?thesis using assms(1) by (auto simp: aliyun_server_round_def loop_round_def starts_def)
next
  case False
  show ?thesis
  proof (cases "waiting s")
    case True
    have "circulating n (s\<lparr>waiting := False\<rparr>)" using assms(1) by (rule circulating_frame) simp_all
    then show ?thesis
      using False True assms(1) circulating_take by (simp add: aliyun_server_round_def loop_round_def starts_def)
  next
    case awake: False
    define u where "u = with_info (\<lambda>x. x\<lparr>old_status := status x\<rparr>) s"
    have u: "circulating n u" "b_init (own u) \<noteq> 0 \<Longrightarrow> ring_count (own u) < capacity (own u)"
      using assms by (auto simp: u_def room_def circulating_def)
    have up: "starts env s = came_up env u"
      using False awake by (simp add: starts_def came_up_def u_def linkkit_client_start_def find_link_def wifi_connect_def Let_def)
    have m: "circulating (if starts env s then Suc n else n) (Aliyun.state_machine env u)"
      unfolding up by (rule circulating_machine [OF u])
    have t: "circulating k (aliyun_message_proc env (Aliyun.task_proc x))" if "circulating k x" for k x
      by (rule circulating_proc, rule circulating_frame [OF that]) (simp_all add: Aliyun.task_proc_def)
    show ?thesis
      using round_turn [of s env] False awake m t [OF m] by (simp add: u_def [symmetric] Let_def del: if_split split: if_split)
  qed
qed

text \<open>
  C27: Every successful start of the cloud's library sets one more message going round in the server's own
  queue, and none of them ever stops: whatever messages arrive, through restarts and failures, the queue holds as
  many of them as there were starts, unless it overflows.
\<close>

theorem every_start_yields_forever:
  assumes "aliyun_runs n s" "b_init (own s) \<noteq> 0"
  shows "yields (own s) = n"
proof -
  have "circulating n s"
    using assms(1)
  proof induction
    case (begins s k ovr)
    have "(own s)\<lparr>b_fault := False\<rparr> = own s" using begins(2) by (cases "own s") simp
    then have "ring_wf (msg_buffer_init True (own s) ovr (2 ^ k))" "contents (msg_buffer_init True (own s) ovr (2 ^ k)) = []"
      using init_props(1) [OF begins(3), of "own s" ovr] init_props(2) [OF begins(3), of "own s" ovr] by simp_all
    then show ?case using begins(1) by (simp add: circulating_def yields_def aliyun_server_begin_def info_zero_def Let_def)
  next
    case (arrives n s m)
    show ?case
      by (rule circulating_others [OF arrives.IH]) (use arrives in \<open>auto simp: others_def send_own room_def\<close>)
  qed (rule circulating_round)
  then show ?thesis using assms(2) by (simp add: circulating_def)
qed

section \<open>The exit\<close>

lemmas aliyun_machine_defs = Aliyun.state_machine_def ladder_def exit_init_def aliyun_server_release_1_def aliyun_server_release_2_def
  linkkit_client_destroy_def linkvisual_client_stop_def

interpretation aliyun_exit: exit_ladder SERVER_ALIYUN 0 "Aliyun.state_machine env" "\<lambda>s. al_halted s"
    Aliyun.task_proc aliyun_message_block aliyun_message_filter "Aliyun.handle_message env" "\<lambda>s. s" "\<lambda>s. \<not> al_halted s"
  for env
proof unfold_locales
  fix s :: aliyun_server and m
  show "status (info s) \<in> exit_states \<Longrightarrow> climbs (info s) (info (Aliyun.state_machine env s))"
    by (rule climbs_ladder) (auto simp: aliyun_machine_defs Let_def)
  show "status (info s) \<in> exit_states \<Longrightarrow> bus (Aliyun.state_machine env s) SERVER_ALIYUN =
      (if status (info s) = EXIT_STAGE2 then msg_buffer_release (bus s SERVER_ALIYUN) else bus s SERVER_ALIYUN)"
    by (auto simp: aliyun_machine_defs Let_def)
  show "\<not> al_halted s \<Longrightarrow> status (info s) \<in> exit_states \<Longrightarrow> waiting (Aliyun.state_machine env s) = waiting s
      \<and> \<not> al_halted (Aliyun.state_machine env s) \<and> \<not> al_halted (Aliyun.state_machine env s)"
    by (auto simp: aliyun_machine_defs Let_def)
  show "status (info s) \<in> exit_states \<Longrightarrow> Aliyun.task_proc s = s" by (auto simp: Aliyun.task_proc_def)
  show "status (info s) = STATUS_NONE \<Longrightarrow> \<exists>v. Aliyun.task_proc s = set_status v s" by (auto simp: Aliyun.task_proc_def)
  show "m_message m = MSG_MANAGER_DUMMY \<Longrightarrow> Aliyun.handle_message env m s = s" by (simp add: Aliyun.handle_message_def)
  show "thread_start (info s) AND 0 = thread_start (info s) \<Longrightarrow> \<exists>e. info s = (info s)\<lparr>
      thread_start := thread_start (info s) AND NOT (thread_exit (info s)), thread_exit := e\<rparr>"
    by (intro exI [of _ "thread_exit (info s)"]) simp
qed (simp_all add: aliyun_message_block_def message_block_def)

text \<open>
  An aliyun server that was told to exit before it ran, with nothing but dummies in its queue, leaves its
  loop within nine rounds.
\<close>

lemma aliyun_exit_completes:
  assumes "leaving SERVER_ALIYUN 0 (\<lambda>s. \<not> al_halted s) s"
  shows "\<exists>n \<le> 9. exit_flag (info ((loop_round SERVER_ALIYUN (aliyun_server_turn env) (aliyun_take_message env) ^^ n) s)) \<noteq> 0"
proof -
  have "loop_round SERVER_ALIYUN (aliyun_server_turn env) (aliyun_take_message env) = (\<lambda>s. loop_round SERVER_ALIYUN
      (loop_turn (Aliyun.state_machine env) (\<lambda>s. al_halted s) Aliyun.task_proc
        (message_proc SERVER_ALIYUN aliyun_message_block aliyun_message_filter (Aliyun.handle_message env)))
      (take_message SERVER_ALIYUN aliyun_message_block aliyun_message_filter (Aliyun.handle_message env)) s)"
    by (rule ext) (simp add: aliyun_server_turn_def aliyun_message_proc_def aliyun_take_message_def)
  then show ?thesis using aliyun_exit.leaves_loop [OF assms, of env] by simp
qed

text \<open>A running server on its way out: its queue holds the message that keeps the library going.\<close>

definition departing :: "int \<Rightarrow> aliyun_server \<Rightarrow> bool" where
  "departing st s = (status (info s) = st \<and> msg_lock (info s) = 0 \<and> exit_flag (info s) = 0 \<and> quit_status (info s) = 0 \<and> thread_start (info s) = 0
     \<and> \<not> waiting s \<and> \<not> al_stopped s \<and> \<not> al_fault s \<and> one_message yield_request (own s))"

definition closing :: "aliyun_server \<Rightarrow> cloud_call list" where
  "closing s = (if g_init s then [Lv_destroy] else []) @ (if g_running s then [Linkkit_close] else [])"

lemma proc_yield:
  assumes "one_message yield_request (own s)" "msg_lock (info s) = 0"
  shows "\<exists>q. idle_queue q \<and> aliyun_message_proc env s = aliyun_yield (s\<lparr>bus := (bus s)(SERVER_ALIYUN := q)\<rparr>)"
proof -
  obtain q n where "idle_queue q"
    "aliyun_message_proc env s = Aliyun.handle_message env (yield_request\<lparr>m_sequence := n\<rparr>) (s\<lparr>bus := (bus s)(SERVER_ALIYUN := q)\<rparr>)"
    using proc_single [OF assms, of env] by (auto simp: yield_request_def)
  then show ?thesis by (intro exI [of _ q]) (simp add: Aliyun.handle_message_def yield_request_def)
qed

lemma aliyun_release_1_frame:
  "info (aliyun_server_release_1 s) = info s" "bus (aliyun_server_release_1 s) = bus s" "waiting (aliyun_server_release_1 s) = waiting s"
  "al_stopped (aliyun_server_release_1 s) = al_stopped s" "al_fault (aliyun_server_release_1 s) = al_fault s"
  "cloud_calls (aliyun_server_release_1 s) = cloud_calls s @ closing s"
  by (simp_all add: aliyun_server_release_1_def linkkit_client_destroy_def linkvisual_client_stop_def closing_def)

lemma departing_round:
  assumes "departing st s" "(st, st') \<in> {(EXIT_INIT, EXIT_SERVER), (EXIT_SERVER, EXIT_STAGE1), (EXIT_STAGE1, EXIT_THREAD), (EXIT_THREAD, EXIT_STAGE2)}"
  shows "departing st' (aliyun_server_round env s)
    \<and> cloud_calls (aliyun_server_round env s) = cloud_calls s @ (if st = EXIT_STAGE1 then closing s else []) @ [Linkkit_yield]
    \<and> (st \<noteq> EXIT_STAGE1 \<longrightarrow> g_init (aliyun_server_round env s) = g_init s \<and> g_running (aliyun_server_round env s) = g_running s)"
proof -
  define u where "u = with_info (\<lambda>x. x\<lparr>old_status := status x\<rparr>) s"
  define x where "x = Aliyun.state_machine env u"
  have u: "departing st u" "cloud_calls u = cloud_calls s" "g_init u = g_init s" "g_running u = g_running s"
    using assms(1) by (simp_all add: u_def departing_def)
  have x: "departing st' x \<and> cloud_calls x = cloud_calls s @ (if st = EXIT_STAGE1 then closing s else [])
    \<and> (st \<noteq> EXIT_STAGE1 \<longrightarrow> g_init x = g_init s \<and> g_running x = g_running s)"
  proof (cases "st = EXIT_STAGE1")
    case True
    then have "x = set_status EXIT_THREAD (aliyun_server_release_1 u)" using u(1) by (simp add: x_def departing_def Aliyun.state_machine_def)
    then show ?thesis using u True assms(2) aliyun_release_1_frame [of u] by (simp add: departing_def closing_def)
  next
    case False
    then consider "st = EXIT_INIT" "st' = EXIT_SERVER" | "st = EXIT_SERVER" "st' = EXIT_STAGE1" | "st = EXIT_THREAD" "st' = EXIT_STAGE2"
      using assms(2) by auto
    then show ?thesis
    proof cases
      case 1
      then have "x = with_info exit_init u" using u(1) by (simp add: x_def departing_def Aliyun.state_machine_def)
      then show ?thesis using u 1 by (simp add: departing_def exit_init_def)
    next
      case 2
      then have "x = set_status EXIT_STAGE1 u" using u(1) by (simp add: x_def departing_def Aliyun.state_machine_def)
      then show ?thesis using u 2 by (simp add: departing_def)
    next
      case 3
      then have "x = set_status EXIT_STAGE2 (with_info (\<lambda>y. y\<lparr>thread_exit := thread_start y\<rparr>) u)"
        using u(1) by (simp add: x_def departing_def Aliyun.state_machine_def)
      then show ?thesis using u 3 by (simp add: departing_def)
    qed
  qed
  have task: "Aliyun.task_proc x = x" using x(1) assms(2) by (auto simp: Aliyun.task_proc_def departing_def)
  obtain q where q: "idle_queue q" "aliyun_message_proc env x = aliyun_yield (x\<lparr>bus := (bus x)(SERVER_ALIYUN := q)\<rparr>)"
    using proc_yield [of x env] x(1) by (auto simp: departing_def)
  have r: "aliyun_server_round env s = aliyun_yield (x\<lparr>bus := (bus x)(SERVER_ALIYUN := q)\<rparr>)"
    using round_turn [of s env] assms(1) x(1) task q(2) by (simp add: departing_def u_def x_def Let_def)
  have y: "cloud_calls (aliyun_yield t) = cloud_calls t @ [Linkkit_yield]" "g_init (aliyun_yield t) = g_init t" "g_running (aliyun_yield t) = g_running t" for t
    by (simp_all add: aliyun_yield_def send_def)
  show ?thesis
    unfolding r using yield_effect [of "x\<lparr>bus := (bus x)(SERVER_ALIYUN := q)\<rparr>"] x q(1) by (simp add: departing_def y)
qed

lemma departing_ends:
  assumes "departing EXIT_STAGE2 s"
  shows "exit_flag (info ((aliyun_server_round env ^^ 2) s)) \<noteq> 0 \<and> cloud_calls ((aliyun_server_round env ^^ 2) s) = cloud_calls s"
proof -
  define u where "u = with_info (\<lambda>x. x\<lparr>old_status := status x\<rparr>) s"
  define x where "x = set_status EXIT_FINISH (aliyun_server_release_2 u)"
  have "Aliyun.state_machine env u = x" using assms by (simp add: x_def u_def departing_def Aliyun.state_machine_def)
  have x: "status (info x) = EXIT_FINISH" "msg_lock (info x) = 0" "exit_flag (info x) = 0" "\<not> waiting x" "\<not> al_stopped x" "\<not> al_fault x"
    "cloud_calls x = cloud_calls s" "old_status (info x) = EXIT_STAGE2"
    using assms by (simp_all add: x_def u_def departing_def aliyun_server_release_2_def)
  have proc: "aliyun_message_proc env t = t" if "bus t = bus x" "msg_lock (info t) = 0" "status (info t) \<noteq> old_status (info t)" for t
  proof -
    have e: "msg_buffer_is_empty (own t)"
      using that by (simp add: x_def aliyun_server_release_2_def msg_buffer_release_def msg_buffer_is_empty_def Let_def split: option.split)
    then have "msg_buffer_pop (own t) msg_init = (1, msg_init, own t)" by (simp add: msg_buffer_pop_def)
    then show ?thesis using that by (simp add: aliyun_message_proc_def message_proc_def take_message_def aliyun_message_block_def message_block_def)
  qed
  have r1: "aliyun_server_round env s = x"
    using round_turn [of s env] assms x proc [of x] \<open>Aliyun.state_machine env u = x\<close>
    by (simp add: departing_def u_def [symmetric] Aliyun.task_proc_def Let_def)
  define v where "v = with_info (\<lambda>y. y\<lparr>old_status := status y\<rparr>) x"
  define w where "w = with_info (\<lambda>y. y\<lparr>exit_flag := 1, status := STATUS_NONE\<rparr>) v"
  have w: "Aliyun.state_machine env v = w" "\<not> al_halted w" "cloud_calls w = cloud_calls s"
    using x by (simp_all add: Aliyun.state_machine_def v_def w_def)
  have "aliyun_message_proc env (set_status STATUS_INIT w) = set_status STATUS_INIT w"
    by (rule proc) (use x in \<open>simp_all add: w_def v_def\<close>)
  then have "aliyun_server_round env x = set_status STATUS_INIT w"
    using round_turn [of x env] x(3-6) w by (simp add: v_def [symmetric] Aliyun.task_proc_def Let_def) (simp add: w_def)
  then show ?thesis using r1 w by (simp add: eval_nat_numeral) (simp add: w_def)
qed

text \<open>
  A running aliyun server that is told to exit leaves its loop after six rounds, and uses the library of the cloud
  to the last: twice more after it has closed it.
\<close>

theorem aliyun_exit_yields_after_close:
  assumes "departing EXIT_INIT s"
  shows "exit_flag (info ((aliyun_server_round env ^^ 6) s)) \<noteq> 0
    \<and> cloud_calls ((aliyun_server_round env ^^ 6) s)
      = cloud_calls s @ [Linkkit_yield, Linkkit_yield] @ closing s @ [Linkkit_yield, Linkkit_yield]"
proof -
  let ?r = "aliyun_server_round env"
  note a = departing_round [OF assms, of EXIT_SERVER env]
  note b = departing_round [of EXIT_SERVER "?r s" EXIT_STAGE1 env]
  note c = departing_round [of EXIT_STAGE1 "?r (?r s)" EXIT_THREAD env]
  note d = departing_round [of EXIT_THREAD "?r (?r (?r s))" EXIT_STAGE2 env]
  have "departing EXIT_STAGE2 (?r (?r (?r (?r s))))"
    "cloud_calls (?r (?r (?r (?r s)))) = cloud_calls s @ [Linkkit_yield, Linkkit_yield] @ closing s @ [Linkkit_yield, Linkkit_yield]"
    using a b c d by (simp_all add: closing_def)
  moreover have "(?r ^^ 6) s = (?r ^^ 2) (?r (?r (?r (?r s))))" by (simp add: eval_nat_numeral)
  ultimately show ?thesis using departing_ends [of "?r (?r (?r (?r s)))" env] by simp
qed

section \<open>The network in a bar code\<close>

text \<open>A text between quotation marks is what the code makes of a printed string; anything else becomes empty.\<close>

lemma last_quote_append: "last_quote lp i (xs @ [CHR 0x22]) = i + length xs"
  by (induction xs arbitrary: lp i) simp_all

lemma quotes_removed:
  "json_del_yinhao (CHR 0x22 # text @ [CHR 0x22]) = Some text"
  by (cases "text") (simp_all add: json_del_yinhao_def last_quote_append)

lemma number_becomes_empty:
  assumes "text \<noteq> []" "CHR 0x22 \<notin> set text"
  shows "json_del_yinhao text = Some []"
proof -
  have none: "CHR 0x22 \<notin> set xs \<Longrightarrow> last_quote 0 i xs = 0" for i and xs :: "char list"
    by (induction xs arbitrary: i) auto
  have "hd text \<noteq> CHR 0x22" "CHR 0x22 \<notin> set (tl text)" using assms by (auto dest: list.set_sel)
  then show ?thesis using assms none by (simp add: json_del_yinhao_def)
qed

text \<open>A bar code that names a network, with nothing behind it in the memory.\<close>

definition names_network :: "aliyun_env \<Rightarrow> bytes \<Rightarrow> char list \<Rightarrow> char list \<Rightarrow> bool" where
  "names_network env code x y = (0 \<notin> set code \<and> (behind env = [] \<or> hd (behind env) = 0) \<and> text_malloc_ok env \<and> temp_writes env \<and> temp_reads env
     \<and> (\<exists>root u v. parse env code = Some root \<and> take_item env ''s'' root = Some (Some x) \<and> take_item env ''p'' root = Some (Some y)
          \<and> take_item env ''b'' root = Some (Some u) \<and> take_item env ''t'' root = Some (Some v)))"

lemma clean_text: "0 \<notin> set code \<Longrightarrow> behind env = [] \<or> hd (behind env) = 0 \<Longrightarrow> read_text env code = code"
proof -
  assume code: "0 \<notin> set code" and clean: "behind env = [] \<or> hd (behind env) = 0"
  have all: "takeWhile (\<lambda>b. b \<noteq> 0) (code @ rest) = code @ takeWhile (\<lambda>b. b \<noteq> 0) rest" for rest
    by (rule takeWhile_append2) (use code in auto)
  have none: "takeWhile (\<lambda>b. b \<noteq> 0) (behind env) = []" using clean by (cases "behind env") simp_all
  show ?thesis unfolding read_text_def all none by simp
qed

lemma qrcode_connects:
  assumes "names_network env code x y" "m_arg m = Some (P_bytes code)" "\<not> al_fault s"
  shows "\<exists>t. get_qrcode_callback env m s = send SERVER_ALIYUN connect_request t \<and> info t = info s \<and> bus t = bus s
    \<and> ssid t = take 32 x \<and> passwd t = take 64 y \<and> wifi_temp t = Some code \<and> wifi_st t = WIFI_STA"
proof -
  obtain root u v where n: "parse env code = Some root" "take_item env ''s'' root = Some (Some x)" "take_item env ''p'' root = Some (Some y)"
    "take_item env ''b'' root = Some (Some u)" "take_item env ''t'' root = Some (Some v)"
    "text_malloc_ok env" "temp_writes env" "temp_reads env" "read_text env code = code"
    using assms(1) clean_text [of code env] by (auto simp: names_network_def)
  define t0 where "t0 = s\<lparr>ssid := take 32 x, passwd := take 64 y, bssid := hex_in_place (take 12 u), token := hex_in_place (take 6 v)\<rparr>"
  have items: "store_items env root [''s'', ''p'', ''b'', ''t''] (s\<lparr>ssid := [], passwd := [], bssid := [], token := []\<rparr>) = (Some True, t0)"
    using n by (simp add: store_item_def t0_def)
  define t1 where "t1 = t0\<lparr>wifi_temp := Some code\<rparr>"
  have again: "wifi_configure env (Some code) t1 = (0, t1)"
    using n by (simp add: wifi_configure_def store_item_def t1_def t0_def)
  have "get_qrcode_callback env m s = try_network env (Some code) t1"
    using n assms(2) items by (simp add: get_qrcode_callback_def t1_def del: store_items.simps)
  then have "get_qrcode_callback env m s = send SERVER_ALIYUN connect_request (t1\<lparr>wifi_st := WIFI_STA\<rparr>)"
    using again assms(3) by (simp add: try_network_def) (simp add: t1_def t0_def)
  then show ?thesis by (intro exI [of _ "t1\<lparr>wifi_st := WIFI_STA\<rparr>"]) (simp add: t1_def t0_def)
qed

lemma take_own:
  assumes "one_message m (own s)" "msg_lock (info s) = 0" "status (info s) = STATUS_IDLE"
  shows "\<exists>q n. idle_queue q \<and> aliyun_take_message env s = Aliyun.handle_message env (m\<lparr>m_sequence := n\<rparr>) (s\<lparr>bus := (bus s)(SERVER_ALIYUN := q)\<rparr>)"
proof -
  have ob: "aliyun_message_block s = (False, s)" using assms(2) by (simp add: aliyun_message_block_def message_block_def)
  from take_single [where block = aliyun_message_block and s = s and own = SERVER_ALIYUN, OF ob assms(1), of aliyun_message_filter "Aliyun.handle_message env"]
  show ?thesis using assms(3) by (auto simp: aliyun_take_message_def aliyun_message_filter_def error_filter_def)
qed

text \<open>
  C25: Composition of the snapshot thread and the aliyun server: while the thread searches, the aliyun server waits;
  the picture that shows the bar code of a network makes it know the network's name and password, keep the code in its file
  and start to connect.
\<close>

theorem scanned_code_connects:
  assumes "searching ch v" "\<forall>shot \<in> set shots. misses shot" "\<not> misses hit"
    and "idle_queue (bus v SERVER_ALIYUN)" "status (info a) = STATUS_IDLE" "msg_lock (info a) = 0" "\<not> al_fault a"
    and "names_network env (hd (codes hit)) x y"
  shows "case snap_turns ch (shots @ [hit]) (repeat, v) of (r, v') \<Rightarrow>
    let t = aliyun_take_message env (aliyun_take_message env (a\<lparr>bus := bus v'\<rparr>)) in
    status (info t) = STATUS_START \<and> ssid t = take 32 x \<and> passwd t = take 64 y \<and> wifi_temp t = Some (hd (codes hit)) \<and> wifi_st t = WIFI_STA"
proof -
  obtain r v' where v': "snap_turns ch (shots @ [hit]) (repeat, v) = (r, v')" by fastforce
  let ?m = "scan_result (hd (codes hit))"
  have "bus v' SERVER_ALIYUN = bus (send SERVER_ALIYUN ?m v) SERVER_ALIYUN"
    using barcode_found [OF assms(1-3), of repeat] v' by simp
  moreover have "one_message ?m (bus (send SERVER_ALIYUN ?m v) SERVER_ALIYUN)"
    using idle_send [of "bus v" SERVER_ALIYUN ?m] assms(4) by (auto simp: send_def is_server_def)
  ultimately have one: "one_message ?m (own (a\<lparr>bus := bus v'\<rparr>))" by simp
  obtain q n where q: "idle_queue q" "aliyun_take_message env (a\<lparr>bus := bus v'\<rparr>)
      = Aliyun.handle_message env (?m\<lparr>m_sequence := n\<rparr>) (a\<lparr>bus := (bus v')(SERVER_ALIYUN := q)\<rparr>)"
    using take_own [OF one, of env] assms(5,6) by auto
  define b where "b = a\<lparr>bus := (bus v')(SERVER_ALIYUN := q)\<rparr>"
  have h: "Aliyun.handle_message env (?m\<lparr>m_sequence := n\<rparr>) b = get_qrcode_callback env (?m\<lparr>m_sequence := n\<rparr>) b"
    by (simp add: Aliyun.handle_message_def scan_result_def)
  obtain t where t: "get_qrcode_callback env (?m\<lparr>m_sequence := n\<rparr>) b = send SERVER_ALIYUN connect_request t" "info t = info a" "own t = q"
    "ssid t = take 32 x" "passwd t = take 64 y" "wifi_temp t = Some (hd (codes hit))" "wifi_st t = WIFI_STA"
    using qrcode_connects [OF assms(8), of "?m\<lparr>m_sequence := n\<rparr>" b] assms(7) by (auto simp: scan_result_def b_def)
  define c where "c = send SERVER_ALIYUN connect_request t"
  have c: "one_message connect_request (own c)" "info c = info a"
    "ssid c = ssid t" "passwd c = passwd t" "wifi_temp c = wifi_temp t" "wifi_st c = wifi_st t"
    using put_idle [OF q(1), of connect_request] t(2,3) by (simp_all add: c_def send_own) (simp_all add: send_def)
  obtain q' n' where q': "aliyun_take_message env c
      = Aliyun.handle_message env (connect_request\<lparr>m_sequence := n'\<rparr>) (c\<lparr>bus := (bus c)(SERVER_ALIYUN := q')\<rparr>)"
    using take_own [OF c(1), of env] c(2) assms(5,6) by auto
  have "aliyun_take_message env c = set_status STATUS_START (c\<lparr>bus := (bus c)(SERVER_ALIYUN := q')\<rparr>)"
    unfolding q' using c(2) assms(5) by (simp add: Aliyun.handle_message_def connect_request_def)
  then have "let t' = aliyun_take_message env c in status (info t') = STATUS_START \<and> ssid t' = take 32 x \<and> passwd t' = take 64 y
    \<and> wifi_temp t' = Some (hd (codes hit)) \<and> wifi_st t' = WIFI_STA"
    using c(3-6) t(4-7) by (simp add: Let_def)
  moreover have "aliyun_take_message env (a\<lparr>bus := bus v'\<rparr>) = c" using q(2) h t(1) by (simp add: b_def c_def)
  ultimately show ?thesis by (simp add: v' Let_def)
qed

section \<open>Witnesses\<close>

definition demo_aliyun :: aliyun_server where
  "demo_aliyun = \<lparr>info = info_zero (), bus = (\<lambda>_. demo_queue 1), waiting = False, need_bind = False, time_sync_label = 0, wifi_st = WIFI_QRCODE,
     ssid = [], passwd = [], bssid = [], token = [], product = ([], [], [], []), config_name = [], retry = 0, g_init = False, g_running = False,
     is_wifi_start = False, is_iot_start = False, wifi_file = Some [1], wifi_temp = None, scan_queue = demo_queue 1, cloud_calls = [],
     al_stopped = False, al_fault = False\<rparr>"

definition demo_network :: cjson where
  "demo_network = [(''s'', (0, Some ''home'')), (''p'', (0, Some ''secret'')), (''b'', (0, Some ''a1b2'')), (''t'', (0, Some ''c3''))]"

definition demo_print :: "json_item \<Rightarrow> char list option" where
  "demo_print item = map_option (\<lambda>x. CHR 0x22 # x @ [CHR 0x22]) (snd item)"

definition demo_cloud :: "bool \<Rightarrow> int \<Rightarrow> aliyun_env" where
  "demo_cloud linked answer = \<lparr>devinfo_ret = 0, devinfo = Some (''key'', ''ps'', ''cam'', ''ds''), lv_init_ret = 0, dev_malloc_ok = True, open_ret = 0,
     link_ok = linked, link_ok_again = False, system_ret = 0, connect_ret = answer, parse = (\<lambda>_. Some demo_network), printed = demo_print, behind = [],
     text_malloc_ok = True, temp_writes = True, temp_reads = True, accepts = None\<rparr>"

lemma demo_items:
  "\<exists>x. take_item (demo_cloud l r) ''s'' demo_network = Some (Some ''home'') \<and> take_item (demo_cloud l r) ''p'' demo_network = Some (Some ''secret'')
    \<and> take_item (demo_cloud l r) ''b'' demo_network = Some (Some ''a1b2'') \<and> take_item (demo_cloud l r) ''t'' demo_network = Some (Some x)"
proof -
  have k: "cJSON_GetObjectItem (Some demo_network) ''s'' = Some (0, Some ''home'')" "cJSON_GetObjectItem (Some demo_network) ''p'' = Some (0, Some ''secret'')"
    "cJSON_GetObjectItem (Some demo_network) ''b'' = Some (0, Some ''a1b2'')" "cJSON_GetObjectItem (Some demo_network) ''t'' = Some (0, Some ''c3'')"
    by (code_simp, code_simp, code_simp, code_simp)
  show ?thesis
    by (intro exI [of _ "''c3''"]) (simp add: take_item_def k demo_cloud_def demo_print_def quotes_removed del: append.simps)
qed

lemma demo_known: "network_known (demo_cloud l r) data" "camera_named (demo_cloud l r)"
proof -
  show "network_known (demo_cloud l r) data"
    using demo_items [of l r] by (auto simp: network_known_def) (simp_all add: demo_cloud_def)
  show "camera_named (demo_cloud l r)" by (simp add: camera_named_def demo_cloud_def)
qed

lemma demo_idle_queue: "idle_queue (demo_queue 1)"
  by (simp add: idle_queue_def)

lemma demo_undisturbed: "undisturbed [1] demo_aliyun" "undisturbed [1] (aliyun_server_begin 1 (2 ^ 3) demo_aliyun)"
proof -
  have "(demo_queue 1)\<lparr>b_fault := False\<rparr> = demo_queue 1" by (simp add: demo_queue_def msg_buffer_init_def Let_def)
  then have "idle_queue (msg_buffer_init True (demo_queue 1) 1 (2 ^ 3))"
    using init_props(1) [of 3 "demo_queue 1" 1] init_props(2) [of 3 "demo_queue 1" 1]
    by (simp add: idle_queue_def) (simp add: msg_buffer_init_def Let_def)
  then show "undisturbed [1] demo_aliyun" "undisturbed [1] (aliyun_server_begin 1 (2 ^ 3) demo_aliyun)"
    using demo_idle_queue by (simp_all add: undisturbed_def demo_aliyun_def aliyun_server_begin_def info_zero_def)
qed

theorem aliyun_keeps_trying_witness:
  "\<exists>n \<le> 4. running ((aliyun_server_round (demo_cloud True 0) ^^ n)
     (fold aliyun_server_round [demo_cloud False 0, demo_cloud True (- 1)] demo_aliyun))"
proof (rule aliyun_keeps_trying [OF demo_undisturbed(1)])
  show "status (info demo_aliyun) = STATUS_NONE" by (simp add: demo_aliyun_def info_zero_def)
  show "\<forall>env \<in> set [demo_cloud False 0, demo_cloud True (- 1)]. camera_named env \<and> network_known env [1]" by (simp add: demo_known)
  show "attempt_works (demo_cloud True 0)" by (simp add: attempt_works_def demo_cloud_def)
qed (rule demo_known)+

theorem every_start_yields_forever_witness:
  "\<exists>s. aliyun_runs 1 s \<and> running s \<and> yields (own s) = 1"
proof -
  let ?env = "demo_cloud True 0" and ?r = "aliyun_server_round (demo_cloud True 0)"
  define a where "a = aliyun_server_begin 1 (2 ^ 3) demo_aliyun"
  have room: "room s" if "undisturbed [1] s" for s
  proof -
    have "ring_count (own s) = 0" using that length_contents [of "own s", symmetric] by (simp add: undisturbed_def idle_queue_def)
    then show ?thesis using that capacity_pos [of "own s"] by (simp add: undisturbed_def idle_queue_def room_def)
  qed
  have a: "undisturbed [1] a" "status (info a) = STATUS_NONE" "aliyun_runs 0 a"
    using demo_undisturbed(2) begins [of demo_aliyun 3 1]
    by (simp_all add: a_def) (simp_all add: demo_aliyun_def aliyun_server_begin_def info_zero_def demo_queue_def msg_buffer_init_def Let_def)
  have quiet: "aliyun_runs 0 (?r s)" if "aliyun_runs 0 s" "undisturbed [1] s" "status (info s) \<noteq> STATUS_START" for s
    using turns [OF that(1) room [OF that(2)], of ?env] that(3) by (simp add: starts_def came_up_def)
  have b: "undisturbed [1] (?r a)" "status (info (?r a)) = STATUS_INIT" "aliyun_runs 0 (?r a)"
    using early_rounds(1) [OF a(1,2), of ?env] quiet [OF a(3,1)] a(2) by simp_all
  have c: "undisturbed [1] (?r (?r a))" "status (info (?r (?r a))) = STATUS_SETUP" "aliyun_runs 0 (?r (?r a))"
    using early_rounds(2) [OF b(1,2), of ?env] quiet [OF b(3,1)] b(2) by simp_all
  have d: "undisturbed [1] (?r (?r (?r a)))" "status (info (?r (?r (?r a)))) = STATUS_START" "aliyun_runs 0 (?r (?r (?r a)))"
    using setup_round [OF c(1,2) demo_known(2,1)] quiet [OF c(3,1)] c(2) by simp_all
  have up: "came_up ?env (?r (?r (?r a)))"
    by (rule working_attempt [OF d(1,2)]) (simp add: attempt_works_def demo_cloud_def)
  then have "aliyun_runs 1 (?r (?r (?r (?r a))))"
    using turns [OF d(3) room [OF d(1)], of ?env] d(1) by (simp add: starts_def undisturbed_def)
  moreover have run: "running (?r (?r (?r (?r a))))" using start_round [OF d(1,2), of ?env] up by (simp add: Let_def)
  ultimately show ?thesis
    using every_start_yields_forever [of 1 "?r (?r (?r (?r a)))"] run
    by (intro exI [of _ "?r (?r (?r (?r a)))"]) (simp add: running_def one_message_def)
qed

theorem aliyun_exit_yields_after_close_witness:
  "let s = with_info (\<lambda>x. x\<lparr>status := EXIT_INIT\<rparr>) (demo_aliyun\<lparr>bus := (\<lambda>_. put (demo_queue 1) yield_request), g_init := True, g_running := True\<rparr>) in
   exit_flag (info ((aliyun_server_round (demo_cloud True 0) ^^ 6) s)) \<noteq> 0
   \<and> cloud_calls ((aliyun_server_round (demo_cloud True 0) ^^ 6) s)
     = [Linkkit_yield, Linkkit_yield, Lv_destroy, Linkkit_close, Linkkit_yield, Linkkit_yield]"
proof -
  let ?s = "with_info (\<lambda>x. x\<lparr>status := EXIT_INIT\<rparr>) (demo_aliyun\<lparr>bus := (\<lambda>_. put (demo_queue 1) yield_request), g_init := True, g_running := True\<rparr>)"
  have "departing EXIT_INIT ?s" using put_idle [OF demo_idle_queue, of yield_request] by (simp add: departing_def demo_aliyun_def info_zero_def)
  from aliyun_exit_yields_after_close [OF this, of "demo_cloud True 0"] show ?thesis by (simp add: closing_def demo_aliyun_def Let_def)
qed

theorem scanned_code_connects_witness:
  "case snap_turns 1 [demo_shot [], demo_shot [[7]]] (0, demo_search) of (r, v) \<Rightarrow>
     let t = aliyun_take_message (demo_cloud True 0) (aliyun_take_message (demo_cloud True 0) (set_status STATUS_IDLE demo_aliyun\<lparr>bus := bus v\<rparr>)) in
     status (info t) = STATUS_START \<and> ssid t = ''home'' \<and> passwd t = ''secret'' \<and> wifi_temp t = Some [7]"
proof -
  have s: "searching 1 demo_search" by (rule demo_searching)
  have m: "\<forall>shot \<in> set [demo_shot []]. misses shot" "\<not> misses (demo_shot [[7]])"
    by (simp_all add: misses_def picture_taken_def demo_shot_def)
  have q: "idle_queue (bus demo_search SERVER_ALIYUN)" using demo_idle_queue by (simp add: demo_search_def demo_video_def)
  have a: "status (info (set_status STATUS_IDLE demo_aliyun)) = STATUS_IDLE" "msg_lock (info (set_status STATUS_IDLE demo_aliyun)) = 0"
    "\<not> al_fault (set_status STATUS_IDLE demo_aliyun)" by (simp_all add: demo_aliyun_def info_zero_def)
  have n: "names_network (demo_cloud True 0) (hd (codes (demo_shot [[7]]))) ''home'' ''secret''"
    using demo_items [of True 0] by (auto simp: names_network_def demo_shot_def) (auto simp: demo_cloud_def)
  have code: "hd (codes (demo_shot [[7]])) = [7]" by (simp add: demo_shot_def)
  show ?thesis
    using scanned_code_connects [OF s m q a n, of 0] unfolding code
    by (cases "snap_turns 1 [demo_shot [], demo_shot [[7]]] (0, demo_search)") (simp add: Let_def del: snap_turns.simps)
qed

end
