(* ===== verification/CloudControl.thy ===== *)
theory CloudControl
  imports Config Video
begin

text \<open>
  What the cloud asks of the camera, \<open>server/aliyun/linkkit_client.c\<close>: the table of its properties,
  how they are set and read, the services, and what the camera reports of itself.  What the JSON parser,
  the cloud's library, the card, the network and the time zone's command answer is an argument.
\<close>

section \<open>Requests\<close>

text \<open>An item of a request; an array stands for one of objects of numbers, the plan of the alarms.\<close>

datatype json_value = J_number int | J_string "char list" | J_array "(char list \<times> int) list list" | J_other

type_synonym json_object = "(char list \<times> json_value) list"

fun object_item :: "(char list \<times> 'a) list \<Rightarrow> char list \<Rightarrow> 'a option" where
  "object_item [] name = None"
| "object_item ((key, item) # rest) name = (if case_insensitive_eq name key then Some item else object_item rest name)"

datatype report_value = R_num int | R_str "char list"

text \<open>The calls out of the program.\<close>

datatype control_call =
    Report int "(char list \<times> report_value) list"
  | Led1 bool
  | Led2 bool
  | Save_control_config
  | Set_timezone int
  | Set_clock u32
  | Query_clock
  | Query_firmware
  | Cloud_connected
  | Cloud_service "char list"
  | Motor int int
  | Format_card
  | Unmount_card
  | Reboot_device
  | Keep_network

record cloud_control =
  cc_bus :: bus
  cc_config :: config_t
  g_connect :: bool
  cc_calls :: "control_call list"

text \<open>\<open>card_info\<close>: the kilobytes of the card and those that are free; \<open>stack_ret\<close>, \<open>stack_message\<close>: variables that are not initialised.\<close>

record control_env =
  parse_request :: "char list \<Rightarrow> json_object option"
  card_status :: int
  card_info :: "(int \<times> int) option"
  wifi_quality :: int
  timezone_ret :: int
  stack_ret :: int
  stack_message :: "msg option"
  adapter_ret :: int

type_synonym callback = "control_env \<Rightarrow> int \<Rightarrow> char list \<Rightarrow> char list \<Rightarrow> cloud_control \<Rightarrow> cloud_control option"

abbreviation "control_do c s \<equiv> s\<lparr>cc_calls := cc_calls s @ [c]\<rparr>"

definition cc_send :: "int \<Rightarrow> msg \<Rightarrow> cloud_control \<Rightarrow> cloud_control" where
  "cc_send receiver m s = s\<lparr>cc_bus := snd (global_common_send_message (cc_bus s) receiver m)\<rparr>"

definition linkkit_sync_property_int :: "int \<Rightarrow> char list \<Rightarrow> int \<Rightarrow> cloud_control \<Rightarrow> cloud_control" where
  "linkkit_sync_property_int devid name v s = control_do (Report devid [(name, R_num v)]) s"

definition linkkit_sync_property_string :: "int \<Rightarrow> char list \<Rightarrow> char list \<Rightarrow> cloud_control \<Rightarrow> cloud_control" where
  "linkkit_sync_property_string devid name v s = control_do (Report devid [(name, R_str v)]) s"

text \<open>The item of a request a callback is for; without it nothing happens.  \<open>None\<close> is a fault.\<close>

definition with_item ::
  "control_env \<Rightarrow> char list \<Rightarrow> char list \<Rightarrow> (json_value \<Rightarrow> cloud_control \<Rightarrow> cloud_control option) \<Rightarrow> cloud_control \<Rightarrow> cloud_control option" where
  "with_item env data cmd f s =
     (case parse_request env data of
        None \<Rightarrow> Some s
      | Some root \<Rightarrow> (case object_item root cmd of None \<Rightarrow> Some s | Some item \<Rightarrow> f item s))"

definition property_message :: "int \<Rightarrow> int \<Rightarrow> bool \<Rightarrow> int \<Rightarrow> char list \<Rightarrow> int \<Rightarrow> msg" where
  "property_message message k device_in devid cmd n =
     msg_init\<lparr>m_message := message, m_arg := Some (P_int n), m_arg_size := 4, m_extra := Some (P_string cmd), m_extra_size := int (length cmd) + 1,
       m_arg_in := (if device_in then arg_zero\<lparr>cat := k, wolf := devid\<rparr> else arg_zero\<lparr>cat := k\<rparr>),
       m_arg_pass := (if device_in then arg_zero\<lparr>cat := k\<rparr> else arg_zero\<lparr>cat := k, wolf := devid\<rparr>)\<rparr>"

definition set_number :: "int \<Rightarrow> (int \<Rightarrow> msg) \<Rightarrow> control_env \<Rightarrow> char list \<Rightarrow> char list \<Rightarrow> cloud_control \<Rightarrow> cloud_control option" where
  "set_number receiver m env data cmd =
     with_item env data cmd (\<lambda>item s. case item of J_number n \<Rightarrow> Some (cc_send receiver (m n) s) | _ \<Rightarrow> Some s)"

definition get_number :: "bool \<Rightarrow> (control_env \<Rightarrow> cloud_control \<Rightarrow> int) \<Rightarrow> callback" where
  "get_number only_numbers v env devid data cmd =
     with_item env data cmd (\<lambda>item s.
       if only_numbers \<and> (\<nexists>n. item = J_number n) then Some s else Some (linkkit_sync_property_int devid cmd (v env s) s))"

section \<open>Setting the properties\<close>

abbreviation (input) "AUDIO_PROPERTY_SPEAKER \<equiv> 2 :: int"

text \<open>The first two name the device in \<open>arg_in\<close>, where the answer looks for it; the others in \<open>arg_pass\<close>.\<close>

definition Ali_SetStreamVideoQuality :: callback where
  "Ali_SetStreamVideoQuality env devid data cmd =
     set_number SERVER_VIDEO (property_message MSG_VIDEO_PROPERTY_SET_DIRECT VIDEO_PROPERTY_QUALITY True devid cmd) env data cmd"

definition Ali_SetSubStreamVideoQuality :: callback where
  "Ali_SetSubStreamVideoQuality env devid data cmd =
     set_number SERVER_VIDEO (property_message MSG_VIDEO_PROPERTY_SET_DIRECT VIDEO_PROPERTY_SUBQUALITY True devid cmd) env data cmd"

definition Ali_SetAlarmSwitch :: callback where
  "Ali_SetAlarmSwitch env devid data cmd =
     set_number SERVER_VIDEO (property_message MSG_VIDEO_PROPERTY_SET_DIRECT VIDEO_PROPERTY_MOTION_SWITCH False devid cmd) env data cmd"

definition Ali_SetMotionDetectSensitivity :: callback where
  "Ali_SetMotionDetectSensitivity env devid data cmd =
     set_number SERVER_VIDEO (property_message MSG_VIDEO_PROPERTY_SET_DIRECT VIDEO_PROPERTY_MOTION_SENSITIVITY False devid cmd) env data cmd"

definition Ali_SetAlarmFrequencyLevel :: callback where
  "Ali_SetAlarmFrequencyLevel env devid data cmd =
     set_number SERVER_VIDEO (property_message MSG_VIDEO_PROPERTY_SET_DIRECT VIDEO_PROPERTY_MOTION_ALARM_INTERVAL False devid cmd) env data cmd"

definition Ali_SetImageFlipState :: callback where
  "Ali_SetImageFlipState env devid data cmd =
     set_number SERVER_VIDEO (property_message MSG_VIDEO_PROPERTY_SET_DIRECT VIDEO_PROPERTY_IMAGE_FLIP False devid cmd) env data cmd"

definition Ali_SetDayNightMode :: callback where
  "Ali_SetDayNightMode env devid data cmd =
     set_number SERVER_VIDEO (property_message MSG_VIDEO_PROPERTY_SET_DIRECT VIDEO_PROPERTY_NIGHT_SHOT False devid cmd) env data cmd"

definition Ali_SetTimeDisplay :: callback where
  "Ali_SetTimeDisplay env devid data cmd =
     set_number SERVER_VIDEO (property_message MSG_VIDEO_PROPERTY_SET_DIRECT VIDEO_PROPERTY_TIME_WATERMARK False devid cmd) env data cmd"

definition Ali_SetWdrSupport :: callback where
  "Ali_SetWdrSupport env devid data cmd =
     set_number SERVER_VIDEO (property_message MSG_VIDEO_PROPERTY_SET_DIRECT VIDEO_PROPERTY_WDR False devid cmd) env data cmd"

definition Ali_SetImageCorrect :: callback where
  "Ali_SetImageCorrect env devid data cmd =
     set_number SERVER_VIDEO (property_message MSG_VIDEO_PROPERTY_SET_DIRECT VIDEO_PROPERTY_IMAGE_CORRECTION False devid cmd) env data cmd"

definition Ali_SetSpeakerSwitch :: callback where
  "Ali_SetSpeakerSwitch env devid data cmd =
     set_number SERVER_AUDIO (property_message MSG_AUDIO_PROPERTY_SET AUDIO_PROPERTY_SPEAKER False devid cmd) env data cmd"

definition Ali_SetStorageRecordMode :: callback where
  "Ali_SetStorageRecordMode env devid data cmd =
     set_number SERVER_RECORDER (property_message MSG_RECORDER_PROPERTY_SET RECORDER_PROPERTY_SWITCH False devid cmd) env data cmd"

definition set_config_num :: "char list \<Rightarrow> int \<Rightarrow> cloud_control \<Rightarrow> cloud_control" where
  "set_config_num name v s = s\<lparr>cc_config := (cc_config s)\<lparr>cfg_num := (cfg_num (cc_config s))(name := v)\<rparr>\<rparr>"

definition set_config_str :: "char list \<Rightarrow> char list \<Rightarrow> cloud_control \<Rightarrow> cloud_control" where
  "set_config_str name v s = s\<lparr>cc_config := (cc_config s)\<lparr>cfg_str := (cfg_str (cc_config s))(name := v)\<rparr>\<rparr>"

text \<open>The two strings are copied into arrays of 32 bytes without a look at their length.\<close>

definition set_string :: "char list \<Rightarrow> callback" where
  "set_string member env devid data cmd =
     with_item env data cmd (\<lambda>item s. case item of
       J_string v \<Rightarrow> (if length v < 32 then Some (linkkit_sync_property_string devid cmd v (set_config_str member v s)) else None)
     | _ \<Rightarrow> Some s)"

definition Ali_SetIpcVersion :: callback where
  "Ali_SetIpcVersion = set_string ''ipc_version''"

definition Ali_SetDeviceName :: callback where
  "Ali_SetDeviceName = set_string ''device_name''"

definition Ali_SetDebugCmd :: callback where
  "Ali_SetDebugCmd env devid data cmd s = Some s"

text \<open>A day of the plan without one of its three members reads through a null pointer.\<close>

fun send_plan :: "int \<Rightarrow> (char list \<times> int) list list \<Rightarrow> cloud_control \<Rightarrow> cloud_control option" where
  "send_plan devid [] s = Some s"
| "send_plan devid (day # days) s =
     (case (object_item day ''DayOfWeek'', object_item day ''BeginTime'', object_item day ''EndTime'') of
        (Some d, Some b, Some e) \<Rightarrow>
          send_plan devid days (cc_send SERVER_VIDEO (msg_init\<lparr>m_message := MSG_VIDEO_PROPERTY_SET_DIRECT,
            m_arg_in := arg_zero\<lparr>cat := VIDEO_PROPERTY_MOTION_PLAN, dog := d, chick := b, duck := e\<rparr>,
            m_arg_pass := arg_zero\<lparr>cat := VIDEO_PROPERTY_MOTION_PLAN, wolf := devid\<rparr>\<rparr>) s)
      | _ \<Rightarrow> None)"

text \<open>The message that ends the plan is taken from the stack as it is.\<close>

definition Ali_SetAlarmNotifyPlan :: callback where
  "Ali_SetAlarmNotifyPlan env devid data cmd s =
     (case parse_request env data of
        None \<Rightarrow> Some s
      | Some root \<Rightarrow>
          (case object_item root cmd of
             Some (J_array days) \<Rightarrow> send_plan devid days s
           | _ \<Rightarrow>
               (case stack_message env of
                  None \<Rightarrow> None
                | Some m \<Rightarrow>
                    Some (cc_send SERVER_VIDEO (m\<lparr>m_message := MSG_VIDEO_PROPERTY_SET_DIRECT,
                      m_arg_in := (m_arg_in m)\<lparr>cat := VIDEO_PROPERTY_MOTION_PLAN, dog := - 1, chick := - 1, duck := - 1\<rparr>,
                      m_arg_pass := (m_arg_pass m)\<lparr>cat := VIDEO_PROPERTY_MOTION_PLAN\<rparr>\<rparr>) s))))"

definition show_leds :: "bool \<Rightarrow> cloud_control \<Rightarrow> cloud_control" where
  "show_leds linked s = (if linked then control_do (Led2 True) (control_do (Led1 False) s) else control_do (Led2 False) (control_do (Led1 True) s))"

definition Ali_SetStatusLightSwitch :: callback where
  "Ali_SetStatusLightSwitch env devid data cmd =
     with_item env data cmd (\<lambda>item s. case item of
       J_number v \<Rightarrow>
         let s = (if v \<noteq> cfg_num (cc_config s) ''led_enable'' then
             control_do Save_control_config (set_config_num ''led_enable'' (v mod 256)
               (if v \<noteq> 0 then show_leds (g_connect s) s else control_do (Led2 False) (control_do (Led1 False) s)))
           else s) in
         Some (linkkit_sync_property_int devid cmd v s)
     | _ \<Rightarrow> Some s)"

text \<open>The result of a zone that is set already is never assigned.\<close>

definition Ali_SetDeviceTimeZone :: callback where
  "Ali_SetDeviceTimeZone env devid data cmd =
     with_item env data cmd (\<lambda>item s. case item of
       J_number v \<Rightarrow>
         let (ret, s) = (if cfg_num (cc_config s) ''time_zone'' \<noteq> v then
             (timezone_ret env, let s = control_do (Set_timezone v) s in if timezone_ret env = 0 then set_config_num ''time_zone'' v s else s)
           else (stack_ret env, s)) in
         Some (linkkit_sync_property_int devid cmd (if ret = 0 then v else cfg_num (cc_config s) ''time_zone'') s)
     | _ \<Rightarrow> Some s)"

section \<open>Reading the properties\<close>

definition Ali_GetStreamVideoQuality :: callback where
  "Ali_GetStreamVideoQuality env devid data cmd = get_number False (\<lambda>env s. cfg_num (cc_config s) ''video_quality'') env devid data cmd"

definition Ali_GetSubStreamVideoQuality :: callback where
  "Ali_GetSubStreamVideoQuality env devid data cmd = get_number False (\<lambda>env s. cfg_num (cc_config s) ''subvideo_quality'') env devid data cmd"

definition Ali_GetAlarmSwitch :: callback where
  "Ali_GetAlarmSwitch env devid data cmd = get_number False (\<lambda>env s. cfg_num (cc_config s) ''alarm_switch'') env devid data cmd"

definition Ali_GetMotionDetectSensitivity :: callback where
  "Ali_GetMotionDetectSensitivity env devid data cmd = get_number False (\<lambda>env s. cfg_num (cc_config s) ''motion_detect_sensitivity'') env devid data cmd"

definition Ali_GetAlarmFrequencyLevel :: callback where
  "Ali_GetAlarmFrequencyLevel env devid data cmd = get_number False (\<lambda>env s. cfg_num (cc_config s) ''alarm_freqency'') env devid data cmd"

definition Ali_GetImageFlipState :: callback where
  "Ali_GetImageFlipState env devid data cmd = get_number False (\<lambda>env s. cfg_num (cc_config s) ''video_mirror'') env devid data cmd"

definition Ali_GetDayNightMode :: callback where
  "Ali_GetDayNightMode env devid data cmd = get_number False (\<lambda>env s. cfg_num (cc_config s) ''day_night_mode'') env devid data cmd"

definition Ali_GetTimeDisplay :: callback where
  "Ali_GetTimeDisplay env devid data cmd = get_number False (\<lambda>env s. cfg_num (cc_config s) ''osd_enable'') env devid data cmd"

definition Ali_GetWdrSupport :: callback where
  "Ali_GetWdrSupport env devid data cmd = get_number False (\<lambda>env s. cfg_num (cc_config s) ''wdr_enable'') env devid data cmd"

definition Ali_GetSpeakerSwitch :: callback where
  "Ali_GetSpeakerSwitch env devid data cmd = get_number False (\<lambda>env s. cfg_num (cc_config s) ''speaker_enable'') env devid data cmd"

definition Ali_GetStatusLightSwitch :: callback where
  "Ali_GetStatusLightSwitch env devid data cmd = get_number True (\<lambda>env s. cfg_num (cc_config s) ''led_enable'') env devid data cmd"

definition Ali_GetStorageRecordMode :: callback where
  "Ali_GetStorageRecordMode env devid data cmd = get_number True (\<lambda>env s. cfg_num (cc_config s) ''recorder_enable'') env devid data cmd"

definition Ali_GetImageCorrect :: callback where
  "Ali_GetImageCorrect env devid data cmd = get_number True (\<lambda>env s. cfg_num (cc_config s) ''image_correct'') env devid data cmd"

definition Ali_GetDeviceTimeZone :: callback where
  "Ali_GetDeviceTimeZone env devid data cmd = get_number True (\<lambda>env s. cfg_num (cc_config s) ''time_zone'') env devid data cmd"

definition get_string :: "char list \<Rightarrow> callback" where
  "get_string member env devid data cmd =
     with_item env data cmd (\<lambda>item s. Some (linkkit_sync_property_string devid cmd (cfg_str (cc_config s) member) s))"

definition Ali_GetIpcVersion :: callback where
  "Ali_GetIpcVersion = get_string ''ipc_version''"

definition Ali_GetDeviceName :: callback where
  "Ali_GetDeviceName = get_string ''device_name''"

definition Ali_GetDebugCmd :: callback where
  "Ali_GetDebugCmd env devid data cmd s = Some s"

definition Ali_GetAlarmNotifyPlan :: callback where
  "Ali_GetAlarmNotifyPlan env devid data cmd s = Some s"

definition Ali_GetWiFiRSSI :: callback where
  "Ali_GetWiFiRSSI = get_number True (\<lambda>env s. wifi_quality env)"

definition Ali_GetStorageStatus :: callback where
  "Ali_GetStorageStatus = get_number True (\<lambda>env s. card_status env)"

definition Ali_GetStorageTotalCapacity :: callback where
  "Ali_GetStorageTotalCapacity = get_number True (\<lambda>env s. case card_info env of None \<Rightarrow> 0 | Some (all_kb, free_kb) \<Rightarrow> all_kb div 1024)"

definition Ali_GetStorageRemainCapacity :: callback where
  "Ali_GetStorageRemainCapacity = get_number True (\<lambda>env s. case card_info env of None \<Rightarrow> 0 | Some (all_kb, free_kb) \<Rightarrow> free_kb div 1024)"

section \<open>The table\<close>

datatype ali_property =
    E_ALI_PROPERTY_STREAM_VIDEO_QUALITY | E_ALI_PROPERTY_SUB_STREAM_VIDIO_QUALITY | E_ALI_PROPERTY_ALARM_SWITCH
  | E_ALI_PROPERTY_MOTION_DETECT_SENSITIVITY | E_ALI_PROPERTY_ALARM_FREQUENCY_LEVEL | E_ALI_PROPERTY_IMAGE_FLIP_STATE
  | E_ALI_PROPERTY_IPC_VERSION | E_ALI_PROPERTY_DEBUG_CMD | E_ALI_PROPERTY_DAY_NIGHT_MODE | E_ALI_PROPERTY_ALARM_NOTIFY_PLAN
  | E_ALI_PROPERTY_TIMEDISPLAY | E_ALI_PROPERTY_WDRSUPPORT | E_ALI_PROPERTY_WIFIRSSI | E_ALI_PROPERTY_SPEEKERSWITCH
  | E_ALI_PROPERTY_STORAGESTATUS | E_ALI_PROPERTY_STORAGETOTALCAPACITY | E_ALI_PROPERTY_STORAGEREMAINCAPACITY
  | E_ALI_PROPERTY_STATUSLIGHTSWITCH | E_ALI_PROPERTY_STORAGERECORDMODE | E_ALI_PROPERTY_IMAGECORRECT
  | E_ALI_PROPERTY_DEVICENAME | E_ALI_PROPERTY_DEVICETIMEZONE

text \<open>The properties whose callback for a set is null are the ones the camera only reports.\<close>

definition gAliCmdMap :: "(ali_property \<times> char list \<times> callback option \<times> callback) list" where
  "gAliCmdMap = [
     (E_ALI_PROPERTY_STREAM_VIDEO_QUALITY, ''StreamVideoQuality'', Some Ali_SetStreamVideoQuality, Ali_GetStreamVideoQuality),
     (E_ALI_PROPERTY_SUB_STREAM_VIDIO_QUALITY, ''SubStreamVideoQuality'', Some Ali_SetSubStreamVideoQuality, Ali_GetSubStreamVideoQuality),
     (E_ALI_PROPERTY_ALARM_SWITCH, ''AlarmSwitch'', Some Ali_SetAlarmSwitch, Ali_GetAlarmSwitch),
     (E_ALI_PROPERTY_MOTION_DETECT_SENSITIVITY, ''MotionDetectSensitivity'', Some Ali_SetMotionDetectSensitivity, Ali_GetMotionDetectSensitivity),
     (E_ALI_PROPERTY_ALARM_FREQUENCY_LEVEL, ''AlarmFrequencyLevel'', Some Ali_SetAlarmFrequencyLevel, Ali_GetAlarmFrequencyLevel),
     (E_ALI_PROPERTY_IMAGE_FLIP_STATE, ''ImageFlipState'', Some Ali_SetImageFlipState, Ali_GetImageFlipState),
     (E_ALI_PROPERTY_IPC_VERSION, ''IpcVersion'', Some Ali_SetIpcVersion, Ali_GetIpcVersion),
     (E_ALI_PROPERTY_DEBUG_CMD, ''DebugCmd'', Some Ali_SetDebugCmd, Ali_GetDebugCmd),
     (E_ALI_PROPERTY_DAY_NIGHT_MODE, ''DayNightMode'', Some Ali_SetDayNightMode, Ali_GetDayNightMode),
     (E_ALI_PROPERTY_ALARM_NOTIFY_PLAN, ''AlarmNotifyPlan'', Some Ali_SetAlarmNotifyPlan, Ali_GetAlarmNotifyPlan),
     (E_ALI_PROPERTY_TIMEDISPLAY, ''TimeDisplay'', Some Ali_SetTimeDisplay, Ali_GetTimeDisplay),
     (E_ALI_PROPERTY_WDRSUPPORT, ''WdrSupport'', Some Ali_SetWdrSupport, Ali_GetWdrSupport),
     (E_ALI_PROPERTY_WIFIRSSI, ''WiFiRSSI'', None, Ali_GetWiFiRSSI),
     (E_ALI_PROPERTY_SPEEKERSWITCH, ''SpeakerSwitch'', Some Ali_SetSpeakerSwitch, Ali_GetSpeakerSwitch),
     (E_ALI_PROPERTY_STORAGESTATUS, ''StorageStatus'', None, Ali_GetStorageStatus),
     (E_ALI_PROPERTY_STORAGETOTALCAPACITY, ''StorageTotalCapacity'', None, Ali_GetStorageTotalCapacity),
     (E_ALI_PROPERTY_STORAGEREMAINCAPACITY, ''StorageRemainCapacity'', None, Ali_GetStorageRemainCapacity),
     (E_ALI_PROPERTY_STATUSLIGHTSWITCH, ''StatusLightSwitch'', Some Ali_SetStatusLightSwitch, Ali_GetStatusLightSwitch),
     (E_ALI_PROPERTY_STORAGERECORDMODE, ''StorageRecordMode'', Some Ali_SetStorageRecordMode, Ali_GetStorageRecordMode),
     (E_ALI_PROPERTY_IMAGECORRECT, ''ImageCorrect'', Some Ali_SetImageCorrect, Ali_GetImageCorrect),
     (E_ALI_PROPERTY_DEVICENAME, ''DeviceName'', Some Ali_SetDeviceName, Ali_GetDeviceName),
     (E_ALI_PROPERTY_DEVICETIMEZONE, ''DeviceTimeZone'', Some Ali_SetDeviceTimeZone, Ali_GetDeviceTimeZone)]"

text \<open>The first name of the table that occurs anywhere in the text of the request counts.\<close>

fun find_property :: "(ali_property \<times> char list \<times> 'a) list \<Rightarrow> char list \<Rightarrow> (ali_property \<times> char list \<times> 'a) option" where
  "find_property [] request = None"
| "find_property ((p, name, cb) # rest) request =
     (if strstr request name \<noteq> None then Some (p, name, cb) else find_property rest request)"

definition user_property_set_handler :: "control_env \<Rightarrow> int \<Rightarrow> char list \<Rightarrow> cloud_control \<Rightarrow> cloud_control option" where
  "user_property_set_handler env devid request s =
     (case find_property gAliCmdMap request of
        None \<Rightarrow> Some s
      | Some (p, name, None, g) \<Rightarrow> None
      | Some (p, name, Some f, g) \<Rightarrow> f env devid request name s)"

definition user_property_get_handler :: "control_env \<Rightarrow> int \<Rightarrow> char list \<Rightarrow> cloud_control \<Rightarrow> cloud_control option" where
  "user_property_get_handler env devid request s =
     (case find_property gAliCmdMap request of
        None \<Rightarrow> Some s
      | Some (p, name, f, g) \<Rightarrow> g env devid request name s)"

section \<open>Reports and events\<close>

text \<open>The names are taken from the table by the number of the property in the enumeration.\<close>

definition ali_properties :: "ali_property list" where
  "ali_properties = [E_ALI_PROPERTY_STREAM_VIDEO_QUALITY, E_ALI_PROPERTY_SUB_STREAM_VIDIO_QUALITY, E_ALI_PROPERTY_ALARM_SWITCH,
     E_ALI_PROPERTY_MOTION_DETECT_SENSITIVITY, E_ALI_PROPERTY_ALARM_FREQUENCY_LEVEL, E_ALI_PROPERTY_IMAGE_FLIP_STATE,
     E_ALI_PROPERTY_IPC_VERSION, E_ALI_PROPERTY_DEBUG_CMD, E_ALI_PROPERTY_DAY_NIGHT_MODE, E_ALI_PROPERTY_ALARM_NOTIFY_PLAN,
     E_ALI_PROPERTY_TIMEDISPLAY, E_ALI_PROPERTY_WDRSUPPORT, E_ALI_PROPERTY_WIFIRSSI, E_ALI_PROPERTY_SPEEKERSWITCH,
     E_ALI_PROPERTY_STORAGESTATUS, E_ALI_PROPERTY_STORAGETOTALCAPACITY, E_ALI_PROPERTY_STORAGEREMAINCAPACITY,
     E_ALI_PROPERTY_STATUSLIGHTSWITCH, E_ALI_PROPERTY_STORAGERECORDMODE, E_ALI_PROPERTY_IMAGECORRECT,
     E_ALI_PROPERTY_DEVICENAME, E_ALI_PROPERTY_DEVICETIMEZONE]"

fun position :: "ali_property list \<Rightarrow> ali_property \<Rightarrow> nat" where
  "position [] p = 0"
| "position (q # qs) p = (if q = p then 0 else Suc (position qs p))"

definition cmd_name :: "ali_property \<Rightarrow> char list" where
  "cmd_name p = fst (snd (gAliCmdMap ! position ali_properties p))"

definition Ali_ReportProperty :: "control_env \<Rightarrow> int \<Rightarrow> cloud_control \<Rightarrow> cloud_control" where
  "Ali_ReportProperty env devid s =
     (let num = (\<lambda>p member. (cmd_name p, R_num (cfg_num (cc_config s) member)));
          str = (\<lambda>p member. (cmd_name p, R_str (cfg_str (cc_config s) member)));
          (all_kb, free_kb) = (case card_info env of None \<Rightarrow> (0, 0) | Some sizes \<Rightarrow> sizes) in
      control_do (Report devid [
        num E_ALI_PROPERTY_STREAM_VIDEO_QUALITY ''video_quality'',
        num E_ALI_PROPERTY_SUB_STREAM_VIDIO_QUALITY ''subvideo_quality'',
        num E_ALI_PROPERTY_ALARM_SWITCH ''alarm_switch'',
        num E_ALI_PROPERTY_MOTION_DETECT_SENSITIVITY ''motion_detect_sensitivity'',
        num E_ALI_PROPERTY_ALARM_FREQUENCY_LEVEL ''alarm_freqency'',
        num E_ALI_PROPERTY_IMAGE_FLIP_STATE ''video_mirror'',
        str E_ALI_PROPERTY_IPC_VERSION ''ipc_version'',
        num E_ALI_PROPERTY_DAY_NIGHT_MODE ''day_night_mode'',
        num E_ALI_PROPERTY_TIMEDISPLAY ''osd_enable'',
        num E_ALI_PROPERTY_WDRSUPPORT ''wdr_enable'',
        (cmd_name E_ALI_PROPERTY_WIFIRSSI, R_num (wifi_quality env)),
        num E_ALI_PROPERTY_SPEEKERSWITCH ''speaker_enable'',
        (cmd_name E_ALI_PROPERTY_STORAGESTATUS, R_num (card_status env)),
        (cmd_name E_ALI_PROPERTY_STORAGETOTALCAPACITY, R_num (all_kb div 1024)),
        (cmd_name E_ALI_PROPERTY_STORAGEREMAINCAPACITY, R_num (free_kb div 1024)),
        num E_ALI_PROPERTY_STATUSLIGHTSWITCH ''led_enable'',
        num E_ALI_PROPERTY_STORAGERECORDMODE ''recorder_enable'',
        num E_ALI_PROPERTY_IMAGECORRECT ''image_correct'',
        str E_ALI_PROPERTY_DEVICENAME ''device_name'',
        num E_ALI_PROPERTY_DEVICETIMEZONE ''time_zone'']) s)"

text \<open>The card, for the cloud; the device number is negative while there is no connection.\<close>

definition aliyun_report_sd_info :: "control_env \<Rightarrow> int \<Rightarrow> cloud_control \<Rightarrow> cloud_control" where
  "aliyun_report_sd_info env devid s =
     (let data = (if card_status env = 1 then
            (case card_info env of
               None \<Rightarrow> [(''StorageStatus'', R_num 0)]
             | Some (all_kb, free_kb) \<Rightarrow> [(''StorageStatus'', R_num 1), (''StorageTotalCapacity'', R_num (all_kb div 1024)),
                 (''StorageRemainCapacity'', R_num (free_kb div 1024))])
          else [(''StorageStatus'', R_num (card_status env))]) in
      if devid \<ge> 0 then control_do (Report devid data) s else s)"

text \<open>The audio server is sent a message without a number.\<close>

definition user_connected_event_handler :: "control_env \<Rightarrow> int \<Rightarrow> cloud_control \<Rightarrow> cloud_control" where
  "user_connected_event_handler env devid s =
     (let s = s\<lparr>cc_bus := (cc_bus s)(SERVER_AUDIO := snd (server_audio_message (cc_bus s SERVER_AUDIO) msg_init)), g_connect := True\<rparr>;
          s = (if cfg_num (cc_config s) ''led_enable'' \<noteq> 0 then control_do (Led2 True) (control_do (Led1 False) s) else s);
          s = Ali_ReportProperty env devid s in
      control_do Cloud_connected (control_do Query_firmware (control_do Query_clock s)))"

definition user_disconnected_event_handler :: "cloud_control \<Rightarrow> cloud_control" where
  "user_disconnected_event_handler s =
     (let s = s\<lparr>g_connect := False\<rparr> in
      if cfg_num (cc_config s) ''led_enable'' \<noteq> 0 then control_do (Led2 False) (control_do (Led1 True) s) else s)"

text \<open>The time is a text of milliseconds.\<close>

definition user_timestamp_reply_handler :: "int \<Rightarrow> cloud_control \<Rightarrow> cloud_control" where
  "user_timestamp_reply_handler stamp s =
     (let m = msg_init\<lparr>m_message := MSG_ALIYUN_TIME_SYNCHRONIZED\<rparr>;
          s = control_do (Set_clock (word_of_int (if stamp \<ge> 0 then stamp div 1000 else - ((- stamp) div 1000)))) s in
      cc_send SERVER_ALIYUN m (cc_send SERVER_PLAYER m (cc_send SERVER_RECORDER m s)))"

text \<open>A camera that was bound keeps the network of the bar code, unless it had one.\<close>

definition user_event_notify_dev_bind :: "int \<Rightarrow> bool \<Rightarrow> cloud_control \<Rightarrow> cloud_control" where
  "user_event_notify_dev_bind state_code has_network s =
     (if state_code = - 2052 \<and> \<not> has_network then
        cc_send SERVER_AUDIO (msg_init\<lparr>m_message := MSG_AUDIO_PLAY_SOUND, m_arg_in := arg_zero\<lparr>cat := 2\<rparr>\<rparr>)
          (control_do Keep_network s)
      else s)"

section \<open>Services\<close>

definition link_visual_service :: "char list list" where
  "link_visual_service = [''TriggerPicCapture'', ''StartVoiceIntercom'', ''StopVoiceIntercom'', ''StartVod'', ''StartVodByTime'', ''StopVod'',
     ''QueryRecordTimeList'', ''QueryRecordList'', ''StartP2PStreaming'', ''StartPushStreaming'', ''StopPushStreaming'', ''QueryMonthRecord'']"

definition value_int :: "json_value \<Rightarrow> int" where
  "value_int v = (case v of J_number n \<Rightarrow> n | _ \<Rightarrow> 0)"

text \<open>The first \<open>n\<close> characters of two texts are equal; a text of no length is equal to every name.\<close>

definition strncmp_eq :: "char list \<Rightarrow> char list \<Rightarrow> nat \<Rightarrow> bool" where
  "strncmp_eq a b n = (take n a = take n b)"

definition ptz_service :: "control_env \<Rightarrow> char list \<Rightarrow> cloud_control \<Rightarrow> int \<times> cloud_control" where
  "ptz_service env request s =
     (case parse_request env request of
        None \<Rightarrow> (- 1, s)
      | Some root \<Rightarrow>
          (case (object_item root ''ActionType'', object_item root ''Step'') of
             (Some a, Some b) \<Rightarrow> (0, control_do (Motor (value_int a) (value_int b)) s)
           | _ \<Rightarrow> (- 1, s)))"

definition user_service_request_handler ::
  "control_env \<Rightarrow> char list \<Rightarrow> int \<Rightarrow> char list \<Rightarrow> cloud_control \<Rightarrow> int \<times> cloud_control" where
  "user_service_request_handler env serviceid serviceid_len request s =
     (if \<exists>name \<in> set link_visual_service. strncmp_eq serviceid name (length name) then
        (if adapter_ret env < 0 then - 1 else 0, control_do (Cloud_service serviceid) s)
      else
        let n = nat serviceid_len in
        if strncmp_eq serviceid ''PTZActionControl'' n then ptz_service env request s
        else if strncmp_eq serviceid ''FormatStorageMedium'' n then (0, control_do Format_card s)
        else if strncmp_eq serviceid ''EjectStorageCard'' n then (0, control_do Unmount_card s)
        else if strncmp_eq serviceid ''Reboot'' n then (0, control_do Reboot_device s)
        else (0, s))"

end
