(* ===== verification/CloudControlProps.thy ===== *)
theory CloudControlProps
  imports CloudControl VideoProps Composition
begin

text \<open>
  What the requests of the cloud do: which settings they reach, which they never reach, and what the
  lights show of the connection.
\<close>

section \<open>A number that is set reaches the video server\<close>

lemma cc_send_fields [simp]:
  "cc_config (cc_send r m s) = cc_config s" "g_connect (cc_send r m s) = g_connect s" "cc_calls (cc_send r m s) = cc_calls s"
  by (simp_all add: cc_send_def)

text \<open>The settings of one byte that are set at once, with what they are in the two programs.\<close>

fun byte_setting :: "ali_property \<Rightarrow> (int \<times> (video_settings \<Rightarrow> int)) option" where
  "byte_setting E_ALI_PROPERTY_STREAM_VIDEO_QUALITY = Some (VIDEO_PROPERTY_QUALITY, video_quality)"
| "byte_setting E_ALI_PROPERTY_ALARM_SWITCH = Some (VIDEO_PROPERTY_MOTION_SWITCH, alarm_switch)"
| "byte_setting E_ALI_PROPERTY_ALARM_FREQUENCY_LEVEL = Some (VIDEO_PROPERTY_MOTION_ALARM_INTERVAL, alarm_freqency)"
| "byte_setting E_ALI_PROPERTY_TIMEDISPLAY = Some (VIDEO_PROPERTY_TIME_WATERMARK, osd_enable)"
| "byte_setting E_ALI_PROPERTY_WDRSUPPORT = Some (VIDEO_PROPERTY_WDR, wdr_enable)"
| "byte_setting _ = None"

lemma find_property_in: "find_property table request = Some e \<Longrightarrow> e \<in> set table"
  by (induction table request rule: find_property.induct) (auto split: if_splits)

lemma byte_callback:
  assumes "find_property gAliCmdMap request = Some (p, name, f, g)" "byte_setting p = Some (k, get)"
  shows "user_property_set_handler env devid request s =
    set_number SERVER_VIDEO (property_message MSG_VIDEO_PROPERTY_SET_DIRECT k (p = E_ALI_PROPERTY_STREAM_VIDEO_QUALITY) devid name) env request name s"
proof -
  have e: "(p, name, f, g) \<in> set gAliCmdMap" using assms(1) by (rule find_property_in)
  have h: "user_property_set_handler env devid request s = (case f of None \<Rightarrow> None | Some f \<Rightarrow> f env devid request name s)"
    using assms(1) by (simp add: user_property_set_handler_def split: option.split)
  show ?thesis
    using e assms(2) unfolding h gAliCmdMap_def
    by (auto simp: Ali_SetStreamVideoQuality_def Ali_SetAlarmSwitch_def Ali_SetAlarmFrequencyLevel_def Ali_SetTimeDisplay_def Ali_SetWdrSupport_def)
qed

lemma set_byte_sets:
  assumes "0 \<le> n" "n < 256" "\<And>v c. get (upd v c) = v"
  shows "get (settings (set_byte n m get upd s)) = n \<and> last (video_calls (set_byte n m get upd s)) = Sync_property (wolf (m_arg_in m)) n"
  using assms by (auto simp: set_byte_def Let_def)

lemma video_sets:
  assumes "byte_setting p = Some (k, get)" "0 \<le> n" "n < 256" "m_arg m = Some (P_int n)" "cat (m_arg_in m) = k"
  shows "get (settings (video_set_property venv m v)) = n \<and> last (video_calls (video_set_property venv m v)) = Sync_property (wolf (m_arg_in m)) n"
proof -
  have "video_set_property venv m v = (
    if k = VIDEO_PROPERTY_QUALITY then set_byte n m video_quality (\<lambda>v c. c\<lparr>video_quality := v\<rparr>) (set_quality n v)
    else if k = VIDEO_PROPERTY_MOTION_SWITCH then set_byte n m alarm_switch (\<lambda>v c. c\<lparr>alarm_switch := v\<rparr>) v
    else if k = VIDEO_PROPERTY_MOTION_ALARM_INTERVAL then set_byte n m alarm_freqency (\<lambda>v c. c\<lparr>alarm_freqency := v\<rparr>) v
    else if k = VIDEO_PROPERTY_TIME_WATERMARK then set_byte n m osd_enable (\<lambda>v c. c\<lparr>osd_enable := v\<rparr>) v
    else set_byte n m wdr_enable (\<lambda>v c. c\<lparr>wdr_enable := v\<rparr>) v)"
    using assms(1,4,5) by (cases p) (auto simp: video_set_property_def Let_def)
  moreover have "get (settings (set_byte n m get upd u)) = n \<and> last (video_calls (set_byte n m get upd u)) = Sync_property (wolf (m_arg_in m)) n"
    if "\<And>v c. get (upd v c) = v" for upd u using set_byte_sets [OF assms(2,3) that] .
  ultimately show ?thesis using assms(1) by (cases p) auto
qed

text \<open>
  C26: Composition of the cloud's requests, the video server's queue and the video server: a request that names one of
  the settings of one byte first, and has a number for it, makes the video server have that setting and report it; all but
  the first report it for device 0, whichever device was meant.
\<close>

theorem cloud_sets_video:
  assumes "find_property gAliCmdMap request = Some (p, name, cb)" "byte_setting p = Some (k, get)"
    and "parse_request env request = Some root" "object_item root name = Some (J_number n)" "0 \<le> n" "n < 256"
    and "idle_queue (cc_bus s SERVER_VIDEO)" "msg_lock (info v) = 0" "status (info v) < STATUS_ERROR"
  shows "\<exists>t. user_property_set_handler env devid request s = Some t
    \<and> (let v' = video_take_message venv (v\<lparr>bus := cc_bus t\<rparr>) in get (settings v') = n
         \<and> last (video_calls v') = Sync_property (if p = E_ALI_PROPERTY_STREAM_VIDEO_QUALITY then devid else 0) n)"
proof -
  let ?m = "property_message MSG_VIDEO_PROPERTY_SET_DIRECT k (p = E_ALI_PROPERTY_STREAM_VIDEO_QUALITY) devid name n"
  define t where "t = cc_send SERVER_VIDEO ?m s"
  obtain f g where cb: "cb = (f, g)" by fastforce
  have h: "user_property_set_handler env devid request s = Some t"
    using byte_callback [OF assms(1) [unfolded cb] assms(2)] assms(3,4) by (simp add: set_number_def with_item_def t_def)
  have one: "one_message ?m (bus (v\<lparr>bus := cc_bus t\<rparr>) SERVER_VIDEO)"
    using idle_send [of "cc_bus s" SERVER_VIDEO ?m] assms(7) by (auto simp: t_def cc_send_def is_server_def)
  have ob: "video_message_block (v\<lparr>bus := cc_bus t\<rparr>) = (False, v\<lparr>bus := cc_bus t\<rparr>)"
    using assms(8) by (simp add: video_message_block_def message_block_def)
  from take_single [where block = video_message_block and own = SERVER_VIDEO, OF ob one, of video_message_filter "VideoServer.handle_message venv"]
  obtain q j where q: "video_take_message venv (v\<lparr>bus := cc_bus t\<rparr>)
      = VideoServer.handle_message venv (?m\<lparr>m_sequence := j\<rparr>) (v\<lparr>bus := (cc_bus t)(SERVER_VIDEO := q)\<rparr>)"
    using assms(9) by (auto simp: video_take_message_def video_message_filter_def error_filter_def)
  have "VideoServer.handle_message venv (?m\<lparr>m_sequence := j\<rparr>) u = video_set_property venv (?m\<lparr>m_sequence := j\<rparr>) u" for u
    by (simp add: VideoServer.handle_message_def property_message_def)
  moreover have "wolf (m_arg_in (?m\<lparr>m_sequence := j\<rparr>)) = (if p = E_ALI_PROPERTY_STREAM_VIDEO_QUALITY then devid else 0)"
    "m_arg (?m\<lparr>m_sequence := j\<rparr>) = Some (P_int n)" "cat (m_arg_in (?m\<lparr>m_sequence := j\<rparr>)) = k"
    by (simp_all add: property_message_def arg_zero_def)
  ultimately show ?thesis
    using h q video_sets [OF assms(2,5,6), of "?m\<lparr>m_sequence := j\<rparr>"] by (intro exI [of _ t]) (simp add: Let_def)
qed

section \<open>What the cloud cannot set\<close>

lemma strstr_append: "strstr xs (a @ b) \<noteq> None \<Longrightarrow> strstr xs b \<noteq> None"
proof (induction xs)
  case Nil
  then show ?case by (simp split: if_splits)
next
  case (Cons x xs)
  have here: "strstr ys b \<noteq> None" if "take (length b) (drop k ys) = b" for k ys
    using that
  proof (induction ys arbitrary: k)
    case Nil
    then show ?case by simp
  next
    case (Cons y ys)
    show ?case
    proof (cases k)
      case 0
      then show ?thesis using Cons.prems by simp
    next
      case (Suc j)
      then have "take (length b) (drop j ys) = b" using Cons.prems by simp
      from Cons.IH [OF this] show ?thesis by simp
    qed
  qed
  show ?case
  proof (cases "take (length (a @ b)) (x # xs) = a @ b")
    case True
    then have "take (length b) (drop (length a) (x # xs)) = b" by (metis append_eq_conv_conj length_append take_drop add.commute)
    then show ?thesis by (rule here)
  next
    case False
    then have "strstr xs (a @ b) \<noteq> None" using Cons.prems by (simp split: if_splits)
    then show ?thesis using Cons.IH by simp
  qed
qed

text \<open>
  C31: The quality of the second stream can never be set: its name contains that of the first, which comes first in
  the table, so that a request for it alone is taken for one of the first stream and does nothing.
\<close>

theorem subquality_never_set:
  assumes "strstr request ''SubStreamVideoQuality'' \<noteq> None"
    and "\<forall>root. parse_request env request = Some root \<longrightarrow> object_item root ''StreamVideoQuality'' = None"
  shows "user_property_set_handler env devid request s = Some s \<and> user_property_get_handler env devid request s = Some s"
proof -
  have "strstr request (''Sub'' @ ''StreamVideoQuality'') \<noteq> None" using assms(1) by simp
  from strstr_append [OF this] have "strstr request ''StreamVideoQuality'' \<noteq> None" .
  then have f: "find_property gAliCmdMap request = Some (E_ALI_PROPERTY_STREAM_VIDEO_QUALITY, ''StreamVideoQuality'',
      Some Ali_SetStreamVideoQuality, Ali_GetStreamVideoQuality)"
    by (simp add: gAliCmdMap_def)
  show ?thesis
    using assms(2) f by (cases "parse_request env request")
      (simp_all add: user_property_set_handler_def user_property_get_handler_def Ali_SetStreamVideoQuality_def Ali_GetStreamVideoQuality_def
        set_number_def get_number_def with_item_def)
qed

text \<open>A request to set what the camera only reports calls through a null pointer.\<close>

lemma readonly_set_faults:
  assumes "find_property gAliCmdMap request = Some (p, name, f, g)"
    and "p \<in> {E_ALI_PROPERTY_WIFIRSSI, E_ALI_PROPERTY_STORAGESTATUS, E_ALI_PROPERTY_STORAGETOTALCAPACITY, E_ALI_PROPERTY_STORAGEREMAINCAPACITY}"
  shows "user_property_set_handler env devid request s = None"
proof -
  have "f = None" using find_property_in [OF assms(1)] assms(2) by (auto simp: gAliCmdMap_def)
  then show ?thesis using assms(1) by (simp add: user_property_set_handler_def)
qed

text \<open>A service without a length is taken for the motor's.\<close>

lemma empty_service_moves:
  assumes "\<forall>name \<in> set link_visual_service. take (length name) serviceid \<noteq> name" "serviceid_len \<le> 0"
  shows "user_service_request_handler env serviceid serviceid_len request s = ptz_service env request s"
  using assms by (auto simp: user_service_request_handler_def strncmp_eq_def)

section \<open>The lights\<close>

datatype control_event = Comes_up control_env int | Goes_down | Sets_light control_env int "char list" "char list"

fun control_step :: "control_event \<Rightarrow> cloud_control \<Rightarrow> cloud_control" where
  "control_step (Comes_up env devid) s = user_connected_event_handler env devid s"
| "control_step Goes_down s = user_disconnected_event_handler s"
| "control_step (Sets_light env devid data cmd) s = (case Ali_SetStatusLightSwitch env devid data cmd s of None \<Rightarrow> s | Some t \<Rightarrow> t)"

text \<open>What the lights show after the calls; red is the first, green the second.\<close>

fun light :: "control_call \<Rightarrow> bool \<times> bool \<Rightarrow> bool \<times> bool" where
  "light (Led1 b) (r, g) = (b, g)"
| "light (Led2 b) (r, g) = (r, b)"
| "light _ rg = rg"

definition lights :: "cloud_control \<Rightarrow> bool \<times> bool" where
  "lights s = fold light (cc_calls s) (False, False)"

definition lights_ok :: "cloud_control \<Rightarrow> bool" where
  "lights_ok s = (lights s = (if cfg_num (cc_config s) ''led_enable'' = 0 then (False, False) else if g_connect s then (False, True) else (True, False)))"

definition byte_light :: "control_event \<Rightarrow> bool" where
  "byte_light e = (case e of Sets_light env devid data cmd \<Rightarrow>
     (\<forall>root n. parse_request env data = Some root \<and> object_item root cmd = Some (J_number n) \<longrightarrow> 0 \<le> n \<and> n < 256) | _ \<Rightarrow> True)"

lemma lights_calls [simp]: "lights (s\<lparr>cc_calls := cs @ ds\<rparr>) = fold light ds (lights (s\<lparr>cc_calls := cs\<rparr>))"
  by (simp add: lights_def)

lemma light_pair: "light (Led1 b) rg = (b, snd rg)" "light (Led2 b) rg = (fst rg, b)"
  by (cases rg; simp)+

lemma lights_same: "lights (s\<lparr>cc_calls := cc_calls s\<rparr>) = lights s" "lights (s\<lparr>cc_bus := b\<rparr>) = lights s" "lights (s\<lparr>g_connect := c\<rparr>) = lights s"
  by (simp_all add: lights_def)

lemma step_lights:
  assumes "lights_ok s" "byte_light e"
  shows "lights_ok (control_step e s)"
proof (cases e)
  case (Comes_up env devid)
  then show ?thesis using assms(1)
    by (simp add: lights_ok_def lights_def user_connected_event_handler_def Ali_ReportProperty_def light_pair Let_def split: prod.split)
next
  case Goes_down
  then show ?thesis using assms(1) by (simp add: lights_ok_def lights_def user_disconnected_event_handler_def light_pair Let_def)
next
  case (Sets_light env devid data cmd)
  show ?thesis
  proof (cases "\<exists>root n. parse_request env data = Some root \<and> object_item root cmd = Some (J_number n)")
    case False
    then have "Ali_SetStatusLightSwitch env devid data cmd s = Some s"
      by (auto simp: Ali_SetStatusLightSwitch_def with_item_def split: option.split json_value.split)
    then show ?thesis using Sets_light assms(1) by simp
  next
    case True
    then obtain root n where n: "parse_request env data = Some root" "object_item root cmd = Some (J_number n)" by blast
    then have b: "0 \<le> n" "n < 256" using assms(2) Sets_light by (auto simp: byte_light_def)
    have "Ali_SetStatusLightSwitch env devid data cmd s = Some (linkkit_sync_property_int devid cmd n
        (if n \<noteq> cfg_num (cc_config s) ''led_enable'' then control_do Save_control_config (set_config_num ''led_enable'' (n mod 256)
            (if n \<noteq> 0 then show_leds (g_connect s) s else control_do (Led2 False) (control_do (Led1 False) s))) else s))"
      using n by (simp add: Ali_SetStatusLightSwitch_def with_item_def)
    then show ?thesis
      using Sets_light assms(1) b by (auto simp: lights_ok_def lights_def linkkit_sync_property_int_def set_config_num_def show_leds_def light_pair)
  qed
qed

text \<open>
  C30: Through any connections, losses of the connection and switches of the lights, the lights are off when they are
  switched off, and otherwise show green exactly while the camera is connected and red exactly while it is not.
\<close>

theorem lights_show_connection:
  assumes "lights_ok s" "list_all byte_light es"
  shows "lights_ok (fold control_step es s)"
  using assms by (induction es arbitrary: s) (simp_all add: step_lights)

text \<open>A value that no byte holds switches the lights on and is kept as 0.\<close>

lemma light_of_256:
  assumes "parse_request env data = Some root" "object_item root cmd = Some (J_number 256)" "g_connect s" "cfg_num (cc_config s) ''led_enable'' = 0"
  shows "case Ali_SetStatusLightSwitch env devid data cmd s of None \<Rightarrow> False
    | Some t \<Rightarrow> lights t = (False, True) \<and> cfg_num (cc_config t) ''led_enable'' = 0"
proof -
  have l: "lights (linkkit_sync_property_int devid cmd 256 (control_do Save_control_config (set_config_num ''led_enable'' 0 (show_leds True s)))) = (False, True)"
    by (simp add: lights_def linkkit_sync_property_int_def set_config_num_def show_leds_def light_pair)
  show ?thesis
    using assms l by (simp add: Ali_SetStatusLightSwitch_def with_item_def) (simp add: linkkit_sync_property_int_def set_config_num_def)
qed

section \<open>Witnesses\<close>

definition demo_request :: "char list \<Rightarrow> int \<Rightarrow> control_env" where
  "demo_request name n = \<lparr>parse_request = (\<lambda>_. Some [(name, J_number n)]), card_status = 1, card_info = Some (2048, 1024), wifi_quality = 80,
     timezone_ret = 0, stack_ret = 0, stack_message = None, adapter_ret = 0\<rparr>"

definition demo_control :: cloud_control where
  "demo_control = \<lparr>cc_bus = (\<lambda>_. demo_queue 1), cc_config = \<lparr>cfg_num = (\<lambda>_. 0), cfg_str = (\<lambda>_. [])\<rparr>, g_connect = False, cc_calls = []\<rparr>"

theorem cloud_sets_video_witness:
  "\<exists>t. user_property_set_handler (demo_request ''WdrSupport'' 1) 5 ''WdrSupport'' demo_control = Some t
    \<and> (let v' = video_take_message demo_venv (demo_video\<lparr>bus := cc_bus t\<rparr>) in wdr_enable (settings v') = 1 \<and> last (video_calls v') = Sync_property 0 1)"
proof -
  have f: "find_property gAliCmdMap ''WdrSupport'' = Some (E_ALI_PROPERTY_WDRSUPPORT, ''WdrSupport'', Some Ali_SetWdrSupport, Ali_GetWdrSupport)"
    by (simp add: gAliCmdMap_def)
  have b: "byte_setting E_ALI_PROPERTY_WDRSUPPORT = Some (VIDEO_PROPERTY_WDR, wdr_enable)" by simp
  have r: "parse_request (demo_request ''WdrSupport'' 1) ''WdrSupport'' = Some [(''WdrSupport'', J_number 1)]"
    "object_item [(''WdrSupport'', J_number 1)] ''WdrSupport'' = Some (J_number 1)"
    by (simp_all add: demo_request_def case_insensitive_eq_def)
  have q: "idle_queue (cc_bus demo_control SERVER_VIDEO)" "msg_lock (info demo_video) = 0" "status (info demo_video) < STATUS_ERROR"
    by (simp_all add: demo_control_def idle_queue_def demo_video_def info_zero_def)
  show ?thesis using cloud_sets_video [OF f b r _ _ q, of 5 demo_venv] by simp
qed

theorem subquality_never_set_witness:
  "user_property_set_handler (demo_request ''SubStreamVideoQuality'' 1) 0 ''SubStreamVideoQuality'' demo_control = Some demo_control"
proof -
  have "strstr ''SubStreamVideoQuality'' ''SubStreamVideoQuality'' \<noteq> None" by simp
  moreover have "\<forall>root. parse_request (demo_request ''SubStreamVideoQuality'' 1) ''SubStreamVideoQuality'' = Some root
      \<longrightarrow> object_item root ''StreamVideoQuality'' = None"
    by (simp add: demo_request_def case_insensitive_eq_def)
  ultimately show ?thesis by (rule subquality_never_set [THEN conjunct1])
qed

theorem lights_show_connection_witness:
  "lights (fold control_step [Comes_up (demo_request ''x'' 0) 0, Goes_down] (set_config_num ''led_enable'' 1 (demo_control\<lparr>cc_calls := [Led1 True]\<rparr>))) = (True, False)"
proof -
  let ?s = "set_config_num ''led_enable'' 1 (demo_control\<lparr>cc_calls := [Led1 True]\<rparr>)"
  have "lights_ok ?s" by (simp add: lights_ok_def lights_def set_config_num_def demo_control_def)
  moreover have "list_all byte_light [Comes_up (demo_request ''x'' 0) 0, Goes_down]" by (simp add: byte_light_def)
  ultimately have "lights_ok (fold control_step [Comes_up (demo_request ''x'' 0) 0, Goes_down] ?s)" by (rule lights_show_connection)
  moreover have "cfg_num (cc_config (fold control_step [Comes_up (demo_request ''x'' 0) 0, Goes_down] ?s)) ''led_enable'' = 1"
    "\<not> g_connect (fold control_step [Comes_up (demo_request ''x'' 0) 0, Goes_down] ?s)"
    by (simp_all add: user_connected_event_handler_def user_disconnected_event_handler_def Ali_ReportProperty_def set_config_num_def Let_def split: prod.split)
  ultimately show ?thesis by (simp add: lights_ok_def)
qed

end
