(* ===== verification/CloudStreams.thy ===== *)
theory CloudStreams
  imports PlayerServer Audio Snapshot Composition
begin

text \<open>
  What the library of the cloud's streams asks of the camera, \<open>server/aliyun/linkvisual_client.c\<close>: to start
  and stop live pictures, recordings and the intercom, the commands during a playback, the list of the
  recordings of a day, and a picture.  The callbacks keep nothing themselves; they send messages.
\<close>

section \<open>The callbacks\<close>

abbreviation (input) "LV_STREAM_CMD_LIVE \<equiv> 0 :: int"
abbreviation (input) "LV_STREAM_CMD_STORAGE_RECORD_BY_UTC_TIME \<equiv> 2 :: int"
abbreviation (input) "LV_STREAM_CMD_VOICE \<equiv> 4 :: int"
abbreviation (input) "LV_STREAM_CMD_STORAGE_RECORD_BY_FILE \<equiv> 6 :: int"
abbreviation (input) "LV_STORAGE_RECORD_START \<equiv> 0 :: int"
abbreviation (input) "LV_STORAGE_RECORD_PAUSE \<equiv> 1 :: int"
abbreviation (input) "LV_STORAGE_RECORD_UNPAUSE \<equiv> 2 :: int"
abbreviation (input) "LV_STORAGE_RECORD_SEEK \<equiv> 3 :: int"
abbreviation (input) "LV_STORAGE_RECORD_STOP \<equiv> 4 :: int"
abbreviation (input) "LV_STORAGE_RECORD_SET_PARAM \<equiv> 5 :: int"
abbreviation (input) "LV_LIVE_REQUEST_I_FRAME \<equiv> 6 :: int"
abbreviation (input) "LV_QUERY_RECORD_BY_DAY \<equiv> 0 :: int"
abbreviation (input) "STREAM_SOURCE_LIVE \<equiv> 1 :: int"
abbreviation (input) "STREAM_SOURCE_PLAYER \<equiv> 2 :: int"

record lv_start_push_stream_param =
  stream_service :: int
  stream_cmd_type :: int
  stream_type :: int
  utc_start_time :: u32
  utc_stop_time :: u32
  utc_seek_time :: u32
  utc_record_type :: int
  file_seek_time :: u32
  file_name :: "char list"

record lv_on_push_stream_cmd_param =
  cmd_service :: int
  cmd_type :: int
  timestamp_ms :: u32
  set_speed :: u32
  set_key_only :: u32

record lv_query_record_param =
  query_service :: int
  query_type :: int
  day_type :: nat
  day_start_time :: u32
  day_stop_time :: u32
  day_num :: u32

abbreviation "tell receiver m b \<equiv> snd (global_common_send_message b receiver m)"

definition from_aliyun :: "int \<Rightarrow> message_arg_t \<Rightarrow> message_arg_t \<Rightarrow> msg" where
  "from_aliyun message args pass =
     msg_init\<lparr>m_message := message, m_sender := SERVER_ALIYUN, m_receiver := SERVER_ALIYUN, m_arg_in := args, m_arg_pass := pass\<rparr>"

definition player_request :: "int \<Rightarrow> player_init_t \<Rightarrow> msg" where
  "player_request service ini =
     (let a = arg_zero\<lparr>duck := STREAM_SOURCE_PLAYER, wolf := service\<rparr> in
      (from_aliyun MSG_PLAYER_REQUEST a a)\<lparr>m_arg := Some (P_player_init ini), m_arg_size := 104\<rparr>)"

text \<open>What is asked of the player: by time, and by the name of a file.  The offset is a \<open>char\<close>.\<close>

definition by_utc :: "lv_start_push_stream_param \<Rightarrow> player_init_t" where
  "by_utc p = player_init_zero\<lparr>pi_start := ucast (utc_start_time p + utc_seek_time p), pi_stop := ucast (utc_stop_time p),
     pi_speed := 1, switch_to_live := 1, pi_audio := 1, pi_type := utc_record_type p, pi_channel := stream_service p\<rparr>"

definition by_file :: "lv_start_push_stream_param \<Rightarrow> player_init_t" where
  "by_file p = player_init_zero\<lparr>pi_offset := ucast (file_seek_time p), pi_speed := 1, switch_to_live := 1, pi_audio := 1,
     pi_channel := stream_service p, pi_filename := file_name p\<rparr>"

text \<open>The name of the file is copied into an array of 64 bytes; \<open>None\<close> when it does not fit.\<close>

definition start_push_streaming_cb :: "lv_start_push_stream_param \<Rightarrow> bus \<Rightarrow> bus option" where
  "start_push_streaming_cb p b =
     (let k = stream_cmd_type p; live = arg_zero\<lparr>duck := STREAM_SOURCE_LIVE, wolf := stream_service p\<rparr> in
      if k = LV_STREAM_CMD_LIVE then
        (let a = live\<lparr>cat := (if stream_type p = 0 then VIDEO_STREAM_LOW else VIDEO_STREAM_HIGH)\<rparr> in
         Some (tell SERVER_AUDIO (from_aliyun MSG_AUDIO_START a a) (tell SERVER_VIDEO (from_aliyun MSG_VIDEO_START a a) b)))
      else if k = LV_STREAM_CMD_STORAGE_RECORD_BY_UTC_TIME then Some (tell SERVER_PLAYER (player_request (stream_service p) (by_utc p)) b)
      else if k = LV_STREAM_CMD_STORAGE_RECORD_BY_FILE then
        (if file_name p = [] then Some b
         else if length (file_name p) \<ge> 64 then None
         else Some (tell SERVER_PLAYER (player_request (stream_service p) (by_file p)) b))
      else if k = LV_STREAM_CMD_VOICE then Some (tell SERVER_AUDIO (from_aliyun MSG_AUDIO_START (live\<lparr>cat := 2\<rparr>) live) b)
      else Some b)"

definition stop_push_streaming_cb :: "int \<Rightarrow> bus \<Rightarrow> bus" where
  "stop_push_streaming_cb service b =
     (let m = (\<lambda>message. from_aliyun message (arg_zero\<lparr>wolf := service\<rparr>) (arg_zero\<lparr>wolf := service\<rparr>)) in
      tell SERVER_PLAYER (m MSG_PLAYER_STOP) (tell SERVER_AUDIO (m MSG_AUDIO_STOP) (tell SERVER_VIDEO (m MSG_VIDEO_STOP) b)))"

text \<open>The end of a playback and its pauses are sent to the recorder.\<close>

definition to_recorder :: "msg \<Rightarrow> bus \<Rightarrow> bus" where
  "to_recorder m b = b(SERVER_RECORDER := snd (server_recorder_message (b SERVER_RECORDER) m))"

definition on_push_streaming_cmd_cb :: "lv_on_push_stream_cmd_param \<Rightarrow> bus \<Rightarrow> bus" where
  "on_push_streaming_cmd_cb p b =
     (let k = cmd_type p; a = arg_zero\<lparr>wolf := cmd_service p\<rparr>; m = (\<lambda>message. from_aliyun message a a) in
      if k = LV_LIVE_REQUEST_I_FRAME then tell SERVER_VIDEO (m MSG_VIDEO_KEY_FRAME_REQUIRE) b
      else if k = LV_STORAGE_RECORD_START then tell SERVER_PLAYER (m MSG_PLAYER_START) b
      else if k = LV_STORAGE_RECORD_STOP then to_recorder (m MSG_PLAYER_STOP) b
      else if k = LV_STORAGE_RECORD_PAUSE then to_recorder (m MSG_PLAYER_PAUSE) b
      else if k = LV_STORAGE_RECORD_UNPAUSE then to_recorder (m MSG_PLAYER_UNPAUSE) b
      else if k = LV_STORAGE_RECORD_SEEK then
        tell SERVER_PLAYER (from_aliyun MSG_PLAYER_SEEK (a\<lparr>cat := sint (timestamp_ms p)\<rparr>) a) b
      else if k = LV_STORAGE_RECORD_SET_PARAM then
        tell SERVER_PLAYER (from_aliyun MSG_PLAYER_SET_PARAM
          (a\<lparr>cat := sint (timestamp_ms p), dog := sint (set_key_only p), chick := sint (set_speed p)\<rparr>) a) b
      else b)"

definition on_push_streaming_data_cb :: "int \<Rightarrow> bytes \<Rightarrow> bus \<Rightarrow> bus" where
  "on_push_streaming_data_cb service data b =
     tell SERVER_AUDIO (msg_init\<lparr>m_message := MSG_AUDIO_SPEAKER_DATA, m_arg_in := arg_zero\<lparr>cat := SPEAKER_CTL_INTERCOM_DATA, wolf := service\<rparr>,
       m_arg := Some (P_bytes data), m_arg_size := int (length data)\<rparr>) b"

text \<open>What is answered to the cloud, if anything; \<open>None\<close> for a type outside the index.  A number of 0 becomes 32.\<close>

definition query_storage_record_cb ::
  "media_config \<Rightarrow> (char list \<Rightarrow> int) \<Rightarrow> file_manager_t \<Rightarrow> lv_query_record_param option
    \<Rightarrow> (int \<times> nat \<times> lv_query_record_response_day list) option option" where
  "query_storage_record_cb mc sz fm param =
     (case param of
        None \<Rightarrow> Some None
      | Some p \<Rightarrow>
          if query_type p = LV_QUERY_RECORD_BY_DAY then
            (case file_manager_get_file_by_day mc sz fm (day_type p) (if day_num p = 0 then 32 else sint (day_num p))
                (ucast (day_start_time p)) (ucast (day_stop_time p)) of
               None \<Rightarrow> None
             | Some (ret, answer) \<Rightarrow>
                 Some (if ret \<noteq> 0 then None else map_option (\<lambda>(num, days). (query_service p, num, days)) answer))
          else Some None)"

text \<open>The name is written into an array of 128 bytes.\<close>

definition picture_name :: "media_config \<Rightarrow> int \<Rightarrow> char list" where
  "picture_name mc service = media_directory mc @ folder_prefix mc ! LV_STORAGE_RECORD_INITIATIVE @ ''/ss-'' @ sprintf_0d 0 service @ ''.jpg''"

definition trigger_picture_cb :: "media_config \<Rightarrow> int \<Rightarrow> queue \<Rightarrow> queue option" where
  "trigger_picture_cb mc service q =
     (let fname = picture_name mc service in
      if length fname \<ge> 128 then None
      else Some (snd (server_video_snap_message q (msg_init\<lparr>m_sender := SERVER_ALIYUN, m_receiver := SERVER_ALIYUN,
        m_arg_in := arg_zero\<lparr>cat := SNAP_TYPE_CLOUD, wolf := service\<rparr>, m_arg := Some (P_string fname), m_arg_size := int (length fname) + 1\<rparr>))))"

section \<open>The commands of a playback\<close>

lemma idle_push:
  assumes "idle_queue q"
  shows "one_message m (snd (msg_buffer_push q (Some m)))"
proof -
  obtain q' where q': "snd (global_common_send_message (\<lambda>_. q) SERVER_RECORDER m) = (\<lambda>_. q)(SERVER_RECORDER := q')" "one_message m q'"
    using idle_send [of "\<lambda>_. q" SERVER_RECORDER m] assms by (auto simp: is_server_def)
  have "snd (global_common_send_message (\<lambda>_. q) SERVER_RECORDER m) SERVER_RECORDER = snd (msg_buffer_push q (Some m))"
    using assms by (simp add: send_server deliver_def idle_queue_def is_server_def)
  then show ?thesis using q' by simp
qed

lemma recorder_ignores:
  assumes "m_message m \<in> {MSG_PLAYER_PAUSE, MSG_PLAYER_UNPAUSE, MSG_PLAYER_STOP}"
  shows "RecorderServer.handle_message ok m x = x"
  using assms by (elim insertE emptyE) (simp_all add: RecorderServer.handle_message_def)

text \<open>
  C28: Composition with the recorder and the player: the commands that pause a playback, go on with it or end it reach nobody.  They
  are put into the recorder's queue, which drops them, and the player's queue stays as it was.
\<close>

theorem pause_reaches_nobody:
  assumes "cmd_type p \<in> {LV_STORAGE_RECORD_PAUSE, LV_STORAGE_RECORD_UNPAUSE, LV_STORAGE_RECORD_STOP}"
    and "idle_queue (b SERVER_RECORDER)" "msg_lock (info r) = 0"
  shows "let b' = on_push_streaming_cmd_cb p b in
    (\<forall>x. x \<noteq> SERVER_RECORDER \<longrightarrow> b' x = b x)
    \<and> (\<exists>q. idle_queue q \<and> rec_take_message ok (r\<lparr>bus := b'\<rparr>) = r\<lparr>bus := b'(SERVER_RECORDER := q)\<rparr>)"
proof -
  define k where "k = (if cmd_type p = LV_STORAGE_RECORD_PAUSE then MSG_PLAYER_PAUSE
    else if cmd_type p = LV_STORAGE_RECORD_UNPAUSE then MSG_PLAYER_UNPAUSE else MSG_PLAYER_STOP)"
  have k: "k \<in> {MSG_PLAYER_PAUSE, MSG_PLAYER_UNPAUSE, MSG_PLAYER_STOP}" "on_push_streaming_cmd_cb p b
      = to_recorder (from_aliyun k (arg_zero\<lparr>wolf := cmd_service p\<rparr>) (arg_zero\<lparr>wolf := cmd_service p\<rparr>)) b"
    using assms(1) by (auto simp: on_push_streaming_cmd_cb_def Let_def k_def)
  define m where "m = from_aliyun k (arg_zero\<lparr>wolf := cmd_service p\<rparr>) (arg_zero\<lparr>wolf := cmd_service p\<rparr>)"
  let ?b = "to_recorder m b"
  define u where "u = r\<lparr>bus := ?b\<rparr>"
  have one: "one_message m (bus u SERVER_RECORDER)"
    using idle_push [OF assms(2), of m] assms(2) by (simp add: u_def to_recorder_def server_recorder_message_def idle_queue_def)
  have "lock_block u = (False, u)" using assms(3) by (simp add: u_def lock_block_def)
  from take_single [where block = lock_block and own = SERVER_RECORDER, OF this one, of recorder_message_filter "RecorderServer.handle_message ok"]
  obtain q n where q: "idle_queue q" "rec_take_message ok u
      = (if recorder_message_filter (m\<lparr>m_sequence := n\<rparr>) (u\<lparr>bus := (bus u)(SERVER_RECORDER := q)\<rparr>) then u\<lparr>bus := (bus u)(SERVER_RECORDER := q)\<rparr>
         else RecorderServer.handle_message ok (m\<lparr>m_sequence := n\<rparr>) (u\<lparr>bus := (bus u)(SERVER_RECORDER := q)\<rparr>))"
    unfolding rec_take_message_def by blast
  have "RecorderServer.handle_message ok (m\<lparr>m_sequence := n\<rparr>) x = x" for x
    using k(1) by (intro recorder_ignores) (simp add: m_def from_aliyun_def)
  then have "rec_take_message ok u = u\<lparr>bus := (bus u)(SERVER_RECORDER := q)\<rparr>" using q(2) by simp
  then have "rec_take_message ok (r\<lparr>bus := ?b\<rparr>) = r\<lparr>bus := ?b(SERVER_RECORDER := q)\<rparr>" by (simp add: u_def)
  moreover have "on_push_streaming_cmd_cb p b = ?b" using k(2) by (simp add: m_def)
  ultimately show ?thesis using q(1) by (auto simp: Let_def to_recorder_def)
qed

section \<open>A recording that is asked for\<close>

lemma new_job_found:
  assumes "find_job_channel js channel n = None" "free_job js n = Some i" "pi_channel ini = channel"
  shows "n \<le> i \<and> i - n < length js \<and> find_job_channel (js[i - n := new_job ini t]) channel n = Some i"
  using assms
proof (induction js arbitrary: n)
  case (Cons j js)
  show ?case
  proof (cases "pj_status j = 0")
    case True
    then show ?thesis using Cons.prems by (simp add: new_job_def)
  next
    case False
    then have f: "find_job_channel js channel (n + 1) = None" "free_job js (n + 1) = Some i" "\<not> (pj_status j > 0 \<and> pi_channel (pj_init j) = channel)"
      using Cons.prems by (auto split: if_splits)
    note h = Cons.IH [OF f(1,2) assms(3)]
    then obtain k where k: "i - n = Suc k" "i - (n + 1) = k" by (cases "i - n") auto
    have "(j # js)[i - n := new_job ini t] = j # js[i - (n + 1) := new_job ini t]" using k by simp
    moreover have "find_job_channel (j # js[i - (n + 1) := new_job ini t]) channel n = Some i"
      using h f(3) by (metis find_job_channel.simps(2))
    ultimately show ?thesis using h k f(3) by simp
  qed
qed simp

text \<open>The player with a single message waiting.\<close>

lemma player_takes:
  assumes "idle_queue (b SERVER_PLAYER)" "msg_lock (info p) = 0" "status (info p) < STATUS_ERROR"
    and "b' SERVER_PLAYER = tell SERVER_PLAYER m b SERVER_PLAYER"
  shows "\<exists>q n. player_take_message ok exists_file (p\<lparr>bus := b'\<rparr>)
    = PlayerServer.handle_message ok exists_file (m\<lparr>m_sequence := n\<rparr>) (p\<lparr>bus := b'(SERVER_PLAYER := q)\<rparr>)"
proof -
  have one: "one_message m (bus (p\<lparr>bus := b'\<rparr>) SERVER_PLAYER)"
    using idle_send [of b SERVER_PLAYER m] assms(1,4) by (auto simp: is_server_def)
  have "lock_block (p\<lparr>bus := b'\<rparr>) = (False, p\<lparr>bus := b'\<rparr>)" using assms(2) by (simp add: lock_block_def)
  from take_single [where block = lock_block and own = SERVER_PLAYER, OF this one, of player_message_filter "PlayerServer.handle_message ok exists_file"]
  show ?thesis using assms(3) by (auto simp: player_take_message_def player_message_filter_def error_filter_def)
qed

text \<open>
  C29: Composition with the player: a recording that is asked for by the name of its file, and is there, becomes a job of the
  running player that answers to the service that asked for it; it plays that file, with its sound, from the offset that was
  asked for, of which the player keeps the lowest byte.
\<close>

theorem named_recording_plays:
  assumes "stream_cmd_type c = LV_STREAM_CMD_STORAGE_RECORD_BY_FILE" "file_name c \<noteq> []" "length (file_name c) < 64" "exists_file (file_name c)"
    and "idle_queue (b SERVER_PLAYER)" "msg_lock (info p) = 0" "status (info p) = STATUS_RUN"
    and "find_job_channel (p_jobs p) (stream_service c) 0 = None" "free_job (p_jobs p) 0 = Some i"
  shows "\<exists>b'. start_push_streaming_cb c b = Some b'
    \<and> (let p' = player_take_message True exists_file (p\<lparr>bus := b'\<rparr>); j = p_jobs p' ! i in
       find_job_channel (p_jobs p') (stream_service c) 0 = Some i \<and> (\<forall>x. x \<noteq> i \<longrightarrow> p_jobs p' ! x = p_jobs p ! x)
       \<and> pi_filename (pj_init j) = file_name c \<and> unat (pi_offset (pj_init j)) = unat (file_seek_time c) mod 256 \<and> pj_audio j = 1 \<and> pj_run j)"
proof -
  let ?m = "player_request (stream_service c) (by_file c)"
  have s: "start_push_streaming_cb c b = Some (tell SERVER_PLAYER ?m b)" using assms(1-3) by (simp add: start_push_streaming_cb_def)
  obtain q n where q: "player_take_message True exists_file (p\<lparr>bus := tell SERVER_PLAYER ?m b\<rparr>)
      = PlayerServer.handle_message True exists_file (?m\<lparr>m_sequence := n\<rparr>) (p\<lparr>bus := (tell SERVER_PLAYER ?m b)(SERVER_PLAYER := q)\<rparr>)"
    using player_takes [of b p "tell SERVER_PLAYER ?m b" ?m True exists_file] assms(5-7) by auto
  have "by_name (by_file c)" using assms(2) by (simp add: by_name_def by_file_def player_init_zero_def)
  moreover have ch: "pi_channel (by_file c) = stream_service c" and "pi_filename (by_file c) = file_name c"
    by (simp_all add: by_file_def)
  ultimately have j: "p_jobs (player_take_message True exists_file (p\<lparr>bus := tell SERVER_PLAYER ?m b\<rparr>)) = (p_jobs p)[i := new_job (by_file c) i]"
    using q assms(4,7-9)
    by (simp add: PlayerServer.handle_message_def player_add_job_def playable_def player_request_def from_aliyun_def Let_def)
  have i: "i < length (p_jobs p)" "find_job_channel ((p_jobs p)[i := new_job (by_file c) i]) (stream_service c) 0 = Some i"
    using new_job_found [OF assms(8,9) ch, of i] by simp_all
  have o: "unat (ucast (file_seek_time c) :: u8) = unat (file_seek_time c) mod 256" by (simp add: unsigned_ucast_eq take_bit_eq_mod)
  show ?thesis
    by (rule exI [of _ "tell SERVER_PLAYER ?m b"]) (use s j i o in \<open>simp add: new_job_def by_file_def Let_def\<close>)
qed

text \<open>The end of the service does reach it.\<close>

lemma push_stop_ends_job:
  assumes "idle_queue (b SERVER_PLAYER)" "msg_lock (info p) = 0" "status (info p) < STATUS_ERROR"
    and "find_job_channel (p_jobs p) service 0 = Some i" "i < length (p_jobs p)"
  shows "pj_exit (p_jobs (player_take_message ok exists_file (p\<lparr>bus := stop_push_streaming_cb service b\<rparr>)) ! i) = 1"
proof -
  let ?a = "arg_zero\<lparr>wolf := service\<rparr>"
  let ?m = "from_aliyun MSG_PLAYER_STOP ?a ?a"
  have "stop_push_streaming_cb service b SERVER_PLAYER = tell SERVER_PLAYER ?m b SERVER_PLAYER"
    by (simp add: stop_push_streaming_cb_def Let_def send_server is_server_def deliver_def)
  then obtain q n where
    "player_take_message ok exists_file (p\<lparr>bus := stop_push_streaming_cb service b\<rparr>) = PlayerServer.handle_message ok exists_file
      (?m\<lparr>m_sequence := n\<rparr>) (p\<lparr>bus := (stop_push_streaming_cb service b)(SERVER_PLAYER := q)\<rparr>)"
    using player_takes [of b p "stop_push_streaming_cb service b" ?m ok exists_file] assms(1-3) by blast
  then show ?thesis using assms(4,5) by (simp add: PlayerServer.handle_message_def player_stop_job_def on_channel_def from_aliyun_def)
qed

text \<open>A recording of any type makes the player read outside its index, which has three types.\<close>

lemma any_type_reads_outside:
  assumes "stream_cmd_type c = LV_STREAM_CMD_STORAGE_RECORD_BY_UTC_TIME" "utc_record_type c = 99" "length (flist (p_index p)) = 3"
    and "idle_queue (b SERVER_PLAYER)" "msg_lock (info p) = 0" "status (info p) = STATUS_RUN"
  shows "\<exists>b'. start_push_streaming_cb c b = Some b' \<and> p_fault (player_take_message ok exists_file (p\<lparr>bus := b'\<rparr>))"
proof -
  let ?m = "player_request (stream_service c) (by_utc c)"
  have s: "start_push_streaming_cb c b = Some (tell SERVER_PLAYER ?m b)" using assms(1) by (simp add: start_push_streaming_cb_def)
  obtain q n where q: "player_take_message ok exists_file (p\<lparr>bus := tell SERVER_PLAYER ?m b\<rparr>)
      = PlayerServer.handle_message ok exists_file (?m\<lparr>m_sequence := n\<rparr>) (p\<lparr>bus := (tell SERVER_PLAYER ?m b)(SERVER_PLAYER := q)\<rparr>)"
    using player_takes [of b p "tell SERVER_PLAYER ?m b" ?m ok exists_file] assms(4-6) by auto
  have "playable exists_file (p_index p) (by_utc c) = None"
    using assms(2,3) by (simp add: playable_def by_name_def by_utc_def player_init_zero_def array_get_def)
  then have "p_fault (player_take_message ok exists_file (p\<lparr>bus := tell SERVER_PLAYER ?m b\<rparr>))"
    using q assms(6) by (simp add: PlayerServer.handle_message_def player_add_job_def player_request_def from_aliyun_def Let_def)
  then show ?thesis using s by blast
qed

section \<open>A picture that is asked for\<close>

text \<open>What the encoder and the server do for a picture that works out.\<close>

definition picture_calls :: "snap_env \<Rightarrow> char list \<Rightarrow> int \<Rightarrow> video_call list" where
  "picture_calls env name service = [Snap_start 0, Snap_trigger 0, Snap_got, Snap_file name (concat (snap_packs env)),
     Post_picture service (concat (snap_packs env)), Snap_released (snap_release env), Snap_stop (stop_recv env)]"

text \<open>
  C32: Composition with the snapshot thread: a picture the cloud asks for is taken, kept in the folder of the pictures under the
  number of the service, posted to the service that asked, and given back to the encoder, which is stopped.
\<close>

theorem asked_picture_posted:
  assumes "trigger_picture_cb mc service q = Some q'" "idle_queue q" "picture_taken env" "file_opens env" "image_malloc_ok env"
    and "0 < length (concat (snap_packs env))" "length (concat (snap_packs env)) \<le> SNAP_IMAGE_LIMIT"
    and "\<not> Video.thread_told (VIDEO_THREAD_ENCODER + ch) v"
  shows "case video_snap_func env ch repeat (v\<lparr>snap_buff := q'\<rparr>) of (goes_on, n, v') \<Rightarrow>
    goes_on \<and> n = repeat \<and> idle_queue (snap_buff v') \<and> video_calls v' = video_calls v @ picture_calls env (picture_name mc service) service"
proof -
  define m where "m = msg_init\<lparr>m_sender := SERVER_ALIYUN, m_receiver := SERVER_ALIYUN,
    m_arg_in := arg_zero\<lparr>cat := SNAP_TYPE_CLOUD, wolf := service\<rparr>, m_arg := Some (P_string (picture_name mc service)),
    m_arg_size := int (length (picture_name mc service)) + 1\<rparr>"
  have q': "q' = snd (msg_buffer_push q (Some m))" "length (picture_name mc service) < 128"
    using assms(1,2) by (auto simp: trigger_picture_cb_def m_def Let_def server_video_snap_message_def idle_queue_def split: if_splits)
  have "one_message m q'" using idle_push [OF assms(2)] q'(1) by simp
  then obtain n where n: "ring_wf q'" "b_init q' \<noteq> 0" "contents q' = [m\<lparr>m_sequence := n\<rparr>]" by (auto simp: one_message_def)
  have "0 < ring_count q'" using n(3) by (metis length_contents length_greater_0_conv list.distinct(1))
  note e = evict_props [OF n(1) this]
  have idle: "idle_queue (evict q')" using e n by (simp add: idle_queue_def)
  have pop: "msg_buffer_pop q' msg_init = (0, m\<lparr>m_sequence := n\<rparr>, evict q')" by (rule pop_nonempty [OF n(1,3)])
  let ?m = "m\<lparr>m_sequence := n\<rparr>"
  have m: "cat (m_arg_in ?m) = 2" "wolf (m_arg_in ?m) = service" "m_arg ?m = Some (P_string (picture_name mc service))" "m_message ?m = 0"
    by (simp_all add: m_def arg_zero_def msg_init_def)
  have p: "post_picture env ?m x = video_do (Post_picture service (concat (snap_packs env))) x" for x
    using assms(5-7) m by (simp add: post_picture_def)
  have u: "use_picture env ?m x = (False, True, video_do (Post_picture service (concat (snap_packs env)))
      (video_do (Snap_file (picture_name mc service) (concat (snap_packs env))) x))" for x
    using assms(4) m q'(2) p by (simp add: use_picture_def)
  show ?thesis
    using assms(3,8) pop idle m u
    by (simp add: video_snap_func_def snap_request_def take_picture_def picture_taken_def picture_calls_def Video.thread_told_def Let_def)
qed

text \<open>A list of all recordings of a day, asked for by the number 0, ends with the 32nd.\<close>

lemma all_recordings_are_32:
  assumes "fm_init fm" "\<forall>j \<in> set (day_types (day_type p)). j < length (flist fm)" "query_type p = LV_QUERY_RECORD_BY_DAY" "day_num p = 0"
  defines "files \<equiv> day_files fm (day_type p) (ucast (day_start_time p)) (ucast (day_stop_time p))"
  shows "query_storage_record_cb mc sz fm (Some p)
    = Some (Some (query_service p, min 32 (length files), map (day_record mc sz) (take 32 files)))"
  using assms by (simp add: query_storage_record_cb_def get_file_by_day_spec)

section \<open>Witnesses\<close>

definition demo_command :: lv_on_push_stream_cmd_param where
  "demo_command = \<lparr>cmd_service = 1, cmd_type = 1, timestamp_ms = 0, set_speed = 1, set_key_only = 0\<rparr>"

definition demo_recording :: lv_start_push_stream_param where
  "demo_recording = \<lparr>stream_service = 3, stream_cmd_type = 6, stream_type = 0, utc_start_time = 0, utc_stop_time = 0, utc_seek_time = 0,
     utc_record_type = 0, file_seek_time = 300, file_name = ''a''\<rparr>"

theorem pause_reaches_nobody_witness:
  "\<exists>q. idle_queue q \<and> rec_take_message True (RecorderServer.demo_server\<lparr>bus := on_push_streaming_cmd_cb demo_command (\<lambda>_. demo_queue 1)\<rparr>)
    = RecorderServer.demo_server\<lparr>bus := (on_push_streaming_cmd_cb demo_command (\<lambda>_. demo_queue 1))(SERVER_RECORDER := q)\<rparr>"
  using pause_reaches_nobody [of demo_command "\<lambda>_. demo_queue 1" RecorderServer.demo_server True]
  by (simp add: demo_command_def demo_idle RecorderServer.demo_server_def info_zero_def Let_def)

theorem named_recording_plays_witness:
  "\<exists>b'. start_push_streaming_cb demo_recording (\<lambda>_. demo_queue 1) = Some b'
    \<and> unat (pi_offset (pj_init (p_jobs (player_take_message True (\<lambda>_. True)
        ((with_info (\<lambda>x. x\<lparr>status := STATUS_RUN\<rparr>) (demo_player_server\<lparr>p_jobs := [player_job_zero]\<rparr>))\<lparr>bus := b'\<rparr>)) ! 0))) = 44"
proof -
  let ?p = "with_info (\<lambda>x. x\<lparr>status := STATUS_RUN\<rparr>) (demo_player_server\<lparr>p_jobs := [player_job_zero]\<rparr>)"
  have "idle_queue ((\<lambda>_. demo_queue 1) SERVER_PLAYER :: queue)" by (simp add: demo_idle)
  moreover have "msg_lock (info ?p) = 0" "status (info ?p) = STATUS_RUN" "find_job_channel (p_jobs ?p) (stream_service demo_recording) 0 = None"
    "free_job (p_jobs ?p) 0 = Some 0"
    by (simp_all add: demo_player_server_def info_zero_def player_job_zero_def)
  moreover have "stream_cmd_type demo_recording = 6" "file_name demo_recording = ''a''" "file_seek_time demo_recording = 300" by (simp_all add: demo_recording_def)
  ultimately obtain b' where "start_push_streaming_cb demo_recording (\<lambda>_. demo_queue 1) = Some b'"
    "unat (pi_offset (pj_init (p_jobs (player_take_message True (\<lambda>_. True) (?p\<lparr>bus := b'\<rparr>)) ! 0))) = 300 mod 256"
    using named_recording_plays [of demo_recording "\<lambda>_. True" "\<lambda>_. demo_queue 1" ?p 0] by (auto simp: Let_def)
  then show ?thesis by auto
qed

theorem asked_picture_posted_witness:
  "case trigger_picture_cb FileManager.demo_config 5 (demo_queue 1) of None \<Rightarrow> False
    | Some q' \<Rightarrow> Post_picture 5 [0xff, 0xd8] \<in> set (video_calls (snd (snd (video_snap_func (demo_shot []) 1 0 (demo_video\<lparr>snap_buff := q'\<rparr>)))))"
proof -
  have sprintf5: "sprintf_0d 0 5 = ''5''" by code_simp
  obtain q' where q': "trigger_picture_cb FileManager.demo_config 5 (demo_queue 1) = Some q'"
    using sprintf5 by (cases "trigger_picture_cb FileManager.demo_config 5 (demo_queue 1)")
      (auto simp: trigger_picture_cb_def picture_name_def FileManager.demo_config_def Let_def)
  show ?thesis
    using asked_picture_posted [OF q' demo_idle, of "demo_shot []" 1 demo_video 0] q'
    by (simp add: picture_taken_def demo_shot_def picture_calls_def Video.thread_told_def demo_video_def info_zero_def misc_get_bit_def split: prod.splits)
qed

end
