(* ===== verification/Spec2Isabelle.thy ===== *)
theory Spec2Isabelle
  imports Urgency ManagerProps Composition Config MediaStart VideoFaults VideoMedia AliyunProps CloudControlProps CloudStreams
begin

text \<open>
  Verification of the firmware of a Goke IP camera (\<open>src/\<close>).

  \<^bold>\<open>The program.\<close>  \<open>src/main.c\<close> starts the manager; the manager starts seven servers, each a
  thread with a ring buffer of messages: device, goke, aliyun, video, audio, recorder and
  player.  A server talks to another only by pushing a message on its ring
  (\<open>global_common_send_message\<close>, \<open>src/global/common.c\<close>); each server loops over a state
  machine on its status, a task function, and one message from its ring.  The recorder and the
  player start threads of their own, which get the frames of the video and audio servers
  through rings of the same kind.  The device server keeps the index of the recordings on the
  card, which the recorder fills and the player searches.

  \<^bold>\<open>The theories, and what they model.\<close>
  \<^item> \<open>Prelude\<close>: arrays that can be read out of range (\<open>array_get\<close>), bits of integers, words,
    and the locale \<open>progress\<close> (a measure that falls until a goal is reached).
  \<^item> \<open>CMisc\<close>: \<open>src/common/misc.c\<close> (bit sets, substrings, hexadecimal) and
    \<open>src/common/h264.c\<close> (the scanner that cuts a frame into its units).
  \<^item> \<open>MsgBuffer\<close>: \<open>src/common/buffer/msg_buffer.c\<close>, the ring with its two overflow policies.
    The locale \<open>fifo\<close> is its contract, a bounded queue; the ring is an instance of it.
  \<^item> \<open>Messages\<close>, \<open>MessageNames\<close>: the identifiers of \<open>src/global/global_interface.h\<close>, and the
    name tables of \<open>src/global/common.c\<close>.
  \<^item> \<open>Bus\<close>: the rings of all servers and the dispatch to them.
  \<^item> \<open>ServerInfo\<close>: the status record of a server (\<open>manager_interface.h\<close>).
  \<^item> \<open>CStr\<close>: the C strings the program uses (\<open>atoi\<close>, \<open>strstr\<close>) and the time texts of
    \<open>src/common/time.c\<close>.
  \<^item> \<open>Timer\<close>: the timer table of \<open>src/server/manager/timer.c\<close>, with the milliseconds in
    32 bits.
  \<^item> \<open>Sleep\<close>: the schedule of \<open>src/server/manager/sleep.c\<close>.
  \<^item> \<open>Manager\<close>, \<open>ManagerProps\<close>: \<open>src/server/manager/manager.c\<close>, its tasks, its message
    handler, its timer thread, and what they do together.
  \<^item> \<open>FileManager\<close>: \<open>src/server/device/file_manager.c\<close>, the index of recordings.
  \<^item> \<open>Recorder\<close>: the recording thread of \<open>src/server/recorder/recorder.c\<close>.
  \<^item> \<open>ServerLoop\<close>: the frame the servers share: the loop, the wait for messages, the exit
    ladder.  Its locales \<open>thread_pool\<close> and \<open>exit_ladder\<close> state what a server's own functions
    must promise, and show that such a server leaves its loop.
  \<^item> \<open>RecorderServer\<close>: the server of \<open>recorder.c\<close>, an instance of the frame.
  \<^item> \<open>Player\<close>: opening, seeking and sending recordings, of \<open>src/server/player/player.c\<close>.
  \<^item> \<open>PlayerServer\<close>: its threads, its job table and its server, an instance of the frame.
  \<^item> \<open>SdCard\<close>: the life of the card in \<open>src/server/device/gk_sd.c\<close>: its states, the hotplug
    events, the format protocol.
  \<^item> \<open>Board\<close>: the GPIO lines (\<open>gk_gpio.c\<close>) and the motors (\<open>gk_motor.c\<close>).
  \<^item> \<open>Device\<close>: \<open>src/server/device/device.c\<close>, its three threads, the reset button and the
    server, an instance of the frame.
  \<^item> \<open>Config\<close>: the table of \<open>src/global/config.c\<close> and the conversions of
    \<open>src/common/config/rwio.c\<close> between the configuration and its file.
  \<^item> \<open>MsgBlock\<close>: how the audio, video and aliyun servers defer messages while a task holds
    their lock, and what counts as urgent (\<open>audio_message_block\<close> and its two copies).
    \<open>Urgency\<close>: which messages of the enumeration the lock and the filters hold back.
  \<^item> \<open>Goke\<close>: \<open>src/server/goke/goke.c\<close>, the owner of the media system, an instance of the frame.
  \<^item> \<open>Audio\<close>: \<open>src/server/audio/audio.c\<close>, its channels, the stages of its hardware, its sounds,
    its stream thread, its task and its server, an instance of the frame.
  \<^item> \<open>VideoInput\<close>: the five parts of the video input in \<open>src/server/goke/hisi/hisi_vi.c\<close>.
  \<^item> \<open>Video\<close>, \<open>VideoServer\<close>: \<open>src/server/video/video.c\<close>, its channels, its stream threads, its
    properties; its set-up, start, stop, tasks and loop.  \<open>VideoProps\<close>: what it promises of its
    channels, its start and its restart.  \<open>VideoExit\<close>: the server as an instance of the frame.
    \<open>VideoFaults\<close>: what keeps it in its loop, and its second start.
  \<^item> \<open>Motion\<close>: its motion detection, with \<open>src/server/goke/hisi/hisi_ive.c\<close>; \<open>Snapshot\<close>: its
    pictures for the cloud and for alarms, and its search for a bar code.
  \<^item> \<open>Aliyun\<close>, \<open>AliyunProps\<close>: \<open>src/server/aliyun/aliyun.c\<close> and the connection in
    \<open>linkkit_client.c\<close>: the search for a network, the connection to the cloud, the server, an instance of
    the frame.  \<open>CloudControl\<close>, \<open>CloudControlProps\<close>: the properties, the services and the
    reports of \<open>linkkit_client.c\<close>.  \<open>CloudStreams\<close>: the callbacks of \<open>linkvisual_client.c\<close>.
  \<^item> \<open>Composition\<close>, \<open>MediaStart\<close>: servers together on one bus: the recorder and the device
    server about the card, the audio and the goke server about the media system.
    \<open>VideoMedia\<close>: picture and sound of one viewer, and the alarms that start a recording.

  \<^bold>\<open>Correspondence.\<close>  A C structure is a record with the C field names (prefixed where they
  clash), an array a list, an enumeration the integers of the source.  A message carries its
  two memory blocks as optional payloads.  The globals of a server are the fields of its state
  record; a function that changes them takes the state and returns it.  A read or a
  write out of range makes a definition return \<open>None\<close>, or sets the fault flag of the ring.
  Where the code may run forever a bound on the number of rounds is an argument, and the
  result says that it ran out.  What the operating system, the media library or another thread
  answers is an argument, in most theories gathered in a record \<open>*_env\<close>.

  \<^bold>\<open>What the properties show.\<close>  The ring keeps its invariant and is a bounded queue, under
  both policies and through reordering.  The scanner cuts frames at start codes.  Every
  message identifier and server has a name, and names fit their buffers.  A message goes to the
  one server it is sent to; a server that is not set up refuses it, except the manager, which writes
  through a null pointer.  The timer table keeps its invariant, and timers fire
  by their interval; the sleep schedule is a window of the day.  The manager starts the configured
  servers, never completes its sleep task, and leaves its loop once its servers answered.
  The file search is equal to a filter of the index, but finds nothing for a period that starts
  behind the start of the newest file; a new scan of a folder rebuilds the index, keeps the recordings
  and their pictures and removes the rest; and cleaning the card ends when there is something to
  remove, and does not when there is not.  A recording thread keeps the protocol of the MP4 library, and the recorder's job table hands out its
  three entries and takes them back.
  The recorder, player, device, goke, audio, video and aliyun servers, told to exit, leave their loops.  A playback
  sends all samples of a recording but the last.  The card is formatted only after the
  recorder and the player have given it up, and comes back with a fresh index; a card that is plugged in is
  mounted; five presses of the button reset the configuration.  A configuration within its bounds
  survives its file, and any file gives one within its bounds, with the values of the file where they
  are, unless a string has no text or one that is too long.  A busy
  server handles urgent messages first and keeps the order of the others, but all messages except six
  pass for urgent, so that a second request takes the place of a waiting one, and an exit that meets a
  waiting request is acknowledged too soon.  The stages of the audio hardware and the media
  system are brought up and down in turns through any failures, except that an encoder whose thread and
  whose stop fail is left running; the audio stream does not survive a
  second without a frame, and a stream thread that fails at once blocks the exit.
  The video server gives no viewer two channels, and the first frame that reaches a viewer in the
  cloud is a key frame; a start that succeeded does nothing when it is repeated.  A restart ends the
  server instead, its exit waits for the thread of the image processor, and once it has exited it
  never runs again.  The motion detection compares neighbouring frames, stays inside its table of regions
  and keeps the interval between alarms, of which each starts one recording.  A snapshot is given
  back to the encoder but when its file cannot be opened, and the search for a bar code ends with the
  first picture that shows one.  With the bar code of a network the aliyun server starts to connect; it goes
  on trying until the cloud answers, but every connection leaves a message in its queue that never stops.
  What the cloud sets reaches the video server, except for the quality of its second stream, and the lights
  show the connection.  A recording and a picture the cloud asks for come about; the commands to pause a
  playback are lost.

  \<^bold>\<open>Bounds and fuel.\<close>  The search over the ring runs at most \<open>b_size\<close> steps and is given that
  many; the binary search is defined by its shrinking interval and needs none.  The cleaning of the card has its number of passes as
  an argument: \<open>clean_disk_frees_space\<close> shows that some number is enough and
  \<open>clean_disk_never_returns\<close> that none is.  The exit of a server takes at most nine rounds.

  \<^bold>\<open>Not modelled.\<close>  The vendored trees (\<open>smart_living\<close>, \<open>gmp\<close>, \<open>library_goke\<close>, and \<open>cJSON\<close>
  apart from looking up and creating items), the wrappers of the media library under
  \<open>server/goke/hisi\<close> apart from the order of the video input's parts and the motion detection, the
  floating-point scaling of a region (an argument), the drawing of the overlays, the library of the cloud behind the aliyun server (its calls are recorded, its
  answers are arguments) and the query for new firmware, the
  information kept in flash (\<open>config_devinfo_get\<close>), and what only calls the operating
  system (logs, watchdog, wifi, network time).  The interleaving of threads is modelled
  at the granularity of the rounds of a loop; data races inside a round are not.
\<close>

end
